(* ===== verification/Prelude.thy ===== *)
theory Prelude
  imports Main "HOL-Library.Char_ord" "HOL-Library.List_Lexorder" "HOL-Library.Multiset"
begin

text \<open>
  Shared vocabulary of the development: errors as values, the early-return combinators that
  translate Go's \<open>if err != nil { return err }\<close>, loops that stop at the first error, int64
  arithmetic, slices whose nil-ness is observable, and the generic lemmas on sorted keys that
  the components share.
\<close>

section \<open>Errors as values\<close>

text \<open>
  The sentinel error variables of the packages under \<open>src/internal\<close> and of \<open>src/logicresolver\<close>.  \<open>Plain\<close> is an error built by
  \<open>fmt.Errorf\<close> with no sentinel.  The text of an error is the literal text of its format string,
  with the formatted operands left out.
\<close>

datatype sentinel =
    Plain
  | ErrInvalidBasis
  | ErrInvalidTargets
  | ErrInvalidPayload
  | ErrInvalidClosureCut
  | ErrClosureLimitExceeded
  | ErrInvalidProjection
  | ErrInput
  | ErrUnsupported
  | ErrLimit
  | ErrProtocol
  | ErrValidation
  | ErrGuarantee

datatype error = Error sentinel string

type_synonym 'a result = "error + 'a"

text \<open>The equations that let the simplifier read a successful run of a chain of checks backwards.\<close>

named_theorems returns

fun sentinel_of :: "error \<Rightarrow> sentinel" where
  "sentinel_of (Error s m) = s"

text \<open>\<open>x, err := m; if err != nil { return err }; f x\<close>\<close>

fun and_then :: "'e + 'a \<Rightarrow> ('a \<Rightarrow> 'e + 'b) \<Rightarrow> 'e + 'b" where
  "and_then (Inl e) f = Inl e"
| "and_then (Inr x) f = f x"

text \<open>\<open>fmt.Errorf("%w: %v", s, err)\<close>: only the new sentinel is visible to \<open>errors.Is\<close>.\<close>

fun wrap :: "sentinel \<Rightarrow> 'a result \<Rightarrow> 'a result" where
  "wrap s (Inl (Error s' m)) = Inl (Error s m)"
| "wrap s (Inr x) = Inr x"

text \<open>\<open>fmt.Errorf("p%w", err)\<close>: the sentinel stays visible.\<close>

fun in_context :: "string \<Rightarrow> 'a result \<Rightarrow> 'a result" where
  "in_context p (Inl (Error s m)) = Inl (Error s (p @ m))"
| "in_context p (Inr x) = Inr x"

text \<open>\<open>for _, x := range xs { if err := f(x); err != nil { return err } }\<close>\<close>

fun each :: "('a \<Rightarrow> 'e + unit) \<Rightarrow> 'a list \<Rightarrow> 'e + unit" where
  "each f [] = Inr ()"
| "each f (x # xs) = and_then (f x) (\<lambda>_. each f xs)"

text \<open>The same loop threading the variables that the body assigns.\<close>

fun fold_res :: "('s \<Rightarrow> 'a \<Rightarrow> 'e + 's) \<Rightarrow> 's \<Rightarrow> 'a list \<Rightarrow> 'e + 's" where
  "fold_res f s [] = Inr s"
| "fold_res f s (x # xs) = and_then (f s x) (\<lambda>s'. fold_res f s' xs)"

lemma and_then_Inr [returns]: "and_then m f = Inr y \<longleftrightarrow> (\<exists>x. m = Inr x \<and> f x = Inr y)"
  by (cases m) auto

lemma and_then_Inl: "and_then m f = Inl e \<longleftrightarrow> m = Inl e \<or> (\<exists>x. m = Inr x \<and> f x = Inl e)"
  by (cases m) auto

lemma wrap_Inr [returns]: "wrap s m = Inr x \<longleftrightarrow> m = Inr x"
proof (cases m)
  case (Inl e)
  then show ?thesis by (cases e) simp
qed simp

lemma wrap_Inl: "wrap s m = Inl e \<Longrightarrow> sentinel_of e = s"
proof (cases m)
  case (Inl e')
  assume "wrap s m = Inl e"
  with Inl show ?thesis by (cases e') auto
qed simp

lemma in_context_Inr [returns]: "in_context p m = Inr x \<longleftrightarrow> m = Inr x"
proof (cases m)
  case (Inl e)
  then show ?thesis by (cases e) simp
qed simp

lemma if_Inl_eq_Inr [returns]:
  "(if c then Inl e else r) = Inr y \<longleftrightarrow> \<not> c \<and> r = Inr y"
  "(if c then r else Inl e) = Inr y \<longleftrightarrow> c \<and> r = Inr y"
  by auto

lemma each_Inr [returns]: "each f xs = Inr u \<longleftrightarrow> (\<forall>x\<in>set xs. f x = Inr ())"
  by (induction xs) (auto simp: returns)

lemma each_cong [fundef_cong]:
  "xs = ys \<Longrightarrow> (\<And>x. x \<in> set ys \<Longrightarrow> f x = g x) \<Longrightarrow> each f xs = each g ys"
proof (induction xs arbitrary: ys)
  case (Cons x xs)
  then show ?case by (cases "g x") auto
qed simp

lemma fold_res_append:
  "fold_res f s (xs @ ys) = and_then (fold_res f s xs) (\<lambda>s'. fold_res f s' ys)"
proof (induction xs arbitrary: s)
  case (Cons x xs)
  then show ?case by (cases "f s x") auto
qed simp

text \<open>The invariant rule of the loop: what the body keeps at every element holds at the end.\<close>

lemma fold_res_invariant:
  assumes "fold_res f s xs = Inr s'" and "I s"
    and "\<And>s x s'. x \<in> set xs \<Longrightarrow> I s \<Longrightarrow> f s x = Inr s' \<Longrightarrow> I s'"
  shows "I s'"
  using assms
proof (induction xs arbitrary: s)
  case (Cons x xs)
  then show ?case by (auto simp: returns)
qed simp

lemma fold_res_map: "fold_res f s (map g xs) = fold_res (\<lambda>s x. f s (g x)) s xs"
proof (induction xs arbitrary: s)
  case (Cons x xs)
  then show ?case by (cases "f s (g x)") auto
qed simp

text \<open>The sentinels that \<open>errors.Is\<close> can find in the error of a computation.\<close>

definition fails_with :: "sentinel set \<Rightarrow> 'a result \<Rightarrow> bool" where
  "fails_with S m \<longleftrightarrow> (\<forall>e. m = Inl e \<longrightarrow> sentinel_of e \<in> S)"

named_theorems fails

lemma fails_with_simps [simp]:
  "fails_with S (Inr x)" "fails_with S (Inl e) \<longleftrightarrow> sentinel_of e \<in> S"
  by (simp_all add: fails_with_def)

lemma fails_mono: "fails_with S m \<Longrightarrow> S \<subseteq> T \<Longrightarrow> fails_with T m"
  by (auto simp: fails_with_def)

lemma fails_and_then [fails]:
  "fails_with S m \<Longrightarrow> (\<And>x. m = Inr x \<Longrightarrow> fails_with S (f x)) \<Longrightarrow> fails_with S (and_then m f)"
  by (cases m) auto

lemma fails_wrap [fails]: "s \<in> S \<Longrightarrow> fails_with S (wrap s m)"
  using wrap_Inl by (auto simp: fails_with_def)

lemma fails_if [fails]:
  "(c \<Longrightarrow> fails_with S m) \<Longrightarrow> (\<not> c \<Longrightarrow> fails_with S n) \<Longrightarrow> fails_with S (if c then m else n)"
  by simp

lemma fails_each [fails]: "(\<And>x. x \<in> set xs \<Longrightarrow> fails_with S (f x)) \<Longrightarrow> fails_with S (each f xs)"
  by (induction xs) (auto intro: fails_and_then)

lemma fails_fold_res [fails]: "(\<And>s x. x \<in> set xs \<Longrightarrow> fails_with S (f s x)) \<Longrightarrow> fails_with S (fold_res f s xs)"
  by (induction xs arbitrary: s) (auto intro: fails_and_then)

text \<open>
  A function with the named results \<open>(r, err)\<close> returns the partial result \<open>r\<close> beside the error:
  \<open>if x, err = m; err != nil { return r, err }; f x\<close>.
\<close>

fun returning :: "'r \<Rightarrow> 'a result \<Rightarrow> ('a \<Rightarrow> 'r \<times> error option) \<Rightarrow> 'r \<times> error option" where
  "returning r (Inl e) f = (r, Some e)"
| "returning r (Inr x) f = f x"

fun checked :: "error option \<Rightarrow> unit result" where
  "checked None = Inr ()"
| "checked (Some e) = Inl e"

lemma returning_None [returns]: "returning r m f = (r', None) \<longleftrightarrow> (\<exists>x. m = Inr x \<and> f x = (r', None))"
  by (cases m) auto

lemma checked_Inr [returns]: "checked e = Inr u \<longleftrightarrow> e = None"
  by (cases e) auto

section \<open>Machine integers and slices\<close>

text \<open>\<open>int64\<close>: a value is an \<open>int\<close>, addition wraps at 64 bits in two's complement.\<close>

definition MaxInt64 :: int where
  "MaxInt64 = 9223372036854775807"

definition wrap64 :: "int \<Rightarrow> int" where
  "wrap64 n = (n + 2 ^ 63) mod 2 ^ 64 - 2 ^ 63"

lemma wrap64_id: "- (2 ^ 63) \<le> n \<Longrightarrow> n \<le> MaxInt64 \<Longrightarrow> wrap64 n = n"
  by (simp add: wrap64_def MaxInt64_def)

lemma wrap64_succ: "0 \<le> n \<Longrightarrow> n < MaxInt64 \<Longrightarrow> wrap64 (n + 1) = n + 1"
  by (rule wrap64_id) (simp_all add: MaxInt64_def)

text \<open>
  A Go slice whose nil-ness can be observed (by \<open>json.Marshal\<close> or \<open>reflect.DeepEqual\<close>):
  \<open>None\<close> is nil.  Everywhere else a slice is a list.
\<close>

type_synonym 'a slice = "'a list option"

definition elems :: "'a slice \<Rightarrow> 'a list" where
  "elems s = (case s of None \<Rightarrow> [] | Some xs \<Rightarrow> xs)"

text \<open>\<open>append([]T(nil), xs...)\<close> is nil for an empty \<open>xs\<close>.\<close>

definition nil_append :: "'a list \<Rightarrow> 'a slice" where
  "nil_append xs = (if xs = [] then None else Some xs)"

lemma elems_simps [simp]: "elems None = []" "elems (Some xs) = xs" "elems (nil_append xs) = xs"
  by (simp_all add: elems_def nil_append_def)

lemma nil_append_inj [simp]: "nil_append xs = nil_append ys \<longleftrightarrow> xs = ys"
  by (auto simp: nil_append_def)

section \<open>Adjacent duplicates in a sorted list\<close>

text \<open>\<open>for i := 1; i < len(xs); i++ { if key(xs[i-1]) == key(xs[i]) ... }\<close>\<close>

fun adjacent_dup :: "('a \<Rightarrow> 'k) \<Rightarrow> 'a list \<Rightarrow> bool" where
  "adjacent_dup k (x # y # zs) = (k x = k y \<or> adjacent_dup k (y # zs))"
| "adjacent_dup k _ = False"

lemma adjacent_dup_sorted:
  fixes k :: "'a \<Rightarrow> 'k::linorder"
  assumes "sorted (map k xs)"
  shows "adjacent_dup k xs \<longleftrightarrow> \<not> distinct (map k xs)"
  using assms
proof (induction k xs rule: adjacent_dup.induct)
  case (1 k x y zs)
  show ?case
  proof (cases "k x = k y")
    case False
    with "1.prems" have "k x < k y" by (simp add: order_less_le)
    moreover have "\<forall>z\<in>set zs. k y \<le> k z" using "1.prems" by simp
    ultimately have "k x \<notin> k ` set (y # zs)" by auto
    with False "1.IH" "1.prems" show ?thesis by auto
  qed simp
qed auto

lemma sort_key_unique:
  fixes k :: "'a \<Rightarrow> 'k::linorder"
  assumes "mset xs = mset ys" and "distinct (map k xs)"
  shows "sort_key k xs = sort_key k ys"
proof (rule properties_for_sort_key)
  show "mset (sort_key k ys) = mset xs" using assms by simp
  have "distinct (map k ys)"
    using assms by (metis mset_map mset_eq_imp_distinct_iff)
  then have ny: "length (filter (\<lambda>x. k z = k x) ys) \<le> 1" for z
    by (induction ys) (auto simp: filter_empty_conv)
  show "sorted (map k (sort_key k ys))" by simp
  show "filter (\<lambda>x. k z = k x) (sort_key k ys) = filter (\<lambda>x. k z = k x) xs" for z
  proof -
    have m: "mset (filter (\<lambda>x. k z = k x) (sort_key k ys)) = mset (filter (\<lambda>x. k z = k x) xs)"
      using assms by simp
    have "length (filter (\<lambda>x. k z = k x) (sort_key k ys)) \<le> 1"
      using ny [of z] by (metis mset_eq_length mset_filter mset_sort)
    with m show ?thesis
      by (cases "filter (\<lambda>x. k z = k x) (sort_key k ys)"; cases "filter (\<lambda>x. k z = k x) xs")
        (auto dest: mset_eq_length)
  qed
qed

lemma adjacent_dup_sort_key:
  fixes k :: "'a \<Rightarrow> 'k::linorder"
  shows "adjacent_dup k (sort_key k xs) \<longleftrightarrow> \<not> distinct (map k xs)"
  by (simp add: adjacent_dup_sorted)
    (metis mset_eq_imp_distinct_iff mset_map mset_sort)

lemma distinct_sort_key_map: "distinct (map k (sort_key f xs)) \<longleftrightarrow> distinct (map k xs)"
  by (metis mset_eq_imp_distinct_iff mset_map mset_sort)

lemma adjacent_dup_map: "adjacent_dup k (map f xs) = adjacent_dup (k \<circ> f) xs"
  by (induction "k \<circ> f" xs rule: adjacent_dup.induct) simp_all

end
