(* ===== verification/GoStrings.thy ===== *)
theory GoStrings
  imports Prelude
begin

text \<open>
  Go strings and the functions of \<open>strings\<close>, \<open>unicode/utf8\<close> and \<open>encoding/hex\<close> that the program
  calls.  A Go string is a byte sequence: an Isabelle \<open>string\<close>, one \<open>char\<close> per byte.  The linear
  order on strings (HOL-Library's lexicographic order on lists over the order of \<open>char\<close> by code)
  is Go's byte-wise comparison.
\<close>

section \<open>Bytes and prefixes\<close>

abbreviation byte :: "char \<Rightarrow> nat" where
  "byte c \<equiv> of_char c"

definition bytes :: "nat list \<Rightarrow> string" where
  "bytes ns = map char_of ns"

lemma length_bytes [simp]: "length (bytes ns) = length ns"
  by (simp add: bytes_def)

text \<open>\<open>strings.HasPrefix\<close>, \<open>strings.TrimPrefix\<close>.\<close>

definition has_prefix :: "string \<Rightarrow> string \<Rightarrow> bool" where
  "has_prefix s p = (length p \<le> length s \<and> take (length p) s = p)"

definition trim_prefix :: "string \<Rightarrow> string \<Rightarrow> string" where
  "trim_prefix s p = (if has_prefix s p then drop (length p) s else s)"

lemma has_prefix_iff: "has_prefix s p \<longleftrightarrow> (\<exists>r. s = p @ r)"
  unfolding has_prefix_def by (metis append_eq_conv_conj append_take_drop_id length_append le_add1)

lemma has_prefix_append [simp]: "has_prefix (p @ r) p"
  by (simp add: has_prefix_def)

lemma trim_prefix_append [simp]: "trim_prefix (p @ r) p = r"
  by (simp add: trim_prefix_def)

lemma has_prefix_app: "has_prefix s p \<Longrightarrow> has_prefix (s @ t) p"
  by (auto simp: has_prefix_iff)

section \<open>UTF-8\<close>

definition cont_byte :: "nat \<Rightarrow> bool" where
  "cont_byte b \<longleftrightarrow> 128 \<le> b \<and> b \<le> 191"

text \<open>
  The table of \<open>unicode/utf8\<close>: the length of the encoding that a first byte starts and the range of
  the second byte (no overlong forms, no surrogates, at most U+10FFFF); None for a byte that starts none.
\<close>

definition lead_byte :: "nat \<Rightarrow> (nat \<times> nat \<times> nat) option" where
  "lead_byte b =
    (if b < 128 then Some (1, 0, 0)
     else if b < 194 then None
     else if b < 224 then Some (2, 128, 191)
     else if b < 240 then Some (3, if b = 224 then 160 else 128, if b = 237 then 159 else 191)
     else if b < 245 then Some (4, if b = 240 then 144 else 128, if b = 244 then 143 else 191)
     else None)"

text \<open>The length of the encoding at the head of a string, 0 where it is empty or invalid.\<close>

definition rune_tail :: "nat \<Rightarrow> nat \<Rightarrow> nat list \<Rightarrow> bool" where
  "rune_tail lo hi bs = (case bs of [] \<Rightarrow> True | b # r \<Rightarrow> lo \<le> b \<and> b \<le> hi \<and> list_all cont_byte r)"

fun rune_len :: "nat list \<Rightarrow> nat" where
  "rune_len [] = 0"
| "rune_len (b # r) =
    (case lead_byte b of
       None \<Rightarrow> 0
     | Some (n, lo, hi) \<Rightarrow>
         if n \<le> Suc (length r) \<and> rune_tail lo hi (take (n - 1) r) then n else 0)"

declare rune_len.simps [simp del]

text \<open>\<open>utf8.ValidString\<close>\<close>

fun utf8_bytes :: "nat list \<Rightarrow> bool" where
  "utf8_bytes [] = True"
| "utf8_bytes (b # bs) =
    (let n = rune_len (b # bs) in 0 < n \<and> utf8_bytes (drop (n - 1) bs))"

definition utf8_valid :: "string \<Rightarrow> bool" where
  "utf8_valid s = utf8_bytes (map of_char s)"

lemma rune_len_append: "0 < rune_len s \<Longrightarrow> rune_len (s @ t) = rune_len s"
  by (cases s) (auto simp: rune_len.simps split: option.splits if_splits)

lemma rune_len_le: "rune_len s \<le> length s"
  by (cases s) (auto simp: rune_len.simps split: option.splits if_splits)

lemma utf8_bytes_append: "utf8_bytes s \<Longrightarrow> utf8_bytes t \<Longrightarrow> utf8_bytes (s @ t)"
proof (induction s rule: utf8_bytes.induct)
  case (2 b bs)
  let ?n = "rune_len (b # bs)"
  have pos: "0 < ?n" and rest: "utf8_bytes (drop (?n - 1) bs)"
    using "2.prems" by (simp_all add: Let_def)
  have "utf8_bytes (drop (?n - 1) bs @ t)"
    using "2.IH" rest "2.prems"(2) by simp
  moreover have "?n - 1 \<le> length bs"
    using rune_len_le [of "b # bs"] by simp
  moreover have "rune_len (b # bs @ t) = ?n"
    using rune_len_append [OF pos, of t] by simp
  ultimately show ?case using pos by (simp add: Let_def)
qed simp

lemma utf8_bytes_ascii: "\<forall>b\<in>set bs. b < 128 \<Longrightarrow> utf8_bytes bs"
  by (induction bs) (auto simp: rune_len.simps lead_byte_def rune_tail_def)

lemma utf8_valid_Nil [simp]: "utf8_valid []"
  by (simp add: utf8_valid_def)

lemma utf8_valid_ascii: "list_all (\<lambda>c. byte c < 128) s \<Longrightarrow> utf8_valid s"
  unfolding utf8_valid_def by (rule utf8_bytes_ascii) (auto simp: list_all_iff)

lemma utf8_valid_append: "utf8_valid s \<Longrightarrow> utf8_valid t \<Longrightarrow> utf8_valid (s @ t)"
  by (simp add: utf8_valid_def utf8_bytes_append)

section \<open>Surrounding white space\<close>

text \<open>
  The UTF-8 encodings of the runes \<open>unicode.IsSpace\<close> accepts: U+0009 to U+000D, U+0020, U+0085,
  U+00A0, U+1680, U+2000 to U+200A, U+2028, U+2029, U+202F, U+205F and U+3000.
\<close>

definition spaces :: "string list" where
  "spaces = map bytes
    ([[9], [10], [11], [12], [13], [32], [194, 133], [194, 160], [225, 154, 128]] @
     map (\<lambda>b. [226, 128, b]) ([128..<139] @ [168, 169, 175]) @
     [[226, 129, 159], [227, 128, 128]])"

text \<open>Drop every leading occurrence of a word of \<open>ws\<close>.\<close>

fun strip_words :: "string list \<Rightarrow> string \<Rightarrow> string" where
  "strip_words ws [] = []"
| "strip_words ws (c # cs) =
    (case find (has_prefix (c # cs)) ws of
       None \<Rightarrow> c # cs
     | Some w \<Rightarrow> strip_words ws (drop (length w - 1) cs))"

text \<open>\<open>strings.TrimLeftFunc\<close>, \<open>TrimRightFunc\<close> with \<open>unicode.IsSpace\<close>, and \<open>strings.TrimSpace\<close>.\<close>

definition trim_left :: "string \<Rightarrow> string" where
  "trim_left s = strip_words spaces s"

definition trim_right :: "string \<Rightarrow> string" where
  "trim_right s = rev (strip_words (map rev spaces) (rev s))"

definition trim_space :: "string \<Rightarrow> string" where
  "trim_space s = trim_right (trim_left s)"

definition stripped :: "string list \<Rightarrow> string \<Rightarrow> bool" where
  "stripped ws s \<longleftrightarrow> s = [] \<or> (\<forall>w\<in>set ws. \<not> has_prefix s w)"

lemma strip_words_stripped: "stripped ws (strip_words ws s)"
  by (induction ws s rule: strip_words.induct)
    (auto simp: stripped_def find_None_iff split: option.splits)

lemma strip_words_id: "stripped ws s \<Longrightarrow> strip_words ws s = s"
  by (cases s) (auto simp: stripped_def find_None_iff find_Some_iff split: option.splits)

lemma strip_words_suffix: "\<exists>p. s = p @ strip_words ws s"
proof (induction ws s rule: strip_words.induct)
  case (2 ws c cs)
  show ?case
  proof (cases "find (has_prefix (c # cs)) ws")
    case (Some w)
    with "2.IH" obtain p where "drop (length w - 1) cs = p @ strip_words ws (drop (length w - 1) cs)"
      by blast
    then have "c # cs = (c # take (length w - 1) cs @ p) @ strip_words ws (drop (length w - 1) cs)"
      by (metis append_Cons append_assoc append_take_drop_id)
    with Some show ?thesis by (metis strip_words.simps(2) option.simps(5))
  qed simp
qed simp

lemma stripped_prefix: "stripped ws (s @ t) \<Longrightarrow> stripped ws s"
  by (auto simp: stripped_def has_prefix_app)

lemma trim_space_id_iff:
  "trim_space s = s \<longleftrightarrow> stripped spaces s \<and> stripped (map rev spaces) (rev s)"
proof
  assume eq: "trim_space s = s"
  have right: "stripped (map rev spaces) (rev (trim_space s))"
    by (simp add: trim_space_def trim_right_def strip_words_stripped)
  obtain p where "rev (trim_left s) = p @ rev (trim_space s)"
    using strip_words_suffix [of "rev (trim_left s)" "map rev spaces"]
    by (auto simp: trim_space_def trim_right_def)
  then have "trim_left s = trim_space s @ rev p" by (metis rev_append rev_rev_ident)
  then have "stripped spaces (trim_space s @ rev p)"
    using strip_words_stripped [of spaces s] by (simp add: trim_left_def)
  with eq right show "stripped spaces s \<and> stripped (map rev spaces) (rev s)"
    by (auto dest: stripped_prefix)
next
  assume "stripped spaces s \<and> stripped (map rev spaces) (rev s)"
  then show "trim_space s = s"
    by (simp add: trim_space_def trim_left_def trim_right_def strip_words_id)
qed

lemma trim_space_idem [simp]: "trim_space (trim_space s) = trim_space s"
proof -
  have right: "stripped (map rev spaces) (rev (trim_space s))"
    by (simp add: trim_space_def trim_right_def strip_words_stripped)
  obtain p where "rev (trim_left s) = p @ rev (trim_space s)"
    using strip_words_suffix [of "rev (trim_left s)" "map rev spaces"]
    by (auto simp: trim_space_def trim_right_def)
  then have "trim_left s = trim_space s @ rev p" by (metis rev_append rev_rev_ident)
  then have "stripped spaces (trim_space s @ rev p)"
    using strip_words_stripped [of spaces s] by (simp add: trim_left_def)
  with right show ?thesis by (auto simp: trim_space_id_iff dest: stripped_prefix)
qed

lemma trim_space_Nil [simp]: "trim_space [] = []"
  by (simp add: trim_space_def trim_left_def trim_right_def)

lemma trim_space_blank [simp]: "trim_space (CHR '' '' # s) = trim_space s"
proof -
  have byte: "CHR '' '' = char_of n \<longleftrightarrow> n mod 256 = 32" for n :: nat
    using char_of_eq_iff [of n "CHR '' ''"] by (auto simp: take_bit_eq_mod)
  have "CHR '' '' = char_of (32::nat)" by (simp only: byte) simp
  note space = this [symmetric]
  have "find (has_prefix (CHR '' '' # s)) spaces = Some '' ''"
    unfolding spaces_def by (simp add: bytes_def has_prefix_def byte space)
  then have "trim_left (CHR '' '' # s) = trim_left s"
    unfolding trim_left_def by simp
  then show ?thesis unfolding trim_space_def by simp
qed

text \<open>
  A string whose first and last bytes are printing ASCII has no surrounding white space: no
  encoding of a space starts with such a byte, and none ends with one.
\<close>

definition solid :: "char \<Rightarrow> bool" where
  "solid c \<longleftrightarrow> 32 < byte c \<and> byte c < 128"

lemma spaces_not_solid: "w \<in> set spaces \<Longrightarrow> w \<noteq> [] \<and> \<not> solid (hd w) \<and> \<not> solid (last w)"
  unfolding spaces_def by (auto simp: bytes_def solid_def)

lemma trim_space_solid:
  assumes "s \<noteq> []" and "solid (hd s)" and "solid (last s)"
  shows "trim_space s = s"
proof -
  have "\<not> has_prefix s w" if "w \<in> set spaces" for w
    using spaces_not_solid [OF that] assms by (auto simp: has_prefix_iff)
  moreover have "\<not> has_prefix (rev s) (rev w)" if "w \<in> set spaces" for w
  proof
    assume "has_prefix (rev s) (rev w)"
    then obtain r where "rev s = rev w @ r" by (auto simp: has_prefix_iff)
    then have "s = rev r @ w" by (metis rev_append rev_rev_ident)
    then show False using spaces_not_solid [OF that] assms by (auto simp: last_append)
  qed
  ultimately show ?thesis by (auto simp: trim_space_id_iff stripped_def)
qed

section \<open>Hexadecimal\<close>

definition hex_digit :: "nat \<Rightarrow> char" where
  "hex_digit n = ''0123456789abcdef'' ! (n mod 16)"

text \<open>\<open>hex.EncodeToString\<close>\<close>

definition hex_encode :: "string \<Rightarrow> string" where
  "hex_encode s = concat (map (\<lambda>c. [hex_digit (byte c div 16), hex_digit (byte c)]) s)"

definition is_hex :: "char \<Rightarrow> bool" where
  "is_hex c \<longleftrightarrow> (let b = byte c in 48 \<le> b \<and> b \<le> 57 \<or> 97 \<le> b \<and> b \<le> 102 \<or> 65 \<le> b \<and> b \<le> 70)"

text \<open>Whether \<open>hex.DecodeString\<close> succeeds.\<close>

definition hex_decodable :: "string \<Rightarrow> bool" where
  "hex_decodable s \<longleftrightarrow> even (length s) \<and> list_all is_hex s"

text \<open>\<open>strings.ToLower\<close> on an ASCII string.\<close>

definition to_lower :: "string \<Rightarrow> string" where
  "to_lower s = map (\<lambda>c. if 65 \<le> byte c \<and> byte c \<le> 90 then char_of (byte c + 32) else c) s"

lemma hex_digit_cases: "hex_digit n \<in> set ''0123456789abcdef''"
proof -
  have "n mod 16 < length ''0123456789abcdef''" by simp
  then show ?thesis unfolding hex_digit_def by (rule nth_mem)
qed

lemma set_hex_encode: "c \<in> set (hex_encode s) \<Longrightarrow> c \<in> set ''0123456789abcdef''"
  unfolding hex_encode_def using hex_digit_cases by (induction s) (auto simp del: list.set(2), auto)

lemma hex_alphabet:
  "c \<in> set ''0123456789abcdef'' \<Longrightarrow> is_hex c \<and> solid c \<and> \<not> (65 \<le> byte c \<and> byte c \<le> 90)"
  by (auto simp: is_hex_def solid_def)

lemma length_hex_encode [simp]: "length (hex_encode s) = 2 * length s"
  by (induction s) (simp_all add: hex_encode_def)

lemma hex_decodable_encode: "hex_decodable (hex_encode s)"
  using set_hex_encode hex_alphabet by (auto simp: hex_decodable_def list_all_iff simp del: set_simps)

lemma to_lower_hex_encode: "to_lower (hex_encode s) = hex_encode s"
  unfolding to_lower_def using set_hex_encode hex_alphabet
  by (intro map_idI) (auto simp del: set_simps)

lemma solid_hex_encode: "c \<in> set (hex_encode s) \<Longrightarrow> solid c"
  using set_hex_encode hex_alphabet by blast

end
