(* ===== verification/Sha256.thy ===== *)
theory Sha256
  imports GoStrings "HOL-Library.Word"
begin

text \<open>
  \<open>crypto/sha256\<close>: \<open>Sum256\<close> as FIPS 180-4 defines it, on byte strings and 32-bit words.  The properties of
  the program need only the shape of a digest (64 lower-case hexadecimal digits); where one rests
  on collision freeness it says on which pair of inputs.
\<close>

unbundle bit_operations_syntax

type_synonym u32 = "32 word"

definition K256 :: "u32 list" where
  "K256 =
   [0x428A2F98, 0x71374491, 0xB5C0FBCF, 0xE9B5DBA5,
    0x3956C25B, 0x59F111F1, 0x923F82A4, 0xAB1C5ED5,
    0xD807AA98, 0x12835B01, 0x243185BE, 0x550C7DC3,
    0x72BE5D74, 0x80DEB1FE, 0x9BDC06A7, 0xC19BF174,
    0xE49B69C1, 0xEFBE4786, 0x0FC19DC6, 0x240CA1CC,
    0x2DE92C6F, 0x4A7484AA, 0x5CB0A9DC, 0x76F988DA,
    0x983E5152, 0xA831C66D, 0xB00327C8, 0xBF597FC7,
    0xC6E00BF3, 0xD5A79147, 0x06CA6351, 0x14292967,
    0x27B70A85, 0x2E1B2138, 0x4D2C6DFC, 0x53380D13,
    0x650A7354, 0x766A0ABB, 0x81C2C92E, 0x92722C85,
    0xA2BFE8A1, 0xA81A664B, 0xC24B8B70, 0xC76C51A3,
    0xD192E819, 0xD6990624, 0xF40E3585, 0x106AA070,
    0x19A4C116, 0x1E376C08, 0x2748774C, 0x34B0BCB5,
    0x391C0CB3, 0x4ED8AA4A, 0x5B9CCA4F, 0x682E6FF3,
    0x748F82EE, 0x78A5636F, 0x84C87814, 0x8CC70208,
    0x90BEFFFA, 0xA4506CEB, 0xBEF9A3F7, 0xC67178F2]"

definition H256 :: "u32 list" where
  "H256 =
   [0x6A09E667, 0xBB67AE85, 0x3C6EF372, 0xA54FF53A,
    0x510E527F, 0x9B05688C, 0x1F83D9AB, 0x5BE0CD19]"

definition Ch :: "u32 \<Rightarrow> u32 \<Rightarrow> u32 \<Rightarrow> u32" where
  "Ch x y z = (x AND y) XOR (NOT x AND z)"

definition Maj :: "u32 \<Rightarrow> u32 \<Rightarrow> u32 \<Rightarrow> u32" where
  "Maj x y z = (x AND y) XOR (x AND z) XOR (y AND z)"

definition rotr :: "nat \<Rightarrow> u32 \<Rightarrow> u32" where
  "rotr n x = drop_bit n x OR push_bit (32 - n) x"

definition Sigma0 :: "u32 \<Rightarrow> u32" where
  "Sigma0 x = rotr 2 x XOR rotr 13 x XOR rotr 22 x"

definition Sigma1 :: "u32 \<Rightarrow> u32" where
  "Sigma1 x = rotr 6 x XOR rotr 11 x XOR rotr 25 x"

definition sigma0 :: "u32 \<Rightarrow> u32" where
  "sigma0 x = rotr 7 x XOR rotr 18 x XOR drop_bit 3 x"

definition sigma1 :: "u32 \<Rightarrow> u32" where
  "sigma1 x = rotr 17 x XOR rotr 19 x XOR drop_bit 10 x"

text \<open>Padding to whole 64-byte blocks: a one bit, zero bits, and the length in bits.\<close>

definition be_bytes :: "nat \<Rightarrow> nat \<Rightarrow> nat list" where
  "be_bytes k n = map (\<lambda>i. n div 256 ^ (k - 1 - i) mod 256) [0..<k]"

definition pad :: "nat list \<Rightarrow> nat list" where
  "pad m = m @ [128] @ replicate ((119 - length m mod 64) mod 64) 0 @ be_bytes 8 (8 * length m)"

definition word_of_bytes :: "nat list \<Rightarrow> u32" where
  "word_of_bytes bs = word_of_nat (foldl (\<lambda>a b. 256 * a + b) 0 bs)"

fun chunks :: "nat \<Rightarrow> nat \<Rightarrow> 'a list \<Rightarrow> 'a list list" where
  "chunks 0 k xs = []"
| "chunks (Suc n) k xs = take k xs # chunks n k (drop k xs)"

text \<open>The message schedule, kept newest first, and the compression of one block.\<close>

fun schedule :: "nat \<Rightarrow> u32 list \<Rightarrow> u32 list" where
  "schedule 0 w = rev w"
| "schedule (Suc n) w = schedule n ((sigma1 (w ! 1) + w ! 6 + sigma0 (w ! 14) + w ! 15) # w)"

type_synonym regs = "u32 \<times> u32 \<times> u32 \<times> u32 \<times> u32 \<times> u32 \<times> u32 \<times> u32"

fun round256 :: "regs \<Rightarrow> u32 \<times> u32 \<Rightarrow> regs" where
  "round256 (a, b, c, d, e, f, g, h) (k, w) =
    (let t1 = h + Sigma1 e + Ch e f g + k + w; t2 = Sigma0 a + Maj a b c
     in (t1 + t2, a, b, c, d + t1, e, f, g))"

fun regs_of :: "u32 list \<Rightarrow> regs" where
  "regs_of [a, b, c, d, e, f, g, h] = (a, b, c, d, e, f, g, h)"
| "regs_of _ = (0, 0, 0, 0, 0, 0, 0, 0)"

fun list_of_regs :: "regs \<Rightarrow> u32 list" where
  "list_of_regs (a, b, c, d, e, f, g, h) = [a, b, c, d, e, f, g, h]"

definition compress :: "u32 list \<Rightarrow> nat list \<Rightarrow> u32 list" where
  "compress hs block =
    (let w = schedule 48 (rev (map word_of_bytes (chunks 16 4 block)))
     in map2 (+) hs (list_of_regs (foldl round256 (regs_of hs) (zip K256 w))))"

definition sha256_words :: "nat list \<Rightarrow> u32 list" where
  "sha256_words m = (let p = pad m in foldl compress H256 (chunks (length p div 64) 64 p))"

definition sha256 :: "string \<Rightarrow> string" where
  "sha256 s = bytes (concat (map (\<lambda>w. be_bytes 4 (unat w)) (sha256_words (map of_char s))))"

text \<open>\<open>hex.EncodeToString(sum[:])\<close>\<close>

definition sha256_hex :: "string \<Rightarrow> string" where
  "sha256_hex s = hex_encode (sha256 s)"

lemma length_be_bytes [simp]: "length (be_bytes k n) = k"
  by (simp add: be_bytes_def)

lemma length_list_of_regs [simp]: "length (list_of_regs r) = 8"
  by (cases r rule: list_of_regs.cases) simp

lemma length_compress [simp]: "length hs = 8 \<Longrightarrow> length (compress hs b) = 8"
  by (simp add: compress_def Let_def)

lemma length_sha256_words: "length (sha256_words m) = 8"
proof -
  have "length (foldl compress hs bs) = 8" if "length hs = 8" for hs bs
    using that by (induction bs arbitrary: hs) simp_all
  then show ?thesis by (simp add: sha256_words_def Let_def H256_def)
qed

lemma length_sha256 [simp]: "length (sha256 s) = 32"
proof -
  have "length (concat (map (\<lambda>w. be_bytes 4 (unat w)) ws)) = 4 * length ws" for ws :: "u32 list"
    by (induction ws) simp_all
  then show ?thesis by (simp add: sha256_def length_sha256_words)
qed

lemma length_sha256_hex [simp]: "length (sha256_hex s) = 64"
  by (simp add: sha256_hex_def)

lemma solid_sha256_hex: "c \<in> set (sha256_hex s) \<Longrightarrow> solid c"
  by (simp add: sha256_hex_def solid_hex_encode)

end
