(* ===== verification/GoJson.thy ===== *)
theory GoJson
  imports Sha256
begin

text \<open>
  \<open>encoding/json\<close>: the values the program marshals and \<open>json.Marshal\<close>'s text for them (no white
  space, struct fields in declaration order, \<open><\<close>, \<open>>\<close>, \<open>&\<close>, U+2028 and U+2029 escaped, invalid UTF-8
  replaced by U+FFFD).  On values whose strings are valid UTF-8 the text determines the value:
  \<open>marshal_inj\<close>, from which the components derive that a hash preimage determines its payload.
\<close>

datatype json =
    JNull
  | JBool bool
  | JInt int
  | JStr string
  | JArr "json list"
  | JObj "(string \<times> json) list"

section \<open>Text of strings and integers\<close>

abbreviation backslash :: char where
  "backslash \<equiv> CHR 0x5C"

abbreviation quotation :: char where
  "quotation \<equiv> CHR 0x22"

definition esc_u :: "nat \<Rightarrow> string" where
  "esc_u n = [backslash, CHR ''u'', hex_digit (n div 4096), hex_digit (n div 256),
              hex_digit (n div 16), hex_digit n]"

definition esc_byte :: "char \<Rightarrow> string" where
  "esc_byte c =
    (if c = quotation \<or> c = backslash then [backslash, c]
     else if byte c = 8 then [backslash, CHR ''b'']
     else if byte c = 12 then [backslash, CHR ''f'']
     else if byte c = 10 then [backslash, CHR ''n'']
     else if byte c = 13 then [backslash, CHR ''r'']
     else if byte c = 9 then [backslash, CHR ''t'']
     else if byte c < 32 \<or> c \<in> {CHR ''<'', CHR ''>'', CHR ''&''} then esc_u (byte c)
     else [c])"

definition line_sep :: string where
  "line_sep = bytes [226, 128, 168]"

definition para_sep :: string where
  "para_sep = bytes [226, 128, 169]"

fun escape :: "string \<Rightarrow> string" where
  "escape [] = []"
| "escape (c # cs) =
    (let n = rune_len (map of_char (c # cs)) in
     if n = 0 then esc_u 65533 @ escape cs
     else if n = 1 then esc_byte c @ escape cs
     else (if take n (c # cs) = line_sep then esc_u 8232
           else if take n (c # cs) = para_sep then esc_u 8233
           else take n (c # cs)) @ escape (drop (n - 1) cs))"

declare escape.simps(2) [simp del]

definition quoted :: "string \<Rightarrow> string" where
  "quoted s = quotation # escape s @ [quotation]"

fun nat_str :: "nat \<Rightarrow> string" where
  "nat_str n = (if n < 10 then [] else nat_str (n div 10)) @ [char_of (48 + n mod 10)]"

declare nat_str.simps [simp del]

definition int_str :: "int \<Rightarrow> string" where
  "int_str n = (if n < 0 then CHR ''-'' # nat_str (nat (- n)) else nat_str (nat n))"

section \<open>Text of values\<close>

fun join :: "string list \<Rightarrow> string" where
  "join [] = []"
| "join [x] = x"
| "join (x # xs) = x @ CHR '','' # join xs"

fun marshal :: "json \<Rightarrow> string" where
  "marshal JNull = ''null''"
| "marshal (JBool b) = (if b then ''true'' else ''false'')"
| "marshal (JInt n) = int_str n"
| "marshal (JStr s) = quoted s"
| "marshal (JArr vs) = CHR ''['' # join (map marshal vs) @ '']''"
| "marshal (JObj fs) = CHR ''{'' # join (map (\<lambda>(k, v). quoted k @ CHR '':'' # marshal v) fs) @ ''}''"

text \<open>A field tagged \<open>omitempty\<close>, a string slice, and a slice that is nil when empty.\<close>

definition omitempty :: "string \<Rightarrow> string \<Rightarrow> (string \<times> json) list" where
  "omitempty key s = (if s = [] then [] else [(key, JStr s)])"

definition JStrs :: "string list \<Rightarrow> json" where
  "JStrs ss = JArr (map JStr ss)"

fun JSlice :: "json slice \<Rightarrow> json" where
  "JSlice None = JNull"
| "JSlice (Some vs) = JArr vs"

section \<open>The text determines the value\<close>

definition hex_val :: "char \<Rightarrow> nat" where
  "hex_val c = (if byte c < 58 then byte c - 48 else byte c - 87)"

lemma hex_val_digit [simp]: "hex_val (hex_digit n) = n mod 16"
proof -
  have "\<forall>k<16. hex_val (''0123456789abcdef'' ! k) = k" by code_simp
  then show ?thesis by (simp add: hex_digit_def)
qed

text \<open>The reader of a quoted string, used in proofs only.\<close>

definition u_decode :: "nat \<Rightarrow> string" where
  "u_decode n = (if n = 8232 then line_sep else if n = 8233 then para_sep else [char_of n])"

definition esc_table :: "char \<Rightarrow> char" where
  "esc_table c =
    (if c = CHR ''b'' then char_of (8::nat) else if c = CHR ''f'' then char_of (12::nat)
     else if c = CHR ''n'' then char_of (10::nat) else if c = CHR ''r'' then char_of (13::nat)
     else if c = CHR ''t'' then char_of (9::nat) else c)"

fun unescape :: "string \<Rightarrow> (string \<times> string) option" where
  "unescape [] = None"
| "unescape (c # cs) =
    (if c = quotation then Some ([], cs)
     else if c = backslash then
       (case cs of
          [] \<Rightarrow> None
        | x # r \<Rightarrow>
            if x = CHR ''u'' then
              (case r of
                 h3 # h2 # h1 # h0 # r' \<Rightarrow>
                   map_option (apfst ((@) (u_decode
                     (hex_val h3 * 4096 + hex_val h2 * 256 + hex_val h1 * 16 + hex_val h0))))
                     (unescape r')
               | _ \<Rightarrow> None)
            else map_option (apfst ((#) (esc_table x))) (unescape r))
     else map_option (apfst ((#) c)) (unescape cs))"

lemma hex4_digits:
  fixes n :: nat
  assumes "n < 65536"
  shows "n div 4096 mod 16 * 4096 + n div 256 mod 16 * 256 + n div 16 mod 16 * 16 + n mod 16 = n"
proof -
  define a b c where abc: "a = n div 16" "b = a div 16" "c = b div 16"
  have "n div 256 = b" "n div 4096 = c" by (simp_all add: abc div_mult2_eq [symmetric])
  moreover have "c < 16" using assms by (simp add: abc div_mult2_eq [symmetric])
  moreover have "n = a * 16 + n mod 16" "a = b * 16 + a mod 16" "b = c * 16 + b mod 16"
    by (simp_all add: abc)
  ultimately show ?thesis by (simp add: abc(1) [symmetric])
qed

lemma append_single [simp]: "(@) [c] = (#) c"
  by (simp add: fun_eq_iff)

lemma unescape_esc_u:
  assumes "n < 65536"
  shows "unescape (esc_u n @ r) = map_option (apfst ((@) (u_decode n))) (unescape r)"
proof -
  have "unescape (esc_u n @ r) = map_option (apfst ((@) (u_decode
      (n div 4096 mod 16 * 4096 + n div 256 mod 16 * 256 + n div 16 mod 16 * 16 + n mod 16))))
      (unescape r)"
    by (simp add: esc_u_def)
  then show ?thesis by (simp only: hex4_digits [OF assms])
qed

lemma unescape_plain:
  "c \<noteq> quotation \<Longrightarrow> c \<noteq> backslash \<Longrightarrow> unescape (c # r) = map_option (apfst ((#) c)) (unescape r)"
  by simp

lemma unescape_esc_byte:
  assumes "byte c < 128"
  shows "unescape (esc_byte c @ r) = map_option (apfst ((#) c)) (unescape r)"
proof -
  have c: "char_of (byte c) = c" by simp
  have "c = char_of (8::nat)" if "byte c = 8" using that c by metis
  moreover have "c = char_of (9::nat)" if "byte c = 9" using that c by metis
  moreover have "c = char_of (10::nat)" if "byte c = 10" using that c by metis
  moreover have "c = char_of (12::nat)" if "byte c = 12" using that c by metis
  moreover have "c = char_of (13::nat)" if "byte c = 13" using that c by metis
  moreover have "unescape (esc_u (byte c) @ r) = map_option (apfst ((#) c)) (unescape r)"
    using assms by (simp add: unescape_esc_u u_decode_def)
  ultimately show ?thesis
    by (auto simp: esc_byte_def esc_table_def unescape_plain simp del: unescape.simps(2))
      (simp_all add: esc_table_def)
qed

lemma unescape_high:
  assumes "\<forall>c\<in>set s. 128 \<le> byte c"
  shows "unescape (s @ r) = map_option (apfst ((@) s)) (unescape r)"
  using assms
proof (induction s)
  case Nil
  then show ?case by (cases "unescape r") (auto simp: apfst_def)
next
  case (Cons c s)
  then have "c \<noteq> quotation" and "c \<noteq> backslash" by auto
  with Cons show ?case by (cases "unescape r") (auto simp: apfst_def)
qed

lemma rune_len_1: "rune_len (b # bs) = 1 \<Longrightarrow> b < 128"
  by (auto simp: rune_len.simps lead_byte_def split: if_splits option.splits)

lemma lead_byte_high: "lead_byte b = Some (n, lo, hi) \<Longrightarrow> 1 < n \<Longrightarrow> 128 \<le> b \<and> 128 \<le> lo"
  by (auto simp: lead_byte_def split: if_splits)

lemma rune_tail_high: "rune_tail lo hi bs \<Longrightarrow> 128 \<le> lo \<Longrightarrow> \<forall>x\<in>set bs. 128 \<le> x"
  by (auto simp: rune_tail_def cont_byte_def list_all_iff split: list.splits)

lemma rune_len_high:
  assumes "1 < rune_len (b # bs)"
  shows "\<forall>x\<in>set (take (rune_len (b # bs)) (b # bs)). 128 \<le> x"
proof -
  obtain n lo hi where lead: "lead_byte b = Some (n, lo, hi)" and n: "rune_len (b # bs) = n"
    and tail: "rune_tail lo hi (take (n - 1) bs)"
    using assms by (auto simp: rune_len.simps split: option.splits if_splits)
  have "128 \<le> b" and "128 \<le> lo" using lead_byte_high [OF lead] assms n by simp_all
  moreover have "take n (b # bs) = b # take (n - 1) bs" using assms n by (cases n) auto
  ultimately show ?thesis using rune_tail_high [OF tail] n by simp
qed

lemma unescape_escape:
  assumes "utf8_valid s"
  shows "unescape (escape s @ quotation # r) = Some (s, r)"
  using assms
proof (induction s rule: escape.induct)
  case (2 c cs)
  let ?n = "rune_len (map of_char (c # cs))"
  let ?h = "take ?n (c # cs)" and ?t = "drop (?n - 1) cs"
  have pos: "0 < ?n" and t: "utf8_valid ?t"
    using "2.prems" by (simp_all add: utf8_valid_def Let_def drop_map)
  have "?h @ drop ?n (c # cs) = c # cs" by (rule append_take_drop_id)
  moreover have "drop ?n (c # cs) = ?t" using pos by (cases ?n) auto
  ultimately have split: "?h @ ?t = c # cs" by (simp only:)
  show ?case
  proof (cases "?n = 1")
    case True
    then have "byte c < 128" using rune_len_1 by simp
    with True t "2.IH"(2) [OF refl] show ?thesis
      by (simp add: escape.simps(2) unescape_esc_byte)
  next
    case False
    with pos have n: "1 < ?n" by simp
    have "set (map byte ?h) = set (take ?n (map byte (c # cs)))" by (simp only: take_map)
    with rune_len_high [of "byte c" "map byte cs"] n have "\<forall>x\<in>set (map byte ?h). 128 \<le> x"
      by simp
    then have high: "\<forall>x\<in>set ?h. 128 \<le> byte x" by (simp only: set_map ball_simps)
    have "unescape (escape ?t @ quotation # r) = Some (?t, r)"
      using "2.IH"(3) [OF refl] n t by simp
    moreover have "escape (c # cs) = (if ?h = line_sep then esc_u 8232
           else if ?h = para_sep then esc_u 8233 else ?h) @ escape ?t"
      using n by (simp only: escape.simps(2) Let_def) simp
    ultimately show ?thesis
      using split high by (auto simp: unescape_esc_u unescape_high u_decode_def)
  qed
qed simp

lemma quoted_prefix:
  assumes "quoted s @ r = quoted t @ r'" and "utf8_valid s" and "utf8_valid t"
  shows "s = t \<and> r = r'"
proof -
  have "escape s @ quotation # r = escape t @ quotation # r'"
    using assms(1) by (simp add: quoted_def)
  then have "Some (s, r) = Some (t, r')"
    using assms(2,3) by (metis unescape_escape)
  then show ?thesis by simp
qed

definition is_digit :: "char \<Rightarrow> bool" where
  "is_digit c \<longleftrightarrow> 48 \<le> byte c \<and> byte c \<le> 57"

definition digits_val :: "string \<Rightarrow> nat" where
  "digits_val s = foldl (\<lambda>a c. a * 10 + (byte c - 48)) 0 s"

lemma digits_val_snoc: "digits_val (s @ [c]) = digits_val s * 10 + (byte c - 48)"
  by (simp add: digits_val_def)

lemma nat_str_digits: "\<forall>c\<in>set (nat_str n). is_digit c"
proof (induction n rule: nat_str.induct)
  case (1 n)
  have "is_digit (char_of (48 + n mod 10))" by (simp add: is_digit_def)
  with 1 show ?case by (subst nat_str.simps) auto
qed

lemma nat_str_nonempty: "nat_str n \<noteq> []"
  by (subst nat_str.simps) simp

lemma digits_val_nat_str: "digits_val (nat_str n) = n"
proof (induction n rule: nat_str.induct)
  case (1 n)
  show ?case
  proof (cases "n < 10")
    case True
    then show ?thesis by (subst nat_str.simps) (simp add: digits_val_def)
  next
    case False
    with 1 have "digits_val (nat_str (n div 10)) = n div 10" by simp
    with False show ?thesis by (subst nat_str.simps) (simp add: digits_val_snoc)
  qed
qed

text \<open>What may follow a value inside a text: nothing, a comma or a closing bracket.\<close>

definition delim :: "string \<Rightarrow> bool" where
  "delim s \<longleftrightarrow> s = [] \<or> hd s \<in> {CHR '','', CHR '']'', CHR ''}''}"

lemma delim_Cons [simp]: "delim (c # s) \<longleftrightarrow> c \<in> {CHR '','', CHR '']'', CHR ''}''}"
  by (simp add: delim_def)

lemma takeWhile_digits: "delim s \<Longrightarrow> takeWhile is_digit (nat_str n @ s) = nat_str n"
  using nat_str_digits [of n] by (cases s) (auto simp: takeWhile_append2 is_digit_def)

lemma nat_str_prefix:
  assumes "nat_str n @ s = nat_str m @ t" and "delim s" and "delim t"
  shows "n = m \<and> s = t"
proof -
  have "nat_str n = nat_str m" using assms by (metis takeWhile_digits)
  moreover from this have "n = m" by (metis digits_val_nat_str)
  ultimately show ?thesis using assms(1) by simp
qed

lemma hd_nat_str: "is_digit (hd (nat_str n))"
  using nat_str_digits nat_str_nonempty by (meson hd_in_set)

lemma int_str_prefix:
  assumes "int_str n @ s = int_str m @ t" and "delim s" and "delim t"
  shows "n = m \<and> s = t"
proof -
  have minus: "nat_str k \<noteq> CHR ''-'' # r" for k r
    using hd_nat_str [of k] by (auto simp: is_digit_def)
  have "nat_str k @ u \<noteq> CHR ''-'' # r" for k u r
    using minus [of k] nat_str_nonempty [of k] hd_nat_str [of k]
    by (cases "nat_str k") (auto simp: is_digit_def)
  with assms(1) have "n < 0 \<longleftrightarrow> m < 0"
    by (auto simp: int_str_def split: if_splits dest: sym)
  with assms show ?thesis
    by (auto simp: int_str_def split: if_splits dest!: nat_str_prefix)
qed

text \<open>The first character of a text tells the constructor of its value.\<close>

fun kind :: "json \<Rightarrow> nat" where
  "kind JNull = 0"
| "kind (JBool b) = 1"
| "kind (JInt n) = 2"
| "kind (JStr s) = 3"
| "kind (JArr vs) = 4"
| "kind (JObj fs) = 5"

definition char_kind :: "char \<Rightarrow> nat" where
  "char_kind c =
    (if c = CHR ''n'' then 0 else if c = CHR ''t'' \<or> c = CHR ''f'' then 1
     else if is_digit c \<or> c = CHR ''-'' then 2 else if c = quotation then 3
     else if c = CHR ''['' then 4 else if c = CHR ''{'' then 5 else 6)"

lemma char_kind_digit: "is_digit c \<Longrightarrow> char_kind c = 2"
  by (auto simp: char_kind_def is_digit_def)

lemma char_kind_simps [simp]:
  "char_kind CHR ''n'' = 0" "char_kind CHR ''t'' = 1" "char_kind CHR ''f'' = 1"
  "char_kind CHR ''-'' = 2" "char_kind quotation = 3" "char_kind CHR ''['' = 4"
  "char_kind CHR ''{'' = 5" "char_kind CHR '','' = 6" "char_kind CHR '']'' = 6"
  "char_kind CHR ''}'' = 6"
  by (simp_all add: char_kind_def is_digit_def)

lemma marshal_hd: "marshal v \<noteq> [] \<and> char_kind (hd (marshal v)) = kind v"
  by (cases v)
    (auto simp: quoted_def int_str_def nat_str_nonempty hd_nat_str char_kind_digit)

lemma marshal_not_delim: "marshal v @ s = c # t \<Longrightarrow> c \<notin> {CHR '','', CHR '']'', CHR ''}''}"
proof -
  assume "marshal v @ s = c # t"
  then have "char_kind c = kind v" using marshal_hd [of v] by (cases "marshal v") auto
  moreover have "kind v < 6" by (cases v) simp_all
  ultimately show ?thesis by auto
qed

fun json_ok :: "json \<Rightarrow> bool" where
  "json_ok (JStr s) = utf8_valid s"
| "json_ok (JArr vs) = list_all json_ok vs"
| "json_ok (JObj fs) = list_all (\<lambda>(k, v). utf8_valid k \<and> json_ok v) fs"
| "json_ok _ = True"

text \<open>Comma-separated items up to a closing bracket.\<close>

lemma join_Cons: "join (x # xs) = x @ (if xs = [] then [] else CHR '','' # join xs)"
  by (cases xs) simp_all

lemma join_prefix:
  assumes "join (map f vs) @ x # s = join (map f ws) @ x # t"
    and "x \<in> {CHR '']'', CHR ''}''}"
    and "\<And>v r. \<not> (\<exists>u. f v @ r = x # u)"
    and "\<And>v w s t. v \<in> set vs \<Longrightarrow> w \<in> set ws \<Longrightarrow> delim s \<Longrightarrow> delim t \<Longrightarrow> f v @ s = f w @ t \<Longrightarrow>
      v = w \<and> s = t"
  shows "vs = ws \<and> s = t"
  using assms
proof (induction vs arbitrary: ws)
  case Nil
  then show ?case by (cases ws) (auto simp: join_Cons dest: sym)
next
  case (Cons v vs)
  show ?case
  proof (cases ws)
    case Nil
    with Cons.prems(1,3) show ?thesis by (auto simp: join_Cons)
  next
    case (Cons w ws')
    let ?R = "\<lambda>zs u. if zs = [] then x # u else CHR '','' # join (map f zs) @ x # u"
    have eq: "f v @ ?R vs s = f w @ ?R ws' t"
      using Cons.prems(1) Cons by (simp add: join_Cons split: if_splits)
    have d: "delim (?R zs u)" for zs u using Cons.prems(2) by auto
    have vwR: "v = w \<and> ?R vs s = ?R ws' t"
      by (rule Cons.prems(4) [OF _ _ d d eq]) (simp_all add: Cons)
    then have vw: "v = w" and R: "?R vs s = ?R ws' t" by (rule conjunct1, rule conjunct2)
    have "vs = ws' \<and> s = t"
    proof (cases "vs = [] \<or> ws' = []")
      case True
      with R Cons.prems(2) show ?thesis by (auto split: if_splits)
    next
      case False
      with R have "join (map f vs) @ x # s = join (map f ws') @ x # t" by simp
      then show ?thesis
      proof (rule Cons.IH [OF _ Cons.prems(2,3)])
        show "v' = w' \<and> s' = t'" if "v' \<in> set vs" "w' \<in> set ws'" "delim s'" "delim t'"
          "f v' @ s' = f w' @ t'" for v' w' s' t'
          by (rule Cons.prems(4)) (use that Cons in simp_all)
      qed
    qed
    with vw Cons show ?thesis by simp
  qed
qed

lemma marshal_kind: "marshal v @ s = marshal w @ t \<Longrightarrow> kind v = kind w"
  using marshal_hd [of v] marshal_hd [of w] by (metis hd_append2)

lemma marshal_prefix:
  "json_ok v \<Longrightarrow> json_ok w \<Longrightarrow> delim s \<Longrightarrow> delim t \<Longrightarrow> marshal v @ s = marshal w @ t \<Longrightarrow>
    v = w \<and> s = t"
proof (induction v arbitrary: w s t)
  case JNull
  with marshal_kind [OF JNull.prems(5)] show ?case by (cases w) auto
next
  case (JBool b)
  with marshal_kind [OF JBool.prems(5)] show ?case by (cases w) (auto split: if_splits)
next
  case (JInt n)
  with marshal_kind [OF JInt.prems(5)] show ?case by (cases w) (auto dest: int_str_prefix)
next
  case (JStr r)
  with marshal_kind [OF JStr.prems(5)] show ?case by (cases w) (auto dest: quoted_prefix)
next
  case (JArr vs)
  from marshal_kind [OF JArr.prems(5)] obtain ws where w: "w = JArr ws" by (cases w) auto
  have "vs = ws \<and> s = t"
  proof (rule join_prefix [where f = marshal and x = "CHR '']''"])
    show "join (map marshal vs) @ CHR '']'' # s = join (map marshal ws) @ CHR '']'' # t"
      using JArr.prems(5) w by simp
    show "\<not> (\<exists>u. marshal v @ r = CHR '']'' # u)" for v r
      using marshal_not_delim by blast
    show "v = w' \<and> s' = t'" if "v \<in> set vs" "w' \<in> set ws" "delim s'" "delim t'"
      "marshal v @ s' = marshal w' @ t'" for v w' s' t'
      using that JArr.prems w by (intro JArr.IH) (auto simp: list_all_iff)
  qed simp
  with w show ?case by simp
next
  case (JObj fs)
  from marshal_kind [OF JObj.prems(5)] obtain gs where w: "w = JObj gs" by (cases w) auto
  let ?f = "\<lambda>(k, v). quoted k @ CHR '':'' # marshal v"
  have "fs = gs \<and> s = t"
  proof (rule join_prefix [where f = ?f and x = "CHR ''}''"])
    show "join (map ?f fs) @ CHR ''}'' # s = join (map ?f gs) @ CHR ''}'' # t"
      using JObj.prems(5) w by simp
    show "\<not> (\<exists>u. ?f v @ r = CHR ''}'' # u)" for v r
      by (auto simp: quoted_def split: prod.splits)
    show "p = q \<and> s' = t'" if m: "p \<in> set fs" "q \<in> set gs" "delim s'" "delim t'"
      "?f p @ s' = ?f q @ t'" for p q s' t'
    proof -
      obtain k v where p: "p = (k, v)" by (cases p)
      obtain l u where q: "q = (l, u)" by (cases q)
      have ok: "utf8_valid k" "json_ok v" "utf8_valid l" "json_ok u"
        using m JObj.prems(1,2) p q w by (auto simp: list_all_iff)
      have "quoted k @ CHR '':'' # marshal v @ s' = quoted l @ CHR '':'' # marshal u @ t'"
        using m(5) p q by simp
      with ok have "k = l" and "marshal v @ s' = marshal u @ t'"
        by (auto dest!: quoted_prefix)
      with ok m p q JObj.IH [of p v u s' t'] show ?thesis by (simp add: Basic_BNFs.snds.simps)
    qed
  qed simp
  with w show ?case by simp
qed

theorem marshal_inj: "json_ok v \<Longrightarrow> json_ok w \<Longrightarrow> marshal v = marshal w \<Longrightarrow> v = w"
  using marshal_prefix [of v w "[]" "[]"] by (simp add: delim_def)

end
