(* ===== verification/GoTime.thy ===== *)
theory GoTime
  imports GoJson
begin

text \<open>
  \<open>time.Parse\<close> with the layouts \<open>time.RFC3339\<close> and \<open>time.RFC3339Nano\<close>, which accept the same strings:
  an hour of one or two digits, an optional fraction of a second after a period or a comma (read
  to nanoseconds), and \<open>Z\<close> or an offset of at most 24 hours and 60 minutes.  A \<open>time.Time\<close> is its distance
  in nanoseconds from the zero time, January 1 of year 1, 00:00:00 UTC.
\<close>

type_synonym time = int

text \<open>\<open>Time.IsZero\<close>\<close>

definition is_zero_time :: "time \<Rightarrow> bool" where
  "is_zero_time t \<longleftrightarrow> t = 0"

definition leap_year :: "int \<Rightarrow> bool" where
  "leap_year y \<longleftrightarrow> y mod 4 = 0 \<and> (y mod 100 \<noteq> 0 \<or> y mod 400 = 0)"

definition month_lengths :: "int \<Rightarrow> int list" where
  "month_lengths y = [31, if leap_year y then 29 else 28, 31, 30, 31, 30, 31, 31, 30, 31, 30, 31]"

definition days_in :: "nat \<Rightarrow> int \<Rightarrow> int" where
  "days_in m y = month_lengths y ! (m - 1)"

text \<open>Days from January 1 of year 1 to a date.\<close>

definition days_since :: "int \<Rightarrow> nat \<Rightarrow> int \<Rightarrow> int" where
  "days_since y m d =
    (let p = y - 1
     in 365 * p + p div 4 - p div 100 + p div 400 + sum_list (take (m - 1) (month_lengths y)) + d - 1)"

text \<open>Readers of a prefix of the input.\<close>

fun read_digits :: "nat \<Rightarrow> string \<Rightarrow> (nat \<times> string) option" where
  "read_digits k s =
    (if k \<le> length s \<and> list_all is_digit (take k s) then Some (digits_val (take k s), drop k s) else None)"

fun read_char :: "char \<Rightarrow> string \<Rightarrow> string option" where
  "read_char c [] = None"
| "read_char c (x # xs) = (if x = c then Some xs else None)"

text \<open>\<open>getnum(value, false)\<close>: two digits, or one that no digit follows.\<close>

definition read_hour :: "string \<Rightarrow> (nat \<times> string) option" where
  "read_hour s = (case read_digits 2 s of Some r \<Rightarrow> Some r | None \<Rightarrow> read_digits 1 s)"

definition read_fraction :: "string \<Rightarrow> nat \<times> string" where
  "read_fraction s =
    (case s of
       c # d # _ \<Rightarrow>
         if c \<in> {CHR ''.'', CHR '',''} \<and> is_digit d then
           (let ds = takeWhile is_digit (tl s); kept = take 9 ds
            in (digits_val kept * 10 ^ (9 - length kept), dropWhile is_digit (tl s)))
         else (0, s)
     | _ \<Rightarrow> (0, s))"

text \<open>The offset from UTC in seconds.\<close>

definition read_zone :: "string \<Rightarrow> (int \<times> string) option" where
  "read_zone s =
    (case s of
       [] \<Rightarrow> None
     | c # r \<Rightarrow>
         if c = CHR ''Z'' then Some (0, r)
         else if c = CHR ''+'' \<or> c = CHR ''-'' then
           Option.bind (read_digits 2 r) (\<lambda>(hr, r).
           Option.bind (read_char CHR '':'' r) (\<lambda>r.
           Option.bind (read_digits 2 r) (\<lambda>(mm, r).
             if 24 < hr \<or> 60 < mm then None
             else Some ((if c = CHR ''-'' then - 1 else 1) * (int hr * 60 + int mm) * 60, r))))
         else None)"

definition parse_rfc3339 :: "string \<Rightarrow> time option" where
  "parse_rfc3339 s =
    Option.bind (read_digits 4 s) (\<lambda>(year, s).
    Option.bind (read_char CHR ''-'' s) (\<lambda>s.
    Option.bind (read_digits 2 s) (\<lambda>(month, s).
    Option.bind (read_char CHR ''-'' s) (\<lambda>s.
    Option.bind (read_digits 2 s) (\<lambda>(day, s).
    Option.bind (read_char CHR ''T'' s) (\<lambda>s.
    Option.bind (read_hour s) (\<lambda>(hour, s).
    Option.bind (read_char CHR '':'' s) (\<lambda>s.
    Option.bind (read_digits 2 s) (\<lambda>(minute, s).
    Option.bind (read_char CHR '':'' s) (\<lambda>s.
    Option.bind (read_digits 2 s) (\<lambda>(sec, s).
    (let (nsec, s) = read_fraction s in
    Option.bind (read_zone s) (\<lambda>(offset, s).
      if s \<noteq> [] \<or> month < 1 \<or> 12 < month \<or> day < 1 \<or> days_in month (int year) < int day \<or>
         23 < hour \<or> 59 < minute \<or> 59 < sec then None
      else Some (((days_since (int year) month (int day) * 24 + int hour) * 60 + int minute) * 60 * 1000000000
             + (int sec - offset) * 1000000000 + int nsec))))))))))))))"

end
