(* ===== verification/EvidenceGraph.thy ===== *)
theory EvidenceGraph
  imports GoTime
begin

text \<open>
  \<open>internal/evidencegraph/canonical.go\<close>: the canonical evidence graph artifact, its identifiers and
  digests, and \<open>CanonicalArtifact.Validate\<close>.  Enumerations of the source are string types, so a value
  may be any string and validation has to reject the unknown ones; they are strings here too.
\<close>

section \<open>Enumerations\<close>

type_synonym CanonicalNodeKind = string
type_synonym CanonicalEdgeRelation = string
type_synonym TemporalStatus = string

abbreviation "CanonicalSchemaVersion \<equiv> ''canonical-evidence-graph/v1''"
abbreviation "CanonicalHistoricalSchemaVersion \<equiv> ''canonical-evidence-graph/v2''"
abbreviation "DerivationHistoricalOnly \<equiv> ''historical_only''"
abbreviation "DerivationOrdinary \<equiv> ''ordinary''"

abbreviation "CanonicalRawEvidence \<equiv> ''raw_evidence''"
abbreviation "CanonicalSourceClaim \<equiv> ''source_claim''"
abbreviation "CanonicalDerivedClaim \<equiv> ''derived_claim''"
abbreviation "CanonicalCandidate \<equiv> ''candidate''"

abbreviation "CanonicalSupportsClaim \<equiv> ''supports_claim''"
abbreviation "CanonicalContradicts \<equiv> ''contradicts''"
abbreviation "CanonicalReferences \<equiv> ''references''"
abbreviation "CanonicalSupersedes \<equiv> ''supersedes''"
abbreviation "CanonicalImplements \<equiv> ''implements''"
abbreviation "CanonicalDerivedFrom \<equiv> ''derived_from''"

abbreviation "TemporalUnknown \<equiv> ''unknown''"
abbreviation "TemporalCurrent \<equiv> ''current''"
abbreviation "TemporalStale \<equiv> ''stale''"
abbreviation "TemporalSuperseded \<equiv> ''superseded''"

definition CanonicalNodeKinds :: "CanonicalNodeKind list" where
  "CanonicalNodeKinds =
    [CanonicalRawEvidence, CanonicalSourceClaim, CanonicalDerivedClaim, CanonicalCandidate]"

definition CanonicalRelations :: "CanonicalEdgeRelation list" where
  "CanonicalRelations =
    [CanonicalSupportsClaim, CanonicalContradicts, CanonicalReferences, CanonicalSupersedes,
     CanonicalImplements, CanonicalDerivedFrom]"

definition TemporalStatuses :: "TemporalStatus list" where
  "TemporalStatuses = [TemporalUnknown, TemporalCurrent, TemporalStale, TemporalSuperseded]"

section \<open>Records\<close>

record CanonicalNode =
  nd_ID :: string
  nd_Kind :: CanonicalNodeKind
  nd_PayloadRef :: string
  nd_ProvenanceRef :: string
  nd_TemporalRef :: string
  nd_IntegrityRef :: string

record CanonicalEdge =
  ed_ID :: string
  ed_From :: string
  ed_To :: string
  ed_Relation :: CanonicalEdgeRelation
  ed_ProvenanceRef :: string

record TargetAnchor =
  ta_Kind :: string
  ta_ID :: string

record EvidencePayload =
  pl_ID :: string
  pl_SourceType :: string
  pl_Title :: string
  pl_Source :: string
  pl_Span :: string
  pl_SpanLocator :: string
  pl_Claim :: string
  pl_Applicability :: string
  pl_TargetAnchors :: "TargetAnchor list"

record ProvenanceRecord =
  pv_ID :: string
  pv_OriginRefs :: "string list"
  pv_OriginGroupID :: string
  pv_Producer :: string
  pv_Method :: string
  pv_MethodVersion :: string
  pv_TraceRef :: string
  pv_ReviewRef :: string

record TemporalRecord =
  tm_ID :: string
  tm_Status :: TemporalStatus
  tm_ObservedAt :: string
  tm_ValidFrom :: string
  tm_ValidTo :: string

record IntegrityRecord =
  ig_ID :: string
  ig_Algorithm :: string
  ig_Digest :: string

record DerivationRecord =
  dv_UseClass :: string
  dv_ID :: string
  dv_NodeID :: string
  dv_Parents :: "string list"
  dv_Method :: string
  dv_Producer :: string
  dv_TraceRef :: string
  dv_ProvenanceRef :: string

record CanonicalArtifact =
  ar_SchemaVersion :: string
  ar_SnapshotID :: string
  ar_Nodes :: "CanonicalNode list"
  ar_Edges :: "CanonicalEdge list"
  ar_Payloads :: "EvidencePayload list"
  ar_Provenance :: "ProvenanceRecord list"
  ar_Temporal :: "TemporalRecord list"
  ar_Integrity :: "IntegrityRecord list"
  ar_Derivations :: "DerivationRecord list"

section \<open>Identifiers and digests\<close>

abbreviation NUL :: char where
  "NUL \<equiv> CHR 0x00"

abbreviation blank :: "string \<Rightarrow> bool" where
  "blank s \<equiv> trim_space s = []"

text \<open>\<open>StableCanonicalID\<close>: the first 16 hexadecimal digits of the digest of the NUL-terminated parts.\<close>

definition StableCanonicalID :: "string \<Rightarrow> string list \<Rightarrow> string" where
  "StableCanonicalID pre parts =
    trim_space pre @ '':'' @ take 16 (sha256_hex (concat (map (\<lambda>p. trim_space p @ [NUL]) parts)))"

definition anchor_json :: "TargetAnchor \<Rightarrow> json" where
  "anchor_json a = JObj [(''kind'', JStr (ta_Kind a)), (''id'', JStr (ta_ID a))]"

definition payload_json :: "EvidencePayload \<Rightarrow> json" where
  "payload_json p = JObj
    ([(''id'', JStr (pl_ID p)), (''source_type'', JStr (pl_SourceType p)),
      (''title'', JStr (pl_Title p)), (''source'', JStr (pl_Source p))] @
     omitempty ''span'' (pl_Span p) @ omitempty ''span_locator'' (pl_SpanLocator p) @
     omitempty ''claim'' (pl_Claim p) @ omitempty ''applicability'' (pl_Applicability p) @
     (if pl_TargetAnchors p = [] then []
      else [(''target_anchors'', JArr (map anchor_json (pl_TargetAnchors p)))]))"

definition PayloadDigest :: "EvidencePayload \<Rightarrow> string" where
  "PayloadDigest p = sha256_hex (marshal (payload_json p))"

section \<open>Indexes\<close>

abbreviation plain :: "string \<Rightarrow> error" where
  "plain m \<equiv> Error Plain m"

text \<open>
  The loop of the four \<open>index\<close> functions: check the item, reject an ID already in the index, check
  further, and store the item under its ID.
\<close>

definition index_items ::
  "('a \<Rightarrow> string) \<Rightarrow> ('a \<Rightarrow> unit result) \<Rightarrow> string \<Rightarrow> ('a \<Rightarrow> unit result) \<Rightarrow> 'a list \<Rightarrow> (string \<rightharpoonup> 'a) result"
where
  "index_items key pre dup post items =
    fold_res (\<lambda>index item.
      and_then (pre item) (\<lambda>_.
      if index (key item) \<noteq> None then Inl (plain dup)
      else and_then (post item) (\<lambda>_. Inr (index(key item \<mapsto> item))))) Map.empty items"

definition TargetAnchor_Validate :: "TargetAnchor \<Rightarrow> unit result" where
  "TargetAnchor_Validate a =
    (if blank (ta_Kind a) then Inl (plain ''kind is required'')
     else if blank (ta_ID a) then Inl (plain ''id is required'')
     else Inr ())"

definition anchor_key :: "TargetAnchor \<Rightarrow> string" where
  "anchor_key a = ta_Kind a @ NUL # ta_ID a"

definition validate_anchors :: "TargetAnchor list \<Rightarrow> unit result" where
  "validate_anchors as = and_then
    (index_items anchor_key (\<lambda>a. in_context ''payload target_anchor: '' (TargetAnchor_Validate a))
      ''payload duplicate target_anchor'' (\<lambda>_. Inr ()) as) (\<lambda>_. Inr ())"

definition indexPayloads :: "EvidencePayload list \<Rightarrow> (string \<rightharpoonup> EvidencePayload) result" where
  "indexPayloads items = index_items pl_ID
    (\<lambda>p. if blank (pl_ID p) \<or> blank (pl_SourceType p) \<or> blank (pl_Title p) \<or> blank (pl_Source p)
         then Inl (plain ''payload requires id, source_type, title, and source'') else Inr ())
    ''duplicate payload''
    (\<lambda>p. validate_anchors (pl_TargetAnchors p)) items"

definition indexProvenance :: "ProvenanceRecord list \<Rightarrow> (string \<rightharpoonup> ProvenanceRecord) result" where
  "indexProvenance items = index_items pv_ID
    (\<lambda>p. if blank (pv_ID p) \<or> pv_OriginRefs p = [] \<or> blank (pv_OriginGroupID p) \<or>
            blank (pv_Producer p) \<or> blank (pv_Method p) \<or> blank (pv_MethodVersion p) \<or>
            blank (pv_TraceRef p)
         then Inl (plain ''provenance requires id, origin_refs, origin_group_id, producer, method, method_version, and trace_ref'')
         else each (\<lambda>o'. if blank o' then Inl (plain ''provenance contains an empty origin_ref'')
                        else Inr ()) (pv_OriginRefs p))
    ''duplicate provenance'' (\<lambda>_. Inr ()) items"

definition indexTemporal :: "TemporalRecord list \<Rightarrow> (string \<rightharpoonup> TemporalRecord) result" where
  "indexTemporal items = index_items tm_ID
    (\<lambda>t. if blank (tm_ID t) \<or> tm_Status t \<notin> set TemporalStatuses
         then Inl (plain ''temporal requires id and a valid status'')
         else each (\<lambda>v. if v \<noteq> [] \<and> parse_rfc3339 v = None
                        then Inl (plain ''temporal must use RFC3339'') else Inr ())
                [tm_ObservedAt t, tm_ValidFrom t, tm_ValidTo t])
    ''duplicate temporal'' (\<lambda>_. Inr ()) items"

definition indexIntegrity :: "IntegrityRecord list \<Rightarrow> (string \<rightharpoonup> IntegrityRecord) result" where
  "indexIntegrity items = index_items ig_ID
    (\<lambda>r. if blank (ig_ID r) \<or> ig_Algorithm r \<noteq> ''sha256'' \<or> length (ig_Digest r) \<noteq> 64
         then Inl (plain ''integrity requires id, sha256 algorithm, and a 64-character digest'')
         else if \<not> hex_decodable (ig_Digest r) then Inl (plain ''integrity digest is not hexadecimal'')
         else Inr ())
    ''duplicate integrity'' (\<lambda>_. Inr ()) items"

section \<open>Validation of an artifact\<close>

definition CanonicalNode_validate ::
  "(string \<rightharpoonup> EvidencePayload) \<Rightarrow> (string \<rightharpoonup> ProvenanceRecord) \<Rightarrow> (string \<rightharpoonup> TemporalRecord) \<Rightarrow>
   (string \<rightharpoonup> IntegrityRecord) \<Rightarrow> CanonicalNode \<Rightarrow> unit result"
where
  "CanonicalNode_validate payloads provenance temporal integrity n =
    (if blank (nd_ID n) then Inl (plain ''id is required'')
     else if nd_Kind n \<notin> set CanonicalNodeKinds then Inl (plain ''node has invalid kind'')
     else case payloads (nd_PayloadRef n) of
       None \<Rightarrow> Inl (plain ''node payload_ref is not defined'')
     | Some payload \<Rightarrow>
         if provenance (nd_ProvenanceRef n) = None then Inl (plain ''node provenance_ref is not defined'')
         else if temporal (nd_TemporalRef n) = None then Inl (plain ''node temporal_ref is not defined'')
         else case integrity (nd_IntegrityRef n) of
           None \<Rightarrow> Inl (plain ''node integrity_ref is not defined'')
         | Some record \<Rightarrow>
             if ig_Digest record \<noteq> PayloadDigest payload
             then Inl (plain ''node payload integrity mismatch'') else Inr ())"

definition CanonicalEdge_validate ::
  "(string \<rightharpoonup> CanonicalNode) \<Rightarrow> (string \<rightharpoonup> ProvenanceRecord) \<Rightarrow> CanonicalEdge \<Rightarrow> unit result"
where
  "CanonicalEdge_validate nodes provenance e =
    (if blank (ed_ID e) then Inl (plain ''id is required'')
     else if nodes (ed_From e) = None then Inl (plain ''from node is not defined'')
     else if nodes (ed_To e) = None then Inl (plain ''to node is not defined'')
     else if ed_Relation e \<notin> set CanonicalRelations then Inl (plain ''invalid relation'')
     else if provenance (ed_ProvenanceRef e) = None then Inl (plain ''provenance_ref is not defined'')
     else Inr ())"

text \<open>The key under which a \<open>derived_from\<close> edge is recorded.\<close>

definition derived_key :: "string \<Rightarrow> string \<Rightarrow> string" where
  "derived_key parent child = parent @ NUL # child"

definition validate_parents ::
  "(string \<rightharpoonup> CanonicalNode) \<Rightarrow> string set \<Rightarrow> string \<Rightarrow> string list \<Rightarrow> string set result"
where
  "validate_parents nodes derivedEdges child parents =
    fold_res (\<lambda>seen parent.
      if nodes parent = None then Inl (plain ''parent node is not defined'')
      else if parent \<in> seen then Inl (plain ''duplicate parent'')
      else if derived_key parent child \<notin> derivedEdges
        then Inl (plain ''parent is missing derived_from edge'')
      else Inr (insert parent seen)) {} parents"

definition DerivationRecord_validate ::
  "(string \<rightharpoonup> CanonicalNode) \<Rightarrow> (string \<rightharpoonup> ProvenanceRecord) \<Rightarrow> string set \<Rightarrow> DerivationRecord \<Rightarrow> unit result"
where
  "DerivationRecord_validate nodes provenance derivedEdges d =
    (if dv_UseClass d \<noteq> [] \<and> dv_UseClass d \<noteq> DerivationHistoricalOnly
       then Inl (plain ''unknown derivation use class'')
     else if blank (dv_ID d) \<or> blank (dv_NodeID d) then Inl (plain ''id and node_id are required'')
     else case nodes (dv_NodeID d) of
       None \<Rightarrow> Inl (plain ''node is not defined'')
     | Some node \<Rightarrow>
         if nd_Kind node \<noteq> CanonicalDerivedClaim \<and> nd_Kind node \<noteq> CanonicalCandidate
           then Inl (plain ''node kind cannot have a derivation'')
         else if dv_Parents d = [] then Inl (plain ''derivation requires at least one parent'')
         else and_then (validate_parents nodes derivedEdges (dv_NodeID d) (dv_Parents d)) (\<lambda>_.
           if blank (dv_Method d) \<or> blank (dv_Producer d) \<or> blank (dv_TraceRef d)
             then Inl (plain ''derivation requires method, producer, and trace_ref'')
           else if provenance (dv_ProvenanceRef d) = None
             then Inl (plain ''provenance_ref is not defined'')
           else Inr ()))"

text \<open>
  The loop over the derivations: \<open>derivations\<close> by ID and \<open>derivationByNode\<close> (whose domain is the
  source's \<open>derivedNodes\<close>).
\<close>

definition index_derivations ::
  "string \<Rightarrow> (string \<rightharpoonup> CanonicalNode) \<Rightarrow> (string \<rightharpoonup> ProvenanceRecord) \<Rightarrow> string set \<Rightarrow> DerivationRecord list \<Rightarrow>
   ((string \<rightharpoonup> DerivationRecord) \<times> (string \<rightharpoonup> DerivationRecord)) result"
where
  "index_derivations version nodes provenance derivedEdges ds =
    fold_res (\<lambda>(derivations, byNode) d.
      if dv_UseClass d \<noteq> [] \<and> version \<noteq> CanonicalHistoricalSchemaVersion
        then Inl (plain ''use classification requires canonical graph v2'')
      else and_then (in_context ''derivation: '' (DerivationRecord_validate nodes provenance derivedEdges d)) (\<lambda>_.
        if derivations (dv_ID d) \<noteq> None then Inl (plain ''duplicate derivation'')
        else if byNode (dv_NodeID d) \<noteq> None then Inl (plain ''node has multiple derivation records'')
        else Inr (derivations(dv_ID d \<mapsto> d), byNode(dv_NodeID d \<mapsto> d)))) (Map.empty, Map.empty) ds"

definition derived_edge_keys :: "CanonicalEdge list \<Rightarrow> string set" where
  "derived_edge_keys es =
    set (map (\<lambda>e. derived_key (ed_From e) (ed_To e)) (filter (\<lambda>e. ed_Relation e = CanonicalDerivedFrom) es))"

definition index_nodes ::
  "(string \<rightharpoonup> EvidencePayload) \<Rightarrow> (string \<rightharpoonup> ProvenanceRecord) \<Rightarrow> (string \<rightharpoonup> TemporalRecord) \<Rightarrow>
   (string \<rightharpoonup> IntegrityRecord) \<Rightarrow> CanonicalNode list \<Rightarrow> (string \<rightharpoonup> CanonicalNode) result"
where
  "index_nodes payloads provenance temporal integrity = index_items nd_ID
    (\<lambda>n. in_context ''node: '' (CanonicalNode_validate payloads provenance temporal integrity n))
    ''duplicate node'' (\<lambda>_. Inr ())"

definition index_edges ::
  "(string \<rightharpoonup> CanonicalNode) \<Rightarrow> (string \<rightharpoonup> ProvenanceRecord) \<Rightarrow> CanonicalEdge list \<Rightarrow>
   (string \<rightharpoonup> CanonicalEdge) result"
where
  "index_edges nodes provenance = index_items ed_ID
    (\<lambda>e. in_context ''edge: '' (CanonicalEdge_validate nodes provenance e))
    ''duplicate edge'' (\<lambda>_. Inr ())"

definition CanonicalArtifact_Validate :: "CanonicalArtifact \<Rightarrow> unit result" where
  "CanonicalArtifact_Validate a =
    (if ar_SchemaVersion a \<noteq> CanonicalSchemaVersion \<and> ar_SchemaVersion a \<noteq> CanonicalHistoricalSchemaVersion
       then Inl (plain ''schema_version must be canonical-evidence-graph/v1'')
     else if blank (ar_SnapshotID a) then Inl (plain ''snapshot_id is required'')
     else
       and_then (indexPayloads (ar_Payloads a)) (\<lambda>payloads.
       and_then (indexProvenance (ar_Provenance a)) (\<lambda>provenance.
       and_then (indexTemporal (ar_Temporal a)) (\<lambda>temporal.
       and_then (indexIntegrity (ar_Integrity a)) (\<lambda>integrity.
       and_then (index_nodes payloads provenance temporal integrity (ar_Nodes a)) (\<lambda>nodes.
       and_then (index_edges nodes provenance (ar_Edges a)) (\<lambda>edges.
       and_then (index_derivations (ar_SchemaVersion a) nodes provenance
         (derived_edge_keys (ar_Edges a)) (ar_Derivations a)) (\<lambda>(derivations, derivationByNode).
       and_then (each (\<lambda>n.
         if (nd_Kind n = CanonicalDerivedClaim \<or> nd_Kind n = CanonicalCandidate) \<and>
            derivationByNode (nd_ID n) = None
         then Inl (plain ''node requires a derivation record'') else Inr ()) (ar_Nodes a)) (\<lambda>_.
       each (\<lambda>e.
         if ed_Relation e \<noteq> CanonicalDerivedFrom then Inr ()
         else case derivationByNode (ed_To e) of
           None \<Rightarrow> Inl (plain ''derived_from edge is not declared by its target derivation'')
         | Some d \<Rightarrow>
             if ed_From e \<in> set (dv_Parents d) then Inr ()
             else Inl (plain ''derived_from edge is not declared by its target derivation'')) (ar_Edges a))))))))))"

section \<open>What an index holds\<close>

lemma index_items_from:
  fixes pre post :: "'a \<Rightarrow> unit result" and key :: "'a \<Rightarrow> string" and dup :: string
  defines "step \<equiv> \<lambda>index item.
      and_then (pre item) (\<lambda>_.
      if index (key item) \<noteq> None then Inl (plain dup)
      else and_then (post item) (\<lambda>_. Inr (index(key item \<mapsto> item))))"
  shows "fold_res step m0 items = Inr m \<longleftrightarrow>
   (\<forall>x\<in>set items. pre x = Inr () \<and> post x = Inr ()) \<and> distinct (map key items) \<and>
   key ` set items \<inter> dom m0 = {} \<and> m = m0 ++ map_of (map (\<lambda>x. (key x, x)) items)"
proof (induction items arbitrary: m0)
  case (Cons x xs)
  have "step m0 x = Inr m' \<longleftrightarrow> pre x = Inr () \<and> post x = Inr () \<and> key x \<notin> dom m0 \<and>
      m' = m0(key x \<mapsto> x)" for m'
    by (auto simp: step_def returns)
  then have "fold_res step m0 (x # xs) = Inr m \<longleftrightarrow>
      pre x = Inr () \<and> post x = Inr () \<and> key x \<notin> dom m0 \<and>
      fold_res step (m0(key x \<mapsto> x)) xs = Inr m"
    by (auto simp: returns)
  moreover have "fold_res step (m0(key x \<mapsto> x)) xs = Inr m \<longleftrightarrow>
      (\<forall>x\<in>set xs. pre x = Inr () \<and> post x = Inr ()) \<and> distinct (map key xs) \<and>
      key ` set xs \<inter> insert (key x) (dom m0) = {} \<and>
      m = m0(key x \<mapsto> x) ++ map_of (map (\<lambda>x. (key x, x)) xs)"
    by (subst Cons.IH) simp
  moreover define T where "T = m0 ++ map_of (map (\<lambda>x. (key x, x)) (x # xs))"
  moreover have "m0(key x \<mapsto> x) ++ map_of (map (\<lambda>x. (key x, x)) xs) = T" if "key x \<notin> key ` set xs"
    using that unfolding T_def by (simp add: map_add_upd_left dom_map_of_conv_image_fst image_image)
  ultimately show ?case unfolding T_def [symmetric] by (cases "key x \<in> key ` set xs") auto
qed auto

lemma index_items_Inr:
  "index_items key pre dup post items = Inr m \<longleftrightarrow>
    (\<forall>x\<in>set items. pre x = Inr () \<and> post x = Inr ()) \<and> distinct (map key items) \<and>
    m = map_of (map (\<lambda>x. (key x, x)) items)"
  unfolding index_items_def by (subst index_items_from) simp

text \<open>
  The contract of an index: it is built exactly when every item is in order and no key is used
  twice, and then it finds exactly the items.
\<close>

locale record_index =
  fixes key :: "'a \<Rightarrow> string"
    and build :: "'a list \<Rightarrow> (string \<rightharpoonup> 'a) result"
    and ok :: "'a \<Rightarrow> bool"
  assumes build_iff: "build xs = Inr m \<longleftrightarrow>
    (\<forall>x\<in>set xs. ok x) \<and> distinct (map key xs) \<and> m = map_of (map (\<lambda>x. (key x, x)) xs)"
begin

lemma lookup: "build xs = Inr m \<Longrightarrow> m k = Some x \<longleftrightarrow> x \<in> set xs \<and> key x = k"
  by (auto simp: build_iff map_of_eq_Some_iff distinct_map comp_def inj_on_def)

lemma lookup_None: "build xs = Inr m \<Longrightarrow> m k = None \<longleftrightarrow> k \<notin> key ` set xs"
  by (auto simp: build_iff map_of_eq_None_iff image_image)

lemma bex_lookup:
  assumes "build xs = Inr m"
  shows "(\<exists>x\<in>set xs. key x = k \<and> Q x) \<longleftrightarrow> (\<exists>x. m k = Some x \<and> Q x)"
  unfolding lookup [OF assms] by auto

lemma mem_lookup:
  assumes "build xs = Inr m"
  shows "k \<in> key ` set xs \<longleftrightarrow> (\<exists>x. m k = Some x)"
  unfolding lookup [OF assms] by auto

lemma total: "(\<exists>m. build xs = Inr m) \<longleftrightarrow> (\<forall>x\<in>set xs. ok x) \<and> distinct (map key xs)"
  by (simp add: build_iff)

lemma permuted: "mset xs = mset ys \<Longrightarrow> build xs = Inr m \<longleftrightarrow> build ys = Inr m"
proof -
  assume eq: "mset xs = mset ys"
  then have "distinct (map key xs) \<longleftrightarrow> distinct (map key ys)"
    by (metis mset_map mset_eq_imp_distinct_iff)
  moreover have "map_of (map (\<lambda>x. (key x, x)) xs) = map_of (map (\<lambda>x. (key x, x)) ys)"
    if "distinct (map key xs)" "distinct (map key ys)"
    using that mset_eq_setD [OF eq] by (intro map_of_inject_set [THEN iffD2]) (auto simp: comp_def)
  ultimately show ?thesis using mset_eq_setD [OF eq] by (auto simp: build_iff)
qed

end

definition payload_ok :: "EvidencePayload \<Rightarrow> bool" where
  "payload_ok p \<longleftrightarrow> \<not> blank (pl_ID p) \<and> \<not> blank (pl_SourceType p) \<and> \<not> blank (pl_Title p) \<and>
    \<not> blank (pl_Source p) \<and> distinct (map anchor_key (pl_TargetAnchors p)) \<and>
    (\<forall>a\<in>set (pl_TargetAnchors p). \<not> blank (ta_Kind a) \<and> \<not> blank (ta_ID a))"

definition provenance_ok :: "ProvenanceRecord \<Rightarrow> bool" where
  "provenance_ok p \<longleftrightarrow> \<not> blank (pv_ID p) \<and> pv_OriginRefs p \<noteq> [] \<and> \<not> blank (pv_OriginGroupID p) \<and>
    \<not> blank (pv_Producer p) \<and> \<not> blank (pv_Method p) \<and> \<not> blank (pv_MethodVersion p) \<and>
    \<not> blank (pv_TraceRef p) \<and> (\<forall>r\<in>set (pv_OriginRefs p). \<not> blank r)"

definition temporal_ok :: "TemporalRecord \<Rightarrow> bool" where
  "temporal_ok t \<longleftrightarrow> \<not> blank (tm_ID t) \<and> tm_Status t \<in> set TemporalStatuses \<and>
    (\<forall>v\<in>{tm_ObservedAt t, tm_ValidFrom t, tm_ValidTo t}. v = [] \<or> parse_rfc3339 v \<noteq> None)"

definition integrity_ok :: "IntegrityRecord \<Rightarrow> bool" where
  "integrity_ok r \<longleftrightarrow> \<not> blank (ig_ID r) \<and> ig_Algorithm r = ''sha256'' \<and> length (ig_Digest r) = 64 \<and>
    hex_decodable (ig_Digest r)"

lemma validate_anchors_Inr [returns]:
  "validate_anchors as = Inr u \<longleftrightarrow>
    distinct (map anchor_key as) \<and> (\<forall>a\<in>set as. \<not> blank (ta_Kind a) \<and> \<not> blank (ta_ID a))"
  by (auto simp: validate_anchors_def index_items_Inr TargetAnchor_Validate_def returns)

interpretation payloads: record_index pl_ID indexPayloads payload_ok
  by unfold_locales (auto simp: indexPayloads_def index_items_Inr payload_ok_def returns)

interpretation provenances: record_index pv_ID indexProvenance provenance_ok
  by unfold_locales (auto simp: indexProvenance_def index_items_Inr provenance_ok_def returns)

interpretation temporals: record_index tm_ID indexTemporal temporal_ok
  by unfold_locales (auto simp: indexTemporal_def index_items_Inr temporal_ok_def returns)

interpretation integrities: record_index ig_ID indexIntegrity integrity_ok
  by unfold_locales (auto simp: indexIntegrity_def index_items_Inr integrity_ok_def returns)

interpretation nodes: record_index nd_ID "index_nodes pl pv tm ig"
  "\<lambda>n. CanonicalNode_validate pl pv tm ig n = Inr ()" for pl pv tm ig
  by unfold_locales (auto simp: index_nodes_def index_items_Inr returns)

interpretation edges: record_index ed_ID "index_edges nodes pv"
  "\<lambda>e. CanonicalEdge_validate nodes pv e = Inr ()" for nodes pv
  by unfold_locales (auto simp: index_edges_def index_items_Inr returns)

lemma validate_parents_from:
  fixes nodes :: "string \<rightharpoonup> CanonicalNode"
  defines "step \<equiv> \<lambda>child derivedEdges seen parent.
      if nodes parent = None then Inl (plain ''parent node is not defined'')
      else if parent \<in> seen then Inl (plain ''duplicate parent'')
      else if derived_key parent child \<notin> derivedEdges
        then Inl (plain ''parent is missing derived_from edge'')
      else Inr (insert parent seen)"
  shows "fold_res (step child keys) seen ps = Inr s \<longleftrightarrow>
    (\<forall>p\<in>set ps. p \<in> dom nodes \<and> derived_key p child \<in> keys) \<and> distinct ps \<and>
    set ps \<inter> seen = {} \<and> s = seen \<union> set ps"
proof (induction ps arbitrary: seen)
  case (Cons p ps)
  have "fold_res (step child keys) seen (p # ps) = Inr s \<longleftrightarrow>
      p \<in> dom nodes \<and> p \<notin> seen \<and> derived_key p child \<in> keys \<and>
      fold_res (step child keys) (insert p seen) ps = Inr s"
    by (auto simp: step_def returns)
  then show ?case unfolding Cons.IH by auto
qed auto

lemma validate_parents_Inr [returns]:
  "validate_parents nodes keys child ps = Inr s \<longleftrightarrow>
    (\<forall>p\<in>set ps. p \<in> dom nodes \<and> derived_key p child \<in> keys) \<and> distinct ps \<and> s = set ps"
  unfolding validate_parents_def by (subst validate_parents_from) auto

lemma index_derivations_from:
  fixes nodes :: "string \<rightharpoonup> CanonicalNode" and pv :: "string \<rightharpoonup> ProvenanceRecord"
    and keys :: "string set" and version :: string
  defines "ok \<equiv> \<lambda>d. (dv_UseClass d = [] \<or> version = CanonicalHistoricalSchemaVersion) \<and>
      DerivationRecord_validate nodes pv keys d = Inr ()"
  defines "step \<equiv> \<lambda>(derivations, byNode) d.
      if dv_UseClass d \<noteq> [] \<and> version \<noteq> CanonicalHistoricalSchemaVersion
        then Inl (plain ''use classification requires canonical graph v2'')
      else and_then (in_context ''derivation: '' (DerivationRecord_validate nodes pv keys d)) (\<lambda>_.
        if derivations (dv_ID d) \<noteq> None then Inl (plain ''duplicate derivation'')
        else if byNode (dv_NodeID d) \<noteq> None then Inl (plain ''node has multiple derivation records'')
        else Inr (derivations(dv_ID d \<mapsto> d), byNode(dv_NodeID d \<mapsto> d)))"
  shows "(\<exists>m'. fold_res step (m, n) ds = Inr (m', n')) \<longleftrightarrow>
    (\<forall>d\<in>set ds. ok d) \<and> distinct (map dv_ID ds) \<and> dv_ID ` set ds \<inter> dom m = {} \<and>
    distinct (map dv_NodeID ds) \<and> dv_NodeID ` set ds \<inter> dom n = {} \<and>
    n' = n ++ map_of (map (\<lambda>d. (dv_NodeID d, d)) ds)"
proof (induction ds arbitrary: m n)
  case (Cons d ds)
  have "(\<exists>m'. fold_res step (m, n) (d # ds) = Inr (m', n')) \<longleftrightarrow>
      ok d \<and> dv_ID d \<notin> dom m \<and> dv_NodeID d \<notin> dom n \<and>
      (\<exists>m'. fold_res step (m(dv_ID d \<mapsto> d), n(dv_NodeID d \<mapsto> d)) ds = Inr (m', n'))"
    by (auto simp: step_def ok_def returns)
  moreover have "(\<exists>m'. fold_res step (m(dv_ID d \<mapsto> d), n(dv_NodeID d \<mapsto> d)) ds = Inr (m', n')) \<longleftrightarrow>
      (\<forall>d\<in>set ds. ok d) \<and> distinct (map dv_ID ds) \<and> dv_ID ` set ds \<inter> insert (dv_ID d) (dom m) = {} \<and>
      distinct (map dv_NodeID ds) \<and> dv_NodeID ` set ds \<inter> insert (dv_NodeID d) (dom n) = {} \<and>
      n' = n(dv_NodeID d \<mapsto> d) ++ map_of (map (\<lambda>d. (dv_NodeID d, d)) ds)"
    by (subst Cons.IH) simp
  moreover define T where "T = n ++ map_of (map (\<lambda>d. (dv_NodeID d, d)) (d # ds))"
  moreover have "n(dv_NodeID d \<mapsto> d) ++ map_of (map (\<lambda>d. (dv_NodeID d, d)) ds) = T"
    if "dv_NodeID d \<notin> dv_NodeID ` set ds"
    using that unfolding T_def by (simp add: map_add_upd_left dom_map_of_conv_image_fst image_image)
  ultimately show ?case unfolding T_def [symmetric]
    by (cases "dv_NodeID d \<in> dv_NodeID ` set ds") auto
qed auto

lemma index_derivations_Inr:
  "(\<exists>m'. index_derivations version nodes pv keys ds = Inr (m', n')) \<longleftrightarrow>
    (\<forall>d\<in>set ds. (dv_UseClass d = [] \<or> version = CanonicalHistoricalSchemaVersion) \<and>
      DerivationRecord_validate nodes pv keys d = Inr ()) \<and>
    distinct (map dv_ID ds) \<and> distinct (map dv_NodeID ds) \<and>
    n' = map_of (map (\<lambda>d. (dv_NodeID d, d)) ds)"
  unfolding index_derivations_def by (subst index_derivations_from) simp

section \<open>What a valid artifact is\<close>

text \<open>
  The declarative reading of \<open>CanonicalArtifact.Validate\<close>: IDs are unique, every reference resolves,
  integrity records carry the digest of the payload they are used with, and the \<open>derived_from\<close> edges
  are exactly the parent links of the derivation records, one record for every derived node.
\<close>

definition node_ok :: "CanonicalArtifact \<Rightarrow> CanonicalNode \<Rightarrow> bool" where
  "node_ok a n \<longleftrightarrow> \<not> blank (nd_ID n) \<and> nd_Kind n \<in> set CanonicalNodeKinds \<and>
    (\<exists>p\<in>set (ar_Payloads a). pl_ID p = nd_PayloadRef n \<and>
      (\<exists>r\<in>set (ar_Integrity a). ig_ID r = nd_IntegrityRef n \<and> ig_Digest r = PayloadDigest p)) \<and>
    nd_ProvenanceRef n \<in> pv_ID ` set (ar_Provenance a) \<and> nd_TemporalRef n \<in> tm_ID ` set (ar_Temporal a)"

definition edge_ok :: "CanonicalArtifact \<Rightarrow> CanonicalEdge \<Rightarrow> bool" where
  "edge_ok a e \<longleftrightarrow> \<not> blank (ed_ID e) \<and> ed_From e \<in> nd_ID ` set (ar_Nodes a) \<and>
    ed_To e \<in> nd_ID ` set (ar_Nodes a) \<and> ed_Relation e \<in> set CanonicalRelations \<and>
    ed_ProvenanceRef e \<in> pv_ID ` set (ar_Provenance a)"

definition derived_from :: "CanonicalArtifact \<Rightarrow> (string \<times> string) set" where
  "derived_from a = (\<lambda>e. (ed_From e, ed_To e)) ` {e \<in> set (ar_Edges a). ed_Relation e = CanonicalDerivedFrom}"

definition is_derived :: "CanonicalNode \<Rightarrow> bool" where
  "is_derived n \<longleftrightarrow> nd_Kind n = CanonicalDerivedClaim \<or> nd_Kind n = CanonicalCandidate"

definition derivation_ok :: "CanonicalArtifact \<Rightarrow> (string \<Rightarrow> string \<Rightarrow> bool) \<Rightarrow> DerivationRecord \<Rightarrow> bool" where
  "derivation_ok a linked d \<longleftrightarrow>
    (dv_UseClass d = [] \<or>
     dv_UseClass d = DerivationHistoricalOnly \<and> ar_SchemaVersion a = CanonicalHistoricalSchemaVersion) \<and>
    \<not> blank (dv_ID d) \<and> \<not> blank (dv_NodeID d) \<and>
    (\<exists>n\<in>set (ar_Nodes a). nd_ID n = dv_NodeID d \<and> is_derived n) \<and>
    dv_Parents d \<noteq> [] \<and> distinct (dv_Parents d) \<and>
    (\<forall>p\<in>set (dv_Parents d). p \<in> nd_ID ` set (ar_Nodes a) \<and> linked p (dv_NodeID d)) \<and>
    \<not> blank (dv_Method d) \<and> \<not> blank (dv_Producer d) \<and> \<not> blank (dv_TraceRef d) \<and>
    dv_ProvenanceRef d \<in> pv_ID ` set (ar_Provenance a)"

definition artifact_ok_linked :: "CanonicalArtifact \<Rightarrow> (string \<Rightarrow> string \<Rightarrow> bool) \<Rightarrow> bool" where
  "artifact_ok_linked a linked \<longleftrightarrow>
    (ar_SchemaVersion a = CanonicalSchemaVersion \<or> ar_SchemaVersion a = CanonicalHistoricalSchemaVersion) \<and>
    \<not> blank (ar_SnapshotID a) \<and>
    (\<forall>p\<in>set (ar_Payloads a). payload_ok p) \<and> distinct (map pl_ID (ar_Payloads a)) \<and>
    (\<forall>p\<in>set (ar_Provenance a). provenance_ok p) \<and> distinct (map pv_ID (ar_Provenance a)) \<and>
    (\<forall>t\<in>set (ar_Temporal a). temporal_ok t) \<and> distinct (map tm_ID (ar_Temporal a)) \<and>
    (\<forall>r\<in>set (ar_Integrity a). integrity_ok r) \<and> distinct (map ig_ID (ar_Integrity a)) \<and>
    (\<forall>n\<in>set (ar_Nodes a). node_ok a n) \<and> distinct (map nd_ID (ar_Nodes a)) \<and>
    (\<forall>e\<in>set (ar_Edges a). edge_ok a e) \<and> distinct (map ed_ID (ar_Edges a)) \<and>
    (\<forall>d\<in>set (ar_Derivations a). derivation_ok a linked d) \<and>
    distinct (map dv_ID (ar_Derivations a)) \<and> distinct (map dv_NodeID (ar_Derivations a)) \<and>
    (\<forall>n\<in>set (ar_Nodes a). is_derived n \<longrightarrow> nd_ID n \<in> dv_NodeID ` set (ar_Derivations a)) \<and>
    (\<forall>(p, c)\<in>derived_from a. \<exists>d\<in>set (ar_Derivations a). dv_NodeID d = c \<and> p \<in> set (dv_Parents d))"

definition artifact_ok :: "CanonicalArtifact \<Rightarrow> bool" where
  "artifact_ok a \<longleftrightarrow> artifact_ok_linked a (\<lambda>p c. (p, c) \<in> derived_from a)"

lemma node_validate_ok:
  assumes "indexPayloads (ar_Payloads a) = Inr pl" and "indexProvenance (ar_Provenance a) = Inr pv"
    and "indexTemporal (ar_Temporal a) = Inr tm" and "indexIntegrity (ar_Integrity a) = Inr ig"
  shows "CanonicalNode_validate pl pv tm ig n = Inr () \<longleftrightarrow> node_ok a n"
  unfolding node_ok_def payloads.bex_lookup [OF assms(1)] provenances.mem_lookup [OF assms(2)]
    temporals.mem_lookup [OF assms(3)] integrities.bex_lookup [OF assms(4)]
  by (auto simp: CanonicalNode_validate_def returns split: option.splits)

lemma edge_validate_ok:
  assumes "index_nodes pl pv' tm ig (ar_Nodes a) = Inr nodes" and "indexProvenance (ar_Provenance a) = Inr pv"
  shows "CanonicalEdge_validate nodes pv e = Inr () \<longleftrightarrow> edge_ok a e"
  unfolding edge_ok_def nodes.mem_lookup [OF assms(1)] provenances.mem_lookup [OF assms(2)]
  by (auto simp: CanonicalEdge_validate_def returns)

lemma derivation_validate_ok:
  assumes "index_nodes pl pv' tm ig (ar_Nodes a) = Inr nodes" and "indexProvenance (ar_Provenance a) = Inr pv"
  shows "(dv_UseClass d = [] \<or> ar_SchemaVersion a = CanonicalHistoricalSchemaVersion) \<and>
      DerivationRecord_validate nodes pv keys d = Inr () \<longleftrightarrow>
    derivation_ok a (\<lambda>p c. derived_key p c \<in> keys) d"
  unfolding derivation_ok_def nodes.mem_lookup [OF assms(1)] nodes.bex_lookup [OF assms(1)]
    provenances.mem_lookup [OF assms(2)]
  by (auto simp: DerivationRecord_validate_def is_derived_def returns split: option.splits)

lemma derivation_checks:
  fixes ds :: "DerivationRecord list"
  defines "byNode \<equiv> map_of (map (\<lambda>d. (dv_NodeID d, d)) ds)"
  assumes "distinct (map dv_NodeID ds)"
  shows "(\<exists>d. byNode k = Some d) \<longleftrightarrow> k \<in> dv_NodeID ` set ds"
    and "(case byNode k of None \<Rightarrow> Inl e | Some d \<Rightarrow> if p \<in> set (dv_Parents d) then Inr () else Inl e) = Inr u \<longleftrightarrow>
      (\<exists>d\<in>set ds. dv_NodeID d = k \<and> p \<in> set (dv_Parents d))"
proof -
  have some: "byNode k = Some d \<longleftrightarrow> d \<in> set ds \<and> dv_NodeID d = k" for d
    using assms(2) unfolding byNode_def
    by (auto simp: map_of_eq_Some_iff distinct_map comp_def inj_on_def)
  show "(\<exists>d. byNode k = Some d) \<longleftrightarrow> k \<in> dv_NodeID ` set ds"
    unfolding some by auto
  show "(case byNode k of None \<Rightarrow> Inl e | Some d \<Rightarrow> if p \<in> set (dv_Parents d) then Inr () else Inl e) = Inr u \<longleftrightarrow>
      (\<exists>d\<in>set ds. dv_NodeID d = k \<and> p \<in> set (dv_Parents d))"
  proof (cases "byNode k")
    case None
    then show ?thesis using some by (metis Inl_Inr_False option.distinct(1) option.simps(4))
  next
    case (Some d)
    then have "d' \<in> set ds \<and> dv_NodeID d' = k \<longleftrightarrow> d' = d" for d'
      using some [of d'] by auto
    then have "(\<exists>d\<in>set ds. dv_NodeID d = k \<and> p \<in> set (dv_Parents d)) \<longleftrightarrow> p \<in> set (dv_Parents d)"
      by metis
    with Some show ?thesis by simp
  qed
qed

text \<open>Validation without a condition on the IDs: links are compared through their NUL-joined keys.\<close>

lemma Validate_linked:
  "CanonicalArtifact_Validate a = Inr () \<longleftrightarrow>
    artifact_ok_linked a (\<lambda>p c. derived_key p c \<in> derived_edge_keys (ar_Edges a))"
  (is "_ \<longleftrightarrow> artifact_ok_linked a ?linked")
proof (cases "\<exists>pl pv tm ig. indexPayloads (ar_Payloads a) = Inr pl \<and> indexProvenance (ar_Provenance a) = Inr pv \<and>
    indexTemporal (ar_Temporal a) = Inr tm \<and> indexIntegrity (ar_Integrity a) = Inr ig")
  case False
  then have "\<not> artifact_ok_linked a ?linked"
    by (auto simp: artifact_ok_linked_def payloads.build_iff provenances.build_iff
        temporals.build_iff integrities.build_iff)
  with False show ?thesis by (auto simp: CanonicalArtifact_Validate_def returns)
next
  case True
  then obtain pl pv tm ig where
    maps: "indexPayloads (ar_Payloads a) = Inr pl" "indexProvenance (ar_Provenance a) = Inr pv"
      "indexTemporal (ar_Temporal a) = Inr tm" "indexIntegrity (ar_Integrity a) = Inr ig" by blast
  have four: "(\<forall>p\<in>set (ar_Payloads a). payload_ok p) \<and> distinct (map pl_ID (ar_Payloads a)) \<and>
    (\<forall>p\<in>set (ar_Provenance a). provenance_ok p) \<and> distinct (map pv_ID (ar_Provenance a)) \<and>
    (\<forall>t\<in>set (ar_Temporal a). temporal_ok t) \<and> distinct (map tm_ID (ar_Temporal a)) \<and>
    (\<forall>r\<in>set (ar_Integrity a). integrity_ok r) \<and> distinct (map ig_ID (ar_Integrity a))"
    using maps by (auto simp: payloads.build_iff provenances.build_iff temporals.build_iff
        integrities.build_iff)
  show ?thesis
  proof (cases "\<exists>nodes. index_nodes pl pv tm ig (ar_Nodes a) = Inr nodes")
    case False
    then have "\<not> artifact_ok_linked a ?linked"
      unfolding artifact_ok_linked_def nodes.total node_validate_ok [OF maps] by blast
    with False maps show ?thesis by (auto simp: CanonicalArtifact_Validate_def returns)
  next
    case True
    then obtain nodes where nodes: "index_nodes pl pv tm ig (ar_Nodes a) = Inr nodes" by blast
    have nodes_ok: "(\<forall>n\<in>set (ar_Nodes a). node_ok a n) \<and> distinct (map nd_ID (ar_Nodes a))"
      using nodes unfolding nodes.build_iff node_validate_ok [OF maps] by blast
    let ?ds = "ar_Derivations a"
    let ?e = "plain ''derived_from edge is not declared by its target derivation''"
    have "CanonicalArtifact_Validate a = Inr () \<longleftrightarrow>
      (ar_SchemaVersion a = CanonicalSchemaVersion \<or> ar_SchemaVersion a = CanonicalHistoricalSchemaVersion) \<and>
      \<not> blank (ar_SnapshotID a) \<and>
      (\<exists>edges. index_edges nodes pv (ar_Edges a) = Inr edges) \<and>
      (\<exists>byNode. (\<exists>m'. index_derivations (ar_SchemaVersion a) nodes pv (derived_edge_keys (ar_Edges a)) ?ds = Inr (m', byNode)) \<and>
        (\<forall>n\<in>set (ar_Nodes a). is_derived n \<longrightarrow> byNode (nd_ID n) \<noteq> None) \<and>
        (\<forall>e\<in>set (ar_Edges a). ed_Relation e = CanonicalDerivedFrom \<longrightarrow>
          (case byNode (ed_To e) of None \<Rightarrow> Inl ?e
           | Some d \<Rightarrow> if ed_From e \<in> set (dv_Parents d) then Inr () else Inl ?e) = Inr ()))"
      using maps nodes unfolding CanonicalArtifact_Validate_def is_derived_def
      by (simp add: returns) blast
    also have "\<dots> \<longleftrightarrow> artifact_ok_linked a ?linked"
      unfolding artifact_ok_linked_def edges.total edge_validate_ok [OF nodes maps(2)]
        index_derivations_Inr derivation_validate_ok [OF nodes maps(2)]
      using four nodes_ok by (auto simp: derivation_checks derived_from_def)
    finally show ?thesis .
  qed
qed

lemma derived_key_eq:
  assumes "NUL \<notin> set p" and "NUL \<notin> set p'"
  shows "derived_key p c = derived_key p' c' \<longleftrightarrow> p = p' \<and> c = c'"
proof -
  have "takeWhile (\<lambda>x. x \<noteq> NUL) (q @ NUL # d) = q" if "NUL \<notin> set q" for q d
    using that by (subst takeWhile_append2) auto
  then show ?thesis using assms unfolding derived_key_def by (metis append_same_eq list.inject same_append_eq)
qed

text \<open>C31. \<open>CanonicalArtifact.Validate\<close> accepts an artifact exactly when it is well formed: IDs unique,
  references defined, payload digests correct, and the \<open>derived_from\<close> edges equal to the parent links
  of the one derivation record each derived node has.  Node IDs must not contain a NUL byte.\<close>

theorem artifact_validate_iff_ok:
  assumes "\<forall>n\<in>set (ar_Nodes a). NUL \<notin> set (nd_ID n)"
  shows "CanonicalArtifact_Validate a = Inr () \<longleftrightarrow> artifact_ok a"
proof -
  let ?linked = "\<lambda>p c. derived_key p c \<in> derived_edge_keys (ar_Edges a)"
  have "derivation_ok a ?linked d \<longleftrightarrow> derivation_ok a (\<lambda>p c. (p, c) \<in> derived_from a) d"
    if edges: "\<forall>e\<in>set (ar_Edges a). edge_ok a e" for d
  proof -
    have "NUL \<notin> set (ed_From e)" if "e \<in> set (ar_Edges a)" for e
      using edges assms that by (auto simp: edge_ok_def)
    moreover have "NUL \<notin> set p" if "p \<in> nd_ID ` set (ar_Nodes a)" for p
      using assms that by auto
    ultimately have "?linked p c \<longleftrightarrow> (p, c) \<in> derived_from a" if "p \<in> nd_ID ` set (ar_Nodes a)" for p c
      using that by (auto simp: derived_edge_keys_def derived_from_def derived_key_eq)
    then show ?thesis by (auto simp: derivation_ok_def)
  qed
  then have "derivation_ok a ?linked = derivation_ok a (\<lambda>p c. (p, c) \<in> derived_from a)"
    if "\<forall>e\<in>set (ar_Edges a). edge_ok a e"
    using that by blast
  then have "artifact_ok_linked a ?linked \<longleftrightarrow> artifact_ok_linked a (\<lambda>p c. (p, c) \<in> derived_from a)"
    unfolding artifact_ok_linked_def by (intro conj_cong refl) simp_all
  then show ?thesis by (simp add: Validate_linked artifact_ok_def)
qed

text \<open>A sample: one payload, a source claim and a claim derived from it.\<close>

definition sample_payload :: EvidencePayload where
  "sample_payload = \<lparr>pl_ID = ''p1'', pl_SourceType = ''doc'', pl_Title = ''title'', pl_Source = ''file'',
     pl_Span = [], pl_SpanLocator = [], pl_Claim = ''holds'', pl_Applicability = [], pl_TargetAnchors = []\<rparr>"

definition sample_node :: "string \<Rightarrow> CanonicalNodeKind \<Rightarrow> CanonicalNode" where
  "sample_node i k = \<lparr>nd_ID = i, nd_Kind = k, nd_PayloadRef = ''p1'', nd_ProvenanceRef = ''v1'',
     nd_TemporalRef = ''t1'', nd_IntegrityRef = ''g1''\<rparr>"

definition sample_edge :: "string \<Rightarrow> string \<Rightarrow> string \<Rightarrow> CanonicalEdge" where
  "sample_edge i p c = \<lparr>ed_ID = i, ed_From = p, ed_To = c, ed_Relation = CanonicalDerivedFrom,
     ed_ProvenanceRef = ''v1''\<rparr>"

definition sample_derivation :: "string \<Rightarrow> string \<Rightarrow> string list \<Rightarrow> DerivationRecord" where
  "sample_derivation i n ps = \<lparr>dv_UseClass = [], dv_ID = i, dv_NodeID = n, dv_Parents = ps,
     dv_Method = ''review'', dv_Producer = ''person'', dv_TraceRef = ''trace'', dv_ProvenanceRef = ''v1''\<rparr>"

definition sample_artifact :: "CanonicalNode list \<Rightarrow> CanonicalEdge list \<Rightarrow> DerivationRecord list \<Rightarrow> CanonicalArtifact" where
  "sample_artifact ns es ds = \<lparr>ar_SchemaVersion = CanonicalSchemaVersion, ar_SnapshotID = ''snap'',
     ar_Nodes = ns, ar_Edges = es, ar_Payloads = [sample_payload],
     ar_Provenance = [\<lparr>pv_ID = ''v1'', pv_OriginRefs = [''o1''], pv_OriginGroupID = ''group'', pv_Producer = ''person'',
       pv_Method = ''review'', pv_MethodVersion = ''v1'', pv_TraceRef = ''trace'', pv_ReviewRef = []\<rparr>],
     ar_Temporal = [\<lparr>tm_ID = ''t1'', tm_Status = TemporalUnknown, tm_ObservedAt = [], tm_ValidFrom = [], tm_ValidTo = []\<rparr>],
     ar_Integrity = [\<lparr>ig_ID = ''g1'', ig_Algorithm = ''sha256'', ig_Digest = PayloadDigest sample_payload\<rparr>],
     ar_Derivations = ds\<rparr>"

lemmas sample_defs = sample_artifact_def sample_node_def sample_edge_def sample_derivation_def

lemma trim_space_Cons:
  "solid c \<Longrightarrow> solid (last (c # cs)) \<Longrightarrow> trim_space (c # cs) = c # cs"
  by (rule trim_space_solid) simp_all

lemma sample_parts:
  "payload_ok sample_payload"
  "integrity_ok \<lparr>ig_ID = ''g1'', ig_Algorithm = ''sha256'', ig_Digest = PayloadDigest p\<rparr>"
  by (simp_all add: payload_ok_def sample_payload_def integrity_ok_def PayloadDigest_def sha256_hex_def
      hex_decodable_encode trim_space_Cons solid_def)

lemmas ok_defs = artifact_ok_linked_def provenance_ok_def temporal_ok_def node_ok_def edge_ok_def
  derivation_ok_def is_derived_def CanonicalNodeKinds_def CanonicalRelations_def TemporalStatuses_def

theorem artifact_validate_iff_ok_witness:
  "CanonicalArtifact_Validate (sample_artifact
     [sample_node ''n1'' CanonicalSourceClaim, sample_node ''n2'' CanonicalDerivedClaim]
     [sample_edge ''e1'' ''n1'' ''n2''] [sample_derivation ''d1'' ''n2'' [''n1'']]) = Inr ()"
  by (subst artifact_validate_iff_ok)
    (auto simp: artifact_ok_def derived_from_def ok_defs sample_defs sample_parts
      sample_payload_def [THEN arg_cong [where f = pl_ID]] trim_space_Cons solid_def)

text \<open>Links are compared through \<open>from + "\\x00" + to\<close>, so two different links have one key when an ID
  contains a NUL byte: validation then accepts an artifact in which a derivation names a parent that
  no \<open>derived_from\<close> edge connects to it.\<close>

theorem artifact_validate_nul_collision:
  "\<exists>a. CanonicalArtifact_Validate a = Inr () \<and>
    (\<exists>d\<in>set (ar_Derivations a). \<exists>p\<in>set (dv_Parents d). (p, dv_NodeID d) \<notin> derived_from a)"
proof (intro exI conjI)
  let ?bc = "[CHR ''b'', NUL, CHR ''c'']" and ?ab = "[CHR ''a'', NUL, CHR ''b'']"
  let ?a = "sample_artifact
     [sample_node ''a'' CanonicalSourceClaim, sample_node ?ab CanonicalSourceClaim,
      sample_node ?bc CanonicalDerivedClaim, sample_node ''c'' CanonicalDerivedClaim]
     [sample_edge ''e1'' ?ab ''c''] [sample_derivation ''d1'' ''c'' [?ab], sample_derivation ''d2'' ?bc [''a'']]"
  show "CanonicalArtifact_Validate ?a = Inr ()"
    unfolding Validate_linked
    by (auto simp: derived_from_def derived_edge_keys_def derived_key_def ok_defs sample_defs sample_parts
      sample_payload_def [THEN arg_cong [where f = pl_ID]] trim_space_Cons solid_def)
  show "\<exists>d\<in>set (ar_Derivations ?a). \<exists>p\<in>set (dv_Parents d). (p, dv_NodeID d) \<notin> derived_from ?a"
    by (auto simp: derived_from_def sample_defs)
qed

end
