(* ===== verification/Supersession.thy ===== *)
theory Supersession
  imports GoJson
begin

text \<open>
  \<open>internal/evidencesupersession/supersession.go\<close>: the identity contracts of governed supersession:
  lineage bases and keys, replacement targets, the request, decision and event payloads with
  their constructors, validators and content-derived identifiers.
\<close>

section \<open>Constants\<close>

abbreviation "LineageContractVersionV1 \<equiv> ''supersession-lineage/v1''"
abbreviation "RequestContractVersionV2 \<equiv> ''supersession-admission-request/v2''"
abbreviation "DecisionContractVersionV2 \<equiv> ''supersession-admission-decision/v2''"
abbreviation "AdmissionEventContractVersionV2 \<equiv> ''supersession-admission-event/v2''"
abbreviation "ChainKey \<equiv> ''canonical-supersession/v1''"
abbreviation "AtomicReplacementEventKind \<equiv> ''atomic_replacement''"
abbreviation "lineageIDPrefix \<equiv> ''lineage:v1:''"
abbreviation "admissionEventIDPrefix \<equiv> ''admission-event:v2:''"
abbreviation "admissionOutcome \<equiv> ''admitted''"

definition MaxReplacementTargets :: nat where
  "MaxReplacementTargets = 64"

abbreviation (input) "maxSourceSystemBytes \<equiv> (64::nat)"
abbreviation (input) "maxSourceNamespaceBytes \<equiv> (200::nat)"
abbreviation (input) "maxObjectTypeBytes \<equiv> (100::nat)"
abbreviation (input) "maxObjectIDBytes \<equiv> (500::nat)"
abbreviation (input) "maxSlotKindBytes \<equiv> (100::nat)"
abbreviation (input) "maxSlotIDBytes \<equiv> (500::nat)"
abbreviation (input) "maxDecisionByBytes \<equiv> (200::nat)"
abbreviation (input) "maxDecisionReasonBytes \<equiv> (2000::nat)"

section \<open>Canonical strings, record IDs and hashes\<close>

definition validateCanonicalString :: "string \<Rightarrow> string \<Rightarrow> nat \<Rightarrow> unit result" where
  "validateCanonicalString name value maxBytes =
    (if value = [] then Inl (Error Plain (name @ '' is required''))
     else if \<not> utf8_valid value then Inl (Error Plain (name @ '' is not valid UTF-8''))
     else if trim_space value \<noteq> value
       then Inl (Error Plain (name @ '' must not have surrounding whitespace''))
     else if length value > maxBytes then Inl (Error Plain (name @ '' exceeds bytes''))
     else Inr ())"

definition validateRecordID :: "string \<Rightarrow> string \<Rightarrow> string \<Rightarrow> unit result" where
  "validateRecordID name value pre =
    (if \<not> utf8_valid value \<or> trim_space value \<noteq> value \<or> \<not> has_prefix value pre \<or>
        length value = length pre
     then Inl (Error Plain (name @ '' must be a canonical ID'')) else Inr ())"

definition isSourceSystemToken :: "string \<Rightarrow> bool" where
  "isSourceSystemToken value \<longleftrightarrow>
    list_all (\<lambda>c. CHR ''a'' \<le> c \<and> c \<le> CHR ''z'' \<or> CHR ''0'' \<le> c \<and> c \<le> CHR ''9'' \<or>
                 c = CHR ''.'' \<or> c = CHR ''_'' \<or> c = CHR ''-'') value \<and> value \<noteq> []"

definition hashJSON :: "json \<Rightarrow> string" where
  "hashJSON v = ''sha256:'' @ sha256_hex (marshal v)"

definition validHash :: "string \<Rightarrow> bool" where
  "validHash value \<longleftrightarrow>
    has_prefix value ''sha256:'' \<and> length value = length ''sha256:'' + 64 \<and>
    hex_decodable (trim_prefix value ''sha256:'') \<and> value = to_lower value"

definition validAdmissionEventID :: "string \<Rightarrow> bool" where
  "validAdmissionEventID value \<longleftrightarrow>
    has_prefix value admissionEventIDPrefix \<and> validHash (trim_prefix value admissionEventIDPrefix)"

section \<open>Lineage basis\<close>

record Basis =
  SourceSystem :: string
  SourceNamespace :: string
  ObjectType :: string
  ObjectID :: string
  SlotKind :: string
  SlotID :: string

definition Basis_Normalize :: "Basis \<Rightarrow> Basis" where
  "Basis_Normalize b =
    \<lparr>SourceSystem = trim_space (SourceSystem b), SourceNamespace = trim_space (SourceNamespace b),
     ObjectType = trim_space (ObjectType b), ObjectID = trim_space (ObjectID b),
     SlotKind = trim_space (SlotKind b), SlotID = trim_space (SlotID b)\<rparr>"

definition Basis_Validate :: "Basis \<Rightarrow> unit result" where
  "Basis_Validate b =
    and_then
      (each (\<lambda>(name, value, maxBytes). wrap ErrInvalidBasis (validateCanonicalString name value maxBytes))
        [(''source_system'', SourceSystem b, maxSourceSystemBytes),
         (''source_namespace'', SourceNamespace b, maxSourceNamespaceBytes),
         (''object_type'', ObjectType b, maxObjectTypeBytes),
         (''object_id'', ObjectID b, maxObjectIDBytes),
         (''slot_kind'', SlotKind b, maxSlotKindBytes),
         (''slot_id'', SlotID b, maxSlotIDBytes)])
      (\<lambda>_. if isSourceSystemToken (SourceSystem b) then Inr ()
           else Inl (Error ErrInvalidBasis ''source_system must use lower-case letters, digits, dot, underscore, or hyphen''))"

definition basis_json :: "Basis \<Rightarrow> json" where
  "basis_json b = JObj
    [(''source_system'', JStr (SourceSystem b)), (''source_namespace'', JStr (SourceNamespace b)),
     (''object_type'', JStr (ObjectType b)), (''object_id'', JStr (ObjectID b)),
     (''slot_kind'', JStr (SlotKind b)), (''slot_id'', JStr (SlotID b))]"

definition basis_preimage :: "Basis \<Rightarrow> json" where
  "basis_preimage b = JObj
    [(''contract_version'', JStr LineageContractVersionV1), (''basis'', basis_json b)]"

definition Basis_Key :: "Basis \<Rightarrow> string result" where
  "Basis_Key b = and_then (Basis_Validate b) (\<lambda>_. Inr (lineageIDPrefix @ hashJSON (basis_preimage b)))"

section \<open>Replacement targets\<close>

definition NormalizeTargets :: "string list \<Rightarrow> string list result" where
  "NormalizeTargets values =
    (if values = [] then Inl (Error ErrInvalidTargets ''at least one target is required'')
     else if length values > MaxReplacementTargets
       then Inl (Error ErrInvalidTargets ''target count exceeds'')
     else and_then
       (each (\<lambda>v. wrap ErrInvalidTargets (validateRecordID ''target_node_id'' (trim_space v) ''canon-node:'')) values)
       (\<lambda>_. let targets = sort (map trim_space values)
            in if adjacent_dup (\<lambda>t. t) targets then Inl (Error ErrInvalidTargets ''duplicate target'')
               else Inr targets))"

definition normalizeBootstrappedTargets :: "string list \<Rightarrow> string list result" where
  "normalizeBootstrappedTargets values =
    (if length values > MaxReplacementTargets
       then Inl (Error ErrInvalidPayload ''bootstrapped target count exceeds'')
     else and_then
       (each (\<lambda>v. wrap ErrInvalidPayload (validateRecordID ''bootstrapped_node_id'' (trim_space v) ''canon-node:'')) values)
       (\<lambda>_. let nodes = sort (map trim_space values)
            in if adjacent_dup (\<lambda>t. t) nodes then Inl (Error ErrInvalidPayload ''duplicate bootstrapped node'')
               else Inr nodes))"

section \<open>Requests\<close>

record RequestPayloadV2 =
  rq_ContractVersion :: string
  rq_ProposalOccurrence :: string
  rq_ReplacementNodeID :: string
  rq_LineageBasis :: Basis
  rq_LineageKey :: string
  rq_TargetNodeIDs :: "string list"
  rq_ExpectedRevision :: int
  rq_ExpectedHeadEvent :: string

definition validateExpectedHead :: "int \<Rightarrow> string \<Rightarrow> unit result" where
  "validateExpectedHead revision eventID =
    (if revision < 0 then Inl (Error ErrInvalidPayload ''expected revision cannot be negative'')
     else if revision = 0 then
       (if eventID \<noteq> [] then Inl (Error ErrInvalidPayload ''revision zero requires an empty head event'')
        else Inr ())
     else if \<not> validAdmissionEventID eventID
       then Inl (Error ErrInvalidPayload ''positive revision requires a v2 admission event head'')
     else Inr ())"

definition NewRequestPayloadV2 ::
  "string \<Rightarrow> string \<Rightarrow> Basis \<Rightarrow> string list \<Rightarrow> int \<Rightarrow> string \<Rightarrow> RequestPayloadV2 result"
where
  "NewRequestPayloadV2 proposalOccurrence replacementNodeID basis targetNodeIDs expectedRevision expectedHeadEvent =
    (let proposalOccurrence = trim_space proposalOccurrence;
         replacementNodeID = trim_space replacementNodeID;
         expectedHeadEvent = trim_space expectedHeadEvent;
         basis = Basis_Normalize basis
     in and_then (wrap ErrInvalidPayload (validateRecordID ''proposal_occurrence_id'' proposalOccurrence ''occ:'')) (\<lambda>_.
        and_then (wrap ErrInvalidPayload (validateRecordID ''replacement_node_id'' replacementNodeID ''canon-node:'')) (\<lambda>_.
        and_then (Basis_Key basis) (\<lambda>lineageKey.
        and_then (NormalizeTargets targetNodeIDs) (\<lambda>targets.
        if replacementNodeID \<in> set targets
          then Inl (Error ErrInvalidPayload ''replacement node cannot target itself'')
        else and_then (validateExpectedHead expectedRevision expectedHeadEvent) (\<lambda>_.
          Inr \<lparr>rq_ContractVersion = RequestContractVersionV2,
               rq_ProposalOccurrence = proposalOccurrence,
               rq_ReplacementNodeID = replacementNodeID,
               rq_LineageBasis = basis,
               rq_LineageKey = lineageKey,
               rq_TargetNodeIDs = targets,
               rq_ExpectedRevision = expectedRevision,
               rq_ExpectedHeadEvent = expectedHeadEvent\<rparr>))))))"

definition RequestPayloadV2_Validate :: "RequestPayloadV2 \<Rightarrow> unit result" where
  "RequestPayloadV2_Validate p =
    and_then (NewRequestPayloadV2 (rq_ProposalOccurrence p) (rq_ReplacementNodeID p) (rq_LineageBasis p)
               (rq_TargetNodeIDs p) (rq_ExpectedRevision p) (rq_ExpectedHeadEvent p)) (\<lambda>want.
      if rq_ContractVersion p \<noteq> RequestContractVersionV2 \<or>
         rq_ProposalOccurrence p \<noteq> rq_ProposalOccurrence want \<or>
         rq_ReplacementNodeID p \<noteq> rq_ReplacementNodeID want \<or>
         rq_LineageBasis p \<noteq> rq_LineageBasis want \<or>
         rq_LineageKey p \<noteq> rq_LineageKey want \<or>
         rq_TargetNodeIDs p \<noteq> rq_TargetNodeIDs want \<or>
         rq_ExpectedRevision p \<noteq> rq_ExpectedRevision want \<or>
         rq_ExpectedHeadEvent p \<noteq> rq_ExpectedHeadEvent want
      then Inl (Error ErrInvalidPayload ''request payload is not canonical'') else Inr ())"

definition request_json :: "RequestPayloadV2 \<Rightarrow> json" where
  "request_json p = JObj
    ([(''contract_version'', JStr (rq_ContractVersion p)),
      (''proposal_occurrence_id'', JStr (rq_ProposalOccurrence p)),
      (''replacement_node_id'', JStr (rq_ReplacementNodeID p)),
      (''lineage_basis'', basis_json (rq_LineageBasis p)),
      (''lineage_key'', JStr (rq_LineageKey p)),
      (''target_node_ids'', JStrs (rq_TargetNodeIDs p)),
      (''expected_revision'', JInt (rq_ExpectedRevision p))] @
     omitempty ''expected_head_event_id'' (rq_ExpectedHeadEvent p))"

definition RequestPayloadV2_Hash :: "RequestPayloadV2 \<Rightarrow> string result" where
  "RequestPayloadV2_Hash p = and_then (RequestPayloadV2_Validate p) (\<lambda>_. Inr (hashJSON (request_json p)))"

section \<open>Decisions\<close>

record DecisionPayloadV2 =
  dc_ContractVersion :: string
  dc_ProposalOccurrence :: string
  dc_Outcome :: string
  dc_CanonicalRef :: string
  dc_DecisionBy :: string
  dc_DecisionReason :: string

definition NewDecisionPayloadV2 :: "string \<Rightarrow> string \<Rightarrow> string \<Rightarrow> string \<Rightarrow> DecisionPayloadV2 result" where
  "NewDecisionPayloadV2 proposalOccurrence replacementNodeID decisionBy decisionReason =
    (let proposalOccurrence = trim_space proposalOccurrence;
         replacementNodeID = trim_space replacementNodeID;
         decisionBy = trim_space decisionBy;
         decisionReason = trim_space decisionReason
     in and_then (wrap ErrInvalidPayload (validateRecordID ''proposal_occurrence_id'' proposalOccurrence ''occ:'')) (\<lambda>_.
        and_then (wrap ErrInvalidPayload (validateRecordID ''canonical_ref'' replacementNodeID ''canon-node:'')) (\<lambda>_.
        and_then (wrap ErrInvalidPayload (validateCanonicalString ''decision_by'' decisionBy maxDecisionByBytes)) (\<lambda>_.
        and_then (wrap ErrInvalidPayload (validateCanonicalString ''decision_reason'' decisionReason maxDecisionReasonBytes)) (\<lambda>_.
          Inr \<lparr>dc_ContractVersion = DecisionContractVersionV2,
               dc_ProposalOccurrence = proposalOccurrence,
               dc_Outcome = admissionOutcome,
               dc_CanonicalRef = replacementNodeID,
               dc_DecisionBy = decisionBy,
               dc_DecisionReason = decisionReason\<rparr>)))))"

definition DecisionPayloadV2_Validate :: "DecisionPayloadV2 \<Rightarrow> unit result" where
  "DecisionPayloadV2_Validate p =
    and_then (NewDecisionPayloadV2 (dc_ProposalOccurrence p) (dc_CanonicalRef p) (dc_DecisionBy p) (dc_DecisionReason p))
      (\<lambda>want. if dc_ContractVersion p \<noteq> DecisionContractVersionV2 \<or> dc_Outcome p \<noteq> admissionOutcome \<or> p \<noteq> want
              then Inl (Error ErrInvalidPayload ''decision payload is not canonical'') else Inr ())"

definition decision_json :: "DecisionPayloadV2 \<Rightarrow> json" where
  "decision_json p = JObj
    [(''contract_version'', JStr (dc_ContractVersion p)),
     (''proposal_occurrence_id'', JStr (dc_ProposalOccurrence p)),
     (''outcome'', JStr (dc_Outcome p)),
     (''canonical_ref'', JStr (dc_CanonicalRef p)),
     (''decision_by'', JStr (dc_DecisionBy p)),
     (''decision_reason'', JStr (dc_DecisionReason p))]"

definition DecisionPayloadV2_Hash :: "DecisionPayloadV2 \<Rightarrow> string result" where
  "DecisionPayloadV2_Hash p = and_then (DecisionPayloadV2_Validate p) (\<lambda>_. Inr (hashJSON (decision_json p)))"

section \<open>Admission events\<close>

text \<open>\<open>BootstrappedTargetNodeIDs\<close> may be a nil slice: \<open>json.Marshal\<close> writes it as \<open>null\<close>.\<close>

record AdmissionEventPayloadV2 =
  ev_ContractVersion :: string
  ev_Kind :: string
  ev_ProposalOccurrence :: string
  ev_ReplacementNodeID :: string
  ev_TargetNodeIDs :: "string list"
  ev_BootstrappedTargetNodeIDs :: "string slice"
  ev_LineageBasis :: Basis
  ev_LineageKey :: string
  ev_PreviousRevision :: int
  ev_PreviousEventID :: string
  ev_Revision :: int
  ev_AdmissionDecisionID :: string
  ev_RequestPayloadHash :: string
  ev_DecisionPayloadHash :: string

definition NewAtomicReplacementEventV2 ::
  "RequestPayloadV2 \<Rightarrow> DecisionPayloadV2 \<Rightarrow> string \<Rightarrow> string list \<Rightarrow> AdmissionEventPayloadV2 result"
where
  "NewAtomicReplacementEventV2 request decision admissionDecisionID bootstrappedTargetNodeIDs =
    and_then (RequestPayloadV2_Validate request) (\<lambda>_.
    and_then (DecisionPayloadV2_Validate decision) (\<lambda>_.
    let admissionDecisionID = trim_space admissionDecisionID in
    and_then (wrap ErrInvalidPayload (validateRecordID ''admission_decision_id'' admissionDecisionID ''adm:'')) (\<lambda>_.
    if dc_ProposalOccurrence decision \<noteq> rq_ProposalOccurrence request \<or>
       dc_CanonicalRef decision \<noteq> rq_ReplacementNodeID request
      then Inl (Error ErrInvalidPayload ''decision does not match replacement request'')
    else and_then (normalizeBootstrappedTargets bootstrappedTargetNodeIDs) (\<lambda>bootstrapped.
    and_then (each (\<lambda>nodeID. if nodeID \<in> set (rq_TargetNodeIDs request) then Inr ()
                     else Inl (Error ErrInvalidPayload ''bootstrapped node is not an event endpoint'')) bootstrapped) (\<lambda>_.
    if rq_ExpectedRevision request = MaxInt64
      then Inl (Error ErrInvalidPayload ''resulting revision overflows int64'')
    else and_then (RequestPayloadV2_Hash request) (\<lambda>requestHash.
    and_then (DecisionPayloadV2_Hash decision) (\<lambda>decisionHash.
      Inr \<lparr>ev_ContractVersion = AdmissionEventContractVersionV2,
           ev_Kind = AtomicReplacementEventKind,
           ev_ProposalOccurrence = rq_ProposalOccurrence request,
           ev_ReplacementNodeID = rq_ReplacementNodeID request,
           ev_TargetNodeIDs = rq_TargetNodeIDs request,
           ev_BootstrappedTargetNodeIDs = Some bootstrapped,
           ev_LineageBasis = rq_LineageBasis request,
           ev_LineageKey = rq_LineageKey request,
           ev_PreviousRevision = rq_ExpectedRevision request,
           ev_PreviousEventID = rq_ExpectedHeadEvent request,
           ev_Revision = wrap64 (rq_ExpectedRevision request + 1),
           ev_AdmissionDecisionID = admissionDecisionID,
           ev_RequestPayloadHash = requestHash,
           ev_DecisionPayloadHash = decisionHash\<rparr>)))))))"

definition AdmissionEventPayloadV2_Validate :: "AdmissionEventPayloadV2 \<Rightarrow> unit result" where
  "AdmissionEventPayloadV2_Validate p =
    (if ev_ContractVersion p \<noteq> AdmissionEventContractVersionV2 \<or> ev_Kind p \<noteq> AtomicReplacementEventKind
       then Inl (Error ErrInvalidPayload ''event contract or kind is invalid'')
     else and_then (wrap ErrInvalidPayload (validateRecordID ''proposal_occurrence_id'' (ev_ProposalOccurrence p) ''occ:'')) (\<lambda>_.
     and_then (wrap ErrInvalidPayload (validateRecordID ''replacement_node_id'' (ev_ReplacementNodeID p) ''canon-node:'')) (\<lambda>_.
     and_then (Basis_Validate (ev_LineageBasis p)) (\<lambda>_.
     and_then (Basis_Key (ev_LineageBasis p)) (\<lambda>lineageKey.
     if ev_LineageKey p \<noteq> lineageKey
       then Inl (Error ErrInvalidPayload ''event lineage key does not match its basis'')
     else and_then (NormalizeTargets (ev_TargetNodeIDs p)) (\<lambda>targets.
     if ev_TargetNodeIDs p \<noteq> targets \<or> ev_ReplacementNodeID p \<in> set targets
       then Inl (Error ErrInvalidPayload ''event targets are not canonical'')
     else and_then (normalizeBootstrappedTargets (elems (ev_BootstrappedTargetNodeIDs p))) (\<lambda>bootstrapped.
     if elems (ev_BootstrappedTargetNodeIDs p) \<noteq> bootstrapped
       then Inl (Error ErrInvalidPayload ''event bootstrapped targets are not canonical'')
     else and_then (each (\<lambda>nodeID. if nodeID \<in> set targets then Inr ()
                     else Inl (Error ErrInvalidPayload ''bootstrapped node is not an event endpoint'')) bootstrapped) (\<lambda>_.
     and_then (validateExpectedHead (ev_PreviousRevision p) (ev_PreviousEventID p)) (\<lambda>_.
     if ev_PreviousRevision p = MaxInt64 \<or> ev_Revision p \<noteq> wrap64 (ev_PreviousRevision p + 1)
       then Inl (Error ErrInvalidPayload ''event revision does not immediately follow its previous revision'')
     else and_then (wrap ErrInvalidPayload (validateRecordID ''admission_decision_id'' (ev_AdmissionDecisionID p) ''adm:'')) (\<lambda>_.
     if \<not> validHash (ev_RequestPayloadHash p) \<or> \<not> validHash (ev_DecisionPayloadHash p)
       then Inl (Error ErrInvalidPayload ''request and decision hashes must be complete SHA-256 values'')
     else and_then (NewRequestPayloadV2 (ev_ProposalOccurrence p) (ev_ReplacementNodeID p) (ev_LineageBasis p)
                      (ev_TargetNodeIDs p) (ev_PreviousRevision p) (ev_PreviousEventID p)) (\<lambda>request.
     and_then (RequestPayloadV2_Hash request) (\<lambda>requestHash.
     if requestHash \<noteq> ev_RequestPayloadHash p
       then Inl (Error ErrInvalidPayload ''request payload hash does not match event fields'')
     else Inr ()))))))))))))"

definition event_json :: "AdmissionEventPayloadV2 \<Rightarrow> json" where
  "event_json p = JObj
    ([(''contract_version'', JStr (ev_ContractVersion p)),
      (''kind'', JStr (ev_Kind p)),
      (''proposal_occurrence_id'', JStr (ev_ProposalOccurrence p)),
      (''replacement_node_id'', JStr (ev_ReplacementNodeID p)),
      (''target_node_ids'', JStrs (ev_TargetNodeIDs p)),
      (''bootstrapped_target_node_ids'', JSlice (map_option (map JStr) (ev_BootstrappedTargetNodeIDs p))),
      (''lineage_basis'', basis_json (ev_LineageBasis p)),
      (''lineage_key'', JStr (ev_LineageKey p)),
      (''previous_revision'', JInt (ev_PreviousRevision p))] @
     omitempty ''previous_event_id'' (ev_PreviousEventID p) @
     [(''revision'', JInt (ev_Revision p)),
      (''admission_decision_id'', JStr (ev_AdmissionDecisionID p)),
      (''request_payload_hash'', JStr (ev_RequestPayloadHash p)),
      (''decision_payload_hash'', JStr (ev_DecisionPayloadHash p))])"

definition AdmissionEventPayloadV2_ID :: "AdmissionEventPayloadV2 \<Rightarrow> string result" where
  "AdmissionEventPayloadV2_ID p =
    and_then (AdmissionEventPayloadV2_Validate p) (\<lambda>_. Inr (admissionEventIDPrefix @ hashJSON (event_json p)))"

section \<open>Shape of hashes and identifiers\<close>

lemma trim_space_append_solid:
  assumes "s \<noteq> []" and "\<forall>c\<in>set s. solid c" and "p = [] \<or> solid (hd p)"
  shows "trim_space (p @ s) = p @ s"
  using assms by (intro trim_space_solid) (auto simp: hd_append)

lemma hashJSON_solid: "\<forall>c\<in>set (hashJSON v). solid c"
  using solid_sha256_hex by (auto simp: hashJSON_def solid_def)

lemma hashJSON_nonempty [simp]: "hashJSON v \<noteq> []"
  by (simp add: hashJSON_def)

lemma utf8_valid_solid: "\<forall>c\<in>set s. solid c \<Longrightarrow> utf8_valid s"
  by (rule utf8_valid_ascii) (auto simp: list_all_iff solid_def)

lemma to_lower_append: "to_lower (s @ t) = to_lower s @ to_lower t"
  by (simp add: to_lower_def)

lemma validHash_hashJSON [simp]: "validHash (hashJSON v)"
proof -
  have "to_lower ''sha256:'' = ''sha256:''" by (simp add: to_lower_def)
  moreover have "has_prefix (''sha256:'' @ s) ''sha256:''" "trim_prefix (''sha256:'' @ s) ''sha256:'' = s" for s
    by (rule has_prefix_append, rule trim_prefix_append)
  ultimately show ?thesis
    by (simp only: validHash_def hashJSON_def to_lower_append sha256_hex_def to_lower_hex_encode
        hex_decodable_encode length_append length_hex_encode length_sha256) simp
qed

lemma validHash_solid:
  assumes "validHash h"
  shows "h \<noteq> [] \<and> (\<forall>c\<in>set h. solid c)"
proof -
  obtain r where r: "h = ''sha256:'' @ r" and "hex_decodable r"
    using assms by (auto simp: validHash_def has_prefix_iff trim_prefix_def has_prefix_def)
  then have "\<forall>c\<in>set r. solid c"
    by (auto simp: hex_decodable_def list_all_iff is_hex_def solid_def Let_def)
  with r show ?thesis by (auto simp: solid_def)
qed

lemma validAdmissionEventID_solid:
  assumes "validAdmissionEventID e"
  shows "e \<noteq> [] \<and> (\<forall>c\<in>set e. solid c)"
proof -
  obtain r where r: "e = admissionEventIDPrefix @ r" and "validHash r"
    using assms unfolding validAdmissionEventID_def has_prefix_iff by (metis trim_prefix_append)
  then have "\<forall>c\<in>set r. solid c" using validHash_solid by blast
  with r show ?thesis by (auto simp: solid_def)
qed

text \<open>What the string checks establish.\<close>

lemma validateCanonicalString_Inr [returns]:
  "validateCanonicalString name v n = Inr u \<longleftrightarrow> v \<noteq> [] \<and> utf8_valid v \<and> trim_space v = v \<and> length v \<le> n"
  by (auto simp: validateCanonicalString_def)

definition record_id :: "string \<Rightarrow> string \<Rightarrow> bool" where
  "record_id pre v \<longleftrightarrow> utf8_valid v \<and> trim_space v = v \<and> has_prefix v pre \<and> length v \<noteq> length pre"

lemma validateRecordID_Inr [returns]: "validateRecordID name v pre = Inr u \<longleftrightarrow> record_id pre v"
  by (auto simp: validateRecordID_def record_id_def)

definition canonical_string :: "nat \<Rightarrow> string \<Rightarrow> bool" where
  "canonical_string n v \<longleftrightarrow> v \<noteq> [] \<and> utf8_valid v \<and> trim_space v = v \<and> length v \<le> n"

definition basis_ok :: "Basis \<Rightarrow> bool" where
  "basis_ok b \<longleftrightarrow> canonical_string 64 (SourceSystem b) \<and> canonical_string 200 (SourceNamespace b) \<and>
    canonical_string 100 (ObjectType b) \<and> canonical_string 500 (ObjectID b) \<and>
    canonical_string 100 (SlotKind b) \<and> canonical_string 500 (SlotID b) \<and>
    isSourceSystemToken (SourceSystem b)"

lemma Basis_Validate_Inr [returns]: "Basis_Validate b = Inr u \<longleftrightarrow> basis_ok b"
  by (auto simp: Basis_Validate_def basis_ok_def canonical_string_def returns)

lemma Basis_Normalize_idem [simp]: "Basis_Normalize (Basis_Normalize b) = Basis_Normalize b"
  by (simp add: Basis_Normalize_def)

lemma Basis_Normalize_ok [simp]: "basis_ok b \<Longrightarrow> Basis_Normalize b = b"
  by (simp add: Basis_Normalize_def basis_ok_def canonical_string_def)

definition lineage_key :: "Basis \<Rightarrow> string" where
  "lineage_key b = lineageIDPrefix @ hashJSON (basis_preimage b)"

lemma Basis_Key_Inr [returns]: "Basis_Key b = Inr k \<longleftrightarrow> basis_ok b \<and> k = lineage_key b"
  by (auto simp: Basis_Key_def lineage_key_def returns)

section \<open>Target sets\<close>

definition target_set :: "string list \<Rightarrow> bool" where
  "target_set vs \<longleftrightarrow> length vs \<le> MaxReplacementTargets \<and> distinct (map trim_space vs) \<and>
    (\<forall>v\<in>set vs. record_id ''canon-node:'' (trim_space v))"

lemma NormalizeTargets_Inr [returns]:
  "NormalizeTargets vs = Inr ts \<longleftrightarrow> vs \<noteq> [] \<and> target_set vs \<and> ts = sort (map trim_space vs)"
  by (auto simp: NormalizeTargets_def target_set_def Let_def returns
      adjacent_dup_sort_key [where k = "\<lambda>t. t", simplified])

lemma normalizeBootstrappedTargets_Inr [returns]:
  "normalizeBootstrappedTargets vs = Inr ts \<longleftrightarrow> target_set vs \<and> ts = sort (map trim_space vs)"
  by (auto simp: normalizeBootstrappedTargets_def target_set_def Let_def returns
      adjacent_dup_sort_key [where k = "\<lambda>t. t", simplified])

lemma target_set_sorted:
  assumes "target_set vs"
  shows "target_set (sort (map trim_space vs))"
    and "sort (map trim_space (sort (map trim_space vs))) = sort (map trim_space vs)"
proof -
  have trimmed: "map trim_space (sort (map trim_space vs)) = sort (map trim_space vs)"
    by (intro map_idI) auto
  then show "sort (map trim_space (sort (map trim_space vs))) = sort (map trim_space vs)"
    by (simp add: sorted_sort_id)
  from assms trimmed show "target_set (sort (map trim_space vs))"
    by (auto simp: target_set_def distinct_sort)
qed

definition canonical_targets :: "string list \<Rightarrow> bool" where
  "canonical_targets ts \<longleftrightarrow> length ts \<le> MaxReplacementTargets \<and> sorted ts \<and> distinct ts \<and>
    (\<forall>t\<in>set ts. record_id ''canon-node:'' t)"

lemma canonical_targets_trim: "canonical_targets ts \<Longrightarrow> map trim_space ts = ts"
  by (intro map_idI) (simp add: canonical_targets_def record_id_def)

lemma canonical_targets_set: "canonical_targets ts \<Longrightarrow> trim_space ` set ts = set ts"
  by (metis canonical_targets_trim set_map)

lemma canonical_targets_iff:
  "canonical_targets ts \<longleftrightarrow> target_set ts \<and> ts = sort (map trim_space ts)"
proof
  assume "canonical_targets ts"
  with canonical_targets_trim [OF this] show "target_set ts \<and> ts = sort (map trim_space ts)"
    by (auto simp: canonical_targets_def target_set_def sorted_sort_id record_id_def)
next
  assume *: "target_set ts \<and> ts = sort (map trim_space ts)"
  then have "sorted ts" "distinct ts" by (metis sorted_sort, metis distinct_sort target_set_def)
  moreover have "\<forall>v\<in>set (sort (map trim_space ts)). record_id ''canon-node:'' v"
    using conjunct1 [OF *] by (simp add: target_set_def)
  then have "\<forall>v\<in>set ts. record_id ''canon-node:'' v" using * by metis
  ultimately show "canonical_targets ts" using * by (simp add: canonical_targets_def target_set_def)
qed

lemma canonical_targets_sort: "target_set vs \<Longrightarrow> canonical_targets (sort (map trim_space vs))"
  unfolding canonical_targets_iff using target_set_sorted by simp

text \<open>A canonical list is a fixed point of the normalisation, and only such a list is.\<close>

lemma NormalizeTargets_fixed [returns]:
  "NormalizeTargets ts = Inr ts \<longleftrightarrow> ts \<noteq> [] \<and> canonical_targets ts"
  "normalizeBootstrappedTargets ts = Inr ts \<longleftrightarrow> canonical_targets ts"
  by (auto simp: NormalizeTargets_Inr normalizeBootstrappedTargets_Inr canonical_targets_iff)

section \<open>Constructors and validators agree\<close>

text \<open>The conditions of the chain head.\<close>

definition head_ok :: "int \<Rightarrow> string \<Rightarrow> bool" where
  "head_ok r e \<longleftrightarrow> 0 \<le> r \<and> (if r = 0 then e = [] else validAdmissionEventID e)"

lemma validateExpectedHead_Inr [returns]: "validateExpectedHead r e = Inr u \<longleftrightarrow> head_ok r e"
  by (auto simp: validateExpectedHead_def head_ok_def)

lemma head_ok_trim: "head_ok r e \<Longrightarrow> trim_space e = e"
  using validAdmissionEventID_solid [of e]
  by (cases "e = []") (auto simp: head_ok_def intro!: trim_space_solid split: if_splits)

lemma head_ok_utf8: "head_ok r e \<Longrightarrow> utf8_valid e"
  using validAdmissionEventID_solid [of e] utf8_valid_solid [of e]
  by (auto simp: head_ok_def split: if_splits)

definition request_ok :: "RequestPayloadV2 \<Rightarrow> bool" where
  "request_ok p \<longleftrightarrow>
    rq_ContractVersion p = RequestContractVersionV2 \<and>
    record_id ''occ:'' (rq_ProposalOccurrence p) \<and> record_id ''canon-node:'' (rq_ReplacementNodeID p) \<and>
    basis_ok (rq_LineageBasis p) \<and> rq_LineageKey p = lineage_key (rq_LineageBasis p) \<and>
    rq_TargetNodeIDs p \<noteq> [] \<and> canonical_targets (rq_TargetNodeIDs p) \<and>
    rq_ReplacementNodeID p \<notin> set (rq_TargetNodeIDs p) \<and>
    head_ok (rq_ExpectedRevision p) (rq_ExpectedHeadEvent p)"

lemma record_id_trim: "record_id pre v \<Longrightarrow> trim_space v = v"
  by (simp add: record_id_def)

lemma NewRequestPayloadV2_Inr:
  "NewRequestPayloadV2 occ node basis targets rv head = Inr p \<longleftrightarrow>
    (record_id ''occ:'' (trim_space occ) \<and> record_id ''canon-node:'' (trim_space node) \<and>
     basis_ok (Basis_Normalize basis) \<and> targets \<noteq> [] \<and> target_set targets \<and>
     trim_space node \<notin> trim_space ` set targets \<and> head_ok rv (trim_space head) \<and>
     p = \<lparr>rq_ContractVersion = RequestContractVersionV2, rq_ProposalOccurrence = trim_space occ,
          rq_ReplacementNodeID = trim_space node, rq_LineageBasis = Basis_Normalize basis,
          rq_LineageKey = lineage_key (Basis_Normalize basis),
          rq_TargetNodeIDs = sort (map trim_space targets), rq_ExpectedRevision = rv,
          rq_ExpectedHeadEvent = trim_space head\<rparr>)"
  by (auto simp: NewRequestPayloadV2_def Let_def returns)

lemma sort_eq_Nil [simp]: "sort xs = [] \<longleftrightarrow> xs = []"
  by (metis set_empty set_sort)

lemma NewRequest_ok:
  assumes "NewRequestPayloadV2 occ node basis targets rv head = Inr p"
  shows "request_ok p"
  using assms by (auto simp: NewRequestPayloadV2_Inr request_ok_def canonical_targets_sort)

lemma request_ok_trim:
  assumes "request_ok p"
  shows "trim_space (rq_ProposalOccurrence p) = rq_ProposalOccurrence p"
    and "trim_space (rq_ReplacementNodeID p) = rq_ReplacementNodeID p"
    and "trim_space (rq_ExpectedHeadEvent p) = rq_ExpectedHeadEvent p"
    and "Basis_Normalize (rq_LineageBasis p) = rq_LineageBasis p"
    and "map trim_space (rq_TargetNodeIDs p) = rq_TargetNodeIDs p"
  using assms by (auto simp: request_ok_def record_id_def canonical_targets_trim intro: head_ok_trim)

lemma NewRequest_fixed:
  "NewRequestPayloadV2 (rq_ProposalOccurrence p) (rq_ReplacementNodeID p) (rq_LineageBasis p)
     (rq_TargetNodeIDs p) (rq_ExpectedRevision p) (rq_ExpectedHeadEvent p) = Inr p \<longleftrightarrow> request_ok p"
  (is "?new \<longleftrightarrow> ?ok")
proof
  assume ok: ?ok
  then have "trim_space ` set (rq_TargetNodeIDs p) = set (rq_TargetNodeIDs p)" "sort (rq_TargetNodeIDs p) = rq_TargetNodeIDs p"
    by (auto simp: request_ok_def canonical_targets_set canonical_targets_def sorted_sort_id)
  with ok show ?new
    unfolding NewRequestPayloadV2_Inr request_ok_trim [OF ok]
    by (auto simp: request_ok_def canonical_targets_iff intro: RequestPayloadV2.equality)
qed (rule NewRequest_ok)

lemma RequestPayloadV2_Validate_Inr [returns]: "RequestPayloadV2_Validate p = Inr u \<longleftrightarrow> request_ok p"
proof
  assume "RequestPayloadV2_Validate p = Inr u"
  then obtain want where new: "NewRequestPayloadV2 (rq_ProposalOccurrence p) (rq_ReplacementNodeID p)
      (rq_LineageBasis p) (rq_TargetNodeIDs p) (rq_ExpectedRevision p) (rq_ExpectedHeadEvent p) = Inr want"
    and same: "rq_ContractVersion p = RequestContractVersionV2" "rq_ProposalOccurrence p = rq_ProposalOccurrence want"
      "rq_ReplacementNodeID p = rq_ReplacementNodeID want" "rq_LineageBasis p = rq_LineageBasis want"
      "rq_LineageKey p = rq_LineageKey want" "rq_TargetNodeIDs p = rq_TargetNodeIDs want"
      "rq_ExpectedRevision p = rq_ExpectedRevision want" "rq_ExpectedHeadEvent p = rq_ExpectedHeadEvent want"
    unfolding RequestPayloadV2_Validate_def and_then_Inr if_Inl_eq_Inr by blast
  have "p = want"
    using same NewRequest_ok [OF new] by (simp add: request_ok_def RequestPayloadV2.equality)
  with NewRequest_ok [OF new] show "request_ok p" by simp
next
  assume ok: "request_ok p"
  then have "rq_ContractVersion p = RequestContractVersionV2" by (simp add: request_ok_def)
  with ok [folded NewRequest_fixed] show "RequestPayloadV2_Validate p = Inr u"
    unfolding RequestPayloadV2_Validate_def by simp
qed

definition decision_ok :: "DecisionPayloadV2 \<Rightarrow> bool" where
  "decision_ok p \<longleftrightarrow>
    dc_ContractVersion p = DecisionContractVersionV2 \<and> dc_Outcome p = admissionOutcome \<and>
    record_id ''occ:'' (dc_ProposalOccurrence p) \<and> record_id ''canon-node:'' (dc_CanonicalRef p) \<and>
    canonical_string 200 (dc_DecisionBy p) \<and> canonical_string 2000 (dc_DecisionReason p)"

lemma NewDecisionPayloadV2_Inr:
  "NewDecisionPayloadV2 occ node who reason = Inr p \<longleftrightarrow>
    record_id ''occ:'' (trim_space occ) \<and> record_id ''canon-node:'' (trim_space node) \<and>
    canonical_string 200 (trim_space who) \<and> canonical_string 2000 (trim_space reason) \<and>
    p = \<lparr>dc_ContractVersion = DecisionContractVersionV2, dc_ProposalOccurrence = trim_space occ,
         dc_Outcome = admissionOutcome, dc_CanonicalRef = trim_space node,
         dc_DecisionBy = trim_space who, dc_DecisionReason = trim_space reason\<rparr>"
  by (auto simp: NewDecisionPayloadV2_def Let_def canonical_string_def returns)

lemma DecisionPayloadV2_Validate_Inr [returns]: "DecisionPayloadV2_Validate p = Inr u \<longleftrightarrow> decision_ok p"
  unfolding DecisionPayloadV2_Validate_def
  by (cases p) (auto simp: returns NewDecisionPayloadV2_Inr decision_ok_def record_id_def canonical_string_def)

lemma RequestPayloadV2_Hash_Inr [returns]:
  "RequestPayloadV2_Hash p = Inr h \<longleftrightarrow> request_ok p \<and> h = hashJSON (request_json p)"
  by (auto simp: RequestPayloadV2_Hash_def returns)

lemma DecisionPayloadV2_Hash_Inr [returns]:
  "DecisionPayloadV2_Hash p = Inr h \<longleftrightarrow> decision_ok p \<and> h = hashJSON (decision_json p)"
  by (auto simp: DecisionPayloadV2_Hash_def returns)

text \<open>The request that an event commits to.\<close>

definition event_request :: "AdmissionEventPayloadV2 \<Rightarrow> RequestPayloadV2" where
  "event_request p =
    \<lparr>rq_ContractVersion = RequestContractVersionV2, rq_ProposalOccurrence = ev_ProposalOccurrence p,
     rq_ReplacementNodeID = ev_ReplacementNodeID p, rq_LineageBasis = ev_LineageBasis p,
     rq_LineageKey = ev_LineageKey p, rq_TargetNodeIDs = ev_TargetNodeIDs p,
     rq_ExpectedRevision = ev_PreviousRevision p, rq_ExpectedHeadEvent = ev_PreviousEventID p\<rparr>"

definition event_ok :: "AdmissionEventPayloadV2 \<Rightarrow> bool" where
  "event_ok p \<longleftrightarrow>
    ev_ContractVersion p = AdmissionEventContractVersionV2 \<and> ev_Kind p = AtomicReplacementEventKind \<and>
    request_ok (event_request p) \<and>
    (let bs = elems (ev_BootstrappedTargetNodeIDs p)
     in canonical_targets bs \<and> set bs \<subseteq> set (ev_TargetNodeIDs p)) \<and>
    ev_PreviousRevision p \<noteq> MaxInt64 \<and> ev_Revision p = wrap64 (ev_PreviousRevision p + 1) \<and>
    record_id ''adm:'' (ev_AdmissionDecisionID p) \<and>
    ev_RequestPayloadHash p = hashJSON (request_json (event_request p)) \<and>
    validHash (ev_DecisionPayloadHash p)"

lemma event_request_simps [simp]:
  "rq_ContractVersion (event_request p) = RequestContractVersionV2"
  "rq_ProposalOccurrence (event_request p) = ev_ProposalOccurrence p"
  "rq_ReplacementNodeID (event_request p) = ev_ReplacementNodeID p"
  "rq_LineageBasis (event_request p) = ev_LineageBasis p"
  "rq_LineageKey (event_request p) = ev_LineageKey p"
  "rq_TargetNodeIDs (event_request p) = ev_TargetNodeIDs p"
  "rq_ExpectedRevision (event_request p) = ev_PreviousRevision p"
  "rq_ExpectedHeadEvent (event_request p) = ev_PreviousEventID p"
  by (simp_all add: event_request_def)

lemma AdmissionEventPayloadV2_Validate_Inr [returns]:
  "AdmissionEventPayloadV2_Validate p = Inr u \<longleftrightarrow> event_ok p"
proof
  assume "AdmissionEventPayloadV2_Validate p = Inr u"
  then have n: "NormalizeTargets (ev_TargetNodeIDs p) = Inr (ev_TargetNodeIDs p)"
      "normalizeBootstrappedTargets (elems (ev_BootstrappedTargetNodeIDs p)) = Inr (elems (ev_BootstrappedTargetNodeIDs p))"
    and ok: "set (elems (ev_BootstrappedTargetNodeIDs p)) \<subseteq> set (ev_TargetNodeIDs p)"
      "ev_ContractVersion p = AdmissionEventContractVersionV2" "ev_Kind p = AtomicReplacementEventKind"
      "record_id ''occ:'' (ev_ProposalOccurrence p)" "record_id ''canon-node:'' (ev_ReplacementNodeID p)"
      "basis_ok (ev_LineageBasis p)" "ev_LineageKey p = lineage_key (ev_LineageBasis p)"
      "ev_ReplacementNodeID p \<notin> set (ev_TargetNodeIDs p)"
      "head_ok (ev_PreviousRevision p) (ev_PreviousEventID p)"
      "ev_PreviousRevision p \<noteq> MaxInt64" "ev_Revision p = wrap64 (ev_PreviousRevision p + 1)"
      "record_id ''adm:'' (ev_AdmissionDecisionID p)" "validHash (ev_DecisionPayloadHash p)"
    and rh: "\<exists>request. NewRequestPayloadV2 (ev_ProposalOccurrence p) (ev_ReplacementNodeID p) (ev_LineageBasis p)
        (ev_TargetNodeIDs p) (ev_PreviousRevision p) (ev_PreviousEventID p) = Inr request \<and>
        RequestPayloadV2_Hash request = Inr (ev_RequestPayloadHash p)"
    unfolding AdmissionEventPayloadV2_Validate_def
    by (auto simp: and_then_Inr if_Inl_eq_Inr wrap_Inr each_Inr validateRecordID_Inr Basis_Key_Inr
        Basis_Validate_Inr validateExpectedHead_Inr)
  have req: "request_ok (event_request p)"
    using n ok by (simp add: request_ok_def NormalizeTargets_fixed)
  with rh have "ev_RequestPayloadHash p = hashJSON (request_json (event_request p))"
    using NewRequest_fixed [of "event_request p"] by (simp add: RequestPayloadV2_Hash_Inr)
  with n ok req show "event_ok p"
    by (simp add: event_ok_def NormalizeTargets_fixed Let_def)
next
  assume ok: "event_ok p"
  then have "request_ok (event_request p)" by (simp add: event_ok_def)
  moreover from this have "NewRequestPayloadV2 (ev_ProposalOccurrence p) (ev_ReplacementNodeID p) (ev_LineageBasis p)
      (ev_TargetNodeIDs p) (ev_PreviousRevision p) (ev_PreviousEventID p) = Inr (event_request p)"
    using NewRequest_fixed [of "event_request p"] by simp
  moreover have n: "NormalizeTargets (ev_TargetNodeIDs p) = Inr (ev_TargetNodeIDs p)"
    "normalizeBootstrappedTargets (elems (ev_BootstrappedTargetNodeIDs p)) = Inr (elems (ev_BootstrappedTargetNodeIDs p))"
    using ok calculation by (auto simp: NormalizeTargets_fixed event_ok_def request_ok_def Let_def)
  ultimately show "AdmissionEventPayloadV2_Validate p = Inr u"
    using ok unfolding AdmissionEventPayloadV2_Validate_def n
    by (auto simp: and_then_Inr if_Inl_eq_Inr wrap_Inr each_Inr validateRecordID_Inr Basis_Key_Inr
        Basis_Validate_Inr validateExpectedHead_Inr RequestPayloadV2_Hash_Inr event_ok_def request_ok_def Let_def)
qed

lemma AdmissionEventPayloadV2_ID_Inr [returns]:
  "AdmissionEventPayloadV2_ID p = Inr i \<longleftrightarrow>
    event_ok p \<and> i = admissionEventIDPrefix @ hashJSON (event_json p)"
  by (auto simp: AdmissionEventPayloadV2_ID_def returns)

lemma NewAtomicReplacementEventV2_Inr:
  "NewAtomicReplacementEventV2 r d adm boot = Inr e \<longleftrightarrow>
    request_ok r \<and> decision_ok d \<and> record_id ''adm:'' (trim_space adm) \<and>
    dc_ProposalOccurrence d = rq_ProposalOccurrence r \<and> dc_CanonicalRef d = rq_ReplacementNodeID r \<and>
    target_set boot \<and> trim_space ` set boot \<subseteq> set (rq_TargetNodeIDs r) \<and>
    rq_ExpectedRevision r \<noteq> MaxInt64 \<and>
    e = \<lparr>ev_ContractVersion = AdmissionEventContractVersionV2,
         ev_Kind = AtomicReplacementEventKind,
         ev_ProposalOccurrence = rq_ProposalOccurrence r,
         ev_ReplacementNodeID = rq_ReplacementNodeID r,
         ev_TargetNodeIDs = rq_TargetNodeIDs r,
         ev_BootstrappedTargetNodeIDs = Some (sort (map trim_space boot)),
         ev_LineageBasis = rq_LineageBasis r,
         ev_LineageKey = rq_LineageKey r,
         ev_PreviousRevision = rq_ExpectedRevision r,
         ev_PreviousEventID = rq_ExpectedHeadEvent r,
         ev_Revision = wrap64 (rq_ExpectedRevision r + 1),
         ev_AdmissionDecisionID = trim_space adm,
         ev_RequestPayloadHash = hashJSON (request_json r),
         ev_DecisionPayloadHash = hashJSON (decision_json d)\<rparr>"
  unfolding NewAtomicReplacementEventV2_def by (auto simp: Let_def returns)

lemma event_request_rebuild:
  assumes "NewAtomicReplacementEventV2 r d adm boot = Inr e"
  shows "event_request e = r"
  using assms by (auto simp: NewAtomicReplacementEventV2_Inr event_request_def request_ok_def
      intro: RequestPayloadV2.equality)

lemma NewAtomicReplacementEventV2_ok:
  assumes "NewAtomicReplacementEventV2 r d adm boot = Inr e"
  shows "event_ok e"
  unfolding event_ok_def event_request_rebuild [OF assms] using assms
  by (auto simp: NewAtomicReplacementEventV2_Inr Let_def canonical_targets_sort)

section \<open>Content-derived identifiers\<close>

text \<open>
  The contract of every identifier of the package: an object that passes its validation is
  identified by a prefix and the SHA-256 of its JSON text.  What a client may rely on: the
  identifier exists exactly for valid objects, has a fixed shape, and determines the object unless
  the JSON texts of two different objects collide under SHA-256.
\<close>

locale content_id =
  fixes validate :: "'a \<Rightarrow> unit result" and encode :: "'a \<Rightarrow> json" and pre :: string
    and ident :: "'a \<Rightarrow> string result"
  assumes ident_def: "ident p = and_then (validate p) (\<lambda>_. Inr (pre @ hashJSON (encode p)))"
    and encodable: "validate p = Inr () \<Longrightarrow> json_ok (encode p)"
    and encode_inj: "validate p = Inr () \<Longrightarrow> validate q = Inr () \<Longrightarrow> encode p = encode q \<Longrightarrow> p = q"
begin

lemma identified: "ident p = Inr i \<longleftrightarrow> validate p = Inr () \<and> i = pre @ hashJSON (encode p)"
  by (auto simp: ident_def returns)

lemma shape: "ident p = Inr i \<Longrightarrow> has_prefix i pre \<and> validHash (trim_prefix i pre)"
  by (auto simp: identified)

lemma preimage_inj:
  assumes "validate p = Inr ()" and "validate q = Inr ()" and "marshal (encode p) = marshal (encode q)"
  shows "p = q"
  using marshal_inj assms encodable encode_inj by blast

lemma binds:
  assumes "ident p = Inr i" and "ident q = Inr i" and "p \<noteq> q"
  shows "marshal (encode p) \<noteq> marshal (encode q) \<and>
    sha256_hex (marshal (encode p)) = sha256_hex (marshal (encode q))"
  using assms preimage_inj by (auto simp: identified hashJSON_def)

end

lemma utf8_valid_hashJSON [simp]: "utf8_valid (hashJSON v)"
  by (rule utf8_valid_solid) (rule hashJSON_solid)

lemma utf8_valid_validHash: "validHash h \<Longrightarrow> utf8_valid h"
  using validHash_solid utf8_valid_solid by blast

lemma utf8_valid_literal [simp]: "utf8_valid lineageIDPrefix" "utf8_valid admissionEventIDPrefix"
  by (rule utf8_valid_ascii, simp)+

lemma utf8_valid_lineage_key [simp]: "utf8_valid (lineage_key b)"
  unfolding lineage_key_def by (rule utf8_valid_append) simp_all

text \<open>Field names and version strings are ASCII.\<close>

lemma ascii_Cons: "byte c < 128 \<Longrightarrow> utf8_valid s \<Longrightarrow> utf8_valid (c # s)"
  using utf8_valid_append [of "[c]" s] utf8_valid_ascii [of "[c]"] by simp

lemmas json_ok_intro = ascii_Cons utf8_valid_validHash head_ok_utf8

lemma basis_json_ok: "basis_ok b \<Longrightarrow> json_ok (basis_json b)"
  by (simp add: basis_json_def basis_ok_def canonical_string_def ascii_Cons)

lemma basis_json_inj [simp]: "basis_json b = basis_json c \<longleftrightarrow> b = c"
  by (auto simp: basis_json_def intro: Basis.equality)

lemma JStrs_inj [simp]: "JStrs xs = JStrs ys \<longleftrightarrow> xs = ys"
  by (auto simp: JStrs_def inj_map_eq_map inj_def)

lemma JStrs_ok: "canonical_targets ts \<Longrightarrow> json_ok (JStrs ts)"
  by (auto simp: JStrs_def list_all_iff canonical_targets_def record_id_def)

lemma slice_json_inj: "JSlice (map_option (map JStr) s) = JSlice (map_option (map JStr) t) \<longleftrightarrow> s = t"
  by (cases s; cases t) (auto simp: inj_map_eq_map inj_def)

lemma slice_json_ok:
  "canonical_targets (elems s) \<Longrightarrow> json_ok (JSlice (map_option (map JStr) s))"
  using JStrs_ok by (cases s) (auto simp: JStrs_def)

lemma request_json_ok: "request_ok p \<Longrightarrow> json_ok (request_json p)"
  by (auto simp: request_json_def request_ok_def basis_json_ok JStrs_ok record_id_def omitempty_def
      ascii_Cons dest: head_ok_utf8)

lemma decision_json_ok: "decision_ok p \<Longrightarrow> json_ok (decision_json p)"
  by (simp add: decision_json_def decision_ok_def record_id_def canonical_string_def ascii_Cons)

lemma event_json_ok: "event_ok p \<Longrightarrow> json_ok (event_json p)"
  by (auto simp: event_json_def event_ok_def request_ok_def basis_json_ok JStrs_ok slice_json_ok record_id_def
      omitempty_def ascii_Cons utf8_valid_validHash Let_def dest: head_ok_utf8)

lemma request_json_inj: "request_json p = request_json q \<Longrightarrow> p = q"
  by (auto simp: request_json_def omitempty_def split: if_splits intro: RequestPayloadV2.equality)

lemma decision_json_inj: "decision_json p = decision_json q \<Longrightarrow> p = q"
  by (auto simp: decision_json_def intro: DecisionPayloadV2.equality)

lemma event_json_inj: "event_json p = event_json q \<Longrightarrow> p = q"
  by (auto simp: event_json_def omitempty_def slice_json_inj split: if_splits
      intro: AdmissionEventPayloadV2.equality)

interpretation lineage: content_id Basis_Validate basis_preimage lineageIDPrefix Basis_Key
  by unfold_locales
    (auto simp: Basis_Key_def basis_preimage_def Basis_Validate_Inr basis_json_ok ascii_Cons)

interpretation request: content_id RequestPayloadV2_Validate request_json "[]" RequestPayloadV2_Hash
  by unfold_locales
    (auto simp: RequestPayloadV2_Hash_def RequestPayloadV2_Validate_Inr request_json_ok dest: request_json_inj)

interpretation decision: content_id DecisionPayloadV2_Validate decision_json "[]" DecisionPayloadV2_Hash
  by unfold_locales
    (auto simp: DecisionPayloadV2_Hash_def DecisionPayloadV2_Validate_Inr decision_json_ok dest: decision_json_inj)

interpretation event: content_id AdmissionEventPayloadV2_Validate event_json admissionEventIDPrefix
    AdmissionEventPayloadV2_ID
  by unfold_locales
    (auto simp: AdmissionEventPayloadV2_ID_def AdmissionEventPayloadV2_Validate_Inr event_json_ok dest: event_json_inj)

section \<open>Sample objects\<close>

definition sample_basis :: Basis where
  "sample_basis = \<lparr>SourceSystem = ''jira'', SourceNamespace = ''acme'', ObjectType = ''issue'',
    ObjectID = ''A-1'', SlotKind = ''field'', SlotID = ''status''\<rparr>"

definition sample_request :: RequestPayloadV2 where
  "sample_request = \<lparr>rq_ContractVersion = RequestContractVersionV2, rq_ProposalOccurrence = ''occ:1'',
    rq_ReplacementNodeID = ''canon-node:b'', rq_LineageBasis = sample_basis,
    rq_LineageKey = lineage_key sample_basis, rq_TargetNodeIDs = [''canon-node:a''],
    rq_ExpectedRevision = 0, rq_ExpectedHeadEvent = []\<rparr>"

definition sample_decision :: DecisionPayloadV2 where
  "sample_decision = \<lparr>dc_ContractVersion = DecisionContractVersionV2, dc_ProposalOccurrence = ''occ:1'',
    dc_Outcome = admissionOutcome, dc_CanonicalRef = ''canon-node:b'', dc_DecisionBy = ''ann'',
    dc_DecisionReason = ''newer''\<rparr>"

definition sample_event :: AdmissionEventPayloadV2 where
  "sample_event = \<lparr>ev_ContractVersion = AdmissionEventContractVersionV2, ev_Kind = AtomicReplacementEventKind,
    ev_ProposalOccurrence = ''occ:1'', ev_ReplacementNodeID = ''canon-node:b'',
    ev_TargetNodeIDs = [''canon-node:a''], ev_BootstrappedTargetNodeIDs = Some [''canon-node:a''],
    ev_LineageBasis = sample_basis, ev_LineageKey = lineage_key sample_basis,
    ev_PreviousRevision = 0, ev_PreviousEventID = [], ev_Revision = 1,
    ev_AdmissionDecisionID = ''adm:1'', ev_RequestPayloadHash = hashJSON (request_json sample_request),
    ev_DecisionPayloadHash = hashJSON (decision_json sample_decision)\<rparr>"

lemma trim_solid_literal:
  "s \<noteq> [] \<Longrightarrow> list_all (\<lambda>c. 32 < byte c \<and> byte c < 127) s \<Longrightarrow> trim_space s = s \<and> utf8_valid s"
  by (rule conjI; (rule trim_space_solid | rule utf8_valid_ascii))
    (force simp: solid_def list_all_iff dest: hd_in_set last_in_set)+

lemma sample_basis_ok: "basis_ok sample_basis"
  by (simp add: basis_ok_def canonical_string_def sample_basis_def trim_solid_literal isSourceSystemToken_def)

lemma sample_ids:
  "record_id ''occ:'' ''occ:1''" "record_id ''canon-node:'' ''canon-node:a''"
  "record_id ''canon-node:'' ''canon-node:b''" "record_id ''adm:'' ''adm:1''"
  by (simp_all add: record_id_def trim_solid_literal has_prefix_def)

lemma sample_request_ok: "request_ok sample_request"
  by (simp add: request_ok_def sample_request_def sample_basis_ok sample_ids canonical_targets_def
      head_ok_def MaxReplacementTargets_def)

lemma sample_decision_ok: "decision_ok sample_decision"
  by (simp add: decision_ok_def sample_decision_def sample_ids canonical_string_def trim_solid_literal)

lemma sample_event_new:
  "NewAtomicReplacementEventV2 sample_request sample_decision ''adm:1'' [''canon-node:a''] = Inr sample_event"
  unfolding NewAtomicReplacementEventV2_Inr
  by (simp add: sample_request_ok sample_decision_ok sample_ids trim_solid_literal target_set_def MaxReplacementTargets_def)
    (simp add: sample_event_def sample_request_def sample_decision_def MaxInt64_def wrap64_def)

lemmas sample_event_ok = NewAtomicReplacementEventV2_ok [OF sample_event_new]

section \<open>Properties\<close>

text \<open>\<open>NormalizeTargets\<close> returns the trimmed targets in byte order, and it does so exactly when there
  are between one and 64 of them, all distinct canonical node IDs once trimmed.\<close>

theorem NormalizeTargets_canonical:
  "NormalizeTargets vs = Inr ts \<longleftrightarrow>
    vs \<noteq> [] \<and> length vs \<le> MaxReplacementTargets \<and> distinct (map trim_space vs) \<and>
    list_all (\<lambda>v. record_id ''canon-node:'' (trim_space v)) vs \<and>
    sorted ts \<and> mset ts = mset (map trim_space vs)"
  by (auto simp: NormalizeTargets_Inr target_set_def list_all_iff intro: properties_for_sort [symmetric])

lemma NormalizeTargets_mset:
  assumes "mset (map trim_space vs) = mset (map trim_space ws)"
  shows "NormalizeTargets vs = NormalizeTargets ws"
proof -
  have "length vs = length ws" using assms by (metis length_map mset_eq_length)
  moreover from this have "vs = [] \<longleftrightarrow> ws = []" by auto
  moreover have "trim_space ` set vs = trim_space ` set ws" using assms by (metis set_map set_mset_mset)
  moreover have "sort (map trim_space vs) = sort (map trim_space ws)"
    by (metis assms sorted_list_of_multiset_mset)
  moreover have err: "each (\<lambda>v. wrap ErrInvalidTargets (validateRecordID ''target_node_id'' (trim_space v) ''canon-node:'')) us =
      (if \<forall>v\<in>trim_space ` set us. record_id ''canon-node:'' v then Inr ()
       else Inl (Error ErrInvalidTargets ''target_node_id must be a canonical ID''))" for us
    by (induction us) (auto simp: validateRecordID_def record_id_def)
  ultimately show ?thesis unfolding NormalizeTargets_def err by simp
qed

text \<open>A request does not depend on the order of its targets or on white space around its inputs:
  \<open>NewRequestPayloadV2\<close> gives the same payload, or the same error, for any permutation of the targets
  and for inputs that are already trimmed.\<close>

theorem NewRequest_order_free:
  assumes "mset (map trim_space ts) = mset (map trim_space us)"
  shows "NewRequestPayloadV2 occ node b ts r h =
    NewRequestPayloadV2 (trim_space occ) (trim_space node) (Basis_Normalize b) us r (trim_space h)"
  using NormalizeTargets_mset [OF assms] by (simp add: NewRequestPayloadV2_def)

theorem NewRequest_order_free_witness:
  "NewRequestPayloadV2 '' occ:1'' ''canon-node:c'' sample_basis ['' canon-node:b'', ''canon-node:a''] 0 [] =
   NewRequestPayloadV2 (trim_space '' occ:1'') (trim_space ''canon-node:c'') (Basis_Normalize sample_basis)
     [''canon-node:a'', ''canon-node:b''] 0 (trim_space [])"
proof (rule NewRequest_order_free)
  show "mset (map trim_space ['' canon-node:b'', ''canon-node:a'']) =
      mset (map trim_space [''canon-node:a'', ''canon-node:b''])"
    by (simp add: trim_solid_literal)
qed

text \<open>What \<open>NewRequestPayloadV2\<close> builds passes \<open>RequestPayloadV2.Validate\<close> and is the fixed point of
  rebuilding a request from its own fields; conversely only such a fixed point validates.\<close>

theorem request_validate_iff_rebuild:
  "(RequestPayloadV2_Validate p = Inr () \<longleftrightarrow>
    NewRequestPayloadV2 (rq_ProposalOccurrence p) (rq_ReplacementNodeID p) (rq_LineageBasis p)
      (rq_TargetNodeIDs p) (rq_ExpectedRevision p) (rq_ExpectedHeadEvent p) = Inr p) \<and>
   ((\<exists>occ node b ts r h. NewRequestPayloadV2 occ node b ts r h = Inr p) \<longleftrightarrow> RequestPayloadV2_Validate p = Inr ())"
  unfolding RequestPayloadV2_Validate_Inr NewRequest_fixed using NewRequest_ok NewRequest_fixed by blast

text \<open>C29. An event built by \<open>NewAtomicReplacementEventV2\<close> validates, commits to the request and the decision
  it was built from, and advances the chain by exactly one revision without overflowing int64.\<close>

theorem NewAtomicReplacementEvent_advances:
  assumes "NewAtomicReplacementEventV2 r d adm boot = Inr e" and "rq_ExpectedRevision r \<le> MaxInt64"
  shows "AdmissionEventPayloadV2_Validate e = Inr () \<and>
    ev_PreviousRevision e = rq_ExpectedRevision r \<and> ev_PreviousEventID e = rq_ExpectedHeadEvent r \<and>
    ev_Revision e = rq_ExpectedRevision r + 1 \<and> 0 < ev_Revision e \<and> ev_Revision e \<le> MaxInt64 \<and>
    RequestPayloadV2_Hash r = Inr (ev_RequestPayloadHash e) \<and>
    DecisionPayloadV2_Hash d = Inr (ev_DecisionPayloadHash e) \<and>
    set (elems (ev_BootstrappedTargetNodeIDs e)) \<subseteq> set (ev_TargetNodeIDs e) \<and>
    ev_ReplacementNodeID e \<notin> set (ev_TargetNodeIDs e)"
  using assms NewAtomicReplacementEventV2_ok [OF assms(1)]
  by (auto simp: NewAtomicReplacementEventV2_Inr RequestPayloadV2_Hash_Inr DecisionPayloadV2_Hash_Inr
      AdmissionEventPayloadV2_Validate_Inr request_ok_def head_ok_def wrap64_succ)

theorem NewAtomicReplacementEvent_advances_witness:
  "ev_Revision sample_event = 0 + 1 \<and> AdmissionEventPayloadV2_Validate sample_event = Inr ()"
  using NewAtomicReplacementEvent_advances [OF sample_event_new]
  by (simp add: sample_request_def MaxInt64_def)

text \<open>C30. An event ID commits to the event, to the request it carries and to the decision whose hash it
  carries: two events with one ID are equal and so are their decisions, unless two different JSON texts
  among those four collide under SHA-256.\<close>

theorem event_ID_commits:
  assumes "AdmissionEventPayloadV2_ID p = Inr i" and "AdmissionEventPayloadV2_ID q = Inr i"
    and "DecisionPayloadV2_Hash d = Inr (ev_DecisionPayloadHash p)"
    and "DecisionPayloadV2_Hash d' = Inr (ev_DecisionPayloadHash q)"
  shows "(p = q \<and> d = d') \<or>
    (\<exists>x\<in>{marshal (event_json p), marshal (decision_json d)}.
      \<exists>y\<in>{marshal (event_json q), marshal (decision_json d')}. x \<noteq> y \<and> sha256_hex x = sha256_hex y)"
proof (cases "p = q")
  case True
  then show ?thesis using decision.binds [OF assms(3)] assms(4) by auto
next
  case False
  then show ?thesis using event.binds [OF assms(1,2)] by auto
qed

theorem event_ID_commits_witness:
  "\<exists>i. AdmissionEventPayloadV2_ID sample_event = Inr i \<and>
    (sample_event = sample_event \<and> sample_decision = sample_decision \<or>
     (\<exists>x\<in>{marshal (event_json sample_event), marshal (decision_json sample_decision)}.
      \<exists>y\<in>{marshal (event_json sample_event), marshal (decision_json sample_decision)}.
        x \<noteq> y \<and> sha256_hex x = sha256_hex y))"
proof -
  let ?i = "admissionEventIDPrefix @ hashJSON (event_json sample_event)"
  have i: "AdmissionEventPayloadV2_ID sample_event = Inr ?i"
    by (simp add: AdmissionEventPayloadV2_ID_Inr sample_event_ok)
  have d: "DecisionPayloadV2_Hash sample_decision = Inr (ev_DecisionPayloadHash sample_event)"
    by (simp add: DecisionPayloadV2_Hash_Inr sample_decision_ok sample_event_def)
  from event_ID_commits [OF i i d d] i show ?thesis by blast
qed

text \<open>The validator compares \<open>BootstrappedTargetNodeIDs\<close> with \<open>slices.Equal\<close>, which identifies a nil
  slice and an empty one, but the identifier is taken from the JSON text, which writes \<open>null\<close> for one and
  \<open>[]\<close> for the other: the nil variant of an event without bootstrapped targets validates too and has a
  different preimage.\<close>

theorem event_nil_bootstrap_variant:
  assumes "ev_BootstrappedTargetNodeIDs e = Some []" and "AdmissionEventPayloadV2_Validate e = Inr ()"
  shows "AdmissionEventPayloadV2_Validate (e\<lparr>ev_BootstrappedTargetNodeIDs := None\<rparr>) = Inr () \<and>
    marshal (event_json (e\<lparr>ev_BootstrappedTargetNodeIDs := None\<rparr>)) \<noteq> marshal (event_json e)"
proof -
  let ?n = "e\<lparr>ev_BootstrappedTargetNodeIDs := None\<rparr>"
  have n: "AdmissionEventPayloadV2_Validate ?n = Inr ()"
    using assms by (simp add: AdmissionEventPayloadV2_Validate_Inr event_ok_def event_request_def Let_def)
  have "ev_BootstrappedTargetNodeIDs ?n \<noteq> ev_BootstrappedTargetNodeIDs e" using assms(1) by simp
  then have "?n \<noteq> e" by metis
  with n assms(2) show ?thesis using event.preimage_inj by blast
qed

theorem event_nil_bootstrap_variant_witness:
  "AdmissionEventPayloadV2_Validate (sample_event\<lparr>ev_BootstrappedTargetNodeIDs := None\<rparr>) = Inr ()"
proof -
  have "event_request (sample_event\<lparr>ev_BootstrappedTargetNodeIDs := Some []\<rparr>) = event_request sample_event"
    by (simp add: event_request_def)
  note same = this
  have "event_ok (sample_event\<lparr>ev_BootstrappedTargetNodeIDs := Some []\<rparr>)"
    using sample_event_ok unfolding event_ok_def same by (simp add: canonical_targets_def)
  then show ?thesis
    using event_nil_bootstrap_variant [of "sample_event\<lparr>ev_BootstrappedTargetNodeIDs := Some []\<rparr>"]
    by (simp add: AdmissionEventPayloadV2_Validate_Inr)
qed

end
