(* ===== verification/GoMap.thy ===== *)
theory GoMap
  imports Prelude "HOL-Library.AList"
begin

text \<open>
  A Go map that the code counts with \<open>len\<close> or ranges over is an association list with distinct
  keys, in insertion order: \<open>m[k]\<close> is \<open>map_of\<close>, \<open>m[k] = v\<close> is \<open>AList.update\<close>, \<open>len(m)\<close> is the length.
  Go ranges over a map in an unspecified order; where the order could matter it is a parameter.
\<close>

type_synonym ('k, 'v) gomap = "('k \<times> 'v) list"

text \<open>Reading a missing key of a \<open>map[K]int\<close> gives 0.\<close>

definition get :: "('k, int) gomap \<Rightarrow> 'k \<Rightarrow> int" where
  "get m k = (case map_of m k of None \<Rightarrow> 0 | Some d \<Rightarrow> d)"

lemma get_update [simp]: "get (AList.update k d m) j = (if j = k then d else get m j)"
  by (simp add: get_def update_conv')

definition keys :: "('k, 'v) gomap \<Rightarrow> 'k set" where
  "keys m = dom (map_of m)"

lemma keys_simps [simp]: "keys (AList.update k d m) = insert k (keys m)" "keys [] = {}"
  by (auto simp: keys_def update_conv')

lemma map_of_None_keys: "map_of m k = None \<longleftrightarrow> k \<notin> keys m"
  by (auto simp: keys_def)

lemma update_fresh: "k \<notin> fst ` set m \<Longrightarrow> AList.update k v m = m @ [(k, v)]"
  by (induction m) auto

lemma map_of_update: "map_of (AList.update k v m) j = (if j = k then Some v else map_of m j)"
  by (simp add: update_conv')

lemma keys_Some: "k \<in> keys m \<longleftrightarrow> (\<exists>v. map_of m k = Some v)"
  by (auto simp: keys_def)

lemma keys_list: "set (map fst m) = keys m"
  by (simp add: keys_def dom_map_of_conv_image_fst)

text \<open>A map, as opposed to a list of pairs, has one entry per key.\<close>

abbreviation gomap :: "('k, 'v) gomap \<Rightarrow> bool" where
  "gomap m \<equiv> distinct (map fst m)"

lemma gomap_update [simp]: "gomap m \<Longrightarrow> gomap (AList.update k v m)"
  by (rule AList.distinct_update)

lemma gomap_filter [simp]: "gomap m \<Longrightarrow> gomap (filter P m)"
  by (rule distinct_map_filter)

lemma map_of_filter_gomap:
  "gomap m \<Longrightarrow> map_of (filter (\<lambda>(k, v). P v) m) k = (case map_of m k of None \<Rightarrow> None | Some v \<Rightarrow> if P v then Some v else None)"
  by (induction m) (auto split: option.splits simp: map_of_eq_None_iff rev_image_eqI)

lemma map_of_gomap: "gomap m \<Longrightarrow> map_of m k = Some v \<longleftrightarrow> (k, v) \<in> set m"
  by (rule map_of_eq_Some_iff)

text \<open>
  A materialised table is compared with its recomputation by count and by row.  When every row is
  the recomputed row of its key and no key repeats, equal counts make the two tables equal.
\<close>

lemma rows_complete:
  assumes "gomap m" and "\<forall>(k, v)\<in>set m. key v = k"
    and "distinct (map key xs)" and "length xs = length m" and "\<forall>x\<in>set xs. map_of m (key x) = Some x"
  shows "set xs = snd ` set m"
proof (rule card_subset_eq)
  show "set xs \<subseteq> snd ` set m"
  proof
    fix x assume "x \<in> set xs"
    then have "(key x, x) \<in> set m" using assms(5) map_of_SomeD by fastforce
    then show "x \<in> snd ` set m" by (metis image_eqI snd_conv)
  qed
  have "distinct (map snd m)"
    using assms(1,2) by (auto simp: distinct_map inj_on_def) (metis case_prodD)
  then have "card (snd ` set m) = length m" by (metis distinct_card length_map set_map)
  moreover have "card (set xs) = length xs" using assms(3) by (simp add: distinct_card distinct_map)
  ultimately show "card (set xs) = card (snd ` set m)" using assms(4) by simp
qed simp

end
