(* ===== verification/Kahn.thy ===== *)
theory Kahn
  imports GoMap
begin

text \<open>
  The cycle check that the closure and joint closure projections share: Kahn's algorithm over a map
  of indegrees and a queue that grows while it is scanned (\<open>closureEdgesContainCycle\<close> in
  \<open>internal/evidencesupersession/closure_validation.go\<close>).  A Go map is iterated in an unspecified
  order: the order of the first queue is the argument \<open>ord\<close>, and the result does not depend on it.
\<close>

section \<open>The algorithm\<close>

text \<open>The loop over the edges; \<open>None\<close> is the early \<open>return true\<close> for an endpoint that is no member.\<close>

fun count_edges ::
  "('a \<times> int) list \<Rightarrow> ('a \<Rightarrow> 'a list) \<Rightarrow> ('a \<times> 'a) list \<Rightarrow> (('a \<times> int) list \<times> ('a \<Rightarrow> 'a list)) option"
where
  "count_edges indegree adjacency [] = Some (indegree, adjacency)"
| "count_edges indegree adjacency ((x, y) # es) =
    (if map_of indegree x = None then None
     else if map_of indegree y = None then None
     else count_edges (AList.update y (get indegree y + 1) indegree) (adjacency(x := adjacency x @ [y])) es)"

fun relax :: "('a \<times> int) list \<times> 'a list \<Rightarrow> 'a \<Rightarrow> ('a \<times> int) list \<times> 'a list" where
  "relax (indegree, queue) t =
    (let indegree = AList.update t (get indegree t - 1) indegree
     in (indegree, if get indegree t = 0 then queue @ [t] else queue))"

text \<open>The queue holds the nodes from \<open>index\<close> on.\<close>

function (sequential) drain :: "('a \<Rightarrow> 'a list) \<Rightarrow> ('a \<times> int) list \<Rightarrow> 'a list \<Rightarrow> nat \<Rightarrow> nat" where
  "drain adjacency indegree [] visited = visited"
| "drain adjacency indegree (n # queue) visited =
    (let (indegree', queue') = foldl relax (indegree, queue) (adjacency n)
     in drain adjacency indegree' queue' (visited + 1))"
  by pat_completeness auto

text \<open>A push needs an indegree that drops from one to zero, so the nodes of positive indegree pay for it.\<close>

abbreviation positives :: "('a \<times> int) list \<Rightarrow> nat" where
  "positives m \<equiv> length (filter (\<lambda>(k, d). 0 < d) m)"

lemma positives_update:
  "positives (AList.update t (get m t - 1) m) + (if get m t = 1 then 1 else 0) \<le> positives m"
  by (induction m) (auto simp: get_def split: option.splits)

lemma relax_pays:
  "foldl relax (m, q) ts = (m', q') \<Longrightarrow> positives m' + length q' \<le> positives m + length q"
proof (induction ts arbitrary: m q)
  case (Cons t ts)
  let ?m = "AList.update t (get m t - 1) m" and ?q = "if get m t = 1 then q @ [t] else q"
  have "foldl relax (?m, ?q) ts = (m', q')" using Cons.prems by (simp add: Let_def)
  from Cons.IH [OF this] positives_update [of t m] show ?case by (simp split: if_splits)
qed simp

termination drain
proof (relation "measure (\<lambda>(adj, m, q, v). positives m + length q)")
  fix adj :: "'a \<Rightarrow> 'a list" and m n queue v x m' q'
  assume "x = foldl relax (m, queue) (adj n)" "(m', q') = x"
  then have "positives m' + length q' \<le> positives m + length queue" by (metis relax_pays)
  then show "((adj, m', q', v + 1), adj, m, n # queue, v) \<in> measure (\<lambda>(adj, m, q, v). positives m + length q)"
    by simp
qed simp

definition contains_cycle :: "('a list \<Rightarrow> 'a list) \<Rightarrow> 'a list \<Rightarrow> ('a \<times> 'a) list \<Rightarrow> bool" where
  "contains_cycle ord members edges =
    (let indegree = foldl (\<lambda>m n. AList.update n 0 m) [] members
     in case count_edges indegree (\<lambda>_. []) edges of
          None \<Rightarrow> True
        | Some (indegree, adjacency) \<Rightarrow>
            let queue = filter (\<lambda>n. get indegree n = 0) (ord (map fst indegree))
            in drain adjacency indegree queue 0 \<noteq> length members)"

section \<open>What each loop computes\<close>

lemma initial_indegree:
  defines "m \<equiv> \<lambda>ns. foldl (\<lambda>m n. AList.update n (0::int) m) [] ns"
  shows "keys (m ns) = set ns \<and> distinct (map fst (m ns)) \<and> (\<forall>v. get (m ns) v = 0)"
  unfolding m_def
  by (induction ns rule: rev_induct) (auto simp: AList.distinct_update get_def [of "[]"])

abbreviation into :: "'a \<Rightarrow> ('a \<times> 'a) list \<Rightarrow> nat" where
  "into v es \<equiv> length (filter (\<lambda>e. snd e = v) es)"

abbreviation successors :: "('a \<times> 'a) list \<Rightarrow> 'a \<Rightarrow> 'a list" where
  "successors es x \<equiv> map snd (filter (\<lambda>e. fst e = x) es)"

lemma count_edges_None:
  "count_edges m adj es = None \<longleftrightarrow> \<not> fst ` set es \<union> snd ` set es \<subseteq> keys m"
proof (induction es arbitrary: m adj)
  case (Cons e es)
  obtain x y where e: "e = (x, y)" by (cases e)
  show ?case by (cases "x \<in> keys m"; cases "y \<in> keys m") (simp_all add: e Cons.IH insert_absorb map_of_None_keys)
qed simp

lemma count_edges_Some:
  assumes "count_edges m adj es = Some (m', adj')"
  shows "keys m' = keys m \<and> (distinct (map fst m) \<longrightarrow> distinct (map fst m')) \<and>
    (\<forall>v. get m' v = get m v + int (into v es)) \<and> (\<forall>x. adj' x = adj x @ successors es x)"
  using assms
proof (induction es arbitrary: m adj)
  case (Cons e es)
  obtain x y where e: "e = (x, y)" by (cases e)
  let ?m = "AList.update y (get m y + 1) m" and ?adj = "adj(x := adj x @ [y])"
  have xy: "x \<in> keys m" "y \<in> keys m" and run: "count_edges ?m ?adj es = Some (m', adj')"
    using Cons.prems by (simp_all add: e map_of_None_keys split: if_splits)
  from Cons.IH [OF run] xy show ?case
    by (simp add: e insert_absorb AList.distinct_update)
qed simp

lemma relax_result:
  assumes "foldl relax (m, q) ts = (m', q')" and "\<forall>v. int (count_list ts v) \<le> get m v"
  shows "(\<forall>v. get m' v = get m v - int (count_list ts v)) \<and>
    (\<exists>p. q' = q @ p \<and> distinct p \<and> set p = {v\<in>set ts. get m v = int (count_list ts v)})"
  using assms
proof (induction ts arbitrary: m q)
  case (Cons t ts)
  let ?m = "AList.update t (get m t - 1) m" and ?q = "if get m t = 1 then q @ [t] else q"
  have run: "foldl relax (?m, ?q) ts = (m', q')" using Cons.prems(1) by (simp add: Let_def)
  have le: "int (count_list (t # ts) v) \<le> get m v" for v using Cons.prems(2) by blast
  have bound: "\<forall>v. int (count_list ts v) \<le> get ?m v"
  proof
    fix v show "int (count_list ts v) \<le> get ?m v" using le [of v] by (simp split: if_splits)
  qed
  from Cons.IH [OF run bound] obtain p
    where get: "\<forall>v. get m' v = get ?m v - int (count_list ts v)"
      and p: "q' = ?q @ p" "distinct p" "set p = {v\<in>set ts. get ?m v = int (count_list ts v)}" by blast
  have in_p: "v \<in> set p \<longleftrightarrow> v \<in> set ts \<and> get ?m v = int (count_list ts v)" for v
    unfolding p(3) by simp
  have "\<exists>p. q' = q @ p \<and> distinct p \<and> set p = {v\<in>set (t # ts). get m v = int (count_list (t # ts) v)}"
  proof (cases "get m t = 1")
    case True
    then have c: "count_list ts t = 0" using le [of t] by simp
    then have t: "t \<notin> set ts" by (simp add: count_list_0_iff)
    have "t \<notin> set p" using p(3) t by blast
    moreover have set: "v \<in> set (t # p) \<longleftrightarrow> v \<in> {v\<in>set (t # ts). get m v = int (count_list (t # ts) v)}" for v
      unfolding mem_Collect_eq using in_p [of v] True c t by (cases "v = t") simp_all
    ultimately show ?thesis using p(1,2) True set_eqI [OF set] by (intro exI [of _ "t # p"]) simp
  next
    case False
    have "t \<in> set ts" if "get m t = int (count_list (t # ts) t)"
    proof (rule ccontr)
      assume "t \<notin> set ts"
      with that False show False by (simp add: count_notin)
    qed
    then have set: "v \<in> set p \<longleftrightarrow> v \<in> {v\<in>set (t # ts). get m v = int (count_list (t # ts) v)}" for v
      unfolding mem_Collect_eq using in_p [of v] by (cases "v = t") auto
    show ?thesis using p(1,2) False set_eqI [OF set] by (intro exI [of _ p]) simp
  qed
  with get show ?case by auto
qed simp

section \<open>Correctness\<close>

text \<open>
  The loop invariant: the indegree of a node counts its edges from nodes not yet visited, and the
  queue holds exactly the unvisited nodes whose count is zero.
\<close>

definition pending :: "('a \<times> 'a) list \<Rightarrow> 'a list \<Rightarrow> 'a \<Rightarrow> nat" where
  "pending es done v = length (filter (\<lambda>e. snd e = v \<and> fst e \<notin> set done) es)"

definition kahn_inv :: "'a set \<Rightarrow> ('a \<times> 'a) list \<Rightarrow> 'a list \<Rightarrow> ('a \<times> int) list \<Rightarrow> 'a list \<Rightarrow> bool" where
  "kahn_inv V es done m q \<longleftrightarrow>
    (\<forall>v. get m v = int (pending es done v)) \<and>
    distinct (done @ q) \<and> set (done @ q) = {v\<in>V. pending es done v = 0} \<and>
    set (done @ q) \<subseteq> Wellfounded.acc (set es)"

lemma pending_step:
  assumes "n \<notin> set done"
  shows "pending es done v = pending es (done @ [n]) v + count_list (successors es n) v"
  using assms unfolding pending_def by (induction es) auto

lemma pending_0: "pending es done v = 0 \<longleftrightarrow> (\<forall>u. (u, v) \<in> set es \<longrightarrow> u \<in> set done)"
  by (auto simp: pending_def filter_empty_conv)

lemma kahn_step:
  assumes inv: "kahn_inv V es done m (n # q)" and edges: "snd ` set es \<subseteq> V"
    and run: "foldl relax (m, q) (successors es n) = (m', q')"
  shows "kahn_inv V es (done @ [n]) m' q'"
proof -
  define ts where "ts = successors es n"
  have ts: "set ts \<subseteq> V" using edges by (auto simp: ts_def)
  have n: "n \<notin> set done" and dist: "distinct (done @ n # q)" using inv by (auto simp: kahn_inv_def)
  have step: "pending es done v = pending es (done @ [n]) v + count_list ts v" for v
    unfolding ts_def by (rule pending_step [OF n])
  have get: "get m v = int (pending es done v)" for v using inv by (simp add: kahn_inv_def)
  then have "\<forall>v. int (count_list ts v) \<le> get m v" using step by simp
  from relax_result [OF run [folded ts_def] this] obtain p
    where get': "get m' v = get m v - int (count_list ts v)" and p: "q' = q @ p" "distinct p"
      and p_iff: "set p = {v\<in>set ts. get m v = int (count_list ts v)}" for v by blast
  have get'': "get m' v = int (pending es (done @ [n]) v)" for v using get' [of v] get [of v] step [of v] by simp
  have in_p: "v \<in> set p \<longleftrightarrow> v \<in> set ts \<and> pending es (done @ [n]) v = 0" for v
    using p_iff get [of v] step [of v] by auto
  have zero: "pending es done v = 0 \<longleftrightarrow> pending es (done @ [n]) v = 0 \<and> v \<notin> set ts" for v
    using step [of v] by (simp add: count_list_0_iff)
  have visited: "set (done @ n # q) = {v\<in>V. pending es done v = 0}" using inv by (simp add: kahn_inv_def)
  have all: "set ((done @ [n]) @ q') = {v\<in>V. pending es (done @ [n]) v = 0}"
  proof -
    have "set ((done @ [n]) @ q') = set (done @ n # q) \<union> set p" using p(1) by auto
    also have "\<dots> = {v\<in>V. pending es (done @ [n]) v = 0}"
      unfolding visited using in_p zero ts by blast
    finally show ?thesis .
  qed
  have "set p \<inter> set (done @ n # q) = {}" unfolding visited using in_p zero by blast
  then have "distinct ((done @ [n]) @ q')" using dist p by auto
  moreover have "set p \<subseteq> Wellfounded.acc (set es)"
  proof
    fix v assume "v \<in> set p"
    then have "\<forall>u. (u, v) \<in> set es \<longrightarrow> u \<in> set (done @ [n])" using in_p pending_0 by metis
    moreover have "set (done @ [n]) \<subseteq> Wellfounded.acc (set es)" using inv by (simp add: kahn_inv_def)
    ultimately show "v \<in> Wellfounded.acc (set es)" by (blast intro: accI)
  qed
  then have "set ((done @ [n]) @ q') \<subseteq> Wellfounded.acc (set es)"
    using inv p(1) by (simp add: kahn_inv_def)
  ultimately show ?thesis using get'' all unfolding kahn_inv_def by blast
qed

lemma drain_result:
  assumes "kahn_inv V es done m q" and "snd ` set es \<subseteq> V" and "adj = successors es"
  shows "\<exists>vs m'. drain adj m q (length done) = length vs \<and> kahn_inv V es vs m' []"
  using assms
proof (induction adj m q "length done" arbitrary: "done" rule: drain.induct)
  case (2 adj m n q)
  obtain m' q' where run: "foldl relax (m, q) (adj n) = (m', q')" by fastforce
  then have "kahn_inv V es (done @ [n]) m' q'" using 2(2-4) by (intro kahn_step) auto
  with 2(1) [OF run [symmetric] refl, of "done @ [n]"] 2(3,4) run show ?case by simp
qed auto

lemma kahn_final:
  assumes inv: "kahn_inv (set ns) es vs m []" and edges: "fst ` set es \<union> snd ` set es \<subseteq> set ns"
  shows "length vs = length ns \<longleftrightarrow> distinct ns \<and> acyclic (set es)"
proof -
  have vs: "distinct vs" "set vs \<subseteq> set ns" "set vs \<subseteq> Wellfounded.acc (set es)"
    and closed: "v \<in> set ns \<Longrightarrow> (\<forall>u. (u, v) \<in> set es \<longrightarrow> u \<in> set vs) \<Longrightarrow> v \<in> set vs" for v
    using inv pending_0 [of es vs] unfolding kahn_inv_def by auto
  have full: "length vs = length ns \<longleftrightarrow> distinct ns \<and> set vs = set ns"
    using vs(1,2) by (metis card_distinct card_mono card_seteq distinct_card finite_set le_antisym card_length)
  have "acyclic (set es)" if "set vs = set ns"
  proof -
    have "v \<in> Wellfounded.acc (set es)" for v
    proof (rule accI)
      fix u assume "(u, v) \<in> set es"
      then show "u \<in> Wellfounded.acc (set es)" using edges vs(3) that by force
    qed
    then show ?thesis by (intro wf_acyclic acc_wfI) auto
  qed
  moreover have "set ns \<subseteq> set vs" if "acyclic (set es)"
  proof -
    have "wf (set es)" using that by (simp add: finite_acyclic_wf)
    then have "v \<in> set ns \<longrightarrow> v \<in> set vs" for v
    proof (induction v rule: wf_induct_rule)
      case (less v)
      then show ?case using closed edges by force
    qed
    then show ?thesis by blast
  qed
  ultimately show ?thesis using full vs(2) by auto
qed

lemma contains_cycle_iff:
  assumes ord: "\<And>ks. mset (ord ks) = mset ks"
  shows "contains_cycle ord ns es \<longleftrightarrow>
    \<not> (distinct ns \<and> fst ` set es \<union> snd ` set es \<subseteq> set ns \<and> acyclic (set es))"
proof (cases "count_edges (foldl (\<lambda>m n. AList.update n 0 m) [] ns) (\<lambda>_. []) es")
  case None
  then show ?thesis
    using initial_indegree [of ns] unfolding contains_cycle_def count_edges_None
    by (auto simp: None Let_def)
next
  case (Some r)
  obtain m adj where r: "r = (m, adj)" by (cases r)
  let ?q = "filter (\<lambda>n. get m n = 0) (ord (map fst m))"
  have edges: "fst ` set es \<union> snd ` set es \<subseteq> set ns"
    using Some initial_indegree [of ns] count_edges_None by (metis option.distinct(1))
  have m: "keys m = set ns" "distinct (map fst m)" "\<And>v. get m v = int (into v es)" "adj = successors es"
    using count_edges_Some [OF Some [unfolded r]] initial_indegree [of ns] by auto
  have q: "distinct ?q" "set ?q = {v\<in>set ns. get m v = 0}"
    using ord m(1,2) keys_list by (metis distinct_filter mset_eq_imp_distinct_iff,
      metis set_filter set_mset_mset keys_list)
  have start: "get m v = int (pending es [] v)" for v using m(3) by (simp add: pending_def)
  have "v \<in> Wellfounded.acc (set es)" if "v \<in> set ?q" for v
  proof (rule accI)
    fix u assume "(u, v) \<in> set es"
    then show "u \<in> Wellfounded.acc (set es)" using that start [of v] pending_0 [of es "[]" v] by auto
  qed
  then have "kahn_inv (set ns) es [] m ?q"
    unfolding kahn_inv_def q using q start by auto
  from drain_result [OF this _ m(4)] edges obtain vs m'
    where "drain adj m ?q 0 = length vs" "kahn_inv (set ns) es vs m' []" by auto
  moreover have "contains_cycle ord ns es \<longleftrightarrow> drain adj m ?q 0 \<noteq> length ns"
    unfolding contains_cycle_def Let_def Some r option.case prod.case ..
  ultimately show ?thesis using kahn_final [OF _ edges] edges by metis
qed

end
