(* ===== verification/Lineage.thy ===== *)
theory Lineage
  imports Prelude
begin

text \<open>
  The abstract specification of governed supersession: which canonical nodes are enrolled in which
  lineage, and which node supersedes which.  A replacement enrols one fresh node that supersedes
  nodes of its lineage (some of them enrolled by the same step); a registration enrols the first
  node of a fresh lineage.  The replays of the admission chain, with and without registrations,
  implement this machine (\<open>Closure\<close>, \<open>JointClosure\<close>), which is how they inherit its invariants.
\<close>

record lineage_state =
  enrolled :: "string \<Rightarrow> string option"
  supersedes :: "(string \<times> string) set"

definition lineage_empty :: lineage_state where
  "lineage_empty = \<lparr>enrolled = Map.empty, supersedes = {}\<rparr>"

inductive lineage_step :: "lineage_state \<Rightarrow> lineage_state \<Rightarrow> bool" where
  replace:
    "\<lbrakk>enrolled s r = None; r \<notin> T; T \<noteq> {}; finite T; B \<subseteq> T;
      \<forall>t\<in>B. enrolled s t = None; \<forall>t\<in>T - B. enrolled s t = Some l\<rbrakk> \<Longrightarrow>
     lineage_step s \<lparr>enrolled = (\<lambda>n. if n \<in> insert r B then Some l else enrolled s n),
                     supersedes = supersedes s \<union> {r} \<times> T\<rparr>"
| register:
    "\<lbrakk>enrolled s c = None; l \<notin> ran (enrolled s)\<rbrakk> \<Longrightarrow>
     lineage_step s (s\<lparr>enrolled := (enrolled s)(c \<mapsto> l)\<rparr>)"

inductive_cases lineage_stepE: "lineage_step s s'"

inductive reachable :: "lineage_state \<Rightarrow> bool" where
  empty: "reachable lineage_empty"
| step: "reachable s \<Longrightarrow> lineage_step s s' \<Longrightarrow> reachable s'"

text \<open>The nodes of a lineage, and those among them that nothing supersedes.\<close>

definition members_of :: "lineage_state \<Rightarrow> string \<Rightarrow> string set" where
  "members_of s l = {n. enrolled s n = Some l}"

definition frontier_of :: "lineage_state \<Rightarrow> string \<Rightarrow> string set" where
  "frontier_of s l = {n \<in> members_of s l. \<forall>m. (m, n) \<notin> supersedes s}"

section \<open>Invariants\<close>

definition lineage_inv :: "lineage_state \<Rightarrow> bool" where
  "lineage_inv s \<longleftrightarrow> finite (dom (enrolled s)) \<and> acyclic (supersedes s) \<and>
    (\<forall>(f, t)\<in>supersedes s. enrolled s f \<noteq> None \<and> enrolled s f = enrolled s t)"

lemma acyclic_fresh:
  assumes "acyclic r" and "a \<notin> Field r" and "a \<notin> T"
  shows "acyclic (r \<union> {a} \<times> T)"
proof -
  have no_in: "(x, a) \<notin> r \<union> {a} \<times> T" for x using assms(2,3) by (auto simp: Field_def)
  have "(x, y) \<in> (r \<union> {a} \<times> T)\<^sup>+ \<Longrightarrow> y \<noteq> a \<and> (x \<noteq> a \<longrightarrow> (x, y) \<in> r\<^sup>+)" for x y
  proof (induction rule: trancl_induct)
    case (base y)
    then show ?case using no_in by auto
  next
    case (step y z)
    then show ?case using no_in by (auto intro: trancl_into_trancl)
  qed
  then show ?thesis using assms(1) unfolding acyclic_def by metis
qed

lemma lineage_step_inv:
  assumes "lineage_inv s" and "lineage_step s s'"
  shows "lineage_inv s'"
  using assms(2)
proof cases
  case (replace r T B l)
  have "r \<notin> Field (supersedes s)"
    using assms(1) replace(2) by (fastforce simp: lineage_inv_def Field_def)
  then have "acyclic (supersedes s \<union> {r} \<times> T)"
    using assms(1) replace(3) by (intro acyclic_fresh) (simp_all add: lineage_inv_def)
  then have acyclic: "acyclic (supersedes s')" using replace(1) by simp
  have "dom (enrolled s') = dom (enrolled s) \<union> insert r B" using replace(1) by (auto simp: dom_def)
  moreover have "finite B" using replace(5,6) by (rule rev_finite_subset)
  ultimately have "finite (dom (enrolled s'))" using assms(1) by (simp add: lineage_inv_def)
  moreover have "enrolled s' f \<noteq> None \<and> enrolled s' f = enrolled s' t" if ft: "(f, t) \<in> supersedes s'" for f t
  proof (cases "(f, t) \<in> supersedes s")
    case True
    then have "enrolled s f \<noteq> None" "enrolled s f = enrolled s t" using assms(1) by (auto simp: lineage_inv_def)
    moreover from this have "f \<notin> insert r B" "t \<notin> insert r B" using replace(2,7) by auto
    ultimately show ?thesis using replace(1) by simp
  next
    case False
    then have "f = r" "t \<in> T" using ft replace(1) by auto
    then show ?thesis using replace(1,8) by auto
  qed
  ultimately show ?thesis using acyclic unfolding lineage_inv_def by blast
next
  case (register c l)
  have "enrolled s' f \<noteq> None \<and> enrolled s' f = enrolled s' t" if "(f, t) \<in> supersedes s" for f t
  proof -
    have "enrolled s f \<noteq> None" "enrolled s f = enrolled s t" using assms(1) that by (auto simp: lineage_inv_def)
    moreover from this have "f \<noteq> c" "t \<noteq> c" using register(2) by auto
    ultimately show ?thesis using register(1) by simp
  qed
  then show ?thesis using assms(1) register(1) unfolding lineage_inv_def by auto
qed

lemma reachable_inv: "reachable s \<Longrightarrow> lineage_inv s"
proof (induction rule: reachable.induct)
  case empty
  show ?case by (simp add: lineage_empty_def lineage_inv_def acyclic_def)
qed (rule lineage_step_inv)

text \<open>Acyclicity gives every lineage that has a member a member that nothing supersedes.\<close>

lemma frontier_nonempty:
  assumes "reachable s" and "members_of s l \<noteq> {}"
  shows "frontier_of s l \<noteq> {}"
proof -
  have inv: "lineage_inv s" using assms(1) by (rule reachable_inv)
  have "finite (members_of s l)"
    using inv by (auto simp: lineage_inv_def members_of_def dom_def intro: rev_finite_subset)
  let ?r = "supersedes s \<inter> members_of s l \<times> members_of s l"
  have "acyclic ?r" using inv by (auto simp: lineage_inv_def intro: acyclic_subset)
  moreover have "finite ?r" using \<open>finite (members_of s l)\<close> by simp
  ultimately have "wf ?r" by (simp add: finite_acyclic_wf)
  then obtain n where n: "n \<in> members_of s l" "\<And>m. (m, n) \<in> ?r \<Longrightarrow> m \<notin> members_of s l"
    using assms(2) wfE_min by (metis ex_in_conv)
  have "(m, n) \<notin> supersedes s" for m
    using n inv by (fastforce simp: lineage_inv_def members_of_def)
  with n(1) show ?thesis by (auto simp: frontier_of_def)
qed

text \<open>Supersession is never undone: a superseded node stays superseded and enrolled.\<close>

lemma supersedes_mono: "lineage_step s s' \<Longrightarrow> supersedes s \<subseteq> supersedes s'"
  by (auto elim: lineage_stepE)

section \<open>Replays\<close>

text \<open>
  The interface between a replay of records and the machine: \<open>effect\<close> is what a record does to the
  abstract state, \<open>sim\<close> relates the replay's maps with it.  Every record that the replay accepts is
  one abstract step that keeps the relation.
\<close>

locale replay =
  fixes body :: "'s \<Rightarrow> 'e \<Rightarrow> 's result" and start :: 's and ok :: "'e \<Rightarrow> bool"
    and effect :: "lineage_state \<Rightarrow> 'e \<Rightarrow> lineage_state" and sim :: "'s \<Rightarrow> lineage_state \<Rightarrow> bool"
  assumes sim_start: "sim start lineage_empty"
    and sim_step: "ok e \<Longrightarrow> sim s a \<Longrightarrow> body s e = Inr s' \<Longrightarrow> lineage_step a (effect a e) \<and> sim s' (effect a e)"
begin

lemma simulated:
  assumes "fold_res body start es = Inr s" and "\<forall>e\<in>set es. ok e"
  shows "reachable (foldl effect lineage_empty es) \<and> sim s (foldl effect lineage_empty es)"
  using assms
proof (induction es arbitrary: s rule: rev_induct)
  case Nil
  then show ?case using sim_start reachable.empty by simp
next
  case (snoc e es)
  then obtain s' where "fold_res body start es = Inr s'" "body s' e = Inr s"
    by (auto simp: fold_res_append returns)
  with snoc show ?case using sim_step reachable.step by fastforce
qed

end

end
