(* ===== verification/Closure.thy ===== *)
theory Closure
  imports Supersession EvidenceGraph Kahn Lineage "HOL-Library.Product_Lexorder"
begin

text \<open>
  \<open>internal/evidencesupersession/closure.go\<close>, \<open>closure_hash.go\<close> and \<open>closure_validation.go\<close>: one lineage's
  cut of the admission chain.  The complete chain is validated and replayed, the materialised
  members and edges are compared with the replay, and the currentness of every member is derived.
\<close>

section \<open>Constants and records\<close>

abbreviation "ClosureCutContractVersionV1 \<equiv> ''supersession-closure-cut/v1''"
abbreviation "ClosureWitnessContractVersionV1 \<equiv> ''supersession-closure-witness/v1''"
abbreviation "CurrentnessAlgorithmVersionV1 \<equiv> ''supersession-currentness/v1''"
abbreviation "CurrentnessSemanticsV1 \<equiv> ''current_in_admitted_graph_snapshot/v1''"
abbreviation "ObjectCoveragePolicyV1 \<equiv> ''classified_admitted_source_object_claims/v1''"

definition MaxClosureEvents :: nat where "MaxClosureEvents = 10000"
definition MaxClosureMembers :: nat where "MaxClosureMembers = 10000"
definition MaxClosureEdges :: nat where "MaxClosureEdges = 100000"
definition MaxClosureObjectClaims :: nat where "MaxClosureObjectClaims = 50000"

type_synonym CurrentnessStatus = string

abbreviation "CurrentnessUnknown \<equiv> ''unknown''"
abbreviation "CurrentnessCurrent \<equiv> ''current''"
abbreviation "CurrentnessSuperseded \<equiv> ''superseded''"
abbreviation "CurrentnessAmbiguous \<equiv> ''ambiguous''"

record ClosureHead =
  hd_ChainKey :: string
  hd_Revision :: int
  hd_HeadEventID :: string

record ClosureEventRecord =
  er_ID :: string
  er_ContractVersion :: string
  er_Revision :: int
  er_PreviousRevision :: int
  er_PreviousEventID :: string
  er_Kind :: string
  er_LineageKey :: string
  er_ReplacementNodeID :: string
  er_ProposalOccurrence :: string
  er_AdmissionDecisionID :: string
  er_AdmissionOutcome :: string
  er_DecisionBy :: string
  er_DecisionReason :: string
  er_RequestPayloadHash :: string
  er_DecisionPayloadHash :: string
  er_EventPayloadHash :: string
  er_Payload :: AdmissionEventPayloadV2

record ClosureMemberRecord =
  mb_NodeID :: string
  mb_LineageKey :: string
  mb_FirstAdmissionEventID :: string
  mb_WasBootstrapped :: bool

record ClosureEdgeRecord =
  eg_ID :: string
  eg_LineageKey :: string
  eg_EventID :: string
  eg_FromNodeID :: string
  eg_ToNodeID :: string
  eg_Relation :: string
  eg_OriginProposalOccurrenceID :: string
  eg_TraceRef :: string
  eg_ReviewRef :: string
  eg_Method :: string
  eg_MethodVersion :: string

record ObjectClaimClassification =
  oc_NodeID :: string
  oc_LineageKey :: string

record ClosureCutInput =
  ci_LineageKey :: string
  ci_Basis :: Basis
  ci_Head :: ClosureHead
  ci_Events :: "ClosureEventRecord list"
  ci_Members :: "ClosureMemberRecord list"
  ci_Edges :: "ClosureEdgeRecord list"
  ci_ObjectClaims :: "ObjectClaimClassification list"

text \<open>\<open>ValidateCurrentnessProjection\<close> compares projections with \<open>reflect.DeepEqual\<close>, which tells nil from empty.\<close>

record NodeCurrentness =
  nc_NodeID :: string
  nc_Status :: CurrentnessStatus
  nc_IncomingEdgeIDs :: "string slice"

record ClosureWitness =
  cw_ContractVersion :: string
  cw_ID :: string
  cw_AlgorithmVersion :: string
  cw_Semantics :: string
  cw_CoveragePolicy :: string
  cw_LineageKey :: string
  cw_Basis :: Basis
  cw_Head :: ClosureHead
  cw_HistoryHash :: string
  cw_CutHash :: string
  cw_ObjectClaimManifestHash :: string
  cw_NodeIDs :: "string slice"
  cw_EdgeIDs :: "string slice"
  cw_FrontierNodeIDs :: "string slice"

record CurrentnessProjection =
  cp_ContractVersion :: string
  cp_AlgorithmVersion :: string
  cp_Semantics :: string
  cp_CoveragePolicy :: string
  cp_LineageKey :: string
  cp_Head :: ClosureHead
  cp_HistoryHash :: string
  cp_CutHash :: string
  cp_ObjectClaimManifestHash :: string
  cp_ClosureAvailable :: bool
  cp_FrontierNodeIDs :: "string slice"
  cp_Nodes :: "NodeCurrentness slice"
  cp_Witness :: "ClosureWitness option"

record canonicalClosureCut =
  cc_lineageKey :: string
  cc_basis :: Basis
  cc_head :: ClosureHead
  cc_events :: "ClosureEventRecord list"
  cc_members :: "ClosureMemberRecord list"
  cc_edges :: "ClosureEdgeRecord list"
  cc_objectClaims :: "ObjectClaimClassification list"
  cc_historyHash :: string
  cc_cutHash :: string
  cc_objectClaimManifestHash :: string
  cc_coverageComplete :: bool

abbreviation badCut :: "string \<Rightarrow> error" where
  "badCut m \<equiv> Error ErrInvalidClosureCut m"

section \<open>Hashes\<close>

definition head_json :: "ClosureHead \<Rightarrow> json" where
  "head_json h = JObj
    [(''chain_key'', JStr (hd_ChainKey h)), (''revision'', JInt (hd_Revision h)),
     (''head_event_id'', JStr (hd_HeadEventID h))]"

definition event_record_json :: "ClosureEventRecord \<Rightarrow> json" where
  "event_record_json e = JObj
    ([(''event_id'', JStr (er_ID e)),
      (''contract_version'', JStr (er_ContractVersion e)),
      (''revision'', JInt (er_Revision e)),
      (''previous_revision'', JInt (er_PreviousRevision e))] @
     omitempty ''previous_event_id'' (er_PreviousEventID e) @
     [(''event_kind'', JStr (er_Kind e)),
      (''lineage_key'', JStr (er_LineageKey e)),
      (''replacement_node_id'', JStr (er_ReplacementNodeID e)),
      (''proposal_occurrence_id'', JStr (er_ProposalOccurrence e)),
      (''admission_decision_id'', JStr (er_AdmissionDecisionID e)),
      (''admission_outcome'', JStr (er_AdmissionOutcome e)),
      (''decision_by'', JStr (er_DecisionBy e)),
      (''decision_reason'', JStr (er_DecisionReason e)),
      (''request_payload_hash'', JStr (er_RequestPayloadHash e)),
      (''decision_payload_hash'', JStr (er_DecisionPayloadHash e)),
      (''event_payload_hash'', JStr (er_EventPayloadHash e)),
      (''event_payload'', event_json (er_Payload e))])"

definition member_json :: "ClosureMemberRecord \<Rightarrow> json" where
  "member_json m = JObj
    [(''node_id'', JStr (mb_NodeID m)), (''lineage_key'', JStr (mb_LineageKey m)),
     (''first_admission_event_id'', JStr (mb_FirstAdmissionEventID m)),
     (''was_bootstrapped'', JBool (mb_WasBootstrapped m))]"

definition edge_json :: "ClosureEdgeRecord \<Rightarrow> json" where
  "edge_json e = JObj
    [(''edge_id'', JStr (eg_ID e)), (''lineage_key'', JStr (eg_LineageKey e)),
     (''event_id'', JStr (eg_EventID e)), (''from_node_id'', JStr (eg_FromNodeID e)),
     (''to_node_id'', JStr (eg_ToNodeID e)), (''relation'', JStr (eg_Relation e)),
     (''origin_proposal_occurrence_id'', JStr (eg_OriginProposalOccurrenceID e)),
     (''trace_ref'', JStr (eg_TraceRef e)), (''review_ref'', JStr (eg_ReviewRef e)),
     (''method'', JStr (eg_Method e)), (''method_version'', JStr (eg_MethodVersion e))]"

definition claim_json :: "ObjectClaimClassification \<Rightarrow> json" where
  "claim_json c = JObj ([(''node_id'', JStr (oc_NodeID c))] @ omitempty ''lineage_key'' (oc_LineageKey c))"

definition closureHistoryHash :: "ClosureHead \<Rightarrow> ClosureEventRecord list \<Rightarrow> string" where
  "closureHistoryHash head events = ''supersession-history:v2:'' @ hashJSON (JObj
    [(''contract_version'', JStr AdmissionEventContractVersionV2),
     (''head'', head_json head),
     (''events'', JArr (map event_record_json events))])"

definition closureObjectManifestHash :: "Basis \<Rightarrow> ObjectClaimClassification slice \<Rightarrow> string" where
  "closureObjectManifestHash basis claims = ''object-claim-manifest:v1:'' @ hashJSON (JObj
    [(''contract_version'', JStr ClosureCutContractVersionV1),
     (''coverage_policy'', JStr ObjectCoveragePolicyV1),
     (''source_object'', JObj
       [(''source_system'', JStr (SourceSystem basis)),
        (''source_namespace'', JStr (SourceNamespace basis)),
        (''object_type'', JStr (ObjectType basis)),
        (''object_id'', JStr (ObjectID basis))]),
     (''claims'', JSlice (map_option (map claim_json) claims))])"

definition closureCutHash ::
  "string \<Rightarrow> Basis \<Rightarrow> ClosureHead \<Rightarrow> string \<Rightarrow> ClosureMemberRecord slice \<Rightarrow> ClosureEdgeRecord slice \<Rightarrow> string"
where
  "closureCutHash lineageKey basis head historyHash members edges = ''closure-cut:v1:'' @ hashJSON (JObj
    [(''contract_version'', JStr ClosureCutContractVersionV1),
     (''lineage_key'', JStr lineageKey),
     (''basis'', basis_json basis),
     (''head'', head_json head),
     (''history_hash'', JStr historyHash),
     (''members'', JSlice (map_option (map member_json) members)),
     (''edges'', JSlice (map_option (map edge_json) edges))])"

text \<open>The deep copy keeps nil slices nil, so as a value the copy is the original.\<close>

definition cloneClosureStrings :: "string slice \<Rightarrow> string slice" where
  "cloneClosureStrings values = (case values of None \<Rightarrow> None | Some vs \<Rightarrow> Some ([] @ vs))"

definition cloneClosureEvents :: "ClosureEventRecord list \<Rightarrow> ClosureEventRecord list" where
  "cloneClosureEvents events =
    map (\<lambda>e. e\<lparr>er_Payload := (er_Payload e)\<lparr>ev_BootstrappedTargetNodeIDs :=
      cloneClosureStrings (ev_BootstrappedTargetNodeIDs (er_Payload e))\<rparr>\<rparr>) events"

section \<open>Head and history\<close>

definition validateClosureHead :: "ClosureHead \<Rightarrow> nat \<Rightarrow> unit result" where
  "validateClosureHead head eventCount =
    (if hd_ChainKey head \<noteq> ChainKey \<or> hd_Revision head \<le> 0 \<or> hd_HeadEventID head = []
       then Inl (badCut ''invalid admission head'')
     else if hd_Revision head \<noteq> int eventCount then Inl (badCut ''head revision has visible events'')
     else Inr ())"

definition validateClosureEvent :: "ClosureEventRecord \<Rightarrow> unit result" where
  "validateClosureEvent event =
    (let payload = er_Payload event in
     and_then (wrap ErrInvalidClosureCut (AdmissionEventPayloadV2_Validate payload)) (\<lambda>_.
     and_then (wrap ErrInvalidClosureCut (AdmissionEventPayloadV2_ID payload)) (\<lambda>wantID.
     and_then (wrap ErrInvalidClosureCut
       (NewDecisionPayloadV2 (ev_ProposalOccurrence payload) (ev_ReplacementNodeID payload)
         (er_DecisionBy event) (er_DecisionReason event))) (\<lambda>decision.
     and_then (wrap ErrInvalidClosureCut (DecisionPayloadV2_Hash decision)) (\<lambda>decisionHash.
     each (\<lambda>(name, matches).
         if matches then Inr ()
         else if name = ''event_id'' then Inl (badCut ''event row ID recomputes to'')
         else Inl (badCut ''event row field does not match its identity''))
       [(''event_id'', er_ID event = wantID),
        (''contract_version'', er_ContractVersion event = ev_ContractVersion payload),
        (''revision'', er_Revision event = ev_Revision payload),
        (''previous_revision'', er_PreviousRevision event = ev_PreviousRevision payload),
        (''previous_event_id'', er_PreviousEventID event = ev_PreviousEventID payload),
        (''event_kind'', er_Kind event = ev_Kind payload),
        (''lineage_key'', er_LineageKey event = ev_LineageKey payload),
        (''replacement_node_id'', er_ReplacementNodeID event = ev_ReplacementNodeID payload),
        (''proposal_occurrence_id'', er_ProposalOccurrence event = ev_ProposalOccurrence payload),
        (''admission_decision_id'', er_AdmissionDecisionID event = ev_AdmissionDecisionID payload),
        (''admission_outcome'', er_AdmissionOutcome event = admissionOutcome),
        (''request_payload_hash'', er_RequestPayloadHash event = ev_RequestPayloadHash payload),
        (''decision_payload_hash'', er_DecisionPayloadHash event = ev_DecisionPayloadHash payload),
        (''decision_audit'', decisionHash = er_DecisionPayloadHash event),
        (''event_payload_hash'', er_EventPayloadHash event = trim_prefix (er_ID event) admissionEventIDPrefix)])))))"

text \<open>
  The loop over the events: \<open>index\<close>, the previous event if there is one, and the three maps of
  values already seen.
\<close>

fun closure_history_loop ::
  "nat \<Rightarrow> ClosureEventRecord option \<Rightarrow> string set \<Rightarrow> string set \<Rightarrow> string set \<Rightarrow> ClosureEventRecord list \<Rightarrow> unit result"
where
  "closure_history_loop index previous seenIDs seenProposals seenDecisions [] = Inr ()"
| "closure_history_loop index previous seenIDs seenProposals seenDecisions (event # events) =
    (if er_Revision event \<noteq> int (index + 1) then Inl (badCut ''event revision gap'')
     else if er_ID event \<in> seenIDs then Inl (badCut ''duplicate event'')
     else if er_ProposalOccurrence event \<in> seenProposals then Inl (badCut ''duplicate event proposal'')
     else if er_AdmissionDecisionID event \<in> seenDecisions then Inl (badCut ''duplicate event decision'')
     else and_then (validateClosureEvent event) (\<lambda>_.
       and_then
         (case previous of
            None \<Rightarrow> (if er_PreviousRevision event \<noteq> 0 \<or> er_PreviousEventID event \<noteq> []
                     then Inl (badCut ''first event has a previous head'') else Inr ())
          | Some prev \<Rightarrow> (if er_PreviousRevision event \<noteq> er_Revision prev \<or> er_PreviousEventID event \<noteq> er_ID prev
                         then Inl (badCut ''event does not follow'') else Inr ())) (\<lambda>_.
       closure_history_loop (index + 1) (Some event) (insert (er_ID event) seenIDs)
         (insert (er_ProposalOccurrence event) seenProposals)
         (insert (er_AdmissionDecisionID event) seenDecisions) events)))"

text \<open>Indexing the last event of an empty history would panic; the callers check that it is not empty.\<close>

definition validateClosureHistory :: "ClosureHead \<Rightarrow> ClosureEventRecord list \<Rightarrow> unit result" where
  "validateClosureHistory head events =
    and_then (closure_history_loop 0 None {} {} {} events) (\<lambda>_.
      if events = [] then Inl (Error Plain ''panic: index out of range'')
      else if er_ID (last events) \<noteq> hd_HeadEventID head
        then Inl (badCut ''head event does not match visible history'')
      else Inr ())"

section \<open>Replay and materialisation\<close>

definition enroll_target ::
  "ClosureEventRecord \<Rightarrow> (string, ClosureMemberRecord) gomap \<Rightarrow> string \<Rightarrow> (string, ClosureMemberRecord) gomap result"
where
  "enroll_target event globalMembers targetID =
    (let newlyBootstrapped = targetID \<in> set (elems (ev_BootstrappedTargetNodeIDs (er_Payload event)))
     in case map_of globalMembers targetID of
          None \<Rightarrow>
            if newlyBootstrapped
            then Inr (AList.update targetID
              \<lparr>mb_NodeID = targetID, mb_LineageKey = er_LineageKey event,
               mb_FirstAdmissionEventID = er_ID event, mb_WasBootstrapped = True\<rparr> globalMembers)
            else Inl (badCut ''target was not previously enrolled'')
        | Some member \<Rightarrow>
            if newlyBootstrapped then Inl (badCut ''target was bootstrapped more than once'')
            else if mb_LineageKey member \<noteq> er_LineageKey event then Inl (badCut ''target crosses lineages'')
            else Inr globalMembers)"

definition expected_edge :: "string \<Rightarrow> ClosureEventRecord \<Rightarrow> string \<Rightarrow> ClosureEdgeRecord" where
  "expected_edge lineageKey event targetID =
    \<lparr>eg_ID = StableCanonicalID ''canon-edge'' [er_ReplacementNodeID event, targetID, CanonicalSupersedes],
     eg_LineageKey = lineageKey,
     eg_EventID = er_ID event,
     eg_FromNodeID = er_ReplacementNodeID event,
     eg_ToNodeID = targetID,
     eg_Relation = CanonicalSupersedes,
     eg_OriginProposalOccurrenceID = er_ProposalOccurrence event,
     eg_TraceRef = er_ID event,
     eg_ReviewRef = er_AdmissionDecisionID event,
     eg_Method = ''supersession_admission_edge'',
     eg_MethodVersion = ''v1''\<rparr>"

type_synonym closure_replay = "(string, ClosureMemberRecord) gomap \<times> (string, ClosureEdgeRecord) gomap"

fun replay_event :: "string \<Rightarrow> closure_replay \<Rightarrow> ClosureEventRecord \<Rightarrow> closure_replay result" where
  "replay_event lineageKey (globalMembers, expectedEdges) event =
    (if map_of globalMembers (er_ReplacementNodeID event) \<noteq> None
       then Inl (badCut ''replacement node was not fresh'')
     else and_then (fold_res (enroll_target event) globalMembers (ev_TargetNodeIDs (er_Payload event))) (\<lambda>globalMembers.
       let globalMembers = AList.update (er_ReplacementNodeID event)
             \<lparr>mb_NodeID = er_ReplacementNodeID event, mb_LineageKey = er_LineageKey event,
              mb_FirstAdmissionEventID = er_ID event, mb_WasBootstrapped = False\<rparr> globalMembers
       in if er_LineageKey event \<noteq> lineageKey then Inr (globalMembers, expectedEdges)
          else Inr (globalMembers,
            foldl (\<lambda>edges targetID. let edge = expected_edge lineageKey event targetID
                                    in AList.update (eg_ID edge) edge edges)
              expectedEdges (ev_TargetNodeIDs (er_Payload event)))))"

text \<open>The loop that compares sorted rows with the replay.\<close>

fun match_rows :: "string \<Rightarrow> string \<Rightarrow> ('a \<Rightarrow> string) \<Rightarrow> (string, 'a) gomap \<Rightarrow> 'a option \<Rightarrow> 'a list \<Rightarrow> unit result" where
  "match_rows dup differs key expected previous [] = Inr ()"
| "match_rows dup differs key expected previous (row # rows) =
    (if map_option key previous = Some (key row) then Inl (badCut dup)
     else if map_of expected (key row) \<noteq> Some row then Inl (badCut differs)
     else match_rows dup differs key expected (Some row) rows)"

definition validateClosureMaterialization ::
  "string \<Rightarrow> ClosureEventRecord list \<Rightarrow> ClosureMemberRecord list \<Rightarrow> ClosureEdgeRecord list \<Rightarrow>
   (string, ClosureMemberRecord) gomap result"
where
  "validateClosureMaterialization lineageKey events members edges =
    and_then (fold_res (replay_event lineageKey) ([], []) events) (\<lambda>(globalMembers, expectedEdges).
      let expectedMembers = filter (\<lambda>(nodeID, member). mb_LineageKey member = lineageKey) globalMembers
      in if length expectedMembers = 0 then Inl (badCut ''selected lineage has no admission events'')
         else if length members \<noteq> length expectedMembers \<or> length edges \<noteq> length expectedEdges
           then Inl (badCut ''materialized member or edge count differs from event replay'')
         else and_then (match_rows ''duplicate member'' ''member differs from event replay''
                         mb_NodeID expectedMembers None members) (\<lambda>_.
              and_then (match_rows ''duplicate edge'' ''edge differs from event replay''
                         eg_ID expectedEdges None edges) (\<lambda>_.
              Inr globalMembers)))"

definition validLineageKey :: "string \<Rightarrow> bool" where
  "validLineageKey value \<longleftrightarrow> has_prefix value lineageIDPrefix \<and> validHash (trim_prefix value lineageIDPrefix)"

text \<open>The loop over the sorted claims: the classified members so far and whether all claims were classified.\<close>

fun claim_loop ::
  "string \<Rightarrow> string set \<Rightarrow> (string, ClosureMemberRecord) gomap \<Rightarrow> ObjectClaimClassification option \<Rightarrow>
   string set \<times> bool \<Rightarrow> ObjectClaimClassification list \<Rightarrow> (string set \<times> bool) result"
where
  "claim_loop lineageKey memberIDs globalMembers previous (classified, complete) [] = Inr (classified, complete)"
| "claim_loop lineageKey memberIDs globalMembers previous (classified, complete) (claim # claims) =
    and_then (wrap ErrInvalidClosureCut (validateRecordID ''object_claim_node_id'' (oc_NodeID claim) ''canon-node:'')) (\<lambda>_.
    if map_option oc_NodeID previous = Some (oc_NodeID claim) then Inl (badCut ''duplicate object claim'')
    else if oc_LineageKey claim = [] then
      (if map_of globalMembers (oc_NodeID claim) \<noteq> None
         then Inl (badCut ''enrolled object claim is marked unclassified'')
       else claim_loop lineageKey memberIDs globalMembers (Some claim) (classified, False) claims)
    else if \<not> validLineageKey (oc_LineageKey claim) then Inl (badCut ''invalid assigned lineage'')
    else case map_of globalMembers (oc_NodeID claim) of
           None \<Rightarrow> Inl (badCut ''object claim classification does not match admission history'')
         | Some globalMember \<Rightarrow>
             if mb_LineageKey globalMember \<noteq> oc_LineageKey claim
               then Inl (badCut ''object claim classification does not match admission history'')
             else if oc_LineageKey claim = lineageKey then
               (if oc_NodeID claim \<notin> memberIDs
                  then Inl (badCut ''classified claim is absent from lineage membership'')
                else claim_loop lineageKey memberIDs globalMembers (Some claim)
                       (insert (oc_NodeID claim) classified, complete) claims)
             else claim_loop lineageKey memberIDs globalMembers (Some claim) (classified, complete) claims)"

definition validateObjectClaimCoverage ::
  "string \<Rightarrow> ClosureMemberRecord list \<Rightarrow> (string, ClosureMemberRecord) gomap \<Rightarrow>
   ObjectClaimClassification list \<Rightarrow> bool result"
where
  "validateObjectClaimCoverage lineageKey members globalMembers claims =
    (let memberIDs = set (map mb_NodeID members) in
     and_then (claim_loop lineageKey memberIDs globalMembers None ({}, True) claims)
       (\<lambda>(classifiedMembers, complete).
         if \<not> memberIDs \<subseteq> classifiedMembers
           then Inl (badCut ''lineage member is absent from the object manifest'')
         else Inr complete))"

text \<open>
  Kahn's algorithm (\<open>Kahn.contains_cycle\<close>); its first queue is filled in the iteration order of a Go
  map, here the order of insertion.  \<open>contains_cycle_iff\<close> shows that no other order changes the result.
\<close>

definition closureEdgesContainCycle :: "ClosureMemberRecord list \<Rightarrow> ClosureEdgeRecord list \<Rightarrow> bool" where
  "closureEdgesContainCycle members edges =
    contains_cycle (\<lambda>ks. ks) (map mb_NodeID members) (map (\<lambda>e. (eg_FromNodeID e, eg_ToNodeID e)) edges)"

section \<open>The canonical cut\<close>

definition validateAndCanonicalizeClosureCut :: "ClosureCutInput \<Rightarrow> canonicalClosureCut result" where
  "validateAndCanonicalizeClosureCut input =
    (if length (ci_Events input) > MaxClosureEvents
       then Inl (Error ErrClosureLimitExceeded ''event count exceeds'')
     else if length (ci_Members input) > MaxClosureMembers
       then Inl (Error ErrClosureLimitExceeded ''member count exceeds'')
     else if length (ci_Edges input) > MaxClosureEdges
       then Inl (Error ErrClosureLimitExceeded ''edge count exceeds'')
     else if length (ci_ObjectClaims input) > MaxClosureObjectClaims
       then Inl (Error ErrClosureLimitExceeded ''object claim count exceeds'')
     else
       let basis = Basis_Normalize (ci_Basis input) in
       if basis \<noteq> ci_Basis input then Inl (badCut ''lineage basis is not canonical'')
       else if Basis_Key basis \<noteq> Inr (ci_LineageKey input)
         then Inl (badCut ''lineage key does not match basis'')
       else let lineageKey = ci_LineageKey input in
       and_then (validateClosureHead (ci_Head input) (length (ci_Events input))) (\<lambda>_.
       let events = sort_key (\<lambda>e. (er_Revision e, er_ID e)) (cloneClosureEvents (ci_Events input)) in
       and_then (validateClosureHistory (ci_Head input) events) (\<lambda>_.
       let members = sort_key mb_NodeID (ci_Members input);
           edges = sort_key eg_ID (ci_Edges input) in
       and_then (validateClosureMaterialization lineageKey events members edges) (\<lambda>globalMembership.
       if closureEdgesContainCycle members edges
         then Inl (badCut ''supersedes relation contains a cycle'')
       else
       let objectClaims = sort_key oc_NodeID (ci_ObjectClaims input) in
       and_then (validateObjectClaimCoverage lineageKey members globalMembership objectClaims) (\<lambda>coverageComplete.
       let historyHash = closureHistoryHash (ci_Head input) events;
           objectManifestHash = closureObjectManifestHash basis (nil_append objectClaims);
           cutHash = closureCutHash lineageKey basis (ci_Head input) historyHash
                       (nil_append members) (nil_append edges)
       in Inr \<lparr>cc_lineageKey = lineageKey, cc_basis = basis, cc_head = ci_Head input, cc_events = events,
               cc_members = members, cc_edges = edges, cc_objectClaims = objectClaims,
               cc_historyHash = historyHash, cc_cutHash = cutHash,
               cc_objectClaimManifestHash = objectManifestHash,
               cc_coverageComplete = coverageComplete\<rparr>)))))"

section \<open>Projection\<close>

text \<open>\<open>incoming[node]\<close>: the IDs of the edges into a node, in byte order, nil when there is none.\<close>

definition incoming_edges :: "ClosureEdgeRecord list \<Rightarrow> string \<Rightarrow> string list" where
  "incoming_edges edges nodeID = sort (map eg_ID (filter (\<lambda>e. eg_ToNodeID e = nodeID) edges))"

definition node_currentness :: "ClosureEdgeRecord list \<Rightarrow> ClosureMemberRecord \<Rightarrow> NodeCurrentness" where
  "node_currentness edges member =
    (let witnesses = incoming_edges edges (mb_NodeID member)
     in \<lparr>nc_NodeID = mb_NodeID member,
         nc_Status = (if witnesses \<noteq> [] then CurrentnessSuperseded else CurrentnessUnknown),
         nc_IncomingEdgeIDs = nil_append witnesses\<rparr>)"

definition frontier_nodes :: "ClosureEdgeRecord list \<Rightarrow> ClosureMemberRecord list \<Rightarrow> string list" where
  "frontier_nodes edges members =
    map mb_NodeID (filter (\<lambda>m. incoming_edges edges (mb_NodeID m) = []) members)"

definition buildCurrentnessProjection :: "canonicalClosureCut \<Rightarrow> CurrentnessProjection" where
  "buildCurrentnessProjection ccut =
    \<lparr>cp_ContractVersion = ClosureCutContractVersionV1,
     cp_AlgorithmVersion = CurrentnessAlgorithmVersionV1,
     cp_Semantics = CurrentnessSemanticsV1,
     cp_CoveragePolicy = ObjectCoveragePolicyV1,
     cp_LineageKey = cc_lineageKey ccut,
     cp_Head = cc_head ccut,
     cp_HistoryHash = cc_historyHash ccut,
     cp_CutHash = cc_cutHash ccut,
     cp_ObjectClaimManifestHash = cc_objectClaimManifestHash ccut,
     cp_ClosureAvailable = False,
     cp_FrontierNodeIDs = Some (frontier_nodes (cc_edges ccut) (cc_members ccut)),
     cp_Nodes = Some (map (node_currentness (cc_edges ccut)) (cc_members ccut)),
     cp_Witness = None\<rparr>"

definition witness_json :: "ClosureWitness \<Rightarrow> json" where
  "witness_json w = JObj
    [(''contract_version'', JStr (cw_ContractVersion w)),
     (''closure_witness_id'', JStr (cw_ID w)),
     (''algorithm_version'', JStr (cw_AlgorithmVersion w)),
     (''semantics'', JStr (cw_Semantics w)),
     (''coverage_policy'', JStr (cw_CoveragePolicy w)),
     (''lineage_key'', JStr (cw_LineageKey w)),
     (''basis'', basis_json (cw_Basis w)),
     (''head'', head_json (cw_Head w)),
     (''history_hash'', JStr (cw_HistoryHash w)),
     (''cut_hash'', JStr (cw_CutHash w)),
     (''object_claim_manifest_hash'', JStr (cw_ObjectClaimManifestHash w)),
     (''node_ids'', JSlice (map_option (map JStr) (cw_NodeIDs w))),
     (''edge_ids'', JSlice (map_option (map JStr) (cw_EdgeIDs w))),
     (''frontier_node_ids'', JSlice (map_option (map JStr) (cw_FrontierNodeIDs w)))]"

definition newClosureWitness :: "canonicalClosureCut \<Rightarrow> string list \<Rightarrow> ClosureWitness" where
  "newClosureWitness ccut frontiers =
    (let witness = \<lparr>cw_ContractVersion = ClosureWitnessContractVersionV1,
           cw_ID = [],
           cw_AlgorithmVersion = CurrentnessAlgorithmVersionV1,
           cw_Semantics = CurrentnessSemanticsV1,
           cw_CoveragePolicy = ObjectCoveragePolicyV1,
           cw_LineageKey = cc_lineageKey ccut,
           cw_Basis = cc_basis ccut,
           cw_Head = cc_head ccut,
           cw_HistoryHash = cc_historyHash ccut,
           cw_CutHash = cc_cutHash ccut,
           cw_ObjectClaimManifestHash = cc_objectClaimManifestHash ccut,
           cw_NodeIDs = Some (map mb_NodeID (cc_members ccut)),
           cw_EdgeIDs = Some (map eg_ID (cc_edges ccut)),
           cw_FrontierNodeIDs = nil_append frontiers\<rparr>;
         digest = hashJSON (witness_json (witness\<lparr>cw_ID := []\<rparr>))
     in witness\<lparr>cw_ID := ''closure-witness:v1:'' @ digest\<rparr>)"

definition settle :: "nat \<Rightarrow> NodeCurrentness \<Rightarrow> NodeCurrentness" where
  "settle frontiers node =
    (if nc_Status node \<noteq> CurrentnessUnknown then node
     else if frontiers = 1 then node\<lparr>nc_Status := CurrentnessCurrent\<rparr>
     else node\<lparr>nc_Status := CurrentnessAmbiguous\<rparr>)"

definition ProjectCurrentness :: "ClosureCutInput \<Rightarrow> CurrentnessProjection result" where
  "ProjectCurrentness input =
    and_then (validateAndCanonicalizeClosureCut input) (\<lambda>ccut.
      let projection = buildCurrentnessProjection ccut
      in if \<not> cc_coverageComplete ccut then Inr projection
         else
           let frontiers = elems (cp_FrontierNodeIDs projection);
               projection = projection\<lparr>cp_Nodes := map_option (map (settle (length frontiers))) (cp_Nodes projection)\<rparr>;
               witness = newClosureWitness ccut frontiers
           in Inr (projection\<lparr>cp_ClosureAvailable := True, cp_Witness := Some witness\<rparr>))"

definition ValidateCurrentnessProjection :: "ClosureCutInput \<Rightarrow> CurrentnessProjection \<Rightarrow> unit result" where
  "ValidateCurrentnessProjection input got =
    and_then (ProjectCurrentness input) (\<lambda>want.
      if got \<noteq> want then Inl (badCut ''currentness projection does not match its cut'') else Inr ())"

end
