(* ===== verification/Registration.thy ===== *)
theory Registration
  imports Closure
begin

text \<open>
  \<open>internal/evidencesupersession/registration.go\<close>: the independent decision that enrols the first claim
  of a lineage.  A registration binds the reviewed evidence and the point of the admission chain
  after which it applies (its anchor); its identifier commits to all of them.
\<close>

section \<open>Records\<close>

abbreviation "InitialRegistrationContractV1 \<equiv> ''core-initial-lineage-registration/v1''"
abbreviation "registrationIDPrefix \<equiv> ''initial-lineage-registration:v1:''"
abbreviation "reviewSubjectPrefix \<equiv> ''initial-lineage-review:v1:''"

definition MaxRegistrationEvents :: int where "MaxRegistrationEvents = 10000"
definition MaxRegistrationCatalogBytes :: int where "MaxRegistrationCatalogBytes = 16 * 2 ^ 20"

text \<open>A nil \<open>HeadEventID\<close> is \<open>None\<close>.\<close>

record RegistrationAnchor =
  ra_ChainKey :: string
  ra_Revision :: int
  ra_HeadEventID :: "string option"

record RegistrationReviewBinding =
  rb_StoreID :: string
  rb_ClaimID :: string
  rb_OriginalAdmissionID :: string
  rb_OriginalOccurrenceID :: string
  rb_SnapshotID :: string
  rb_ViewID :: string
  rb_GroundingHash :: string
  rb_ObservationReceiptID :: string
  rb_ObservationHash :: string
  rb_Basis :: Basis
  rb_LineageKey :: string
  rb_Anchor :: RegistrationAnchor
  rb_CreationObjectManifestHash :: string
  rb_GovernanceDigest :: string

record InitialRegistrationPayload =
  rp_ContractVersion :: string
  rp_Binding :: RegistrationReviewBinding
  rp_ReviewSubjectID :: string
  rp_RequestID :: string
  rp_Reviewer :: string
  rp_Reason :: string

record RegistrationRecord =
  rr_ID :: string
  rr_Payload :: InitialRegistrationPayload

type_synonym MembershipOriginKind = string

abbreviation "MembershipRegistration \<equiv> ''registration''"
abbreviation "MembershipReplacement \<equiv> ''replacement''"
abbreviation "MembershipBootstrap \<equiv> ''bootstrap''"

record MembershipOrigin =
  mo_Kind :: MembershipOriginKind
  mo_EventID :: string

record JointMemberRecord =
  jm_NodeID :: string
  jm_LineageKey :: string
  jm_Origin :: MembershipOrigin

definition JointMemberRecord_legacy :: "JointMemberRecord \<Rightarrow> ClosureMemberRecord" where
  "JointMemberRecord_legacy m =
    \<lparr>mb_NodeID = jm_NodeID m, mb_LineageKey = jm_LineageKey m,
     mb_FirstAdmissionEventID = mo_EventID (jm_Origin m),
     mb_WasBootstrapped = (mo_Kind (jm_Origin m) = MembershipBootstrap)\<rparr>"

section \<open>JSON texts\<close>

definition anchor_point_json :: "RegistrationAnchor \<Rightarrow> json" where
  "anchor_point_json a = JObj
    [(''chain_key'', JStr (ra_ChainKey a)), (''revision'', JInt (ra_Revision a)),
     (''head_event_id'', (case ra_HeadEventID a of None \<Rightarrow> JNull | Some i \<Rightarrow> JStr i))]"

definition binding_json :: "RegistrationReviewBinding \<Rightarrow> json" where
  "binding_json b = JObj
    [(''store_id'', JStr (rb_StoreID b)),
     (''claim_id'', JStr (rb_ClaimID b)),
     (''original_admission_id'', JStr (rb_OriginalAdmissionID b)),
     (''original_occurrence_id'', JStr (rb_OriginalOccurrenceID b)),
     (''snapshot_id'', JStr (rb_SnapshotID b)),
     (''view_id'', JStr (rb_ViewID b)),
     (''grounding_hash'', JStr (rb_GroundingHash b)),
     (''observation_receipt_id'', JStr (rb_ObservationReceiptID b)),
     (''observation_hash'', JStr (rb_ObservationHash b)),
     (''lineage_basis'', basis_json (rb_Basis b)),
     (''lineage_key'', JStr (rb_LineageKey b)),
     (''supersession_anchor'', anchor_point_json (rb_Anchor b)),
     (''creation_object_manifest_hash'', JStr (rb_CreationObjectManifestHash b)),
     (''governance_digest'', JStr (rb_GovernanceDigest b))]"

definition subject_json :: "RegistrationReviewBinding \<Rightarrow> json" where
  "subject_json b = JObj
    [(''contract_version'', JStr InitialRegistrationContractV1), (''binding'', binding_json b)]"

definition registration_json :: "InitialRegistrationPayload \<Rightarrow> json" where
  "registration_json p = JObj
    [(''contract_version'', JStr (rp_ContractVersion p)),
     (''binding'', binding_json (rp_Binding p)),
     (''review_subject_id'', JStr (rp_ReviewSubjectID p)),
     (''request_id'', JStr (rp_RequestID p)),
     (''reviewer'', JStr (rp_Reviewer p)),
     (''reason'', JStr (rp_Reason p))]"

definition registration_record_json :: "RegistrationRecord \<Rightarrow> json" where
  "registration_record_json r = JObj
    [(''event_id'', JStr (rr_ID r)), (''payload'', registration_json (rr_Payload r))]"

definition joint_member_json :: "JointMemberRecord \<Rightarrow> json" where
  "joint_member_json m = JObj
    [(''node_id'', JStr (jm_NodeID m)), (''lineage_key'', JStr (jm_LineageKey m)),
     (''origin'', JObj [(''kind'', JStr (mo_Kind (jm_Origin m))), (''event_id'', JStr (mo_EventID (jm_Origin m)))])]"

section \<open>Validation and identifiers\<close>

definition RegistrationAnchor_validate :: "RegistrationAnchor \<Rightarrow> unit result" where
  "RegistrationAnchor_validate a =
    (if ra_ChainKey a \<noteq> ChainKey \<or> (ra_Revision a = 0) \<noteq> (ra_HeadEventID a = None)
       then Inl (Error ErrInvalidPayload ''invalid registration anchor'')
     else validateExpectedHead (ra_Revision a) (case ra_HeadEventID a of None \<Rightarrow> [] | Some i \<Rightarrow> i))"

definition RegistrationReviewBinding_validate :: "RegistrationReviewBinding \<Rightarrow> unit result" where
  "RegistrationReviewBinding_validate b =
    and_then (each (\<lambda>(name, value). wrap ErrInvalidPayload (validateCanonicalString name value 200))
       [(''store_id'', rb_StoreID b), (''snapshot_id'', rb_SnapshotID b), (''view_id'', rb_ViewID b),
        (''observation_receipt_id'', rb_ObservationReceiptID b)]) (\<lambda>_.
    and_then (each (\<lambda>(name, value, pre). wrap ErrInvalidPayload (validateRecordID name value pre))
       [(''claim_id'', rb_ClaimID b, ''canon-node:''),
        (''original_admission_id'', rb_OriginalAdmissionID b, ''adm:''),
        (''original_occurrence_id'', rb_OriginalOccurrenceID b, ''occ:'')]) (\<lambda>_.
    and_then (Basis_Key (rb_Basis b)) (\<lambda>key.
    if rb_LineageKey b \<noteq> key then Inl (Error ErrInvalidPayload ''registration lineage/basis mismatch'')
    else and_then (RegistrationAnchor_validate (rb_Anchor b)) (\<lambda>_.
    if \<not> validHash (rb_GroundingHash b) \<or> \<not> validHash (rb_ObservationHash b) \<or> \<not> validHash (rb_GovernanceDigest b)
      then Inl (Error ErrInvalidPayload ''invalid registration evidence hash'')
    else if rb_CreationObjectManifestHash b \<noteq>
        closureObjectManifestHash (rb_Basis b) (Some [\<lparr>oc_NodeID = rb_ClaimID b, oc_LineageKey = []\<rparr>])
      then Inl (Error ErrInvalidPayload ''registration creation manifest is not singleton/unclassified'')
    else Inr ()))))"

definition RegistrationReviewBinding_SubjectID :: "RegistrationReviewBinding \<Rightarrow> string result" where
  "RegistrationReviewBinding_SubjectID b =
    and_then (RegistrationReviewBinding_validate b) (\<lambda>_. Inr (reviewSubjectPrefix @ hashJSON (subject_json b)))"

definition InitialRegistrationPayload_Validate :: "InitialRegistrationPayload \<Rightarrow> unit result" where
  "InitialRegistrationPayload_Validate p =
    (if rp_ContractVersion p \<noteq> InitialRegistrationContractV1
       then Inl (Error ErrInvalidPayload ''unknown registration contract'')
     else and_then (RegistrationReviewBinding_SubjectID (rp_Binding p)) (\<lambda>subject.
       if rp_ReviewSubjectID p \<noteq> subject
         then Inl (Error ErrInvalidPayload ''registration review subject mismatch'')
       else each (\<lambda>(name, value, limit). wrap ErrInvalidPayload (validateCanonicalString name value limit))
         [(''request_id'', rp_RequestID p, 200), (''reviewer'', rp_Reviewer p, maxDecisionByBytes),
          (''reason'', rp_Reason p, maxDecisionReasonBytes)]))"

definition InitialRegistrationPayload_ID :: "InitialRegistrationPayload \<Rightarrow> string result" where
  "InitialRegistrationPayload_ID p =
    and_then (InitialRegistrationPayload_Validate p) (\<lambda>_. Inr (registrationIDPrefix @ hashJSON (registration_json p)))"

definition RegistrationRecord_validate :: "RegistrationRecord \<Rightarrow> unit result" where
  "RegistrationRecord_validate r =
    and_then (InitialRegistrationPayload_ID (rr_Payload r)) (\<lambda>i.
      if rr_ID r \<noteq> i then Inl (Error ErrInvalidPayload ''registration event identity mismatch'') else Inr ())"

definition ValidateRegistrationCatalogCapacity :: "int \<Rightarrow> int \<Rightarrow> unit result" where
  "ValidateRegistrationCatalogCapacity cnt bytes_used =
    (if cnt < 0 \<or> bytes_used < 2 then Inl (Error ErrInvalidPayload ''invalid registration catalog usage'')
     else if cnt > MaxRegistrationEvents \<or> bytes_used > MaxRegistrationCatalogBytes
       then Inl (Error ErrClosureLimitExceeded ''registration catalog capacity exceeded'')
     else Inr ())"

definition RegistrationCreationManifestHash :: "Basis \<Rightarrow> string \<Rightarrow> string result" where
  "RegistrationCreationManifestHash basis claimID =
    and_then (Basis_Validate basis) (\<lambda>_.
    and_then (validateRecordID ''claim_id'' claimID ''canon-node:'') (\<lambda>_.
    Inr (closureObjectManifestHash basis (Some [\<lparr>oc_NodeID = claimID, oc_LineageKey = []\<rparr>]))))"

section \<open>What validation establishes\<close>

definition anchor_ok :: "RegistrationAnchor \<Rightarrow> bool" where
  "anchor_ok a \<longleftrightarrow> ra_ChainKey a = ChainKey \<and>
    (case ra_HeadEventID a of None \<Rightarrow> ra_Revision a = 0 | Some i \<Rightarrow> 0 < ra_Revision a \<and> validAdmissionEventID i)"

lemma RegistrationAnchor_validate_Inr [returns]: "RegistrationAnchor_validate a = Inr u \<longleftrightarrow> anchor_ok a"
  by (auto simp: RegistrationAnchor_validate_def anchor_ok_def if_Inl_eq_Inr validateExpectedHead_Inr head_ok_def
      split: option.split)

definition binding_ok :: "RegistrationReviewBinding \<Rightarrow> bool" where
  "binding_ok b \<longleftrightarrow>
    canonical_string 200 (rb_StoreID b) \<and> canonical_string 200 (rb_SnapshotID b) \<and>
    canonical_string 200 (rb_ViewID b) \<and> canonical_string 200 (rb_ObservationReceiptID b) \<and>
    record_id ''canon-node:'' (rb_ClaimID b) \<and> record_id ''adm:'' (rb_OriginalAdmissionID b) \<and>
    record_id ''occ:'' (rb_OriginalOccurrenceID b) \<and>
    basis_ok (rb_Basis b) \<and> rb_LineageKey b = lineage_key (rb_Basis b) \<and> anchor_ok (rb_Anchor b) \<and>
    validHash (rb_GroundingHash b) \<and> validHash (rb_ObservationHash b) \<and> validHash (rb_GovernanceDigest b) \<and>
    rb_CreationObjectManifestHash b =
      closureObjectManifestHash (rb_Basis b) (Some [\<lparr>oc_NodeID = rb_ClaimID b, oc_LineageKey = []\<rparr>])"

lemma validateCanonicalString_iff: "validateCanonicalString name v n = Inr u \<longleftrightarrow> canonical_string n v"
  by (simp add: validateCanonicalString_Inr canonical_string_def)

lemma RegistrationReviewBinding_validate_Inr [returns]:
  "RegistrationReviewBinding_validate b = Inr u \<longleftrightarrow> binding_ok b"
  unfolding RegistrationReviewBinding_validate_def binding_ok_def
  by (auto simp: and_then_Inr if_Inl_eq_Inr wrap_Inr each_Inr validateCanonicalString_iff validateRecordID_Inr
      Basis_Key_Inr RegistrationAnchor_validate_Inr)

definition registration_ok :: "InitialRegistrationPayload \<Rightarrow> bool" where
  "registration_ok p \<longleftrightarrow> rp_ContractVersion p = InitialRegistrationContractV1 \<and> binding_ok (rp_Binding p) \<and>
    rp_ReviewSubjectID p = reviewSubjectPrefix @ hashJSON (subject_json (rp_Binding p)) \<and>
    canonical_string 200 (rp_RequestID p) \<and> canonical_string 200 (rp_Reviewer p) \<and>
    canonical_string 2000 (rp_Reason p)"

lemma InitialRegistrationPayload_Validate_Inr [returns]:
  "InitialRegistrationPayload_Validate p = Inr u \<longleftrightarrow> registration_ok p"
  unfolding InitialRegistrationPayload_Validate_def registration_ok_def RegistrationReviewBinding_SubjectID_def
  by (auto simp: and_then_Inr if_Inl_eq_Inr wrap_Inr each_Inr validateCanonicalString_iff
      RegistrationReviewBinding_validate_Inr)

lemma RegistrationRecord_validate_Inr [returns]:
  "RegistrationRecord_validate r = Inr u \<longleftrightarrow>
    registration_ok (rr_Payload r) \<and> rr_ID r = registrationIDPrefix @ hashJSON (registration_json (rr_Payload r))"
  by (auto simp: RegistrationRecord_validate_def InitialRegistrationPayload_ID_def and_then_Inr if_Inl_eq_Inr
      InitialRegistrationPayload_Validate_Inr)

lemma utf8_valid_prefixes [simp]:
  "utf8_valid reviewSubjectPrefix" "utf8_valid ''object-claim-manifest:v1:''"
  by (rule utf8_valid_ascii, simp)+

lemma binding_json_ok: "binding_ok b \<Longrightarrow> json_ok (binding_json b)"
proof -
  assume ok: "binding_ok b"
  have "utf8_valid (closureObjectManifestHash (rb_Basis b) s)" for s
    unfolding closureObjectManifestHash_def by (rule utf8_valid_append) simp_all
  moreover have "json_ok (anchor_point_json (rb_Anchor b))"
    using ok validAdmissionEventID_solid utf8_valid_solid
    by (auto simp: binding_ok_def anchor_ok_def anchor_point_json_def ascii_Cons split: option.splits)
  ultimately show ?thesis
    using ok by (simp add: binding_json_def binding_ok_def canonical_string_def record_id_def ascii_Cons
        basis_json_ok utf8_valid_validHash)
qed

lemma anchor_point_json_inj: "anchor_point_json a = anchor_point_json b \<Longrightarrow> a = b"
  by (auto simp: anchor_point_json_def split: option.splits intro: RegistrationAnchor.equality)

lemma binding_json_inj: "binding_json b = binding_json c \<Longrightarrow> b = c"
  by (auto simp: binding_json_def intro: RegistrationReviewBinding.equality dest: anchor_point_json_inj)

lemma registration_json_ok: "registration_ok p \<Longrightarrow> json_ok (registration_json p)"
proof -
  have "utf8_valid (reviewSubjectPrefix @ hashJSON v)" for v by (rule utf8_valid_append) simp_all
  moreover assume ok: "registration_ok p"
  ultimately have "utf8_valid (rp_ReviewSubjectID p)" by (simp only: registration_ok_def)
  then show ?thesis
    using ok binding_json_ok by (simp add: registration_json_def registration_ok_def canonical_string_def ascii_Cons)
qed

lemma registration_json_inj: "registration_json p = registration_json q \<Longrightarrow> p = q"
  by (auto simp: registration_json_def intro: InitialRegistrationPayload.equality dest: binding_json_inj)

interpretation review: content_id RegistrationReviewBinding_validate subject_json reviewSubjectPrefix
    RegistrationReviewBinding_SubjectID
  by unfold_locales
    (auto simp: RegistrationReviewBinding_SubjectID_def RegistrationReviewBinding_validate_Inr subject_json_def
      binding_json_ok ascii_Cons dest: binding_json_inj)

interpretation registration: content_id InitialRegistrationPayload_Validate registration_json registrationIDPrefix
    InitialRegistrationPayload_ID
  by unfold_locales
    (auto simp: InitialRegistrationPayload_ID_def InitialRegistrationPayload_Validate_Inr registration_json_ok
      dest: registration_json_inj)

end
