(* ===== verification/ClosureHistory.thy ===== *)
theory ClosureHistory
  imports Closure
begin

text \<open>
  The admission chain of a closure cut: what \<open>validateClosureEvent\<close> and \<open>validateClosureHistory\<close>
  establish, and that the ID of the head event determines the whole history.
\<close>

section \<open>One event record\<close>

text \<open>The decision that the audit fields of a row stand for.\<close>

definition audit_decision :: "ClosureEventRecord \<Rightarrow> DecisionPayloadV2" where
  "audit_decision e =
    \<lparr>dc_ContractVersion = DecisionContractVersionV2, dc_ProposalOccurrence = er_ProposalOccurrence e,
     dc_Outcome = admissionOutcome, dc_CanonicalRef = er_ReplacementNodeID e,
     dc_DecisionBy = trim_space (er_DecisionBy e), dc_DecisionReason = trim_space (er_DecisionReason e)\<rparr>"

definition closure_event_ok :: "ClosureEventRecord \<Rightarrow> bool" where
  "closure_event_ok e \<longleftrightarrow> (let p = er_Payload e in
    event_ok p \<and> decision_ok (audit_decision e) \<and>
    er_ID e = admissionEventIDPrefix @ hashJSON (event_json p) \<and>
    er_ContractVersion e = ev_ContractVersion p \<and> er_Revision e = ev_Revision p \<and>
    er_PreviousRevision e = ev_PreviousRevision p \<and> er_PreviousEventID e = ev_PreviousEventID p \<and>
    er_Kind e = ev_Kind p \<and> er_LineageKey e = ev_LineageKey p \<and>
    er_ReplacementNodeID e = ev_ReplacementNodeID p \<and> er_ProposalOccurrence e = ev_ProposalOccurrence p \<and>
    er_AdmissionDecisionID e = ev_AdmissionDecisionID p \<and> er_AdmissionOutcome e = admissionOutcome \<and>
    er_RequestPayloadHash e = ev_RequestPayloadHash p \<and> er_DecisionPayloadHash e = ev_DecisionPayloadHash p \<and>
    er_DecisionPayloadHash e = hashJSON (decision_json (audit_decision e)) \<and>
    er_EventPayloadHash e = hashJSON (event_json p))"

lemma event_ids_trim:
  assumes "event_ok p"
  shows "trim_space (ev_ProposalOccurrence p) = ev_ProposalOccurrence p"
    and "trim_space (ev_ReplacementNodeID p) = ev_ReplacementNodeID p"
  using assms by (auto simp: event_ok_def request_ok_def record_id_def)

lemma each_rows:
  "each (\<lambda>(name, matches). if matches then Inr () else if name = n then Inl x else Inl y) rows = Inr u \<longleftrightarrow>
    list_all snd rows"
  by (induction rows) (auto simp: and_then_Inr each_Inr split: if_splits)

lemma audit_decision_new:
  assumes "event_ok (er_Payload e)" and "er_ReplacementNodeID e = ev_ReplacementNodeID (er_Payload e)"
    and "er_ProposalOccurrence e = ev_ProposalOccurrence (er_Payload e)"
  shows "NewDecisionPayloadV2 (ev_ProposalOccurrence (er_Payload e)) (ev_ReplacementNodeID (er_Payload e))
        (er_DecisionBy e) (er_DecisionReason e) = Inr d \<longleftrightarrow> decision_ok (audit_decision e) \<and> d = audit_decision e"
  unfolding NewDecisionPayloadV2_Inr event_ids_trim [OF assms(1)] audit_decision_def decision_ok_def assms(2,3)
  by simp

lemma validateClosureEvent_Inr [returns]: "validateClosureEvent e = Inr u \<longleftrightarrow> closure_event_ok e"
proof (cases "event_ok (er_Payload e) \<and> er_ReplacementNodeID e = ev_ReplacementNodeID (er_Payload e) \<and>
    er_ProposalOccurrence e = ev_ProposalOccurrence (er_Payload e)")
  case True
  let ?p = "er_Payload e"
  have event: "event_ok ?p" and rows: "er_ReplacementNodeID e = ev_ReplacementNodeID ?p"
      "er_ProposalOccurrence e = ev_ProposalOccurrence ?p" using True by auto
  note new = audit_decision_new [OF event rows]
  have "validateClosureEvent e = Inr u \<longleftrightarrow>
      decision_ok (audit_decision e) \<and> list_all snd
       [(''event_id'', er_ID e = admissionEventIDPrefix @ hashJSON (event_json ?p)),
        (''contract_version'', er_ContractVersion e = ev_ContractVersion ?p),
        (''revision'', er_Revision e = ev_Revision ?p),
        (''previous_revision'', er_PreviousRevision e = ev_PreviousRevision ?p),
        (''previous_event_id'', er_PreviousEventID e = ev_PreviousEventID ?p),
        (''event_kind'', er_Kind e = ev_Kind ?p),
        (''lineage_key'', er_LineageKey e = ev_LineageKey ?p),
        (''replacement_node_id'', er_ReplacementNodeID e = ev_ReplacementNodeID ?p),
        (''proposal_occurrence_id'', er_ProposalOccurrence e = ev_ProposalOccurrence ?p),
        (''admission_decision_id'', er_AdmissionDecisionID e = ev_AdmissionDecisionID ?p),
        (''admission_outcome'', er_AdmissionOutcome e = admissionOutcome),
        (''request_payload_hash'', er_RequestPayloadHash e = ev_RequestPayloadHash ?p),
        (''decision_payload_hash'', er_DecisionPayloadHash e = ev_DecisionPayloadHash ?p),
        (''decision_audit'', hashJSON (decision_json (audit_decision e)) = er_DecisionPayloadHash e),
        (''event_payload_hash'', er_EventPayloadHash e = trim_prefix (er_ID e) admissionEventIDPrefix)]"
    unfolding validateClosureEvent_def Let_def and_then_Inr wrap_Inr each_rows
      AdmissionEventPayloadV2_Validate_Inr AdmissionEventPayloadV2_ID_Inr new DecisionPayloadV2_Hash_Inr
    using event by (simp only: simp_thms ex_simps) simp
  also have "\<dots> \<longleftrightarrow> closure_event_ok e"
  proof (cases "er_ID e = admissionEventIDPrefix @ hashJSON (event_json ?p)")
    case True
    then have trim: "trim_prefix (er_ID e) admissionEventIDPrefix = hashJSON (event_json ?p)"
      by (simp only: trim_prefix_append)
    show ?thesis
      unfolding list.pred_inject snd_conv closure_event_ok_def Let_def trim
      by (insert event rows True, intro iffI; elim conjE; intro conjI;
          (assumption | (rule sym, assumption) | simp))
  qed (simp add: closure_event_ok_def Let_def)
  finally show ?thesis .
next
  case False
  moreover have "validateClosureEvent e = Inr u \<Longrightarrow> event_ok (er_Payload e) \<and>
      er_ReplacementNodeID e = ev_ReplacementNodeID (er_Payload e) \<and>
      er_ProposalOccurrence e = ev_ProposalOccurrence (er_Payload e)"
    unfolding validateClosureEvent_def Let_def and_then_Inr wrap_Inr each_rows
      AdmissionEventPayloadV2_Validate_Inr list.pred_inject snd_conv by blast
  moreover have "closure_event_ok e \<Longrightarrow> event_ok (er_Payload e) \<and>
      er_ReplacementNodeID e = ev_ReplacementNodeID (er_Payload e) \<and>
      er_ProposalOccurrence e = ev_ProposalOccurrence (er_Payload e)"
    by (simp add: closure_event_ok_def Let_def)
  ultimately show ?thesis by blast
qed

lemma closure_event_facts:
  assumes "closure_event_ok e"
  shows "event_ok (er_Payload e)" and "decision_ok (audit_decision e)"
    and "er_ID e = admissionEventIDPrefix @ hashJSON (event_json (er_Payload e))"
    and "er_DecisionPayloadHash e = ev_DecisionPayloadHash (er_Payload e)"
    and "er_DecisionPayloadHash e = hashJSON (decision_json (audit_decision e))"
  using assms by (auto simp: closure_event_ok_def Let_def)

lemma closure_event_target:
  assumes "closure_event_ok e"
  shows "er_ReplacementNodeID e \<notin> set (ev_TargetNodeIDs (er_Payload e))"
    and "ev_TargetNodeIDs (er_Payload e) \<noteq> []"
    and "distinct (ev_TargetNodeIDs (er_Payload e))"
    and "set (elems (ev_BootstrappedTargetNodeIDs (er_Payload e))) \<subseteq> set (ev_TargetNodeIDs (er_Payload e))"
  using assms by (auto simp: closure_event_ok_def event_ok_def request_ok_def canonical_targets_def Let_def)

section \<open>The chain\<close>

fun chained :: "nat \<Rightarrow> string \<Rightarrow> ClosureEventRecord list \<Rightarrow> bool" where
  "chained n pid [] \<longleftrightarrow> True"
| "chained n pid (e # es) \<longleftrightarrow>
    er_Revision e = int n + 1 \<and> closure_event_ok e \<and> er_PreviousRevision e = int n \<and>
    er_PreviousEventID e = pid \<and> chained (n + 1) (er_ID e) es"

definition history_ok :: "ClosureEventRecord list \<Rightarrow> bool" where
  "history_ok es \<longleftrightarrow> chained 0 [] es \<and> distinct (map er_ID es) \<and>
    distinct (map er_ProposalOccurrence es) \<and> distinct (map er_AdmissionDecisionID es)"

lemma chained_events: "chained n pid es \<Longrightarrow> e \<in> set es \<Longrightarrow> closure_event_ok e"
  by (induction n pid es rule: chained.induct) auto

lemma chained_append:
  "chained n pid (es @ fs) \<longleftrightarrow>
    chained n pid es \<and> chained (n + length es) (if es = [] then pid else er_ID (last es)) fs"
  by (induction n pid es rule: chained.induct) auto

lemma chained_iff:
  "chained n pid es \<longleftrightarrow> (\<forall>i<length es. closure_event_ok (es ! i) \<and> er_Revision (es ! i) = int (n + i) + 1 \<and>
     er_PreviousRevision (es ! i) = int (n + i) \<and>
     er_PreviousEventID (es ! i) = (if i = 0 then pid else er_ID (es ! (i - 1))))"
proof (induction es arbitrary: n pid)
  case (Cons e es)
  have prev: "er_ID ((e # es) ! i) = (if i = 0 then er_ID e else er_ID (es ! (i - 1)))" for i
    by (simp add: nth_Cons')
  show ?case
    by (simp only: chained.simps Cons.IH list.size All_less_Suc2 plus_nat.add_Suc plus_nat.add_0 add_Suc_right add_0_right)
      (auto simp: prev)
qed simp

lemma closure_history_loop_Inr:
  assumes "prev = None \<and> n = 0 \<and> pid = [] \<or> (\<exists>p. prev = Some p \<and> er_Revision p = int n \<and> pid = er_ID p)"
  shows "closure_history_loop n prev A B C es = Inr u \<longleftrightarrow>
    chained n pid es \<and> distinct (map er_ID es) \<and> distinct (map er_ProposalOccurrence es) \<and>
    distinct (map er_AdmissionDecisionID es) \<and> er_ID ` set es \<inter> A = {} \<and>
    er_ProposalOccurrence ` set es \<inter> B = {} \<and> er_AdmissionDecisionID ` set es \<inter> C = {}"
  using assms
proof (induction es arbitrary: n prev pid A B C)
  case (Cons e es)
  have link: "(case prev of
            None \<Rightarrow> (if er_PreviousRevision e \<noteq> 0 \<or> er_PreviousEventID e \<noteq> []
                     then Inl (badCut ''first event has a previous head'') else Inr ())
          | Some prev \<Rightarrow> (if er_PreviousRevision e \<noteq> er_Revision prev \<or> er_PreviousEventID e \<noteq> er_ID prev
                         then Inl (badCut ''event does not follow'') else Inr ())) = Inr v \<longleftrightarrow>
        er_PreviousRevision e = int n \<and> er_PreviousEventID e = pid" for v
    using Cons.prems by (auto split: option.splits)
  show ?case
  proof (cases "er_Revision e = int n + 1")
    case True
    then have "closure_history_loop (n + 1) (Some e) A' B' C' es = Inr u \<longleftrightarrow>
      chained (n + 1) (er_ID e) es \<and> distinct (map er_ID es) \<and> distinct (map er_ProposalOccurrence es) \<and>
      distinct (map er_AdmissionDecisionID es) \<and> er_ID ` set es \<inter> A' = {} \<and>
      er_ProposalOccurrence ` set es \<inter> B' = {} \<and> er_AdmissionDecisionID ` set es \<inter> C' = {}" for A' B' C'
      by (intro Cons.IH) auto
    with True show ?thesis
      by (simp add: and_then_Inr if_Inl_eq_Inr validateClosureEvent_Inr link) blast
  qed simp
qed simp

lemma validateClosureHistory_Inr [returns]:
  "validateClosureHistory h es = Inr u \<longleftrightarrow> es \<noteq> [] \<and> history_ok es \<and> er_ID (last es) = hd_HeadEventID h"
  unfolding validateClosureHistory_def history_ok_def
  by (simp add: and_then_Inr if_Inl_eq_Inr closure_history_loop_Inr [where pid = "[]"]) blast

section \<open>Tamper evidence\<close>

text \<open>
  A row keeps the audit strings as stored while the decision hash is taken of the trimmed strings.
\<close>

definition trim_audit :: "ClosureEventRecord \<Rightarrow> ClosureEventRecord" where
  "trim_audit e = e\<lparr>er_DecisionBy := trim_space (er_DecisionBy e), er_DecisionReason := trim_space (er_DecisionReason e)\<rparr>"

definition event_preimages :: "ClosureEventRecord \<Rightarrow> string set" where
  "event_preimages e = {marshal (event_json (er_Payload e)), marshal (decision_json (audit_decision e))}"

text \<open>Two different texts, one among the preimages of each history, with one SHA-256 digest.\<close>

definition collision :: "string set \<Rightarrow> string set \<Rightarrow> bool" where
  "collision X Y \<longleftrightarrow> (\<exists>x\<in>X. \<exists>y\<in>Y. x \<noteq> y \<and> sha256_hex x = sha256_hex y)"

lemma collision_mono: "collision X Y \<Longrightarrow> X \<subseteq> X' \<Longrightarrow> Y \<subseteq> Y' \<Longrightarrow> collision X' Y'"
  unfolding collision_def by blast

lemma same_event:
  assumes "closure_event_ok e" and "closure_event_ok f" and "er_ID e = er_ID f"
    and free: "\<not> collision (event_preimages e) (event_preimages f)"
  shows "trim_audit e = trim_audit f"
proof -
  have hash: "x = y" if "x \<in> event_preimages e" "y \<in> event_preimages f" "sha256_hex x = sha256_hex y" for x y
    using free that by (auto simp: collision_def)
  have in_pre: "marshal (event_json (er_Payload x)) \<in> event_preimages x"
      "marshal (decision_json (audit_decision x)) \<in> event_preimages x" for x
    by (simp_all add: event_preimages_def)
  note facts = closure_event_facts [OF assms(1)] closure_event_facts [OF assms(2)]
  have "hashJSON (event_json (er_Payload e)) = hashJSON (event_json (er_Payload f))"
    using assms(3) unfolding facts(3,8) by simp
  then have "marshal (event_json (er_Payload e)) = marshal (event_json (er_Payload f))"
    by - (rule hash [OF in_pre(1) in_pre(1)], simp add: hashJSON_def)
  then have p: "er_Payload e = er_Payload f"
    by (intro event.preimage_inj) (simp_all add: facts AdmissionEventPayloadV2_Validate_Inr)
  then have "hashJSON (decision_json (audit_decision e)) = hashJSON (decision_json (audit_decision f))"
    unfolding facts(5) [symmetric] facts(10) [symmetric] unfolding facts(4,9) by simp
  then have "marshal (decision_json (audit_decision e)) = marshal (decision_json (audit_decision f))"
    by - (rule hash [OF in_pre(2) in_pre(2)], simp add: hashJSON_def)
  then have "audit_decision e = audit_decision f"
    by (intro decision.preimage_inj) (simp_all add: facts DecisionPayloadV2_Validate_Inr)
  then show ?thesis
    using assms p unfolding closure_event_ok_def Let_def
    by (intro ClosureEventRecord.equality) (simp_all add: trim_audit_def audit_decision_def)
qed

lemma same_history:
  assumes "chained 0 [] es" and "chained 0 [] fs"
    and "es \<noteq> []" and "fs \<noteq> []" and "er_ID (last es) = er_ID (last fs)"
    and "\<not> collision (\<Union> (event_preimages ` set es)) (\<Union> (event_preimages ` set fs))"
  shows "map trim_audit es = map trim_audit fs"
  using assms
proof (induction es arbitrary: fs rule: rev_induct)
  case (snoc e es)
  obtain gs f where fs: "fs = gs @ [f]" using snoc.prems(4) by (metis rev_exhaust)
  let ?pid = "\<lambda>xs. if xs = [] then [] else er_ID (last xs)"
  have e: "closure_event_ok e" "er_Revision e = int (length es) + 1" "er_PreviousEventID e = ?pid es"
    and f: "closure_event_ok f" "er_Revision f = int (length gs) + 1" "er_PreviousEventID f = ?pid gs"
    and chains: "chained 0 [] es" "chained 0 [] gs"
    using snoc.prems(1,2) by (simp_all add: fs chained_append)
  have "\<not> collision (event_preimages e) (event_preimages f)"
    using snoc.prems(6) collision_mono [where X = "event_preimages e" and Y = "event_preimages f"] by (auto simp: fs)
  then have same: "trim_audit e = trim_audit f"
    using same_event e(1) f(1) snoc.prems(5) by (simp add: fs)
  have er: "er_Revision (trim_audit x) = er_Revision x" "er_PreviousEventID (trim_audit x) = er_PreviousEventID x" for x
    by (simp_all add: trim_audit_def)
  have len: "length es = length gs" and pid: "?pid es = ?pid gs"
  proof -
    have "er_Revision e = er_Revision f" "er_PreviousEventID e = er_PreviousEventID f"
      using er [of e] er [of f] same by simp_all
    then show "length es = length gs" "?pid es = ?pid gs"
      unfolding e(2) f(2) unfolding e(3) [symmetric] f(3) [symmetric] by simp_all
  qed
  show ?case
  proof (cases "es = []")
    case True
    then show ?thesis using len same by (simp add: fs)
  next
    case False
    moreover have "gs \<noteq> []" using False len by auto
    moreover have "\<not> collision (\<Union> (event_preimages ` set es)) (\<Union> (event_preimages ` set gs))"
      using snoc.prems(6) collision_mono [where X = "\<Union> (event_preimages ` set es)" and Y = "\<Union> (event_preimages ` set gs)"]
      by (auto simp: fs)
    ultimately have "map trim_audit es = map trim_audit gs"
      using snoc.IH [OF chains] pid by simp
    with same show ?thesis by (simp add: fs)
  qed
qed simp

section \<open>A sample history\<close>

definition sample_record :: ClosureEventRecord where
  "sample_record = \<lparr>er_ID = admissionEventIDPrefix @ hashJSON (event_json sample_event),
    er_ContractVersion = ev_ContractVersion sample_event, er_Revision = 1, er_PreviousRevision = 0,
    er_PreviousEventID = [], er_Kind = ev_Kind sample_event, er_LineageKey = ev_LineageKey sample_event,
    er_ReplacementNodeID = ev_ReplacementNodeID sample_event,
    er_ProposalOccurrence = ev_ProposalOccurrence sample_event,
    er_AdmissionDecisionID = ev_AdmissionDecisionID sample_event, er_AdmissionOutcome = admissionOutcome,
    er_DecisionBy = ''ann'', er_DecisionReason = ''newer'',
    er_RequestPayloadHash = ev_RequestPayloadHash sample_event,
    er_DecisionPayloadHash = ev_DecisionPayloadHash sample_event,
    er_EventPayloadHash = hashJSON (event_json sample_event), er_Payload = sample_event\<rparr>"

definition sample_head :: ClosureHead where
  "sample_head = \<lparr>hd_ChainKey = ChainKey, hd_Revision = 1, hd_HeadEventID = er_ID sample_record\<rparr>"

lemma sample_audit: "audit_decision sample_record = sample_decision"
  by (simp add: audit_decision_def sample_record_def sample_decision_def sample_event_def trim_solid_literal)

lemma sample_record_ok: "closure_event_ok sample_record"
proof -
  have "ev_DecisionPayloadHash sample_event = hashJSON (decision_json sample_decision)"
    "ev_Revision sample_event = 1" "ev_PreviousRevision sample_event = 0" "ev_PreviousEventID sample_event = []"
    by (simp_all add: sample_event_def)
  then show ?thesis
    using sample_event_ok sample_decision_ok
    by (simp add: closure_event_ok_def sample_audit) (simp add: sample_record_def)
qed

lemma sample_history: "validateClosureHistory sample_head [sample_record] = Inr ()"
proof -
  have "er_Revision sample_record = 1" "er_PreviousRevision sample_record = 0" "er_PreviousEventID sample_record = []"
    by (simp_all add: sample_record_def)
  then show ?thesis
    by (simp add: validateClosureHistory_Inr history_ok_def sample_record_ok sample_head_def)
qed

section \<open>Properties\<close>

text \<open>C23. \<open>validateClosureHistory\<close> accepts a history exactly when it is one gapless chain that ends in the
  head event: the event at index \<open>i\<close> is internally consistent, has revision \<open>i + 1\<close> and names the event
  before it, and no event ID, proposal or admission decision occurs twice.\<close>

theorem history_accepted_iff_chain:
  "validateClosureHistory h es = Inr () \<longleftrightarrow>
    es \<noteq> [] \<and> er_ID (last es) = hd_HeadEventID h \<and>
    (\<forall>i<length es. validateClosureEvent (es ! i) = Inr () \<and> er_Revision (es ! i) = int i + 1 \<and>
       er_PreviousRevision (es ! i) = int i \<and>
       er_PreviousEventID (es ! i) = (if i = 0 then [] else er_ID (es ! (i - 1)))) \<and>
    distinct (map er_ID es) \<and> distinct (map er_ProposalOccurrence es) \<and>
    distinct (map er_AdmissionDecisionID es)"
  unfolding validateClosureHistory_Inr validateClosureEvent_Inr history_ok_def chained_iff by auto

theorem history_accepted_iff_chain_witness:
  "\<exists>h. validateClosureHistory h [sample_record] = Inr () \<and> er_Revision sample_record = 1"
  using sample_history iffD1 [OF history_accepted_iff_chain sample_history] by (intro exI [of _ sample_head]) simp

text \<open>C24. The ID of the head event determines the whole history, including who decided and why up to
  surrounding white space: two histories that end in the same event ID are equal once their audit
  strings are trimmed, unless two different preimages hashed along them collide under SHA-256.\<close>

theorem head_event_determines_history:
  assumes "validateClosureHistory h es = Inr ()" and "validateClosureHistory g fs = Inr ()"
    and "hd_HeadEventID h = hd_HeadEventID g"
  shows "map trim_audit es = map trim_audit fs \<or>
    collision (\<Union> (event_preimages ` set es)) (\<Union> (event_preimages ` set fs))"
  using assms same_history by (fastforce simp: validateClosureHistory_Inr history_ok_def)

theorem head_event_determines_history_witness:
  "map trim_audit [sample_record] = map trim_audit [sample_record] \<or>
    collision (\<Union> (event_preimages ` set [sample_record])) (\<Union> (event_preimages ` set [sample_record]))"
  by (rule head_event_determines_history [OF sample_history sample_history refl])

text \<open>The audit strings of an event row are hashed after trimming but stored, and hashed into the
  history, as they are: a row whose \<open>DecisionBy\<close> has white space around it is accepted just like the row
  without, and is a different row.\<close>

theorem padded_audit_accepted:
  assumes "validateClosureEvent e = Inr ()" and "trim_space (er_DecisionBy e) = er_DecisionBy e"
    and "trim_space padded = er_DecisionBy e" and "padded \<noteq> er_DecisionBy e"
  shows "validateClosureEvent (e\<lparr>er_DecisionBy := padded\<rparr>) = Inr () \<and>
    event_record_json (e\<lparr>er_DecisionBy := padded\<rparr>) \<noteq> event_record_json e"
proof -
  have "audit_decision (e\<lparr>er_DecisionBy := padded\<rparr>) = audit_decision e"
    using assms(2,3) by (simp add: audit_decision_def)
  then have "closure_event_ok (e\<lparr>er_DecisionBy := padded\<rparr>)"
    using assms(1) closure_event_facts(4,5) [OF assms(1) [unfolded validateClosureEvent_Inr]]
    unfolding validateClosureEvent_Inr closure_event_ok_def Let_def by auto
  then show ?thesis using assms(4) by (simp add: validateClosureEvent_Inr event_record_json_def)
qed

theorem padded_audit_accepted_witness:
  "validateClosureEvent (sample_record\<lparr>er_DecisionBy := '' ann''\<rparr>) = Inr ()"
proof -
  have "er_DecisionBy sample_record = ''ann''" by (simp add: sample_record_def)
  then show ?thesis
    using padded_audit_accepted [of sample_record "'' ann''"] sample_record_ok
    by (simp add: validateClosureEvent_Inr trim_solid_literal)
qed

end
