(* ===== verification/ClosureReplay.thy ===== *)
theory ClosureReplay
  imports ClosureHistory
begin

text \<open>
  The replay of an accepted history and the check of the materialised members and edges against it:
  the replay implements the abstract lineage machine of \<open>Lineage\<close>, so that the supersedes relation of
  an accepted cut is acyclic and every lineage has a frontier.
\<close>

section \<open>The replay implements the lineage machine\<close>

definition edge_id :: "string \<times> string \<Rightarrow> string" where
  "edge_id l = StableCanonicalID ''canon-edge'' [fst l, snd l, CanonicalSupersedes]"

definition lineage_effect :: "lineage_state \<Rightarrow> ClosureEventRecord \<Rightarrow> lineage_state" where
  "lineage_effect a e =
    \<lparr>enrolled = (\<lambda>n. if n \<in> insert (er_ReplacementNodeID e) (set (elems (ev_BootstrappedTargetNodeIDs (er_Payload e))))
        then Some (er_LineageKey e) else enrolled a n),
     supersedes = supersedes a \<union> {er_ReplacementNodeID e} \<times> set (ev_TargetNodeIDs (er_Payload e))\<rparr>"

definition lineage_run :: "ClosureEventRecord list \<Rightarrow> lineage_state" where
  "lineage_run es = foldl lineage_effect lineage_empty es"

definition closure_sim :: "string \<Rightarrow> closure_replay \<Rightarrow> lineage_state \<Rightarrow> bool" where
  "closure_sim lk s a \<longleftrightarrow> (let (g, ed) = s in
    gomap g \<and> gomap ed \<and>
    (\<forall>k m. map_of g k = Some m \<longrightarrow> mb_NodeID m = k) \<and>
    enrolled a = (\<lambda>n. map_option mb_LineageKey (map_of g n)) \<and>
    (\<forall>k x. map_of ed k = Some x \<longrightarrow> k = eg_ID x \<and> eg_ID x = edge_id (eg_FromNodeID x, eg_ToNodeID x) \<and>
       (eg_FromNodeID x, eg_ToNodeID x) \<in> supersedes a \<and> enrolled a (eg_FromNodeID x) = Some lk) \<and>
    (\<forall>f t. (f, t) \<in> supersedes a \<longrightarrow> enrolled a f = Some lk \<longrightarrow> edge_id (f, t) \<in> keys ed) \<and> lineage_inv a)"

lemma enroll_targets:
  assumes "fold_res (enroll_target e) g ts = Inr g'" and "distinct ts" and "gomap g"
  defines "boot \<equiv> set (elems (ev_BootstrappedTargetNodeIDs (er_Payload e)))"
  shows "gomap g' \<and>
    (\<forall>t\<in>set ts. map_option mb_LineageKey (map_of g t) = (if t \<in> boot then None else Some (er_LineageKey e))) \<and>
    (\<forall>n. map_of g' n = (if n \<in> set ts \<inter> boot then
       Some \<lparr>mb_NodeID = n, mb_LineageKey = er_LineageKey e, mb_FirstAdmissionEventID = er_ID e,
             mb_WasBootstrapped = True\<rparr> else map_of g n))"
  using assms(1-3)
proof (induction ts arbitrary: g)
  case (Cons t ts)
  obtain h where h: "enroll_target e g t = Inr h" and run: "fold_res (enroll_target e) h ts = Inr g'"
    using Cons.prems(1) by (auto simp: and_then_Inr)
  have t: "map_option mb_LineageKey (map_of g t) = (if t \<in> boot then None else Some (er_LineageKey e))"
    and h_map: "map_of h n = (if n = t \<and> t \<in> boot then
       Some \<lparr>mb_NodeID = n, mb_LineageKey = er_LineageKey e, mb_FirstAdmissionEventID = er_ID e,
             mb_WasBootstrapped = True\<rparr> else map_of g n)"
    and "gomap h" for n
    using h Cons.prems(3) unfolding enroll_target_def Let_def boot_def [symmetric]
    by (auto simp: map_of_update split: option.splits if_splits)
  with Cons.IH [OF run] Cons.prems(2)
  have ih: "gomap g'" "\<forall>t\<in>set ts. map_option mb_LineageKey (map_of h t) = (if t \<in> boot then None else Some (er_LineageKey e))"
    "map_of g' n = (if n \<in> set ts \<inter> boot then
       Some \<lparr>mb_NodeID = n, mb_LineageKey = er_LineageKey e, mb_FirstAdmissionEventID = er_ID e,
             mb_WasBootstrapped = True\<rparr> else map_of h n)" for n by auto
  have "map_of h x = map_of g x" if "x \<in> set ts" for x using h_map Cons.prems(2) that by auto
  with ih t h_map show ?case by auto
qed simp

lemma put_edges:
  defines "put \<equiv> \<lambda>E. foldl (\<lambda>edges t. let edge = E t in AList.update (eg_ID edge) edge edges)"
  shows "(gomap ed \<longrightarrow> gomap (put E ed ts)) \<and> keys (put E ed ts) = keys ed \<union> (\<lambda>t. eg_ID (E t)) ` set ts \<and>
    (\<forall>k x. map_of (put E ed ts) k = Some x \<longrightarrow> map_of ed k = Some x \<or> (\<exists>t\<in>set ts. x = E t \<and> k = eg_ID (E t)))"
  unfolding put_def by (induction ts rule: rev_induct) (auto simp: Let_def map_of_update split: if_splits)

lemma replay_event_Inr:
  assumes "replay_event lk (g, ed) e = Inr (g', ed')" and ok: "closure_event_ok e" and "gomap g"
  defines "r \<equiv> er_ReplacementNodeID e" and "ts \<equiv> ev_TargetNodeIDs (er_Payload e)"
    and "boot \<equiv> set (elems (ev_BootstrappedTargetNodeIDs (er_Payload e)))"
  shows "map_of g r = None \<and> gomap g' \<and>
    (\<forall>t\<in>set ts. map_option mb_LineageKey (map_of g t) = (if t \<in> boot then None else Some (er_LineageKey e))) \<and>
    (\<forall>n. map_of g' n = (if n = r then
        Some \<lparr>mb_NodeID = r, mb_LineageKey = er_LineageKey e, mb_FirstAdmissionEventID = er_ID e, mb_WasBootstrapped = False\<rparr>
      else if n \<in> boot then
        Some \<lparr>mb_NodeID = n, mb_LineageKey = er_LineageKey e, mb_FirstAdmissionEventID = er_ID e, mb_WasBootstrapped = True\<rparr>
      else map_of g n)) \<and>
    ed' = (if er_LineageKey e = lk then
      foldl (\<lambda>edges t. let edge = expected_edge lk e t in AList.update (eg_ID edge) edge edges) ed ts else ed)"
proof -
  obtain h where fresh: "map_of g r = None" and run: "fold_res (enroll_target e) g ts = Inr h"
    and res: "g' = AList.update r \<lparr>mb_NodeID = r, mb_LineageKey = er_LineageKey e,
        mb_FirstAdmissionEventID = er_ID e, mb_WasBootstrapped = False\<rparr> h"
      "ed' = (if er_LineageKey e = lk then
        foldl (\<lambda>edges t. let edge = expected_edge lk e t in AList.update (eg_ID edge) edge edges) ed ts else ed)"
    using assms(1) unfolding replay_event.simps and_then_Inr if_Inl_eq_Inr r_def ts_def Let_def
    by (auto split: if_splits)
  have "distinct ts" "boot \<subseteq> set ts" using closure_event_target [OF ok] by (simp_all add: ts_def boot_def)
  with enroll_targets [OF run _ assms(3)] fresh res show ?thesis
    unfolding boot_def by (auto simp: map_of_update)
qed

lemma closure_sim_step:
  assumes ok: "closure_event_ok e" and sim: "closure_sim lk s a" and run: "replay_event lk s e = Inr s'"
  shows "lineage_step a (lineage_effect a e) \<and> closure_sim lk s' (lineage_effect a e)"
proof -
  define r where "r = er_ReplacementNodeID e"
  define ts where "ts = ev_TargetNodeIDs (er_Payload e)"
  define boot where "boot = set (elems (ev_BootstrappedTargetNodeIDs (er_Payload e)))"
  obtain g ed where s: "s = (g, ed)" by (cases s)
  obtain g' ed' where s': "s' = (g', ed')" by (cases s')
  have g: "gomap g" "gomap ed" "\<And>k m. map_of g k = Some m \<Longrightarrow> mb_NodeID m = k"
      "enrolled a = (\<lambda>n. map_option mb_LineageKey (map_of g n))"
    and edges: "\<And>k x. map_of ed k = Some x \<Longrightarrow> k = eg_ID x \<and> eg_ID x = edge_id (eg_FromNodeID x, eg_ToNodeID x) \<and>
       (eg_FromNodeID x, eg_ToNodeID x) \<in> supersedes a \<and> enrolled a (eg_FromNodeID x) = Some lk"
    and all: "\<And>f t. (f, t) \<in> supersedes a \<Longrightarrow> enrolled a f = Some lk \<Longrightarrow> edge_id (f, t) \<in> keys ed"
    and inv: "lineage_inv a"
    using sim unfolding closure_sim_def s Let_def prod.case by blast+
  from replay_event_Inr [OF run [unfolded s s'] ok g(1)]
  have fresh: "map_of g r = None" and g': "gomap g'"
    and targets: "\<And>t. t \<in> set ts \<Longrightarrow> enrolled a t = (if t \<in> boot then None else Some (er_LineageKey e))"
    and map: "\<And>n. map_of g' n = (if n = r then
        Some \<lparr>mb_NodeID = r, mb_LineageKey = er_LineageKey e, mb_FirstAdmissionEventID = er_ID e, mb_WasBootstrapped = False\<rparr>
      else if n \<in> boot then
        Some \<lparr>mb_NodeID = n, mb_LineageKey = er_LineageKey e, mb_FirstAdmissionEventID = er_ID e, mb_WasBootstrapped = True\<rparr>
      else map_of g n)"
    and ed': "ed' = (if er_LineageKey e = lk then
      foldl (\<lambda>edges t. let edge = expected_edge lk e t in AList.update (eg_ID edge) edge edges) ed ts else ed)"
    by (auto simp: r_def ts_def boot_def g(4))
  have effect: "enrolled (lineage_effect a e) = (\<lambda>n. if n \<in> insert r boot then Some (er_LineageKey e) else enrolled a n)"
      "supersedes (lineage_effect a e) = supersedes a \<union> {r} \<times> set ts"
    by (auto simp: lineage_effect_def r_def ts_def boot_def)
  have payload: "r \<notin> set ts" "ts \<noteq> []" "boot \<subseteq> set ts"
    using closure_event_target [OF ok] by (simp_all add: r_def ts_def boot_def)
  have "lineage_step a \<lparr>enrolled = (\<lambda>n. if n \<in> insert r boot then Some (er_LineageKey e) else enrolled a n),
      supersedes = supersedes a \<union> {r} \<times> set ts\<rparr>"
  proof (rule lineage_step.replace)
    show "enrolled a r = None" using fresh by (simp add: g(4))
    show "\<forall>t\<in>boot. enrolled a t = None" "\<forall>t\<in>set ts - boot. enrolled a t = Some (er_LineageKey e)"
      using targets payload(3) by auto
  qed (use payload in simp_all)
  then have step: "lineage_step a (lineage_effect a e)" by (simp add: lineage_effect_def r_def ts_def boot_def)
  have enr: "enrolled (lineage_effect a e) = (\<lambda>n. map_option mb_LineageKey (map_of g' n))"
    unfolding effect(1) map by (auto simp: g(4))
  have keyed: "mb_NodeID m = k" if "map_of g' k = Some m" for k m
    using that g(3) [of k m] by (auto simp: map split: if_splits)
  have keep: "enrolled (lineage_effect a e) f = enrolled a f" if "enrolled a f \<noteq> None" for f
  proof -
    have "f \<notin> boot" using that targets payload(3) by auto
    moreover have "f \<noteq> r" using that fresh by (auto simp: g(4))
    ultimately show ?thesis by (simp add: effect(1))
  qed
  have new: "eg_ID (expected_edge lk e t) = edge_id (r, t) \<and> eg_FromNodeID (expected_edge lk e t) = r \<and>
      eg_ToNodeID (expected_edge lk e t) = t" for t
    by (simp add: expected_edge_def edge_id_def r_def)
  have ed'_facts: "gomap ed'" "keys ed' = keys ed \<union> (if er_LineageKey e = lk then (\<lambda>t. edge_id (r, t)) ` set ts else {})"
    and ed'_map: "\<And>k x. map_of ed' k = Some x \<Longrightarrow> map_of ed k = Some x \<or>
        er_LineageKey e = lk \<and> (\<exists>t\<in>set ts. x = expected_edge lk e t \<and> k = edge_id (r, t))"
    using put_edges [of ed "expected_edge lk e" ts] g(2) new unfolding ed' by (auto split: if_splits)
  have "k = eg_ID x \<and> eg_ID x = edge_id (eg_FromNodeID x, eg_ToNodeID x) \<and>
       (eg_FromNodeID x, eg_ToNodeID x) \<in> supersedes (lineage_effect a e) \<and>
       enrolled (lineage_effect a e) (eg_FromNodeID x) = Some lk" if "map_of ed' k = Some x" for k x
    using ed'_map [OF that]
  proof
    assume "map_of ed k = Some x"
    with edges [OF this] show ?thesis using keep by (auto simp: effect(2))
  next
    assume "er_LineageKey e = lk \<and> (\<exists>t\<in>set ts. x = expected_edge lk e t \<and> k = edge_id (r, t))"
    then show ?thesis using new by (auto simp: effect)
  qed
  moreover have "edge_id (f, t) \<in> keys ed'"
    if ft: "(f, t) \<in> supersedes (lineage_effect a e)" "enrolled (lineage_effect a e) f = Some lk" for f t
  proof (cases "(f, t) \<in> supersedes a")
    case True
    then have "enrolled a f \<noteq> None" using inv by (auto simp: lineage_inv_def)
    with True show ?thesis using all keep ft(2) by (simp add: ed'_facts)
  next
    case False
    then have "f = r" "t \<in> set ts" using ft(1) by (auto simp: effect)
    then show ?thesis using ft(2) by (auto simp: ed'_facts effect)
  qed
  ultimately show ?thesis
    using step g' ed'_facts(1) keyed enr lineage_step_inv [OF inv step]
    unfolding closure_sim_def s' Let_def prod.case by blast
qed

interpretation closure_run: replay "replay_event lk" "([], [])" closure_event_ok lineage_effect "closure_sim lk"
  for lk
proof (unfold_locales, goal_cases)
  case 1
  show ?case by (simp add: closure_sim_def lineage_empty_def lineage_inv_def acyclic_def)
next
  case (2 e s a s')
  then show ?case by (rule closure_sim_step)
qed

section \<open>Materialised rows\<close>

lemma match_rows_Inr:
  "match_rows d f key m prev rows = Inr u \<longleftrightarrow>
    (\<forall>r\<in>set rows. map_of m (key r) = Some r) \<and>
    \<not> adjacent_dup key ((case prev of None \<Rightarrow> [] | Some p \<Rightarrow> [p]) @ rows)"
proof (induction rows arbitrary: prev)
  case Nil
  show ?case by (cases prev) simp_all
next
  case (Cons r rows)
  show ?case using Cons.IH [of "Some r"] by (cases prev) auto
qed

text \<open>What the comparison of the two tables gives, for rows that were sorted by their key.\<close>

lemma match_rows_table:
  fixes key :: "'a \<Rightarrow> string"
  assumes "match_rows d f key m None rows = Inr ()" and "sorted (map key rows)" and "gomap m"
    and "length rows = length m" and "\<And>k x. map_of m k = Some x \<Longrightarrow> key x = k"
  shows "distinct (map key rows)" and "set (map key rows) = keys m"
    and "\<And>k. map_of m k = Some x \<longleftrightarrow> x \<in> set rows \<and> k = key x"
proof -
  have rows: "\<forall>r\<in>set rows. map_of m (key r) = Some r" and "\<not> adjacent_dup key rows"
    using assms(1) by (simp_all add: match_rows_Inr)
  then show dist: "distinct (map key rows)" using adjacent_dup_sorted assms(2) by blast
  have "\<forall>(k, v)\<in>set m. key v = k" using assms(5) map_of_is_SomeI [OF assms(3)] by blast
  then have "set rows = snd ` set m" using dist assms(4) rows by (intro rows_complete [OF assms(3)])
  then have "map_of m k = Some x \<Longrightarrow> x \<in> set rows" for k x
    using map_of_gomap [OF assms(3)] by force
  then show iff: "map_of m k = Some x \<longleftrightarrow> x \<in> set rows \<and> k = key x" for k x
    using rows assms(5) by blast
  then show "set (map key rows) = keys m" by (auto simp: keys_Some)
qed

lemma lineage_members_filter:
  assumes "gomap g"
  shows "map_of (filter (\<lambda>(k, m). mb_LineageKey m = lk) g) n = Some m \<longleftrightarrow> map_of g n = Some m \<and> mb_LineageKey m = lk"
  by (simp only: map_of_filter_gomap [OF assms] split: option.split) auto

text \<open>Rows that are the selected lineage of an abstract state.\<close>

definition materialized ::
  "string \<Rightarrow> lineage_state \<Rightarrow> ClosureMemberRecord list \<Rightarrow> ClosureEdgeRecord list \<Rightarrow> bool"
where
  "materialized lk a ms eds \<longleftrightarrow>
    distinct (map mb_NodeID ms) \<and> set (map mb_NodeID ms) = members_of a lk \<and> distinct (map eg_ID eds) \<and>
    (\<forall>x\<in>set eds. eg_ID x = edge_id (eg_FromNodeID x, eg_ToNodeID x) \<and>
      (eg_FromNodeID x, eg_ToNodeID x) \<in> supersedes a \<and> eg_FromNodeID x \<in> members_of a lk) \<and>
    (\<forall>f t. (f, t) \<in> supersedes a \<longrightarrow> f \<in> members_of a lk \<longrightarrow> edge_id (f, t) \<in> eg_ID ` set eds)"

lemma rows_materialized:
  assumes sim: "closure_sim lk (g, ed) a"
    and count: "length ms = length (filter (\<lambda>(nodeID, member). mb_LineageKey member = lk) g)" "length eds = length ed"
    and ms: "match_rows d f mb_NodeID (filter (\<lambda>(nodeID, member). mb_LineageKey member = lk) g) None ms = Inr ()"
    and eds: "match_rows d' f' eg_ID ed None eds = Inr ()"
    and sorted: "sorted (map mb_NodeID ms)" "sorted (map eg_ID eds)"
  shows "materialized lk a ms eds"
proof -
  have g: "gomap g" "gomap ed" "\<And>k m. map_of g k = Some m \<Longrightarrow> mb_NodeID m = k"
    "enrolled a = (\<lambda>n. map_option mb_LineageKey (map_of g n))"
    and edges: "\<And>k x. map_of ed k = Some x \<Longrightarrow> k = eg_ID x \<and> eg_ID x = edge_id (eg_FromNodeID x, eg_ToNodeID x) \<and>
       (eg_FromNodeID x, eg_ToNodeID x) \<in> supersedes a \<and> enrolled a (eg_FromNodeID x) = Some lk"
    and all: "\<And>f t. (f, t) \<in> supersedes a \<Longrightarrow> enrolled a f = Some lk \<Longrightarrow> edge_id (f, t) \<in> keys ed"
    using sim unfolding closure_sim_def Let_def prod.case by blast+
  note filter_lk = lineage_members_filter [OF g(1), of lk]
  note mt = match_rows_table [OF ms sorted(1) gomap_filter [OF g(1)] count(1)]
  have keyed: "map_of (filter (\<lambda>(nodeID, member). mb_LineageKey member = lk) g) k = Some x \<Longrightarrow> mb_NodeID x = k" for k x
    using filter_lk g(3) by blast
  have iff: "x \<in> set ms \<and> k = mb_NodeID x \<longleftrightarrow> map_of g k = Some x \<and> mb_LineageKey x = lk" for k x
    using mt(3) [OF keyed] filter_lk by blast
  have members: "set (map mb_NodeID ms) = members_of a lk"
  proof (rule set_eqI)
    fix n
    have "n \<in> members_of a lk \<longleftrightarrow> (\<exists>m. map_of g n = Some m \<and> mb_LineageKey m = lk)"
      unfolding members_of_def g(4) by (cases "map_of g n") auto
    also have "\<dots> \<longleftrightarrow> n \<in> set (map mb_NodeID ms)" using iff [of _ n] by auto
    finally show "n \<in> set (map mb_NodeID ms) \<longleftrightarrow> n \<in> members_of a lk" by blast
  qed
  have ekey: "map_of ed k = Some x \<Longrightarrow> eg_ID x = k" for k x using edges by blast
  note et = match_rows_table [OF eds sorted(2) g(2) count(2) ekey]
  have "\<forall>x\<in>set eds. eg_ID x = edge_id (eg_FromNodeID x, eg_ToNodeID x) \<and>
      (eg_FromNodeID x, eg_ToNodeID x) \<in> supersedes a \<and> eg_FromNodeID x \<in> members_of a lk"
    using et(3) edges unfolding members_of_def by blast
  moreover have "\<forall>f t. (f, t) \<in> supersedes a \<longrightarrow> f \<in> members_of a lk \<longrightarrow> edge_id (f, t) \<in> eg_ID ` set eds"
    using all et(2) unfolding members_of_def by (simp only: set_map mem_Collect_eq) blast
  ultimately show ?thesis
    unfolding materialized_def using members mt(1) [OF keyed] et(1) by blast
qed

text \<open>An accepted materialisation is the selected lineage of the abstract run.\<close>

lemma materialization_ok:
  assumes run: "validateClosureMaterialization lk es ms eds = Inr g" and ok: "\<forall>e\<in>set es. closure_event_ok e"
    and sorted: "sorted (map mb_NodeID ms)" "sorted (map eg_ID eds)"
  shows "reachable (lineage_run es)" and "ms \<noteq> []" and "materialized lk (lineage_run es) ms eds"
proof -
  obtain ed where replay: "fold_res (replay_event lk) ([], []) es = Inr (g, ed)"
    and count: "filter (\<lambda>(nodeID, member). mb_LineageKey member = lk) g \<noteq> []"
      "length ms = length (filter (\<lambda>(nodeID, member). mb_LineageKey member = lk) g)" "length eds = length ed"
    and ms: "match_rows ''duplicate member'' ''member differs from event replay'' mb_NodeID
      (filter (\<lambda>(nodeID, member). mb_LineageKey member = lk) g) None ms = Inr ()"
    and eds: "match_rows ''duplicate edge'' ''edge differs from event replay'' eg_ID ed None eds = Inr ()"
    using run unfolding validateClosureMaterialization_def
    by (auto simp: and_then_Inr if_Inl_eq_Inr Let_def split: prod.splits)
  from closure_run.simulated [OF replay ok]
  have a: "reachable (lineage_run es)" "closure_sim lk (g, ed) (lineage_run es)" by (simp_all add: lineage_run_def)
  then show "reachable (lineage_run es)" by simp
  show "ms \<noteq> []" using count(1,2) by auto
  show "materialized lk (lineage_run es) ms eds" by (rule rows_materialized [OF a(2) count(2,3) ms eds sorted])
qed

text \<open>Edges of a reachable state form an acyclic relation over the members: the cycle check cannot fire.\<close>

lemma materialized_acyclic:
  assumes "reachable a" and "materialized lk a ms eds"
  shows "\<not> closureEdgesContainCycle ms eds"
proof -
  let ?E = "(\<lambda>e. (eg_FromNodeID e, eg_ToNodeID e)) ` set eds"
  have inv: "lineage_inv a" by (rule reachable_inv [OF assms(1)])
  have m: "distinct (map mb_NodeID ms)" "set (map mb_NodeID ms) = members_of a lk"
    "\<forall>x\<in>set eds. (eg_FromNodeID x, eg_ToNodeID x) \<in> supersedes a \<and> eg_FromNodeID x \<in> members_of a lk"
    using assms(2) unfolding materialized_def by blast+
  then have "?E \<subseteq> supersedes a" by blast
  then have "acyclic ?E" using inv by (auto simp: lineage_inv_def intro: acyclic_subset)
  moreover have "fst ` ?E \<union> snd ` ?E \<subseteq> set (map mb_NodeID ms)"
    unfolding m(2) using inv m(3) by (fastforce simp: lineage_inv_def members_of_def)
  ultimately show ?thesis
    unfolding closureEdgesContainCycle_def using m(1) by (subst contains_cycle_iff) auto
qed

section \<open>Object claims\<close>

definition claim_ok :: "string \<Rightarrow> string set \<Rightarrow> (string, ClosureMemberRecord) gomap \<Rightarrow> ObjectClaimClassification \<Rightarrow> bool" where
  "claim_ok lk M g c \<longleftrightarrow> record_id ''canon-node:'' (oc_NodeID c) \<and>
    (if oc_LineageKey c = [] then map_of g (oc_NodeID c) = None
     else validLineageKey (oc_LineageKey c) \<and>
       map_option mb_LineageKey (map_of g (oc_NodeID c)) = Some (oc_LineageKey c) \<and>
       (oc_LineageKey c = lk \<longrightarrow> oc_NodeID c \<in> M))"

lemma claim_loop_Inr:
  "claim_loop lk M g prev (cl, co) cs = Inr r \<longleftrightarrow>
    (\<forall>c\<in>set cs. claim_ok lk M g c) \<and> \<not> adjacent_dup oc_NodeID ((case prev of None \<Rightarrow> [] | Some p \<Rightarrow> [p]) @ cs) \<and>
    r = (cl \<union> {oc_NodeID c |c. c \<in> set cs \<and> oc_LineageKey c \<noteq> [] \<and> oc_LineageKey c = lk},
         co \<and> (\<forall>c\<in>set cs. oc_LineageKey c \<noteq> []))"
proof (induction cs arbitrary: prev cl co)
  case Nil
  show ?case by (cases prev) auto
next
  case (Cons c cs)
  show ?case
  proof (cases "claim_ok lk M g c \<and> map_option oc_NodeID prev \<noteq> Some (oc_NodeID c)")
    case True
    then have "claim_loop lk M g prev (cl, co) (c # cs) =
      claim_loop lk M g (Some c)
        (if oc_LineageKey c \<noteq> [] \<and> oc_LineageKey c = lk then insert (oc_NodeID c) cl else cl,
         co \<and> oc_LineageKey c \<noteq> []) cs"
      by (auto simp: claim_ok_def validateRecordID_def record_id_def split: option.splits if_splits)
    with True show ?thesis
      by (cases prev) (auto simp: Cons.IH)
  next
    case False
    have "claim_loop lk M g prev (cl, co) (c # cs) \<noteq> Inr r"
    proof
      assume "claim_loop lk M g prev (cl, co) (c # cs) = Inr r"
      with False show False
        by (auto simp: claim_ok_def and_then_Inr wrap_Inr validateRecordID_Inr split: option.splits if_splits)
    qed
    with False show ?thesis by (cases prev) auto
  qed
qed

lemma validateObjectClaimCoverage_Inr:
  assumes "sorted (map oc_NodeID cs)" and "lk \<noteq> []"
  shows "validateObjectClaimCoverage lk ms g cs = Inr complete \<longleftrightarrow>
    distinct (map oc_NodeID cs) \<and> (\<forall>c\<in>set cs. claim_ok lk (set (map mb_NodeID ms)) g c) \<and>
    (\<forall>m\<in>set ms. \<exists>c\<in>set cs. oc_NodeID c = mb_NodeID m \<and> oc_LineageKey c = lk) \<and>
    (complete \<longleftrightarrow> (\<forall>c\<in>set cs. oc_LineageKey c \<noteq> []))"
proof -
  have member: "set (map mb_NodeID ms) \<subseteq> {oc_NodeID c |c. c \<in> set cs \<and> oc_LineageKey c \<noteq> [] \<and> oc_LineageKey c = lk} \<longleftrightarrow>
      (\<forall>m\<in>set ms. \<exists>c\<in>set cs. oc_NodeID c = mb_NodeID m \<and> oc_LineageKey c = lk)"
  proof -
    have "x \<in> {oc_NodeID c |c. c \<in> set cs \<and> oc_LineageKey c \<noteq> [] \<and> oc_LineageKey c = lk} \<longleftrightarrow>
      (\<exists>c\<in>set cs. oc_NodeID c = x \<and> oc_LineageKey c = lk)" for x
      using assms(2) by auto
    then show ?thesis unfolding set_map image_subset_iff by simp
  qed
  show ?thesis
    unfolding validateObjectClaimCoverage_def Let_def and_then_Inr claim_loop_Inr member [symmetric]
    using adjacent_dup_sorted [OF assms(1)] by (auto simp: if_Inl_eq_Inr)
qed

end
