(* ===== verification/ClosureProjection.thy ===== *)
theory ClosureProjection
  imports ClosureReplay
begin

text \<open>
  The currentness projection: what an accepted cut consists of, that the projection is the frontier
  of the abstract lineage, that it does not depend on the order of the rows, and how it fails.
\<close>

section \<open>The accepted cut\<close>

lemma cloneClosureEvents_id [simp]: "cloneClosureEvents es = es"
proof -
  have "cloneClosureStrings s = s" for s by (simp add: cloneClosureStrings_def split: option.split)
  then show ?thesis by (simp add: cloneClosureEvents_def)
qed

definition cut_events :: "ClosureCutInput \<Rightarrow> ClosureEventRecord list" where
  "cut_events i = sort_key (\<lambda>e. (er_Revision e, er_ID e)) (ci_Events i)"

definition cut_members :: "ClosureCutInput \<Rightarrow> ClosureMemberRecord list" where
  "cut_members i = sort_key mb_NodeID (ci_Members i)"

definition cut_edges :: "ClosureCutInput \<Rightarrow> ClosureEdgeRecord list" where
  "cut_edges i = sort_key eg_ID (ci_Edges i)"

definition cut_claims :: "ClosureCutInput \<Rightarrow> ObjectClaimClassification list" where
  "cut_claims i = sort_key oc_NodeID (ci_ObjectClaims i)"

definition canonical_cut :: "ClosureCutInput \<Rightarrow> bool \<Rightarrow> canonicalClosureCut" where
  "canonical_cut i complete =
    (let historyHash = closureHistoryHash (ci_Head i) (cut_events i)
     in \<lparr>cc_lineageKey = ci_LineageKey i, cc_basis = ci_Basis i, cc_head = ci_Head i, cc_events = cut_events i,
         cc_members = cut_members i, cc_edges = cut_edges i, cc_objectClaims = cut_claims i,
         cc_historyHash = historyHash,
         cc_cutHash = closureCutHash (ci_LineageKey i) (ci_Basis i) (ci_Head i) historyHash
           (nil_append (cut_members i)) (nil_append (cut_edges i)),
         cc_objectClaimManifestHash = closureObjectManifestHash (ci_Basis i) (nil_append (cut_claims i)),
         cc_coverageComplete = complete\<rparr>)"

lemma cut_Inr:
  "validateAndCanonicalizeClosureCut i = Inr c \<longleftrightarrow>
    length (ci_Events i) \<le> MaxClosureEvents \<and> length (ci_Members i) \<le> MaxClosureMembers \<and>
    length (ci_Edges i) \<le> MaxClosureEdges \<and> length (ci_ObjectClaims i) \<le> MaxClosureObjectClaims \<and>
    Basis_Normalize (ci_Basis i) = ci_Basis i \<and> Basis_Key (ci_Basis i) = Inr (ci_LineageKey i) \<and>
    validateClosureHead (ci_Head i) (length (ci_Events i)) = Inr () \<and>
    validateClosureHistory (ci_Head i) (cut_events i) = Inr () \<and>
    (\<exists>g complete. validateClosureMaterialization (ci_LineageKey i) (cut_events i) (cut_members i) (cut_edges i) = Inr g \<and>
      \<not> closureEdgesContainCycle (cut_members i) (cut_edges i) \<and>
      validateObjectClaimCoverage (ci_LineageKey i) (cut_members i) g (cut_claims i) = Inr complete \<and>
      c = canonical_cut i complete)"
  unfolding validateAndCanonicalizeClosureCut_def Let_def cloneClosureEvents_id canonical_cut_def
    cut_events_def [symmetric] cut_members_def [symmetric] cut_edges_def [symmetric] cut_claims_def [symmetric]
  by (auto simp: and_then_Inr if_Inl_eq_Inr not_less)

lemma cut_events_ok:
  assumes "validateAndCanonicalizeClosureCut i = Inr c"
  shows "\<forall>e\<in>set (cut_events i). closure_event_ok e" and "distinct (map er_ID (cut_events i))"
    and "ci_LineageKey i \<noteq> []"
  using assms chained_events
  by (auto simp: cut_Inr validateClosureHistory_Inr history_ok_def Basis_Key_Inr lineage_key_def)

lemma cut_sorted:
  "sorted (map mb_NodeID (cut_members i))" "sorted (map eg_ID (cut_edges i))" "sorted (map oc_NodeID (cut_claims i))"
  by (simp_all add: cut_members_def cut_edges_def cut_claims_def)

lemma ProjectCurrentness_Inr:
  "ProjectCurrentness i = Inr p \<longleftrightarrow> (\<exists>c. validateAndCanonicalizeClosureCut i = Inr c \<and>
    p = (let b = buildCurrentnessProjection c; fs = frontier_nodes (cc_edges c) (cc_members c)
         in if cc_coverageComplete c
            then b\<lparr>cp_Nodes := Some (map (settle (length fs) \<circ> node_currentness (cc_edges c)) (cc_members c)),
                   cp_ClosureAvailable := True, cp_Witness := Some (newClosureWitness c fs)\<rparr>
            else b))"
  by (auto simp: ProjectCurrentness_def and_then_Inr Let_def buildCurrentnessProjection_def split: if_splits)

section \<open>Order independence\<close>

definition same_rows :: "ClosureCutInput \<Rightarrow> ClosureCutInput \<Rightarrow> bool" where
  "same_rows i j \<longleftrightarrow> ci_LineageKey i = ci_LineageKey j \<and> ci_Basis i = ci_Basis j \<and> ci_Head i = ci_Head j \<and>
    mset (ci_Events i) = mset (ci_Events j) \<and> mset (ci_Members i) = mset (ci_Members j) \<and>
    mset (ci_Edges i) = mset (ci_Edges j) \<and> mset (ci_ObjectClaims i) = mset (ci_ObjectClaims j)"

lemma cut_distinct:
  assumes "validateAndCanonicalizeClosureCut i = Inr c"
  shows "distinct (map (\<lambda>e. (er_Revision e, er_ID e)) (ci_Events i))" and "distinct (map mb_NodeID (ci_Members i))"
    and "distinct (map eg_ID (ci_Edges i))" and "distinct (map oc_NodeID (ci_ObjectClaims i))"
proof -
  obtain g complete where m: "validateClosureMaterialization (ci_LineageKey i) (cut_events i) (cut_members i) (cut_edges i) = Inr g"
    and cl: "validateObjectClaimCoverage (ci_LineageKey i) (cut_members i) g (cut_claims i) = Inr complete"
    using assms by (auto simp: cut_Inr)
  have "distinct (map er_ID (ci_Events i))"
    using cut_events_ok(2) [OF assms] by (simp add: cut_events_def distinct_sort_key_map)
  then show "distinct (map (\<lambda>e. (er_Revision e, er_ID e)) (ci_Events i))" by (auto simp: distinct_map inj_on_def)
  show "distinct (map mb_NodeID (ci_Members i))" "distinct (map eg_ID (ci_Edges i))"
    using materialization_ok(3) [OF m cut_events_ok(1) [OF assms] cut_sorted(1,2)]
    by (simp_all add: materialized_def cut_members_def cut_edges_def distinct_sort_key_map)
  show "distinct (map oc_NodeID (ci_ObjectClaims i))"
    using cl validateObjectClaimCoverage_Inr [OF cut_sorted(3) cut_events_ok(3) [OF assms]]
    by (simp add: cut_claims_def distinct_sort_key_map)
qed

lemma cut_order_free:
  assumes "validateAndCanonicalizeClosureCut i = Inr c" and "same_rows i j"
  shows "validateAndCanonicalizeClosureCut j = Inr c"
proof -
  note d = cut_distinct [OF assms(1)]
  have eq: "cut_events j = cut_events i" "cut_members j = cut_members i" "cut_edges j = cut_edges i" "cut_claims j = cut_claims i"
    using assms(2) d unfolding same_rows_def cut_events_def cut_members_def cut_edges_def cut_claims_def
    by (metis sort_key_unique)+
  have len: "length (ci_Events j) = length (ci_Events i)" "length (ci_Members j) = length (ci_Members i)"
    "length (ci_Edges j) = length (ci_Edges i)" "length (ci_ObjectClaims j) = length (ci_ObjectClaims i)"
    using assms(2) unfolding same_rows_def by (metis mset_eq_length)+
  have rest: "ci_LineageKey j = ci_LineageKey i" "ci_Basis j = ci_Basis i" "ci_Head j = ci_Head i"
    using assms(2) by (simp_all add: same_rows_def)
  have "canonical_cut j complete = canonical_cut i complete" for complete
    unfolding canonical_cut_def eq rest ..
  then show ?thesis using assms(1) unfolding cut_Inr eq len rest by simp
qed

section \<open>Frontier and statuses\<close>

lemma incoming_empty: "incoming_edges eds n = [] \<longleftrightarrow> (\<forall>e\<in>set eds. eg_ToNodeID e \<noteq> n)"
  by (simp add: incoming_edges_def filter_empty_conv)

lemma materialized_frontier:
  assumes reach: "reachable a" and mat: "materialized lk a ms eds" and inj: "inj_on edge_id (supersedes a)"
  shows "n \<in> members_of a lk \<Longrightarrow> incoming_edges eds n = [] \<longleftrightarrow> n \<in> frontier_of a lk"
    and "set (frontier_nodes eds ms) = frontier_of a lk" and "distinct (frontier_nodes eds ms)"
proof -
  have inv: "lineage_inv a" by (rule reachable_inv [OF reach])
  have m: "distinct (map mb_NodeID ms)" "set (map mb_NodeID ms) = members_of a lk"
    and edges: "\<And>x. x \<in> set eds \<Longrightarrow> eg_ID x = edge_id (eg_FromNodeID x, eg_ToNodeID x) \<and>
      (eg_FromNodeID x, eg_ToNodeID x) \<in> supersedes a"
    and all: "\<And>f t. (f, t) \<in> supersedes a \<Longrightarrow> f \<in> members_of a lk \<Longrightarrow> edge_id (f, t) \<in> eg_ID ` set eds"
    using mat unfolding materialized_def by blast+
  show inc: "incoming_edges eds n = [] \<longleftrightarrow> n \<in> frontier_of a lk" if n: "n \<in> members_of a lk" for n
  proof
    assume none: "incoming_edges eds n = []"
    have "(f, n) \<notin> supersedes a" for f
    proof
      assume f: "(f, n) \<in> supersedes a"
      then have "f \<in> members_of a lk" using inv n by (auto simp: lineage_inv_def members_of_def)
      then obtain x where x: "x \<in> set eds" "eg_ID x = edge_id (f, n)" using all f by force
      then have "(eg_FromNodeID x, eg_ToNodeID x) = (f, n)"
        using edges f inj by (metis inj_onD)
      then show False using none x(1) by (auto simp: incoming_empty)
    qed
    with n show "n \<in> frontier_of a lk" by (simp add: frontier_of_def)
  next
    assume "n \<in> frontier_of a lk"
    then show "incoming_edges eds n = []" using edges by (auto simp: incoming_empty frontier_of_def)
  qed
  have "frontier_of a lk \<subseteq> members_of a lk" by (auto simp: frontier_of_def)
  have "set (frontier_nodes eds ms) = {n \<in> set (map mb_NodeID ms). incoming_edges eds n = []}"
    by (auto simp: frontier_nodes_def)
  also have "\<dots> = frontier_of a lk" unfolding m(2) using inc \<open>frontier_of a lk \<subseteq> members_of a lk\<close> by blast
  finally show "set (frontier_nodes eds ms) = frontier_of a lk" .
  show "distinct (frontier_nodes eds ms)" using m(1) by (simp add: frontier_nodes_def distinct_map_filter)
qed

text \<open>The status that a node must have, given the frontier and whether the closure is available.\<close>

definition expected_status :: "string set \<Rightarrow> bool \<Rightarrow> string \<Rightarrow> CurrentnessStatus" where
  "expected_status frontier available n =
    (if n \<notin> frontier then CurrentnessSuperseded
     else if \<not> available then CurrentnessUnknown
     else if frontier = {n} then CurrentnessCurrent else CurrentnessAmbiguous)"

lemma frontier_singleton:
  assumes "distinct fs" and "set fs = F" and "n \<in> F"
  shows "length fs = 1 \<longleftrightarrow> F = {n}"
proof
  assume "length fs = 1"
  then obtain x where "fs = [x]" by (cases fs) auto
  with assms show "F = {n}" by auto
next
  assume "F = {n}"
  with assms show "length fs = 1" by (metis distinct_card card_1_singleton_iff One_nat_def)
qed

lemma status_of_member:
  assumes "incoming_edges eds (mb_NodeID m) = [] \<longleftrightarrow> mb_NodeID m \<in> F" and "distinct fs" and "set fs = F"
  shows "nc_Status ((if avail then settle (length fs) else id) (node_currentness eds m)) = expected_status F avail (mb_NodeID m)"
    and "nc_NodeID ((if avail then settle (length fs) else id) (node_currentness eds m)) = mb_NodeID m"
  using assms frontier_singleton [OF assms(2,3), of "mb_NodeID m"]
  by (auto simp: node_currentness_def settle_def expected_status_def Let_def)

text \<open>The nodes of a projection, as both closure projections compute them from materialised rows.\<close>

lemma projected_nodes:
  fixes avail :: bool
  assumes "reachable a" and mat: "materialized lk a ms eds" and "inj_on edge_id (supersedes a)"
    and sorted: "sorted (map mb_NodeID ms)"
  defines "ns \<equiv> map (\<lambda>m. (if avail then settle (length (frontier_nodes eds ms)) else id) (node_currentness eds m)) ms"
  shows "map nc_NodeID ns = sorted_list_of_set (members_of a lk)"
    and "map nc_Status ns = map (expected_status (frontier_of a lk) avail) (sorted_list_of_set (members_of a lk))"
proof -
  note f = materialized_frontier [OF assms(1-3)]
  have m: "distinct (map mb_NodeID ms)" "set (map mb_NodeID ms) = members_of a lk"
    using mat unfolding materialized_def by blast+
  then have ids: "sorted_list_of_set (members_of a lk) = map mb_NodeID ms"
    using sorted by (metis sorted_list_of_set.idem_if_sorted_distinct)
  have "incoming_edges eds (mb_NodeID x) = [] \<longleftrightarrow> mb_NodeID x \<in> frontier_of a lk" if "x \<in> set ms" for x
    using f(1) m(2) that by force
  note st = status_of_member [OF this f(3,2), of _ avail]
  show "map nc_NodeID ns = sorted_list_of_set (members_of a lk)"
    and "map nc_Status ns = map (expected_status (frontier_of a lk) avail) (sorted_list_of_set (members_of a lk))"
    unfolding ids ns_def map_map by (auto simp: st simp del: if_split)
qed

section \<open>Errors\<close>

lemma fails_validateClosureEvent [fails]: "fails_with {ErrInvalidClosureCut} (validateClosureEvent e)"
  unfolding validateClosureEvent_def Let_def
  by (intro fails_and_then fails_wrap fails_each) (auto split: prod.splits if_splits)

lemma fails_history_loop [fails]: "fails_with {ErrInvalidClosureCut} (closure_history_loop n p A B C es)"
  by (induction es arbitrary: n p A B C)
    (auto intro!: fails_and_then fails_validateClosureEvent split: option.split)

lemma fails_match_rows [fails]: "fails_with {ErrInvalidClosureCut} (match_rows d f key m prev rows)"
  by (induction rows arbitrary: prev) auto

lemma fails_materialization [fails]: "fails_with {ErrInvalidClosureCut} (validateClosureMaterialization lk es ms eds)"
proof -
  have "fails_with {ErrInvalidClosureCut} (enroll_target e g t)" for e g t
    by (auto simp: enroll_target_def Let_def split: option.split)
  then have "fails_with {ErrInvalidClosureCut} (replay_event lk s e)" for s e
    by (cases s) (auto simp: Let_def intro!: fails_and_then fails_fold_res)
  then show ?thesis
    unfolding validateClosureMaterialization_def Let_def
    by (intro fails_and_then fails_fold_res) (auto split: prod.split intro!: fails_and_then fails_match_rows)
qed

lemma fails_coverage [fails]: "fails_with {ErrInvalidClosureCut} (validateObjectClaimCoverage lk ms g cs)"
proof -
  have "fails_with {ErrInvalidClosureCut} (claim_loop lk M g prev s cs)" for M prev s
    by (induction cs arbitrary: prev s)
      (auto simp: claim_loop.simps split_paired_all intro!: fails_and_then fails_wrap split: option.split)
  then show ?thesis
    unfolding validateObjectClaimCoverage_def Let_def by (intro fails_and_then) (auto split: prod.split)
qed

lemma fails_history:
  assumes "validateClosureHead h (length es) = Inr ()"
  shows "fails_with {ErrInvalidClosureCut} (validateClosureHistory h es)"
proof -
  have "es \<noteq> []" using assms by (auto simp: validateClosureHead_def split: if_splits)
  then show ?thesis
    unfolding validateClosureHistory_def by (intro fails_and_then fails_history_loop) auto
qed

lemma fails_cut:
  assumes "length (ci_Events i) \<le> MaxClosureEvents" and "length (ci_Members i) \<le> MaxClosureMembers"
    and "length (ci_Edges i) \<le> MaxClosureEdges" and "length (ci_ObjectClaims i) \<le> MaxClosureObjectClaims"
  shows "fails_with {ErrInvalidClosureCut} (ProjectCurrentness i)"
proof -
  have head: "fails_with {ErrInvalidClosureCut} (validateClosureHead h n)" for h n
    by (auto simp: validateClosureHead_def)
  have hist: "validateClosureHead h (length es) = Inr x \<Longrightarrow> fails_with {ErrInvalidClosureCut} (validateClosureHistory h (sort_key f es))" for h es x f
    using fails_history [of h "sort_key f es"] by simp
  have "fails_with {ErrInvalidClosureCut} (validateAndCanonicalizeClosureCut i)"
    unfolding validateAndCanonicalizeClosureCut_def Let_def cloneClosureEvents_id
    using assms by (intro fails_if fails_and_then fails_materialization fails_coverage head hist) auto
  then show ?thesis
    unfolding ProjectCurrentness_def Let_def by (intro fails_and_then) auto
qed

section \<open>A sample cut\<close>

definition sample_cut :: ClosureCutInput where
  "sample_cut = \<lparr>ci_LineageKey = lineage_key sample_basis, ci_Basis = sample_basis, ci_Head = sample_head,
    ci_Events = [sample_record],
    ci_Members = [\<lparr>mb_NodeID = ''canon-node:b'', mb_LineageKey = lineage_key sample_basis,
                   mb_FirstAdmissionEventID = er_ID sample_record, mb_WasBootstrapped = False\<rparr>,
                  \<lparr>mb_NodeID = ''canon-node:a'', mb_LineageKey = lineage_key sample_basis,
                   mb_FirstAdmissionEventID = er_ID sample_record, mb_WasBootstrapped = True\<rparr>],
    ci_Edges = [expected_edge (lineage_key sample_basis) sample_record ''canon-node:a''],
    ci_ObjectClaims = [\<lparr>oc_NodeID = ''canon-node:a'', oc_LineageKey = lineage_key sample_basis\<rparr>,
                       \<lparr>oc_NodeID = ''canon-node:b'', oc_LineageKey = lineage_key sample_basis\<rparr>]\<rparr>"

lemma sample_record_simps:
  "er_ReplacementNodeID sample_record = ''canon-node:b''" "er_LineageKey sample_record = lineage_key sample_basis"
  "ev_TargetNodeIDs (er_Payload sample_record) = [''canon-node:a'']"
  "ev_BootstrappedTargetNodeIDs (er_Payload sample_record) = Some [''canon-node:a'']"
  by (simp_all add: sample_record_def sample_event_def)

lemma validLineageKey_lineage_key [simp]: "validLineageKey (lineage_key b)"
proof -
  have "has_prefix (p @ s) p" "trim_prefix (p @ s) p = s" for p s :: string by simp_all
  then show ?thesis unfolding validLineageKey_def lineage_key_def by (simp only: validHash_hashJSON simp_thms)
qed

lemma sample_cut_lists:
  "cut_events sample_cut = [sample_record]"
  "cut_members sample_cut = rev (ci_Members sample_cut)" "cut_edges sample_cut = ci_Edges sample_cut"
  "cut_claims sample_cut = ci_ObjectClaims sample_cut"
  by (simp_all add: cut_events_def cut_members_def cut_edges_def cut_claims_def sample_cut_def)

lemma sample_claims:
  "validateRecordID name ''canon-node:a'' ''canon-node:'' = Inr ()"
  "validateRecordID name ''canon-node:b'' ''canon-node:'' = Inr ()" "lineage_key b \<noteq> []"
  by (simp_all add: validateRecordID_Inr sample_ids lineage_key_def)

lemma sample_materialization:
  "\<exists>g. validateClosureMaterialization (ci_LineageKey sample_cut) (cut_events sample_cut) (cut_members sample_cut)
      (cut_edges sample_cut) = Inr g \<and>
    validateObjectClaimCoverage (ci_LineageKey sample_cut) (cut_members sample_cut) g (cut_claims sample_cut) = Inr True"
  unfolding sample_cut_lists
  by (simp add: sample_cut_def validateClosureMaterialization_def enroll_target_def sample_record_simps
      expected_edge_def validateObjectClaimCoverage_def sample_claims Let_def)

lemma sample_cut_ok: "\<exists>c. validateAndCanonicalizeClosureCut sample_cut = Inr c \<and> cc_coverageComplete c"
proof -
  obtain g where g: "validateClosureMaterialization (ci_LineageKey sample_cut) (cut_events sample_cut) (cut_members sample_cut)
      (cut_edges sample_cut) = Inr g"
    "validateObjectClaimCoverage (ci_LineageKey sample_cut) (cut_members sample_cut) g (cut_claims sample_cut) = Inr True"
    using sample_materialization by blast
  have "\<forall>e\<in>set (cut_events sample_cut). closure_event_ok e" by (simp add: sample_cut_lists sample_record_ok)
  note m = materialization_ok [OF g(1) this cut_sorted(1,2)]
  have "\<not> closureEdgesContainCycle (cut_members sample_cut) (cut_edges sample_cut)"
    by (rule materialized_acyclic [OF m(1,3)])
  moreover have "validateClosureHead (ci_Head sample_cut) (length (ci_Events sample_cut)) = Inr ()"
    by (simp add: validateClosureHead_def sample_head_def sample_record_def sample_cut_def)
  moreover have "validateClosureHistory (ci_Head sample_cut) (cut_events sample_cut) = Inr ()"
    using sample_history by (simp add: sample_cut_lists(1)) (simp add: sample_cut_def)
  moreover have "length (ci_Events sample_cut) \<le> MaxClosureEvents" "length (ci_Members sample_cut) \<le> MaxClosureMembers"
    "length (ci_Edges sample_cut) \<le> MaxClosureEdges" "length (ci_ObjectClaims sample_cut) \<le> MaxClosureObjectClaims"
    by (simp_all add: sample_cut_def MaxClosureEvents_def MaxClosureMembers_def MaxClosureEdges_def MaxClosureObjectClaims_def)
  moreover have "Basis_Normalize (ci_Basis sample_cut) = ci_Basis sample_cut"
    "Basis_Key (ci_Basis sample_cut) = Inr (ci_LineageKey sample_cut)"
    using sample_basis_ok by (simp_all add: sample_cut_def Basis_Key_Inr)
  ultimately have "validateAndCanonicalizeClosureCut sample_cut = Inr (canonical_cut sample_cut True)"
    unfolding cut_Inr using g by blast
  then show ?thesis by (intro exI conjI) (assumption, simp add: canonical_cut_def Let_def)
qed

lemma sample_projection: "\<exists>p. ProjectCurrentness sample_cut = Inr p"
  using sample_cut_ok unfolding ProjectCurrentness_Inr by blast

section \<open>Properties\<close>

text \<open>C8. The currentness projection is the frontier of the abstract lineage.  When a cut is projected, the
  replayed chain is a run of the lineage machine, the nodes listed are the members of the lineage in byte
  order, the frontier consists of the members that nothing supersedes and is not empty, the closure is
  available exactly when every object claim is classified, and each node's status follows from these.
  The edge IDs of the chain, 64-bit digests, are assumed not to collide.\<close>

theorem ProjectCurrentness_refines:
  assumes proj: "ProjectCurrentness i = Inr p"
    and inj: "inj_on edge_id (supersedes (lineage_run (cut_events i)))"
  shows "reachable (lineage_run (cut_events i)) \<and>
    (let a = lineage_run (cut_events i); lk = ci_LineageKey i; F = frontier_of a lk;
         available = (\<forall>c\<in>set (ci_ObjectClaims i). oc_LineageKey c \<noteq> []);
         ids = sorted_list_of_set (members_of a lk)
     in F \<noteq> {} \<and> set (elems (cp_FrontierNodeIDs p)) = F \<and> cp_ClosureAvailable p = available \<and>
        map nc_NodeID (elems (cp_Nodes p)) = ids \<and>
        map nc_Status (elems (cp_Nodes p)) = map (expected_status F available) ids)"
proof -
  obtain c where cut: "validateAndCanonicalizeClosureCut i = Inr c"
    and p: "p = (let b = buildCurrentnessProjection c; fs = frontier_nodes (cc_edges c) (cc_members c)
         in if cc_coverageComplete c
            then b\<lparr>cp_Nodes := Some (map (settle (length fs) \<circ> node_currentness (cc_edges c)) (cc_members c)),
                   cp_ClosureAvailable := True, cp_Witness := Some (newClosureWitness c fs)\<rparr>
            else b)"
    using proj by (auto simp: ProjectCurrentness_Inr)
  let ?F = "frontier_of (lineage_run (cut_events i)) (ci_LineageKey i)"
    and ?fs = "frontier_nodes (cut_edges i) (cut_members i)"
  obtain g complete where g: "validateClosureMaterialization (ci_LineageKey i) (cut_events i) (cut_members i) (cut_edges i) = Inr g"
    and cl: "validateObjectClaimCoverage (ci_LineageKey i) (cut_members i) g (cut_claims i) = Inr complete"
    and c: "c = canonical_cut i complete"
    using cut by (auto simp: cut_Inr)
  have complete: "complete \<longleftrightarrow> (\<forall>c\<in>set (ci_ObjectClaims i). oc_LineageKey c \<noteq> [])"
    using cl validateObjectClaimCoverage_Inr [OF cut_sorted(3) cut_events_ok(3) [OF cut]]
    by (simp add: cut_claims_def)
  note m = materialization_ok [OF g cut_events_ok(1) [OF cut] cut_sorted(1,2)]
  note nodes = projected_nodes [OF m(1,3) inj cut_sorted(1), of complete]
  have "members_of (lineage_run (cut_events i)) (ci_LineageKey i) \<noteq> {}"
    using m(2,3) unfolding materialized_def by (metis map_is_Nil_conv set_empty)
  then have "?F \<noteq> {}" by (rule frontier_nonempty [OF m(1)])
  have "elems (cp_Nodes p) = map (\<lambda>m. (if complete then settle (length ?fs) else id) (node_currentness (cut_edges i) m)) (cut_members i)"
    and rest: "cp_ClosureAvailable p = complete" "elems (cp_FrontierNodeIDs p) = ?fs"
    unfolding p c by (simp_all add: Let_def canonical_cut_def buildCurrentnessProjection_def)
  with nodes materialized_frontier(2) [OF m(1,3) inj] m(1) \<open>?F \<noteq> {}\<close> complete show ?thesis
    unfolding Let_def by simp
qed

theorem ProjectCurrentness_refines_witness:
  "\<exists>p. ProjectCurrentness sample_cut = Inr p \<and> reachable (lineage_run (cut_events sample_cut))"
proof -
  obtain p where p: "ProjectCurrentness sample_cut = Inr p"
    using sample_projection by blast
  have "inj_on edge_id (supersedes (lineage_run (cut_events sample_cut)))"
    unfolding sample_cut_lists(1)
    by (simp add: lineage_run_def lineage_effect_def lineage_empty_def sample_record_simps)
  from conjunct1 [OF ProjectCurrentness_refines [OF p this]] p show ?thesis by blast
qed

text \<open>The projection does not depend on the order in which the loader returns the rows, and the validator
  accepts exactly that projection for every order.\<close>

theorem ProjectCurrentness_order_free:
  assumes "ProjectCurrentness i = Inr p" and "same_rows i j"
  shows "ProjectCurrentness j = Inr p \<and> (ValidateCurrentnessProjection j q = Inr () \<longleftrightarrow> q = p)"
proof -
  have "ProjectCurrentness j = Inr p"
  proof -
    obtain c where "validateAndCanonicalizeClosureCut i = Inr c"
      using assms(1) by (auto simp: ProjectCurrentness_def and_then_Inr)
    with cut_order_free [OF this assms(2)] assms(1) show ?thesis by (simp add: ProjectCurrentness_def)
  qed
  then show ?thesis by (simp add: ValidateCurrentnessProjection_def)
qed

theorem ProjectCurrentness_order_free_witness:
  "\<exists>p. ProjectCurrentness (sample_cut\<lparr>ci_Members := rev (ci_Members sample_cut)\<rparr>) = Inr p"
proof -
  obtain p where p: "ProjectCurrentness sample_cut = Inr p"
    using sample_projection by blast
  have "same_rows sample_cut (sample_cut\<lparr>ci_Members := rev (ci_Members sample_cut)\<rparr>)"
    by (simp add: same_rows_def)
  from ProjectCurrentness_order_free [OF p this] show ?thesis by blast
qed

text \<open>The cycle check is a second line of defence: once the history is valid and the rows agree with its
  replay, the supersedes relation cannot contain a cycle or a dangling endpoint.\<close>

theorem replayed_edges_acyclic:
  assumes "validateClosureHistory h es = Inr ()"
    and "validateClosureMaterialization lk es (sort_key mb_NodeID ms) (sort_key eg_ID eds) = Inr g"
  shows "\<not> closureEdgesContainCycle (sort_key mb_NodeID ms) (sort_key eg_ID eds)"
proof -
  have "\<forall>e\<in>set es. closure_event_ok e"
    using assms(1) chained_events by (auto simp: validateClosureHistory_Inr history_ok_def)
  note m = materialization_ok [OF assms(2) this]
  show ?thesis by (rule materialized_acyclic [OF m(1,3)]) (use assms in simp_all)
qed

theorem replayed_edges_acyclic_witness:
  "\<not> closureEdgesContainCycle (sort_key mb_NodeID (ci_Members sample_cut)) (sort_key eg_ID (ci_Edges sample_cut))"
proof -
  obtain g where "validateClosureMaterialization (ci_LineageKey sample_cut) [sample_record] (cut_members sample_cut)
      (cut_edges sample_cut) = Inr g"
    using sample_materialization by (auto simp: sample_cut_lists(1))
  from replayed_edges_acyclic [OF sample_history this [unfolded cut_members_def cut_edges_def]] show ?thesis .
qed

text \<open>\<open>closureEdgesContainCycle\<close> is right for every order in which Go may iterate its map of indegrees:
  it returns true exactly when a node ID is repeated, an endpoint is no member, or the edges have a cycle.\<close>

theorem closureEdgesContainCycle_correct:
  assumes "\<forall>ks. mset (ord ks) = mset ks"
  shows "contains_cycle ord (map mb_NodeID ms) (map (\<lambda>e. (eg_FromNodeID e, eg_ToNodeID e)) eds) = closureEdgesContainCycle ms eds \<and>
    (closureEdgesContainCycle ms eds \<longleftrightarrow>
      \<not> (distinct (map mb_NodeID ms) \<and>
         eg_FromNodeID ` set eds \<union> eg_ToNodeID ` set eds \<subseteq> mb_NodeID ` set ms \<and>
         acyclic {(eg_FromNodeID e, eg_ToNodeID e) |e. e \<in> set eds}))"
proof -
  have "(\<lambda>e. (eg_FromNodeID e, eg_ToNodeID e)) ` set eds = {(eg_FromNodeID e, eg_ToNodeID e) |e. e \<in> set eds}" by auto
  moreover have "fst ` {(eg_FromNodeID e, eg_ToNodeID e) |e. e \<in> set eds} = eg_FromNodeID ` set eds"
    "snd ` {(eg_FromNodeID e, eg_ToNodeID e) |e. e \<in> set eds} = eg_ToNodeID ` set eds" by force+
  ultimately show ?thesis
    using assms by (simp add: closureEdgesContainCycle_def contains_cycle_iff)
qed

theorem closureEdgesContainCycle_correct_witness:
  "closureEdgesContainCycle [] [] = contains_cycle rev (map mb_NodeID []) (map (\<lambda>e. (eg_FromNodeID e, eg_ToNodeID e)) [])"
  using closureEdgesContainCycle_correct [of rev "[]" "[]"] by simp

text \<open>The projection never truncates: it fails with \<open>ErrClosureLimitExceeded\<close> exactly when one of the four
  row counts exceeds its bound, and every other failure is \<open>ErrInvalidClosureCut\<close>.\<close>

theorem ProjectCurrentness_errors:
  "((\<exists>m. ProjectCurrentness i = Inl (Error ErrClosureLimitExceeded m)) \<longleftrightarrow>
     MaxClosureEvents < length (ci_Events i) \<or> MaxClosureMembers < length (ci_Members i) \<or>
     MaxClosureEdges < length (ci_Edges i) \<or> MaxClosureObjectClaims < length (ci_ObjectClaims i)) \<and>
   fails_with {ErrClosureLimitExceeded, ErrInvalidClosureCut} (ProjectCurrentness i)"
proof (cases "MaxClosureEvents < length (ci_Events i) \<or> MaxClosureMembers < length (ci_Members i) \<or>
     MaxClosureEdges < length (ci_Edges i) \<or> MaxClosureObjectClaims < length (ci_ObjectClaims i)")
  case True
  then have "\<exists>m. ProjectCurrentness i = Inl (Error ErrClosureLimitExceeded m)"
    by (auto simp: ProjectCurrentness_def validateAndCanonicalizeClosureCut_def)
  with True show ?thesis by auto
next
  case False
  then have "fails_with {ErrInvalidClosureCut} (ProjectCurrentness i)" by (intro fails_cut) auto
  with False show ?thesis unfolding fails_with_def by force
qed

end
