(* ===== verification/JointClosure.thy ===== *)
theory JointClosure
  imports Registration ClosureProjection
begin

text \<open>
  \<open>internal/evidencesupersession/joint_closure.go\<close> and \<open>joint_replay.go\<close>: the currentness of a lineage
  under both authorities, the admission chain and the catalog of initial registrations.  The whole
  prefix is verified and replayed once; each lineage is then projected against that replay.
\<close>

section \<open>Records\<close>

abbreviation "JointCutContractV1 \<equiv> ''core-joint-lineage-cut/v1''"
abbreviation "JointWitnessContractV1 \<equiv> ''core-joint-lineage-witness/v1''"

record JointCutInput =
  jc_ContractVersion :: string
  jc_StoreID :: string
  jc_LineageKey :: string
  jc_Basis :: Basis
  jc_Head :: ClosureHead
  jc_Events :: "ClosureEventRecord list"
  jc_Registrations :: "RegistrationRecord list"
  jc_Members :: "JointMemberRecord list"
  jc_Edges :: "ClosureEdgeRecord list"
  jc_ObjectClaims :: "ObjectClaimClassification list"

record JointWitness =
  jw_ContractVersion :: string
  jw_ID :: string
  jw_StoreID :: string
  jw_LineageKey :: string
  jw_Basis :: Basis
  jw_AlgorithmVersion :: string
  jw_Semantics :: string
  jw_CoveragePolicy :: string
  jw_Head :: ClosureHead
  jw_HistoryHash :: string
  jw_RegistrationManifestHash :: string
  jw_MembershipManifestHash :: string
  jw_SupersedesManifestHash :: string
  jw_ObjectClaimManifestHash :: string
  jw_FrontierNodeIDs :: "string slice"

record JointCurrentnessProjection =
  jp_ContractVersion :: string
  jp_StoreID :: string
  jp_LineageKey :: string
  jp_Head :: ClosureHead
  jp_CutHash :: string
  jp_ClosureAvailable :: bool
  jp_FrontierNodeIDs :: "string slice"
  jp_Nodes :: "NodeCurrentness slice"
  jp_Witness :: "JointWitness option"

record JointAuthorityInput =
  ja_StoreID :: string
  ja_Head :: ClosureHead
  ja_Events :: "ClosureEventRecord list"
  ja_Registrations :: "RegistrationRecord list"

record JointLineageInput =
  jl_LineageKey :: string
  jl_Basis :: Basis
  jl_Members :: "JointMemberRecord list"
  jl_Edges :: "ClosureEdgeRecord list"
  jl_ObjectClaims :: "ObjectClaimClassification list"

text \<open>A map of maps is a function to maps: reading an absent inner map gives the empty one.\<close>

record jointReplay =
  jr_members :: "(string, JointMemberRecord) gomap"
  jr_lineageMembers :: "string \<Rightarrow> (string, JointMemberRecord) gomap"
  jr_lineageEdges :: "string \<Rightarrow> (string, ClosureEdgeRecord) gomap"

record JointProjector =
  pj_storeID :: string
  pj_head :: ClosureHead
  pj_historyHash :: string
  pj_registrationHash :: string
  pj_replay :: jointReplay
  pj_legacyMembers :: "(string, ClosureMemberRecord) gomap"

type_synonym sourceObjectIdentity = "string \<times> string \<times> string \<times> string"

definition registrationObject :: "Basis \<Rightarrow> sourceObjectIdentity" where
  "registrationObject b = (SourceSystem b, SourceNamespace b, ObjectType b, ObjectID b)"

section \<open>The authority\<close>

text \<open>
  The loop over the sorted registrations: index, previous record, request IDs seen, bytes of the
  catalog.  A validated anchor of positive revision has a head event ID and a revision within the
  history once it is not beyond the head, so neither the dereference nor the index can panic.
\<close>

fun registration_loop ::
  "JointAuthorityInput \<Rightarrow> nat \<Rightarrow> RegistrationRecord option \<Rightarrow> string set \<Rightarrow> int \<Rightarrow> RegistrationRecord list \<Rightarrow> unit result"
where
  "registration_loop auth i prev requests catalogBytes [] = Inr ()"
| "registration_loop auth i prev requests catalogBytes (r # rs) =
    and_then (wrap ErrInvalidClosureCut (RegistrationRecord_validate r)) (\<lambda>_.
    if map_option rr_ID prev = Some (rr_ID r) then Inl (badCut ''duplicate registration'')
    else let b = rp_Binding (rr_Payload r) in
    if rb_StoreID b \<noteq> ja_StoreID auth \<or> rp_RequestID (rr_Payload r) \<in> requests
      then Inl (badCut ''registration store/request mismatch'')
    else if ra_Revision (rb_Anchor b) > hd_Revision (ja_Head auth)
      then Inl (badCut ''registration anchor is beyond head'')
    else if ra_Revision (rb_Anchor b) > 0 \<and>
        ra_HeadEventID (rb_Anchor b) \<noteq> Some (er_ID (ja_Events auth ! nat (ra_Revision (rb_Anchor b) - 1)))
      then Inl (badCut ''registration anchor does not match prefix'')
    else let catalogBytes = catalogBytes + int (length (marshal (registration_record_json r)));
             catalogBytes = (if i > 0 then catalogBytes + 1 else catalogBytes) in
    and_then (ValidateRegistrationCatalogCapacity (int i + 1) catalogBytes) (\<lambda>_.
    registration_loop auth (i + 1) (Some r) (insert (rp_RequestID (rr_Payload r)) requests) catalogBytes rs))"

definition canonicalJointAuthority :: "JointAuthorityInput \<Rightarrow> JointAuthorityInput result" where
  "canonicalJointAuthority input =
    and_then (wrap ErrInvalidClosureCut (validateCanonicalString ''store_id'' (ja_StoreID input) 200)) (\<lambda>_.
    if length (ja_Events input) > MaxClosureEvents \<or> int (length (ja_Registrations input)) > MaxRegistrationEvents
      then Inl (Error ErrClosureLimitExceeded ''joint cut count limit'')
    else if hd_ChainKey (ja_Head input) \<noteq> ChainKey \<or>
        hd_Revision (ja_Head input) \<noteq> int (length (ja_Events input)) \<or>
        validateExpectedHead (hd_Revision (ja_Head input)) (hd_HeadEventID (ja_Head input)) \<noteq> Inr ()
      then Inl (badCut ''joint head/history mismatch'')
    else let events = sort_key (\<lambda>e. (er_Revision e, er_ID e)) (cloneClosureEvents (ja_Events input)) in
    and_then (if events = [] then Inr () else validateClosureHistory (ja_Head input) events) (\<lambda>_.
    let registrations = sort_key rr_ID (ja_Registrations input);
        cut' = input\<lparr>ja_Events := events, ja_Registrations := registrations\<rparr> in
    and_then (registration_loop cut' 0 None {} 2 registrations) (\<lambda>_. Inr cut')))"

section \<open>The replay\<close>

record joint_state =
  js_global :: "(string, JointMemberRecord) gomap"
  js_lineages :: "string set"
  js_objects :: "sourceObjectIdentity set"
  js_edges :: "string \<Rightarrow> (string, ClosureEdgeRecord) gomap"

definition joint_target :: "ClosureEventRecord \<Rightarrow> joint_state \<Rightarrow> string \<Rightarrow> joint_state result" where
  "joint_target e s target =
    (let bootstrap = target \<in> set (elems (ev_BootstrappedTargetNodeIDs (er_Payload e)));
         edge = expected_edge (er_LineageKey e) e target;
         add_edge = (\<lambda>s. Inr (s\<lparr>js_edges := (js_edges s)
           (er_LineageKey e := AList.update (eg_ID edge) edge (js_edges s (er_LineageKey e)))\<rparr>))
     in case map_of (js_global s) target of
          None \<Rightarrow>
            if bootstrap
            then add_edge (s\<lparr>js_global := AList.update target
              \<lparr>jm_NodeID = target, jm_LineageKey = er_LineageKey e,
               jm_Origin = \<lparr>mo_Kind = MembershipBootstrap, mo_EventID = er_ID e\<rparr>\<rparr> (js_global s)\<rparr>)
            else Inl (badCut ''joint target missing before event revision'')
        | Some m \<Rightarrow>
            if bootstrap then Inl (badCut ''joint target bootstrapped twice'')
            else if jm_LineageKey m \<noteq> er_LineageKey e then Inl (badCut ''joint target crosses lineages'')
            else add_edge s)"

definition joint_event :: "joint_state \<Rightarrow> ClosureEventRecord \<Rightarrow> joint_state result" where
  "joint_event s e =
    (if map_of (js_global s) (er_ReplacementNodeID e) \<noteq> None
       then Inl (badCut ''joint replacement is not fresh'')
     else and_then (fold_res (joint_target e) s (ev_TargetNodeIDs (er_Payload e))) (\<lambda>s.
       Inr (s\<lparr>js_global := AList.update (er_ReplacementNodeID e)
           \<lparr>jm_NodeID = er_ReplacementNodeID e, jm_LineageKey = er_LineageKey e,
            jm_Origin = \<lparr>mo_Kind = MembershipReplacement, mo_EventID = er_ID e\<rparr>\<rparr> (js_global s),
         js_lineages := insert (er_LineageKey e) (js_lineages s),
         js_objects := insert (registrationObject (ev_LineageBasis (er_Payload e))) (js_objects s)\<rparr>)))"

definition joint_registration :: "joint_state \<Rightarrow> RegistrationRecord \<Rightarrow> joint_state result" where
  "joint_registration s r =
    (let b = rp_Binding (rr_Payload r) in
     if map_of (js_global s) (rb_ClaimID b) \<noteq> None \<or> rb_LineageKey b \<in> js_lineages s \<or>
        registrationObject (rb_Basis b) \<in> js_objects s
       then Inl (badCut ''registration requires fresh claim membership, lineage and singleton object'')
     else Inr (s\<lparr>js_global := AList.update (rb_ClaimID b)
           \<lparr>jm_NodeID = rb_ClaimID b, jm_LineageKey = rb_LineageKey b,
            jm_Origin = \<lparr>mo_Kind = MembershipRegistration, mo_EventID = rr_ID r\<rparr>\<rparr> (js_global s),
         js_lineages := insert (rb_LineageKey b) (js_lineages s),
         js_objects := insert (registrationObject (rb_Basis b)) (js_objects s)\<rparr>))"

text \<open>
  The replay goes through the revisions \<open>0, \<dots>, head\<close>: at a positive revision its event, then the
  registrations anchored there.  The prepared cut has as many events as the head revision says.
\<close>

definition registrations_at :: "JointAuthorityInput \<Rightarrow> nat \<Rightarrow> RegistrationRecord list" where
  "registrations_at auth revision =
    filter (\<lambda>r. ra_Revision (rb_Anchor (rp_Binding (rr_Payload r))) = int revision) (ja_Registrations auth)"

definition joint_revision :: "JointAuthorityInput \<Rightarrow> joint_state \<Rightarrow> nat \<Rightarrow> joint_state result" where
  "joint_revision auth s revision =
    and_then
      (if revision > 0 then
         (if revision \<le> length (ja_Events auth) then joint_event s (ja_Events auth ! (revision - 1))
          else Inl (Error Plain ''panic: index out of range''))
       else Inr s)
      (\<lambda>s. fold_res joint_registration s (registrations_at auth revision))"

definition joint_start :: joint_state where
  "joint_start = \<lparr>js_global = [], js_lineages = {}, js_objects = {}, js_edges = (\<lambda>_. [])\<rparr>"

definition replayJointMembership :: "JointAuthorityInput \<Rightarrow> jointReplay result" where
  "replayJointMembership auth =
    and_then (fold_res (joint_revision auth) joint_start [0..<nat (hd_Revision (ja_Head auth) + 1)]) (\<lambda>s.
      Inr \<lparr>jr_members = js_global s,
           jr_lineageMembers = (\<lambda>lk. filter (\<lambda>(n, m). jm_LineageKey m = lk) (js_global s)),
           jr_lineageEdges = js_edges s\<rparr>)"

definition PrepareJointAuthority :: "JointAuthorityInput \<Rightarrow> JointProjector result" where
  "PrepareJointAuthority input =
    and_then (canonicalJointAuthority input) (\<lambda>auth.
    and_then (replayJointMembership auth) (\<lambda>rep.
    let historyHash = closureHistoryHash (ja_Head auth) (ja_Events auth);
        registrationHash = hashJSON (JArr (map registration_record_json (ja_Registrations auth)));
        legacy = map (\<lambda>(n, m). (n, JointMemberRecord_legacy m)) (jr_members rep)
    in Inr \<lparr>pj_storeID = ja_StoreID auth, pj_head = ja_Head auth, pj_historyHash = historyHash,
            pj_registrationHash = registrationHash, pj_replay = rep, pj_legacyMembers = legacy\<rparr>))"

section \<open>One lineage\<close>

definition canonicalJointLineage :: "JointLineageInput \<Rightarrow> JointLineageInput result" where
  "canonicalJointLineage input =
    (if length (jl_Members input) > MaxClosureMembers \<or> length (jl_Edges input) > MaxClosureEdges \<or>
        length (jl_ObjectClaims input) > MaxClosureObjectClaims
       then Inl (Error ErrClosureLimitExceeded ''joint cut count limit'')
     else if Basis_Key (jl_Basis input) \<noteq> Inr (jl_LineageKey input)
       then Inl (badCut ''joint lineage basis mismatch'')
     else Inr (input\<lparr>jl_Members := sort_key jm_NodeID (jl_Members input),
                     jl_Edges := sort_key eg_ID (jl_Edges input),
                     jl_ObjectClaims := sort_key oc_NodeID (jl_ObjectClaims input)\<rparr>))"

definition validateJointMaterialization :: "JointLineageInput \<Rightarrow> jointReplay \<Rightarrow> unit result" where
  "validateJointMaterialization lin rep =
    (let expectedMembers = jr_lineageMembers rep (jl_LineageKey lin);
         expectedEdges = jr_lineageEdges rep (jl_LineageKey lin)
     in if length (jl_Members lin) \<noteq> length expectedMembers \<or> length (jl_Edges lin) \<noteq> length expectedEdges
          then Inl (badCut ''joint materialization count mismatch'')
        else and_then (match_rows ''joint membership authority mismatch'' ''joint membership authority mismatch''
                        jm_NodeID expectedMembers None (jl_Members lin)) (\<lambda>_.
             match_rows ''joint edge authority mismatch'' ''joint edge authority mismatch''
                        eg_ID expectedEdges None (jl_Edges lin)))"

definition joint_witness_json :: "JointWitness \<Rightarrow> json" where
  "joint_witness_json w = JObj
    [(''contract_version'', JStr (jw_ContractVersion w)),
     (''witness_id'', JStr (jw_ID w)),
     (''store_id'', JStr (jw_StoreID w)),
     (''lineage_key'', JStr (jw_LineageKey w)),
     (''lineage_basis'', basis_json (jw_Basis w)),
     (''algorithm_version'', JStr (jw_AlgorithmVersion w)),
     (''semantics_version'', JStr (jw_Semantics w)),
     (''coverage_policy_version'', JStr (jw_CoveragePolicy w)),
     (''supersession_head'', head_json (jw_Head w)),
     (''supersession_history_hash'', JStr (jw_HistoryHash w)),
     (''registration_manifest_hash'', JStr (jw_RegistrationManifestHash w)),
     (''membership_manifest_hash'', JStr (jw_MembershipManifestHash w)),
     (''supersedes_manifest_hash'', JStr (jw_SupersedesManifestHash w)),
     (''object_claim_manifest_hash'', JStr (jw_ObjectClaimManifestHash w)),
     (''frontier_node_ids'', JSlice (map_option (map JStr) (jw_FrontierNodeIDs w)))]"

definition joint_settle :: "nat \<Rightarrow> NodeCurrentness \<Rightarrow> NodeCurrentness" where
  "joint_settle frontiers node =
    (if nc_Status node = CurrentnessUnknown
     then (let node = node\<lparr>nc_Status := CurrentnessAmbiguous\<rparr>
           in if frontiers = 1 then node\<lparr>nc_Status := CurrentnessCurrent\<rparr> else node)
     else node)"

text \<open>\<open>None\<close> is a nil projector, or the zero value, whose replay has no members map.\<close>

definition ProjectLineage :: "JointProjector option \<Rightarrow> JointLineageInput \<Rightarrow> JointCurrentnessProjection result" where
  "ProjectLineage authority input =
    (case authority of None \<Rightarrow> Inl (badCut ''unprepared joint authority'')
     | Some auth \<Rightarrow>
       and_then (canonicalJointLineage input) (\<lambda>lin.
       and_then (validateJointMaterialization lin (pj_replay auth)) (\<lambda>_.
       let members = map JointMemberRecord_legacy (jl_Members lin) in
       and_then (validateObjectClaimCoverage (jl_LineageKey lin) members (pj_legacyMembers auth) (jl_ObjectClaims lin)) (\<lambda>complete.
       if closureEdgesContainCycle members (jl_Edges lin) then Inl (badCut ''joint supersedes cycle'')
       else
       let projected = buildCurrentnessProjection
             \<lparr>cc_lineageKey = jl_LineageKey lin, cc_basis = jl_Basis lin, cc_head = pj_head auth, cc_events = [],
              cc_members = members, cc_edges = jl_Edges lin, cc_objectClaims = [], cc_historyHash = [],
              cc_cutHash = [], cc_objectClaimManifestHash = [], cc_coverageComplete = False\<rparr>;
           complete = (complete \<and> length members > 0);
           frontiers = cp_FrontierNodeIDs projected;
           nodes = (if complete then map_option (map (joint_settle (length (elems frontiers)))) (cp_Nodes projected)
                    else cp_Nodes projected);
           witness = \<lparr>jw_ContractVersion = JointWitnessContractV1, jw_ID = [], jw_StoreID = pj_storeID auth,
              jw_LineageKey = jl_LineageKey lin, jw_Basis = jl_Basis lin,
              jw_AlgorithmVersion = CurrentnessAlgorithmVersionV1, jw_Semantics = CurrentnessSemanticsV1,
              jw_CoveragePolicy = ObjectCoveragePolicyV1, jw_Head = pj_head auth,
              jw_HistoryHash = pj_historyHash auth, jw_RegistrationManifestHash = pj_registrationHash auth,
              jw_MembershipManifestHash = hashJSON (JArr (map joint_member_json (jl_Members lin))),
              jw_SupersedesManifestHash = hashJSON (JArr (map edge_json (jl_Edges lin))),
              jw_ObjectClaimManifestHash = closureObjectManifestHash (jl_Basis lin) (Some (jl_ObjectClaims lin)),
              jw_FrontierNodeIDs = frontiers\<rparr>;
           digest = hashJSON (joint_witness_json witness)
       in Inr \<lparr>jp_ContractVersion = JointCutContractV1, jp_StoreID = pj_storeID auth,
               jp_LineageKey = jl_LineageKey lin, jp_Head = pj_head auth,
               jp_CutHash = ''joint-lineage-cut:v1:'' @ digest, jp_ClosureAvailable = complete,
               jp_FrontierNodeIDs = frontiers, jp_Nodes = nodes,
               jp_Witness = (if complete then Some (witness\<lparr>jw_ID := ''joint-lineage-witness:v1:'' @ digest\<rparr>) else None)\<rparr>))))"

definition ProjectJointCurrentness :: "JointCutInput \<Rightarrow> JointCurrentnessProjection result" where
  "ProjectJointCurrentness input =
    (if jc_ContractVersion input \<noteq> JointCutContractV1 then Inl (badCut ''unknown joint cut contract'')
     else and_then (PrepareJointAuthority
        \<lparr>ja_StoreID = jc_StoreID input, ja_Head = jc_Head input, ja_Events = jc_Events input,
         ja_Registrations = jc_Registrations input\<rparr>) (\<lambda>authority.
       ProjectLineage (Some authority)
        \<lparr>jl_LineageKey = jc_LineageKey input, jl_Basis = jc_Basis input, jl_Members = jc_Members input,
         jl_Edges = jc_Edges input, jl_ObjectClaims = jc_ObjectClaims input\<rparr>))"

definition ValidateJointCurrentness :: "JointCutInput \<Rightarrow> JointCurrentnessProjection \<Rightarrow> unit result" where
  "ValidateJointCurrentness input res =
    and_then (ProjectJointCurrentness input) (\<lambda>want.
      if want \<noteq> res then Inl (badCut ''joint projection mismatch'') else Inr ())"

end
