(* ===== verification/JointReplay.thy ===== *)
theory JointReplay
  imports JointClosure
begin

text \<open>
  The joint replay implements the abstract lineage machine too: an event is the same step as in the
  replay of \<open>Closure\<close>, a registration enrols the first node of a fresh lineage.
\<close>

section \<open>One selected lineage of the joint state\<close>

definition legacy_map :: "(string, JointMemberRecord) gomap \<Rightarrow> (string, ClosureMemberRecord) gomap" where
  "legacy_map g = map (\<lambda>(n, m). (n, JointMemberRecord_legacy m)) g"

definition joint_view :: "string \<Rightarrow> joint_state \<Rightarrow> closure_replay" where
  "joint_view lk s = (legacy_map (js_global s), js_edges s lk)"

lemma legacy_fields [simp]:
  "mb_NodeID (JointMemberRecord_legacy m) = jm_NodeID m" "mb_LineageKey (JointMemberRecord_legacy m) = jm_LineageKey m"
  by (simp_all add: JointMemberRecord_legacy_def)

lemma legacy_map_of [simp]: "map_of (legacy_map g) n = map_option JointMemberRecord_legacy (map_of g n)"
  by (simp add: legacy_map_def map_of_map)

lemma legacy_map_gomap [simp]: "gomap (legacy_map g) \<longleftrightarrow> gomap g"
  by (simp add: legacy_map_def comp_def case_prod_unfold)

lemma legacy_map_update: "legacy_map (AList.update n m g) = AList.update n (JointMemberRecord_legacy m) (legacy_map g)"
  by (induction g) (auto simp: legacy_map_def)

lemma legacy_map_filter:
  "legacy_map (filter (\<lambda>(n, m). jm_LineageKey m = lk) g) = filter (\<lambda>(n, m). mb_LineageKey m = lk) (legacy_map g)"
  by (induction g) (auto simp: legacy_map_def)

section \<open>An event\<close>

lemma joint_target_view:
  assumes "joint_target e s t = Inr s'"
  shows "enroll_target e (legacy_map (js_global s)) t = Inr (legacy_map (js_global s')) \<and>
    js_lineages s' = js_lineages s \<and>
    js_edges s' = (js_edges s)(er_LineageKey e := (let edge = expected_edge (er_LineageKey e) e t
      in AList.update (eg_ID edge) edge (js_edges s (er_LineageKey e))))"
  using assms
  by (auto simp: joint_target_def enroll_target_def Let_def legacy_map_update JointMemberRecord_legacy_def
      split: option.splits if_splits)

lemma joint_targets_view:
  assumes "fold_res (joint_target e) s ts = Inr s'"
  shows "fold_res (enroll_target e) (legacy_map (js_global s)) ts = Inr (legacy_map (js_global s')) \<and>
    js_lineages s' = js_lineages s \<and>
    js_edges s' = (js_edges s)(er_LineageKey e :=
      foldl (\<lambda>edges t. let edge = expected_edge (er_LineageKey e) e t in AList.update (eg_ID edge) edge edges)
        (js_edges s (er_LineageKey e)) ts)"
  using assms
proof (induction ts arbitrary: s)
  case (Cons t ts)
  then obtain h where h: "joint_target e s t = Inr h" "fold_res (joint_target e) h ts = Inr s'"
    by (auto simp: and_then_Inr)
  from joint_target_view [OF h(1)] Cons.IH [OF h(2)] show ?case by (auto simp: fun_eq_iff)
qed simp

lemma joint_event_view:
  assumes "joint_event s e = Inr s'"
  shows "replay_event lk (joint_view lk s) e = Inr (joint_view lk s')"
    and "js_lineages s' = insert (er_LineageKey e) (js_lineages s)"
proof -
  obtain h where fresh: "map_of (js_global s) (er_ReplacementNodeID e) = None"
    and run: "fold_res (joint_target e) s (ev_TargetNodeIDs (er_Payload e)) = Inr h"
    and s': "s' = h\<lparr>js_global := AList.update (er_ReplacementNodeID e)
           \<lparr>jm_NodeID = er_ReplacementNodeID e, jm_LineageKey = er_LineageKey e,
            jm_Origin = \<lparr>mo_Kind = MembershipReplacement, mo_EventID = er_ID e\<rparr>\<rparr> (js_global h),
         js_lineages := insert (er_LineageKey e) (js_lineages h),
         js_objects := insert (registrationObject (ev_LineageBasis (er_Payload e))) (js_objects h)\<rparr>"
    using assms unfolding joint_event_def by (auto simp: and_then_Inr if_Inl_eq_Inr)
  note t = joint_targets_view [OF run]
  show "js_lineages s' = insert (er_LineageKey e) (js_lineages s)" using t by (simp add: s')
  have "legacy_map (js_global s') = AList.update (er_ReplacementNodeID e)
      \<lparr>mb_NodeID = er_ReplacementNodeID e, mb_LineageKey = er_LineageKey e,
       mb_FirstAdmissionEventID = er_ID e, mb_WasBootstrapped = False\<rparr> (legacy_map (js_global h))"
    by (simp add: s' legacy_map_update JointMemberRecord_legacy_def)
  moreover have "js_edges s' = js_edges h" by (simp add: s')
  ultimately show "replay_event lk (joint_view lk s) e = Inr (joint_view lk s')"
    using t fresh unfolding joint_view_def by (simp add: Let_def)
qed

section \<open>The run of events and registrations\<close>

datatype joint_entry = Admitted ClosureEventRecord | Registered RegistrationRecord

fun joint_body :: "joint_state \<Rightarrow> joint_entry \<Rightarrow> joint_state result" where
  "joint_body s (Admitted e) = joint_event s e"
| "joint_body s (Registered r) = joint_registration s r"

fun joint_ok :: "joint_entry \<Rightarrow> bool" where
  "joint_ok (Admitted e) = closure_event_ok e"
| "joint_ok (Registered r) = True"

fun joint_effect :: "lineage_state \<Rightarrow> joint_entry \<Rightarrow> lineage_state" where
  "joint_effect a (Admitted e) = lineage_effect a e"
| "joint_effect a (Registered r) =
    (let b = rp_Binding (rr_Payload r) in a\<lparr>enrolled := (enrolled a)(rb_ClaimID b \<mapsto> rb_LineageKey b)\<rparr>)"

definition joint_log :: "JointAuthorityInput \<Rightarrow> joint_entry list" where
  "joint_log auth = concat (map (\<lambda>n. (if n > 0 then [Admitted (ja_Events auth ! (n - 1))] else []) @
      map Registered (registrations_at auth n)) [0..<nat (hd_Revision (ja_Head auth) + 1)])"

definition joint_run :: "JointAuthorityInput \<Rightarrow> lineage_state" where
  "joint_run auth = foldl joint_effect lineage_empty (joint_log auth)"

definition joint_sim :: "joint_state \<Rightarrow> lineage_state \<Rightarrow> bool" where
  "joint_sim s a \<longleftrightarrow> (\<forall>lk. closure_sim lk (joint_view lk s) a) \<and> ran (enrolled a) \<subseteq> js_lineages s"

lemma closure_simD:
  assumes "closure_sim lk (g, ed) a"
  shows "gomap g" "gomap ed" "\<And>k m. map_of g k = Some m \<Longrightarrow> mb_NodeID m = k"
    "enrolled a = (\<lambda>n. map_option mb_LineageKey (map_of g n))"
    "\<And>k x. map_of ed k = Some x \<Longrightarrow> k = eg_ID x \<and> eg_ID x = edge_id (eg_FromNodeID x, eg_ToNodeID x) \<and>
       (eg_FromNodeID x, eg_ToNodeID x) \<in> supersedes a \<and> enrolled a (eg_FromNodeID x) = Some lk"
    "\<And>f t. (f, t) \<in> supersedes a \<Longrightarrow> enrolled a f = Some lk \<Longrightarrow> edge_id (f, t) \<in> keys ed"
    "lineage_inv a"
  using assms unfolding closure_sim_def Let_def prod.case by blast+

text \<open>Enrolling one fresh node keeps the relation for every selected lineage.\<close>

lemma closure_sim_enrol:
  assumes sim: "closure_sim lk (g, ed) a" and fresh: "enrolled a c = None" and lin: "mb_NodeID m = c"
    and inv: "lineage_inv (a\<lparr>enrolled := (enrolled a)(c \<mapsto> mb_LineageKey m)\<rparr>)"
  shows "closure_sim lk (AList.update c m g, ed) (a\<lparr>enrolled := (enrolled a)(c \<mapsto> mb_LineageKey m)\<rparr>)"
proof -
  note g = closure_simD [OF sim]
  let ?a = "a\<lparr>enrolled := (enrolled a)(c \<mapsto> mb_LineageKey m)\<rparr>"
  have old: "f \<noteq> c" if "(f, t) \<in> supersedes a" for f t
    using that g(7) fresh by (auto simp: lineage_inv_def)
  have "gomap (AList.update c m g)" using g(1) by simp
  moreover have "\<forall>k m'. map_of (AList.update c m g) k = Some m' \<longrightarrow> mb_NodeID m' = k"
    using g(3) lin by (simp add: map_of_update)
  moreover have "enrolled ?a = (\<lambda>n. map_option mb_LineageKey (map_of (AList.update c m g) n))"
    using g(4) by (auto simp: map_of_update)
  moreover have "k = eg_ID x \<and> eg_ID x = edge_id (eg_FromNodeID x, eg_ToNodeID x) \<and>
       (eg_FromNodeID x, eg_ToNodeID x) \<in> supersedes ?a \<and> enrolled ?a (eg_FromNodeID x) = Some lk"
    if "map_of ed k = Some x" for k x
    using g(5) [OF that] old by auto
  moreover have "edge_id (f, t) \<in> keys ed" if "(f, t) \<in> supersedes ?a" "enrolled ?a f = Some lk" for f t
    using that g(6) old by auto
  ultimately show ?thesis unfolding closure_sim_def Let_def prod.case using g(2) inv by blast
qed

lemma joint_registration_step:
  assumes sim: "joint_sim s a" and run: "joint_registration s r = Inr s'"
  shows "lineage_step a (joint_effect a (Registered r)) \<and> joint_sim s' (joint_effect a (Registered r))"
proof -
  define b where "b = rp_Binding (rr_Payload r)"
  define m where "m = \<lparr>jm_NodeID = rb_ClaimID b, jm_LineageKey = rb_LineageKey b,
            jm_Origin = \<lparr>mo_Kind = MembershipRegistration, mo_EventID = rr_ID r\<rparr>\<rparr>"
  have guard: "map_of (js_global s) (rb_ClaimID b) = None" "rb_LineageKey b \<notin> js_lineages s"
    and s': "s' = s\<lparr>js_global := AList.update (rb_ClaimID b) m (js_global s),
         js_lineages := insert (rb_LineageKey b) (js_lineages s),
         js_objects := insert (registrationObject (rb_Basis b)) (js_objects s)\<rparr>"
    using run unfolding joint_registration_def Let_def b_def [symmetric] m_def by (auto split: if_splits)
  have sims: "closure_sim lk (legacy_map (js_global s), js_edges s lk) a" for lk
    using sim by (simp add: joint_sim_def joint_view_def)
  note g = closure_simD [OF sims [of undefined]]
  have eff: "joint_effect a (Registered r) = a\<lparr>enrolled := (enrolled a)(rb_ClaimID b \<mapsto> rb_LineageKey b)\<rparr>"
    by (simp add: b_def Let_def)
  have fresh: "enrolled a (rb_ClaimID b) = None" using guard(1) by (simp add: g(4))
  have "rb_LineageKey b \<notin> ran (enrolled a)" using sim guard(2) unfolding joint_sim_def by blast
  with fresh have step: "lineage_step a (joint_effect a (Registered r))" unfolding eff by (rule lineage_step.register)
  have inv: "lineage_inv (joint_effect a (Registered r))" by (rule lineage_step_inv [OF g(7) step])
  have m': "mb_LineageKey (JointMemberRecord_legacy m) = rb_LineageKey b" "mb_NodeID (JointMemberRecord_legacy m) = rb_ClaimID b"
    by (simp_all add: m_def)
  have "closure_sim lk (joint_view lk s') (joint_effect a (Registered r))" for lk
    using closure_sim_enrol [OF sims fresh m'(2)] inv unfolding m'(1) eff [symmetric]
    by (simp add: joint_view_def s' legacy_map_update)
  moreover have "ran (enrolled (joint_effect a (Registered r))) \<subseteq> js_lineages s'"
    using sim unfolding eff s' joint_sim_def by (auto simp: ran_def)
  ultimately show ?thesis using step unfolding joint_sim_def by blast
qed

lemma joint_event_step:
  assumes ok: "closure_event_ok e" and sim: "joint_sim s a" and run: "joint_event s e = Inr s'"
  shows "lineage_step a (lineage_effect a e) \<and> joint_sim s' (lineage_effect a e)"
proof -
  have "lineage_step a (lineage_effect a e) \<and> closure_sim lk (joint_view lk s') (lineage_effect a e)" for lk
    using sim unfolding joint_sim_def by (intro closure_sim_step [OF ok _ joint_event_view(1) [OF run]]) blast
  moreover have "ran (enrolled (lineage_effect a e)) \<subseteq> js_lineages s'"
    using sim joint_event_view(2) [OF run] unfolding joint_sim_def by (auto simp: lineage_effect_def ran_def)
  ultimately show ?thesis unfolding joint_sim_def by blast
qed

interpretation joint_run: replay joint_body joint_start joint_ok joint_effect joint_sim
proof (unfold_locales, goal_cases)
  case 1
  show ?case
    by (simp add: joint_sim_def joint_view_def joint_start_def legacy_map_def closure_sim_def lineage_empty_def
        lineage_inv_def acyclic_def)
next
  case (2 e s a s')
  then show ?case
    by (cases e) (simp_all only: joint_ok.simps joint_body.simps joint_effect.simps(1) joint_event_step joint_registration_step)
qed

section \<open>The revisions of a prepared authority\<close>

lemma joint_revision_log:
  assumes "joint_revision auth s n = Inr s'"
  shows "fold_res joint_body s ((if n > 0 then [Admitted (ja_Events auth ! (n - 1))] else []) @
    map Registered (registrations_at auth n)) = Inr s'"
  using assms
  by (auto simp: joint_revision_def and_then_Inr fold_res_append fold_res_map split: if_splits)

lemma joint_revisions_log:
  assumes "fold_res (joint_revision auth) s ns = Inr s'"
  shows "fold_res joint_body s (concat (map (\<lambda>n. (if n > 0 then [Admitted (ja_Events auth ! (n - 1))] else []) @
      map Registered (registrations_at auth n)) ns)) = Inr s'"
  using assms
proof (induction ns arbitrary: s)
  case (Cons n ns)
  then obtain h where "joint_revision auth s n = Inr h" "fold_res (joint_revision auth) h ns = Inr s'"
    by (auto simp: and_then_Inr)
  with joint_revision_log [of auth s n h] Cons.IH [of h] show ?case
    by (simp only: list.map concat.simps fold_res_append [of _ _ "_ @ map Registered _"] and_then.simps)
qed simp

lemma joint_replay_ok:
  assumes run: "replayJointMembership auth = Inr rep" and ok: "\<forall>e\<in>set (ja_Events auth). closure_event_ok e"
    and head: "hd_Revision (ja_Head auth) = int (length (ja_Events auth))"
  obtains s where "reachable (joint_run auth)" and "joint_sim s (joint_run auth)"
    and "rep = \<lparr>jr_members = js_global s,
           jr_lineageMembers = (\<lambda>lk. filter (\<lambda>(n, m). jm_LineageKey m = lk) (js_global s)),
           jr_lineageEdges = js_edges s\<rparr>"
proof -
  obtain s where s: "fold_res (joint_revision auth) joint_start [0..<nat (hd_Revision (ja_Head auth) + 1)] = Inr s"
    and rep: "rep = \<lparr>jr_members = js_global s,
           jr_lineageMembers = (\<lambda>lk. filter (\<lambda>(n, m). jm_LineageKey m = lk) (js_global s)),
           jr_lineageEdges = js_edges s\<rparr>"
    using run by (auto simp: replayJointMembership_def and_then_Inr)
  have "\<forall>x\<in>set (joint_log auth). joint_ok x"
    using ok head by (auto simp: joint_log_def split: if_splits)
  with joint_run.simulated joint_revisions_log [OF s, folded joint_log_def] that rep
  show ?thesis unfolding joint_run_def by blast
qed

end
