(* ===== verification/JointProjection.thy ===== *)
theory JointProjection
  imports JointReplay
begin

text \<open>
  What an accepted joint cut consists of, that its projection is the frontier of the abstract lineage
  of events and registrations, that it agrees with the closure projection when nothing was registered,
  and how it fails.
\<close>

section \<open>The authority\<close>

definition record_bytes :: "RegistrationRecord \<Rightarrow> int" where
  "record_bytes r = int (length (marshal (registration_record_json r)))"

definition catalog_bytes :: "RegistrationRecord list \<Rightarrow> int" where
  "catalog_bytes rs = int (length (marshal (JArr (map registration_record_json rs))))"

lemma length_join: "int (length (join xs)) = (\<Sum>x\<leftarrow>xs. int (length x)) + (if xs = [] then 0 else int (length xs) - 1)"
  by (induction xs rule: join.induct) auto

lemma catalog_bytes_sum:
  "catalog_bytes rs = 2 + (\<Sum>r\<leftarrow>rs. record_bytes r) + (if rs = [] then 0 else int (length rs) - 1)"
  by (simp add: catalog_bytes_def length_join record_bytes_def [abs_def] comp_def)

definition anchored :: "JointAuthorityInput \<Rightarrow> RegistrationRecord \<Rightarrow> bool" where
  "anchored auth r \<longleftrightarrow> (let a = rb_Anchor (rp_Binding (rr_Payload r)) in
    ra_Revision a \<le> hd_Revision (ja_Head auth) \<and>
    (0 < ra_Revision a \<longrightarrow> ra_HeadEventID a = Some (er_ID (ja_Events auth ! nat (ra_Revision a - 1)))))"

lemma record_bytes_nonneg: "0 \<le> record_bytes r"
  by (simp add: record_bytes_def)

lemma registration_loop_Inr:
  assumes "2 \<le> used"
  shows "registration_loop auth i prev requests used rs = Inr u \<longleftrightarrow>
    (\<forall>r\<in>set rs. RegistrationRecord_validate r = Inr () \<and>
       rb_StoreID (rp_Binding (rr_Payload r)) = ja_StoreID auth \<and> anchored auth r) \<and>
    \<not> adjacent_dup rr_ID ((case prev of None \<Rightarrow> [] | Some p \<Rightarrow> [p]) @ rs) \<and>
    distinct (map (rp_RequestID \<circ> rr_Payload) rs) \<and> requests \<inter> (rp_RequestID \<circ> rr_Payload) ` set rs = {} \<and>
    (rs = [] \<or> int i + int (length rs) \<le> MaxRegistrationEvents \<and>
       used + (\<Sum>r\<leftarrow>rs. record_bytes r) + int (length rs) - (if i = 0 then 1 else 0) \<le> MaxRegistrationCatalogBytes)"
  using assms
proof (induction rs arbitrary: i prev requests used)
  case Nil
  show ?case by (cases prev) simp_all
next
  case (Cons r rs)
  let ?b = "used + record_bytes r + (if i = 0 then 0 else 1)"
  have "2 \<le> ?b" using Cons.prems record_bytes_nonneg [of r] by simp
  note ih = Cons.IH [OF this, of "i + 1" "Some r" "insert (rp_RequestID (rr_Payload r)) requests"]
  have sum: "0 \<le> (\<Sum>r\<leftarrow>rs. record_bytes r)" by (intro sum_list_nonneg) (auto simp: record_bytes_nonneg)
  have cap: "ValidateRegistrationCatalogCapacity (int i + 1) ?b = Inr () \<longleftrightarrow>
      int i + 1 \<le> MaxRegistrationEvents \<and> ?b \<le> MaxRegistrationCatalogBytes"
    using \<open>2 \<le> ?b\<close> by (auto simp: ValidateRegistrationCatalogCapacity_def)
  have "registration_loop auth i prev requests used (r # rs) = Inr u \<longleftrightarrow>
      RegistrationRecord_validate r = Inr () \<and> map_option rr_ID prev \<noteq> Some (rr_ID r) \<and>
      rb_StoreID (rp_Binding (rr_Payload r)) = ja_StoreID auth \<and> rp_RequestID (rr_Payload r) \<notin> requests \<and>
      anchored auth r \<and> ValidateRegistrationCatalogCapacity (int i + 1) ?b = Inr () \<and>
      registration_loop auth (i + 1) (Some r) (insert (rp_RequestID (rr_Payload r)) requests) ?b rs = Inr u"
    unfolding registration_loop.simps Let_def
    by (auto simp: and_then_Inr wrap_Inr if_Inl_eq_Inr anchored_def Let_def record_bytes_def)
  moreover have "\<not> adjacent_dup rr_ID ((case prev of None \<Rightarrow> [] | Some p \<Rightarrow> [p]) @ r # rs) \<longleftrightarrow>
      map_option rr_ID prev \<noteq> Some (rr_ID r) \<and> \<not> adjacent_dup rr_ID ((case Some r of None \<Rightarrow> [] | Some p \<Rightarrow> [p]) @ rs)"
    by (cases prev) auto
  moreover have "int i + 1 \<le> MaxRegistrationEvents \<and> ?b \<le> MaxRegistrationCatalogBytes \<and>
      (rs = [] \<or> int (i + 1) + int (length rs) \<le> MaxRegistrationEvents \<and>
        ?b + (\<Sum>r\<leftarrow>rs. record_bytes r) + int (length rs) - (if i + 1 = 0 then 1 else 0) \<le> MaxRegistrationCatalogBytes) \<longleftrightarrow>
      (r # rs = [] \<or> int i + int (length (r # rs)) \<le> MaxRegistrationEvents \<and>
      used + (\<Sum>r\<leftarrow>r # rs. record_bytes r) + int (length (r # rs)) - (if i = 0 then 1 else 0) \<le> MaxRegistrationCatalogBytes)"
    using sum by (cases "rs = []") auto
  moreover have "distinct (map (rp_RequestID \<circ> rr_Payload) (r # rs)) \<and>
      requests \<inter> (rp_RequestID \<circ> rr_Payload) ` set (r # rs) = {} \<longleftrightarrow>
      rp_RequestID (rr_Payload r) \<notin> requests \<and> distinct (map (rp_RequestID \<circ> rr_Payload) rs) \<and>
      insert (rp_RequestID (rr_Payload r)) requests \<inter> (rp_RequestID \<circ> rr_Payload) ` set rs = {}"
    by auto
  moreover have "(\<forall>x\<in>set (r # rs). P x) \<longleftrightarrow> P r \<and> (\<forall>x\<in>set rs. P x)" for P by simp
  ultimately show ?case unfolding ih cap by (simp only:) argo
qed

definition authority_ok :: "JointAuthorityInput \<Rightarrow> bool" where
  "authority_ok c \<longleftrightarrow> canonical_string 200 (ja_StoreID c) \<and> length (ja_Events c) \<le> MaxClosureEvents \<and>
    hd_ChainKey (ja_Head c) = ChainKey \<and> hd_Revision (ja_Head c) = int (length (ja_Events c)) \<and>
    head_ok (hd_Revision (ja_Head c)) (hd_HeadEventID (ja_Head c)) \<and>
    (ja_Events c \<noteq> [] \<longrightarrow> validateClosureHistory (ja_Head c) (ja_Events c) = Inr ()) \<and>
    (\<forall>r\<in>set (ja_Registrations c). RegistrationRecord_validate r = Inr () \<and>
       rb_StoreID (rp_Binding (rr_Payload r)) = ja_StoreID c \<and> anchored c r) \<and>
    distinct (map rr_ID (ja_Registrations c)) \<and> distinct (map (rp_RequestID \<circ> rr_Payload) (ja_Registrations c)) \<and>
    int (length (ja_Registrations c)) \<le> MaxRegistrationEvents \<and>
    catalog_bytes (ja_Registrations c) \<le> MaxRegistrationCatalogBytes"

definition sorted_authority :: "JointAuthorityInput \<Rightarrow> JointAuthorityInput" where
  "sorted_authority i = i\<lparr>ja_Events := sort_key (\<lambda>e. (er_Revision e, er_ID e)) (ja_Events i),
     ja_Registrations := sort_key rr_ID (ja_Registrations i)\<rparr>"

lemma sorted_authority_fields:
  "ja_Events (sorted_authority i) = sort_key (\<lambda>e. (er_Revision e, er_ID e)) (ja_Events i)"
  "ja_Registrations (sorted_authority i) = sort_key rr_ID (ja_Registrations i)"
  by (simp_all add: sorted_authority_def)

lemma sorted_authority_fold:
  "i\<lparr>ja_Events := ja_Events (sorted_authority i), ja_Registrations := ja_Registrations (sorted_authority i)\<rparr> = sorted_authority i"
  by (simp add: sorted_authority_def)

lemma sorted_authority_simps:
  "ja_StoreID (sorted_authority i) = ja_StoreID i" "ja_Head (sorted_authority i) = ja_Head i"
  "length (ja_Events (sorted_authority i)) = length (ja_Events i)"
  "length (ja_Registrations (sorted_authority i)) = length (ja_Registrations i)"
  by (simp_all add: sorted_authority_def)

lemma ex_unit: "(\<exists>x::unit. P x) \<longleftrightarrow> P ()"
  by auto

lemma if_unit: "(if b then Inr () else m) = Inr (u :: unit) \<longleftrightarrow> (\<not> b \<longrightarrow> m = Inr ())"
  by auto

lemma canonicalJointAuthority_Inr:
  "canonicalJointAuthority i = Inr c \<longleftrightarrow> c = sorted_authority i \<and> authority_ok c"
proof -
  let ?c = "sorted_authority i"
  have loop: "registration_loop ?c 0 None {} 2 (ja_Registrations ?c) = Inr () \<longleftrightarrow>
     (\<forall>r\<in>set (ja_Registrations ?c). RegistrationRecord_validate r = Inr () \<and>
       rb_StoreID (rp_Binding (rr_Payload r)) = ja_StoreID ?c \<and> anchored ?c r) \<and>
     distinct (map rr_ID (ja_Registrations ?c)) \<and> distinct (map (rp_RequestID \<circ> rr_Payload) (ja_Registrations ?c)) \<and>
     int (length (ja_Registrations ?c)) \<le> MaxRegistrationEvents \<and>
     catalog_bytes (ja_Registrations ?c) \<le> MaxRegistrationCatalogBytes"
    if "int (length (ja_Registrations i)) \<le> MaxRegistrationEvents"
    using that adjacent_dup_sorted [of rr_ID "ja_Registrations ?c"]
    by (simp add: registration_loop_Inr catalog_bytes_sum)
      (auto simp: sorted_authority_def MaxRegistrationCatalogBytes_def)
  have "canonicalJointAuthority i = Inr c \<longleftrightarrow> canonical_string 200 (ja_StoreID i) \<and>
    length (ja_Events i) \<le> MaxClosureEvents \<and> int (length (ja_Registrations i)) \<le> MaxRegistrationEvents \<and>
    hd_ChainKey (ja_Head i) = ChainKey \<and> hd_Revision (ja_Head i) = int (length (ja_Events i)) \<and>
    head_ok (hd_Revision (ja_Head i)) (hd_HeadEventID (ja_Head i)) \<and>
    (ja_Events ?c \<noteq> [] \<longrightarrow> validateClosureHistory (ja_Head i) (ja_Events ?c) = Inr ()) \<and>
    registration_loop ?c 0 None {} 2 (ja_Registrations ?c) = Inr () \<and> ?c = c"
    unfolding canonicalJointAuthority_def Let_def cloneClosureEvents_id sorted_authority_def [symmetric]
      sorted_authority_fields [symmetric] and_then_Inr wrap_Inr if_Inl_eq_Inr validateCanonicalString_iff not_less
      validateExpectedHead_Inr de_Morgan_disj not_not if_unit
    by (simp only: ex_unit simp_thms ex_simps sum.inject sorted_authority_fold conj_assoc)
  moreover have "authority_ok ?c \<longleftrightarrow> canonical_string 200 (ja_StoreID i) \<and>
    length (ja_Events i) \<le> MaxClosureEvents \<and> int (length (ja_Registrations i)) \<le> MaxRegistrationEvents \<and>
    hd_ChainKey (ja_Head i) = ChainKey \<and> hd_Revision (ja_Head i) = int (length (ja_Events i)) \<and>
    head_ok (hd_Revision (ja_Head i)) (hd_HeadEventID (ja_Head i)) \<and>
    (ja_Events ?c \<noteq> [] \<longrightarrow> validateClosureHistory (ja_Head i) (ja_Events ?c) = Inr ()) \<and>
    registration_loop ?c 0 None {} 2 (ja_Registrations ?c) = Inr ()"
    unfolding authority_ok_def sorted_authority_simps using loop [unfolded sorted_authority_simps] by argo
  ultimately show ?thesis by metis
qed

lemma authority_events:
  assumes "authority_ok c"
  shows "\<forall>e\<in>set (ja_Events c). closure_event_ok e" and "hd_Revision (ja_Head c) = int (length (ja_Events c))"
proof -
  show "\<forall>e\<in>set (ja_Events c). closure_event_ok e"
    using assms chained_events by (cases "ja_Events c = []")
      (auto simp: authority_ok_def validateClosureHistory_Inr history_ok_def)
  show "hd_Revision (ja_Head c) = int (length (ja_Events c))" using assms by (simp add: authority_ok_def)
qed

section \<open>One lineage of an accepted cut\<close>

definition joint_authority :: "JointCutInput \<Rightarrow> JointAuthorityInput" where
  "joint_authority i = sorted_authority
    \<lparr>ja_StoreID = jc_StoreID i, ja_Head = jc_Head i, ja_Events = jc_Events i, ja_Registrations = jc_Registrations i\<rparr>"

definition joint_lineage :: "JointCutInput \<Rightarrow> JointLineageInput" where
  "joint_lineage i = \<lparr>jl_LineageKey = jc_LineageKey i, jl_Basis = jc_Basis i,
    jl_Members = sort_key jm_NodeID (jc_Members i), jl_Edges = sort_key eg_ID (jc_Edges i),
    jl_ObjectClaims = sort_key oc_NodeID (jc_ObjectClaims i)\<rparr>"

lemma ProjectJointCurrentness_Inr:
  assumes "ProjectJointCurrentness i = Inr p"
  obtains rep complete where "authority_ok (joint_authority i)" and "replayJointMembership (joint_authority i) = Inr rep"
    and "Basis_Key (jc_Basis i) = Inr (jc_LineageKey i)"
    and "validateJointMaterialization (joint_lineage i) rep = Inr ()"
    and "validateObjectClaimCoverage (jc_LineageKey i) (map JointMemberRecord_legacy (jl_Members (joint_lineage i)))
      (legacy_map (jr_members rep)) (jl_ObjectClaims (joint_lineage i)) = Inr complete"
    and "jp_ClosureAvailable p \<longleftrightarrow> complete \<and> jc_Members i \<noteq> []"
    and "elems (jp_FrontierNodeIDs p) =
      frontier_nodes (jl_Edges (joint_lineage i)) (map JointMemberRecord_legacy (jl_Members (joint_lineage i)))"
    and "elems (jp_Nodes p) =
      (let ms = map JointMemberRecord_legacy (jl_Members (joint_lineage i)); eds = jl_Edges (joint_lineage i)
       in map (\<lambda>m. (if complete \<and> jc_Members i \<noteq> [] then settle (length (frontier_nodes eds ms)) else id)
            (node_currentness eds m)) ms)"
proof -
  have settle: "joint_settle n = settle n" for n
    by (rule ext) (simp add: joint_settle_def settle_def)
  obtain auth where prep: "PrepareJointAuthority
        \<lparr>ja_StoreID = jc_StoreID i, ja_Head = jc_Head i, ja_Events = jc_Events i,
         ja_Registrations = jc_Registrations i\<rparr> = Inr auth"
    and proj: "ProjectLineage (Some auth)
        \<lparr>jl_LineageKey = jc_LineageKey i, jl_Basis = jc_Basis i, jl_Members = jc_Members i,
         jl_Edges = jc_Edges i, jl_ObjectClaims = jc_ObjectClaims i\<rparr> = Inr p"
    using assms unfolding ProjectJointCurrentness_def if_Inl_eq_Inr and_then_Inr by blast
  obtain rep where ok: "authority_ok (joint_authority i)" and rep: "replayJointMembership (joint_authority i) = Inr rep"
    and auth: "pj_replay auth = rep" "pj_legacyMembers auth = legacy_map (jr_members rep)"
    using prep unfolding PrepareJointAuthority_def and_then_Inr canonicalJointAuthority_Inr Let_def
    by (auto simp: joint_authority_def legacy_map_def)
  have lin: "canonicalJointLineage \<lparr>jl_LineageKey = jc_LineageKey i, jl_Basis = jc_Basis i, jl_Members = jc_Members i,
         jl_Edges = jc_Edges i, jl_ObjectClaims = jc_ObjectClaims i\<rparr> = Inr l \<longleftrightarrow>
      length (jc_Members i) \<le> MaxClosureMembers \<and> length (jc_Edges i) \<le> MaxClosureEdges \<and>
      length (jc_ObjectClaims i) \<le> MaxClosureObjectClaims \<and>
      Basis_Key (jc_Basis i) = Inr (jc_LineageKey i) \<and> l = joint_lineage i" for l
    by (auto simp: canonicalJointLineage_def joint_lineage_def if_Inl_eq_Inr not_less)
  have sel: "jl_LineageKey (joint_lineage i) = jc_LineageKey i" by (simp add: joint_lineage_def)
  have len: "0 < length (map f (jl_Members (joint_lineage i))) \<longleftrightarrow> jc_Members i \<noteq> []" for f :: "JointMemberRecord \<Rightarrow> ClosureMemberRecord"
    by (simp add: joint_lineage_def)
  show thesis
    using proj unfolding ProjectLineage_def option.case and_then_Inr lin Let_def if_Inl_eq_Inr auth settle len ex_unit
    by (elim exE conjE, hypsubst, unfold sel len)
      (rule that [OF ok rep], assumption+, unfold sum.inject, (hypsubst, simp (no_asm) add: buildCurrentnessProjection_def Let_def)+)
qed

text \<open>The joint rows, read as legacy rows, are the selected lineage of the abstract run.\<close>

lemma map_legacy_match:
  assumes "match_rows d f jm_NodeID g None rows = Inr ()"
  shows "match_rows d f mb_NodeID (legacy_map g) None (map JointMemberRecord_legacy rows) = Inr ()"
proof -
  have "adjacent_dup mb_NodeID (map JointMemberRecord_legacy rows) = adjacent_dup jm_NodeID rows"
    by (simp add: adjacent_dup_map comp_def)
  then show ?thesis using assms by (simp add: match_rows_Inr)
qed

lemma joint_materialized:
  assumes ok: "authority_ok auth" and rep: "replayJointMembership auth = Inr rep"
    and mat: "validateJointMaterialization lin rep = Inr ()"
    and sorted: "sorted (map jm_NodeID (jl_Members lin))" "sorted (map eg_ID (jl_Edges lin))"
  shows "reachable (joint_run auth)"
    and "materialized (jl_LineageKey lin) (joint_run auth) (map JointMemberRecord_legacy (jl_Members lin)) (jl_Edges lin)"
proof -
  obtain s where reach: "reachable (joint_run auth)" and sim: "joint_sim s (joint_run auth)"
    and r: "rep = \<lparr>jr_members = js_global s,
           jr_lineageMembers = (\<lambda>lk. filter (\<lambda>(n, m). jm_LineageKey m = lk) (js_global s)),
           jr_lineageEdges = js_edges s\<rparr>"
    using joint_replay_ok [OF rep authority_events [OF ok]] .
  show "reachable (joint_run auth)" by (rule reach)
  let ?lk = "jl_LineageKey lin" and ?ms = "map JointMemberRecord_legacy (jl_Members lin)"
  have sim': "closure_sim ?lk (legacy_map (js_global s), js_edges s ?lk) (joint_run auth)"
    using sim by (simp add: joint_sim_def joint_view_def)
  obtain d f d' f' where count: "length (jl_Members lin) = length (filter (\<lambda>(n, m). jm_LineageKey m = ?lk) (js_global s))"
      "length (jl_Edges lin) = length (js_edges s ?lk)"
    and ms: "match_rows d f jm_NodeID (filter (\<lambda>(n, m). jm_LineageKey m = ?lk) (js_global s)) None (jl_Members lin) = Inr ()"
    and eds: "match_rows d' f' eg_ID (js_edges s ?lk) None (jl_Edges lin) = Inr ()"
    using mat unfolding validateJointMaterialization_def r Let_def if_Inl_eq_Inr and_then_Inr by auto
  have "length ?ms = length (filter (\<lambda>(n, m). mb_LineageKey m = ?lk) (legacy_map (js_global s)))"
    using count(1) unfolding legacy_map_filter [symmetric] by (simp add: legacy_map_def)
  moreover have "map mb_NodeID ?ms = map jm_NodeID (jl_Members lin)" by simp
  ultimately show "materialized ?lk (joint_run auth) ?ms (jl_Edges lin)"
    using rows_materialized [OF sim' _ count(2) map_legacy_match [OF ms, unfolded legacy_map_filter] eds _ sorted(2)] sorted(1)
    by (simp add: comp_def)
qed

end
