(* ===== verification/JointCurrentness.thy ===== *)
theory JointCurrentness
  imports JointProjection
begin

text \<open>
  The properties of the joint projection: it refines the abstract lineage machine, agrees with the
  closure projection on cuts without registrations, bounds its catalog and fails with two sentinels.
\<close>

section \<open>Cuts without registrations\<close>

lemma joint_target_back:
  assumes "enroll_target e (legacy_map (js_global s)) t = Inr g"
  obtains s' where "joint_target e s t = Inr s'" and "g = legacy_map (js_global s')"
proof -
  have "\<exists>s'. joint_target e s t = Inr s'"
    using assms by (auto simp: joint_target_def enroll_target_def Let_def split: option.splits if_splits)
  with that joint_target_view assms show thesis by fastforce
qed

lemma joint_targets_back:
  assumes "fold_res (enroll_target e) (legacy_map (js_global s)) ts = Inr g"
  shows "\<exists>s'. fold_res (joint_target e) s ts = Inr s'"
  using assms
proof (induction ts arbitrary: s)
  case (Cons t ts)
  then obtain h where h: "enroll_target e (legacy_map (js_global s)) t = Inr h" "fold_res (enroll_target e) h ts = Inr g"
    by (auto simp: and_then_Inr)
  obtain s' where "joint_target e s t = Inr s'" "h = legacy_map (js_global s')" using joint_target_back [OF h(1)] .
  with Cons.IH [of s'] h(2) show ?case by simp
qed simp

lemma joint_event_back:
  assumes "replay_event lk (joint_view lk s) e = Inr x"
  shows "\<exists>s'. joint_event s e = Inr s' \<and> x = joint_view lk s'"
proof -
  have "\<exists>s'. joint_event s e = Inr s'"
    using assms joint_targets_back unfolding joint_view_def replay_event.simps joint_event_def
    by (fastforce simp: and_then_Inr if_Inl_eq_Inr)
  then show ?thesis using joint_event_view(1) assms by fastforce
qed

lemma joint_events_back:
  assumes "fold_res (replay_event lk) (joint_view lk s) es = Inr x"
  shows "\<exists>s'. fold_res joint_event s es = Inr s' \<and> x = joint_view lk s'"
  using assms
proof (induction es arbitrary: s)
  case (Cons e es)
  then obtain h where h: "replay_event lk (joint_view lk s) e = Inr h" "fold_res (replay_event lk) h es = Inr x"
    by (auto simp: and_then_Inr)
  then obtain s' where "joint_event s e = Inr s'" "h = joint_view lk s'" using joint_event_back by blast
  with Cons.IH [of s'] h(2) show ?case by simp
qed simp

lemma joint_revisions_events:
  assumes "ja_Registrations auth = []"
  shows "fold_res (joint_revision auth) s [0..<Suc (length (ja_Events auth))] = fold_res joint_event s (ja_Events auth)"
proof -
  have none: "registrations_at auth n = []" for n using assms by (simp add: registrations_at_def)
  have "fold_res (joint_revision auth) s [0..<Suc n] = fold_res joint_event s (take n (ja_Events auth))"
    if "n \<le> length (ja_Events auth)" for n
    using that
  proof (induction n)
    case 0
    show ?case by (simp add: joint_revision_def none)
  next
    case (Suc n)
    then have "joint_revision auth s (Suc n) = joint_event s (ja_Events auth ! n)" for s
      by (cases "joint_event s (ja_Events auth ! n)") (simp_all add: joint_revision_def none)
    with Suc have "fold_res (joint_revision auth) s ([0..<Suc n] @ [Suc n]) =
        fold_res joint_event s (take n (ja_Events auth) @ [ja_Events auth ! n])"
      by (simp only: fold_res_append fold_res.simps Suc_leD)
    then show ?case using Suc.prems by (simp add: take_Suc_conv_app_nth)
  qed
  from this [OF order_refl] show ?thesis by simp
qed

text \<open>Every member of such a run has a replacement or a bootstrap for its origin.\<close>

definition joint_of_legacy :: "ClosureMemberRecord \<Rightarrow> JointMemberRecord" where
  "joint_of_legacy m = \<lparr>jm_NodeID = mb_NodeID m, jm_LineageKey = mb_LineageKey m,
    jm_Origin = \<lparr>mo_Kind = (if mb_WasBootstrapped m then MembershipBootstrap else MembershipReplacement),
                 mo_EventID = mb_FirstAdmissionEventID m\<rparr>\<rparr>"

lemma legacy_joint_of_legacy [simp]: "JointMemberRecord_legacy (joint_of_legacy m) = m"
  by (simp add: JointMemberRecord_legacy_def joint_of_legacy_def)

definition admitted_member :: "JointMemberRecord \<Rightarrow> bool" where
  "admitted_member m \<longleftrightarrow> m = joint_of_legacy (JointMemberRecord_legacy m)"

lemma admitted_member_origin [simp]:
  "admitted_member \<lparr>jm_NodeID = n, jm_LineageKey = l, jm_Origin = \<lparr>mo_Kind = MembershipBootstrap, mo_EventID = e\<rparr>\<rparr>"
  "admitted_member \<lparr>jm_NodeID = n, jm_LineageKey = l, jm_Origin = \<lparr>mo_Kind = MembershipReplacement, mo_EventID = e\<rparr>\<rparr>"
  by (simp_all add: admitted_member_def joint_of_legacy_def JointMemberRecord_legacy_def)

definition admitted_origins :: "joint_state \<Rightarrow> bool" where
  "admitted_origins s \<longleftrightarrow> (\<forall>n m. map_of (js_global s) n = Some m \<longrightarrow> admitted_member m)"

lemma admitted_target:
  assumes "admitted_origins s" and "joint_target e s t = Inr s'"
  shows "admitted_origins s'"
  using assms unfolding joint_target_def Let_def
  by (auto simp: admitted_origins_def map_of_update split: option.splits if_splits)

lemma admitted_event:
  assumes "admitted_origins s" and "joint_event s e = Inr s'"
  shows "admitted_origins s'"
proof -
  obtain h where run: "fold_res (joint_target e) s (ev_TargetNodeIDs (er_Payload e)) = Inr h"
    and s': "js_global s' = AList.update (er_ReplacementNodeID e)
           \<lparr>jm_NodeID = er_ReplacementNodeID e, jm_LineageKey = er_LineageKey e,
            jm_Origin = \<lparr>mo_Kind = MembershipReplacement, mo_EventID = er_ID e\<rparr>\<rparr> (js_global h)"
    using assms(2) unfolding joint_event_def by (auto simp: and_then_Inr if_Inl_eq_Inr)
  have "admitted_origins h"
    using run assms(1) admitted_target by (rule fold_res_invariant [where I = admitted_origins])
  then show ?thesis by (simp add: admitted_origins_def s' map_of_update)
qed

lemma admitted_events:
  assumes "fold_res joint_event joint_start es = Inr s"
  shows "admitted_origins s"
proof -
  have "admitted_origins joint_start" by (simp add: admitted_origins_def joint_start_def)
  then show ?thesis using admitted_event by (rule fold_res_invariant [where I = admitted_origins, OF assms])
qed

lemma map_insort_key: "insort_key k (f x) (map f xs) = map f (insort_key (k \<circ> f) x xs)"
  by (induction xs) auto

lemma sort_key_map_comp: "sort_key k (map f xs) = map f (sort_key (k \<circ> f) xs)"
  by (induction xs) (simp_all add: map_insort_key del: comp_apply)

lemma joint_of_legacy_node: "jm_NodeID \<circ> joint_of_legacy = mb_NodeID"
  by (rule ext) (simp add: joint_of_legacy_def)

definition joint_of_cut :: "string \<Rightarrow> ClosureCutInput \<Rightarrow> JointCutInput" where
  "joint_of_cut st i = \<lparr>jc_ContractVersion = JointCutContractV1, jc_StoreID = st, jc_LineageKey = ci_LineageKey i,
    jc_Basis = ci_Basis i, jc_Head = ci_Head i, jc_Events = ci_Events i, jc_Registrations = [],
    jc_Members = map joint_of_legacy (ci_Members i), jc_Edges = ci_Edges i, jc_ObjectClaims = ci_ObjectClaims i\<rparr>"

definition cut_authority :: "string \<Rightarrow> ClosureCutInput \<Rightarrow> JointAuthorityInput" where
  "cut_authority st i = \<lparr>ja_StoreID = st, ja_Head = ci_Head i, ja_Events = cut_events i, ja_Registrations = []\<rparr>"

definition cut_lineage :: "ClosureCutInput \<Rightarrow> JointLineageInput" where
  "cut_lineage i = \<lparr>jl_LineageKey = ci_LineageKey i, jl_Basis = ci_Basis i, jl_Members = map joint_of_legacy (cut_members i),
    jl_Edges = cut_edges i, jl_ObjectClaims = cut_claims i\<rparr>"

lemma validAdmissionEventID_event: "closure_event_ok e \<Longrightarrow> validAdmissionEventID (er_ID e)"
proof -
  have "has_prefix (p @ s) p" "trim_prefix (p @ s) p = s" for p s :: string by simp_all
  then show "closure_event_ok e \<Longrightarrow> validAdmissionEventID (er_ID e)"
    unfolding validAdmissionEventID_def by (simp only: closure_event_facts(3) validHash_hashJSON simp_thms)
qed

lemma cut_authority_ok:
  assumes cut: "validateAndCanonicalizeClosureCut i = Inr c" and st: "canonical_string 200 st"
  shows "canonicalJointAuthority \<lparr>ja_StoreID = st, ja_Head = ci_Head i, ja_Events = ci_Events i, ja_Registrations = []\<rparr> =
    Inr (cut_authority st i)"
proof -
  have head: "validateClosureHead (ci_Head i) (length (ci_Events i)) = Inr ()" "length (ci_Events i) \<le> MaxClosureEvents"
    and hist: "validateClosureHistory (ci_Head i) (cut_events i) = Inr ()"
    using cut by (simp_all add: cut_Inr)
  then have "cut_events i \<noteq> []" "er_ID (last (cut_events i)) = hd_HeadEventID (ci_Head i)"
    by (simp_all add: validateClosureHistory_Inr)
  moreover have "closure_event_ok (last (cut_events i))"
    using cut_events_ok(1) [OF cut] \<open>cut_events i \<noteq> []\<close> by simp
  ultimately have "validAdmissionEventID (hd_HeadEventID (ci_Head i))"
    using validAdmissionEventID_event by metis
  moreover have "length (cut_events i) = length (ci_Events i)" by (simp add: cut_events_def)
  moreover have "sorted_authority \<lparr>ja_StoreID = st, ja_Head = ci_Head i, ja_Events = ci_Events i, ja_Registrations = []\<rparr> =
      cut_authority st i"
    by (simp add: sorted_authority_def cut_authority_def cut_events_def)
  ultimately show ?thesis
    using head hist st unfolding canonicalJointAuthority_Inr authority_ok_def cut_authority_def
    by (auto simp: validateClosureHead_def if_Inl_eq_Inr head_ok_def catalog_bytes_sum MaxRegistrationCatalogBytes_def
        MaxRegistrationEvents_def split: if_splits)
qed

text \<open>The replay of a cut without registrations is the replay of the closure projection.\<close>

lemma cut_replay_ok:
  assumes cut: "validateAndCanonicalizeClosureCut i = Inr c"
    and mat: "validateClosureMaterialization (ci_LineageKey i) (cut_events i) (cut_members i) (cut_edges i) = Inr g"
  obtains rep where "replayJointMembership (cut_authority st i) = Inr rep" and "legacy_map (jr_members rep) = g"
    and "validateJointMaterialization (cut_lineage i) rep = Inr ()"
proof -
  let ?lk = "ci_LineageKey i"
  obtain ed where replay: "fold_res (replay_event ?lk) (joint_view ?lk joint_start) (cut_events i) = Inr (g, ed)"
    and count: "length (cut_members i) = length (filter (\<lambda>(n, m). mb_LineageKey m = ?lk) g)" "length (cut_edges i) = length ed"
    and ms: "match_rows ''duplicate member'' ''member differs from event replay'' mb_NodeID
      (filter (\<lambda>(n, m). mb_LineageKey m = ?lk) g) None (cut_members i) = Inr ()"
    and eds: "match_rows ''duplicate edge'' ''edge differs from event replay'' eg_ID ed None (cut_edges i) = Inr ()"
    using mat unfolding validateClosureMaterialization_def
    by (auto simp: and_then_Inr if_Inl_eq_Inr Let_def joint_view_def joint_start_def legacy_map_def split: prod.splits)
  obtain s where s: "fold_res joint_event joint_start (cut_events i) = Inr s" and view: "(g, ed) = joint_view ?lk s"
    using joint_events_back [OF replay] by blast
  then have g: "g = legacy_map (js_global s)" and ed: "ed = js_edges s ?lk" by (simp_all add: joint_view_def)
  have "hd_Revision (ci_Head i) = int (length (cut_events i))"
    using cut by (simp add: cut_Inr validateClosureHead_def if_Inl_eq_Inr cut_events_def)
  then have n: "nat (hd_Revision (ja_Head (cut_authority st i)) + 1) = Suc (length (ja_Events (cut_authority st i)))"
    by (simp add: cut_authority_def)
  have run: "fold_res (joint_revision (cut_authority st i)) joint_start [0..<Suc (length (ja_Events (cut_authority st i)))] = Inr s"
    using joint_revisions_events [of "cut_authority st i" joint_start] s by (simp add: cut_authority_def)
  let ?rep = "\<lparr>jr_members = js_global s,
           jr_lineageMembers = (\<lambda>lk. filter (\<lambda>(n, m). jm_LineageKey m = lk) (js_global s)),
           jr_lineageEdges = js_edges s\<rparr>"
  have rep: "replayJointMembership (cut_authority st i) = Inr ?rep"
    unfolding replayJointMembership_def n run by simp
  let ?sel = "filter (\<lambda>(n, m). jm_LineageKey m = ?lk) (js_global s)"
  have sel: "filter (\<lambda>(n, m). mb_LineageKey m = ?lk) g = legacy_map ?sel" by (simp add: g legacy_map_filter)
  have "gomap (legacy_map (js_global s))"
  proof -
    have "\<forall>x\<in>set (map Admitted (cut_events i)). joint_ok x" using cut_events_ok(1) [OF cut] by simp
    moreover have "fold_res joint_body joint_start (map Admitted (cut_events i)) = Inr s" using s by (simp add: fold_res_map)
    ultimately have "joint_sim s (foldl joint_effect lineage_empty (map Admitted (cut_events i)))"
      using joint_run.simulated by blast
    then show ?thesis unfolding joint_sim_def joint_view_def using closure_simD(1) by blast
  qed
  then have gm: "gomap (js_global s)" by simp
  have rows: "map_of ?sel (jm_NodeID (joint_of_legacy m)) = Some (joint_of_legacy m)" if "m \<in> set (cut_members i)" for m
  proof -
    have "map_of (legacy_map ?sel) (mb_NodeID m) = Some m" using ms that unfolding sel match_rows_Inr by blast
    then obtain x where x: "map_of ?sel (mb_NodeID m) = Some x" "JointMemberRecord_legacy x = m" by auto
    then have "map_of (js_global s) (mb_NodeID m) = Some x"
      by (auto simp: map_of_filter_gomap [OF gm] split: option.splits if_splits)
    then have "admitted_member x" using admitted_events [OF s] unfolding admitted_origins_def by blast
    then have "x = joint_of_legacy m" using x(2) by (simp add: admitted_member_def)
    then show ?thesis using x(1) by (simp add: joint_of_legacy_def)
  qed
  have "match_rows d f jm_NodeID ?sel None (map joint_of_legacy (cut_members i)) = Inr ()" for d f
    using rows ms by (simp add: match_rows_Inr adjacent_dup_map joint_of_legacy_node)
  moreover have "match_rows d f eg_ID (js_edges s ?lk) None (cut_edges i) = Inr ()" for d f
    using eds by (simp add: match_rows_Inr ed)
  moreover have "length (cut_members i) = length ?sel" using count(1) unfolding sel by (simp add: legacy_map_def)
  ultimately have "validateJointMaterialization (cut_lineage i) ?rep = Inr ()"
    using count(2) by (simp add: validateJointMaterialization_def cut_lineage_def ed)
  with that rep g show thesis by (metis jointReplay.select_convs(1))
qed

lemma ProjectLineage_forward:
  assumes "canonicalJointLineage input = Inr lin" and "validateJointMaterialization lin (pj_replay auth) = Inr ()"
    and "map JointMemberRecord_legacy (jl_Members lin) = ms"
    and "validateObjectClaimCoverage (jl_LineageKey lin) ms (pj_legacyMembers auth) (jl_ObjectClaims lin) = Inr complete"
    and "\<not> closureEdgesContainCycle ms (jl_Edges lin)"
  shows "\<exists>q. ProjectLineage (Some auth) input = Inr q \<and> jp_ClosureAvailable q = (complete \<and> ms \<noteq> []) \<and>
    jp_FrontierNodeIDs q = Some (frontier_nodes (jl_Edges lin) ms) \<and>
    jp_Nodes q = Some (map ((if complete \<and> ms \<noteq> [] then settle (length (frontier_nodes (jl_Edges lin) ms)) else id) \<circ>
      node_currentness (jl_Edges lin)) ms)"
proof -
  have settle: "joint_settle n = settle n" for n
    by (rule ext) (simp add: joint_settle_def settle_def)
  show ?thesis
    unfolding ProjectLineage_def option.case assms(1,2,3,4) and_then.simps Let_def if_not_P [OF assms(5)] settle
    by (rule exI, rule conjI, rule refl) (simp add: buildCurrentnessProjection_def)
qed

section \<open>Errors\<close>

abbreviation "joint_sentinels \<equiv> {ErrInvalidClosureCut, ErrClosureLimitExceeded}"

lemma fails_registration_loop:
  "0 \<le> used \<Longrightarrow> 2 \<le> used \<Longrightarrow> fails_with joint_sentinels (registration_loop auth i prev requests used rs)"
proof (induction rs arbitrary: i prev requests used)
  case (Cons r rs)
  have cap: "fails_with joint_sentinels (ValidateRegistrationCatalogCapacity (int i + 1) b)" if "2 \<le> b" for b
    using that by (simp add: ValidateRegistrationCatalogCapacity_def)
  show ?case
    unfolding registration_loop.simps Let_def
    using Cons.prems by (intro fails_and_then fails_wrap fails_if cap Cons.IH) auto
qed simp

lemma fails_joint_authority: "fails_with joint_sentinels (canonicalJointAuthority i)"
proof -
  let ?es = "sort_key (\<lambda>e. (er_Revision e, er_ID e)) (ja_Events i)"
  have hist: "fails_with {ErrInvalidClosureCut} (validateClosureHistory (ja_Head i) ?es)" if "?es \<noteq> []"
    using that unfolding validateClosureHistory_def by (intro fails_and_then fails_history_loop) auto
  have "fails_with joint_sentinels (if ?es = [] then Inr () else validateClosureHistory (ja_Head i) ?es)"
    using fails_mono [OF hist] by (cases "?es = []") auto
  then show ?thesis
    unfolding canonicalJointAuthority_def Let_def cloneClosureEvents_id
    by (intro fails_and_then fails_wrap fails_if fails_registration_loop) simp_all
qed

text \<open>The prepared cut has an event for every revision, so that the replay never indexes out of range.\<close>

lemma fails_joint_replay:
  assumes "hd_Revision (ja_Head auth) = int (length (ja_Events auth))"
  shows "fails_with {ErrInvalidClosureCut} (replayJointMembership auth)"
proof -
  have target: "fails_with {ErrInvalidClosureCut} (joint_target e s t)" for e s t
    by (auto simp: joint_target_def Let_def split: option.split)
  have event: "fails_with {ErrInvalidClosureCut} (joint_event s e)" for s e
    unfolding joint_event_def by (intro fails_if fails_and_then fails_fold_res target) simp_all
  have reg: "fails_with {ErrInvalidClosureCut} (joint_registration s r)" for s r
    unfolding joint_registration_def Let_def by (intro fails_if) simp_all
  have "fails_with {ErrInvalidClosureCut} (joint_revision auth s n)"
    if "n \<in> set [0..<nat (hd_Revision (ja_Head auth) + 1)]" for s n
    using that assms unfolding joint_revision_def by (intro fails_and_then fails_if fails_fold_res event reg) auto
  then show ?thesis
    unfolding replayJointMembership_def by (intro fails_and_then fails_fold_res) simp_all
qed

lemma fails_joint_lineage: "fails_with joint_sentinels (ProjectLineage authority input)"
proof -
  have "fails_with joint_sentinels (canonicalJointLineage i)" for i
    unfolding canonicalJointLineage_def by (intro fails_if) simp_all
  moreover have "fails_with joint_sentinels (validateJointMaterialization l rep)" for l rep
    unfolding validateJointMaterialization_def Let_def
    by (intro fails_if fails_and_then fails_mono [OF fails_match_rows]) simp_all
  moreover have "fails_with joint_sentinels (validateObjectClaimCoverage lk ms g cs)" for lk ms g cs
    by (rule fails_mono [OF fails_coverage]) simp
  ultimately show ?thesis
    unfolding ProjectLineage_def Let_def
    by (cases authority) (simp, simp only: option.case, intro fails_and_then fails_if, simp_all)
qed

lemma joint_agrees:
  assumes "ProjectCurrentness i = Inr p" and "validateCanonicalString ''store_id'' st 200 = Inr ()"
  shows "\<exists>q. ProjectJointCurrentness (joint_of_cut st i) = Inr q \<and> jp_ClosureAvailable q = cp_ClosureAvailable p \<and>
    jp_FrontierNodeIDs q = cp_FrontierNodeIDs p \<and> jp_Nodes q = cp_Nodes p"
proof -
  obtain c where cut: "validateAndCanonicalizeClosureCut i = Inr c"
    and p: "p = (let b = buildCurrentnessProjection c; fs = frontier_nodes (cc_edges c) (cc_members c)
         in if cc_coverageComplete c
            then b\<lparr>cp_Nodes := Some (map (settle (length fs) \<circ> node_currentness (cc_edges c)) (cc_members c)),
                   cp_ClosureAvailable := True, cp_Witness := Some (newClosureWitness c fs)\<rparr>
            else b)"
    using assms(1) unfolding ProjectCurrentness_Inr by blast
  obtain g complete where mat: "validateClosureMaterialization (ci_LineageKey i) (cut_events i) (cut_members i) (cut_edges i) = Inr g"
    and cyc: "\<not> closureEdgesContainCycle (cut_members i) (cut_edges i)"
    and cl: "validateObjectClaimCoverage (ci_LineageKey i) (cut_members i) g (cut_claims i) = Inr complete"
    and c: "c = canonical_cut i complete"
    and rest: "length (ci_Members i) \<le> MaxClosureMembers" "length (ci_Edges i) \<le> MaxClosureEdges"
      "length (ci_ObjectClaims i) \<le> MaxClosureObjectClaims" "Basis_Key (ci_Basis i) = Inr (ci_LineageKey i)"
    using cut unfolding cut_Inr by blast
  have "cut_members i \<noteq> []" by (rule materialization_ok(2) [OF mat cut_events_ok(1) [OF cut] cut_sorted(1,2)])
  obtain rep where rep: "replayJointMembership (cut_authority st i) = Inr rep" "legacy_map (jr_members rep) = g"
    "validateJointMaterialization (cut_lineage i) rep = Inr ()"
    using cut_replay_ok [OF cut mat] .
  have st: "canonical_string 200 st" using assms(2) by (simp add: validateCanonicalString_iff)
  obtain auth where auth: "PrepareJointAuthority \<lparr>ja_StoreID = st, ja_Head = ci_Head i, ja_Events = ci_Events i, ja_Registrations = []\<rparr> = Inr auth"
    "pj_replay auth = rep" "pj_legacyMembers auth = g"
    using rep(1,2) by (simp add: PrepareJointAuthority_def cut_authority_ok [OF cut st] legacy_map_def Let_def)
  have "canonicalJointLineage \<lparr>jl_LineageKey = ci_LineageKey i, jl_Basis = ci_Basis i,
      jl_Members = map joint_of_legacy (ci_Members i), jl_Edges = ci_Edges i, jl_ObjectClaims = ci_ObjectClaims i\<rparr> = Inr (cut_lineage i)"
    using rest by (simp add: canonicalJointLineage_def cut_lineage_def cut_members_def cut_edges_def cut_claims_def
        sort_key_map_comp joint_of_legacy_node)
  note q = ProjectLineage_forward [OF this, of auth "cut_members i" complete, unfolded auth]
  have "ProjectJointCurrentness (joint_of_cut st i) = ProjectLineage (Some auth) \<lparr>jl_LineageKey = ci_LineageKey i,
      jl_Basis = ci_Basis i, jl_Members = map joint_of_legacy (ci_Members i), jl_Edges = ci_Edges i,
      jl_ObjectClaims = ci_ObjectClaims i\<rparr>"
    using auth(1) by (simp add: ProjectJointCurrentness_def joint_of_cut_def)
  moreover have "\<exists>q. ProjectLineage (Some auth) \<lparr>jl_LineageKey = ci_LineageKey i,
      jl_Basis = ci_Basis i, jl_Members = map joint_of_legacy (ci_Members i), jl_Edges = ci_Edges i,
      jl_ObjectClaims = ci_ObjectClaims i\<rparr> = Inr q \<and> jp_ClosureAvailable q = complete \<and>
      jp_FrontierNodeIDs q = Some (frontier_nodes (cut_edges i) (cut_members i)) \<and>
      jp_Nodes q = Some (map ((if complete then settle (length (frontier_nodes (cut_edges i) (cut_members i))) else id) \<circ>
        node_currentness (cut_edges i)) (cut_members i))"
    using q rep(3) cl cyc \<open>cut_members i \<noteq> []\<close> by (cases complete) (simp_all add: cut_lineage_def comp_def)
  moreover have "cp_ClosureAvailable p = complete" "cp_FrontierNodeIDs p = Some (frontier_nodes (cut_edges i) (cut_members i))"
    "cp_Nodes p = Some (map ((if complete then settle (length (frontier_nodes (cut_edges i) (cut_members i))) else id) \<circ>
        node_currentness (cut_edges i)) (cut_members i))"
    unfolding p c by (simp_all add: Let_def canonical_cut_def buildCurrentnessProjection_def comp_def)
  ultimately show ?thesis by auto
qed

section \<open>A sample\<close>

lemma sample_store: "validateCanonicalString ''store_id'' ''store'' 200 = Inr ()"
  by (simp add: validateCanonicalString_iff canonical_string_def trim_solid_literal)

lemma sample_joint: "\<exists>q. ProjectJointCurrentness (joint_of_cut ''store'' sample_cut) = Inr q"
  using sample_projection joint_agrees [OF _ sample_store] by blast

lemma sample_joint_run: "supersedes (joint_run (joint_authority (joint_of_cut ''store'' sample_cut))) = {(''canon-node:b'', ''canon-node:a'')}"
proof -
  have "joint_authority (joint_of_cut ''store'' sample_cut) = cut_authority ''store'' sample_cut"
    by (simp add: joint_authority_def joint_of_cut_def cut_authority_def sorted_authority_def cut_events_def)
  moreover have "hd_Revision (ci_Head sample_cut) = 1" by (simp add: sample_cut_def sample_head_def)
  ultimately show ?thesis
    by (simp add: joint_run_def joint_log_def cut_authority_def sample_cut_lists(1) registrations_at_def upt_conv_Cons
        lineage_effect_def lineage_empty_def sample_record_simps)
qed

definition sample_binding :: RegistrationReviewBinding where
  "sample_binding = \<lparr>rb_StoreID = ''store'', rb_ClaimID = ''canon-node:c'', rb_OriginalAdmissionID = ''adm:1'',
    rb_OriginalOccurrenceID = ''occ:1'', rb_SnapshotID = ''snap'', rb_ViewID = ''view'', rb_GroundingHash = hashJSON JNull,
    rb_ObservationReceiptID = ''receipt'', rb_ObservationHash = hashJSON JNull, rb_Basis = sample_basis,
    rb_LineageKey = lineage_key sample_basis,
    rb_Anchor = \<lparr>ra_ChainKey = ChainKey, ra_Revision = 0, ra_HeadEventID = None\<rparr>,
    rb_CreationObjectManifestHash = closureObjectManifestHash sample_basis (Some [\<lparr>oc_NodeID = ''canon-node:c'', oc_LineageKey = []\<rparr>]),
    rb_GovernanceDigest = hashJSON JNull\<rparr>"

definition sample_registration :: InitialRegistrationPayload where
  "sample_registration = \<lparr>rp_ContractVersion = InitialRegistrationContractV1, rp_Binding = sample_binding,
    rp_ReviewSubjectID = reviewSubjectPrefix @ hashJSON (subject_json sample_binding), rp_RequestID = ''req'',
    rp_Reviewer = ''ann'', rp_Reason = ''first''\<rparr>"

lemma sample_registration_ok: "registration_ok sample_registration"
proof -
  have "binding_ok sample_binding"
    by (simp add: binding_ok_def sample_binding_def sample_basis_ok anchor_ok_def canonical_string_def record_id_def has_prefix_def
        trim_solid_literal)
  then show ?thesis
    by (simp add: registration_ok_def sample_registration_def canonical_string_def trim_solid_literal)
qed

section \<open>Properties\<close>

text \<open>C11. The joint projection refines the lineage machine with both kinds of steps, admitted events and
  initial registrations: the prepared authority is a run of it, the nodes listed are the members of the
  selected lineage in byte order, the frontier is the set of members that nothing supersedes, the closure is
  available exactly when every object claim is classified and the lineage has a member, and then the
  frontier is not empty.  The 64-bit edge IDs are assumed not to collide.\<close>

theorem ProjectJointCurrentness_refines:
  assumes proj: "ProjectJointCurrentness i = Inr p"
    and inj: "inj_on edge_id (supersedes (joint_run (joint_authority i)))"
  shows "reachable (joint_run (joint_authority i)) \<and>
    (let a = joint_run (joint_authority i); lk = jc_LineageKey i; F = frontier_of a lk;
         available = ((\<forall>c\<in>set (jc_ObjectClaims i). oc_LineageKey c \<noteq> []) \<and> members_of a lk \<noteq> {});
         ids = sorted_list_of_set (members_of a lk)
     in (available \<longrightarrow> F \<noteq> {}) \<and> set (elems (jp_FrontierNodeIDs p)) = F \<and> jp_ClosureAvailable p = available \<and>
        map nc_NodeID (elems (jp_Nodes p)) = ids \<and>
        map nc_Status (elems (jp_Nodes p)) = map (expected_status F available) ids)"
proof -
  let ?a = "joint_run (joint_authority i)" and ?lk = "jc_LineageKey i" and ?l = "joint_lineage i"
  let ?ms = "map JointMemberRecord_legacy (jl_Members ?l)"
  obtain rep complete where ok: "authority_ok (joint_authority i)" and rep: "replayJointMembership (joint_authority i) = Inr rep"
    and key: "Basis_Key (jc_Basis i) = Inr ?lk" and mat: "validateJointMaterialization ?l rep = Inr ()"
    and cl: "validateObjectClaimCoverage ?lk ?ms (legacy_map (jr_members rep)) (jl_ObjectClaims ?l) = Inr complete"
    and av: "jp_ClosureAvailable p \<longleftrightarrow> complete \<and> jc_Members i \<noteq> []"
    and fr: "elems (jp_FrontierNodeIDs p) = frontier_nodes (jl_Edges ?l) ?ms"
    and nodes: "elems (jp_Nodes p) = (let ms = ?ms; eds = jl_Edges ?l
       in map (\<lambda>m. (if complete \<and> jc_Members i \<noteq> [] then settle (length (frontier_nodes eds ms)) else id) (node_currentness eds m)) ms)"
    using ProjectJointCurrentness_Inr [OF proj] .
  have sorted: "sorted (map jm_NodeID (jl_Members ?l))" "sorted (map eg_ID (jl_Edges ?l))"
      "sorted (map oc_NodeID (jl_ObjectClaims ?l))" and sel: "jl_LineageKey ?l = ?lk"
    by (simp_all add: joint_lineage_def)
  have "?lk \<noteq> []" using key by (auto simp: Basis_Key_Inr lineage_key_def)
  from cl have complete: "complete \<longleftrightarrow> (\<forall>c\<in>set (jc_ObjectClaims i). oc_LineageKey c \<noteq> [])"
    unfolding validateObjectClaimCoverage_Inr [OF sorted(3) \<open>?lk \<noteq> []\<close>] by (simp add: joint_lineage_def)
  note m = joint_materialized [OF ok rep mat sorted(1,2), unfolded sel]
  have sorted': "sorted (map mb_NodeID ?ms)" using sorted(1) by (simp add: comp_def)
  note n = projected_nodes [OF m inj sorted', of "complete \<and> jc_Members i \<noteq> []"]
  have "members_of ?a ?lk = set (map mb_NodeID ?ms)" using m(2) unfolding materialized_def by blast
  then have members: "members_of ?a ?lk \<noteq> {} \<longleftrightarrow> jc_Members i \<noteq> []"
    by (simp add: joint_lineage_def)
  then show ?thesis
    using m(1) frontier_nonempty [OF m(1)] materialized_frontier(2) [OF m inj] n av fr nodes complete
    unfolding Let_def by simp
qed

theorem ProjectJointCurrentness_refines_witness:
  "\<exists>p. ProjectJointCurrentness (joint_of_cut ''store'' sample_cut) = Inr p \<and>
    reachable (joint_run (joint_authority (joint_of_cut ''store'' sample_cut)))"
proof -
  obtain p where p: "ProjectJointCurrentness (joint_of_cut ''store'' sample_cut) = Inr p" using sample_joint by blast
  have "inj_on edge_id (supersedes (joint_run (joint_authority (joint_of_cut ''store'' sample_cut))))"
    unfolding sample_joint_run by simp
  from conjunct1 [OF ProjectJointCurrentness_refines [OF p this]] p show ?thesis by blast
qed

text \<open>On a cut without registrations the joint projection is the closure projection: whenever the one
  succeeds so does the other, with the same frontier, the same node statuses and the same availability.\<close>

theorem joint_agrees_without_registrations:
  assumes "ProjectCurrentness i = Inr p" and "validateCanonicalString ''store_id'' st 200 = Inr ()"
  shows "\<exists>q. ProjectJointCurrentness (joint_of_cut st i) = Inr q \<and> jp_ClosureAvailable q = cp_ClosureAvailable p \<and>
    jp_FrontierNodeIDs q = cp_FrontierNodeIDs p \<and> jp_Nodes q = cp_Nodes p"
  using assms by (rule joint_agrees)

theorem joint_agrees_without_registrations_witness:
  "\<exists>q. ProjectJointCurrentness (joint_of_cut ''store'' sample_cut) = Inr q"
proof -
  obtain p where p: "ProjectCurrentness sample_cut = Inr p" using sample_projection by blast
  from joint_agrees_without_registrations [OF p sample_store] show ?thesis by blast
qed

text \<open>Preparing an authority accepts exactly the cuts whose sorted form is a gapless admission chain with
  valid registrations: each for this store, each anchored in the prefix at the event it names, no record or
  request twice, and the JSON array of all of them within the record and byte capacity of the catalog.\<close>

theorem canonicalJointAuthority_accepts:
  "canonicalJointAuthority i = Inr c \<longleftrightarrow> c = sorted_authority i \<and>
    canonical_string 200 (ja_StoreID c) \<and> length (ja_Events c) \<le> MaxClosureEvents \<and>
    hd_ChainKey (ja_Head c) = ChainKey \<and> hd_Revision (ja_Head c) = int (length (ja_Events c)) \<and>
    head_ok (hd_Revision (ja_Head c)) (hd_HeadEventID (ja_Head c)) \<and>
    (ja_Events c \<noteq> [] \<longrightarrow> validateClosureHistory (ja_Head c) (ja_Events c) = Inr ()) \<and>
    (\<forall>r\<in>set (ja_Registrations c). RegistrationRecord_validate r = Inr () \<and>
       rb_StoreID (rp_Binding (rr_Payload r)) = ja_StoreID c \<and> anchored c r) \<and>
    distinct (map rr_ID (ja_Registrations c)) \<and> distinct (map (rp_RequestID \<circ> rr_Payload) (ja_Registrations c)) \<and>
    int (length (ja_Registrations c)) \<le> MaxRegistrationEvents \<and>
    int (length (marshal (JArr (map registration_record_json (ja_Registrations c))))) \<le> MaxRegistrationCatalogBytes"
  unfolding canonicalJointAuthority_Inr authority_ok_def catalog_bytes_def ..

theorem canonicalJointAuthority_accepts_witness:
  "\<exists>i c. canonicalJointAuthority i = Inr c \<and> c = joint_authority (joint_of_cut ''store'' sample_cut) \<and>
    hd_ChainKey (ja_Head c) = ChainKey \<and> hd_Revision (ja_Head c) = int (length (ja_Events c))"
proof -
  let ?j = "joint_of_cut ''store'' sample_cut"
  let ?i = "\<lparr>ja_StoreID = jc_StoreID ?j, ja_Head = jc_Head ?j, ja_Events = jc_Events ?j, ja_Registrations = jc_Registrations ?j\<rparr>"
  obtain q where "ProjectJointCurrentness ?j = Inr q" using sample_joint by blast
  then obtain c where c: "canonicalJointAuthority ?i = Inr c"
    by (auto simp: ProjectJointCurrentness_def PrepareJointAuthority_def Let_def returns)
  note ok = iffD1 [OF canonicalJointAuthority_accepts c]
  then have "c = joint_authority ?j" by (simp add: joint_authority_def)
  with c ok show ?thesis by blast
qed

text \<open>Every failure of the joint projection is \<open>ErrInvalidClosureCut\<close> or \<open>ErrClosureLimitExceeded\<close>; in
  particular the replay never indexes the events out of range.\<close>

theorem ProjectJointCurrentness_errors: "fails_with joint_sentinels (ProjectJointCurrentness i)"
proof -
  have "fails_with joint_sentinels (PrepareJointAuthority a)" for a
  proof -
    have "fails_with joint_sentinels (replayJointMembership c)" if "canonicalJointAuthority a = Inr c" for c
    proof -
      have "authority_ok c" using that unfolding canonicalJointAuthority_Inr by blast
      from fails_joint_replay [OF authority_events(2) [OF this]] show ?thesis by (rule fails_mono) simp
    qed
    then show ?thesis
      unfolding PrepareJointAuthority_def Let_def by (intro fails_and_then fails_joint_authority) simp_all
  qed
  then show ?thesis
    unfolding ProjectJointCurrentness_def by (intro fails_if fails_and_then fails_joint_lineage) simp_all
qed

text \<open>A registration event ID commits to the whole registration: two registrations with one ID are equal,
  unless their two JSON preimages differ and collide under SHA-256.\<close>

theorem registration_ID_commits:
  assumes "InitialRegistrationPayload_ID p = Inr i" and "InitialRegistrationPayload_ID q = Inr i"
  shows "p = q \<or> marshal (registration_json p) \<noteq> marshal (registration_json q) \<and>
    sha256_hex (marshal (registration_json p)) = sha256_hex (marshal (registration_json q))"
  using registration.binds [OF assms] by blast

theorem registration_ID_commits_witness:
  "\<exists>i. InitialRegistrationPayload_ID sample_registration = Inr i \<and>
    (sample_registration = sample_registration \<or>
     marshal (registration_json sample_registration) \<noteq> marshal (registration_json sample_registration))"
proof -
  obtain i where i: "InitialRegistrationPayload_ID sample_registration = Inr i"
    using sample_registration_ok by (auto simp: InitialRegistrationPayload_ID_def InitialRegistrationPayload_Validate_Inr and_then_Inr)
  with registration_ID_commits [OF i i] show ?thesis by blast
qed

end
