(* ===== verification/EvidenceUse.thy ===== *)
theory EvidenceUse
  imports Closure GoTime GoMap
begin

text \<open>
  \<open>internal/evidenceuse/state.go\<close>, \<open>policy.go\<close> and \<open>verification.go\<close>: whether recorded evidence may be used
  now.  A snapshot of the evidence store is assessed under a policy: a claim is eligible when it is
  admitted, not withdrawn, current, within its validity window, backed by its sources, not in an active
  contradiction, and all of its parents are eligible.  The assessment is a depth-first search over the
  AND ancestry of the roots that memoises finished nodes and rejects cycles.
\<close>

section \<open>The snapshot\<close>

abbreviation "ProjectionV2 \<equiv> ''evidence-use-projection/v2''"

type_synonym WithdrawalStatus = string

abbreviation "WithdrawalUnknown \<equiv> ''unknown''"
abbreviation "WithdrawalNone \<equiv> ''none''"
abbreviation "WithdrawalWithdrawn \<equiv> ''withdrawn''"
abbreviation "WithdrawalRestored \<equiv> ''restored''"

record Withdrawal =
  wd_Status :: WithdrawalStatus
  wd_Complete :: bool
  wd_Revision :: int
  wd_EventID :: string
  wd_Reason :: string
  wd_CorrectionIDs :: "string list"

record Currentness =
  cu_LineageKey :: string
  cu_Status :: CurrentnessStatus
  cu_Complete :: bool
  cu_WitnessID :: string

text \<open>\<open>Node\<close>\<close>

record UseNode =
  un_UseClass :: string
  un_Kind :: string
  un_Admission :: string
  un_Withdrawal :: Withdrawal
  un_Currentness :: Currentness
  un_Temporal :: TemporalRecord
  un_Parents :: "string list"
  un_ParentsComplete :: bool
  un_SourceIDs :: "string list"
  un_SourcesComplete :: bool
  un_ContradictionsComplete :: bool

type_synonym CheckResult = string

abbreviation "CheckUnknown \<equiv> ''unknown''"
abbreviation "CheckPass \<equiv> ''pass''"
abbreviation "CheckFail \<equiv> ''fail''"

abbreviation "RetentionV1 \<equiv> ''retained-byte-integrity/v1''"
abbreviation "CorrespondenceV1 \<equiv> ''provider-revision-correspondence/v1''"
abbreviation "CoverageV1 \<equiv> ''declared-source-coverage/v1''"
abbreviation "RetainedSnapshotScope \<equiv> ''entire_retained_snapshot''"

record SourceCheck =
  sc_AssessedField :: string
  sc_CorrectedValue :: string
  sc_AssessmentID :: string
  sc_SourceSnapshotID :: string
  sc_ContentHash :: string
  sc_Scope :: string
  sc_Criterion :: string
  sc_Result :: CheckResult
  sc_ComparedRevision :: string
  sc_MaterialRef :: string
  sc_Limitations :: "string slice"

record Source =
  so_SnapshotID :: string
  so_ContentHash :: string
  so_ProviderRevision :: string
  so_DeclaredFidelity :: string
  so_DeclaredCoverage :: string
  so_AssessmentRevision :: int
  so_AssessmentsComplete :: bool
  so_Checks :: "SourceCheck slice"

record Contradiction =
  ct_ID :: string
  ct_Left :: string
  ct_Right :: string
  ct_ReviewRef :: string
  ct_Scope :: string

record Snapshot =
  ss_Version :: string
  ss_StoreID :: string
  ss_CutID :: string
  ss_Nodes :: "(string, UseNode) gomap"
  ss_Sources :: "(string, Source) gomap"
  ss_Contradictions :: "Contradiction slice"

section \<open>The digest of a snapshot\<close>

definition temporal_json :: "TemporalRecord \<Rightarrow> json" where
  "temporal_json t = JObj
    ([(''id'', JStr (tm_ID t)), (''status'', JStr (tm_Status t))] @
     omitempty ''observed_at'' (tm_ObservedAt t) @ omitempty ''valid_from'' (tm_ValidFrom t) @
     omitempty ''valid_to'' (tm_ValidTo t))"

definition withdrawal_json :: "Withdrawal \<Rightarrow> json" where
  "withdrawal_json w = JObj
    ([(''status'', JStr (wd_Status w)), (''complete'', JBool (wd_Complete w)), (''revision'', JInt (wd_Revision w))] @
     omitempty ''event_id'' (wd_EventID w) @ omitempty ''reason'' (wd_Reason w) @
     (if wd_CorrectionIDs w = [] then [] else [(''correction_ids'', JStrs (wd_CorrectionIDs w))]))"

definition currentness_json :: "Currentness \<Rightarrow> json" where
  "currentness_json c = JObj
    (omitempty ''lineage_key'' (cu_LineageKey c) @
     [(''status'', JStr (cu_Status c)), (''complete'', JBool (cu_Complete c))] @
     omitempty ''witness_id'' (cu_WitnessID c))"

definition use_node_json :: "UseNode \<Rightarrow> json" where
  "use_node_json n = JObj
    (omitempty ''use_class'' (un_UseClass n) @
     [(''kind'', JStr (un_Kind n)), (''admission'', JStr (un_Admission n)),
      (''withdrawal'', withdrawal_json (un_Withdrawal n)), (''currentness'', currentness_json (un_Currentness n)),
      (''temporal'', temporal_json (un_Temporal n)), (''parents'', JStrs (un_Parents n)),
      (''parents_complete'', JBool (un_ParentsComplete n)), (''source_ids'', JStrs (un_SourceIDs n)),
      (''sources_complete'', JBool (un_SourcesComplete n)),
      (''contradictions_complete'', JBool (un_ContradictionsComplete n))])"

definition check_json :: "SourceCheck \<Rightarrow> json" where
  "check_json c = JObj
    (omitempty ''assessed_field'' (sc_AssessedField c) @ omitempty ''corrected_value'' (sc_CorrectedValue c) @
     [(''assessment_id'', JStr (sc_AssessmentID c)), (''source_snapshot_id'', JStr (sc_SourceSnapshotID c)),
      (''content_hash'', JStr (sc_ContentHash c)), (''scope'', JStr (sc_Scope c)),
      (''criterion'', JStr (sc_Criterion c)), (''result'', JStr (sc_Result c)),
      (''compared_revision'', JStr (sc_ComparedRevision c)), (''material_ref'', JStr (sc_MaterialRef c)),
      (''limitations'', JSlice (map_option (map JStr) (sc_Limitations c)))])"

definition source_json :: "Source \<Rightarrow> json" where
  "source_json s = JObj
    [(''source_snapshot_id'', JStr (so_SnapshotID s)), (''content_hash'', JStr (so_ContentHash s)),
     (''provider_revision'', JStr (so_ProviderRevision s)), (''declared_fidelity'', JStr (so_DeclaredFidelity s)),
     (''declared_coverage'', JStr (so_DeclaredCoverage s)), (''assessment_revision'', JInt (so_AssessmentRevision s)),
     (''assessments_complete'', JBool (so_AssessmentsComplete s)),
     (''checks'', JSlice (map_option (map check_json) (so_Checks s)))]"

definition contradiction_json :: "Contradiction \<Rightarrow> json" where
  "contradiction_json e = JObj
    [(''edge_id'', JStr (ct_ID e)), (''left'', JStr (ct_Left e)), (''right'', JStr (ct_Right e)),
     (''review_ref'', JStr (ct_ReviewRef e)), (''scope'', JStr (ct_Scope e))]"

text \<open>\<open>encoding/json\<close> writes a map as an object with its keys in byte order.\<close>

definition map_json :: "('a \<Rightarrow> json) \<Rightarrow> (string, 'a) gomap \<Rightarrow> json" where
  "map_json f m = JObj (map (\<lambda>(k, v). (k, f v)) (sort_key fst m))"

definition snapshot_json :: "Snapshot \<Rightarrow> json" where
  "snapshot_json s = JObj
    [(''version'', JStr (ss_Version s)), (''store_id'', JStr (ss_StoreID s)), (''cut_id'', JStr (ss_CutID s)),
     (''nodes'', map_json use_node_json (ss_Nodes s)), (''sources'', map_json source_json (ss_Sources s)),
     (''contradictions'', JSlice (map_option (map contradiction_json) (ss_Contradictions s)))]"

definition validText :: "string \<Rightarrow> bool" where
  "validText s \<longleftrightarrow> s \<noteq> [] \<and> s = trim_space s"

definition sortedCopy :: "string list \<Rightarrow> string list" where
  "sortedCopy values = sort values"

fun hasDuplicates_from :: "string option \<Rightarrow> string list \<Rightarrow> bool" where
  "hasDuplicates_from prev [] = False"
| "hasDuplicates_from prev (v # vs) = (\<not> validText v \<or> prev = Some v \<or> hasDuplicates_from (Some v) vs)"

definition hasDuplicates :: "string list \<Rightarrow> bool" where
  "hasDuplicates values = hasDuplicates_from None values"

abbreviation invalid_projection :: "string \<Rightarrow> error" where
  "invalid_projection m \<equiv> Error ErrInvalidProjection m"

text \<open>
  The loops over the two maps run in Go's unspecified order; the order shows only in which of several
  failing entries the text of the error names, which is not modelled.
\<close>

definition digest_node :: "string \<times> UseNode \<Rightarrow> (string \<times> UseNode) result" where
  "digest_node = (\<lambda>(i, n).
    if \<not> validText i then Inl (invalid_projection ''empty node ID'')
    else let w = un_Withdrawal n;
             n = n\<lparr>un_Parents := sortedCopy (un_Parents n), un_SourceIDs := sortedCopy (un_SourceIDs n),
                   un_Withdrawal := w\<lparr>wd_CorrectionIDs := sortedCopy (wd_CorrectionIDs w)\<rparr>\<rparr>
         in if hasDuplicates (un_Parents n) \<or> hasDuplicates (un_SourceIDs n) \<or>
               hasDuplicates (wd_CorrectionIDs (un_Withdrawal n))
            then Inl (invalid_projection ''duplicate bindings'') else Inr (i, n))"

fun checks_ok :: "(string \<times> string) option \<Rightarrow> SourceCheck list \<Rightarrow> bool" where
  "checks_ok prev [] = True"
| "checks_ok prev (c # cs) =
    (validText (sc_AssessmentID c) \<and> validText (sc_Criterion c) \<and>
     prev \<noteq> Some (sc_AssessmentID c, sc_Criterion c) \<and> checks_ok (Some (sc_AssessmentID c, sc_Criterion c)) cs)"

definition digest_source :: "string \<times> Source \<Rightarrow> (string \<times> Source) result" where
  "digest_source = (\<lambda>(i, src).
    if \<not> validText i \<or> so_SnapshotID src \<noteq> i \<or> \<not> validText (so_ContentHash src) \<or> so_AssessmentRevision src < 0
      then Inl (invalid_projection ''invalid source coordinates'')
    else if elems (so_Checks src) \<noteq> [] \<and> so_AssessmentRevision src = 0
      then Inl (invalid_projection ''findings require a source assessment revision'')
    else let checks = map_option (sort_key (\<lambda>c. (sc_AssessmentID c, sc_Criterion c))) (so_Checks src)
         in if checks_ok None (elems checks) then Inr (i, src\<lparr>so_Checks := checks\<rparr>)
            else Inl (invalid_projection ''missing or duplicate source assessment ID''))"

definition digest_contradiction :: "Contradiction \<Rightarrow> Contradiction result" where
  "digest_contradiction e =
    (if \<not> validText (ct_ID e) \<or> \<not> validText (ct_Left e) \<or> \<not> validText (ct_Right e) \<or> ct_Left e = ct_Right e \<or>
        \<not> validText (ct_ReviewRef e)
       then Inl (invalid_projection ''invalid reviewed contradiction'')
     else if ct_Left e > ct_Right e then Inr (e\<lparr>ct_Left := ct_Right e, ct_Right := ct_Left e\<rparr>) else Inr e)"

text \<open>A loop that builds a new slice or map from the converted items.\<close>

fun map_res :: "('a \<Rightarrow> 'e + 'b) \<Rightarrow> 'a list \<Rightarrow> 'e + 'b list" where
  "map_res f [] = Inr []"
| "map_res f (x # xs) = and_then (f x) (\<lambda>y. and_then (map_res f xs) (\<lambda>ys. Inr (y # ys)))"

definition Snapshot_canonical :: "Snapshot \<Rightarrow> Snapshot result" where
  "Snapshot_canonical s =
    (if ss_Version s \<noteq> ProjectionV2 \<or> \<not> validText (ss_StoreID s) \<or> \<not> validText (ss_CutID s)
       then Inl (invalid_projection ''version, store and cut are required'')
     else and_then (map_res digest_node (ss_Nodes s)) (\<lambda>nodes.
     and_then (map_res digest_source (ss_Sources s)) (\<lambda>sources.
     and_then (map_res digest_contradiction (elems (ss_Contradictions s))) (\<lambda>edges.
     let edges = sort_key ct_ID edges
     in if adjacent_dup ct_ID edges then Inl (invalid_projection ''duplicate contradiction ID'')
        else Inr (s\<lparr>ss_Nodes := nodes, ss_Sources := sources,
                    ss_Contradictions := map_option (\<lambda>_. edges) (ss_Contradictions s)\<rparr>)))))"

definition Snapshot_Digest :: "Snapshot \<Rightarrow> string result" where
  "Snapshot_Digest s =
    and_then (Snapshot_canonical s) (\<lambda>s. Inr (''evidence-use:sha256:'' @ sha256_hex (marshal (snapshot_json s))))"

text \<open>An unset bound is the zero time, and so is a bound that is set to it.\<close>

definition validity_bound :: "string \<Rightarrow> time option" where
  "validity_bound s = (if s = [] then Some 0 else parse_rfc3339 s)"

definition validity :: "TemporalRecord \<Rightarrow> time \<Rightarrow> bool \<times> string" where
  "validity t now =
    (case validity_bound (tm_ValidFrom t) of None \<Rightarrow> (False, ''invalid_validity_window'')
     | Some start \<Rightarrow>
       (case validity_bound (tm_ValidTo t) of None \<Rightarrow> (False, ''invalid_validity_window'')
        | Some end_ \<Rightarrow>
          if \<not> is_zero_time start \<and> \<not> is_zero_time end_ \<and> \<not> start < end_ then (False, ''invalid_validity_window'')
          else if \<not> is_zero_time start \<and> now < start then (True, ''not_yet_valid'')
          else if \<not> is_zero_time end_ \<and> \<not> now < end_ then (True, ''expired'')
          else (True, '''')))"

section \<open>Policies and outcomes\<close>

type_synonym Policy = string

abbreviation "CurrentActionV1 \<equiv> ''current-action/v1''"
abbreviation "GroundedActionV1 \<equiv> ''grounded-current-action/v1''"

definition ValidatePolicy :: "Policy \<Rightarrow> unit result" where
  "ValidatePolicy policy =
    (if policy \<noteq> CurrentActionV1 \<and> policy \<noteq> GroundedActionV1
       then Inl (invalid_projection ''unsupported use policy'') else Inr ())"

datatype Outcome = Eligible | Blocked | Excluded

record Reason =
  re_Code :: string
  re_RelatedID :: string

record NodeAssessment =
  na_NodeID :: string
  na_Outcome :: Outcome
  na_Reasons :: "Reason list"

record Assessment =
  as_ProjectionVersion :: string
  as_StateDigest :: string
  as_Policy :: Policy
  as_EvaluatedAt :: time
  as_Roots :: "string list"
  as_Nodes :: "NodeAssessment list"

definition NodeAssessment_add :: "Outcome \<Rightarrow> string \<Rightarrow> string \<Rightarrow> NodeAssessment \<Rightarrow> NodeAssessment" where
  "NodeAssessment_add outcome code related a =
    a\<lparr>na_Outcome := (if outcome = Excluded \<or> outcome = Blocked \<and> na_Outcome a = Eligible then outcome else na_Outcome a),
      na_Reasons := na_Reasons a @ [\<lparr>re_Code = code, re_RelatedID = related\<rparr>]\<rparr>"

text \<open>\<open>if b { a.add(\<dots>) }\<close>\<close>

definition add_if :: "bool \<Rightarrow> Outcome \<Rightarrow> string \<Rightarrow> string \<Rightarrow> NodeAssessment \<Rightarrow> NodeAssessment" where
  "add_if b outcome code related a = (if b then NodeAssessment_add outcome code related a else a)"

definition withdrawal_state :: "Withdrawal \<Rightarrow> NodeAssessment \<Rightarrow> NodeAssessment" where
  "withdrawal_state w a =
    (if wd_Revision w < 0 \<or> wd_Status w = WithdrawalNone \<and> (wd_Revision w \<noteq> 0 \<or> wd_EventID w \<noteq> [])
       then NodeAssessment_add Blocked ''invalid_withdrawal_coordinate'' [] a
     else if (wd_Status w = WithdrawalWithdrawn \<or> wd_Status w = WithdrawalRestored) \<and>
             (wd_Revision w = 0 \<or> \<not> validText (wd_EventID w))
       then NodeAssessment_add Blocked ''invalid_withdrawal_coordinate'' [] a
     else if wd_Status w = WithdrawalWithdrawn then NodeAssessment_add Excluded ''withdrawn'' [] a
     else if \<not> wd_Complete w \<or> wd_Status w \<noteq> WithdrawalNone \<and> wd_Status w \<noteq> WithdrawalRestored
       then NodeAssessment_add Blocked ''unknown_withdrawal'' [] a
     else a)"

definition validity_state :: "UseNode \<Rightarrow> time \<Rightarrow> NodeAssessment \<Rightarrow> NodeAssessment" where
  "validity_state n now a =
    (case validity (un_Temporal n) now of (valid, reason) \<Rightarrow>
      if \<not> valid then NodeAssessment_add Blocked reason [] a
      else if reason \<noteq> [] then NodeAssessment_add Excluded reason [] a
      else a)"

definition currentness_state :: "UseNode \<Rightarrow> NodeAssessment \<Rightarrow> NodeAssessment" where
  "currentness_state n a =
    (let c = un_Currentness n; status = tm_Status (un_Temporal n) in
     if cu_Status c = CurrentnessSuperseded then NodeAssessment_add Excluded ''superseded'' [] a
     else if status = TemporalStale \<or> status = TemporalSuperseded
       then NodeAssessment_add Excluded (''recorded_'' @ status) [] a
     else if \<not> cu_Complete c then NodeAssessment_add Blocked ''incomplete_currentness'' [] a
     else if cu_LineageKey c \<noteq> [] then
       (if cu_Status c \<noteq> CurrentnessCurrent \<or> \<not> validText (cu_WitnessID c)
          then NodeAssessment_add Blocked ''unresolved_lineage_currentness'' [] a else a)
     else if cu_Status c \<noteq> [] \<and> cu_Status c \<noteq> CurrentnessUnknown
       then NodeAssessment_add Blocked ''currentness_without_lineage'' [] a
     else if un_Kind n = CanonicalDerivedClaim \<and> status = TemporalUnknown then a
     else if status \<noteq> TemporalCurrent then NodeAssessment_add Blocked ''unclassified_currentness'' [] a
     else a)"

definition explicitState :: "UseNode \<Rightarrow> time \<Rightarrow> Outcome \<times> string list" where
  "explicitState n now =
    (let a = \<lparr>na_NodeID = [], na_Outcome = Eligible, na_Reasons = []\<rparr>;
         a = withdrawal_state (un_Withdrawal n) a;
         a = validity_state n now a;
         a = currentness_state n a
     in (na_Outcome a, map re_Code (na_Reasons a)))"

text \<open>The variables \<open>pass\<close>, \<open>fail\<close> and \<open>unknown\<close> after one more check.\<close>

definition tally_check :: "Source \<Rightarrow> string \<Rightarrow> bool \<times> bool \<times> bool \<Rightarrow> SourceCheck \<Rightarrow> bool \<times> bool \<times> bool" where
  "tally_check src criterion t c =
    (case t of (pass, fail, unknown) \<Rightarrow>
      if sc_Criterion c \<noteq> criterion then t
      else if sc_SourceSnapshotID c \<noteq> so_SnapshotID src \<or> sc_ContentHash c \<noteq> so_ContentHash src \<or>
          sc_Scope c \<noteq> RetainedSnapshotScope \<or> \<not> validText (sc_MaterialRef c) \<or>
          criterion \<noteq> RetentionV1 \<and> (so_ProviderRevision src = [] \<or> sc_ComparedRevision c \<noteq> so_ProviderRevision src)
        then (pass, fail, True)
      else if sc_Result c = CheckPass then (True, fail, unknown)
      else if sc_Result c = CheckFail then (pass, True, unknown)
      else (pass, fail, True))"

definition sourceCriterion :: "Source \<Rightarrow> string \<Rightarrow> Outcome" where
  "sourceCriterion src criterion =
    (case foldl (tally_check src criterion) (False, False, False) (elems (so_Checks src)) of (pass, fail, unknown) \<Rightarrow>
      if unknown \<or> pass \<and> fail then Blocked
      else if fail then Excluded
      else if pass then Eligible
      else Blocked)"

section \<open>The assessment\<close>

text \<open>What \<open>visit\<close> records of a node before it visits the parents.\<close>

definition open_assessment :: "time \<Rightarrow> string \<Rightarrow> UseNode \<Rightarrow> NodeAssessment" where
  "open_assessment now i n =
    (let a = \<lparr>na_NodeID = i, na_Outcome = Eligible, na_Reasons = []\<rparr>;
         a = add_if (un_Admission n \<noteq> ''admitted'') Blocked ''admission_not_confirmed'' i a;
         a = add_if (un_Kind n \<noteq> CanonicalSourceClaim \<and> un_Kind n \<noteq> CanonicalDerivedClaim)
               Blocked ''unsupported_node_kind'' i a;
         a = (if un_Kind n = CanonicalDerivedClaim then
               (if un_UseClass n = DerivationHistoricalOnly
                  then NodeAssessment_add Excluded ''historical_derivation'' i a
                else if un_UseClass n = DerivationOrdinary then a
                else NodeAssessment_add Blocked ''unknown_derivation_use_class'' i a)
              else a);
         (state, reasons) = explicitState n now;
         a = foldl (\<lambda>a reason. NodeAssessment_add state reason i a) a reasons;
         a = add_if (\<not> un_ParentsComplete n) Blocked ''incomplete_parent_manifest'' i a
     in add_if (un_Kind n = CanonicalDerivedClaim \<and> un_Parents n = []) Blocked ''missing_and_parents'' i a)"

definition add_parent :: "string \<Rightarrow> NodeAssessment \<Rightarrow> NodeAssessment \<Rightarrow> NodeAssessment" where
  "add_parent parent p a = add_if (na_Outcome p \<noteq> Eligible) (na_Outcome p) ''ineligible_parent'' parent a"

definition check_criterion :: "Policy \<Rightarrow> string \<Rightarrow> Source \<Rightarrow> NodeAssessment \<Rightarrow> string \<Rightarrow> NodeAssessment" where
  "check_criterion policy sourceID src a criterion =
    (if policy = CurrentActionV1 \<and> \<not> (\<exists>c\<in>set (elems (so_Checks src)). sc_Criterion c = criterion) then a
     else let r = sourceCriterion src criterion
          in add_if (r \<noteq> Eligible) r (''source_check:'' @ criterion) sourceID a)"

definition check_source :: "(string, Source) gomap \<Rightarrow> Policy \<Rightarrow> NodeAssessment \<Rightarrow> string \<Rightarrow> NodeAssessment" where
  "check_source sources policy a sourceID =
    (case map_of sources sourceID of
       None \<Rightarrow> NodeAssessment_add Blocked ''missing_source'' sourceID a
     | Some src \<Rightarrow>
         foldl (check_criterion policy sourceID src)
           (add_if (\<not> so_AssessmentsComplete src) Blocked ''incomplete_source_assessments'' sourceID a)
           [RetentionV1, CorrespondenceV1, CoverageV1])"

definition check_edge :: "Snapshot \<Rightarrow> time \<Rightarrow> string \<Rightarrow> NodeAssessment \<Rightarrow> Contradiction \<Rightarrow> NodeAssessment" where
  "check_edge s now i a edge =
    (let peerID = (if ct_Left edge = i then ct_Right edge else ct_Left edge) in
     case map_of (ss_Nodes s) peerID of
       None \<Rightarrow> NodeAssessment_add Blocked ''unknown_conflict_peer'' (ct_ID edge) a
     | Some peer \<Rightarrow>
         (let peerState = fst (explicitState peer now) in
          if un_Admission peer \<noteq> ''admitted'' \<or> peerState = Blocked
            then NodeAssessment_add Blocked ''unknown_conflict_peer'' (ct_ID edge) a
          else if peerState = Eligible
            then NodeAssessment_add Blocked ''active_contradiction'' (ct_ID edge) a
          else a))"

text \<open>The map \<open>edges\<close>: a missing key is a nil slice.\<close>

definition incident_edges :: "Contradiction list \<Rightarrow> string \<Rightarrow> Contradiction list" where
  "incident_edges cs = foldl (\<lambda>m edge.
     let m = m(ct_Left edge := m (ct_Left edge) @ [edge])
     in m(ct_Right edge := m (ct_Right edge) @ [edge])) (\<lambda>_. []) cs"

text \<open>What it records after the parents.\<close>

definition close_assessment ::
  "Snapshot \<Rightarrow> Policy \<Rightarrow> time \<Rightarrow> (string \<Rightarrow> Contradiction list) \<Rightarrow> string \<Rightarrow> UseNode \<Rightarrow> NodeAssessment \<Rightarrow> NodeAssessment"
where
  "close_assessment s policy now edges i n a =
    (let a = add_if (\<not> un_SourcesComplete n) Blocked ''incomplete_source_bindings'' i a;
         a = add_if (un_Kind n = CanonicalSourceClaim \<and> un_SourceIDs n = []) Blocked ''missing_source_basis'' i a;
         a = foldl (check_source (ss_Sources s) policy) a (sortedCopy (un_SourceIDs n));
         a = add_if (\<not> un_ContradictionsComplete n) Blocked ''incomplete_incident_contradictions'' i a;
         a = foldl (check_edge s now i) a (edges i)
     in a\<lparr>na_Reasons := sort_key (\<lambda>r. (re_Code r, re_RelatedID r)) (na_Reasons a)\<rparr>)"

text \<open>
  \<open>visit\<close>: \<open>V\<close> is the stack of the nodes being visited, the map \<open>visiting\<close> of the code, from which the
  deferred \<open>delete\<close> removes a node when its visit returns; \<open>d\<close> is the map \<open>done\<close>.
\<close>

type_synonym assessed = "(string, NodeAssessment) gomap"

function (sequential) visit ::
    "Snapshot \<Rightarrow> Policy \<Rightarrow> time \<Rightarrow> (string \<Rightarrow> Contradiction list) \<Rightarrow> string list \<Rightarrow> assessed \<Rightarrow> string \<Rightarrow>
     (assessed \<times> NodeAssessment) result"
  and visit_parents ::
    "Snapshot \<Rightarrow> Policy \<Rightarrow> time \<Rightarrow> (string \<Rightarrow> Contradiction list) \<Rightarrow> string list \<Rightarrow> assessed \<Rightarrow> NodeAssessment \<Rightarrow>
     string list \<Rightarrow> (assessed \<times> NodeAssessment) result"
where
  "visit s policy now edges V d i =
    (case map_of d i of
       Some a \<Rightarrow> Inr (d, a)
     | None \<Rightarrow>
         if i \<in> set V then Inl (invalid_projection ''cyclic AND ancestry'')
         else (case map_of (ss_Nodes s) i of
             None \<Rightarrow>
               (let a = NodeAssessment_add Blocked ''missing_node'' i \<lparr>na_NodeID = i, na_Outcome = Eligible, na_Reasons = []\<rparr>
                in Inr (AList.update i a d, a))
           | Some n \<Rightarrow>
               if un_Kind n = CanonicalSourceClaim \<and> un_Parents n \<noteq> []
                 then Inl (invalid_projection ''source claim has derivation parents'')
               else (case visit_parents s policy now edges (i # V) d (open_assessment now i n) (sortedCopy (un_Parents n)) of
                   Inl e \<Rightarrow> Inl e
                 | Inr (d, a) \<Rightarrow>
                     (let a = close_assessment s policy now edges i n a in Inr (AList.update i a d, a)))))"
| "visit_parents s policy now edges V d a [] = Inr (d, a)"
| "visit_parents s policy now edges V d a (parent # ps) =
    (case visit s policy now edges V d parent of
       Inl e \<Rightarrow> Inl e
     | Inr (d, p) \<Rightarrow> visit_parents s policy now edges V d (add_parent parent p a) ps)"
  by pat_completeness auto

text \<open>A visit only starts the visits of parents after it has put one more node of the snapshot on the stack.\<close>

termination
proof (relation "measures
    [\<lambda>x. case x of Inl (s, _, _, _, V, _, _) \<Rightarrow> card (keys (ss_Nodes s) - set V)
                 | Inr (s, _, _, _, V, _, _, _) \<Rightarrow> card (keys (ss_Nodes s) - set V),
     \<lambda>x. case x of Inl _ \<Rightarrow> 0 | Inr (_, _, _, _, _, _, _, ps) \<Rightarrow> Suc (length ps)]", goal_cases)
  case (2 s policy now edges V d i n)
  then have "i \<in> keys (ss_Nodes s) - set V" by (simp add: keys_Some)
  then have "card (keys (ss_Nodes s) - set (i # V)) < card (keys (ss_Nodes s) - set V)"
    by (intro psubset_card_mono) (auto simp: keys_def finite_dom_map_of)
  then show ?case by simp
qed auto

fun visit_roots ::
  "Snapshot \<Rightarrow> Policy \<Rightarrow> time \<Rightarrow> (string \<Rightarrow> Contradiction list) \<Rightarrow> assessed \<Rightarrow> string list \<Rightarrow> assessed result"
where
  "visit_roots s policy now edges d [] = Inr d"
| "visit_roots s policy now edges d (i # is) =
    and_then (visit s policy now edges [] d i) (\<lambda>(d, a). visit_roots s policy now edges d is)"

definition Assess :: "Snapshot \<Rightarrow> Policy \<Rightarrow> string list \<Rightarrow> time \<Rightarrow> Assessment result" where
  "Assess s policy roots now =
    and_then (ValidatePolicy policy) (\<lambda>_.
    if is_zero_time now \<or> length roots = 0 \<or> length (ss_Nodes s) > 10000
      then Inl (invalid_projection ''evaluation time, roots and bounded input required'')
    else let roots = sortedCopy roots in
    if hasDuplicates roots then Inl (invalid_projection ''duplicate or empty roots'')
    else and_then (Snapshot_Digest s) (\<lambda>digest.
      let edges = incident_edges (elems (ss_Contradictions s)) in
      and_then (visit_roots s policy now edges [] roots) (\<lambda>d.
      Inr \<lparr>as_ProjectionVersion = ProjectionV2, as_StateDigest = digest, as_Policy = policy, as_EvaluatedAt = now,
           as_Roots = roots, as_Nodes = sort_key na_NodeID (map snd d)\<rparr>)))"

section \<open>Plans\<close>

record ActionBasis =
  ab_ActionID :: string
  ab_BasisIDs :: "string list"

record PlanAssessment =
  pl_Assessment :: Assessment
  pl_Actions :: "ActionBasis list"
  pl_Accepted :: bool

text \<open>The loop over the actions: the action IDs seen, the union of the bases and the manifest so far.\<close>

definition plan_action ::
  "string set \<times> (string, bool) gomap \<times> ActionBasis list \<Rightarrow> ActionBasis \<Rightarrow>
   (string set \<times> (string, bool) gomap \<times> ActionBasis list) result"
where
  "plan_action = (\<lambda>(seen, roots, manifest) action.
    if \<not> validText (ab_ActionID action) \<or> ab_ActionID action \<in> seen \<or> length (ab_BasisIDs action) = 0
      then Inl (invalid_projection ''actions require distinct IDs and nonempty bases'')
    else let action = action\<lparr>ab_BasisIDs := sortedCopy (ab_BasisIDs action)\<rparr> in
      if hasDuplicates (ab_BasisIDs action) then Inl (invalid_projection ''duplicate or empty action bases'')
      else Inr (insert (ab_ActionID action) seen,
                foldl (\<lambda>roots i. AList.update i True roots) roots (ab_BasisIDs action), manifest @ [action]))"

text \<open>The keys of \<open>roots\<close> are listed in the order of the map; \<open>Assess\<close> sorts them.\<close>

definition CheckPlan :: "Snapshot \<Rightarrow> Policy \<Rightarrow> ActionBasis list \<Rightarrow> time \<Rightarrow> PlanAssessment result" where
  "CheckPlan s policy actions now =
    (if length actions = 0 then Inl (invalid_projection ''empty action manifest'')
     else and_then (fold_res plan_action ({}, [], []) actions) (\<lambda>(seen, roots, manifest).
       and_then (Assess s policy (map fst roots) now) (\<lambda>assessment.
       let accepted = foldl (\<lambda>accepted node.
             if map_of roots (na_NodeID node) = Some True \<and> na_Outcome node \<noteq> Eligible then False else accepted)
             True (as_Nodes assessment)
       in Inr \<lparr>pl_Assessment = assessment, pl_Actions = manifest, pl_Accepted = accepted\<rparr>)))"

section \<open>Reuse of verification reports\<close>

abbreviation "VerificationV1 \<equiv> ''evidence-verification-cache/v1''"

record Material =
  ma_Identity :: string
  ma_Revision :: string
  ma_ContentHash :: string

record VerificationSubject =
  vs_StoreID :: string
  vs_CanonicalID :: string
  vs_ClaimHash :: string
  vs_Criterion :: string
  vs_CriterionVersion :: string
  vs_Scope :: string

record VerificationReport =
  vr_Version :: string
  vr_Subject :: VerificationSubject
  vr_Materials :: "Material list"
  vr_MaterialsComplete :: bool
  vr_Result :: CheckResult
  vr_CheckedAt :: time

record VerificationReuse =
  vu_Reusable :: bool
  vu_Reason :: string

fun materials_ok :: "string option \<Rightarrow> Material list \<Rightarrow> bool" where
  "materials_ok prev [] = True"
| "materials_ok prev (m # ms) =
    (validText (ma_Identity m) \<and> validText (ma_Revision m) \<and> validText (ma_ContentHash m) \<and>
     prev \<noteq> Some (ma_Identity m) \<and> materials_ok (Some (ma_Identity m)) ms)"

definition materialSet :: "Material list \<Rightarrow> Material list option" where
  "materialSet materials =
    (if length materials = 0 \<or> length materials > 128 then None
     else let r = sort_key ma_Identity materials in if materials_ok None r then Some r else None)"

text \<open>
  The context is nil, or given by the results of the two calls of \<open>Err\<close>.  The callback that observes the
  materials is the caller's code: a parameter, nil or a function to observed materials or an error.  With an
  error of that callback the source returns the reason \<open>freshness_not_confirmed\<close> beside it; the result here
  is the error alone.
\<close>

type_synonym ctx_errs = "(error option \<times> error option) option"

definition ReuseVerification ::
  "ctx_errs \<Rightarrow> VerificationReport \<Rightarrow> VerificationSubject \<Rightarrow> Material list \<Rightarrow>
   (Material list \<Rightarrow> Material list result) option \<Rightarrow> VerificationReuse result"
where
  "ReuseVerification ctx report subject required recheck =
    (case ctx of None \<Rightarrow> Inl (Error Plain ''context is required'')
     | Some (err1, err2) \<Rightarrow>
     (case err1 of Some e \<Rightarrow> Inl e | None \<Rightarrow>
     and_then (each (\<lambda>field. if validText field then Inr () else Inl (Error Plain ''complete verification subject is required''))
        [vs_StoreID subject, vs_CanonicalID subject, vs_ClaimHash subject, vs_Criterion subject,
         vs_CriterionVersion subject, vs_Scope subject]) (\<lambda>_.
     if vr_Version report \<noteq> VerificationV1 \<or> vr_Subject report \<noteq> subject \<or> vr_Result report \<noteq> CheckPass \<or>
        is_zero_time (vr_CheckedAt report) \<or> \<not> vr_MaterialsComplete report
       then Inr \<lparr>vu_Reusable = False, vu_Reason = ''historical_report_not_applicable''\<rparr>
     else (case materialSet required of
         None \<Rightarrow> Inl (Error Plain ''complete distinct required material coordinates are required'')
       | Some want \<Rightarrow>
         if materialSet (vr_Materials report) \<noteq> Some want
           then Inr \<lparr>vu_Reusable = False, vu_Reason = ''material_set_changed''\<rparr>
         else (case recheck of
             None \<Rightarrow> Inr \<lparr>vu_Reusable = False, vu_Reason = ''freshness_not_confirmed''\<rparr>
           | Some recheck \<Rightarrow>
             and_then (recheck want) (\<lambda>observed.
             case err2 of Some e \<Rightarrow> Inl e | None \<Rightarrow>
             if materialSet observed \<noteq> Some want
               then Inr \<lparr>vu_Reusable = False, vu_Reason = ''required_material_changed_or_missing''\<rparr>
             else Inr \<lparr>vu_Reusable = True,
                       vu_Reason = ''scoped_semantic_report_reusable_governance_check_still_required''\<rparr>))))))"

end
