(* ===== verification/UseSpec.thy ===== *)
theory UseSpec
  imports EvidenceUse
begin

text \<open>
  The specification of current use, as inductive predicates over the ancestry of a claim, and what each
  step of the assessment contributes to the outcome of its node.
\<close>

section \<open>Outcomes form a chain\<close>

fun worse :: "Outcome \<Rightarrow> Outcome \<Rightarrow> Outcome" where
  "worse Excluded y = Excluded"
| "worse Blocked y = (if y = Excluded then Excluded else Blocked)"
| "worse Eligible y = y"

lemma worse_Eligible [simp]: "worse x y = Eligible \<longleftrightarrow> x = Eligible \<and> y = Eligible"
  by (cases x; cases y) auto

lemma worse_Excluded [simp]: "worse x y = Excluded \<longleftrightarrow> x = Excluded \<or> y = Excluded"
  by (cases x; cases y) auto

lemma worse_assoc: "worse (worse x y) z = worse x (worse y z)"
  by (cases x; cases y; cases z) auto

lemma worse_unit [simp]: "worse x Eligible = x" "worse Eligible x = x"
  by (cases x, auto)+

definition worst :: "Outcome list \<Rightarrow> Outcome" where
  "worst os = foldr worse os Eligible"

lemma worst_simps [simp]: "worst [] = Eligible" "worst (x # xs) = worse x (worst xs)"
  by (simp_all add: worst_def)

lemma worst_Eligible: "worst os = Eligible \<longleftrightarrow> (\<forall>x\<in>set os. x = Eligible)"
  by (induction os) auto

lemma worst_map_Eligible: "worst (map f xs) = Eligible \<longleftrightarrow> (\<forall>x\<in>set xs. f x = Eligible)"
  by (induction xs) auto

lemma worst_map_Excluded: "worst (map f xs) = Excluded \<longleftrightarrow> (\<exists>x\<in>set xs. f x = Excluded)"
  by (induction xs) auto

lemma worst_Excluded: "worst os = Excluded \<longleftrightarrow> Excluded \<in> set os"
  by (induction os) auto

text \<open>A step of the assessment that makes the outcome of its node at least \<open>x\<close>.\<close>

definition adds :: "(NodeAssessment \<Rightarrow> NodeAssessment) \<Rightarrow> Outcome \<Rightarrow> bool" where
  "adds f x \<longleftrightarrow> (\<forall>a. na_NodeID (f a) = na_NodeID a \<and> na_Outcome (f a) = worse (na_Outcome a) x)"

lemma adds_NodeAssessment_add: "adds (NodeAssessment_add x c r) x"
proof -
  have "(if x = Excluded \<or> x = Blocked \<and> y = Eligible then x else y) = worse y x" for y
    by (cases x; cases y) auto
  then show ?thesis by (simp add: adds_def NodeAssessment_add_def)
qed

lemma adds_add_if: "adds (add_if b x c r) (if b then x else Eligible)"
  using adds_NodeAssessment_add [of x c r] by (auto simp: adds_def add_if_def)

lemma adds_foldl:
  assumes "\<And>x. adds (\<lambda>a. f a x) (g x)"
  shows "adds (\<lambda>a. foldl f a xs) (worst (map g xs))"
proof -
  have "na_NodeID (foldl f a xs) = na_NodeID a \<and> na_Outcome (foldl f a xs) = worse (na_Outcome a) (worst (map g xs))" for a
    using assms by (induction xs arbitrary: a) (simp_all add: adds_def worse_assoc)
  then show ?thesis by (simp add: adds_def)
qed

lemma addsD:
  assumes "adds f x"
  shows "na_NodeID (f a) = na_NodeID a" and "na_Outcome (f a) = worse (na_Outcome a) x"
  using assms by (simp_all add: adds_def)

lemmas adds_simps = addsD [OF adds_NodeAssessment_add] addsD [OF adds_add_if]

section \<open>Explicit state\<close>

text \<open>The withdrawal is settled, the validity window contains the evaluation time, and the claim is current.\<close>

definition withdrawal_clear :: "Withdrawal \<Rightarrow> bool" where
  "withdrawal_clear w \<longleftrightarrow> wd_Complete w \<and>
    (wd_Status w = WithdrawalNone \<and> wd_Revision w = 0 \<and> wd_EventID w = [] \<or>
     wd_Status w = WithdrawalRestored \<and> 0 < wd_Revision w \<and> validText (wd_EventID w))"

definition currentness_clear :: "UseNode \<Rightarrow> bool" where
  "currentness_clear n \<longleftrightarrow> (let c = un_Currentness n; status = tm_Status (un_Temporal n) in
    cu_Complete c \<and> status \<noteq> TemporalStale \<and> status \<noteq> TemporalSuperseded \<and>
    (if cu_LineageKey c \<noteq> [] then cu_Status c = CurrentnessCurrent \<and> validText (cu_WitnessID c)
     else (cu_Status c = [] \<or> cu_Status c = CurrentnessUnknown) \<and>
       (status = TemporalCurrent \<or> un_Kind n = CanonicalDerivedClaim \<and> status = TemporalUnknown)))"

lemma withdrawal_state_adds:
  "adds (withdrawal_state w)
    (if withdrawal_clear w then Eligible
     else if wd_Status w = WithdrawalWithdrawn \<and> 0 < wd_Revision w \<and> validText (wd_EventID w) then Excluded
     else Blocked)"
  by (auto simp: adds_def withdrawal_state_def withdrawal_clear_def adds_simps)

lemma validity_state_adds:
  "adds (validity_state n now)
    (if validity (un_Temporal n) now = (True, []) then Eligible
     else if fst (validity (un_Temporal n) now) then Excluded else Blocked)"
  by (auto simp: adds_def validity_state_def adds_simps split: prod.split)

lemma currentness_state_adds:
  "adds (currentness_state n)
    (if cu_Status (un_Currentness n) = CurrentnessSuperseded \<or> tm_Status (un_Temporal n) \<in> {TemporalStale, TemporalSuperseded}
     then Excluded else if currentness_clear n then Eligible else Blocked)"
  by (auto simp: adds_def currentness_state_def currentness_clear_def Let_def adds_simps)

lemma explicitState_outcome:
  "fst (explicitState n now) = worst
    [if withdrawal_clear (un_Withdrawal n) then Eligible
     else if wd_Status (un_Withdrawal n) = WithdrawalWithdrawn \<and> 0 < wd_Revision (un_Withdrawal n) \<and>
        validText (wd_EventID (un_Withdrawal n)) then Excluded else Blocked,
     if validity (un_Temporal n) now = (True, []) then Eligible
     else if fst (validity (un_Temporal n) now) then Excluded else Blocked,
     if cu_Status (un_Currentness n) = CurrentnessSuperseded \<or> tm_Status (un_Temporal n) \<in> {TemporalStale, TemporalSuperseded}
     then Excluded else if currentness_clear n then Eligible else Blocked]"
  by (simp add: explicitState_def Let_def addsD [OF withdrawal_state_adds] addsD [OF validity_state_adds]
      addsD [OF currentness_state_adds] worse_assoc)

text \<open>A reason is given exactly when the outcome is not \<open>Eligible\<close>.\<close>

lemma state_reasons:
  "(na_Outcome a = Eligible \<longleftrightarrow> na_Reasons a = []) \<Longrightarrow>
    (na_Outcome (currentness_state n (validity_state n now (withdrawal_state w a))) = Eligible \<longleftrightarrow>
     na_Reasons (currentness_state n (validity_state n now (withdrawal_state w a))) = [])"
proof -
  have add: "na_Reasons (NodeAssessment_add x c r b) \<noteq> []" for x c r b by (simp add: NodeAssessment_add_def)
  have "(na_Outcome b = Eligible \<longleftrightarrow> na_Reasons b = []) \<Longrightarrow>
    (na_Outcome (withdrawal_state w b) = Eligible \<longleftrightarrow> na_Reasons (withdrawal_state w b) = [])" for b
    by (simp add: withdrawal_state_def adds_simps add)
  moreover have "(na_Outcome b = Eligible \<longleftrightarrow> na_Reasons b = []) \<Longrightarrow>
    (na_Outcome (validity_state n now b) = Eligible \<longleftrightarrow> na_Reasons (validity_state n now b) = [])" for b
    by (simp add: validity_state_def adds_simps add split: prod.split)
  moreover have "(na_Outcome b = Eligible \<longleftrightarrow> na_Reasons b = []) \<Longrightarrow>
    (na_Outcome (currentness_state n b) = Eligible \<longleftrightarrow> na_Reasons (currentness_state n b) = [])" for b
    by (simp add: currentness_state_def adds_simps add Let_def)
  ultimately show "(na_Outcome a = Eligible \<longleftrightarrow> na_Reasons a = []) \<Longrightarrow> ?thesis" by blast
qed

lemma explicitState_reasons: "snd (explicitState n now) = [] \<longleftrightarrow> fst (explicitState n now) = Eligible"
  using state_reasons [of "\<lparr>na_NodeID = [], na_Outcome = Eligible, na_Reasons = []\<rparr>" n now "un_Withdrawal n"]
  by (simp add: explicitState_def Let_def)

section \<open>Sources\<close>

text \<open>A finding that applies to the exact snapshot, content and declared revision of a source.\<close>

definition exact_check :: "Source \<Rightarrow> string \<Rightarrow> SourceCheck \<Rightarrow> bool" where
  "exact_check src criterion c \<longleftrightarrow> sc_SourceSnapshotID c = so_SnapshotID src \<and> sc_ContentHash c = so_ContentHash src \<and>
    sc_Scope c = RetainedSnapshotScope \<and> validText (sc_MaterialRef c) \<and>
    (criterion = RetentionV1 \<or> so_ProviderRevision src \<noteq> [] \<and> sc_ComparedRevision c = so_ProviderRevision src)"

lemma tally_checks:
  "foldl (tally_check src criterion) (p, f, u) cs =
    (p \<or> (\<exists>c\<in>set cs. sc_Criterion c = criterion \<and> exact_check src criterion c \<and> sc_Result c = CheckPass),
     f \<or> (\<exists>c\<in>set cs. sc_Criterion c = criterion \<and> exact_check src criterion c \<and> sc_Result c = CheckFail),
     u \<or> (\<exists>c\<in>set cs. sc_Criterion c = criterion \<and>
        \<not> (exact_check src criterion c \<and> (sc_Result c = CheckPass \<or> sc_Result c = CheckFail))))"
proof (induction cs arbitrary: p f u)
  case (Cons c cs)
  have step: "tally_check src criterion (p, f, u) c =
    (p \<or> sc_Criterion c = criterion \<and> exact_check src criterion c \<and> sc_Result c = CheckPass,
     f \<or> sc_Criterion c = criterion \<and> exact_check src criterion c \<and> sc_Result c = CheckFail,
     u \<or> sc_Criterion c = criterion \<and> \<not> (exact_check src criterion c \<and> (sc_Result c = CheckPass \<or> sc_Result c = CheckFail)))"
    by (auto simp: tally_check_def exact_check_def)
  show ?case unfolding foldl_Cons step Cons.IH by simp
qed simp

lemma sourceCriterion_Eligible:
  "sourceCriterion src criterion = Eligible \<longleftrightarrow>
    (\<exists>c\<in>set (elems (so_Checks src)). sc_Criterion c = criterion) \<and>
    (\<forall>c\<in>set (elems (so_Checks src)). sc_Criterion c = criterion \<longrightarrow>
       exact_check src criterion c \<and> sc_Result c = CheckPass)"
  unfolding sourceCriterion_def tally_checks prod.case by auto

lemma sourceCriterion_Excluded:
  "sourceCriterion src criterion = Excluded \<longleftrightarrow>
    (\<exists>c\<in>set (elems (so_Checks src)). sc_Criterion c = criterion) \<and>
    (\<forall>c\<in>set (elems (so_Checks src)). sc_Criterion c = criterion \<longrightarrow>
       exact_check src criterion c \<and> sc_Result c = CheckFail)"
  unfolding sourceCriterion_def tally_checks prod.case by auto

definition criteria :: "string list" where
  "criteria = [RetentionV1, CorrespondenceV1, CoverageV1]"

text \<open>The criteria that a policy applies to a source: under the weaker one, those with a finding.\<close>

definition applicable :: "Policy \<Rightarrow> Source \<Rightarrow> string \<Rightarrow> bool" where
  "applicable policy src criterion \<longleftrightarrow> criterion \<in> set criteria \<and>
    (policy \<noteq> CurrentActionV1 \<or> (\<exists>c\<in>set (elems (so_Checks src)). sc_Criterion c = criterion))"

definition source_outcome :: "(string, Source) gomap \<Rightarrow> Policy \<Rightarrow> string \<Rightarrow> Outcome" where
  "source_outcome sources policy i = (case map_of sources i of None \<Rightarrow> Blocked
    | Some src \<Rightarrow> worse (if so_AssessmentsComplete src then Eligible else Blocked)
        (worst (map (\<lambda>cr. if applicable policy src cr then sourceCriterion src cr else Eligible) criteria)))"

lemma check_criterion_adds:
  assumes "cr \<in> set criteria"
  shows "adds (\<lambda>a. check_criterion policy i src a cr) (if applicable policy src cr then sourceCriterion src cr else Eligible)"
  using assms by (auto simp: adds_def check_criterion_def applicable_def Let_def adds_simps)

lemma adds_foldl_set:
  assumes "\<And>x. x \<in> set xs \<Longrightarrow> adds (\<lambda>a. f a x) (g x)"
  shows "adds (\<lambda>a. foldl f a xs) (worst (map g xs))"
proof -
  have "na_NodeID (foldl f a xs) = na_NodeID a \<and> na_Outcome (foldl f a xs) = worse (na_Outcome a) (worst (map g xs))" for a
    using assms by (induction xs arbitrary: a) (simp_all add: adds_def worse_assoc)
  then show ?thesis by (simp add: adds_def)
qed

lemma check_source_adds: "adds (\<lambda>a. check_source sources policy a i) (source_outcome sources policy i)"
proof (cases "map_of sources i")
  case None
  then show ?thesis by (simp add: adds_def check_source_def source_outcome_def adds_simps)
next
  case (Some src)
  note c = addsD [OF adds_foldl_set [OF check_criterion_adds, where xs = criteria]]
  show ?thesis
    unfolding adds_def check_source_def source_outcome_def Some option.case criteria_def [symmetric]
    by (simp only: c [OF _ ] adds_simps worse_assoc) simp
qed

section \<open>Contradictions\<close>

definition peer_of :: "string \<Rightarrow> Contradiction \<Rightarrow> string" where
  "peer_of i e = (if ct_Left e = i then ct_Right e else ct_Left e)"

text \<open>A recorded conflict is inactive for a node only when the peer is admitted and known to be excluded.\<close>

definition inactive_edge :: "Snapshot \<Rightarrow> time \<Rightarrow> string \<Rightarrow> Contradiction \<Rightarrow> bool" where
  "inactive_edge s now i e \<longleftrightarrow> (\<exists>peer. map_of (ss_Nodes s) (peer_of i e) = Some peer \<and>
     un_Admission peer = ''admitted'' \<and> fst (explicitState peer now) = Excluded)"

lemma check_edge_adds: "adds (\<lambda>a. check_edge s now i a e) (if inactive_edge s now i e then Eligible else Blocked)"
proof (cases "map_of (ss_Nodes s) (peer_of i e)")
  case None
  then show ?thesis
    unfolding adds_def check_edge_def inactive_edge_def peer_of_def [symmetric] Let_def by (simp add: adds_simps)
next
  case (Some peer)
  obtain x where x: "fst (explicitState peer now) = x" by simp
  show ?thesis
    unfolding adds_def check_edge_def inactive_edge_def peer_of_def [symmetric] Let_def Some option.case option.inject x
    by (cases x) (simp_all add: adds_simps x)
qed

lemma incident_edges_set: "set (incident_edges cs i) = {e \<in> set cs. ct_Left e = i \<or> ct_Right e = i}"
proof -
  have "set (foldl (\<lambda>m edge. let m = m(ct_Left edge := m (ct_Left edge) @ [edge])
     in m(ct_Right edge := m (ct_Right edge) @ [edge])) m cs i) = set (m i) \<union> {e \<in> set cs. ct_Left e = i \<or> ct_Right e = i}" for m
    by (induction cs arbitrary: m) (auto simp: Let_def)
  then show ?thesis by (simp add: incident_edges_def)
qed

section \<open>One node\<close>

text \<open>What a node owes to itself, its sources and its conflicts, as opposed to its parents.\<close>

definition clear_node :: "Snapshot \<Rightarrow> Policy \<Rightarrow> time \<Rightarrow> string \<Rightarrow> UseNode \<Rightarrow> bool" where
  "clear_node s policy now i n \<longleftrightarrow>
    un_Admission n = ''admitted'' \<and>
    (un_Kind n = CanonicalSourceClaim \<or> un_Kind n = CanonicalDerivedClaim \<and> un_UseClass n = DerivationOrdinary) \<and>
    withdrawal_clear (un_Withdrawal n) \<and> validity (un_Temporal n) now = (True, []) \<and>
    currentness_clear n \<and> cu_Status (un_Currentness n) \<noteq> CurrentnessSuperseded \<and>
    un_ParentsComplete n \<and> (un_Kind n = CanonicalDerivedClaim \<longrightarrow> un_Parents n \<noteq> []) \<and>
    un_SourcesComplete n \<and> (un_Kind n = CanonicalSourceClaim \<longrightarrow> un_SourceIDs n \<noteq> []) \<and>
    (\<forall>sid\<in>set (un_SourceIDs n). \<exists>src. map_of (ss_Sources s) sid = Some src \<and> so_AssessmentsComplete src \<and>
       (\<forall>cr. applicable policy src cr \<longrightarrow> sourceCriterion src cr = Eligible)) \<and>
    un_ContradictionsComplete n \<and>
    (\<forall>e\<in>set (elems (ss_Contradictions s)). i \<in> {ct_Left e, ct_Right e} \<longrightarrow> inactive_edge s now i e)"

definition excluded_node :: "Snapshot \<Rightarrow> Policy \<Rightarrow> time \<Rightarrow> UseNode \<Rightarrow> bool" where
  "excluded_node s policy now n \<longleftrightarrow>
    un_Kind n = CanonicalDerivedClaim \<and> un_UseClass n = DerivationHistoricalOnly \<or>
    fst (explicitState n now) = Excluded \<or>
    (\<exists>sid\<in>set (un_SourceIDs n). \<exists>src. map_of (ss_Sources s) sid = Some src \<and>
       (\<exists>cr. applicable policy src cr \<and> sourceCriterion src cr = Excluded))"

lemma foldl_reasons:
  "na_NodeID (foldl (\<lambda>a reason. NodeAssessment_add x reason i a) a rs) = na_NodeID a \<and>
   na_Outcome (foldl (\<lambda>a reason. NodeAssessment_add x reason i a) a rs) = (if rs = [] then na_Outcome a else worse (na_Outcome a) x)"
proof (induction rs arbitrary: a)
  case (Cons r rs)
  have "worse (worse y x) x = worse y x" for y by (cases y; cases x) auto
  with Cons show ?case by (auto simp: adds_simps)
qed simp

lemma open_outcome:
  "na_NodeID (open_assessment now i n) = i \<and> na_Outcome (open_assessment now i n) = worst
    [if un_Admission n = ''admitted'' then Eligible else Blocked,
     if un_Kind n = CanonicalSourceClaim \<or> un_Kind n = CanonicalDerivedClaim then Eligible else Blocked,
     if un_Kind n = CanonicalDerivedClaim then (if un_UseClass n = DerivationHistoricalOnly then Excluded
        else if un_UseClass n = DerivationOrdinary then Eligible else Blocked) else Eligible,
     fst (explicitState n now),
     if un_ParentsComplete n then Eligible else Blocked,
     if un_Kind n = CanonicalDerivedClaim \<and> un_Parents n = [] then Blocked else Eligible]"
proof -
  have "(if rs = [] then y else worse y x) = worse y x" if "rs = [] \<longleftrightarrow> x = Eligible" for rs :: "string list" and x y
    using that by auto
  note r = this [OF explicitState_reasons]
  show ?thesis
    unfolding open_assessment_def Let_def
    by (simp add: adds_simps foldl_reasons r worse_assoc case_prod_unfold del: if_split)
qed

lemma close_outcome:
  "na_NodeID (close_assessment s policy now edges i n a) = na_NodeID a \<and>
   na_Outcome (close_assessment s policy now edges i n a) = worse (na_Outcome a) (worst
    ([if un_SourcesComplete n then Eligible else Blocked,
      if un_Kind n = CanonicalSourceClaim \<and> un_SourceIDs n = [] then Blocked else Eligible,
      worst (map (source_outcome (ss_Sources s) policy) (sortedCopy (un_SourceIDs n))),
      if un_ContradictionsComplete n then Eligible else Blocked,
      worst (map (\<lambda>e. if inactive_edge s now i e then Eligible else Blocked) (edges i))]))"
  unfolding close_assessment_def Let_def
  by (simp add: adds_simps addsD [OF adds_foldl [OF check_source_adds]] addsD [OF adds_foldl [OF check_edge_adds]]
      worse_assoc)

lemma applicable_criterion: "applicable policy src cr \<Longrightarrow> cr \<in> set criteria"
  by (simp add: applicable_def)

lemma source_outcome_Eligible:
  "source_outcome sources policy i = Eligible \<longleftrightarrow> (\<exists>src. map_of sources i = Some src \<and> so_AssessmentsComplete src \<and>
       (\<forall>cr. applicable policy src cr \<longrightarrow> sourceCriterion src cr = Eligible))"
proof (cases "map_of sources i")
  case (Some src)
  have "(\<forall>cr\<in>set criteria. (if applicable policy src cr then sourceCriterion src cr else Eligible) = Eligible) \<longleftrightarrow>
      (\<forall>cr. applicable policy src cr \<longrightarrow> sourceCriterion src cr = Eligible)"
    using applicable_criterion by fastforce
  then show ?thesis unfolding source_outcome_def Some option.case worse_Eligible worst_map_Eligible by simp
qed (simp add: source_outcome_def)

lemma source_outcome_Excluded:
  "source_outcome sources policy i = Excluded \<longleftrightarrow> (\<exists>src. map_of sources i = Some src \<and>
       (\<exists>cr. applicable policy src cr \<and> sourceCriterion src cr = Excluded))"
proof (cases "map_of sources i")
  case (Some src)
  have "(\<exists>cr\<in>set criteria. (if applicable policy src cr then sourceCriterion src cr else Eligible) = Excluded) \<longleftrightarrow>
      (\<exists>cr. applicable policy src cr \<and> sourceCriterion src cr = Excluded)"
  proof -
    have "(if b then x else Eligible) = Excluded \<longleftrightarrow> b \<and> x = Excluded" for b x by simp
    then show ?thesis using applicable_criterion by blast
  qed
  then show ?thesis unfolding source_outcome_def Some option.case worse_Excluded worst_map_Excluded by simp
qed (simp add: source_outcome_def)

lemma open_Eligible:
  "na_Outcome (open_assessment now i n) = Eligible \<longleftrightarrow> un_Admission n = ''admitted'' \<and>
    (un_Kind n = CanonicalSourceClaim \<or> un_Kind n = CanonicalDerivedClaim \<and> un_UseClass n = DerivationOrdinary) \<and>
    fst (explicitState n now) = Eligible \<and> un_ParentsComplete n \<and>
    (un_Kind n = CanonicalDerivedClaim \<longrightarrow> un_Parents n \<noteq> [])"
  unfolding open_outcome [THEN conjunct2] worst_simps worse_Eligible by simp

lemma open_Excluded:
  "na_Outcome (open_assessment now i n) = Excluded \<longleftrightarrow>
    un_Kind n = CanonicalDerivedClaim \<and> un_UseClass n = DerivationHistoricalOnly \<or> fst (explicitState n now) = Excluded"
  unfolding open_outcome [THEN conjunct2] worst_simps worse_Excluded by simp

lemma explicitState_Eligible:
  "fst (explicitState n now) = Eligible \<longleftrightarrow> withdrawal_clear (un_Withdrawal n) \<and>
    validity (un_Temporal n) now = (True, []) \<and> currentness_clear n \<and>
    cu_Status (un_Currentness n) \<noteq> CurrentnessSuperseded"
proof -
  have "currentness_clear n \<Longrightarrow> tm_Status (un_Temporal n) \<notin> {TemporalStale, TemporalSuperseded}"
    by (simp add: currentness_clear_def Let_def)
  then show ?thesis unfolding explicitState_outcome worst_simps worse_Eligible by (simp split del: if_split) (auto split: if_splits)
qed

lemma close_Eligible:
  "na_Outcome (close_assessment s policy now (incident_edges (elems (ss_Contradictions s))) i n a) = Eligible \<longleftrightarrow>
    na_Outcome a = Eligible \<and> un_SourcesComplete n \<and> (un_Kind n = CanonicalSourceClaim \<longrightarrow> un_SourceIDs n \<noteq> []) \<and>
    (\<forall>sid\<in>set (un_SourceIDs n). \<exists>src. map_of (ss_Sources s) sid = Some src \<and> so_AssessmentsComplete src \<and>
       (\<forall>cr. applicable policy src cr \<longrightarrow> sourceCriterion src cr = Eligible)) \<and>
    un_ContradictionsComplete n \<and>
    (\<forall>e\<in>set (elems (ss_Contradictions s)). i \<in> {ct_Left e, ct_Right e} \<longrightarrow> inactive_edge s now i e)"
  unfolding close_outcome [THEN conjunct2] worst_simps worse_Eligible
  by (simp add: worst_map_Eligible source_outcome_Eligible incident_edges_set sortedCopy_def) blast

lemma close_Excluded:
  "na_Outcome (close_assessment s policy now edges i n a) = Excluded \<longleftrightarrow> na_Outcome a = Excluded \<or>
    (\<exists>sid\<in>set (un_SourceIDs n). \<exists>src. map_of (ss_Sources s) sid = Some src \<and>
       (\<exists>cr. applicable policy src cr \<and> sourceCriterion src cr = Excluded))"
  unfolding close_outcome [THEN conjunct2] worst_simps worse_Excluded
  by (simp add: worst_map_Excluded source_outcome_Excluded sortedCopy_def)

lemma clear_node_parts:
  "clear_node s policy now i n \<longleftrightarrow> na_Outcome (open_assessment now i n) = Eligible \<and>
    na_Outcome (close_assessment s policy now (incident_edges (elems (ss_Contradictions s))) i n
      \<lparr>na_NodeID = i, na_Outcome = Eligible, na_Reasons = []\<rparr>) = Eligible"
  unfolding clear_node_def open_Eligible close_Eligible explicitState_Eligible by (simp add: conj_ac)

lemma excluded_node_parts:
  "excluded_node s policy now n \<longleftrightarrow> na_Outcome (open_assessment now i n) = Excluded \<or>
    na_Outcome (close_assessment s policy now edges i n
      \<lparr>na_NodeID = i, na_Outcome = Eligible, na_Reasons = []\<rparr>) = Excluded"
  unfolding excluded_node_def open_Excluded close_Excluded by simp

end
