(* ===== verification/UseAssessment.thy ===== *)
theory UseAssessment
  imports UseSpec
begin

text \<open>
  The depth-first search implements the specification: what it leaves in the map \<open>done\<close>, when it fails,
  and the properties of assessments, plans and verification reuse.
\<close>

section \<open>Ancestry\<close>

definition parent_of :: "Snapshot \<Rightarrow> (string \<times> string) set" where
  "parent_of s = {(i, p). \<exists>n. map_of (ss_Nodes s) i = Some n \<and> p \<in> set (un_Parents n)}"

definition ancestry :: "Snapshot \<Rightarrow> string set \<Rightarrow> string set" where
  "ancestry s R = (parent_of s)\<^sup>* `` R"

text \<open>A source claim with derivation parents.\<close>

definition malformed :: "Snapshot \<Rightarrow> string \<Rightarrow> bool" where
  "malformed s i \<longleftrightarrow> (\<exists>n. map_of (ss_Nodes s) i = Some n \<and> un_Kind n = CanonicalSourceClaim \<and> un_Parents n \<noteq> [])"

text \<open>A claim is usable when it and its whole ancestry are clear; it is excluded when one of them is.\<close>

inductive usable :: "Snapshot \<Rightarrow> Policy \<Rightarrow> time \<Rightarrow> string \<Rightarrow> bool" for s policy now where
  usable: "map_of (ss_Nodes s) i = Some n \<Longrightarrow> clear_node s policy now i n \<Longrightarrow>
    (\<And>p. p \<in> set (un_Parents n) \<Longrightarrow> usable s policy now p) \<Longrightarrow> usable s policy now i"

inductive excluded :: "Snapshot \<Rightarrow> Policy \<Rightarrow> time \<Rightarrow> string \<Rightarrow> bool" for s policy now where
  own: "map_of (ss_Nodes s) i = Some n \<Longrightarrow> excluded_node s policy now n \<Longrightarrow> excluded s policy now i"
| inherited: "map_of (ss_Nodes s) i = Some n \<Longrightarrow> p \<in> set (un_Parents n) \<Longrightarrow> excluded s policy now p \<Longrightarrow>
    excluded s policy now i"

inductive_cases usableE: "usable s policy now i"
inductive_cases excludedE: "excluded s policy now i"

lemma usable_iff:
  assumes "map_of (ss_Nodes s) i = Some n"
  shows "usable s policy now i \<longleftrightarrow> clear_node s policy now i n \<and> (\<forall>p\<in>set (un_Parents n). usable s policy now p)"
  by (subst usable.simps) (auto simp: assms)

lemma excluded_iff:
  assumes "map_of (ss_Nodes s) i = Some n"
  shows "excluded s policy now i \<longleftrightarrow> excluded_node s policy now n \<or> (\<exists>p\<in>set (un_Parents n). excluded s policy now p)"
  by (subst excluded.simps) (auto simp: assms)

lemma missing_state:
  assumes "map_of (ss_Nodes s) i = None"
  shows "\<not> usable s policy now i" and "\<not> excluded s policy now i"
  using assms by (auto elim: usableE excludedE)

section \<open>The invariant of the search\<close>

definition faithful :: "Snapshot \<Rightarrow> Policy \<Rightarrow> time \<Rightarrow> string \<Rightarrow> NodeAssessment \<Rightarrow> bool" where
  "faithful s policy now i a \<longleftrightarrow> na_NodeID a = i \<and> (na_Outcome a = Eligible \<longleftrightarrow> usable s policy now i) \<and>
    (na_Outcome a = Excluded \<longleftrightarrow> excluded s policy now i)"

definition search_inv :: "Snapshot \<Rightarrow> Policy \<Rightarrow> time \<Rightarrow> string list \<Rightarrow> assessed \<Rightarrow> bool" where
  "search_inv s policy now V d \<longleftrightarrow> gomap d \<and> keys d \<inter> set V = {} \<and>
    (\<forall>i a. map_of d i = Some a \<longrightarrow> faithful s policy now i a) \<and>
    (\<forall>i\<in>keys d. \<not> malformed s i) \<and> (\<forall>i p. i \<in> keys d \<longrightarrow> (i, p) \<in> parent_of s \<longrightarrow> p \<in> keys d) \<and>
    acyclic {(i, p) \<in> parent_of s. i \<in> keys d}"

definition extends :: "Snapshot \<Rightarrow> assessed \<Rightarrow> assessed \<Rightarrow> string set \<Rightarrow> bool" where
  "extends s d d' R \<longleftrightarrow> keys d \<subseteq> keys d' \<and> R \<subseteq> keys d' \<and> keys d' \<subseteq> keys d \<union> ancestry s R"

lemma acyclic_new_source:
  assumes "acyclic r" and "\<And>x. (x, i) \<notin> r" and "i \<notin> T"
  shows "acyclic (r \<union> {i} \<times> T)"
proof -
  have "(x, y) \<in> (r \<union> {i} \<times> T)\<^sup>+ \<Longrightarrow> y \<noteq> i \<and> (x \<noteq> i \<longrightarrow> (x, y) \<in> r\<^sup>+)" for x y
  proof (induction rule: trancl_induct)
    case (base y)
    then show ?case using assms(2,3) by auto
  next
    case (step y z)
    then show ?case using assms(2,3) by (auto intro: trancl_into_trancl)
  qed
  then show ?thesis using assms(1) unfolding acyclic_def by metis
qed

text \<open>Recording a node whose parents have been recorded keeps the invariant.\<close>

lemma record_inv:
  assumes inv: "search_inv s policy now V d" and i: "i \<notin> keys d" "i \<notin> set V"
    and a: "faithful s policy now i a" and ok: "\<not> malformed s i"
    and parents: "\<And>p. (i, p) \<in> parent_of s \<Longrightarrow> p \<in> keys d"
  shows "search_inv s policy now V (AList.update i a d)"
proof -
  have d: "gomap d" "keys d \<inter> set V = {}" "\<And>i a. map_of d i = Some a \<Longrightarrow> faithful s policy now i a"
    "\<And>i. i \<in> keys d \<Longrightarrow> \<not> malformed s i" "\<And>i p. i \<in> keys d \<Longrightarrow> (i, p) \<in> parent_of s \<Longrightarrow> p \<in> keys d"
    "acyclic {(i, p) \<in> parent_of s. i \<in> keys d}"
    using inv unfolding search_inv_def by blast+
  have split: "{(j, p) \<in> parent_of s. j \<in> keys (AList.update i a d)} =
      {(j, p) \<in> parent_of s. j \<in> keys d} \<union> {i} \<times> {p. (i, p) \<in> parent_of s}" by auto
  have "acyclic {(j, p) \<in> parent_of s. j \<in> keys (AList.update i a d)}"
    unfolding split
  proof (rule acyclic_new_source [OF d(6)])
    show "(x, i) \<notin> {(i, p). (i, p) \<in> parent_of s \<and> i \<in> keys d}" for x using d(5) i(1) by blast
    show "i \<notin> {p. (i, p) \<in> parent_of s}" using parents i(1) by blast
  qed
  moreover have "\<forall>j b. map_of (AList.update i a d) j = Some b \<longrightarrow> faithful s policy now j b"
    using d(3) a by (simp add: map_of_update)
  ultimately show ?thesis
    unfolding search_inv_def using d(1,2,4,5) i ok parents by simp
qed

lemma extends_trans:
  "extends s d d1 R \<Longrightarrow> extends s d1 d2 T \<Longrightarrow> extends s d d2 (R \<union> T)"
  unfolding extends_def ancestry_def by blast

lemma add_parent_outcome:
  "na_NodeID (add_parent q p a) = na_NodeID a" "na_Outcome (add_parent q p a) = worse (na_Outcome a) (na_Outcome p)"
  by (simp_all add: add_parent_def adds_simps)

lemma ancestry_parents:
  assumes "map_of (ss_Nodes s) i = Some n"
  shows "insert i (ancestry s (set (un_Parents n))) \<subseteq> ancestry s {i}"
proof -
  have "(i, p) \<in> parent_of s" if "p \<in> set (un_Parents n)" for p using assms that by (auto simp: parent_of_def)
  then show ?thesis unfolding ancestry_def by (auto intro: converse_rtrancl_into_rtrancl)
qed

lemma close_worse:
  "na_Outcome (close_assessment s policy now edges i n a) = worse (na_Outcome a)
    (na_Outcome (close_assessment s policy now edges i n \<lparr>na_NodeID = i, na_Outcome = Eligible, na_Reasons = []\<rparr>))"
  unfolding close_outcome [THEN conjunct2] by simp

text \<open>The assessment of a node whose parents' outcomes have been folded into \<open>b\<close>.\<close>

lemma closed_faithful:
  assumes n: "map_of (ss_Nodes s) i = Some n" and "na_NodeID b = i"
    and "na_Outcome b = Eligible \<longleftrightarrow> na_Outcome (open_assessment now i n) = Eligible \<and> (\<forall>p\<in>set (un_Parents n). usable s policy now p)"
    and "na_Outcome b = Excluded \<longleftrightarrow> na_Outcome (open_assessment now i n) = Excluded \<or> (\<exists>p\<in>set (un_Parents n). excluded s policy now p)"
  shows "faithful s policy now i (close_assessment s policy now (incident_edges (elems (ss_Contradictions s))) i n b)"
proof -
  let ?c = "\<lambda>a. na_Outcome (close_assessment s policy now (incident_edges (elems (ss_Contradictions s))) i n a)"
    and ?blank = "\<lparr>na_NodeID = i, na_Outcome = Eligible, na_Reasons = []\<rparr>"
  have "?c b = Eligible \<longleftrightarrow> na_Outcome b = Eligible \<and> ?c ?blank = Eligible"
    "?c b = Excluded \<longleftrightarrow> na_Outcome b = Excluded \<or> ?c ?blank = Excluded"
    using close_worse by (metis worse_Eligible, metis worse_Excluded)
  moreover have "na_NodeID (close_assessment s policy now (incident_edges (elems (ss_Contradictions s))) i n b) = i"
    using close_outcome assms(2) by blast
  ultimately show ?thesis
    unfolding faithful_def usable_iff [OF n] excluded_iff [OF n] clear_node_parts
      excluded_node_parts [where i = i and edges = "incident_edges (elems (ss_Contradictions s))"]
    using assms(3,4) by blast
qed

text \<open>The visit of a node of the snapshot that is neither finished nor on the stack.\<close>

lemma visit_node:
  assumes "map_of d i = None" and "i \<notin> set V" and "map_of (ss_Nodes s) i = Some n"
    and "\<not> (un_Kind n = CanonicalSourceClaim \<and> un_Parents n \<noteq> [])"
  shows "visit s policy now edges V d i =
    map_sum id (\<lambda>(d, b). let a = close_assessment s policy now edges i n b in (AList.update i a d, a))
      (visit_parents s policy now edges (i # V) d (open_assessment now i n) (sortedCopy (un_Parents n)))"
  unfolding visit.simps assms(1,3) option.case if_not_P [OF assms(2)] if_not_P [OF assms(4)]
  by (simp add: Let_def case_prod_unfold split: sum.split)

lemma search_invariant:
  shows "edges = incident_edges (elems (ss_Contradictions s)) \<Longrightarrow> search_inv s policy now V d \<Longrightarrow>
      visit s policy now edges V d i = Inr (d', a) \<Longrightarrow>
      search_inv s policy now V d' \<and> extends s d d' {i} \<and> map_of d' i = Some a"
    and "edges = incident_edges (elems (ss_Contradictions s)) \<Longrightarrow> search_inv s policy now V d \<Longrightarrow>
      visit_parents s policy now edges V d b ps = Inr (d', b') \<Longrightarrow>
      search_inv s policy now V d' \<and> extends s d d' (set ps) \<and> na_NodeID b' = na_NodeID b \<and>
      (na_Outcome b' = Eligible \<longleftrightarrow> na_Outcome b = Eligible \<and> (\<forall>p\<in>set ps. usable s policy now p)) \<and>
      (na_Outcome b' = Excluded \<longleftrightarrow> na_Outcome b = Excluded \<or> (\<exists>p\<in>set ps. excluded s policy now p))"
proof (induction s policy now edges V d i and s policy now edges V d b ps arbitrary: d' a and d' b'
    rule: visit_visit_parents.induct)
  case (1 s policy now edges V d i)
  note edges = "1.prems"(1) and inv = "1.prems"(2) and run = "1.prems"(3)
  show ?case
  proof (cases "map_of d i")
    case (Some x)
    then have "i \<in> keys d" by (auto simp: keys_Some)
    with Some run inv show ?thesis by (auto simp: extends_def ancestry_def)
  next
    case None
    then have new: "i \<notin> keys d" by (simp add: map_of_None_keys)
    have i: "i \<notin> set V" using run None by (auto split: if_splits)
    show ?thesis
    proof (cases "map_of (ss_Nodes s) i")
      case missing: None
      let ?a = "NodeAssessment_add Blocked ''missing_node'' i \<lparr>na_NodeID = i, na_Outcome = Eligible, na_Reasons = []\<rparr>"
      have v: "visit s policy now edges V d i = Inr (AList.update i ?a d, ?a)" using None i missing by (simp add: Let_def)
      have d': "d' = AList.update i ?a d" "a = ?a" using run unfolding v by blast+
      have "faithful s policy now i ?a" using missing_state [OF missing] by (simp add: faithful_def adds_simps)
      then have "search_inv s policy now V d'"
        unfolding d' using missing by (intro record_inv [OF inv new i]) (auto simp: malformed_def parent_of_def)
      then show ?thesis unfolding extends_def d' ancestry_def by (auto simp: map_of_update)
    next
      case (Some n)
      have ok: "\<not> (un_Kind n = CanonicalSourceClaim \<and> un_Parents n \<noteq> [])" using run None i Some by (auto split: if_splits)
      obtain d1 b where parents: "visit_parents s policy now edges (i # V) d (open_assessment now i n) (sortedCopy (un_Parents n)) = Inr (d1, b)"
        and d': "d' = AList.update i (close_assessment s policy now edges i n b) d1" "a = close_assessment s policy now edges i n b"
        using run unfolding visit_node [OF None i Some ok]
        by (cases "visit_parents s policy now edges (i # V) d (open_assessment now i n) (sortedCopy (un_Parents n))")
          (auto simp: Let_def)
      have "search_inv s policy now (i # V) d" using inv new unfolding search_inv_def by simp
      from "1.IH" [OF None i Some ok edges this parents]
      have ih: "search_inv s policy now (i # V) d1" "extends s d d1 (set (un_Parents n))" "na_NodeID b = i"
        "na_Outcome b = Eligible \<longleftrightarrow> na_Outcome (open_assessment now i n) = Eligible \<and> (\<forall>p\<in>set (un_Parents n). usable s policy now p)"
        "na_Outcome b = Excluded \<longleftrightarrow> na_Outcome (open_assessment now i n) = Excluded \<or> (\<exists>p\<in>set (un_Parents n). excluded s policy now p)"
        by (simp_all add: sortedCopy_def open_outcome)
      have "search_inv s policy now V d1" "i \<notin> keys d1" using ih(1) unfolding search_inv_def by auto
      moreover have "faithful s policy now i (close_assessment s policy now edges i n b)"
        unfolding edges by (rule closed_faithful [OF Some ih(3-5)])
      moreover have "\<not> malformed s i" using ok Some by (simp add: malformed_def)
      moreover have "p \<in> keys d1" if "(i, p) \<in> parent_of s" for p
        using that Some ih(2) by (auto simp: parent_of_def extends_def)
      ultimately have "search_inv s policy now V d'" unfolding d' using i by (intro record_inv)
      moreover have "extends s d d' {i}"
        using ih(2) ancestry_parents [OF Some] unfolding extends_def d' by auto
      ultimately show ?thesis unfolding d' by (simp add: map_of_update)
    qed
  qed
next
  case (2 s policy now edges V d a)
  then show ?case by (auto simp: extends_def)
next
  case (3 s policy now edges V d b p ps)
  obtain d1 q where visit: "visit s policy now edges V d p = Inr (d1, q)"
    and rest: "visit_parents s policy now edges V d1 (add_parent p q b) ps = Inr (d', b')"
    using "3.prems"(3) by (auto split: sum.splits prod.splits)
  from "3.IH"(1) [OF "3.prems"(1,2) visit]
  have v: "search_inv s policy now V d1" "extends s d d1 {p}" "map_of d1 p = Some q" by blast+
  then have "faithful s policy now p q" unfolding search_inv_def by blast
  moreover from "3.IH"(2) [OF visit refl "3.prems"(1) v(1) rest]
  have "search_inv s policy now V d'" "extends s d1 d' (set ps)" "na_NodeID b' = na_NodeID b"
      "(na_Outcome b' = Eligible \<longleftrightarrow> (na_Outcome b = Eligible \<and> na_Outcome q = Eligible) \<and> (\<forall>p\<in>set ps. usable s policy now p))"
      "(na_Outcome b' = Excluded \<longleftrightarrow> (na_Outcome b = Excluded \<or> na_Outcome q = Excluded) \<or> (\<exists>p\<in>set ps. excluded s policy now p))"
    unfolding add_parent_outcome worse_Eligible worse_Excluded by blast+
  moreover have "extends s d d' (set (p # ps))"
    using extends_trans [OF v(2)] \<open>extends s d1 d' (set ps)\<close> by force
  ultimately show ?case unfolding faithful_def by (simp add: conj_assoc disj_assoc)
qed

section \<open>Failure\<close>

definition broken :: "Snapshot \<Rightarrow> string \<Rightarrow> bool" where
  "broken s j \<longleftrightarrow> (j, j) \<in> (parent_of s)\<^sup>+ \<or> malformed s j"

lemma search_failure:
  shows "(\<forall>v\<in>set V. (v, i) \<in> (parent_of s)\<^sup>+) \<Longrightarrow> visit s policy now edges V d i = Inl e \<Longrightarrow>
      sentinel_of e = ErrInvalidProjection \<and> (\<exists>j\<in>ancestry s {i}. broken s j)"
    and "(\<forall>p\<in>set ps. \<forall>v\<in>set V. (v, p) \<in> (parent_of s)\<^sup>+) \<Longrightarrow> visit_parents s policy now edges V d b ps = Inl e \<Longrightarrow>
      sentinel_of e = ErrInvalidProjection \<and> (\<exists>j\<in>ancestry s (set ps). broken s j)"
proof (induction s policy now edges V d i and s policy now edges V d b ps arbitrary: e and e
    rule: visit_visit_parents.induct)
  case (1 s policy now edges V d i)
  have None: "map_of d i = None" using "1.prems"(2) by (cases "map_of d i") auto
  have self: "i \<in> ancestry s {i}" by (auto simp: ancestry_def)
  show ?case
  proof (cases "i \<in> set V")
    case True
    then show ?thesis using "1.prems" None self by (auto simp: broken_def)
  next
    case i: False
    obtain n where Some: "map_of (ss_Nodes s) i = Some n"
      using "1.prems"(2) None i by (cases "map_of (ss_Nodes s) i") (auto simp: Let_def)
    show ?thesis
    proof (cases "un_Kind n = CanonicalSourceClaim \<and> un_Parents n \<noteq> []")
      case True
      then have "malformed s i" using Some by (simp add: malformed_def)
      moreover have "e = invalid_projection ''source claim has derivation parents''"
        using "1.prems"(2) None i Some True by simp
      ultimately show ?thesis using self by (auto simp: broken_def)
    next
      case ok: False
      have fail: "visit_parents s policy now edges (i # V) d (open_assessment now i n) (sortedCopy (un_Parents n)) = Inl e"
        using "1.prems"(2) unfolding visit_node [OF None i Some ok]
        by (cases "visit_parents s policy now edges (i # V) d (open_assessment now i n) (sortedCopy (un_Parents n))")
          (auto simp: Let_def)
      have "(i, p) \<in> parent_of s" if "p \<in> set (un_Parents n)" for p using Some that by (auto simp: parent_of_def)
      then have "\<forall>p\<in>set (sortedCopy (un_Parents n)). \<forall>v\<in>set (i # V). (v, p) \<in> (parent_of s)\<^sup>+"
        using "1.prems"(1) by (auto simp: sortedCopy_def intro: trancl_into_trancl)
      from "1.IH" [OF None i Some ok this fail] ancestry_parents [OF Some] show ?thesis
        by (auto simp: sortedCopy_def)
    qed
  qed
next
  case (2 s policy now edges V d a)
  then show ?case by simp
next
  case (3 s policy now edges V d b p ps)
  show ?case
  proof (cases "visit s policy now edges V d p")
    case (Inl e')
    then have "visit s policy now edges V d p = Inl e" using "3.prems"(2) by simp
    from "3.IH"(1) [OF _ this] "3.prems"(1) show ?thesis by (auto simp: ancestry_def)
  next
    case (Inr r)
    obtain d1 q where r: "r = (d1, q)" by (cases r)
    have "visit_parents s policy now edges V d1 (add_parent p q b) ps = Inl e" using "3.prems"(2) Inr r by simp
    from "3.IH"(2) [OF Inr r [symmetric] _ this] "3.prems"(1) show ?thesis by (auto simp: ancestry_def)
  qed
qed

end
