(* ===== verification/UseProperties.thy ===== *)
theory UseProperties
  imports UseAssessment
begin

text \<open>
  The properties of the use gate: what an assessment decides and when there is one, that contradicting
  claims are never both eligible, that the stronger policy is stronger, what an accepted plan rests on,
  that a digest does not depend on the order of sets, and when a verification report is reused.
\<close>

section \<open>Assessments\<close>

lemma hasDuplicates_from_iff:
  "hasDuplicates_from prev vs \<longleftrightarrow> (\<exists>v\<in>set vs. \<not> validText v) \<or>
    adjacent_dup id ((case prev of None \<Rightarrow> [] | Some p \<Rightarrow> [p]) @ vs)"
proof (induction vs arbitrary: prev)
  case Nil
  show ?case by (cases prev) simp_all
next
  case (Cons v vs)
  show ?case using Cons.IH [of "Some v"] by (cases prev) auto
qed

lemma hasDuplicates_sort: "hasDuplicates (sort vs) \<longleftrightarrow> \<not> (distinct vs \<and> (\<forall>v\<in>set vs. validText v))"
  using adjacent_dup_sorted [of id "sort vs"] by (auto simp: hasDuplicates_def hasDuplicates_from_iff)

lemma visit_roots_ok:
  assumes "edges = incident_edges (elems (ss_Contradictions s))"
  shows "search_inv s policy now [] d \<Longrightarrow> visit_roots s policy now edges d is = Inr d' \<Longrightarrow>
    search_inv s policy now [] d' \<and> extends s d d' (set is)"
proof (induction "is" arbitrary: d)
  case Nil
  then show ?case by (simp add: extends_def)
next
  case (Cons i js)
  obtain d1 a where v: "visit s policy now edges [] d i = Inr (d1, a)" and r: "visit_roots s policy now edges d1 js = Inr d'"
    using Cons.prems(2) by (auto simp: and_then_Inr)
  from search_invariant(1) [OF assms Cons.prems(1) v] Cons.IH [OF _ r]
  have "search_inv s policy now [] d'" "extends s d d1 {i}" "extends s d1 d' (set js)" by blast+
  with extends_trans [of s d d1 "{i}" d' "set js"] show ?case by simp
qed

lemma visit_roots_failure:
  "visit_roots s policy now edges d is = Inl e \<Longrightarrow>
    sentinel_of e = ErrInvalidProjection \<and> (\<exists>j\<in>ancestry s (set is). broken s j)"
proof (induction "is" arbitrary: d)
  case (Cons i js)
  show ?case
  proof (cases "visit s policy now edges [] d i")
    case (Inl e')
    then have "visit s policy now edges [] d i = Inl e" using Cons.prems by simp
    from search_failure(1) [OF _ this] show ?thesis by (auto simp: ancestry_def)
  next
    case (Inr r)
    then have "visit_roots s policy now edges (fst r) js = Inl e" using Cons.prems by (cases r) simp
    from Cons.IH [OF this] show ?thesis by (auto simp: ancestry_def)
  qed
qed simp

lemma closed_not_broken:
  assumes inv: "search_inv s policy now V d" and j: "j \<in> keys d"
  shows "\<not> broken s j"
proof -
  have closed: "\<And>i p. i \<in> keys d \<Longrightarrow> (i, p) \<in> parent_of s \<Longrightarrow> p \<in> keys d"
    and acyclic: "acyclic {(i, p) \<in> parent_of s. i \<in> keys d}" and ok: "\<not> malformed s j"
    using inv j unfolding search_inv_def by blast+
  have "(j, k) \<in> (parent_of s)\<^sup>+ \<Longrightarrow> k \<in> keys d \<and> (j, k) \<in> {(i, p) \<in> parent_of s. i \<in> keys d}\<^sup>+" for k
  proof (induction rule: trancl_induct)
    case (base k)
    then show ?case using j closed by blast
  next
    case (step k l)
    then have "(k, l) \<in> {(i, p) \<in> parent_of s. i \<in> keys d}" by simp
    with step closed show ?case by (meson trancl_into_trancl)
  qed
  then show ?thesis using acyclic ok unfolding broken_def acyclic_def by blast
qed

lemma search_start: "search_inv s policy now [] []"
  by (simp add: search_inv_def acyclic_def)

lemma visit_roots_iff:
  "(\<exists>d. visit_roots s policy now (incident_edges (elems (ss_Contradictions s))) [] is = Inr d) \<longleftrightarrow>
    (\<forall>j\<in>ancestry s (set is). \<not> broken s j)"
proof (cases "visit_roots s policy now (incident_edges (elems (ss_Contradictions s))) [] is")
  case (Inl e)
  with visit_roots_failure [OF Inl] show ?thesis by auto
next
  case (Inr d)
  from visit_roots_ok [OF refl search_start Inr]
  have inv: "search_inv s policy now [] d" and ext: "set is \<subseteq> keys d" unfolding extends_def by blast+
  have closed: "\<And>i p. i \<in> keys d \<Longrightarrow> (i, p) \<in> parent_of s \<Longrightarrow> p \<in> keys d"
    using inv unfolding search_inv_def by blast
  have "(i, j) \<in> (parent_of s)\<^sup>* \<Longrightarrow> i \<in> keys d \<Longrightarrow> j \<in> keys d" for i j
    by (induction rule: rtrancl_induct) (auto intro: closed)
  then have "ancestry s (set is) \<subseteq> keys d" using ext unfolding ancestry_def by blast
  with closed_not_broken [OF inv] Inr show ?thesis by auto
qed

lemma visit_roots_keys:
  assumes run: "visit_roots s policy now (incident_edges (elems (ss_Contradictions s))) [] is = Inr d"
  shows "gomap d" and "keys d = ancestry s (set is)" and "\<And>i a. map_of d i = Some a \<Longrightarrow> faithful s policy now i a"
proof -
  from visit_roots_ok [OF refl search_start run]
  have inv: "search_inv s policy now [] d" and ext: "set is \<subseteq> keys d" "keys d \<subseteq> ancestry s (set is)"
    unfolding extends_def by auto
  show "gomap d" "\<And>i a. map_of d i = Some a \<Longrightarrow> faithful s policy now i a"
    using inv unfolding search_inv_def by blast+
  have closed: "\<And>i p. i \<in> keys d \<Longrightarrow> (i, p) \<in> parent_of s \<Longrightarrow> p \<in> keys d"
    using inv unfolding search_inv_def by blast
  have "(i, j) \<in> (parent_of s)\<^sup>* \<Longrightarrow> i \<in> keys d \<Longrightarrow> j \<in> keys d" for i j
    by (induction rule: rtrancl_induct) (auto intro: closed)
  then show "keys d = ancestry s (set is)" using ext unfolding ancestry_def by blast
qed

definition assessable :: "Snapshot \<Rightarrow> Policy \<Rightarrow> string list \<Rightarrow> time \<Rightarrow> bool" where
  "assessable s policy roots now \<longleftrightarrow> policy \<in> {CurrentActionV1, GroundedActionV1} \<and> now \<noteq> 0 \<and> roots \<noteq> [] \<and>
    length (ss_Nodes s) \<le> 10000 \<and> distinct roots \<and> (\<forall>r\<in>set roots. validText r) \<and> (\<exists>h. Snapshot_Digest s = Inr h)"

lemma Assess_Inr:
  "Assess s policy roots now = Inr a \<longleftrightarrow> assessable s policy roots now \<and>
    (\<exists>h d. Snapshot_Digest s = Inr h \<and>
      visit_roots s policy now (incident_edges (elems (ss_Contradictions s))) [] (sort roots) = Inr d \<and>
      a = \<lparr>as_ProjectionVersion = ProjectionV2, as_StateDigest = h, as_Policy = policy, as_EvaluatedAt = now,
           as_Roots = sort roots, as_Nodes = sort_key na_NodeID (map snd d)\<rparr>)"
proof -
  have pol: "ValidatePolicy policy = Inr u \<longleftrightarrow> policy \<in> {CurrentActionV1, GroundedActionV1}" for u
    by (auto simp: ValidatePolicy_def)
  show ?thesis
    unfolding Assess_def Let_def and_then_Inr if_Inl_eq_Inr pol assessable_def sortedCopy_def hasDuplicates_sort is_zero_time_def
    by (auto simp: not_less)
qed

lemma assessment_nodes:
  assumes "Assess s policy roots now = Inr a"
  shows "distinct (map na_NodeID (as_Nodes a))" and "na_NodeID ` set (as_Nodes a) = ancestry s (set roots)"
    and "sorted (map na_NodeID (as_Nodes a))"
    and "\<And>x. x \<in> set (as_Nodes a) \<Longrightarrow> faithful s policy now (na_NodeID x) x"
proof -
  obtain d where run: "visit_roots s policy now (incident_edges (elems (ss_Contradictions s))) [] (sort roots) = Inr d"
    and nodes: "as_Nodes a = sort_key na_NodeID (map snd d)"
    using assms unfolding Assess_Inr by auto
  note k = visit_roots_keys [OF run, unfolded set_sort]
  have id: "na_NodeID x = i" if "(i, x) \<in> set d" for i x
    using that k(1,3) unfolding faithful_def by (metis map_of_gomap)
  then have ids: "map (na_NodeID \<circ> snd) d = map fst d" by (auto simp: comp_def)
  show "distinct (map na_NodeID (as_Nodes a))"
    unfolding nodes distinct_sort_key_map map_map ids by (rule k(1))
  show "na_NodeID ` set (as_Nodes a) = ancestry s (set roots)"
    using ids unfolding nodes k(2) [symmetric] keys_list [symmetric] by (metis set_map set_sort map_map image_image list.set_map)
  show "sorted (map na_NodeID (as_Nodes a))" unfolding nodes by simp
  show "faithful s policy now (na_NodeID x) x" if "x \<in> set (as_Nodes a)" for x
  proof -
    obtain i where "(i, x) \<in> set d" using \<open>x \<in> set (as_Nodes a)\<close> unfolding nodes by auto
    then show ?thesis using k(1,3) by (metis map_of_gomap faithful_def)
  qed
qed

section \<open>Monotony and contradictions\<close>

lemma applicable_mono: "applicable CurrentActionV1 src cr \<Longrightarrow> applicable GroundedActionV1 src cr"
  by (simp add: applicable_def)

lemma clear_node_mono: "clear_node s GroundedActionV1 now i n \<Longrightarrow> clear_node s CurrentActionV1 now i n"
  unfolding clear_node_def using applicable_mono by blast

lemma usable_mono: "usable s GroundedActionV1 now i \<Longrightarrow> usable s CurrentActionV1 now i"
proof (induction rule: usable.induct)
  case (usable i n)
  from usable(1) clear_node_mono [OF usable(2)] usable.IH show ?case by (rule usable.usable)
qed

lemma excluded_mono: "excluded s CurrentActionV1 now i \<Longrightarrow> excluded s GroundedActionV1 now i"
proof (induction rule: excluded.induct)
  case (own i n)
  have "excluded_node s GroundedActionV1 now n"
    using own(2) applicable_mono unfolding excluded_node_def by blast
  with own(1) show ?case by (rule excluded.own)
next
  case (inherited i n p)
  from inherited(1,2,4) show ?case by (rule excluded.inherited)
qed

lemma usable_peer:
  assumes "usable s policy now i" and "e \<in> set (elems (ss_Contradictions s))" and "i \<in> {ct_Left e, ct_Right e}"
  shows "excluded s policy now (peer_of i e)"
proof -
  obtain n where "clear_node s policy now i n" using assms(1) by (auto elim: usableE)
  then have "inactive_edge s now i e" using assms(2,3) unfolding clear_node_def by blast
  then obtain peer where "map_of (ss_Nodes s) (peer_of i e) = Some peer" "fst (explicitState peer now) = Excluded"
    unfolding inactive_edge_def by blast
  then show ?thesis using excluded.own unfolding excluded_node_def by blast
qed

section \<open>Plans\<close>

lemma plan_actions:
  "fold_res plan_action (seen, roots, manifest) actions = Inr r \<longleftrightarrow>
    (\<forall>x\<in>set actions. validText (ab_ActionID x) \<and> ab_BasisIDs x \<noteq> [] \<and> distinct (ab_BasisIDs x) \<and>
       (\<forall>b\<in>set (ab_BasisIDs x). validText b)) \<and>
    distinct (map ab_ActionID actions) \<and> seen \<inter> ab_ActionID ` set actions = {} \<and>
    r = (seen \<union> ab_ActionID ` set actions,
      foldl (\<lambda>roots x. foldl (\<lambda>roots i. AList.update i True roots) roots (sort (ab_BasisIDs x))) roots actions,
      manifest @ map (\<lambda>x. x\<lparr>ab_BasisIDs := sort (ab_BasisIDs x)\<rparr>) actions)"
proof (induction actions arbitrary: seen roots manifest)
  case Nil
  show ?case by auto
next
  case (Cons x xs)
  have step: "plan_action (seen, roots, manifest) x = Inr t \<longleftrightarrow>
      (validText (ab_ActionID x) \<and> ab_BasisIDs x \<noteq> [] \<and> distinct (ab_BasisIDs x) \<and> (\<forall>b\<in>set (ab_BasisIDs x). validText b)) \<and>
      ab_ActionID x \<notin> seen \<and>
      t = (insert (ab_ActionID x) seen, foldl (\<lambda>roots i. AList.update i True roots) roots (sort (ab_BasisIDs x)),
           manifest @ [x\<lparr>ab_BasisIDs := sort (ab_BasisIDs x)\<rparr>])" for t
    unfolding plan_action_def prod.case Let_def if_Inl_eq_Inr sortedCopy_def by (auto simp: hasDuplicates_sort)
  show ?case
    unfolding fold_res.simps and_then_Inr step
    using Cons.IH by (auto simp: split_paired_Ex)
qed

definition plan_roots :: "ActionBasis list \<Rightarrow> (string, bool) gomap" where
  "plan_roots actions =
    foldl (\<lambda>roots x. foldl (\<lambda>roots i. AList.update i True roots) roots (sort (ab_BasisIDs x))) [] actions"

lemma plan_roots_facts:
  "gomap (plan_roots actions)" "set (map fst (plan_roots actions)) = (\<Union>x\<in>set actions. set (ab_BasisIDs x))"
  "map_of (plan_roots actions) i = Some True \<longleftrightarrow> (\<exists>x\<in>set actions. i \<in> set (ab_BasisIDs x))"
proof -
  let ?put = "foldl (\<lambda>roots i. AList.update i True roots)"
    and ?all = "foldl (\<lambda>roots x. foldl (\<lambda>roots i. AList.update i True roots) roots (sort (ab_BasisIDs x)))"
  define I where "I m \<longleftrightarrow> gomap m \<and> (\<forall>i. map_of m i \<noteq> Some False)" for m :: "(string, bool) gomap"
  have put: "I m \<Longrightarrow> I (AList.update i True m)" for i m by (auto simp: I_def map_of_update)
  have one: "I m \<Longrightarrow> I (?put m is) \<and> keys (?put m is) = keys m \<union> set is" for m "is"
    by (induction "is" arbitrary: m) (auto simp: put)
  have all: "I m \<Longrightarrow> I (?all m xs) \<and> keys (?all m xs) = keys m \<union> (\<Union>x\<in>set xs. set (ab_BasisIDs x))" for m xs
  proof (induction xs arbitrary: m)
    case (Cons x xs)
    from one [OF Cons.prems, of "sort (ab_BasisIDs x)"] Cons.IH show ?case by (simp add: Un_assoc)
  qed simp
  have "I (plan_roots actions) \<and> keys (plan_roots actions) = (\<Union>x\<in>set actions. set (ab_BasisIDs x))"
    using all [of "[]" actions] unfolding plan_roots_def by (simp add: I_def)
  then have a: "gomap (plan_roots actions)" "keys (plan_roots actions) = (\<Union>x\<in>set actions. set (ab_BasisIDs x))"
    and "\<And>i. map_of (plan_roots actions) i \<noteq> Some False"
    unfolding I_def by blast+
  then have a3: "map_of (plan_roots actions) i = Some v \<Longrightarrow> v" for i v by (cases v) auto
  show "gomap (plan_roots actions)" by (rule a(1))
  show "set (map fst (plan_roots actions)) = (\<Union>x\<in>set actions. set (ab_BasisIDs x))" unfolding keys_list by (rule a(2))
  show "map_of (plan_roots actions) i = Some True \<longleftrightarrow> (\<exists>x\<in>set actions. i \<in> set (ab_BasisIDs x))"
  proof -
    have "map_of (plan_roots actions) i = Some True \<longleftrightarrow> i \<in> keys (plan_roots actions)"
      using a3 by (fastforce simp: keys_Some)
    then show ?thesis unfolding a(2) by auto
  qed
qed

lemma all_accepted:
  "foldl (\<lambda>accepted node. if P node then False else accepted) b ns \<longleftrightarrow> b \<and> (\<forall>n\<in>set ns. \<not> P n)"
  by (induction ns arbitrary: b) auto

definition plan_ok :: "ActionBasis list \<Rightarrow> bool" where
  "plan_ok actions \<longleftrightarrow> actions \<noteq> [] \<and> distinct (map ab_ActionID actions) \<and>
    (\<forall>x\<in>set actions. validText (ab_ActionID x) \<and> ab_BasisIDs x \<noteq> [] \<and> distinct (ab_BasisIDs x) \<and>
       (\<forall>b\<in>set (ab_BasisIDs x). validText b))"

lemma one_point: "(\<exists>r. (ok \<and> r = x) \<and> Q r) \<longleftrightarrow> ok \<and> Q x"
  by blast

lemma CheckPlan_Inr:
  "CheckPlan s policy actions now = Inr p \<longleftrightarrow> plan_ok actions \<and>
    (\<exists>a. Assess s policy (map fst (plan_roots actions)) now = Inr a \<and>
      p = \<lparr>pl_Assessment = a, pl_Actions = map (\<lambda>x. x\<lparr>ab_BasisIDs := sort (ab_BasisIDs x)\<rparr>) actions,
           pl_Accepted = (\<forall>x\<in>set (as_Nodes a). map_of (plan_roots actions) (na_NodeID x) = Some True \<longrightarrow> na_Outcome x = Eligible)\<rparr>)"
proof (cases "actions = []")
  case True
  then show ?thesis by (simp add: CheckPlan_def plan_ok_def)
next
  case False
  have "CheckPlan s policy actions now = Inr p \<longleftrightarrow>
    (\<exists>r. fold_res plan_action ({}, [], []) actions = Inr r \<and>
      (\<exists>a. Assess s policy (map fst (fst (snd r))) now = Inr a \<and>
        p = \<lparr>pl_Assessment = a, pl_Actions = snd (snd r),
           pl_Accepted = (\<forall>x\<in>set (as_Nodes a). map_of (fst (snd r)) (na_NodeID x) = Some True \<longrightarrow> na_Outcome x = Eligible)\<rparr>))"
    using False unfolding CheckPlan_def if_Inl_eq_Inr and_then_Inr Let_def all_accepted
    by (auto simp: case_prod_unfold and_then_Inr)
  moreover have "fold_res plan_action ({}, [], []) actions = Inr r \<longleftrightarrow> plan_ok actions \<and>
    r = (ab_ActionID ` set actions, plan_roots actions, map (\<lambda>x. x\<lparr>ab_BasisIDs := sort (ab_BasisIDs x)\<rparr>) actions)" for r
    using False unfolding plan_actions plan_roots_def plan_ok_def by simp blast
  ultimately show ?thesis by (simp only: one_point fst_conv snd_conv)
qed

lemma plan_accepted:
  assumes "CheckPlan s policy actions now = Inr p"
  shows "pl_Accepted p \<longleftrightarrow> (\<forall>x\<in>set actions. \<forall>b\<in>set (ab_BasisIDs x). usable s policy now b)"
proof -
  let ?roots = "plan_roots actions"
  obtain a where a: "Assess s policy (map fst ?roots) now = Inr a"
    and p: "pl_Accepted p \<longleftrightarrow> (\<forall>x\<in>set (as_Nodes a). map_of ?roots (na_NodeID x) = Some True \<longrightarrow> na_Outcome x = Eligible)"
    using assms unfolding CheckPlan_Inr by auto
  note n = assessment_nodes [OF a]
  have roots: "set (map fst ?roots) \<subseteq> na_NodeID ` set (as_Nodes a)" unfolding n(2) by (auto simp: ancestry_def)
  have "pl_Accepted p \<longleftrightarrow> (\<forall>b\<in>set (map fst ?roots). usable s policy now b)"
  proof -
    have elig: "na_Outcome x = Eligible \<longleftrightarrow> usable s policy now (na_NodeID x)" if "x \<in> set (as_Nodes a)" for x
      using n(4) [OF that] unfolding faithful_def by blast
    have mem: "map_of ?roots b = Some True \<longleftrightarrow> b \<in> set (map fst ?roots)" for b
      unfolding plan_roots_facts(2,3) by blast
    define R where "R = set (map fst ?roots)"
    have "pl_Accepted p \<longleftrightarrow> (\<forall>x\<in>set (as_Nodes a). na_NodeID x \<in> R \<longrightarrow> usable s policy now (na_NodeID x))"
      unfolding p mem R_def using elig by blast
    also have "\<dots> \<longleftrightarrow> (\<forall>b\<in>R. usable s policy now b)" using roots unfolding R_def [symmetric] by blast
    finally show ?thesis unfolding R_def .
  qed
  then show ?thesis unfolding plan_roots_facts(2) by blast
qed

section \<open>Digests\<close>

text \<open>Two snapshots that differ only in the order of maps, sets and conflict endpoints.\<close>

definition same_node :: "string \<times> UseNode \<Rightarrow> string \<times> UseNode \<Rightarrow> bool" where
  "same_node x y \<longleftrightarrow> (case (x, y) of ((i, m), (j, n)) \<Rightarrow> i = j \<and>
    mset (un_Parents m) = mset (un_Parents n) \<and> mset (un_SourceIDs m) = mset (un_SourceIDs n) \<and>
    mset (wd_CorrectionIDs (un_Withdrawal m)) = mset (wd_CorrectionIDs (un_Withdrawal n)) \<and>
    n = m\<lparr>un_Parents := un_Parents n, un_SourceIDs := un_SourceIDs n,
          un_Withdrawal := (un_Withdrawal m)\<lparr>wd_CorrectionIDs := wd_CorrectionIDs (un_Withdrawal n)\<rparr>\<rparr>)"

definition same_edge :: "Contradiction \<Rightarrow> Contradiction \<Rightarrow> bool" where
  "same_edge e f \<longleftrightarrow> f = e \<or> f = e\<lparr>ct_Left := ct_Right e, ct_Right := ct_Left e\<rparr>"

definition same_snapshot :: "Snapshot \<Rightarrow> Snapshot \<Rightarrow> bool" where
  "same_snapshot s t \<longleftrightarrow> ss_Version s = ss_Version t \<and> ss_StoreID s = ss_StoreID t \<and> ss_CutID s = ss_CutID t \<and>
    (\<exists>ns. mset ns = mset (ss_Nodes t) \<and> list_all2 same_node (ss_Nodes s) ns) \<and>
    mset (ss_Sources s) = mset (ss_Sources t) \<and>
    (ss_Contradictions s = None \<longleftrightarrow> ss_Contradictions t = None) \<and>
    (\<exists>es. mset es = mset (elems (ss_Contradictions t)) \<and> list_all2 same_edge (elems (ss_Contradictions s)) es)"

lemma sort_mset_eq: "mset xs = mset ys \<Longrightarrow> sort xs = (sort ys :: string list)"
  by (metis properties_for_sort mset_sort sorted_sort)

lemma digest_same_node: "same_node x y \<Longrightarrow> digest_node x = digest_node y"
proof -
  obtain i m where x: "x = (i, m)" by (cases x)
  obtain j n where y: "y = (j, n)" by (cases y)
  assume same: "same_node x y"
  have "sort (un_Parents m) = sort (un_Parents n)" "sort (un_SourceIDs m) = sort (un_SourceIDs n)"
    "sort (wd_CorrectionIDs (un_Withdrawal m)) = sort (wd_CorrectionIDs (un_Withdrawal n))"
    using same sort_mset_eq unfolding same_node_def x y prod.case by blast+
  moreover have "j = i" "n = m\<lparr>un_Parents := un_Parents n, un_SourceIDs := un_SourceIDs n,
          un_Withdrawal := (un_Withdrawal m)\<lparr>wd_CorrectionIDs := wd_CorrectionIDs (un_Withdrawal n)\<rparr>\<rparr>"
    using same unfolding same_node_def x y prod.case by blast+
  then have "n\<lparr>un_Parents := a, un_SourceIDs := b, un_Withdrawal := (un_Withdrawal n)\<lparr>wd_CorrectionIDs := c\<rparr>\<rparr> =
      m\<lparr>un_Parents := a, un_SourceIDs := b, un_Withdrawal := (un_Withdrawal m)\<lparr>wd_CorrectionIDs := c\<rparr>\<rparr>" for a b c
    by (cases m; cases n; cases "un_Withdrawal m"; cases "un_Withdrawal n") simp
  ultimately show "digest_node x = digest_node y"
    unfolding digest_node_def x y prod.case Let_def sortedCopy_def \<open>j = i\<close> by simp
qed

lemma digest_same_edge: "same_edge e f \<Longrightarrow> digest_contradiction e = digest_contradiction f"
  by (auto simp: same_edge_def digest_contradiction_def)

lemma map_res_cong2: "list_all2 R xs ys \<Longrightarrow> (\<And>x y. R x y \<Longrightarrow> f x = f y) \<Longrightarrow> map_res f xs = map_res f ys"
  by (induction rule: list_all2_induct) auto

lemma map_res_Inr: "map_res f xs = Inr ys \<longleftrightarrow> map f xs = map Inr ys"
proof (induction xs arbitrary: ys)
  case Nil
  show ?case by auto
next
  case (Cons x xs)
  then show ?case by (cases ys) (auto simp: and_then_Inr)
qed

lemma map_res_perm:
  assumes "map_res f xs = Inr ys" and "mset xs = mset xs'"
  obtains ys' where "map_res f xs' = Inr ys'" and "mset ys = mset ys'"
proof
  have xs: "map f xs = map Inr ys" using assms(1) by (simp add: map_res_Inr)
  have "f z = Inr (projr (f z))" if "z \<in> set xs'" for z
  proof -
    have "z \<in> set xs" using that mset_eq_setD [OF assms(2)] by simp
    then have "f z \<in> set (map Inr ys)" unfolding xs [symmetric] by simp
    then show ?thesis by auto
  qed
  then show "map_res f xs' = Inr (map (\<lambda>z. projr (f z)) xs')" unfolding map_res_Inr by simp
  have "map projr (map f xs) = ys" unfolding xs by (simp add: comp_def)
  then have "ys = map (\<lambda>z. projr (f z)) xs" by (simp add: comp_def)
  then have "mset ys = image_mset (\<lambda>z. projr (f z)) (mset xs)" by (simp only: mset_map)
  then show "mset ys = mset (map (\<lambda>z. projr (f z)) xs')" unfolding assms(2) by (simp only: mset_map)
qed

lemma map_json_perm:
  assumes "mset m = mset m'" and "gomap m"
  shows "map_json f m = map_json f m'"
  using sort_key_unique [OF assms(1), of fst] assms(2) by (simp add: map_json_def)

lemma digest_node_keys: "map_res digest_node ns = Inr ns' \<Longrightarrow> map fst ns' = map fst ns"
  by (induction ns arbitrary: ns') (auto simp: digest_node_def and_then_Inr Let_def split: prod.splits if_splits)

lemma digest_source_keys: "map_res digest_source ss = Inr ss' \<Longrightarrow> map fst ss' = map fst ss"
  by (induction ss arbitrary: ss') (auto simp: digest_source_def and_then_Inr Let_def split: prod.splits if_splits)

lemma Snapshot_canonical_Inr:
  "Snapshot_canonical s = Inr c \<longleftrightarrow> ss_Version s = ProjectionV2 \<and> validText (ss_StoreID s) \<and> validText (ss_CutID s) \<and>
    (\<exists>nodes sources edges. map_res digest_node (ss_Nodes s) = Inr nodes \<and> map_res digest_source (ss_Sources s) = Inr sources \<and>
      map_res digest_contradiction (elems (ss_Contradictions s)) = Inr edges \<and> distinct (map ct_ID edges) \<and>
      c = s\<lparr>ss_Nodes := nodes, ss_Sources := sources,
            ss_Contradictions := map_option (\<lambda>_. sort_key ct_ID edges) (ss_Contradictions s)\<rparr>)"
  unfolding Snapshot_canonical_def Let_def if_Inl_eq_Inr and_then_Inr adjacent_dup_sort_key by auto

lemma digest_order_free:
  assumes "Snapshot_Digest s = Inr h" and "same_snapshot s t" and "gomap (ss_Nodes s)" and "gomap (ss_Sources s)"
  shows "Snapshot_Digest t = Inr h"
proof -
  obtain c where c: "Snapshot_canonical s = Inr c" and h: "h = ''evidence-use:sha256:'' @ sha256_hex (marshal (snapshot_json c))"
    using assms(1) by (auto simp: Snapshot_Digest_def and_then_Inr)
  obtain nodes sources edges where n: "map_res digest_node (ss_Nodes s) = Inr nodes"
    and so: "map_res digest_source (ss_Sources s) = Inr sources"
    and e: "map_res digest_contradiction (elems (ss_Contradictions s)) = Inr edges" and de: "distinct (map ct_ID edges)"
    and c': "c = s\<lparr>ss_Nodes := nodes, ss_Sources := sources,
            ss_Contradictions := map_option (\<lambda>_. sort_key ct_ID edges) (ss_Contradictions s)\<rparr>"
    and hdr: "ss_Version s = ProjectionV2" "validText (ss_StoreID s)" "validText (ss_CutID s)"
    using c unfolding Snapshot_canonical_Inr by blast
  have same: "ss_Version t = ss_Version s" "ss_StoreID t = ss_StoreID s" "ss_CutID t = ss_CutID s"
    "ss_Contradictions s = None \<longleftrightarrow> ss_Contradictions t = None" "mset (ss_Sources s) = mset (ss_Sources t)"
    using assms(2) unfolding same_snapshot_def by simp_all
  obtain ns where ns: "mset ns = mset (ss_Nodes t)" "list_all2 same_node (ss_Nodes s) ns"
    using assms(2) unfolding same_snapshot_def by blast
  obtain es where es: "mset es = mset (elems (ss_Contradictions t))" "list_all2 same_edge (elems (ss_Contradictions s)) es"
    using assms(2) unfolding same_snapshot_def by blast
  have n2: "map_res digest_node ns = Inr nodes" using n map_res_cong2 [OF ns(2) digest_same_node] by simp
  have e2: "map_res digest_contradiction es = Inr edges" using e map_res_cong2 [OF es(2) digest_same_edge] by simp
  obtain nodes' where n': "map_res digest_node (ss_Nodes t) = Inr nodes'" "mset nodes = mset nodes'"
    using map_res_perm [OF n2 ns(1)] .
  obtain sources' where so': "map_res digest_source (ss_Sources t) = Inr sources'" "mset sources = mset sources'"
    using map_res_perm [OF so same(5)] .
  obtain edges' where e': "map_res digest_contradiction (elems (ss_Contradictions t)) = Inr edges'" "mset edges = mset edges'"
    using map_res_perm [OF e2 es(1)] .
  have sorted: "sort_key ct_ID edges' = sort_key ct_ID edges" using sort_key_unique [OF e'(2) de] by simp
  have de': "distinct (map ct_ID edges')" using de e'(2) by (metis mset_eq_imp_distinct_iff mset_map)
  let ?c = "t\<lparr>ss_Nodes := nodes', ss_Sources := sources',
            ss_Contradictions := map_option (\<lambda>_. sort_key ct_ID edges') (ss_Contradictions t)\<rparr>"
  have "Snapshot_canonical t = Inr ?c"
    unfolding Snapshot_canonical_Inr using n'(1) so'(1) e'(1) de' hdr same(1-3) by auto
  moreover have "gomap nodes" "gomap sources" using digest_node_keys [OF n] digest_source_keys [OF so] assms(3,4) by simp_all
  then have "map_json use_node_json nodes' = map_json use_node_json nodes" "map_json source_json sources' = map_json source_json sources"
    using map_json_perm n'(2) so'(2) by metis+
  then have "snapshot_json ?c = snapshot_json c"
    unfolding c' using same(1-4) sorted
    by (cases "ss_Contradictions s"; cases "ss_Contradictions t") (simp_all add: snapshot_json_def)
  ultimately show ?thesis by (simp add: Snapshot_Digest_def h)
qed

section \<open>A sample\<close>

definition sample_temporal :: TemporalRecord where
  "sample_temporal = \<lparr>tm_ID = ''t'', tm_Status = TemporalCurrent, tm_ObservedAt = [], tm_ValidFrom = [], tm_ValidTo = []\<rparr>"

definition sample_use_node :: UseNode where
  "sample_use_node = \<lparr>un_UseClass = [], un_Kind = CanonicalSourceClaim, un_Admission = ''admitted'',
    un_Withdrawal = \<lparr>wd_Status = WithdrawalNone, wd_Complete = True, wd_Revision = 0, wd_EventID = [], wd_Reason = [],
      wd_CorrectionIDs = []\<rparr>,
    un_Currentness = \<lparr>cu_LineageKey = [], cu_Status = [], cu_Complete = True, cu_WitnessID = []\<rparr>,
    un_Temporal = sample_temporal, un_Parents = [], un_ParentsComplete = True, un_SourceIDs = [''s''],
    un_SourcesComplete = True, un_ContradictionsComplete = True\<rparr>"

definition sample_check :: "string \<Rightarrow> SourceCheck" where
  "sample_check cr = \<lparr>sc_AssessedField = [], sc_CorrectedValue = [], sc_AssessmentID = cr, sc_SourceSnapshotID = ''s'',
    sc_ContentHash = ''h'', sc_Scope = RetainedSnapshotScope, sc_Criterion = cr, sc_Result = CheckPass,
    sc_ComparedRevision = ''r'', sc_MaterialRef = ''m'', sc_Limitations = None\<rparr>"

definition sample_source :: Source where
  "sample_source = \<lparr>so_SnapshotID = ''s'', so_ContentHash = ''h'', so_ProviderRevision = ''r'', so_DeclaredFidelity = [],
    so_DeclaredCoverage = [], so_AssessmentRevision = 1, so_AssessmentsComplete = True,
    so_Checks = Some (map sample_check criteria)\<rparr>"

text \<open>A claim \<open>c\<close>, a withdrawn claim \<open>w\<close> that contradicts it, and a claim \<open>d\<close> derived from \<open>c\<close>.\<close>

definition sample_snapshot :: Snapshot where
  "sample_snapshot = \<lparr>ss_Version = ProjectionV2, ss_StoreID = ''store'', ss_CutID = ''cut'',
    ss_Nodes = [(''c'', sample_use_node),
      (''w'', sample_use_node\<lparr>un_Withdrawal := \<lparr>wd_Status = WithdrawalWithdrawn, wd_Complete = True, wd_Revision = 1,
        wd_EventID = ''e'', wd_Reason = [], wd_CorrectionIDs = []\<rparr>\<rparr>),
      (''d'', sample_use_node\<lparr>un_Kind := CanonicalDerivedClaim, un_UseClass := DerivationOrdinary, un_Parents := [''c''],
        un_SourceIDs := []\<rparr>)],
    ss_Sources = [(''s'', sample_source)],
    ss_Contradictions = Some [\<lparr>ct_ID = ''x'', ct_Left = ''c'', ct_Right = ''w'', ct_ReviewRef = ''v'', ct_Scope = []\<rparr>]\<rparr>"

lemma sample_lookup:
  "map_of (ss_Nodes sample_snapshot) ''c'' = Some sample_use_node"
  "map_of (ss_Nodes sample_snapshot) ''d'' = Some (sample_use_node\<lparr>un_Kind := CanonicalDerivedClaim,
     un_UseClass := DerivationOrdinary, un_Parents := [''c''], un_SourceIDs := []\<rparr>)"
  "map_of (ss_Nodes sample_snapshot) ''w'' = Some (sample_use_node\<lparr>un_Withdrawal :=
     \<lparr>wd_Status = WithdrawalWithdrawn, wd_Complete = True, wd_Revision = 1,
        wd_EventID = ''e'', wd_Reason = [], wd_CorrectionIDs = []\<rparr>\<rparr>)"
  "map_of (ss_Sources sample_snapshot) ''s'' = Some sample_source"
  by (simp_all add: sample_snapshot_def)

lemma sample_parent_of: "parent_of sample_snapshot = {(''d'', ''c'')}"
  by (auto simp: parent_of_def sample_snapshot_def sample_use_node_def split: if_splits)

lemma sample_criteria: "applicable policy src cr \<Longrightarrow> sourceCriterion sample_source cr = Eligible"
proof -
  assume "applicable policy src cr"
  then have "cr \<in> set criteria" by (rule applicable_criterion)
  moreover have "exact_check sample_source cr (sample_check cr)" for cr
    by (simp add: exact_check_def sample_source_def sample_check_def validText_def trim_solid_literal)
  moreover have "sc_Criterion (sample_check cr) = cr" "sc_Result (sample_check cr) = CheckPass" for cr
    by (simp_all add: sample_check_def)
  moreover have "elems (so_Checks sample_source) = map sample_check criteria" by (simp add: sample_source_def)
  ultimately show ?thesis unfolding sourceCriterion_Eligible by auto
qed

end
