(* ===== verification/CurrentUse.thy ===== *)
theory CurrentUse
  imports UseProperties
begin

text \<open>The properties of the use gate, with a sample snapshot on which each of them applies.\<close>

section \<open>The sample is assessable\<close>

lemma sample_valid_text [simp]: "validText ''c''" "validText ''d''" "validText ''w''" "validText ''s''" "validText ''h''"
  "validText ''x''" "validText ''v''" "validText ''e''" "validText ''m''" "validText ''store''" "validText ''cut''"
  by (simp_all add: validText_def trim_solid_literal)

lemma sample_checks_ok: "checks_ok None (sort_key (\<lambda>c. (sc_AssessmentID c, sc_Criterion c)) (map sample_check criteria))"
  by (simp add: criteria_def sample_check_def validText_def trim_solid_literal)

lemma sample_canonical: "\<exists>c. Snapshot_canonical sample_snapshot = Inr c"
proof -
  have "\<exists>ns. map_res digest_node (ss_Nodes sample_snapshot) = Inr ns"
    by (simp add: sample_snapshot_def digest_node_def sample_use_node_def Let_def sortedCopy_def hasDuplicates_def)
  moreover have "digest_source (''s'', sample_source) = Inr (''s'', sample_source\<lparr>so_Checks :=
      Some (sort_key (\<lambda>c. (sc_AssessmentID c, sc_Criterion c)) (map sample_check criteria))\<rparr>)"
    using sample_checks_ok by (simp add: digest_source_def sample_source_def Let_def)
  then have "\<exists>ss. map_res digest_source (ss_Sources sample_snapshot) = Inr ss" by (simp add: sample_snapshot_def)
  moreover have "\<exists>es. map_res digest_contradiction (elems (ss_Contradictions sample_snapshot)) = Inr es \<and> distinct (map ct_ID es)"
    by (simp add: sample_snapshot_def digest_contradiction_def)
  moreover have "ss_Version sample_snapshot = ProjectionV2" "validText (ss_StoreID sample_snapshot)" "validText (ss_CutID sample_snapshot)"
    by (simp_all add: sample_snapshot_def)
  ultimately show ?thesis unfolding Snapshot_canonical_Inr by blast
qed

lemma sample_digest: "\<exists>h. Snapshot_Digest sample_snapshot = Inr h"
  using sample_canonical by (auto simp: Snapshot_Digest_def)

lemma sample_not_broken: "\<not> broken sample_snapshot j"
proof -
  have "\<not> malformed sample_snapshot j"
    by (auto simp: malformed_def sample_snapshot_def sample_use_node_def split: if_splits)
  moreover have "acyclic {(''d'', ''c'')}" by (simp add: acyclic_insert) (simp add: acyclic_def)
  ultimately show ?thesis by (auto simp: broken_def sample_parent_of acyclic_def)
qed

lemma sample_assessable: "policy \<in> {CurrentActionV1, GroundedActionV1} \<Longrightarrow> assessable sample_snapshot policy [''d'', ''w''] 1"
  using sample_digest by (auto simp: assessable_def sample_snapshot_def)

lemma Assess_returns:
  "(\<exists>a. Assess s policy roots now = Inr a) \<longleftrightarrow> assessable s policy roots now \<and> (\<forall>j\<in>ancestry s (set roots). \<not> broken s j)"
proof -
  have "(\<exists>a. Assess s policy roots now = Inr a) \<longleftrightarrow> assessable s policy roots now \<and>
      (\<exists>d. visit_roots s policy now (incident_edges (elems (ss_Contradictions s))) [] (sort roots) = Inr d)"
    unfolding Assess_Inr assessable_def by auto
  then show ?thesis unfolding visit_roots_iff by simp
qed

lemma sample_assessment:
  "policy \<in> {CurrentActionV1, GroundedActionV1} \<Longrightarrow> \<exists>a. Assess sample_snapshot policy [''d'', ''w''] 1 = Inr a"
  unfolding Assess_returns using sample_assessable sample_not_broken by blast

lemma sample_usable: "usable sample_snapshot policy 1 ''c''" "usable sample_snapshot policy 1 ''d''"
proof -
  have temporal: "validity sample_temporal 1 = (True, [])"
    by (simp add: validity_def validity_bound_def sample_temporal_def is_zero_time_def)
  have inactive: "inactive_edge sample_snapshot 1 ''c'' e" if "e \<in> set (elems (ss_Contradictions sample_snapshot))" for e
  proof -
    have "e = \<lparr>ct_ID = ''x'', ct_Left = ''c'', ct_Right = ''w'', ct_ReviewRef = ''v'', ct_Scope = []\<rparr>"
      using that by (simp add: sample_snapshot_def)
    then have "peer_of ''c'' e = ''w''" by (simp add: peer_of_def)
    then show ?thesis
      unfolding inactive_edge_def using temporal
      by (simp add: sample_lookup explicitState_outcome withdrawal_clear_def sample_use_node_def)
  qed
  have c: "clear_node sample_snapshot policy 1 ''c'' sample_use_node"
    unfolding clear_node_def using temporal inactive sample_criteria
    by (simp add: sample_use_node_def sample_lookup withdrawal_clear_def currentness_clear_def sample_temporal_def sample_source_def)
  show u: "usable sample_snapshot policy 1 ''c''"
    unfolding usable_iff [OF sample_lookup(1)] using c by (simp add: sample_use_node_def)
  have d: "clear_node sample_snapshot policy 1 ''d'' (sample_use_node\<lparr>un_Kind := CanonicalDerivedClaim,
     un_UseClass := DerivationOrdinary, un_Parents := [''c''], un_SourceIDs := []\<rparr>)"
    unfolding clear_node_def using temporal
    by (simp add: sample_use_node_def sample_snapshot_def withdrawal_clear_def currentness_clear_def sample_temporal_def)
  show "usable sample_snapshot policy 1 ''d''"
    unfolding usable_iff [OF sample_lookup(2)] using d u by simp
qed

section \<open>Failures\<close>

lemma fails_map_res: "(\<And>x. fails_with S (f x)) \<Longrightarrow> fails_with S (map_res f xs)"
  by (induction xs) (auto intro!: fails_and_then)

lemma fails_Digest: "fails_with {ErrInvalidProjection} (Snapshot_Digest s)"
proof -
  have "fails_with {ErrInvalidProjection} (digest_node x)" for x
    by (cases x) (simp add: digest_node_def Let_def)
  moreover have "fails_with {ErrInvalidProjection} (digest_source x)" for x
    by (cases x) (simp add: digest_source_def Let_def)
  moreover have "fails_with {ErrInvalidProjection} (digest_contradiction x)" for x
    by (simp add: digest_contradiction_def)
  ultimately show ?thesis
    unfolding Snapshot_Digest_def Snapshot_canonical_def Let_def
    by (intro fails_and_then fails_if fails_map_res) simp_all
qed

lemma fails_Assess: "fails_with {ErrInvalidProjection} (Assess s policy roots now)"
proof -
  have "fails_with {ErrInvalidProjection} (visit_roots s policy now edges d is)" for edges d "is"
    using visit_roots_failure [of s policy now edges d "is"] by (auto simp: fails_with_def)
  moreover have "fails_with {ErrInvalidProjection} (ValidatePolicy policy)" by (simp add: ValidatePolicy_def)
  ultimately show ?thesis
    unfolding Assess_def Let_def by (intro fails_and_then fails_if fails_Digest) simp_all
qed

section \<open>Properties\<close>

text \<open>C10. The depth-first assessment decides the specified notion of use.  It lists exactly the ancestry of the
  roots, each node once and in byte order; a node is eligible exactly when it and its whole ancestry are
  clear, and excluded exactly when it or an ancestor has a known exclusion.\<close>

theorem Assess_decides_use:
  assumes "Assess s policy roots now = Inr a"
  shows "map na_NodeID (as_Nodes a) = sorted_list_of_set (ancestry s (set roots)) \<and>
    (\<forall>x\<in>set (as_Nodes a). (na_Outcome x = Eligible \<longleftrightarrow> usable s policy now (na_NodeID x)) \<and>
      (na_Outcome x = Excluded \<longleftrightarrow> excluded s policy now (na_NodeID x)))"
proof -
  note n = assessment_nodes [OF assms]
  have "map na_NodeID (as_Nodes a) = sorted_list_of_set (set (map na_NodeID (as_Nodes a)))"
    using n(1,3) by (metis sorted_list_of_set.idem_if_sorted_distinct)
  then have "map na_NodeID (as_Nodes a) = sorted_list_of_set (ancestry s (set roots))"
    using n(2) by (simp only: set_map)
  then show ?thesis using n(4) unfolding faithful_def by blast
qed

theorem Assess_decides_use_witness:
  "\<exists>a. Assess sample_snapshot GroundedActionV1 [''d'', ''w''] 1 = Inr a \<and>
    (\<forall>x\<in>set (as_Nodes a). na_NodeID x = ''d'' \<longrightarrow> na_Outcome x = Eligible)"
proof -
  obtain a where a: "Assess sample_snapshot GroundedActionV1 [''d'', ''w''] 1 = Inr a" using sample_assessment by blast
  from conjunct2 [OF Assess_decides_use [OF a]] sample_usable(2) a show ?thesis by metis
qed

text \<open>C28. \<open>Assess\<close> returns an assessment exactly when the policy is known, the evaluation time is set, the
  roots are distinct texts, the snapshot is bounded and has a digest, and no claim in the ancestry of the
  roots is its own ancestor or is a source claim with derivation parents.\<close>

theorem Assess_returns_iff:
  "(\<exists>a. Assess s policy roots now = Inr a) \<longleftrightarrow>
    policy \<in> {CurrentActionV1, GroundedActionV1} \<and> now \<noteq> 0 \<and> roots \<noteq> [] \<and> length (ss_Nodes s) \<le> 10000 \<and>
    distinct roots \<and> (\<forall>r\<in>set roots. validText r) \<and> (\<exists>h. Snapshot_Digest s = Inr h) \<and>
    (\<forall>j\<in>ancestry s (set roots). (j, j) \<notin> (parent_of s)\<^sup>+ \<and> \<not> malformed s j)"
  unfolding Assess_returns assessable_def broken_def by simp

theorem Assess_returns_iff_witness:
  "(\<exists>a. Assess sample_snapshot GroundedActionV1 [''d'', ''w''] 1 = Inr a) \<and>
    (''d'', ''d'') \<notin> (parent_of sample_snapshot)\<^sup>+"
proof -
  have "(parent_of sample_snapshot)\<^sup>+ = {(''d'', ''c'')}"
    unfolding sample_parent_of by (rule trancl_id) (simp add: trans_def)
  then have "(''d'', ''d'') \<notin> (parent_of sample_snapshot)\<^sup>+" by simp
  moreover have "\<exists>a. Assess sample_snapshot GroundedActionV1 [''d'', ''w''] 1 = Inr a"
    unfolding Assess_returns_iff using sample_assessable [of GroundedActionV1] sample_not_broken
    by (simp add: assessable_def broken_def)
  ultimately show ?thesis by blast
qed

text \<open>Every failure of an assessment, of a digest or of a plan is \<open>ErrInvalidProjection\<close>.\<close>

theorem use_errors:
  "fails_with {ErrInvalidProjection} (Assess s policy roots now) \<and>
   fails_with {ErrInvalidProjection} (CheckPlan s policy actions now)"
proof -
  have "fails_with {ErrInvalidProjection} (plan_action t x)" for t x
    by (cases t) (simp add: plan_action_def Let_def)
  then have "fails_with {ErrInvalidProjection} (CheckPlan s policy actions now)"
    unfolding CheckPlan_def Let_def
    by (intro fails_if fails_and_then fails_fold_res) (auto intro!: fails_and_then fails_Assess)
  with fails_Assess show ?thesis by blast
qed

text \<open>C27. A plan is accepted exactly when every declared basis of every action is usable: eligible itself, with
  its whole ancestry, at the time of acceptance.\<close>

theorem CheckPlan_accepts_usable:
  assumes "CheckPlan s policy actions now = Inr p"
  shows "pl_Accepted p \<longleftrightarrow> (\<forall>x\<in>set actions. \<forall>b\<in>set (ab_BasisIDs x). usable s policy now b)"
  using assms by (rule plan_accepted)

theorem CheckPlan_accepts_usable_witness:
  "\<exists>p. CheckPlan sample_snapshot CurrentActionV1 [\<lparr>ab_ActionID = ''x'', ab_BasisIDs = [''d'']\<rparr>] 1 = Inr p \<and> pl_Accepted p"
proof -
  let ?plan = "[\<lparr>ab_ActionID = ''x'', ab_BasisIDs = [''d'']\<rparr>]"
  have "assessable sample_snapshot CurrentActionV1 [''d''] 1"
    using sample_digest by (auto simp: assessable_def sample_snapshot_def)
  then have "\<exists>a. Assess sample_snapshot CurrentActionV1 [''d''] 1 = Inr a"
    unfolding Assess_returns using sample_not_broken by blast
  then obtain p where p: "CheckPlan sample_snapshot CurrentActionV1 ?plan 1 = Inr p"
    by (auto simp: CheckPlan_Inr plan_ok_def plan_roots_def)
  with CheckPlan_accepts_usable [OF p] sample_usable(2) show ?thesis by simp
qed

text \<open>C26. Two claims of a reviewed contradiction are never both eligible: when one end is, the other end, if it
  is assessed at all, is excluded.\<close>

theorem contradicting_claims_not_both_eligible:
  assumes "Assess s policy roots now = Inr a" and "e \<in> set (elems (ss_Contradictions s))"
    and "x \<in> set (as_Nodes a)" and "y \<in> set (as_Nodes a)"
    and "{na_NodeID x, na_NodeID y} = {ct_Left e, ct_Right e}" and "na_Outcome x = Eligible"
  shows "na_Outcome y = Excluded"
proof -
  note f = assessment_nodes(4) [OF assms(1)]
  have "usable s policy now (na_NodeID x)" using f [OF assms(3)] assms(6) unfolding faithful_def by blast
  moreover have "na_NodeID x \<in> {ct_Left e, ct_Right e}" "peer_of (na_NodeID x) e = na_NodeID y"
    using assms(5) by (auto simp: peer_of_def doubleton_eq_iff)
  ultimately have "excluded s policy now (na_NodeID y)" using usable_peer assms(2) by metis
  then show ?thesis using f [OF assms(4)] unfolding faithful_def by blast
qed

theorem contradicting_claims_not_both_eligible_witness:
  "\<exists>a x y. Assess sample_snapshot GroundedActionV1 [''d'', ''w''] 1 = Inr a \<and> {x, y} \<subseteq> set (as_Nodes a) \<and>
    na_NodeID x = ''c'' \<and> na_NodeID y = ''w'' \<and> na_Outcome y = Excluded"
proof -
  obtain a where a: "Assess sample_snapshot GroundedActionV1 [''d'', ''w''] 1 = Inr a" using sample_assessment by blast
  note n = assessment_nodes [OF a]
  have "''c'' \<in> ancestry sample_snapshot (set [''d'', ''w''])" "''w'' \<in> ancestry sample_snapshot (set [''d'', ''w''])"
    by (auto simp: ancestry_def sample_parent_of)
  then obtain x y where xy: "x \<in> set (as_Nodes a)" "na_NodeID x = ''c''" "y \<in> set (as_Nodes a)" "na_NodeID y = ''w''"
    unfolding n(2) [symmetric] by (auto simp: image_iff)
  moreover have "na_Outcome x = Eligible" using n(4) [OF xy(1)] sample_usable(1) xy(2) unfolding faithful_def by simp
  moreover have e: "\<lparr>ct_ID = ''x'', ct_Left = ''c'', ct_Right = ''w'', ct_ReviewRef = ''v'', ct_Scope = []\<rparr> \<in>
      set (elems (ss_Contradictions sample_snapshot))" by (simp add: sample_snapshot_def)
  ultimately have "na_Outcome y = Excluded"
    by (intro contradicting_claims_not_both_eligible [OF a e]) simp_all
  with a xy show ?thesis by blast
qed

text \<open>The grounded policy is the stronger one: a claim that it finds eligible is eligible under the weaker
  policy too, and a claim that the weaker policy excludes stays excluded.\<close>

theorem grounded_policy_is_stronger:
  assumes "Assess s GroundedActionV1 roots now = Inr a" and "Assess s CurrentActionV1 roots now = Inr b"
    and "x \<in> set (as_Nodes a)" and "y \<in> set (as_Nodes b)" and "na_NodeID x = na_NodeID y"
  shows "(na_Outcome x = Eligible \<longrightarrow> na_Outcome y = Eligible) \<and> (na_Outcome y = Excluded \<longrightarrow> na_Outcome x = Excluded)"
  using assessment_nodes(4) [OF assms(1,3)] assessment_nodes(4) [OF assms(2,4)] assms(5) usable_mono excluded_mono
  unfolding faithful_def by metis

theorem grounded_policy_is_stronger_witness:
  "\<exists>a b x y. Assess sample_snapshot GroundedActionV1 [''d'', ''w''] 1 = Inr a \<and>
    Assess sample_snapshot CurrentActionV1 [''d'', ''w''] 1 = Inr b \<and> x \<in> set (as_Nodes a) \<and> y \<in> set (as_Nodes b) \<and>
    na_NodeID x = ''d'' \<and> na_NodeID y = ''d'' \<and> (na_Outcome x = Eligible \<longrightarrow> na_Outcome y = Eligible)"
proof -
  obtain a where a: "Assess sample_snapshot GroundedActionV1 [''d'', ''w''] 1 = Inr a" using sample_assessment by blast
  obtain b where b: "Assess sample_snapshot CurrentActionV1 [''d'', ''w''] 1 = Inr b" using sample_assessment by blast
  have d: "''d'' \<in> ancestry sample_snapshot (set [''d'', ''w''])" by (auto simp: ancestry_def)
  obtain x where x: "x \<in> set (as_Nodes a)" "na_NodeID x = ''d''"
    using d unfolding assessment_nodes(2) [OF a, symmetric] by (auto simp: image_iff)
  obtain y where y: "y \<in> set (as_Nodes b)" "na_NodeID y = ''d''"
    using d unfolding assessment_nodes(2) [OF b, symmetric] by (auto simp: image_iff)
  from grounded_policy_is_stronger [OF a b x(1) y(1)] x(2) y(2)
  have "na_Outcome x = Eligible \<longrightarrow> na_Outcome y = Eligible" by simp
  with a b x y show ?thesis by blast
qed

text \<open>The digest does not depend on the order of the maps, of the parents, sources and corrections of a
  node, of the contradictions, or of the two ends of a contradiction.\<close>

theorem Digest_order_free:
  assumes "Snapshot_Digest s = Inr h" and "same_snapshot s t" and "gomap (ss_Nodes s)" and "gomap (ss_Sources s)"
  shows "Snapshot_Digest t = Inr h"
  using assms by (rule digest_order_free)

theorem Digest_order_free_witness:
  "\<exists>h. Snapshot_Digest sample_snapshot = Inr h \<and>
    Snapshot_Digest (sample_snapshot\<lparr>ss_Nodes := rev (ss_Nodes sample_snapshot)\<rparr>) = Inr h"
proof -
  obtain h where h: "Snapshot_Digest sample_snapshot = Inr h" using sample_digest by blast
  have "same_node x x" for x by (cases x) (simp add: same_node_def)
  moreover have "same_edge e e" for e by (simp add: same_edge_def)
  ultimately have "list_all2 same_node ns ns" "list_all2 same_edge es es" for ns es by (simp_all add: list.rel_refl)
  then have "same_snapshot sample_snapshot (sample_snapshot\<lparr>ss_Nodes := rev (ss_Nodes sample_snapshot)\<rparr>)"
    unfolding same_snapshot_def by auto
  from Digest_order_free [OF h this] h show ?thesis by (simp add: sample_snapshot_def)
qed

text \<open>C38. A verification report is reused exactly when the context is live before and after, the subject is
  complete, the report is a passing, complete report on that very subject, and the required materials are
  those of the report and those that the recheck of this call observes.\<close>

theorem ReuseVerification_reusable_iff:
  "(\<exists>r. ReuseVerification ctx report subject required recheck = Inr r \<and> vu_Reusable r) \<longleftrightarrow>
    ctx = Some (None, None) \<and>
    (\<forall>f\<in>{vs_StoreID subject, vs_CanonicalID subject, vs_ClaimHash subject, vs_Criterion subject,
          vs_CriterionVersion subject, vs_Scope subject}. validText f) \<and>
    vr_Version report = VerificationV1 \<and> vr_Subject report = subject \<and> vr_Result report = CheckPass \<and>
    vr_CheckedAt report \<noteq> 0 \<and> vr_MaterialsComplete report \<and>
    (\<exists>want f observed. materialSet required = Some want \<and> materialSet (vr_Materials report) = Some want \<and>
       recheck = Some f \<and> f want = Inr observed \<and> materialSet observed = Some want)"
proof (cases ctx)
  case (Some errs)
  then show ?thesis
    by (cases errs; cases "fst errs"; cases "snd errs"; cases "materialSet required"; cases recheck)
      (auto simp: ReuseVerification_def and_then_Inr if_Inl_eq_Inr is_zero_time_def split: if_splits)
qed (simp add: ReuseVerification_def)

definition sample_subject :: VerificationSubject where
  "sample_subject = \<lparr>vs_StoreID = ''s'', vs_CanonicalID = ''c'', vs_ClaimHash = ''h'', vs_Criterion = ''d'',
    vs_CriterionVersion = ''w'', vs_Scope = ''s''\<rparr>"

definition sample_material :: Material where
  "sample_material = \<lparr>ma_Identity = ''c'', ma_Revision = ''d'', ma_ContentHash = ''h''\<rparr>"

definition sample_report :: VerificationReport where
  "sample_report = \<lparr>vr_Version = VerificationV1, vr_Subject = sample_subject, vr_Materials = [sample_material],
    vr_MaterialsComplete = True, vr_Result = CheckPass, vr_CheckedAt = 1\<rparr>"

theorem ReuseVerification_reusable_iff_witness:
  "\<exists>r. ReuseVerification (Some (None, None)) sample_report sample_subject [sample_material] (Some Inr) = Inr r \<and>
    vu_Reusable r"
proof -
  have "materialSet [sample_material] = Some [sample_material]"
    by (simp add: materialSet_def sample_material_def)
  then show ?thesis
    unfolding ReuseVerification_reusable_iff by (simp add: sample_report_def sample_subject_def)
qed

text \<open>A validity bound that is set to the zero time is treated as unset: evidence whose \<open>valid_to\<close> is the
  first instant of year 1 never expires.\<close>

theorem zero_valid_to_never_expires:
  "validity \<lparr>tm_ID = i, tm_Status = st, tm_ObservedAt = ob, tm_ValidFrom = [], tm_ValidTo = ''0001-01-01T00:00:00Z''\<rparr> now =
    (True, [])"
proof -
  have "parse_rfc3339 ''0001-01-01T00:00:00Z'' = Some 0" by code_simp
  then show ?thesis by (simp add: validity_def validity_bound_def is_zero_time_def)
qed

end
