(* ===== verification/GoScan.thy ===== *)
theory GoScan
  imports GoJson
begin

text \<open>
  Splitting a text: \<open>strings.Fields\<close>, the line scanner of \<open>bufio\<close>, \<open>strings.FieldsFunc\<close> on line ends,
  and \<open>strconv.Atoi\<close>.  Texts written by \<open>fmt\<close> with \<open>%d\<close> are read back: \<open>fields_words\<close>, \<open>atoi_int_str\<close>.
\<close>

section \<open>Fields\<close>

text \<open>
  The length of the white space at the head of a string.  An encoded space starts with a byte that is no
  continuation byte, so it is found byte by byte just as it is found rune by rune.
\<close>

definition space_len :: "string \<Rightarrow> nat" where
  "space_len s = (case find (has_prefix s) spaces of None \<Rightarrow> 0 | Some w \<Rightarrow> length w)"

definition emit :: "string \<Rightarrow> string list" where
  "emit w = (if w = [] then [] else [w])"

fun split_fields :: "string \<Rightarrow> string \<Rightarrow> string list" where
  "split_fields cur [] = emit cur"
| "split_fields cur (c # s) =
    (if space_len (c # s) = 0 then split_fields (cur @ [c]) s
     else emit cur @ split_fields [] (drop (space_len (c # s) - 1) s))"

text \<open>\<open>strings.Fields\<close>\<close>

definition Fields :: "string \<Rightarrow> string list" where
  "Fields s = split_fields [] s"

lemma emit_simps [simp]: "emit [] = []" "w \<noteq> [] \<Longrightarrow> emit w = [w]"
  by (simp_all add: emit_def)

lemma space_len_cases: "space_len s = 0 \<or> (\<exists>w\<in>set spaces. has_prefix s w \<and> space_len s = length w)"
  by (auto simp: space_len_def find_Some_iff split: option.splits)

lemma space_len_solid: "solid c \<Longrightarrow> space_len (c # s) = 0"
  using space_len_cases [of "c # s"] by (auto simp: has_prefix_iff Cons_eq_append_conv dest: spaces_not_solid)

definition blank :: "char \<Rightarrow> bool" where
  "blank c \<longleftrightarrow> c = CHR '' '' \<or> c = CHR 0x0A"

lemma spaces_lengths: "w \<in> set spaces \<Longrightarrow> length w = 1 \<or> 128 \<le> byte (hd w)"
  unfolding spaces_def by (auto simp: bytes_def)

lemma blank_spaces: "blank c \<Longrightarrow> [c] \<in> set spaces \<and> byte c < 128"
proof -
  have "CHR '' '' = char_of (32::nat)" "CHR 0x0A = char_of (10::nat)" by code_simp+
  then show "blank c \<Longrightarrow> [c] \<in> set spaces \<and> byte c < 128"
    by (auto simp: blank_def spaces_def bytes_def)
qed

lemma space_len_blank:
  assumes "blank c"
  shows "space_len (c # s) = 1"
proof -
  have "has_prefix (c # s) [c]" by (simp add: has_prefix_def)
  then have "find (has_prefix (c # s)) spaces \<noteq> None"
    using blank_spaces [OF assms] by (auto simp: find_None_iff)
  then obtain w where w: "find (has_prefix (c # s)) spaces = Some w" by blast
  then have "w \<in> set spaces" "has_prefix (c # s) w" by (auto simp: find_Some_iff)
  moreover from this have "w \<noteq> []" "hd w = c"
    using spaces_not_solid by (auto simp: has_prefix_iff Cons_eq_append_conv)
  ultimately show ?thesis
    using spaces_lengths blank_spaces [OF assms] w by (fastforce simp: space_len_def)
qed

lemma split_fields_solid: "list_all solid w \<Longrightarrow> split_fields cur (w @ s) = split_fields (cur @ w) s"
  by (induction w arbitrary: cur) (simp_all add: space_len_solid)

lemma fields_Nil [simp]: "Fields [] = []"
  by (simp add: Fields_def)

lemma fields_blank [simp]: "blank c \<Longrightarrow> Fields (c # s) = Fields s"
  by (simp add: Fields_def space_len_blank)

text \<open>A word is a non-empty run of printing ASCII.\<close>

definition word_text :: "string \<Rightarrow> bool" where
  "word_text w \<longleftrightarrow> w \<noteq> [] \<and> list_all solid w"

lemma fields_word: "word_text w \<Longrightarrow> blank c \<Longrightarrow> Fields (w @ c # s) = w # Fields s"
  by (simp add: Fields_def word_text_def split_fields_solid space_len_blank)

lemma fields_words:
  assumes "list_all word_text ws" and "blank c"
  shows "Fields (concat (map (\<lambda>w. w @ [c]) ws) @ s) = ws @ Fields s"
  using assms by (induction ws) (simp_all add: fields_word)

section \<open>Lines\<close>

text \<open>The lines of \<open>bufio.ScanLines\<close>: no token for an empty last line, one trailing carriage return dropped.\<close>

fun scan_lines :: "string \<Rightarrow> string \<Rightarrow> string list" where
  "scan_lines cur [] = emit cur"
| "scan_lines cur (c # s) = (if c = CHR 0x0A then cur # scan_lines [] s else scan_lines (cur @ [c]) s)"

definition drop_cr :: "string \<Rightarrow> string" where
  "drop_cr l = (if l \<noteq> [] \<and> last l = CHR 0x0D then butlast l else l)"

text \<open>\<open>strings.FieldsFunc\<close> with the function that finds carriage returns and line feeds.\<close>

fun line_fields :: "string \<Rightarrow> string \<Rightarrow> string list" where
  "line_fields cur [] = emit cur"
| "line_fields cur (c # s) =
    (if c = CHR 0x0A \<or> c = CHR 0x0D then emit cur @ line_fields [] s else line_fields (cur @ [c]) s)"

text \<open>\<open>strings.Split(s, "\n")\<close>\<close>

fun split_lines :: "string \<Rightarrow> string \<Rightarrow> string list" where
  "split_lines cur [] = [cur]"
| "split_lines cur (c # s) = (if c = CHR 0x0A then cur # split_lines [] s else split_lines (cur @ [c]) s)"

lemma scan_lines_plain: "CHR 0x0A \<notin> set l \<Longrightarrow> scan_lines cur (l @ s) = scan_lines (cur @ l) s"
  by (induction l arbitrary: cur) auto

lemma scan_lines_lines:
  assumes "\<forall>l\<in>set ls. CHR 0x0A \<notin> set l"
  shows "scan_lines [] (concat (map (\<lambda>l. l @ [CHR 0x0A]) ls)) = ls"
  using assms by (induction ls) (simp_all add: scan_lines_plain)

section \<open>Integers\<close>

text \<open>\<open>strconv.Atoi\<close>, whose result is an \<open>int\<close> of 64 bits.\<close>

definition atoi :: "string \<Rightarrow> int option" where
  "atoi s =
    (let neg = s \<noteq> [] \<and> hd s = CHR ''-'';
         ds = if s \<noteq> [] \<and> (hd s = CHR ''-'' \<or> hd s = CHR ''+'') then tl s else s;
         n = (if neg then - int (digits_val ds) else int (digits_val ds))
     in if ds = [] \<or> \<not> list_all is_digit ds \<or> n < - (2 ^ 63) \<or> n > MaxInt64 then None else Some n)"

lemma nat_str_head: "hd (nat_str n) \<noteq> CHR ''-'' \<and> hd (nat_str n) \<noteq> CHR ''+''"
  using hd_nat_str [of n] by (auto simp: is_digit_def)

lemma int_str_cases: "int_str n = (if n < 0 then CHR ''-'' # nat_str (nat \<bar>n\<bar>) else nat_str (nat \<bar>n\<bar>))"
  by (simp add: int_str_def)

lemma list_all_nat_str [simp]: "list_all is_digit (nat_str n)"
  using nat_str_digits by (simp add: list_all_iff)

lemma atoi_int_str:
  assumes "\<bar>n\<bar> \<le> MaxInt64"
  shows "atoi (int_str n) = Some n"
  using assms nat_str_nonempty nat_str_head [of "nat n"]
  by (auto simp: atoi_def int_str_def Let_def digits_val_nat_str MaxInt64_def)

lemma solid_digit: "is_digit c \<Longrightarrow> solid c"
  by (simp add: is_digit_def solid_def)

lemma word_int_str [simp]: "word_text (int_str n)"
proof -
  have "list_all solid (nat_str k)" for k
    using nat_str_digits [of k] solid_digit by (auto simp: list_all_iff)
  moreover have "solid (CHR ''-'')" by (simp add: solid_def)
  ultimately show ?thesis using nat_str_nonempty by (simp add: word_text_def int_str_def)
qed

lemma atoi_word [simp]: "atoi ''0'' = Some 0"
  by (simp add: atoi_def digits_val_def is_digit_def MaxInt64_def)

end
