(* ===== verification/LogicCNF.thy ===== *)
theory LogicCNF
  imports GoScan GoMap
begin

text \<open>
  \<open>src/logicresolver\<close>: CNF formulas over numbered variables (\<open>cnf.go\<close>), the limits of one solver call
  (\<open>limits.go\<close>) and the result records with the consumer's requirements (\<open>result.go\<close>).  The meaning of
  a formula is \<open>models\<close>; \<open>CheckAssignment\<close> decides it for a total assignment.
\<close>

section \<open>Formulas\<close>

text \<open>Nil slices are kept apart from empty ones where \<open>CheckShape\<close> or the JSON text tells them apart.\<close>

record Variable =
  va_ID :: int
  va_Metadata :: "(string, string) gomap"

record CNF =
  cn_Variables :: "Variable slice"
  cn_Clauses :: "int slice slice"
  cn_Origins :: "string slice slice"

abbreviation variables :: "CNF \<Rightarrow> Variable list" where
  "variables c \<equiv> elems (cn_Variables c)"

abbreviation clauses :: "CNF \<Rightarrow> int list list" where
  "clauses c \<equiv> map elems (elems (cn_Clauses c))"

abbreviation origins :: "CNF \<Rightarrow> string list list" where
  "origins c \<equiv> map elems (elems (cn_Origins c))"

text \<open>The number of variables.\<close>

abbreviation width :: "CNF \<Rightarrow> int" where
  "width c \<equiv> int (length (variables c))"

definition CheckShape :: "CNF \<Rightarrow> unit result" where
  "CheckShape c =
    (if cn_Origins c \<noteq> None \<and> length (origins c) \<noteq> length (clauses c)
     then Inl (Error ErrInput ''origins must cover every clause'')
     else and_then (each (each (\<lambda>i. if i = [] then Inl (Error ErrInput ''empty origin ID'') else Inr ())) (origins c)) (\<lambda>_.
       and_then (each (\<lambda>(i, v). if va_ID v \<noteq> int i + 1 then Inl (Error ErrInput ''variable IDs are not contiguous'')
           else Inr ()) (enumerate 0 (variables c))) (\<lambda>_.
         each (each (\<lambda>lit. if lit = 0 \<or> lit > width c \<or> lit < - width c
           then Inl (Error ErrInput ''invalid literal in clause'') else Inr ())) (clauses c))))"

text \<open>\<open>fmt.Fprintln\<close> ends a line with this byte.\<close>

abbreviation newline :: char where
  "newline \<equiv> CHR 0x0A"

definition dimacs_clause :: "int list \<Rightarrow> string" where
  "dimacs_clause clause = concat (map (\<lambda>lit. int_str lit @ '' '') clause) @ ''0'' @ [newline]"

text \<open>\<open>WriteDIMACS\<close> into a \<open>bytes.Buffer\<close>, whose writes do not fail.\<close>

definition WriteDIMACS :: "CNF \<Rightarrow> string result" where
  "WriteDIMACS c = and_then (CheckShape c) (\<lambda>_.
    Inr (''p cnf '' @ int_str (width c) @ '' '' @ int_str (int (length (clauses c))) @ [newline] @
      concat (map dimacs_clause (clauses c))))"

text \<open>\<open>values[id]\<close> of a \<open>map[int]bool\<close>: false for a missing key.\<close>

definition truth :: "(int, bool) gomap \<Rightarrow> int \<Rightarrow> bool" where
  "truth m i \<longleftrightarrow> map_of m i = Some True"

text \<open>\<open>CheckShape\<close> has bounded the literals by the number of variables, so that negation does not overflow.\<close>

fun clause_satisfied :: "(int, bool) gomap \<Rightarrow> int \<Rightarrow> int list \<Rightarrow> bool result" where
  "clause_satisfied m n [] = Inr False"
| "clause_satisfied m n (lit # rest) =
    (let id = if lit < 0 then - lit else lit in
     if id < 1 \<or> id > n then Inl (Error ErrInput ''invalid literal in clause'')
     else if truth m id = (lit > 0) then Inr True
     else clause_satisfied m n rest)"

definition CheckAssignment :: "CNF \<Rightarrow> (int, bool) gomap \<Rightarrow> unit result" where
  "CheckAssignment c m =
    and_then (CheckShape c) (\<lambda>_.
    if length m \<noteq> length (variables c) then Inl (Error Plain ''assignment is not total'')
    else and_then (each (\<lambda>i. if map_of m i = None then Inl (Error Plain ''assignment misses variable'') else Inr ())
           [1..width c]) (\<lambda>_.
      each (\<lambda>clause. and_then (clause_satisfied m (width c) clause) (\<lambda>satisfied.
        if satisfied then Inr () else Inl (Error Plain ''assignment violates clause''))) (clauses c)))"

subsection \<open>JSON\<close>

definition variable_json :: "Variable \<Rightarrow> json" where
  "variable_json v = JObj ([(''id'', JInt (va_ID v))] @
    (if va_Metadata v = [] then [] else
      [(''metadata'', JObj (map (\<lambda>(k, s). (k, JStr s)) (sort_key fst (va_Metadata v))))]))"

definition cnf_json :: "CNF \<Rightarrow> json" where
  "cnf_json c = JObj ([
     (''variables'', JSlice (map_option (map variable_json) (cn_Variables c))),
     (''clauses'', JSlice (map_option (map (\<lambda>k. JSlice (map_option (map JInt) k))) (cn_Clauses c)))] @
    (if elems (cn_Origins c) = [] then [] else
      [(''origins'', JSlice (map_option (map (\<lambda>o'. JSlice (map_option (map JStr) o'))) (cn_Origins c)))]))"

section \<open>Limits\<close>

text \<open>\<open>time.Duration\<close> counts nanoseconds.\<close>

record Limits =
  lm_Timeout :: int
  lm_MaxVariables :: int
  lm_MaxClauses :: int
  lm_MaxLiterals :: int
  lm_MaxInputBytes :: int
  lm_MaxOutputBytes :: int

definition Limits_WithDefaults :: "Limits \<Rightarrow> Limits result" where
  "Limits_WithDefaults l =
    (if lm_Timeout l < 0 \<or> lm_MaxVariables l < 0 \<or> lm_MaxClauses l < 0 \<or> lm_MaxLiterals l < 0 \<or>
        lm_MaxInputBytes l < 0 \<or> lm_MaxOutputBytes l < 0
     then Inl (Error ErrInput ''negative limit'')
     else Inr \<lparr>
       lm_Timeout = (if lm_Timeout l = 0 then 30 * 1000000000 else lm_Timeout l),
       lm_MaxVariables = (if lm_MaxVariables l = 0 then 100000 else lm_MaxVariables l),
       lm_MaxClauses = (if lm_MaxClauses l = 0 then 1000000 else lm_MaxClauses l),
       lm_MaxLiterals = (if lm_MaxLiterals l = 0 then 4000000 else lm_MaxLiterals l),
       lm_MaxInputBytes = (if lm_MaxInputBytes l = 0 then 16 * 2 ^ 20 else lm_MaxInputBytes l),
       lm_MaxOutputBytes = (if lm_MaxOutputBytes l = 0 then 16 * 2 ^ 20 else lm_MaxOutputBytes l)\<rparr>)"

text \<open>\<open>if len(xs) > remaining { return ErrLimit }; remaining -= len(xs)\<close>\<close>

definition spend :: "int \<Rightarrow> 'a list \<Rightarrow> int result" where
  "spend remaining xs =
    (if int (length xs) > remaining then Inl (Error ErrLimit []) else Inr (remaining - int (length xs)))"

definition CheckCNF :: "Limits \<Rightarrow> CNF \<Rightarrow> unit result" where
  "CheckCNF l c =
    (if int (length (variables c)) > lm_MaxVariables l \<or> int (length (clauses c)) > lm_MaxClauses l
     then Inl (Error ErrLimit [])
     else and_then (fold_res spend (lm_MaxLiterals l) (clauses c)) (\<lambda>_. CheckShape c))"

section \<open>Results\<close>

abbreviation "Unknown \<equiv> ''UNKNOWN''"
abbreviation "SAT \<equiv> ''SAT''"
abbreviation "UNSAT \<equiv> ''UNSAT''"

record Artifact =
  af_ID :: string
  af_SHA256 :: string
  af_Bytes :: int

record Validation =
  vd_Present :: bool
  vd_Decoded :: bool
  vd_Checked :: bool
  vd_Method :: string
  vd_TargetSHA256 :: string

record Result =
  rs_Status :: string
  rs_Profile :: string
  rs_InputSHA256 :: string
  rs_FormulaSHA256 :: string
  rs_SolverSHA256 :: string
  rs_CheckerSHA256 :: string
  rs_Model :: Validation
  rs_Proof :: Validation
  rs_Artifacts :: "Artifact list"

record Requirements =
  rq_SATModelChecked :: bool
  rq_UNSATProofChecked :: bool

definition Require :: "'a Result_scheme \<Rightarrow> Requirements \<Rightarrow> unit result" where
  "Require r want =
    (if rs_Status r = SAT then
       if rq_SATModelChecked want \<and> (\<not> vd_Present (rs_Model r) \<or> \<not> vd_Decoded (rs_Model r) \<or>
            \<not> vd_Checked (rs_Model r) \<or> vd_TargetSHA256 (rs_Model r) \<noteq> rs_InputSHA256 r \<or> rs_InputSHA256 r = [])
       then Inl (Error ErrGuarantee ''checked SAT model'') else Inr ()
     else if rs_Status r = UNSAT then
       if rq_UNSATProofChecked want \<and> (\<not> vd_Present (rs_Proof r) \<or>
            \<not> vd_Checked (rs_Proof r) \<or> vd_TargetSHA256 (rs_Proof r) \<noteq> rs_FormulaSHA256 r \<or> rs_FormulaSHA256 r = [])
       then Inl (Error ErrGuarantee ''checked UNSAT proof'') else Inr ()
     else Inl (Error ErrGuarantee ''no conclusive answer''))"

section \<open>What a formula means\<close>

definition holds :: "(int \<Rightarrow> bool) \<Rightarrow> int \<Rightarrow> bool" where
  "holds v lit \<longleftrightarrow> v \<bar>lit\<bar> = (0 < lit)"

definition clauses_hold :: "(int \<Rightarrow> bool) \<Rightarrow> int list list \<Rightarrow> bool" where
  "clauses_hold v ks \<longleftrightarrow> (\<forall>clause\<in>set ks. \<exists>lit\<in>set clause. holds v lit)"

definition models :: "(int \<Rightarrow> bool) \<Rightarrow> CNF \<Rightarrow> bool" where
  "models v c \<longleftrightarrow> clauses_hold v (clauses c)"

definition satisfiable :: "CNF \<Rightarrow> bool" where
  "satisfiable c \<longleftrightarrow> (\<exists>v. models v c)"

text \<open>What \<open>CheckShape\<close> accepts.  The machine has fewer than \<open>2 ^ 63\<close> variables.\<close>

definition shaped :: "CNF \<Rightarrow> bool" where
  "shaped c \<longleftrightarrow> (cn_Origins c = None \<or> length (origins c) = length (clauses c)) \<and>
    [] \<notin> \<Union> (set ` set (origins c)) \<and> map va_ID (variables c) = [1..width c] \<and>
    (\<forall>clause\<in>set (clauses c). \<forall>lit\<in>set clause. lit \<noteq> 0 \<and> \<bar>lit\<bar> \<le> width c)"

lemma shaped_lit: "shaped c \<Longrightarrow> k \<in> set (clauses c) \<Longrightarrow> lit \<in> set k \<Longrightarrow> lit \<noteq> 0 \<and> \<bar>lit\<bar> \<le> width c"
  unfolding shaped_def by blast

lemma numbered_iff:
  "(\<forall>(i, v)\<in>set (enumerate k xs). f v = int i + 1) \<longleftrightarrow> map f xs = [int k + 1..int k + int (length xs)]"
proof (induction xs arbitrary: k)
  case (Cons x xs)
  have "[int k + 1..int k + int (length (x # xs))] = (int k + 1) # [int (Suc k) + 1..int (Suc k) + int (length xs)]"
    by (subst upto_rec1) (simp_all add: algebra_simps)
  with Cons [of "Suc k"] show ?case by auto
qed simp

lemma CheckShape_Inr [returns]: "CheckShape c = Inr u \<longleftrightarrow> shaped c"
proof -
  have "(\<forall>(i, v)\<in>set (enumerate 0 (variables c)). \<not> va_ID v \<noteq> int i + 1) \<longleftrightarrow> map va_ID (variables c) = [1..width c]"
    using numbered_iff [of 0 "variables c" va_ID] by simp
  moreover have "lit = 0 \<or> width c < lit \<or> lit < - width c \<longleftrightarrow> \<not> (lit \<noteq> 0 \<and> \<bar>lit\<bar> \<le> width c)" for lit
    by (auto simp: abs_le_iff)
  ultimately show ?thesis
    unfolding CheckShape_def shaped_def by (auto simp: and_then_Inr if_Inl_eq_Inr each_Inr case_prod_unfold)
qed

section \<open>Checking an assignment\<close>

lemma clause_satisfied_Inr:
  assumes "\<forall>lit\<in>set clause. lit \<noteq> 0 \<and> \<bar>lit\<bar> \<le> n"
  shows "clause_satisfied m n clause = Inr (\<exists>lit\<in>set clause. holds (truth m) lit)"
  using assms
proof (induction clause)
  case (Cons lit rest)
  have "(if lit < 0 then - lit else lit) = \<bar>lit\<bar>" by simp
  moreover have "lit \<noteq> 0" using Cons.prems by simp
  then have "1 \<le> \<bar>lit\<bar>" by arith
  ultimately show ?case using Cons by (auto simp: Let_def holds_def)
qed simp

lemma CheckAssignment_Inr:
  "CheckAssignment c m = Inr u \<longleftrightarrow> shaped c \<and> length m = length (variables c) \<and> {1..width c} \<subseteq> keys m \<and> models (truth m) c"
proof (cases "shaped c")
  case True
  then have "clause_satisfied m (width c) k = Inr (\<exists>lit\<in>set k. holds (truth m) lit)" if "k \<in> set (clauses c)" for k
    using that shaped_lit [OF True] by (intro clause_satisfied_Inr) blast
  then have "each (\<lambda>k. and_then (clause_satisfied m (width c) k) (\<lambda>satisfied.
      if satisfied then Inr () else Inl (Error Plain ''assignment violates clause''))) (clauses c) = Inr () \<longleftrightarrow> models (truth m) c"
    by (simp add: each_Inr models_def clauses_hold_def)
  with True show ?thesis
    by (auto simp: CheckAssignment_def and_then_Inr if_Inl_eq_Inr each_Inr CheckShape_Inr map_of_None_keys)
qed (simp add: CheckAssignment_def and_then_Inr CheckShape_Inr)

lemma card_keys: "gomap m \<Longrightarrow> card (keys m) = length m"
  by (metis keys_list distinct_card length_map)

lemma total_keys:
  assumes "gomap m" and "int (length m) = n" and "{1..n} \<subseteq> keys m"
  shows "keys m = {1..n}"
proof (rule sym, rule card_subset_eq)
  show "finite (keys m)" by (simp add: keys_list [symmetric])
  show "card {1..n} = card (keys m)" using assms by (simp add: card_keys)
qed (fact assms(3))

text \<open>C36. \<open>CheckAssignment\<close> accepts an assignment exactly when the formula is well shaped, the assignment gives a
  value to every variable and to nothing else, and it satisfies every clause.\<close>

theorem CheckAssignment_decides:
  assumes "gomap m"
  shows "CheckAssignment c m = Inr () \<longleftrightarrow>
    CheckShape c = Inr () \<and> keys m = {1..width c} \<and> models (truth m) c"
proof -
  have a: "length m = length (variables c)" if "keys m = {1..width c}"
    using that card_keys [OF assms] by simp
  have b: "keys m = {1..width c}" if "length m = length (variables c)" "{1..width c} \<subseteq> keys m"
    using that by (intro total_keys [OF assms]) simp_all
  show ?thesis unfolding CheckAssignment_Inr CheckShape_Inr using a b by blast
qed

definition sample_cnf :: CNF where
  "sample_cnf = \<lparr>cn_Variables = Some [\<lparr>va_ID = 1, va_Metadata = []\<rparr>, \<lparr>va_ID = 2, va_Metadata = []\<rparr>],
    cn_Clauses = Some [Some [- 1, 2], Some [1]], cn_Origins = None\<rparr>"

lemma sample_shape: "CheckShape sample_cnf = Inr ()"
  by (simp add: CheckShape_def sample_cnf_def numeral_2_eq_2)

theorem CheckAssignment_decides_witness: "CheckAssignment sample_cnf [(1, True), (2, True)] = Inr ()"
proof -
  have "keys [(1, True), (2, True)] = {1..width sample_cnf}"
    by (auto simp: keys_def sample_cnf_def)
  moreover have "models (truth [(1, True), (2, True)]) sample_cnf"
    by (simp add: models_def clauses_hold_def sample_cnf_def truth_def holds_def)
  ultimately show ?thesis by (subst CheckAssignment_decides) (simp_all add: sample_shape)
qed

section \<open>The DIMACS text\<close>

text \<open>A reader of the format: the header, then literals, a clause ending at each zero.\<close>

fun read_clauses :: "int list \<Rightarrow> int list \<Rightarrow> int list list option" where
  "read_clauses cur [] = (if cur = [] then Some [] else None)"
| "read_clauses cur (n # ns) =
    (if n = 0 then map_option ((#) cur) (read_clauses [] ns) else read_clauses (cur @ [n]) ns)"

definition read_dimacs :: "string \<Rightarrow> (int \<times> int list list) option" where
  "read_dimacs text =
    (case Fields text of
       p # f # rest \<Rightarrow>
         if p = ''p'' \<and> f = ''cnf'' \<and> None \<notin> set (map atoi rest) then
           (case map (the \<circ> atoi) rest of
              n # m # lits \<Rightarrow> (case read_clauses [] lits of
                 Some cs \<Rightarrow> if int (length cs) = m then Some (n, cs) else None
               | None \<Rightarrow> None)
            | _ \<Rightarrow> None)
         else None
     | _ \<Rightarrow> None)"

lemma read_clause: "0 \<notin> set k \<Longrightarrow> read_clauses cur (k @ 0 # ns) = map_option ((#) (cur @ k)) (read_clauses [] ns)"
  by (induction k arbitrary: cur) auto

lemma read_clauses_concat:
  "\<forall>k\<in>set ks. 0 \<notin> set k \<Longrightarrow> read_clauses [] (concat (map (\<lambda>k. k @ [0]) ks)) = Some ks"
  by (induction ks) (simp_all add: read_clause)

lemma fields_dimacs_clause:
  "Fields (dimacs_clause k @ s) = map int_str k @ ''0'' # Fields s"
proof -
  have "word_text ''0''" by (simp add: word_text_def solid_def)
  then have "Fields (''0'' @ newline # s) = ''0'' # Fields s" by (intro fields_word) (simp_all add: blank_def)
  moreover have "concat (map (\<lambda>lit. int_str lit @ '' '') k) = concat (map (\<lambda>w. w @ '' '') (map int_str k))"
    by (simp add: comp_def)
  moreover have "list_all word_text (map int_str k)" by (simp add: list_all_iff)
  ultimately show ?thesis
    using fields_words [of "map int_str k" "CHR '' ''"] by (simp add: dimacs_clause_def blank_def)
qed

lemma fields_dimacs_clauses:
  "Fields (concat (map dimacs_clause ks)) = map int_str (concat (map (\<lambda>k. k @ [0]) ks))"
proof (induction ks)
  case (Cons k ks)
  moreover have "int_str 0 = ''0''" by code_simp
  ultimately show ?case by (simp add: fields_dimacs_clause)
qed simp

lemma atoi_int_strs:
  assumes "\<forall>n\<in>set ns. \<bar>n\<bar> \<le> MaxInt64"
  shows "map atoi (map int_str ns) = map Some ns"
  using assms by (induction ns) (simp_all add: atoi_int_str)

lemma read_dimacs_fields:
  assumes "Fields t = ''p'' # ''cnf'' # ws" and "map atoi ws = map Some (n # m # lits)"
    and "read_clauses [] lits = Some cs" and "int (length cs) = m"
  shows "read_dimacs t = Some (n, cs)"
proof -
  have "map (the \<circ> atoi) ws = map the (map atoi ws)" by simp
  then have "map (the \<circ> atoi) ws = n # m # lits" unfolding assms(2) by (simp add: comp_def)
  moreover have "None \<notin> set (map atoi ws)" unfolding assms(2) by auto
  ultimately show ?thesis using assms(1,3,4) by (simp add: read_dimacs_def)
qed

lemma WriteDIMACS_text_read:
  assumes "WriteDIMACS c = Inr text" and "width c \<le> MaxInt64" and "int (length (clauses c)) \<le> MaxInt64"
  shows "read_dimacs text = Some (width c, clauses c)"
proof -
  let ?ns = "concat (map (\<lambda>k. k @ [0]) (clauses c))"
  have shape: "shaped c" and t: "text = ''p'' @ CHR '' '' # (''cnf'' @ CHR '' '' # (int_str (width c) @ CHR '' '' #
      (int_str (int (length (clauses c))) @ newline # concat (map dimacs_clause (clauses c)))))"
    using assms(1) by (auto simp: WriteDIMACS_def and_then_Inr CheckShape_Inr)
  have p: "Fields (''p'' @ CHR '' '' # s) = ''p'' # Fields s"
    and cnf: "Fields (''cnf'' @ CHR '' '' # s) = ''cnf'' # Fields s" for s
    by (rule fields_word; simp add: word_text_def solid_def blank_def)+
  have num: "Fields (int_str n @ CHR '' '' # s) = int_str n # Fields s"
    "Fields (int_str n @ newline # s) = int_str n # Fields s" for s n
    by (rule fields_word; simp add: blank_def)+
  have b: "\<bar>n\<bar> \<le> MaxInt64" if "n \<in> set ?ns" for n
  proof -
    have "n = 0 \<or> (\<exists>k\<in>set (clauses c). n \<in> set k)" using that by (auto split: if_splits)
    moreover have "(0::int) \<le> MaxInt64" by (simp add: MaxInt64_def)
    ultimately show ?thesis using shaped_lit [OF shape] assms(2) by (metis abs_zero order_trans)
  qed
  show ?thesis
  proof (rule read_dimacs_fields)
    show "Fields text = ''p'' # ''cnf'' # map int_str (width c # int (length (clauses c)) # ?ns)"
      unfolding t p cnf num fields_dimacs_clauses by simp
    show "map atoi (map int_str (width c # int (length (clauses c)) # ?ns)) = map Some (width c # int (length (clauses c)) # ?ns)"
      using b assms(2,3) by (intro atoi_int_strs) auto
    show "read_clauses [] ?ns = Some (clauses c)"
      using shaped_lit [OF shape] by (intro read_clauses_concat) blast
  qed simp
qed

text \<open>C37. The DIMACS text that \<open>WriteDIMACS\<close> hands to the solver and to the proof checker is read back, by
  splitting it into fields and clauses at each zero, as the number of variables and exactly the clauses.\<close>

theorem WriteDIMACS_roundtrip:
  assumes "WriteDIMACS c = Inr text" and "width c \<le> MaxInt64" and "int (length (clauses c)) \<le> MaxInt64"
  shows "read_dimacs text = Some (width c, clauses c)"
  using assms by (rule WriteDIMACS_text_read)

lemma sample_dimacs: "\<exists>text. WriteDIMACS sample_cnf = Inr text"
  by (simp add: WriteDIMACS_def sample_shape)

theorem WriteDIMACS_roundtrip_witness:
  "\<exists>text. WriteDIMACS sample_cnf = Inr text \<and> read_dimacs text = Some (2, [[- 1, 2], [1]])"
proof -
  obtain t where t: "WriteDIMACS sample_cnf = Inr t" using sample_dimacs by blast
  from WriteDIMACS_roundtrip [OF t] t show ?thesis by (simp add: sample_cnf_def MaxInt64_def)
qed

end
