(* ===== verification/Cadical.thy ===== *)
theory Cadical
  imports LogicCNF
begin

text \<open>
  \<open>src/logicresolver/cadical\<close>: the answers of the solver and of the proof checker are decoded
  (\<open>parse.go\<close>) and checked (\<open>runner.go\<close>).  The two tools, the files and the context are parameters:
  \<open>SolveEnv\<close> holds what they answer during one call of \<open>Solve\<close>.
\<close>

section \<open>Decoding\<close>

definition exactLine :: "string \<Rightarrow> string \<Rightarrow> bool" where
  "exactLine raw want \<longleftrightarrow> want \<in> set (line_fields [] raw)"

text \<open>The state of the loop: \<open>values\<close> and \<open>ended\<close>.\<close>

definition assign_part :: "int \<Rightarrow> (int, bool) gomap \<times> bool \<Rightarrow> string \<Rightarrow> ((int, bool) gomap \<times> bool) result" where
  "assign_part cnt st part =
    (case st of (m, ended) \<Rightarrow>
     case atoi part of
       None \<Rightarrow> Inl (Error Plain ''malformed assignment literal'')
     | Some n \<Rightarrow>
         if n = 0 then Inr (m, True)
         else if ended then Inl (Error Plain ''assignment continues after terminator'')
         else
           let id = if n < 0 then wrap64 (- n) else n; value = 0 < n in
           if id < 1 \<or> id > cnt then Inl (Error Plain ''assignment literal outside variable range'')
           else if map_of m id = Some (\<not> value) then Inl (Error Plain ''contradictory assignment literals'')
           else Inr (AList.update id value m, ended))"

text \<open>The buffer of the scanner holds at most \<open>16 << 20\<close> bytes, the end of the line included.\<close>

definition MaxLine :: nat where
  "MaxLine = 16 * 2 ^ 20"

definition assign_line :: "int \<Rightarrow> (int, bool) gomap \<times> bool \<Rightarrow> string \<Rightarrow> ((int, bool) gomap \<times> bool) result" where
  "assign_line cnt st line =
    (if length line \<ge> MaxLine then Inl (Error Plain ''reading assignment: bufio.Scanner: token too long'')
     else case Fields (drop_cr line) of
       [] \<Rightarrow> Inr st
     | p # parts \<Rightarrow> if p \<noteq> ''v'' then Inr st else fold_res (assign_part cnt) st parts)"

definition assignment :: "string \<Rightarrow> int \<Rightarrow> (int, bool) gomap result" where
  "assignment raw cnt =
    and_then (fold_res (assign_line cnt) ([], False) (scan_lines [] raw)) (\<lambda>(m, ended).
      if \<not> ended \<or> int (length m) \<noteq> cnt then Inl (Error Plain ''incomplete assignment'') else Inr m)"

definition hasAssignment :: "string \<Rightarrow> bool" where
  "hasAssignment raw \<longleftrightarrow> list_ex (\<lambda>line. has_prefix line ''v '') (split_lines [] raw)"

section \<open>The runner\<close>

record Config =
  cf_SolverPath :: string
  cf_SolverSHA256 :: string
  cf_CheckerPath :: string
  cf_CheckerSHA256 :: string
  cf_ArtifactDir :: string
  cf_Limits :: Limits
  cf_MaxProofBytes :: int

record Runner =
  rn_root :: string
  rn_config :: Config

record CadicalResult = Result +
  rs_Assignment :: "(int, bool) gomap"

text \<open>\<open>toolrun.Prepare\<close> and \<open>toolrun.WriteJSON\<close> touch the file system: parameters.\<close>

definition New :: "Config \<Rightarrow> (Config \<Rightarrow> string result) \<Rightarrow> (Config \<Rightarrow> error option) \<Rightarrow> Runner result" where
  "New c Prepare WriteLimits =
    and_then (Limits_WithDefaults (cf_Limits c)) (\<lambda>limits.
     let c = c\<lparr>cf_Limits := limits\<rparr> in
     if cf_MaxProofBytes c < 0 then Inl (Error ErrInput ''negative proof limit'')
     else
       let c = (if cf_MaxProofBytes c = 0 then c\<lparr>cf_MaxProofBytes := 64 * 2 ^ 20\<rparr> else c) in
       and_then (Prepare c) (\<lambda>root.
       and_then (checked (WriteLimits c)) (\<lambda>_. Inr \<lparr>rn_root = root, rn_config = c\<rparr>)))"

text \<open>
  What the file system, the context and the tools answer during one call.  \<open>ev_Solver\<close> and \<open>ev_Checker\<close> give
  the exit code and the standard output of a run, or why there is none; the checker answers on the
  text of the formula and of the proof.  \<open>ev_Proof\<close> is the content of \<open>proof.drat\<close> when it is a regular file.
\<close>

record SolveEnv =
  ev_CtxErr :: "error option"
  ev_Mkdir :: "error option"
  ev_SaveInput :: "error option"
  ev_SaveFormula :: "error option"
  ev_Solver :: "(int \<times> string) result"
  ev_WriteAssignment :: "error option"
  ev_Proof :: "string option"
  ev_Checker :: "string \<Rightarrow> string \<Rightarrow> (int \<times> string) result"
  ev_FinalErr :: "error option"
  ev_Outcome :: "error option"
  ev_Inventory :: "Artifact list \<times> error option"

text \<open>\<open>toolrun.Query\<close>\<close>

definition alnum :: "char \<Rightarrow> bool" where
  "alnum c \<longleftrightarrow> (let b = byte c in 48 \<le> b \<and> b \<le> 57 \<or> 65 \<le> b \<and> b \<le> 90 \<or> 97 \<le> b \<and> b \<le> 122)"

definition safeID :: "string \<Rightarrow> bool" where
  "safeID qid \<longleftrightarrow> qid \<noteq> [] \<and> length qid \<le> 80 \<and> alnum (hd qid) \<and>
    list_all (\<lambda>c. alnum c \<or> c = CHR ''_'' \<or> c = CHR ''-'') (tl qid)"

definition Query :: "error option \<Rightarrow> string \<Rightarrow> unit result" where
  "Query mkdir qid =
    (if \<not> safeID qid then Inl (Error ErrInput ''query ID'')
     else in_context ''query directory must be new: '' (checked mkdir))"

text \<open>\<open>toolrun.Save\<close>: the digest of the bytes once they are written.\<close>

definition Save :: "error option \<Rightarrow> string \<Rightarrow> string result" where
  "Save write raw = and_then (checked write) (\<lambda>_. Inr (sha256_hex raw))"

text \<open>\<open>errors.Join\<close>, whose later errors are those of file operations and have no sentinel.\<close>

fun join_err :: "error option \<Rightarrow> error option \<Rightarrow> error option" where
  "join_err None f = f"
| "join_err e None = e"
| "join_err (Some (Error s m)) (Some (Error t n)) = Some (Error s (m @ newline # n))"

text \<open>\<open>toolrun.Finish\<close>, which runs when \<open>Solve\<close> returns.\<close>

definition Finish :: "SolveEnv \<Rightarrow> CadicalResult \<times> error option \<Rightarrow> CadicalResult \<times> error option" where
  "Finish env out =
    (fst out\<lparr>rs_Artifacts := fst (ev_Inventory env)\<rparr>,
     join_err (join_err (snd out) (ev_Outcome env)) (snd (ev_Inventory env)))"

definition no_validation :: Validation where
  "no_validation = \<lparr>vd_Present = False, vd_Decoded = False, vd_Checked = False, vd_Method = [], vd_TargetSHA256 = []\<rparr>"

definition initial_result :: "Config \<Rightarrow> CadicalResult" where
  "initial_result c = \<lparr>rs_Status = Unknown, rs_Profile = ''cnf/v0'', rs_InputSHA256 = [], rs_FormulaSHA256 = [],
    rs_SolverSHA256 = cf_SolverSHA256 c, rs_CheckerSHA256 = cf_CheckerSHA256 c, rs_Model = no_validation,
    rs_Proof = no_validation, rs_Artifacts = [], rs_Assignment = []\<rparr>"

text \<open>The three branches of the switch on the exit code of the solver.\<close>

definition solve_sat :: "SolveEnv \<Rightarrow> CNF \<Rightarrow> string \<Rightarrow> CadicalResult \<Rightarrow> CadicalResult \<times> error option" where
  "solve_sat env cnf stdout r =
    (let r = r\<lparr>rs_Status := SAT, rs_Model := rs_Model r\<lparr>vd_Present := hasAssignment stdout\<rparr>\<rparr> in
     returning r (wrap ErrProtocol (assignment stdout (width cnf))) (\<lambda>m.
     let r = r\<lparr>rs_Assignment := m, rs_Model := rs_Model r\<lparr>vd_Decoded := True\<rparr>\<rparr> in
     returning r (checked (ev_WriteAssignment env)) (\<lambda>_.
     returning r (wrap ErrValidation (CheckAssignment cnf m)) (\<lambda>_.
       (r\<lparr>rs_Model := rs_Model r\<lparr>vd_Checked := True, vd_Method := ''total-assignment/every-input-clause/v0'',
            vd_TargetSHA256 := rs_InputSHA256 r\<rparr>\<rparr>, ev_FinalErr env)))))"

definition solve_unsat :: "Config \<Rightarrow> SolveEnv \<Rightarrow> string \<Rightarrow> CadicalResult \<Rightarrow> CadicalResult \<times> error option" where
  "solve_unsat c env formula r =
    (let r = r\<lparr>rs_Status := UNSAT\<rparr> in
     case ev_Proof env of
       None \<Rightarrow> (r, Some (Error ErrProtocol ''missing regular proof''))
     | Some proof \<Rightarrow>
         let r = r\<lparr>rs_Proof := rs_Proof r\<lparr>vd_Present := True\<rparr>\<rparr> in
         if int (length proof) > cf_MaxProofBytes c then (r, Some (Error ErrLimit ''proof''))
         else returning r (ev_Checker env formula proof) (\<lambda>(exit, output).
           if exit \<noteq> 0 \<or> \<not> exactLine output ''s VERIFIED'' \<or> exactLine output ''s NOT VERIFIED''
           then (r, Some (Error ErrValidation ''proof checker''))
           else (r\<lparr>rs_Proof := rs_Proof r\<lparr>vd_Checked := True, vd_Method := ''drat-trim/exit-zero-exact-verified'',
                    vd_TargetSHA256 := rs_FormulaSHA256 r\<rparr>\<rparr>, ev_FinalErr env)))"

definition solve_answer :: "Config \<Rightarrow> SolveEnv \<Rightarrow> CNF \<Rightarrow> string \<Rightarrow> CadicalResult \<Rightarrow> int \<times> string \<Rightarrow> CadicalResult \<times> error option" where
  "solve_answer c env cnf formula r answer =
    (case answer of (exit, stdout) \<Rightarrow>
     let sat = exactLine stdout ''s SATISFIABLE''; unsat = exactLine stdout ''s UNSATISFIABLE'';
         unknown = exactLine stdout ''s UNKNOWN'' in
     if exit = 10 \<and> sat \<and> \<not> unsat \<and> \<not> unknown then solve_sat env cnf stdout r
     else if exit = 20 \<and> unsat \<and> \<not> sat \<and> \<not> unknown then solve_unsat c env formula r
     else if exit = 0 \<and> unknown \<and> \<not> sat \<and> \<not> unsat then (r, ev_FinalErr env)
     else (r, Some (Error ErrProtocol [])))"

definition Solve :: "Runner \<Rightarrow> SolveEnv \<Rightarrow> string \<Rightarrow> CNF \<Rightarrow> CadicalResult \<times> error option" where
  "Solve rn env qid cnf =
    (let c = rn_config rn; r = initial_result c; limit = lm_MaxInputBytes (cf_Limits c) in
     returning r (checked (ev_CtxErr env)) (\<lambda>_.
     returning r (CheckCNF (cf_Limits c) cnf) (\<lambda>_.
     returning r (Query (ev_Mkdir env) qid) (\<lambda>_.
     Finish env (
       let input = marshal (cnf_json cnf) in
       if int (length input) > limit then (r, Some (Error ErrLimit []))
       else returning r (Save (ev_SaveInput env) input) (\<lambda>h.
       let r = r\<lparr>rs_InputSHA256 := h\<rparr> in
       returning r (WriteDIMACS cnf) (\<lambda>formula.
       if int (length formula) > limit then (r, Some (Error ErrLimit []))
       else returning r (Save (ev_SaveFormula env) formula) (\<lambda>h.
       let r = r\<lparr>rs_FormulaSHA256 := h\<rparr> in
       returning r (ev_Solver env) (\<lambda>answer. solve_answer c env cnf formula r answer)))))))))"

text \<open>\<open>Identity\<close> and \<open>ReadArtifact\<close> (\<open>artifacts.go\<close>); the opened file is a parameter: whether it is regular, its
  size and its content.\<close>

definition limits_json :: "Limits \<Rightarrow> json" where
  "limits_json l = JObj [(''Timeout'', JInt (lm_Timeout l)), (''MaxVariables'', JInt (lm_MaxVariables l)),
    (''MaxClauses'', JInt (lm_MaxClauses l)), (''MaxLiterals'', JInt (lm_MaxLiterals l)),
    (''MaxInputBytes'', JInt (lm_MaxInputBytes l)), (''MaxOutputBytes'', JInt (lm_MaxOutputBytes l))]"

definition Identity :: "Runner \<Rightarrow> string" where
  "Identity rn = sha256_hex (marshal (JObj [
    (''Solver'', JStr (cf_SolverSHA256 (rn_config rn))), (''Checker'', JStr (cf_CheckerSHA256 (rn_config rn))),
    (''Limits'', limits_json (cf_Limits (rn_config rn))), (''ProofLimit'', JInt (cf_MaxProofBytes (rn_config rn)))]))"

definition ReadArtifact :: "Runner \<Rightarrow> Artifact \<Rightarrow> (bool \<times> int \<times> string) result \<Rightarrow> error option \<Rightarrow> string result" where
  "ReadArtifact rn a opened readErr =
    (let c = rn_config rn;
         limit = max (cf_MaxProofBytes c) (max (lm_MaxInputBytes (cf_Limits c)) (lm_MaxOutputBytes (cf_Limits c))) in
     if af_Bytes a < 0 \<or> af_Bytes a > limit then Inl (Error ErrLimit [])
     else and_then opened (\<lambda>(regular, size, content).
       if \<not> regular \<or> size \<noteq> af_Bytes a then Inl (Error ErrValidation ''artifact size'')
       else and_then (checked readErr) (\<lambda>_.
         let b = take (nat (af_Bytes a + 1)) content in
         if int (length b) \<noteq> af_Bytes a \<or> sha256_hex b \<noteq> af_SHA256 a then Inl (Error ErrValidation ''artifact digest'')
         else Inr b)))"

section \<open>What a decoded assignment is\<close>

definition partial_assignment :: "int \<Rightarrow> (int, bool) gomap \<times> bool \<Rightarrow> bool" where
  "partial_assignment n st \<longleftrightarrow> gomap (fst st) \<and> keys (fst st) \<subseteq> {1..n}"

lemma assign_part_partial:
  "partial_assignment n st \<Longrightarrow> assign_part n st part = Inr st' \<Longrightarrow> partial_assignment n st'"
  by (cases st) (auto simp: assign_part_def partial_assignment_def Let_def subset_iff split: option.splits if_splits)

lemma assign_line_partial:
  assumes "partial_assignment n st" and "assign_line n st line = Inr st'"
  shows "partial_assignment n st'"
proof -
  have step: "partial_assignment n st'" if "fold_res (assign_part n) st parts = Inr st'" for parts
    using that assms(1) by (rule fold_res_invariant) (rule assign_part_partial)
  show ?thesis
  proof (cases "Fields (drop_cr line)")
    case Nil
    then show ?thesis using assms by (simp add: assign_line_def split: if_split_asm)
  next
    case (Cons p parts)
    then show ?thesis using assms step [of parts] by (cases "p = ''v''") (simp_all add: assign_line_def split: if_split_asm)
  qed
qed

lemma assignment_total:
  assumes "assignment raw n = Inr m"
  shows "gomap m \<and> keys m = {1..n}"
proof -
  obtain e where run: "fold_res (assign_line n) ([], False) (scan_lines [] raw) = Inr (m, e)"
    and len: "int (length m) = n"
    using assms by (auto simp: assignment_def returns split: prod.splits if_splits)
  from run have "partial_assignment n (m, e)"
    by (rule fold_res_invariant) (auto simp: partial_assignment_def [of n "([], False)"] intro: assign_line_partial)
  then have m: "gomap m" "keys m \<subseteq> {1..n}" by (simp_all add: partial_assignment_def)
  have "keys m = {1..n}"
  proof (rule card_subset_eq)
    show "card (keys m) = card {1..n}" using card_keys [OF m(1)] len by simp
  qed (simp_all add: m(2))
  with m show ?thesis by blast
qed

section \<open>A printed assignment is read back\<close>

text \<open>A line of the solver's answer: \<open>v\<close> and the literals, each after a space.\<close>

definition value_line :: "int list \<Rightarrow> string" where
  "value_line lits = ''v'' @ concat (map (\<lambda>l. '' '' @ int_str l) lits)"

lemma fields_single: "word_text w \<Longrightarrow> Fields w = [w]"
  using split_fields_solid [of w "[]" "[]"] by (simp add: Fields_def word_text_def)

lemma fields_line:
  "list_all word_text ws \<Longrightarrow> word_text w \<Longrightarrow> Fields (w @ concat (map (\<lambda>x. '' '' @ x) ws)) = w # ws"
proof (induction ws arbitrary: w)
  case (Cons x ws)
  then have "Fields (w @ CHR '' '' # (x @ concat (map (\<lambda>x. '' '' @ x) ws))) = w # x # ws"
    by (subst fields_word) (simp_all add: blank_def)
  then show ?case by simp
qed (simp add: fields_single)

lemma value_line_chars: "c \<in> set (value_line lits) \<Longrightarrow> c = CHR '' '' \<or> solid c"
  using word_int_str by (auto simp: value_line_def word_text_def list_all_iff solid_def split: if_splits)

lemma fields_value_line: "Fields (drop_cr (value_line lits)) = ''v'' # map int_str lits"
proof -
  have "value_line lits \<noteq> []" by (simp add: value_line_def)
  then have "last (value_line lits) \<noteq> CHR 0x0D"
    using value_line_chars [of "last (value_line lits)" lits] by (auto simp: solid_def)
  then have "drop_cr (value_line lits) = ''v'' @ concat (map (\<lambda>x. '' '' @ x) (map int_str lits))"
    by (simp add: drop_cr_def value_line_def comp_def)
  moreover have "list_all word_text (map int_str lits)" by (simp add: list_all_iff)
  moreover have "word_text ''v''" by (simp add: word_text_def solid_def)
  ultimately show ?thesis by (simp only: fields_line)
qed

lemma fold_value_lines:
  assumes "\<forall>lits\<in>set lss. length (value_line lits) < MaxLine"
  shows "fold_res (assign_line n) st (map value_line lss) = fold_res (assign_part n) st (map int_str (concat lss))"
  using assms
proof (induction lss arbitrary: st)
  case (Cons ls lss)
  have "assign_line n st (value_line ls) = fold_res (assign_part n) st (map int_str ls)"
    using Cons.prems by (simp add: assign_line_def fields_value_line)
  with Cons show ?case by (simp add: fold_res_append)
qed simp

lemma fold_literals:
  assumes "distinct (map fst m @ map abs lits)" and "\<forall>l\<in>set lits. 1 \<le> \<bar>l\<bar> \<and> \<bar>l\<bar> \<le> n" and "n \<le> MaxInt64"
  shows "fold_res (assign_part n) (m, False) (map int_str lits) = Inr (m @ map (\<lambda>l. (\<bar>l\<bar>, 0 < l)) lits, False)"
  using assms
proof (induction lits arbitrary: m)
  case (Cons l lits)
  have l: "1 \<le> \<bar>l\<bar>" "\<bar>l\<bar> \<le> n" "\<bar>l\<bar> \<le> MaxInt64" "\<bar>l\<bar> \<notin> set (map fst m)"
    using Cons.prems by auto
  have "(if l < 0 then wrap64 (- l) else l) = \<bar>l\<bar>"
    using l(3) by (simp add: wrap64_id)
  moreover have "map_of m \<bar>l\<bar> = None" using l(4) by (simp add: map_of_eq_None_iff)
  ultimately have "assign_part n (m, False) (int_str l) = Inr (m @ [(\<bar>l\<bar>, 0 < l)], False)"
    using l by (auto simp: assign_part_def atoi_int_str update_fresh Let_def)
  with Cons.IH [of "m @ [(\<bar>l\<bar>, 0 < l)]"] Cons.prems show ?case by simp
qed simp

text \<open>A total assignment printed by the solver is decoded to itself: whatever comment and status lines come
  first, however the literals are spread over the value lines, the decoded map gives to each variable the
  sign of its literal.\<close>

theorem assignment_roundtrip:
  assumes "concat lss = lits @ [0]" and "distinct (map abs lits)"
    and "\<forall>l\<in>set lits. 1 \<le> \<bar>l\<bar> \<and> \<bar>l\<bar> \<le> n" and "int (length lits) = n" and "n \<le> MaxInt64"
    and "\<forall>ls\<in>set lss. length (value_line ls) < MaxLine"
    and "\<forall>l\<in>set comments. CHR 0x0A \<notin> set l \<and> length l < MaxLine \<and> take 1 (Fields (drop_cr l)) \<noteq> [''v'']"
  shows "assignment (concat (map (\<lambda>l. l @ [newline]) (comments @ map value_line lss))) n =
    Inr (map (\<lambda>l. (\<bar>l\<bar>, 0 < l)) lits)"
proof -
  have skip: "fold_res (assign_line n) st comments = Inr st" for st
    using assms(7) by (induction comments) (auto simp: assign_line_def split: list.splits)
  have "atoi (int_str 0) = Some 0" by (rule atoi_int_str) (simp add: MaxInt64_def)
  then have "fold_res (assign_part n) ([], False) (map int_str (lits @ [0])) = Inr (map (\<lambda>l. (\<bar>l\<bar>, 0 < l)) lits, True)"
    using assms(2,3,5) fold_literals [of "[]" lits n]
    by (simp add: fold_res_append assign_part_def)
  then have "fold_res (assign_line n) ([], False) (comments @ map value_line lss) = Inr (map (\<lambda>l. (\<bar>l\<bar>, 0 < l)) lits, True)"
    using assms(1,6) by (simp only: fold_res_append skip and_then.simps fold_value_lines)
  moreover have "\<forall>l\<in>set (comments @ map value_line lss). CHR 0x0A \<notin> set l"
    using assms(7) value_line_chars by (fastforce simp: solid_def)
  then have "scan_lines [] (concat (map (\<lambda>l. l @ [newline]) (comments @ map value_line lss))) = comments @ map value_line lss"
    by (rule scan_lines_lines)
  ultimately show ?thesis using assms(4) by (simp add: assignment_def)
qed

theorem assignment_roundtrip_witness:
  "assignment (concat (map (\<lambda>l. l @ [newline]) ([''s SATISFIABLE''] @ map value_line [[1, - 2], [0]]))) 2 =
    Inr [(1, True), (2, False)]"
proof -
  have lines: "value_line [1, - 2] = ''v 1 -2''" "value_line [0] = ''v 0''" by code_simp+
  have status: "take 1 (Fields (drop_cr ''s SATISFIABLE'')) = [''s'']"
    using fields_line [of "[''SATISFIABLE'']" "''s''"] by (simp add: word_text_def solid_def drop_cr_def)
  have "assignment (concat (map (\<lambda>l. l @ [newline]) ([''s SATISFIABLE''] @ map value_line [[1, - 2], [0]]))) 2 =
    Inr (map (\<lambda>l. (\<bar>l\<bar>, 0 < l)) [1, - 2])"
  proof (rule assignment_roundtrip)
    show "\<forall>ls\<in>set [[1, - 2], [0]]. length (value_line ls) < MaxLine"
      by (simp only: list.set ball_simps lines) (simp add: MaxLine_def)
    show "\<forall>l\<in>set [''s SATISFIABLE'']. CHR 0x0A \<notin> set l \<and> length l < MaxLine \<and> take 1 (Fields (drop_cr l)) \<noteq> [''v'']"
      by (simp only: list.set ball_simps status) (simp add: MaxLine_def)
  qed (simp_all add: MaxInt64_def)
  then show ?thesis by simp
qed

section \<open>What an answer without an error means\<close>

text \<open>
  Documented behaviour of \<open>drat-trim\<close>: it prints \<open>s VERIFIED\<close> and exits with 0 only when the proof refutes the
  formula of the DIMACS text it was given.
\<close>

definition verified :: "int \<times> string \<Rightarrow> bool" where
  "verified answer \<longleftrightarrow> fst answer = 0 \<and> exactLine (snd answer) ''s VERIFIED'' \<and> \<not> exactLine (snd answer) ''s NOT VERIFIED''"

definition drat_sound :: "(string \<Rightarrow> string \<Rightarrow> (int \<times> string) result) \<Rightarrow> bool" where
  "drat_sound checker \<longleftrightarrow> (\<forall>formula proof answer n ks. checker formula proof = Inr answer \<longrightarrow> verified answer \<longrightarrow>
     read_dimacs formula = Some (n, ks) \<longrightarrow> (\<forall>v. \<not> clauses_hold v ks))"

text \<open>The lengths of Go slices are of type \<open>int\<close>.\<close>

definition fits :: "CNF \<Rightarrow> bool" where
  "fits c \<longleftrightarrow> width c \<le> MaxInt64 \<and> int (length (clauses c)) \<le> MaxInt64"

lemma refuted:
  assumes "WriteDIMACS c = Inr formula" and "fits c" and "drat_sound checker"
    and "checker formula proof = Inr answer" and "verified answer"
  shows "\<not> satisfiable c"
proof -
  have "read_dimacs formula = Some (width c, clauses c)"
    using assms(1,2) WriteDIMACS_text_read by (simp add: fits_def)
  with assms(3-5) show ?thesis unfolding drat_sound_def satisfiable_def models_def by blast
qed

text \<open>The records of a run that ended without an error.\<close>

definition model_checked :: "CNF \<Rightarrow> CadicalResult \<Rightarrow> bool" where
  "model_checked c r \<longleftrightarrow> rs_Status r = SAT \<and> keys (rs_Assignment r) = {1..width c} \<and>
    models (truth (rs_Assignment r)) c \<and> vd_Checked (rs_Model r) \<and> vd_Decoded (rs_Model r) \<and>
    vd_TargetSHA256 (rs_Model r) = rs_InputSHA256 r"

definition proof_checked :: "SolveEnv \<Rightarrow> string \<Rightarrow> CadicalResult \<Rightarrow> bool" where
  "proof_checked env formula r \<longleftrightarrow> rs_Status r = UNSAT \<and> vd_Checked (rs_Proof r) \<and> vd_Present (rs_Proof r) \<and>
    vd_TargetSHA256 (rs_Proof r) = rs_FormulaSHA256 r \<and>
    (\<exists>proof answer. ev_Proof env = Some proof \<and> ev_Checker env formula proof = Inr answer \<and> verified answer)"

lemma solve_sat_None:
  assumes "solve_sat env c stdout r = (r', None)"
  shows "model_checked c r' \<and> rs_InputSHA256 r' = rs_InputSHA256 r \<and> rs_FormulaSHA256 r' = rs_FormulaSHA256 r"
proof -
  obtain m where m: "assignment stdout (width c) = Inr m" and ok: "CheckAssignment c m = Inr ()"
    and r': "rs_Status r' = SAT" "rs_Assignment r' = m" "vd_Checked (rs_Model r')" "vd_Decoded (rs_Model r')"
      "vd_TargetSHA256 (rs_Model r') = rs_InputSHA256 r" "rs_InputSHA256 r' = rs_InputSHA256 r"
      "rs_FormulaSHA256 r' = rs_FormulaSHA256 r"
    using assms unfolding solve_sat_def Let_def returning_None wrap_Inr checked_Inr by fastforce
  have "gomap m" "keys m = {1..width c}" using assignment_total [OF m] by simp_all
  moreover have "models (truth m) c" using ok by (simp add: CheckAssignment_Inr)
  ultimately show ?thesis using r' by (simp add: model_checked_def)
qed

lemma solve_unsat_None:
  assumes "solve_unsat cf env formula r = (r', None)"
  shows "proof_checked env formula r' \<and> rs_InputSHA256 r' = rs_InputSHA256 r \<and> rs_FormulaSHA256 r' = rs_FormulaSHA256 r"
proof (cases "ev_Proof env")
  case None
  then show ?thesis using assms by (simp add: solve_unsat_def)
next
  case (Some pf)
  with assms obtain answer where a: "ev_Checker env formula pf = Inr answer" and v: "verified answer"
    and r': "rs_Status r' = UNSAT" "vd_Checked (rs_Proof r')" "vd_Present (rs_Proof r')"
      "vd_TargetSHA256 (rs_Proof r') = rs_FormulaSHA256 r" "rs_InputSHA256 r' = rs_InputSHA256 r"
      "rs_FormulaSHA256 r' = rs_FormulaSHA256 r"
    unfolding solve_unsat_def Let_def verified_def
    by (auto simp: returning_None split: if_split_asm)
  with Some show ?thesis unfolding proof_checked_def by metis
qed

lemma join_err_None [returns]: "join_err e f = None \<longleftrightarrow> e = None \<and> f = None"
  by (induction e f rule: join_err.induct) simp_all

lemma Finish_None [returns]:
  "Finish env out = (r, None) \<longleftrightarrow> (\<exists>r'. out = (r', None) \<and> ev_Outcome env = None \<and> snd (ev_Inventory env) = None \<and>
     r = r'\<lparr>rs_Artifacts := fst (ev_Inventory env)\<rparr>)"
  by (cases out) (auto simp: Finish_def returns)

definition answered :: "SolveEnv \<Rightarrow> CNF \<Rightarrow> string \<Rightarrow> CadicalResult \<Rightarrow> bool" where
  "answered env c formula r \<longleftrightarrow> model_checked c r \<or> proof_checked env formula r \<or> rs_Status r = Unknown"

lemma solve_answer_None:
  assumes "solve_answer cf env c formula r answer = (r', None)" and "rs_Status r = Unknown"
  shows "answered env c formula r' \<and> rs_InputSHA256 r' = rs_InputSHA256 r \<and> rs_FormulaSHA256 r' = rs_FormulaSHA256 r"
proof (cases answer)
  case (Pair exit stdout)
  with assms show ?thesis
    unfolding solve_answer_def Let_def answered_def
    using solve_sat_None [of env c stdout r r'] solve_unsat_None [of cf env formula r r']
    by (auto split: if_split_asm)
qed

lemma answered_artifacts [simp]: "answered env c formula (r\<lparr>rs_Artifacts := a\<rparr>) = answered env c formula r"
  by (simp add: answered_def model_checked_def proof_checked_def)

lemma Solve_None:
  assumes "Solve rn env qid c = (r, None)"
  obtains formula where "WriteDIMACS c = Inr formula" and "answered env c formula r"
    and "rs_InputSHA256 r = sha256_hex (marshal (cnf_json c))" and "rs_FormulaSHA256 r = sha256_hex formula"
proof -
  let ?r0 = "(initial_result (rn_config rn))\<lparr>rs_InputSHA256 := sha256_hex (marshal (cnf_json c))\<rparr>"
  from assms obtain formula answer r' where f: "WriteDIMACS c = Inr formula"
    and run: "solve_answer (rn_config rn) env c formula (?r0\<lparr>rs_FormulaSHA256 := sha256_hex formula\<rparr>) answer = (r', None)"
    and r: "r = r'\<lparr>rs_Artifacts := fst (ev_Inventory env)\<rparr>"
    unfolding Solve_def Let_def Save_def
    by (auto simp: returns split: if_split_asm)
  have "rs_Status (?r0\<lparr>rs_FormulaSHA256 := sha256_hex formula\<rparr>) = Unknown" by (simp add: initial_result_def)
  from solve_answer_None [OF run this] f r that show ?thesis by simp
qed

text \<open>The requirements under which the consistency check accepts an answer.\<close>

definition strict :: Requirements where
  "strict = \<lparr>rq_SATModelChecked = True, rq_UNSATProofChecked = True\<rparr>"

lemma Require_strict:
  assumes "Require r strict = Inr ()"
  shows "rs_Status r = SAT \<or> rs_Status r = UNSAT"
  using assms by (simp add: Require_def split: if_split_asm)

lemma Solve_answer:
  assumes "Solve rn env qid c = (r, None)" and "fits c" and "drat_sound (ev_Checker env)"
  shows "(rs_Status r = SAT \<longrightarrow> models (truth (rs_Assignment r)) c) \<and> (rs_Status r = UNSAT \<longrightarrow> \<not> satisfiable c)"
proof -
  from assms(1) obtain formula where f: "WriteDIMACS c = Inr formula" and a: "answered env c formula r"
    by (rule Solve_None)
  show ?thesis
    using a refuted [OF f assms(2,3)] by (auto simp: answered_def model_checked_def proof_checked_def)
qed

text \<open>C13. The answer of a \<open>Solve\<close> that returns no error and meets the strict requirements is right, although the
  solver is not trusted: SAT means that the returned assignment satisfies the formula, and, if the proof
  checker keeps its promise, UNSAT means that nothing does.\<close>

theorem Solve_decides:
  assumes "Solve rn env qid c = (r, None)" and "Require r strict = Inr ()"
    and "fits c" and "drat_sound (ev_Checker env)"
  shows "(satisfiable c \<longleftrightarrow> rs_Status r = SAT) \<and>
    (rs_Status r = SAT \<longrightarrow> models (truth (rs_Assignment r)) c \<and> keys (rs_Assignment r) = {1..width c})"
proof -
  from assms(1) obtain formula where a: "answered env c formula r" by (rule Solve_None)
  then have "rs_Status r = SAT \<Longrightarrow> keys (rs_Assignment r) = {1..width c}"
    by (auto simp: answered_def model_checked_def proof_checked_def)
  then show ?thesis
    using Solve_answer [OF assms(1,3,4)] Require_strict [OF assms(2)] by (auto simp: satisfiable_def)
qed

text \<open>A formula with an empty clause, and a checker that refutes only such formulas.\<close>

definition empty_clause_checker :: "string \<Rightarrow> string \<Rightarrow> (int \<times> string) result" where
  "empty_clause_checker formula pf =
    (case read_dimacs formula of
       Some (n, ks) \<Rightarrow> Inr (if [] \<in> set ks then (0, ''s VERIFIED'') else (1, ''s NOT VERIFIED''))
     | None \<Rightarrow> Inr (1, []))"

lemma empty_clause_checker_sound: "drat_sound empty_clause_checker"
  by (force simp: drat_sound_def empty_clause_checker_def verified_def clauses_hold_def split: option.splits if_splits)

definition sample_env :: "int \<Rightarrow> string \<Rightarrow> SolveEnv" where
  "sample_env exit out = \<lparr>ev_CtxErr = None, ev_Mkdir = None, ev_SaveInput = None, ev_SaveFormula = None,
    ev_Solver = Inr (exit, out), ev_WriteAssignment = None, ev_Proof = Some ''0'', ev_Checker = empty_clause_checker,
    ev_FinalErr = None, ev_Outcome = None, ev_Inventory = ([], None)\<rparr>"

definition sample_limits :: Limits where
  "sample_limits = \<lparr>lm_Timeout = 1, lm_MaxVariables = 10, lm_MaxClauses = 10, lm_MaxLiterals = 10, lm_MaxInputBytes = 1000, lm_MaxOutputBytes = 1000\<rparr>"

definition sample_runner :: Runner where
  "sample_runner = \<lparr>rn_root = ''root'', rn_config = \<lparr>cf_SolverPath = [], cf_SolverSHA256 = [], cf_CheckerPath = [], cf_CheckerSHA256 = [],
    cf_ArtifactDir = [], cf_Limits = sample_limits, cf_MaxProofBytes = 10\<rparr>\<rparr>"

definition false_cnf :: CNF where
  "false_cnf = \<lparr>cn_Variables = None, cn_Clauses = Some [Some []], cn_Origins = Some [Some [''rule:r'']]\<rparr>"

lemma false_cnf_text: "WriteDIMACS false_cnf = Inr (''p cnf 0 1'' @ [newline] @ ''0'' @ [newline])"
  by code_simp

lemma false_cnf_answer:
  "safeID q \<Longrightarrow> \<exists>r. Solve sample_runner (sample_env 20 ''s UNSATISFIABLE'') q false_cnf = (r, None) \<and> Require r strict = Inr () \<and> rs_Status r = UNSAT"
proof -
  assume "safeID q"
  then have q: "Query None q = Inr ()" by (simp add: Query_def)
  have len: "length (marshal (cnf_json false_cnf)) \<le> 1000" by code_simp
  have "read_dimacs (''p cnf 0 1'' @ [newline] @ ''0'' @ [newline]) = Some (0, [[]])"
    using WriteDIMACS_text_read [OF false_cnf_text] by (simp add: false_cnf_def MaxInt64_def)
  then have checker: "empty_clause_checker (''p cnf 0 1'' @ [newline] @ ''0'' @ [newline]) ''0'' = Inr (0, ''s VERIFIED'')"
    by (simp add: empty_clause_checker_def)
  have lines: "exactLine ''s UNSATISFIABLE'' ''s UNSATISFIABLE''" "\<not> exactLine ''s UNSATISFIABLE'' ''s SATISFIABLE''"
    "\<not> exactLine ''s UNSATISFIABLE'' ''s UNKNOWN''" "exactLine ''s VERIFIED'' ''s VERIFIED''" "\<not> exactLine ''s VERIFIED'' ''s NOT VERIFIED''"
    by code_simp+
  have limits: "CheckCNF sample_limits false_cnf = Inr ()" by code_simp
  have ne: "sha256_hex x \<noteq> []" for x by (metis length_sha256_hex length_0_conv zero_neq_numeral)
  show ?thesis
    using len checker lines limits q
    by (simp add: Solve_def sample_runner_def sample_env_def sample_limits_def Let_def Save_def false_cnf_text solve_answer_def
        solve_unsat_def Finish_def Require_def strict_def initial_result_def no_validation_def ne)
qed

theorem Solve_decides_witness: "\<not> satisfiable false_cnf"
proof -
  obtain r where "Solve sample_runner (sample_env 20 ''s UNSATISFIABLE'') ''q'' false_cnf = (r, None)"
    and "Require r strict = Inr ()" and u: "rs_Status r = UNSAT"
    using false_cnf_answer [of "''q''"] by (auto simp: safeID_def alnum_def)
  from Solve_decides [OF this(1,2)] u show ?thesis
    by (simp add: fits_def false_cnf_def MaxInt64_def sample_env_def empty_clause_checker_sound)
qed

end
