(* ===== verification/Consistency.thy ===== *)
theory Consistency
  imports Cadical EvidenceGraph JointClosure
begin

text \<open>
  \<open>src/internal/evidenceingestion/consistency_check.go\<close>: supplied conditions of rules and of evidence are
  compiled to CNF over one table of atoms, and the solver decides whether they contradict each other.
  The view of the store is read by the caller's function.
\<close>

section \<open>Conditions\<close>

record ConsistencyAtom =
  at_Subject :: string
  at_Property :: string
  at_Context :: string

record ConsistencyLiteral =
  li_Atom :: ConsistencyAtom
  li_Negated :: bool

record ConsistencyCondition =
  cond_ID :: string
  cond_Clauses :: "ConsistencyLiteral list list"

record ConsistencyScope =
  scp_Policy :: string
  scp_Namespace :: string
  scp_ScopeRef :: string
  scp_MaxNodes :: int
  scp_MaxEdges :: int

record ConsistencyRequest =
  cr_Scope :: ConsistencyScope
  cr_ExpectedViewID :: string
  cr_RuleVersion :: string
  cr_Rules :: "ConsistencyCondition list"
  cr_Evidence :: "ConsistencyCondition list"

record ConsistencySelection =
  sl_NodeID :: string
  sl_State :: string
  sl_Reason :: string
  sl_LineageKey :: string
  sl_Parents :: "string slice"

record ConsistencyLineage =
  ln_Projection :: "CurrentnessProjection option"
  ln_JointProjection :: "JointCurrentnessProjection option"

record PropositionKey =
  pk_Namespace :: string
  pk_LocalID :: string
  pk_ScopeRef :: string
  pk_Revision :: string

record ConsistencyMember =
  cm_NodeID :: string
  cm_Key :: PropositionKey
  cm_Definition :: string
  cm_HeadRevision :: int
  cm_HeadRef :: string

record ConsistencyView =
  vw_Profile :: string
  vw_Scope :: ConsistencyScope
  vw_Members :: "ConsistencyMember list"
  vw_Artifact :: CanonicalArtifact
  vw_ID :: string
  vw_Snapshot :: string
  vw_Selection :: "ConsistencySelection list"
  vw_Currentness :: "ConsistencyLineage list"

abbreviation "ConsistencyProfile \<equiv> ''bound-declarations/cnf-v0''"
abbreviation "ConsistencyFrontierPolicy \<equiv> ''classified-frontier/cnf-v1''"

abbreviation "ConsistencyInconclusive \<equiv> ''inconclusive''"
abbreviation "ConsistencyCompatible \<equiv> ''compatible_declarations''"
abbreviation "ConsistencyConflict \<equiv> ''conflicting_declarations''"
abbreviation "ConsistencyInvalidRules \<equiv> ''inconsistent_rules''"

definition consistencyText :: "string \<Rightarrow> bool" where
  "consistencyText s \<longleftrightarrow> trim_space s \<noteq> [] \<and> length s \<le> 512 \<and> utf8_valid s \<and> CHR 0x00 \<notin> set s"

definition ConsistencyScope_normalized :: "ConsistencyScope \<Rightarrow> ConsistencyScope result" where
  "ConsistencyScope_normalized s =
    (let s = (if scp_Policy s = ConsistencyProfile then s\<lparr>scp_Policy := []\<rparr> else s) in
     if scp_Policy s \<noteq> [] \<and> scp_Policy s \<noteq> ConsistencyFrontierPolicy
       then Inl (Error ErrInput ''consistency selection policy'')
     else if \<not> consistencyText (scp_Namespace s) \<or> \<not> consistencyText (scp_ScopeRef s)
       then Inl (Error ErrInput ''namespace and scope_ref required'')
     else
       let s = (if scp_MaxNodes s = 0 then s\<lparr>scp_MaxNodes := 256\<rparr> else s);
           s = (if scp_MaxEdges s = 0 then s\<lparr>scp_MaxEdges := 4096\<rparr> else s) in
       if scp_MaxNodes s < 1 \<or> scp_MaxNodes s > 256 \<or> scp_MaxEdges s < 1 \<or> scp_MaxEdges s > 4096
         then Inl (Error ErrInput ''scope bounds'')
       else Inr s)"

text \<open>
  \<open>consistencySelectedView\<close> (\<open>consistency_policy.go\<close>).  The map \<open>included\<close> is assigned in the order of the
  selection, so the last entry of a node counts.
\<close>

definition included_map :: "ConsistencySelection list \<Rightarrow> string \<Rightarrow> bool" where
  "included_map ss = foldl (\<lambda>m s. m(sl_NodeID s := (sl_State s = ''included''))) (\<lambda>_. False) ss"

definition consistencySelectedView :: "ConsistencyView \<Rightarrow> ConsistencyView \<times> bool" where
  "consistencySelectedView view =
    (if vw_Profile view = ConsistencyProfile then (view, True)
     else
       let included = included_map (vw_Selection view);
           complete = \<not> list_ex (\<lambda>s. sl_State s = ''blocked'') (vw_Selection view) in
       (view\<lparr>vw_Members := filter (\<lambda>m. included (cm_NodeID m)) (vw_Members view)\<rparr>, complete))"

section \<open>Compilation to CNF\<close>

text \<open>\<open>members[c.ID]\<close>, then \<open>delete(members, c.ID)\<close>.\<close>

definition take_member :: "string set \<Rightarrow> ConsistencyCondition \<Rightarrow> string set result" where
  "take_member members c =
    (if cond_ID c \<notin> members then Inl (Error ErrInput ''unknown or duplicate evidence'') else Inr (members - {cond_ID c}))"

text \<open>The counters and the map of atoms that the validation loops assign.\<close>

record tally =
  ty_clauses :: int
  ty_literals :: int
  ty_text :: int
  ty_atoms :: "(ConsistencyAtom, int) gomap"

definition tally_literal :: "tally \<Rightarrow> ConsistencyLiteral \<Rightarrow> tally result" where
  "tally_literal t lit =
    (let a = li_Atom lit;
         t = t\<lparr>ty_text := ty_text t + int (length (at_Subject a) + length (at_Property a) + length (at_Context a))\<rparr> in
     if ty_text t > 16 * 2 ^ 20 then Inl (Error ErrLimit [])
     else if \<not> consistencyText (at_Subject a) \<or> \<not> consistencyText (at_Property a) \<or> \<not> consistencyText (at_Context a)
       then Inl (Error ErrInput ''complete atom identity required'')
     else
       let t = t\<lparr>ty_atoms := AList.update a 0 (ty_atoms t)\<rparr> in
       if length (ty_atoms t) > 100000 then Inl (Error ErrLimit []) else Inr t)"

definition tally_clause :: "tally \<Rightarrow> ConsistencyLiteral list \<Rightarrow> tally result" where
  "tally_clause t clause =
    (let t = t\<lparr>ty_literals := ty_literals t + int (length clause)\<rparr> in
     if ty_literals t > 1000000 then Inl (Error ErrLimit []) else fold_res tally_literal t clause)"

definition tally_condition :: "tally \<times> string set \<Rightarrow> ConsistencyCondition \<Rightarrow> (tally \<times> string set) result" where
  "tally_condition st c =
    (case st of (t, seen) \<Rightarrow>
     let t = t\<lparr>ty_text := ty_text t + int (length (cond_ID c))\<rparr> in
     if \<not> consistencyText (cond_ID c) \<or> cond_ID c \<in> seen \<or> length (cond_Clauses c) = 0
       then Inl (Error ErrInput ''missing/duplicate condition or no clauses'')
     else
       let seen = insert (cond_ID c) seen; t = t\<lparr>ty_clauses := ty_clauses t + int (length (cond_Clauses c))\<rparr> in
       if ty_clauses t > 100000 then Inl (Error ErrLimit [])
       else and_then (fold_res tally_clause t (cond_Clauses c)) (\<lambda>t. Inr (t, seen)))"

definition tally_group :: "tally \<Rightarrow> ConsistencyCondition list \<Rightarrow> tally result" where
  "tally_group t conds = and_then (fold_res tally_condition (t, {}) conds) (\<lambda>(t, seen). Inr t)"

text \<open>The order of the atoms, and the table that numbers them.\<close>

definition atom_key :: "ConsistencyAtom \<Rightarrow> string \<times> string \<times> string" where
  "atom_key a = (at_Subject a, at_Property a, at_Context a)"

definition atom_variable :: "int \<Rightarrow> ConsistencyAtom \<Rightarrow> Variable" where
  "atom_variable i a = \<lparr>va_ID = i, va_Metadata =
    [(''subject'', at_Subject a), (''property'', at_Property a), (''context'', at_Context a)]\<rparr>"

definition number_atoms :: "(ConsistencyAtom, int) gomap \<Rightarrow> (ConsistencyAtom, int) gomap \<times> Variable list" where
  "number_atoms atoms =
    (let ks = sort_key atom_key (map fst atoms) in
     foldl (\<lambda>(m, vs) (i, a). (AList.update a (int i + 1) m, vs @ [atom_variable (int i + 1) a])) (atoms, []) (enumerate 0 ks))"

definition encode_literal :: "(ConsistencyAtom, int) gomap \<Rightarrow> ConsistencyLiteral \<Rightarrow> int" where
  "encode_literal atoms lit = (let v = get atoms (li_Atom lit) in if li_Negated lit then - v else v)"

text \<open>The loop of \<open>add\<close> over the sorted conditions: the clauses and the origins that it appends.\<close>

definition encode_clauses :: "(ConsistencyAtom, int) gomap \<Rightarrow> ConsistencyCondition \<Rightarrow> int list list" where
  "encode_clauses atoms c = map (\<lambda>clause. sort (map (encode_literal atoms) clause)) (cond_Clauses c)"

definition add_conditions :: "(ConsistencyAtom, int) gomap \<Rightarrow> CNF \<Rightarrow> ConsistencyCondition list \<Rightarrow> string \<Rightarrow> CNF" where
  "add_conditions atoms cnf conds prefix =
    (let conds = sort_key cond_ID conds in
     cnf\<lparr>cn_Clauses := nil_append (elems (cn_Clauses cnf) @ map Some (concat (map (encode_clauses atoms) conds))),
       cn_Origins := nil_append (elems (cn_Origins cnf) @
         concat (map (\<lambda>c. map (\<lambda>_. Some [prefix @ cond_ID c]) (cond_Clauses c)) conds))\<rparr>)"

definition compileConsistency :: "ConsistencyView \<Rightarrow> ConsistencyRequest \<Rightarrow> (CNF \<times> CNF) result" where
  "compileConsistency view r =
    (if length (cr_Evidence r) \<noteq> length (vw_Members view) \<or> length (cr_Rules r) > 4096
       then Inl (Error ErrInput ''exact evidence coverage or rule count'')
     else and_then (fold_res take_member (cm_NodeID ` set (vw_Members view)) (cr_Evidence r)) (\<lambda>_.
       and_then (tally_group \<lparr>ty_clauses = 0, ty_literals = 0, ty_text = 0, ty_atoms = []\<rparr> (cr_Rules r)) (\<lambda>t.
       and_then (tally_group t (cr_Evidence r)) (\<lambda>t.
         let (atoms, vs) = number_atoms (ty_atoms t);
             base = \<lparr>cn_Variables = nil_append vs, cn_Clauses = None, cn_Origins = None\<rparr>;
             rules = add_conditions atoms base (cr_Rules r) ''rule:'';
             all = add_conditions atoms rules (cr_Evidence r) ''node:''
         in Inr (rules, all)))))"

section \<open>The check\<close>

record ConsistencyResult =
  cs_Outcome :: string
  cs_Reason :: string
  cs_View :: ConsistencyView
  cs_InputID :: string
  cs_RuleVersion :: string
  cs_Rules :: CadicalResult
  cs_Declarations :: CadicalResult

definition zero_result :: CadicalResult where
  "zero_result = \<lparr>rs_Status = [], rs_Profile = [], rs_InputSHA256 = [], rs_FormulaSHA256 = [],
    rs_SolverSHA256 = [], rs_CheckerSHA256 = [], rs_Model = no_validation, rs_Proof = no_validation,
    rs_Artifacts = [], rs_Assignment = []\<rparr>"

definition zero_view :: ConsistencyView where
  "zero_view = \<lparr>vw_Profile = [], vw_Scope = \<lparr>scp_Policy = [], scp_Namespace = [], scp_ScopeRef = [], scp_MaxNodes = 0, scp_MaxEdges = 0\<rparr>,
    vw_Members = [], vw_Artifact = \<lparr>ar_SchemaVersion = [], ar_SnapshotID = [], ar_Nodes = [], ar_Edges = [], ar_Payloads = [],
      ar_Provenance = [], ar_Temporal = [], ar_Integrity = [], ar_Derivations = []\<rparr>,
    vw_ID = [], vw_Snapshot = [], vw_Selection = [], vw_Currentness = []\<rparr>"

text \<open>The preimage of \<open>InputID\<close>.\<close>

definition input_json :: "ConsistencyView \<Rightarrow> string \<Rightarrow> CNF \<Rightarrow> CNF \<Rightarrow> json" where
  "input_json view version rules declarations = JObj [
    (''Profile'', JStr (vw_Profile view)), (''ViewID'', JStr (vw_ID view)), (''Version'', JStr version),
    (''Rules'', cnf_json rules), (''Declarations'', cnf_json declarations)]"

text \<open>
  One call of the runner, accepted under the strict requirements; \<open>envs\<close> says what the tools answer to the
  call of \<open>Solve\<close> with a query ID, and \<open>store\<close> keeps the answer before the error is looked at.
\<close>

definition solve_strict ::
  "Runner \<Rightarrow> (string \<Rightarrow> SolveEnv) \<Rightarrow> string \<Rightarrow> CNF \<Rightarrow> (CadicalResult \<Rightarrow> ConsistencyResult) \<Rightarrow>
   (CadicalResult \<Rightarrow> ConsistencyResult \<times> error option) \<Rightarrow> ConsistencyResult \<times> error option"
where
  "solve_strict rn envs qid cnf store f =
    (let (answer, err) = Solve rn (envs qid) qid cnf in
     returning (store answer) (checked err) (\<lambda>_. returning (store answer) (Require answer strict) (\<lambda>_. f answer)))"

text \<open>The two calls: the rules alone, then the rules with the declarations.\<close>

definition check_formulas ::
  "Runner \<Rightarrow> (string \<Rightarrow> SolveEnv) \<Rightarrow> string \<Rightarrow> CNF \<Rightarrow> CNF \<Rightarrow> ConsistencyResult \<Rightarrow> ConsistencyResult \<times> error option"
where
  "check_formulas rn envs queryID rules declarations out =
    (let out = out\<lparr>cs_Reason := ''resolver_failed''\<rparr> in
     solve_strict rn envs (queryID @ ''-rules'') rules (\<lambda>a. out\<lparr>cs_Rules := a\<rparr>) (\<lambda>a.
     let out = out\<lparr>cs_Rules := a\<rparr> in
     if rs_Status a = UNSAT then (out\<lparr>cs_Outcome := ConsistencyInvalidRules, cs_Reason := []\<rparr>, None)
     else solve_strict rn envs (queryID @ ''-declarations'') declarations (\<lambda>d. out\<lparr>cs_Declarations := d\<rparr>) (\<lambda>d.
       let out = out\<lparr>cs_Declarations := d, cs_Outcome := ConsistencyCompatible, cs_Reason := []\<rparr> in
       if rs_Status d = UNSAT then (out\<lparr>cs_Outcome := ConsistencyConflict\<rparr>, None) else (out, None))))"

definition initial_check :: ConsistencyResult where
  "initial_check = \<lparr>cs_Outcome = ConsistencyInconclusive, cs_Reason = ''read_failed'', cs_View = zero_view, cs_InputID = [],
     cs_RuleVersion = [], cs_Rules = zero_result, cs_Declarations = zero_result\<rparr>"

text \<open>\<open>read\<close> is the caller's function; the runner is nil or given.\<close>

definition checkConsistency ::
  "Runner option \<Rightarrow> (string \<Rightarrow> SolveEnv) \<Rightarrow> string \<Rightarrow> ConsistencyRequest \<Rightarrow> (ConsistencyScope \<Rightarrow> ConsistencyView result) \<Rightarrow>
   ConsistencyResult \<times> error option"
where
  "checkConsistency runner envs queryID r read =
     returning initial_check (read (cr_Scope r)) (\<lambda>view.
     let out = initial_check\<lparr>cs_View := view, cs_RuleVersion := cr_RuleVersion r, cs_Reason := ''invalid_input''\<rparr> in
     if cr_ExpectedViewID r = [] \<or> \<not> consistencyText (cr_RuleVersion r) \<or> runner = None \<or> \<not> consistencyText queryID
       then (out, Some (Error ErrInput ''expected view, rule version, runner and query ID required''))
     else if vw_ID view \<noteq> cr_ExpectedViewID r then (out\<lparr>cs_Reason := ''stale_view''\<rparr>, None)
     else
       let (selected, complete) = consistencySelectedView view in
       if \<not> complete then (out\<lparr>cs_Reason := ''unknown_currentness''\<rparr>, None)
       else if length (vw_Members selected) = 0 then (out\<lparr>cs_Reason := ''empty_scope''\<rparr>, None)
       else returning out (compileConsistency selected r) (\<lambda>(rules, declarations).
         check_formulas (the runner) envs queryID rules declarations
           (out\<lparr>cs_InputID := sha256_hex (marshal (input_json view (cr_RuleVersion r) rules declarations))\<rparr>)))"

section \<open>Localising a conflict\<close>

text \<open>\<open>consistency_localization.go\<close>.  A step keeps the error itself; the code keeps its text.\<close>

record ConsistencyConflictStep =
  st_Removed :: string
  st_Result :: CadicalResult
  st_Error :: "error option"

record ConsistencyLocalization =
  lz_Conditions :: "string list"
  lz_Minimal :: bool
  lz_Reason :: string
  lz_Witness :: CadicalResult
  lz_Steps :: "ConsistencyConflictStep list"

record ConsistencyDiagnosis =
  dg_Result :: ConsistencyResult
  dg_Localization :: ConsistencyLocalization

text \<open>
  The trial formula: the clauses with an origin, other than the removed group, that is still in the set.
  A compiled formula has as many origins as clauses.
\<close>

definition trial :: "CNF \<Rightarrow> string set \<Rightarrow> string \<Rightarrow> CNF" where
  "trial cnf groups grp =
    (let kept = filter (\<lambda>(clause, os). \<exists>o'\<in>set (elems os). o' \<noteq> grp \<and> o' \<in> groups)
           (zip (elems (cn_Clauses cnf)) (elems (cn_Origins cnf)))
     in \<lparr>cn_Variables = cn_Variables cnf, cn_Clauses = nil_append (map fst kept), cn_Origins = nil_append (map snd kept)\<rparr>)"

text \<open>\<open>ctxErr i\<close> is the result of \<open>ctx.Err\<close> in the iteration \<open>i\<close>.\<close>

fun localize_loop ::
  "CNF \<Rightarrow> int \<Rightarrow> (nat \<Rightarrow> error option) \<Rightarrow> (nat \<Rightarrow> CNF \<Rightarrow> CadicalResult \<times> error option) \<Rightarrow> nat \<Rightarrow> string list \<Rightarrow>
   string set \<times> ConsistencyLocalization \<Rightarrow> string set \<times> ConsistencyLocalization"
where
  "localize_loop cnf maxCalls ctxErr solve i [] (groups, out) = (groups, out\<lparr>lz_Minimal := True\<rparr>)"
| "localize_loop cnf maxCalls ctxErr solve i (grp # rest) (groups, out) =
    (if ctxErr i \<noteq> None then (groups, out\<lparr>lz_Reason := ''cancelled''\<rparr>)
     else if int i \<ge> maxCalls then (groups, out\<lparr>lz_Reason := ''budget_exhausted''\<rparr>)
     else
       let (answer, err) = solve i (trial cnf groups grp);
           err = (if err = None then (case Require answer strict of Inl e \<Rightarrow> Some e | Inr _ \<Rightarrow> None) else err);
           out = out\<lparr>lz_Steps := lz_Steps out @ [\<lparr>st_Removed = grp, st_Result = answer, st_Error = err\<rparr>]\<rparr> in
       if err \<noteq> None then (groups, out\<lparr>lz_Reason := ''resolver_failed''\<rparr>)
       else if rs_Status answer = UNSAT
         then localize_loop cnf maxCalls ctxErr solve (i + 1) rest (groups - {grp}, out\<lparr>lz_Witness := answer\<rparr>)
       else localize_loop cnf maxCalls ctxErr solve (i + 1) rest (groups, out))"

definition localizeConsistency ::
  "CNF \<Rightarrow> CadicalResult \<Rightarrow> int \<Rightarrow> (nat \<Rightarrow> error option) \<Rightarrow> (nat \<Rightarrow> CNF \<Rightarrow> CadicalResult \<times> error option) \<Rightarrow> ConsistencyLocalization"
where
  "localizeConsistency cnf witness maxCalls ctxErr solve =
    (let groups = set (concat (origins cnf));
         order = sort (remdups (concat (origins cnf)));
         out = \<lparr>lz_Conditions = [], lz_Minimal = False, lz_Reason = ''complete'', lz_Witness = witness, lz_Steps = []\<rparr>;
         (groups, out) = localize_loop cnf maxCalls ctxErr solve 0 order (groups, out)
     in out\<lparr>lz_Conditions := filter (\<lambda>g. g \<in> groups) order\<rparr>)"

text \<open>\<open>fmt.Sprintf("%s-core-%d", queryID, i)\<close>\<close>

definition core_query :: "string \<Rightarrow> nat \<Rightarrow> string" where
  "core_query queryID i = queryID @ ''-core-'' @ int_str (int i)"

definition zero_localization :: ConsistencyLocalization where
  "zero_localization = \<lparr>lz_Conditions = [], lz_Minimal = False, lz_Reason = [], lz_Witness = zero_result, lz_Steps = []\<rparr>"

definition zero_check :: ConsistencyResult where
  "zero_check = \<lparr>cs_Outcome = [], cs_Reason = [], cs_View = zero_view, cs_InputID = [], cs_RuleVersion = [],
    cs_Rules = zero_result, cs_Declarations = zero_result\<rparr>"

text \<open>
  What follows the check, for a budget within its bounds.  A conflict was found with a runner, so the
  runner is not nil when the conflict is localised.
\<close>

definition diagnose_checked ::
  "Runner option \<Rightarrow> (string \<Rightarrow> SolveEnv) \<Rightarrow> (nat \<Rightarrow> error option) \<Rightarrow> string \<Rightarrow> ConsistencyRequest \<Rightarrow> int \<Rightarrow>
   ConsistencyResult \<Rightarrow> error option \<Rightarrow> ConsistencyDiagnosis \<times> error option"
where
  "diagnose_checked runner envs ctxErr queryID r maxCalls res err =
    (let out = \<lparr>dg_Result = res, dg_Localization = zero_localization\<lparr>lz_Reason := ''not_applicable''\<rparr>\<rparr> in
     if err \<noteq> None \<or> cs_Outcome res \<noteq> ConsistencyConflict \<and> cs_Outcome res \<noteq> ConsistencyInvalidRules then (out, err)
     else returning out (compileConsistency (fst (consistencySelectedView (cs_View res))) r) (\<lambda>(rules, all).
       let (cnf, witness) = (if cs_Outcome res = ConsistencyInvalidRules then (rules, cs_Rules res) else (all, cs_Declarations res))
       in (out\<lparr>dg_Localization := localizeConsistency cnf witness maxCalls ctxErr
             (\<lambda>i trial_cnf. Solve (the runner) (envs (core_query queryID i)) (core_query queryID i) trial_cnf)\<rparr>, None)))"

definition diagnoseConsistency ::
  "Runner option \<Rightarrow> (string \<Rightarrow> SolveEnv) \<Rightarrow> (nat \<Rightarrow> error option) \<Rightarrow> string \<Rightarrow> ConsistencyRequest \<Rightarrow> int \<Rightarrow>
   (ConsistencyScope \<Rightarrow> ConsistencyView result) \<Rightarrow> ConsistencyDiagnosis \<times> error option"
where
  "diagnoseConsistency runner envs ctxErr queryID r maxCalls read =
    (let maxCalls = (if maxCalls = 0 then 64 else maxCalls) in
     if maxCalls < 1 \<or> maxCalls > 64
       then (\<lparr>dg_Result = zero_check, dg_Localization = zero_localization\<rparr>, Some (Error ErrInput ''localization budget''))
     else
       let (res, err) = checkConsistency runner envs queryID r read
       in diagnose_checked runner envs ctxErr queryID r maxCalls res err)"

end
