(* ===== verification/ConsistencyCompile.thy ===== *)
theory ConsistencyCompile
  imports Consistency
begin

text \<open>
  What the supplied conditions mean, and that \<open>compileConsistency\<close> keeps it: the two formulas are
  satisfiable exactly when a truth assignment of the atoms makes the conditions hold.
\<close>

section \<open>Meaning of conditions\<close>

definition literal_holds :: "(ConsistencyAtom \<Rightarrow> bool) \<Rightarrow> ConsistencyLiteral \<Rightarrow> bool" where
  "literal_holds \<alpha> l \<longleftrightarrow> \<alpha> (li_Atom l) \<noteq> li_Negated l"

definition condition_holds :: "(ConsistencyAtom \<Rightarrow> bool) \<Rightarrow> ConsistencyCondition \<Rightarrow> bool" where
  "condition_holds \<alpha> c \<longleftrightarrow> (\<forall>clause\<in>set (cond_Clauses c). \<exists>l\<in>set clause. literal_holds \<alpha> l)"

definition consistent :: "ConsistencyCondition list \<Rightarrow> bool" where
  "consistent cs \<longleftrightarrow> (\<exists>\<alpha>. \<forall>c\<in>set cs. condition_holds \<alpha> c)"

definition condition_atoms :: "ConsistencyCondition list \<Rightarrow> ConsistencyAtom set" where
  "condition_atoms cs = (\<Union>c\<in>set cs. \<Union>clause\<in>set (cond_Clauses c). li_Atom ` set clause)"

lemma condition_atoms_simps [simp]:
  "condition_atoms [] = {}" "condition_atoms (cs @ ds) = condition_atoms cs \<union> condition_atoms ds"
  "condition_atoms (c # cs) = (\<Union>clause\<in>set (cond_Clauses c). li_Atom ` set clause) \<union> condition_atoms cs"
  by (auto simp: condition_atoms_def)

text \<open>Only the atoms that occur matter.\<close>

lemma condition_holds_cong:
  assumes "\<And>a. a \<in> condition_atoms [c] \<Longrightarrow> \<alpha> a = \<beta> a"
  shows "condition_holds \<alpha> c = condition_holds \<beta> c"
proof -
  have "literal_holds \<alpha> l = literal_holds \<beta> l" if "clause \<in> set (cond_Clauses c)" "l \<in> set clause" for clause l
    using that assms by (auto simp: literal_holds_def)
  then show ?thesis by (auto simp: condition_holds_def)
qed

section \<open>The table of atoms\<close>

definition tallied :: "ConsistencyAtom set \<Rightarrow> tally \<Rightarrow> bool" where
  "tallied A t \<longleftrightarrow> gomap (ty_atoms t) \<and> keys (ty_atoms t) = A \<and> length (ty_atoms t) \<le> 100000 \<and> ty_clauses t \<le> 100000"

lemma tally_literal_tallied:
  assumes "tallied A t" and "tally_literal t l = Inr t'"
  shows "tallied (insert (li_Atom l) A) t' \<and> ty_clauses t' = ty_clauses t"
  using assms by (auto simp: tallied_def tally_literal_def Let_def split: if_split_asm)

lemma tally_literals_tallied:
  "tallied A t \<Longrightarrow> fold_res tally_literal t ls = Inr t' \<Longrightarrow> tallied (A \<union> li_Atom ` set ls) t' \<and> ty_clauses t' = ty_clauses t"
proof (induction ls arbitrary: A t)
  case (Cons l ls)
  then obtain u where u: "tally_literal t l = Inr u" "fold_res tally_literal u ls = Inr t'" by (auto simp: and_then_Inr)
  note a = tally_literal_tallied [OF Cons.prems(1) u(1)]
  with Cons.IH [OF conjunct1 [OF a] u(2)] show ?case by simp
qed simp

lemma tally_clauses_tallied:
  "tallied A t \<Longrightarrow> fold_res tally_clause t ks = Inr t' \<Longrightarrow>
    tallied (A \<union> (\<Union>k\<in>set ks. li_Atom ` set k)) t' \<and> ty_clauses t' = ty_clauses t"
proof (induction ks arbitrary: A t)
  case (Cons k ks)
  then obtain u where u: "tally_clause t k = Inr u" "fold_res tally_clause u ks = Inr t'" by (auto simp: and_then_Inr)
  let ?t = "t\<lparr>ty_literals := ty_literals t + int (length k)\<rparr>"
  have "tallied A ?t" using Cons.prems(1) by (simp add: tallied_def)
  moreover have "fold_res tally_literal ?t k = Inr u"
    using u(1) by (simp add: tally_clause_def Let_def split: if_split_asm)
  ultimately have a: "tallied (A \<union> li_Atom ` set k) u \<and> ty_clauses u = ty_clauses ?t" by (rule tally_literals_tallied)
  with Cons.IH [OF conjunct1 [OF a] u(2)] show ?case by (simp add: Un_assoc)
qed simp

lemma tally_conditions_tallied:
  "tallied A t \<Longrightarrow> fold_res tally_condition (t, seen) cs = Inr (t', seen') \<Longrightarrow>
    tallied (A \<union> condition_atoms cs) t' \<and> ty_clauses t' = ty_clauses t + int (length (concat (map cond_Clauses cs))) \<and>
    distinct (map cond_ID cs) \<and> seen \<inter> cond_ID ` set cs = {} \<and> (\<forall>c\<in>set cs. consistencyText (cond_ID c))"
proof (induction cs arbitrary: A t seen)
  case (Cons c cs)
  then obtain u seen_u where u: "tally_condition (t, seen) c = Inr (u, seen_u)"
      "fold_res tally_condition (u, seen_u) cs = Inr (t', seen')"
    by (auto simp: and_then_Inr)
  let ?t = "t\<lparr>ty_text := ty_text t + int (length (cond_ID c)), ty_clauses := ty_clauses t + int (length (cond_Clauses c))\<rparr>"
  from u(1) have new: "cond_ID c \<notin> seen" "seen_u = insert (cond_ID c) seen" "consistencyText (cond_ID c)" "ty_clauses ?t \<le> 100000"
    and run: "fold_res tally_clause ?t (cond_Clauses c) = Inr u"
    by (auto simp: tally_condition_def Let_def and_then_Inr split: if_split_asm)
  have "tallied A ?t" using Cons.prems(1) new(4) by (simp add: tallied_def)
  from tally_clauses_tallied [OF this run]
  have a: "tallied (A \<union> (\<Union>k\<in>set (cond_Clauses c). li_Atom ` set k)) u" "ty_clauses u = ty_clauses ?t" by simp_all
  from Cons.IH [OF a(1) u(2)] new a(2) show ?case by (auto simp: Un_assoc)
qed simp

lemma tally_group_tallied:
  assumes "tallied A t" and "tally_group t cs = Inr t'"
  shows "tallied (A \<union> condition_atoms cs) t'" "ty_clauses t' = ty_clauses t + int (length (concat (map cond_Clauses cs)))"
    "distinct (map cond_ID cs)" "\<forall>c\<in>set cs. consistencyText (cond_ID c)"
proof -
  obtain seen' where "fold_res tally_condition (t, {}) cs = Inr (t', seen')"
    using assms(2) by (auto simp: tally_group_def and_then_Inr)
  from tally_conditions_tallied [OF assms(1) this]
  show "tallied (A \<union> condition_atoms cs) t'" "ty_clauses t' = ty_clauses t + int (length (concat (map cond_Clauses cs)))"
    "distinct (map cond_ID cs)" "\<forall>c\<in>set cs. consistencyText (cond_ID c)" by simp_all
qed

section \<open>The numbering\<close>

lemma atom_key_inj: "inj_on atom_key A"
  by (auto simp: inj_on_def atom_key_def)

lemma number_loop:
  assumes "distinct ks"
  shows "\<exists>m'. foldl (\<lambda>(m, vs) (i, a). (AList.update a (int i + 1) m, vs @ [atom_variable (int i + 1) a])) (m, vs) (enumerate k ks) =
      (m', vs @ map (\<lambda>(i, a). atom_variable (int i + 1) a) (enumerate k ks)) \<and>
    (\<forall>a. a \<notin> set ks \<longrightarrow> get m' a = get m a) \<and> (\<forall>i<length ks. get m' (ks ! i) = int (k + i) + 1)"
  using assms
proof (induction ks arbitrary: m vs k)
  case (Cons b ks)
  then have b: "b \<notin> set ks" and ks: "distinct ks" by simp_all
  obtain m' where m': "foldl (\<lambda>(m, vs) (i, a). (AList.update a (int i + 1) m, vs @ [atom_variable (int i + 1) a]))
        (AList.update b (int k + 1) m, vs @ [atom_variable (int k + 1) b]) (enumerate (Suc k) ks) =
      (m', (vs @ [atom_variable (int k + 1) b]) @ map (\<lambda>(i, a). atom_variable (int i + 1) a) (enumerate (Suc k) ks))"
    and out: "\<forall>a. a \<notin> set ks \<longrightarrow> get m' a = get (AList.update b (int k + 1) m) a"
    and ix: "\<forall>i<length ks. get m' (ks ! i) = int (Suc k + i) + 1"
    using Cons.IH [OF ks] by blast
  have "\<forall>i<length (b # ks). get m' ((b # ks) ! i) = int (k + i) + 1"
    using out b ix by (auto simp: less_Suc_eq_0_disj)
  with m' out show ?case by (intro exI [of _ m']) auto
qed simp

definition atom_list :: "(ConsistencyAtom, int) gomap \<Rightarrow> ConsistencyAtom list" where
  "atom_list m = sort_key atom_key (map fst m)"

lemma atom_list: "gomap m \<Longrightarrow> distinct (atom_list m) \<and> set (atom_list m) = keys m \<and> length (atom_list m) = length m"
  using keys_list [of m] by (simp add: atom_list_def)

text \<open>The number of an atom is its place in the sorted list, counted from 1.\<close>

lemma number_atoms:
  assumes "gomap atoms" and "number_atoms atoms = (m, vs)"
  shows "vs = map (\<lambda>(i, a). atom_variable (int i + 1) a) (enumerate 0 (atom_list atoms))"
    and "\<forall>i<length (atom_list atoms). get m (atom_list atoms ! i) = int i + 1"
  using number_loop [of "atom_list atoms" atoms "[]" 0] atom_list [OF assms(1)] assms(2)
  by (auto simp: number_atoms_def atom_list_def [symmetric] Let_def)

lemma lift_assignment:
  assumes "\<forall>i<length ks. num (ks ! i) = int i + 1"
  shows "\<exists>v. \<forall>a\<in>set ks. v (num a) = \<alpha> a"
proof (intro exI ballI)
  fix a assume "a \<in> set ks"
  then obtain i where "i < length ks" "a = ks ! i" by (auto simp: in_set_conv_nth)
  then show "(\<lambda>n. \<alpha> (ks ! nat (n - 1))) (num a) = \<alpha> a" using assms by simp
qed

lemma numbered_range:
  assumes "\<forall>i<length ks. num (ks ! i) = int i + 1" and "a \<in> set ks"
  shows "0 < num a \<and> num a \<le> int (length ks)"
proof -
  obtain i where "i < length ks" "a = ks ! i" using assms(2) by (auto simp: in_set_conv_nth)
  then show ?thesis using assms(1) by simp
qed

section \<open>The clauses\<close>

lemma holds_encode_literal:
  "0 < get m (li_Atom l) \<Longrightarrow> holds v (encode_literal m l) \<longleftrightarrow> literal_holds (\<lambda>a. v (get m a)) l"
  by (auto simp: holds_def encode_literal_def literal_holds_def Let_def)

lemma encode_clauses_hold:
  assumes "\<forall>a\<in>condition_atoms [c]. 0 < get m a"
  shows "clauses_hold v (encode_clauses m c) \<longleftrightarrow> condition_holds (\<lambda>a. v (get m a)) c"
proof -
  have "holds v (encode_literal m l) \<longleftrightarrow> literal_holds (\<lambda>a. v (get m a)) l" if "k \<in> set (cond_Clauses c)" "l \<in> set k" for k l
    using assms that by (intro holds_encode_literal) auto
  then show ?thesis by (auto simp: clauses_hold_def condition_holds_def encode_clauses_def)
qed

lemma clauses_hold_append [simp]: "clauses_hold v (ks @ ls) \<longleftrightarrow> clauses_hold v ks \<and> clauses_hold v ls"
  by (auto simp: clauses_hold_def)

lemma clauses_hold_concat: "clauses_hold v (concat kss) \<longleftrightarrow> (\<forall>ks\<in>set kss. clauses_hold v ks)"
  by (auto simp: clauses_hold_def)

lemma clauses_add_conditions:
  "clauses (add_conditions m cnf cs p) = clauses cnf @ concat (map (encode_clauses m) (sort_key cond_ID cs))"
  by (simp add: add_conditions_def Let_def comp_def)

lemma variables_add_conditions [simp]: "cn_Variables (add_conditions m cnf cs p) = cn_Variables cnf"
  by (simp add: add_conditions_def Let_def)

lemma models_add_conditions:
  assumes "\<forall>a\<in>condition_atoms cs. 0 < get m a"
  shows "models v (add_conditions m cnf cs p) \<longleftrightarrow> models v cnf \<and> (\<forall>c\<in>set cs. condition_holds (\<lambda>a. v (get m a)) c)"
proof -
  have "clauses_hold v (encode_clauses m c) \<longleftrightarrow> condition_holds (\<lambda>a. v (get m a)) c" if "c \<in> set cs" for c
    using assms that by (intro encode_clauses_hold) (auto simp: condition_atoms_def)
  then show ?thesis
    unfolding models_def clauses_add_conditions clauses_hold_append clauses_hold_concat by auto
qed

text \<open>An encoding depends on the numbers of the atoms only.\<close>

lemma add_conditions_cong:
  assumes "\<forall>a\<in>condition_atoms cs. get m a = get m' a" and "mset cs = mset ds" and "distinct (map cond_ID cs)"
  shows "add_conditions m cnf cs p = add_conditions m' cnf ds p"
proof -
  have sorted: "sort_key cond_ID cs = sort_key cond_ID ds" using assms(2,3) by (rule sort_key_unique)
  have "encode_clauses m c = encode_clauses m' c" if "c \<in> set (sort_key cond_ID ds)" for c
  proof -
    have "c \<in> set cs" using that assms(2) by (metis set_sort mset_eq_setD)
    then have "get m (li_Atom l) = get m' (li_Atom l)" if "k \<in> set (cond_Clauses c)" "l \<in> set k" for k l
      using assms(1) that by (auto simp: condition_atoms_def)
    then have "map (encode_literal m) k = map (encode_literal m') k" if "k \<in> set (cond_Clauses c)" for k
      using that by (simp add: encode_literal_def)
    then show ?thesis by (simp add: encode_clauses_def cong: map_cong)
  qed
  then have "map (encode_clauses m) (sort_key cond_ID ds) = map (encode_clauses m') (sort_key cond_ID ds)"
    by (rule map_cong [OF refl])
  then show ?thesis unfolding add_conditions_def Let_def sorted by (simp only:)
qed

section \<open>The compiled formulas\<close>

text \<open>The formula of the table: no clauses yet.\<close>

definition base_cnf :: "ConsistencyAtom list \<Rightarrow> CNF" where
  "base_cnf ks = \<lparr>cn_Variables = nil_append (map (\<lambda>(i, a). atom_variable (int i + 1) a) (enumerate 0 ks)),
    cn_Clauses = None, cn_Origins = None\<rparr>"

lemma models_base_cnf [simp]: "models v (base_cnf ks)"
  by (simp add: models_def clauses_hold_def base_cnf_def)

lemma compile_cases:
  assumes "compileConsistency view r = Inr (rules, all)"
  obtains m ks where "rules = add_conditions m (base_cnf ks) (cr_Rules r) ''rule:''"
    and "all = add_conditions m rules (cr_Evidence r) ''node:''"
    and "distinct ks" and "set ks = condition_atoms (cr_Rules r @ cr_Evidence r)" and "sorted (map atom_key ks)"
    and "\<forall>i<length ks. get m (ks ! i) = int i + 1" and "length ks \<le> 100000"
    and "length (concat (map cond_Clauses (cr_Rules r @ cr_Evidence r))) \<le> 100000"
    and "distinct (map cond_ID (cr_Rules r))" and "distinct (map cond_ID (cr_Evidence r))"
    and "\<forall>c\<in>set (cr_Rules r @ cr_Evidence r). consistencyText (cond_ID c)"
proof -
  let ?t0 = "\<lparr>ty_clauses = 0, ty_literals = 0, ty_text = 0, ty_atoms = []\<rparr>"
  obtain t u where t: "tally_group ?t0 (cr_Rules r) = Inr t" and u: "tally_group t (cr_Evidence r) = Inr u"
    and out: "(let (atoms, vs) = number_atoms (ty_atoms u);
             base = \<lparr>cn_Variables = nil_append vs, cn_Clauses = None, cn_Origins = None\<rparr>;
             rules = add_conditions atoms base (cr_Rules r) ''rule:'';
             all = add_conditions atoms rules (cr_Evidence r) ''node:''
         in Inr (rules, all)) = (Inr (rules, all) :: (CNF \<times> CNF) result)"
    using assms unfolding compileConsistency_def by (auto simp: and_then_Inr if_Inl_eq_Inr)
  have "tallied {} ?t0" by (simp add: tallied_def)
  note a = tally_group_tallied [OF this t]
  note b = tally_group_tallied [OF a(1) u]
  obtain m vs where n: "number_atoms (ty_atoms u) = (m, vs)" by fastforce
  have u_map: "gomap (ty_atoms u)" and u_keys: "keys (ty_atoms u) = condition_atoms (cr_Rules r @ cr_Evidence r)"
    and u_len: "length (ty_atoms u) \<le> 100000" and u_clauses: "ty_clauses u \<le> 100000"
    using b(1) by (simp_all add: tallied_def)
  note num = number_atoms [OF u_map n]
  note list = atom_list [OF u_map]
  show thesis
  proof (rule that)
    show "rules = add_conditions m (base_cnf (atom_list (ty_atoms u))) (cr_Rules r) ''rule:''"
      "all = add_conditions m rules (cr_Evidence r) ''node:''"
      using out unfolding n Let_def base_cnf_def num(1) [symmetric] by auto
    show "sorted (map atom_key (atom_list (ty_atoms u)))" by (simp add: atom_list_def)
    show "length (concat (map cond_Clauses (cr_Rules r @ cr_Evidence r))) \<le> 100000"
      using a(2) b(2) u_clauses by simp
  qed (use list num(2) u_keys u_len a(3,4) b(3,4) in auto)
qed

definition well_shaped :: "CNF \<Rightarrow> bool" where
  "well_shaped c \<longleftrightarrow> shaped c \<and> length (origins c) = length (clauses c)"

lemma enumerate_ids: "map (\<lambda>(i, a). int i + 1) (enumerate k ks) = [int k + 1..int k + int (length ks)]"
proof (induction ks arbitrary: k)
  case (Cons a ks)
  have "[int k + 1..int k + int (length (a # ks))] = (int k + 1) # [int (Suc k) + 1..int (Suc k) + int (length ks)]"
    by (subst upto_rec1) (simp_all add: algebra_simps)
  with Cons [of "Suc k"] show ?case by simp
qed simp

lemma well_shaped_base: "well_shaped (base_cnf ks)"
proof -
  have "map va_ID (map (\<lambda>(i, a). atom_variable (int i + 1) a) (enumerate 0 ks)) = map (\<lambda>(i, a). int i + 1) (enumerate 0 ks)"
    by (simp add: atom_variable_def case_prod_unfold)
  then show ?thesis unfolding enumerate_ids by (simp add: well_shaped_def shaped_def base_cnf_def)
qed

lemma origins_add_conditions:
  "origins (add_conditions m cnf cs p) =
    origins cnf @ concat (map (\<lambda>c. map (\<lambda>_. [p @ cond_ID c]) (cond_Clauses c)) (sort_key cond_ID cs))"
  by (simp add: add_conditions_def Let_def map_concat comp_def)

lemma length_encode_clauses [simp]: "length (encode_clauses m c) = length (cond_Clauses c)"
  by (simp add: encode_clauses_def)

lemma length_add_conditions:
  "length (clauses (add_conditions m cnf cs p)) = length (clauses cnf) + length (concat (map cond_Clauses cs))"
proof -
  have "length (concat (map (encode_clauses m) cs')) = length (concat (map cond_Clauses cs'))" for cs'
    by (induction cs') simp_all
  moreover have "sum_list (map (length \<circ> cond_Clauses) (sort_key cond_ID cs)) = sum_list (map (length \<circ> cond_Clauses) cs)"
    by (metis mset_map mset_sort sum_mset_sum_list)
  ultimately show ?thesis unfolding clauses_add_conditions by (simp add: length_concat comp_def)
qed

lemma well_shaped_add:
  assumes "well_shaped cnf" and "\<forall>a\<in>condition_atoms cs. 0 < get m a \<and> get m a \<le> width cnf" and "p \<noteq> []"
  shows "well_shaped (add_conditions m cnf cs p)"
proof -
  let ?c = "add_conditions m cnf cs p"
  have w: "width ?c = width cnf" "map va_ID (variables ?c) = map va_ID (variables cnf)" by simp_all
  have "length (concat (map (\<lambda>c. map (\<lambda>_. [p @ cond_ID c]) (cond_Clauses c)) cs')) = length (concat (map (encode_clauses m) cs'))" for cs'
    by (induction cs') simp_all
  then have len: "length (origins ?c) = length (clauses ?c)"
    using assms(1) unfolding origins_add_conditions clauses_add_conditions well_shaped_def by simp
  have "lit \<noteq> 0 \<and> \<bar>lit\<bar> \<le> width cnf" if lit: "k \<in> set (clauses ?c)" "lit \<in> set k" for k lit
  proof -
    from lit(1) consider "k \<in> set (clauses cnf)" | c where "c \<in> set cs" "k \<in> set (encode_clauses m c)"
      unfolding clauses_add_conditions by auto
    then show ?thesis
    proof cases
      case 1
      then show ?thesis using assms(1) lit(2) shaped_lit unfolding well_shaped_def by blast
    next
      case 2
      with lit(2) obtain clause l where "clause \<in> set (cond_Clauses c)" "l \<in> set clause" "lit = encode_literal m l"
        by (auto simp: encode_clauses_def)
      moreover from this 2(1) have "li_Atom l \<in> condition_atoms cs" by (force simp: condition_atoms_def)
      moreover note assms(2)
      ultimately have "0 < get m (li_Atom l)" "get m (li_Atom l) \<le> width cnf" "lit = encode_literal m l" by blast+
      then show ?thesis by (auto simp: encode_literal_def Let_def)
    qed
  qed
  moreover have "[] \<notin> \<Union> (set ` set (origins ?c))"
    using assms(1,3) unfolding origins_add_conditions by (auto simp: well_shaped_def shaped_def)
  ultimately show ?thesis
    using len assms(1) w unfolding well_shaped_def shaped_def by metis
qed

lemma width_base_cnf [simp]: "length (variables (base_cnf ks)) = length ks"
  by (simp add: base_cnf_def)

lemma compile_shape:
  assumes "compileConsistency view r = Inr (rules, all)"
  shows "well_shaped rules" "well_shaped all" "fits rules" "fits all"
proof -
  from assms obtain m ks where c: "rules = add_conditions m (base_cnf ks) (cr_Rules r) ''rule:''"
      "all = add_conditions m rules (cr_Evidence r) ''node:''"
      "set ks = condition_atoms (cr_Rules r @ cr_Evidence r)" "\<forall>i<length ks. get m (ks ! i) = int i + 1" "length ks \<le> 100000"
      "length (concat (map cond_Clauses (cr_Rules r @ cr_Evidence r))) \<le> 100000"
    by (rule compile_cases)
  have range: "0 < get m a \<and> get m a \<le> int (length ks)" if "a \<in> condition_atoms (cr_Rules r) \<union> condition_atoms (cr_Evidence r)" for a
    using numbered_range [OF c(4)] c(3) that by simp
  show r: "well_shaped rules"
    unfolding c(1) using range by (intro well_shaped_add well_shaped_base) simp_all
  show "well_shaped all"
    unfolding c(2) using range r by (intro well_shaped_add) (simp_all add: c(1))
  have lr: "length (clauses rules) = length (concat (map cond_Clauses (cr_Rules r)))"
    unfolding c(1) length_add_conditions by (simp add: base_cnf_def)
  have la: "length (clauses all) = length (concat (map cond_Clauses (cr_Rules r @ cr_Evidence r)))"
    unfolding c(2) length_add_conditions lr by simp
  have "length (clauses rules) \<le> 100000" "length (clauses all) \<le> 100000"
    using c(6) lr la by simp_all
  then show "fits rules" "fits all"
    using c(5) by (simp_all add: fits_def MaxInt64_def c(1,2))
qed

section \<open>Compilation keeps the meaning\<close>

text \<open>A numbering under which the models of the two formulas are the truth assignments that make the conditions hold.\<close>

definition interprets :: "ConsistencyRequest \<Rightarrow> (ConsistencyAtom \<Rightarrow> int) \<Rightarrow> CNF \<Rightarrow> CNF \<Rightarrow> bool" where
  "interprets r num rules all \<longleftrightarrow>
    (\<forall>v. models v rules \<longleftrightarrow> (\<forall>c\<in>set (cr_Rules r). condition_holds (\<lambda>a. v (num a)) c)) \<and>
    (\<forall>v. models v all \<longleftrightarrow> (\<forall>c\<in>set (cr_Rules r @ cr_Evidence r). condition_holds (\<lambda>a. v (num a)) c))"

definition represents :: "(ConsistencyAtom \<Rightarrow> int) \<Rightarrow> ConsistencyAtom set \<Rightarrow> bool" where
  "represents num A \<longleftrightarrow> (\<forall>\<alpha> :: ConsistencyAtom \<Rightarrow> bool. \<exists>v :: int \<Rightarrow> bool. \<forall>a\<in>A. v (num a) = \<alpha> a)"

lemma compile_models:
  assumes "compileConsistency view r = Inr (rules, all)"
  obtains num where "interprets r num rules all" and "represents num (condition_atoms (cr_Rules r @ cr_Evidence r))"
proof -
  from assms obtain m ks where c: "rules = add_conditions m (base_cnf ks) (cr_Rules r) ''rule:''"
      "all = add_conditions m rules (cr_Evidence r) ''node:''"
      "set ks = condition_atoms (cr_Rules r @ cr_Evidence r)" "\<forall>i<length ks. get m (ks ! i) = int i + 1"
    by (rule compile_cases)
  have range: "0 < get m a" if "a \<in> condition_atoms (cr_Rules r @ cr_Evidence r)" for a
    using numbered_range [OF c(4)] c(3) that by simp
  have rules: "models v rules \<longleftrightarrow> (\<forall>c\<in>set (cr_Rules r). condition_holds (\<lambda>a. v (get m a)) c)" for v
    unfolding c(1) using range by (subst models_add_conditions) simp_all
  have all: "models v all \<longleftrightarrow> models v rules \<and> (\<forall>c\<in>set (cr_Evidence r). condition_holds (\<lambda>a. v (get m a)) c)" for v
    unfolding c(2) using range by (subst models_add_conditions) simp_all
  show thesis
  proof (rule that)
    show "interprets r (get m) rules all"
      unfolding interprets_def all rules by auto
    show "represents (get m) (condition_atoms (cr_Rules r @ cr_Evidence r))"
      unfolding represents_def c(3) [symmetric] using lift_assignment [OF c(4)] by blast
  qed
qed

lemma consistent_numbered:
  assumes "represents num A" and "condition_atoms cs \<subseteq> A"
  shows "(\<exists>v. \<forall>c\<in>set cs. condition_holds (\<lambda>a. v (num a)) c) \<longleftrightarrow> consistent cs"
proof
  assume "consistent cs"
  then obtain \<alpha> where \<alpha>: "\<forall>c\<in>set cs. condition_holds \<alpha> c" by (auto simp: consistent_def)
  obtain v where v: "\<forall>a\<in>A. v (num a) = \<alpha> a" using assms(1) unfolding represents_def by blast
  have "condition_holds (\<lambda>a. v (num a)) c = condition_holds \<alpha> c" if "c \<in> set cs" for c
  proof (rule condition_holds_cong)
    fix a assume "a \<in> condition_atoms [c]"
    then have "a \<in> condition_atoms cs" using that by (auto simp: condition_atoms_def)
    then show "v (num a) = \<alpha> a" using v assms(2) by blast
  qed
  with \<alpha> show "\<exists>v. \<forall>c\<in>set cs. condition_holds (\<lambda>a. v (num a)) c" by blast
qed (auto simp: consistent_def)

lemma compile_satisfiable:
  assumes "compileConsistency view r = Inr (rules, all)"
  shows "satisfiable rules \<longleftrightarrow> consistent (cr_Rules r)" "satisfiable all \<longleftrightarrow> consistent (cr_Rules r @ cr_Evidence r)"
proof -
  from assms obtain num where m: "interprets r num rules all" "represents num (condition_atoms (cr_Rules r @ cr_Evidence r))"
    by (rule compile_models)
  have "condition_atoms (cr_Rules r) \<subseteq> condition_atoms (cr_Rules r @ cr_Evidence r)" by simp
  from consistent_numbered [OF m(2) this] show "satisfiable rules \<longleftrightarrow> consistent (cr_Rules r)"
    using m(1) by (simp add: satisfiable_def interprets_def)
  from consistent_numbered [OF m(2) order_refl] show "satisfiable all \<longleftrightarrow> consistent (cr_Rules r @ cr_Evidence r)"
    using m(1) by (simp add: satisfiable_def interprets_def)
qed

text \<open>C25. The formulas that \<open>compileConsistency\<close> gives to the solver are well shaped and mean the supplied
  conditions: the first is satisfiable exactly when some truth assignment of the atoms makes every rule
  hold, the second exactly when some makes every rule and every evidence condition hold.\<close>

theorem compileConsistency_meaning:
  assumes "compileConsistency view r = Inr (rules, all)"
  shows "CheckShape rules = Inr () \<and> CheckShape all = Inr () \<and>
    (satisfiable rules \<longleftrightarrow> consistent (cr_Rules r)) \<and>
    (satisfiable all \<longleftrightarrow> consistent (cr_Rules r @ cr_Evidence r))"
  using compile_satisfiable [OF assms] compile_shape(1,2) [OF assms] by (simp add: CheckShape_Inr well_shaped_def)

lemma consistencyText_solid: "s \<noteq> [] \<Longrightarrow> list_all solid s \<Longrightarrow> length s \<le> 512 \<Longrightarrow> consistencyText s"
proof -
  assume s: "s \<noteq> []" "list_all solid s" "length s \<le> 512"
  have solid: "solid c" if "c \<in> set s" for c using s(2) that by (simp add: list_all_iff)
  have "trim_space s = s" using s(1) solid by (intro trim_space_solid) simp_all
  moreover have "utf8_valid s"
    using solid unfolding solid_def by (intro utf8_valid_ascii) (simp add: list_all_iff)
  moreover have "\<not> solid (CHR 0x00)" by (simp add: solid_def)
  then have "CHR 0x00 \<notin> set s" using solid by blast
  ultimately show ?thesis using s by (simp add: consistencyText_def)
qed

definition sample_atom :: ConsistencyAtom where
  "sample_atom = \<lparr>at_Subject = ''door'', at_Property = ''open'', at_Context = ''now''\<rparr>"

text \<open>A rule says that the door is open, the evidence \<open>n\<close> that it is not.\<close>

definition sample_request :: ConsistencyRequest where
  "sample_request = \<lparr>cr_Scope = vw_Scope zero_view, cr_ExpectedViewID = ''view'', cr_RuleVersion = ''v1'',
    cr_Rules = [\<lparr>cond_ID = ''r'', cond_Clauses = [[\<lparr>li_Atom = sample_atom, li_Negated = False\<rparr>]]\<rparr>],
    cr_Evidence = [\<lparr>cond_ID = ''n'', cond_Clauses = [[\<lparr>li_Atom = sample_atom, li_Negated = True\<rparr>]]\<rparr>]\<rparr>"

definition sample_view :: ConsistencyView where
  "sample_view = zero_view\<lparr>vw_Profile := ConsistencyProfile, vw_ID := ''view'',
    vw_Members := [\<lparr>cm_NodeID = ''n'', cm_Key = \<lparr>pk_Namespace = [], pk_LocalID = [], pk_ScopeRef = [], pk_Revision = []\<rparr>,
      cm_Definition = [], cm_HeadRevision = 0, cm_HeadRef = []\<rparr>]\<rparr>"

lemma sample_texts: "consistencyText ''door''" "consistencyText ''open''" "consistencyText ''now''" "consistencyText ''r''"
  "consistencyText ''n''" "consistencyText ''v1''" "consistencyText ''q''"
  by (rule consistencyText_solid; simp add: solid_def)+

lemma sample_compile: "\<exists>rules all. compileConsistency sample_view sample_request = Inr (rules, all)"
  by (simp add: compileConsistency_def sample_view_def sample_request_def take_member_def tally_group_def tally_condition_def
      tally_clause_def tally_literal_def sample_texts sample_atom_def Let_def case_prod_unfold)

theorem compileConsistency_meaning_witness:
  "\<exists>rules all. compileConsistency sample_view sample_request = Inr (rules, all) \<and> satisfiable rules \<and> \<not> satisfiable all"
proof -
  obtain rules all where c: "compileConsistency sample_view sample_request = Inr (rules, all)" using sample_compile by blast
  have "consistent (cr_Rules sample_request)"
    unfolding consistent_def by (rule exI [of _ "\<lambda>_. True"]) (simp add: sample_request_def condition_holds_def literal_holds_def)
  moreover have "\<not> consistent (cr_Rules sample_request @ cr_Evidence sample_request)"
    by (simp add: consistent_def sample_request_def condition_holds_def literal_holds_def)
  ultimately show ?thesis using compileConsistency_meaning [OF c] c by blast
qed

section \<open>The order of the input does not show\<close>

text \<open>The compiled formulas, and with them the identity of the input, do not depend on the order in which the
  members of the view, the rules and the evidence are listed.\<close>

theorem compileConsistency_order_free:
  assumes "compileConsistency view r = Inr x" and "compileConsistency view' r' = Inr y"
    and "mset (cr_Rules r) = mset (cr_Rules r')" and "mset (cr_Evidence r) = mset (cr_Evidence r')"
  shows "x = y"
proof -
  obtain rules all where x: "x = (rules, all)" by fastforce
  obtain rules' all' where y: "y = (rules', all')" by fastforce
  from assms(1) [unfolded x] obtain m ks where c: "rules = add_conditions m (base_cnf ks) (cr_Rules r) ''rule:''"
      "all = add_conditions m rules (cr_Evidence r) ''node:''" "distinct ks"
      "set ks = condition_atoms (cr_Rules r @ cr_Evidence r)" "sorted (map atom_key ks)" "\<forall>i<length ks. get m (ks ! i) = int i + 1"
      "distinct (map cond_ID (cr_Rules r))" "distinct (map cond_ID (cr_Evidence r))"
    by (rule compile_cases)
  from assms(2) [unfolded y] obtain m' ks' where d: "rules' = add_conditions m' (base_cnf ks') (cr_Rules r') ''rule:''"
      "all' = add_conditions m' rules' (cr_Evidence r') ''node:''" "distinct ks'"
      "set ks' = condition_atoms (cr_Rules r' @ cr_Evidence r')" "sorted (map atom_key ks')" "\<forall>i<length ks'. get m' (ks' ! i) = int i + 1"
    by (rule compile_cases)
  have "set ks = set ks'"
    using mset_eq_setD [OF assms(3)] mset_eq_setD [OF assms(4)] unfolding c(4) d(4) condition_atoms_def by simp
  moreover have "inj_on atom_key (set ks)" by (rule atom_key_inj)
  ultimately have ks: "ks = ks'"
    using c(3,5) d(3,5) by (metis distinct_map map_sorted_distinct_set_unique atom_key_inj)
  have num: "get m a = get m' a" if "a \<in> set ks" for a
    using that c(6) d(6) unfolding ks by (auto simp: in_set_conv_nth)
  have "rules = rules'"
    unfolding c(1) d(1) ks using num c(4) by (intro add_conditions_cong assms(3) c(7)) simp
  moreover have "all = all'"
    unfolding c(2) d(2) \<open>rules = rules'\<close> using num c(4) by (intro add_conditions_cong assms(4) c(8)) simp
  ultimately show ?thesis by (simp add: x y)
qed

theorem compileConsistency_order_free_witness:
  "\<exists>x. compileConsistency sample_view sample_request = Inr x \<and>
    (\<forall>y. compileConsistency (sample_view\<lparr>vw_Snapshot := ''later''\<rparr>) sample_request = Inr y \<longrightarrow> y = x)"
proof -
  obtain x where x: "compileConsistency sample_view sample_request = Inr x" using sample_compile by auto
  from compileConsistency_order_free [OF _ x refl refl] x show ?thesis by blast
qed

end
