(* ===== verification/ConsistencyCheck.thy ===== *)
theory ConsistencyCheck
  imports ConsistencyCompile
begin

text \<open>
  What the outcome of \<open>checkConsistency\<close> says about the supplied conditions, and that a localised conflict
  is irreducible.
\<close>

section \<open>The outcome\<close>

lemma solve_strict_None [returns]:
  "solve_strict rn envs qid cnf store f = (out, None) \<longleftrightarrow>
    (\<exists>a. Solve rn (envs qid) qid cnf = (a, None) \<and> Require a strict = Inr () \<and> f a = (out, None))"
  by (cases "Solve rn (envs qid) qid cnf") (auto simp: solve_strict_def returns)

lemma solve_strict_rule:
  assumes "\<And>a e. P (store a, Some e)" and "\<And>a. P (f a)"
  shows "P (solve_strict rn envs qid cnf store f)"
proof (cases "Solve rn (envs qid) qid cnf")
  case (Pair a err)
  then show ?thesis
    using assms by (cases err; cases "Require a strict") (simp_all add: solve_strict_def)
qed

lemma check_formulas_None:
  assumes "check_formulas rn envs q rules all out = (out', None)"
  shows "Solve rn (envs (q @ ''-rules'')) (q @ ''-rules'') rules = (cs_Rules out', None) \<and>
    Require (cs_Rules out') strict = Inr () \<and> cs_View out' = cs_View out \<and>
    (if rs_Status (cs_Rules out') = UNSAT then cs_Outcome out' = ConsistencyInvalidRules
     else Solve rn (envs (q @ ''-declarations'')) (q @ ''-declarations'') all = (cs_Declarations out', None) \<and>
       Require (cs_Declarations out') strict = Inr () \<and>
       cs_Outcome out' = (if rs_Status (cs_Declarations out') = UNSAT then ConsistencyConflict else ConsistencyCompatible))"
proof -
  let ?out = "out\<lparr>cs_Reason := ''resolver_failed''\<rparr>"
  from assms obtain a where a: "Solve rn (envs (q @ ''-rules'')) (q @ ''-rules'') rules = (a, None)" "Require a strict = Inr ()"
    and run: "(if rs_Status a = UNSAT then (?out\<lparr>cs_Rules := a, cs_Outcome := ConsistencyInvalidRules, cs_Reason := []\<rparr>, None)
     else solve_strict rn envs (q @ ''-declarations'') all (\<lambda>d. ?out\<lparr>cs_Rules := a, cs_Declarations := d\<rparr>) (\<lambda>d.
       if rs_Status d = UNSAT
       then (?out\<lparr>cs_Rules := a, cs_Declarations := d, cs_Outcome := ConsistencyCompatible, cs_Reason := [], cs_Outcome := ConsistencyConflict\<rparr>, None)
       else (?out\<lparr>cs_Rules := a, cs_Declarations := d, cs_Outcome := ConsistencyCompatible, cs_Reason := []\<rparr>, None))) = (out', None)"
    unfolding check_formulas_def Let_def solve_strict_None by blast
  show ?thesis
  proof (cases "rs_Status a = UNSAT")
    case True
    with a run show ?thesis by auto
  next
    case False
    with run obtain d where d: "Solve rn (envs (q @ ''-declarations'')) (q @ ''-declarations'') all = (d, None)" "Require d strict = Inr ()"
      and out: "out' = (if rs_Status d = UNSAT
        then ?out\<lparr>cs_Rules := a, cs_Declarations := d, cs_Outcome := ConsistencyCompatible, cs_Reason := [], cs_Outcome := ConsistencyConflict\<rparr>
        else ?out\<lparr>cs_Rules := a, cs_Declarations := d, cs_Outcome := ConsistencyCompatible, cs_Reason := []\<rparr>)"
      unfolding if_not_P [OF False] solve_strict_None by (auto split: if_split_asm)
    from a d False show ?thesis unfolding out by simp
  qed
qed

text \<open>The outcomes are four different strings.\<close>

lemma outcomes [simp]:
  "ConsistencyCompatible \<noteq> ConsistencyInconclusive" "ConsistencyConflict \<noteq> ConsistencyInconclusive"
  "ConsistencyInvalidRules \<noteq> ConsistencyInconclusive" "ConsistencyInvalidRules \<noteq> ConsistencyCompatible"
  "ConsistencyInvalidRules \<noteq> ConsistencyConflict" "ConsistencyCompatible \<noteq> ConsistencyConflict"
  by simp_all

lemma check_None:
  assumes "checkConsistency runner envs q r read = (out, None)" and "cs_Outcome out \<noteq> ConsistencyInconclusive"
  obtains rn view rules all mid where "runner = Some rn" and "read (cr_Scope r) = Inr view" and "vw_ID view = cr_ExpectedViewID r"
    and "compileConsistency (fst (consistencySelectedView view)) r = Inr (rules, all)"
    and "check_formulas rn envs q rules all mid = (out, None)" and "cs_View mid = view"
  using assms unfolding checkConsistency_def Let_def returning_None
  by (auto simp: initial_check_def returning_None split: if_split_asm prod.splits)

lemma take_member_Inr: "take_member M c = Inr M' \<longleftrightarrow> cond_ID c \<in> M \<and> M' = M - {cond_ID c}"
  by (auto simp: take_member_def)

lemma members_taken:
  "fold_res take_member M cs = Inr M' \<Longrightarrow> distinct (map cond_ID cs) \<and> cond_ID ` set cs \<subseteq> M"
proof (induction cs arbitrary: M)
  case (Cons c cs)
  from Cons.prems have c: "cond_ID c \<in> M" and "fold_res take_member (M - {cond_ID c}) cs = Inr M'"
    by (auto simp: and_then_Inr take_member_Inr)
  from Cons.IH [OF this(2)] c show ?case by auto
qed simp

lemma evidence_covers:
  assumes "compileConsistency view r = Inr x"
  shows "cond_ID ` set (cr_Evidence r) = cm_NodeID ` set (vw_Members view)"
proof -
  obtain M' where len: "length (cr_Evidence r) = length (vw_Members view)"
    and m: "fold_res take_member (cm_NodeID ` set (vw_Members view)) (cr_Evidence r) = Inr M'"
    using assms unfolding compileConsistency_def and_then_Inr if_Inl_eq_Inr by auto
  have "card (cm_NodeID ` set (vw_Members view)) \<le> length (vw_Members view)"
    by (metis card_length length_map set_map)
  moreover have "card (cond_ID ` set (cr_Evidence r)) = length (cr_Evidence r)"
    using members_taken [OF m] by (metis distinct_card length_map set_map)
  ultimately show ?thesis
    using members_taken [OF m] len by (intro card_seteq) simp_all
qed

lemma Solve_satisfiable:
  assumes "Solve rn env qid c = (a, None)" and "Require a strict = Inr ()" and "fits c" and "drat_sound (ev_Checker env)"
  shows "rs_Status a = UNSAT \<longleftrightarrow> \<not> satisfiable c"
  using Solve_answer [OF assms(1,3,4)] Require_strict [OF assms(2)] by (auto simp: satisfiable_def)

lemma checkConsistency_sound_outcome:
  assumes "checkConsistency runner envs q r read = (out, None)" and "cs_Outcome out \<noteq> ConsistencyInconclusive"
    and "\<forall>i. drat_sound (ev_Checker (envs i))"
  shows "cs_Outcome out =
      (if \<not> consistent (cr_Rules r) then ConsistencyInvalidRules
       else if consistent (cr_Rules r @ cr_Evidence r) then ConsistencyCompatible else ConsistencyConflict) \<and>
    vw_ID (cs_View out) = cr_ExpectedViewID r \<and>
    cond_ID ` set (cr_Evidence r) = cm_NodeID ` set (vw_Members (fst (consistencySelectedView (cs_View out))))"
proof -
  from assms(1,2) obtain rn view rules all mid where v: "vw_ID view = cr_ExpectedViewID r"
    and c: "compileConsistency (fst (consistencySelectedView view)) r = Inr (rules, all)"
    and f: "check_formulas rn envs q rules all mid = (out, None)" "cs_View mid = view"
    by (rule check_None)
  let ?a = "cs_Rules out" and ?d = "cs_Declarations out"
  note g = check_formulas_None [OF f(1)]
  then have a: "Solve rn (envs (q @ ''-rules'')) (q @ ''-rules'') rules = (?a, None)" "Require ?a strict = Inr ()"
    and view: "cs_View out = cs_View mid" by blast+
  have rules: "rs_Status ?a = UNSAT \<longleftrightarrow> \<not> consistent (cr_Rules r)"
    using Solve_satisfiable [OF a compile_shape(3) [OF c] spec [OF assms(3)]] compile_satisfiable(1) [OF c] by simp
  have all: "rs_Status ?d = UNSAT \<longleftrightarrow> \<not> consistent (cr_Rules r @ cr_Evidence r)"
    if "Solve rn (envs (q @ ''-declarations'')) (q @ ''-declarations'') all = (?d, None)" "Require ?d strict = Inr ()"
    using Solve_satisfiable [OF that compile_shape(4) [OF c] spec [OF assms(3)]] compile_satisfiable(2) [OF c] by simp
  have "cs_Outcome out = (if \<not> consistent (cr_Rules r) then ConsistencyInvalidRules
       else if consistent (cr_Rules r @ cr_Evidence r) then ConsistencyCompatible else ConsistencyConflict)"
  proof (cases "rs_Status ?a = UNSAT")
    case True
    with g have "cs_Outcome out = ConsistencyInvalidRules" by simp
    with True rules show ?thesis by simp
  next
    case False
    with g have d: "Solve rn (envs (q @ ''-declarations'')) (q @ ''-declarations'') all = (?d, None)" "Require ?d strict = Inr ()"
      and o: "cs_Outcome out = (if rs_Status ?d = UNSAT then ConsistencyConflict else ConsistencyCompatible)" by simp_all
    from False rules all [OF d] show ?thesis unfolding o by simp
  qed
  then show ?thesis using v view f(2) evidence_covers [OF c] by simp
qed

text \<open>C7. The outcome of a check that ends without an error is right, if the proof checker keeps its promise:
  \<open>inconsistent_rules\<close> exactly when no truth assignment makes the rules hold, \<open>compatible_declarations\<close> exactly when
  one makes the rules and the whole evidence hold, \<open>conflicting_declarations\<close> when the rules alone can hold but not
  with the evidence; and the evidence conditions are those of the selected members of the expected view.\<close>

theorem checkConsistency_sound:
  assumes "checkConsistency runner envs q r read = (out, None)" and "cs_Outcome out \<noteq> ConsistencyInconclusive"
    and "\<forall>i. drat_sound (ev_Checker (envs i))"
  shows "cs_Outcome out =
      (if \<not> consistent (cr_Rules r) then ConsistencyInvalidRules
       else if consistent (cr_Rules r @ cr_Evidence r) then ConsistencyCompatible else ConsistencyConflict) \<and>
    vw_ID (cs_View out) = cr_ExpectedViewID r \<and>
    cond_ID ` set (cr_Evidence r) = cm_NodeID ` set (vw_Members (fst (consistencySelectedView (cs_View out))))"
  using assms by (rule checkConsistency_sound_outcome)

text \<open>A rule with an empty clause cannot hold.\<close>

definition false_request :: ConsistencyRequest where
  "false_request = sample_request\<lparr>cr_Rules := [\<lparr>cond_ID = ''r'', cond_Clauses = [[]]\<rparr>],
    cr_Evidence := [\<lparr>cond_ID = ''n'', cond_Clauses = [[]]\<rparr>]\<rparr>"

lemma false_compile: "\<exists>all. compileConsistency sample_view false_request = Inr (false_cnf, all)"
  by (simp add: compileConsistency_def sample_view_def false_request_def take_member_def tally_group_def tally_condition_def
      tally_clause_def sample_texts number_atoms_def add_conditions_def encode_clauses_def false_cnf_def nil_append_def Let_def)

lemma false_check:
  "\<exists>out. checkConsistency (Some sample_runner) (\<lambda>_. sample_env 20 ''s UNSATISFIABLE'') ''q'' false_request (\<lambda>_. Inr sample_view) =
    (out, None) \<and> cs_Outcome out = ConsistencyInvalidRules"
proof -
  obtain all where c: "compileConsistency sample_view false_request = Inr (false_cnf, all)" using false_compile by blast
  have "safeID (''q'' @ ''-rules'')" by (simp add: safeID_def alnum_def)
  then obtain a where a: "Solve sample_runner (sample_env 20 ''s UNSATISFIABLE'') (''q'' @ ''-rules'') false_cnf = (a, None)"
    "Require a strict = Inr ()" "rs_Status a = UNSAT"
    using false_cnf_answer by blast
  have v: "consistencySelectedView sample_view = (sample_view, True)"
    by (simp add: consistencySelectedView_def sample_view_def)
  have r: "cr_ExpectedViewID false_request = ''view''" "cr_RuleVersion false_request = ''v1''"
    "vw_ID sample_view = ''view''" "vw_Members sample_view \<noteq> []"
    by (simp_all add: false_request_def sample_request_def sample_view_def)
  show ?thesis
    using c a v r sample_texts
    by (simp add: checkConsistency_def check_formulas_def solve_strict_def Let_def)
qed

theorem checkConsistency_sound_witness: "\<not> consistent (cr_Rules false_request)"
proof -
  obtain out where o: "checkConsistency (Some sample_runner) (\<lambda>_. sample_env 20 ''s UNSATISFIABLE'') ''q'' false_request (\<lambda>_. Inr sample_view) = (out, None)"
    "cs_Outcome out = ConsistencyInvalidRules"
    using false_check by blast
  have "drat_sound (ev_Checker (sample_env 20 ''s UNSATISFIABLE''))"
    by (simp add: sample_env_def empty_clause_checker_sound)
  with checkConsistency_sound [OF o(1)] o(2) show ?thesis by (auto split: if_split_asm)
qed

definition settled :: "ConsistencyResult \<times> error option \<Rightarrow> bool" where
  "settled res \<longleftrightarrow> (case snd res of
      Some e \<Rightarrow> cs_Outcome (fst res) = ConsistencyInconclusive
    | None \<Rightarrow> cs_Outcome (fst res) \<noteq> ConsistencyInconclusive \<and> cs_Reason (fst res) = [])"

lemma check_formulas_settled:
  assumes "cs_Outcome out = ConsistencyInconclusive"
  shows "settled (check_formulas rn envs q rules all out)"
  unfolding check_formulas_def Let_def
proof (rule solve_strict_rule, goal_cases)
  case (2 a)
  show ?case
  proof (cases "rs_Status a = UNSAT")
    case False
    show ?thesis
      unfolding if_not_P [OF False] by (rule solve_strict_rule) (simp_all add: settled_def assms)
  qed (simp add: settled_def)
qed (simp add: settled_def assms)

definition concluded :: "ConsistencyResult \<times> error option \<Rightarrow> bool" where
  "concluded res \<longleftrightarrow> (case snd res of
      Some e \<Rightarrow> cs_Outcome (fst res) = ConsistencyInconclusive
    | None \<Rightarrow> (cs_Outcome (fst res) = ConsistencyInconclusive) =
         (cs_Reason (fst res) \<in> {''stale_view'', ''unknown_currentness'', ''empty_scope''}))"

lemma concluded_returning:
  "cs_Outcome out = ConsistencyInconclusive \<Longrightarrow> (\<And>x. concluded (f x)) \<Longrightarrow> concluded (returning out m f)"
  by (cases m) (simp_all add: concluded_def)

lemma concluded_if: "concluded a \<Longrightarrow> concluded b \<Longrightarrow> concluded (if c then a else b)"
  by simp

lemma settled_concluded: "settled res \<Longrightarrow> concluded res"
  by (cases res; cases "snd res") (auto simp: settled_def concluded_def)

text \<open>An error leaves the outcome inconclusive; without an error the outcome is inconclusive exactly when the view
  is not the expected one, its currentness is not decided, or it selects nothing.\<close>

theorem checkConsistency_inconclusive:
  "case snd (checkConsistency runner envs q r read) of
      Some e \<Rightarrow> cs_Outcome (fst (checkConsistency runner envs q r read)) = ConsistencyInconclusive
    | None \<Rightarrow> (cs_Outcome (fst (checkConsistency runner envs q r read)) = ConsistencyInconclusive) =
         (cs_Reason (fst (checkConsistency runner envs q r read)) \<in> {''stale_view'', ''unknown_currentness'', ''empty_scope''})"
  unfolding concluded_def [symmetric] checkConsistency_def Let_def case_prod_unfold
  by (intro concluded_returning concluded_if settled_concluded [OF check_formulas_settled])
    (simp_all add: concluded_def initial_check_def)

end
