(* ===== verification/ConflictCore.thy ===== *)
theory ConflictCore
  imports ConsistencyCheck
begin

text \<open>
  A localised conflict (\<open>consistency_localization.go\<close>) is a contradictory part of the supplied conditions,
  and an irreducible one when the search was not cut short.
\<close>

section \<open>Parts of a formula\<close>

text \<open>Each clause with the names of the conditions it came from.\<close>

definition tagged :: "CNF \<Rightarrow> (int slice \<times> string slice) list" where
  "tagged cnf = zip (elems (cn_Clauses cnf)) (elems (cn_Origins cnf))"

definition part :: "CNF \<Rightarrow> string set \<Rightarrow> CNF" where
  "part cnf G =
    (let kept = filter (\<lambda>(clause, os). \<exists>o'\<in>set (elems os). o' \<in> G) (tagged cnf)
     in \<lparr>cn_Variables = cn_Variables cnf, cn_Clauses = nil_append (map fst kept), cn_Origins = nil_append (map snd kept)\<rparr>)"

lemma trial_part: "trial cnf groups grp = part cnf (groups - {grp})"
proof -
  have "(\<lambda>(clause, os). \<exists>o'\<in>set (elems os). o' \<noteq> grp \<and> o' \<in> groups) =
      (\<lambda>(clause :: int slice, os). \<exists>o'\<in>set (elems os). o' \<in> groups - {grp})" by auto
  then show ?thesis unfolding trial_def part_def tagged_def by (simp only:)
qed

lemma models_part:
  "models v (part cnf G) \<longleftrightarrow>
    (\<forall>(clause, os)\<in>set (tagged cnf). (\<exists>o'\<in>set (elems os). o' \<in> G) \<longrightarrow> (\<exists>lit\<in>set (elems clause). holds v lit))"
  by (force simp: models_def clauses_hold_def part_def Let_def)

lemma part_mono: "G \<subseteq> H \<Longrightarrow> satisfiable (part cnf H) \<Longrightarrow> satisfiable (part cnf G)"
  unfolding satisfiable_def models_part by fast

lemma fits_part:
  assumes "fits cnf"
  shows "fits (part cnf G)"
proof -
  let ?k = "filter (\<lambda>(clause, os). \<exists>o'\<in>set (elems os). o' \<in> G) (tagged cnf)"
  have "length ?k \<le> length (tagged cnf)" by (rule length_filter_le)
  also have "\<dots> \<le> length (clauses cnf)" by (simp add: tagged_def)
  finally have "int (length ?k) \<le> MaxInt64" using assms unfolding fits_def by linarith
  then show ?thesis using assms by (simp add: fits_def part_def Let_def)
qed

lemma part_all:
  assumes "length (origins cnf) = length (clauses cnf)" and "[] \<notin> set (origins cnf)"
  shows "satisfiable (part cnf (set (concat (origins cnf)))) \<longleftrightarrow> satisfiable cnf"
proof -
  have "\<exists>o'\<in>set (elems os). o' \<in> set (concat (origins cnf))" if "(clause, os) \<in> set (tagged cnf)" for clause os
  proof -
    have "os \<in> set (elems (cn_Origins cnf))" using that by (auto simp: tagged_def dest: set_zip_rightD)
    moreover from this have "elems os \<noteq> []" using assms(2) by (metis image_eqI set_map)
    ultimately show ?thesis by (cases "elems os") force+
  qed
  moreover have "map fst (tagged cnf) = elems (cn_Clauses cnf)"
    using assms(1) by (simp add: tagged_def)
  then have "clauses cnf = map (\<lambda>t. elems (fst t)) (tagged cnf)"
    by (metis (no_types, lifting) comp_apply list.map_comp map_eq_conv)
  then have "models v cnf \<longleftrightarrow> (\<forall>(clause, os)\<in>set (tagged cnf). \<exists>lit\<in>set (elems clause). holds v lit)" for v
    unfolding models_def clauses_hold_def by (simp add: case_prod_unfold)
  ultimately have "models v (part cnf (set (concat (origins cnf)))) \<longleftrightarrow> models v cnf" for v
    unfolding models_part by fast
  then show ?thesis by (simp add: satisfiable_def)
qed

section \<open>The loop\<close>

lemma localize_loop_irreducible:
  assumes "\<And>i G a. solve i (part cnf G) = (a, None) \<Longrightarrow> Require a strict = Inr () \<Longrightarrow>
      rs_Status a = UNSAT \<longleftrightarrow> \<not> satisfiable (part cnf G)"
    and "\<not> satisfiable (part cnf G)" and "\<not> lz_Minimal out"
    and "localize_loop cnf maxCalls ctxErr solve i order (G, out) = (G', out')"
  shows "G' \<subseteq> G \<and> \<not> satisfiable (part cnf G') \<and>
    (lz_Minimal out' \<longrightarrow> (\<forall>g\<in>G' \<inter> set order. satisfiable (part cnf (G' - {g}))))"
  using assms(2-)
proof (induction order arbitrary: i G out)
  case (Cons grp rest)
  obtain a err where s: "solve i (trial cnf G grp) = (a, err)" by fastforce
  let ?err = "if err = None then (case Require a strict of Inl e \<Rightarrow> Some e | Inr _ \<Rightarrow> None) else err"
  let ?out = "out\<lparr>lz_Steps := lz_Steps out @ [\<lparr>st_Removed = grp, st_Result = a, st_Error = ?err\<rparr>]\<rparr>"
  consider (stop) "G' = G" "lz_Minimal out' = lz_Minimal out"
    | (unsat) "?err = None" "rs_Status a = UNSAT" "localize_loop cnf maxCalls ctxErr solve (i + 1) rest (G - {grp}, ?out\<lparr>lz_Witness := a\<rparr>) = (G', out')"
    | (sat) "?err = None" "rs_Status a \<noteq> UNSAT" "localize_loop cnf maxCalls ctxErr solve (i + 1) rest (G, ?out) = (G', out')"
    using Cons.prems(3) s by (auto simp: Let_def split: if_split_asm)
  then show ?case
  proof cases
    case stop
    with Cons.prems show ?thesis by simp
  next
    case unsat
    have "err = None" "Require a strict = Inr ()" using unsat(1) by (auto split: if_split_asm sum.split_asm)
    with assms(1) [of i "G - {grp}" a] s unsat(2) have "\<not> satisfiable (part cnf (G - {grp}))" by (simp add: trial_part)
    with Cons.IH [OF this _ unsat(3)] Cons.prems(2) show ?thesis by auto
  next
    case sat
    have "err = None" "Require a strict = Inr ()" using sat(1) by (auto split: if_split_asm sum.split_asm)
    with assms(1) [of i "G - {grp}" a] s sat(2) have "satisfiable (part cnf (G - {grp}))" by (simp add: trial_part)
    moreover note IH = Cons.IH [OF Cons.prems(1) _ sat(3)]
    then have "G' \<subseteq> G" using Cons.prems(2) by simp
    then have "G' - {grp} \<subseteq> G - {grp}" by blast
    ultimately have "satisfiable (part cnf (G' - {grp}))" using part_mono by blast
    with IH Cons.prems(2) show ?thesis by auto
  qed
qed simp

lemma localizeConsistency_irreducible:
  assumes "\<And>i G a. solve i (part cnf G) = (a, None) \<Longrightarrow> Require a strict = Inr () \<Longrightarrow>
      rs_Status a = UNSAT \<longleftrightarrow> \<not> satisfiable (part cnf G)"
    and "length (origins cnf) = length (clauses cnf)" and "[] \<notin> set (origins cnf)" and "\<not> satisfiable cnf"
    and "core = set (lz_Conditions (localizeConsistency cnf witness maxCalls ctxErr solve))"
  shows "core \<subseteq> set (concat (origins cnf)) \<and> \<not> satisfiable (part cnf core) \<and>
    (lz_Minimal (localizeConsistency cnf witness maxCalls ctxErr solve) \<longrightarrow>
      (\<forall>g\<in>core. satisfiable (part cnf (core - {g}))))"
proof -
  let ?order = "sort (remdups (concat (origins cnf)))"
  let ?out = "\<lparr>lz_Conditions = [], lz_Minimal = False, lz_Reason = ''complete'', lz_Witness = witness, lz_Steps = []\<rparr>"
  obtain G out where run: "localize_loop cnf maxCalls ctxErr solve 0 ?order (set (concat (origins cnf)), ?out) = (G, out)" by fastforce
  have "\<not> satisfiable (part cnf (set (concat (origins cnf))))" using part_all [OF assms(2,3)] assms(4) by simp
  note inv = localize_loop_irreducible [OF assms(1) this _ run]
  then have G: "G \<subseteq> set (concat (origins cnf))" by simp
  have l: "localizeConsistency cnf witness maxCalls ctxErr solve = out\<lparr>lz_Conditions := filter (\<lambda>g. g \<in> G) ?order\<rparr>"
    using run by (simp add: localizeConsistency_def)
  have "core = G" unfolding assms(5) l using G by auto
  with inv G l show ?thesis by (simp add: Int_absorb2)
qed

section \<open>Parts of the compiled formulas\<close>

text \<open>The conditions whose prefixed identifier is in a set of names.\<close>

definition chosen :: "ConsistencyRequest \<Rightarrow> string set \<Rightarrow> ConsistencyCondition list" where
  "chosen r G = filter (\<lambda>c. ''rule:'' @ cond_ID c \<in> G) (cr_Rules r) @ filter (\<lambda>c. ''node:'' @ cond_ID c \<in> G) (cr_Evidence r)"

lemma zip_encoded:
  "zip (map Some (concat (map (encode_clauses m) cs))) (concat (map (\<lambda>c. map (\<lambda>_. Some [p @ cond_ID c]) (cond_Clauses c)) cs)) =
    concat (map (\<lambda>c. map (\<lambda>k. (Some k, Some [p @ cond_ID c])) (encode_clauses m c)) cs)"
proof (induction cs)
  case (Cons c cs)
  have "map (\<lambda>_. Some [p @ cond_ID c]) (cond_Clauses c) = map (\<lambda>_. Some [p @ cond_ID c]) (encode_clauses m c)"
    by (simp add: map_replicate_const)
  moreover have "zip (map Some ks) (map (\<lambda>_. t) ks) = map (\<lambda>k. (Some k, t)) ks" for ks :: "int list list" and t :: "string slice"
    by (induction ks) simp_all
  ultimately show ?case using Cons by (simp add: zip_append)
qed simp

lemma tagged_add:
  assumes "length (origins cnf) = length (clauses cnf)"
  shows "tagged (add_conditions m cnf cs p) =
    tagged cnf @ concat (map (\<lambda>c. map (\<lambda>k. (Some k, Some [p @ cond_ID c])) (encode_clauses m c)) (sort_key cond_ID cs))"
  using assms by (simp add: tagged_def add_conditions_def Let_def zip_append zip_encoded)

lemma models_part_add:
  assumes "well_shaped cnf" and "\<forall>a\<in>condition_atoms cs. 0 < get m a"
  shows "models v (part (add_conditions m cnf cs p) G) \<longleftrightarrow> models v (part cnf G) \<and>
    (\<forall>c\<in>set cs. p @ cond_ID c \<in> G \<longrightarrow> condition_holds (\<lambda>a. v (get m a)) c)"
proof -
  have hold: "(\<forall>k\<in>set (encode_clauses m c). \<exists>lit\<in>set k. holds v lit) \<longleftrightarrow> condition_holds (\<lambda>a. v (get m a)) c" if "c \<in> set cs" for c
    using encode_clauses_hold [of c m v] assms(2) that by (auto simp: clauses_hold_def condition_atoms_def)
  have "(\<forall>(clause, os)\<in>set (concat (map (\<lambda>c. map (\<lambda>k. (Some k, Some [p @ cond_ID c])) (encode_clauses m c)) (sort_key cond_ID cs))).
      (\<exists>o'\<in>set (elems os). o' \<in> G) \<longrightarrow> (\<exists>lit\<in>set (elems clause). holds v lit)) \<longleftrightarrow>
    (\<forall>c\<in>set cs. p @ cond_ID c \<in> G \<longrightarrow> (\<forall>k\<in>set (encode_clauses m c). \<exists>lit\<in>set k. holds v lit))"
    by simp
  then have "models v (part (add_conditions m cnf cs p) G) \<longleftrightarrow> models v (part cnf G) \<and>
    (\<forall>c\<in>set cs. p @ cond_ID c \<in> G \<longrightarrow> (\<forall>k\<in>set (encode_clauses m c). \<exists>lit\<in>set k. holds v lit))"
    using assms(1) unfolding models_part well_shaped_def by (simp only: tagged_add set_append ball_Un)
  then show ?thesis using hold by auto
qed

lemma models_part_base [simp]: "models v (part (base_cnf ks) G)"
  by (simp add: models_part tagged_def base_cnf_def)

lemma compile_parts:
  assumes "compileConsistency view r = Inr (rules, all)"
  shows "satisfiable (part all G) \<longleftrightarrow> consistent (chosen r G)"
    and "satisfiable (part rules G) \<longleftrightarrow> consistent (filter (\<lambda>c. ''rule:'' @ cond_ID c \<in> G) (cr_Rules r))"
proof -
  let ?A = "condition_atoms (cr_Rules r @ cr_Evidence r)" and ?rs = "filter (\<lambda>c. ''rule:'' @ cond_ID c \<in> G) (cr_Rules r)"
  from assms obtain m ks where c: "rules = add_conditions m (base_cnf ks) (cr_Rules r) ''rule:''"
      "all = add_conditions m rules (cr_Evidence r) ''node:''"
      "set ks = ?A" "\<forall>i<length ks. get m (ks ! i) = int i + 1"
    by (rule compile_cases)
  have range: "0 < get m a" if "a \<in> ?A" for a
    using numbered_range [OF c(4)] c(3) that by simp
  have rules: "models v (part rules G) \<longleftrightarrow> (\<forall>c\<in>set ?rs. condition_holds (\<lambda>a. v (get m a)) c)" for v
    unfolding c(1) using range by (subst models_part_add [OF well_shaped_base]) auto
  have all: "models v (part all G) \<longleftrightarrow> (\<forall>c\<in>set (chosen r G). condition_holds (\<lambda>a. v (get m a)) c)" for v
    using range rules unfolding c(2) by (subst models_part_add [OF compile_shape(1) [OF assms]]) (auto simp: chosen_def)
  have num: "represents (get m) ?A"
    unfolding represents_def c(3) [symmetric] using lift_assignment [OF c(4)] by blast
  have "condition_atoms (chosen r G) \<subseteq> ?A" "condition_atoms ?rs \<subseteq> ?A"
    by (auto simp: chosen_def condition_atoms_def)
  from consistent_numbered [OF num this(1)] consistent_numbered [OF num this(2)]
  show "satisfiable (part all G) \<longleftrightarrow> consistent (chosen r G)"
    and "satisfiable (part rules G) \<longleftrightarrow> consistent ?rs"
    unfolding satisfiable_def all rules by simp_all
qed

lemma compile_origins:
  assumes "compileConsistency view r = Inr (rules, all)"
  shows "[] \<notin> set (origins rules)" "[] \<notin> set (origins all)"
    and "set (concat (origins rules)) \<subseteq> range ((@) ''rule:'')"
proof -
  from assms obtain m ks where c: "rules = add_conditions m (base_cnf ks) (cr_Rules r) ''rule:''"
      "all = add_conditions m rules (cr_Evidence r) ''node:''"
    by (rule compile_cases)
  show r: "[] \<notin> set (origins rules)" and "set (concat (origins rules)) \<subseteq> range ((@) ''rule:'')"
    unfolding c(1) origins_add_conditions by (auto simp: base_cnf_def)
  then show "[] \<notin> set (origins all)" unfolding c(2) origins_add_conditions by auto
qed

lemma chosen_rules:
  assumes "G \<subseteq> range ((@) ''rule:'')"
  shows "chosen r G = filter (\<lambda>c. ''rule:'' @ cond_ID c \<in> G) (cr_Rules r)"
  using assms by (force simp: chosen_def filter_empty_conv)

lemma localize_compiled:
  assumes "compileConsistency view r = Inr (rules, all)" and "cnf = rules \<or> cnf = all" and "\<not> satisfiable cnf"
    and "\<And>i. drat_sound (ev_Checker (envs i))"
    and "l = localizeConsistency cnf witness maxCalls ctxErr (\<lambda>i c. Solve rn (envs (core_query q i)) (core_query q i) c)"
  shows "\<not> consistent (chosen r (set (lz_Conditions l))) \<and>
    (lz_Minimal l \<longrightarrow> (\<forall>g\<in>set (lz_Conditions l). consistent (chosen r (set (lz_Conditions l) - {g}))))"
proof -
  let ?core = "set (lz_Conditions l)"
  have fits: "fits cnf" and len: "length (origins cnf) = length (clauses cnf)" and ne: "[] \<notin> set (origins cnf)"
    using assms(2) compile_shape [OF assms(1)] compile_origins [OF assms(1)] by (auto simp: well_shaped_def)
  have solve: "rs_Status a = UNSAT \<longleftrightarrow> \<not> satisfiable (part cnf G)"
    if "Solve rn (envs (core_query q i)) (core_query q i) (part cnf G) = (a, None)" "Require a strict = Inr ()" for i G a
    by (rule Solve_satisfiable [OF that fits_part [OF fits] assms(4)])
  have "?core \<subseteq> set (concat (origins cnf)) \<and> \<not> satisfiable (part cnf ?core) \<and>
    (lz_Minimal l \<longrightarrow> (\<forall>g\<in>?core. satisfiable (part cnf (?core - {g}))))"
    unfolding assms(5) by (rule localizeConsistency_irreducible [OF solve len ne assms(3) refl])
  then have core: "?core \<subseteq> set (concat (origins cnf))" "\<not> satisfiable (part cnf ?core)"
    "lz_Minimal l \<longrightarrow> (\<forall>g\<in>?core. satisfiable (part cnf (?core - {g})))" by blast+
  have part: "satisfiable (part cnf G) \<longleftrightarrow> consistent (chosen r G)" if "G \<subseteq> ?core" for G
  proof (cases "cnf = all")
    case True
    then show ?thesis using compile_parts(1) [OF assms(1)] by simp
  next
    case False
    then have "cnf = rules" using assms(2) by blast
    moreover from this have "G \<subseteq> range ((@) ''rule:'')"
      using that core(1) compile_origins(3) [OF assms(1)] by blast
    ultimately show ?thesis using compile_parts(2) [OF assms(1)] chosen_rules by simp
  qed
  have "?core - {g} \<subseteq> ?core" for g by blast
  with core(2,3) part show ?thesis by simp
qed

lemma diagnose_checked_None:
  assumes "diagnose_checked runner envs ctxErr q r n res err = (out, None)"
    and "cs_Outcome (dg_Result out) \<in> {ConsistencyConflict, ConsistencyInvalidRules}"
  obtains rules all w where "err = None" and "dg_Result out = res"
    and "compileConsistency (fst (consistencySelectedView (cs_View res))) r = Inr (rules, all)"
    and "dg_Localization out = localizeConsistency (if cs_Outcome res = ConsistencyInvalidRules then rules else all) w n ctxErr
      (\<lambda>i c. Solve (the runner) (envs (core_query q i)) (core_query q i) c)"
proof (cases "err \<noteq> None \<or> cs_Outcome res \<noteq> ConsistencyConflict \<and> cs_Outcome res \<noteq> ConsistencyInvalidRules")
  case True
  with assms show thesis by (auto simp: diagnose_checked_def Let_def)
next
  case False
  with assms(1) obtain rules all where "compileConsistency (fst (consistencySelectedView (cs_View res))) r = Inr (rules, all)"
    and "out = \<lparr>dg_Result = res, dg_Localization = localizeConsistency (if cs_Outcome res = ConsistencyInvalidRules then rules else all)
      (if cs_Outcome res = ConsistencyInvalidRules then cs_Rules res else cs_Declarations res) n ctxErr
      (\<lambda>i c. Solve (the runner) (envs (core_query q i)) (core_query q i) c)\<rparr>"
    unfolding diagnose_checked_def Let_def if_not_P [OF False] returning_None
    by (cases "cs_Outcome res = ConsistencyInvalidRules") auto
  with False that show thesis by simp
qed

lemma diagnosed:
  assumes "checkConsistency runner envs q r read = (res, err)"
    and "diagnose_checked runner envs ctxErr q r n res err = (out, None)"
    and "cs_Outcome (dg_Result out) \<in> {ConsistencyConflict, ConsistencyInvalidRules}"
    and "\<forall>i. drat_sound (ev_Checker (envs i))"
    and "core = set (lz_Conditions (dg_Localization out))"
  shows "\<not> consistent (chosen r core) \<and>
    (lz_Minimal (dg_Localization out) \<longrightarrow> (\<forall>g\<in>core. consistent (chosen r (core - {g}))))"
proof -
  from assms(2,3) obtain rules all w where err: "err = None" and res: "dg_Result out = res"
    and c: "compileConsistency (fst (consistencySelectedView (cs_View res))) r = Inr (rules, all)"
    and loc: "dg_Localization out = localizeConsistency (if cs_Outcome res = ConsistencyInvalidRules then rules else all) w n ctxErr
      (\<lambda>i c. Solve (the runner) (envs (core_query q i)) (core_query q i) c)"
    by (rule diagnose_checked_None)
  have "cs_Outcome res \<noteq> ConsistencyInconclusive" using assms(3) res by auto
  from checkConsistency_sound_outcome [OF assms(1) [unfolded err] this assms(4)]
  have outcome: "cs_Outcome res = (if \<not> consistent (cr_Rules r) then ConsistencyInvalidRules
       else if consistent (cr_Rules r @ cr_Evidence r) then ConsistencyCompatible else ConsistencyConflict)" by blast
  let ?cnf = "if cs_Outcome res = ConsistencyInvalidRules then rules else all"
  have "\<not> satisfiable ?cnf"
  proof (cases "consistent (cr_Rules r)")
    case True
    then have "\<not> consistent (cr_Rules r @ cr_Evidence r)" "cs_Outcome res = ConsistencyConflict"
      using outcome assms(3) res by (auto split: if_split_asm)
    then show ?thesis using compile_satisfiable(2) [OF c] by simp
  next
    case False
    then show ?thesis using outcome compile_satisfiable(1) [OF c] by simp
  qed
  moreover have "?cnf = rules \<or> ?cnf = all" by simp
  ultimately show ?thesis
    unfolding assms(5) using localize_compiled [OF c _ _ spec [OF assms(4)] loc] by blast
qed

text \<open>C12. A localised conflict is a real and, when it is marked minimal, an irreducible one, if the proof checker keeps
  its promise: the listed conditions cannot hold together, and without any single one of them the others can.\<close>

theorem diagnoseConsistency_irreducible:
  assumes "diagnoseConsistency runner envs ctxErr q r maxCalls read = (out, None)"
    and "cs_Outcome (dg_Result out) \<in> {ConsistencyConflict, ConsistencyInvalidRules}"
    and "\<forall>i. drat_sound (ev_Checker (envs i))"
    and "core = set (lz_Conditions (dg_Localization out))"
  shows "\<not> consistent (chosen r core) \<and>
    (lz_Minimal (dg_Localization out) \<longrightarrow> (\<forall>g\<in>core. consistent (chosen r (core - {g}))))"
proof -
  obtain res err where chk: "checkConsistency runner envs q r read = (res, err)" by fastforce
  have "\<exists>n. diagnose_checked runner envs ctxErr q r n res err = (out, None)"
    using assms(1) chk by (auto simp: diagnoseConsistency_def Let_def split: if_split_asm)
  with diagnosed [OF chk _ assms(2-4)] show ?thesis by blast
qed

text \<open>The sample: without the rule \<open>r\<close> nothing is left, which the solver reports as satisfiable.\<close>

definition true_cnf :: CNF where
  "true_cnf = \<lparr>cn_Variables = None, cn_Clauses = None, cn_Origins = None\<rparr>"

abbreviation sat_output :: string where
  "sat_output \<equiv> ''s SATISFIABLE'' @ [newline] @ ''v 0''"

lemma sat_output_assignment: "assignment sat_output 0 = Inr []"
proof -
  have lines: "scan_lines [] sat_output = [''s SATISFIABLE'', ''v 0'']" by code_simp
  have f: "Fields (drop_cr ''s SATISFIABLE'') = [''s'', ''SATISFIABLE'']" "Fields (drop_cr ''v 0'') = [''v'', ''0'']"
    using fields_line [of "[''SATISFIABLE'']" "''s''"] fields_line [of "[''0'']" "''v''"]
    by (simp_all add: word_text_def solid_def drop_cr_def)
  have "assign_line 0 st ''s SATISFIABLE'' = Inr st" "assign_line 0 ([], False) ''v 0'' = Inr ([], True)" for st
    by (simp_all add: assign_line_def f MaxLine_def assign_part_def)
  then show ?thesis by (simp add: assignment_def lines)
qed

lemma true_cnf_answer:
  assumes "safeID q"
  shows "\<exists>a. Solve sample_runner (sample_env 10 sat_output) q true_cnf = (a, None) \<and> Require a strict = Inr () \<and> rs_Status a = SAT"
proof -
  have q: "Query None q = Inr ()" using assms by (simp add: Query_def)
  have "length (marshal (cnf_json true_cnf)) \<le> 1000" by code_simp
  moreover have "CheckCNF sample_limits true_cnf = Inr ()" "WriteDIMACS true_cnf = Inr (''p cnf 0 0'' @ [newline])" by code_simp+
  moreover have "exactLine sat_output ''s SATISFIABLE''" "\<not> exactLine sat_output ''s UNSATISFIABLE''"
    "\<not> exactLine sat_output ''s UNKNOWN''" "hasAssignment sat_output" by code_simp+
  moreover have "CheckAssignment true_cnf [] = Inr ()" "width true_cnf = 0" by code_simp+
  moreover have "sha256_hex x \<noteq> []" for x by (metis length_sha256_hex length_0_conv zero_neq_numeral)
  ultimately show ?thesis
    using q sat_output_assignment
    by (simp add: Solve_def sample_runner_def sample_env_def sample_limits_def Let_def Save_def solve_answer_def
        solve_sat_def Finish_def Require_def strict_def initial_result_def no_validation_def)
qed

definition sample_envs :: "string \<Rightarrow> SolveEnv" where
  "sample_envs qid = (if qid = core_query ''q'' 0 then sample_env 10 sat_output else sample_env 20 ''s UNSATISFIABLE'')"

lemma sample_diagnosis:
  "\<exists>out. diagnoseConsistency (Some sample_runner) sample_envs (\<lambda>_. None) ''q'' false_request 0 (\<lambda>_. Inr sample_view) = (out, None) \<and>
    cs_Outcome (dg_Result out) = ConsistencyInvalidRules \<and> lz_Conditions (dg_Localization out) = [''rule:r''] \<and>
    lz_Minimal (dg_Localization out)"
proof -
  obtain all where c: "compileConsistency sample_view false_request = Inr (false_cnf, all)" using false_compile by blast
  have "core_query ''q'' 0 = ''q-core-0''" by code_simp
  then have e: "sample_envs ''q-rules'' = sample_env 20 ''s UNSATISFIABLE''" "sample_envs (core_query ''q'' 0) = sample_env 10 sat_output"
    and "safeID (core_query ''q'' 0)" "safeID ''q-rules''"
    by (simp_all add: sample_envs_def safeID_def alnum_def)
  then obtain a b where a: "Solve sample_runner (sample_env 20 ''s UNSATISFIABLE'') ''q-rules'' false_cnf = (a, None)"
      "Require a strict = Inr ()" "rs_Status a = UNSAT"
    and b: "Solve sample_runner (sample_env 10 sat_output) (core_query ''q'' 0) true_cnf = (b, None)"
      "Require b strict = Inr ()" "rs_Status b = SAT"
    using false_cnf_answer true_cnf_answer by metis
  have v: "consistencySelectedView sample_view = (sample_view, True)"
    by (simp add: consistencySelectedView_def sample_view_def)
  have r: "cr_ExpectedViewID false_request = ''view''" "cr_RuleVersion false_request = ''v1''"
    "vw_ID sample_view = ''view''" "vw_Members sample_view \<noteq> []"
    by (simp_all add: false_request_def sample_request_def sample_view_def)
  obtain res where res: "checkConsistency (Some sample_runner) sample_envs ''q'' false_request (\<lambda>_. Inr sample_view) = (res, None)"
    "cs_Outcome res = ConsistencyInvalidRules" "cs_View res = sample_view"
    using c a v r sample_texts e(1) by (simp add: checkConsistency_def check_formulas_def solve_strict_def Let_def initial_check_def)
  have o': "origins false_cnf = [[''rule:r'']]" by (simp add: false_cnf_def)
  have t: "trial false_cnf {''rule:r''} ''rule:r'' = true_cnf"
    by (simp add: trial_def false_cnf_def true_cnf_def nil_append_def)
  have l: "lz_Conditions (localizeConsistency false_cnf w 64 (\<lambda>_. None) solve) = [''rule:r''] \<and>
      lz_Minimal (localizeConsistency false_cnf w 64 (\<lambda>_. None) solve)" if "solve 0 true_cnf = (b, None)" for w solve
    using that b(2,3) by (simp add: localizeConsistency_def o' t Let_def)
  show ?thesis
    using res c v l [of "\<lambda>i trial_cnf. Solve sample_runner (sample_envs (core_query ''q'' i)) (core_query ''q'' i) trial_cnf"] b(1)
    unfolding e(2) [symmetric] by (simp add: diagnoseConsistency_def diagnose_checked_def Let_def)
qed

theorem diagnoseConsistency_irreducible_witness:
  "\<not> consistent (chosen false_request {''rule:r''}) \<and> consistent (chosen false_request {})"
proof -
  obtain out where o: "diagnoseConsistency (Some sample_runner) sample_envs (\<lambda>_. None) ''q'' false_request 0 (\<lambda>_. Inr sample_view) = (out, None)"
    "cs_Outcome (dg_Result out) = ConsistencyInvalidRules" "lz_Conditions (dg_Localization out) = [''rule:r'']"
    "lz_Minimal (dg_Localization out)"
    using sample_diagnosis by blast
  have "\<forall>i. drat_sound (ev_Checker (sample_envs i))"
    by (simp add: sample_envs_def sample_env_def empty_clause_checker_sound)
  from diagnoseConsistency_irreducible [OF o(1) _ this refl] o(2-4) show ?thesis by simp
qed

end
