(* ===== verification/IngestionBase.thy ===== *)
theory IngestionBase
  imports Sha256 GoTime
begin

text \<open>
  What the packages of \<open>src/internal/evidenceingestion\<close> share: the error kinds of \<open>errors.go\<close>, the
  identities and hashes of \<open>ids.go\<close>, and the relational store under them.  A table is the list of its
  rows in insertion order, a query with \<open>LIMIT 1\<close> or a unique key the first matching row, an update
  a map over the rows.  A nullable text column is a string whose empty value is \<open>NULL\<close>: every query of
  the package reads it through \<open>COALESCE(c, '')\<close> and every write passes it through \<open>nullableString\<close>,
  so the column never holds an empty string.
\<close>

section \<open>Errors\<close>

type_synonym ErrorKind = string

abbreviation "ErrorInvalidUTF8 \<equiv> ''invalid_utf8''"
abbreviation "ErrorUnknownSpan \<equiv> ''unknown_span''"
abbreviation "ErrorSpanOutOfBounds \<equiv> ''span_out_of_bounds''"
abbreviation "ErrorQuotedHashMismatch \<equiv> ''quoted_hash_mismatch''"
abbreviation "ErrorDuplicateProposalLocalID \<equiv> ''duplicate_proposal_local_id''"
abbreviation "ErrorMissingSourceViewAttempt \<equiv> ''missing_source_view_attempt''"
abbreviation "ErrorOccurrenceConflict \<equiv> ''occurrence_conflict''"
abbreviation "ErrorInvalidInput \<equiv> ''invalid_input''"
abbreviation "ErrorInvalidRecordID \<equiv> ''invalid_record_id''"
abbreviation "ErrorPersistedAttemptFailed \<equiv> ''persisted_attempt_failed''"
abbreviation "ErrorIdempotencyKeyReused \<equiv> ''idempotency_key_reused''"
abbreviation "ErrorRepositoryRevisionMismatch \<equiv> ''repository_revision_mismatch''"
abbreviation "ErrorRepositorySnapshotIntegrity \<equiv> ''repository_snapshot_integrity''"
abbreviation "ErrorRunnerInvocationFailed \<equiv> ''runner_invocation_failed''"
abbreviation "ErrorRunnerInvocationTimeout \<equiv> ''runner_invocation_timeout''"
abbreviation "ErrorRunnerInvocationCancelled \<equiv> ''runner_invocation_cancelled''"
abbreviation "ErrorInvalidExtractorOutput \<equiv> ''invalid_extractor_output''"
abbreviation "ErrorUnsupportedAdmission \<equiv> ''unsupported_admission''"
abbreviation "ErrorAdmissionStateConflict \<equiv> ''admission_state_conflict''"
abbreviation "ErrorSourceGenerationConflict \<equiv> ''source_generation_conflict''"
abbreviation "ErrorChangeObservationConflict \<equiv> ''change_observation_conflict''"
abbreviation "ErrorRepositoryWorkConflict \<equiv> ''repository_work_conflict''"
abbreviation "ErrorRepositoryWorkLeaseExpired \<equiv> ''repository_work_lease_expired''"

text \<open>
  A \<open>DomainError\<close> of a kind, \<open>pgx.ErrNoRows\<close> (wrapped or not), or another error of the store: a
  violated key or a value out of the column's range.  The texts of the messages, which no
  operation reads, are left out.
\<close>

datatype ingestion_error = Domain ErrorKind | NoRows | Violation

type_synonym 'a ingestion = "ingestion_error + 'a"

text \<open>\<open>if errors.Is(err, pgx.ErrNoRows) { return newDomainError(kind, ...) }\<close>\<close>

fun absent_as :: "ErrorKind \<Rightarrow> 'a ingestion \<Rightarrow> 'a ingestion" where
  "absent_as k (Inl NoRows) = Inl (Domain k)"
| "absent_as k m = m"

lemma absent_as_Inr [returns]: "absent_as k m = Inr x \<longleftrightarrow> m = Inr x"
  by (cases "(k, m)" rule: absent_as.cases) auto

definition require :: "bool \<Rightarrow> ErrorKind \<Rightarrow> unit ingestion" where
  "require b k = (if b then Inr () else Inl (Domain k))"

lemma require_Inr [returns]: "require b k = Inr u \<longleftrightarrow> b"
  by (simp add: require_def)

lemma require_simps [simp]: "require True k = Inr ()" "require False k = Inl (Domain k)"
  by (simp_all add: require_def)

section \<open>Identities\<close>

abbreviation "stableIDVersion \<equiv> ''ahe-ingestion-id-v1''"

definition stableID :: "string \<Rightarrow> string \<Rightarrow> json \<Rightarrow> string" where
  "stableID p kd flds =
    p @ sha256_hex (marshal (JObj [(''version'', JStr stableIDVersion), (''kind'', JStr kd), (''fields'', flds)]))"

definition contentHash :: "string \<Rightarrow> string" where
  "contentHash data = ''sha256:'' @ sha256_hex data"

section \<open>Tables\<close>

definition row :: "('r \<Rightarrow> bool) \<Rightarrow> 'r list \<Rightarrow> 'r option" where
  "row P rows = find P rows"

definition the_row :: "('r \<Rightarrow> bool) \<Rightarrow> 'r list \<Rightarrow> 'r ingestion" where
  "the_row P rows = (case row P rows of None \<Rightarrow> Inl NoRows | Some r \<Rightarrow> Inr r)"

definition update_rows :: "('r \<Rightarrow> bool) \<Rightarrow> ('r \<Rightarrow> 'r) \<Rightarrow> 'r list \<Rightarrow> 'r list" where
  "update_rows P f rows = map (\<lambda>r. if P r then f r else r) rows"

text \<open>\<open>tag.RowsAffected()\<close>\<close>

definition rows_affected :: "('r \<Rightarrow> bool) \<Rightarrow> 'r list \<Rightarrow> nat" where
  "rows_affected P rows = length (filter P rows)"

text \<open>An insert fails when a unique key of the new row is taken.\<close>

definition insert_row :: "('r \<Rightarrow> 'r \<Rightarrow> bool) \<Rightarrow> 'r \<Rightarrow> 'r list \<Rightarrow> 'r list ingestion" where
  "insert_row clash r rows = (if list_ex (clash r) rows then Inl Violation else Inr (rows @ [r]))"

text \<open>The range of an \<open>INTEGER\<close> column.\<close>

definition int4 :: "int \<Rightarrow> bool" where
  "int4 n \<longleftrightarrow> - 2147483648 \<le> n \<and> n \<le> 2147483647"

lemma row_Some: "row P rows = Some r \<Longrightarrow> r \<in> set rows \<and> P r"
  by (auto simp: row_def find_Some_iff)

lemma row_None: "row P rows = None \<longleftrightarrow> (\<forall>r\<in>set rows. \<not> P r)"
  by (auto simp: row_def find_None_iff)

lemma the_row_Inr [returns]: "the_row P rows = Inr r \<longleftrightarrow> row P rows = Some r"
  by (auto simp: the_row_def split: option.splits)

lemma insert_row_Inr [returns]:
  "insert_row clash r rows = Inr rows' \<longleftrightarrow> rows' = rows @ [r] \<and> (\<forall>q\<in>set rows. \<not> clash r q)"
  by (auto simp: insert_row_def list_ex_iff)

lemma set_update_rows: "set (update_rows P f rows) = f ` {r \<in> set rows. P r} \<union> {r \<in> set rows. \<not> P r}"
  by (auto simp: update_rows_def image_def)

lemma in_update_rows:
  "r \<in> set (update_rows P f rows) \<longleftrightarrow> (\<exists>q\<in>set rows. r = (if P q then f q else q))"
  by (auto simp: update_rows_def)

lemma map_update_rows [simp]: "(\<And>r. k (f r) = k r) \<Longrightarrow> map k (update_rows P f rows) = map k rows"
  by (simp add: update_rows_def)

lemma update_rows_append [simp]: "update_rows P f (xs @ ys) = update_rows P f xs @ update_rows P f ys"
  by (simp add: update_rows_def)

text \<open>A key names one row.\<close>

lemma keyed: "distinct (map k rows) \<Longrightarrow> r \<in> set rows \<Longrightarrow> r' \<in> set rows \<Longrightarrow> k r = k r' \<Longrightarrow> r = r'"
  by (auto simp: distinct_map inj_on_def)

lemma row_key:
  assumes "distinct (map k rows)"
  shows "row (\<lambda>r. k r = x) rows = Some r \<longleftrightarrow> r \<in> set rows \<and> k r = x"
proof
  assume r: "r \<in> set rows \<and> k r = x"
  then obtain q where q: "row (\<lambda>r. k r = x) rows = Some q"
    using row_None[of "\<lambda>r. k r = x" rows] by (cases "row (\<lambda>r. k r = x) rows") auto
  then have "q = r" using keyed[OF assms] r row_Some[OF q] by metis
  with q show "row (\<lambda>r. k r = x) rows = Some r" by simp
qed (use row_Some in fastforce)

lemma row_append: "row P (xs @ ys) = (case row P xs of None \<Rightarrow> row P ys | Some r \<Rightarrow> Some r)"
  by (induction xs) (auto simp: row_def)

lemma filter_eq_one: "distinct rows \<Longrightarrow> r \<in> set rows \<Longrightarrow> filter (\<lambda>q. q = r) rows = [r]"
proof (induction rows)
  case (Cons q rows)
  then show ?case by (cases "q = r") (auto simp: filter_empty_conv)
qed simp

lemma rows_affected_one:
  assumes "distinct (map k rows)" "r \<in> set rows" "P r" "\<And>q. P q \<Longrightarrow> k q = k r"
  shows "rows_affected P rows = 1"
proof -
  have "filter P rows = filter (\<lambda>q. q = r) rows"
  proof (rule filter_cong)
    fix q assume "q \<in> set rows"
    show "P q \<longleftrightarrow> q = r"
    proof
      assume "P q"
      then have "k q = k r" by (rule assms(4))
      then show "q = r" by (rule keyed[OF assms(1) \<open>q \<in> set rows\<close> assms(2)])
    qed (use assms(3) in simp)
  qed simp
  moreover have "distinct rows" using assms(1) by (simp add: distinct_map)
  then have "filter (\<lambda>q. q = r) rows = [r]" using assms(2) by (rule filter_eq_one)
  ultimately show ?thesis by (simp add: rows_affected_def)
qed

text \<open>An update that hits the one row \<open>r\<close>, in the form the proofs use.\<close>

definition replace :: "'r \<Rightarrow> 'r \<Rightarrow> 'r list \<Rightarrow> 'r list" where
  "replace r r' rows = map (\<lambda>q. if q = r then r' else q) rows"

lemma in_replace: "x \<in> set (replace r r' rows) \<longleftrightarrow> x = r' \<and> r \<in> set rows \<or> x \<in> set rows \<and> x \<noteq> r"
  by (auto simp: replace_def)

lemma map_replace [simp]: "k r' = k r \<Longrightarrow> map k (replace r r' rows) = map k rows"
  by (simp add: replace_def)

lemma length_replace [simp]: "length (replace r r' rows) = length rows"
  by (simp add: replace_def)

lemma update_rows_one:
  assumes "distinct (map k rows)" "r \<in> set rows" "P r" "\<And>q. P q \<Longrightarrow> k q = k r"
  shows "update_rows P f rows = replace r (f r) rows"
  unfolding update_rows_def replace_def
proof (rule map_cong)
  fix q assume "q \<in> set rows"
  then have "P q \<longleftrightarrow> q = r" using keyed[OF assms(1) _ assms(2)] assms(3,4) by blast
  then show "(if P q then f q else q) = (if q = r then f r else q)" by simp
qed simp

lemma rows_affected_hit:
  assumes "rows_affected P rows = 1"
  obtains r where "r \<in> set rows" "P r"
proof -
  obtain r where "r \<in> set (filter P rows)" using assms by (cases "filter P rows") (auto simp: rows_affected_def)
  with that show thesis by auto
qed

lemma map_filter_cong:
  "map (\<lambda>x. (p x, f x)) xs = map (\<lambda>y. (p y, f y)) ys \<Longrightarrow>
   map f (filter (\<lambda>x. p x = i) xs) = map f (filter (\<lambda>y. p y = i) ys)"
proof (induction xs arbitrary: ys)
  case (Cons x xs)
  then show ?case by (cases ys) auto
qed simp

section \<open>Instants in a column\<close>

text \<open>
  A \<open>TIMESTAMPTZ\<close> column keeps an instant at its own precision (the driver sends whole microseconds),
  so what is read back is \<open>ts t\<close> for the encoding \<open>ts\<close> of the column, a parameter of every
  operation.  The encoding rounds down, keeps the order, and moves with whole milliseconds.
\<close>

abbreviation Millisecond :: time where "Millisecond \<equiv> 1000000"

definition timestamp_column :: "(time \<Rightarrow> time) \<Rightarrow> bool" where
  "timestamp_column ts \<longleftrightarrow>
    (\<forall>t. ts t \<le> t) \<and> mono ts \<and> (\<forall>t. ts (ts t) = ts t) \<and> (\<forall>t k. ts (t + k * Millisecond) = ts t + k * Millisecond)"

definition microseconds :: "time \<Rightarrow> time" where
  "microseconds t = t div 1000 * 1000"

lemma timestamp_microseconds: "timestamp_column microseconds"
proof -
  have "t div 1000 * 1000 \<le> t" for t :: int by (simp add: minus_mod_eq_div_mult [symmetric])
  moreover have "mono microseconds" by (auto simp: mono_def microseconds_def zdiv_mono1)
  moreover have "(t + k * 1000000) div 1000 * 1000 = t div 1000 * 1000 + k * 1000000" for t k :: int
    using div_mult_self1[of 1000 t "k * 1000"] by (simp add: algebra_simps)
  ultimately show ?thesis by (simp add: timestamp_column_def microseconds_def)
qed

lemma ts_floor: "timestamp_column ts \<Longrightarrow> ts t \<le> t"
  by (simp add: timestamp_column_def)

lemma ts_mono: "timestamp_column ts \<Longrightarrow> s \<le> t \<Longrightarrow> ts s \<le> ts t"
  by (auto simp: timestamp_column_def mono_def)

lemma ts_idem [simp]: "timestamp_column ts \<Longrightarrow> ts (ts t) = ts t"
  by (simp add: timestamp_column_def)

lemma ts_shift: "timestamp_column ts \<Longrightarrow> ts (t + k * Millisecond) = ts t + k * Millisecond"
  by (simp add: timestamp_column_def)

text \<open>Against an instant that came out of a column, rounding changes neither comparison.\<close>

lemma ts_before: "timestamp_column ts \<Longrightarrow> t < ts s \<Longrightarrow> ts t < ts s"
  using ts_floor[of ts t] by simp

lemma ts_not_before: "timestamp_column ts \<Longrightarrow> ts s \<le> t \<Longrightarrow> ts s \<le> ts t"
  using ts_mono[of ts "ts s" t] by simp

end
