(* ===== verification/GitObservation.thy ===== *)
theory GitObservation
  imports IngestionBase
begin

text \<open>
  Change observations of a Git repository, \<open>git_repository_change_observation.go\<close>: an inspection of a
  worktree is checked, coalesced with the latest window of its repository when the change token is
  the same, and otherwise opens the next window; a request is stable once its window is older than
  the stability window.  Running \<open>git\<close> to make the inspection is outside the model: the inspection
  is the input.
\<close>

section \<open>Data\<close>

abbreviation "GitRepositoryChangeTokenV1 \<equiv> ''git-head-dirty-token-v1''"
abbreviation "GitRepositoryDirtyFingerprintV1 \<equiv> ''git-status-diff-untracked-v1''"

definition GitRepositoryChangeMaxStabilityWindow :: time where
  "GitRepositoryChangeMaxStabilityWindow = 3600000 * Millisecond"

record GitRepositoryChangeInspection =
  gi_TokenContract :: string
  gi_DirtyFingerprintContract :: string
  gi_RepoID :: string
  gi_HeadCommitSHA :: string
  gi_Dirty :: bool
  gi_DirtyFingerprint :: string
  gi_TrackedChangeCount :: int
  gi_UntrackedFileCount :: int
  gi_ChangeToken :: string

record GitRepositoryChangeObservationResult =
  go_RequestID :: string
  go_ObservationID :: string
  go_ObservationNumber :: int
  go_PreviousObservationID :: string
  go_Inspection :: GitRepositoryChangeInspection
  go_FirstObservedAt :: time
  go_LastObservedAt :: time
  go_ObservationCount :: int
  go_StabilityWindowMillis :: int
  go_StableAfter :: time
  go_Changed :: bool
  go_Coalesced :: bool
  go_Stable :: bool
  go_Replayed :: bool

record gitRepositoryChangeObservationInput =
  gc_RequestID :: string
  gc_StabilityWindow :: time
  gc_Inspection :: GitRepositoryChangeInspection

text \<open>A row of \<open>repository_change_observations\<close>, as \<open>scanGitRepositoryChangeWindow\<close> reads it.\<close>

record gitRepositoryChangeWindow =
  gw_id :: string
  gw_repoID :: string
  gw_number :: int
  gw_previousObservationID :: string
  gw_inspection :: GitRepositoryChangeInspection
  gw_firstObservedAt :: time
  gw_lastObservedAt :: time
  gw_observationCount :: int

text \<open>A row of \<open>repository_change_observation_requests\<close>.\<close>

record changeObservationRequest =
  oq_request_id :: string
  oq_observation_id :: string
  oq_repo_id :: string
  oq_payload_hash :: string
  oq_observed_at :: time
  oq_window_milliseconds :: int
  oq_observation_count :: int
  oq_changed :: bool
  oq_coalesced :: bool
  oq_stable_after :: time
  oq_stable :: bool

text \<open>The tables: locked streams, windows and requests.\<close>

record observationDB =
  git_streams :: "string list"
  windows :: "gitRepositoryChangeWindow list"
  observation_requests :: "changeObservationRequest list"

section \<open>Validation\<close>

definition validateGitRepositoryChangeObservationRequest :: "string \<Rightarrow> time \<Rightarrow> (string \<times> time) ingestion" where
  "validateGitRepositoryChangeObservationRequest requestID stabilityWindow =
    (let requestID = trim_space requestID in
     if requestID = [] then Inl (Domain ErrorInvalidInput)
     else if stabilityWindow < Millisecond \<or> GitRepositoryChangeMaxStabilityWindow < stabilityWindow \<or>
       stabilityWindow mod Millisecond \<noteq> 0 then Inl (Domain ErrorInvalidInput)
     else Inr (requestID, stabilityWindow))"

definition lower_hex :: "char \<Rightarrow> bool" where
  "lower_hex c \<longleftrightarrow> c \<in> set ''0123456789abcdef''"

definition isCanonicalGitObjectID :: "string \<Rightarrow> bool" where
  "isCanonicalGitObjectID v \<longleftrightarrow> (length v = 40 \<or> length v = 64) \<and> list_all lower_hex v"

definition isSHA256ContentHash :: "string \<Rightarrow> bool" where
  "isSHA256ContentHash v \<longleftrightarrow>
    length v = length ''sha256:'' + 64 \<and> has_prefix v ''sha256:'' \<and> list_all lower_hex (drop (length ''sha256:'') v)"

definition gitRepositoryChangeToken :: "string \<Rightarrow> string \<Rightarrow> string \<Rightarrow> string" where
  "gitRepositoryChangeToken repoID headCommitSHA dirtyFingerprint =
    contentHash (marshal (JObj ([(''contract'', JStr GitRepositoryChangeTokenV1), (''repo_id'', JStr repoID),
      (''head_commit_sha'', JStr headCommitSHA)] @ omitempty ''dirty_fingerprint'' dirtyFingerprint)))"

definition validateGitRepositoryChangeInspection ::
  "GitRepositoryChangeInspection \<Rightarrow> GitRepositoryChangeInspection ingestion" where
  "validateGitRepositoryChangeInspection inspection =
    (let i = inspection\<lparr>gi_RepoID := trim_space (gi_RepoID inspection)\<rparr> in
     if gi_RepoID i = [] then Inl (Domain ErrorInvalidInput)
     else if gi_TokenContract i \<noteq> GitRepositoryChangeTokenV1 then Inl (Domain ErrorInvalidInput)
     else if gi_DirtyFingerprintContract i \<noteq> GitRepositoryDirtyFingerprintV1 then Inl (Domain ErrorInvalidInput)
     else if \<not> isCanonicalGitObjectID (gi_HeadCommitSHA i) then Inl (Domain ErrorInvalidInput)
     else if gi_TrackedChangeCount i < 0 \<or> gi_UntrackedFileCount i < 0 then Inl (Domain ErrorInvalidInput)
     else if gi_Dirty i \<and> (\<not> isSHA256ContentHash (gi_DirtyFingerprint i) \<or>
       wrap64 (gi_TrackedChangeCount i + gi_UntrackedFileCount i) = 0) then Inl (Domain ErrorInvalidInput)
     else if \<not> gi_Dirty i \<and> (gi_DirtyFingerprint i \<noteq> [] \<or> gi_TrackedChangeCount i \<noteq> 0 \<or>
       gi_UntrackedFileCount i \<noteq> 0) then Inl (Domain ErrorInvalidInput)
     else if gi_ChangeToken i \<noteq> gitRepositoryChangeToken (gi_RepoID i) (gi_HeadCommitSHA i) (gi_DirtyFingerprint i)
       then Inl (Domain ErrorChangeObservationConflict)
     else Inr i)"

definition inspection_json :: "GitRepositoryChangeInspection \<Rightarrow> json" where
  "inspection_json i = JObj ([(''token_contract'', JStr (gi_TokenContract i)),
    (''dirty_fingerprint_contract'', JStr (gi_DirtyFingerprintContract i)), (''repo_id'', JStr (gi_RepoID i)),
    (''head_commit_sha'', JStr (gi_HeadCommitSHA i)), (''dirty'', JBool (gi_Dirty i))]
    @ omitempty ''dirty_fingerprint'' (gi_DirtyFingerprint i)
    @ [(''tracked_change_count'', JInt (gi_TrackedChangeCount i)),
       (''untracked_file_count'', JInt (gi_UntrackedFileCount i)), (''change_token'', JStr (gi_ChangeToken i))])"

definition gitRepositoryChangeObservationPayloadHash :: "GitRepositoryChangeInspection \<Rightarrow> time \<Rightarrow> string" where
  "gitRepositoryChangeObservationPayloadHash i stabilityWindow =
    contentHash (marshal (JObj [(''inspection'', inspection_json i),
      (''stability_window_milliseconds'', JInt (stabilityWindow div Millisecond))]))"

section \<open>Reading and writing windows\<close>

definition scanGitRepositoryChangeWindow :: "gitRepositoryChangeWindow \<Rightarrow> gitRepositoryChangeWindow" where
  "scanGitRepositoryChangeWindow w = w\<lparr>gw_inspection := (gw_inspection w)\<lparr>gi_RepoID := gw_repoID w\<rparr>\<rparr>"

text \<open>\<open>ORDER BY observation_number DESC LIMIT 1\<close>\<close>

definition readLatestGitRepositoryChangeWindow ::
  "'a observationDB_scheme \<Rightarrow> string \<Rightarrow> gitRepositoryChangeWindow option" where
  "readLatestGitRepositoryChangeWindow db repoID =
    (case filter (\<lambda>w. gw_repoID w = repoID) (windows db) of
       [] \<Rightarrow> None
     | w # ws \<Rightarrow> Some (scanGitRepositoryChangeWindow (fold (\<lambda>w m. if gw_number m < gw_number w then w else m) ws w)))"

definition observation_id :: "string \<Rightarrow> int \<Rightarrow> string \<Rightarrow> string" where
  "observation_id repoID number token =
    stableID ''change-observation:'' ''repository_change_observation''
      (JObj [(''repo_id'', JStr repoID), (''observation_number'', JInt number), (''change_token'', JStr token)])"

text \<open>The unique keys of \<open>repository_change_observations\<close>.\<close>

definition window_clash :: "gitRepositoryChangeWindow \<Rightarrow> gitRepositoryChangeWindow \<Rightarrow> bool" where
  "window_clash w v \<longleftrightarrow> gw_id v = gw_id w \<or> gw_repoID v = gw_repoID w \<and> gw_number v = gw_number w \<or>
    gw_previousObservationID w \<noteq> [] \<and> gw_previousObservationID v = gw_previousObservationID w"

definition insertGitRepositoryChangeWindow ::
  "(time \<Rightarrow> time) \<Rightarrow> GitRepositoryChangeInspection \<Rightarrow> gitRepositoryChangeWindow option \<Rightarrow> time \<Rightarrow>
   'a observationDB_scheme \<Rightarrow> (gitRepositoryChangeWindow \<times> 'a observationDB_scheme) ingestion" where
  "insertGitRepositoryChangeWindow ts inspection previous observedAt db =
    (let number = (case previous of None \<Rightarrow> 1 | Some p \<Rightarrow> gw_number p + 1);
         window = \<lparr>gw_id = observation_id (gi_RepoID inspection) number (gi_ChangeToken inspection),
           gw_repoID = gi_RepoID inspection, gw_number = number,
           gw_previousObservationID = (case previous of None \<Rightarrow> [] | Some p \<Rightarrow> gw_id p),
           gw_inspection = inspection, gw_firstObservedAt = observedAt, gw_lastObservedAt = observedAt,
           gw_observationCount = 1\<rparr>
     in if \<not> int4 number \<or> \<not> int4 (gi_TrackedChangeCount inspection) \<or> \<not> int4 (gi_UntrackedFileCount inspection)
        then Inl Violation
        else and_then (insert_row window_clash
          (window\<lparr>gw_firstObservedAt := ts observedAt, gw_lastObservedAt := ts observedAt\<rparr>) (windows db)) (\<lambda>ws.
          Inr (window, db\<lparr>windows := ws\<rparr>)))"

definition readGitRepositoryChangeObservationRequest ::
  "'a observationDB_scheme \<Rightarrow> string \<Rightarrow> (GitRepositoryChangeObservationResult \<times> string) option" where
  "readGitRepositoryChangeObservationRequest db requestID =
    Option.bind (row (\<lambda>r. oq_request_id r = requestID) (observation_requests db)) (\<lambda>r.
    Option.bind (row (\<lambda>w. gw_id w = oq_observation_id r) (windows db)) (\<lambda>w.
      Some (\<lparr>go_RequestID = oq_request_id r, go_ObservationID = gw_id w, go_ObservationNumber = gw_number w,
        go_PreviousObservationID = gw_previousObservationID w,
        go_Inspection = (gw_inspection w)\<lparr>gi_RepoID := gw_repoID w\<rparr>,
        go_FirstObservedAt = gw_firstObservedAt w, go_LastObservedAt = oq_observed_at r,
        go_ObservationCount = oq_observation_count r, go_StabilityWindowMillis = oq_window_milliseconds r,
        go_StableAfter = oq_stable_after r, go_Changed = oq_changed r, go_Coalesced = oq_coalesced r,
        go_Stable = oq_stable r, go_Replayed = False\<rparr>, oq_payload_hash r)))"

definition ensureAndLockGitRepositorySourceStream ::
  "string \<Rightarrow> 'a observationDB_scheme \<Rightarrow> 'a observationDB_scheme" where
  "ensureAndLockGitRepositorySourceStream repoID db =
    (if repoID \<in> set (git_streams db) then db else db\<lparr>git_streams := git_streams db @ [repoID]\<rparr>)"

definition lockGitRepositorySourceStream :: "'a observationDB_scheme \<Rightarrow> string \<Rightarrow> unit ingestion" where
  "lockGitRepositorySourceStream db repoID = require (repoID \<in> set (git_streams db)) ErrorRepositoryWorkConflict"

section \<open>The operation\<close>

text \<open>The current window after the inspection, whether it changed, and the tables.\<close>

definition advance_window ::
  "(time \<Rightarrow> time) \<Rightarrow> GitRepositoryChangeInspection \<Rightarrow> time \<Rightarrow> 'a observationDB_scheme \<Rightarrow>
   (gitRepositoryChangeWindow \<times> bool \<times> 'a observationDB_scheme) ingestion" where
  "advance_window ts inspection observedAt db =
    (let latest = readLatestGitRepositoryChangeWindow db (gi_RepoID inspection) in
     case latest of
       Some current \<Rightarrow>
         if observedAt < gw_lastObservedAt current then Inl (Domain ErrorInvalidInput)
         else if gi_ChangeToken (gw_inspection current) = gi_ChangeToken inspection then
           if gw_inspection current \<noteq> inspection then Inl (Domain ErrorChangeObservationConflict)
           else (let count = wrap64 (gw_observationCount current + 1) in
             if \<not> int4 count then Inl Violation
             else Inr (current\<lparr>gw_lastObservedAt := observedAt, gw_observationCount := count\<rparr>, False,
               db\<lparr>windows := update_rows (\<lambda>w. gw_id w = gw_id current)
                 (\<lambda>w. w\<lparr>gw_lastObservedAt := ts observedAt, gw_observationCount := count\<rparr>) (windows db)\<rparr>))
         else and_then (insertGitRepositoryChangeWindow ts inspection latest observedAt db) (\<lambda>(w, db). Inr (w, True, db))
     | None \<Rightarrow> and_then (insertGitRepositoryChangeWindow ts inspection latest observedAt db) (\<lambda>(w, db). Inr (w, True, db)))"

definition record_request ::
  "(time \<Rightarrow> time) \<Rightarrow> GitRepositoryChangeObservationResult \<Rightarrow> string \<Rightarrow> 'a observationDB_scheme \<Rightarrow>
   'a observationDB_scheme ingestion" where
  "record_request ts r payloadHash db =
    and_then (insert_row (\<lambda>p q. oq_request_id q = oq_request_id p)
      \<lparr>oq_request_id = go_RequestID r, oq_observation_id = go_ObservationID r, oq_repo_id = gi_RepoID (go_Inspection r),
       oq_payload_hash = payloadHash, oq_observed_at = ts (go_LastObservedAt r),
       oq_window_milliseconds = go_StabilityWindowMillis r, oq_observation_count = go_ObservationCount r,
       oq_changed = go_Changed r, oq_coalesced = go_Coalesced r, oq_stable_after = ts (go_StableAfter r),
       oq_stable = go_Stable r\<rparr> (observation_requests db)) (\<lambda>qs.
    Inr (db\<lparr>observation_requests := qs\<rparr>))"

definition recordGitRepositoryChangeObservation ::
  "(time \<Rightarrow> time) \<Rightarrow> gitRepositoryChangeObservationInput \<Rightarrow> time \<Rightarrow> 'a observationDB_scheme \<Rightarrow>
   (GitRepositoryChangeObservationResult \<times> 'a observationDB_scheme) ingestion" where
  "recordGitRepositoryChangeObservation ts input observedAt db =
    and_then (validateGitRepositoryChangeObservationRequest (gc_RequestID input) (gc_StabilityWindow input))
      (\<lambda>(requestID, stabilityWindow).
    and_then (validateGitRepositoryChangeInspection (gc_Inspection input)) (\<lambda>inspection.
    if is_zero_time observedAt then Inl (Domain ErrorInvalidInput) else
    (let payloadHash = gitRepositoryChangeObservationPayloadHash inspection stabilityWindow;
         db = ensureAndLockGitRepositorySourceStream (gi_RepoID inspection) db in
     case readGitRepositoryChangeObservationRequest db requestID of
       Some (result, hash) \<Rightarrow>
         if hash \<noteq> payloadHash \<or> gi_RepoID (go_Inspection result) \<noteq> gi_RepoID inspection
         then Inl (Domain ErrorIdempotencyKeyReused)
         else Inr (result\<lparr>go_Replayed := True\<rparr>, db)
     | None \<Rightarrow>
         and_then (advance_window ts inspection observedAt db) (\<lambda>(current, changed, db).
         (let stableAfter = gw_firstObservedAt current + stabilityWindow;
              result = \<lparr>go_RequestID = requestID, go_ObservationID = gw_id current,
                go_ObservationNumber = gw_number current, go_PreviousObservationID = gw_previousObservationID current,
                go_Inspection = gw_inspection current, go_FirstObservedAt = gw_firstObservedAt current,
                go_LastObservedAt = observedAt, go_ObservationCount = gw_observationCount current,
                go_StabilityWindowMillis = stabilityWindow div Millisecond, go_StableAfter = stableAfter,
                go_Changed = changed, go_Coalesced = (\<not> changed),
                go_Stable = (\<not> changed \<and> 2 \<le> gw_observationCount current \<and> stableAfter \<le> observedAt),
                go_Replayed = False\<rparr>
          in and_then (record_request ts result payloadHash db) (\<lambda>db. Inr (result, db)))))))"

end
