(* ===== verification/WorkState.thy ===== *)
theory WorkState
  imports GitObservation
begin

text \<open>
  The durable state of repository extraction work: the rows of \<open>repository_extraction_work_items\<close> and
  \<open>repository_extraction_work_claim_attempts\<close>, the request tables that make every operation
  idempotent, and the queries of \<open>repository_extraction_work.go\<close> and
  \<open>repository_extraction_work_claim_attempt.go\<close> over them.  Transactions are modelled one at a time: every
  operation takes the lock of its stream before it reads or writes a row of that stream.
\<close>

section \<open>Data\<close>

abbreviation "RepositoryExtractionWorkOutcomeSucceeded \<equiv> ''succeeded''"
abbreviation "RepositoryExtractionWorkOutcomeFailed \<equiv> ''failed''"
abbreviation "repositoryExtractionWorkPending \<equiv> ''pending''"
abbreviation "repositoryExtractionWorkRunning \<equiv> ''running''"
abbreviation "repositoryExtractionWorkSuperseded \<equiv> ''superseded''"
abbreviation "repositoryExtractionWorkExpired \<equiv> ''expired''"
abbreviation "DispositionRequeued \<equiv> ''requeued''"
abbreviation "DispositionSuperseded \<equiv> ''superseded''"
abbreviation "ExtractorRepositoryGoParserCodeFact \<equiv> ''repository-go-parser-code-fact''"
abbreviation "ExtractorRepositoryGoplsCodeFact \<equiv> ''repository-gopls-code-fact''"

record RepositoryExtractionWork =
  rw_WorkItemID :: string
  rw_RepoID :: string
  rw_ExtractorName :: string
  rw_ObservationID :: string
  rw_ObservationNumber :: int
  rw_ChangeToken :: string
  rw_HeadCommitSHA :: string

text \<open>A row of the work items table; \<open>repositoryExtractionWorkRecord\<close> is the row joined with its window.\<close>

record workItem =
  wi_work_item_id :: string
  wi_repo_id :: string
  wi_extractor_name :: string
  wi_observation_id :: string
  wi_status :: string
  wi_superseded_by :: string
  wi_claim_id :: string
  wi_claimed_by :: string
  wi_claimed_at :: "time option"
  wi_source_generation_id :: string
  wi_finished_at :: "time option"
  wi_failure_class :: string
  wi_failure_message :: string

record repositoryExtractionWorkRecord =
  wr_work :: RepositoryExtractionWork
  wr_status :: string
  wr_claimID :: string
  wr_claimedBy :: string
  wr_claimedAt :: "time option"
  wr_sourceGenerationID :: string
  wr_finishedAt :: "time option"
  wr_failureClass :: string
  wr_failureMessage :: string

record repositoryExtractionWorkClaimAttempt =
  ca_claimID :: string
  ca_workItemID :: string
  ca_attemptNumber :: int
  ca_workerID :: string
  ca_status :: string
  ca_claimedAt :: time
  ca_leaseDurationMilliseconds :: int
  ca_leaseExpiresAt :: time
  ca_finishedAt :: "time option"
  ca_expiredAt :: "time option"
  ca_sourceGenerationID :: string
  ca_failureClass :: string
  ca_failureMessage :: string

text \<open>What finishing work reads of a \<open>RepositorySourceGeneration\<close>, written by other operations.\<close>

record sourceGeneration =
  sg_ID :: string
  sg_RepoID :: string
  sg_ExtractorName :: string
  sg_CommitSHA :: string

text \<open>The rows of the request tables.\<close>

record scheduleRequest =
  sq_request_id :: string
  sq_observation_request_id :: string
  sq_work_item_id :: string
  sq_superseded_work_item_id :: string
  sq_payload_hash :: string
  sq_created :: bool
  sq_coalesced :: bool

record claimRequest =
  cq_request_id :: string
  cq_repo_id :: string
  cq_extractor_name :: string
  cq_worker_id :: string
  cq_work_item_id :: string
  cq_claim_id :: string
  cq_claimed_at :: "time option"
  cq_claimed :: bool
  cq_payload_hash :: string

record finishRequest =
  fq_request_id :: string
  fq_work_item_id :: string
  fq_claim_id :: string
  fq_worker_id :: string
  fq_outcome :: string
  fq_payload_hash :: string

record renewalRequest =
  nq_request_id :: string
  nq_work_item_id :: string
  nq_claim_id :: string
  nq_worker_id :: string
  nq_lease_milliseconds :: int
  nq_prior_lease_expires_at :: time
  nq_renewed_at :: time
  nq_lease_expires_at :: time
  nq_payload_hash :: string

text \<open>A recovery or retry request: the transition of one claim by an actor at an instant.\<close>

record releaseRequest =
  rq_request_id :: string
  rq_work_item_id :: string
  rq_claim_id :: string
  rq_actor_id :: string
  rq_disposition :: string
  rq_superseded_by :: string
  rq_at :: time
  rq_payload_hash :: string

record policyDecision =
  pd_request_id :: string
  pd_work_item_id :: string
  pd_claim_id :: string
  pd_actor_id :: string
  pd_policy_version :: string
  pd_failure_class :: string
  pd_attempt_number :: int
  pd_decision :: string
  pd_decision_reason :: string
  pd_max_attempts :: int
  pd_backoff_milliseconds :: int
  pd_retry_not_before :: "time option"
  pd_decided_at :: time
  pd_payload_hash :: string

record decisionConsumption =
  dc_request_id :: string
  dc_policy_request_id :: string
  dc_work_item_id :: string
  dc_claim_id :: string
  dc_actor_id :: string
  dc_policy_decision :: string
  dc_retry_not_before :: time
  dc_disposition :: string
  dc_superseded_by :: string
  dc_consumed_at :: time
  dc_payload_hash :: string

record workDB = observationDB +
  streams :: "(string \<times> string) list"
  generations :: "sourceGeneration list"
  items :: "workItem list"
  attempts :: "repositoryExtractionWorkClaimAttempt list"
  schedule_requests :: "scheduleRequest list"
  claim_requests :: "claimRequest list"
  finish_requests :: "finishRequest list"
  renewal_requests :: "renewalRequest list"
  recovery_requests :: "releaseRequest list"
  retry_requests :: "releaseRequest list"
  policy_decisions :: "policyDecision list"
  consumptions :: "decisionConsumption list"

definition empty_db :: workDB where
  "empty_db = \<lparr>git_streams = [], windows = [], observation_requests = [], streams = [], generations = [],
    items = [], attempts = [], schedule_requests = [], claim_requests = [], finish_requests = [],
    renewal_requests = [], recovery_requests = [], retry_requests = [], policy_decisions = [], consumptions = []\<rparr>"

section \<open>Streams\<close>

text \<open>\<open>ensureAndLockRepositorySourceStream\<close>, \<open>lockRepositorySourceStream\<close>\<close>

definition ensureAndLockRepositorySourceStream :: "string \<Rightarrow> string \<Rightarrow> workDB \<Rightarrow> workDB" where
  "ensureAndLockRepositorySourceStream repoID extractorName db =
    (if (repoID, extractorName) \<in> set (streams db) then db
     else db\<lparr>streams := streams db @ [(repoID, extractorName)]\<rparr>)"

definition lockRepositorySourceStream :: "workDB \<Rightarrow> string \<Rightarrow> string \<Rightarrow> unit ingestion" where
  "lockRepositorySourceStream db repoID extractorName =
    require ((repoID, extractorName) \<in> set (streams db)) ErrorRepositoryWorkConflict"

section \<open>Work items\<close>

text \<open>\<open>repositoryExtractionWorkSelect\<close> and \<open>scanRepositoryExtractionWork\<close>: the row joined with its window.\<close>

definition scanRepositoryExtractionWork :: "workDB \<Rightarrow> workItem \<Rightarrow> repositoryExtractionWorkRecord option" where
  "scanRepositoryExtractionWork db w =
    map_option (\<lambda>v.
      \<lparr>wr_work = \<lparr>rw_WorkItemID = wi_work_item_id w, rw_RepoID = wi_repo_id w, rw_ExtractorName = wi_extractor_name w,
         rw_ObservationID = wi_observation_id w, rw_ObservationNumber = gw_number v,
         rw_ChangeToken = gi_ChangeToken (gw_inspection v), rw_HeadCommitSHA = gi_HeadCommitSHA (gw_inspection v)\<rparr>,
       wr_status = wi_status w, wr_claimID = wi_claim_id w, wr_claimedBy = wi_claimed_by w,
       wr_claimedAt = wi_claimed_at w, wr_sourceGenerationID = wi_source_generation_id w,
       wr_finishedAt = wi_finished_at w, wr_failureClass = wi_failure_class w,
       wr_failureMessage = wi_failure_message w\<rparr>)
      (row (\<lambda>v. gw_id v = wi_observation_id w) (windows db))"

definition select_work :: "workDB \<Rightarrow> (workItem \<Rightarrow> bool) \<Rightarrow> repositoryExtractionWorkRecord option" where
  "select_work db P = Option.bind (row P (items db)) (scanRepositoryExtractionWork db)"

text \<open>\<open>readRepositoryExtractionWorkByID\<close> and \<open>readRepositoryExtractionWorkByIDForUpdate\<close>\<close>

definition readRepositoryExtractionWorkByID :: "workDB \<Rightarrow> string \<Rightarrow> repositoryExtractionWorkRecord ingestion" where
  "readRepositoryExtractionWorkByID db workItemID =
    (case select_work db (\<lambda>w. wi_work_item_id w = workItemID) of None \<Rightarrow> Inl NoRows | Some r \<Rightarrow> Inr r)"

definition readRepositoryExtractionWorkByObservation ::
  "workDB \<Rightarrow> string \<Rightarrow> string \<Rightarrow> repositoryExtractionWorkRecord option" where
  "readRepositoryExtractionWorkByObservation db observationID extractorName =
    select_work db (\<lambda>w. wi_observation_id w = observationID \<and> wi_extractor_name w = extractorName)"

text \<open>
  The index \<open>repository_extraction_work_pending_stream_uq\<close> leaves at most one pending row of a stream, so
  the order of the query does not matter.
\<close>

definition readPendingRepositoryExtractionWork ::
  "workDB \<Rightarrow> string \<Rightarrow> string \<Rightarrow> repositoryExtractionWorkRecord option" where
  "readPendingRepositoryExtractionWork db repoID extractorName =
    select_work db (\<lambda>w. wi_repo_id w = repoID \<and> wi_extractor_name w = extractorName \<and>
      wi_status w = repositoryExtractionWorkPending)"

definition hasRunningRepositoryExtractionWork :: "workDB \<Rightarrow> string \<Rightarrow> string \<Rightarrow> bool" where
  "hasRunningRepositoryExtractionWork db repoID extractorName \<longleftrightarrow>
    list_ex (\<lambda>w. wi_repo_id w = repoID \<and> wi_extractor_name w = extractorName \<and>
      wi_status w = repositoryExtractionWorkRunning) (items db)"

text \<open>\<open>lockRepositorySourceStreamForWork\<close>\<close>

definition lockRepositorySourceStreamForWork :: "workDB \<Rightarrow> string \<Rightarrow> repositoryExtractionWorkRecord ingestion" where
  "lockRepositorySourceStreamForWork db workItemID =
    and_then (absent_as ErrorMissingSourceViewAttempt (readRepositoryExtractionWorkByID db workItemID)) (\<lambda>work.
    and_then (lockRepositorySourceStream db (rw_RepoID (wr_work work)) (rw_ExtractorName (wr_work work))) (\<lambda>_.
      Inr work))"

text \<open>An \<open>UPDATE\<close> of the rows \<open>P\<close> that must hit exactly one of them.\<close>

definition update_one_item :: "(workItem \<Rightarrow> bool) \<Rightarrow> (workItem \<Rightarrow> workItem) \<Rightarrow> workDB \<Rightarrow> workDB ingestion" where
  "update_one_item P f db =
    (if rows_affected P (items db) \<noteq> 1 then Inl (Domain ErrorRepositoryWorkConflict)
     else Inr (db\<lparr>items := update_rows P f (items db)\<rparr>))"

definition update_one_attempt ::
  "(repositoryExtractionWorkClaimAttempt \<Rightarrow> bool) \<Rightarrow>
   (repositoryExtractionWorkClaimAttempt \<Rightarrow> repositoryExtractionWorkClaimAttempt) \<Rightarrow> workDB \<Rightarrow> workDB ingestion" where
  "update_one_attempt P f db =
    (if rows_affected P (attempts db) \<noteq> 1 then Inl (Domain ErrorRepositoryWorkConflict)
     else Inr (db\<lparr>attempts := update_rows P f (attempts db)\<rparr>))"

text \<open>The statement with which recovery and retry release a claim.\<close>

definition release_item :: "string \<Rightarrow> string \<Rightarrow> workItem \<Rightarrow> workItem" where
  "release_item status supersededBy w = w\<lparr>wi_status := status, wi_superseded_by := supersededBy, wi_claim_id := [],
    wi_claimed_by := [], wi_claimed_at := None, wi_source_generation_id := [], wi_finished_at := None,
    wi_failure_class := [], wi_failure_message := []\<rparr>"

text \<open>The unique keys of the work items that an insert can violate.\<close>

definition item_clash :: "workItem \<Rightarrow> workItem \<Rightarrow> bool" where
  "item_clash w v \<longleftrightarrow> wi_work_item_id v = wi_work_item_id w \<or>
    wi_observation_id v = wi_observation_id w \<and> wi_extractor_name v = wi_extractor_name w \<or>
    wi_repo_id v = wi_repo_id w \<and> wi_extractor_name v = wi_extractor_name w \<and>
      wi_status v = repositoryExtractionWorkPending"

section \<open>Claim attempts\<close>

text \<open>\<open>SELECT COALESCE(MAX(attempt_number), 0) + 1\<close>\<close>

definition nextRepositoryExtractionWorkClaimAttemptNumber :: "workDB \<Rightarrow> string \<Rightarrow> int ingestion" where
  "nextRepositoryExtractionWorkClaimAttemptNumber db workItemID =
    (let ns = map ca_attemptNumber (filter (\<lambda>a. ca_workItemID a = workItemID) (attempts db));
         n = (case ns of [] \<Rightarrow> 0 | m # ms \<Rightarrow> fold max ms m) + 1
     in if int4 n then Inr n else Inl Violation)"

definition attempt_clash ::
  "repositoryExtractionWorkClaimAttempt \<Rightarrow> repositoryExtractionWorkClaimAttempt \<Rightarrow> bool" where
  "attempt_clash a b \<longleftrightarrow> ca_claimID b = ca_claimID a \<or>
    ca_workItemID b = ca_workItemID a \<and> ca_attemptNumber b = ca_attemptNumber a"

definition persistRepositoryExtractionWorkClaimAttempt ::
  "(time \<Rightarrow> time) \<Rightarrow> repositoryExtractionWorkClaimAttempt \<Rightarrow> workDB \<Rightarrow> workDB ingestion" where
  "persistRepositoryExtractionWorkClaimAttempt ts a db =
    and_then (insert_row attempt_clash
      (a\<lparr>ca_claimedAt := ts (ca_claimedAt a), ca_leaseExpiresAt := ts (ca_leaseExpiresAt a), ca_finishedAt := None,
         ca_expiredAt := None, ca_sourceGenerationID := [], ca_failureClass := [], ca_failureMessage := []\<rparr>)
      (attempts db)) (\<lambda>as.
    Inr (db\<lparr>attempts := as\<rparr>))"

text \<open>\<open>readRepositoryExtractionWorkClaimAttempt\<close> and its \<open>FOR UPDATE\<close> variant\<close>

definition readRepositoryExtractionWorkClaimAttempt ::
  "workDB \<Rightarrow> string \<Rightarrow> repositoryExtractionWorkClaimAttempt ingestion" where
  "readRepositoryExtractionWorkClaimAttempt db claimID = the_row (\<lambda>a. ca_claimID a = claimID) (attempts db)"

definition running_attempt_row ::
  "repositoryExtractionWorkClaimAttempt \<Rightarrow> repositoryExtractionWorkClaimAttempt \<Rightarrow> bool" where
  "running_attempt_row a r \<longleftrightarrow> ca_claimID r = ca_claimID a \<and> ca_workItemID r = ca_workItemID a \<and>
    ca_workerID r = ca_workerID a \<and> ca_status r = repositoryExtractionWorkRunning"

definition expireRepositoryExtractionWorkClaimAttempt ::
  "(time \<Rightarrow> time) \<Rightarrow> repositoryExtractionWorkClaimAttempt \<Rightarrow> time \<Rightarrow> workDB \<Rightarrow> workDB ingestion" where
  "expireRepositoryExtractionWorkClaimAttempt ts a expiredAt =
    update_one_attempt (running_attempt_row a)
      (\<lambda>r. r\<lparr>ca_status := repositoryExtractionWorkExpired, ca_expiredAt := Some (ts expiredAt)\<rparr>)"

section \<open>Validation shared by the operations\<close>

definition validateRepositoryExtractionWorkExtractor :: "string \<Rightarrow> string ingestion" where
  "validateRepositoryExtractionWorkExtractor v =
    (let v = trim_space v in
     if v = ExtractorRepositoryGoParserCodeFact \<or> v = ExtractorRepositoryGoplsCodeFact then Inr v
     else Inl (Domain ErrorInvalidInput))"

definition RepositoryExtractionWorkMinLeaseMilliseconds :: int where
  "RepositoryExtractionWorkMinLeaseMilliseconds = 1"

definition RepositoryExtractionWorkMaxLeaseMilliseconds :: int where
  "RepositoryExtractionWorkMaxLeaseMilliseconds = 3600000"

text \<open>An actor or worker id of 1 to 200 bytes.\<close>

definition actor_ok :: "string \<Rightarrow> bool" where
  "actor_ok v \<longleftrightarrow> v \<noteq> [] \<and> length v \<le> 200"

definition lease_ok :: "int \<Rightarrow> bool" where
  "lease_ok ms \<longleftrightarrow> RepositoryExtractionWorkMinLeaseMilliseconds \<le> ms \<and> ms \<le> RepositoryExtractionWorkMaxLeaseMilliseconds"

abbreviation "work_prefix \<equiv> ''repo-work:''"
abbreviation "claim_prefix \<equiv> ''work-claim:''"

end
