(* ===== verification/WorkClaim.thy ===== *)
theory WorkClaim
  imports WorkState
begin

text \<open>
  \<open>repository_extraction_work.go\<close>: scheduling the work of a stable clean observation, which supersedes
  the pending work of the stream, and claiming the pending work of a stream for one worker under a
  lease.  Both operations are idempotent by request id: the stored request is read back, checked
  against the attempt it names, and returned as a replay.
\<close>

section \<open>Inputs and results\<close>

record RepositoryExtractionWorkScheduleInput =
  si_RequestID :: string
  si_ObservationRequestID :: string
  si_ExtractorName :: string

record RepositoryExtractionWorkScheduleResult =
  sr_RequestID :: string
  sr_ObservationRequestID :: string
  sr_Work :: RepositoryExtractionWork
  sr_SupersededWorkItemID :: string
  sr_Created :: bool
  sr_Coalesced :: bool
  sr_Replayed :: bool

record RepositoryExtractionWorkClaimInput =
  ci_RequestID :: string
  ci_RepoID :: string
  ci_ExtractorName :: string
  ci_WorkerID :: string
  ci_LeaseDurationMilliseconds :: int

record RepositoryExtractionWorkClaimResult =
  cr_RequestID :: string
  cr_RepoID :: string
  cr_ExtractorName :: string
  cr_WorkerID :: string
  cr_Claimed :: bool
  cr_Work :: "RepositoryExtractionWork option"
  cr_ClaimID :: string
  cr_AttemptNumber :: int
  cr_ClaimedAt :: "time option"
  cr_LeaseExpiresAt :: "time option"
  cr_Replayed :: bool

section \<open>Scheduling\<close>

definition validateRepositoryExtractionWorkScheduleInput ::
  "RepositoryExtractionWorkScheduleInput \<Rightarrow> (string \<times> string \<times> string) ingestion" where
  "validateRepositoryExtractionWorkScheduleInput input =
    (let requestID = trim_space (si_RequestID input) in
     if requestID = [] then Inl (Domain ErrorInvalidInput) else
     let observationRequestID = trim_space (si_ObservationRequestID input) in
     if observationRequestID = [] then Inl (Domain ErrorInvalidInput) else
     and_then (validateRepositoryExtractionWorkExtractor (si_ExtractorName input)) (\<lambda>extractorName.
     Inr (requestID, observationRequestID, extractorName)))"

definition repositoryExtractionWorkSchedulePayloadHash :: "string \<Rightarrow> string \<Rightarrow> string" where
  "repositoryExtractionWorkSchedulePayloadHash observationRequestID extractorName =
    contentHash (marshal (JObj [(''observation_request_id'', JStr observationRequestID),
      (''extractor_name'', JStr extractorName)]))"

definition newRepositoryExtractionWork ::
  "GitRepositoryChangeObservationResult \<Rightarrow> string \<Rightarrow> RepositoryExtractionWork" where
  "newRepositoryExtractionWork v extractorName =
    \<lparr>rw_WorkItemID = stableID work_prefix ''repository_extraction_work''
       (JObj [(''change_observation_id'', JStr (go_ObservationID v)), (''extractor_name'', JStr extractorName)]),
     rw_RepoID = gi_RepoID (go_Inspection v), rw_ExtractorName = extractorName,
     rw_ObservationID = go_ObservationID v, rw_ObservationNumber = go_ObservationNumber v,
     rw_ChangeToken = gi_ChangeToken (go_Inspection v), rw_HeadCommitSHA = gi_HeadCommitSHA (go_Inspection v)\<rparr>"

definition persistRepositoryExtractionWorkScheduleRequest ::
  "RepositoryExtractionWorkScheduleResult \<Rightarrow> string \<Rightarrow> workDB \<Rightarrow> workDB ingestion" where
  "persistRepositoryExtractionWorkScheduleRequest r payloadHash db =
    and_then (insert_row (\<lambda>p q. sq_request_id q = sq_request_id p)
      \<lparr>sq_request_id = sr_RequestID r, sq_observation_request_id = sr_ObservationRequestID r,
       sq_work_item_id = rw_WorkItemID (sr_Work r), sq_superseded_work_item_id = sr_SupersededWorkItemID r,
       sq_payload_hash = payloadHash, sq_created = sr_Created r, sq_coalesced = sr_Coalesced r\<rparr>
      (schedule_requests db)) (\<lambda>qs.
    Inr (db\<lparr>schedule_requests := qs\<rparr>))"

definition readRepositoryExtractionWorkScheduleRequest ::
  "workDB \<Rightarrow> string \<Rightarrow> (RepositoryExtractionWorkScheduleResult \<times> string) option ingestion" where
  "readRepositoryExtractionWorkScheduleRequest db requestID =
    (case row (\<lambda>q. sq_request_id q = requestID) (schedule_requests db) of
       None \<Rightarrow> Inr None
     | Some q \<Rightarrow>
         and_then (readRepositoryExtractionWorkByID db (sq_work_item_id q)) (\<lambda>work.
         Inr (Some (\<lparr>sr_RequestID = sq_request_id q, sr_ObservationRequestID = sq_observation_request_id q,
           sr_Work = wr_work work, sr_SupersededWorkItemID = sq_superseded_work_item_id q,
           sr_Created = sq_created q, sr_Coalesced = sq_coalesced q, sr_Replayed = False\<rparr>, sq_payload_hash q))))"

definition new_item :: "RepositoryExtractionWork \<Rightarrow> workItem" where
  "new_item work = \<lparr>wi_work_item_id = rw_WorkItemID work, wi_repo_id = rw_RepoID work,
    wi_extractor_name = rw_ExtractorName work, wi_observation_id = rw_ObservationID work,
    wi_status = repositoryExtractionWorkPending, wi_superseded_by = [], wi_claim_id = [], wi_claimed_by = [],
    wi_claimed_at = None, wi_source_generation_id = [], wi_finished_at = None, wi_failure_class = [],
    wi_failure_message = []\<rparr>"

text \<open>The pending work of the stream makes way for the new one; then the new row is inserted.\<close>

definition supersede_pending ::
  "repositoryExtractionWorkRecord option \<Rightarrow> RepositoryExtractionWork \<Rightarrow> workDB \<Rightarrow> workDB ingestion" where
  "supersede_pending pending work db =
    (case pending of
       None \<Rightarrow> Inr db
     | Some p \<Rightarrow>
         update_one_item (\<lambda>w. wi_work_item_id w = rw_WorkItemID (wr_work p) \<and> wi_status w = repositoryExtractionWorkPending)
           (\<lambda>w. w\<lparr>wi_status := repositoryExtractionWorkSuperseded, wi_superseded_by := rw_WorkItemID work\<rparr>) db)"

definition create_work ::
  "string \<Rightarrow> string \<Rightarrow> GitRepositoryChangeObservationResult \<Rightarrow> string \<Rightarrow> string \<Rightarrow> workDB \<Rightarrow>
   (RepositoryExtractionWorkScheduleResult \<times> workDB) ingestion" where
  "create_work requestID observationRequestID v extractorName payloadHash db =
    (let pending = readPendingRepositoryExtractionWork db (gi_RepoID (go_Inspection v)) extractorName;
         work = newRepositoryExtractionWork v extractorName;
         result = \<lparr>sr_RequestID = requestID, sr_ObservationRequestID = observationRequestID, sr_Work = work,
           sr_SupersededWorkItemID = (case pending of None \<Rightarrow> [] | Some p \<Rightarrow> rw_WorkItemID (wr_work p)),
           sr_Created = True, sr_Coalesced = False, sr_Replayed = False\<rparr>
     in and_then (supersede_pending pending work db) (\<lambda>db.
        and_then (insert_row item_clash (new_item work) (items db)) (\<lambda>is.
        and_then (persistRepositoryExtractionWorkScheduleRequest result payloadHash (db\<lparr>items := is\<rparr>)) (\<lambda>db.
        Inr (result, db)))))"

definition scheduleRepositoryExtractionWork ::
  "RepositoryExtractionWorkScheduleInput \<Rightarrow> workDB \<Rightarrow> (RepositoryExtractionWorkScheduleResult \<times> workDB) ingestion" where
  "scheduleRepositoryExtractionWork input db =
    and_then (validateRepositoryExtractionWorkScheduleInput input) (\<lambda>(requestID, observationRequestID, extractorName).
    (let payloadHash = repositoryExtractionWorkSchedulePayloadHash observationRequestID extractorName in
     and_then (readRepositoryExtractionWorkScheduleRequest db requestID) (\<lambda>persisted.
     case persisted of
       Some (result, hash) \<Rightarrow>
         if hash \<noteq> payloadHash then Inl (Domain ErrorIdempotencyKeyReused)
         else Inr (result\<lparr>sr_Replayed := True\<rparr>, db)
     | None \<Rightarrow>
       (case readGitRepositoryChangeObservationRequest db observationRequestID of
          None \<Rightarrow> Inl (Domain ErrorMissingSourceViewAttempt)
        | Some (v, _) \<Rightarrow>
          (let repoID = gi_RepoID (go_Inspection v) in
           and_then (lockGitRepositorySourceStream db repoID) (\<lambda>_.
           (let db = ensureAndLockRepositorySourceStream repoID extractorName db;
                latest = readLatestGitRepositoryChangeWindow db repoID in
            if latest = None \<or> gw_id (the latest) \<noteq> go_ObservationID v then Inl (Domain ErrorRepositoryWorkConflict)
            else if \<not> go_Stable v then Inl (Domain ErrorRepositoryWorkConflict)
            else if gi_Dirty (go_Inspection v) then Inl (Domain ErrorRepositoryWorkConflict)
            else (case readRepositoryExtractionWorkByObservation db (go_ObservationID v) extractorName of
               Some existing \<Rightarrow>
                 (let result = \<lparr>sr_RequestID = requestID, sr_ObservationRequestID = observationRequestID,
                    sr_Work = wr_work existing, sr_SupersededWorkItemID = [], sr_Created = False,
                    sr_Coalesced = True, sr_Replayed = False\<rparr>
                  in and_then (persistRepositoryExtractionWorkScheduleRequest result payloadHash db) (\<lambda>db.
                     Inr (result, db)))
             | None \<Rightarrow> create_work requestID observationRequestID v extractorName payloadHash db))))))))"

section \<open>Claiming\<close>

definition validateRepositoryExtractionWorkClaimInput ::
  "RepositoryExtractionWorkClaimInput \<Rightarrow> (string \<times> string \<times> string \<times> string \<times> time) ingestion" where
  "validateRepositoryExtractionWorkClaimInput input =
    (let requestID = trim_space (ci_RequestID input) in
     if requestID = [] then Inl (Domain ErrorInvalidInput) else
     let repoID = trim_space (ci_RepoID input) in
     if repoID = [] then Inl (Domain ErrorInvalidInput) else
     and_then (validateRepositoryExtractionWorkExtractor (ci_ExtractorName input)) (\<lambda>extractorName.
     let workerID = trim_space (ci_WorkerID input) in
     if \<not> actor_ok workerID then Inl (Domain ErrorInvalidInput)
     else if \<not> lease_ok (ci_LeaseDurationMilliseconds input) then Inl (Domain ErrorInvalidInput)
     else Inr (requestID, repoID, extractorName, workerID, ci_LeaseDurationMilliseconds input * Millisecond)))"

definition repositoryExtractionWorkClaimPayloadHash :: "string \<Rightarrow> string \<Rightarrow> string \<Rightarrow> int \<Rightarrow> string" where
  "repositoryExtractionWorkClaimPayloadHash repoID extractorName workerID leaseDurationMilliseconds =
    contentHash (marshal (JObj [(''repo_id'', JStr repoID), (''extractor_name'', JStr extractorName),
      (''worker_id'', JStr workerID), (''lease_duration_milliseconds'', JInt leaseDurationMilliseconds)]))"

definition claim_id :: "string \<Rightarrow> string \<Rightarrow> string \<Rightarrow> string" where
  "claim_id requestID workItemID workerID =
    stableID claim_prefix ''repository_extraction_work_claim''
      (JObj [(''request_id'', JStr requestID), (''work_item_id'', JStr workItemID), (''worker_id'', JStr workerID)])"

definition persistRepositoryExtractionWorkClaimRequest ::
  "(time \<Rightarrow> time) \<Rightarrow> RepositoryExtractionWorkClaimResult \<Rightarrow> string \<Rightarrow> workDB \<Rightarrow> workDB ingestion" where
  "persistRepositoryExtractionWorkClaimRequest ts r payloadHash db =
    and_then (insert_row (\<lambda>p q. cq_request_id q = cq_request_id p)
      \<lparr>cq_request_id = cr_RequestID r, cq_repo_id = cr_RepoID r, cq_extractor_name = cr_ExtractorName r,
       cq_worker_id = cr_WorkerID r,
       cq_work_item_id = (if cr_Claimed r then rw_WorkItemID (the (cr_Work r)) else []),
       cq_claim_id = (if cr_Claimed r then cr_ClaimID r else []),
       cq_claimed_at = (if cr_Claimed r then map_option ts (cr_ClaimedAt r) else None),
       cq_claimed = cr_Claimed r, cq_payload_hash = payloadHash\<rparr>
      (claim_requests db)) (\<lambda>qs.
    Inr (db\<lparr>claim_requests := qs\<rparr>))"

definition readRepositoryExtractionWorkClaimRequest ::
  "workDB \<Rightarrow> string \<Rightarrow> (RepositoryExtractionWorkClaimResult \<times> string) option ingestion" where
  "readRepositoryExtractionWorkClaimRequest db requestID =
    (case row (\<lambda>q. cq_request_id q = requestID) (claim_requests db) of
       None \<Rightarrow> Inr None
     | Some q \<Rightarrow>
       (let result = \<lparr>cr_RequestID = cq_request_id q, cr_RepoID = cq_repo_id q, cr_ExtractorName = cq_extractor_name q,
          cr_WorkerID = cq_worker_id q, cr_Claimed = cq_claimed q, cr_Work = None, cr_ClaimID = [],
          cr_AttemptNumber = 0, cr_ClaimedAt = None, cr_LeaseExpiresAt = None, cr_Replayed = False\<rparr> in
        if \<not> cq_claimed q then Inr (Some (result, cq_payload_hash q))
        else if cq_work_item_id q = [] \<or> cq_claim_id q = [] \<or> cq_claimed_at q = None
          then Inl (Domain ErrorRepositoryWorkConflict)
        else and_then (readRepositoryExtractionWorkByID db (cq_work_item_id q)) (\<lambda>work.
          and_then (readRepositoryExtractionWorkClaimAttempt db (cq_claim_id q)) (\<lambda>attempt.
          if ca_workItemID attempt \<noteq> cq_work_item_id q \<or> ca_workerID attempt \<noteq> cq_worker_id q \<or>
            Some (ca_claimedAt attempt) \<noteq> cq_claimed_at q then Inl (Domain ErrorRepositoryWorkConflict)
          else Inr (Some (result\<lparr>cr_Work := Some (wr_work work), cr_ClaimID := cq_claim_id q,
            cr_AttemptNumber := ca_attemptNumber attempt, cr_ClaimedAt := Some (ca_claimedAt attempt),
            cr_LeaseExpiresAt := Some (ca_leaseExpiresAt attempt)\<rparr>, cq_payload_hash q))))))"

text \<open>The pending row becomes the running row of the claim, and the attempt is recorded.\<close>

definition start_attempt ::
  "(time \<Rightarrow> time) \<Rightarrow> string \<Rightarrow> string \<Rightarrow> int \<Rightarrow> time \<Rightarrow> RepositoryExtractionWork \<Rightarrow> workDB \<Rightarrow> (int \<times> workDB) ingestion" where
  "start_attempt ts claimID workerID leaseMilliseconds claimedAt work db =
    and_then (nextRepositoryExtractionWorkClaimAttemptNumber db (rw_WorkItemID work)) (\<lambda>attemptNumber.
    and_then (update_one_item
      (\<lambda>w. wi_work_item_id w = rw_WorkItemID work \<and> wi_status w = repositoryExtractionWorkPending)
      (\<lambda>w. w\<lparr>wi_status := repositoryExtractionWorkRunning, wi_claim_id := claimID, wi_claimed_by := workerID,
        wi_claimed_at := Some (ts claimedAt)\<rparr>) db) (\<lambda>db.
    and_then (persistRepositoryExtractionWorkClaimAttempt ts
      \<lparr>ca_claimID = claimID, ca_workItemID = rw_WorkItemID work, ca_attemptNumber = attemptNumber,
       ca_workerID = workerID, ca_status = repositoryExtractionWorkRunning, ca_claimedAt = claimedAt,
       ca_leaseDurationMilliseconds = leaseMilliseconds,
       ca_leaseExpiresAt = claimedAt + leaseMilliseconds * Millisecond, ca_finishedAt = None, ca_expiredAt = None,
       ca_sourceGenerationID = [], ca_failureClass = [], ca_failureMessage = []\<rparr> db) (\<lambda>db.
    Inr (attemptNumber, db))))"

definition claimRepositoryExtractionWork ::
  "(time \<Rightarrow> time) \<Rightarrow> RepositoryExtractionWorkClaimInput \<Rightarrow> time \<Rightarrow> workDB \<Rightarrow>
   (RepositoryExtractionWorkClaimResult \<times> workDB) ingestion" where
  "claimRepositoryExtractionWork ts input claimedAt db =
    and_then (validateRepositoryExtractionWorkClaimInput input)
      (\<lambda>(requestID, repoID, extractorName, workerID, leaseDuration).
    if is_zero_time claimedAt then Inl (Domain ErrorInvalidInput) else
    (let leaseExpiresAt = claimedAt + leaseDuration;
         payloadHash = repositoryExtractionWorkClaimPayloadHash repoID extractorName workerID
           (ci_LeaseDurationMilliseconds input);
         db = ensureAndLockRepositorySourceStream repoID extractorName db in
     and_then (readRepositoryExtractionWorkClaimRequest db requestID) (\<lambda>persisted.
     case persisted of
       Some (result, hash) \<Rightarrow>
         if hash \<noteq> payloadHash then Inl (Domain ErrorIdempotencyKeyReused)
         else Inr (result\<lparr>cr_Replayed := True\<rparr>, db)
     | None \<Rightarrow>
       (let result = \<lparr>cr_RequestID = requestID, cr_RepoID = repoID, cr_ExtractorName = extractorName,
          cr_WorkerID = workerID, cr_Claimed = False, cr_Work = None, cr_ClaimID = [], cr_AttemptNumber = 0,
          cr_ClaimedAt = None, cr_LeaseExpiresAt = None, cr_Replayed = False\<rparr>;
          nothing = and_then (persistRepositoryExtractionWorkClaimRequest ts result payloadHash db) (\<lambda>db.
            Inr (result, db)) in
        if hasRunningRepositoryExtractionWork db repoID extractorName then nothing
        else (case readPendingRepositoryExtractionWork db repoID extractorName of
            None \<Rightarrow> nothing
          | Some pending \<Rightarrow>
            (let claimID = claim_id requestID (rw_WorkItemID (wr_work pending)) workerID in
             and_then (start_attempt ts claimID workerID (ci_LeaseDurationMilliseconds input) claimedAt
               (wr_work pending) db) (\<lambda>(attemptNumber, db).
             (let result = result\<lparr>cr_Claimed := True, cr_Work := Some (wr_work pending), cr_ClaimID := claimID,
                cr_AttemptNumber := attemptNumber, cr_ClaimedAt := Some claimedAt,
                cr_LeaseExpiresAt := Some leaseExpiresAt\<rparr>
              in and_then (persistRepositoryExtractionWorkClaimRequest ts result payloadHash db) (\<lambda>db.
                 Inr (result, db))))))))))"

end
