(* ===== verification/WorkLease.thy ===== *)
theory WorkLease
  imports WorkClaim
begin

text \<open>
  The life of a claim under its lease: \<open>repository_extraction_work_lease_renewal.go\<close>,
  \<open>repository_extraction_work_finish.go\<close> and \<open>repository_extraction_work_recovery.go\<close>.  A claim is
  renewed and finished strictly before its lease expires and recovered only at or after it.
\<close>

section \<open>Inputs and results\<close>

record RepositoryExtractionWorkLeaseRenewalInput =
  ni_RequestID :: string
  ni_WorkItemID :: string
  ni_ClaimID :: string
  ni_WorkerID :: string
  ni_LeaseDurationMilliseconds :: int

record RepositoryExtractionWorkLeaseRenewalResult =
  nr_RequestID :: string
  nr_Work :: RepositoryExtractionWork
  nr_ClaimID :: string
  nr_AttemptNumber :: int
  nr_WorkerID :: string
  nr_LeaseDurationMilliseconds :: int
  nr_PriorLeaseExpiresAt :: time
  nr_RenewedAt :: time
  nr_LeaseExpiresAt :: time
  nr_Replayed :: bool

record RepositoryExtractionWorkFinishInput =
  fi_RequestID :: string
  fi_WorkItemID :: string
  fi_ClaimID :: string
  fi_WorkerID :: string
  fi_Outcome :: string
  fi_SourceGenerationID :: string
  fi_FailureClass :: string
  fi_FailureMessage :: string

record RepositoryExtractionWorkFinishResult =
  fr_RequestID :: string
  fr_Work :: RepositoryExtractionWork
  fr_ClaimID :: string
  fr_WorkerID :: string
  fr_Outcome :: string
  fr_SourceGenerationID :: string
  fr_FailureClass :: string
  fr_FailureMessage :: string
  fr_AttemptNumber :: int
  fr_LeaseExpiresAt :: time
  fr_FinishedAt :: time
  fr_Replayed :: bool

record RepositoryExtractionWorkRecoveryInput =
  ri_RequestID :: string
  ri_WorkItemID :: string
  ri_ClaimID :: string
  ri_RecoveryActorID :: string

record RepositoryExtractionWorkRecoveryResult =
  rr_RequestID :: string
  rr_Work :: RepositoryExtractionWork
  rr_ClaimID :: string
  rr_AttemptNumber :: int
  rr_WorkerID :: string
  rr_LeaseExpiresAt :: time
  rr_RecoveredAt :: time
  rr_RecoveryActorID :: string
  rr_Disposition :: string
  rr_SupersededByWorkItemID :: string
  rr_Replayed :: bool

section \<open>Renewal\<close>

definition validateRepositoryExtractionWorkLeaseRenewalInput ::
  "RepositoryExtractionWorkLeaseRenewalInput \<Rightarrow> (RepositoryExtractionWorkLeaseRenewalInput \<times> time) ingestion" where
  "validateRepositoryExtractionWorkLeaseRenewalInput input =
    (let i = input\<lparr>ni_RequestID := trim_space (ni_RequestID input), ni_WorkItemID := trim_space (ni_WorkItemID input),
       ni_ClaimID := trim_space (ni_ClaimID input), ni_WorkerID := trim_space (ni_WorkerID input)\<rparr> in
     if ni_RequestID i = [] then Inl (Domain ErrorInvalidInput)
     else if \<not> has_prefix (ni_WorkItemID i) work_prefix then Inl (Domain ErrorInvalidRecordID)
     else if \<not> has_prefix (ni_ClaimID i) claim_prefix then Inl (Domain ErrorInvalidRecordID)
     else if \<not> actor_ok (ni_WorkerID i) then Inl (Domain ErrorInvalidInput)
     else if \<not> lease_ok (ni_LeaseDurationMilliseconds i) then Inl (Domain ErrorInvalidInput)
     else Inr (i, ni_LeaseDurationMilliseconds i * Millisecond))"

definition repositoryExtractionWorkLeaseRenewalPayloadHash :: "RepositoryExtractionWorkLeaseRenewalInput \<Rightarrow> string" where
  "repositoryExtractionWorkLeaseRenewalPayloadHash i =
    contentHash (marshal (JObj [(''work_item_id'', JStr (ni_WorkItemID i)), (''claim_id'', JStr (ni_ClaimID i)),
      (''worker_id'', JStr (ni_WorkerID i)), (''lease_duration_milliseconds'', JInt (ni_LeaseDurationMilliseconds i))]))"

text \<open>
  The checks of the renewals table are live: an extension below the precision of the column passes the
  guard of the operation and is rejected here.
\<close>

definition renewal_row_ok :: "renewalRequest \<Rightarrow> bool" where
  "renewal_row_ok q \<longleftrightarrow> nq_renewed_at q < nq_prior_lease_expires_at q \<and>
    nq_prior_lease_expires_at q < nq_lease_expires_at q \<and>
    nq_lease_expires_at q = nq_renewed_at q + nq_lease_milliseconds q * Millisecond"

definition persistRepositoryExtractionWorkLeaseRenewalRequest ::
  "(time \<Rightarrow> time) \<Rightarrow> RepositoryExtractionWorkLeaseRenewalResult \<Rightarrow> string \<Rightarrow> workDB \<Rightarrow> workDB ingestion" where
  "persistRepositoryExtractionWorkLeaseRenewalRequest ts r payloadHash db =
    (let q = \<lparr>nq_request_id = nr_RequestID r, nq_work_item_id = rw_WorkItemID (nr_Work r), nq_claim_id = nr_ClaimID r,
       nq_worker_id = nr_WorkerID r, nq_lease_milliseconds = nr_LeaseDurationMilliseconds r,
       nq_prior_lease_expires_at = ts (nr_PriorLeaseExpiresAt r), nq_renewed_at = ts (nr_RenewedAt r),
       nq_lease_expires_at = ts (nr_LeaseExpiresAt r), nq_payload_hash = payloadHash\<rparr>
     in if \<not> renewal_row_ok q then Inl Violation
        else and_then (insert_row (\<lambda>p q. nq_request_id q = nq_request_id p) q (renewal_requests db)) (\<lambda>qs.
          Inr (db\<lparr>renewal_requests := qs\<rparr>)))"

definition readRepositoryExtractionWorkLeaseRenewalRequest ::
  "workDB \<Rightarrow> string \<Rightarrow> (RepositoryExtractionWorkLeaseRenewalResult \<times> string) option ingestion" where
  "readRepositoryExtractionWorkLeaseRenewalRequest db requestID =
    (case row (\<lambda>q. nq_request_id q = requestID) (renewal_requests db) of
       None \<Rightarrow> Inr None
     | Some q \<Rightarrow>
         and_then (readRepositoryExtractionWorkByID db (nq_work_item_id q)) (\<lambda>work.
         and_then (readRepositoryExtractionWorkClaimAttempt db (nq_claim_id q)) (\<lambda>attempt.
         if ca_workItemID attempt \<noteq> nq_work_item_id q \<or> ca_workerID attempt \<noteq> nq_worker_id q \<or>
           ca_leaseExpiresAt attempt < nq_lease_expires_at q \<or>
           \<not> nq_renewed_at q < nq_prior_lease_expires_at q \<or>
           \<not> nq_prior_lease_expires_at q < nq_lease_expires_at q \<or>
           nq_lease_expires_at q \<noteq> nq_renewed_at q + nq_lease_milliseconds q * Millisecond
         then Inl (Domain ErrorRepositoryWorkConflict)
         else Inr (Some (\<lparr>nr_RequestID = nq_request_id q, nr_Work = wr_work work, nr_ClaimID = nq_claim_id q,
           nr_AttemptNumber = ca_attemptNumber attempt, nr_WorkerID = nq_worker_id q,
           nr_LeaseDurationMilliseconds = nq_lease_milliseconds q,
           nr_PriorLeaseExpiresAt = nq_prior_lease_expires_at q, nr_RenewedAt = nq_renewed_at q,
           nr_LeaseExpiresAt = nq_lease_expires_at q, nr_Replayed = False\<rparr>, nq_payload_hash q)))))"

definition renewRepositoryExtractionWorkLease ::
  "(time \<Rightarrow> time) \<Rightarrow> RepositoryExtractionWorkLeaseRenewalInput \<Rightarrow> time \<Rightarrow> workDB \<Rightarrow>
   (RepositoryExtractionWorkLeaseRenewalResult \<times> workDB) ingestion" where
  "renewRepositoryExtractionWorkLease ts input renewedAt db =
    and_then (validateRepositoryExtractionWorkLeaseRenewalInput input) (\<lambda>(i, leaseDuration).
    if is_zero_time renewedAt then Inl (Domain ErrorInvalidInput) else
    (let leaseExpiresAt = renewedAt + leaseDuration;
         payloadHash = repositoryExtractionWorkLeaseRenewalPayloadHash i in
     and_then (readRepositoryExtractionWorkLeaseRenewalRequest db (ni_RequestID i)) (\<lambda>persisted.
     case persisted of
       Some (result, hash) \<Rightarrow>
         if hash \<noteq> payloadHash then Inl (Domain ErrorIdempotencyKeyReused)
         else Inr (result\<lparr>nr_Replayed := True\<rparr>, db)
     | None \<Rightarrow>
       and_then (lockRepositorySourceStreamForWork db (ni_WorkItemID i)) (\<lambda>_.
       and_then (readRepositoryExtractionWorkByID db (ni_WorkItemID i)) (\<lambda>work.
       if wr_status work \<noteq> repositoryExtractionWorkRunning \<or> wr_claimID work \<noteq> ni_ClaimID i \<or>
         wr_claimedBy work \<noteq> ni_WorkerID i \<or> wr_claimedAt work = None \<or> wr_finishedAt work \<noteq> None \<or>
         wr_sourceGenerationID work \<noteq> [] \<or> wr_failureClass work \<noteq> [] \<or> wr_failureMessage work \<noteq> []
       then Inl (Domain ErrorRepositoryWorkConflict) else
       and_then (absent_as ErrorMissingSourceViewAttempt (readRepositoryExtractionWorkClaimAttempt db (ni_ClaimID i)))
         (\<lambda>attempt.
       if ca_workItemID attempt \<noteq> ni_WorkItemID i \<or> ca_workerID attempt \<noteq> ni_WorkerID i \<or>
         ca_status attempt \<noteq> repositoryExtractionWorkRunning \<or> ca_finishedAt attempt \<noteq> None \<or>
         ca_expiredAt attempt \<noteq> None \<or> ca_sourceGenerationID attempt \<noteq> [] \<or> ca_failureClass attempt \<noteq> [] \<or>
         ca_failureMessage attempt \<noteq> [] \<or> Some (ca_claimedAt attempt) \<noteq> wr_claimedAt work
       then Inl (Domain ErrorRepositoryWorkConflict)
       else if \<not> renewedAt < ca_leaseExpiresAt attempt then Inl (Domain ErrorRepositoryWorkLeaseExpired)
       else if \<not> ca_leaseExpiresAt attempt < leaseExpiresAt then Inl (Domain ErrorRepositoryWorkConflict) else
       and_then (update_one_attempt
         (\<lambda>a. ca_claimID a = ni_ClaimID i \<and> ca_workItemID a = ni_WorkItemID i \<and> ca_workerID a = ni_WorkerID i \<and>
           ca_status a = repositoryExtractionWorkRunning \<and> ca_leaseExpiresAt a = ca_leaseExpiresAt attempt)
         (\<lambda>a. a\<lparr>ca_leaseExpiresAt := ts leaseExpiresAt\<rparr>) db) (\<lambda>db.
       (let result = \<lparr>nr_RequestID = ni_RequestID i, nr_Work = wr_work work, nr_ClaimID = ni_ClaimID i,
          nr_AttemptNumber = ca_attemptNumber attempt, nr_WorkerID = ni_WorkerID i,
          nr_LeaseDurationMilliseconds = ni_LeaseDurationMilliseconds i,
          nr_PriorLeaseExpiresAt = ca_leaseExpiresAt attempt, nr_RenewedAt = renewedAt,
          nr_LeaseExpiresAt = leaseExpiresAt, nr_Replayed = False\<rparr>
        in and_then (persistRepositoryExtractionWorkLeaseRenewalRequest ts result payloadHash db) (\<lambda>db.
           Inr (result, db))))))))))"

section \<open>Finishing\<close>

abbreviation "repositoryExtractionWorkMaxFailureClassBytes \<equiv> 100"
abbreviation "repositoryExtractionWorkMaxFailureMessageBytes \<equiv> 2000"

definition validateRepositoryExtractionWorkFinishInput ::
  "RepositoryExtractionWorkFinishInput \<Rightarrow> RepositoryExtractionWorkFinishInput ingestion" where
  "validateRepositoryExtractionWorkFinishInput input =
    (let i = \<lparr>fi_RequestID = trim_space (fi_RequestID input), fi_WorkItemID = trim_space (fi_WorkItemID input),
       fi_ClaimID = trim_space (fi_ClaimID input), fi_WorkerID = trim_space (fi_WorkerID input),
       fi_Outcome = trim_space (fi_Outcome input), fi_SourceGenerationID = trim_space (fi_SourceGenerationID input),
       fi_FailureClass = trim_space (fi_FailureClass input), fi_FailureMessage = trim_space (fi_FailureMessage input)\<rparr> in
     if fi_RequestID i = [] then Inl (Domain ErrorInvalidInput)
     else if fi_WorkItemID i = [] \<or> fi_ClaimID i = [] then Inl (Domain ErrorInvalidInput)
     else if \<not> has_prefix (fi_WorkItemID i) work_prefix then Inl (Domain ErrorInvalidRecordID)
     else if \<not> has_prefix (fi_ClaimID i) claim_prefix then Inl (Domain ErrorInvalidRecordID)
     else if \<not> actor_ok (fi_WorkerID i) then Inl (Domain ErrorInvalidInput)
     else if fi_Outcome i = RepositoryExtractionWorkOutcomeSucceeded then
       if fi_SourceGenerationID i = [] then Inl (Domain ErrorInvalidInput)
       else if \<not> has_prefix (fi_SourceGenerationID i) ''generation:'' then Inl (Domain ErrorInvalidRecordID)
       else if fi_FailureClass i \<noteq> [] \<or> fi_FailureMessage i \<noteq> [] then Inl (Domain ErrorInvalidInput)
       else Inr i
     else if fi_Outcome i = RepositoryExtractionWorkOutcomeFailed then
       if fi_SourceGenerationID i \<noteq> [] then Inl (Domain ErrorInvalidInput)
       else if fi_FailureClass i = [] \<or> repositoryExtractionWorkMaxFailureClassBytes < length (fi_FailureClass i)
         then Inl (Domain ErrorInvalidInput)
       else if fi_FailureMessage i = [] \<or> repositoryExtractionWorkMaxFailureMessageBytes < length (fi_FailureMessage i)
         then Inl (Domain ErrorInvalidInput)
       else Inr i
     else Inl (Domain ErrorInvalidInput))"

definition repositoryExtractionWorkFinishPayloadHash :: "RepositoryExtractionWorkFinishInput \<Rightarrow> string" where
  "repositoryExtractionWorkFinishPayloadHash i =
    contentHash (marshal (JObj ([(''work_item_id'', JStr (fi_WorkItemID i)), (''claim_id'', JStr (fi_ClaimID i)),
      (''worker_id'', JStr (fi_WorkerID i)), (''outcome'', JStr (fi_Outcome i))]
      @ omitempty ''source_generation_id'' (fi_SourceGenerationID i)
      @ omitempty ''failure_class'' (fi_FailureClass i) @ omitempty ''failure_message'' (fi_FailureMessage i))))"

definition persistRepositoryExtractionWorkFinishRequest ::
  "RepositoryExtractionWorkFinishResult \<Rightarrow> string \<Rightarrow> workDB \<Rightarrow> workDB ingestion" where
  "persistRepositoryExtractionWorkFinishRequest r payloadHash db =
    and_then (insert_row (\<lambda>p q. fq_request_id q = fq_request_id p)
      \<lparr>fq_request_id = fr_RequestID r, fq_work_item_id = rw_WorkItemID (fr_Work r), fq_claim_id = fr_ClaimID r,
       fq_worker_id = fr_WorkerID r, fq_outcome = fr_Outcome r, fq_payload_hash = payloadHash\<rparr>
      (finish_requests db)) (\<lambda>qs.
    Inr (db\<lparr>finish_requests := qs\<rparr>))"

definition readRepositoryExtractionWorkFinishRequest ::
  "workDB \<Rightarrow> string \<Rightarrow> (RepositoryExtractionWorkFinishResult \<times> string) option ingestion" where
  "readRepositoryExtractionWorkFinishRequest db requestID =
    (case row (\<lambda>q. fq_request_id q = requestID) (finish_requests db) of
       None \<Rightarrow> Inr None
     | Some q \<Rightarrow>
         and_then (readRepositoryExtractionWorkByID db (fq_work_item_id q)) (\<lambda>work.
         and_then (readRepositoryExtractionWorkClaimAttempt db (fq_claim_id q)) (\<lambda>attempt.
         if ca_workItemID attempt \<noteq> fq_work_item_id q \<or> ca_workerID attempt \<noteq> fq_worker_id q \<or>
           ca_status attempt \<noteq> fq_outcome q \<or> ca_finishedAt attempt = None \<or> ca_expiredAt attempt \<noteq> None
         then Inl (Domain ErrorRepositoryWorkConflict)
         else Inr (Some (\<lparr>fr_RequestID = fq_request_id q, fr_Work = wr_work work, fr_ClaimID = fq_claim_id q,
           fr_WorkerID = fq_worker_id q, fr_Outcome = fq_outcome q,
           fr_SourceGenerationID = ca_sourceGenerationID attempt, fr_FailureClass = ca_failureClass attempt,
           fr_FailureMessage = ca_failureMessage attempt, fr_AttemptNumber = ca_attemptNumber attempt,
           fr_LeaseExpiresAt = ca_leaseExpiresAt attempt, fr_FinishedAt = the (ca_finishedAt attempt),
           fr_Replayed = False\<rparr>, fq_payload_hash q)))))"

text \<open>A success names a generation of the same repository, extractor and commit.\<close>

definition check_outcome ::
  "RepositoryExtractionWorkFinishInput \<Rightarrow> repositoryExtractionWorkRecord \<Rightarrow> workDB \<Rightarrow> unit ingestion" where
  "check_outcome i work db =
    (if fi_Outcome i = RepositoryExtractionWorkOutcomeSucceeded then
       and_then (absent_as ErrorMissingSourceViewAttempt
         (the_row (\<lambda>g. sg_ID g = fi_SourceGenerationID i) (generations db))) (\<lambda>g.
       require (sg_RepoID g = rw_RepoID (wr_work work) \<and> sg_ExtractorName g = rw_ExtractorName (wr_work work) \<and>
         sg_CommitSHA g = rw_HeadCommitSHA (wr_work work)) ErrorRepositoryWorkConflict)
     else if fi_Outcome i = RepositoryExtractionWorkOutcomeFailed then Inr ()
     else Inl (Domain ErrorInvalidInput))"

definition finishRepositoryExtractionWorkClaimAttempt ::
  "(time \<Rightarrow> time) \<Rightarrow> repositoryExtractionWorkClaimAttempt \<Rightarrow> RepositoryExtractionWorkFinishInput \<Rightarrow> time \<Rightarrow> workDB \<Rightarrow>
   workDB ingestion" where
  "finishRepositoryExtractionWorkClaimAttempt ts attempt i finishedAt =
    update_one_attempt (running_attempt_row attempt)
      (\<lambda>a. a\<lparr>ca_status := fi_Outcome i, ca_finishedAt := Some (ts finishedAt),
        ca_sourceGenerationID := fi_SourceGenerationID i, ca_failureClass := fi_FailureClass i,
        ca_failureMessage := fi_FailureMessage i\<rparr>)"

definition finishRepositoryExtractionWork ::
  "(time \<Rightarrow> time) \<Rightarrow> RepositoryExtractionWorkFinishInput \<Rightarrow> time \<Rightarrow> workDB \<Rightarrow>
   (RepositoryExtractionWorkFinishResult \<times> workDB) ingestion" where
  "finishRepositoryExtractionWork ts input finishedAt db =
    and_then (validateRepositoryExtractionWorkFinishInput input) (\<lambda>i.
    if is_zero_time finishedAt then Inl (Domain ErrorInvalidInput) else
    (let payloadHash = repositoryExtractionWorkFinishPayloadHash i in
     and_then (readRepositoryExtractionWorkFinishRequest db (fi_RequestID i)) (\<lambda>persisted.
     case persisted of
       Some (result, hash) \<Rightarrow>
         if hash \<noteq> payloadHash then Inl (Domain ErrorIdempotencyKeyReused)
         else Inr (result\<lparr>fr_Replayed := True\<rparr>, db)
     | None \<Rightarrow>
       and_then (lockRepositorySourceStreamForWork db (fi_WorkItemID i)) (\<lambda>_.
       and_then (readRepositoryExtractionWorkByID db (fi_WorkItemID i)) (\<lambda>work.
       if wr_status work \<noteq> repositoryExtractionWorkRunning then Inl (Domain ErrorRepositoryWorkConflict)
       else if wr_claimID work \<noteq> fi_ClaimID i \<or> wr_claimedBy work \<noteq> fi_WorkerID i
         then Inl (Domain ErrorRepositoryWorkConflict)
       else if wr_claimedAt work = None \<or> finishedAt < the (wr_claimedAt work)
         then Inl (Domain ErrorRepositoryWorkConflict) else
       and_then (absent_as ErrorMissingSourceViewAttempt (readRepositoryExtractionWorkClaimAttempt db (fi_ClaimID i)))
         (\<lambda>attempt.
       if ca_workItemID attempt \<noteq> fi_WorkItemID i \<or> ca_workerID attempt \<noteq> fi_WorkerID i \<or>
         ca_status attempt \<noteq> repositoryExtractionWorkRunning \<or> Some (ca_claimedAt attempt) \<noteq> wr_claimedAt work
         then Inl (Domain ErrorRepositoryWorkConflict)
       else if \<not> finishedAt < ca_leaseExpiresAt attempt then Inl (Domain ErrorRepositoryWorkLeaseExpired) else
       and_then (check_outcome i work db) (\<lambda>_.
       and_then (update_one_item
         (\<lambda>w. wi_work_item_id w = fi_WorkItemID i \<and> wi_claim_id w = fi_ClaimID i \<and> wi_claimed_by w = fi_WorkerID i \<and>
           wi_status w = repositoryExtractionWorkRunning)
         (\<lambda>w. w\<lparr>wi_status := fi_Outcome i, wi_source_generation_id := fi_SourceGenerationID i,
           wi_finished_at := Some (ts finishedAt), wi_failure_class := fi_FailureClass i,
           wi_failure_message := fi_FailureMessage i\<rparr>) db) (\<lambda>db.
       and_then (finishRepositoryExtractionWorkClaimAttempt ts attempt i finishedAt db) (\<lambda>db.
       (let result = \<lparr>fr_RequestID = fi_RequestID i, fr_Work = wr_work work, fr_ClaimID = fi_ClaimID i,
          fr_WorkerID = fi_WorkerID i, fr_Outcome = fi_Outcome i, fr_SourceGenerationID = fi_SourceGenerationID i,
          fr_FailureClass = fi_FailureClass i, fr_FailureMessage = fi_FailureMessage i,
          fr_AttemptNumber = ca_attemptNumber attempt, fr_LeaseExpiresAt = ca_leaseExpiresAt attempt,
          fr_FinishedAt = finishedAt, fr_Replayed = False\<rparr>
        in and_then (persistRepositoryExtractionWorkFinishRequest result payloadHash db) (\<lambda>db.
           Inr (result, db))))))))))))"

section \<open>Recovery\<close>

definition validateRepositoryExtractionWorkRecoveryInput ::
  "RepositoryExtractionWorkRecoveryInput \<Rightarrow> RepositoryExtractionWorkRecoveryInput ingestion" where
  "validateRepositoryExtractionWorkRecoveryInput input =
    (let i = \<lparr>ri_RequestID = trim_space (ri_RequestID input), ri_WorkItemID = trim_space (ri_WorkItemID input),
       ri_ClaimID = trim_space (ri_ClaimID input), ri_RecoveryActorID = trim_space (ri_RecoveryActorID input)\<rparr> in
     if ri_RequestID i = [] then Inl (Domain ErrorInvalidInput)
     else if \<not> has_prefix (ri_WorkItemID i) work_prefix then Inl (Domain ErrorInvalidRecordID)
     else if \<not> has_prefix (ri_ClaimID i) claim_prefix then Inl (Domain ErrorInvalidRecordID)
     else if \<not> actor_ok (ri_RecoveryActorID i) then Inl (Domain ErrorInvalidInput)
     else Inr i)"

definition repositoryExtractionWorkRecoveryPayloadHash :: "RepositoryExtractionWorkRecoveryInput \<Rightarrow> string" where
  "repositoryExtractionWorkRecoveryPayloadHash i =
    contentHash (marshal (JObj [(''work_item_id'', JStr (ri_WorkItemID i)), (''claim_id'', JStr (ri_ClaimID i)),
      (''recovery_actor_id'', JStr (ri_RecoveryActorID i))]))"

definition persistRepositoryExtractionWorkRecoveryRequest ::
  "(time \<Rightarrow> time) \<Rightarrow> RepositoryExtractionWorkRecoveryResult \<Rightarrow> string \<Rightarrow> workDB \<Rightarrow> workDB ingestion" where
  "persistRepositoryExtractionWorkRecoveryRequest ts r payloadHash db =
    and_then (insert_row (\<lambda>p q. rq_request_id q = rq_request_id p)
      \<lparr>rq_request_id = rr_RequestID r, rq_work_item_id = rw_WorkItemID (rr_Work r), rq_claim_id = rr_ClaimID r,
       rq_actor_id = rr_RecoveryActorID r, rq_disposition = rr_Disposition r,
       rq_superseded_by = rr_SupersededByWorkItemID r, rq_at = ts (rr_RecoveredAt r), rq_payload_hash = payloadHash\<rparr>
      (recovery_requests db)) (\<lambda>qs.
    Inr (db\<lparr>recovery_requests := qs\<rparr>))"

definition readRepositoryExtractionWorkRecoveryRequest ::
  "workDB \<Rightarrow> string \<Rightarrow> (RepositoryExtractionWorkRecoveryResult \<times> string) option ingestion" where
  "readRepositoryExtractionWorkRecoveryRequest db requestID =
    (case row (\<lambda>q. rq_request_id q = requestID) (recovery_requests db) of
       None \<Rightarrow> Inr None
     | Some q \<Rightarrow>
         and_then (readRepositoryExtractionWorkByID db (rq_work_item_id q)) (\<lambda>work.
         and_then (readRepositoryExtractionWorkClaimAttempt db (rq_claim_id q)) (\<lambda>attempt.
         if ca_workItemID attempt \<noteq> rq_work_item_id q \<or> ca_status attempt \<noteq> repositoryExtractionWorkExpired \<or>
           ca_expiredAt attempt \<noteq> Some (rq_at q)
         then Inl (Domain ErrorRepositoryWorkConflict)
         else Inr (Some (\<lparr>rr_RequestID = rq_request_id q, rr_Work = wr_work work, rr_ClaimID = rq_claim_id q,
           rr_AttemptNumber = ca_attemptNumber attempt, rr_WorkerID = ca_workerID attempt,
           rr_LeaseExpiresAt = ca_leaseExpiresAt attempt, rr_RecoveredAt = rq_at q,
           rr_RecoveryActorID = rq_actor_id q, rr_Disposition = rq_disposition q,
           rr_SupersededByWorkItemID = rq_superseded_by q, rr_Replayed = False\<rparr>, rq_payload_hash q)))))"

text \<open>
  Newer pending work of the stream supersedes the released work; with none it becomes pending again.
  Pending work that is not newer is a conflict.  The result is the new status, the superseding
  item and the disposition.
\<close>

definition release_status ::
  "repositoryExtractionWorkRecord \<Rightarrow> workDB \<Rightarrow> (string \<times> string \<times> string) ingestion" where
  "release_status work db =
    (case readPendingRepositoryExtractionWork db (rw_RepoID (wr_work work)) (rw_ExtractorName (wr_work work)) of
       None \<Rightarrow> Inr (repositoryExtractionWorkPending, [], DispositionRequeued)
     | Some pending \<Rightarrow>
         if rw_ObservationNumber (wr_work pending) \<le> rw_ObservationNumber (wr_work work)
         then Inl (Domain ErrorRepositoryWorkConflict)
         else Inr (repositoryExtractionWorkSuperseded, rw_WorkItemID (wr_work pending), DispositionSuperseded))"

definition recoverExpiredRepositoryExtractionWorkLocked ::
  "(time \<Rightarrow> time) \<Rightarrow> repositoryExtractionWorkRecord \<Rightarrow> string \<Rightarrow> string \<Rightarrow> time \<Rightarrow> workDB \<Rightarrow>
   (RepositoryExtractionWorkRecoveryResult \<times> workDB) ingestion" where
  "recoverExpiredRepositoryExtractionWorkLocked ts work claimID expectedWorkerID recoveredAt db =
    (if wr_status work \<noteq> repositoryExtractionWorkRunning \<or> wr_claimID work \<noteq> claimID
       then Inl (Domain ErrorRepositoryWorkConflict)
     else if expectedWorkerID \<noteq> [] \<and> wr_claimedBy work \<noteq> expectedWorkerID
       then Inl (Domain ErrorRepositoryWorkConflict) else
     and_then (absent_as ErrorMissingSourceViewAttempt (readRepositoryExtractionWorkClaimAttempt db claimID)) (\<lambda>attempt.
     if ca_workItemID attempt \<noteq> rw_WorkItemID (wr_work work) \<or> ca_workerID attempt \<noteq> wr_claimedBy work \<or>
       ca_status attempt \<noteq> repositoryExtractionWorkRunning \<or> Some (ca_claimedAt attempt) \<noteq> wr_claimedAt work
       then Inl (Domain ErrorRepositoryWorkConflict)
     else if recoveredAt < ca_leaseExpiresAt attempt then Inl (Domain ErrorRepositoryWorkConflict) else
     and_then (release_status work db) (\<lambda>(status, supersededBy, disposition).
     and_then (expireRepositoryExtractionWorkClaimAttempt ts attempt recoveredAt db) (\<lambda>db.
     and_then (update_one_item
       (\<lambda>w. wi_work_item_id w = rw_WorkItemID (wr_work work) \<and> wi_claim_id w = claimID \<and>
         wi_status w = repositoryExtractionWorkRunning)
       (release_item status supersededBy) db) (\<lambda>db.
     Inr (\<lparr>rr_RequestID = [], rr_Work = wr_work work, rr_ClaimID = claimID,
       rr_AttemptNumber = ca_attemptNumber attempt, rr_WorkerID = ca_workerID attempt,
       rr_LeaseExpiresAt = ca_leaseExpiresAt attempt, rr_RecoveredAt = recoveredAt, rr_RecoveryActorID = [],
       rr_Disposition = disposition, rr_SupersededByWorkItemID = supersededBy, rr_Replayed = False\<rparr>, db))))))"

text \<open>
  \<open>prepareRepositoryExtractionWorkRecovery\<close> and \<open>recoverExpiredRepositoryExtractionWorkTx\<close>; the second
  look at the stored request, under its lock, sees the same tables as the first.
\<close>

definition recoverExpiredRepositoryExtractionWork ::
  "(time \<Rightarrow> time) \<Rightarrow> RepositoryExtractionWorkRecoveryInput \<Rightarrow> time \<Rightarrow> workDB \<Rightarrow>
   (RepositoryExtractionWorkRecoveryResult \<times> workDB) ingestion" where
  "recoverExpiredRepositoryExtractionWork ts input recoveredAt db =
    and_then (validateRepositoryExtractionWorkRecoveryInput input) (\<lambda>i.
    if is_zero_time recoveredAt then Inl (Domain ErrorInvalidInput) else
    (let payloadHash = repositoryExtractionWorkRecoveryPayloadHash i in
     and_then (readRepositoryExtractionWorkRecoveryRequest db (ri_RequestID i)) (\<lambda>persisted.
     case persisted of
       Some (result, hash) \<Rightarrow>
         if hash \<noteq> payloadHash then Inl (Domain ErrorIdempotencyKeyReused)
         else Inr (result\<lparr>rr_Replayed := True\<rparr>, db)
     | None \<Rightarrow>
       and_then (lockRepositorySourceStreamForWork db (ri_WorkItemID i)) (\<lambda>_.
       and_then (readRepositoryExtractionWorkByID db (ri_WorkItemID i)) (\<lambda>work.
       and_then (recoverExpiredRepositoryExtractionWorkLocked ts work (ri_ClaimID i) [] recoveredAt db) (\<lambda>(result, db).
       (let result = result\<lparr>rr_RequestID := ri_RequestID i, rr_RecoveryActorID := ri_RecoveryActorID i\<rparr>
        in and_then (persistRepositoryExtractionWorkRecoveryRequest ts result payloadHash db) (\<lambda>db.
           Inr (result, db)))))))))"

end
