(* ===== verification/WorkRetry.thy ===== *)
theory WorkRetry
  imports WorkLease
begin

text \<open>
  What follows a failed claim: the policy of \<open>repository_extraction_work_failure_policy.go\<close>, the explicit
  retry of \<open>repository_extraction_work_retry.go\<close>, and the retry that consumes a due policy decision,
  \<open>repository_extraction_work_retry_decision.go\<close>.
\<close>

section \<open>Inputs and results\<close>

abbreviation "RepositoryExtractionWorkFailurePolicyV1 \<equiv> ''repository-retry-policy-v1''"
abbreviation "FailureDecisionRetry \<equiv> ''retry''"
abbreviation "FailureDecisionStop \<equiv> ''stop''"
abbreviation "FailureDecisionManualReview \<equiv> ''manual_review''"
abbreviation "FailureDecisionExhausted \<equiv> ''exhausted''"
abbreviation "FailureReasonRetryable \<equiv> ''retryable_runner_failure''"
abbreviation "FailureReasonLimitReached \<equiv> ''retry_limit_reached''"
abbreviation "FailureReasonDeterministic \<equiv> ''deterministic_or_authority_failure''"
abbreviation "FailureReasonSeparateRepair \<equiv> ''separate_recovery_or_cause_inspection_required''"
abbreviation "FailureReasonUnclassified \<equiv> ''unclassified_failure''"

definition RepositoryExtractionWorkFailurePolicyMaxAttempts :: int where
  "RepositoryExtractionWorkFailurePolicyMaxAttempts = 3"

definition repositoryExtractionWorkFailurePolicyBaseBackoff :: time where
  "repositoryExtractionWorkFailurePolicyBaseBackoff = 5000 * Millisecond"

record RepositoryExtractionWorkFailurePolicyInput =
  pi_RequestID :: string
  pi_WorkItemID :: string
  pi_ClaimID :: string
  pi_DecisionActorID :: string

record RepositoryExtractionWorkFailurePolicyResult =
  pr_RequestID :: string
  pr_Work :: RepositoryExtractionWork
  pr_ClaimID :: string
  pr_AttemptNumber :: int
  pr_WorkerID :: string
  pr_FinishedAt :: time
  pr_FailureClass :: string
  pr_FailureMessage :: string
  pr_PolicyVersion :: string
  pr_Decision :: string
  pr_DecisionReason :: string
  pr_MaxAttempts :: int
  pr_BackoffMilliseconds :: int
  pr_RetryNotBefore :: "time option"
  pr_DecidedAt :: time
  pr_DecisionActorID :: string
  pr_Replayed :: bool

record repositoryExtractionWorkFailurePolicyDecision =
  fd_decision :: string
  fd_reason :: string
  fd_backoffMilliseconds :: int
  fd_retryNotBefore :: "time option"

record RepositoryExtractionWorkRetryInput =
  ti_RequestID :: string
  ti_WorkItemID :: string
  ti_ClaimID :: string
  ti_RetryActorID :: string

record RepositoryExtractionWorkRetryResult =
  tr_RequestID :: string
  tr_Work :: RepositoryExtractionWork
  tr_ClaimID :: string
  tr_AttemptNumber :: int
  tr_WorkerID :: string
  tr_FinishedAt :: time
  tr_FailureClass :: string
  tr_FailureMessage :: string
  tr_RetriedAt :: time
  tr_RetryActorID :: string
  tr_Disposition :: string
  tr_SupersededByWorkItemID :: string
  tr_Replayed :: bool

record RepositoryExtractionWorkRetryDecisionConsumptionInput =
  di_RequestID :: string
  di_FailurePolicyRequestID :: string
  di_WorkItemID :: string
  di_ClaimID :: string
  di_ConsumerActorID :: string

record RepositoryExtractionWorkRetryDecisionConsumptionResult =
  dr_RequestID :: string
  dr_FailurePolicyRequestID :: string
  dr_Work :: RepositoryExtractionWork
  dr_ClaimID :: string
  dr_AttemptNumber :: int
  dr_WorkerID :: string
  dr_FinishedAt :: time
  dr_FailureClass :: string
  dr_FailureMessage :: string
  dr_PolicyVersion :: string
  dr_Decision :: string
  dr_DecisionReason :: string
  dr_BackoffMilliseconds :: int
  dr_RetryNotBefore :: time
  dr_DecidedAt :: time
  dr_ConsumedAt :: time
  dr_ConsumerActorID :: string
  dr_Disposition :: string
  dr_SupersededByWorkItemID :: string
  dr_Replayed :: bool

section \<open>The failure policy\<close>

definition retryable_kinds :: "ErrorKind list" where
  "retryable_kinds = [ErrorRunnerInvocationFailed, ErrorRunnerInvocationTimeout, ErrorRunnerInvocationCancelled]"

definition repair_kinds :: "ErrorKind list" where
  "repair_kinds = [ErrorPersistedAttemptFailed, ErrorRepositoryWorkLeaseExpired]"

definition deterministic_kinds :: "ErrorKind list" where
  "deterministic_kinds = [ErrorInvalidUTF8, ErrorUnknownSpan, ErrorSpanOutOfBounds, ErrorQuotedHashMismatch,
    ErrorDuplicateProposalLocalID, ErrorMissingSourceViewAttempt, ErrorOccurrenceConflict, ErrorInvalidInput,
    ErrorInvalidRecordID, ErrorIdempotencyKeyReused, ErrorRepositoryRevisionMismatch,
    ErrorRepositorySnapshotIntegrity, ErrorInvalidExtractorOutput, ErrorUnsupportedAdmission,
    ErrorAdmissionStateConflict, ErrorSourceGenerationConflict, ErrorChangeObservationConflict,
    ErrorRepositoryWorkConflict]"

text \<open>The attempt number of a stored attempt is positive, so \<open>1 << (attemptNumber - 1)\<close> shifts by a count.\<close>

definition decideRepositoryExtractionWorkFailurePolicy ::
  "string \<Rightarrow> int \<Rightarrow> time \<Rightarrow> repositoryExtractionWorkFailurePolicyDecision" where
  "decideRepositoryExtractionWorkFailurePolicy failureClass attemptNumber decidedAt =
    (let settled = (\<lambda>d r. \<lparr>fd_decision = d, fd_reason = r, fd_backoffMilliseconds = 0, fd_retryNotBefore = None\<rparr>) in
     if failureClass \<in> set retryable_kinds then
       if RepositoryExtractionWorkFailurePolicyMaxAttempts \<le> attemptNumber
       then settled FailureDecisionExhausted FailureReasonLimitReached
       else (let backoff = repositoryExtractionWorkFailurePolicyBaseBackoff * 2 ^ nat (attemptNumber - 1) in
         \<lparr>fd_decision = FailureDecisionRetry, fd_reason = FailureReasonRetryable,
          fd_backoffMilliseconds = backoff div Millisecond, fd_retryNotBefore = Some (decidedAt + backoff)\<rparr>)
     else if failureClass \<in> set repair_kinds then settled FailureDecisionManualReview FailureReasonSeparateRepair
     else if failureClass \<in> set deterministic_kinds then settled FailureDecisionStop FailureReasonDeterministic
     else settled FailureDecisionManualReview FailureReasonUnclassified)"

definition validateRepositoryExtractionWorkFailurePolicyInput ::
  "RepositoryExtractionWorkFailurePolicyInput \<Rightarrow> RepositoryExtractionWorkFailurePolicyInput ingestion" where
  "validateRepositoryExtractionWorkFailurePolicyInput input =
    (let i = \<lparr>pi_RequestID = trim_space (pi_RequestID input), pi_WorkItemID = trim_space (pi_WorkItemID input),
       pi_ClaimID = trim_space (pi_ClaimID input), pi_DecisionActorID = trim_space (pi_DecisionActorID input)\<rparr> in
     if pi_RequestID i = [] then Inl (Domain ErrorInvalidInput)
     else if \<not> has_prefix (pi_WorkItemID i) work_prefix then Inl (Domain ErrorInvalidRecordID)
     else if \<not> has_prefix (pi_ClaimID i) claim_prefix then Inl (Domain ErrorInvalidRecordID)
     else if \<not> actor_ok (pi_DecisionActorID i) then Inl (Domain ErrorInvalidInput)
     else Inr i)"

definition repositoryExtractionWorkFailurePolicyPayloadHash :: "RepositoryExtractionWorkFailurePolicyInput \<Rightarrow> string" where
  "repositoryExtractionWorkFailurePolicyPayloadHash i =
    contentHash (marshal (JObj [(''work_item_id'', JStr (pi_WorkItemID i)), (''claim_id'', JStr (pi_ClaimID i)),
      (''decision_actor_id'', JStr (pi_DecisionActorID i))]))"

text \<open>The unique keys of the decisions table: the request and the claim.\<close>

definition persistRepositoryExtractionWorkFailurePolicyDecision ::
  "(time \<Rightarrow> time) \<Rightarrow> RepositoryExtractionWorkFailurePolicyResult \<Rightarrow> string \<Rightarrow> workDB \<Rightarrow> workDB ingestion" where
  "persistRepositoryExtractionWorkFailurePolicyDecision ts r payloadHash db =
    and_then (insert_row (\<lambda>p q. pd_request_id q = pd_request_id p \<or> pd_claim_id q = pd_claim_id p)
      \<lparr>pd_request_id = pr_RequestID r, pd_work_item_id = rw_WorkItemID (pr_Work r), pd_claim_id = pr_ClaimID r,
       pd_actor_id = pr_DecisionActorID r, pd_policy_version = pr_PolicyVersion r,
       pd_failure_class = pr_FailureClass r, pd_attempt_number = pr_AttemptNumber r, pd_decision = pr_Decision r,
       pd_decision_reason = pr_DecisionReason r, pd_max_attempts = pr_MaxAttempts r,
       pd_backoff_milliseconds = pr_BackoffMilliseconds r, pd_retry_not_before = map_option ts (pr_RetryNotBefore r),
       pd_decided_at = ts (pr_DecidedAt r), pd_payload_hash = payloadHash\<rparr> (policy_decisions db)) (\<lambda>ds.
    Inr (db\<lparr>policy_decisions := ds\<rparr>))"

text \<open>The stored decision is recomputed from the failed attempt and must agree with it.\<close>

definition readRepositoryExtractionWorkFailurePolicyDecision ::
  "workDB \<Rightarrow> string \<Rightarrow> (RepositoryExtractionWorkFailurePolicyResult \<times> string) option ingestion" where
  "readRepositoryExtractionWorkFailurePolicyDecision db requestID =
    (case row (\<lambda>d. pd_request_id d = requestID) (policy_decisions db) of
       None \<Rightarrow> Inr None
     | Some d \<Rightarrow>
         and_then (readRepositoryExtractionWorkByID db (pd_work_item_id d)) (\<lambda>work.
         and_then (readRepositoryExtractionWorkClaimAttempt db (pd_claim_id d)) (\<lambda>attempt.
         if ca_workItemID attempt \<noteq> pd_work_item_id d \<or> ca_status attempt \<noteq> RepositoryExtractionWorkOutcomeFailed \<or>
           ca_finishedAt attempt = None \<or> ca_expiredAt attempt \<noteq> None \<or>
           ca_attemptNumber attempt \<noteq> pd_attempt_number d \<or> ca_failureClass attempt \<noteq> pd_failure_class d \<or>
           pd_decided_at d < the (ca_finishedAt attempt)
         then Inl (Domain ErrorRepositoryWorkConflict) else
         (let expected = decideRepositoryExtractionWorkFailurePolicy (ca_failureClass attempt)
            (ca_attemptNumber attempt) (pd_decided_at d) in
          if pd_policy_version d \<noteq> RepositoryExtractionWorkFailurePolicyV1 \<or> pd_decision d \<noteq> fd_decision expected \<or>
            pd_decision_reason d \<noteq> fd_reason expected \<or>
            pd_max_attempts d \<noteq> RepositoryExtractionWorkFailurePolicyMaxAttempts \<or>
            pd_backoff_milliseconds d \<noteq> fd_backoffMilliseconds expected \<or>
            pd_retry_not_before d \<noteq> fd_retryNotBefore expected
          then Inl (Domain ErrorRepositoryWorkConflict)
          else Inr (Some (\<lparr>pr_RequestID = pd_request_id d, pr_Work = wr_work work, pr_ClaimID = pd_claim_id d,
            pr_AttemptNumber = pd_attempt_number d, pr_WorkerID = ca_workerID attempt,
            pr_FinishedAt = the (ca_finishedAt attempt), pr_FailureClass = pd_failure_class d,
            pr_FailureMessage = ca_failureMessage attempt, pr_PolicyVersion = pd_policy_version d,
            pr_Decision = pd_decision d, pr_DecisionReason = pd_decision_reason d,
            pr_MaxAttempts = pd_max_attempts d, pr_BackoffMilliseconds = pd_backoff_milliseconds d,
            pr_RetryNotBefore = pd_retry_not_before d, pr_DecidedAt = pd_decided_at d,
            pr_DecisionActorID = pd_actor_id d, pr_Replayed = False\<rparr>, pd_payload_hash d))))))"

text \<open>
  The guards that classification and retry share on a failed record at an instant, with the
  attempt they lock.
\<close>

definition failed_attempt ::
  "repositoryExtractionWorkRecord \<Rightarrow> string \<Rightarrow> time \<Rightarrow> workDB \<Rightarrow> repositoryExtractionWorkClaimAttempt ingestion" where
  "failed_attempt work claimID now db =
    (if wr_status work \<noteq> RepositoryExtractionWorkOutcomeFailed \<or> wr_claimID work \<noteq> claimID
       then Inl (Domain ErrorRepositoryWorkConflict)
     else if wr_claimedBy work = [] \<or> wr_claimedAt work = None \<or> wr_finishedAt work = None \<or>
       wr_failureClass work = [] \<or> wr_failureMessage work = [] then Inl (Domain ErrorRepositoryWorkConflict)
     else if now < the (wr_finishedAt work) then Inl (Domain ErrorRepositoryWorkConflict) else
     and_then (absent_as ErrorMissingSourceViewAttempt (readRepositoryExtractionWorkClaimAttempt db claimID)) (\<lambda>attempt.
     if ca_workItemID attempt \<noteq> rw_WorkItemID (wr_work work) \<or> ca_workerID attempt \<noteq> wr_claimedBy work \<or>
       ca_status attempt \<noteq> RepositoryExtractionWorkOutcomeFailed \<or> ca_finishedAt attempt = None \<or>
       ca_expiredAt attempt \<noteq> None \<or> Some (ca_claimedAt attempt) \<noteq> wr_claimedAt work \<or>
       ca_finishedAt attempt \<noteq> wr_finishedAt work \<or> ca_failureClass attempt \<noteq> wr_failureClass work \<or>
       ca_failureMessage attempt \<noteq> wr_failureMessage work
     then Inl (Domain ErrorRepositoryWorkConflict) else Inr attempt))"

definition classifyFailedRepositoryExtractionWork ::
  "(time \<Rightarrow> time) \<Rightarrow> RepositoryExtractionWorkFailurePolicyInput \<Rightarrow> time \<Rightarrow> workDB \<Rightarrow>
   (RepositoryExtractionWorkFailurePolicyResult \<times> workDB) ingestion" where
  "classifyFailedRepositoryExtractionWork ts input decidedAt db =
    and_then (validateRepositoryExtractionWorkFailurePolicyInput input) (\<lambda>i.
    if is_zero_time decidedAt then Inl (Domain ErrorInvalidInput) else
    (let payloadHash = repositoryExtractionWorkFailurePolicyPayloadHash i in
     and_then (readRepositoryExtractionWorkFailurePolicyDecision db (pi_RequestID i)) (\<lambda>persisted.
     case persisted of
       Some (result, hash) \<Rightarrow>
         if hash \<noteq> payloadHash then Inl (Domain ErrorIdempotencyKeyReused)
         else Inr (result\<lparr>pr_Replayed := True\<rparr>, db)
     | None \<Rightarrow>
       and_then (lockRepositorySourceStreamForWork db (pi_WorkItemID i)) (\<lambda>_.
       and_then (readRepositoryExtractionWorkByID db (pi_WorkItemID i)) (\<lambda>work.
       and_then (failed_attempt work (pi_ClaimID i) decidedAt db) (\<lambda>attempt.
       if list_ex (\<lambda>d. pd_claim_id d = pi_ClaimID i) (policy_decisions db)
         then Inl (Domain ErrorRepositoryWorkConflict) else
       (let policy = decideRepositoryExtractionWorkFailurePolicy (ca_failureClass attempt) (ca_attemptNumber attempt)
          decidedAt;
          result = \<lparr>pr_RequestID = pi_RequestID i, pr_Work = wr_work work, pr_ClaimID = pi_ClaimID i,
            pr_AttemptNumber = ca_attemptNumber attempt, pr_WorkerID = ca_workerID attempt,
            pr_FinishedAt = the (ca_finishedAt attempt), pr_FailureClass = ca_failureClass attempt,
            pr_FailureMessage = ca_failureMessage attempt, pr_PolicyVersion = RepositoryExtractionWorkFailurePolicyV1,
            pr_Decision = fd_decision policy, pr_DecisionReason = fd_reason policy,
            pr_MaxAttempts = RepositoryExtractionWorkFailurePolicyMaxAttempts,
            pr_BackoffMilliseconds = fd_backoffMilliseconds policy, pr_RetryNotBefore = fd_retryNotBefore policy,
            pr_DecidedAt = decidedAt, pr_DecisionActorID = pi_DecisionActorID i, pr_Replayed = False\<rparr>
        in and_then (persistRepositoryExtractionWorkFailurePolicyDecision ts result payloadHash db) (\<lambda>db.
           Inr (result, db)))))))))"

section \<open>Retry\<close>

definition validateRepositoryExtractionWorkRetryInput ::
  "RepositoryExtractionWorkRetryInput \<Rightarrow> RepositoryExtractionWorkRetryInput ingestion" where
  "validateRepositoryExtractionWorkRetryInput input =
    (let i = \<lparr>ti_RequestID = trim_space (ti_RequestID input), ti_WorkItemID = trim_space (ti_WorkItemID input),
       ti_ClaimID = trim_space (ti_ClaimID input), ti_RetryActorID = trim_space (ti_RetryActorID input)\<rparr> in
     if ti_RequestID i = [] then Inl (Domain ErrorInvalidInput)
     else if \<not> has_prefix (ti_WorkItemID i) work_prefix then Inl (Domain ErrorInvalidRecordID)
     else if \<not> has_prefix (ti_ClaimID i) claim_prefix then Inl (Domain ErrorInvalidRecordID)
     else if \<not> actor_ok (ti_RetryActorID i) then Inl (Domain ErrorInvalidInput)
     else Inr i)"

definition repositoryExtractionWorkRetryPayloadHash :: "RepositoryExtractionWorkRetryInput \<Rightarrow> string" where
  "repositoryExtractionWorkRetryPayloadHash i =
    contentHash (marshal (JObj [(''work_item_id'', JStr (ti_WorkItemID i)), (''claim_id'', JStr (ti_ClaimID i)),
      (''retry_actor_id'', JStr (ti_RetryActorID i))]))"

definition persistRepositoryExtractionWorkRetryRequest ::
  "(time \<Rightarrow> time) \<Rightarrow> RepositoryExtractionWorkRetryResult \<Rightarrow> string \<Rightarrow> workDB \<Rightarrow> workDB ingestion" where
  "persistRepositoryExtractionWorkRetryRequest ts r payloadHash db =
    and_then (insert_row (\<lambda>p q. rq_request_id q = rq_request_id p)
      \<lparr>rq_request_id = tr_RequestID r, rq_work_item_id = rw_WorkItemID (tr_Work r), rq_claim_id = tr_ClaimID r,
       rq_actor_id = tr_RetryActorID r, rq_disposition = tr_Disposition r,
       rq_superseded_by = tr_SupersededByWorkItemID r, rq_at = ts (tr_RetriedAt r), rq_payload_hash = payloadHash\<rparr>
      (retry_requests db)) (\<lambda>qs.
    Inr (db\<lparr>retry_requests := qs\<rparr>))"

definition readRepositoryExtractionWorkRetryRequest ::
  "workDB \<Rightarrow> string \<Rightarrow> (RepositoryExtractionWorkRetryResult \<times> string) option ingestion" where
  "readRepositoryExtractionWorkRetryRequest db requestID =
    (case row (\<lambda>q. rq_request_id q = requestID) (retry_requests db) of
       None \<Rightarrow> Inr None
     | Some q \<Rightarrow>
         and_then (readRepositoryExtractionWorkByID db (rq_work_item_id q)) (\<lambda>work.
         and_then (readRepositoryExtractionWorkClaimAttempt db (rq_claim_id q)) (\<lambda>attempt.
         if ca_workItemID attempt \<noteq> rq_work_item_id q \<or> ca_status attempt \<noteq> RepositoryExtractionWorkOutcomeFailed \<or>
           ca_finishedAt attempt = None \<or> ca_expiredAt attempt \<noteq> None \<or> rq_at q < the (ca_finishedAt attempt)
         then Inl (Domain ErrorRepositoryWorkConflict)
         else Inr (Some (\<lparr>tr_RequestID = rq_request_id q, tr_Work = wr_work work, tr_ClaimID = rq_claim_id q,
           tr_AttemptNumber = ca_attemptNumber attempt, tr_WorkerID = ca_workerID attempt,
           tr_FinishedAt = the (ca_finishedAt attempt), tr_FailureClass = ca_failureClass attempt,
           tr_FailureMessage = ca_failureMessage attempt, tr_RetriedAt = rq_at q, tr_RetryActorID = rq_actor_id q,
           tr_Disposition = rq_disposition q, tr_SupersededByWorkItemID = rq_superseded_by q,
           tr_Replayed = False\<rparr>, rq_payload_hash q)))))"

definition retryFailedRepositoryExtractionWorkLocked ::
  "repositoryExtractionWorkRecord \<Rightarrow> string \<Rightarrow> time \<Rightarrow> workDB \<Rightarrow>
   (RepositoryExtractionWorkRetryResult \<times> workDB) ingestion" where
  "retryFailedRepositoryExtractionWorkLocked work claimID retriedAt db =
    and_then (failed_attempt work claimID retriedAt db) (\<lambda>attempt.
    and_then (release_status work db) (\<lambda>(status, supersededBy, disposition).
    and_then (update_one_item
      (\<lambda>w. wi_work_item_id w = rw_WorkItemID (wr_work work) \<and> wi_claim_id w = claimID \<and>
        wi_status w = RepositoryExtractionWorkOutcomeFailed)
      (release_item status supersededBy) db) (\<lambda>db.
    Inr (\<lparr>tr_RequestID = [], tr_Work = wr_work work, tr_ClaimID = claimID,
      tr_AttemptNumber = ca_attemptNumber attempt, tr_WorkerID = ca_workerID attempt,
      tr_FinishedAt = the (ca_finishedAt attempt), tr_FailureClass = ca_failureClass attempt,
      tr_FailureMessage = ca_failureMessage attempt, tr_RetriedAt = retriedAt, tr_RetryActorID = [],
      tr_Disposition = disposition, tr_SupersededByWorkItemID = supersededBy, tr_Replayed = False\<rparr>, db))))"

definition retryFailedRepositoryExtractionWork ::
  "(time \<Rightarrow> time) \<Rightarrow> RepositoryExtractionWorkRetryInput \<Rightarrow> time \<Rightarrow> workDB \<Rightarrow>
   (RepositoryExtractionWorkRetryResult \<times> workDB) ingestion" where
  "retryFailedRepositoryExtractionWork ts input retriedAt db =
    and_then (validateRepositoryExtractionWorkRetryInput input) (\<lambda>i.
    if is_zero_time retriedAt then Inl (Domain ErrorInvalidInput) else
    (let payloadHash = repositoryExtractionWorkRetryPayloadHash i in
     and_then (readRepositoryExtractionWorkRetryRequest db (ti_RequestID i)) (\<lambda>persisted.
     case persisted of
       Some (result, hash) \<Rightarrow>
         if hash \<noteq> payloadHash then Inl (Domain ErrorIdempotencyKeyReused)
         else Inr (result\<lparr>tr_Replayed := True\<rparr>, db)
     | None \<Rightarrow>
       and_then (lockRepositorySourceStreamForWork db (ti_WorkItemID i)) (\<lambda>_.
       and_then (readRepositoryExtractionWorkByID db (ti_WorkItemID i)) (\<lambda>work.
       and_then (retryFailedRepositoryExtractionWorkLocked work (ti_ClaimID i) retriedAt db) (\<lambda>(result, db).
       (let result = result\<lparr>tr_RequestID := ti_RequestID i, tr_RetryActorID := ti_RetryActorID i\<rparr>
        in and_then (persistRepositoryExtractionWorkRetryRequest ts result payloadHash db) (\<lambda>db.
           Inr (result, db)))))))))"

section \<open>Consuming a due decision\<close>

definition validateRepositoryExtractionWorkRetryDecisionConsumptionInput ::
  "RepositoryExtractionWorkRetryDecisionConsumptionInput \<Rightarrow> RepositoryExtractionWorkRetryDecisionConsumptionInput ingestion" where
  "validateRepositoryExtractionWorkRetryDecisionConsumptionInput input =
    (let i = \<lparr>di_RequestID = trim_space (di_RequestID input),
       di_FailurePolicyRequestID = trim_space (di_FailurePolicyRequestID input),
       di_WorkItemID = trim_space (di_WorkItemID input), di_ClaimID = trim_space (di_ClaimID input),
       di_ConsumerActorID = trim_space (di_ConsumerActorID input)\<rparr> in
     if di_RequestID i = [] then Inl (Domain ErrorInvalidInput)
     else if di_FailurePolicyRequestID i = [] then Inl (Domain ErrorInvalidInput)
     else if \<not> has_prefix (di_WorkItemID i) work_prefix then Inl (Domain ErrorInvalidRecordID)
     else if \<not> has_prefix (di_ClaimID i) claim_prefix then Inl (Domain ErrorInvalidRecordID)
     else if \<not> actor_ok (di_ConsumerActorID i) then Inl (Domain ErrorInvalidInput)
     else Inr i)"

definition repositoryExtractionWorkRetryDecisionConsumptionPayloadHash ::
  "RepositoryExtractionWorkRetryDecisionConsumptionInput \<Rightarrow> string" where
  "repositoryExtractionWorkRetryDecisionConsumptionPayloadHash i =
    contentHash (marshal (JObj [(''failure_policy_request_id'', JStr (di_FailurePolicyRequestID i)),
      (''work_item_id'', JStr (di_WorkItemID i)), (''claim_id'', JStr (di_ClaimID i)),
      (''consumer_actor_id'', JStr (di_ConsumerActorID i))]))"

definition persistRepositoryExtractionWorkRetryDecisionConsumption ::
  "(time \<Rightarrow> time) \<Rightarrow> RepositoryExtractionWorkRetryDecisionConsumptionResult \<Rightarrow> string \<Rightarrow> workDB \<Rightarrow> workDB ingestion" where
  "persistRepositoryExtractionWorkRetryDecisionConsumption ts r payloadHash db =
    and_then (insert_row (\<lambda>p q. dc_request_id q = dc_request_id p \<or> dc_policy_request_id q = dc_policy_request_id p)
      \<lparr>dc_request_id = dr_RequestID r, dc_policy_request_id = dr_FailurePolicyRequestID r,
       dc_work_item_id = rw_WorkItemID (dr_Work r), dc_claim_id = dr_ClaimID r, dc_actor_id = dr_ConsumerActorID r,
       dc_policy_decision = dr_Decision r, dc_retry_not_before = ts (dr_RetryNotBefore r),
       dc_disposition = dr_Disposition r, dc_superseded_by = dr_SupersededByWorkItemID r,
       dc_consumed_at = ts (dr_ConsumedAt r), dc_payload_hash = payloadHash\<rparr> (consumptions db)) (\<lambda>cs.
    Inr (db\<lparr>consumptions := cs\<rparr>))"

definition readRepositoryExtractionWorkRetryDecisionConsumption ::
  "workDB \<Rightarrow> string \<Rightarrow> (RepositoryExtractionWorkRetryDecisionConsumptionResult \<times> string) option ingestion" where
  "readRepositoryExtractionWorkRetryDecisionConsumption db requestID =
    (case row (\<lambda>c. dc_request_id c = requestID) (consumptions db) of
       None \<Rightarrow> Inr None
     | Some c \<Rightarrow>
         and_then (readRepositoryExtractionWorkFailurePolicyDecision db (dc_policy_request_id c)) (\<lambda>policy.
         case policy of
           None \<Rightarrow> Inl (Domain ErrorRepositoryWorkConflict)
         | Some (p, _) \<Rightarrow>
             if rw_WorkItemID (pr_Work p) \<noteq> dc_work_item_id c \<or> pr_ClaimID p \<noteq> dc_claim_id c \<or>
               dc_policy_decision c \<noteq> FailureDecisionRetry \<or> pr_Decision p \<noteq> dc_policy_decision c \<or>
               pr_RetryNotBefore p \<noteq> Some (dc_retry_not_before c) \<or> dc_consumed_at c < dc_retry_not_before c
             then Inl (Domain ErrorRepositoryWorkConflict)
             else Inr (Some (\<lparr>dr_RequestID = dc_request_id c, dr_FailurePolicyRequestID = dc_policy_request_id c,
               dr_Work = pr_Work p, dr_ClaimID = dc_claim_id c, dr_AttemptNumber = pr_AttemptNumber p,
               dr_WorkerID = pr_WorkerID p, dr_FinishedAt = pr_FinishedAt p, dr_FailureClass = pr_FailureClass p,
               dr_FailureMessage = pr_FailureMessage p, dr_PolicyVersion = pr_PolicyVersion p,
               dr_Decision = pr_Decision p, dr_DecisionReason = pr_DecisionReason p,
               dr_BackoffMilliseconds = pr_BackoffMilliseconds p, dr_RetryNotBefore = dc_retry_not_before c,
               dr_DecidedAt = pr_DecidedAt p, dr_ConsumedAt = dc_consumed_at c, dr_ConsumerActorID = dc_actor_id c,
               dr_Disposition = dc_disposition c, dr_SupersededByWorkItemID = dc_superseded_by c,
               dr_Replayed = False\<rparr>, dc_payload_hash c))))"

definition consumeDueRepositoryExtractionWorkRetryDecision ::
  "(time \<Rightarrow> time) \<Rightarrow> RepositoryExtractionWorkRetryDecisionConsumptionInput \<Rightarrow> time \<Rightarrow> workDB \<Rightarrow>
   (RepositoryExtractionWorkRetryDecisionConsumptionResult \<times> workDB) ingestion" where
  "consumeDueRepositoryExtractionWorkRetryDecision ts input consumedAt db =
    and_then (validateRepositoryExtractionWorkRetryDecisionConsumptionInput input) (\<lambda>i.
    if is_zero_time consumedAt then Inl (Domain ErrorInvalidInput) else
    (let payloadHash = repositoryExtractionWorkRetryDecisionConsumptionPayloadHash i in
     and_then (readRepositoryExtractionWorkRetryDecisionConsumption db (di_RequestID i)) (\<lambda>persisted.
     case persisted of
       Some (result, hash) \<Rightarrow>
         if hash \<noteq> payloadHash then Inl (Domain ErrorIdempotencyKeyReused)
         else Inr (result\<lparr>dr_Replayed := True\<rparr>, db)
     | None \<Rightarrow>
       and_then (lockRepositorySourceStreamForWork db (di_WorkItemID i)) (\<lambda>_.
       and_then (readRepositoryExtractionWorkFailurePolicyDecision db (di_FailurePolicyRequestID i)) (\<lambda>stored.
       case stored of
         None \<Rightarrow> Inl (Domain ErrorMissingSourceViewAttempt)
       | Some (policy, _) \<Rightarrow>
         if rw_WorkItemID (pr_Work policy) \<noteq> di_WorkItemID i \<or> pr_ClaimID policy \<noteq> di_ClaimID i
           then Inl (Domain ErrorRepositoryWorkConflict)
         else if pr_Decision policy \<noteq> FailureDecisionRetry \<or> pr_RetryNotBefore policy = None
           then Inl (Domain ErrorRepositoryWorkConflict) else
         (let retryNotBefore = the (pr_RetryNotBefore policy) in
          if consumedAt < retryNotBefore then Inl (Domain ErrorRepositoryWorkConflict) else
          and_then (readRepositoryExtractionWorkByID db (di_WorkItemID i)) (\<lambda>work.
          if list_ex (\<lambda>c. dc_policy_request_id c = di_FailurePolicyRequestID i) (consumptions db)
            then Inl (Domain ErrorRepositoryWorkConflict) else
          and_then (retryFailedRepositoryExtractionWorkLocked work (di_ClaimID i) consumedAt db) (\<lambda>(transition, db).
          (let result = \<lparr>dr_RequestID = di_RequestID i, dr_FailurePolicyRequestID = di_FailurePolicyRequestID i,
             dr_Work = tr_Work transition, dr_ClaimID = tr_ClaimID transition,
             dr_AttemptNumber = tr_AttemptNumber transition, dr_WorkerID = tr_WorkerID transition,
             dr_FinishedAt = tr_FinishedAt transition, dr_FailureClass = tr_FailureClass transition,
             dr_FailureMessage = tr_FailureMessage transition, dr_PolicyVersion = pr_PolicyVersion policy,
             dr_Decision = pr_Decision policy, dr_DecisionReason = pr_DecisionReason policy,
             dr_BackoffMilliseconds = pr_BackoffMilliseconds policy, dr_RetryNotBefore = retryNotBefore,
             dr_DecidedAt = pr_DecidedAt policy, dr_ConsumedAt = consumedAt,
             dr_ConsumerActorID = di_ConsumerActorID i, dr_Disposition = tr_Disposition transition,
             dr_SupersededByWorkItemID = tr_SupersededByWorkItemID transition, dr_Replayed = False\<rparr>
           in and_then (persistRepositoryExtractionWorkRetryDecisionConsumption ts result payloadHash db) (\<lambda>db.
              Inr (result, db)))))))))))"

end
