(* ===== verification/WorkSteps.thy ===== *)
theory WorkSteps
  imports WorkRetry
begin

text \<open>
  What a successful run of each operation does to the tables: either it replays a stored request and
  changes none of them, or it makes one transition, written as the replacement of a row and the rows
  it appends.  The keys of the two tables are the only assumption.
\<close>

section \<open>Reading the tables\<close>

lemma update_one_item_Inr [returns]:
  "update_one_item P f db = Inr db' \<longleftrightarrow>
    rows_affected P (items db) = 1 \<and> db' = db\<lparr>items := update_rows P f (items db)\<rparr>"
  by (auto simp: update_one_item_def)

lemma update_one_attempt_Inr [returns]:
  "update_one_attempt P f db = Inr db' \<longleftrightarrow>
    rows_affected P (attempts db) = 1 \<and> db' = db\<lparr>attempts := update_rows P f (attempts db)\<rparr>"
  by (auto simp: update_one_attempt_def)

definition keys_ok :: "workDB \<Rightarrow> bool" where
  "keys_ok db \<longleftrightarrow> distinct (map wi_work_item_id (items db)) \<and> distinct (map ca_claimID (attempts db))"

text \<open>The fields of a record that come from its row and from its window.\<close>

definition scanned :: "workDB \<Rightarrow> workItem \<Rightarrow> repositoryExtractionWorkRecord \<Rightarrow> bool" where
  "scanned db w r \<longleftrightarrow> w \<in> set (items db) \<and> scanRepositoryExtractionWork db w = Some r"

lemma scanned_fields:
  assumes "scanned db w r"
  shows "w \<in> set (items db)" "wr_status r = wi_status w" "wr_claimID r = wi_claim_id w"
    "wr_claimedBy r = wi_claimed_by w" "wr_claimedAt r = wi_claimed_at w"
    "wr_sourceGenerationID r = wi_source_generation_id w" "wr_finishedAt r = wi_finished_at w"
    "wr_failureClass r = wi_failure_class w" "wr_failureMessage r = wi_failure_message w"
    "rw_WorkItemID (wr_work r) = wi_work_item_id w" "rw_RepoID (wr_work r) = wi_repo_id w"
    "rw_ExtractorName (wr_work r) = wi_extractor_name w" "rw_ObservationID (wr_work r) = wi_observation_id w"
  using assms by (auto simp: scanned_def scanRepositoryExtractionWork_def)

lemma scanned_window:
  assumes "scanned db w r"
  obtains v where "v \<in> set (windows db)" "gw_id v = wi_observation_id w"
    "gw_number v = rw_ObservationNumber (wr_work r)"
    "gi_HeadCommitSHA (gw_inspection v) = rw_HeadCommitSHA (wr_work r)"
  using assms that by (auto simp: scanned_def scanRepositoryExtractionWork_def dest: row_Some)

lemma select_work_Some:
  assumes "select_work db P = Some r"
  obtains w where "scanned db w r" "P w"
  using assms that by (auto simp: select_work_def scanned_def bind_eq_Some_conv dest: row_Some)

lemma read_by_id:
  assumes "readRepositoryExtractionWorkByID db i = Inr r"
  obtains w where "scanned db w r" "wi_work_item_id w = i"
  using assms by (auto simp: readRepositoryExtractionWorkByID_def split: option.splits elim: select_work_Some)

lemma read_pending:
  assumes "readPendingRepositoryExtractionWork db repo ext = Some r"
  obtains w where "scanned db w r" "wi_repo_id w = repo" "wi_extractor_name w = ext"
    "wi_status w = repositoryExtractionWorkPending"
  using assms by (auto simp: readPendingRepositoryExtractionWork_def elim: select_work_Some)

lemma read_attempt:
  assumes "readRepositoryExtractionWorkClaimAttempt db c = Inr a"
  shows "a \<in> set (attempts db)" "ca_claimID a = c"
  using assms by (auto simp: readRepositoryExtractionWorkClaimAttempt_def returns dest: row_Some)

lemma lock_stream_for_work:
  assumes "lockRepositorySourceStreamForWork db i = Inr r"
  shows "readRepositoryExtractionWorkByID db i = Inr r" "(rw_RepoID (wr_work r), rw_ExtractorName (wr_work r)) \<in> set (streams db)"
  using assms by (auto simp: lockRepositorySourceStreamForWork_def lockRepositorySourceStream_def returns)

text \<open>The row that an update by key hits.\<close>

lemma item_update:
  assumes "keys_ok db" "rows_affected P (items db) = 1" "\<And>w. P w \<Longrightarrow> wi_work_item_id w = i"
  obtains w where "w \<in> set (items db)" "wi_work_item_id w = i" "P w"
    "update_rows P f (items db) = replace w (f w) (items db)"
proof -
  obtain w where w: "w \<in> set (items db)" "P w" using rows_affected_hit[OF assms(2)] .
  have "update_rows P f (items db) = replace w (f w) (items db)"
    using assms(1,3) w by (intro update_rows_one[where k = wi_work_item_id]) (auto simp: keys_ok_def)
  with that w assms(3) show thesis by blast
qed

lemma attempt_update:
  assumes "keys_ok db" "rows_affected P (attempts db) = 1" "\<And>a. P a \<Longrightarrow> ca_claimID a = c"
  obtains a where "a \<in> set (attempts db)" "ca_claimID a = c" "P a"
    "update_rows P f (attempts db) = replace a (f a) (attempts db)"
proof -
  obtain a where a: "a \<in> set (attempts db)" "P a" using rows_affected_hit[OF assms(2)] .
  have "update_rows P f (attempts db) = replace a (f a) (attempts db)"
    using assms(1,3) a by (intro update_rows_one[where k = ca_claimID]) (auto simp: keys_ok_def)
  with that a assms(3) show thesis by blast
qed

lemma same_item: "keys_ok db \<Longrightarrow> w \<in> set (items db) \<Longrightarrow> w' \<in> set (items db) \<Longrightarrow>
  wi_work_item_id w = wi_work_item_id w' \<Longrightarrow> w = w'"
  using keyed[of wi_work_item_id] by (auto simp: keys_ok_def)

lemma same_attempt: "keys_ok db \<Longrightarrow> a \<in> set (attempts db) \<Longrightarrow> b \<in> set (attempts db) \<Longrightarrow>
  ca_claimID a = ca_claimID b \<Longrightarrow> a = b"
  using keyed[of ca_claimID] by (auto simp: keys_ok_def)

section \<open>Renewal, finishing and recovery\<close>

text \<open>A running row and the attempt its claim names.\<close>

definition running_pair :: "workDB \<Rightarrow> workItem \<Rightarrow> repositoryExtractionWorkClaimAttempt \<Rightarrow> bool" where
  "running_pair db w a \<longleftrightarrow> w \<in> set (items db) \<and> a \<in> set (attempts db) \<and>
    wi_status w = repositoryExtractionWorkRunning \<and> ca_status a = repositoryExtractionWorkRunning \<and>
    wi_claim_id w = ca_claimID a \<and> ca_workItemID a = wi_work_item_id w \<and> wi_claimed_by w = ca_workerID a \<and>
    wi_claimed_at w = Some (ca_claimedAt a)"

lemma validate_renewal:
  assumes "validateRepositoryExtractionWorkLeaseRenewalInput input = Inr (i, d)"
  shows "lease_ok (ni_LeaseDurationMilliseconds i)" "d = ni_LeaseDurationMilliseconds i * Millisecond"
    "actor_ok (ni_WorkerID i)"
  using assms unfolding validateRepositoryExtractionWorkLeaseRenewalInput_def Let_def by (auto split: if_splits)

lemma renew_cases:
  assumes run: "renewRepositoryExtractionWorkLease ts input now db = Inr (r, db')" and k: "keys_ok db"
  obtains (replay) "db' = db"
  | (renewed) w a ms q where "running_pair db w a" "lease_ok ms" "now < ca_leaseExpiresAt a"
      "ca_leaseExpiresAt a < now + ms * Millisecond"
      "nq_work_item_id q = wi_work_item_id w" "nq_claim_id q = ca_claimID a" "nq_worker_id q = ca_workerID a"
      "nq_lease_milliseconds q = ms" "nq_prior_lease_expires_at q = ts (ca_leaseExpiresAt a)"
      "nq_renewed_at q = ts now" "nq_lease_expires_at q = ts (now + ms * Millisecond)" "renewal_row_ok q"
      "\<forall>p\<in>set (renewal_requests db). nq_request_id p \<noteq> nq_request_id q"
      "db' = db\<lparr>attempts := replace a (a\<lparr>ca_leaseExpiresAt := ts (now + ms * Millisecond)\<rparr>) (attempts db),
        renewal_requests := renewal_requests db @ [q]\<rparr>"
proof -
  from run obtain i d p where v: "validateRepositoryExtractionWorkLeaseRenewalInput input = Inr (i, d)"
    and "readRepositoryExtractionWorkLeaseRenewalRequest db (ni_RequestID i) = Inr p"
    unfolding renewRepositoryExtractionWorkLease_def Let_def by (auto simp: returns split: if_splits)
  note run = run[unfolded renewRepositoryExtractionWorkLease_def Let_def, simplified this and_then.simps prod.case]
  show thesis
  proof (cases p)
    case (Some x)
    with run have "db' = db" by (cases x) (auto split: if_splits)
    then show thesis by (rule replay)
  next
    case None
    let ?ms = "ni_LeaseDurationMilliseconds i"
    note d = validate_renewal[OF v]
    from run None obtain work where r1: "readRepositoryExtractionWorkByID db (ni_WorkItemID i) = Inr work"
      by (auto simp: returns dest: lock_stream_for_work split: if_splits)
    from run None r1 obtain attempt where
      a: "readRepositoryExtractionWorkClaimAttempt db (ni_ClaimID i) = Inr attempt"
      by (auto simp: returns split: if_splits)
    note run = run[unfolded r1 a None, simplified and_then.simps option.case]
    obtain w where w: "scanned db w work" "wi_work_item_id w = ni_WorkItemID i" using read_by_id[OF r1] .
    note fs = scanned_fields[OF w(1)]
    note at = read_attempt[OF a]
    let ?P = "\<lambda>a. ca_claimID a = ni_ClaimID i \<and> ca_workItemID a = ni_WorkItemID i \<and> ca_workerID a = ni_WorkerID i \<and>
           ca_status a = repositoryExtractionWorkRunning \<and> ca_leaseExpiresAt a = ca_leaseExpiresAt attempt"
    let ?f = "\<lambda>a. a\<lparr>ca_leaseExpiresAt := ts (now + ?ms * Millisecond)\<rparr>"
    from run obtain q where
      g: "wi_status w = repositoryExtractionWorkRunning" "wi_claim_id w = ni_ClaimID i" "wi_claimed_by w = ni_WorkerID i"
        "ca_workItemID attempt = ni_WorkItemID i" "ca_workerID attempt = ni_WorkerID i"
        "ca_status attempt = repositoryExtractionWorkRunning" "Some (ca_claimedAt attempt) = wi_claimed_at w"
        "now < ca_leaseExpiresAt attempt" "ca_leaseExpiresAt attempt < now + ?ms * Millisecond"
      and one: "rows_affected ?P (attempts db) = 1"
      and db': "db' = db\<lparr>attempts := update_rows ?P ?f (attempts db), renewal_requests := renewal_requests db @ [q]\<rparr>"
      and q: "nq_work_item_id q = wi_work_item_id w" "nq_claim_id q = ni_ClaimID i" "nq_worker_id q = ni_WorkerID i"
        "nq_lease_milliseconds q = ?ms" "nq_prior_lease_expires_at q = ts (ca_leaseExpiresAt attempt)"
        "nq_renewed_at q = ts now" "nq_lease_expires_at q = ts (now + ?ms * Millisecond)" "renewal_row_ok q"
        "\<forall>p\<in>set (renewal_requests db). nq_request_id p \<noteq> nq_request_id q"
      unfolding persistRepositoryExtractionWorkLeaseRenewalRequest_def Let_def d(2)
      by (auto simp: returns fs split: if_splits)
    obtain b where b: "b \<in> set (attempts db)" "ca_claimID b = ni_ClaimID i"
      "update_rows ?P ?f (attempts db) = replace b (?f b) (attempts db)"
      using attempt_update[OF k one, of "ni_ClaimID i"] by blast
    then have "b = attempt" using same_attempt[OF k] at by metis
    then show thesis using b db' q g w at fs(1) d(1)
      by (intro renewed[of w attempt ?ms q]) (auto simp: running_pair_def)
  qed
qed

definition finished_item :: "(time \<Rightarrow> time) \<Rightarrow> RepositoryExtractionWorkFinishInput \<Rightarrow> time \<Rightarrow> workItem \<Rightarrow> workItem" where
  "finished_item ts i now w = w\<lparr>wi_status := fi_Outcome i, wi_source_generation_id := fi_SourceGenerationID i,
    wi_finished_at := Some (ts now), wi_failure_class := fi_FailureClass i, wi_failure_message := fi_FailureMessage i\<rparr>"

definition finished_attempt ::
  "(time \<Rightarrow> time) \<Rightarrow> RepositoryExtractionWorkFinishInput \<Rightarrow> time \<Rightarrow> repositoryExtractionWorkClaimAttempt \<Rightarrow>
   repositoryExtractionWorkClaimAttempt" where
  "finished_attempt ts i now a = a\<lparr>ca_status := fi_Outcome i, ca_finishedAt := Some (ts now),
    ca_sourceGenerationID := fi_SourceGenerationID i, ca_failureClass := fi_FailureClass i,
    ca_failureMessage := fi_FailureMessage i\<rparr>"

text \<open>The outcome fields of an accepted input.\<close>

definition outcome_ok :: "RepositoryExtractionWorkFinishInput \<Rightarrow> bool" where
  "outcome_ok i \<longleftrightarrow>
    fi_Outcome i = RepositoryExtractionWorkOutcomeSucceeded \<and> fi_SourceGenerationID i \<noteq> [] \<and>
      fi_FailureClass i = [] \<and> fi_FailureMessage i = [] \<or>
    fi_Outcome i = RepositoryExtractionWorkOutcomeFailed \<and> fi_SourceGenerationID i = [] \<and>
      fi_FailureClass i \<noteq> [] \<and> length (fi_FailureClass i) \<le> 100 \<and>
      fi_FailureMessage i \<noteq> [] \<and> length (fi_FailureMessage i) \<le> 2000"

lemma validate_finish:
  "validateRepositoryExtractionWorkFinishInput input = Inr i \<Longrightarrow> outcome_ok i"
  unfolding validateRepositoryExtractionWorkFinishInput_def Let_def outcome_ok_def by (auto split: if_splits)

text \<open>A generation of the repository, extractor and commit of a work item.\<close>

definition generation_of :: "workDB \<Rightarrow> workItem \<Rightarrow> string \<Rightarrow> sourceGeneration \<Rightarrow> bool" where
  "generation_of db w gen g \<longleftrightarrow> g \<in> set (generations db) \<and> sg_ID g = gen \<and> sg_RepoID g = wi_repo_id w \<and>
    sg_ExtractorName g = wi_extractor_name w \<and>
    (\<exists>v\<in>set (windows db). gw_id v = wi_observation_id w \<and> gi_HeadCommitSHA (gw_inspection v) = sg_CommitSHA g)"

lemma finish_cases:
  assumes run: "finishRepositoryExtractionWork ts input now db = Inr (r, db')" and k: "keys_ok db"
  obtains (replay) "db' = db"
  | (finished) w a i q where "running_pair db w a" "outcome_ok i" "ca_claimedAt a \<le> now" "now < ca_leaseExpiresAt a"
      "fi_Outcome i = RepositoryExtractionWorkOutcomeSucceeded \<longrightarrow> (\<exists>g. generation_of db w (fi_SourceGenerationID i) g)"
      "fq_work_item_id q = wi_work_item_id w" "fq_claim_id q = ca_claimID a" "fq_worker_id q = ca_workerID a"
      "fq_outcome q = fi_Outcome i" "\<forall>p\<in>set (finish_requests db). fq_request_id p \<noteq> fq_request_id q"
      "db' = db\<lparr>items := replace w (finished_item ts i now w) (items db),
        attempts := replace a (finished_attempt ts i now a) (attempts db),
        finish_requests := finish_requests db @ [q]\<rparr>"
      "validateRepositoryExtractionWorkFinishInput input = Inr i" "wi_work_item_id w = fi_WorkItemID i"
      "ca_claimID a = fi_ClaimID i" "ca_workerID a = fi_WorkerID i"
proof -
  from run obtain i p where v: "validateRepositoryExtractionWorkFinishInput input = Inr i"
    and "readRepositoryExtractionWorkFinishRequest db (fi_RequestID i) = Inr p"
    unfolding finishRepositoryExtractionWork_def Let_def by (auto simp: returns split: if_splits)
  note run = run[unfolded finishRepositoryExtractionWork_def Let_def, simplified this and_then.simps prod.case]
  show thesis
  proof (cases p)
    case (Some x)
    with run have "db' = db" by (cases x) (auto split: if_splits)
    then show thesis by (rule replay)
  next
    case None
    from run None obtain work where r1: "readRepositoryExtractionWorkByID db (fi_WorkItemID i) = Inr work"
      by (auto simp: returns dest: lock_stream_for_work split: if_splits)
    from run None r1 obtain attempt where
      a: "readRepositoryExtractionWorkClaimAttempt db (fi_ClaimID i) = Inr attempt"
      by (auto simp: returns split: if_splits)
    note run = run[unfolded r1 a None, simplified and_then.simps option.case]
    obtain w where w: "scanned db w work" "wi_work_item_id w = fi_WorkItemID i" using read_by_id[OF r1] .
    note fs = scanned_fields[OF w(1)]
    note at = read_attempt[OF a]
    let ?P = "\<lambda>w. wi_work_item_id w = fi_WorkItemID i \<and> wi_claim_id w = fi_ClaimID i \<and> wi_claimed_by w = fi_WorkerID i \<and>
           wi_status w = repositoryExtractionWorkRunning"
    let ?f = "\<lambda>w. w\<lparr>wi_status := fi_Outcome i, wi_source_generation_id := fi_SourceGenerationID i,
           wi_finished_at := Some (ts now), wi_failure_class := fi_FailureClass i,
           wi_failure_message := fi_FailureMessage i\<rparr>"
    let ?Q = "running_attempt_row attempt"
    from run obtain q where
      g: "wi_status w = repositoryExtractionWorkRunning" "wi_claim_id w = fi_ClaimID i" "wi_claimed_by w = fi_WorkerID i"
        "ca_workItemID attempt = fi_WorkItemID i" "ca_workerID attempt = fi_WorkerID i"
        "ca_status attempt = repositoryExtractionWorkRunning" "Some (ca_claimedAt attempt) = wi_claimed_at w"
        "\<not> now < the (wi_claimed_at w)" "now < ca_leaseExpiresAt attempt"
      and out: "check_outcome i work db = Inr ()"
      and one: "rows_affected ?P (items db) = 1" "rows_affected ?Q (attempts db) = 1"
      and db': "db' = db\<lparr>items := update_rows ?P ?f (items db),
        attempts := update_rows ?Q (finished_attempt ts i now) (attempts db), finish_requests := finish_requests db @ [q]\<rparr>"
      and q: "fq_work_item_id q = wi_work_item_id w" "fq_claim_id q = fi_ClaimID i" "fq_worker_id q = fi_WorkerID i"
        "fq_outcome q = fi_Outcome i" "\<forall>p\<in>set (finish_requests db). fq_request_id p \<noteq> fq_request_id q"
      unfolding persistRepositoryExtractionWorkFinishRequest_def finishRepositoryExtractionWorkClaimAttempt_def
        finished_attempt_def [symmetric, abs_def]
      by (auto simp: returns fs split: if_splits)
    obtain b where b: "b \<in> set (attempts db)" "ca_claimID b = ca_claimID attempt"
      "update_rows ?Q (finished_attempt ts i now) (attempts db) = replace b (finished_attempt ts i now b) (attempts db)"
      using attempt_update[OF k one(2), of "ca_claimID attempt"] by (auto simp: running_attempt_row_def)
    then have b': "b = attempt" using same_attempt[OF k] at by metis
    obtain u where u: "u \<in> set (items db)" "wi_work_item_id u = fi_WorkItemID i"
      "update_rows ?P ?f (items db) = replace u (?f u) (items db)"
      using item_update[OF k one(1), of "fi_WorkItemID i"] by blast
    then have u': "u = w" using same_item[OF k _ fs(1)] w(2) by metis
    obtain v where v': "v \<in> set (windows db)" "gw_id v = wi_observation_id w"
      "gi_HeadCommitSHA (gw_inspection v) = rw_HeadCommitSHA (wr_work work)"
      using scanned_window[OF w(1)] by blast
    have "fi_Outcome i = RepositoryExtractionWorkOutcomeSucceeded \<longrightarrow> (\<exists>g. generation_of db w (fi_SourceGenerationID i) g)"
    proof
      assume "fi_Outcome i = RepositoryExtractionWorkOutcomeSucceeded"
      with out obtain g where "row (\<lambda>g. sg_ID g = fi_SourceGenerationID i) (generations db) = Some g"
        and "sg_RepoID g = wi_repo_id w" "sg_ExtractorName g = wi_extractor_name w"
          "sg_CommitSHA g = rw_HeadCommitSHA (wr_work work)"
        by (auto simp: check_outcome_def returns fs)
      with v' have "generation_of db w (fi_SourceGenerationID i) g"
        unfolding generation_of_def using row_Some by force
      then show "\<exists>g. generation_of db w (fi_SourceGenerationID i) g" ..
    qed
    moreover have "ca_claimedAt attempt \<le> now" using g(7,8) by (cases "wi_claimed_at w") auto
    ultimately show thesis using b b' u u' db' q g w at fs(1) validate_finish[OF v] v
      by (intro finished[of w attempt i q]) (auto simp: running_pair_def finished_item_def)
  qed
qed

text \<open>Whether released work is superseded by pending work of its stream or becomes pending.\<close>

definition newer_in :: "gitRepositoryChangeWindow list \<Rightarrow> workItem \<Rightarrow> workItem \<Rightarrow> bool" where
  "newer_in ws p w \<longleftrightarrow> (\<exists>v\<in>set ws. \<exists>v'\<in>set ws. gw_id v = wi_observation_id w \<and>
    gw_id v' = wi_observation_id p \<and> gw_number v < gw_number v')"

abbreviation newer :: "workDB \<Rightarrow> workItem \<Rightarrow> workItem \<Rightarrow> bool" where
  "newer db \<equiv> newer_in (windows db)"

definition released :: "workDB \<Rightarrow> workItem \<Rightarrow> string \<Rightarrow> string \<Rightarrow> bool" where
  "released db w status heir \<longleftrightarrow>
    status = repositoryExtractionWorkPending \<and> heir = [] \<and>
      readPendingRepositoryExtractionWork db (wi_repo_id w) (wi_extractor_name w) = None \<or>
    status = repositoryExtractionWorkSuperseded \<and>
      (\<exists>p. p \<in> set (items db) \<and> wi_work_item_id p = heir \<and> wi_repo_id p = wi_repo_id w \<and>
        wi_extractor_name p = wi_extractor_name w \<and> wi_status p = repositoryExtractionWorkPending \<and> newer db p w)"

lemma release_status_released:
  assumes "release_status work db = Inr (status, heir, disp)" "scanned db w work"
  shows "released db w status heir"
proof (cases "readPendingRepositoryExtractionWork db (wi_repo_id w) (wi_extractor_name w)")
  case None
  then show ?thesis using assms by (auto simp: release_status_def released_def scanned_fields)
next
  case (Some pending)
  obtain p where p: "scanned db p pending" "wi_repo_id p = wi_repo_id w" "wi_extractor_name p = wi_extractor_name w"
    "wi_status p = repositoryExtractionWorkPending" using read_pending[OF Some] by metis
  obtain v where v: "v \<in> set (windows db)" "gw_id v = wi_observation_id w"
    "gw_number v = rw_ObservationNumber (wr_work work)" using scanned_window[OF assms(2)] by metis
  obtain v' where v': "v' \<in> set (windows db)" "gw_id v' = wi_observation_id p"
    "gw_number v' = rw_ObservationNumber (wr_work pending)" using scanned_window[OF p(1)] by metis
  have "status = repositoryExtractionWorkSuperseded" "heir = wi_work_item_id p"
    "rw_ObservationNumber (wr_work work) < rw_ObservationNumber (wr_work pending)"
    using assms(1) Some by (auto simp: release_status_def scanned_fields[OF assms(2)] scanned_fields[OF p(1)] split: if_splits)
  moreover have "newer db p w" unfolding newer_in_def using v v' calculation(3) by force
  ultimately show ?thesis using p scanned_fields(1)[OF p(1)] unfolding released_def by blast
qed

lemma recover_locked_cases:
  assumes run: "recoverExpiredRepositoryExtractionWorkLocked ts work c e now db = Inr (r, db')" and k: "keys_ok db"
    and w: "scanned db w work"
  obtains a status heir where "running_pair db w a" "ca_leaseExpiresAt a \<le> now" "released db w status heir"
    "rr_Work r = wr_work work" "rr_ClaimID r = ca_claimID a" "rr_RecoveredAt r = now" "ca_claimID a = c"
    "db' = db\<lparr>items := replace w (release_item status heir w) (items db),
      attempts := replace a (a\<lparr>ca_status := repositoryExtractionWorkExpired, ca_expiredAt := Some (ts now)\<rparr>)
        (attempts db)\<rparr>"
proof -
  note fs = scanned_fields[OF w]
  from run obtain attempt where a: "readRepositoryExtractionWorkClaimAttempt db c = Inr attempt"
    by (auto simp: recoverExpiredRepositoryExtractionWorkLocked_def returns split: if_splits)
  note run = run[unfolded recoverExpiredRepositoryExtractionWorkLocked_def a, simplified and_then.simps absent_as.simps]
  note at = read_attempt[OF a]
  let ?P = "\<lambda>u. wi_work_item_id u = wi_work_item_id w \<and> wi_claim_id u = c \<and> wi_status u = repositoryExtractionWorkRunning"
  let ?f = "\<lambda>a. a\<lparr>ca_status := repositoryExtractionWorkExpired, ca_expiredAt := Some (ts now)\<rparr>"
  from run obtain status heir disp where
    g: "wi_status w = repositoryExtractionWorkRunning" "wi_claim_id w = c"
      "ca_workItemID attempt = wi_work_item_id w" "ca_workerID attempt = wi_claimed_by w"
      "ca_status attempt = repositoryExtractionWorkRunning" "Some (ca_claimedAt attempt) = wi_claimed_at w"
      "\<not> now < ca_leaseExpiresAt attempt"
    and rel: "release_status work db = Inr (status, heir, disp)"
    and one: "rows_affected ?P (items db) = 1" "rows_affected (running_attempt_row attempt) (attempts db) = 1"
    and db': "db' = db\<lparr>items := update_rows ?P (release_item status heir) (items db),
      attempts := update_rows (running_attempt_row attempt) ?f (attempts db)\<rparr>"
    and res: "rr_Work r = wr_work work" "rr_ClaimID r = c" "rr_RecoveredAt r = now"
    unfolding expireRepositoryExtractionWorkClaimAttempt_def
    by (auto simp: returns fs split: if_splits)
  obtain b where b: "b \<in> set (attempts db)" "ca_claimID b = ca_claimID attempt"
    "update_rows (running_attempt_row attempt) ?f (attempts db) = replace b (?f b) (attempts db)"
    using attempt_update[OF k one(2), of "ca_claimID attempt"] by (auto simp: running_attempt_row_def)
  then have b': "b = attempt" using same_attempt[OF k] at by metis
  obtain u where u: "u \<in> set (items db)" "wi_work_item_id u = wi_work_item_id w"
    "update_rows ?P (release_item status heir) (items db) = replace u (release_item status heir u) (items db)"
    using item_update[OF k one(1), of "wi_work_item_id w"] by blast
  then have u': "u = w" using same_item[OF k _ fs(1)] by metis
  show thesis using b b' u u' db' g at fs(1) release_status_released[OF rel w] res
    by (intro that[of attempt status heir]) (auto simp: running_pair_def)
qed

lemma recover_cases:
  assumes run: "recoverExpiredRepositoryExtractionWork ts input now db = Inr (r, db')" and k: "keys_ok db"
  obtains (replay) "db' = db"
  | (recovered) w a status heir q where "running_pair db w a" "ca_leaseExpiresAt a \<le> now" "released db w status heir"
      "rq_work_item_id q = wi_work_item_id w" "rq_claim_id q = ca_claimID a" "rq_at q = ts now"
      "\<forall>p\<in>set (recovery_requests db). rq_request_id p \<noteq> rq_request_id q"
      "db' = db\<lparr>items := replace w (release_item status heir w) (items db),
        attempts := replace a (a\<lparr>ca_status := repositoryExtractionWorkExpired, ca_expiredAt := Some (ts now)\<rparr>)
          (attempts db), recovery_requests := recovery_requests db @ [q]\<rparr>"
proof -
  from run obtain i p where "validateRepositoryExtractionWorkRecoveryInput input = Inr i"
    and "readRepositoryExtractionWorkRecoveryRequest db (ri_RequestID i) = Inr p"
    unfolding recoverExpiredRepositoryExtractionWork_def Let_def by (auto simp: returns split: if_splits)
  note run = run[unfolded recoverExpiredRepositoryExtractionWork_def Let_def, simplified this and_then.simps prod.case]
  show thesis
  proof (cases p)
    case (Some x)
    with run have "db' = db" by (cases x) (auto split: if_splits)
    then show thesis by (rule replay)
  next
    case None
    from run None obtain work r1 db1 where rd: "readRepositoryExtractionWorkByID db (ri_WorkItemID i) = Inr work"
      and lk: "recoverExpiredRepositoryExtractionWorkLocked ts work (ri_ClaimID i) [] now db = Inr (r1, db1)"
      and ps: "persistRepositoryExtractionWorkRecoveryRequest ts
        (r1\<lparr>rr_RequestID := ri_RequestID i, rr_RecoveryActorID := ri_RecoveryActorID i\<rparr>)
        (repositoryExtractionWorkRecoveryPayloadHash i) db1 = Inr db'"
      by (auto simp: returns split: if_splits prod.splits)
    let ?q = "\<lparr>rq_request_id = ri_RequestID i, rq_work_item_id = rw_WorkItemID (rr_Work r1),
      rq_claim_id = rr_ClaimID r1, rq_actor_id = ri_RecoveryActorID i, rq_disposition = rr_Disposition r1,
      rq_superseded_by = rr_SupersededByWorkItemID r1, rq_at = ts (rr_RecoveredAt r1),
      rq_payload_hash = repositoryExtractionWorkRecoveryPayloadHash i\<rparr>"
    from ps have q: "db' = db1\<lparr>recovery_requests := recovery_requests db1 @ [?q]\<rparr>"
      "\<forall>p\<in>set (recovery_requests db1). rq_request_id p \<noteq> ri_RequestID i"
      unfolding persistRepositoryExtractionWorkRecoveryRequest_def by (auto simp: returns)
    obtain w where w: "scanned db w work" using read_by_id[OF rd] .
    show thesis
      by (rule recover_locked_cases[OF lk k w], rule recovered[of w _ _ _ ?q])
        (use q in \<open>auto simp: scanned_fields[OF w]\<close>)
  qed
qed

section \<open>Classification and retry\<close>

text \<open>A failed row and the attempt its claim names.\<close>

definition failed_pair :: "workDB \<Rightarrow> workItem \<Rightarrow> repositoryExtractionWorkClaimAttempt \<Rightarrow> time \<Rightarrow> bool" where
  "failed_pair db w a fin \<longleftrightarrow> w \<in> set (items db) \<and> a \<in> set (attempts db) \<and>
    wi_status w = RepositoryExtractionWorkOutcomeFailed \<and> ca_status a = RepositoryExtractionWorkOutcomeFailed \<and>
    wi_claim_id w = ca_claimID a \<and> ca_workItemID a = wi_work_item_id w \<and> ca_finishedAt a = Some fin \<and>
    ca_expiredAt a = None"

lemma failed_attempt_pair:
  assumes "failed_attempt work c now db = Inr a" "scanned db w work"
  obtains fin where "failed_pair db w a fin" "ca_claimID a = c" "fin \<le> now"
proof -
  note fs = scanned_fields[OF assms(2)]
  from assms(1) have r: "readRepositoryExtractionWorkClaimAttempt db c = Inr a"
    and g: "wi_status w = RepositoryExtractionWorkOutcomeFailed" "wi_claim_id w = c" "wi_finished_at w \<noteq> None"
      "\<not> now < the (wi_finished_at w)" "ca_workItemID a = wi_work_item_id w"
      "ca_status a = RepositoryExtractionWorkOutcomeFailed" "ca_expiredAt a = None" "ca_finishedAt a = wi_finished_at w"
    by (auto simp: failed_attempt_def returns fs split: if_splits)
  from g(3) obtain fin where fin: "wi_finished_at w = Some fin" by auto
  show thesis by (rule that[of fin]) (use g fin fs(1) read_attempt[OF r] in \<open>auto simp: failed_pair_def\<close>)
qed

lemma retry_locked_cases:
  assumes run: "retryFailedRepositoryExtractionWorkLocked work c now db = Inr (r, db')" and k: "keys_ok db"
    and w: "scanned db w work"
  obtains a fin status heir where "failed_pair db w a fin" "fin \<le> now" "released db w status heir"
    "tr_Work r = wr_work work" "tr_ClaimID r = ca_claimID a" "tr_RetriedAt r = now" "ca_claimID a = c"
    "db' = db\<lparr>items := replace w (release_item status heir w) (items db)\<rparr>"
proof -
  note fs = scanned_fields[OF w]
  let ?P = "\<lambda>u. wi_work_item_id u = wi_work_item_id w \<and> wi_claim_id u = c \<and> wi_status u = RepositoryExtractionWorkOutcomeFailed"
  from run obtain a status heir disp where fa: "failed_attempt work c now db = Inr a"
    and rel: "release_status work db = Inr (status, heir, disp)"
    and one: "rows_affected ?P (items db) = 1"
    and db': "db' = db\<lparr>items := update_rows ?P (release_item status heir) (items db)\<rparr>"
    and res: "tr_Work r = wr_work work" "tr_ClaimID r = c" "tr_RetriedAt r = now"
    by (auto simp: retryFailedRepositoryExtractionWorkLocked_def returns fs)
  obtain fin where fp: "failed_pair db w a fin" "ca_claimID a = c" "fin \<le> now"
    using failed_attempt_pair[OF fa w] .
  obtain u where u: "u \<in> set (items db)" "wi_work_item_id u = wi_work_item_id w"
    "update_rows ?P (release_item status heir) (items db) = replace u (release_item status heir u) (items db)"
    using item_update[OF k one, of "wi_work_item_id w"] by blast
  then have u': "u = w" using same_item[OF k _ fs(1)] by metis
  show thesis using u u' db' fp release_status_released[OF rel w] res by (intro that[of a fin status heir]) auto
qed

lemma retry_cases:
  assumes run: "retryFailedRepositoryExtractionWork ts input now db = Inr (r, db')" and k: "keys_ok db"
  obtains (replay) "db' = db"
  | (retried) w a fin status heir q where "failed_pair db w a fin" "fin \<le> now" "released db w status heir"
      "rq_work_item_id q = wi_work_item_id w" "rq_claim_id q = ca_claimID a" "rq_at q = ts now"
      "\<forall>p\<in>set (retry_requests db). rq_request_id p \<noteq> rq_request_id q"
      "db' = db\<lparr>items := replace w (release_item status heir w) (items db), retry_requests := retry_requests db @ [q]\<rparr>"
proof -
  from run obtain i p where "validateRepositoryExtractionWorkRetryInput input = Inr i"
    and "readRepositoryExtractionWorkRetryRequest db (ti_RequestID i) = Inr p"
    unfolding retryFailedRepositoryExtractionWork_def Let_def by (auto simp: returns split: if_splits)
  note run = run[unfolded retryFailedRepositoryExtractionWork_def Let_def, simplified this and_then.simps prod.case]
  show thesis
  proof (cases p)
    case (Some x)
    with run have "db' = db" by (cases x) (auto split: if_splits)
    then show thesis by (rule replay)
  next
    case None
    from run None obtain work r1 db1 where rd: "readRepositoryExtractionWorkByID db (ti_WorkItemID i) = Inr work"
      and lk: "retryFailedRepositoryExtractionWorkLocked work (ti_ClaimID i) now db = Inr (r1, db1)"
      and ps: "persistRepositoryExtractionWorkRetryRequest ts
        (r1\<lparr>tr_RequestID := ti_RequestID i, tr_RetryActorID := ti_RetryActorID i\<rparr>)
        (repositoryExtractionWorkRetryPayloadHash i) db1 = Inr db'"
      by (auto simp: returns split: if_splits prod.splits)
    let ?q = "\<lparr>rq_request_id = ti_RequestID i, rq_work_item_id = rw_WorkItemID (tr_Work r1),
      rq_claim_id = tr_ClaimID r1, rq_actor_id = ti_RetryActorID i, rq_disposition = tr_Disposition r1,
      rq_superseded_by = tr_SupersededByWorkItemID r1, rq_at = ts (tr_RetriedAt r1),
      rq_payload_hash = repositoryExtractionWorkRetryPayloadHash i\<rparr>"
    from ps have q: "db' = db1\<lparr>retry_requests := retry_requests db1 @ [?q]\<rparr>"
      "\<forall>p\<in>set (retry_requests db1). rq_request_id p \<noteq> ti_RequestID i"
      unfolding persistRepositoryExtractionWorkRetryRequest_def by (auto simp: returns)
    obtain w where w: "scanned db w work" using read_by_id[OF rd] .
    show thesis
      by (rule retry_locked_cases[OF lk k w], rule retried[of w _ _ _ _ ?q])
        (use q in \<open>auto simp: scanned_fields[OF w]\<close>)
  qed
qed

text \<open>A stored decision that agrees with the policy on its failed attempt.\<close>

definition decision_of :: "policyDecision \<Rightarrow> repositoryExtractionWorkClaimAttempt \<Rightarrow> bool" where
  "decision_of d a \<longleftrightarrow> pd_claim_id d = ca_claimID a \<and> pd_work_item_id d = ca_workItemID a \<and>
    pd_policy_version d = RepositoryExtractionWorkFailurePolicyV1 \<and> pd_failure_class d = ca_failureClass a \<and>
    pd_attempt_number d = ca_attemptNumber a \<and> pd_max_attempts d = RepositoryExtractionWorkFailurePolicyMaxAttempts \<and>
    (let e = decideRepositoryExtractionWorkFailurePolicy (ca_failureClass a) (ca_attemptNumber a) (pd_decided_at d) in
     pd_decision d = fd_decision e \<and> pd_decision_reason d = fd_reason e \<and>
     pd_backoff_milliseconds d = fd_backoffMilliseconds e \<and> pd_retry_not_before d = fd_retryNotBefore e)"

lemma decide_ts:
  assumes "timestamp_column ts"
  shows "fd_decision (decideRepositoryExtractionWorkFailurePolicy c n (ts t)) = fd_decision (decideRepositoryExtractionWorkFailurePolicy c n t)"
    "fd_reason (decideRepositoryExtractionWorkFailurePolicy c n (ts t)) = fd_reason (decideRepositoryExtractionWorkFailurePolicy c n t)"
    "fd_backoffMilliseconds (decideRepositoryExtractionWorkFailurePolicy c n (ts t)) =
      fd_backoffMilliseconds (decideRepositoryExtractionWorkFailurePolicy c n t)"
    "fd_retryNotBefore (decideRepositoryExtractionWorkFailurePolicy c n (ts t)) =
      map_option ts (fd_retryNotBefore (decideRepositoryExtractionWorkFailurePolicy c n t))"
proof -
  have "ts (t + 5000 * Millisecond * 2 ^ m) = ts t + 5000 * Millisecond * 2 ^ m" for m :: nat
    using ts_shift[OF assms, of t "5000 * 2 ^ m"] by (simp add: mult.assoc mult.commute)
  then show "fd_retryNotBefore (decideRepositoryExtractionWorkFailurePolicy c n (ts t)) =
      map_option ts (fd_retryNotBefore (decideRepositoryExtractionWorkFailurePolicy c n t))"
    by (simp add: decideRepositoryExtractionWorkFailurePolicy_def repositoryExtractionWorkFailurePolicyBaseBackoff_def Let_def)
qed (simp_all add: decideRepositoryExtractionWorkFailurePolicy_def Let_def)

lemma classify_cases:
  assumes run: "classifyFailedRepositoryExtractionWork ts input now db = Inr (r, db')" and t: "timestamp_column ts"
  obtains (replay) "db' = db"
  | (classified) w a fin d where "failed_pair db w a fin" "fin \<le> now" "pd_decided_at d = ts now" "decision_of d a"
      "\<forall>p\<in>set (policy_decisions db). pd_request_id p \<noteq> pd_request_id d \<and> pd_claim_id p \<noteq> pd_claim_id d"
      "db' = db\<lparr>policy_decisions := policy_decisions db @ [d]\<rparr>"
proof -
  from run obtain i p where "validateRepositoryExtractionWorkFailurePolicyInput input = Inr i"
    and "readRepositoryExtractionWorkFailurePolicyDecision db (pi_RequestID i) = Inr p"
    unfolding classifyFailedRepositoryExtractionWork_def Let_def by (auto simp: returns split: if_splits)
  note run = run[unfolded classifyFailedRepositoryExtractionWork_def Let_def, simplified this and_then.simps prod.case]
  show thesis
  proof (cases p)
    case (Some x)
    with run have "db' = db" by (cases x) (auto split: if_splits)
    then show thesis by (rule replay)
  next
    case None
    from run None obtain work where rd: "readRepositoryExtractionWorkByID db (pi_WorkItemID i) = Inr work"
      by (auto simp: returns dest: lock_stream_for_work split: if_splits)
    from run None rd obtain a where fa: "failed_attempt work (pi_ClaimID i) now db = Inr a"
      by (auto simp: returns split: if_splits)
    obtain w where w: "scanned db w work" using read_by_id[OF rd] .
    obtain fin where fp: "failed_pair db w a fin" "ca_claimID a = pi_ClaimID i" "fin \<le> now"
      using failed_attempt_pair[OF fa w] .
    let ?e = "decideRepositoryExtractionWorkFailurePolicy (ca_failureClass a) (ca_attemptNumber a) now"
    let ?d = "\<lparr>pd_request_id = pi_RequestID i, pd_work_item_id = rw_WorkItemID (wr_work work), pd_claim_id = pi_ClaimID i,
       pd_actor_id = pi_DecisionActorID i, pd_policy_version = RepositoryExtractionWorkFailurePolicyV1,
       pd_failure_class = ca_failureClass a, pd_attempt_number = ca_attemptNumber a, pd_decision = fd_decision ?e,
       pd_decision_reason = fd_reason ?e, pd_max_attempts = RepositoryExtractionWorkFailurePolicyMaxAttempts,
       pd_backoff_milliseconds = fd_backoffMilliseconds ?e, pd_retry_not_before = map_option ts (fd_retryNotBefore ?e),
       pd_decided_at = ts now, pd_payload_hash = repositoryExtractionWorkFailurePolicyPayloadHash i\<rparr>"
    have d: "db' = db\<lparr>policy_decisions := policy_decisions db @ [?d]\<rparr>"
      "\<forall>p\<in>set (policy_decisions db). pd_request_id p \<noteq> pi_RequestID i \<and> pd_claim_id p \<noteq> pi_ClaimID i"
      using run None rd fa unfolding persistRepositoryExtractionWorkFailurePolicyDecision_def
      by (auto simp: returns split: if_splits)
    have "decision_of ?d a"
      using fp scanned_fields(10)[OF w] decide_ts[OF t, of "ca_failureClass a" "ca_attemptNumber a" now]
      by (simp add: decision_of_def failed_pair_def)
    then show thesis using d fp by (intro classified[of w a fin ?d]) auto
  qed
qed

lemma read_decision:
  assumes "readRepositoryExtractionWorkFailurePolicyDecision db i = Inr (Some (p, h))"
  obtains d where "d \<in> set (policy_decisions db)" "pd_request_id d = i" "pr_ClaimID p = pd_claim_id d"
    "rw_WorkItemID (pr_Work p) = pd_work_item_id d" "pr_Decision p = pd_decision d"
    "pr_RetryNotBefore p = pd_retry_not_before d" "pr_AttemptNumber p = pd_attempt_number d"
proof (cases "row (\<lambda>d. pd_request_id d = i) (policy_decisions db)")
  case None
  with assms show thesis by (simp add: readRepositoryExtractionWorkFailurePolicyDecision_def)
next
  case (Some d)
  with assms obtain work where rd: "readRepositoryExtractionWorkByID db (pd_work_item_id d) = Inr work"
    and p: "pr_Work p = wr_work work" "pr_ClaimID p = pd_claim_id d" "pr_Decision p = pd_decision d"
      "pr_RetryNotBefore p = pd_retry_not_before d" "pr_AttemptNumber p = pd_attempt_number d"
    unfolding readRepositoryExtractionWorkFailurePolicyDecision_def Let_def
    by (auto simp: returns split: if_splits)
  obtain w where w: "scanned db w work" "wi_work_item_id w = pd_work_item_id d" using read_by_id[OF rd] .
  show thesis using row_Some[OF Some] p w scanned_fields(10)[OF w(1)] by (intro that[of d]) auto
qed

lemma consume_cases:
  assumes run: "consumeDueRepositoryExtractionWorkRetryDecision ts input now db = Inr (r, db')" and k: "keys_ok db"
  obtains (replay) "db' = db" "\<exists>i. validateRepositoryExtractionWorkRetryDecisionConsumptionInput input = Inr i \<and>
      (\<exists>c\<in>set (consumptions db). dc_request_id c = di_RequestID i)"
  | (consumed) w a fin status heir d due c i where "failed_pair db w a fin" "fin \<le> now" "released db w status heir"
      "d \<in> set (policy_decisions db)" "pd_claim_id d = ca_claimID a" "pd_work_item_id d = wi_work_item_id w"
      "pd_decision d = FailureDecisionRetry" "pd_retry_not_before d = Some due" "due \<le> now"
      "dc_policy_request_id c = pd_request_id d" "dc_work_item_id c = wi_work_item_id w" "dc_claim_id c = ca_claimID a"
      "dc_policy_decision c = FailureDecisionRetry" "dc_retry_not_before c = ts due" "dc_consumed_at c = ts now"
      "\<forall>p\<in>set (consumptions db). dc_request_id p \<noteq> dc_request_id c \<and> dc_policy_request_id p \<noteq> dc_policy_request_id c"
      "db' = db\<lparr>items := replace w (release_item status heir w) (items db), consumptions := consumptions db @ [c]\<rparr>"
      "validateRepositoryExtractionWorkRetryDecisionConsumptionInput input = Inr i" "wi_work_item_id w = di_WorkItemID i"
      "dc_request_id c = di_RequestID i" "dc_policy_request_id c = di_FailurePolicyRequestID i"
      "ca_claimID a = di_ClaimID i" "dr_RequestID r = di_RequestID i"
      "dr_FailurePolicyRequestID r = di_FailurePolicyRequestID i" "rw_WorkItemID (dr_Work r) = di_WorkItemID i"
      "dr_ClaimID r = di_ClaimID i" "dr_ConsumedAt r = now" "\<not> dr_Replayed r"
proof -
  from run obtain i p where v: "validateRepositoryExtractionWorkRetryDecisionConsumptionInput input = Inr i"
    and rd: "readRepositoryExtractionWorkRetryDecisionConsumption db (di_RequestID i) = Inr p"
    unfolding consumeDueRepositoryExtractionWorkRetryDecision_def Let_def by (auto simp: returns split: if_splits)
  note run = run[unfolded consumeDueRepositoryExtractionWorkRetryDecision_def Let_def, simplified v rd and_then.simps prod.case]
  show thesis
  proof (cases p)
    case (Some x)
    with run have "db' = db" by (cases x) (auto split: if_splits)
    moreover have "\<exists>c\<in>set (consumptions db). dc_request_id c = di_RequestID i"
      using rd Some row_Some by (fastforce simp: readRepositoryExtractionWorkRetryDecisionConsumption_def split: option.splits)
    ultimately show thesis using v by (intro replay) blast+
  next
    case None
    note run = run[unfolded None, simplified option.case]
    from run obtain policy h where
      pd: "readRepositoryExtractionWorkFailurePolicyDecision db (di_FailurePolicyRequestID i) = Inr (Some (policy, h))"
      by (auto simp: returns split: if_splits option.splits)
    note run = run[unfolded pd, simplified and_then.simps option.case prod.case]
    from run obtain work r1 db1 where
      g: "rw_WorkItemID (pr_Work policy) = di_WorkItemID i" "pr_ClaimID policy = di_ClaimID i"
        "pr_Decision policy = FailureDecisionRetry" "pr_RetryNotBefore policy \<noteq> None"
        "\<not> now < the (pr_RetryNotBefore policy)"
      and rd: "readRepositoryExtractionWorkByID db (di_WorkItemID i) = Inr work"
      and lk: "retryFailedRepositoryExtractionWorkLocked work (di_ClaimID i) now db = Inr (r1, db1)"
      by (auto simp: returns split: if_splits prod.splits)
    let ?res = "\<lparr>dr_RequestID = di_RequestID i, dr_FailurePolicyRequestID = di_FailurePolicyRequestID i,
             dr_Work = tr_Work r1, dr_ClaimID = tr_ClaimID r1, dr_AttemptNumber = tr_AttemptNumber r1,
             dr_WorkerID = tr_WorkerID r1, dr_FinishedAt = tr_FinishedAt r1, dr_FailureClass = tr_FailureClass r1,
             dr_FailureMessage = tr_FailureMessage r1, dr_PolicyVersion = pr_PolicyVersion policy,
             dr_Decision = pr_Decision policy, dr_DecisionReason = pr_DecisionReason policy,
             dr_BackoffMilliseconds = pr_BackoffMilliseconds policy, dr_RetryNotBefore = the (pr_RetryNotBefore policy),
             dr_DecidedAt = pr_DecidedAt policy, dr_ConsumedAt = now,
             dr_ConsumerActorID = di_ConsumerActorID i, dr_Disposition = tr_Disposition r1,
             dr_SupersededByWorkItemID = tr_SupersededByWorkItemID r1, dr_Replayed = False\<rparr>"
    from run rd lk have ps: "persistRepositoryExtractionWorkRetryDecisionConsumption ts ?res
        (repositoryExtractionWorkRetryDecisionConsumptionPayloadHash i) db1 = Inr db'" and r: "r = ?res"
      by (auto simp: returns split: if_splits)
    let ?c = "\<lparr>dc_request_id = di_RequestID i, dc_policy_request_id = di_FailurePolicyRequestID i,
       dc_work_item_id = rw_WorkItemID (tr_Work r1), dc_claim_id = tr_ClaimID r1, dc_actor_id = di_ConsumerActorID i,
       dc_policy_decision = pr_Decision policy, dc_retry_not_before = ts (the (pr_RetryNotBefore policy)),
       dc_disposition = tr_Disposition r1, dc_superseded_by = tr_SupersededByWorkItemID r1,
       dc_consumed_at = ts now, dc_payload_hash = repositoryExtractionWorkRetryDecisionConsumptionPayloadHash i\<rparr>"
    from ps have c: "db' = db1\<lparr>consumptions := consumptions db1 @ [?c]\<rparr>"
      "\<forall>p\<in>set (consumptions db1). dc_request_id p \<noteq> di_RequestID i \<and> dc_policy_request_id p \<noteq> di_FailurePolicyRequestID i"
      unfolding persistRepositoryExtractionWorkRetryDecisionConsumption_def by (auto simp: returns)
    obtain w where w: "scanned db w work" "wi_work_item_id w = di_WorkItemID i" using read_by_id[OF rd] .
    from g(4) obtain due where due: "pr_RetryNotBefore policy = Some due" by auto
    obtain d where d: "d \<in> set (policy_decisions db)" "pd_request_id d = di_FailurePolicyRequestID i"
      "pr_ClaimID policy = pd_claim_id d" "rw_WorkItemID (pr_Work policy) = pd_work_item_id d"
      "pr_Decision policy = pd_decision d" "pr_RetryNotBefore policy = pd_retry_not_before d"
      using read_decision[OF pd] .
    show thesis
      by (rule retry_locked_cases[OF lk k w(1)], rule consumed[of w _ _ _ _ d due ?c i])
        (use c d due g w(2) v r in \<open>auto simp: scanned_fields[OF w(1)]\<close>)
  qed
qed

section \<open>Claiming\<close>

lemma ensure_stream_simps [simp]:
  "items (ensureAndLockRepositorySourceStream repo ext db) = items db"
  "attempts (ensureAndLockRepositorySourceStream repo ext db) = attempts db"
  "windows (ensureAndLockRepositorySourceStream repo ext db) = windows db"
  "git_streams (ensureAndLockRepositorySourceStream repo ext db) = git_streams db"
  "observation_requests (ensureAndLockRepositorySourceStream repo ext db) = observation_requests db"
  "generations (ensureAndLockRepositorySourceStream repo ext db) = generations db"
  "schedule_requests (ensureAndLockRepositorySourceStream repo ext db) = schedule_requests db"
  "claim_requests (ensureAndLockRepositorySourceStream repo ext db) = claim_requests db"
  "finish_requests (ensureAndLockRepositorySourceStream repo ext db) = finish_requests db"
  "renewal_requests (ensureAndLockRepositorySourceStream repo ext db) = renewal_requests db"
  "recovery_requests (ensureAndLockRepositorySourceStream repo ext db) = recovery_requests db"
  "retry_requests (ensureAndLockRepositorySourceStream repo ext db) = retry_requests db"
  "policy_decisions (ensureAndLockRepositorySourceStream repo ext db) = policy_decisions db"
  "consumptions (ensureAndLockRepositorySourceStream repo ext db) = consumptions db"
  "set (streams (ensureAndLockRepositorySourceStream repo ext db)) = insert (repo, ext) (set (streams db))"
  by (auto simp: ensureAndLockRepositorySourceStream_def)

lemma keys_ok_ensure [simp]: "keys_ok (ensureAndLockRepositorySourceStream repo ext db) = keys_ok db"
  by (simp add: keys_ok_def)

lemma same_claim_requests: "(db :: workDB)\<lparr>claim_requests := claim_requests db\<rparr> = db"
  by (cases db) simp

lemma validate_claim:
  assumes "validateRepositoryExtractionWorkClaimInput input = Inr (req, repo, ext, worker, d)"
  shows "lease_ok (ci_LeaseDurationMilliseconds input)" "d = ci_LeaseDurationMilliseconds input * Millisecond"
    "actor_ok worker" "ext = ExtractorRepositoryGoParserCodeFact \<or> ext = ExtractorRepositoryGoplsCodeFact"
  using assms unfolding validateRepositoryExtractionWorkClaimInput_def validateRepositoryExtractionWorkExtractor_def Let_def
  by (auto simp: returns split: if_splits)

definition new_attempt ::
  "(time \<Rightarrow> time) \<Rightarrow> string \<Rightarrow> string \<Rightarrow> int \<Rightarrow> string \<Rightarrow> time \<Rightarrow> int \<Rightarrow> repositoryExtractionWorkClaimAttempt" where
  "new_attempt ts c i n worker now ms = \<lparr>ca_claimID = c, ca_workItemID = i, ca_attemptNumber = n, ca_workerID = worker,
    ca_status = repositoryExtractionWorkRunning, ca_claimedAt = ts now, ca_leaseDurationMilliseconds = ms,
    ca_leaseExpiresAt = ts (now + ms * Millisecond), ca_finishedAt = None, ca_expiredAt = None,
    ca_sourceGenerationID = [], ca_failureClass = [], ca_failureMessage = []\<rparr>"

definition claimed_item :: "string \<Rightarrow> string \<Rightarrow> time \<Rightarrow> workItem \<Rightarrow> workItem" where
  "claimed_item c worker at w = w\<lparr>wi_status := repositoryExtractionWorkRunning, wi_claim_id := c,
    wi_claimed_by := worker, wi_claimed_at := Some at\<rparr>"

lemma start_attempt_cases:
  assumes run: "start_attempt ts c worker ms now work db = Inr (n, db')" and k: "keys_ok db"
  obtains w where "w \<in> set (items db)" "wi_work_item_id w = rw_WorkItemID work"
    "wi_status w = repositoryExtractionWorkPending"
    "nextRepositoryExtractionWorkClaimAttemptNumber db (rw_WorkItemID work) = Inr n"
    "\<forall>b\<in>set (attempts db). \<not> attempt_clash (new_attempt ts c (rw_WorkItemID work) n worker now ms) b"
    "db' = db\<lparr>items := replace w (claimed_item c worker (ts now) w) (items db),
      attempts := attempts db @ [new_attempt ts c (rw_WorkItemID work) n worker now ms]\<rparr>"
proof -
  let ?P = "\<lambda>w. wi_work_item_id w = rw_WorkItemID work \<and> wi_status w = repositoryExtractionWorkPending"
  from run have one: "rows_affected ?P (items db) = 1"
    and db': "db' = db\<lparr>items := update_rows ?P (claimed_item c worker (ts now)) (items db),
      attempts := attempts db @ [new_attempt ts c (rw_WorkItemID work) n worker now ms]\<rparr>"
    and n: "nextRepositoryExtractionWorkClaimAttemptNumber db (rw_WorkItemID work) = Inr n"
    and cl: "\<forall>b\<in>set (attempts db). \<not> attempt_clash (new_attempt ts c (rw_WorkItemID work) n worker now ms) b"
    by (auto simp: start_attempt_def persistRepositoryExtractionWorkClaimAttempt_def returns new_attempt_def
      claimed_item_def [abs_def])
  obtain w where w: "w \<in> set (items db)" "wi_work_item_id w = rw_WorkItemID work" "?P w"
    "update_rows ?P (claimed_item c worker (ts now)) (items db) = replace w (claimed_item c worker (ts now) w) (items db)"
    using item_update[OF k one, of "rw_WorkItemID work"] by blast
  with db' n cl show thesis by (intro that[of w]) auto
qed

lemma claim_cases:
  assumes run: "claimRepositoryExtractionWork ts input now db = Inr (r, db')" and k: "keys_ok db"
  obtains (idle) repo ext qs where "qs = [] \<or> (\<exists>q. qs = [q] \<and> \<not> cq_claimed q \<and>
        (\<forall>p\<in>set (claim_requests db). cq_request_id p \<noteq> cq_request_id q))"
      "db' = (ensureAndLockRepositorySourceStream repo ext db)\<lparr>claim_requests := claim_requests db @ qs\<rparr>"
  | (claimed) w c n worker ms q where "w \<in> set (items db)" "wi_status w = repositoryExtractionWorkPending"
      "\<not> hasRunningRepositoryExtractionWork db (wi_repo_id w) (wi_extractor_name w)"
      "actor_ok worker" "lease_ok ms" "c \<noteq> []" "has_prefix c claim_prefix"
      "nextRepositoryExtractionWorkClaimAttemptNumber db (wi_work_item_id w) = Inr n"
      "\<forall>b\<in>set (attempts db). \<not> attempt_clash (new_attempt ts c (wi_work_item_id w) n worker now ms) b"
      "cq_claimed q" "cq_work_item_id q = wi_work_item_id w" "cq_claim_id q = c" "cq_worker_id q = worker"
      "cq_claimed_at q = Some (ts now)" "\<forall>p\<in>set (claim_requests db). cq_request_id p \<noteq> cq_request_id q"
      "db' = (ensureAndLockRepositorySourceStream (wi_repo_id w) (wi_extractor_name w) db)\<lparr>
        items := replace w (claimed_item c worker (ts now) w) (items db),
        attempts := attempts db @ [new_attempt ts c (wi_work_item_id w) n worker now ms],
        claim_requests := claim_requests db @ [q]\<rparr>"
proof -
  from run obtain req repo ext worker d where
    v: "validateRepositoryExtractionWorkClaimInput input = Inr (req, repo, ext, worker, d)"
    unfolding claimRepositoryExtractionWork_def Let_def by (auto simp: returns)
  let ?db = "ensureAndLockRepositorySourceStream repo ext db"
  let ?h = "repositoryExtractionWorkClaimPayloadHash repo ext worker (ci_LeaseDurationMilliseconds input)"
  from run v obtain p where p: "readRepositoryExtractionWorkClaimRequest ?db req = Inr p"
    unfolding claimRepositoryExtractionWork_def Let_def by (auto simp: returns split: if_splits)
  note run = run[unfolded claimRepositoryExtractionWork_def Let_def v, simplified p and_then.simps prod.case]
  show thesis
  proof (cases p)
    case (Some x)
    with run have "db' = ?db" by (cases x) (auto split: if_splits)
    then have "db' = ?db\<lparr>claim_requests := claim_requests db @ []\<rparr>" using same_claim_requests[of ?db] by simp
    then show thesis using idle[of "[]" repo ext] by simp
  next
    case None
    let ?res = "\<lparr>cr_RequestID = req, cr_RepoID = repo, cr_ExtractorName = ext,
          cr_WorkerID = worker, cr_Claimed = False, cr_Work = None, cr_ClaimID = [], cr_AttemptNumber = 0,
          cr_ClaimedAt = None, cr_LeaseExpiresAt = None, cr_Replayed = False\<rparr>"
    have no_claim: thesis if "persistRepositoryExtractionWorkClaimRequest ts ?res ?h ?db = Inr db'"
    proof (rule idle)
      let ?q = "\<lparr>cq_request_id = req, cq_repo_id = repo, cq_extractor_name = ext, cq_worker_id = worker,
        cq_work_item_id = [], cq_claim_id = [], cq_claimed_at = None, cq_claimed = False, cq_payload_hash = ?h\<rparr>"
      have fresh: "\<forall>p\<in>set (claim_requests db). cq_request_id p \<noteq> req"
        using that unfolding persistRepositoryExtractionWorkClaimRequest_def by (auto simp: returns)
      show "db' = ?db\<lparr>claim_requests := claim_requests db @ [?q]\<rparr>"
        using that unfolding persistRepositoryExtractionWorkClaimRequest_def by (auto simp: returns)
      show "[?q] = [] \<or> (\<exists>q. [?q] = [q] \<and> \<not> cq_claimed q \<and>
        (\<forall>p\<in>set (claim_requests db). cq_request_id p \<noteq> cq_request_id q))" using fresh by simp
    qed
    show thesis
    proof (cases "hasRunningRepositoryExtractionWork ?db repo ext")
      case True
      with run None have "persistRepositoryExtractionWorkClaimRequest ts ?res ?h ?db = Inr db'"
        by (auto simp: returns split: if_splits)
      then show thesis by (rule no_claim)
    next
      case idle_stream: False
      show thesis
      proof (cases "readPendingRepositoryExtractionWork ?db repo ext")
        case no: None
        with run None idle_stream have "persistRepositoryExtractionWorkClaimRequest ts ?res ?h ?db = Inr db'"
          by (auto simp: returns split: if_splits)
        then show thesis by (rule no_claim)
      next
        case pend: (Some pending)
        let ?c = "claim_id req (rw_WorkItemID (wr_work pending)) worker"
        let ?ms = "ci_LeaseDurationMilliseconds input"
        from run None idle_stream pend obtain n db1 where
          st: "start_attempt ts ?c worker ?ms now (wr_work pending) ?db = Inr (n, db1)"
          and ps: "persistRepositoryExtractionWorkClaimRequest ts
            (?res\<lparr>cr_Claimed := True, cr_Work := Some (wr_work pending), cr_ClaimID := ?c, cr_AttemptNumber := n,
              cr_ClaimedAt := Some now, cr_LeaseExpiresAt := Some (now + d)\<rparr>) ?h db1 = Inr db'"
          by (auto simp: returns split: if_splits)
        obtain w where w: "scanned ?db w pending" "wi_repo_id w = repo" "wi_extractor_name w = ext"
          "wi_status w = repositoryExtractionWorkPending" using read_pending[OF pend] .
        note fs = scanned_fields[OF w(1)]
        have k': "keys_ok ?db" using k by simp
        obtain u where u: "u \<in> set (items ?db)" "wi_work_item_id u = rw_WorkItemID (wr_work pending)"
          "nextRepositoryExtractionWorkClaimAttemptNumber ?db (rw_WorkItemID (wr_work pending)) = Inr n"
          "\<forall>b\<in>set (attempts ?db). \<not> attempt_clash (new_attempt ts ?c (rw_WorkItemID (wr_work pending)) n worker now ?ms) b"
          "db1 = ?db\<lparr>items := replace u (claimed_item ?c worker (ts now) u) (items ?db),
            attempts := attempts ?db @ [new_attempt ts ?c (rw_WorkItemID (wr_work pending)) n worker now ?ms]\<rparr>"
          using start_attempt_cases[OF st k'] by metis
        have uw: "u = w" using same_item[OF k' u(1) fs(1)] u(2) fs(10) by simp
        let ?q = "\<lparr>cq_request_id = req, cq_repo_id = repo, cq_extractor_name = ext, cq_worker_id = worker,
          cq_work_item_id = rw_WorkItemID (wr_work pending), cq_claim_id = ?c, cq_claimed_at = Some (ts now),
          cq_claimed = True, cq_payload_hash = ?h\<rparr>"
        from ps u(5) have q: "db' = db1\<lparr>claim_requests := claim_requests db @ [?q]\<rparr>"
          "\<forall>p\<in>set (claim_requests db). cq_request_id p \<noteq> req"
          unfolding persistRepositoryExtractionWorkClaimRequest_def by (auto simp: returns)
        have c: "?c \<noteq> []" by (simp add: claim_id_def stableID_def)
        have c': "has_prefix ?c claim_prefix" unfolding claim_id_def stableID_def by (rule has_prefix_append)
        have n: "nextRepositoryExtractionWorkClaimAttemptNumber db (wi_work_item_id w) = Inr n"
          using u(3) fs(10) by (simp add: nextRepositoryExtractionWorkClaimAttemptNumber_def)
        have nr: "\<not> hasRunningRepositoryExtractionWork db (wi_repo_id w) (wi_extractor_name w)"
          using idle_stream w(2,3) by (simp add: hasRunningRepositoryExtractionWork_def)
        note claimed[of w worker ?ms ?c n ?q]
        then show thesis using fs(1,10) w c c' n nr u(4,5) uw q validate_claim(1,3)[OF v] by simp
      qed
    qed
  qed
qed

section \<open>Scheduling\<close>

lemma fold_latest:
  "fold (\<lambda>w m. if gw_number m < gw_number w then w else m) ws m \<in> set (m # ws) \<and>
   (\<forall>u\<in>set (m # ws). gw_number u \<le> gw_number (fold (\<lambda>w m. if gw_number m < gw_number w then w else m) ws m))"
proof (induction ws arbitrary: m)
  case (Cons w ws)
  show ?case using Cons[of m] Cons[of w] by (auto intro: order_trans [rotated])
qed simp

lemma scan_window_simps [simp]:
  "gw_id (scanGitRepositoryChangeWindow v) = gw_id v" "gw_repoID (scanGitRepositoryChangeWindow v) = gw_repoID v"
  "gw_number (scanGitRepositoryChangeWindow v) = gw_number v"
  "gw_lastObservedAt (scanGitRepositoryChangeWindow v) = gw_lastObservedAt v"
  "gw_previousObservationID (scanGitRepositoryChangeWindow v) = gw_previousObservationID v"
  by (simp_all add: scanGitRepositoryChangeWindow_def)

lemma read_latest:
  assumes "readLatestGitRepositoryChangeWindow db repo = Some l"
  shows "\<exists>v\<in>set (windows db). gw_repoID v = repo \<and> l = scanGitRepositoryChangeWindow v \<and>
    (\<forall>u\<in>set (windows db). gw_repoID u = repo \<longrightarrow> gw_number u \<le> gw_number v)"
proof (cases "filter (\<lambda>w. gw_repoID w = repo) (windows db)")
  case Nil
  with assms show ?thesis by (simp add: readLatestGitRepositoryChangeWindow_def)
next
  case (Cons m ws)
  let ?v = "fold (\<lambda>w m. if gw_number m < gw_number w then w else m) ws m"
  have v: "l = scanGitRepositoryChangeWindow ?v"
    using assms Cons by (simp add: readLatestGitRepositoryChangeWindow_def)
  have s: "set (m # ws) = {w \<in> set (windows db). gw_repoID w = repo}" using Cons by (metis set_filter)
  show ?thesis by (rule bexI[of _ ?v]) (use fold_latest[of ws m] s v in blast)+
qed

lemma read_latest_None:
  "readLatestGitRepositoryChangeWindow db repo = None \<longleftrightarrow> (\<forall>u\<in>set (windows db). gw_repoID u \<noteq> repo)"
proof (cases "filter (\<lambda>w. gw_repoID w = repo) (windows db)")
  case (Cons m ws)
  have "m \<in> set (filter (\<lambda>w. gw_repoID w = repo) (windows db))" using Cons by simp
  then have "\<not> (\<forall>u\<in>set (windows db). gw_repoID u \<noteq> repo)" by auto
  moreover have "readLatestGitRepositoryChangeWindow db repo \<noteq> None"
    using Cons by (simp add: readLatestGitRepositoryChangeWindow_def)
  ultimately show ?thesis by blast
qed (auto simp: readLatestGitRepositoryChangeWindow_def filter_empty_conv)

definition superseded_item :: "string \<Rightarrow> workItem \<Rightarrow> workItem" where
  "superseded_item i w = w\<lparr>wi_status := repositoryExtractionWorkSuperseded, wi_superseded_by := i\<rparr>"

lemma supersede_cases:
  assumes run: "supersede_pending pending work db = Inr db'" and k: "keys_ok db"
    and p: "pending = readPendingRepositoryExtractionWork db repo ext"
  obtains (none) "db' = db" "pending = None"
  | (one) u where "u \<in> set (items db)" "wi_status u = repositoryExtractionWorkPending" "wi_repo_id u = repo"
    "wi_extractor_name u = ext"
    "db' = db\<lparr>items := replace u (superseded_item (rw_WorkItemID work) u) (items db)\<rparr>"
proof (cases pending)
  case None
  with run none show thesis by (simp add: supersede_pending_def)
next
  case (Some q)
  obtain u where u: "scanned db u q" "wi_repo_id u = repo" "wi_extractor_name u = ext"
    "wi_status u = repositoryExtractionWorkPending" using read_pending p Some by metis
  note fs = scanned_fields[OF u(1)]
  let ?P = "\<lambda>w. wi_work_item_id w = wi_work_item_id u \<and> wi_status w = repositoryExtractionWorkPending"
  let ?f = "superseded_item (rw_WorkItemID work)"
  from run Some have one': "rows_affected ?P (items db) = 1" and db': "db' = db\<lparr>items := update_rows ?P ?f (items db)\<rparr>"
    by (auto simp: supersede_pending_def returns fs superseded_item_def [abs_def])
  obtain x where x: "x \<in> set (items db)" "wi_work_item_id x = wi_work_item_id u"
    "update_rows ?P ?f (items db) = replace x (?f x) (items db)"
    using item_update[OF k one', of "wi_work_item_id u"] by blast
  then have "x = u" using same_item[OF k _ fs(1)] by blast
  with x db' u fs(1) show thesis by (intro one[of u]) auto
qed

lemma create_work_cases:
  assumes run: "create_work req oreq v ext h db = Inr (r, db')" and k: "keys_ok db"
  obtains its n q where "n = new_item (newRepositoryExtractionWork v ext)"
    "its = items db \<or> (\<exists>u\<in>set (items db). wi_status u = repositoryExtractionWorkPending \<and>
      wi_repo_id u = wi_repo_id n \<and> wi_extractor_name u = ext \<and>
      its = replace u (superseded_item (wi_work_item_id n) u) (items db))"
    "\<forall>x\<in>set its. \<not> item_clash n x" "sq_work_item_id q = wi_work_item_id n" "sq_request_id q = req"
    "\<forall>p\<in>set (schedule_requests db). sq_request_id p \<noteq> req"
    "db' = db\<lparr>items := its @ [n], schedule_requests := schedule_requests db @ [q]\<rparr>"
proof -
  let ?work = "newRepositoryExtractionWork v ext"
  let ?pending = "readPendingRepositoryExtractionWork db (gi_RepoID (go_Inspection v)) ext"
  let ?n = "new_item ?work"
  have n: "wi_repo_id ?n = gi_RepoID (go_Inspection v)" "wi_extractor_name ?n = ext"
    "wi_work_item_id ?n = rw_WorkItemID ?work" by (simp_all add: new_item_def newRepositoryExtractionWork_def)
  from run obtain db1 db2 where sp: "supersede_pending ?pending ?work db = Inr db1"
    and cl: "\<forall>x\<in>set (items db1). \<not> item_clash ?n x"
    and ps: "persistRepositoryExtractionWorkScheduleRequest r h (db1\<lparr>items := items db1 @ [?n]\<rparr>) = Inr db'"
    and r: "rw_WorkItemID (sr_Work r) = rw_WorkItemID ?work" "sr_RequestID r = req"
    unfolding create_work_def Let_def by (auto simp: returns)
  let ?q = "\<lparr>sq_request_id = sr_RequestID r, sq_observation_request_id = sr_ObservationRequestID r,
       sq_work_item_id = rw_WorkItemID (sr_Work r), sq_superseded_work_item_id = sr_SupersededWorkItemID r,
       sq_payload_hash = h, sq_created = sr_Created r, sq_coalesced = sr_Coalesced r\<rparr>"
  from ps have db': "db' = db1\<lparr>items := items db1 @ [?n], schedule_requests := schedule_requests db1 @ [?q]\<rparr>"
    and fr: "\<forall>p\<in>set (schedule_requests db1). sq_request_id p \<noteq> req"
    using r(2) unfolding persistRepositoryExtractionWorkScheduleRequest_def by (auto simp: returns)
  have q: "sq_work_item_id ?q = wi_work_item_id ?n" "sq_request_id ?q = req" using r n by simp_all
  show thesis
  proof (rule supersede_cases[OF sp k refl])
    assume "db1 = db"
    with db' cl q fr show thesis by (intro that[of ?n "items db" ?q]) auto
  next
    fix u assume u: "u \<in> set (items db)" "wi_status u = repositoryExtractionWorkPending"
      "wi_repo_id u = gi_RepoID (go_Inspection v)" "wi_extractor_name u = ext"
      "db1 = db\<lparr>items := replace u (superseded_item (rw_WorkItemID ?work) u) (items db)\<rparr>"
    with db' cl q fr n show thesis
      by (intro that[of ?n "replace u (superseded_item (wi_work_item_id ?n) u) (items db)" ?q]) auto
  qed
qed

lemma read_observation_request:
  assumes "readGitRepositoryChangeObservationRequest db i = Some (v, h)"
  obtains o' where "o' \<in> set (windows db)" "gw_id o' = go_ObservationID v" "gw_repoID o' = gi_RepoID (go_Inspection v)"
    "gw_number o' = go_ObservationNumber v"
  using assms unfolding readGitRepositoryChangeObservationRequest_def
  by (auto simp: bind_eq_Some_conv dest!: row_Some)

lemma schedule_cases:
  assumes run: "scheduleRepositoryExtractionWork input db = Inr (r, db')" and k: "keys_ok db"
  obtains (replay) "db' = db"
  | (coalesced) repo ext q w where "w \<in> set (items db)" "sq_work_item_id q = wi_work_item_id w"
      "\<forall>p\<in>set (schedule_requests db). sq_request_id p \<noteq> sq_request_id q"
      "db' = (ensureAndLockRepositorySourceStream repo ext db)\<lparr>schedule_requests := schedule_requests db @ [q]\<rparr>"
  | (created) v ext its n q where "v \<in> set (windows db)" "wi_observation_id n = gw_id v" "wi_repo_id n = gw_repoID v"
      "\<forall>u\<in>set (windows db). gw_repoID u = gw_repoID v \<longrightarrow> gw_number u \<le> gw_number v"
      "n = \<lparr>wi_work_item_id = wi_work_item_id n, wi_repo_id = wi_repo_id n, wi_extractor_name = ext,
        wi_observation_id = wi_observation_id n, wi_status = repositoryExtractionWorkPending, wi_superseded_by = [],
        wi_claim_id = [], wi_claimed_by = [], wi_claimed_at = None, wi_source_generation_id = [],
        wi_finished_at = None, wi_failure_class = [], wi_failure_message = []\<rparr>"
      "ext = ExtractorRepositoryGoParserCodeFact \<or> ext = ExtractorRepositoryGoplsCodeFact" "wi_work_item_id n \<noteq> []"
      "its = items db \<or> (\<exists>u\<in>set (items db). wi_status u = repositoryExtractionWorkPending \<and>
        wi_repo_id u = wi_repo_id n \<and> wi_extractor_name u = ext \<and>
        its = replace u (superseded_item (wi_work_item_id n) u) (items db))"
      "\<forall>x\<in>set its. \<not> item_clash n x" "sq_work_item_id q = wi_work_item_id n"
      "\<forall>p\<in>set (schedule_requests db). sq_request_id p \<noteq> sq_request_id q"
      "db' = (ensureAndLockRepositorySourceStream (wi_repo_id n) ext db)\<lparr>items := its @ [n],
        schedule_requests := schedule_requests db @ [q]\<rparr>"
proof -
  from run obtain req oreq ext where v: "validateRepositoryExtractionWorkScheduleInput input = Inr (req, oreq, ext)"
    unfolding scheduleRepositoryExtractionWork_def Let_def by (auto simp: returns)
  from run v obtain p where p: "readRepositoryExtractionWorkScheduleRequest db req = Inr p"
    unfolding scheduleRepositoryExtractionWork_def Let_def by (auto simp: returns split: if_splits)
  have ext: "ext = ExtractorRepositoryGoParserCodeFact \<or> ext = ExtractorRepositoryGoplsCodeFact"
    using v unfolding validateRepositoryExtractionWorkScheduleInput_def validateRepositoryExtractionWorkExtractor_def Let_def
    by (auto simp: returns split: if_splits)
  note run = run[unfolded scheduleRepositoryExtractionWork_def Let_def v, simplified p and_then.simps prod.case]
  show thesis
  proof (cases p)
    case (Some x)
    with run have "db' = db" by (cases x) (auto split: if_splits)
    then show thesis by (rule replay)
  next
    case None
    note run = run[unfolded None, simplified option.case]
    from run obtain v h where ob: "readGitRepositoryChangeObservationRequest db oreq = Some (v, h)"
      by (auto split: option.splits)
    let ?repo = "gi_RepoID (go_Inspection v)"
    let ?db = "ensureAndLockRepositorySourceStream ?repo ext db"
    let ?h = "repositoryExtractionWorkSchedulePayloadHash oreq ext"
    have k': "keys_ok ?db" using k by simp
    note run = run[unfolded ob, simplified option.case prod.case]
    have latest: "readLatestGitRepositoryChangeWindow ?db ?repo \<noteq> None"
      "gw_id (the (readLatestGitRepositoryChangeWindow ?db ?repo)) = go_ObservationID v"
      using run by (auto simp: returns split: if_splits option.splits)
    then obtain l where l: "readLatestGitRepositoryChangeWindow ?db ?repo = Some l" "gw_id l = go_ObservationID v" by auto
    then obtain o' where o': "o' \<in> set (windows db)" "gw_repoID o' = ?repo" "gw_id o' = go_ObservationID v"
      "\<forall>u\<in>set (windows db). gw_repoID u = ?repo \<longrightarrow> gw_number u \<le> gw_number o'"
      using read_latest[OF l(1)] by auto
    show thesis
    proof (cases "readRepositoryExtractionWorkByObservation ?db (go_ObservationID v) ext")
      case (Some existing)
      then obtain w where w: "scanned ?db w existing"
        by (auto simp: readRepositoryExtractionWorkByObservation_def elim: select_work_Some)
      let ?q = "\<lparr>sq_request_id = req, sq_observation_request_id = oreq, sq_work_item_id = rw_WorkItemID (wr_work existing),
        sq_superseded_work_item_id = [], sq_payload_hash = ?h, sq_created = False, sq_coalesced = True\<rparr>"
      have "db' = ?db\<lparr>schedule_requests := schedule_requests db @ [?q]\<rparr>"
        "\<forall>p\<in>set (schedule_requests db). sq_request_id p \<noteq> req"
        using run Some unfolding persistRepositoryExtractionWorkScheduleRequest_def
        by (auto simp: returns split: if_splits)
      then show thesis using scanned_fields(1,10)[OF w] by (intro coalesced[of w ?q ?repo ext]) auto
    next
      case no: None
      from run no have cw: "create_work req oreq v ext ?h ?db = Inr (r, db')"
        by (auto simp: returns split: if_splits)
      obtain its n q where c: "n = new_item (newRepositoryExtractionWork v ext)"
        "its = items ?db \<or> (\<exists>u\<in>set (items ?db). wi_status u = repositoryExtractionWorkPending \<and>
          wi_repo_id u = wi_repo_id n \<and> wi_extractor_name u = ext \<and>
          its = replace u (superseded_item (wi_work_item_id n) u) (items ?db))"
        "\<forall>x\<in>set its. \<not> item_clash n x" "sq_work_item_id q = wi_work_item_id n" "sq_request_id q = req"
        "\<forall>p\<in>set (schedule_requests ?db). sq_request_id p \<noteq> req"
        "db' = ?db\<lparr>items := its @ [n], schedule_requests := schedule_requests ?db @ [q]\<rparr>"
        by (rule create_work_cases[OF cw k'])
      have n: "wi_repo_id n = ?repo" "wi_observation_id n = go_ObservationID v" "wi_work_item_id n \<noteq> []"
        using c(1) by (simp_all add: new_item_def newRepositoryExtractionWork_def stableID_def)
      have row: "n = \<lparr>wi_work_item_id = wi_work_item_id n, wi_repo_id = wi_repo_id n, wi_extractor_name = ext,
        wi_observation_id = wi_observation_id n, wi_status = repositoryExtractionWorkPending, wi_superseded_by = [],
        wi_claim_id = [], wi_claimed_by = [], wi_claimed_at = None, wi_source_generation_id = [],
        wi_finished_at = None, wi_failure_class = [], wi_failure_message = []\<rparr>"
        unfolding c(1) by (simp add: new_item_def newRepositoryExtractionWork_def)
      have obs: "wi_observation_id n = gw_id o'" "wi_repo_id n = gw_repoID o'" using n o' by simp_all
      have most: "\<forall>u\<in>set (windows db). gw_repoID u = gw_repoID o' \<longrightarrow> gw_number u \<le> gw_number o'" using o'(2,4) by simp
      have fresh: "\<forall>p\<in>set (schedule_requests db). sq_request_id p \<noteq> sq_request_id q" using c(5,6) by simp
      have new: "db' = (ensureAndLockRepositorySourceStream (wi_repo_id n) ext db)\<lparr>items := its @ [n],
        schedule_requests := schedule_requests db @ [q]\<rparr>" using c(7) n(1) by simp
      show thesis
        by (rule created[OF o'(1) obs most row ext n(3) c(2)[unfolded ensure_stream_simps] c(3,4) fresh new])
    qed
  qed
qed

section \<open>Observing\<close>

text \<open>
  The windows after an observation keep the identity of every window and hold at most one new
  window, the successor of the latest one of its repository.
\<close>

definition windows_grow :: "workDB \<Rightarrow> workDB \<Rightarrow> bool" where
  "windows_grow db db' \<longleftrightarrow> (\<exists>ws. map (\<lambda>v. (gw_id v, gw_repoID v, gw_number v, gw_inspection v)) (windows db') =
      map (\<lambda>v. (gw_id v, gw_repoID v, gw_number v, gw_inspection v)) (windows db @ ws) \<and>
    (ws = [] \<or> (\<exists>w. ws = [w] \<and> (\<forall>u\<in>set (windows db). gw_id u \<noteq> gw_id w \<and>
      (gw_repoID u = gw_repoID w \<longrightarrow> gw_number u < gw_number w)))))"

lemma insert_window_grow:
  assumes run: "insertGitRepositoryChangeWindow ts i latest now db = Inr (w, db')"
    and l: "latest = readLatestGitRepositoryChangeWindow db (gi_RepoID i)"
  shows "windows_grow db db'" "\<exists>ws. db' = db\<lparr>windows := ws\<rparr>"
proof -
  let ?n = "case latest of None \<Rightarrow> 1 | Some p \<Rightarrow> gw_number p + 1"
  from run obtain v where v: "db' = db\<lparr>windows := windows db @ [v]\<rparr>" "\<forall>u\<in>set (windows db). \<not> window_clash v u"
    "gw_repoID v = gi_RepoID i" "gw_number v = ?n"
    unfolding insertGitRepositoryChangeWindow_def Let_def by (auto simp: returns split: if_splits)
  have less: "gw_number u < ?n" if "u \<in> set (windows db)" "gw_repoID u = gi_RepoID i" for u
  proof (cases latest)
    case None
    with that l read_latest_None[of db "gi_RepoID i"] show ?thesis by simp
  next
    case (Some p)
    with l have "readLatestGitRepositoryChangeWindow db (gi_RepoID i) = Some p" by simp
    from read_latest[OF this] obtain x where x: "p = scanGitRepositoryChangeWindow x"
      "\<forall>u\<in>set (windows db). gw_repoID u = gi_RepoID i \<longrightarrow> gw_number u \<le> gw_number x"
      by blast
    then have "gw_number u \<le> gw_number p" using that by simp
    with Some show ?thesis by simp
  qed
  show "windows_grow db db'" unfolding windows_grow_def
    by (rule exI[of _ "[v]"]) (use v less in \<open>auto simp: window_clash_def\<close>)
  show "\<exists>ws. db' = db\<lparr>windows := ws\<rparr>" using v(1) by blast
qed

lemma windows_grow_refl: "windows_grow db db"
  unfolding windows_grow_def by (rule exI[of _ "[]"]) simp

lemma advance_grow:
  assumes "advance_window ts i now db = Inr (w, c, db')"
  shows "windows_grow db db'" "\<exists>ws. db' = db\<lparr>windows := ws\<rparr>"
proof -
  consider (new) w' where "insertGitRepositoryChangeWindow ts i (readLatestGitRepositoryChangeWindow db (gi_RepoID i)) now db = Inr (w', db')"
    | (same) P f where "db' = db\<lparr>windows := update_rows P f (windows db)\<rparr>"
      "\<And>v. (gw_id (f v), gw_repoID (f v), gw_number (f v), gw_inspection (f v)) = (gw_id v, gw_repoID v, gw_number v, gw_inspection v)"
    using assms unfolding advance_window_def Let_def
    by (fastforce simp: returns split: option.splits if_splits)
  then have "windows_grow db db' \<and> (\<exists>ws. db' = db\<lparr>windows := ws\<rparr>)"
  proof cases
    case new
    then show ?thesis using insert_window_grow by blast
  next
    case same
    have "map (\<lambda>v. (gw_id v, gw_repoID v, gw_number v, gw_inspection v)) (windows db') =
      map (\<lambda>v. (gw_id v, gw_repoID v, gw_number v, gw_inspection v)) (windows db @ [])"
      using same(2) by (simp add: same(1))
    then show ?thesis unfolding windows_grow_def using same(1) by blast
  qed
  then show "windows_grow db db'" "\<exists>ws. db' = db\<lparr>windows := ws\<rparr>" by blast+
qed

lemma ensure_git_stream: "\<exists>gs. ensureAndLockGitRepositorySourceStream repo (db :: workDB) = db\<lparr>git_streams := gs\<rparr>"
proof (cases "repo \<in> set (git_streams db)")
  case True
  then have "ensureAndLockGitRepositorySourceStream repo db = db\<lparr>git_streams := git_streams db\<rparr>"
    by (cases db) (simp add: ensureAndLockGitRepositorySourceStream_def)
  then show ?thesis by blast
next
  case False
  then have "ensureAndLockGitRepositorySourceStream repo db = db\<lparr>git_streams := git_streams db @ [repo]\<rparr>"
    by (simp add: ensureAndLockGitRepositorySourceStream_def)
  then show ?thesis by blast
qed

lemma observe_cases:
  assumes "recordGitRepositoryChangeObservation ts input now db = Inr (r, db')"
  obtains gs ws qs where "windows_grow db db'"
    "db' = db\<lparr>git_streams := gs, windows := ws, observation_requests := qs\<rparr>"
proof -
  from assms obtain req sw i where
    v: "validateGitRepositoryChangeObservationRequest (gc_RequestID input) (gc_StabilityWindow input) = Inr (req, sw)"
      "validateGitRepositoryChangeInspection (gc_Inspection input) = Inr i"
    unfolding recordGitRepositoryChangeObservation_def by (auto simp: returns)
  let ?db = "ensureAndLockGitRepositorySourceStream (gi_RepoID i) db"
  obtain gs where gs: "?db = db\<lparr>git_streams := gs\<rparr>" using ensure_git_stream by blast
  note run = assms[unfolded recordGitRepositoryChangeObservation_def Let_def v, simplified and_then.simps prod.case]
  show thesis
  proof (cases "readGitRepositoryChangeObservationRequest ?db req")
    case (Some x)
    with run have "db' = ?db" by (cases x) (auto split: if_splits)
    with gs have "db' = db\<lparr>git_streams := gs, windows := windows db, observation_requests := observation_requests db\<rparr>"
      by (cases db) simp
    moreover have "windows_grow db db'" using \<open>db' = ?db\<close> gs windows_grow_refl[of db]
      by (simp add: windows_grow_def)
    ultimately show thesis using that by blast
  next
    case None
    with run obtain w c db1 q where ad: "advance_window ts i now ?db = Inr (w, c, db1)"
      and q: "record_request ts q (gitRepositoryChangeObservationPayloadHash i sw) db1 = Inr db'"
      by (auto simp: returns split: if_splits)
    from advance_grow(2)[OF ad] obtain ws where ws: "db1 = ?db\<lparr>windows := ws\<rparr>" by blast
    from q obtain qs where qs: "db' = db1\<lparr>observation_requests := qs\<rparr>"
      unfolding record_request_def by (auto simp: returns)
    have "windows_grow db db'" using advance_grow(1)[OF ad] gs qs by (simp add: windows_grow_def)
    moreover have "db' = db\<lparr>git_streams := gs, windows := ws, observation_requests := qs\<rparr>" by (simp add: qs ws gs)
    ultimately show thesis by (rule that)
  qed
qed

end
