(* ===== verification/WorkInvariant.thy ===== *)
theory WorkInvariant
  imports WorkSteps
begin

text \<open>
  The invariant of the work tables.  It contains the constraints that the migrations
  \<open>000009\<close> to \<open>000019\<close> put on the rows, which therefore need no further guard in the model of a
  write, and what the schema does not say: which attempt stands behind the claim of a work item,
  how attempts are numbered, and that superseding work is newer.
\<close>

section \<open>The states of a row\<close>

definition unclaimed :: "workItem \<Rightarrow> bool" where
  "unclaimed w \<longleftrightarrow> wi_claim_id w = [] \<and> wi_claimed_by w = [] \<and> wi_claimed_at w = None"

definition claimed_by_worker :: "workItem \<Rightarrow> bool" where
  "claimed_by_worker w \<longleftrightarrow> wi_claim_id w \<noteq> [] \<and> wi_claimed_by w \<noteq> [] \<and> wi_claimed_at w \<noteq> None \<and> wi_superseded_by w = []"

definition no_outcome :: "workItem \<Rightarrow> bool" where
  "no_outcome w \<longleftrightarrow> wi_source_generation_id w = [] \<and> wi_finished_at w = None \<and> wi_failure_class w = [] \<and>
    wi_failure_message w = []"

text \<open>\<open>repository_extraction_work_items_state_ck\<close> and the checks of single columns.\<close>

definition item_state_ok :: "workItem \<Rightarrow> bool" where
  "item_state_ok w \<longleftrightarrow> wi_work_item_id w \<noteq> [] \<and>
    (wi_extractor_name w = ExtractorRepositoryGoParserCodeFact \<or> wi_extractor_name w = ExtractorRepositoryGoplsCodeFact) \<and>
    (wi_status w = repositoryExtractionWorkPending \<and> wi_superseded_by w = [] \<and> unclaimed w \<and> no_outcome w \<or>
     wi_status w = repositoryExtractionWorkRunning \<and> claimed_by_worker w \<and> no_outcome w \<or>
     wi_status w = repositoryExtractionWorkSuperseded \<and> wi_superseded_by w \<noteq> [] \<and>
       wi_superseded_by w \<noteq> wi_work_item_id w \<and> unclaimed w \<and> no_outcome w \<or>
     wi_status w = RepositoryExtractionWorkOutcomeSucceeded \<and> claimed_by_worker w \<and> wi_source_generation_id w \<noteq> [] \<and>
       wi_finished_at w \<noteq> None \<and> wi_failure_class w = [] \<and> wi_failure_message w = [] \<or>
     wi_status w = RepositoryExtractionWorkOutcomeFailed \<and> claimed_by_worker w \<and> wi_source_generation_id w = [] \<and>
       wi_finished_at w \<noteq> None \<and> wi_failure_class w \<noteq> [] \<and> length (wi_failure_class w) \<le> 100 \<and>
       wi_failure_message w \<noteq> [] \<and> length (wi_failure_message w) \<le> 2000)"

text \<open>\<open>repository_extraction_work_claim_attempts_state_ck\<close>, the checks of instants, and a finish not before the claim.\<close>

definition attempt_state_ok :: "(time \<Rightarrow> time) \<Rightarrow> repositoryExtractionWorkClaimAttempt \<Rightarrow> bool" where
  "attempt_state_ok ts a \<longleftrightarrow> ca_claimID a \<noteq> [] \<and> has_prefix (ca_claimID a) claim_prefix \<and> actor_ok (ca_workerID a) \<and>
    lease_ok (ca_leaseDurationMilliseconds a) \<and> ts (ca_claimedAt a) = ca_claimedAt a \<and>
    ts (ca_leaseExpiresAt a) = ca_leaseExpiresAt a \<and> ca_claimedAt a < ca_leaseExpiresAt a \<and>
    map_option ts (ca_finishedAt a) = ca_finishedAt a \<and>
    (ca_status a = repositoryExtractionWorkRunning \<and> ca_finishedAt a = None \<and> ca_expiredAt a = None \<and>
       ca_sourceGenerationID a = [] \<and> ca_failureClass a = [] \<and> ca_failureMessage a = [] \<or>
     ca_status a = RepositoryExtractionWorkOutcomeSucceeded \<and>
       (\<exists>t. ca_finishedAt a = Some t \<and> ca_claimedAt a \<le> t \<and> t < ca_leaseExpiresAt a) \<and> ca_expiredAt a = None \<and>
       ca_sourceGenerationID a \<noteq> [] \<and> ca_failureClass a = [] \<and> ca_failureMessage a = [] \<or>
     ca_status a = RepositoryExtractionWorkOutcomeFailed \<and>
       (\<exists>t. ca_finishedAt a = Some t \<and> ca_claimedAt a \<le> t \<and> t < ca_leaseExpiresAt a) \<and> ca_expiredAt a = None \<and>
       ca_sourceGenerationID a = [] \<and> ca_failureClass a \<noteq> [] \<and> length (ca_failureClass a) \<le> 100 \<and>
       ca_failureMessage a \<noteq> [] \<and> length (ca_failureMessage a) \<le> 2000 \<or>
     ca_status a = repositoryExtractionWorkExpired \<and> ca_finishedAt a = None \<and>
       (\<exists>t. ca_expiredAt a = Some t \<and> ca_leaseExpiresAt a \<le> t) \<and>
       ca_sourceGenerationID a = [] \<and> ca_failureClass a = [] \<and> ca_failureMessage a = [])"

section \<open>The tables\<close>

definition stream_of :: "workItem \<Rightarrow> string \<times> string" where
  "stream_of w = (wi_repo_id w, wi_extractor_name w)"

definition windows_inv :: "gitRepositoryChangeWindow list \<Rightarrow> bool" where
  "windows_inv ws \<longleftrightarrow> distinct (map gw_id ws) \<and> distinct (map (\<lambda>v. (gw_repoID v, gw_number v)) ws)"

text \<open>At most one row of a stream has the status.\<close>

definition one_per_stream :: "string \<Rightarrow> workItem list \<Rightarrow> bool" where
  "one_per_stream s is \<longleftrightarrow> (\<forall>w\<in>set is. \<forall>w'\<in>set is. wi_status w = s \<longrightarrow> wi_status w' = s \<longrightarrow>
    stream_of w = stream_of w' \<longrightarrow> w = w')"

definition observed_in :: "gitRepositoryChangeWindow list \<Rightarrow> workItem \<Rightarrow> bool" where
  "observed_in ws w \<longleftrightarrow> (\<exists>v\<in>set ws. gw_id v = wi_observation_id w \<and> gw_repoID v = wi_repo_id w)"

definition items_inv :: "gitRepositoryChangeWindow list \<Rightarrow> (string \<times> string) set \<Rightarrow> workItem list \<Rightarrow> bool" where
  "items_inv ws ss is \<longleftrightarrow> distinct (map wi_work_item_id is) \<and>
    distinct (map (\<lambda>w. (wi_observation_id w, wi_extractor_name w)) is) \<and>
    list_all item_state_ok is \<and> list_all (observed_in ws) is \<and> list_all (\<lambda>w. stream_of w \<in> ss) is \<and>
    one_per_stream repositoryExtractionWorkPending is \<and> one_per_stream repositoryExtractionWorkRunning is"

text \<open>Superseded work points at newer work of its stream.\<close>

definition heir_in :: "gitRepositoryChangeWindow list \<Rightarrow> workItem list \<Rightarrow> workItem \<Rightarrow> bool" where
  "heir_in ws is w \<longleftrightarrow> wi_superseded_by w = [] \<or>
    (\<exists>h\<in>set is. wi_work_item_id h = wi_superseded_by w \<and> stream_of h = stream_of w \<and> newer_in ws h w)"

text \<open>The numbers of the attempts of a work item, in the order in which they were made.\<close>

definition attempt_numbers :: "string \<Rightarrow> repositoryExtractionWorkClaimAttempt list \<Rightarrow> int list" where
  "attempt_numbers i as = map ca_attemptNumber (filter (\<lambda>a. ca_workItemID a = i) as)"

definition numbered :: "repositoryExtractionWorkClaimAttempt list \<Rightarrow> bool" where
  "numbered as \<longleftrightarrow> (\<forall>i. attempt_numbers i as = map int [1..<Suc (length (attempt_numbers i as))])"

definition attempts_inv :: "(time \<Rightarrow> time) \<Rightarrow> string set \<Rightarrow> repositoryExtractionWorkClaimAttempt list \<Rightarrow> bool" where
  "attempts_inv ts ids as \<longleftrightarrow> distinct (map ca_claimID as) \<and> list_all (attempt_state_ok ts) as \<and> numbered as \<and>
    list_all (\<lambda>a. ca_workItemID a \<in> ids) as"

text \<open>The attempt behind a claim agrees with the row in every column they share.\<close>

definition backs :: "repositoryExtractionWorkClaimAttempt \<Rightarrow> workItem \<Rightarrow> bool" where
  "backs a w \<longleftrightarrow> ca_claimID a = wi_claim_id w \<and> ca_workItemID a = wi_work_item_id w \<and> ca_workerID a = wi_claimed_by w \<and>
    ca_status a = wi_status w \<and> wi_claimed_at w = Some (ca_claimedAt a) \<and> ca_finishedAt a = wi_finished_at w \<and>
    ca_sourceGenerationID a = wi_source_generation_id w \<and> ca_failureClass a = wi_failure_class w \<and>
    ca_failureMessage a = wi_failure_message w"

definition pairs_inv :: "workItem list \<Rightarrow> repositoryExtractionWorkClaimAttempt list \<Rightarrow> bool" where
  "pairs_inv is as \<longleftrightarrow>
    (\<forall>w\<in>set is. wi_claim_id w \<noteq> [] \<longrightarrow> (\<exists>a\<in>set as. backs a w)) \<and>
    (\<forall>a\<in>set as. ca_status a = repositoryExtractionWorkRunning \<longrightarrow> (\<exists>w\<in>set is. backs a w))"

definition decisions_inv ::
  "(time \<Rightarrow> time) \<Rightarrow> repositoryExtractionWorkClaimAttempt list \<Rightarrow> policyDecision list \<Rightarrow> bool" where
  "decisions_inv ts as ds \<longleftrightarrow> distinct (map pd_request_id ds) \<and> distinct (map pd_claim_id ds) \<and>
    list_all (\<lambda>d. ts (pd_decided_at d) = pd_decided_at d) ds \<and>
    (\<forall>d\<in>set ds. \<exists>a\<in>set as. decision_of d a \<and> ca_status a = RepositoryExtractionWorkOutcomeFailed \<and>
      (\<exists>fin. ca_finishedAt a = Some fin \<and> fin \<le> pd_decided_at d))"

definition consumptions_inv :: "policyDecision list \<Rightarrow> decisionConsumption list \<Rightarrow> bool" where
  "consumptions_inv ds cs \<longleftrightarrow> distinct (map dc_request_id cs) \<and> distinct (map dc_policy_request_id cs) \<and>
    (\<forall>c\<in>set cs. dc_policy_decision c = FailureDecisionRetry \<and> dc_retry_not_before c \<le> dc_consumed_at c \<and>
      (\<exists>d\<in>set ds. pd_request_id d = dc_policy_request_id c \<and> pd_claim_id d = dc_claim_id c \<and>
        pd_work_item_id d = dc_work_item_id c \<and> pd_decision d = FailureDecisionRetry \<and>
        pd_retry_not_before d = Some (dc_retry_not_before c)))"

text \<open>What the request tables say of the attempts: the checks that their readers make.\<close>

definition claim_request_ok :: "repositoryExtractionWorkClaimAttempt list \<Rightarrow> claimRequest \<Rightarrow> bool" where
  "claim_request_ok as q \<longleftrightarrow> (cq_claimed q \<longrightarrow> (\<exists>a\<in>set as. ca_claimID a = cq_claim_id q \<and>
    ca_workItemID a = cq_work_item_id q \<and> ca_workerID a = cq_worker_id q \<and> cq_claimed_at q = Some (ca_claimedAt a)))"

definition finish_request_ok :: "repositoryExtractionWorkClaimAttempt list \<Rightarrow> finishRequest \<Rightarrow> bool" where
  "finish_request_ok as q \<longleftrightarrow> (\<exists>a\<in>set as. ca_claimID a = fq_claim_id q \<and> ca_workItemID a = fq_work_item_id q \<and>
    ca_workerID a = fq_worker_id q \<and> ca_status a = fq_outcome q \<and> ca_finishedAt a \<noteq> None \<and> ca_expiredAt a = None \<and>
    ca_status a \<noteq> repositoryExtractionWorkRunning)"

definition renewal_request_ok :: "repositoryExtractionWorkClaimAttempt list \<Rightarrow> renewalRequest \<Rightarrow> bool" where
  "renewal_request_ok as q \<longleftrightarrow> renewal_row_ok q \<and>
    (\<exists>a\<in>set as. ca_claimID a = nq_claim_id q \<and> ca_workItemID a = nq_work_item_id q \<and>
      ca_workerID a = nq_worker_id q \<and> nq_lease_expires_at q \<le> ca_leaseExpiresAt a)"

definition recovery_request_ok :: "repositoryExtractionWorkClaimAttempt list \<Rightarrow> releaseRequest \<Rightarrow> bool" where
  "recovery_request_ok as q \<longleftrightarrow> (\<exists>a\<in>set as. ca_claimID a = rq_claim_id q \<and> ca_workItemID a = rq_work_item_id q \<and>
    ca_status a = repositoryExtractionWorkExpired \<and> ca_expiredAt a = Some (rq_at q))"

definition retry_request_ok :: "repositoryExtractionWorkClaimAttempt list \<Rightarrow> releaseRequest \<Rightarrow> bool" where
  "retry_request_ok as q \<longleftrightarrow> (\<exists>a\<in>set as. ca_claimID a = rq_claim_id q \<and> ca_workItemID a = rq_work_item_id q \<and>
    ca_status a = RepositoryExtractionWorkOutcomeFailed \<and> ca_expiredAt a = None \<and>
    (\<exists>fin. ca_finishedAt a = Some fin \<and> fin \<le> rq_at q))"

definition requests_inv :: "workDB \<Rightarrow> bool" where
  "requests_inv db \<longleftrightarrow>
    distinct (map sq_request_id (schedule_requests db)) \<and> distinct (map cq_request_id (claim_requests db)) \<and>
    distinct (map fq_request_id (finish_requests db)) \<and> distinct (map nq_request_id (renewal_requests db)) \<and>
    distinct (map rq_request_id (recovery_requests db)) \<and> distinct (map rq_request_id (retry_requests db)) \<and>
    list_all (\<lambda>q. sq_work_item_id q \<in> set (map wi_work_item_id (items db))) (schedule_requests db) \<and>
    list_all (claim_request_ok (attempts db)) (claim_requests db) \<and>
    list_all (finish_request_ok (attempts db)) (finish_requests db) \<and>
    list_all (renewal_request_ok (attempts db)) (renewal_requests db) \<and>
    list_all (recovery_request_ok (attempts db)) (recovery_requests db) \<and>
    list_all (retry_request_ok (attempts db)) (retry_requests db)"

definition core_inv :: "(time \<Rightarrow> time) \<Rightarrow> workDB \<Rightarrow> bool" where
  "core_inv ts db \<longleftrightarrow> windows_inv (windows db) \<and> items_inv (windows db) (set (streams db)) (items db) \<and>
    list_all (heir_in (windows db) (items db)) (items db) \<and>
    attempts_inv ts (set (map wi_work_item_id (items db))) (attempts db) \<and> pairs_inv (items db) (attempts db) \<and>
    decisions_inv ts (attempts db) (policy_decisions db) \<and> consumptions_inv (policy_decisions db) (consumptions db)"

definition work_inv :: "(time \<Rightarrow> time) \<Rightarrow> workDB \<Rightarrow> bool" where
  "work_inv ts db \<longleftrightarrow> core_inv ts db \<and> requests_inv db"

lemma work_inv_keys: "work_inv ts db \<Longrightarrow> keys_ok db"
  by (simp add: work_inv_def core_inv_def items_inv_def attempts_inv_def keys_ok_def)

lemma work_inv_empty: "work_inv ts empty_db"
  by (simp add: work_inv_def core_inv_def empty_db_def windows_inv_def items_inv_def one_per_stream_def attempts_inv_def
    numbered_def attempt_numbers_def pairs_inv_def decisions_inv_def consumptions_inv_def requests_inv_def)

section \<open>Rows that only grow\<close>

text \<open>A later version of an attempt: its lease may be extended while it runs, and once over it is fixed.\<close>

definition later :: "repositoryExtractionWorkClaimAttempt \<Rightarrow> repositoryExtractionWorkClaimAttempt \<Rightarrow> bool" where
  "later a b \<longleftrightarrow> ca_claimID b = ca_claimID a \<and> ca_workItemID b = ca_workItemID a \<and>
    ca_attemptNumber b = ca_attemptNumber a \<and> ca_workerID b = ca_workerID a \<and> ca_claimedAt b = ca_claimedAt a \<and>
    ca_leaseDurationMilliseconds b = ca_leaseDurationMilliseconds a \<and> ca_leaseExpiresAt a \<le> ca_leaseExpiresAt b \<and>
    (ca_status a \<noteq> repositoryExtractionWorkRunning \<longrightarrow> b = a)"

definition attempts_grow ::
  "repositoryExtractionWorkClaimAttempt list \<Rightarrow> repositoryExtractionWorkClaimAttempt list \<Rightarrow> bool" where
  "attempts_grow as bs \<longleftrightarrow> (\<forall>a\<in>set as. \<exists>b\<in>set bs. later a b)"

lemma later_refl: "later a a"
  by (simp add: later_def)

lemma later_trans: "later a b \<Longrightarrow> later b c \<Longrightarrow> later a c"
  unfolding later_def by (cases "ca_status a = repositoryExtractionWorkRunning") auto

lemma attempts_grow_refl: "attempts_grow as as"
  unfolding attempts_grow_def using later_refl by blast

lemma attempts_grow_append: "attempts_grow as (as @ bs)"
  unfolding attempts_grow_def using later_refl by auto

lemma attempts_grow_trans: "attempts_grow as bs \<Longrightarrow> attempts_grow bs cs \<Longrightarrow> attempts_grow as cs"
  unfolding attempts_grow_def using later_trans by blast

lemma attempts_grow_replace: "later a a' \<Longrightarrow> attempts_grow as (replace a a' as)"
  unfolding attempts_grow_def replace_def using later_refl by auto

text \<open>A property of an attempt that is over, or of its fixed columns, survives.\<close>

lemma grow_over:
  assumes "attempts_grow as bs" "\<exists>a\<in>set as. P a" "\<And>a. P a \<Longrightarrow> ca_status a \<noteq> repositoryExtractionWorkRunning"
  shows "\<exists>b\<in>set bs. P b"
proof -
  from assms(2) obtain a where a: "a \<in> set as" "P a" by blast
  then obtain b where b: "b \<in> set bs" "later a b" using assms(1) unfolding attempts_grow_def by blast
  then have "b = a" using assms(3)[OF a(2)] by (simp add: later_def)
  with a b show ?thesis by blast
qed

lemma grow_fixed:
  assumes "attempts_grow as bs" "\<exists>a\<in>set as. P a" "\<And>a b. P a \<Longrightarrow> later a b \<Longrightarrow> P b"
  shows "\<exists>b\<in>set bs. P b"
proof -
  from assms(2) obtain a where a: "a \<in> set as" "P a" by blast
  then obtain b where b: "b \<in> set bs" "later a b" using assms(1) unfolding attempts_grow_def by blast
  from assms(3)[OF a(2) b(2)] b(1) show ?thesis by blast
qed

lemma claim_request_grow: "attempts_grow as bs \<Longrightarrow> claim_request_ok as q \<Longrightarrow> claim_request_ok bs q"
  unfolding claim_request_ok_def
  by (rule impI, drule mp, assumption, erule grow_fixed, assumption) (auto simp: later_def)

lemma finish_request_grow: "attempts_grow as bs \<Longrightarrow> finish_request_ok as q \<Longrightarrow> finish_request_ok bs q"
  unfolding finish_request_ok_def by (erule grow_over) auto

lemma renewal_request_grow: "attempts_grow as bs \<Longrightarrow> renewal_request_ok as q \<Longrightarrow> renewal_request_ok bs q"
  unfolding renewal_request_ok_def by (elim conjE, intro conjI, assumption+, erule grow_fixed, assumption)
    (auto simp: later_def)

lemma recovery_request_grow: "attempts_grow as bs \<Longrightarrow> recovery_request_ok as q \<Longrightarrow> recovery_request_ok bs q"
  unfolding recovery_request_ok_def by (erule grow_over) auto

lemma retry_request_grow: "attempts_grow as bs \<Longrightarrow> retry_request_ok as q \<Longrightarrow> retry_request_ok bs q"
  unfolding retry_request_ok_def by (erule grow_over) auto

lemma decisions_grow:
  assumes "attempts_grow as bs" "decisions_inv ts as ds"
  shows "decisions_inv ts bs ds"
  unfolding decisions_inv_def
proof (intro conjI ballI)
  fix d assume "d \<in> set ds"
  then have "\<exists>a\<in>set as. decision_of d a \<and> ca_status a = RepositoryExtractionWorkOutcomeFailed \<and>
      (\<exists>fin. ca_finishedAt a = Some fin \<and> fin \<le> pd_decided_at d)"
    using assms(2) by (simp add: decisions_inv_def)
  with assms(1) show "\<exists>b\<in>set bs. decision_of d b \<and> ca_status b = RepositoryExtractionWorkOutcomeFailed \<and>
      (\<exists>fin. ca_finishedAt b = Some fin \<and> fin \<le> pd_decided_at d)"
    by (rule grow_over) simp
qed (use assms(2) in \<open>simp_all add: decisions_inv_def\<close>)

end
