(* ===== verification/WorkPreserve.thy ===== *)
theory WorkPreserve
  imports WorkInvariant
begin

text \<open>
  Every operation preserves the invariant of the work tables, and the reachable tables are those that
  sequences of operations make of the empty ones.
\<close>

section \<open>Replacing and appending rows\<close>

definition same_key :: "workItem \<Rightarrow> workItem \<Rightarrow> bool" where
  "same_key w w' \<longleftrightarrow> wi_work_item_id w' = wi_work_item_id w \<and> wi_observation_id w' = wi_observation_id w \<and>
    wi_repo_id w' = wi_repo_id w \<and> wi_extractor_name w' = wi_extractor_name w"

lemma same_key_simps:
  "same_key w w' \<Longrightarrow> wi_work_item_id w' = wi_work_item_id w"
  "same_key w w' \<Longrightarrow> wi_observation_id w' = wi_observation_id w"
  "same_key w w' \<Longrightarrow> stream_of w' = stream_of w"
  "same_key w w' \<Longrightarrow> newer_in ws w' x = newer_in ws w x"
  "same_key w w' \<Longrightarrow> newer_in ws x w' = newer_in ws x w"
  "same_key w w' \<Longrightarrow> observed_in ws w' = observed_in ws w"
  by (simp_all add: same_key_def stream_of_def newer_in_def observed_in_def)

lemma list_all_replace: "list_all P xs \<Longrightarrow> P x' \<Longrightarrow> list_all P (replace x x' xs)"
  by (auto simp: list_all_iff in_replace)

lemma one_replace:
  assumes "one_per_stream s is" "stream_of w' = stream_of w"
    "wi_status w' = s \<Longrightarrow> \<forall>x\<in>set is. wi_status x = s \<longrightarrow> stream_of x = stream_of w \<longrightarrow> x = w"
  shows "one_per_stream s (replace w w' is)"
  using assms unfolding one_per_stream_def by (auto simp: in_replace)

lemma one_append:
  assumes "one_per_stream s is" "wi_status n = s \<Longrightarrow> \<forall>x\<in>set is. wi_status x = s \<longrightarrow> stream_of x \<noteq> stream_of n"
  shows "one_per_stream s (is @ [n])"
  using assms unfolding one_per_stream_def by auto

lemma items_inv_replace:
  assumes inv: "items_inv ws ss is" and w: "w \<in> set is" and key: "same_key w w'" and ok: "item_state_ok w'"
    and one: "\<And>s. s = repositoryExtractionWorkPending \<or> s = repositoryExtractionWorkRunning \<Longrightarrow> wi_status w' = s \<Longrightarrow>
      \<forall>x\<in>set is. wi_status x = s \<longrightarrow> stream_of x = stream_of w \<longrightarrow> x = w"
  shows "items_inv ws ss (replace w w' is)"
proof -
  note ks = same_key_simps[OF key]
  have "map wi_work_item_id (replace w w' is) = map wi_work_item_id is" using ks(1) by simp
  moreover have "map (\<lambda>w. (wi_observation_id w, wi_extractor_name w)) (replace w w' is) =
      map (\<lambda>w. (wi_observation_id w, wi_extractor_name w)) is" using key by (simp add: same_key_def)
  moreover have "observed_in ws w" "stream_of w \<in> ss" using inv w by (auto simp: items_inv_def list_all_iff)
  then have "observed_in ws w'" "stream_of w' \<in> ss" using ks by simp_all
  moreover have "one_per_stream s (replace w w' is)"
    if s: "s = repositoryExtractionWorkPending \<or> s = repositoryExtractionWorkRunning" for s
  proof (rule one_replace[OF _ ks(3)])
    show "one_per_stream s is" using inv s by (auto simp: items_inv_def)
    show "\<forall>x\<in>set is. wi_status x = s \<longrightarrow> stream_of x = stream_of w \<longrightarrow> x = w" if "wi_status w' = s"
      by (rule one[OF s that])
  qed
  ultimately show ?thesis using inv ok by (simp add: items_inv_def list_all_replace)
qed

lemma heir_replace: "same_key w w' \<Longrightarrow> heir_in ws is x \<Longrightarrow> heir_in ws (replace w w' is) x"
proof (cases "wi_superseded_by x = []")
  case False
  assume key: "same_key w w'" and "heir_in ws is x"
  with False obtain h where h: "h \<in> set is" "wi_work_item_id h = wi_superseded_by x" "stream_of h = stream_of x"
    "newer_in ws h x" by (auto simp: heir_in_def)
  show ?thesis
  proof (cases "h = w")
    case True
    then have "w' \<in> set (replace w w' is)" using h(1) by (simp add: in_replace)
    moreover have "wi_work_item_id w' = wi_superseded_by x" "stream_of w' = stream_of x" "newer_in ws w' x"
      using h True same_key_simps[OF key] by simp_all
    ultimately show ?thesis unfolding heir_in_def by blast
  next
    case False
    then have "h \<in> set (replace w w' is)" using h(1) by (simp add: in_replace)
    with h show ?thesis unfolding heir_in_def by blast
  qed
qed (simp add: heir_in_def)

lemma heirs_replace:
  assumes "list_all (heir_in ws is) is" "same_key w w'" "heir_in ws is w'"
  shows "list_all (heir_in ws (replace w w' is)) (replace w w' is)"
  using assms heir_replace[OF assms(2)] by (auto simp: list_all_iff in_replace)

lemma heir_append: "heir_in ws is x \<Longrightarrow> heir_in ws (is @ ns) x"
  unfolding heir_in_def by auto

lemma numbered_replace:
  assumes "numbered as" "ca_workItemID a' = ca_workItemID a" "ca_attemptNumber a' = ca_attemptNumber a"
  shows "numbered (replace a a' as)"
proof -
  have "attempt_numbers i (replace a a' as) = attempt_numbers i as" for i
    unfolding attempt_numbers_def by (rule map_filter_cong) (simp add: assms)
  with assms(1) show ?thesis by (simp add: numbered_def)
qed

lemma fold_max_upto: "0 < n \<Longrightarrow> fold max (map int [2..<Suc n]) 1 = int n"
proof (induction n)
  case (Suc n)
  then show ?case by (cases n) (simp_all add: upt_rec[of 2])
qed simp

lemma next_number:
  assumes "nextRepositoryExtractionWorkClaimAttemptNumber db i = Inr n" "numbered (attempts db)"
  shows "n = int (Suc (length (attempt_numbers i (attempts db))))"
proof -
  let ?ns = "attempt_numbers i (attempts db)"
  have ns: "?ns = map int [1..<Suc (length ?ns)]" using assms(2) by (simp add: numbered_def)
  have n: "n = (case ?ns of [] \<Rightarrow> 0 | m # ms \<Rightarrow> fold max ms m) + 1"
    using assms(1) by (auto simp: nextRepositoryExtractionWorkClaimAttemptNumber_def attempt_numbers_def Let_def split: if_splits)
  show ?thesis
  proof (cases "length ?ns")
    case 0
    with n show ?thesis by simp
  next
    case (Suc k)
    then have "?ns = 1 # map int [2..<Suc (length ?ns)]" using ns
      by (metis One_nat_def Suc_1 Suc_leI lessI list.simps(9) of_nat_1 upt_conv_Cons zero_less_Suc not_less_eq Suc_less_eq)
    with n have "n = fold max (map int [2..<Suc (length ?ns)]) 1 + 1" by (metis list.simps(5))
    then show ?thesis using fold_max_upto[of "length ?ns"] Suc by simp
  qed
qed

lemma numbered_append:
  assumes "numbered as" "ca_attemptNumber a = int (Suc (length (attempt_numbers (ca_workItemID a) as)))"
  shows "numbered (as @ [a])"
  unfolding numbered_def
proof
  fix i
  have ns: "attempt_numbers i as = map int [1..<Suc (length (attempt_numbers i as))]"
    using assms(1) by (simp add: numbered_def)
  show "attempt_numbers i (as @ [a]) = map int [1..<Suc (length (attempt_numbers i (as @ [a])))]"
  proof (cases "ca_workItemID a = i")
    case True
    then have "attempt_numbers i (as @ [a]) = attempt_numbers i as @ [int (Suc (length (attempt_numbers i as)))]"
      using assms(2) by (simp add: attempt_numbers_def)
    with ns show ?thesis by (metis length_append_singleton list.simps(8,9) map_append upt_Suc_append le_add1 plus_1_eq_Suc)
  next
    case False
    then have "attempt_numbers i (as @ [a]) = attempt_numbers i as" by (simp add: attempt_numbers_def)
    then show ?thesis using ns by simp
  qed
qed

lemma attempts_inv_replace:
  assumes "attempts_inv ts ids as" "a \<in> set as" "attempt_state_ok ts a'" "ca_claimID a' = ca_claimID a"
    "ca_workItemID a' = ca_workItemID a" "ca_attemptNumber a' = ca_attemptNumber a"
  shows "attempts_inv ts ids (replace a a' as)"
proof -
  have "ca_workItemID a' \<in> ids" using assms by (auto simp: attempts_inv_def list_all_iff)
  with assms show ?thesis by (simp add: attempts_inv_def list_all_replace numbered_replace)
qed

lemma backs_key: "backs a w \<Longrightarrow> ca_claimID a = wi_claim_id w \<and> ca_workItemID a = wi_work_item_id w"
  by (simp add: backs_def)

lemma pairs_inv_replace:
  assumes inv: "pairs_inv is as" and ids: "distinct (map wi_work_item_id is)" "distinct (map ca_claimID as)"
    and w: "w \<in> set is" and a: "a \<in> set as" and b: "backs a w"
    and w': "wi_claim_id w' \<noteq> [] \<Longrightarrow> backs a' w'"
    and a': "ca_status a' = repositoryExtractionWorkRunning \<Longrightarrow> backs a' w'"
  shows "pairs_inv (replace w w' is) (replace a a' as)"
  unfolding pairs_inv_def
proof (intro conjI ballI impI)
  fix x assume x: "x \<in> set (replace w w' is)" "wi_claim_id x \<noteq> []"
  show "\<exists>c\<in>set (replace a a' as). backs c x"
  proof (cases "x = w'")
    case True
    then show ?thesis using w' x(2) a by (auto simp: in_replace)
  next
    case False
    then have x': "x \<in> set is" "x \<noteq> w" using x(1) by (auto simp: in_replace)
    then obtain c where c: "c \<in> set as" "backs c x" using inv x(2) by (auto simp: pairs_inv_def)
    have "c \<noteq> a" using keyed[OF ids(1) x'(1) w] x'(2) backs_key[OF b] backs_key[OF c(2)] by auto
    with c show ?thesis by (auto simp: in_replace)
  qed
next
  fix c assume c: "c \<in> set (replace a a' as)" "ca_status c = repositoryExtractionWorkRunning"
  show "\<exists>x\<in>set (replace w w' is). backs c x"
  proof (cases "c = a'")
    case True
    then show ?thesis using a' c(2) w by (auto simp: in_replace)
  next
    case False
    then have c': "c \<in> set as" "c \<noteq> a" using c(1) by (auto simp: in_replace)
    then obtain x where x: "x \<in> set is" "backs c x" using inv c(2) by (auto simp: pairs_inv_def)
    have "x \<noteq> w" using keyed[OF ids(2) c'(1) a] c'(2) backs_key[OF b] backs_key[OF x(2)] by auto
    with x show ?thesis by (auto simp: in_replace)
  qed
qed

lemma replace_same [simp]: "replace a a as = as"
  by (simp add: replace_def map_idI)

text \<open>An unclaimed row carries no attempt.\<close>

lemma pairs_inv_unclaimed:
  assumes inv: "pairs_inv is as" and ok: "\<forall>a\<in>set as. ca_claimID a \<noteq> []" and w: "wi_claim_id w = []"
    and w': "wi_claim_id w' = []"
  shows "pairs_inv (replace w w' is) as"
  unfolding pairs_inv_def
proof (intro conjI ballI impI)
  fix x assume x: "x \<in> set (replace w w' is)" "wi_claim_id x \<noteq> []"
  then have "x \<in> set is" using w' by (auto simp: in_replace)
  with inv x(2) show "\<exists>c\<in>set as. backs c x" by (simp add: pairs_inv_def)
next
  fix c assume c: "c \<in> set as" "ca_status c = repositoryExtractionWorkRunning"
  then obtain x where x: "x \<in> set is" "backs c x" using inv by (auto simp: pairs_inv_def)
  then have "x \<noteq> w" using w ok c(1) backs_key[OF x(2)] by auto
  with x show "\<exists>x\<in>set (replace w w' is). backs c x" by (auto simp: in_replace)
qed

lemma pairs_inv_append_item: "pairs_inv is as \<Longrightarrow> wi_claim_id n = [] \<Longrightarrow> pairs_inv (is @ [n]) as"
  unfolding pairs_inv_def by auto

lemma pairs_inv_append_attempt:
  assumes "pairs_inv (replace w w' is) as'" "as' = as" "pairs_inv is as" "wi_claim_id w = []"
    "\<forall>a\<in>set as. ca_claimID a \<noteq> []" "w \<in> set is" "backs a w'"
  shows "pairs_inv (replace w w' is) (as @ [a])"
  using assms unfolding pairs_inv_def by (auto simp: in_replace)

section \<open>The request tables\<close>

lemma requests_grow:
  assumes inv: "requests_inv db" and grow: "attempts_grow (attempts db) (attempts db')"
    and ids: "set (map wi_work_item_id (items db)) \<subseteq> set (map wi_work_item_id (items db'))"
    and same: "schedule_requests db' = schedule_requests db" "claim_requests db' = claim_requests db"
      "finish_requests db' = finish_requests db" "renewal_requests db' = renewal_requests db"
      "recovery_requests db' = recovery_requests db" "retry_requests db' = retry_requests db"
  shows "requests_inv db'"
proof -
  have "list_all (\<lambda>q. sq_work_item_id q \<in> set (map wi_work_item_id (items db'))) (schedule_requests db)"
    using inv ids unfolding requests_inv_def list_all_iff by blast
  moreover have "list_all (claim_request_ok (attempts db')) (claim_requests db)"
    using inv claim_request_grow[OF grow] unfolding requests_inv_def list_all_iff by blast
  moreover have "list_all (finish_request_ok (attempts db')) (finish_requests db)"
    using inv finish_request_grow[OF grow] unfolding requests_inv_def list_all_iff by blast
  moreover have "list_all (renewal_request_ok (attempts db')) (renewal_requests db)"
    using inv renewal_request_grow[OF grow] unfolding requests_inv_def list_all_iff by blast
  moreover have "list_all (recovery_request_ok (attempts db')) (recovery_requests db)"
    using inv recovery_request_grow[OF grow] unfolding requests_inv_def list_all_iff by blast
  moreover have "list_all (retry_request_ok (attempts db')) (retry_requests db)"
    using inv retry_request_grow[OF grow] unfolding requests_inv_def list_all_iff by blast
  ultimately show ?thesis using inv by (simp add: requests_inv_def same)
qed

lemma requests_add:
  "requests_inv db \<Longrightarrow> sq_work_item_id sq \<in> set (map wi_work_item_id (items db)) \<Longrightarrow>
    \<forall>p\<in>set (schedule_requests db). sq_request_id p \<noteq> sq_request_id sq \<Longrightarrow>
    requests_inv (db\<lparr>schedule_requests := schedule_requests db @ [sq]\<rparr>)"
  "requests_inv db \<Longrightarrow> claim_request_ok (attempts db) cq \<Longrightarrow>
    \<forall>p\<in>set (claim_requests db). cq_request_id p \<noteq> cq_request_id cq \<Longrightarrow>
    requests_inv (db\<lparr>claim_requests := claim_requests db @ [cq]\<rparr>)"
  "requests_inv db \<Longrightarrow> finish_request_ok (attempts db) fq \<Longrightarrow>
    \<forall>p\<in>set (finish_requests db). fq_request_id p \<noteq> fq_request_id fq \<Longrightarrow>
    requests_inv (db\<lparr>finish_requests := finish_requests db @ [fq]\<rparr>)"
  "requests_inv db \<Longrightarrow> renewal_request_ok (attempts db) nq \<Longrightarrow>
    \<forall>p\<in>set (renewal_requests db). nq_request_id p \<noteq> nq_request_id nq \<Longrightarrow>
    requests_inv (db\<lparr>renewal_requests := renewal_requests db @ [nq]\<rparr>)"
  "requests_inv db \<Longrightarrow> recovery_request_ok (attempts db) rq \<Longrightarrow>
    \<forall>p\<in>set (recovery_requests db). rq_request_id p \<noteq> rq_request_id rq \<Longrightarrow>
    requests_inv (db\<lparr>recovery_requests := recovery_requests db @ [rq]\<rparr>)"
  "requests_inv db \<Longrightarrow> retry_request_ok (attempts db) rq \<Longrightarrow>
    \<forall>p\<in>set (retry_requests db). rq_request_id p \<noteq> rq_request_id rq \<Longrightarrow>
    requests_inv (db\<lparr>retry_requests := retry_requests db @ [rq]\<rparr>)"
  by (auto simp: requests_inv_def)

lemma core_inv_requests [simp]:
  "core_inv ts (db\<lparr>schedule_requests := sqs\<rparr>) = core_inv ts db"
  "core_inv ts (db\<lparr>claim_requests := cqs\<rparr>) = core_inv ts db"
  "core_inv ts (db\<lparr>finish_requests := fqs\<rparr>) = core_inv ts db"
  "core_inv ts (db\<lparr>renewal_requests := nqs\<rparr>) = core_inv ts db"
  "core_inv ts (db\<lparr>recovery_requests := rqs\<rparr>) = core_inv ts db"
  "core_inv ts (db\<lparr>retry_requests := rqs\<rparr>) = core_inv ts db"
  by (simp_all add: core_inv_def)

section \<open>Claims in progress and claims that failed\<close>

lemma attempt_ok: "core_inv ts db \<Longrightarrow> a \<in> set (attempts db) \<Longrightarrow> attempt_state_ok ts a"
  by (auto simp: core_inv_def attempts_inv_def list_all_iff)

lemma item_ok: "core_inv ts db \<Longrightarrow> w \<in> set (items db) \<Longrightarrow> item_state_ok w"
  by (auto simp: core_inv_def items_inv_def list_all_iff)

lemma claims_named: "core_inv ts db \<Longrightarrow> \<forall>a\<in>set (attempts db). ca_claimID a \<noteq> []"
  using attempt_ok by (auto simp: attempt_state_ok_def)

lemma backing_attempt:
  assumes "core_inv ts db" "w \<in> set (items db)" "a \<in> set (attempts db)" "wi_claim_id w = ca_claimID a"
  shows "backs a w"
proof -
  have "wi_claim_id w \<noteq> []" using claims_named[OF assms(1)] assms(3,4) by simp
  then obtain b where b: "b \<in> set (attempts db)" "backs b w"
    using assms(1,2) by (auto simp: core_inv_def pairs_inv_def)
  have "distinct (map ca_claimID (attempts db))" using assms(1) by (simp add: core_inv_def attempts_inv_def)
  then have "b = a" using keyed b(1) assms(3,4) backs_key[OF b(2)] by metis
  with b show ?thesis by simp
qed

lemma running_backed: "core_inv ts db \<Longrightarrow> running_pair db w a \<Longrightarrow> backs a w"
  by (rule backing_attempt) (auto simp: running_pair_def)

lemma failed_backed: "core_inv ts db \<Longrightarrow> failed_pair db w a fin \<Longrightarrow> backs a w"
  by (rule backing_attempt) (auto simp: failed_pair_def)

lemma core_parts:
  assumes "core_inv ts db"
  shows "windows_inv (windows db)" "items_inv (windows db) (set (streams db)) (items db)"
    "list_all (heir_in (windows db) (items db)) (items db)"
    "attempts_inv ts (set (map wi_work_item_id (items db))) (attempts db)" "pairs_inv (items db) (attempts db)"
    "decisions_inv ts (attempts db) (policy_decisions db)" "consumptions_inv (policy_decisions db) (consumptions db)"
    "distinct (map wi_work_item_id (items db))" "distinct (map ca_claimID (attempts db))"
  using assms by (simp_all add: core_inv_def items_inv_def attempts_inv_def)

text \<open>Replacing a row and the attempt behind it, in one step.\<close>

lemma core_inv_pair:
  assumes inv: "core_inv ts db" and w: "w \<in> set (items db)" and a: "a \<in> set (attempts db)" and b: "backs a w"
    and key: "same_key w w'" and ok: "item_state_ok w'" "attempt_state_ok ts a'" and lt: "later a a'"
    and one: "\<And>s. s = repositoryExtractionWorkPending \<or> s = repositoryExtractionWorkRunning \<Longrightarrow> wi_status w' = s \<Longrightarrow>
      \<forall>x\<in>set (items db). wi_status x = s \<longrightarrow> stream_of x = stream_of w \<longrightarrow> x = w"
    and heir: "heir_in (windows db) (items db) w'"
    and w': "wi_claim_id w' \<noteq> [] \<Longrightarrow> backs a' w'"
    and a': "ca_status a' = repositoryExtractionWorkRunning \<Longrightarrow> backs a' w'"
  shows "core_inv ts (db\<lparr>items := replace w w' (items db), attempts := replace a a' (attempts db)\<rparr>)"
proof -
  note parts = core_parts[OF inv]
  have ids: "map wi_work_item_id (replace w w' (items db)) = map wi_work_item_id (items db)"
    using key by (simp add: same_key_def)
  have l: "ca_claimID a' = ca_claimID a" "ca_workItemID a' = ca_workItemID a" "ca_attemptNumber a' = ca_attemptNumber a"
    using lt by (simp_all add: later_def)
  show ?thesis unfolding core_inv_def
    using parts(1,7) items_inv_replace[OF parts(2) w key ok(1) one] heirs_replace[OF parts(3) key heir]
      attempts_inv_replace[OF parts(4) a ok(2) l] pairs_inv_replace[OF parts(5,8,9) w a b w' a']
      decisions_grow[OF attempts_grow_replace[OF lt] parts(6)]
    by (simp add: ids del: set_map)
qed

section \<open>Every operation preserves the invariant\<close>

lemma running_state: "item_state_ok w \<Longrightarrow> wi_status w = repositoryExtractionWorkRunning \<Longrightarrow> claimed_by_worker w \<and> no_outcome w"
  by (auto simp: item_state_ok_def)

lemma failed_state: "item_state_ok w \<Longrightarrow> wi_status w = RepositoryExtractionWorkOutcomeFailed \<Longrightarrow> claimed_by_worker w"
  by (auto simp: item_state_ok_def)

lemma running_item:
  assumes "core_inv ts db" "running_pair db w a"
  shows "backs a w" "item_state_ok w" "attempt_state_ok ts a" "w \<in> set (items db)" "a \<in> set (attempts db)"
    "wi_status w = repositoryExtractionWorkRunning" "ca_status a = repositoryExtractionWorkRunning"
    "claimed_by_worker w" "no_outcome w"
proof -
  show w: "w \<in> set (items db)" "a \<in> set (attempts db)" "wi_status w = repositoryExtractionWorkRunning"
    "ca_status a = repositoryExtractionWorkRunning" using assms(2) by (simp_all add: running_pair_def)
  show "backs a w" by (rule running_backed[OF assms])
  show ok: "item_state_ok w" by (rule item_ok[OF assms(1) w(1)])
  show "attempt_state_ok ts a" by (rule attempt_ok[OF assms(1) w(2)])
  show "claimed_by_worker w" "no_outcome w" using running_state[OF ok w(3)] by simp_all
qed

lemma failed_item:
  assumes "core_inv ts db" "failed_pair db w a fin"
  shows "backs a w" "item_state_ok w" "attempt_state_ok ts a" "w \<in> set (items db)" "a \<in> set (attempts db)"
    "wi_status w = RepositoryExtractionWorkOutcomeFailed" "ca_status a = RepositoryExtractionWorkOutcomeFailed"
    "claimed_by_worker w"
proof -
  show w: "w \<in> set (items db)" "a \<in> set (attempts db)" "wi_status w = RepositoryExtractionWorkOutcomeFailed"
    "ca_status a = RepositoryExtractionWorkOutcomeFailed" using assms(2) by (simp_all add: failed_pair_def)
  show "backs a w" by (rule failed_backed[OF assms])
  show ok: "item_state_ok w" by (rule item_ok[OF assms(1) w(1)])
  show "attempt_state_ok ts a" by (rule attempt_ok[OF assms(1) w(2)])
  show "claimed_by_worker w" by (rule failed_state[OF ok w(3)])
qed

lemma status_one:
  assumes "core_inv ts db" "w \<in> set (items db)" "s = repositoryExtractionWorkPending \<or> s = repositoryExtractionWorkRunning"
    "wi_status w = s"
  shows "\<forall>x\<in>set (items db). wi_status x = s \<longrightarrow> stream_of x = stream_of w \<longrightarrow> x = w"
proof -
  have "one_per_stream s (items db)" using assms(1,3) by (auto simp: core_inv_def items_inv_def)
  with assms(2,4) show ?thesis unfolding one_per_stream_def by blast
qed

lemma same_key_refl: "same_key w w"
  by (simp add: same_key_def)

lemma heir_item: "core_inv ts db \<Longrightarrow> w \<in> set (items db) \<Longrightarrow> heir_in (windows db) (items db) w"
  by (auto simp: core_inv_def list_all_iff)

text \<open>What a step keeps: the invariant, and every attempt up to a later version of it.\<close>

definition kept :: "(time \<Rightarrow> time) \<Rightarrow> workDB \<Rightarrow> workDB \<Rightarrow> bool" where
  "kept ts db db' \<longleftrightarrow> work_inv ts db' \<and> attempts_grow (attempts db) (attempts db')"

lemma kept_refl: "work_inv ts db \<Longrightarrow> kept ts db db"
  by (simp add: kept_def attempts_grow_refl)

lemma renew_kept:
  assumes run: "renewRepositoryExtractionWorkLease ts input now db = Inr (r, db')" and inv: "work_inv ts db"
    and t: "timestamp_column ts"
  shows "kept ts db db'"
proof (cases rule: renew_cases[OF run work_inv_keys[OF inv]])
  case 1
  then show ?thesis using inv kept_refl by simp
next
  case (2 w a ms q)
  have core: "core_inv ts db" and req: "requests_inv db" using inv by (simp_all add: work_inv_def)
  note rw = running_item[OF core 2(1)]
  let ?a = "a\<lparr>ca_leaseExpiresAt := ts (now + ms * Millisecond)\<rparr>"
  let ?db = "db\<lparr>items := replace w w (items db), attempts := replace a ?a (attempts db)\<rparr>"
  have "ts (ca_leaseExpiresAt a) = ca_leaseExpiresAt a" using rw(3) by (simp add: attempt_state_ok_def)
  then have ext: "ca_leaseExpiresAt a < ts (now + ms * Millisecond)"
    using \<open>renewal_row_ok q\<close> 2(9,11) by (simp add: renewal_row_ok_def)
  then have l: "later a ?a" using rw(7) by (simp add: later_def)
  have st: "attempt_state_ok ts ?a" using rw(3,7) ext ts_idem[OF t] by (auto simp: attempt_state_ok_def)
  have bk: "backs ?a w" using rw(1) by (simp add: backs_def)
  have c: "core_inv ts ?db"
    by (rule core_inv_pair[OF core rw(4,5,1) same_key_refl rw(2) st l status_one[OF core rw(4)]
      heir_item[OF core rw(4)] bk bk])
  have g: "attempts_grow (attempts db) (attempts ?db)" using attempts_grow_replace[OF l] by simp
  have r: "requests_inv ?db" by (rule requests_grow[OF req g]) simp_all
  have db': "db' = ?db\<lparr>renewal_requests := renewal_requests ?db @ [q]\<rparr>" using 2(14) by simp
  have qk: "renewal_request_ok (attempts ?db) q" unfolding renewal_request_ok_def
  proof (intro conjI bexI)
    show "?a \<in> set (attempts ?db)" using rw(5) by (simp add: in_replace)
  qed (use 2 rw(1) in \<open>simp_all add: backs_def\<close>)
  have "requests_inv db'" unfolding db' by (rule requests_add(4)[OF r qk]) (use 2(13) in simp)
  then show ?thesis using c g by (simp add: kept_def work_inv_def db')
qed

lemma finish_kept:
  assumes run: "finishRepositoryExtractionWork ts input now db = Inr (r, db')" and inv: "work_inv ts db"
    and t: "timestamp_column ts"
  shows "kept ts db db'"
proof (cases rule: finish_cases[OF run work_inv_keys[OF inv]])
  case 1
  then show ?thesis using inv kept_refl by simp
next
  case (2 w a i q)
  have core: "core_inv ts db" and req: "requests_inv db" using inv by (simp_all add: work_inv_def)
  note rw = running_item[OF core 2(1)]
  let ?w = "finished_item ts i now w"
  let ?a = "finished_attempt ts i now a"
  let ?db = "db\<lparr>items := replace w ?w (items db), attempts := replace a ?a (attempts db)\<rparr>"
  have at: "ts (ca_leaseExpiresAt a) = ca_leaseExpiresAt a" "ts (ca_claimedAt a) = ca_claimedAt a"
    using rw(3) by (simp_all add: attempt_state_ok_def)
  have early: "ts now < ca_leaseExpiresAt a" using ts_before[OF t, of now "ca_leaseExpiresAt a"] 2(4) at(1) by simp
  have late: "ca_claimedAt a \<le> ts now" using ts_not_before[OF t, of "ca_claimedAt a" now] 2(3) at(2) by simp
  have out: "fi_Outcome i \<noteq> repositoryExtractionWorkRunning" "fi_Outcome i \<noteq> repositoryExtractionWorkPending"
    using 2(2) by (auto simp: outcome_ok_def)
  have key: "same_key w ?w" by (simp add: same_key_def finished_item_def)
  have l: "later a ?a" using rw(7) by (simp add: later_def finished_attempt_def)
  have ok: "item_state_ok ?w" using rw(2,8,9) 2(2)
    by (auto simp: item_state_ok_def finished_item_def outcome_ok_def claimed_by_worker_def)
  have st: "attempt_state_ok ts ?a" using rw(3,7) 2(2) early late ts_idem[OF t, of now]
    by (auto simp: attempt_state_ok_def finished_attempt_def outcome_ok_def)
  have bk: "backs ?a ?w" using rw(1) by (simp add: backs_def finished_attempt_def finished_item_def)
  have heir: "heir_in (windows db) (items db) ?w" using rw(8) by (simp add: heir_in_def finished_item_def claimed_by_worker_def)
  have c: "core_inv ts ?db"
    by (rule core_inv_pair[OF core rw(4,5,1) key ok st l _ heir bk bk]) (use out in \<open>auto simp: finished_item_def\<close>)
  have g: "attempts_grow (attempts db) (attempts ?db)" using attempts_grow_replace[OF l] by simp
  have ids: "map wi_work_item_id (replace w ?w (items db)) = map wi_work_item_id (items db)"
    using key by (simp add: same_key_def)
  have r: "requests_inv ?db" by (rule requests_grow[OF req g]) (simp_all add: ids del: set_map)
  have db': "db' = ?db\<lparr>finish_requests := finish_requests ?db @ [q]\<rparr>" using 2(11) by simp
  have qk: "finish_request_ok (attempts ?db) q" unfolding finish_request_ok_def
  proof (intro conjI bexI)
    show "?a \<in> set (attempts ?db)" using rw(5) by (simp add: in_replace)
  qed (use 2 rw(1,3,7) out in \<open>auto simp: backs_def finished_attempt_def attempt_state_ok_def\<close>)
  have "requests_inv db'" unfolding db' by (rule requests_add(3)[OF r qk]) (use 2(10) in simp)
  then show ?thesis using c g by (simp add: kept_def work_inv_def db')
qed

text \<open>A released row is pending with no other pending row in its stream, or superseded by a newer one.\<close>

lemma pending_none:
  assumes "core_inv ts db" "readPendingRepositoryExtractionWork db repo ext = None"
  shows "\<forall>x\<in>set (items db). wi_status x = repositoryExtractionWorkPending \<longrightarrow> stream_of x \<noteq> (repo, ext)"
proof (rule ccontr)
  let ?P = "\<lambda>w. wi_repo_id w = repo \<and> wi_extractor_name w = ext \<and> wi_status w = repositoryExtractionWorkPending"
  assume "\<not> ?thesis"
  then obtain u where u: "row ?P (items db) = Some u"
    using row_None[of ?P "items db"] by (cases "row ?P (items db)") (auto simp: stream_of_def)
  then have "u \<in> set (items db)" using row_Some by fast
  then obtain v where v: "v \<in> set (windows db)" "gw_id v = wi_observation_id u"
    using assms(1) by (auto simp: core_inv_def items_inv_def list_all_iff observed_in_def)
  then have "row (\<lambda>v. gw_id v = wi_observation_id u) (windows db) \<noteq> None" using row_None by fast
  with assms(2) u show False
    by (auto simp: readPendingRepositoryExtractionWork_def select_work_def scanRepositoryExtractionWork_def)
qed

lemma released_item:
  assumes core: "core_inv ts db" and rel: "released db w status heir" and w: "w \<in> set (items db)" "item_state_ok w"
    and st: "wi_status w \<noteq> repositoryExtractionWorkPending"
  shows "item_state_ok (release_item status heir w)" "same_key w (release_item status heir w)"
    "heir_in (windows db) (items db) (release_item status heir w)"
    "wi_claim_id (release_item status heir w) = []"
    "s = repositoryExtractionWorkPending \<or> s = repositoryExtractionWorkRunning \<Longrightarrow>
      wi_status (release_item status heir w) = s \<Longrightarrow>
      \<forall>x\<in>set (items db). wi_status x = s \<longrightarrow> stream_of x = stream_of w \<longrightarrow> x = w"
proof -
  let ?w = "release_item status heir w"
  show "same_key w ?w" "wi_claim_id ?w = []" by (simp_all add: same_key_def release_item_def)
  consider (requeued) "status = repositoryExtractionWorkPending" "heir = []"
      "readPendingRepositoryExtractionWork db (wi_repo_id w) (wi_extractor_name w) = None"
    | (superseded) p where "status = repositoryExtractionWorkSuperseded" "p \<in> set (items db)" "wi_work_item_id p = heir"
      "stream_of p = stream_of w" "wi_status p = repositoryExtractionWorkPending" "newer db p w"
    using rel by (auto simp: released_def stream_of_def)
  then have "item_state_ok ?w \<and> heir_in (windows db) (items db) ?w \<and>
    (\<forall>s. s = repositoryExtractionWorkPending \<or> s = repositoryExtractionWorkRunning \<longrightarrow> wi_status ?w = s \<longrightarrow>
      (\<forall>x\<in>set (items db). wi_status x = s \<longrightarrow> stream_of x = stream_of w \<longrightarrow> x = w))"
  proof cases
    case requeued
    have "\<forall>x\<in>set (items db). wi_status x = repositoryExtractionWorkPending \<longrightarrow> stream_of x \<noteq> stream_of w"
      using pending_none[OF core requeued(3)] by (simp add: stream_of_def)
    then show ?thesis using requeued(1,2) w(2)
      by (auto simp: item_state_ok_def release_item_def unclaimed_def no_outcome_def heir_in_def)
  next
    case superseded
    have "heir \<noteq> []" using item_ok[OF core superseded(2)] superseded(3) by (auto simp: item_state_ok_def)
    moreover have "p \<noteq> w" using superseded(5) st by auto
    then have "heir \<noteq> wi_work_item_id w"
      using keyed[OF core_parts(8)[OF core] superseded(2) w(1)] superseded(3) by auto
    moreover have "newer_in (windows db) p ?w" using superseded(6) by (simp add: newer_in_def release_item_def)
    moreover have "stream_of p = stream_of ?w" using superseded(4) by (simp add: stream_of_def release_item_def)
    ultimately have "heir_in (windows db) (items db) ?w" using superseded(2,3)
      unfolding heir_in_def by (auto simp: release_item_def)
    with \<open>heir \<noteq> []\<close> \<open>heir \<noteq> wi_work_item_id w\<close> show ?thesis using superseded(1) w(2)
      by (auto simp: item_state_ok_def release_item_def unclaimed_def no_outcome_def)
  qed
  then show "item_state_ok ?w" "heir_in (windows db) (items db) ?w"
    "s = repositoryExtractionWorkPending \<or> s = repositoryExtractionWorkRunning \<Longrightarrow> wi_status ?w = s \<Longrightarrow>
      \<forall>x\<in>set (items db). wi_status x = s \<longrightarrow> stream_of x = stream_of w \<longrightarrow> x = w" by blast+
qed

text \<open>The transition of an expired claim, whatever request it is recorded under.\<close>

abbreviation expired_attempt ::
  "(time \<Rightarrow> time) \<Rightarrow> time \<Rightarrow> repositoryExtractionWorkClaimAttempt \<Rightarrow> repositoryExtractionWorkClaimAttempt" where
  "expired_attempt ts now a \<equiv> a\<lparr>ca_status := repositoryExtractionWorkExpired, ca_expiredAt := Some (ts now)\<rparr>"

lemma expire_kept:
  assumes inv: "work_inv ts db" and t: "timestamp_column ts" and pair: "running_pair db w a" "ca_leaseExpiresAt a \<le> now"
    "released db w status heir"
  shows "kept ts db (db\<lparr>items := replace w (release_item status heir w) (items db),
    attempts := replace a (expired_attempt ts now a) (attempts db)\<rparr>)"
proof -
  have core: "core_inv ts db" and req: "requests_inv db" using inv by (simp_all add: work_inv_def)
  note rw = running_item[OF core pair(1)]
  let ?w = "release_item status heir w"
  let ?a = "expired_attempt ts now a"
  let ?db = "db\<lparr>items := replace w ?w (items db), attempts := replace a ?a (attempts db)\<rparr>"
  have "ts (ca_leaseExpiresAt a) = ca_leaseExpiresAt a" using rw(3) by (simp add: attempt_state_ok_def)
  then have late: "ca_leaseExpiresAt a \<le> ts now" using ts_not_before[OF t, of "ca_leaseExpiresAt a" now] pair(2) by simp
  have "wi_status w \<noteq> repositoryExtractionWorkPending" using rw(6) by simp
  note ri = released_item[OF core pair(3) rw(4,2) this]
  have l: "later a ?a" using rw(7) by (simp add: later_def)
  have st: "attempt_state_ok ts ?a" using rw(3,7) late by (auto simp: attempt_state_ok_def)
  have c: "core_inv ts ?db"
    by (rule core_inv_pair[OF core rw(4,5,1) ri(2,1) st l ri(5,3)]) (use ri(4) in auto)
  have g: "attempts_grow (attempts db) (attempts ?db)" using attempts_grow_replace[OF l] by simp
  have ids: "map wi_work_item_id (replace w ?w (items db)) = map wi_work_item_id (items db)"
    using ri(2) by (simp add: same_key_def)
  have "requests_inv ?db" by (rule requests_grow[OF req g]) (simp_all add: ids del: set_map)
  with c g show ?thesis by (simp add: kept_def work_inv_def)
qed

lemma recover_kept:
  assumes run: "recoverExpiredRepositoryExtractionWork ts input now db = Inr (r, db')" and inv: "work_inv ts db"
    and t: "timestamp_column ts"
  shows "kept ts db db'"
proof (cases rule: recover_cases[OF run work_inv_keys[OF inv]])
  case 1
  then show ?thesis using inv kept_refl by simp
next
  case (2 w a status heir q)
  let ?db = "db\<lparr>items := replace w (release_item status heir w) (items db),
    attempts := replace a (expired_attempt ts now a) (attempts db)\<rparr>"
  have k: "work_inv ts ?db" "attempts_grow (attempts db) (attempts ?db)"
    using expire_kept[OF inv t 2(1-3)] by (simp_all add: kept_def)
  have "core_inv ts db" using inv by (simp add: work_inv_def)
  note rw = running_item[OF this 2(1)]
  have db': "db' = ?db\<lparr>recovery_requests := recovery_requests ?db @ [q]\<rparr>" using 2(8) by simp
  have qk: "recovery_request_ok (attempts ?db) q" unfolding recovery_request_ok_def
  proof (intro conjI bexI)
    show "expired_attempt ts now a \<in> set (attempts ?db)" using rw(5) by (simp add: in_replace)
  qed (use 2 rw(1) in \<open>auto simp: backs_def\<close>)
  have "requests_inv ?db" using k(1) by (simp add: work_inv_def)
  then have "requests_inv db'" unfolding db' by (rule requests_add(5)[OF _ qk]) (use 2(7) in simp)
  then show ?thesis using k by (simp add: kept_def work_inv_def db')
qed

lemma core_inv_released:
  assumes core: "core_inv ts db" and fp: "failed_pair db w a fin" and rel: "released db w status heir"
  shows "core_inv ts (db\<lparr>items := replace w (release_item status heir w) (items db)\<rparr>)"
    "map wi_work_item_id (replace w (release_item status heir w) (items db)) = map wi_work_item_id (items db)"
proof -
  note fi = failed_item[OF core fp]
  let ?w = "release_item status heir w"
  have "wi_status w \<noteq> repositoryExtractionWorkPending" using fi(6) by simp
  note ri = released_item[OF core rel fi(4,2) this]
  have "core_inv ts (db\<lparr>items := replace w ?w (items db), attempts := replace a a (attempts db)\<rparr>)"
    by (rule core_inv_pair[OF core fi(4,5,1) ri(2,1) fi(3) later_refl ri(5,3)]) (use ri(4) fi(7) in auto)
  then show "core_inv ts (db\<lparr>items := replace w ?w (items db)\<rparr>)" by (simp add: core_inv_def)
  show "map wi_work_item_id (replace w ?w (items db)) = map wi_work_item_id (items db)"
    using ri(2) by (simp add: same_key_def)
qed

lemma retry_kept:
  assumes run: "retryFailedRepositoryExtractionWork ts input now db = Inr (r, db')" and inv: "work_inv ts db"
    and t: "timestamp_column ts"
  shows "kept ts db db'"
proof (cases rule: retry_cases[OF run work_inv_keys[OF inv]])
  case 1
  then show ?thesis using inv kept_refl by simp
next
  case (2 w a fin status heir q)
  have core: "core_inv ts db" and req: "requests_inv db" using inv by (simp_all add: work_inv_def)
  note fi = failed_item[OF core 2(1)]
  let ?db = "db\<lparr>items := replace w (release_item status heir w) (items db)\<rparr>"
  note cr = core_inv_released[OF core 2(1,3)]
  have r: "requests_inv ?db" by (rule requests_grow[OF req]) (simp_all add: cr(2) attempts_grow_refl del: set_map)
  have db': "db' = ?db\<lparr>retry_requests := retry_requests ?db @ [q]\<rparr>" using 2(8) by simp
  obtain u where u: "ca_finishedAt a = Some u" "ts (ca_claimedAt a) = ca_claimedAt a" "fin = u" "ca_expiredAt a = None"
    using 2(1) fi(3) by (auto simp: failed_pair_def attempt_state_ok_def)
  have "ts fin \<le> ts now" using ts_mono[OF t 2(2)] .
  have fixed: "ts fin = fin" using u fi(3) by (simp add: attempt_state_ok_def)
  have qk: "retry_request_ok (attempts ?db) q" unfolding retry_request_ok_def
  proof (intro conjI bexI exI)
    show "a \<in> set (attempts ?db)" using fi(5) by simp
    show "fin \<le> rq_at q" using 2(6) \<open>ts fin \<le> ts now\<close> fixed by simp
  qed (use 2 fi u in \<open>auto simp: failed_pair_def\<close>)
  have "requests_inv db'" unfolding db' by (rule requests_add(6)[OF r qk]) (use 2(7) in simp)
  then show ?thesis using cr(1) by (simp add: kept_def work_inv_def db' attempts_grow_refl)
qed


lemma failed_time:
  assumes "core_inv ts db" "failed_pair db w a fin" "timestamp_column ts" "fin \<le> now"
  shows "fin \<le> ts now"
proof -
  have "ts fin = fin" using failed_item(3)[OF assms(1,2)] assms(2) by (simp add: attempt_state_ok_def failed_pair_def)
  then show ?thesis using ts_not_before[OF assms(3), of fin now] assms(4) by simp
qed

lemma classify_kept:
  assumes run: "classifyFailedRepositoryExtractionWork ts input now db = Inr (r, db')" and inv: "work_inv ts db"
    and t: "timestamp_column ts"
  shows "kept ts db db'"
proof (cases rule: classify_cases[OF run t])
  case 1
  then show ?thesis using inv kept_refl by simp
next
  case (2 w a fin d)
  have core: "core_inv ts db" and req: "requests_inv db" using inv by (simp_all add: work_inv_def)
  note fi = failed_item[OF core 2(1)]
  have "fin \<le> pd_decided_at d" using failed_time[OF core 2(1) t 2(2)] 2(3) by simp
  then have d: "\<exists>a\<in>set (attempts db). decision_of d a \<and> ca_status a = RepositoryExtractionWorkOutcomeFailed \<and>
      (\<exists>fin. ca_finishedAt a = Some fin \<and> fin \<le> pd_decided_at d)"
    using 2(1,4) fi(5,7) by (auto simp: failed_pair_def)
  have "ts (pd_decided_at d) = pd_decided_at d" using ts_idem[OF t, of now] 2(3) by simp
  with d 2(5) core_parts(6)[OF core] have "decisions_inv ts (attempts db) (policy_decisions db @ [d])"
    by (auto simp: decisions_inv_def)
  moreover have "consumptions_inv (policy_decisions db @ [d]) (consumptions db)"
    using core_parts(7)[OF core] by (auto simp: consumptions_inv_def)
  ultimately have "core_inv ts db'" using core by (simp add: core_inv_def 2(6))
  moreover have "requests_inv db'" by (rule requests_grow[OF req]) (simp_all add: 2(6) attempts_grow_refl)
  ultimately show ?thesis by (simp add: kept_def work_inv_def 2(6) attempts_grow_refl)
qed

lemma decision_due:
  assumes "core_inv ts db" "d \<in> set (policy_decisions db)" "timestamp_column ts"
  shows "map_option ts (pd_retry_not_before d) = pd_retry_not_before d"
proof -
  obtain a where a: "decision_of d a" using core_parts(6)[OF assms(1)] assms(2) by (auto simp: decisions_inv_def)
  have "ts (pd_decided_at d) = pd_decided_at d" using core_parts(6)[OF assms(1)] assms(2)
    by (auto simp: decisions_inv_def list_all_iff)
  with decide_ts(4)[OF assms(3), of "ca_failureClass a" "ca_attemptNumber a" "pd_decided_at d"] a
  show ?thesis by (simp add: decision_of_def Let_def)
qed

lemma consume_kept:
  assumes run: "consumeDueRepositoryExtractionWorkRetryDecision ts input now db = Inr (r, db')" and inv: "work_inv ts db"
    and t: "timestamp_column ts"
  shows "kept ts db db'"
proof (cases rule: consume_cases[OF run work_inv_keys[OF inv]])
  case 1
  then show ?thesis using inv kept_refl by simp
next
  case (2 w a fin status heir d due c)
  have core: "core_inv ts db" and req: "requests_inv db" using inv by (simp_all add: work_inv_def)
  note fi = failed_item[OF core 2(1)]
  note cr = core_inv_released[OF core 2(1,3)]
  have due: "ts due = due" using decision_due[OF core 2(4) t] 2(8) by simp
  have "due \<le> ts now" using ts_not_before[OF t, of due now] 2(9) due by simp
  moreover have "pd_claim_id d = dc_claim_id c" "pd_work_item_id d = dc_work_item_id c" using 2 by simp_all
  ultimately have "consumptions_inv (policy_decisions db) (consumptions db @ [c])"
    using core_parts(7)[OF core] 2(4,7,8,10,13-16) due unfolding consumptions_inv_def by auto
  then have "core_inv ts db'" using cr(1) by (simp add: core_inv_def 2(17))
  moreover have "requests_inv db'"
    by (rule requests_grow[OF req]) (simp_all add: 2(17) cr(2) attempts_grow_refl del: set_map)
  ultimately show ?thesis by (simp add: kept_def work_inv_def 2(17) attempts_grow_refl)
qed

lemma items_inv_streams: "items_inv ws ss is \<Longrightarrow> ss \<subseteq> ss' \<Longrightarrow> items_inv ws ss' is"
  by (auto simp: items_inv_def list_all_iff)

lemma core_inv_ensure:
  "core_inv ts db \<Longrightarrow> core_inv ts (ensureAndLockRepositorySourceStream repo ext db)"
  using items_inv_streams[of "windows db" "set (streams db)" "items db" "insert (repo, ext) (set (streams db))"]
  by (auto simp: core_inv_def)

lemma requests_inv_ensure:
  "requests_inv db \<Longrightarrow> requests_inv (ensureAndLockRepositorySourceStream repo ext db)"
  by (simp add: requests_inv_def)

lemma claim_kept:
  assumes run: "claimRepositoryExtractionWork ts input now db = Inr (r, db')" and inv: "work_inv ts db"
    and t: "timestamp_column ts"
  shows "kept ts db db'"
proof (cases rule: claim_cases[OF run work_inv_keys[OF inv]])
  case (1 repo ext qs)
  let ?e = "ensureAndLockRepositorySourceStream repo ext db"
  have core: "core_inv ts ?e" and req: "requests_inv ?e"
    using inv core_inv_ensure requests_inv_ensure by (simp_all add: work_inv_def)
  from 1(1) have "requests_inv db'"
  proof
    assume "qs = []"
    then show ?thesis using req by (simp add: 1(2) requests_inv_def)
  next
    assume "\<exists>q. qs = [q] \<and> \<not> cq_claimed q \<and> (\<forall>p\<in>set (claim_requests db). cq_request_id p \<noteq> cq_request_id q)"
    then obtain q where q: "qs = [q]" "\<not> cq_claimed q" "\<forall>p\<in>set (claim_requests db). cq_request_id p \<noteq> cq_request_id q"
      by blast
    have "db' = ?e\<lparr>claim_requests := claim_requests ?e @ [q]\<rparr>" using 1(2) q(1) by simp
    then show ?thesis using requests_add(2)[OF req, of q] q(2,3) by (simp add: claim_request_ok_def)
  qed
  then show ?thesis using core by (simp add: kept_def work_inv_def 1(2) attempts_grow_refl)
next
  case (2 w c n worker ms q)
  have core: "core_inv ts db" and req: "requests_inv db" using inv by (simp_all add: work_inv_def)
  let ?e = "ensureAndLockRepositorySourceStream (wi_repo_id w) (wi_extractor_name w) db"
  let ?w = "claimed_item c worker (ts now) w"
  let ?a = "new_attempt ts c (wi_work_item_id w) n worker now ms"
  let ?db = "?e\<lparr>items := replace w ?w (items db), attempts := attempts db @ [?a]\<rparr>"
  have ce: "core_inv ts ?e" by (rule core_inv_ensure[OF core])
  note parts = core_parts[OF ce, simplified]
  have wi: "item_state_ok w" by (rule item_ok[OF core 2(1)])
  have wp: "wi_claim_id w = []" "wi_superseded_by w = []" "no_outcome w" using wi 2(2)
    by (auto simp: item_state_ok_def unclaimed_def)
  have key: "same_key w ?w" by (simp add: same_key_def claimed_item_def)
  have ok: "item_state_ok ?w" using wi wp 2(4,6)
    by (auto simp: item_state_ok_def claimed_item_def claimed_by_worker_def no_outcome_def actor_ok_def)
  have nr: "\<forall>x\<in>set (items db). wi_status x = repositoryExtractionWorkRunning \<longrightarrow> stream_of x \<noteq> stream_of w"
    using 2(3) by (auto simp: hasRunningRepositoryExtractionWork_def list_ex_iff stream_of_def)
  have its: "items_inv (windows db) (insert (wi_repo_id w, wi_extractor_name w) (set (streams db))) (replace w ?w (items db))"
    by (rule items_inv_replace[OF parts(2) 2(1) key ok]) (use nr in \<open>auto simp: claimed_item_def\<close>)
  have ids: "map wi_work_item_id (replace w ?w (items db)) = map wi_work_item_id (items db)"
    using key by (simp add: same_key_def)
  have heirs: "list_all (heir_in (windows db) (replace w ?w (items db))) (replace w ?w (items db))"
    by (rule heirs_replace[OF parts(3) key]) (use wp in \<open>simp add: heir_in_def claimed_item_def\<close>)
  have new: "ca_claimID ?a = c" "ca_workItemID ?a = wi_work_item_id w" "ca_attemptNumber ?a = n"
    "ca_status ?a = repositoryExtractionWorkRunning"
    by (simp_all add: new_attempt_def)
  have "ts now < ts (now + ms * Millisecond)" using 2(5) ts_shift[OF t, of now ms]
    by (simp add: lease_ok_def RepositoryExtractionWorkMinLeaseMilliseconds_def)
  then have st: "attempt_state_ok ts ?a" using 2(4-7) ts_idem[OF t]
    by (simp add: attempt_state_ok_def new_attempt_def)
  have num: "numbered (attempts db @ [?a])"
    using next_number[OF 2(8)] core_parts(4)[OF core] new by (intro numbered_append) (auto simp: attempts_inv_def)
  have fresh: "c \<notin> ca_claimID ` set (attempts db)" using 2(9) new by (auto simp: attempt_clash_def)
  have atts: "attempts_inv ts (set (map wi_work_item_id (items db))) (attempts db @ [?a])"
    using core_parts(4)[OF core] st num fresh new 2(1) by (simp add: attempts_inv_def)
  have bk: "backs ?a ?w" using wp(3) by (simp add: backs_def new_attempt_def claimed_item_def no_outcome_def)
  have pr: "pairs_inv (replace w ?w (items db)) (attempts db @ [?a])"
    unfolding pairs_inv_def
  proof (intro conjI ballI impI)
    fix x assume x: "x \<in> set (replace w ?w (items db))" "wi_claim_id x \<noteq> []"
    show "\<exists>b\<in>set (attempts db @ [?a]). backs b x"
    proof (cases "x = ?w")
      case False
      then have "x \<in> set (items db)" using x(1) by (auto simp: in_replace)
      then show ?thesis using parts(5) x(2) by (auto simp: pairs_inv_def)
    qed (use bk in simp)
  next
    fix b assume b: "b \<in> set (attempts db @ [?a])" "ca_status b = repositoryExtractionWorkRunning"
    show "\<exists>x\<in>set (replace w ?w (items db)). backs b x"
    proof (cases "b \<in> set (attempts db)")
      case True
      then obtain x where x: "x \<in> set (items db)" "backs b x" using parts(5) b(2) by (auto simp: pairs_inv_def)
      have "x \<noteq> w" using claims_named[OF core] True backs_key[OF x(2)] wp(1) by auto
      with x show ?thesis by (auto simp: in_replace)
    next
      case False
      with b(1) have "b = ?a" by simp
      with bk 2(1) show ?thesis by (auto simp: in_replace)
    qed
  qed
  have g: "attempts_grow (attempts db) (attempts ?db)" using attempts_grow_append by simp
  have c: "core_inv ts ?db" unfolding core_inv_def
    using parts(1,7) its heirs atts pr decisions_grow[OF g] parts(6) by (simp add: ids del: set_map)
  have r: "requests_inv ?db" by (rule requests_grow[OF req g]) (simp_all add: ids del: set_map)
  have db': "db' = ?db\<lparr>claim_requests := claim_requests ?db @ [q]\<rparr>" using 2(16) by simp
  have qk: "claim_request_ok (attempts ?db) q" unfolding claim_request_ok_def
  proof (intro impI conjI bexI)
    show "?a \<in> set (attempts ?db)" by simp
  qed (use 2 in \<open>simp_all add: new_attempt_def\<close>)
  have "requests_inv db'" unfolding db' by (rule requests_add(2)[OF r qk]) (use 2(15) in simp)
  then show ?thesis using c g by (simp add: kept_def work_inv_def db')
qed

lemma attempts_inv_ids: "attempts_inv ts ids as \<Longrightarrow> ids \<subseteq> ids' \<Longrightarrow> attempts_inv ts ids' as"
  by (auto simp: attempts_inv_def list_all_iff)

lemma windows_unique:
  assumes "windows_inv ws" "u \<in> set ws" "v \<in> set ws" "gw_repoID u = gw_repoID v" "gw_number u = gw_number v"
  shows "u = v"
  using assms keyed[of "\<lambda>v. (gw_repoID v, gw_number v)" ws u v] by (auto simp: windows_inv_def)

text \<open>New work for the latest window supersedes the pending work of its stream, which is older.\<close>

lemma superseded_heir:
  assumes core: "core_inv ts db" and u: "u \<in> set (items db)" and v: "v \<in> set (windows db)"
    and most: "\<forall>x\<in>set (windows db). gw_repoID x = gw_repoID v \<longrightarrow> gw_number x \<le> gw_number v"
    and n: "wi_observation_id n = gw_id v" "wi_repo_id u = gw_repoID v" "wi_observation_id u \<noteq> wi_observation_id n"
  shows "newer_in (windows db) n u"
proof -
  obtain x where x: "x \<in> set (windows db)" "gw_id x = wi_observation_id u" "gw_repoID x = wi_repo_id u"
    using core_parts(2)[OF core] u by (auto simp: items_inv_def list_all_iff observed_in_def)
  have "gw_number x \<noteq> gw_number v"
    using windows_unique[OF core_parts(1)[OF core] x(1) v] x(2,3) n by auto
  moreover have "gw_number x \<le> gw_number v" using most x n(2) by simp
  ultimately have "gw_number x < gw_number v" by simp
  with x v n(1) show ?thesis unfolding newer_in_def by auto
qed

lemma schedule_kept:
  assumes run: "scheduleRepositoryExtractionWork input db = Inr (r, db')" and inv: "work_inv ts db"
  shows "kept ts db db'"
proof (cases rule: schedule_cases[OF run work_inv_keys[OF inv]])
  case 1
  then show ?thesis using inv kept_refl by simp
next
  case (2 repo ext q w)
  let ?e = "ensureAndLockRepositorySourceStream repo ext db"
  have core: "core_inv ts ?e" and req: "requests_inv ?e"
    using inv core_inv_ensure requests_inv_ensure by (simp_all add: work_inv_def)
  have db': "db' = ?e\<lparr>schedule_requests := schedule_requests ?e @ [q]\<rparr>" using 2(4) by simp
  have "requests_inv db'" unfolding db' by (rule requests_add(1)[OF req]) (use 2 in simp_all)
  then show ?thesis using core by (simp add: kept_def work_inv_def db' attempts_grow_refl)
next
  case (3 v ext its n q)
  have core: "core_inv ts db" and req: "requests_inv db" using inv by (simp_all add: work_inv_def)
  let ?e = "ensureAndLockRepositorySourceStream (wi_repo_id n) ext db"
  let ?ss = "insert (wi_repo_id n, ext) (set (streams db))"
  let ?ws = "windows db"
  note parts = core_parts[OF core_inv_ensure[OF core, of "wi_repo_id n" ext], simplified]
  have n: "wi_status n = repositoryExtractionWorkPending" "wi_superseded_by n = []" "wi_claim_id n = []"
    "wi_extractor_name n = ext" "unclaimed n" "no_outcome n"
    by (subst 3(5), simp add: unclaimed_def no_outcome_def)+
  have nok: "item_state_ok n" using n 3(6,7) by (simp add: item_state_ok_def)
  have clash: "wi_work_item_id x \<noteq> wi_work_item_id n"
    "wi_observation_id x \<noteq> wi_observation_id n \<or> wi_extractor_name x \<noteq> wi_extractor_name n"
    "wi_status x = repositoryExtractionWorkPending \<longrightarrow> stream_of x \<noteq> stream_of n" if "x \<in> set its" for x
    using 3(9) that by (auto simp: item_clash_def stream_of_def)
  have its: "items_inv ?ws ?ss its \<and> list_all (heir_in ?ws (its @ [n])) its \<and>
    map wi_work_item_id its = map wi_work_item_id (items db) \<and> pairs_inv its (attempts db)"
    using 3(8)
  proof
    assume "its = items db"
    then show ?thesis using parts heir_append by (auto simp: list_all_iff)
  next
    assume "\<exists>u\<in>set (items db). wi_status u = repositoryExtractionWorkPending \<and>
        wi_repo_id u = wi_repo_id n \<and> wi_extractor_name u = ext \<and>
        its = replace u (superseded_item (wi_work_item_id n) u) (items db)"
    then obtain u where u: "u \<in> set (items db)" "wi_status u = repositoryExtractionWorkPending"
      "wi_repo_id u = wi_repo_id n" "wi_extractor_name u = ext"
      and its: "its = replace u (superseded_item (wi_work_item_id n) u) (items db)" by blast
    let ?u = "superseded_item (wi_work_item_id n) u"
    have u': "?u \<in> set its" using u(1) its by (simp add: in_replace)
    have key: "same_key u ?u" by (simp add: same_key_def superseded_item_def)
    have uok: "item_state_ok u" by (rule item_ok[OF core u(1)])
    have un: "wi_claim_id u = []" using uok u(2) by (auto simp: item_state_ok_def unclaimed_def)
    have diff: "wi_work_item_id u \<noteq> wi_work_item_id n" "wi_observation_id u \<noteq> wi_observation_id n"
      using clash(1,2)[OF u'] key u(4) n(4) by (auto simp: same_key_def)
    have ok: "item_state_ok ?u" using uok u(2) 3(7) diff(1)
      by (auto simp: item_state_ok_def superseded_item_def unclaimed_def no_outcome_def)
    have inv': "items_inv ?ws ?ss its" unfolding its
      by (rule items_inv_replace[OF parts(2) u(1) key ok]) (auto simp: superseded_item_def)
    have "newer_in ?ws n u"
      by (rule superseded_heir[OF core u(1) 3(1,4,2)]) (use u(3) 3(3) diff in simp_all)
    then have hu: "heir_in ?ws (its @ [n]) ?u"
      using same_key_simps[OF key] u(3,4) n(4) by (auto simp: heir_in_def superseded_item_def stream_of_def newer_in_def)
    have "heir_in ?ws (its @ [n]) x" if "x \<in> set its" for x
    proof (cases "x = ?u")
      case False
      then have "x \<in> set (items db)" using that its by (auto simp: in_replace)
      then have "heir_in ?ws (items db) x" using parts(3) by (simp add: list_all_iff)
      then show ?thesis unfolding its by (intro heir_append heir_replace[OF key])
    qed (use hu in simp)
    moreover have "pairs_inv its (attempts db)" unfolding its
      by (rule pairs_inv_unclaimed[OF parts(5) claims_named[OF core] un]) (simp add: superseded_item_def un)
    ultimately show ?thesis using inv' key by (simp add: its list_all_iff same_key_def)
  qed
  have obs: "observed_in ?ws n" using 3(1-3) by (auto simp: observed_in_def)
  have app: "items_inv ?ws ?ss (its @ [n])" unfolding items_inv_def
  proof (intro conjI)
    show "one_per_stream repositoryExtractionWorkPending (its @ [n])"
      by (rule one_append) (use its clash(3) in \<open>auto simp: items_inv_def\<close>)
    show "one_per_stream repositoryExtractionWorkRunning (its @ [n])"
      by (rule one_append) (use its n(1) in \<open>auto simp: items_inv_def\<close>)
    have new: "wi_work_item_id n \<notin> wi_work_item_id ` set its" using clash(1) by force
    have "distinct (map wi_work_item_id its)" using its by (auto simp only: items_inv_def)
    with new show "distinct (map wi_work_item_id (its @ [n]))" by simp
    have "(wi_observation_id n, wi_extractor_name n) \<notin> (\<lambda>w. (wi_observation_id w, wi_extractor_name w)) ` set its"
      using clash(2) by force
    moreover have "distinct (map (\<lambda>w. (wi_observation_id w, wi_extractor_name w)) its)"
      using its by (auto simp only: items_inv_def)
    ultimately show "distinct (map (\<lambda>w. (wi_observation_id w, wi_extractor_name w)) (its @ [n]))" by simp
  qed (use its nok obs n(4) in \<open>simp_all add: items_inv_def stream_of_def\<close>)
  let ?db = "?e\<lparr>items := its @ [n]\<rparr>"
  have ids: "set (map wi_work_item_id (items db)) \<subseteq> set (map wi_work_item_id (its @ [n]))"
    using its by (metis map_append set_append Un_upper1)
  have "list_all (heir_in ?ws (its @ [n])) (its @ [n])" using its n(2) by (simp add: heir_in_def)
  moreover have "attempts_inv ts (set (map wi_work_item_id (its @ [n]))) (attempts db)"
    using attempts_inv_ids[OF core_parts(4)[OF core] ids] .
  ultimately have c: "core_inv ts ?db" unfolding core_inv_def
    using parts(1,6,7) app its pairs_inv_append_item[OF _ n(3)] by simp
  have r: "requests_inv ?db" by (rule requests_grow[OF req]) (use ids in \<open>simp_all add: attempts_grow_refl del: set_map\<close>)
  have db': "db' = ?db\<lparr>schedule_requests := schedule_requests ?db @ [q]\<rparr>" using 3(12) by simp
  have "requests_inv db'" unfolding db' by (rule requests_add(1)[OF r]) (use 3(10,11) in simp_all)
  then show ?thesis using c by (simp add: kept_def work_inv_def db' attempts_grow_refl)
qed

lemma grown_window:
  assumes "windows_grow db db'" "v \<in> set (windows db)"
  shows "\<exists>v'\<in>set (windows db'). gw_id v' = gw_id v \<and> gw_repoID v' = gw_repoID v \<and> gw_number v' = gw_number v"
proof -
  let ?k = "\<lambda>v. (gw_id v, gw_repoID v, gw_number v, gw_inspection v)"
  from assms(1) obtain ws where "map ?k (windows db') = map ?k (windows db @ ws)" unfolding windows_grow_def by blast
  then have "?k v \<in> set (map ?k (windows db'))" using assms(2) by simp
  then show ?thesis by auto
qed

lemma grown_windows_inv:
  assumes g: "windows_grow db db'" and inv: "windows_inv (windows db)"
  shows "windows_inv (windows db')"
proof -
  let ?k = "\<lambda>v. (gw_id v, gw_repoID v, gw_number v, gw_inspection v)"
  from g obtain ws where ws: "map ?k (windows db') = map ?k (windows db @ ws)"
    "ws = [] \<or> (\<exists>w. ws = [w] \<and> (\<forall>u\<in>set (windows db). gw_id u \<noteq> gw_id w \<and>
      (gw_repoID u = gw_repoID w \<longrightarrow> gw_number u < gw_number w)))" unfolding windows_grow_def by blast
  have "map gw_id (windows db') = map gw_id (windows db @ ws)"
    using arg_cong[OF ws(1), of "map fst"] by (simp add: comp_def)
  moreover have "map (\<lambda>v. (gw_repoID v, gw_number v)) (windows db') = map (\<lambda>v. (gw_repoID v, gw_number v)) (windows db @ ws)"
    using arg_cong[OF ws(1), of "map (\<lambda>k. (fst (snd k), fst (snd (snd k))))"] by (simp add: comp_def)
  moreover have "windows_inv (windows db @ ws)" using ws(2) inv by (auto simp: windows_inv_def)
  ultimately show ?thesis by (simp add: windows_inv_def)
qed

lemma newer_grow: "windows_grow db db' \<Longrightarrow> newer_in (windows db) h w \<Longrightarrow> newer_in (windows db') h w"
proof -
  assume g: "windows_grow db db'" and "newer_in (windows db) h w"
  then obtain v x where v: "v \<in> set (windows db)" "x \<in> set (windows db)" "gw_id v = wi_observation_id w"
    "gw_id x = wi_observation_id h" "gw_number v < gw_number x" unfolding newer_in_def by blast
  obtain v' x' where "v' \<in> set (windows db')" "gw_id v' = gw_id v" "gw_number v' = gw_number v"
    "x' \<in> set (windows db')" "gw_id x' = gw_id x" "gw_number x' = gw_number x"
    using grown_window[OF g v(1)] grown_window[OF g v(2)] by blast
  with v(3-5) show ?thesis unfolding newer_in_def by (metis (no_types))
qed

lemma observe_kept:
  assumes run: "recordGitRepositoryChangeObservation ts input now db = Inr (r, db')" and inv: "work_inv ts db"
  shows "kept ts db db'"
proof -
  obtain gs ws qs where g: "windows_grow db db'"
    and db': "db' = db\<lparr>git_streams := gs, windows := ws, observation_requests := qs\<rparr>"
    by (rule observe_cases[OF run])
  have core: "core_inv ts db" and req: "requests_inv db" using inv by (simp_all add: work_inv_def)
  have same: "items db' = items db" "attempts db' = attempts db" "streams db' = streams db"
    "policy_decisions db' = policy_decisions db" "consumptions db' = consumptions db" by (simp_all add: db')
  have ob: "observed_in (windows db') w" if "observed_in (windows db) w" for w
    using that grown_window[OF g] unfolding observed_in_def by metis
  have "heir_in (windows db') is w" if "heir_in (windows db) is w" for "is" w
    using that newer_grow[OF g] unfolding heir_in_def by blast
  moreover have "items_inv (windows db') (set (streams db)) (items db)"
    using core_parts(2)[OF core] ob by (auto simp: items_inv_def list_all_iff)
  ultimately have "core_inv ts db'" using core_parts[OF core] grown_windows_inv[OF g]
    by (auto simp: core_inv_def same list_all_iff)
  moreover have "requests_inv db'" using req by (simp add: requests_inv_def db')
  ultimately show ?thesis by (simp add: kept_def work_inv_def same attempts_grow_refl)
qed

section \<open>Steps and reachable tables\<close>

text \<open>
  A step is a successful operation: a failed one is rolled back.  The instants are those of any clock,
  and other operations of the package record source generations.
\<close>

inductive work_step :: "(time \<Rightarrow> time) \<Rightarrow> workDB \<Rightarrow> workDB \<Rightarrow> bool" for ts where
  observe: "recordGitRepositoryChangeObservation ts oi now db = Inr (o_r, db') \<Longrightarrow> work_step ts db db'"
| schedule: "scheduleRepositoryExtractionWork si db = Inr (s_r, db') \<Longrightarrow> work_step ts db db'"
| claim: "claimRepositoryExtractionWork ts ci now db = Inr (c_r, db') \<Longrightarrow> work_step ts db db'"
| renew: "renewRepositoryExtractionWorkLease ts ni now db = Inr (n_r, db') \<Longrightarrow> work_step ts db db'"
| finish: "finishRepositoryExtractionWork ts fi now db = Inr (f_r, db') \<Longrightarrow> work_step ts db db'"
| recover: "recoverExpiredRepositoryExtractionWork ts ri now db = Inr (r_r, db') \<Longrightarrow> work_step ts db db'"
| classify: "classifyFailedRepositoryExtractionWork ts pi now db = Inr (p_r, db') \<Longrightarrow> work_step ts db db'"
| retry: "retryFailedRepositoryExtractionWork ts ti now db = Inr (t_r, db') \<Longrightarrow> work_step ts db db'"
| consume: "consumeDueRepositoryExtractionWorkRetryDecision ts di now db = Inr (d_r, db') \<Longrightarrow> work_step ts db db'"
| generation: "\<forall>h\<in>set (generations db). sg_ID h \<noteq> sg_ID g \<Longrightarrow>
    work_step ts db (db\<lparr>generations := generations db @ [g]\<rparr>)"

inductive work_steps :: "(time \<Rightarrow> time) \<Rightarrow> workDB \<Rightarrow> workDB \<Rightarrow> bool" for ts where
  none: "work_steps ts db db"
| more: "work_steps ts db db' \<Longrightarrow> work_step ts db' db'' \<Longrightarrow> work_steps ts db db''"

definition work_reachable :: "(time \<Rightarrow> time) \<Rightarrow> workDB \<Rightarrow> bool" where
  "work_reachable ts db \<longleftrightarrow> work_steps ts empty_db db"

lemma work_step_kept:
  assumes "work_step ts db db'" "work_inv ts db" "timestamp_column ts"
  shows "kept ts db db'"
  using assms
proof (cases rule: work_step.cases)
  case (generation g)
  then show ?thesis using assms(2)
    by (simp add: kept_def work_inv_def core_inv_def requests_inv_def attempts_grow_refl)
next
  case observe
  then show ?thesis using assms(2) by (intro observe_kept)
next
  case schedule
  then show ?thesis using assms(2) by (intro schedule_kept)
next
  case claim
  then show ?thesis using assms(2,3) by (intro claim_kept)
next
  case renew
  then show ?thesis using assms(2,3) by (intro renew_kept)
next
  case finish
  then show ?thesis using assms(2,3) by (intro finish_kept)
next
  case recover
  then show ?thesis using assms(2,3) by (intro recover_kept)
next
  case classify
  then show ?thesis using assms(2,3) by (intro classify_kept)
next
  case retry
  then show ?thesis using assms(2,3) by (intro retry_kept)
next
  case consume
  then show ?thesis using assms(2,3) by (intro consume_kept)
qed

lemma work_steps_kept:
  assumes "work_steps ts db db'" "work_inv ts db" "timestamp_column ts"
  shows "kept ts db db'"
  using assms
proof (induction rule: work_steps.induct)
  case (more db db' db'')
  then have "kept ts db db'" by simp
  moreover have "kept ts db' db''"
    using work_step_kept[OF more.hyps(2)] calculation more.prems(2) by (simp add: kept_def)
  ultimately show ?case using attempts_grow_trans by (auto simp: kept_def)
qed (rule kept_refl)

lemma work_reachable_inv: "work_reachable ts db \<Longrightarrow> timestamp_column ts \<Longrightarrow> work_inv ts db"
  using work_steps_kept[OF _ work_inv_empty] by (auto simp: work_reachable_def kept_def)

lemma reachable_steps: "work_reachable ts db \<Longrightarrow> work_steps ts db db' \<Longrightarrow> work_reachable ts db'"
  unfolding work_reachable_def
proof (rotate_tac, induction rule: work_steps.induct)
  case (more db db' db'')
  then show ?case using work_steps.more by blast
qed

end
