(* ===== verification/WorkExample.thy ===== *)
theory WorkExample
  imports WorkPreserve
begin

text \<open>
  A run of the operations from empty tables, with instants in milliseconds and the column at
  microseconds: a clean inspection is observed twice, its work scheduled and claimed, the claim fails,
  the failure is classified and its retry consumed when due.  The properties are instantiated on it.
  The identities are hashes, which nothing here needs to compute.
\<close>

section \<open>Inputs\<close>

definition commit_a :: string where
  "commit_a = replicate 40 (CHR ''a'')"

definition token_a :: string where
  "token_a = gitRepositoryChangeToken ''repo'' commit_a []"

definition clean_a :: GitRepositoryChangeInspection where
  "clean_a = \<lparr>gi_TokenContract = GitRepositoryChangeTokenV1, gi_DirtyFingerprintContract = GitRepositoryDirtyFingerprintV1,
    gi_RepoID = ''repo'', gi_HeadCommitSHA = commit_a, gi_Dirty = False, gi_DirtyFingerprint = [],
    gi_TrackedChangeCount = 0, gi_UntrackedFileCount = 0, gi_ChangeToken = token_a\<rparr>"

definition observe_in :: "string \<Rightarrow> gitRepositoryChangeObservationInput" where
  "observe_in k = \<lparr>gc_RequestID = k, gc_StabilityWindow = Millisecond, gc_Inspection = clean_a\<rparr>"

definition schedule_in :: RepositoryExtractionWorkScheduleInput where
  "schedule_in = \<lparr>si_RequestID = ''s1'', si_ObservationRequestID = ''o2'',
    si_ExtractorName = ExtractorRepositoryGoParserCodeFact\<rparr>"

definition claim_in :: RepositoryExtractionWorkClaimInput where
  "claim_in = \<lparr>ci_RequestID = ''c1'', ci_RepoID = ''repo'', ci_ExtractorName = ExtractorRepositoryGoParserCodeFact,
    ci_WorkerID = ''worker'', ci_LeaseDurationMilliseconds = 10\<rparr>"

definition obs_a :: string where
  "obs_a = observation_id ''repo'' 1 token_a"

definition work_a :: string where
  "work_a = stableID work_prefix ''repository_extraction_work''
    (JObj [(''change_observation_id'', JStr obs_a), (''extractor_name'', JStr ExtractorRepositoryGoParserCodeFact)])"

definition claim_a :: string where
  "claim_a = claim_id ''c1'' work_a ''worker''"

definition renew_in :: RepositoryExtractionWorkLeaseRenewalInput where
  "renew_in = \<lparr>ni_RequestID = ''n1'', ni_WorkItemID = work_a, ni_ClaimID = claim_a, ni_WorkerID = ''worker'',
    ni_LeaseDurationMilliseconds = 20\<rparr>"

definition fail_in :: RepositoryExtractionWorkFinishInput where
  "fail_in = \<lparr>fi_RequestID = ''f1'', fi_WorkItemID = work_a, fi_ClaimID = claim_a, fi_WorkerID = ''worker'',
    fi_Outcome = RepositoryExtractionWorkOutcomeFailed, fi_SourceGenerationID = [],
    fi_FailureClass = ErrorRunnerInvocationFailed, fi_FailureMessage = ''exit''\<rparr>"

definition recover_in :: RepositoryExtractionWorkRecoveryInput where
  "recover_in = \<lparr>ri_RequestID = ''r1'', ri_WorkItemID = work_a, ri_ClaimID = claim_a, ri_RecoveryActorID = ''actor''\<rparr>"

definition classify_in :: RepositoryExtractionWorkFailurePolicyInput where
  "classify_in = \<lparr>pi_RequestID = ''p1'', pi_WorkItemID = work_a, pi_ClaimID = claim_a, pi_DecisionActorID = ''actor''\<rparr>"

definition consume_in :: RepositoryExtractionWorkRetryDecisionConsumptionInput where
  "consume_in = \<lparr>di_RequestID = ''d1'', di_FailurePolicyRequestID = ''p1'', di_WorkItemID = work_a,
    di_ClaimID = claim_a, di_ConsumerActorID = ''actor''\<rparr>"

section \<open>Tables\<close>

definition window_a :: "int \<Rightarrow> gitRepositoryChangeWindow" where
  "window_a n = \<lparr>gw_id = obs_a, gw_repoID = ''repo'', gw_number = 1, gw_previousObservationID = [],
    gw_inspection = clean_a, gw_firstObservedAt = Millisecond, gw_lastObservedAt = n * Millisecond,
    gw_observationCount = n\<rparr>"

definition observed_request :: "string \<Rightarrow> int \<Rightarrow> changeObservationRequest" where
  "observed_request k n = \<lparr>oq_request_id = k, oq_observation_id = obs_a, oq_repo_id = ''repo'',
    oq_payload_hash = gitRepositoryChangeObservationPayloadHash clean_a Millisecond,
    oq_observed_at = n * Millisecond, oq_window_milliseconds = 1, oq_observation_count = n,
    oq_changed = (n = 1), oq_coalesced = (n \<noteq> 1), oq_stable_after = 2 * Millisecond, oq_stable = (n = 2)\<rparr>"

definition db1 :: workDB where
  "db1 = empty_db\<lparr>git_streams := [''repo''], windows := [window_a 1], observation_requests := [observed_request ''o1'' 1]\<rparr>"

definition db2 :: workDB where
  "db2 = db1\<lparr>windows := [window_a 2], observation_requests := [observed_request ''o1'' 1, observed_request ''o2'' 2]\<rparr>"

definition item_a :: workItem where
  "item_a = \<lparr>wi_work_item_id = work_a, wi_repo_id = ''repo'', wi_extractor_name = ExtractorRepositoryGoParserCodeFact,
    wi_observation_id = obs_a, wi_status = repositoryExtractionWorkPending, wi_superseded_by = [], wi_claim_id = [],
    wi_claimed_by = [], wi_claimed_at = None, wi_source_generation_id = [], wi_finished_at = None,
    wi_failure_class = [], wi_failure_message = []\<rparr>"

definition scheduled :: workDB where
  "scheduled = db2\<lparr>streams := [(''repo'', ExtractorRepositoryGoParserCodeFact)], items := [item_a],
    schedule_requests := [\<lparr>sq_request_id = ''s1'', sq_observation_request_id = ''o2'', sq_work_item_id = work_a,
      sq_superseded_work_item_id = [],
      sq_payload_hash = repositoryExtractionWorkSchedulePayloadHash ''o2'' ExtractorRepositoryGoParserCodeFact,
      sq_created = True, sq_coalesced = False\<rparr>]\<rparr>"

definition attempt_a :: "time \<Rightarrow> repositoryExtractionWorkClaimAttempt" where
  "attempt_a expires = \<lparr>ca_claimID = claim_a, ca_workItemID = work_a, ca_attemptNumber = 1, ca_workerID = ''worker'',
    ca_status = repositoryExtractionWorkRunning, ca_claimedAt = 3 * Millisecond, ca_leaseDurationMilliseconds = 10,
    ca_leaseExpiresAt = expires, ca_finishedAt = None, ca_expiredAt = None, ca_sourceGenerationID = [],
    ca_failureClass = [], ca_failureMessage = []\<rparr>"

definition claimed :: workDB where
  "claimed = scheduled\<lparr>items := [claimed_item claim_a ''worker'' (3 * Millisecond) item_a],
    attempts := [attempt_a (13 * Millisecond)],
    claim_requests := [\<lparr>cq_request_id = ''c1'', cq_repo_id = ''repo'',
      cq_extractor_name = ExtractorRepositoryGoParserCodeFact, cq_worker_id = ''worker'', cq_work_item_id = work_a,
      cq_claim_id = claim_a, cq_claimed_at = Some (3 * Millisecond), cq_claimed = True,
      cq_payload_hash = repositoryExtractionWorkClaimPayloadHash ''repo'' ExtractorRepositoryGoParserCodeFact
        ''worker'' 10\<rparr>]\<rparr>"

section \<open>The steps\<close>

text \<open>An identity has no space around it, and starts with its prefix.\<close>

lemma trim_hashed:
  assumes "p \<noteq> []" "solid (hd p)"
  shows "trim_space (p @ sha256_hex s) = p @ sha256_hex s"
proof (rule trim_space_solid)
  have ne: "sha256_hex s \<noteq> []" using length_sha256_hex[of s] by (metis list.size(3) zero_neq_numeral)
  then show "solid (last (p @ sha256_hex s))" using solid_sha256_hex last_in_set by (metis last_append)
qed (use assms in simp_all)

lemma ids_a [simp]:
  "trim_space work_a = work_a" "trim_space claim_a = claim_a" "has_prefix work_a work_prefix"
  "has_prefix claim_a claim_prefix" "work_a \<noteq> []" "claim_a \<noteq> []"
  unfolding work_a_def claim_a_def claim_id_def stableID_def
  by (simp_all add: trim_hashed solid_def has_prefix_append del: append.simps)

lemma validate_a: "validateGitRepositoryChangeInspection clean_a = Inr clean_a"
proof -
  have "isCanonicalGitObjectID commit_a"
    by (simp add: isCanonicalGitObjectID_def commit_a_def lower_hex_def list_all_iff)
  then show ?thesis
    by (simp add: validateGitRepositoryChangeInspection_def Let_def clean_a_def trim_space_solid solid_def token_a_def)
qed

lemma clean_a_simps [simp]:
  "gi_RepoID clean_a = ''repo''" "gi_ChangeToken clean_a = token_a" "gi_TrackedChangeCount clean_a = 0"
  "gi_UntrackedFileCount clean_a = 0" "gi_Dirty clean_a = False" "gi_HeadCommitSHA clean_a = commit_a"
  "clean_a\<lparr>gi_RepoID := ''repo''\<rparr> = clean_a"
  by (simp_all add: clean_a_def)

lemmas observe_defs = recordGitRepositoryChangeObservation_def observe_in_def advance_window_def record_request_def
  validateGitRepositoryChangeObservationRequest_def GitRepositoryChangeMaxStabilityWindow_def
  ensureAndLockGitRepositorySourceStream_def readGitRepositoryChangeObservationRequest_def
  readLatestGitRepositoryChangeWindow_def insertGitRepositoryChangeWindow_def validate_a trim_space_solid solid_def
  is_zero_time_def row_def insert_row_def int4_def microseconds_def Let_def obs_a_def window_a_def
  observed_request_def

lemma observe_1: "\<exists>r. recordGitRepositoryChangeObservation microseconds (observe_in ''o1'') Millisecond empty_db = Inr (r, db1)"
  by (simp add: observe_defs db1_def empty_db_def)

lemma observe_2: "\<exists>r. recordGitRepositoryChangeObservation microseconds (observe_in ''o2'') (2 * Millisecond) db1 = Inr (r, db2)"
  by (simp add: observe_defs db1_def db2_def empty_db_def update_rows_def scanGitRepositoryChangeWindow_def wrap64_def)

lemmas read_defs = select_work_def scanRepositoryExtractionWork_def readRepositoryExtractionWorkByID_def
  readPendingRepositoryExtractionWork_def hasRunningRepositoryExtractionWork_def
  readRepositoryExtractionWorkByObservation_def lockRepositorySourceStreamForWork_def lockRepositorySourceStream_def
  readRepositoryExtractionWorkClaimAttempt_def the_row_def row_def insert_row_def is_zero_time_def Let_def
  trim_space_solid solid_def actor_ok_def lease_ok_def RepositoryExtractionWorkMinLeaseMilliseconds_def
  RepositoryExtractionWorkMaxLeaseMilliseconds_def microseconds_def update_rows_def rows_affected_def
  update_one_item_def update_one_attempt_def

lemmas table_defs = db1_def db2_def empty_db_def scheduled_def item_a_def window_a_def observed_request_def

lemma schedule_1: "\<exists>r. scheduleRepositoryExtractionWork schedule_in db2 = Inr (r, scheduled)"
  by (simp add: scheduleRepositoryExtractionWork_def schedule_in_def validateRepositoryExtractionWorkScheduleInput_def
    validateRepositoryExtractionWorkExtractor_def readRepositoryExtractionWorkScheduleRequest_def
    readGitRepositoryChangeObservationRequest_def lockGitRepositorySourceStream_def
    ensureAndLockRepositorySourceStream_def readLatestGitRepositoryChangeWindow_def scanGitRepositoryChangeWindow_def
    create_work_def newRepositoryExtractionWork_def supersede_pending_def new_item_def
    persistRepositoryExtractionWorkScheduleRequest_def read_defs table_defs work_a_def)

lemma claim_1: "\<exists>r. claimRepositoryExtractionWork microseconds claim_in (3 * Millisecond) scheduled = Inr (r, claimed) \<and> cr_Claimed r"
  by (simp add: claimRepositoryExtractionWork_def claim_in_def validateRepositoryExtractionWorkClaimInput_def
    validateRepositoryExtractionWorkExtractor_def readRepositoryExtractionWorkClaimRequest_def
    ensureAndLockRepositorySourceStream_def start_attempt_def nextRepositoryExtractionWorkClaimAttemptNumber_def int4_def
    persistRepositoryExtractionWorkClaimAttempt_def persistRepositoryExtractionWorkClaimRequest_def read_defs table_defs
    claimed_def claimed_item_def attempt_a_def claim_a_def)

text \<open>Three continuations: the lease is extended, it expires, or the worker fails.\<close>

definition renewed :: workDB where
  "renewed = claimed\<lparr>attempts := [attempt_a (24 * Millisecond)],
    renewal_requests := [\<lparr>nq_request_id = ''n1'', nq_work_item_id = work_a, nq_claim_id = claim_a,
      nq_worker_id = ''worker'', nq_lease_milliseconds = 20, nq_prior_lease_expires_at = 13 * Millisecond,
      nq_renewed_at = 4 * Millisecond, nq_lease_expires_at = 24 * Millisecond,
      nq_payload_hash = repositoryExtractionWorkLeaseRenewalPayloadHash renew_in\<rparr>]\<rparr>"

definition recovered :: workDB where
  "recovered = claimed\<lparr>items := [item_a],
    attempts := [(attempt_a (13 * Millisecond))\<lparr>ca_status := repositoryExtractionWorkExpired,
      ca_expiredAt := Some (13 * Millisecond)\<rparr>],
    recovery_requests := [\<lparr>rq_request_id = ''r1'', rq_work_item_id = work_a, rq_claim_id = claim_a,
      rq_actor_id = ''actor'', rq_disposition = DispositionRequeued, rq_superseded_by = [],
      rq_at = 13 * Millisecond, rq_payload_hash = repositoryExtractionWorkRecoveryPayloadHash recover_in\<rparr>]\<rparr>"

definition failed :: workDB where
  "failed = claimed\<lparr>
    items := [finished_item microseconds fail_in (5 * Millisecond) (claimed_item claim_a ''worker'' (3 * Millisecond) item_a)],
    attempts := [finished_attempt microseconds fail_in (5 * Millisecond) (attempt_a (13 * Millisecond))],
    finish_requests := [\<lparr>fq_request_id = ''f1'', fq_work_item_id = work_a, fq_claim_id = claim_a,
      fq_worker_id = ''worker'', fq_outcome = RepositoryExtractionWorkOutcomeFailed,
      fq_payload_hash = repositoryExtractionWorkFinishPayloadHash fail_in\<rparr>]\<rparr>"

definition classified :: workDB where
  "classified = failed\<lparr>policy_decisions := [\<lparr>pd_request_id = ''p1'', pd_work_item_id = work_a, pd_claim_id = claim_a,
    pd_actor_id = ''actor'', pd_policy_version = RepositoryExtractionWorkFailurePolicyV1,
    pd_failure_class = ErrorRunnerInvocationFailed, pd_attempt_number = 1, pd_decision = FailureDecisionRetry,
    pd_decision_reason = FailureReasonRetryable, pd_max_attempts = 3, pd_backoff_milliseconds = 5000,
    pd_retry_not_before = Some (5006 * Millisecond), pd_decided_at = 6 * Millisecond,
    pd_payload_hash = repositoryExtractionWorkFailurePolicyPayloadHash classify_in\<rparr>]\<rparr>"

definition consumed :: workDB where
  "consumed = classified\<lparr>items := [item_a], consumptions := [\<lparr>dc_request_id = ''d1'', dc_policy_request_id = ''p1'',
    dc_work_item_id = work_a, dc_claim_id = claim_a, dc_actor_id = ''actor'', dc_policy_decision = FailureDecisionRetry,
    dc_retry_not_before = 5006 * Millisecond, dc_disposition = DispositionRequeued, dc_superseded_by = [],
    dc_consumed_at = 5006 * Millisecond,
    dc_payload_hash = repositoryExtractionWorkRetryDecisionConsumptionPayloadHash consume_in\<rparr>]\<rparr>"

lemmas state_defs = table_defs claimed_def claimed_item_def attempt_a_def

lemma renew_1: "\<exists>r. renewRepositoryExtractionWorkLease microseconds renew_in (4 * Millisecond) claimed = Inr (r, renewed)"
  by (simp add: renewRepositoryExtractionWorkLease_def renew_in_def validateRepositoryExtractionWorkLeaseRenewalInput_def
    readRepositoryExtractionWorkLeaseRenewalRequest_def persistRepositoryExtractionWorkLeaseRenewalRequest_def
    renewal_row_ok_def read_defs state_defs renewed_def)

lemma recover_1: "\<exists>r. recoverExpiredRepositoryExtractionWork microseconds recover_in (13 * Millisecond) claimed = Inr (r, recovered)"
  by (simp add: recoverExpiredRepositoryExtractionWork_def recover_in_def validateRepositoryExtractionWorkRecoveryInput_def
    readRepositoryExtractionWorkRecoveryRequest_def recoverExpiredRepositoryExtractionWorkLocked_def release_status_def
    expireRepositoryExtractionWorkClaimAttempt_def running_attempt_row_def release_item_def
    persistRepositoryExtractionWorkRecoveryRequest_def read_defs state_defs recovered_def)

lemma fail_1: "\<exists>r. finishRepositoryExtractionWork microseconds fail_in (5 * Millisecond) claimed = Inr (r, failed)"
  by (simp add: finishRepositoryExtractionWork_def fail_in_def validateRepositoryExtractionWorkFinishInput_def
    readRepositoryExtractionWorkFinishRequest_def check_outcome_def finishRepositoryExtractionWorkClaimAttempt_def
    running_attempt_row_def persistRepositoryExtractionWorkFinishRequest_def read_defs state_defs failed_def
    finished_item_def finished_attempt_def)

lemmas policy_defs = decideRepositoryExtractionWorkFailurePolicy_def retryable_kinds_def repair_kinds_def
  RepositoryExtractionWorkFailurePolicyMaxAttempts_def repositoryExtractionWorkFailurePolicyBaseBackoff_def

lemma classify_1: "\<exists>r. classifyFailedRepositoryExtractionWork microseconds classify_in (6 * Millisecond) failed = Inr (r, classified)"
  by (simp add: classifyFailedRepositoryExtractionWork_def classify_in_def validateRepositoryExtractionWorkFailurePolicyInput_def
    readRepositoryExtractionWorkFailurePolicyDecision_def failed_attempt_def
    persistRepositoryExtractionWorkFailurePolicyDecision_def read_defs state_defs failed_def classified_def
    finished_item_def finished_attempt_def fail_in_def policy_defs)

lemma consume_1: "\<exists>r. consumeDueRepositoryExtractionWorkRetryDecision microseconds consume_in (5006 * Millisecond) classified = Inr (r, consumed)"
  by (simp add: consumeDueRepositoryExtractionWorkRetryDecision_def consume_in_def
    validateRepositoryExtractionWorkRetryDecisionConsumptionInput_def readRepositoryExtractionWorkRetryDecisionConsumption_def
    readRepositoryExtractionWorkFailurePolicyDecision_def failed_attempt_def retryFailedRepositoryExtractionWorkLocked_def
    release_status_def release_item_def persistRepositoryExtractionWorkRetryDecisionConsumption_def
    read_defs state_defs failed_def classified_def consumed_def finished_item_def finished_attempt_def fail_in_def policy_defs)

section \<open>The run is reachable\<close>

lemma reach_step: "work_reachable ts db \<Longrightarrow> work_step ts db db' \<Longrightarrow> work_reachable ts db'"
  unfolding work_reachable_def by (rule work_steps.more)

lemma reach_db2: "work_reachable microseconds db2"
proof -
  have "work_reachable microseconds empty_db" unfolding work_reachable_def by (rule work_steps.none)
  then show ?thesis using observe_1 observe_2 work_step.observe reach_step by blast
qed

lemma reach_claimed: "work_reachable microseconds claimed"
proof -
  obtain r where "scheduleRepositoryExtractionWork schedule_in db2 = Inr (r, scheduled)" using schedule_1 ..
  then have s: "work_reachable microseconds scheduled" by (rule reach_step[OF reach_db2 work_step.schedule])
  obtain r where "claimRepositoryExtractionWork microseconds claim_in (3 * Millisecond) scheduled = Inr (r, claimed)"
    using claim_1 by blast
  then show ?thesis by (rule reach_step[OF s work_step.claim])
qed

lemma step_renewed: "work_step microseconds claimed renewed"
  using renew_1 work_step.renew by blast

lemma step_recovered: "work_step microseconds claimed recovered"
  using recover_1 work_step.recover by blast

lemma reach_failed: "work_reachable microseconds failed"
  using reach_claimed fail_1 work_step.finish reach_step by blast

lemma steps_consumed: "work_steps microseconds failed consumed"
proof -
  obtain r where "classifyFailedRepositoryExtractionWork microseconds classify_in (6 * Millisecond) failed = Inr (r, classified)"
    using classify_1 ..
  then have c: "work_steps microseconds failed classified"
    by (rule work_steps.more[OF work_steps.none work_step.classify])
  obtain r where
    "consumeDueRepositoryExtractionWorkRetryDecision microseconds consume_in (5006 * Millisecond) classified = Inr (r, consumed)"
    using consume_1 ..
  then show ?thesis by (rule work_steps.more[OF c work_step.consume])
qed

end
