(* ===== verification/WorkProperties.thy ===== *)
theory WorkProperties
  imports WorkExample
begin

text \<open>
  The properties of extraction work over every reachable state of its tables, with the witnesses that
  instantiate them on the run of \<open>WorkExample\<close>.
\<close>

section \<open>What every reachable state satisfies\<close>

text \<open>C35. The rows that the operations write satisfy the row states of the schema: a status comes with
  exactly the columns that belong to it, a finish lies inside the lease, an expiry at or after it.\<close>

theorem work_rows_typed:
  assumes "work_reachable ts db" and "timestamp_column ts"
  shows "list_all item_state_ok (items db) \<and> list_all (attempt_state_ok ts) (attempts db)"
  using work_reachable_inv[OF assms] by (simp add: work_inv_def core_inv_def items_inv_def attempts_inv_def)

theorem work_rows_typed_witness:
  "list_all item_state_ok (items failed) \<and> list_all (attempt_state_ok microseconds) (attempts failed)"
  by (rule work_rows_typed[OF reach_failed timestamp_microseconds])

lemma backs_running: "backs a w \<Longrightarrow> w \<in> set (items db) \<Longrightarrow> a \<in> set (attempts db) \<Longrightarrow>
  ca_status a = repositoryExtractionWorkRunning \<Longrightarrow> running_pair db w a"
  by (simp add: backs_def running_pair_def)

lemma pair_unique:
  assumes "core_inv ts db" "running_pair db w a" "running_pair db w' a'"
  shows "w = w' \<longleftrightarrow> a = a'"
proof -
  have k: "keys_ok db" using assms(1) by (simp add: core_inv_def items_inv_def attempts_inv_def keys_ok_def)
  show ?thesis using assms(2,3) same_item[OF k, of w w'] same_attempt[OF k, of a a'] by (auto simp: running_pair_def)
qed

text \<open>C1. A running item and a running attempt stand for each other, a stream has at most one running and
  at most one pending item, and the attempts of an item are numbered from 1 in the order of its claims.\<close>

theorem running_claims_consistent:
  assumes "work_reachable ts db" and "timestamp_column ts"
  shows "(\<forall>w\<in>set (items db). wi_status w = repositoryExtractionWorkRunning \<longrightarrow> (\<exists>!a. running_pair db w a)) \<and>
    (\<forall>a\<in>set (attempts db). ca_status a = repositoryExtractionWorkRunning \<longrightarrow> (\<exists>!w. running_pair db w a)) \<and>
    one_per_stream repositoryExtractionWorkRunning (items db) \<and> one_per_stream repositoryExtractionWorkPending (items db) \<and>
    (\<forall>i. attempt_numbers i (attempts db) = map int [1..<Suc (length (attempt_numbers i (attempts db)))])"
proof -
  have inv: "core_inv ts db" using work_reachable_inv[OF assms] by (simp add: work_inv_def)
  note parts = core_parts[OF inv]
  have one: "\<exists>a. running_pair db w a" if w: "w \<in> set (items db)" and st: "wi_status w = repositoryExtractionWorkRunning" for w
  proof -
    have "wi_claim_id w \<noteq> []" using item_ok[OF inv w] st by (auto simp: item_state_ok_def claimed_by_worker_def)
    then obtain a where a: "a \<in> set (attempts db)" "backs a w" using parts(5) w unfolding pairs_inv_def by blast
    then have "ca_status a = repositoryExtractionWorkRunning" using st by (simp add: backs_def)
    then show ?thesis using backs_running[OF a(2) w a(1)] by blast
  qed
  have two: "\<exists>w. running_pair db w a" if "a \<in> set (attempts db)" "ca_status a = repositoryExtractionWorkRunning" for a
    using parts(5) that backs_running unfolding pairs_inv_def by blast
  have "one_per_stream repositoryExtractionWorkRunning (items db)" "one_per_stream repositoryExtractionWorkPending (items db)"
    using parts(2) by (simp_all add: items_inv_def)
  moreover have "\<forall>i. attempt_numbers i (attempts db) = map int [1..<Suc (length (attempt_numbers i (attempts db)))]"
    using parts(4) by (simp add: attempts_inv_def numbered_def)
  moreover have "\<exists>!a. running_pair db w a" if "w \<in> set (items db)" "wi_status w = repositoryExtractionWorkRunning" for w
    using one[OF that] pair_unique[OF inv] by metis
  moreover have "\<exists>!w. running_pair db w a" if "a \<in> set (attempts db)" "ca_status a = repositoryExtractionWorkRunning" for a
    using two[OF that] pair_unique[OF inv] by metis
  ultimately show ?thesis by blast
qed

theorem running_claims_consistent_witness:
  "(\<exists>!a. running_pair claimed (claimed_item claim_a ''worker'' (3 * Millisecond) item_a) a)"
proof -
  have "claimed_item claim_a ''worker'' (3 * Millisecond) item_a \<in> set (items claimed)"
    "wi_status (claimed_item claim_a ''worker'' (3 * Millisecond) item_a) = repositoryExtractionWorkRunning"
    by (simp_all add: claimed_def claimed_item_def)
  then show ?thesis using running_claims_consistent[OF reach_claimed timestamp_microseconds] by blast
qed

text \<open>C34. The history of claims is append-only: whatever happens later, an attempt keeps its identity,
  number, worker, work and instant of claim, its lease is only ever extended, and an attempt that
  succeeded, failed or expired is never changed again.\<close>

theorem attempts_final:
  assumes "work_reachable ts db" and "timestamp_column ts" and "work_steps ts db db'" and "a \<in> set (attempts db)"
  shows "\<exists>b\<in>set (attempts db'). later a b"
  using work_steps_kept[OF assms(3) work_reachable_inv[OF assms(1,2)] assms(2)] assms(4)
  by (simp add: kept_def attempts_grow_def)

theorem attempts_final_witness:
  "\<exists>b\<in>set (attempts consumed). later (finished_attempt microseconds fail_in (5 * Millisecond) (attempt_a (13 * Millisecond))) b"
  by (rule attempts_final[OF reach_failed timestamp_microseconds steps_consumed]) (simp add: failed_def)

section \<open>Leases\<close>

lemma lock_work:
  assumes core: "core_inv ts db" and w: "w \<in> set (items db)"
  obtains work where "scanned db w work" "readRepositoryExtractionWorkByID db (wi_work_item_id w) = Inr work"
    "lockRepositorySourceStreamForWork db (wi_work_item_id w) = Inr work"
proof -
  have "\<exists>v\<in>set (windows db). gw_id v = wi_observation_id w"
    using core_parts(2)[OF core] w by (auto simp: items_inv_def list_all_iff observed_in_def)
  then have "row (\<lambda>v. gw_id v = wi_observation_id w) (windows db) \<noteq> None" unfolding row_None by blast
  then have "scanRepositoryExtractionWork db w \<noteq> None" by (simp add: scanRepositoryExtractionWork_def)
  then obtain work where work: "scanRepositoryExtractionWork db w = Some work" by blast
  have "row (\<lambda>x. wi_work_item_id x = wi_work_item_id w) (items db) = Some w"
    using core_parts(2)[OF core] w by (simp add: row_key items_inv_def)
  then have rd: "readRepositoryExtractionWorkByID db (wi_work_item_id w) = Inr work"
    using work by (simp add: readRepositoryExtractionWorkByID_def select_work_def)
  have sc: "scanned db w work" using w work by (simp add: scanned_def)
  have "(wi_repo_id w, wi_extractor_name w) \<in> set (streams db)"
    using core_parts(2)[OF core] w by (auto simp: items_inv_def list_all_iff stream_of_def)
  then have "lockRepositorySourceStreamForWork db (wi_work_item_id w) = Inr work"
    using rd scanned_fields(11,12)[OF sc] by (simp add: lockRepositorySourceStreamForWork_def lockRepositorySourceStream_def)
  with sc rd that show thesis by blast
qed

lemma read_attempt_of:
  assumes "core_inv ts db" "a \<in> set (attempts db)"
  shows "readRepositoryExtractionWorkClaimAttempt db (ca_claimID a) = Inr a"
  using assms row_key[of ca_claimID "attempts db" "ca_claimID a" a]
  by (simp add: readRepositoryExtractionWorkClaimAttempt_def the_row_def core_inv_def attempts_inv_def)

text \<open>Once the lease has expired its worker can neither finish the claim nor extend it: both are
  refused with the error kind of an expired lease, at the very instant of the expiry already.\<close>

theorem expired_lease_refused:
  assumes "work_reachable ts db" and "timestamp_column ts" and p: "running_pair db w a"
    and now: "ca_leaseExpiresAt a \<le> now" "now \<noteq> 0"
    and i: "validateRepositoryExtractionWorkFinishInput fin = Inr i" "fi_WorkItemID i = wi_work_item_id w"
      "fi_ClaimID i = ca_claimID a" "fi_WorkerID i = ca_workerID a"
      "\<forall>q\<in>set (finish_requests db). fq_request_id q \<noteq> fi_RequestID i"
    and j: "validateRepositoryExtractionWorkLeaseRenewalInput ren = Inr (j, d)" "ni_WorkItemID j = wi_work_item_id w"
      "ni_ClaimID j = ca_claimID a" "ni_WorkerID j = ca_workerID a"
      "\<forall>q\<in>set (renewal_requests db). nq_request_id q \<noteq> ni_RequestID j"
  shows "finishRepositoryExtractionWork ts fin now db = Inl (Domain ErrorRepositoryWorkLeaseExpired) \<and>
    renewRepositoryExtractionWorkLease ts ren now db = Inl (Domain ErrorRepositoryWorkLeaseExpired)"
proof -
  have core: "core_inv ts db" using work_reachable_inv[OF assms(1,2)] by (simp add: work_inv_def)
  have w: "w \<in> set (items db)" and a: "a \<in> set (attempts db)" using p by (simp_all add: running_pair_def)
  obtain work where sc: "scanned db w work" and rd: "readRepositoryExtractionWorkByID db (wi_work_item_id w) = Inr work"
    "lockRepositorySourceStreamForWork db (wi_work_item_id w) = Inr work" by (rule lock_work[OF core w])
  note f = scanned_fields[OF sc]
  have wok: "no_outcome w" using item_ok[OF core w] p by (auto simp: item_state_ok_def running_pair_def)
  have aok: "attempt_state_ok ts a" using core_parts(4)[OF core] a by (simp add: attempts_inv_def list_all_iff)
  then have aok: "ca_claimedAt a < ca_leaseExpiresAt a" "ca_finishedAt a = None" "ca_expiredAt a = None"
    "ca_sourceGenerationID a = []" "ca_failureClass a = []" "ca_failureMessage a = []"
    using p by (auto simp: attempt_state_ok_def running_pair_def)
  have r: "row (\<lambda>q. fq_request_id q = fi_RequestID i) (finish_requests db) = None"
    "row (\<lambda>q. nq_request_id q = ni_RequestID j) (renewal_requests db) = None"
    using i(5) j(5) by (simp_all add: row_None)
  have "finishRepositoryExtractionWork ts fin now db = Inl (Domain ErrorRepositoryWorkLeaseExpired)"
    using i(1-4) now r(1) rd f p read_attempt_of[OF core a] aok
    by (simp add: finishRepositoryExtractionWork_def readRepositoryExtractionWorkFinishRequest_def is_zero_time_def
      running_pair_def)
  moreover have "renewRepositoryExtractionWorkLease ts ren now db = Inl (Domain ErrorRepositoryWorkLeaseExpired)"
    using j(1-4) now r(2) rd f p read_attempt_of[OF core a] aok wok
    by (simp add: renewRepositoryExtractionWorkLease_def readRepositoryExtractionWorkLeaseRenewalRequest_def
      is_zero_time_def running_pair_def no_outcome_def)
  ultimately show ?thesis by simp
qed

lemma claimed_pair:
  "running_pair claimed (claimed_item claim_a ''worker'' (3 * Millisecond) item_a) (attempt_a (13 * Millisecond))"
  by (simp add: running_pair_def claimed_def claimed_item_def attempt_a_def item_a_def)

theorem expired_lease_refused_witness:
  "finishRepositoryExtractionWork microseconds fail_in (13 * Millisecond) claimed = Inl (Domain ErrorRepositoryWorkLeaseExpired) \<and>
   renewRepositoryExtractionWorkLease microseconds renew_in (13 * Millisecond) claimed = Inl (Domain ErrorRepositoryWorkLeaseExpired)"
  by (rule expired_lease_refused[OF reach_claimed timestamp_microseconds claimed_pair,
        where i = fail_in and j = renew_in and d = "20 * Millisecond"])
    (simp_all add: attempt_a_def item_a_def claimed_item_def fail_in_def renew_in_def claimed_def scheduled_def db1_def db2_def
      empty_db_def validateRepositoryExtractionWorkFinishInput_def validateRepositoryExtractionWorkLeaseRenewalInput_def
      trim_space_solid solid_def actor_ok_def lease_ok_def RepositoryExtractionWorkMinLeaseMilliseconds_def
      RepositoryExtractionWorkMaxLeaseMilliseconds_def)

lemma update_item_hit:
  assumes "keys_ok db" "w \<in> set (items db)" "P w" "\<And>x. P x \<Longrightarrow> wi_work_item_id x = wi_work_item_id w"
  shows "update_one_item P f db = Inr (db\<lparr>items := replace w (f w) (items db)\<rparr>)"
proof -
  have d: "distinct (map wi_work_item_id (items db))" using assms(1) by (simp add: keys_ok_def)
  show ?thesis using rows_affected_one[of wi_work_item_id, OF d assms(2), of P, OF assms(3,4)]
      update_rows_one[of wi_work_item_id, OF d assms(2), of P f, OF assms(3,4)]
    by (simp add: update_one_item_def)
qed

lemma update_attempt_hit:
  assumes "keys_ok db" "a \<in> set (attempts db)" "P a" "\<And>x. P x \<Longrightarrow> ca_claimID x = ca_claimID a"
  shows "update_one_attempt P f db = Inr (db\<lparr>attempts := replace a (f a) (attempts db)\<rparr>)"
proof -
  have d: "distinct (map ca_claimID (attempts db))" using assms(1) by (simp add: keys_ok_def)
  show ?thesis using rows_affected_one[of ca_claimID, OF d assms(2), of P, OF assms(3,4)]
      update_rows_one[of ca_claimID, OF d assms(2), of P f, OF assms(3,4)]
    by (simp add: update_one_attempt_def)
qed

text \<open>Releasing work fails only when pending work of its stream is not newer.\<close>

lemma release_succeeds:
  assumes core: "core_inv ts db" and sc: "scanned db w work"
    and newer: "\<And>p. p \<in> set (items db) \<Longrightarrow> wi_status p = repositoryExtractionWorkPending \<Longrightarrow>
      stream_of p = stream_of w \<Longrightarrow> newer db p w"
  shows "\<exists>s h d. release_status work db = Inr (s, h, d) \<and>
    (s = repositoryExtractionWorkPending \<or> s = repositoryExtractionWorkSuperseded)"
proof (cases "readPendingRepositoryExtractionWork db (wi_repo_id w) (wi_extractor_name w)")
  case None
  then show ?thesis using scanned_fields[OF sc] by (simp add: release_status_def)
next
  case (Some pending)
  then obtain p where p: "scanned db p pending" "wi_repo_id p = wi_repo_id w" "wi_extractor_name p = wi_extractor_name w"
    "wi_status p = repositoryExtractionWorkPending" by (rule read_pending)
  then have "newer db p w" using newer scanned_fields(1)[OF p(1)] by (simp add: stream_of_def)
  then obtain v v' where v: "v \<in> set (windows db)" "v' \<in> set (windows db)" "gw_id v = wi_observation_id w"
    "gw_id v' = wi_observation_id p" "gw_number v < gw_number v'" unfolding newer_in_def by blast
  obtain x where x: "x \<in> set (windows db)" "gw_id x = wi_observation_id w"
    "gw_number x = rw_ObservationNumber (wr_work work)" by (rule scanned_window[OF sc])
  obtain x' where x': "x' \<in> set (windows db)" "gw_id x' = wi_observation_id p"
    "gw_number x' = rw_ObservationNumber (wr_work pending)" by (rule scanned_window[OF p(1)])
  have "distinct (map gw_id (windows db))" using core_parts(1)[OF core] by (simp add: windows_inv_def)
  then have "x = v" "x' = v'" using x x' v by (metis keyed)+
  then have "rw_ObservationNumber (wr_work work) < rw_ObservationNumber (wr_work pending)" using x x' v(5) by simp
  then show ?thesis using Some scanned_fields[OF sc] by (simp add: release_status_def)
qed

text \<open>C32. A claim whose lease has expired is not lost: unless pending work of its stream is older, a
  recovery by its identity succeeds at once, records the attempt as expired, and leaves the item
  unclaimed, to be claimed again or superseded by the newer pending work.\<close>

theorem expired_claim_recoverable:
  assumes "work_reachable ts db" and "timestamp_column ts" and p: "running_pair db w a"
    and now: "ca_leaseExpiresAt a \<le> now" "now \<noteq> 0"
    and i: "validateRepositoryExtractionWorkRecoveryInput input = Inr i" "ri_WorkItemID i = wi_work_item_id w"
      "ri_ClaimID i = ca_claimID a" "\<forall>q\<in>set (recovery_requests db). rq_request_id q \<noteq> ri_RequestID i"
    and newer: "\<forall>x\<in>set (items db). wi_status x = repositoryExtractionWorkPending \<and> stream_of x = stream_of w \<longrightarrow> newer db x w"
  shows "\<exists>r db' w' b. recoverExpiredRepositoryExtractionWork ts input now db = Inr (r, db') \<and>
    w' \<in> set (items db') \<and> wi_work_item_id w' = wi_work_item_id w \<and> wi_claim_id w' = [] \<and>
    (wi_status w' = repositoryExtractionWorkPending \<or> wi_status w' = repositoryExtractionWorkSuperseded) \<and>
    b \<in> set (attempts db') \<and> ca_claimID b = ca_claimID a \<and> ca_status b = repositoryExtractionWorkExpired"
proof -
  have core: "core_inv ts db" using work_reachable_inv[OF assms(1,2)] by (simp add: work_inv_def)
  have k: "keys_ok db" by (rule work_inv_keys[OF work_reachable_inv[OF assms(1,2)]])
  have w: "w \<in> set (items db)" and a: "a \<in> set (attempts db)" using p by (simp_all add: running_pair_def)
  obtain work where sc: "scanned db w work" and rd: "readRepositoryExtractionWorkByID db (wi_work_item_id w) = Inr work"
    "lockRepositorySourceStreamForWork db (wi_work_item_id w) = Inr work" by (rule lock_work[OF core w])
  note f = scanned_fields[OF sc]
  obtain s h d where rel: "release_status work db = Inr (s, h, d)"
    "s = repositoryExtractionWorkPending \<or> s = repositoryExtractionWorkSuperseded"
    using release_succeeds[OF core sc] newer by blast
  have q: "row (\<lambda>q. rq_request_id q = ri_RequestID i) (recovery_requests db) = None" using i(4) by (simp add: row_None)
  let ?e = "\<lambda>r. r\<lparr>ca_status := repositoryExtractionWorkExpired, ca_expiredAt := Some (ts now)\<rparr>"
  let ?db = "db\<lparr>attempts := replace a (?e a) (attempts db)\<rparr>"
  have e: "expireRepositoryExtractionWorkClaimAttempt ts a now db = Inr ?db"
    unfolding expireRepositoryExtractionWorkClaimAttempt_def
    by (rule update_attempt_hit[OF k a]) (use p in \<open>auto simp: running_attempt_row_def running_pair_def\<close>)
  have k': "keys_ok ?db" using k by (simp add: keys_ok_def)
  have u: "update_one_item (\<lambda>x. wi_work_item_id x = wi_work_item_id w \<and> wi_claim_id x = ca_claimID a \<and>
      wi_status x = repositoryExtractionWorkRunning) (release_item s h) ?db =
    Inr (?db\<lparr>items := replace w (release_item s h w) (items ?db)\<rparr>)"
    by (rule update_item_hit[OF k']) (use w p in \<open>auto simp: running_pair_def\<close>)
  let ?db' = "?db\<lparr>items := replace w (release_item s h w) (items ?db)\<rparr>"
  obtain r qs where "recoverExpiredRepositoryExtractionWork ts input now db = Inr (r, ?db'\<lparr>recovery_requests := qs\<rparr>)"
    using i q now rd f p read_attempt_of[OF core a] rel(1) e u
    by (auto simp: recoverExpiredRepositoryExtractionWork_def readRepositoryExtractionWorkRecoveryRequest_def
      is_zero_time_def running_pair_def recoverExpiredRepositoryExtractionWorkLocked_def
      persistRepositoryExtractionWorkRecoveryRequest_def insert_row_def list_ex_iff)
  moreover have "release_item s h w \<in> set (items (?db'\<lparr>recovery_requests := qs\<rparr>))" "?e a \<in> set (attempts (?db'\<lparr>recovery_requests := qs\<rparr>))"
    using w a by (simp_all add: in_replace)
  ultimately show ?thesis using rel(2)
    by (intro exI[of _ r] exI[of _ "?db'\<lparr>recovery_requests := qs\<rparr>"] exI[of _ "release_item s h w"] exI[of _ "?e a"])
      (simp add: release_item_def)
qed

theorem expired_claim_recoverable_witness:
  "\<exists>r db' w' b. recoverExpiredRepositoryExtractionWork microseconds recover_in (13 * Millisecond) claimed = Inr (r, db') \<and>
    w' \<in> set (items db') \<and> wi_work_item_id w' = work_a \<and> wi_claim_id w' = [] \<and>
    (wi_status w' = repositoryExtractionWorkPending \<or> wi_status w' = repositoryExtractionWorkSuperseded) \<and>
    b \<in> set (attempts db') \<and> ca_claimID b = claim_a \<and> ca_status b = repositoryExtractionWorkExpired"
  using expired_claim_recoverable[OF reach_claimed timestamp_microseconds claimed_pair, where i = recover_in and
      input = recover_in and now = "13 * Millisecond"]
  by (simp add: attempt_a_def item_a_def claimed_item_def recover_in_def claimed_def scheduled_def db1_def db2_def
      empty_db_def validateRepositoryExtractionWorkRecoveryInput_def trim_space_solid solid_def actor_ok_def)

text \<open>C3. Work is finished only by the worker and claim that run it, from the instant of the claim on and
  strictly before its lease expires; a success moreover names a stored generation of the same
  repository, extractor and observed commit.\<close>

theorem finish_authorized:
  assumes "work_reachable ts db" and "timestamp_column ts"
    and run: "finishRepositoryExtractionWork ts input now db = Inr (r, db')" and changed: "db' \<noteq> db"
  shows "\<exists>w a i. validateRepositoryExtractionWorkFinishInput input = Inr i \<and> running_pair db w a \<and>
    wi_work_item_id w = fi_WorkItemID i \<and> ca_claimID a = fi_ClaimID i \<and> ca_workerID a = fi_WorkerID i \<and>
    ca_claimedAt a \<le> now \<and> now < ca_leaseExpiresAt a \<and>
    (fi_Outcome i = RepositoryExtractionWorkOutcomeFailed \<or>
     (\<exists>g. generation_of db w (fi_SourceGenerationID i) g)) \<and>
    finished_item ts i now w \<in> set (items db') \<and> finished_attempt ts i now a \<in> set (attempts db')"
proof (cases rule: finish_cases[OF run work_inv_keys[OF work_reachable_inv[OF assms(1,2)]]])
  case 1
  with changed show ?thesis by simp
next
  case (2 w a i q)
  have "finished_item ts i now w \<in> set (items db')" "finished_attempt ts i now a \<in> set (attempts db')"
    using 2(1,11) by (simp_all add: in_replace running_pair_def)
  moreover have "fi_Outcome i = RepositoryExtractionWorkOutcomeFailed \<or>
     (\<exists>g. generation_of db w (fi_SourceGenerationID i) g)" using 2(2,5) by (auto simp: outcome_ok_def)
  ultimately show ?thesis using 2(1,3,4,12-15) by (intro exI[of _ w] exI[of _ a] exI[of _ i]) simp
qed

theorem finish_authorized_witness:
  "\<exists>w a i. validateRepositoryExtractionWorkFinishInput fail_in = Inr i \<and> running_pair claimed w a \<and>
    wi_work_item_id w = fi_WorkItemID i \<and> ca_claimID a = fi_ClaimID i \<and> ca_workerID a = fi_WorkerID i \<and>
    ca_claimedAt a \<le> 5 * Millisecond \<and> 5 * Millisecond < ca_leaseExpiresAt a \<and>
    (fi_Outcome i = RepositoryExtractionWorkOutcomeFailed \<or>
     (\<exists>g. generation_of claimed w (fi_SourceGenerationID i) g)) \<and>
    finished_item microseconds i (5 * Millisecond) w \<in> set (items failed) \<and>
    finished_attempt microseconds i (5 * Millisecond) a \<in> set (attempts failed)"
proof -
  obtain r where "finishRepositoryExtractionWork microseconds fail_in (5 * Millisecond) claimed = Inr (r, failed)"
    using fail_1 ..
  then show ?thesis
    by (rule finish_authorized[OF reach_claimed timestamp_microseconds]) (simp add: failed_def claimed_def scheduled_def
      db1_def db2_def empty_db_def)
qed

section \<open>Automatic retries\<close>

lemma retry_decision:
  assumes "fd_decision (decideRepositoryExtractionWorkFailurePolicy c n t) = FailureDecisionRetry"
  shows "c \<in> set retryable_kinds" "n < RepositoryExtractionWorkFailurePolicyMaxAttempts"
  using assms by (auto simp: decideRepositoryExtractionWorkFailurePolicy_def Let_def split: if_splits)

lemma attempt_numbers_in:
  "a \<in> set as \<Longrightarrow> ca_attemptNumber a \<in> set (attempt_numbers (ca_workItemID a) as)"
  by (auto simp: attempt_numbers_def)

lemma numbered_unique:
  assumes "numbered as" "a \<in> set as" "b \<in> set as" "ca_workItemID a = ca_workItemID b"
    "ca_attemptNumber a = ca_attemptNumber b"
  shows "a = b"
proof -
  let ?ns = "attempt_numbers (ca_workItemID a) as"
  have "distinct (map int [1..<Suc (length ?ns)])" by (simp add: distinct_map)
  moreover have "?ns = map int [1..<Suc (length ?ns)]" using assms(1) unfolding numbered_def by blast
  ultimately have "distinct ?ns" by metis
  then have "inj_on ca_attemptNumber (set (filter (\<lambda>x. ca_workItemID x = ca_workItemID a) as))"
    by (simp add: attempt_numbers_def distinct_map)
  then show ?thesis using assms(2-5) by (auto simp: inj_on_def)
qed

lemma numbered_positive:
  assumes "numbered as" "a \<in> set as"
  shows "1 \<le> ca_attemptNumber a"
proof -
  let ?ns = "attempt_numbers (ca_workItemID a) as"
  have "?ns = map int [1..<Suc (length ?ns)]" using assms(1) unfolding numbered_def by blast
  then have "ca_attemptNumber a \<in> set (map int [1..<Suc (length ?ns)])" using attempt_numbers_in[OF assms(2)] by metis
  then show ?thesis by auto
qed

text \<open>What stands behind a consumed decision.\<close>

definition consumption_of ::
  "workDB \<Rightarrow> decisionConsumption \<Rightarrow> policyDecision \<Rightarrow> repositoryExtractionWorkClaimAttempt \<Rightarrow> bool" where
  "consumption_of db c d a \<longleftrightarrow> d \<in> set (policy_decisions db) \<and> pd_request_id d = dc_policy_request_id c \<and>
    a \<in> set (attempts db) \<and> ca_claimID a = pd_claim_id d \<and> ca_workItemID a = dc_work_item_id c \<and>
    ca_status a = RepositoryExtractionWorkOutcomeFailed \<and> ca_failureClass a \<in> set retryable_kinds \<and>
    1 \<le> ca_attemptNumber a \<and> ca_attemptNumber a \<le> 2 \<and>
    (\<exists>fin. ca_finishedAt a = Some fin \<and>
      fin + repositoryExtractionWorkFailurePolicyBaseBackoff * ca_attemptNumber a \<le> dc_consumed_at c)"

lemma consumption_origin:
  assumes core: "core_inv ts db" and c: "c \<in> set (consumptions db)"
  shows "\<exists>d a. consumption_of db c d a"
proof -
  note parts = core_parts[OF core]
  obtain d where d: "d \<in> set (policy_decisions db)" "pd_request_id d = dc_policy_request_id c"
    "pd_work_item_id d = dc_work_item_id c" "pd_decision d = FailureDecisionRetry"
    "pd_retry_not_before d = Some (dc_retry_not_before c)" and due: "dc_retry_not_before c \<le> dc_consumed_at c"
    using conjunct2[OF conjunct2[OF parts(7)[unfolded consumptions_inv_def]]] c by blast
  obtain a fin where a: "a \<in> set (attempts db)" "decision_of d a" "ca_status a = RepositoryExtractionWorkOutcomeFailed"
    "ca_finishedAt a = Some fin" "fin \<le> pd_decided_at d"
    using conjunct2[OF conjunct2[OF conjunct2[OF parts(6)[unfolded decisions_inv_def]]]] d(1) by blast
  let ?e = "decideRepositoryExtractionWorkFailurePolicy (ca_failureClass a) (ca_attemptNumber a) (pd_decided_at d)"
  have e: "fd_decision ?e = FailureDecisionRetry" "fd_retryNotBefore ?e = Some (dc_retry_not_before c)"
    using a(2) d(4,5) by (simp_all add: decision_of_def Let_def)
  note r = retry_decision[OF e(1)]
  have n: "1 \<le> ca_attemptNumber a" using parts(4) a(1) numbered_positive by (auto simp: attempts_inv_def)
  have n2: "ca_attemptNumber a \<le> 2" using r(2) by (simp add: RepositoryExtractionWorkFailurePolicyMaxAttempts_def)
  then have "ca_attemptNumber a = 1 \<or> ca_attemptNumber a = 2" using n by linarith
  then have "dc_retry_not_before c = pd_decided_at d + repositoryExtractionWorkFailurePolicyBaseBackoff * ca_attemptNumber a"
    using e(2) r by (auto simp: decideRepositoryExtractionWorkFailurePolicy_def Let_def
      RepositoryExtractionWorkFailurePolicyMaxAttempts_def)
  then have "fin + repositoryExtractionWorkFailurePolicyBaseBackoff * ca_attemptNumber a \<le> dc_consumed_at c"
    using a(5) due by linarith
  then have "consumption_of db c d a" using a d r(1) n n2 by (simp add: consumption_of_def decision_of_def)
  then show ?thesis by blast
qed

text \<open>C33. Automatic retries are bounded: at most two decisions are ever consumed for a work item.  Each of
  them follows a failed first or second attempt whose class is retryable, and is consumed no earlier
  than five seconds after a first and ten seconds after a second attempt failed.\<close>

theorem automatic_retries_bounded:
  assumes "work_reachable ts db" and "timestamp_column ts"
  shows "length (filter (\<lambda>c. dc_work_item_id c = i) (consumptions db)) \<le> 2 \<and>
    (\<forall>c\<in>set (consumptions db). \<exists>d a. consumption_of db c d a)"
proof -
  have core: "core_inv ts db" using work_reachable_inv[OF assms] by (simp add: work_inv_def)
  note parts = core_parts[OF core]
  let ?cs = "filter (\<lambda>c. dc_work_item_id c = i) (consumptions db)"
  define num where "num c = ca_attemptNumber (SOME a. \<exists>d. consumption_of db c d a)" for c
  have num: "\<exists>d a. consumption_of db c d a \<and> num c = ca_attemptNumber a" if "c \<in> set (consumptions db)" for c
    using someI_ex[of "\<lambda>a. \<exists>d. consumption_of db c d a"] consumption_origin[OF core that] unfolding num_def by blast
  have "c = c'" if c: "c \<in> set ?cs" and c': "c' \<in> set ?cs" and eq: "num c = num c'" for c c'
  proof -
    have mem: "c \<in> set (consumptions db)" "c' \<in> set (consumptions db)" using c c' by simp_all
    obtain d a where a: "consumption_of db c d a" "num c = ca_attemptNumber a" using num[OF mem(1)] by blast
    obtain d' a' where a': "consumption_of db c' d' a'" "num c' = ca_attemptNumber a'" using num[OF mem(2)] by blast
    have "numbered (attempts db)" using parts(4) by (simp add: attempts_inv_def)
    then have "a = a'" by (rule numbered_unique) (use a a' c c' eq in \<open>simp_all add: consumption_of_def\<close>)
    then have "pd_claim_id d = pd_claim_id d'" using a(1) a'(1) by (simp add: consumption_of_def)
    moreover have "distinct (map pd_claim_id (policy_decisions db))" using parts(6) by (simp add: decisions_inv_def)
    moreover have "d \<in> set (policy_decisions db)" "d' \<in> set (policy_decisions db)"
      using a(1) a'(1) by (simp_all add: consumption_of_def)
    ultimately have "d = d'" by (intro keyed[of pd_claim_id])
    then have "dc_policy_request_id c = dc_policy_request_id c'" using a(1) a'(1) by (simp add: consumption_of_def)
    moreover have "distinct (map dc_policy_request_id (consumptions db))" using parts(7) by (simp add: consumptions_inv_def)
    ultimately show ?thesis using mem by (intro keyed[of dc_policy_request_id])
  qed
  then have inj: "inj_on num (set ?cs)" by (auto intro: inj_onI)
  have "num ` set ?cs \<subseteq> {1, 2}"
  proof
    fix n assume "n \<in> num ` set ?cs"
    then obtain c where c: "c \<in> set (consumptions db)" "n = num c" by auto
    then obtain d a where "consumption_of db c d a" "n = ca_attemptNumber a" using num by metis
    then show "n \<in> {1, 2}" unfolding consumption_of_def by auto
  qed
  then have "card (num ` set ?cs) \<le> card {1, 2 :: int}" by (intro card_mono) auto
  then have "card (set ?cs) \<le> 2" using card_image[OF inj] by simp
  moreover have "distinct (consumptions db)" using parts(7) by (auto simp: consumptions_inv_def distinct_map)
  ultimately have "length ?cs \<le> 2" by (metis distinct_card distinct_filter)
  then show ?thesis using consumption_origin[OF core] by blast
qed

theorem automatic_retries_bounded_witness:
  "length (filter (\<lambda>c. dc_work_item_id c = work_a) (consumptions consumed)) \<le> 2"
  using automatic_retries_bounded[OF reachable_steps[OF reach_failed steps_consumed] timestamp_microseconds] by blast

end
