(* ===== verification/WorkTick.thy ===== *)
theory WorkTick
  imports WorkRetry
begin

text \<open>
  Discovery and the retry controller: \<open>repository_extraction_work_expired_claim.go\<close>,
  \<open>repository_extraction_work_due_retry_decision.go\<close> and
  \<open>repository_extraction_work_retry_controller_tick.go\<close>.  A tick consumes one batch of due decisions in one
  transaction.  The order of a query beyond its leading instant is the collation of the database: the
  queries take it as the parameter \<open>arrange\<close>.
\<close>

section \<open>Joins\<close>

text \<open>Equality of two nullable text columns, an empty string being \<open>NULL\<close>.\<close>

definition same_text :: "string \<Rightarrow> string \<Rightarrow> bool" where
  "same_text x y \<longleftrightarrow> x \<noteq> [] \<and> x = y"

text \<open>An \<open>ORDER BY\<close> whose first column is the instant \<open>key\<close>.\<close>

definition ordered_by :: "('r \<Rightarrow> time) \<Rightarrow> ('r list \<Rightarrow> 'r list) \<Rightarrow> bool" where
  "ordered_by key arrange \<longleftrightarrow> (\<forall>rows. mset (arrange rows) = mset rows \<and> sorted (map key (arrange rows)))"

lemma ordered_by_sort: "ordered_by key (sort_key key)"
  by (simp add: ordered_by_def)

lemma ordered_by_set: "ordered_by key arrange \<Longrightarrow> set (arrange rows) = set rows"
  unfolding ordered_by_def by (metis set_mset_mset)

definition work_of :: "workItem \<Rightarrow> gitRepositoryChangeWindow \<Rightarrow> RepositoryExtractionWork" where
  "work_of w v = \<lparr>rw_WorkItemID = wi_work_item_id w, rw_RepoID = wi_repo_id w, rw_ExtractorName = wi_extractor_name w,
     rw_ObservationID = wi_observation_id w, rw_ObservationNumber = gw_number v,
     rw_ChangeToken = gi_ChangeToken (gw_inspection v), rw_HeadCommitSHA = gi_HeadCommitSHA (gw_inspection v)\<rparr>"

section \<open>Expired claims\<close>

abbreviation "RepositoryExtractionWorkExpiredClaimMaxLimit \<equiv> (100 :: int)"

record RepositoryExtractionWorkExpiredClaimListInput =
  xi_RepoID :: string
  xi_ExtractorName :: string
  xi_Limit :: int

record RepositoryExtractionWorkExpiredClaim =
  xc_Work :: RepositoryExtractionWork
  xc_ClaimID :: string
  xc_AttemptNumber :: int
  xc_WorkerID :: string
  xc_ClaimedAt :: time
  xc_LeaseExpiresAt :: time

definition validateRepositoryExtractionWorkExpiredClaimListInput ::
  "RepositoryExtractionWorkExpiredClaimListInput \<Rightarrow> RepositoryExtractionWorkExpiredClaimListInput ingestion" where
  "validateRepositoryExtractionWorkExpiredClaimListInput input =
    (let repoID = trim_space (xi_RepoID input) in
     if repoID = [] then Inl (Domain ErrorInvalidInput) else
     and_then (validateRepositoryExtractionWorkExtractor (xi_ExtractorName input)) (\<lambda>extractorName.
     if xi_Limit input < 1 \<or> RepositoryExtractionWorkExpiredClaimMaxLimit < xi_Limit input
     then Inl (Domain ErrorInvalidInput)
     else Inr (input\<lparr>xi_RepoID := repoID, xi_ExtractorName := extractorName\<rparr>)))"

definition expired_claim_row ::
  "time \<Rightarrow> workItem \<Rightarrow> repositoryExtractionWorkClaimAttempt \<Rightarrow> bool" where
  "expired_claim_row asOf w a \<longleftrightarrow> ca_workItemID a = wi_work_item_id w \<and> same_text (ca_claimID a) (wi_claim_id w) \<and>
    same_text (ca_workerID a) (wi_claimed_by w) \<and> wi_claimed_at w = Some (ca_claimedAt a) \<and>
    wi_status w = repositoryExtractionWorkRunning \<and> wi_finished_at w = None \<and>
    ca_status a = repositoryExtractionWorkRunning \<and> ca_finishedAt a = None \<and> ca_expiredAt a = None \<and>
    ca_leaseExpiresAt a \<le> asOf"

definition listExpiredRepositoryExtractionWorkClaims ::
  "(time \<Rightarrow> time) \<Rightarrow> (RepositoryExtractionWorkExpiredClaim list \<Rightarrow> RepositoryExtractionWorkExpiredClaim list) \<Rightarrow>
   RepositoryExtractionWorkExpiredClaimListInput \<Rightarrow> time \<Rightarrow> workDB \<Rightarrow> RepositoryExtractionWorkExpiredClaim list ingestion" where
  "listExpiredRepositoryExtractionWorkClaims ts arrange input asOf db =
    and_then (validateRepositoryExtractionWorkExpiredClaimListInput input) (\<lambda>i.
    if is_zero_time asOf then Inl (Domain ErrorInvalidInput) else
    Inr (take (nat (xi_Limit i)) (arrange
      [\<lparr>xc_Work = work_of w v, xc_ClaimID = ca_claimID a, xc_AttemptNumber = ca_attemptNumber a,
         xc_WorkerID = ca_workerID a, xc_ClaimedAt = ca_claimedAt a, xc_LeaseExpiresAt = ca_leaseExpiresAt a\<rparr>.
       w \<leftarrow> items db, v \<leftarrow> windows db, a \<leftarrow> attempts db,
       gw_id v = wi_observation_id w \<and> wi_repo_id w = xi_RepoID i \<and> wi_extractor_name w = xi_ExtractorName i \<and>
       expired_claim_row (ts asOf) w a])))"

section \<open>Due retry decisions\<close>

abbreviation "RepositoryExtractionWorkDueRetryDecisionMaxLimit \<equiv> (100 :: int)"

record RepositoryExtractionWorkDueRetryDecision =
  ud_FailurePolicyRequestID :: string
  ud_Work :: RepositoryExtractionWork
  ud_ClaimID :: string
  ud_AttemptNumber :: int
  ud_WorkerID :: string
  ud_FinishedAt :: time
  ud_FailureClass :: string
  ud_FailureMessage :: string
  ud_PolicyVersion :: string
  ud_Decision :: string
  ud_DecisionReason :: string
  ud_MaxAttempts :: int
  ud_BackoffMilliseconds :: int
  ud_RetryNotBefore :: time
  ud_DecidedAt :: time
  ud_DecisionActorID :: string

definition validateRepositoryExtractionWorkDueRetryDecisionListInput :: "int \<Rightarrow> unit ingestion" where
  "validateRepositoryExtractionWorkDueRetryDecisionListInput limit =
    (if limit < 1 \<or> RepositoryExtractionWorkDueRetryDecisionMaxLimit < limit then Inl (Domain ErrorInvalidInput)
     else Inr ())"

definition due_row ::
  "workDB \<Rightarrow> time \<Rightarrow> policyDecision \<Rightarrow> repositoryExtractionWorkClaimAttempt \<Rightarrow> workItem \<Rightarrow> bool" where
  "due_row db asOf p a w \<longleftrightarrow> ca_workItemID a = pd_work_item_id p \<and> ca_claimID a = pd_claim_id p \<and>
    wi_work_item_id w = ca_workItemID a \<and> same_text (wi_claim_id w) (ca_claimID a) \<and>
    same_text (wi_claimed_by w) (ca_workerID a) \<and> wi_claimed_at w = Some (ca_claimedAt a) \<and>
    wi_finished_at w \<noteq> None \<and> wi_finished_at w = ca_finishedAt a \<and>
    same_text (wi_failure_class w) (ca_failureClass a) \<and> same_text (wi_failure_message w) (ca_failureMessage a) \<and>
    (wi_repo_id w, wi_extractor_name w) \<in> set (streams db) \<and>
    pd_decision p = FailureDecisionRetry \<and>
    (case pd_retry_not_before p of None \<Rightarrow> False | Some t \<Rightarrow> t \<le> asOf) \<and>
    \<not> list_ex (\<lambda>c. dc_policy_request_id c = pd_request_id p) (consumptions db) \<and>
    ca_status a = RepositoryExtractionWorkOutcomeFailed \<and> ca_finishedAt a \<noteq> None \<and> ca_expiredAt a = None \<and>
    wi_status w = RepositoryExtractionWorkOutcomeFailed \<and> wi_source_generation_id w = []"

text \<open>A scanned row: the decision, and the attempt number and failure class that the policy recorded.\<close>

definition due_decision ::
  "policyDecision \<Rightarrow> repositoryExtractionWorkClaimAttempt \<Rightarrow> workItem \<Rightarrow> gitRepositoryChangeWindow \<Rightarrow>
   RepositoryExtractionWorkDueRetryDecision \<times> int \<times> string" where
  "due_decision p a w v =
    (\<lparr>ud_FailurePolicyRequestID = pd_request_id p, ud_Work = work_of w v, ud_ClaimID = ca_claimID a,
      ud_AttemptNumber = ca_attemptNumber a, ud_WorkerID = ca_workerID a, ud_FinishedAt = the (ca_finishedAt a),
      ud_FailureClass = ca_failureClass a, ud_FailureMessage = ca_failureMessage a,
      ud_PolicyVersion = pd_policy_version p, ud_Decision = pd_decision p, ud_DecisionReason = pd_decision_reason p,
      ud_MaxAttempts = pd_max_attempts p, ud_BackoffMilliseconds = pd_backoff_milliseconds p,
      ud_RetryNotBefore = the (pd_retry_not_before p), ud_DecidedAt = pd_decided_at p,
      ud_DecisionActorID = pd_actor_id p\<rparr>, pd_attempt_number p, pd_failure_class p)"

definition due_rows :: "workDB \<Rightarrow> time \<Rightarrow> (RepositoryExtractionWorkDueRetryDecision \<times> int \<times> string) list" where
  "due_rows db asOf =
    [due_decision p a w v. p \<leftarrow> policy_decisions db, a \<leftarrow> attempts db, w \<leftarrow> items db, v \<leftarrow> windows db,
     gw_id v = wi_observation_id w \<and> due_row db asOf p a w]"

definition validatePersistedRepositoryExtractionWorkDueRetryDecision ::
  "RepositoryExtractionWorkDueRetryDecision \<times> int \<times> string \<Rightarrow> RepositoryExtractionWorkDueRetryDecision ingestion" where
  "validatePersistedRepositoryExtractionWorkDueRetryDecision = (\<lambda>(d, policyAttemptNumber, policyFailureClass).
    (let expected = decideRepositoryExtractionWorkFailurePolicy (ud_FailureClass d) (ud_AttemptNumber d) (ud_DecidedAt d) in
     if policyAttemptNumber \<noteq> ud_AttemptNumber d \<or> policyFailureClass \<noteq> ud_FailureClass d \<or>
       ud_PolicyVersion d \<noteq> RepositoryExtractionWorkFailurePolicyV1 \<or> fd_decision expected \<noteq> FailureDecisionRetry \<or>
       ud_Decision d \<noteq> fd_decision expected \<or> ud_DecisionReason d \<noteq> fd_reason expected \<or>
       ud_MaxAttempts d \<noteq> RepositoryExtractionWorkFailurePolicyMaxAttempts \<or>
       ud_BackoffMilliseconds d \<noteq> fd_backoffMilliseconds expected \<or> fd_retryNotBefore expected = None \<or>
       fd_retryNotBefore expected \<noteq> Some (ud_RetryNotBefore d) \<or> ud_DecidedAt d < ud_FinishedAt d
     then Inl (Domain ErrorRepositoryWorkConflict) else Inr d))"

fun validate_rows ::
  "(RepositoryExtractionWorkDueRetryDecision \<times> int \<times> string) list \<Rightarrow> RepositoryExtractionWorkDueRetryDecision list ingestion" where
  "validate_rows [] = Inr []"
| "validate_rows (r # rs) = and_then (validatePersistedRepositoryExtractionWorkDueRetryDecision r) (\<lambda>d.
    and_then (validate_rows rs) (\<lambda>ds. Inr (d # ds)))"

text \<open>With one transaction at a time no stream is locked, and \<open>SKIP LOCKED\<close> skips nothing.\<close>

definition queryDueRepositoryExtractionWorkRetryDecisions ::
  "(time \<Rightarrow> time) \<Rightarrow>
   ((RepositoryExtractionWorkDueRetryDecision \<times> int \<times> string) list \<Rightarrow> (RepositoryExtractionWorkDueRetryDecision \<times> int \<times> string) list) \<Rightarrow>
   int \<Rightarrow> time \<Rightarrow> workDB \<Rightarrow> RepositoryExtractionWorkDueRetryDecision list ingestion" where
  "queryDueRepositoryExtractionWorkRetryDecisions ts arrange limit asOf db =
    and_then (validateRepositoryExtractionWorkDueRetryDecisionListInput limit) (\<lambda>_.
    if is_zero_time asOf then Inl (Domain ErrorInvalidInput)
    else validate_rows (take (nat limit) (arrange (due_rows db (ts asOf)))))"

section \<open>The retry controller tick\<close>

record RepositoryExtractionWorkRetryControllerTickInput =
  ki_RequestID :: string
  ki_Limit :: int
  ki_ConsumerActorID :: string

record RepositoryExtractionWorkRetryControllerTickResult =
  kr_RequestID :: string
  kr_Limit :: int
  kr_ConsumerActorID :: string
  kr_DiscoveredAt :: time
  kr_Consumptions :: "RepositoryExtractionWorkRetryDecisionConsumptionResult list"
  kr_Replayed :: bool

record controllerTickRequest =
  kq_request_id :: string
  kq_consumer_actor_id :: string
  kq_result_limit :: int
  kq_consumption_count :: int
  kq_discovered_at :: time
  kq_payload_hash :: string

record controllerTickItem =
  kt_tick_request_id :: string
  kt_item_ordinal :: int
  kt_consumption_request_id :: string

text \<open>The tables of the controller beside those of the work.\<close>

record controllerDB =
  work_tables :: workDB
  tick_requests :: "controllerTickRequest list"
  tick_items :: "controllerTickItem list"

definition repositoryExtractionWorkRetryControllerTickPayloadHash :: "int \<Rightarrow> string \<Rightarrow> string" where
  "repositoryExtractionWorkRetryControllerTickPayloadHash limit actor =
    contentHash (marshal (JObj [(''limit'', JInt limit), (''consumer_actor_id'', JStr actor)]))"

definition repositoryExtractionWorkRetryControllerTickChildRequestID :: "string \<Rightarrow> string \<Rightarrow> string" where
  "repositoryExtractionWorkRetryControllerTickChildRequestID tickRequestID failurePolicyRequestID =
    stableID ''retry-controller-consume:'' ''repository_extraction_work_retry_controller_tick_consumption''
      (JObj [(''tick_request_id'', JStr tickRequestID), (''failure_policy_request_id'', JStr failurePolicyRequestID)])"

definition prepareRepositoryExtractionWorkRetryControllerTick ::
  "RepositoryExtractionWorkRetryControllerTickInput \<Rightarrow> (RepositoryExtractionWorkRetryControllerTickInput \<times> string) ingestion" where
  "prepareRepositoryExtractionWorkRetryControllerTick input =
    (let i = input\<lparr>ki_RequestID := trim_space (ki_RequestID input),
       ki_ConsumerActorID := trim_space (ki_ConsumerActorID input)\<rparr> in
     if ki_RequestID i = [] then Inl (Domain ErrorInvalidInput)
     else if \<not> actor_ok (ki_ConsumerActorID i) then Inl (Domain ErrorInvalidInput) else
     and_then (validateRepositoryExtractionWorkDueRetryDecisionListInput (ki_Limit i)) (\<lambda>_.
     Inr (i, repositoryExtractionWorkRetryControllerTickPayloadHash (ki_Limit i) (ki_ConsumerActorID i))))"

text \<open>The loop over the locked decisions.\<close>

fun consume_each ::
  "(time \<Rightarrow> time) \<Rightarrow> RepositoryExtractionWorkRetryControllerTickInput \<Rightarrow> time \<Rightarrow>
   RepositoryExtractionWorkDueRetryDecision list \<Rightarrow> workDB \<Rightarrow>
   (RepositoryExtractionWorkRetryDecisionConsumptionResult list \<times> workDB) ingestion" where
  "consume_each ts i discoveredAt [] db = Inr ([], db)"
| "consume_each ts i discoveredAt (d # ds) db =
    and_then (consumeDueRepositoryExtractionWorkRetryDecision ts
      \<lparr>di_RequestID = repositoryExtractionWorkRetryControllerTickChildRequestID (ki_RequestID i) (ud_FailurePolicyRequestID d),
       di_FailurePolicyRequestID = ud_FailurePolicyRequestID d, di_WorkItemID = rw_WorkItemID (ud_Work d),
       di_ClaimID = ud_ClaimID d, di_ConsumerActorID = ki_ConsumerActorID i\<rparr> discoveredAt db) (\<lambda>(c, db).
    and_then (consume_each ts i discoveredAt ds db) (\<lambda>(cs, db). Inr (c # cs, db)))"

text \<open>
  The request row and one row for each consumption; \<open>consumption_request_id\<close> is a unique key and the
  checks of the count and the limit are live.
\<close>

fun persist_tick_items ::
  "string \<Rightarrow> int \<Rightarrow> RepositoryExtractionWorkRetryDecisionConsumptionResult list \<Rightarrow> controllerTickItem list \<Rightarrow>
   controllerTickItem list ingestion" where
  "persist_tick_items requestID n [] rows = Inr rows"
| "persist_tick_items requestID n (c # cs) rows =
    and_then (insert_row (\<lambda>p q. kt_consumption_request_id q = kt_consumption_request_id p \<or>
        kt_tick_request_id q = kt_tick_request_id p \<and> kt_item_ordinal q = kt_item_ordinal p)
      \<lparr>kt_tick_request_id = requestID, kt_item_ordinal = n, kt_consumption_request_id = dr_RequestID c\<rparr> rows)
      (persist_tick_items requestID (n + 1) cs)"

definition persistRepositoryExtractionWorkRetryControllerTick ::
  "(time \<Rightarrow> time) \<Rightarrow> RepositoryExtractionWorkRetryControllerTickInput \<Rightarrow> string \<Rightarrow>
   RepositoryExtractionWorkRetryControllerTickResult \<Rightarrow> controllerDB \<Rightarrow> controllerDB ingestion" where
  "persistRepositoryExtractionWorkRetryControllerTick ts i payloadHash r db =
    (let count = int (length (kr_Consumptions r)) in
     if ki_Limit i < count then Inl Violation else
     and_then (insert_row (\<lambda>p q. kq_request_id q = kq_request_id p)
       \<lparr>kq_request_id = ki_RequestID i, kq_consumer_actor_id = ki_ConsumerActorID i, kq_result_limit = ki_Limit i,
        kq_consumption_count = count, kq_discovered_at = ts (kr_DiscoveredAt r), kq_payload_hash = payloadHash\<rparr>
       (tick_requests db)) (\<lambda>qs.
     and_then (persist_tick_items (ki_RequestID i) 1 (kr_Consumptions r) (tick_items db)) (\<lambda>rows.
     Inr (db\<lparr>tick_requests := qs, tick_items := rows\<rparr>))))"

text \<open>The stored items of a replayed tick must be numbered from 1 without a gap.\<close>

fun contiguous :: "int \<Rightarrow> controllerTickItem list \<Rightarrow> bool" where
  "contiguous n [] \<longleftrightarrow> True"
| "contiguous n (t # rows) \<longleftrightarrow> kt_item_ordinal t = n \<and> contiguous (n + 1) rows"

fun replay_tick_items ::
  "controllerTickRequest \<Rightarrow> workDB \<Rightarrow> controllerTickItem list \<Rightarrow>
   RepositoryExtractionWorkRetryDecisionConsumptionResult list ingestion" where
  "replay_tick_items q db [] = Inr []"
| "replay_tick_items q db (t # rows) =
    and_then (readRepositoryExtractionWorkRetryDecisionConsumption db (kt_consumption_request_id t)) (\<lambda>stored.
    case stored of
      None \<Rightarrow> Inl (Domain ErrorRepositoryWorkConflict)
    | Some (c, _) \<Rightarrow>
        if dr_RequestID c \<noteq>
            repositoryExtractionWorkRetryControllerTickChildRequestID (kq_request_id q) (dr_FailurePolicyRequestID c) \<or>
          dr_ConsumerActorID c \<noteq> kq_consumer_actor_id q \<or> dr_ConsumedAt c \<noteq> kq_discovered_at q
        then Inl (Domain ErrorRepositoryWorkConflict)
        else and_then (replay_tick_items q db rows) (\<lambda>cs. Inr (c\<lparr>dr_Replayed := True\<rparr> # cs)))"

definition replayRepositoryExtractionWorkRetryControllerTick ::
  "controllerTickRequest \<Rightarrow> controllerDB \<Rightarrow> RepositoryExtractionWorkRetryControllerTickResult ingestion" where
  "replayRepositoryExtractionWorkRetryControllerTick q db =
    (let rows = sort_key kt_item_ordinal (filter (\<lambda>t. kt_tick_request_id t = kq_request_id q) (tick_items db)) in
     if \<not> contiguous 1 rows then Inl (Domain ErrorRepositoryWorkConflict) else
     and_then (replay_tick_items q (work_tables db) rows) (\<lambda>cs.
     if int (length cs) \<noteq> kq_consumption_count q \<or> kq_result_limit q < kq_consumption_count q
     then Inl (Domain ErrorRepositoryWorkConflict)
     else Inr \<lparr>kr_RequestID = kq_request_id q, kr_Limit = kq_result_limit q,
       kr_ConsumerActorID = kq_consumer_actor_id q, kr_DiscoveredAt = kq_discovered_at q, kr_Consumptions = cs,
       kr_Replayed = True\<rparr>))"

definition runRepositoryExtractionWorkRetryControllerTick ::
  "(time \<Rightarrow> time) \<Rightarrow>
   ((RepositoryExtractionWorkDueRetryDecision \<times> int \<times> string) list \<Rightarrow> (RepositoryExtractionWorkDueRetryDecision \<times> int \<times> string) list) \<Rightarrow>
   RepositoryExtractionWorkRetryControllerTickInput \<Rightarrow> time \<Rightarrow> controllerDB \<Rightarrow>
   (RepositoryExtractionWorkRetryControllerTickResult \<times> controllerDB) ingestion" where
  "runRepositoryExtractionWorkRetryControllerTick ts arrange input discoveredAt db =
    and_then (prepareRepositoryExtractionWorkRetryControllerTick input) (\<lambda>(i, payloadHash).
    if is_zero_time discoveredAt then Inl (Domain ErrorInvalidInput) else
    (case row (\<lambda>q. kq_request_id q = ki_RequestID i) (tick_requests db) of
       Some q \<Rightarrow>
         if kq_payload_hash q \<noteq>
           repositoryExtractionWorkRetryControllerTickPayloadHash (kq_result_limit q) (kq_consumer_actor_id q)
           then Inl (Domain ErrorRepositoryWorkConflict)
         else if kq_payload_hash q \<noteq> payloadHash then Inl (Domain ErrorIdempotencyKeyReused)
         else and_then (replayRepositoryExtractionWorkRetryControllerTick q db) (\<lambda>r. Inr (r, db))
     | None \<Rightarrow>
       and_then (queryDueRepositoryExtractionWorkRetryDecisions ts arrange (ki_Limit i) discoveredAt (work_tables db)) (\<lambda>ds.
       and_then (consume_each ts i discoveredAt ds (work_tables db)) (\<lambda>(cs, work).
       (let r = \<lparr>kr_RequestID = ki_RequestID i, kr_Limit = ki_Limit i, kr_ConsumerActorID = ki_ConsumerActorID i,
          kr_DiscoveredAt = discoveredAt, kr_Consumptions = cs, kr_Replayed = False\<rparr>
        in and_then (persistRepositoryExtractionWorkRetryControllerTick ts i payloadHash r (db\<lparr>work_tables := work\<rparr>)) (\<lambda>db.
           Inr (r, db)))))))"

end
