(* ===== verification/WorkBlocked.thy ===== *)
theory WorkBlocked
  imports WorkExample
begin

text \<open>
  A stream that no longer moves.  A retry puts failed work back to pending although newer work of the
  stream is running; from then on the running claim cannot be recovered once its lease expires, because
  the pending work of the stream is older, and nothing else can be claimed.
\<close>

definition blocked ::
  "workDB \<Rightarrow> workItem \<Rightarrow> repositoryExtractionWorkClaimAttempt \<Rightarrow> workItem \<Rightarrow> bool" where
  "blocked db b a w \<longleftrightarrow> running_pair db b a \<and> w \<in> set (items db) \<and> wi_status w = repositoryExtractionWorkPending \<and>
    stream_of w = stream_of b \<and> newer db b w"

text \<open>
  What the workers and the maintenance of the queue do from the instant \<open>T\<close> on: every operation but
  new observations and their scheduling.
\<close>

inductive upkeep :: "(time \<Rightarrow> time) \<Rightarrow> time \<Rightarrow> workDB \<Rightarrow> workDB \<Rightarrow> bool" for ts T where
  claim: "claimRepositoryExtractionWork ts ci now db = Inr (c_r, db') \<Longrightarrow> T \<le> now \<Longrightarrow> upkeep ts T db db'"
| renew: "renewRepositoryExtractionWorkLease ts ni now db = Inr (n_r, db') \<Longrightarrow> T \<le> now \<Longrightarrow> upkeep ts T db db'"
| finish: "finishRepositoryExtractionWork ts fi now db = Inr (f_r, db') \<Longrightarrow> T \<le> now \<Longrightarrow> upkeep ts T db db'"
| recover: "recoverExpiredRepositoryExtractionWork ts ri now db = Inr (r_r, db') \<Longrightarrow> T \<le> now \<Longrightarrow> upkeep ts T db db'"
| classify: "classifyFailedRepositoryExtractionWork ts pi now db = Inr (p_r, db') \<Longrightarrow> T \<le> now \<Longrightarrow> upkeep ts T db db'"
| retry: "retryFailedRepositoryExtractionWork ts ti now db = Inr (t_r, db') \<Longrightarrow> T \<le> now \<Longrightarrow> upkeep ts T db db'"
| consume: "consumeDueRepositoryExtractionWorkRetryDecision ts di now db = Inr (d_r, db') \<Longrightarrow> T \<le> now \<Longrightarrow> upkeep ts T db db'"

lemma upkeep_step: "upkeep ts T db db' \<Longrightarrow> work_step ts db db'"
  by (erule upkeep.cases) (blast intro: work_step.intros)+

lemma newer_asym:
  assumes "windows_inv ws" "newer_in ws x y"
  shows "\<not> newer_in ws y x"
proof
  assume "newer_in ws y x"
  then obtain v v' where v: "v \<in> set ws" "v' \<in> set ws" "gw_id v = wi_observation_id x" "gw_id v' = wi_observation_id y"
    "gw_number v < gw_number v'" unfolding newer_in_def by blast
  from assms(2) obtain u u' where u: "u \<in> set ws" "u' \<in> set ws" "gw_id u = wi_observation_id y" "gw_id u' = wi_observation_id x"
    "gw_number u < gw_number u'" unfolding newer_in_def by blast
  have d: "distinct (map gw_id ws)" using assms(1) by (simp add: windows_inv_def)
  have "u = v'" by (rule keyed[OF d u(1) v(2)]) (simp add: u(3) v(4))
  moreover have "u' = v" by (rule keyed[OF d u(2) v(1)]) (simp add: u(4) v(3))
  ultimately show False using u(5) v(5) by simp
qed

text \<open>Nothing releases the running work of a blocked stream.\<close>

lemma blocked_not_released:
  assumes inv: "work_inv ts db" and bl: "blocked db b a w"
  shows "\<not> released db b status heir"
proof
  have core: "core_inv ts db" using inv by (simp add: work_inv_def)
  have w: "w \<in> set (items db)" "wi_status w = repositoryExtractionWorkPending" "stream_of w = stream_of b" "newer db b w"
    using bl by (simp_all add: blocked_def)
  assume "released db b status heir"
  then consider "readPendingRepositoryExtractionWork db (wi_repo_id b) (wi_extractor_name b) = None"
    | p where "p \<in> set (items db)" "stream_of p = stream_of b" "wi_status p = repositoryExtractionWorkPending" "newer db p b"
    unfolding released_def stream_of_def by force
  then show False
  proof cases
    case 1
    then show False using pending_none[OF core] w by (auto simp: stream_of_def)
  next
    case 2
    then have "p = w" using status_one[OF core w(1), of repositoryExtractionWorkPending] w(2,3) by simp
    then show False using newer_asym[OF core_parts(1)[OF core] w(4)] 2(4) by simp
  qed
qed

lemma still_blocked:
  assumes "blocked db b a w" "windows db' = windows db" "b \<in> set (items db')" "w \<in> set (items db')" "a \<in> set (attempts db')"
  shows "blocked db' b a w"
  using assms by (simp add: blocked_def running_pair_def)

lemma upkeep_blocked:
  assumes step: "upkeep ts T db db'" and inv: "work_inv ts db" and t: "timestamp_column ts" and bl: "blocked db b a w"
    and T: "ca_leaseExpiresAt a \<le> T"
  shows "blocked db' b a w"
proof -
  have core: "core_inv ts db" using inv by (simp add: work_inv_def)
  have k: "keys_ok db" by (rule work_inv_keys[OF inv])
  have b: "b \<in> set (items db)" "a \<in> set (attempts db)" "w \<in> set (items db)" "wi_status b = repositoryExtractionWorkRunning"
    "ca_status a = repositoryExtractionWorkRunning" "wi_status w = repositoryExtractionWorkPending"
    and pair: "running_pair db b a" using bl by (simp_all add: blocked_def running_pair_def)
  have other: "b \<noteq> x \<and> a \<noteq> y" if "running_pair db x y" "\<not> (x = b \<and> y = a)" for x y
    using that pair same_item[OF k, of x b] same_attempt[OF k, of y a] by (auto simp: running_pair_def)
  have w: "w \<noteq> x" if "running_pair db x y" for x y using that b(6) by (auto simp: running_pair_def)
  from step show ?thesis
  proof cases
    case (claim ci now c_r)
    then show ?thesis
    proof (cases rule: claim_cases[OF claim(1) k])
      case (1 repo ext qs)
      then show ?thesis by (intro still_blocked[OF bl]) (simp_all add: b)
    next
      case (2 x c n worker ms q)
      have "x \<noteq> w" using 2(3) bl b(1,4) by (auto simp: hasRunningRepositoryExtractionWork_def list_ex_iff blocked_def stream_of_def)
      moreover have "x \<noteq> b" using 2(2) b(4) by auto
      ultimately show ?thesis using 2 b by (intro still_blocked[OF bl]) (auto simp: in_replace)
    qed
  next
    case (renew ni now n_r)
    then show ?thesis
    proof (cases rule: renew_cases[OF renew(1) k])
      case 1
      then show ?thesis using bl by simp
    next
      case (2 x y ms q)
      then have "y \<noteq> a" using T renew(2) by auto
      then show ?thesis using 2 b by (intro still_blocked[OF bl]) (auto simp: in_replace)
    qed
  next
    case (finish fi now f_r)
    then show ?thesis
    proof (cases rule: finish_cases[OF finish(1) k])
      case 1
      then show ?thesis using bl by simp
    next
      case (2 x y i q)
      then have "y \<noteq> a" using T finish(2) by auto
      then have "b \<noteq> x \<and> a \<noteq> y" using other[OF 2(1)] by auto
      then show ?thesis using 2(11) b w[OF 2(1)] by (intro still_blocked[OF bl]) (auto simp: in_replace)
    qed
  next
    case (recover ri now r_r)
    then show ?thesis
    proof (cases rule: recover_cases[OF recover(1) k])
      case 1
      then show ?thesis using bl by simp
    next
      case (2 x y status heir q)
      then have "x \<noteq> b" using blocked_not_released[OF inv bl] by auto
      then have "b \<noteq> x \<and> a \<noteq> y" using other[OF 2(1)] by auto
      then show ?thesis using 2(8) b w[OF 2(1)] by (intro still_blocked[OF bl]) (auto simp: in_replace)
    qed
  next
    case (classify pi now p_r)
    then show ?thesis
    proof (cases rule: classify_cases[OF classify(1) t])
      case 1
      then show ?thesis using bl by simp
    next
      case (2 x y fin d)
      then show ?thesis using b by (intro still_blocked[OF bl]) auto
    qed
  next
    case (retry ti now t_r)
    then show ?thesis
    proof (cases rule: retry_cases[OF retry(1) k])
      case 1
      then show ?thesis using bl by simp
    next
      case (2 x y fin status heir q)
      then have "x \<noteq> b" "x \<noteq> w" using b by (auto simp: failed_pair_def)
      then show ?thesis using 2(8) b by (intro still_blocked[OF bl]) (auto simp: in_replace)
    qed
  next
    case (consume di now d_r)
    then show ?thesis
    proof (cases rule: consume_cases[OF consume(1) k])
      case 1
      then show ?thesis using bl by simp
    next
      case (2 x y fin status heir d due c)
      then have "x \<noteq> b" "x \<noteq> w" using b by (auto simp: failed_pair_def)
      then show ?thesis using 2(17) b by (intro still_blocked[OF bl]) (auto simp: in_replace)
    qed
  qed
qed

section \<open>How a stream becomes blocked\<close>

text \<open>
  Two observations of the repository.  The work of the first has failed, the work of the second runs
  until 30 ms.  The identities are literals: only that they differ matters.
\<close>

definition work_row :: "string \<Rightarrow> string \<Rightarrow> workItem" where
  "work_row i v = item_a\<lparr>wi_work_item_id := i, wi_observation_id := v\<rparr>"

definition attempt_row :: "string \<Rightarrow> string \<Rightarrow> time \<Rightarrow> repositoryExtractionWorkClaimAttempt" where
  "attempt_row c i expires = (attempt_a expires)\<lparr>ca_claimID := c, ca_workItemID := i\<rparr>"

definition old_item :: workItem where
  "old_item = finished_item microseconds fail_in (5 * Millisecond)
    (claimed_item ''work-claim:1'' ''worker'' (3 * Millisecond) (work_row ''repo-work:1'' ''obs1''))"

definition new_item_row :: workItem where
  "new_item_row = claimed_item ''work-claim:2'' ''worker'' (3 * Millisecond) (work_row ''repo-work:2'' ''obs2'')"

definition old_attempt :: repositoryExtractionWorkClaimAttempt where
  "old_attempt = finished_attempt microseconds fail_in (5 * Millisecond) (attempt_row ''work-claim:1'' ''repo-work:1'' (13 * Millisecond))"

definition new_attempt_row :: repositoryExtractionWorkClaimAttempt where
  "new_attempt_row = attempt_row ''work-claim:2'' ''repo-work:2'' (30 * Millisecond)"

definition two_items :: workDB where
  "two_items = empty_db\<lparr>git_streams := [''repo''],
    windows := [(window_a 1)\<lparr>gw_id := ''obs1''\<rparr>, (window_a 1)\<lparr>gw_id := ''obs2'', gw_number := 2\<rparr>],
    streams := [(''repo'', ExtractorRepositoryGoParserCodeFact)], items := [old_item, new_item_row],
    attempts := [old_attempt, new_attempt_row]\<rparr>"

definition retry_in :: RepositoryExtractionWorkRetryInput where
  "retry_in = \<lparr>ti_RequestID = ''t1'', ti_WorkItemID = ''repo-work:1'', ti_ClaimID = ''work-claim:1'', ti_RetryActorID = ''actor''\<rparr>"

definition blocked_db :: workDB where
  "blocked_db = two_items\<lparr>items := [work_row ''repo-work:1'' ''obs1'', new_item_row],
    retry_requests := [\<lparr>rq_request_id = ''t1'', rq_work_item_id = ''repo-work:1'', rq_claim_id = ''work-claim:1'',
      rq_actor_id = ''actor'', rq_disposition = DispositionRequeued, rq_superseded_by = [], rq_at = 20 * Millisecond,
      rq_payload_hash = repositoryExtractionWorkRetryPayloadHash retry_in\<rparr>]\<rparr>"

lemmas two_defs = two_items_def old_item_def new_item_row_def old_attempt_def new_attempt_row_def work_row_def attempt_row_def
  finished_item_def finished_attempt_def claimed_item_def attempt_a_def item_a_def window_a_def fail_in_def empty_db_def

lemma retry_1: "\<exists>r. retryFailedRepositoryExtractionWork microseconds retry_in (20 * Millisecond) two_items = Inr (r, blocked_db)"
  by (simp add: retryFailedRepositoryExtractionWork_def retry_in_def validateRepositoryExtractionWorkRetryInput_def
    readRepositoryExtractionWorkRetryRequest_def failed_attempt_def retryFailedRepositoryExtractionWorkLocked_def
    release_status_def release_item_def persistRepositoryExtractionWorkRetryRequest_def read_defs two_defs blocked_db_def has_prefix_def)

lemma numbered_two: "numbered [old_attempt, new_attempt_row]"
  by (simp add: numbered_def attempt_numbers_def two_defs)

lemma two_items_inv: "work_inv microseconds two_items"
proof -
  have "items_inv (windows two_items) (set (streams two_items)) (items two_items)"
    by (simp add: items_inv_def two_defs item_state_ok_def observed_in_def stream_of_def one_per_stream_def
      unclaimed_def claimed_by_worker_def no_outcome_def microseconds_def)
  moreover have "list_all (heir_in (windows two_items) (items two_items)) (items two_items)"
    by (simp add: heir_in_def two_defs)
  moreover have "list_all (attempt_state_ok microseconds) [old_attempt, new_attempt_row]"
    by (simp add: attempt_state_ok_def two_defs has_prefix_def actor_ok_def lease_ok_def microseconds_def
      RepositoryExtractionWorkMinLeaseMilliseconds_def RepositoryExtractionWorkMaxLeaseMilliseconds_def)
  then have "attempts_inv microseconds (set (map wi_work_item_id (items two_items))) (attempts two_items)"
    using numbered_two by (simp add: attempts_inv_def two_items_def old_attempt_def new_attempt_row_def old_item_def
      new_item_row_def finished_attempt_def finished_item_def attempt_row_def work_row_def attempt_a_def item_a_def claimed_item_def)
  moreover have "pairs_inv (items two_items) (attempts two_items)"
    by (simp add: pairs_inv_def backs_def two_defs microseconds_def)
  ultimately show ?thesis
    by (simp add: work_inv_def core_inv_def windows_inv_def decisions_inv_def consumptions_inv_def requests_inv_def)
      (simp add: two_items_def empty_db_def window_a_def)
qed

lemma blocked_db_inv: "work_inv microseconds blocked_db"
  using retry_1 retry_kept[OF _ two_items_inv timestamp_microseconds] by (auto simp: kept_def)

lemma blocked_db_blocked: "blocked blocked_db new_item_row new_attempt_row (work_row ''repo-work:1'' ''obs1'')"
  by (simp add: blocked_def running_pair_def blocked_db_def newer_in_def stream_of_def two_defs)

definition claim_again :: RepositoryExtractionWorkClaimInput where
  "claim_again = claim_in\<lparr>ci_RequestID := ''c9''\<rparr>"

definition idle_db :: workDB where
  "idle_db = blocked_db\<lparr>claim_requests := [\<lparr>cq_request_id = ''c9'', cq_repo_id = ''repo'',
      cq_extractor_name = ExtractorRepositoryGoParserCodeFact, cq_worker_id = ''worker'', cq_work_item_id = [],
      cq_claim_id = [], cq_claimed_at = None, cq_claimed = False,
      cq_payload_hash = repositoryExtractionWorkClaimPayloadHash ''repo'' ExtractorRepositoryGoParserCodeFact
        ''worker'' 10\<rparr>]\<rparr>"

lemma claim_idle: "\<exists>r. claimRepositoryExtractionWork microseconds claim_again (40 * Millisecond) blocked_db = Inr (r, idle_db)"
  by (simp add: claimRepositoryExtractionWork_def claim_again_def claim_in_def validateRepositoryExtractionWorkClaimInput_def
    validateRepositoryExtractionWorkExtractor_def readRepositoryExtractionWorkClaimRequest_def
    ensureAndLockRepositorySourceStream_def persistRepositoryExtractionWorkClaimRequest_def read_defs two_defs
    blocked_db_def idle_db_def)

text \<open>C9. Pending work that is older than the running work of its stream blocks the stream until a newer
  observation is scheduled: once the lease has expired, no sequence of claims, renewals, finishes, recoveries, classifications, retries and
  consumptions at later instants ever moves either of them.  Such a state is what a retry of the
  older work makes while the newer one runs (\<open>retry_1\<close>, \<open>blocked_db_blocked\<close>).\<close>

theorem stale_pending_blocks_stream:
  assumes "work_inv ts db" and "timestamp_column ts" and "blocked db b a w" and "ca_leaseExpiresAt a \<le> T"
    and "rtranclp (upkeep ts T) db db'"
  shows "blocked db' b a w"
proof -
  from assms(5) have "work_inv ts db' \<and> blocked db' b a w"
  proof (induction rule: rtranclp_induct)
    case (step y z)
    then have y: "work_inv ts y" "blocked y b a w" by simp_all
    have "work_inv ts z" using work_step_kept[OF upkeep_step[OF step.hyps(2)] y(1) assms(2)] by (simp add: kept_def)
    with upkeep_blocked[OF step.hyps(2) y(1) assms(2) y(2) assms(4)] show ?case by simp
  qed (use assms in simp)
  then show ?thesis by simp
qed

theorem stale_pending_blocks_stream_witness:
  "blocked idle_db new_item_row new_attempt_row (work_row ''repo-work:1'' ''obs1'')"
proof -
  obtain r where "claimRepositoryExtractionWork microseconds claim_again (40 * Millisecond) blocked_db = Inr (r, idle_db)"
    using claim_idle ..
  then have "upkeep microseconds (30 * Millisecond) blocked_db idle_db" by (rule upkeep.claim) simp
  then have "rtranclp (upkeep microseconds (30 * Millisecond)) blocked_db idle_db" by (rule r_into_rtranclp)
  then show ?thesis
    by (rule stale_pending_blocks_stream[OF blocked_db_inv timestamp_microseconds blocked_db_blocked, rotated])
      (simp add: new_attempt_row_def attempt_row_def attempt_a_def)
qed

end
