(* ===== verification/WorkBatch.thy ===== *)
theory WorkBatch
  imports WorkPreserve
begin

text \<open>
  What a batch of releases does to the rows of a table, position by position: a row that the batch
  names is released, every other row is untouched.  The controller that retries failed work and the
  maintenance of expired work both release work in batches.
\<close>

text \<open>
  A released row is pending, or superseded by newer pending work of its stream that is in the tables
  after the batch; it keeps no claim and no outcome.
\<close>

definition requeued :: "string \<Rightarrow> workDB \<Rightarrow> workItem \<Rightarrow> workItem \<Rightarrow> bool" where
  "requeued before db w w' \<longleftrightarrow> wi_status w = before \<and>
    (\<exists>status heir. w' = release_item status heir w \<and>
      (status = repositoryExtractionWorkPending \<and> heir = [] \<or>
       status = repositoryExtractionWorkSuperseded \<and>
        (\<exists>p\<in>set (items db). wi_work_item_id p = heir \<and> stream_of p = stream_of w \<and>
          wi_status p = repositoryExtractionWorkPending \<and> newer db p w)))"

definition released_items :: "string \<Rightarrow> string set \<Rightarrow> workDB \<Rightarrow> workDB \<Rightarrow> bool" where
  "released_items before ids db db' \<longleftrightarrow>
    list_all2 (\<lambda>w w'. if wi_work_item_id w \<in> ids then requeued before db' w w' else w' = w) (items db) (items db')"

definition expired_attempts ::
  "(time \<Rightarrow> time) \<Rightarrow> time \<Rightarrow> string set \<Rightarrow> workDB \<Rightarrow> workDB \<Rightarrow> bool" where
  "expired_attempts ts now claims db db' \<longleftrightarrow>
    list_all2 (\<lambda>a a'. if ca_claimID a \<in> claims
      then ca_status a = repositoryExtractionWorkRunning \<and> ca_leaseExpiresAt a \<le> now \<and>
        a' = a\<lparr>ca_status := repositoryExtractionWorkExpired, ca_expiredAt := Some (ts now)\<rparr>
      else a' = a) (attempts db) (attempts db')"

lemma list_all2_replace:
  assumes "list_all2 Q (replace x x' xs) ys"
    and "\<And>z y. z \<in> set xs \<Longrightarrow> y \<in> set ys \<Longrightarrow> Q (if z = x then x' else z) y \<Longrightarrow> P z y"
  shows "list_all2 P xs ys"
proof -
  have "list_all2 (\<lambda>z. Q (if z = x then x' else z)) xs ys"
    using assms(1) by (simp add: replace_def list_all2_map1)
  then show ?thesis by (rule list.rel_mono_strong) (rule assms(2))
qed

lemma released_items_none: "released_items before {} db db"
  by (simp add: released_items_def list_all2_same)

lemma expired_attempts_none: "expired_attempts ts now {} db db"
  by (simp add: expired_attempts_def list_all2_same)

text \<open>One release, followed by a batch that touches the released row no more.\<close>

lemma released_items_step:
  assumes w: "w \<in> set (items db)" "wi_status w = before" "released db w status heir" and k: "keys_ok db"
    and x: "items x = replace w (release_item status heir w) (items db)" "windows db' = windows db"
    and before: "before \<noteq> repositoryExtractionWorkPending" "before \<noteq> repositoryExtractionWorkSuperseded"
    and rest: "released_items before ids x db'"
  shows "released_items before (insert (wi_work_item_id w) ids) db db'"
  unfolding released_items_def
proof (rule list_all2_replace[OF rest[unfolded released_items_def x(1)]])
  fix z y
  assume z: "z \<in> set (items db)" and y: "y \<in> set (items db')"
    and Q: "if wi_work_item_id (if z = w then release_item status heir w else z) \<in> ids
      then requeued before db' (if z = w then release_item status heir w else z) y
      else y = (if z = w then release_item status heir w else z)"
  have st: "status = repositoryExtractionWorkPending \<or> status = repositoryExtractionWorkSuperseded"
    using w(3) by (auto simp: released_def)
  show "if wi_work_item_id z \<in> insert (wi_work_item_id w) ids then requeued before db' z y else y = z"
  proof (cases "z = w")
    case True
    have y: "y = release_item status heir w"
      using Q st before True by (auto simp: requeued_def release_item_def split: if_splits)
    have "\<exists>p\<in>set (items db'). wi_work_item_id p = heir \<and> stream_of p = stream_of w \<and>
      wi_status p = repositoryExtractionWorkPending \<and> newer db' p w"
      if sup: "status = repositoryExtractionWorkSuperseded"
    proof -
      obtain p where p: "p \<in> set (items db)" "wi_work_item_id p = heir" "stream_of p = stream_of w"
        "wi_status p = repositoryExtractionWorkPending" "newer db p w"
        using w(3) sup unfolding released_def stream_of_def by auto
      then have "p \<in> set (items x)" using w(2) before(1) by (auto simp: x(1) in_replace)
      then obtain n where n: "n < length (items x)" "items x ! n = p" by (auto simp: in_set_conv_nth)
      then have m: "n < length (items db')"
        "if wi_work_item_id p \<in> ids then requeued before db' p (items db' ! n) else items db' ! n = p"
        using rest by (auto simp: released_items_def list_all2_conv_all_nth)
      then have "items db' ! n = p" using p(4) before(1) by (auto simp: requeued_def split: if_splits)
      then have "p \<in> set (items db')" using m(1) nth_mem by fastforce
      with p x(2) show ?thesis by auto
    qed
    moreover have "status = repositoryExtractionWorkPending \<Longrightarrow> heir = []"
      using w(3) by (auto simp: released_def)
    ultimately show ?thesis using True y w(2) st unfolding requeued_def by auto
  next
    case False
    moreover have "wi_work_item_id z \<noteq> wi_work_item_id w" using False same_item[OF k z w(1)] by blast
    ultimately show ?thesis using Q unfolding if_not_P[OF False] by simp
  qed
qed

lemma expired_attempts_step:
  assumes a: "a \<in> set (attempts db)" "ca_status a = repositoryExtractionWorkRunning" "ca_leaseExpiresAt a \<le> now"
    and k: "keys_ok db"
    and x: "attempts x = replace a (a\<lparr>ca_status := repositoryExtractionWorkExpired, ca_expiredAt := Some (ts now)\<rparr>) (attempts db)"
    and rest: "expired_attempts ts now claims x db'"
  shows "expired_attempts ts now (insert (ca_claimID a) claims) db db'"
  unfolding expired_attempts_def
proof (rule list_all2_replace[OF rest[unfolded expired_attempts_def x]])
  let ?a = "a\<lparr>ca_status := repositoryExtractionWorkExpired, ca_expiredAt := Some (ts now)\<rparr>"
  fix z y
  assume z: "z \<in> set (attempts db)" and Q: "if ca_claimID (if z = a then ?a else z) \<in> claims
    then ca_status (if z = a then ?a else z) = repositoryExtractionWorkRunning \<and>
      ca_leaseExpiresAt (if z = a then ?a else z) \<le> now \<and>
      y = (if z = a then ?a else z)\<lparr>ca_status := repositoryExtractionWorkExpired, ca_expiredAt := Some (ts now)\<rparr>
    else y = (if z = a then ?a else z)"
  show "if ca_claimID z \<in> insert (ca_claimID a) claims
    then ca_status z = repositoryExtractionWorkRunning \<and> ca_leaseExpiresAt z \<le> now \<and>
      y = z\<lparr>ca_status := repositoryExtractionWorkExpired, ca_expiredAt := Some (ts now)\<rparr> else y = z"
  proof (cases "z = a")
    case True
    then have "y = ?a" using Q by (auto split: if_splits)
    with True a show ?thesis by simp
  next
    case False
    moreover have "ca_claimID z \<noteq> ca_claimID a" using False same_attempt[OF k z a(1)] by blast
    ultimately show ?thesis using Q unfolding if_not_P[OF False] by simp
  qed
qed

end
