(* ===== verification/WorkTickProperties.thy ===== *)
theory WorkTickProperties
  imports WorkTick WorkBlocked WorkBatch
begin

text \<open>
  The retry controller: a tick is a sequence of the steps of the queue that consumes exactly the due
  decisions of its batch, and one stream without pending work whose older failed work comes first
  aborts the whole batch.
\<close>

section \<open>A tick is a sequence of steps\<close>

lemma steps_trans: "work_steps ts db db' \<Longrightarrow> work_steps ts db' db'' \<Longrightarrow> work_steps ts db db''"
proof (rotate_tac, induction rule: work_steps.induct)
  case (more x y z)
  then show ?case using work_steps.more by blast
qed

lemma consume_each_steps:
  "consume_each ts i now ds db = Inr (cs, db') \<Longrightarrow> work_steps ts db db' \<and> length cs = length ds"
proof (induction ds arbitrary: db cs)
  case Nil
  then show ?case by (simp add: work_steps.none)
next
  case (Cons d ds)
  from Cons.prems obtain c x cs' where
    run: "consumeDueRepositoryExtractionWorkRetryDecision ts
      \<lparr>di_RequestID = repositoryExtractionWorkRetryControllerTickChildRequestID (ki_RequestID i) (ud_FailurePolicyRequestID d),
       di_FailurePolicyRequestID = ud_FailurePolicyRequestID d, di_WorkItemID = rw_WorkItemID (ud_Work d),
       di_ClaimID = ud_ClaimID d, di_ConsumerActorID = ki_ConsumerActorID i\<rparr> now db = Inr (c, x)"
    and rest: "consume_each ts i now ds x = Inr (cs', db')" and cs: "cs = c # cs'"
    by (auto simp: returns)
  have "work_steps ts db x" by (rule work_steps.more[OF work_steps.none work_step.consume[OF run]])
  with Cons.IH[OF rest] cs show ?case using steps_trans by auto
qed

lemma validate_rows_length: "validate_rows rs = Inr ds \<Longrightarrow> ds = map fst rs"
proof (induction rs arbitrary: ds)
  case (Cons r rs)
  from Cons.prems obtain d ds' where v: "validatePersistedRepositoryExtractionWorkDueRetryDecision r = Inr d"
    and rest: "validate_rows rs = Inr ds'" and ds: "ds = d # ds'" by (auto simp: returns)
  have "d = fst r" using v by (cases r) (simp add: validatePersistedRepositoryExtractionWorkDueRetryDecision_def Let_def split: if_splits)
  with Cons.IH[OF rest] ds show ?case by simp
qed simp

lemma query_due:
  assumes "queryDueRepositoryExtractionWorkRetryDecisions ts arrange limit now db = Inr ds"
  shows "1 \<le> limit" "limit \<le> 100" "ds = map fst (take (nat limit) (arrange (due_rows db (ts now))))" "length ds \<le> nat limit"
  using assms validate_rows_length[of "take (nat limit) (arrange (due_rows db (ts now)))" ds]
  by (auto simp: queryDueRepositoryExtractionWorkRetryDecisions_def
    validateRepositoryExtractionWorkDueRetryDecisionListInput_def split: if_splits)

lemma prepare_tick:
  assumes "prepareRepositoryExtractionWorkRetryControllerTick input = Inr (i, h)"
  shows "ki_RequestID i = trim_space (ki_RequestID input)" "ki_Limit i = ki_Limit input"
    "ki_ConsumerActorID i = trim_space (ki_ConsumerActorID input)" "actor_ok (ki_ConsumerActorID i)"
  using assms by (auto simp: prepareRepositoryExtractionWorkRetryControllerTick_def Let_def returns split: if_splits)

lemma persist_tick_work:
  "persistRepositoryExtractionWorkRetryControllerTick ts i h r db = Inr db' \<Longrightarrow> work_tables db' = work_tables db"
  by (auto simp: persistRepositoryExtractionWorkRetryControllerTick_def returns Let_def split: if_splits)

section \<open>What a tick does to the tables\<close>

abbreviation "child \<equiv> repositoryExtractionWorkRetryControllerTickChildRequestID"

lemma child_trim [simp]:
  "trim_space (repositoryExtractionWorkRetryControllerTickChildRequestID k p) =
    repositoryExtractionWorkRetryControllerTickChildRequestID k p"
  "repositoryExtractionWorkRetryControllerTickChildRequestID k p \<noteq> []"
  unfolding repositoryExtractionWorkRetryControllerTickChildRequestID_def stableID_def
  by (simp_all add: trim_hashed solid_def del: append.simps)

text \<open>The input with which the tick consumes a decision.\<close>

definition child_input ::
  "RepositoryExtractionWorkRetryControllerTickInput \<Rightarrow> RepositoryExtractionWorkDueRetryDecision \<Rightarrow>
   RepositoryExtractionWorkRetryDecisionConsumptionInput" where
  "child_input i d = \<lparr>di_RequestID = child (ki_RequestID i) (ud_FailurePolicyRequestID d),
     di_FailurePolicyRequestID = ud_FailurePolicyRequestID d, di_WorkItemID = rw_WorkItemID (ud_Work d),
     di_ClaimID = ud_ClaimID d, di_ConsumerActorID = ki_ConsumerActorID i\<rparr>"

lemma child_validated:
  assumes "validateRepositoryExtractionWorkRetryDecisionConsumptionInput (child_input i d) = Inr j"
  shows "di_RequestID j = child (ki_RequestID i) (ud_FailurePolicyRequestID d)"
    "di_WorkItemID j = trim_space (rw_WorkItemID (ud_Work d))"
    "di_FailurePolicyRequestID j = trim_space (ud_FailurePolicyRequestID d)" "di_ClaimID j = trim_space (ud_ClaimID d)"
  using assms by (auto simp: validateRepositoryExtractionWorkRetryDecisionConsumptionInput_def child_input_def Let_def
    split: if_splits)

text \<open>The result that a tick returns for a due decision, and the row that it stores for it.\<close>

definition consumption_of ::
  "RepositoryExtractionWorkRetryControllerTickInput \<Rightarrow> time \<Rightarrow> RepositoryExtractionWorkDueRetryDecision \<Rightarrow>
   RepositoryExtractionWorkRetryDecisionConsumptionResult \<Rightarrow> bool" where
  "consumption_of i now d r \<longleftrightarrow> dr_RequestID r = child (ki_RequestID i) (ud_FailurePolicyRequestID d) \<and>
    dr_FailurePolicyRequestID r = trim_space (ud_FailurePolicyRequestID d) \<and>
    rw_WorkItemID (dr_Work r) = trim_space (rw_WorkItemID (ud_Work d)) \<and> dr_ClaimID r = trim_space (ud_ClaimID d) \<and>
    dr_ConsumedAt r = now \<and> \<not> dr_Replayed r"

definition consumption_row_of ::
  "(time \<Rightarrow> time) \<Rightarrow> RepositoryExtractionWorkRetryControllerTickInput \<Rightarrow> time \<Rightarrow>
   RepositoryExtractionWorkDueRetryDecision \<Rightarrow> decisionConsumption \<Rightarrow> bool" where
  "consumption_row_of ts i now d q \<longleftrightarrow> dc_request_id q = child (ki_RequestID i) (ud_FailurePolicyRequestID d) \<and>
    dc_policy_request_id q = trim_space (ud_FailurePolicyRequestID d) \<and>
    dc_work_item_id q = trim_space (rw_WorkItemID (ud_Work d)) \<and> dc_claim_id q = trim_space (ud_ClaimID d) \<and>
    dc_policy_decision q = FailureDecisionRetry \<and> dc_consumed_at q = ts now"

text \<open>The consumption of one decision under an identity that no stored consumption bears.\<close>

lemma consume_fresh:
  assumes run: "consumeDueRepositoryExtractionWorkRetryDecision ts (child_input i d) now db = Inr (c, db')"
    and k: "keys_ok db"
    and fresh: "\<forall>q\<in>set (consumptions db). dc_request_id q \<noteq> child (ki_RequestID i) (ud_FailurePolicyRequestID d)"
  obtains w status heir q where "w \<in> set (items db)" "wi_status w = RepositoryExtractionWorkOutcomeFailed"
    "released db w status heir" "wi_work_item_id w = trim_space (rw_WorkItemID (ud_Work d))"
    "consumption_of i now d c" "consumption_row_of ts i now d q"
    "db' = db\<lparr>items := replace w (release_item status heir w) (items db), consumptions := consumptions db @ [q]\<rparr>"
proof (cases rule: consume_cases[OF run k])
  case 1
  then have "\<exists>q\<in>set (consumptions db). dc_request_id q = child (ki_RequestID i) (ud_FailurePolicyRequestID d)"
    using child_validated(1) by metis
  then show thesis using fresh by blast
next
  case (2 w a fin status heir p due q j)
  note j = child_validated[OF 2(18)]
  have w: "w \<in> set (items db)" "wi_status w = RepositoryExtractionWorkOutcomeFailed" using 2(1) by (simp_all add: failed_pair_def)
  have id: "wi_work_item_id w = trim_space (rw_WorkItemID (ud_Work d))" using 2(19) j(2) by simp
  have "consumption_of i now d c" unfolding consumption_of_def using 2(23-28) j by simp
  moreover have "consumption_row_of ts i now d q"
    unfolding consumption_row_of_def using 2(11,12,13,15,20,21,22) j id by simp
  ultimately show thesis by (rule that[OF w 2(3) id _ _ 2(17)])
qed

text \<open>The whole loop: every decision of the batch is consumed, in its order, and nothing else happens.\<close>

abbreviation batch_items :: "RepositoryExtractionWorkDueRetryDecision list \<Rightarrow> string set" where
  "batch_items ds \<equiv> set (map (\<lambda>d. trim_space (rw_WorkItemID (ud_Work d))) ds)"

lemma consume_each_effect:
  assumes "consume_each ts i now ds db = Inr (cs, db')" "work_inv ts db" "timestamp_column ts"
    "distinct (map (\<lambda>d. child (ki_RequestID i) (ud_FailurePolicyRequestID d)) ds)"
    "\<forall>q\<in>set (consumptions db). \<forall>d\<in>set ds. dc_request_id q \<noteq> child (ki_RequestID i) (ud_FailurePolicyRequestID d)"
  shows "list_all2 (consumption_of i now) ds cs \<and>
    (\<exists>qs. consumptions db' = consumptions db @ qs \<and> list_all2 (consumption_row_of ts i now) ds qs) \<and>
    released_items RepositoryExtractionWorkOutcomeFailed (batch_items ds) db db' \<and>
    attempts db' = attempts db \<and> policy_decisions db' = policy_decisions db \<and> windows db' = windows db"
  using assms
proof (induction ds arbitrary: db cs)
  case Nil
  then show ?case by (simp add: released_items_none)
next
  case (Cons d ds)
  from Cons.prems(1) obtain c x cs' where
    run: "consumeDueRepositoryExtractionWorkRetryDecision ts (child_input i d) now db = Inr (c, x)"
    and rest: "consume_each ts i now ds x = Inr (cs', db')" and cs: "cs = c # cs'"
    by (auto simp: returns child_input_def)
  have free: "\<forall>q\<in>set (consumptions db). dc_request_id q \<noteq> child (ki_RequestID i) (ud_FailurePolicyRequestID d)"
    using Cons.prems(5) by simp
  obtain w status heir q where w: "w \<in> set (items db)" "wi_status w = RepositoryExtractionWorkOutcomeFailed"
    "released db w status heir" and id: "wi_work_item_id w = trim_space (rw_WorkItemID (ud_Work d))"
    and c: "consumption_of i now d c" and q: "consumption_row_of ts i now d q"
    and x: "x = db\<lparr>items := replace w (release_item status heir w) (items db), consumptions := consumptions db @ [q]\<rparr>"
    by (rule consume_fresh[OF run work_inv_keys[OF Cons.prems(2)] free]) (rule that)
  have inv: "work_inv ts x" using consume_kept[OF run Cons.prems(2,3)] by (simp add: kept_def)
  have fresh: "\<forall>q\<in>set (consumptions x). \<forall>d\<in>set ds. dc_request_id q \<noteq> child (ki_RequestID i) (ud_FailurePolicyRequestID d)"
    using Cons.prems(4,5) q by (auto simp: x consumption_row_of_def)
  note IH = Cons.IH[OF rest inv Cons.prems(3) _ fresh]
  have ds: "distinct (map (\<lambda>d. child (ki_RequestID i) (ud_FailurePolicyRequestID d)) ds)" using Cons.prems(4) by simp
  obtain qs where e: "list_all2 (consumption_of i now) ds cs'" "consumptions db' = consumptions x @ qs"
    "list_all2 (consumption_row_of ts i now) ds qs"
    "released_items RepositoryExtractionWorkOutcomeFailed (batch_items ds) x db'" "attempts db' = attempts x"
    "policy_decisions db' = policy_decisions x" "windows db' = windows x" using IH[OF ds] by blast
  have "released_items RepositoryExtractionWorkOutcomeFailed (insert (wi_work_item_id w) (batch_items ds)) db db'"
    by (rule released_items_step[OF w work_inv_keys[OF Cons.prems(2)] _ _ _ _ e(4)]) (use e(7) in \<open>simp_all add: x\<close>)
  then have "released_items RepositoryExtractionWorkOutcomeFailed (batch_items (d # ds)) db db'" by (simp add: id)
  moreover have "\<exists>qs. consumptions db' = consumptions db @ qs \<and> list_all2 (consumption_row_of ts i now) (d # ds) qs"
    using e(2,3) q by (intro exI[of _ "q # qs"]) (simp add: x)
  ultimately show ?case using c e(1,5-7) cs by (simp add: x)
qed

lemma persist_items_rows:
  "persist_tick_items k n cs rows = Inr rows' \<Longrightarrow>
    \<exists>new. rows' = rows @ new \<and> map kt_consumption_request_id new = map dr_RequestID cs \<and>
      list_all (\<lambda>t. kt_tick_request_id t = k) new"
proof (induction cs arbitrary: n rows)
  case (Cons c cs)
  from Cons.prems obtain rows1 where
    rows1: "rows1 = rows @ [\<lparr>kt_tick_request_id = k, kt_item_ordinal = n, kt_consumption_request_id = dr_RequestID c\<rparr>]"
    and rest: "persist_tick_items k (n + 1) cs rows1 = Inr rows'"
    by (auto simp: returns insert_row_def split: if_splits)
  obtain new where "rows' = rows1 @ new" "map kt_consumption_request_id new = map dr_RequestID cs"
    "list_all (\<lambda>t. kt_tick_request_id t = k) new" using Cons.IH[OF rest] by blast
  then show ?case unfolding rows1
    by (intro exI[of _ "\<lparr>kt_tick_request_id = k, kt_item_ordinal = n, kt_consumption_request_id = dr_RequestID c\<rparr> # new"]) simp
qed simp

lemma persist_tick_rows:
  "persistRepositoryExtractionWorkRetryControllerTick ts i h r db = Inr db' \<Longrightarrow>
    \<exists>new. tick_items db' = tick_items db @ new \<and> map kt_consumption_request_id new = map dr_RequestID (kr_Consumptions r) \<and>
      list_all (\<lambda>t. kt_tick_request_id t = ki_RequestID i) new"
  by (auto simp: persistRepositoryExtractionWorkRetryControllerTick_def returns Let_def split: if_splits
    dest!: persist_items_rows)

lemma fresh_tick:
  assumes run: "runRepositoryExtractionWorkRetryControllerTick ts arrange input now db = Inr (r, db')"
    and i: "prepareRepositoryExtractionWorkRetryControllerTick input = Inr (i, h)"
    and fresh: "\<forall>q\<in>set (tick_requests db). kq_request_id q \<noteq> ki_RequestID i"
  obtains ds work where
    "queryDueRepositoryExtractionWorkRetryDecisions ts arrange (ki_Limit i) now (work_tables db) = Inr ds"
    "consume_each ts i now ds (work_tables db) = Inr (kr_Consumptions r, work)" "work_tables db' = work"
    "\<exists>new. tick_items db' = tick_items db @ new \<and> map kt_consumption_request_id new = map dr_RequestID (kr_Consumptions r) \<and>
      list_all (\<lambda>t. kt_tick_request_id t = ki_RequestID i) new"
proof -
  have none: "row (\<lambda>q. kq_request_id q = ki_RequestID i) (tick_requests db) = None" using fresh by (simp add: row_None)
  from run i none obtain ds cs work h' where
    ds: "queryDueRepositoryExtractionWorkRetryDecisions ts arrange (ki_Limit i) now (work_tables db) = Inr ds"
    and cs: "consume_each ts i now ds (work_tables db) = Inr (cs, work)" and r: "kr_Consumptions r = cs"
    and p: "persistRepositoryExtractionWorkRetryControllerTick ts i h' r (db\<lparr>work_tables := work\<rparr>) = Inr db'"
    unfolding runRepositoryExtractionWorkRetryControllerTick_def by (auto simp: returns Let_def split: if_splits)
  show thesis by (rule that[OF ds]) (use cs r persist_tick_work[OF p] persist_tick_rows[OF p] in simp_all)
qed

text \<open>C5. A successful tick of the retry controller consumes exactly the due decisions of its batch: the first ones
  in the order of the query, up to its limit of at most 100.  It returns and stores one consumption for
  each of them, in their order, under an identity derived from the tick and the decision; it releases
  the failed work that they name, to pending or superseded by newer pending work of its stream, and
  changes no other work, no attempt and no decision.  Each is a single step of the queue, so that every
  invariant of the queue is kept.  (The identities are hashes: no two decisions of the batch and no
  stored consumption may collide.)\<close>

theorem retry_tick_refines_steps:
  assumes "work_inv ts (work_tables db)" and "timestamp_column ts"
    and "prepareRepositoryExtractionWorkRetryControllerTick input = Inr (i, h)"
    and run: "runRepositoryExtractionWorkRetryControllerTick ts arrange input now db = Inr (r, db')"
    and batch: "batch = map fst (take (nat (ki_Limit i)) (arrange (due_rows (work_tables db) (ts now))))"
    and fresh: "\<forall>q\<in>set (tick_requests db). kq_request_id q \<noteq> ki_RequestID i"
      "distinct (map (\<lambda>d. child (ki_RequestID i) (ud_FailurePolicyRequestID d)) batch)"
      "\<forall>q\<in>set (consumptions (work_tables db)). \<forall>d\<in>set batch.
        dc_request_id q \<noteq> child (ki_RequestID i) (ud_FailurePolicyRequestID d)"
  shows "work_steps ts (work_tables db) (work_tables db') \<and> work_inv ts (work_tables db') \<and>
    1 \<le> ki_Limit i \<and> ki_Limit i \<le> 100 \<and>
    list_all2 (consumption_of i now) batch (kr_Consumptions r) \<and>
    (\<exists>qs. consumptions (work_tables db') = consumptions (work_tables db) @ qs \<and>
      list_all2 (consumption_row_of ts i now) batch qs) \<and>
    (\<exists>rows. tick_items db' = tick_items db @ rows \<and> list_all (\<lambda>t. kt_tick_request_id t = ki_RequestID i) rows \<and>
      map kt_consumption_request_id rows = map (\<lambda>d. child (ki_RequestID i) (ud_FailurePolicyRequestID d)) batch) \<and>
    released_items RepositoryExtractionWorkOutcomeFailed
      (set (map (\<lambda>d. trim_space (rw_WorkItemID (ud_Work d))) batch)) (work_tables db) (work_tables db') \<and>
    attempts (work_tables db') = attempts (work_tables db) \<and>
    policy_decisions (work_tables db') = policy_decisions (work_tables db)"
proof -
  obtain ds work where
    ds: "queryDueRepositoryExtractionWorkRetryDecisions ts arrange (ki_Limit i) now (work_tables db) = Inr ds"
    and cs: "consume_each ts i now ds (work_tables db) = Inr (kr_Consumptions r, work)" and db': "work_tables db' = work"
    and new: "\<exists>new. tick_items db' = tick_items db @ new \<and> map kt_consumption_request_id new = map dr_RequestID (kr_Consumptions r) \<and>
      list_all (\<lambda>t. kt_tick_request_id t = ki_RequestID i) new"
    using fresh_tick[OF run assms(3) fresh(1)] by metis
  note q = query_due[OF ds]
  have ds: "ds = batch" using q(3) batch by simp
  note e = consume_each_effect[OF cs assms(1,2) fresh(2,3)[folded ds]]
  have s: "work_steps ts (work_tables db) work" using consume_each_steps[OF cs] by simp
  have "map dr_RequestID (kr_Consumptions r) = map (\<lambda>d. child (ki_RequestID i) (ud_FailurePolicyRequestID d)) batch"
    using e by (auto simp: ds consumption_of_def list_all2_conv_all_nth intro!: nth_equalityI)
  moreover have "work_inv ts work" using work_steps_kept[OF s assms(1,2)] by (simp add: kept_def)
  ultimately show ?thesis using s e new db' ds q(1,2) by auto
qed

abbreviation "by_due \<equiv> sort_key (\<lambda>d. ud_RetryNotBefore (fst d))"

definition tick_in :: RepositoryExtractionWorkRetryControllerTickInput where
  "tick_in = \<lparr>ki_RequestID = ''k1'', ki_Limit = 10, ki_ConsumerActorID = ''actor''\<rparr>"

definition beside :: "workDB \<Rightarrow> controllerDB" where
  "beside work = \<lparr>work_tables = work, tick_requests = [], tick_items = []\<rparr>"

lemma prepare_tick_in: "\<exists>h. prepareRepositoryExtractionWorkRetryControllerTick tick_in = Inr (tick_in, h)"
  by (simp add: prepareRepositoryExtractionWorkRetryControllerTick_def tick_in_def trim_space_solid solid_def actor_ok_def
    Let_def validateRepositoryExtractionWorkDueRetryDecisionListInput_def)

lemmas consume_defs = consumeDueRepositoryExtractionWorkRetryDecision_def
  validateRepositoryExtractionWorkRetryDecisionConsumptionInput_def readRepositoryExtractionWorkRetryDecisionConsumption_def
  readRepositoryExtractionWorkFailurePolicyDecision_def failed_attempt_def retryFailedRepositoryExtractionWorkLocked_def
  release_status_def release_item_def persistRepositoryExtractionWorkRetryDecisionConsumption_def policy_defs

lemmas failed_defs = failed_def classified_def finished_item_def finished_attempt_def fail_in_def

lemma due_classified: "due_rows classified (5006 * Millisecond) =
  [due_decision (hd (policy_decisions classified)) (hd (attempts classified)) (hd (items classified)) (window_a 2)]"
  by (simp add: due_rows_def due_row_def same_text_def state_defs failed_defs microseconds_def)

lemma query_classified: "\<exists>d. queryDueRepositoryExtractionWorkRetryDecisions microseconds by_due 10 (5006 * Millisecond) classified = Inr [d] \<and>
  ud_FailurePolicyRequestID d = ''p1'' \<and> rw_WorkItemID (ud_Work d) = work_a \<and> ud_ClaimID d = claim_a"
proof -
  have m: "microseconds (5006 * Millisecond) = 5006 * Millisecond" by (simp add: microseconds_def)
  show ?thesis unfolding queryDueRepositoryExtractionWorkRetryDecisions_def m due_classified
    by (simp add: validateRepositoryExtractionWorkDueRetryDecisionListInput_def is_zero_time_def due_decision_def
      validatePersistedRepositoryExtractionWorkDueRetryDecision_def policy_defs Let_def state_defs failed_defs work_of_def
      microseconds_def)
qed

lemma tick_1: "\<exists>r db'. runRepositoryExtractionWorkRetryControllerTick microseconds by_due tick_in (5006 * Millisecond)
    (beside classified) = Inr (r, db')"
proof -
  obtain d where q: "queryDueRepositoryExtractionWorkRetryDecisions microseconds by_due 10 (5006 * Millisecond) classified = Inr [d]"
    and d: "ud_FailurePolicyRequestID d = ''p1''" "rw_WorkItemID (ud_Work d) = work_a" "ud_ClaimID d = claim_a"
    using query_classified by blast
  let ?i = "\<lparr>di_RequestID = repositoryExtractionWorkRetryControllerTickChildRequestID ''k1'' ''p1'',
    di_FailurePolicyRequestID = ''p1'', di_WorkItemID = work_a, di_ClaimID = claim_a, di_ConsumerActorID = ''actor''\<rparr>"
  have "\<exists>c x. consumeDueRepositoryExtractionWorkRetryDecision microseconds ?i (5006 * Millisecond) classified = Inr (c, x)"
    by (simp add: consume_defs read_defs state_defs failed_defs)
  then obtain c x where c:
    "consumeDueRepositoryExtractionWorkRetryDecision microseconds ?i (5006 * Millisecond) classified = Inr (c, x)" by blast
  then show ?thesis using q d
    by (simp add: runRepositoryExtractionWorkRetryControllerTick_def tick_in_def beside_def
      prepareRepositoryExtractionWorkRetryControllerTick_def trim_space_solid solid_def actor_ok_def Let_def row_def
      is_zero_time_def validateRepositoryExtractionWorkDueRetryDecisionListInput_def
      persistRepositoryExtractionWorkRetryControllerTick_def insert_row_def)
qed

theorem retry_tick_refines_steps_witness:
  "\<exists>r db' c q. runRepositoryExtractionWorkRetryControllerTick microseconds by_due tick_in (5006 * Millisecond)
      (beside classified) = Inr (r, db') \<and> kr_Consumptions r = [c] \<and> dr_RequestID c = child ''k1'' ''p1'' \<and>
    consumptions (work_tables db') = [q] \<and> dc_work_item_id q = work_a \<and>
    released_items RepositoryExtractionWorkOutcomeFailed {work_a} classified (work_tables db')"
proof -
  obtain r db' where run: "runRepositoryExtractionWorkRetryControllerTick microseconds by_due tick_in (5006 * Millisecond)
    (beside classified) = Inr (r, db')" using tick_1 by blast
  obtain p where "classifyFailedRepositoryExtractionWork microseconds classify_in (6 * Millisecond) failed = Inr (p, classified)"
    using classify_1 ..
  then have "work_step microseconds failed classified" by (rule work_step.classify)
  then have inv: "work_inv microseconds (work_tables (beside classified))"
    using work_reachable_inv[OF reach_step[OF reach_failed] timestamp_microseconds] by (simp add: beside_def)
  have m: "microseconds (5006 * Millisecond) = 5006 * Millisecond" by (simp add: microseconds_def)
  obtain h where prep: "prepareRepositoryExtractionWorkRetryControllerTick tick_in = Inr (tick_in, h)" using prepare_tick_in by blast
  obtain d where batch: "[d] = map fst (take (nat (ki_Limit tick_in))
      (by_due (due_rows (work_tables (beside classified)) (microseconds (5006 * Millisecond)))))"
    and d: "ud_FailurePolicyRequestID d = ''p1''" "rw_WorkItemID (ud_Work d) = work_a"
    using due_classified unfolding m by (simp add: beside_def tick_in_def due_decision_def work_of_def state_defs failed_defs)
  have none: "consumptions classified = []" by (simp add: state_defs failed_defs)
  have "trim_space work_a = work_a" by (simp add: trim_space_solid solid_def)
  with retry_tick_refines_steps[OF inv timestamp_microseconds prep run batch]
  show ?thesis using run d none
    by (auto simp: beside_def tick_in_def list_all2_Cons1 consumption_of_def consumption_row_of_def)
qed

section \<open>A batch that always fails\<close>

text \<open>
  Older work \<open>v\<close> of a stream is pending, newer work \<open>w\<close> of it has failed, and nothing stored bears one of
  the request ids of the rest of the batch.
\<close>

definition in_the_way ::
  "workDB \<Rightarrow> workItem \<Rightarrow> workItem \<Rightarrow> string list \<Rightarrow> bool" where
  "in_the_way db v w ids \<longleftrightarrow> v \<in> set (items db) \<and> wi_status v = repositoryExtractionWorkPending \<and>
    w \<in> set (items db) \<and> stream_of v = stream_of w \<and> newer db w v \<and> distinct ids \<and>
    (\<forall>c\<in>set (consumptions db). dc_request_id c \<notin> set ids)"

lemma consume_in_the_way:
  assumes run: "consumeDueRepositoryExtractionWorkRetryDecision ts (child_input i d) now db = Inr (c, db')"
    and inv: "work_inv ts db" and way: "in_the_way db v w (child (ki_RequestID i) (ud_FailurePolicyRequestID d) # ids)"
  shows "in_the_way db' v w ids" "trim_space (rw_WorkItemID (ud_Work d)) \<noteq> wi_work_item_id w"
proof -
  have core: "core_inv ts db" using inv by (simp add: work_inv_def)
  have k: "keys_ok db" by (rule work_inv_keys[OF inv])
  note way = way[unfolded in_the_way_def]
  have "in_the_way db' v w ids \<and> trim_space (rw_WorkItemID (ud_Work d)) \<noteq> wi_work_item_id w"
  proof (cases rule: consume_cases[OF run k])
    case 1
    then have "\<exists>c\<in>set (consumptions db). dc_request_id c = child (ki_RequestID i) (ud_FailurePolicyRequestID d)"
      using child_validated(1) by metis
    then show ?thesis using way by auto
  next
    case (2 x y fin status heir p due q j)
    have x: "wi_status x = RepositoryExtractionWorkOutcomeFailed" "x \<in> set (items db)"
      using 2(1) by (simp_all add: failed_pair_def)
    have "x \<noteq> w"
    proof
      assume "x = w"
      then consider "readPendingRepositoryExtractionWork db (wi_repo_id w) (wi_extractor_name w) = None"
        | u where "u \<in> set (items db)" "stream_of u = stream_of w" "wi_status u = repositoryExtractionWorkPending" "newer db u w"
        using 2(3) unfolding released_def stream_of_def by force
      then show False
      proof cases
        case 1
        then show False using pending_none[OF core] way by (auto simp: stream_of_def)
      next
        case 2
        then have "u = v" using status_one[OF core, of v repositoryExtractionWorkPending] way by simp
        then show False using newer_asym[OF core_parts(1)[OF core]] 2(4) way by blast
      qed
    qed
    moreover have "x \<noteq> v" using x way by auto
    moreover have "wi_work_item_id x = trim_space (rw_WorkItemID (ud_Work d))"
      using child_validated(2)[OF 2(18)] 2(19) by simp
    moreover have "dc_request_id q = child (ki_RequestID i) (ud_FailurePolicyRequestID d)"
      using child_validated(1)[OF 2(18)] 2(20) by simp
    ultimately show ?thesis using 2(17) way x same_item[OF k, of x w] by (auto simp: in_the_way_def in_replace)
  qed
  then show "in_the_way db' v w ids" "trim_space (rw_WorkItemID (ud_Work d)) \<noteq> wi_work_item_id w" by simp_all
qed

lemma each_in_the_way:
  assumes "work_inv ts db" "timestamp_column ts"
    and "in_the_way db v w (map (\<lambda>d. child (ki_RequestID i) (ud_FailurePolicyRequestID d)) ds)"
    and "\<exists>d\<in>set ds. trim_space (rw_WorkItemID (ud_Work d)) = wi_work_item_id w"
  shows "\<exists>e. consume_each ts i now ds db = Inl e"
  using assms
proof (induction ds arbitrary: db)
  case (Cons d ds)
  show ?case
  proof (cases "consumeDueRepositoryExtractionWorkRetryDecision ts (child_input i d) now db")
    case (Inl e)
    then show ?thesis by (simp add: child_input_def)
  next
    case (Inr p)
    then obtain c x where run: "consumeDueRepositoryExtractionWorkRetryDecision ts (child_input i d) now db = Inr (c, x)"
      by (cases p) auto
    note step = consume_in_the_way[OF run Cons.prems(1) Cons.prems(3)[simplified]]
    have "work_inv ts x" using consume_kept[OF run Cons.prems(1,2)] by (simp add: kept_def)
    moreover have "\<exists>d\<in>set ds. trim_space (rw_WorkItemID (ud_Work d)) = wi_work_item_id w"
      using Cons.prems(4) step(2) by auto
    ultimately obtain e where "consume_each ts i now ds x = Inl e" using Cons.IH[OF _ Cons.prems(2) step(1)] by blast
    with run show ?thesis by (simp add: child_input_def)
  qed
qed simp

text \<open>With no pending work in the stream, the first consumption puts its item in the way.\<close>

lemma first_in_the_way:
  assumes run: "consumeDueRepositoryExtractionWorkRetryDecision ts (child_input i d) now db = Inr (c, db')"
    and inv: "work_inv ts db" and v: "v \<in> set (items db)" "wi_work_item_id v = trim_space (rw_WorkItemID (ud_Work d))"
    and w: "w \<in> set (items db)" "stream_of v = stream_of w" "newer db w v"
    and none: "\<forall>x\<in>set (items db). wi_status x = repositoryExtractionWorkPending \<longrightarrow> stream_of x \<noteq> stream_of v"
    and ids: "distinct (child (ki_RequestID i) (ud_FailurePolicyRequestID d) # ids)"
      "\<forall>c\<in>set (consumptions db). dc_request_id c \<notin> set (child (ki_RequestID i) (ud_FailurePolicyRequestID d) # ids)"
  shows "\<exists>v'. in_the_way db' v' w ids"
proof (cases rule: consume_cases[OF run work_inv_keys[OF inv]])
  case 1
  then have "\<exists>c\<in>set (consumptions db). dc_request_id c = child (ki_RequestID i) (ud_FailurePolicyRequestID d)"
    using child_validated(1) by metis
  then show ?thesis using ids(2) by auto
next
  case (2 x y fin status heir p due q j)
  have core: "core_inv ts db" using inv by (simp add: work_inv_def)
  have "wi_work_item_id x = wi_work_item_id v" using child_validated(2)[OF 2(18)] 2(19) v(2) by simp
  moreover have "x \<in> set (items db)" using 2(1) by (simp add: failed_pair_def)
  ultimately have x: "x = v" using same_item[OF work_inv_keys[OF inv]] v(1) by blast
  have status: "status = repositoryExtractionWorkPending" "heir = []"
    using 2(3) none unfolding released_def x stream_of_def by auto
  let ?v = "release_item status heir v"
  have "w \<noteq> v"
  proof
    assume "w = v"
    then show False using newer_asym[OF core_parts(1)[OF core] w(3)] w(3) by simp
  qed
  moreover have "wi_status ?v = repositoryExtractionWorkPending" "stream_of ?v = stream_of v" "newer db w ?v = newer db w v"
    by (simp_all add: release_item_def status stream_of_def newer_in_def)
  moreover have "dc_request_id q = child (ki_RequestID i) (ud_FailurePolicyRequestID d)"
    using child_validated(1)[OF 2(18)] 2(20) by simp
  ultimately have "in_the_way db' ?v w ids"
    using 2(17) x v(1) w ids by (auto simp: in_the_way_def in_replace)
  then show ?thesis ..
qed

text \<open>C17. One stream can stop the retries of all streams.  If the first due decision of a batch belongs to failed
  work of a stream with no pending work, and a later one to newer failed work of the same stream,
  then the first retry makes the older work pending, the second is refused as a conflict, and the
  whole tick fails and is rolled back, whatever else is in the batch; so does every later tick that
  finds the same decisions and still no pending work of the stream.  (The only other case is a collision of two request identities.)\<close>

theorem retry_tick_aborts:
  assumes "work_inv ts (work_tables db)" and "timestamp_column ts"
    and "prepareRepositoryExtractionWorkRetryControllerTick input = Inr (i, h)" and "now \<noteq> 0"
    and fresh: "\<forall>q\<in>set (tick_requests db). kq_request_id q \<noteq> ki_RequestID i"
      "\<forall>c\<in>set (consumptions (work_tables db)). \<forall>d\<in>set (d1 # ds). dc_request_id c \<noteq> child (ki_RequestID i) (ud_FailurePolicyRequestID d)"
    and batch: "queryDueRepositoryExtractionWorkRetryDecisions ts arrange (ki_Limit i) now (work_tables db) = Inr (d1 # ds)"
    and v: "v \<in> set (items (work_tables db))" "wi_work_item_id v = trim_space (rw_WorkItemID (ud_Work d1))"
      "\<forall>x\<in>set (items (work_tables db)). wi_status x = repositoryExtractionWorkPending \<longrightarrow> stream_of x \<noteq> stream_of v"
    and w: "w \<in> set (items (work_tables db))" "stream_of v = stream_of w" "newer (work_tables db) w v"
      "\<exists>d\<in>set ds. wi_work_item_id w = trim_space (rw_WorkItemID (ud_Work d))"
  shows "(\<exists>e. runRepositoryExtractionWorkRetryControllerTick ts arrange input now db = Inl e) \<or>
    \<not> distinct (map (\<lambda>d. child (ki_RequestID i) (ud_FailurePolicyRequestID d)) (d1 # ds))"
proof (rule disjCI)
  assume "\<not> \<not> distinct (map (\<lambda>d. child (ki_RequestID i) (ud_FailurePolicyRequestID d)) (d1 # ds))"
  then have ids: "distinct (map (\<lambda>d. child (ki_RequestID i) (ud_FailurePolicyRequestID d)) (d1 # ds))" by simp
  let ?ids = "map (\<lambda>d. child (ki_RequestID i) (ud_FailurePolicyRequestID d)) ds"
  let ?db = "work_tables db"
  have "\<exists>e. consume_each ts i now (d1 # ds) ?db = Inl e"
  proof (cases "consumeDueRepositoryExtractionWorkRetryDecision ts (child_input i d1) now ?db")
    case (Inl e)
    then show ?thesis by (simp add: child_input_def)
  next
    case (Inr p)
    then obtain c x where run: "consumeDueRepositoryExtractionWorkRetryDecision ts (child_input i d1) now ?db = Inr (c, x)"
      by (cases p) auto
    obtain v' where way: "in_the_way x v' w ?ids"
      using first_in_the_way[OF run assms(1) v(1,2) w(1-3) v(3), of ?ids] ids fresh(2) by auto
    have "work_inv ts x" using consume_kept[OF run assms(1,2)] by (simp add: kept_def)
    moreover have "\<exists>d\<in>set ds. trim_space (rw_WorkItemID (ud_Work d)) = wi_work_item_id w"
      using w(4) by (blast intro: sym)
    ultimately have "\<exists>e. consume_each ts i now ds x = Inl e" by (rule each_in_the_way[OF _ assms(2) way])
    then obtain e where "consume_each ts i now ds x = Inl e" ..
    with run show ?thesis by (simp add: child_input_def)
  qed
  moreover have "row (\<lambda>q. kq_request_id q = ki_RequestID i) (tick_requests db) = None" using fresh(1) by (simp add: row_None)
  ultimately show "\<exists>e. runRepositoryExtractionWorkRetryControllerTick ts arrange input now db = Inl e"
    using assms(3,4) batch by (auto simp: runRepositoryExtractionWorkRetryControllerTick_def is_zero_time_def)
qed

text \<open>
  Such a batch.  The work of both observations has failed at 5 ms, and the policy has decided to retry
  each of them.
\<close>

definition failed_item :: "string \<Rightarrow> workItem \<Rightarrow> workItem" where
  "failed_item c w = finished_item microseconds fail_in (5 * Millisecond) (claimed_item c ''worker'' (3 * Millisecond) w)"

definition failed_attempt_row :: "string \<Rightarrow> string \<Rightarrow> repositoryExtractionWorkClaimAttempt" where
  "failed_attempt_row c i = finished_attempt microseconds fail_in (5 * Millisecond) (attempt_row c i (13 * Millisecond))"

definition retry_decision :: "string \<Rightarrow> string \<Rightarrow> string \<Rightarrow> policyDecision" where
  "retry_decision p i c = (hd (policy_decisions classified))\<lparr>pd_request_id := p, pd_work_item_id := i, pd_claim_id := c\<rparr>"

definition old_failed :: workItem where
  "old_failed = failed_item ''work-claim:1'' (work_row ''repo-work:1'' ''obs1'')"

definition new_failed :: workItem where
  "new_failed = failed_item ''work-claim:2'' (work_row ''repo-work:2'' ''obs2'')"

definition two_failed :: workDB where
  "two_failed = two_items\<lparr>items := [old_failed, new_failed],
    attempts := [failed_attempt_row ''work-claim:1'' ''repo-work:1'', failed_attempt_row ''work-claim:2'' ''repo-work:2''],
    policy_decisions := [retry_decision ''p1'' ''repo-work:1'' ''work-claim:1'', retry_decision ''p2'' ''repo-work:2'' ''work-claim:2'']\<rparr>"

lemmas two_failed_defs = two_failed_def two_items_def old_failed_def new_failed_def failed_item_def failed_attempt_row_def
  retry_decision_def classified_def work_row_def attempt_row_def finished_item_def finished_attempt_def claimed_item_def
  attempt_a_def item_a_def window_a_def fail_in_def empty_db_def

lemma two_failed_inv: "work_inv microseconds two_failed"
proof -
  have "items_inv (windows two_failed) (set (streams two_failed)) (items two_failed)"
    by (simp add: items_inv_def two_failed_defs item_state_ok_def observed_in_def stream_of_def one_per_stream_def
      unclaimed_def claimed_by_worker_def no_outcome_def microseconds_def)
  moreover have "list_all (heir_in (windows two_failed) (items two_failed)) (items two_failed)"
    by (simp add: heir_in_def two_failed_defs)
  moreover have "list_all (attempt_state_ok microseconds) (attempts two_failed)"
    by (simp add: attempt_state_ok_def two_failed_defs has_prefix_def actor_ok_def lease_ok_def microseconds_def
      RepositoryExtractionWorkMinLeaseMilliseconds_def RepositoryExtractionWorkMaxLeaseMilliseconds_def)
  moreover have "numbered (attempts two_failed)"
    by (simp add: numbered_def attempt_numbers_def two_failed_defs)
  ultimately have "items_inv (windows two_failed) (set (streams two_failed)) (items two_failed) \<and>
    list_all (heir_in (windows two_failed) (items two_failed)) (items two_failed) \<and>
    attempts_inv microseconds (set (map wi_work_item_id (items two_failed))) (attempts two_failed)"
    by (simp add: attempts_inv_def) (simp add: two_failed_defs)
  moreover have "pairs_inv (items two_failed) (attempts two_failed)"
    by (simp add: pairs_inv_def backs_def two_failed_defs microseconds_def)
  moreover have "decisions_inv microseconds (attempts two_failed) (policy_decisions two_failed)"
    by (simp add: decisions_inv_def two_failed_defs decision_of_def microseconds_def policy_defs)
  ultimately show ?thesis
    by (simp add: work_inv_def core_inv_def windows_inv_def consumptions_inv_def requests_inv_def)
      (simp add: two_failed_def two_items_def empty_db_def window_a_def)
qed

abbreviation "due_1 \<equiv> fst (due_decision (retry_decision ''p1'' ''repo-work:1'' ''work-claim:1'')
  (failed_attempt_row ''work-claim:1'' ''repo-work:1'') old_failed ((window_a 1)\<lparr>gw_id := ''obs1''\<rparr>))"

abbreviation "due_2 \<equiv> fst (due_decision (retry_decision ''p2'' ''repo-work:2'' ''work-claim:2'')
  (failed_attempt_row ''work-claim:2'' ''repo-work:2'') new_failed ((window_a 1)\<lparr>gw_id := ''obs2'', gw_number := 2\<rparr>))"

lemma due_two_failed: "due_rows two_failed (5006 * Millisecond) =
  [due_decision (retry_decision ''p1'' ''repo-work:1'' ''work-claim:1'') (failed_attempt_row ''work-claim:1'' ''repo-work:1'')
     old_failed ((window_a 1)\<lparr>gw_id := ''obs1''\<rparr>),
   due_decision (retry_decision ''p2'' ''repo-work:2'' ''work-claim:2'') (failed_attempt_row ''work-claim:2'' ''repo-work:2'')
     new_failed ((window_a 1)\<lparr>gw_id := ''obs2'', gw_number := 2\<rparr>)]"
  by (simp add: due_rows_def due_row_def same_text_def two_failed_defs microseconds_def)

lemma query_two_failed:
  "queryDueRepositoryExtractionWorkRetryDecisions microseconds by_due 10 (5006 * Millisecond) two_failed = Inr [due_1, due_2]"
proof -
  have m: "microseconds (5006 * Millisecond) = 5006 * Millisecond" by (simp add: microseconds_def)
  show ?thesis unfolding queryDueRepositoryExtractionWorkRetryDecisions_def m due_two_failed
    by (simp add: validateRepositoryExtractionWorkDueRetryDecisionListInput_def is_zero_time_def due_decision_def
      validatePersistedRepositoryExtractionWorkDueRetryDecision_def policy_defs Let_def two_failed_defs work_of_def
      microseconds_def)
qed

theorem retry_tick_aborts_witness:
  "(\<exists>e. runRepositoryExtractionWorkRetryControllerTick microseconds by_due tick_in (5006 * Millisecond) (beside two_failed) = Inl e) \<or>
    child ''k1'' ''p1'' = child ''k1'' ''p2''"
proof -
  obtain h where p: "prepareRepositoryExtractionWorkRetryControllerTick tick_in = Inr (tick_in, h)" using prepare_tick_in ..
  have "(\<exists>e. runRepositoryExtractionWorkRetryControllerTick microseconds by_due tick_in (5006 * Millisecond) (beside two_failed) = Inl e) \<or>
    \<not> distinct (map (\<lambda>d. child (ki_RequestID tick_in) (ud_FailurePolicyRequestID d)) [due_1, due_2])"
  proof (rule retry_tick_aborts[where db = "beside two_failed" and v = old_failed and w = new_failed, OF _ timestamp_microseconds p])
    show "work_inv microseconds (work_tables (beside two_failed))" by (simp add: beside_def two_failed_inv)
    show "queryDueRepositoryExtractionWorkRetryDecisions microseconds by_due (ki_Limit tick_in) (5006 * Millisecond)
      (work_tables (beside two_failed)) = Inr [due_1, due_2]" using query_two_failed by (simp add: beside_def tick_in_def)
  qed (simp_all add: beside_def due_decision_def work_of_def trim_space_solid solid_def newer_in_def stream_of_def two_failed_defs)
  then show ?thesis by (simp add: tick_in_def due_decision_def retry_decision_def)
qed

end
