(* ===== verification/WorkExecution.thy ===== *)
theory WorkExecution
  imports WorkRetry
begin

text \<open>
  Executions, their heartbeats and repairs: the durable parts of
  \<open>repository_extraction_work_execution.go\<close>, \<open>repository_extraction_work_execution_heartbeat.go\<close> and
  \<open>repository_extraction_work_execution_repair.go\<close>.  An execution reserves a running claim before the
  extractor runs, extends its lease while it runs, and records why it failed; when its lease has
  expired the claim is released by a repair.  The extractor itself is not modelled.
\<close>

abbreviation "ErrorRepositoryWorkExecutionFailed \<equiv> ''repository_work_execution_failed''"
abbreviation "RepositoryExtractionWorkExecutionRepairReasonLeaseExpired \<equiv> ''lease_expired''"

section \<open>Data\<close>

record RepositoryExtractionWorkExecutionInput =
  ei_RequestID :: string
  ei_WorkItemID :: string
  ei_ClaimID :: string
  ei_WorkerID :: string
  ei_WorkspaceRoot :: string

record repositoryExtractionWorkExecutionRequest =
  er_input :: RepositoryExtractionWorkExecutionInput
  er_repositorySnapshotRequestID :: string
  er_extractorRequestID :: string
  er_finishRequestID :: string
  er_requestPayloadHash :: string
  er_work :: RepositoryExtractionWork
  er_workRecord :: repositoryExtractionWorkRecord
  er_heartbeatLeaseMilliseconds :: int
  er_heartbeatCount :: int
  er_leaseExpiresAt :: time
  er_requiresHeartbeat :: bool
  er_failureClass :: string
  er_failureMessage :: string
  er_failedAt :: "time option"

text \<open>The zero values of the structs.\<close>

definition no_work :: RepositoryExtractionWork where
  "no_work = \<lparr>rw_WorkItemID = [], rw_RepoID = [], rw_ExtractorName = [], rw_ObservationID = [],
    rw_ObservationNumber = 0, rw_ChangeToken = [], rw_HeadCommitSHA = []\<rparr>"

definition no_record :: repositoryExtractionWorkRecord where
  "no_record = \<lparr>wr_work = no_work, wr_status = [], wr_claimID = [], wr_claimedBy = [], wr_claimedAt = None,
    wr_sourceGenerationID = [], wr_finishedAt = None, wr_failureClass = [], wr_failureMessage = []\<rparr>"

text \<open>Rows of \<open>repository_extraction_work_execution_requests\<close> and \<open>_repairs\<close>.\<close>

record executionRow =
  xe_request_id :: string
  xe_work_item_id :: string
  xe_claim_id :: string
  xe_worker_id :: string
  xe_snapshot_request_id :: string
  xe_extractor_request_id :: string
  xe_finish_request_id :: string
  xe_lease_milliseconds :: int
  xe_heartbeat_count :: int
  xe_payload_hash :: string
  xe_failure_class :: string
  xe_failure_message :: string
  xe_failed_at :: "time option"

record repairRow =
  xr_request_id :: string
  xr_execution_request_id :: string
  xr_work_item_id :: string
  xr_claim_id :: string
  xr_worker_id :: string
  xr_actor_id :: string
  xr_reason :: string
  xr_lease_expires_at :: time
  xr_disposition :: string
  xr_superseded_by :: string
  xr_repaired_at :: time
  xr_payload_hash :: string

record executionDB =
  work_db :: workDB
  executions :: "executionRow list"
  repairs :: "repairRow list"

section \<open>Requests\<close>

definition repositoryExtractionWorkExecutionChildRequestID :: "string \<Rightarrow> string \<Rightarrow> string \<Rightarrow> string" where
  "repositoryExtractionWorkExecutionChildRequestID prefix kd requestID =
    stableID prefix kd (JObj [(''execution_request_id'', JStr requestID)])"

definition repositoryExtractionWorkExecutionPayloadHash :: "RepositoryExtractionWorkExecutionInput \<Rightarrow> string" where
  "repositoryExtractionWorkExecutionPayloadHash i =
    contentHash (marshal (JObj [(''work_item_id'', JStr (ei_WorkItemID i)), (''claim_id'', JStr (ei_ClaimID i)),
      (''worker_id'', JStr (ei_WorkerID i)), (''workspace_root'', JStr (ei_WorkspaceRoot i))]))"

text \<open>\<open>canonicalDirectory\<close> asks the file system: it is a parameter.\<close>

definition prepareRepositoryExtractionWorkExecution ::
  "(string \<Rightarrow> string ingestion) \<Rightarrow> RepositoryExtractionWorkExecutionInput \<Rightarrow>
   repositoryExtractionWorkExecutionRequest ingestion" where
  "prepareRepositoryExtractionWorkExecution canonicalDirectory input =
    (let i = input\<lparr>ei_RequestID := trim_space (ei_RequestID input), ei_WorkItemID := trim_space (ei_WorkItemID input),
       ei_ClaimID := trim_space (ei_ClaimID input), ei_WorkerID := trim_space (ei_WorkerID input)\<rparr> in
     if ei_RequestID i = [] then Inl (Domain ErrorInvalidInput)
     else if \<not> has_prefix (ei_WorkItemID i) work_prefix then Inl (Domain ErrorInvalidRecordID)
     else if \<not> has_prefix (ei_ClaimID i) claim_prefix then Inl (Domain ErrorInvalidRecordID)
     else if \<not> actor_ok (ei_WorkerID i) then Inl (Domain ErrorInvalidInput) else
     and_then (canonicalDirectory (ei_WorkspaceRoot i)) (\<lambda>workspaceRoot.
     let i = i\<lparr>ei_WorkspaceRoot := workspaceRoot\<rparr> in
     Inr \<lparr>er_input = i,
       er_repositorySnapshotRequestID = repositoryExtractionWorkExecutionChildRequestID
         ''work-exec-snapshot:'' ''repository_extraction_work_execution_snapshot'' (ei_RequestID i),
       er_extractorRequestID = repositoryExtractionWorkExecutionChildRequestID
         ''work-exec-extractor:'' ''repository_extraction_work_execution_extractor'' (ei_RequestID i),
       er_finishRequestID = repositoryExtractionWorkExecutionChildRequestID
         ''work-exec-finish:'' ''repository_extraction_work_execution_finish'' (ei_RequestID i),
       er_requestPayloadHash = repositoryExtractionWorkExecutionPayloadHash i, er_work = no_work,
       er_workRecord = no_record, er_heartbeatLeaseMilliseconds = 0, er_heartbeatCount = 0, er_leaseExpiresAt = 0,
       er_requiresHeartbeat = False, er_failureClass = [], er_failureMessage = [], er_failedAt = None\<rparr>))"

definition readRepositoryExtractionWorkExecutionRequest ::
  "executionDB \<Rightarrow> string \<Rightarrow> repositoryExtractionWorkExecutionRequest option ingestion" where
  "readRepositoryExtractionWorkExecutionRequest db requestID =
    (case row (\<lambda>e. xe_request_id e = requestID) (executions db) of
       None \<Rightarrow> Inr None
     | Some e \<Rightarrow>
         and_then (readRepositoryExtractionWorkByID (work_db db) (xe_work_item_id e)) (\<lambda>work.
         Inr (Some \<lparr>er_input = \<lparr>ei_RequestID = xe_request_id e, ei_WorkItemID = xe_work_item_id e,
             ei_ClaimID = xe_claim_id e, ei_WorkerID = xe_worker_id e, ei_WorkspaceRoot = []\<rparr>,
           er_repositorySnapshotRequestID = xe_snapshot_request_id e, er_extractorRequestID = xe_extractor_request_id e,
           er_finishRequestID = xe_finish_request_id e, er_requestPayloadHash = xe_payload_hash e,
           er_work = wr_work work, er_workRecord = work, er_heartbeatLeaseMilliseconds = xe_lease_milliseconds e,
           er_heartbeatCount = xe_heartbeat_count e, er_leaseExpiresAt = 0, er_requiresHeartbeat = False,
           er_failureClass = xe_failure_class e, er_failureMessage = xe_failure_message e,
           er_failedAt = xe_failed_at e\<rparr>)))"

definition readRepositoryExtractionWorkExecutionOwner :: "executionDB \<Rightarrow> string \<Rightarrow> string option" where
  "readRepositoryExtractionWorkExecutionOwner db claimID =
    map_option xe_request_id (row (\<lambda>e. xe_claim_id e = claimID) (executions db))"

text \<open>The unique keys of an execution.  Its lease is that of the attempt, whose column has the same check.\<close>

definition execution_clash :: "executionRow \<Rightarrow> executionRow \<Rightarrow> bool" where
  "execution_clash e f \<longleftrightarrow> xe_request_id f = xe_request_id e \<or> xe_claim_id f = xe_claim_id e \<or>
    xe_snapshot_request_id f = xe_snapshot_request_id e \<or> xe_extractor_request_id f = xe_extractor_request_id e \<or>
    xe_finish_request_id f = xe_finish_request_id e"

definition execution_row :: "repositoryExtractionWorkExecutionRequest \<Rightarrow> executionRow" where
  "execution_row r =
    \<lparr>xe_request_id = ei_RequestID (er_input r), xe_work_item_id = ei_WorkItemID (er_input r),
     xe_claim_id = ei_ClaimID (er_input r), xe_worker_id = ei_WorkerID (er_input r),
     xe_snapshot_request_id = er_repositorySnapshotRequestID r, xe_extractor_request_id = er_extractorRequestID r,
     xe_finish_request_id = er_finishRequestID r, xe_lease_milliseconds = er_heartbeatLeaseMilliseconds r,
     xe_heartbeat_count = er_heartbeatCount r, xe_payload_hash = er_requestPayloadHash r, xe_failure_class = [],
     xe_failure_message = [], xe_failed_at = None\<rparr>"

definition persistRepositoryExtractionWorkExecutionRequest ::
  "repositoryExtractionWorkExecutionRequest \<Rightarrow> executionDB \<Rightarrow> executionDB ingestion" where
  "persistRepositoryExtractionWorkExecutionRequest r db =
    and_then (insert_row execution_clash (execution_row r) (executions db)) (\<lambda>es. Inr (db\<lparr>executions := es\<rparr>))"

section \<open>Reservation\<close>

text \<open>The guards on the work and on its attempt that reservation and heartbeats share.\<close>

definition running_work :: "repositoryExtractionWorkRecord \<Rightarrow> RepositoryExtractionWorkExecutionInput \<Rightarrow> bool" where
  "running_work work i \<longleftrightarrow> wr_status work = repositoryExtractionWorkRunning \<and> wr_claimID work = ei_ClaimID i \<and>
    wr_claimedBy work = ei_WorkerID i \<and> wr_claimedAt work \<noteq> None \<and> wr_finishedAt work = None \<and>
    wr_sourceGenerationID work = [] \<and> wr_failureClass work = [] \<and> wr_failureMessage work = []"

definition running_attempt ::
  "repositoryExtractionWorkClaimAttempt \<Rightarrow> repositoryExtractionWorkRecord \<Rightarrow> RepositoryExtractionWorkExecutionInput \<Rightarrow> bool" where
  "running_attempt a work i \<longleftrightarrow> ca_workItemID a = ei_WorkItemID i \<and> ca_workerID a = ei_WorkerID i \<and>
    ca_status a = repositoryExtractionWorkRunning \<and> ca_finishedAt a = None \<and> ca_expiredAt a = None \<and>
    ca_sourceGenerationID a = [] \<and> ca_failureClass a = [] \<and> ca_failureMessage a = [] \<and>
    Some (ca_claimedAt a) = wr_claimedAt work"

definition reserve_fresh ::
  "repositoryExtractionWorkExecutionRequest \<Rightarrow> time \<Rightarrow> executionDB \<Rightarrow>
   (repositoryExtractionWorkExecutionRequest \<times> executionDB) ingestion" where
  "reserve_fresh request startedAt db =
    (let i = er_input request in
     and_then (lockRepositorySourceStreamForWork (work_db db) (ei_WorkItemID i)) (\<lambda>_.
     and_then (readRepositoryExtractionWorkByID (work_db db) (ei_WorkItemID i)) (\<lambda>work.
     if \<not> running_work work i then Inl (Domain ErrorRepositoryWorkConflict)
     else if startedAt < the (wr_claimedAt work) then Inl (Domain ErrorRepositoryWorkConflict) else
     and_then (absent_as ErrorMissingSourceViewAttempt
       (readRepositoryExtractionWorkClaimAttempt (work_db db) (ei_ClaimID i))) (\<lambda>attempt.
     if \<not> running_attempt attempt work i then Inl (Domain ErrorRepositoryWorkConflict)
     else if \<not> startedAt < ca_leaseExpiresAt attempt then Inl (Domain ErrorRepositoryWorkLeaseExpired)
     else if readRepositoryExtractionWorkExecutionOwner db (ei_ClaimID i) \<noteq> None
       then Inl (Domain ErrorRepositoryWorkConflict) else
     (let request = request\<lparr>er_work := wr_work work, er_workRecord := work,
        er_heartbeatLeaseMilliseconds := ca_leaseDurationMilliseconds attempt,
        er_leaseExpiresAt := ca_leaseExpiresAt attempt, er_requiresHeartbeat := True\<rparr>
      in and_then (persistRepositoryExtractionWorkExecutionRequest request db) (\<lambda>db. Inr (request, db)))))))"

definition bindReplayedRepositoryExtractionWorkExecution ::
  "executionDB \<Rightarrow> repositoryExtractionWorkExecutionRequest \<Rightarrow> time \<Rightarrow> repositoryExtractionWorkExecutionRequest ingestion" where
  "bindReplayedRepositoryExtractionWorkExecution db request startedAt =
    (let work = er_workRecord request; i = er_input request in
     if wr_claimID work \<noteq> ei_ClaimID i \<or> wr_claimedBy work \<noteq> ei_WorkerID i \<or> wr_claimedAt work = None
       then Inl (Domain ErrorRepositoryWorkConflict) else
     and_then (absent_as ErrorMissingSourceViewAttempt
       (readRepositoryExtractionWorkClaimAttempt (work_db db) (ei_ClaimID i))) (\<lambda>attempt.
     if ca_workItemID attempt \<noteq> ei_WorkItemID i \<or> ca_workerID attempt \<noteq> ei_WorkerID i \<or>
       ca_leaseDurationMilliseconds attempt \<noteq> er_heartbeatLeaseMilliseconds request \<or>
       Some (ca_claimedAt attempt) \<noteq> wr_claimedAt work
       then Inl (Domain ErrorRepositoryWorkConflict)
     else if wr_status work = repositoryExtractionWorkRunning then
       (if ca_status attempt \<noteq> repositoryExtractionWorkRunning \<or> ca_finishedAt attempt \<noteq> None \<or>
          ca_expiredAt attempt \<noteq> None \<or> ca_sourceGenerationID attempt \<noteq> [] \<or> ca_failureClass attempt \<noteq> [] \<or>
          ca_failureMessage attempt \<noteq> [] \<or> wr_finishedAt work \<noteq> None \<or> wr_sourceGenerationID work \<noteq> [] \<or>
          wr_failureClass work \<noteq> [] \<or> wr_failureMessage work \<noteq> []
          then Inl (Domain ErrorRepositoryWorkConflict)
        else if \<not> startedAt < ca_leaseExpiresAt attempt then Inl (Domain ErrorRepositoryWorkLeaseExpired)
        else Inr (request\<lparr>er_leaseExpiresAt := ca_leaseExpiresAt attempt, er_requiresHeartbeat := True\<rparr>))
     else if wr_status work = RepositoryExtractionWorkOutcomeSucceeded then
       (if ca_status attempt \<noteq> RepositoryExtractionWorkOutcomeSucceeded \<or> ca_finishedAt attempt = None \<or>
          ca_expiredAt attempt \<noteq> None \<or> ca_sourceGenerationID attempt = [] \<or>
          ca_sourceGenerationID attempt \<noteq> wr_sourceGenerationID work \<or> wr_finishedAt work = None \<or>
          wr_sourceGenerationID work = [] \<or> ca_failureClass attempt \<noteq> [] \<or> ca_failureMessage attempt \<noteq> [] \<or>
          wr_failureClass work \<noteq> [] \<or> wr_failureMessage work \<noteq> []
          then Inl (Domain ErrorRepositoryWorkConflict)
        else Inr (request\<lparr>er_requiresHeartbeat := False\<rparr>))
     else Inl (Domain ErrorRepositoryWorkConflict)))"

definition same_identity ::
  "repositoryExtractionWorkExecutionRequest \<Rightarrow> repositoryExtractionWorkExecutionRequest \<Rightarrow> bool" where
  "same_identity p r \<longleftrightarrow> ei_WorkItemID (er_input p) = ei_WorkItemID (er_input r) \<and>
    ei_ClaimID (er_input p) = ei_ClaimID (er_input r) \<and> ei_WorkerID (er_input p) = ei_WorkerID (er_input r)"

text \<open>The result is the request, whether it was stored before, and the tables.\<close>

definition reserveRepositoryExtractionWorkExecution ::
  "repositoryExtractionWorkExecutionRequest \<Rightarrow> time \<Rightarrow> executionDB \<Rightarrow>
   (repositoryExtractionWorkExecutionRequest \<times> bool \<times> executionDB) ingestion" where
  "reserveRepositoryExtractionWorkExecution request startedAt db =
    (if is_zero_time startedAt then Inl (Domain ErrorInvalidInput) else
     and_then (readRepositoryExtractionWorkExecutionRequest db (ei_RequestID (er_input request))) (\<lambda>stored.
     case stored of
       Some persisted \<Rightarrow>
         if er_requestPayloadHash persisted \<noteq> er_requestPayloadHash request
           then Inl (Domain ErrorIdempotencyKeyReused)
         else if \<not> same_identity persisted request \<or>
           er_repositorySnapshotRequestID persisted \<noteq> er_repositorySnapshotRequestID request \<or>
           er_extractorRequestID persisted \<noteq> er_extractorRequestID request \<or>
           er_finishRequestID persisted \<noteq> er_finishRequestID request
           then Inl (Domain ErrorRepositoryWorkConflict) else
         and_then (lockRepositorySourceStream (work_db db) (rw_RepoID (er_work persisted))
           (rw_ExtractorName (er_work persisted))) (\<lambda>_.
         and_then (readRepositoryExtractionWorkByID (work_db db) (ei_WorkItemID (er_input persisted))) (\<lambda>work.
         and_then (bindReplayedRepositoryExtractionWorkExecution db
           (persisted\<lparr>er_input := (er_input persisted)\<lparr>ei_WorkspaceRoot := ei_WorkspaceRoot (er_input request)\<rparr>,
             er_work := wr_work work, er_workRecord := work\<rparr>) startedAt) (\<lambda>r.
         Inr (r, True, db))))
     | None \<Rightarrow> and_then (reserve_fresh request startedAt db) (\<lambda>(r, db). Inr (r, False, db))))"

section \<open>The failure audit\<close>

text \<open>
  An error as the audit reads it: \<open>errors.As\<close> finds a \<open>DomainError\<close> of a kind and a message in it, or it is
  another error with its text.
\<close>

datatype cause = DomainCause ErrorKind string | OtherCause string

text \<open>\<open>strings.ToValidUTF8(s, "\uFFFD")\<close>: every run of invalid bytes becomes one U+FFFD.\<close>

definition replacement_char :: string where
  "replacement_char = bytes [239, 191, 189]"

fun to_valid_utf8 :: "bool \<Rightarrow> string \<Rightarrow> string" where
  "to_valid_utf8 invalid [] = []"
| "to_valid_utf8 invalid (c # s) =
    (let n = rune_len (map of_char (c # s)) in
     if n = 0 then (if invalid then [] else replacement_char) @ to_valid_utf8 True s
     else c # take (n - 1) s @ to_valid_utf8 False (drop (n - 1) s))"

text \<open>
  The size that \<open>utf8.DecodeLastRuneInString\<close> returns for a nonempty string: of the rune that starts at the
  last byte that may start one, at most four bytes from the end, when it ends the string, and 1 otherwise.
\<close>

definition last_rune_size :: "string \<Rightarrow> nat" where
  "last_rune_size s =
    (if byte (last s) < 128 then 1 else
     case find (\<lambda>k. \<not> cont_byte (byte (s ! (length s - k)))) [2..<min 4 (length s) + 1] of
       None \<Rightarrow> 1
     | Some k \<Rightarrow> if rune_len (map of_char (drop (length s - k) s)) = k then k else 1)"

lemma find_SomeD: "find P xs = Some x \<Longrightarrow> x \<in> set xs"
  by (auto simp: find_Some_iff)

lemma last_rune_size_pos: "0 < last_rune_size s" "last_rune_size s \<le> 4"
proof -
  let ?f = "find (\<lambda>k. \<not> cont_byte (byte (s ! (length s - k)))) [2..<min 4 (length s) + 1]"
  have "0 < last_rune_size s \<and> last_rune_size s \<le> 4"
  proof (cases ?f)
    case None
    then show ?thesis by (simp add: last_rune_size_def)
  next
    case (Some k)
    then have "2 \<le> k" "k \<le> 4" using find_SomeD[OF Some] by auto
    with Some show ?thesis by (simp add: last_rune_size_def)
  qed
  then show "0 < last_rune_size s" "last_rune_size s \<le> 4" by simp_all
qed

function (sequential) drop_runes :: "nat \<Rightarrow> string \<Rightarrow> string" where
  "drop_runes limit v =
    (if length v \<le> limit then v else drop_runes limit (take (length v - last_rune_size v) v))"
  by pat_completeness auto
termination by (relation "measure (\<lambda>(limit, v). length v)") (auto intro!: diff_less last_rune_size_pos)

declare drop_runes.simps [simp del]

definition boundedRepositoryExtractionWorkExecutionFailureText :: "string \<Rightarrow> nat \<Rightarrow> string \<Rightarrow> string" where
  "boundedRepositoryExtractionWorkExecutionFailureText v limit fallback =
    (let v = trim_space (to_valid_utf8 False v); v = (if v = [] then fallback else v)
     in trim_space (drop_runes limit v))"

fun cause_texts :: "cause \<Rightarrow> string \<times> string" where
  "cause_texts (DomainCause k message) = (k, message)"
| "cause_texts (OtherCause text) = (ErrorRepositoryWorkExecutionFailed, text)"

definition repositoryExtractionWorkExecutionFailureMaterial :: "cause \<Rightarrow> string \<times> string" where
  "repositoryExtractionWorkExecutionFailureMaterial c =
    (let failureClass = boundedRepositoryExtractionWorkExecutionFailureText (fst (cause_texts c))
           repositoryExtractionWorkMaxFailureClassBytes ErrorRepositoryWorkExecutionFailed
     in (failureClass, boundedRepositoryExtractionWorkExecutionFailureText (snd (cause_texts c))
           repositoryExtractionWorkMaxFailureMessageBytes failureClass))"

text \<open>The check \<open>repository_extraction_work_execution_failure_audit_ck\<close> of a recorded failure.\<close>

definition failure_audit_ok :: "string \<Rightarrow> string \<Rightarrow> bool" where
  "failure_audit_ok k m \<longleftrightarrow> 1 \<le> length k \<and> length k \<le> 100 \<and> 1 \<le> length m \<and> length m \<le> 2000"

definition audited_row :: "executionDB \<Rightarrow> string \<Rightarrow> executionRow \<Rightarrow> bool" where
  "audited_row db requestID e \<longleftrightarrow> xe_request_id e = requestID \<and> xe_failure_class e = [] \<and>
    list_ex (\<lambda>w. wi_work_item_id w = xe_work_item_id e \<and> wi_status w = repositoryExtractionWorkRunning \<and>
      wi_claim_id w = xe_claim_id e \<and> wi_claimed_by w = xe_worker_id e) (items (work_db db))"

definition persistRepositoryExtractionWorkExecutionFailure ::
  "(time \<Rightarrow> time) \<Rightarrow> repositoryExtractionWorkExecutionRequest \<Rightarrow> cause \<Rightarrow> time \<Rightarrow> executionDB \<Rightarrow> executionDB ingestion" where
  "persistRepositoryExtractionWorkExecutionFailure ts request c failedAt db =
    (if is_zero_time failedAt then Inl (Domain ErrorInvalidInput) else
     (let (failureClass, failureMessage) = repositoryExtractionWorkExecutionFailureMaterial c;
          requestID = ei_RequestID (er_input request) in
      and_then (readRepositoryExtractionWorkExecutionRequest db requestID) (\<lambda>stored.
      case stored of
        None \<Rightarrow> Inl (Domain ErrorMissingSourceViewAttempt)
      | Some persisted \<Rightarrow>
          if er_requestPayloadHash persisted \<noteq> er_requestPayloadHash request \<or> \<not> same_identity persisted request
            then Inl (Domain ErrorRepositoryWorkConflict)
          else if er_failureClass persisted \<noteq> [] then
            (if er_failureClass persisted = failureClass \<and> er_failureMessage persisted = failureMessage then Inr db
             else Inl (Domain ErrorRepositoryWorkConflict))
          else if wr_status (er_workRecord persisted) \<noteq> repositoryExtractionWorkRunning \<or>
            wr_claimID (er_workRecord persisted) \<noteq> ei_ClaimID (er_input request) \<or>
            wr_claimedBy (er_workRecord persisted) \<noteq> ei_WorkerID (er_input request) then Inr db
          else if \<not> failure_audit_ok failureClass failureMessage \<and> list_ex (audited_row db requestID) (executions db)
            then Inl Violation
          else if rows_affected (audited_row db requestID) (executions db) = 1 then
            Inr (db\<lparr>executions := update_rows (audited_row db requestID) (\<lambda>e. e\<lparr>xe_failure_class := failureClass,
              xe_failure_message := failureMessage, xe_failed_at := Some (ts failedAt)\<rparr>) (executions db)\<rparr>)
          else Inl (Domain ErrorRepositoryWorkConflict))))"

text \<open>
  When the update hits no row, the operation reads the request again; in one transaction at a time that is
  the request it has just read, still without a failure and still running, which is the conflict above.
\<close>

section \<open>Heartbeats\<close>

text \<open>\<open>time.Sub\<close> saturates, the subtraction of half the lease wraps.\<close>

definition repositoryExtractionWorkHeartbeatDelay :: "time \<Rightarrow> time \<Rightarrow> int \<Rightarrow> int" where
  "repositoryExtractionWorkHeartbeatDelay now leaseExpiresAt leaseDuration =
    (let remaining = max (- (2 ^ 63)) (min MaxInt64 (leaseExpiresAt - now));
         delay = wrap64 (remaining - leaseDuration div 2)
     in if delay < 0 then 0 else delay)"

definition repositoryExtractionWorkExecutionHeartbeatRequestID :: "string \<Rightarrow> int \<Rightarrow> string ingestion" where
  "repositoryExtractionWorkExecutionHeartbeatRequestID executionRequestID n =
    (if n < 1 then Inl (Domain ErrorInvalidInput)
     else Inr (stableID ''work-exec-heartbeat:'' ''repository_extraction_work_execution_heartbeat''
       (JObj [(''execution_request_id'', JStr executionRequestID), (''sequence'', JInt n)])))"

definition recordRepositoryExtractionWorkExecutionHeartbeat ::
  "string \<Rightarrow> int \<Rightarrow> executionDB \<Rightarrow> (int \<times> executionDB) ingestion" where
  "recordRepositoryExtractionWorkExecutionHeartbeat executionRequestID n db =
    (if n < 1 then Inl (Domain ErrorInvalidInput) else
     and_then (absent_as ErrorMissingSourceViewAttempt
       (the_row (\<lambda>e. xe_request_id e = executionRequestID) (executions db))) (\<lambda>e.
     if n \<le> xe_heartbeat_count e then Inr (xe_heartbeat_count e, db)
     else if xe_heartbeat_count e \<noteq> n - 1 then Inl (Domain ErrorRepositoryWorkConflict)
     else if \<not> int4 n then Inl Violation
     else Inr (n, db\<lparr>executions := update_rows (\<lambda>e. xe_request_id e = executionRequestID)
       (\<lambda>e. e\<lparr>xe_heartbeat_count := n\<rparr>) (executions db)\<rparr>)))"

text \<open>
  Two transactions: the lease is renewed, then the heartbeat is counted.  The tables are returned beside
  the outcome, because a renewal stays when the count fails.
\<close>

definition renewRepositoryExtractionWorkExecutionHeartbeat ::
  "(time \<Rightarrow> time) \<Rightarrow> repositoryExtractionWorkExecutionRequest \<Rightarrow> time \<Rightarrow> executionDB \<Rightarrow>
   (RepositoryExtractionWorkLeaseRenewalResult \<times> int) ingestion \<times> executionDB" where
  "renewRepositoryExtractionWorkExecutionHeartbeat ts request renewedAt db =
    (let n = er_heartbeatCount request + 1; i = er_input request in
     case repositoryExtractionWorkExecutionHeartbeatRequestID (ei_RequestID i) n of
       Inl e \<Rightarrow> (Inl e, db)
     | Inr requestID \<Rightarrow>
         (case renewRepositoryExtractionWorkLease ts
             \<lparr>ni_RequestID = requestID, ni_WorkItemID = ei_WorkItemID i, ni_ClaimID = ei_ClaimID i,
              ni_WorkerID = ei_WorkerID i, ni_LeaseDurationMilliseconds = er_heartbeatLeaseMilliseconds request\<rparr>
             renewedAt (work_db db) of
            Inl e \<Rightarrow> (Inl e, db)
          | Inr (renewal, work) \<Rightarrow>
              (let db = db\<lparr>work_db := work\<rparr> in
               case recordRepositoryExtractionWorkExecutionHeartbeat (ei_RequestID i) n db of
                 Inl e \<Rightarrow> (Inl e, db)
               | Inr (beats, db) \<Rightarrow> (Inr (renewal, beats), db))))"

definition inspectRepositoryExtractionWorkExecutionHeartbeatLease ::
  "executionDB \<Rightarrow> repositoryExtractionWorkExecutionRequest \<Rightarrow> time \<Rightarrow> (time \<times> int) ingestion" where
  "inspectRepositoryExtractionWorkExecutionHeartbeatLease db request observedAt =
    (let i = er_input request in
     if is_zero_time observedAt then Inl (Domain ErrorInvalidInput) else
     and_then (lockRepositorySourceStream (work_db db) (rw_RepoID (er_work request))
       (rw_ExtractorName (er_work request))) (\<lambda>_.
     and_then (readRepositoryExtractionWorkByID (work_db db) (ei_WorkItemID i)) (\<lambda>work.
     if \<not> running_work work i then Inl (Domain ErrorRepositoryWorkConflict) else
     and_then (readRepositoryExtractionWorkClaimAttempt (work_db db) (ei_ClaimID i)) (\<lambda>attempt.
     if \<not> running_attempt attempt work i \<or> ca_leaseDurationMilliseconds attempt \<noteq> er_heartbeatLeaseMilliseconds request
       then Inl (Domain ErrorRepositoryWorkConflict) else
     and_then (absent_as ErrorMissingSourceViewAttempt
       (the_row (\<lambda>e. xe_request_id e = ei_RequestID i) (executions db))) (\<lambda>e.
     if xe_work_item_id e \<noteq> ei_WorkItemID i \<or> xe_claim_id e \<noteq> ei_ClaimID i \<or> xe_worker_id e \<noteq> ei_WorkerID i \<or>
       xe_lease_milliseconds e \<noteq> er_heartbeatLeaseMilliseconds request
       then Inl (Domain ErrorRepositoryWorkConflict)
     else if \<not> observedAt < ca_leaseExpiresAt attempt then Inl (Domain ErrorRepositoryWorkLeaseExpired)
     else Inr (ca_leaseExpiresAt attempt, xe_heartbeat_count e))))))"

text \<open>A conflict is forgiven when the stored lease is later than the known one; the clock is read twice.\<close>

definition advanceRepositoryExtractionWorkExecutionHeartbeat ::
  "(time \<Rightarrow> time) \<Rightarrow> repositoryExtractionWorkExecutionRequest \<Rightarrow> time \<Rightarrow> time \<Rightarrow> time \<Rightarrow> executionDB \<Rightarrow>
   (time \<times> int) ingestion \<times> executionDB" where
  "advanceRepositoryExtractionWorkExecutionHeartbeat ts request known renewedAt observedAt db =
    (case renewRepositoryExtractionWorkExecutionHeartbeat ts request renewedAt db of
       (Inr (renewal, beats), db) \<Rightarrow> (Inr (nr_LeaseExpiresAt renewal, beats), db)
     | (Inl e, db) \<Rightarrow>
         if e \<noteq> Domain ErrorRepositoryWorkConflict then (Inl e, db) else
         (case inspectRepositoryExtractionWorkExecutionHeartbeatLease db request observedAt of
            Inl _ \<Rightarrow> (Inl e, db)
          | Inr (expiry, beats) \<Rightarrow> if known < expiry then (Inr (expiry, beats), db) else (Inl e, db)))"

section \<open>Repair\<close>

record RepositoryExtractionWorkExecutionRepairInput =
  ai_RequestID :: string
  ai_ExecutionRequestID :: string
  ai_WorkItemID :: string
  ai_ClaimID :: string
  ai_WorkerID :: string
  ai_RepairActorID :: string

record RepositoryExtractionWorkExecutionRepairResult =
  ao_RequestID :: string
  ao_ExecutionRequestID :: string
  ao_Work :: RepositoryExtractionWork
  ao_ClaimID :: string
  ao_AttemptNumber :: int
  ao_WorkerID :: string
  ao_RepairActorID :: string
  ao_RepairReason :: string
  ao_LeaseExpiresAt :: time
  ao_RepairedAt :: time
  ao_Disposition :: string
  ao_SupersededByWorkItemID :: string
  ao_Replayed :: bool

definition validateRepositoryExtractionWorkExecutionRepairInput ::
  "RepositoryExtractionWorkExecutionRepairInput \<Rightarrow> RepositoryExtractionWorkExecutionRepairInput ingestion" where
  "validateRepositoryExtractionWorkExecutionRepairInput input =
    (let i = \<lparr>ai_RequestID = trim_space (ai_RequestID input),
       ai_ExecutionRequestID = trim_space (ai_ExecutionRequestID input),
       ai_WorkItemID = trim_space (ai_WorkItemID input), ai_ClaimID = trim_space (ai_ClaimID input),
       ai_WorkerID = trim_space (ai_WorkerID input), ai_RepairActorID = trim_space (ai_RepairActorID input)\<rparr> in
     if ai_RequestID i = [] then Inl (Domain ErrorInvalidInput)
     else if ai_ExecutionRequestID i = [] then Inl (Domain ErrorInvalidInput)
     else if \<not> has_prefix (ai_WorkItemID i) work_prefix then Inl (Domain ErrorInvalidRecordID)
     else if \<not> has_prefix (ai_ClaimID i) claim_prefix then Inl (Domain ErrorInvalidRecordID)
     else if \<not> actor_ok (ai_WorkerID i) then Inl (Domain ErrorInvalidInput)
     else if \<not> actor_ok (ai_RepairActorID i) then Inl (Domain ErrorInvalidInput)
     else Inr i)"

definition repositoryExtractionWorkExecutionRepairPayloadHash :: "RepositoryExtractionWorkExecutionRepairInput \<Rightarrow> string" where
  "repositoryExtractionWorkExecutionRepairPayloadHash i =
    contentHash (marshal (JObj [(''execution_request_id'', JStr (ai_ExecutionRequestID i)),
      (''work_item_id'', JStr (ai_WorkItemID i)), (''claim_id'', JStr (ai_ClaimID i)),
      (''worker_id'', JStr (ai_WorkerID i)), (''repair_actor_id'', JStr (ai_RepairActorID i))]))"

text \<open>The unique keys of a repair; its check on the instants is live, the others follow from the guards.\<close>

definition repair_row :: "(time \<Rightarrow> time) \<Rightarrow> RepositoryExtractionWorkExecutionRepairResult \<Rightarrow> string \<Rightarrow> repairRow" where
  "repair_row ts r payloadHash =
    \<lparr>xr_request_id = ao_RequestID r, xr_execution_request_id = ao_ExecutionRequestID r,
     xr_work_item_id = rw_WorkItemID (ao_Work r), xr_claim_id = ao_ClaimID r, xr_worker_id = ao_WorkerID r,
     xr_actor_id = ao_RepairActorID r, xr_reason = ao_RepairReason r, xr_lease_expires_at = ts (ao_LeaseExpiresAt r),
     xr_disposition = ao_Disposition r, xr_superseded_by = ao_SupersededByWorkItemID r,
     xr_repaired_at = ts (ao_RepairedAt r), xr_payload_hash = payloadHash\<rparr>"

definition persistRepositoryExtractionWorkExecutionRepair ::
  "(time \<Rightarrow> time) \<Rightarrow> RepositoryExtractionWorkExecutionRepairResult \<Rightarrow> string \<Rightarrow> executionDB \<Rightarrow> executionDB ingestion" where
  "persistRepositoryExtractionWorkExecutionRepair ts r payloadHash db =
    (if ts (ao_RepairedAt r) < ts (ao_LeaseExpiresAt r) then Inl Violation else
     and_then (insert_row (\<lambda>p q. xr_request_id q = xr_request_id p \<or> xr_execution_request_id q = xr_execution_request_id p)
       (repair_row ts r payloadHash) (repairs db)) (\<lambda>rs.
     Inr (db\<lparr>repairs := rs\<rparr>)))"

definition readRepositoryExtractionWorkExecutionRepair ::
  "executionDB \<Rightarrow> string \<Rightarrow> (RepositoryExtractionWorkExecutionRepairResult \<times> string) option ingestion" where
  "readRepositoryExtractionWorkExecutionRepair db requestID =
    (case row (\<lambda>q. xr_request_id q = requestID) (repairs db) of
       None \<Rightarrow> Inr None
     | Some q \<Rightarrow>
         and_then (readRepositoryExtractionWorkExecutionRequest db (xr_execution_request_id q)) (\<lambda>stored.
         case stored of
           None \<Rightarrow> Inl (Domain ErrorRepositoryWorkConflict)
         | Some execution \<Rightarrow>
             and_then (readRepositoryExtractionWorkClaimAttempt (work_db db) (xr_claim_id q)) (\<lambda>attempt.
             if ei_WorkItemID (er_input execution) \<noteq> xr_work_item_id q \<or>
               ei_ClaimID (er_input execution) \<noteq> xr_claim_id q \<or> ei_WorkerID (er_input execution) \<noteq> xr_worker_id q \<or>
               ca_workItemID attempt \<noteq> xr_work_item_id q \<or> ca_workerID attempt \<noteq> xr_worker_id q \<or>
               ca_status attempt \<noteq> repositoryExtractionWorkExpired \<or> ca_expiredAt attempt \<noteq> Some (xr_repaired_at q) \<or>
               ca_leaseExpiresAt attempt \<noteq> xr_lease_expires_at q \<or> xr_repaired_at q < xr_lease_expires_at q
             then Inl (Domain ErrorRepositoryWorkConflict)
             else Inr (Some (\<lparr>ao_RequestID = xr_request_id q, ao_ExecutionRequestID = xr_execution_request_id q,
               ao_Work = er_work execution, ao_ClaimID = xr_claim_id q, ao_AttemptNumber = ca_attemptNumber attempt,
               ao_WorkerID = xr_worker_id q, ao_RepairActorID = xr_actor_id q, ao_RepairReason = xr_reason q,
               ao_LeaseExpiresAt = xr_lease_expires_at q, ao_RepairedAt = xr_repaired_at q,
               ao_Disposition = xr_disposition q, ao_SupersededByWorkItemID = xr_superseded_by q,
               ao_Replayed = False\<rparr>, xr_payload_hash q)))))"

definition replayRepositoryExtractionWorkExecutionRepairIfPresent ::
  "executionDB \<Rightarrow> string \<Rightarrow> string \<Rightarrow> RepositoryExtractionWorkExecutionRepairResult option ingestion" where
  "replayRepositoryExtractionWorkExecutionRepairIfPresent db requestID payloadHash =
    and_then (readRepositoryExtractionWorkExecutionRepair db requestID) (\<lambda>stored.
    case stored of
      None \<Rightarrow> Inr None
    | Some (r, hash) \<Rightarrow>
        if hash \<noteq> payloadHash then Inl (Domain ErrorIdempotencyKeyReused)
        else Inr (Some (r\<lparr>ao_Replayed := True\<rparr>)))"

text \<open>
  \<open>prepareRepositoryExtractionWorkExecutionRepair\<close> and \<open>repairExpiredRepositoryExtractionWorkExecutionTx\<close>; the
  second look at the stored request, under its lock, sees the same tables as the first.
\<close>

definition repairExpiredRepositoryExtractionWorkExecution ::
  "(time \<Rightarrow> time) \<Rightarrow> RepositoryExtractionWorkExecutionRepairInput \<Rightarrow> time \<Rightarrow> executionDB \<Rightarrow>
   (RepositoryExtractionWorkExecutionRepairResult \<times> executionDB) ingestion" where
  "repairExpiredRepositoryExtractionWorkExecution ts input repairedAt db =
    and_then (validateRepositoryExtractionWorkExecutionRepairInput input) (\<lambda>i.
    if is_zero_time repairedAt then Inl (Domain ErrorInvalidInput) else
    (let payloadHash = repositoryExtractionWorkExecutionRepairPayloadHash i in
     and_then (replayRepositoryExtractionWorkExecutionRepairIfPresent db (ai_RequestID i) payloadHash) (\<lambda>stored.
     case stored of
       Some r \<Rightarrow> Inr (r, db)
     | None \<Rightarrow>
       and_then (lockRepositorySourceStreamForWork (work_db db) (ai_WorkItemID i)) (\<lambda>_.
       and_then (readRepositoryExtractionWorkExecutionRequest db (ai_ExecutionRequestID i)) (\<lambda>execution.
       case execution of
         None \<Rightarrow> Inl (Domain ErrorMissingSourceViewAttempt)
       | Some e \<Rightarrow>
           if ei_WorkItemID (er_input e) \<noteq> ai_WorkItemID i \<or> ei_ClaimID (er_input e) \<noteq> ai_ClaimID i \<or>
             ei_WorkerID (er_input e) \<noteq> ai_WorkerID i
           then Inl (Domain ErrorRepositoryWorkConflict) else
           and_then (readRepositoryExtractionWorkByID (work_db db) (ai_WorkItemID i)) (\<lambda>work.
           and_then (recoverExpiredRepositoryExtractionWorkLocked ts work (ai_ClaimID i) (ai_WorkerID i) repairedAt
             (work_db db)) (\<lambda>(t, w).
           (let r = \<lparr>ao_RequestID = ai_RequestID i, ao_ExecutionRequestID = ai_ExecutionRequestID i, ao_Work = rr_Work t,
              ao_ClaimID = rr_ClaimID t, ao_AttemptNumber = rr_AttemptNumber t, ao_WorkerID = rr_WorkerID t,
              ao_RepairActorID = ai_RepairActorID i,
              ao_RepairReason = RepositoryExtractionWorkExecutionRepairReasonLeaseExpired,
              ao_LeaseExpiresAt = rr_LeaseExpiresAt t, ao_RepairedAt = rr_RecoveredAt t,
              ao_Disposition = rr_Disposition t, ao_SupersededByWorkItemID = rr_SupersededByWorkItemID t,
              ao_Replayed = False\<rparr>
            in and_then (persistRepositoryExtractionWorkExecutionRepair ts r payloadHash (db\<lparr>work_db := w\<rparr>)) (\<lambda>db.
               Inr (r, db))))))))))"

end
