(* ===== verification/WorkMaintenance.thy ===== *)
theory WorkMaintenance
  imports WorkExecution WorkTick
begin

text \<open>
  Maintenance of expired work and the durable part of a worker tick:
  \<open>repository_extraction_work_expired_execution.go\<close>, \<open>repository_extraction_work_expired_maintenance_tick.go\<close>
  and \<open>repository_extraction_worker_tick.go\<close>.  A maintenance tick recovers or repairs one batch of expired claims
  in one transaction.
\<close>

section \<open>Expired executions\<close>

abbreviation "RepositoryExtractionWorkExpiredExecutionMaxLimit \<equiv> (100 :: int)"

record RepositoryExtractionWorkExpiredExecution =
  ux_ExecutionRequestID :: string
  ux_Work :: RepositoryExtractionWork
  ux_ClaimID :: string
  ux_AttemptNumber :: int
  ux_WorkerID :: string
  ux_ClaimedAt :: time
  ux_LeaseExpiresAt :: time
  ux_HeartbeatLeaseDurationMilliseconds :: int
  ux_HeartbeatCount :: int

definition validateRepositoryExtractionWorkExpiredExecutionListInput :: "int \<Rightarrow> unit ingestion" where
  "validateRepositoryExtractionWorkExpiredExecutionListInput limit =
    (if limit < 1 \<or> RepositoryExtractionWorkExpiredExecutionMaxLimit < limit then Inl (Domain ErrorInvalidInput)
     else Inr ())"

text \<open>The execution that owns an attempt, and the rows whose lease has expired.\<close>

definition owns :: "executionRow \<Rightarrow> repositoryExtractionWorkClaimAttempt \<Rightarrow> bool" where
  "owns e a \<longleftrightarrow> xe_work_item_id e = ca_workItemID a \<and> xe_claim_id e = ca_claimID a \<and> xe_worker_id e = ca_workerID a"

definition expired_row :: "time \<Rightarrow> workItem \<Rightarrow> repositoryExtractionWorkClaimAttempt \<Rightarrow> bool" where
  "expired_row asOf w a \<longleftrightarrow> expired_claim_row asOf w a \<and> wi_source_generation_id w = [] \<and>
    wi_failure_class w = [] \<and> wi_failure_message w = []"

definition listExpiredRepositoryExtractionWorkExecutions ::
  "(time \<Rightarrow> time) \<Rightarrow> (RepositoryExtractionWorkExpiredExecution list \<Rightarrow> RepositoryExtractionWorkExpiredExecution list) \<Rightarrow>
   int \<Rightarrow> time \<Rightarrow> executionDB \<Rightarrow> RepositoryExtractionWorkExpiredExecution list ingestion" where
  "listExpiredRepositoryExtractionWorkExecutions ts arrange limit asOf db =
    and_then (validateRepositoryExtractionWorkExpiredExecutionListInput limit) (\<lambda>_.
    if is_zero_time asOf then Inl (Domain ErrorInvalidInput) else
    Inr (take (nat limit) (arrange
      [\<lparr>ux_ExecutionRequestID = xe_request_id e, ux_Work = work_of w v, ux_ClaimID = ca_claimID a,
         ux_AttemptNumber = ca_attemptNumber a, ux_WorkerID = ca_workerID a, ux_ClaimedAt = ca_claimedAt a,
         ux_LeaseExpiresAt = ca_leaseExpiresAt a, ux_HeartbeatLeaseDurationMilliseconds = xe_lease_milliseconds e,
         ux_HeartbeatCount = xe_heartbeat_count e\<rparr>.
       a \<leftarrow> attempts (work_db db), e \<leftarrow> executions db, w \<leftarrow> items (work_db db), v \<leftarrow> windows (work_db db),
       owns e a \<and> gw_id v = wi_observation_id w \<and> expired_row (ts asOf) w a])))"

section \<open>The maintenance tick\<close>

abbreviation "RepositoryExtractionWorkExpiredMaintenanceTickMaxLimit \<equiv> (100 :: int)"

record RepositoryExtractionWorkExpiredMaintenanceTickInput =
  mi_RequestID :: string
  mi_Limit :: int
  mi_MaintenanceActorID :: string

text \<open>A transition is of one of two kinds, each with its result.\<close>

datatype RepositoryExtractionWorkExpiredMaintenanceTransition =
    Recovery RepositoryExtractionWorkRecoveryResult
  | ExecutionRepair RepositoryExtractionWorkExecutionRepairResult

record RepositoryExtractionWorkExpiredMaintenanceTickResult =
  mr_RequestID :: string
  mr_Limit :: int
  mr_MaintenanceActorID :: string
  mr_DiscoveredAt :: time
  mr_Transitions :: "RepositoryExtractionWorkExpiredMaintenanceTransition list"
  mr_Replayed :: bool

text \<open>
  A candidate with the instant by which the query orders it; the execution is empty where the left
  join finds none.
\<close>

record repositoryExtractionWorkExpiredMaintenanceCandidate =
  mc_executionRequestID :: string
  mc_work :: RepositoryExtractionWork
  mc_claimID :: string
  mc_workerID :: string
  mc_leaseExpiresAt :: time

record maintenanceRequest =
  mq_request_id :: string
  mq_maintenance_actor_id :: string
  mq_result_limit :: int
  mq_transition_count :: int
  mq_discovered_at :: time
  mq_payload_hash :: string

text \<open>An item names a recovery or a repair request; the check of the table allows nothing else.\<close>

datatype transitionID = RecoveryID string | RepairID string

record maintenanceItem =
  mt_tick_request_id :: string
  mt_item_ordinal :: int
  mt_transition :: transitionID

record maintenanceDB =
  execution_db :: executionDB
  maintenance_requests :: "maintenanceRequest list"
  maintenance_items :: "maintenanceItem list"

definition repositoryExtractionWorkExpiredMaintenanceTickPayloadHash :: "int \<Rightarrow> string \<Rightarrow> string" where
  "repositoryExtractionWorkExpiredMaintenanceTickPayloadHash limit actor =
    contentHash (marshal (JObj [(''limit'', JInt limit), (''maintenance_actor_id'', JStr actor)]))"

definition prepareRepositoryExtractionWorkExpiredMaintenanceTick ::
  "RepositoryExtractionWorkExpiredMaintenanceTickInput \<Rightarrow>
   (RepositoryExtractionWorkExpiredMaintenanceTickInput \<times> string) ingestion" where
  "prepareRepositoryExtractionWorkExpiredMaintenanceTick input =
    (let i = input\<lparr>mi_RequestID := trim_space (mi_RequestID input),
       mi_MaintenanceActorID := trim_space (mi_MaintenanceActorID input)\<rparr> in
     if mi_RequestID i = [] then Inl (Domain ErrorInvalidInput)
     else if mi_Limit i < 1 \<or> RepositoryExtractionWorkExpiredMaintenanceTickMaxLimit < mi_Limit i
       then Inl (Domain ErrorInvalidInput)
     else if \<not> actor_ok (mi_MaintenanceActorID i) then Inl (Domain ErrorInvalidInput)
     else Inr (i, repositoryExtractionWorkExpiredMaintenanceTickPayloadHash (mi_Limit i) (mi_MaintenanceActorID i)))"

text \<open>The candidates of one attempt: one for each execution that owns it, or one without.\<close>

definition owner_ids :: "executionRow list \<Rightarrow> repositoryExtractionWorkClaimAttempt \<Rightarrow> string list" where
  "owner_ids es a = (let ids = [xe_request_id e. e \<leftarrow> es, owns e a] in if ids = [] then [[]] else ids)"

definition candidate_rows :: "executionDB \<Rightarrow> time \<Rightarrow> repositoryExtractionWorkExpiredMaintenanceCandidate list" where
  "candidate_rows db asOf =
    [\<lparr>mc_executionRequestID = owner, mc_work = work_of w v, mc_claimID = ca_claimID a, mc_workerID = ca_workerID a,
       mc_leaseExpiresAt = ca_leaseExpiresAt a\<rparr>.
     a \<leftarrow> attempts (work_db db), w \<leftarrow> items (work_db db), v \<leftarrow> windows (work_db db),
     gw_id v = wi_observation_id w \<and> (wi_repo_id w, wi_extractor_name w) \<in> set (streams (work_db db)) \<and> expired_row asOf w a,
     owner \<leftarrow> owner_ids (executions db) a]"

text \<open>With one transaction at a time no stream is locked, and \<open>SKIP LOCKED\<close> skips nothing.\<close>

definition lockExpiredRepositoryExtractionWorkMaintenanceCandidates ::
  "(time \<Rightarrow> time) \<Rightarrow>
   (repositoryExtractionWorkExpiredMaintenanceCandidate list \<Rightarrow> repositoryExtractionWorkExpiredMaintenanceCandidate list) \<Rightarrow>
   int \<Rightarrow> time \<Rightarrow> executionDB \<Rightarrow> repositoryExtractionWorkExpiredMaintenanceCandidate list" where
  "lockExpiredRepositoryExtractionWorkMaintenanceCandidates ts arrange limit discoveredAt db =
    take (nat limit) (arrange (candidate_rows db (ts discoveredAt)))"

definition repositoryExtractionWorkExpiredMaintenanceRecoveryRequestID :: "string \<Rightarrow> string \<Rightarrow> string \<Rightarrow> string" where
  "repositoryExtractionWorkExpiredMaintenanceRecoveryRequestID tickRequestID workItemID claimID =
    stableID ''expired-maintenance-recover:'' ''repository_extraction_work_expired_maintenance_recovery''
      (JObj [(''tick_request_id'', JStr tickRequestID), (''work_item_id'', JStr workItemID), (''claim_id'', JStr claimID)])"

definition repositoryExtractionWorkExpiredMaintenanceExecutionRepairRequestID :: "string \<Rightarrow> string \<Rightarrow> string" where
  "repositoryExtractionWorkExpiredMaintenanceExecutionRepairRequestID tickRequestID executionRequestID =
    stableID ''expired-maintenance-repair:'' ''repository_extraction_work_expired_maintenance_execution_repair''
      (JObj [(''tick_request_id'', JStr tickRequestID), (''execution_request_id'', JStr executionRequestID)])"

definition recovery_input ::
  "RepositoryExtractionWorkExpiredMaintenanceTickInput \<Rightarrow> repositoryExtractionWorkExpiredMaintenanceCandidate \<Rightarrow>
   RepositoryExtractionWorkRecoveryInput" where
  "recovery_input i c =
    \<lparr>ri_RequestID = repositoryExtractionWorkExpiredMaintenanceRecoveryRequestID (mi_RequestID i)
       (rw_WorkItemID (mc_work c)) (mc_claimID c),
     ri_WorkItemID = rw_WorkItemID (mc_work c), ri_ClaimID = mc_claimID c, ri_RecoveryActorID = mi_MaintenanceActorID i\<rparr>"

definition repair_input ::
  "RepositoryExtractionWorkExpiredMaintenanceTickInput \<Rightarrow> repositoryExtractionWorkExpiredMaintenanceCandidate \<Rightarrow>
   RepositoryExtractionWorkExecutionRepairInput" where
  "repair_input i c =
    \<lparr>ai_RequestID = repositoryExtractionWorkExpiredMaintenanceExecutionRepairRequestID (mi_RequestID i)
       (mc_executionRequestID c),
     ai_ExecutionRequestID = mc_executionRequestID c, ai_WorkItemID = rw_WorkItemID (mc_work c),
     ai_ClaimID = mc_claimID c, ai_WorkerID = mc_workerID c, ai_RepairActorID = mi_MaintenanceActorID i\<rparr>"

definition applyRepositoryExtractionWorkExpiredMaintenanceCandidate ::
  "(time \<Rightarrow> time) \<Rightarrow> RepositoryExtractionWorkExpiredMaintenanceTickInput \<Rightarrow>
   repositoryExtractionWorkExpiredMaintenanceCandidate \<Rightarrow> time \<Rightarrow> executionDB \<Rightarrow>
   (RepositoryExtractionWorkExpiredMaintenanceTransition \<times> executionDB) ingestion" where
  "applyRepositoryExtractionWorkExpiredMaintenanceCandidate ts i c discoveredAt db =
    (if mc_executionRequestID c = [] then
       and_then (recoverExpiredRepositoryExtractionWork ts (recovery_input i c) discoveredAt (work_db db)) (\<lambda>(r, work).
       Inr (Recovery r, db\<lparr>work_db := work\<rparr>))
     else
       and_then (repairExpiredRepositoryExtractionWorkExecution ts (repair_input i c) discoveredAt db) (\<lambda>(r, db).
       Inr (ExecutionRepair r, db)))"

text \<open>The loop over the candidates.\<close>

fun apply_each ::
  "(time \<Rightarrow> time) \<Rightarrow> RepositoryExtractionWorkExpiredMaintenanceTickInput \<Rightarrow> time \<Rightarrow>
   repositoryExtractionWorkExpiredMaintenanceCandidate list \<Rightarrow> executionDB \<Rightarrow>
   (RepositoryExtractionWorkExpiredMaintenanceTransition list \<times> executionDB) ingestion" where
  "apply_each ts i discoveredAt [] db = Inr ([], db)"
| "apply_each ts i discoveredAt (c # cs) db =
    and_then (applyRepositoryExtractionWorkExpiredMaintenanceCandidate ts i c discoveredAt db) (\<lambda>(t, db).
    and_then (apply_each ts i discoveredAt cs db) (\<lambda>(rs, db). Inr (t # rs, db)))"

fun transition_id :: "RepositoryExtractionWorkExpiredMaintenanceTransition \<Rightarrow> transitionID" where
  "transition_id (Recovery r) = RecoveryID (rr_RequestID r)"
| "transition_id (ExecutionRepair r) = RepairID (ao_RequestID r)"

text \<open>Both request columns of the items are unique keys.\<close>

fun persist_maintenance_items ::
  "string \<Rightarrow> int \<Rightarrow> RepositoryExtractionWorkExpiredMaintenanceTransition list \<Rightarrow> maintenanceItem list \<Rightarrow>
   maintenanceItem list ingestion" where
  "persist_maintenance_items requestID n [] rows = Inr rows"
| "persist_maintenance_items requestID n (t # ts) rows =
    and_then (insert_row (\<lambda>p q. mt_transition q = mt_transition p \<or>
        mt_tick_request_id q = mt_tick_request_id p \<and> mt_item_ordinal q = mt_item_ordinal p)
      \<lparr>mt_tick_request_id = requestID, mt_item_ordinal = n, mt_transition = transition_id t\<rparr> rows)
      (persist_maintenance_items requestID (n + 1) ts)"

definition persistRepositoryExtractionWorkExpiredMaintenanceTick ::
  "(time \<Rightarrow> time) \<Rightarrow> RepositoryExtractionWorkExpiredMaintenanceTickInput \<Rightarrow> string \<Rightarrow>
   RepositoryExtractionWorkExpiredMaintenanceTickResult \<Rightarrow> maintenanceDB \<Rightarrow> maintenanceDB ingestion" where
  "persistRepositoryExtractionWorkExpiredMaintenanceTick ts i payloadHash r db =
    (let count = int (length (mr_Transitions r)) in
     if mi_Limit i < count then Inl Violation else
     and_then (insert_row (\<lambda>p q. mq_request_id q = mq_request_id p)
       \<lparr>mq_request_id = mi_RequestID i, mq_maintenance_actor_id = mi_MaintenanceActorID i, mq_result_limit = mi_Limit i,
        mq_transition_count = count, mq_discovered_at = ts (mr_DiscoveredAt r), mq_payload_hash = payloadHash\<rparr>
       (maintenance_requests db)) (\<lambda>qs.
     and_then (persist_maintenance_items (mi_RequestID i) 1 (mr_Transitions r) (maintenance_items db)) (\<lambda>rows.
     Inr (db\<lparr>maintenance_requests := qs, maintenance_items := rows\<rparr>))))"

fun replayRepositoryExtractionWorkExpiredMaintenanceTransition ::
  "maintenanceRequest \<Rightarrow> executionDB \<Rightarrow> transitionID \<Rightarrow> RepositoryExtractionWorkExpiredMaintenanceTransition ingestion" where
  "replayRepositoryExtractionWorkExpiredMaintenanceTransition q db (RecoveryID requestID) =
    and_then (readRepositoryExtractionWorkRecoveryRequest (work_db db) requestID) (\<lambda>stored.
    case stored of
      None \<Rightarrow> Inl (Domain ErrorRepositoryWorkConflict)
    | Some (r, _) \<Rightarrow>
        if rr_RequestID r \<noteq> repositoryExtractionWorkExpiredMaintenanceRecoveryRequestID (mq_request_id q)
             (rw_WorkItemID (rr_Work r)) (rr_ClaimID r) \<or>
          rr_RecoveryActorID r \<noteq> mq_maintenance_actor_id q \<or> rr_RecoveredAt r \<noteq> mq_discovered_at q
        then Inl (Domain ErrorRepositoryWorkConflict)
        else Inr (Recovery (r\<lparr>rr_Replayed := True\<rparr>)))"
| "replayRepositoryExtractionWorkExpiredMaintenanceTransition q db (RepairID requestID) =
    and_then (readRepositoryExtractionWorkExecutionRepair db requestID) (\<lambda>stored.
    case stored of
      None \<Rightarrow> Inl (Domain ErrorRepositoryWorkConflict)
    | Some (r, _) \<Rightarrow>
        if ao_RequestID r \<noteq> repositoryExtractionWorkExpiredMaintenanceExecutionRepairRequestID (mq_request_id q)
             (ao_ExecutionRequestID r) \<or>
          ao_RepairActorID r \<noteq> mq_maintenance_actor_id q \<or> ao_RepairedAt r \<noteq> mq_discovered_at q
        then Inl (Domain ErrorRepositoryWorkConflict)
        else Inr (ExecutionRepair (r\<lparr>ao_Replayed := True\<rparr>)))"

fun numbered_items :: "int \<Rightarrow> maintenanceItem list \<Rightarrow> bool" where
  "numbered_items n [] \<longleftrightarrow> True"
| "numbered_items n (t # rows) \<longleftrightarrow> mt_item_ordinal t = n \<and> numbered_items (n + 1) rows"

fun replay_transitions ::
  "maintenanceRequest \<Rightarrow> executionDB \<Rightarrow> maintenanceItem list \<Rightarrow>
   RepositoryExtractionWorkExpiredMaintenanceTransition list ingestion" where
  "replay_transitions q db [] = Inr []"
| "replay_transitions q db (t # rows) =
    and_then (replayRepositoryExtractionWorkExpiredMaintenanceTransition q db (mt_transition t)) (\<lambda>r.
    and_then (replay_transitions q db rows) (\<lambda>rs. Inr (r # rs)))"

definition replayRepositoryExtractionWorkExpiredMaintenanceTick ::
  "maintenanceRequest \<Rightarrow> maintenanceDB \<Rightarrow> RepositoryExtractionWorkExpiredMaintenanceTickResult ingestion" where
  "replayRepositoryExtractionWorkExpiredMaintenanceTick q db =
    (let rows = sort_key mt_item_ordinal (filter (\<lambda>t. mt_tick_request_id t = mq_request_id q) (maintenance_items db)) in
     if \<not> numbered_items 1 rows then Inl (Domain ErrorRepositoryWorkConflict) else
     and_then (replay_transitions q (execution_db db) rows) (\<lambda>rs.
     if int (length rs) \<noteq> mq_transition_count q \<or> mq_result_limit q < mq_transition_count q
     then Inl (Domain ErrorRepositoryWorkConflict)
     else Inr \<lparr>mr_RequestID = mq_request_id q, mr_Limit = mq_result_limit q,
       mr_MaintenanceActorID = mq_maintenance_actor_id q, mr_DiscoveredAt = mq_discovered_at q, mr_Transitions = rs,
       mr_Replayed = True\<rparr>))"

definition runExpiredRepositoryExtractionWorkMaintenanceTick ::
  "(time \<Rightarrow> time) \<Rightarrow>
   (repositoryExtractionWorkExpiredMaintenanceCandidate list \<Rightarrow> repositoryExtractionWorkExpiredMaintenanceCandidate list) \<Rightarrow>
   RepositoryExtractionWorkExpiredMaintenanceTickInput \<Rightarrow> time \<Rightarrow> maintenanceDB \<Rightarrow>
   (RepositoryExtractionWorkExpiredMaintenanceTickResult \<times> maintenanceDB) ingestion" where
  "runExpiredRepositoryExtractionWorkMaintenanceTick ts arrange input discoveredAt db =
    and_then (prepareRepositoryExtractionWorkExpiredMaintenanceTick input) (\<lambda>(i, payloadHash).
    if is_zero_time discoveredAt then Inl (Domain ErrorInvalidInput) else
    (case row (\<lambda>q. mq_request_id q = mi_RequestID i) (maintenance_requests db) of
       Some q \<Rightarrow>
         if mq_payload_hash q \<noteq>
           repositoryExtractionWorkExpiredMaintenanceTickPayloadHash (mq_result_limit q) (mq_maintenance_actor_id q)
           then Inl (Domain ErrorRepositoryWorkConflict)
         else if mq_payload_hash q \<noteq> payloadHash then Inl (Domain ErrorIdempotencyKeyReused)
         else and_then (replayRepositoryExtractionWorkExpiredMaintenanceTick q db) (\<lambda>r. Inr (r, db))
     | None \<Rightarrow>
       and_then (apply_each ts i discoveredAt
         (lockExpiredRepositoryExtractionWorkMaintenanceCandidates ts arrange (mi_Limit i) discoveredAt (execution_db db))
         (execution_db db)) (\<lambda>(rs, e).
       (let r = \<lparr>mr_RequestID = mi_RequestID i, mr_Limit = mi_Limit i, mr_MaintenanceActorID = mi_MaintenanceActorID i,
          mr_DiscoveredAt = discoveredAt, mr_Transitions = rs, mr_Replayed = False\<rparr>
        in and_then (persistRepositoryExtractionWorkExpiredMaintenanceTick ts i payloadHash r (db\<lparr>execution_db := e\<rparr>)) (\<lambda>db.
           Inr (r, db))))))"

end
