(* ===== verification/WorkExecutionInvariant.thy ===== *)
theory WorkExecutionInvariant
  imports WorkMaintenance WorkExample
begin

text \<open>
  The invariant of executions and repairs, the steps that keep it, and what a successful reservation,
  heartbeat, audit or repair did to the tables.
\<close>

section \<open>The invariant\<close>

definition no_failure :: "executionRow \<Rightarrow> bool" where
  "no_failure e \<longleftrightarrow> xe_failure_class e = [] \<and> xe_failure_message e = [] \<and> xe_failed_at e = None"

definition execution_ok :: "repositoryExtractionWorkClaimAttempt list \<Rightarrow> executionRow \<Rightarrow> bool" where
  "execution_ok as e \<longleftrightarrow> (\<exists>a\<in>set as. owns e a \<and> xe_lease_milliseconds e = ca_leaseDurationMilliseconds a) \<and>
    0 \<le> xe_heartbeat_count e \<and>
    (no_failure e \<or> failure_audit_ok (xe_failure_class e) (xe_failure_message e) \<and> xe_failed_at e \<noteq> None)"

definition same_execution :: "executionRow \<Rightarrow> executionRow \<Rightarrow> bool" where
  "same_execution e f \<longleftrightarrow> xe_request_id f = xe_request_id e \<and> xe_work_item_id f = xe_work_item_id e \<and>
    xe_claim_id f = xe_claim_id e \<and> xe_worker_id f = xe_worker_id e \<and>
    xe_lease_milliseconds f = xe_lease_milliseconds e \<and> xe_payload_hash f = xe_payload_hash e"

text \<open>The attempt that a repair has expired.\<close>

definition repaired_attempt :: "repairRow \<Rightarrow> repositoryExtractionWorkClaimAttempt \<Rightarrow> bool" where
  "repaired_attempt q a \<longleftrightarrow> ca_claimID a = xr_claim_id q \<and> ca_workItemID a = xr_work_item_id q \<and>
    ca_workerID a = xr_worker_id q \<and> ca_status a = repositoryExtractionWorkExpired \<and>
    ca_expiredAt a = Some (xr_repaired_at q) \<and> ca_leaseExpiresAt a = xr_lease_expires_at q \<and>
    xr_lease_expires_at q \<le> xr_repaired_at q"

definition repaired_execution :: "repairRow \<Rightarrow> executionRow \<Rightarrow> bool" where
  "repaired_execution q e \<longleftrightarrow> xe_request_id e = xr_execution_request_id q \<and> xe_work_item_id e = xr_work_item_id q \<and>
    xe_claim_id e = xr_claim_id q \<and> xe_worker_id e = xr_worker_id q"

definition execution_inv :: "(time \<Rightarrow> time) \<Rightarrow> executionDB \<Rightarrow> bool" where
  "execution_inv ts db \<longleftrightarrow> work_inv ts (work_db db) \<and> distinct (map xe_request_id (executions db)) \<and>
    distinct (map xe_claim_id (executions db)) \<and>
    list_all (execution_ok (attempts (work_db db))) (executions db) \<and>
    distinct (map xr_request_id (repairs db)) \<and> distinct (map xr_execution_request_id (repairs db)) \<and>
    (\<forall>q\<in>set (repairs db). (\<exists>a\<in>set (attempts (work_db db)). repaired_attempt q a) \<and>
      (\<exists>e\<in>set (executions db). repaired_execution q e))"

definition execution_kept :: "(time \<Rightarrow> time) \<Rightarrow> executionDB \<Rightarrow> executionDB \<Rightarrow> bool" where
  "execution_kept ts db db' \<longleftrightarrow> execution_inv ts db' \<and>
    attempts_grow (attempts (work_db db)) (attempts (work_db db')) \<and>
    (\<forall>e\<in>set (executions db). \<exists>f\<in>set (executions db'). same_execution e f) \<and> set (repairs db) \<subseteq> set (repairs db')"

lemma same_execution_refl: "same_execution e e"
  by (simp add: same_execution_def)

lemma same_execution_trans: "same_execution e f \<Longrightarrow> same_execution f g \<Longrightarrow> same_execution e g"
  by (simp add: same_execution_def)

lemma execution_kept_refl: "execution_inv ts db \<Longrightarrow> execution_kept ts db db"
  by (auto simp: execution_kept_def attempts_grow_refl intro: same_execution_refl)

lemma execution_kept_trans:
  assumes "execution_kept ts db db'" "execution_kept ts db' db''"
  shows "execution_kept ts db db''"
proof -
  have "\<exists>g\<in>set (executions db''). same_execution e g" if e: "e \<in> set (executions db)" for e
  proof -
    obtain f where "f \<in> set (executions db')" "same_execution e f" using assms(1) e by (auto simp: execution_kept_def)
    then show ?thesis using assms(2) same_execution_trans unfolding execution_kept_def by blast
  qed
  moreover have "attempts_grow (attempts (work_db db)) (attempts (work_db db''))"
    by (rule attempts_grow_trans[of _ "attempts (work_db db')"]) (use assms in \<open>simp_all add: execution_kept_def\<close>)
  ultimately show ?thesis using assms by (auto simp: execution_kept_def)
qed

text \<open>Steps of the queue keep it.\<close>

lemma execution_ok_grow:
  assumes g: "attempts_grow as bs" and e: "execution_ok as e"
  shows "execution_ok bs e"
proof -
  obtain a where a: "a \<in> set as" "owns e a" "xe_lease_milliseconds e = ca_leaseDurationMilliseconds a"
    using e by (auto simp: execution_ok_def)
  obtain b where b: "b \<in> set bs" "later a b" using g a(1) by (auto simp: attempts_grow_def)
  then have "owns e b" "xe_lease_milliseconds e = ca_leaseDurationMilliseconds b"
    using a(2,3) by (simp_all add: owns_def later_def)
  with b(1) e show ?thesis unfolding execution_ok_def by blast
qed

lemma repaired_attempt_grow:
  assumes "attempts_grow as bs" "a \<in> set as" "repaired_attempt q a"
  shows "\<exists>b\<in>set bs. repaired_attempt q b"
proof -
  obtain b where "b \<in> set bs" "later a b" using assms(1,2) by (auto simp: attempts_grow_def)
  moreover have "b = a" using calculation(2) assms(3) by (simp add: later_def repaired_attempt_def)
  ultimately show ?thesis using assms(3) by blast
qed

lemma work_kept:
  assumes "execution_inv ts db" "kept ts (work_db db) w"
  shows "execution_kept ts db (db\<lparr>work_db := w\<rparr>)"
proof -
  have g: "attempts_grow (attempts (work_db db)) (attempts w)" using assms(2) by (simp add: kept_def)
  have "\<exists>b\<in>set (attempts w). repaired_attempt q b" if "q \<in> set (repairs db)" for q
    using that assms(1) repaired_attempt_grow[OF g] unfolding execution_inv_def by blast
  then show ?thesis using assms execution_ok_grow[OF g] g
    by (auto simp: execution_kept_def execution_inv_def kept_def list_all_iff intro: same_execution_refl)
qed

text \<open>So do changes of the columns of an execution that are not its identity.\<close>

lemma executions_kept:
  assumes inv: "execution_inv ts db" and f: "\<And>e. same_execution e (f e)"
    and ok: "\<And>e. e \<in> set (executions db) \<Longrightarrow> P e \<Longrightarrow> execution_ok (attempts (work_db db)) (f e)"
  shows "execution_kept ts db (db\<lparr>executions := update_rows P f (executions db)\<rparr>)"
proof -
  let ?es = "update_rows P f (executions db)"
  have key: "\<And>e. xe_request_id (f e) = xe_request_id e" "\<And>e. xe_claim_id (f e) = xe_claim_id e"
    using f by (simp_all add: same_execution_def)
  have in_es: "(if P e then f e else e) \<in> set ?es" if "e \<in> set (executions db)" for e
    using that by (auto simp: in_update_rows)
  have same: "\<exists>g\<in>set ?es. same_execution e g" if "e \<in> set (executions db)" for e
  proof (rule bexI[OF _ in_es[OF that]])
    show "same_execution e (if P e then f e else e)" using f same_execution_refl by simp
  qed
  have "\<exists>g\<in>set ?es. repaired_execution q g" if q: "q \<in> set (repairs db)" for q
  proof -
    obtain e where e: "e \<in> set (executions db)" "repaired_execution q e" using inv q by (auto simp: execution_inv_def)
    obtain g where "g \<in> set ?es" "same_execution e g" using same[OF e(1)] ..
    then show ?thesis using e(2) by (auto simp: same_execution_def repaired_execution_def)
  qed
  moreover have "list_all (execution_ok (attempts (work_db db))) ?es"
    using inv ok by (auto simp: list_all_iff in_update_rows execution_inv_def)
  ultimately have "execution_inv ts (db\<lparr>executions := ?es\<rparr>)"
    using inv by (simp add: execution_inv_def key map_update_rows)
  then show ?thesis using same by (simp add: execution_kept_def attempts_grow_refl)
qed

section \<open>Reservations, heartbeats and audits\<close>

lemma reserve_fresh_kept:
  assumes run: "reserve_fresh r now db = Inr (r', db')" and inv: "execution_inv ts db"
    and r: "er_heartbeatCount r = 0"
  shows "execution_kept ts db db'"
proof -
  from run obtain work a where
    a: "readRepositoryExtractionWorkClaimAttempt (work_db db) (ei_ClaimID (er_input r)) = Inr a"
      "running_attempt a work (er_input r)"
    and r': "r' = r\<lparr>er_work := wr_work work, er_workRecord := work,
      er_heartbeatLeaseMilliseconds := ca_leaseDurationMilliseconds a, er_leaseExpiresAt := ca_leaseExpiresAt a,
      er_requiresHeartbeat := True\<rparr>"
    and new: "\<forall>f\<in>set (executions db). \<not> execution_clash (execution_row r') f"
    and db': "db' = db\<lparr>executions := executions db @ [execution_row r']\<rparr>"
    unfolding reserve_fresh_def Let_def persistRepositoryExtractionWorkExecutionRequest_def
    by (auto simp: returns split: if_splits)
  let ?e = "execution_row r'"
  have e: "xe_request_id ?e = ei_RequestID (er_input r)" "xe_work_item_id ?e = ei_WorkItemID (er_input r)"
    "xe_claim_id ?e = ei_ClaimID (er_input r)" "xe_worker_id ?e = ei_WorkerID (er_input r)"
    "xe_lease_milliseconds ?e = ca_leaseDurationMilliseconds a" "xe_heartbeat_count ?e = 0" "no_failure ?e"
    using r by (simp_all add: execution_row_def r' no_failure_def)
  note at = read_attempt[OF a(1)]
  have "owns ?e a" using e a(2) at(2) by (simp add: owns_def running_attempt_def)
  then have "execution_ok (attempts (work_db db)) ?e" using e(5-7) at(1) by (auto simp: execution_ok_def)
  then have "execution_inv ts db'" using inv new unfolding db' execution_inv_def execution_clash_def by auto
  then show ?thesis by (auto simp: execution_kept_def db' attempts_grow_refl intro: same_execution_refl)
qed

lemma reserve_kept:
  assumes run: "reserveRepositoryExtractionWorkExecution r now db = Inr (r', old, db')" and inv: "execution_inv ts db"
    and r: "er_heartbeatCount r = 0"
  shows "execution_kept ts db db'"
proof (cases "db' = db")
  case True
  then show ?thesis using execution_kept_refl[OF inv] by simp
next
  case False
  with run have "\<exists>x. reserve_fresh r now db = Inr (x, db')"
    by (auto simp: reserveRepositoryExtractionWorkExecution_def returns split: if_splits option.splits)
  then show ?thesis using reserve_fresh_kept[OF _ inv r] by blast
qed

lemma record_kept:
  assumes run: "recordRepositoryExtractionWorkExecutionHeartbeat k n db = Inr (m, db')" and inv: "execution_inv ts db"
  shows "execution_kept ts db db'"
proof (cases "db' = db")
  case True
  then show ?thesis using execution_kept_refl[OF inv] by simp
next
  case False
  with run have "1 \<le> n" and db': "db' = db\<lparr>executions := update_rows (\<lambda>e. xe_request_id e = k)
      (\<lambda>e. e\<lparr>xe_heartbeat_count := n\<rparr>) (executions db)\<rparr>"
    by (auto simp: recordRepositoryExtractionWorkExecutionHeartbeat_def returns split: if_splits)
  show ?thesis unfolding db'
  proof (rule executions_kept[OF inv])
    fix e assume "e \<in> set (executions db)"
    then have "execution_ok (attempts (work_db db)) e" using inv by (simp add: execution_inv_def list_all_iff)
    then show "execution_ok (attempts (work_db db)) (e\<lparr>xe_heartbeat_count := n\<rparr>)"
      using \<open>1 \<le> n\<close> by (simp add: execution_ok_def owns_def no_failure_def)
  qed (simp add: same_execution_def)
qed

lemma heartbeat_kept:
  assumes inv: "execution_inv ts db" and t: "timestamp_column ts"
  shows "execution_kept ts db (snd (renewRepositoryExtractionWorkExecutionHeartbeat ts r now db))"
proof -
  have renewed: "execution_kept ts db (db\<lparr>work_db := w\<rparr>)"
    if "renewRepositoryExtractionWorkLease ts i now (work_db db) = Inr (x, w)" for i x w
    using work_kept[OF inv renew_kept[OF that _ t]] inv by (simp add: execution_inv_def)
  have counted: "execution_kept ts db db'"
    if "renewRepositoryExtractionWorkLease ts i now (work_db db) = Inr (x, w)"
      "recordRepositoryExtractionWorkExecutionHeartbeat k n (db\<lparr>work_db := w\<rparr>) = Inr (m, db')" for i x w k n m db'
    using execution_kept_trans[OF renewed[OF that(1)] record_kept[OF that(2)]] renewed[OF that(1)]
    by (simp add: execution_kept_def)
  show ?thesis using renewed counted execution_kept_refl[OF inv]
    by (auto simp: renewRepositoryExtractionWorkExecutionHeartbeat_def Let_def split: sum.splits)
qed

lemma audit_kept:
  assumes run: "persistRepositoryExtractionWorkExecutionFailure ts r c now db = Inr db'" and inv: "execution_inv ts db"
  shows "execution_kept ts db db'"
proof (cases "db' = db")
  case True
  then show ?thesis using execution_kept_refl[OF inv] by simp
next
  case False
  obtain k m where km: "repositoryExtractionWorkExecutionFailureMaterial c = (k, m)" by fastforce
  let ?P = "audited_row db (ei_RequestID (er_input r))"
  let ?f = "\<lambda>e. e\<lparr>xe_failure_class := k, xe_failure_message := m, xe_failed_at := Some (ts now)\<rparr>"
  from run False km have ok: "failure_audit_ok k m \<or> \<not> list_ex ?P (executions db)"
    and db': "db' = db\<lparr>executions := update_rows ?P ?f (executions db)\<rparr>"
    by (auto simp: persistRepositoryExtractionWorkExecutionFailure_def Let_def returns split: if_splits option.splits)
  show ?thesis unfolding db'
  proof (rule executions_kept[OF inv])
    fix e assume e: "e \<in> set (executions db)" "?P e"
    then have "execution_ok (attempts (work_db db)) e" using inv by (simp add: execution_inv_def list_all_iff)
    moreover have "failure_audit_ok k m" using ok e by (auto simp: list_ex_iff)
    ultimately show "execution_ok (attempts (work_db db)) (?f e)" by (simp add: execution_ok_def owns_def)
  qed (simp add: same_execution_def)
qed

section \<open>Repairs\<close>

lemma read_execution:
  assumes "readRepositoryExtractionWorkExecutionRequest db k = Inr (Some r)"
  obtains e where "e \<in> set (executions db)" "xe_request_id e = k" "ei_WorkItemID (er_input r) = xe_work_item_id e"
    "ei_ClaimID (er_input r) = xe_claim_id e" "ei_WorkerID (er_input r) = xe_worker_id e"
  using assms by (auto simp: readRepositoryExtractionWorkExecutionRequest_def returns split: option.splits dest!: row_Some)

lemma recover_locked_result:
  assumes "recoverExpiredRepositoryExtractionWorkLocked ts work c x now db = Inr (r, db')"
  obtains a where "readRepositoryExtractionWorkClaimAttempt db c = Inr a" "rr_WorkerID r = ca_workerID a"
    "rr_LeaseExpiresAt r = ca_leaseExpiresAt a" "rr_AttemptNumber r = ca_attemptNumber a" "ca_workerID a = wr_claimedBy work"
    "x = [] \<or> wr_claimedBy work = x"
  using assms by (auto simp: recoverExpiredRepositoryExtractionWorkLocked_def returns split: if_splits)

lemma repair_cases:
  assumes run: "repairExpiredRepositoryExtractionWorkExecution ts input now db = Inr (r, db')"
    and k: "keys_ok (work_db db)"
  obtains (replay) "db' = db"
  | (repaired) i w a e status heir q where "validateRepositoryExtractionWorkExecutionRepairInput input = Inr i"
      "running_pair (work_db db) w a" "ca_leaseExpiresAt a \<le> now" "released (work_db db) w status heir"
      "e \<in> set (executions db)" "xe_request_id e = ai_ExecutionRequestID i" "owns e a"
      "xr_request_id q = ai_RequestID i" "xr_execution_request_id q = xe_request_id e" "xr_work_item_id q = wi_work_item_id w"
      "xr_claim_id q = ca_claimID a" "xr_worker_id q = ca_workerID a" "xr_lease_expires_at q = ts (ca_leaseExpiresAt a)"
      "xr_repaired_at q = ts now" "ts (ca_leaseExpiresAt a) \<le> ts now"
      "\<forall>p\<in>set (repairs db). xr_request_id p \<noteq> xr_request_id q \<and> xr_execution_request_id p \<noteq> xr_execution_request_id q"
      "db' = db\<lparr>work_db := (work_db db)\<lparr>items := replace w (release_item status heir w) (items (work_db db)),
        attempts := replace a (expired_attempt ts now a) (attempts (work_db db))\<rparr>, repairs := repairs db @ [q]\<rparr>"
proof -
  from run obtain i where i: "validateRepositoryExtractionWorkExecutionRepairInput input = Inr i"
    unfolding repairExpiredRepositoryExtractionWorkExecution_def by (auto simp: returns)
  note run = run[unfolded repairExpiredRepositoryExtractionWorkExecution_def Let_def, simplified i and_then.simps]
  show thesis
  proof (cases "db' = db")
    case True
    then show thesis by (rule replay)
  next
    case False
    from run False obtain x work t u where
      x: "readRepositoryExtractionWorkExecutionRequest db (ai_ExecutionRequestID i) = Inr (Some x)"
        "ei_WorkItemID (er_input x) = ai_WorkItemID i" "ei_ClaimID (er_input x) = ai_ClaimID i"
        "ei_WorkerID (er_input x) = ai_WorkerID i"
      and work: "readRepositoryExtractionWorkByID (work_db db) (ai_WorkItemID i) = Inr work"
      and lk: "recoverExpiredRepositoryExtractionWorkLocked ts work (ai_ClaimID i) (ai_WorkerID i) now (work_db db) = Inr (t, u)"
      and ps: "persistRepositoryExtractionWorkExecutionRepair ts r (repositoryExtractionWorkExecutionRepairPayloadHash i)
        (db\<lparr>work_db := u\<rparr>) = Inr db'"
      and r: "ao_RequestID r = ai_RequestID i" "ao_ExecutionRequestID r = ai_ExecutionRequestID i" "ao_Work r = rr_Work t"
        "ao_ClaimID r = rr_ClaimID t" "ao_WorkerID r = rr_WorkerID t" "ao_LeaseExpiresAt r = rr_LeaseExpiresAt t"
        "ao_RepairedAt r = rr_RecoveredAt t"
      by (auto simp: returns split: if_splits option.splits)
    obtain w where w: "scanned (work_db db) w work" "wi_work_item_id w = ai_WorkItemID i" using read_by_id[OF work] .
    obtain a status heir where a: "running_pair (work_db db) w a" "ca_leaseExpiresAt a \<le> now"
      "released (work_db db) w status heir" "rr_Work t = wr_work work" "rr_ClaimID t = ca_claimID a" "rr_RecoveredAt t = now"
      "ca_claimID a = ai_ClaimID i"
      "u = (work_db db)\<lparr>items := replace w (release_item status heir w) (items (work_db db)),
        attempts := replace a (expired_attempt ts now a) (attempts (work_db db))\<rparr>"
      by (rule recover_locked_cases[OF lk k w(1)])
    have ai: "ca_workItemID a = wi_work_item_id w" "a \<in> set (attempts (work_db db))"
      using a(1) by (simp_all add: running_pair_def)
    obtain b where b: "readRepositoryExtractionWorkClaimAttempt (work_db db) (ai_ClaimID i) = Inr b"
      "rr_WorkerID t = ca_workerID b" "rr_LeaseExpiresAt t = ca_leaseExpiresAt b" "ca_workerID b = wr_claimedBy work"
      "ai_WorkerID i = [] \<or> wr_claimedBy work = ai_WorkerID i" by (rule recover_locked_result[OF lk])
    have "b = a" using same_attempt[OF k] read_attempt[OF b(1)] ai(2) a(7) by metis
    obtain e where e: "e \<in> set (executions db)" "xe_request_id e = ai_ExecutionRequestID i"
      "xe_work_item_id e = ai_WorkItemID i" "xe_claim_id e = ai_ClaimID i" "xe_worker_id e = ai_WorkerID i"
      using read_execution[OF x(1)] x(2-4) by metis
    have "ai_WorkerID i \<noteq> []" using i by (auto simp: validateRepositoryExtractionWorkExecutionRepairInput_def Let_def
      actor_ok_def split: if_splits)
    then have own: "owns e a" using e b(4,5) a(7) ai(1) w(2) \<open>b = a\<close> by (simp add: owns_def)
    have wid: "rw_WorkItemID (wr_work work) = wi_work_item_id w" using scanned_fields(10)[OF w(1)] .
    let ?q = "repair_row ts r (repositoryExtractionWorkExecutionRepairPayloadHash i)"
    have q: "\<not> ts (ao_RepairedAt r) < ts (ao_LeaseExpiresAt r)"
      "\<forall>p\<in>set (repairs db). xr_request_id p \<noteq> xr_request_id ?q \<and> xr_execution_request_id p \<noteq> xr_execution_request_id ?q"
      "db' = db\<lparr>work_db := u, repairs := repairs db @ [?q]\<rparr>"
      using ps unfolding persistRepositoryExtractionWorkExecutionRepair_def by (auto simp: returns split: if_splits)
    show thesis
      by (rule repaired[OF i a(1-3) e(1,2) own, of ?q]) (use q r a b e wid \<open>b = a\<close> in \<open>simp_all add: repair_row_def\<close>)
  qed
qed

lemma repair_kept:
  assumes run: "repairExpiredRepositoryExtractionWorkExecution ts input now db = Inr (r, db')"
    and inv: "execution_inv ts db" and t: "timestamp_column ts"
  shows "execution_kept ts db db'"
proof -
  have wi: "work_inv ts (work_db db)" using inv by (simp add: execution_inv_def)
  show ?thesis
  proof (cases rule: repair_cases[OF run work_inv_keys[OF wi]])
    case 1
    then show ?thesis using execution_kept_refl[OF inv] by simp
  next
    case (2 i w a e status heir q)
    let ?a = "expired_attempt ts now a"
    let ?u = "(work_db db)\<lparr>items := replace w (release_item status heir w) (items (work_db db)),
      attempts := replace a ?a (attempts (work_db db))\<rparr>"
    have k: "execution_kept ts db (db\<lparr>work_db := ?u\<rparr>)" by (rule work_kept[OF inv expire_kept[OF wi t 2(2-4)]])
    have core: "core_inv ts (work_db db)" using wi by (simp add: work_inv_def)
    note rw = running_item[OF core 2(2)]
    have "ts (ca_leaseExpiresAt a) = ca_leaseExpiresAt a" using rw(3) by (simp add: attempt_state_ok_def)
    then have "repaired_attempt q ?a" using 2(10-15) rw(1) by (simp add: repaired_attempt_def backs_def)
    moreover have "?a \<in> set (attempts ?u)" using rw(5) by (simp add: in_replace)
    moreover have "repaired_execution q e" using 2(7,9-12) rw(1) by (simp add: repaired_execution_def owns_def backs_def)
    ultimately have "execution_inv ts db'" using k 2(5,16,17) unfolding execution_kept_def execution_inv_def by auto
    with k 2(17) show ?thesis by (auto simp: execution_kept_def)
  qed
qed

section \<open>Steps\<close>

text \<open>
  What a deployment does with the tables: the operations of the queue, the reservation of a prepared
  request, heartbeats (also those that fail half way), failure audits and repairs.
\<close>

inductive execution_step :: "(time \<Rightarrow> time) \<Rightarrow> executionDB \<Rightarrow> executionDB \<Rightarrow> bool" for ts where
  work: "work_step ts (work_db db) w \<Longrightarrow> execution_step ts db (db\<lparr>work_db := w\<rparr>)"
| reserve: "prepareRepositoryExtractionWorkExecution dir input = Inr r \<Longrightarrow>
    reserveRepositoryExtractionWorkExecution r now db = Inr (r', old, db') \<Longrightarrow> execution_step ts db db'"
| heartbeat: "execution_step ts db (snd (renewRepositoryExtractionWorkExecutionHeartbeat ts r now db))"
| audit: "persistRepositoryExtractionWorkExecutionFailure ts r c now db = Inr db' \<Longrightarrow> execution_step ts db db'"
| repair: "repairExpiredRepositoryExtractionWorkExecution ts input now db = Inr (r, db') \<Longrightarrow> execution_step ts db db'"

abbreviation "execution_steps ts \<equiv> rtranclp (execution_step ts)"

definition empty_executions :: executionDB where
  "empty_executions = \<lparr>work_db = empty_db, executions = [], repairs = []\<rparr>"

lemma prepared_count:
  "prepareRepositoryExtractionWorkExecution dir input = Inr r \<Longrightarrow> er_heartbeatCount r = 0"
  by (auto simp: prepareRepositoryExtractionWorkExecution_def Let_def returns split: if_splits)

lemma execution_step_kept:
  assumes "execution_step ts db db'" "execution_inv ts db" "timestamp_column ts"
  shows "execution_kept ts db db'"
  using assms(1)
proof cases
  case (work w)
  have "work_inv ts (work_db db)" using assms(2) by (simp add: execution_inv_def)
  then show ?thesis using work_kept[OF assms(2) work_step_kept[OF work(2) _ assms(3)]] work(1) by simp
next
  case (reserve dir input r now r' old)
  then show ?thesis using reserve_kept[OF reserve(2) assms(2) prepared_count[OF reserve(1)]] by simp
next
  case (heartbeat r now)
  then show ?thesis using heartbeat_kept[OF assms(2,3)] by simp
next
  case audit
  then show ?thesis using audit_kept[OF audit assms(2)] by simp
next
  case repair
  then show ?thesis using repair_kept[OF repair assms(2,3)] by simp
qed

lemma execution_steps_kept:
  assumes "execution_steps ts db db'" "execution_inv ts db" "timestamp_column ts"
  shows "execution_kept ts db db'"
  using assms(1)
proof (induction rule: rtranclp_induct)
  case (step y z)
  have "execution_inv ts y" using step.IH by (simp add: execution_kept_def)
  then show ?case using execution_kept_trans[OF step.IH execution_step_kept[OF step.hyps(2) _ assms(3)]] by simp
qed (rule execution_kept_refl[OF assms(2)])

lemma execution_inv_empty: "execution_inv ts empty_executions"
  by (simp add: execution_inv_def empty_executions_def work_inv_empty)

end
