(* ===== verification/WorkMaintenanceProperties.thy ===== *)
theory WorkMaintenanceProperties
  imports WorkExecutionInvariant WorkTickProperties WorkProperties WorkBatch
begin

text \<open>
  Properties of executions and of the maintenance of expired work: who owns a claim, replays of repairs,
  the texts of a failure audit, and the maintenance tick.
\<close>

section \<open>A tick is a sequence of steps\<close>

lemma apply_step:
  assumes "applyRepositoryExtractionWorkExpiredMaintenanceCandidate ts i c now db = Inr (t, db')"
  shows "execution_step ts db db'"
proof (cases "mc_executionRequestID c = []")
  case True
  with assms obtain r w where w: "recoverExpiredRepositoryExtractionWork ts (recovery_input i c) now (work_db db) = Inr (r, w)"
    and db': "db' = db\<lparr>work_db := w\<rparr>"
    by (auto simp: applyRepositoryExtractionWorkExpiredMaintenanceCandidate_def returns)
  show ?thesis unfolding db' by (rule execution_step.work[OF work_step.recover[OF w]])
next
  case False
  with assms obtain r where "repairExpiredRepositoryExtractionWorkExecution ts (repair_input i c) now db = Inr (r, db')"
    by (auto simp: applyRepositoryExtractionWorkExpiredMaintenanceCandidate_def returns)
  then show ?thesis by (rule execution_step.repair)
qed

lemma apply_each_steps:
  "apply_each ts i now cs db = Inr (rs, db') \<Longrightarrow> execution_steps ts db db' \<and> length rs = length cs"
proof (induction cs arbitrary: db rs)
  case (Cons c cs)
  from Cons.prems obtain t x rs' where
    step: "applyRepositoryExtractionWorkExpiredMaintenanceCandidate ts i c now db = Inr (t, x)"
    and rest: "apply_each ts i now cs x = Inr (rs', db')" and rs: "rs = t # rs'" by (auto simp: returns)
  from Cons.IH[OF rest] rs show ?case using converse_rtranclp_into_rtranclp[of "execution_step ts", OF apply_step[OF step]] by auto
qed simp

lemma prepare_maintenance:
  assumes "prepareRepositoryExtractionWorkExpiredMaintenanceTick input = Inr (i, h)"
  shows "mi_RequestID i = trim_space (mi_RequestID input)" "mi_Limit i = mi_Limit input"
    "1 \<le> mi_Limit i" "mi_Limit i \<le> 100" "actor_ok (mi_MaintenanceActorID i)"
  using assms by (auto simp: prepareRepositoryExtractionWorkExpiredMaintenanceTick_def Let_def returns split: if_splits)

lemma persist_maintenance_db:
  "persistRepositoryExtractionWorkExpiredMaintenanceTick ts i h r db = Inr db' \<Longrightarrow> execution_db db' = execution_db db"
  by (auto simp: persistRepositoryExtractionWorkExpiredMaintenanceTick_def returns Let_def split: if_splits)

section \<open>What a tick does to the tables\<close>

text \<open>The request of a candidate, and whether it has been stored.\<close>

definition request_of ::
  "RepositoryExtractionWorkExpiredMaintenanceTickInput \<Rightarrow> repositoryExtractionWorkExpiredMaintenanceCandidate \<Rightarrow> transitionID" where
  "request_of i c = (if mc_executionRequestID c = [] then RecoveryID (ri_RequestID (recovery_input i c))
    else RepairID (ai_RequestID (repair_input i c)))"

fun stored_request :: "executionDB \<Rightarrow> transitionID \<Rightarrow> bool" where
  "stored_request db (RecoveryID k) \<longleftrightarrow> (\<exists>q\<in>set (recovery_requests (work_db db)). rq_request_id q = k)"
| "stored_request db (RepairID k) \<longleftrightarrow> (\<exists>q\<in>set (repairs db). xr_request_id q = k)"

lemma request_trim [simp]:
  "trim_space (ri_RequestID (recovery_input i c)) = ri_RequestID (recovery_input i c)"
  "trim_space (ai_RequestID (repair_input i c)) = ai_RequestID (repair_input i c)"
  unfolding recovery_input_def repair_input_def repositoryExtractionWorkExpiredMaintenanceRecoveryRequestID_def
    repositoryExtractionWorkExpiredMaintenanceExecutionRepairRequestID_def stableID_def
  by (simp_all add: trim_hashed solid_def del: append.simps)

lemma locked_requests:
  "recoverExpiredRepositoryExtractionWorkLocked ts work c x now db = Inr (r, db') \<Longrightarrow>
    recovery_requests db' = recovery_requests db"
  by (auto simp: recoverExpiredRepositoryExtractionWorkLocked_def expireRepositoryExtractionWorkClaimAttempt_def
    update_one_item_def update_one_attempt_def returns split: if_splits)

lemma recover_requests:
  assumes run: "recoverExpiredRepositoryExtractionWork ts input now db = Inr (r, db')" and q: "q \<in> set (recovery_requests db')"
  shows "q \<in> set (recovery_requests db) \<or> rq_request_id q = trim_space (ri_RequestID input)"
proof (cases "db' = db")
  case False
  from run obtain i where i: "validateRepositoryExtractionWorkRecoveryInput input = Inr i"
    unfolding recoverExpiredRepositoryExtractionWork_def by (auto simp: returns)
  then have "ri_RequestID i = trim_space (ri_RequestID input)"
    by (auto simp: validateRepositoryExtractionWorkRecoveryInput_def Let_def split: if_splits)
  with run i False obtain work c x r1 db1 p where
    lk: "recoverExpiredRepositoryExtractionWorkLocked ts work c x now db = Inr (r1, db1)"
    and db': "db' = db1\<lparr>recovery_requests := recovery_requests db1 @ [p]\<rparr>" "rq_request_id p = trim_space (ri_RequestID input)"
    unfolding recoverExpiredRepositoryExtractionWork_def persistRepositoryExtractionWorkRecoveryRequest_def Let_def
    by (auto simp: returns split: if_splits option.splits)
  show ?thesis using q db' locked_requests[OF lk] by auto
qed (use q in simp)

lemma apply_requests:
  assumes run: "applyRepositoryExtractionWorkExpiredMaintenanceCandidate ts i c now db = Inr (t, db')"
    and inv: "execution_inv ts db" and st: "stored_request db' k"
  shows "stored_request db k \<or> k = request_of i c"
proof (cases "mc_executionRequestID c = []")
  case True
  with run obtain r w where w: "recoverExpiredRepositoryExtractionWork ts (recovery_input i c) now (work_db db) = Inr (r, w)"
    and db': "db' = db\<lparr>work_db := w\<rparr>"
    by (auto simp: applyRepositoryExtractionWorkExpiredMaintenanceCandidate_def returns)
  show ?thesis using st recover_requests[OF w] True by (cases k) (auto simp: db' request_of_def)
next
  case False
  with run obtain r where r: "repairExpiredRepositoryExtractionWorkExecution ts (repair_input i c) now db = Inr (r, db')"
    by (auto simp: applyRepositoryExtractionWorkExpiredMaintenanceCandidate_def returns)
  have k: "keys_ok (work_db db)" using inv work_inv_keys by (auto simp: execution_inv_def)
  show ?thesis
  proof (cases rule: repair_cases[OF r k])
    case (2 j x a e status heir q)
    then have "ai_RequestID j = ai_RequestID (repair_input i c)"
      by (auto simp: validateRepositoryExtractionWorkExecutionRepairInput_def Let_def split: if_splits)
    then show ?thesis using st 2(8,17) False by (cases k) (auto simp: request_of_def)
  qed (use st in simp)
qed

text \<open>What a fresh repair stored, and its result.\<close>

lemma repair_stored:
  assumes run: "repairExpiredRepositoryExtractionWorkExecution ts input now db = Inr (r, db')" and "\<not> ao_Replayed r"
    and inv: "execution_inv ts db"
  obtains i a where "validateRepositoryExtractionWorkExecutionRepairInput input = Inr i" "ao_RequestID r = ai_RequestID i"
    "a \<in> set (attempts (work_db db'))" "ca_claimID a = ao_ClaimID r" "ao_AttemptNumber r = ca_attemptNumber a"
    "ca_status a = repositoryExtractionWorkExpired" "ao_LeaseExpiresAt r = ca_leaseExpiresAt a"
    "repair_row ts r (repositoryExtractionWorkExecutionRepairPayloadHash i) \<in> set (repairs db')"
    "ao_ExecutionRequestID r = ai_ExecutionRequestID i" "rw_WorkItemID (ao_Work r) = ai_WorkItemID i"
    "ao_ClaimID r = ai_ClaimID i" "ao_RepairedAt r = now"
proof -
  have wi: "work_inv ts (work_db db)" using inv by (simp add: execution_inv_def)
  note k = work_inv_keys[OF wi]
  from run obtain i where i: "validateRepositoryExtractionWorkExecutionRepairInput input = Inr i"
    unfolding repairExpiredRepositoryExtractionWorkExecution_def by (auto simp: returns)
  note run = run[unfolded repairExpiredRepositoryExtractionWorkExecution_def Let_def, simplified i and_then.simps]
  from run assms(2) obtain work t u where
    work: "readRepositoryExtractionWorkByID (work_db db) (ai_WorkItemID i) = Inr work"
    and lk: "recoverExpiredRepositoryExtractionWorkLocked ts work (ai_ClaimID i) (ai_WorkerID i) now (work_db db) = Inr (t, u)"
    and ps: "persistRepositoryExtractionWorkExecutionRepair ts r (repositoryExtractionWorkExecutionRepairPayloadHash i)
      (db\<lparr>work_db := u\<rparr>) = Inr db'"
    and r: "ao_RequestID r = ai_RequestID i" "ao_ClaimID r = rr_ClaimID t" "ao_LeaseExpiresAt r = rr_LeaseExpiresAt t"
      "ao_AttemptNumber r = rr_AttemptNumber t" "ao_ExecutionRequestID r = ai_ExecutionRequestID i"
      "ao_Work r = rr_Work t" "ao_RepairedAt r = rr_RecoveredAt t"
    by (auto simp: returns replayRepositoryExtractionWorkExecutionRepairIfPresent_def split: if_splits option.splits)
  obtain w where w: "scanned (work_db db) w work" and wi: "wi_work_item_id w = ai_WorkItemID i" using read_by_id[OF work] .
  obtain a status heir where a: "running_pair (work_db db) w a" "rr_ClaimID t = ca_claimID a" "ca_claimID a = ai_ClaimID i"
    and t: "rr_Work t = wr_work work" "rr_RecoveredAt t = now"
    and u: "u = (work_db db)\<lparr>items := replace w (release_item status heir w) (items (work_db db)),
      attempts := replace a (expired_attempt ts now a) (attempts (work_db db))\<rparr>"
    by (rule recover_locked_cases[OF lk k w])
  obtain b where b: "readRepositoryExtractionWorkClaimAttempt (work_db db) (ai_ClaimID i) = Inr b"
    "rr_LeaseExpiresAt t = ca_leaseExpiresAt b" "rr_AttemptNumber t = ca_attemptNumber b" by (rule recover_locked_result[OF lk])
  have ain: "a \<in> set (attempts (work_db db))" using a(1) by (simp add: running_pair_def)
  have "b = a" using same_attempt[OF k] read_attempt[OF b(1)] ain a(3) by metis
  have db': "db' = db\<lparr>work_db := u, repairs := repairs db @
      [repair_row ts r (repositoryExtractionWorkExecutionRepairPayloadHash i)]\<rparr>"
    using ps unfolding persistRepositoryExtractionWorkExecutionRepair_def by (auto simp: returns split: if_splits)
  show thesis
    by (rule that[OF i r(1), of "expired_attempt ts now a"]) (use r a(2,3) u t scanned_fields(10)[OF w] wi b(2,3) \<open>b = a\<close> ain db' in \<open>simp_all add: in_replace\<close>)
qed

text \<open>The transition that a tick returns for a candidate, and the rows that it stores: a recovery where nobody
  owns the claim, a repair of the execution that owns it otherwise.\<close>

definition transition_of ::
  "RepositoryExtractionWorkExpiredMaintenanceTickInput \<Rightarrow> time \<Rightarrow> repositoryExtractionWorkExpiredMaintenanceCandidate \<Rightarrow>
   RepositoryExtractionWorkExpiredMaintenanceTransition \<Rightarrow> bool" where
  "transition_of i now c t \<longleftrightarrow> transition_id t = request_of i c \<and>
    (case t of
       Recovery r \<Rightarrow> rw_WorkItemID (rr_Work r) = trim_space (rw_WorkItemID (mc_work c)) \<and>
         rr_ClaimID r = trim_space (mc_claimID c) \<and> rr_RecoveredAt r = now
     | ExecutionRepair r \<Rightarrow> rw_WorkItemID (ao_Work r) = trim_space (rw_WorkItemID (mc_work c)) \<and>
         ao_ClaimID r = trim_space (mc_claimID c) \<and>
         ao_ExecutionRequestID r = trim_space (mc_executionRequestID c) \<and> ao_RepairedAt r = now)"

definition recovery_row_of ::
  "(time \<Rightarrow> time) \<Rightarrow> RepositoryExtractionWorkExpiredMaintenanceTickInput \<Rightarrow> time \<Rightarrow>
   repositoryExtractionWorkExpiredMaintenanceCandidate \<Rightarrow> releaseRequest \<Rightarrow> bool" where
  "recovery_row_of ts i now c q \<longleftrightarrow> rq_request_id q = ri_RequestID (recovery_input i c) \<and>
    rq_work_item_id q = trim_space (rw_WorkItemID (mc_work c)) \<and> rq_claim_id q = trim_space (mc_claimID c) \<and>
    rq_at q = ts now"

definition repair_row_of ::
  "(time \<Rightarrow> time) \<Rightarrow> RepositoryExtractionWorkExpiredMaintenanceTickInput \<Rightarrow> time \<Rightarrow>
   repositoryExtractionWorkExpiredMaintenanceCandidate \<Rightarrow> repairRow \<Rightarrow> bool" where
  "repair_row_of ts i now c q \<longleftrightarrow> xr_request_id q = ai_RequestID (repair_input i c) \<and>
    xr_execution_request_id q = trim_space (mc_executionRequestID c) \<and>
    xr_work_item_id q = trim_space (rw_WorkItemID (mc_work c)) \<and> xr_claim_id q = trim_space (mc_claimID c) \<and>
    xr_repaired_at q = ts now"

lemma recover_fresh:
  assumes run: "recoverExpiredRepositoryExtractionWork ts input now db = Inr (r, db')" and k: "keys_ok db"
    and fresh: "\<forall>q\<in>set (recovery_requests db). rq_request_id q \<noteq> trim_space (ri_RequestID input)"
  obtains w a status heir q where "running_pair db w a" "ca_leaseExpiresAt a \<le> now" "released db w status heir"
    "wi_work_item_id w = trim_space (ri_WorkItemID input)" "ca_claimID a = trim_space (ri_ClaimID input)"
    "rr_RequestID r = trim_space (ri_RequestID input)" "rw_WorkItemID (rr_Work r) = wi_work_item_id w"
    "rr_ClaimID r = ca_claimID a" "rr_RecoveredAt r = now"
    "rq_request_id q = trim_space (ri_RequestID input)" "rq_work_item_id q = wi_work_item_id w"
    "rq_claim_id q = ca_claimID a" "rq_at q = ts now"
    "db' = db\<lparr>items := replace w (release_item status heir w) (items db),
      attempts := replace a (expired_attempt ts now a) (attempts db), recovery_requests := recovery_requests db @ [q]\<rparr>"
proof -
  from run obtain i where i: "validateRepositoryExtractionWorkRecoveryInput input = Inr i"
    unfolding recoverExpiredRepositoryExtractionWork_def by (auto simp: returns)
  then have t: "ri_RequestID i = trim_space (ri_RequestID input)" "ri_WorkItemID i = trim_space (ri_WorkItemID input)"
    "ri_ClaimID i = trim_space (ri_ClaimID input)"
    by (auto simp: validateRepositoryExtractionWorkRecoveryInput_def Let_def split: if_splits)
  have none: "row (\<lambda>q. rq_request_id q = ri_RequestID i) (recovery_requests db) = None" using fresh t(1) by (simp add: row_None)
  from run i none obtain work r1 db1 where rd: "readRepositoryExtractionWorkByID db (ri_WorkItemID i) = Inr work"
    and lk: "recoverExpiredRepositoryExtractionWorkLocked ts work (ri_ClaimID i) [] now db = Inr (r1, db1)"
    and r: "r = r1\<lparr>rr_RequestID := ri_RequestID i, rr_RecoveryActorID := ri_RecoveryActorID i\<rparr>"
    and ps: "persistRepositoryExtractionWorkRecoveryRequest ts r (repositoryExtractionWorkRecoveryPayloadHash i) db1 = Inr db'"
    unfolding recoverExpiredRepositoryExtractionWork_def readRepositoryExtractionWorkRecoveryRequest_def Let_def
    by (auto simp: returns split: if_splits)
  obtain w where w: "scanned db w work" "wi_work_item_id w = ri_WorkItemID i" using read_by_id[OF rd] .
  let ?q = "\<lparr>rq_request_id = ri_RequestID i, rq_work_item_id = rw_WorkItemID (rr_Work r1),
    rq_claim_id = rr_ClaimID r1, rq_actor_id = ri_RecoveryActorID i, rq_disposition = rr_Disposition r1,
    rq_superseded_by = rr_SupersededByWorkItemID r1, rq_at = ts (rr_RecoveredAt r1),
    rq_payload_hash = repositoryExtractionWorkRecoveryPayloadHash i\<rparr>"
  have q: "db' = db1\<lparr>recovery_requests := recovery_requests db1 @ [?q]\<rparr>"
    using ps unfolding persistRepositoryExtractionWorkRecoveryRequest_def r by (auto simp: returns)
  show thesis
    by (rule recover_locked_cases[OF lk k w(1)], rule that[of w _ _ _ ?q])
      (use q r t w(2) in \<open>simp_all add: scanned_fields[OF w(1)]\<close>)
qed

lemma repair_fresh:
  assumes run: "repairExpiredRepositoryExtractionWorkExecution ts input now db = Inr (r, db')" and inv: "execution_inv ts db"
    and fresh: "\<forall>q\<in>set (repairs db). xr_request_id q \<noteq> trim_space (ai_RequestID input)"
  obtains w a status heir q where "running_pair (work_db db) w a" "ca_leaseExpiresAt a \<le> now"
    "released (work_db db) w status heir" "wi_work_item_id w = trim_space (ai_WorkItemID input)"
    "ca_claimID a = trim_space (ai_ClaimID input)" "ao_RequestID r = trim_space (ai_RequestID input)"
    "ao_ExecutionRequestID r = trim_space (ai_ExecutionRequestID input)" "rw_WorkItemID (ao_Work r) = wi_work_item_id w"
    "ao_ClaimID r = ca_claimID a" "ao_RepairedAt r = now" "xr_request_id q = trim_space (ai_RequestID input)"
    "xr_execution_request_id q = trim_space (ai_ExecutionRequestID input)" "xr_work_item_id q = wi_work_item_id w"
    "xr_claim_id q = ca_claimID a" "xr_repaired_at q = ts now"
    "db' = db\<lparr>work_db := (work_db db)\<lparr>items := replace w (release_item status heir w) (items (work_db db)),
      attempts := replace a (expired_attempt ts now a) (attempts (work_db db))\<rparr>, repairs := repairs db @ [q]\<rparr>"
proof -
  from run obtain i where i: "validateRepositoryExtractionWorkExecutionRepairInput input = Inr i"
    unfolding repairExpiredRepositoryExtractionWorkExecution_def by (auto simp: returns)
  then have t: "ai_RequestID i = trim_space (ai_RequestID input)" "ai_WorkItemID i = trim_space (ai_WorkItemID input)"
    "ai_ClaimID i = trim_space (ai_ClaimID input)" "ai_ExecutionRequestID i = trim_space (ai_ExecutionRequestID input)"
    by (auto simp: validateRepositoryExtractionWorkExecutionRepairInput_def Let_def split: if_splits)
  have none: "row (\<lambda>q. xr_request_id q = ai_RequestID i) (repairs db) = None" using fresh t(1) by (simp add: row_None)
  have nr: "\<not> ao_Replayed r" using run i none
    unfolding repairExpiredRepositoryExtractionWorkExecution_def readRepositoryExtractionWorkExecutionRepair_def
      replayRepositoryExtractionWorkExecutionRepairIfPresent_def Let_def
    by (auto simp: returns split: if_splits option.splits)
  let ?q = "repair_row ts r (repositoryExtractionWorkExecutionRepairPayloadHash i)"
  have st: "ao_RequestID r = ai_RequestID i" "?q \<in> set (repairs db')" "ao_ExecutionRequestID r = ai_ExecutionRequestID i"
    "rw_WorkItemID (ao_Work r) = ai_WorkItemID i" "ao_ClaimID r = ai_ClaimID i" "ao_RepairedAt r = now"
    by (rule repair_stored[OF run nr inv], simp add: i)+
  have new: "?q \<notin> set (repairs db)" using fresh st(1) t(1) by (auto simp: repair_row_def)
  have k: "keys_ok (work_db db)" using inv work_inv_keys by (auto simp: execution_inv_def)
  show thesis
  proof (cases rule: repair_cases[OF run k])
    case 1
    then show ?thesis using st(2) new by simp
  next
    case (2 i' w a e status heir q)
    have q: "?q = q" using st(2) new 2(17) by simp
    have w: "wi_work_item_id w = trim_space (ai_WorkItemID input)" "ca_claimID a = trim_space (ai_ClaimID input)"
      using 2(10,11) st(4,5) t by (simp_all add: q[symmetric] repair_row_def)
    show ?thesis
      by (rule that[OF 2(2-4) w _ _ _ _ _ _ _ _ _ _ 2(17)])
        (use st t w 2(14) in \<open>simp_all add: q[symmetric] repair_row_def\<close>)
  qed
qed

lemma recovery_fields:
  "ri_WorkItemID (recovery_input i c) = rw_WorkItemID (mc_work c)" "ri_ClaimID (recovery_input i c) = mc_claimID c"
  by (simp_all add: recovery_input_def)

lemma repair_fields:
  "ai_WorkItemID (repair_input i c) = rw_WorkItemID (mc_work c)" "ai_ClaimID (repair_input i c) = mc_claimID c"
  "ai_ExecutionRequestID (repair_input i c) = mc_executionRequestID c"
  by (simp_all add: repair_input_def)

text \<open>One candidate whose request is not stored: it releases its work, ends its attempt and stores one row.\<close>

lemma apply_fresh:
  assumes run: "applyRepositoryExtractionWorkExpiredMaintenanceCandidate ts i c now db = Inr (t, db')"
    and inv: "execution_inv ts db" and fresh: "\<not> stored_request db (request_of i c)"
  obtains w a status heir where "running_pair (work_db db) w a" "ca_leaseExpiresAt a \<le> now"
    "released (work_db db) w status heir" "wi_work_item_id w = trim_space (rw_WorkItemID (mc_work c))"
    "ca_claimID a = trim_space (mc_claimID c)" "transition_of i now c t"
    "items (work_db db') = replace w (release_item status heir w) (items (work_db db))"
    "attempts (work_db db') = replace a (expired_attempt ts now a) (attempts (work_db db))"
    "windows (work_db db') = windows (work_db db)" "executions db' = executions db"
    "mc_executionRequestID c = [] \<and> (\<exists>q. recovery_row_of ts i now c q \<and>
        recovery_requests (work_db db') = recovery_requests (work_db db) @ [q] \<and> repairs db' = repairs db) \<or>
      mc_executionRequestID c \<noteq> [] \<and> (\<exists>q. repair_row_of ts i now c q \<and>
        recovery_requests (work_db db') = recovery_requests (work_db db) \<and> repairs db' = repairs db @ [q])"
proof (cases "mc_executionRequestID c = []")
  case True
  with run obtain r u where u: "recoverExpiredRepositoryExtractionWork ts (recovery_input i c) now (work_db db) = Inr (r, u)"
    and t: "t = Recovery r" and db': "db' = db\<lparr>work_db := u\<rparr>"
    by (auto simp: applyRepositoryExtractionWorkExpiredMaintenanceCandidate_def returns)
  have k: "keys_ok (work_db db)" using inv work_inv_keys by (auto simp: execution_inv_def)
  have "\<forall>q\<in>set (recovery_requests (work_db db)). rq_request_id q \<noteq> trim_space (ri_RequestID (recovery_input i c))"
    using fresh True by (auto simp: request_of_def)
  note f = recover_fresh[OF u k this, unfolded request_trim
    recovery_fields]
  obtain w a status heir q where
    w: "running_pair (work_db db) w a" "ca_leaseExpiresAt a \<le> now" "released (work_db db) w status heir"
    and id: "wi_work_item_id w = trim_space (rw_WorkItemID (mc_work c))" "ca_claimID a = trim_space (mc_claimID c)"
    and r: "rr_RequestID r = ri_RequestID (recovery_input i c)" "rw_WorkItemID (rr_Work r) = wi_work_item_id w"
      "rr_ClaimID r = ca_claimID a" "rr_RecoveredAt r = now"
    and q: "rq_request_id q = ri_RequestID (recovery_input i c)" "rq_work_item_id q = wi_work_item_id w"
      "rq_claim_id q = ca_claimID a" "rq_at q = ts now"
    and u: "u = (work_db db)\<lparr>items := replace w (release_item status heir w) (items (work_db db)),
      attempts := replace a (expired_attempt ts now a) (attempts (work_db db)),
      recovery_requests := recovery_requests (work_db db) @ [q]\<rparr>"
    by (rule f) (rule that)
  have "recovery_row_of ts i now c q" unfolding recovery_row_of_def using q id by simp
  moreover have "transition_of i now c t" unfolding transition_of_def t using r id True by (simp add: request_of_def)
  ultimately show thesis using True by (intro that[OF w id]) (auto simp: db' u)
next
  case False
  with run obtain r where r1: "repairExpiredRepositoryExtractionWorkExecution ts (repair_input i c) now db = Inr (r, db')"
    and t: "t = ExecutionRepair r" by (auto simp: applyRepositoryExtractionWorkExpiredMaintenanceCandidate_def returns)
  have "\<forall>q\<in>set (repairs db). xr_request_id q \<noteq> trim_space (ai_RequestID (repair_input i c))"
    using fresh False by (auto simp: request_of_def)
  note f = repair_fresh[OF r1 inv this, unfolded request_trim repair_fields]
  obtain w a status heir q where
    w: "running_pair (work_db db) w a" "ca_leaseExpiresAt a \<le> now" "released (work_db db) w status heir"
    and id: "wi_work_item_id w = trim_space (rw_WorkItemID (mc_work c))" "ca_claimID a = trim_space (mc_claimID c)"
    and r: "ao_RequestID r = ai_RequestID (repair_input i c)"
      "ao_ExecutionRequestID r = trim_space (mc_executionRequestID c)" "rw_WorkItemID (ao_Work r) = wi_work_item_id w"
      "ao_ClaimID r = ca_claimID a" "ao_RepairedAt r = now"
    and q: "xr_request_id q = ai_RequestID (repair_input i c)" "xr_execution_request_id q = trim_space (mc_executionRequestID c)"
      "xr_work_item_id q = wi_work_item_id w" "xr_claim_id q = ca_claimID a" "xr_repaired_at q = ts now"
    and db': "db' = db\<lparr>work_db := (work_db db)\<lparr>items := replace w (release_item status heir w) (items (work_db db)),
      attempts := replace a (expired_attempt ts now a) (attempts (work_db db))\<rparr>, repairs := repairs db @ [q]\<rparr>"
    by (rule f) (rule that)
  have "repair_row_of ts i now c q" unfolding repair_row_of_def using q id by simp
  moreover have "transition_of i now c t" unfolding transition_of_def t using r id False by (simp add: request_of_def)
  ultimately show thesis using False by (intro that[OF w id]) (auto simp: db')
qed

text \<open>The whole loop: every candidate of the batch makes its transition, in the order of the batch, and
  nothing else happens.\<close>

abbreviation candidate_items :: "repositoryExtractionWorkExpiredMaintenanceCandidate list \<Rightarrow> string set" where
  "candidate_items cs \<equiv> set (map (\<lambda>c. trim_space (rw_WorkItemID (mc_work c))) cs)"

abbreviation candidate_claims :: "repositoryExtractionWorkExpiredMaintenanceCandidate list \<Rightarrow> string set" where
  "candidate_claims cs \<equiv> set (map (\<lambda>c. trim_space (mc_claimID c)) cs)"

lemma apply_each_effect:
  assumes "apply_each ts i now cs db = Inr (rs, db')" "execution_inv ts db" "timestamp_column ts"
    "distinct (map (request_of i) cs)" "\<forall>c\<in>set cs. \<not> stored_request db (request_of i c)"
  shows "list_all2 (transition_of i now) cs rs \<and> executions db' = executions db \<and>
    (\<exists>qs. recovery_requests (work_db db') = recovery_requests (work_db db) @ qs \<and>
      list_all2 (recovery_row_of ts i now) (filter (\<lambda>c. mc_executionRequestID c = []) cs) qs) \<and>
    (\<exists>qs. repairs db' = repairs db @ qs \<and>
      list_all2 (repair_row_of ts i now) (filter (\<lambda>c. mc_executionRequestID c \<noteq> []) cs) qs) \<and>
    released_items repositoryExtractionWorkRunning (candidate_items cs) (work_db db) (work_db db') \<and>
    expired_attempts ts now (candidate_claims cs) (work_db db) (work_db db') \<and>
    windows (work_db db') = windows (work_db db)"
  using assms
proof (induction cs arbitrary: db rs)
  case Nil
  then show ?case by (simp add: released_items_none expired_attempts_none)
next
  case (Cons c cs)
  from Cons.prems(1) obtain t x rs' where
    run: "applyRepositoryExtractionWorkExpiredMaintenanceCandidate ts i c now db = Inr (t, x)"
    and rest: "apply_each ts i now cs x = Inr (rs', db')" and rs: "rs = t # rs'" by (auto simp: returns)
  have k: "keys_ok (work_db db)" using Cons.prems(2) work_inv_keys by (auto simp: execution_inv_def)
  have free: "\<not> stored_request db (request_of i c)" using Cons.prems(5) by simp
  obtain w a status heir where w: "running_pair (work_db db) w a" "ca_leaseExpiresAt a \<le> now"
      "released (work_db db) w status heir"
    and id: "wi_work_item_id w = trim_space (rw_WorkItemID (mc_work c))" "ca_claimID a = trim_space (mc_claimID c)"
    and t: "transition_of i now c t"
    and x: "items (work_db x) = replace w (release_item status heir w) (items (work_db db))"
      "attempts (work_db x) = replace a (expired_attempt ts now a) (attempts (work_db db))"
      "windows (work_db x) = windows (work_db db)" "executions x = executions db"
    and rows: "mc_executionRequestID c = [] \<and> (\<exists>q. recovery_row_of ts i now c q \<and>
        recovery_requests (work_db x) = recovery_requests (work_db db) @ [q] \<and> repairs x = repairs db) \<or>
      mc_executionRequestID c \<noteq> [] \<and> (\<exists>q. repair_row_of ts i now c q \<and>
        recovery_requests (work_db x) = recovery_requests (work_db db) \<and> repairs x = repairs db @ [q])"
    by (rule apply_fresh[OF run Cons.prems(2) free]) (rule that)
  have inv: "execution_inv ts x"
    using execution_step_kept[OF apply_step[OF run] Cons.prems(2,3)] by (simp add: execution_kept_def)
  have fresh: "\<forall>d\<in>set cs. \<not> stored_request x (request_of i d)"
  proof
    fix d
    assume d: "d \<in> set cs"
    then have "request_of i d \<noteq> request_of i c" "\<not> stored_request db (request_of i d)"
      using Cons.prems(4,5) by (auto simp: image_iff)
    then show "\<not> stored_request x (request_of i d)" using apply_requests[OF run Cons.prems(2)] by blast
  qed
  have d: "distinct (map (request_of i) cs)" using Cons.prems(4) by simp
  obtain qs ps where e: "list_all2 (transition_of i now) cs rs'" "executions db' = executions x"
    "recovery_requests (work_db db') = recovery_requests (work_db x) @ qs"
    "list_all2 (recovery_row_of ts i now) (filter (\<lambda>c. mc_executionRequestID c = []) cs) qs"
    "repairs db' = repairs x @ ps" "list_all2 (repair_row_of ts i now) (filter (\<lambda>c. mc_executionRequestID c \<noteq> []) cs) ps"
    "released_items repositoryExtractionWorkRunning (candidate_items cs) (work_db x) (work_db db')"
    "expired_attempts ts now (candidate_claims cs) (work_db x) (work_db db')"
    "windows (work_db db') = windows (work_db x)"
    using Cons.IH[OF rest inv Cons.prems(3) d fresh] by blast
  have run_w: "w \<in> set (items (work_db db))" "wi_status w = repositoryExtractionWorkRunning"
    and run_a: "a \<in> set (attempts (work_db db))" "ca_status a = repositoryExtractionWorkRunning"
    using w(1) by (simp_all add: running_pair_def)
  have "released_items repositoryExtractionWorkRunning (insert (wi_work_item_id w) (candidate_items cs)) (work_db db) (work_db db')"
    by (rule released_items_step[OF run_w w(3) k x(1) _ _ _ e(7)]) (simp_all add: e(9) x(3))
  moreover have "expired_attempts ts now (insert (ca_claimID a) (candidate_claims cs)) (work_db db) (work_db db')"
    by (rule expired_attempts_step[OF run_a w(2) k x(2) e(8)])
  moreover have "\<exists>qs. recovery_requests (work_db db') = recovery_requests (work_db db) @ qs \<and>
      list_all2 (recovery_row_of ts i now) (filter (\<lambda>c. mc_executionRequestID c = []) (c # cs)) qs"
    using rows e(3,4) by auto
  moreover have "\<exists>qs. repairs db' = repairs db @ qs \<and>
      list_all2 (repair_row_of ts i now) (filter (\<lambda>c. mc_executionRequestID c \<noteq> []) (c # cs)) qs"
    using rows e(5,6) by auto
  ultimately show ?case using t e(1,2,9) rs x(3,4) id by simp
qed

lemma persist_maintenance_rows:
  "persist_maintenance_items k n rs rows = Inr rows' \<Longrightarrow>
    \<exists>new. rows' = rows @ new \<and> map mt_transition new = map transition_id rs \<and> list_all (\<lambda>t. mt_tick_request_id t = k) new"
proof (induction rs arbitrary: n rows)
  case (Cons r rs)
  let ?t = "\<lparr>mt_tick_request_id = k, mt_item_ordinal = n, mt_transition = transition_id r\<rparr>"
  from Cons.prems have rest: "persist_maintenance_items k (n + 1) rs (rows @ [?t]) = Inr rows'"
    by (auto simp: returns insert_row_def split: if_splits)
  obtain new where "rows' = (rows @ [?t]) @ new" "map mt_transition new = map transition_id rs"
    "list_all (\<lambda>t. mt_tick_request_id t = k) new" using Cons.IH[OF rest] by blast
  then show ?case by (intro exI[of _ "?t # new"]) simp
qed simp

lemma persist_maintenance_items_rows:
  "persistRepositoryExtractionWorkExpiredMaintenanceTick ts i h r db = Inr db' \<Longrightarrow>
    \<exists>new. maintenance_items db' = maintenance_items db @ new \<and> map mt_transition new = map transition_id (mr_Transitions r) \<and>
      list_all (\<lambda>t. mt_tick_request_id t = mi_RequestID i) new"
  by (auto simp: persistRepositoryExtractionWorkExpiredMaintenanceTick_def returns Let_def split: if_splits
    dest!: persist_maintenance_rows)

lemma fresh_maintenance:
  assumes run: "runExpiredRepositoryExtractionWorkMaintenanceTick ts arrange input now db = Inr (r, db')"
    and i: "prepareRepositoryExtractionWorkExpiredMaintenanceTick input = Inr (i, h)"
    and fresh: "\<forall>q\<in>set (maintenance_requests db). mq_request_id q \<noteq> mi_RequestID i"
  shows "apply_each ts i now (lockExpiredRepositoryExtractionWorkMaintenanceCandidates ts arrange (mi_Limit i) now
      (execution_db db)) (execution_db db) = Inr (mr_Transitions r, execution_db db') \<and>
    (\<exists>new. maintenance_items db' = maintenance_items db @ new \<and> map mt_transition new = map transition_id (mr_Transitions r) \<and>
      list_all (\<lambda>t. mt_tick_request_id t = mi_RequestID i) new)"
proof -
  have none: "row (\<lambda>q. mq_request_id q = mi_RequestID i) (maintenance_requests db) = None" using fresh by (simp add: row_None)
  from run i none obtain rs e h' where
    rs: "apply_each ts i now (lockExpiredRepositoryExtractionWorkMaintenanceCandidates ts arrange (mi_Limit i) now
      (execution_db db)) (execution_db db) = Inr (rs, e)" and r: "mr_Transitions r = rs"
    and p: "persistRepositoryExtractionWorkExpiredMaintenanceTick ts i h' r (db\<lparr>execution_db := e\<rparr>) = Inr db'"
    unfolding runExpiredRepositoryExtractionWorkMaintenanceTick_def by (auto simp: returns Let_def split: if_splits)
  show ?thesis using rs r persist_maintenance_db[OF p] persist_maintenance_items_rows[OF p] by simp
qed

text \<open>C19. A successful maintenance tick makes exactly one transition for each expired claim of its batch, which are the
  first candidates in the order of the query, up to its limit of at most 100: a repair where an
  execution owns the claim, a recovery otherwise.  It returns them in their order and stores one row for
  each; it releases the running work of the batch, to pending or superseded by newer pending work of
  its stream, marks the attempts of its claims as expired, and changes no other work, no other attempt and no execution.
  Each is a single step of the queue, so that the invariant of the work, of the executions and of the
  repairs is kept.  (The requests are hashes: no two candidates of the batch and no stored request may
  collide.)\<close>

theorem maintenance_tick_refines_steps:
  assumes "execution_inv ts (execution_db db)" and "timestamp_column ts"
    and prep: "prepareRepositoryExtractionWorkExpiredMaintenanceTick input = Inr (i, h)"
    and run: "runExpiredRepositoryExtractionWorkMaintenanceTick ts arrange input now db = Inr (r, db')"
    and batch: "batch = take (nat (mi_Limit i)) (arrange (candidate_rows (execution_db db) (ts now)))"
    and fresh: "\<forall>q\<in>set (maintenance_requests db). mq_request_id q \<noteq> mi_RequestID i"
      "distinct (map (request_of i) batch)" "\<forall>c\<in>set batch. \<not> stored_request (execution_db db) (request_of i c)"
  shows "execution_steps ts (execution_db db) (execution_db db') \<and> execution_inv ts (execution_db db') \<and>
    1 \<le> mi_Limit i \<and> mi_Limit i \<le> 100 \<and>
    list_all2 (transition_of i now) batch (mr_Transitions r) \<and>
    (\<exists>qs. recovery_requests (work_db (execution_db db')) = recovery_requests (work_db (execution_db db)) @ qs \<and>
      list_all2 (recovery_row_of ts i now) (filter (\<lambda>c. mc_executionRequestID c = []) batch) qs) \<and>
    (\<exists>qs. repairs (execution_db db') = repairs (execution_db db) @ qs \<and>
      list_all2 (repair_row_of ts i now) (filter (\<lambda>c. mc_executionRequestID c \<noteq> []) batch) qs) \<and>
    (\<exists>rows. maintenance_items db' = maintenance_items db @ rows \<and>
      list_all (\<lambda>t. mt_tick_request_id t = mi_RequestID i) rows \<and> map mt_transition rows = map (request_of i) batch) \<and>
    released_items repositoryExtractionWorkRunning (set (map (\<lambda>c. trim_space (rw_WorkItemID (mc_work c))) batch))
      (work_db (execution_db db)) (work_db (execution_db db')) \<and>
    expired_attempts ts now (set (map (\<lambda>c. trim_space (mc_claimID c)) batch))
      (work_db (execution_db db)) (work_db (execution_db db')) \<and>
    executions (execution_db db') = executions (execution_db db)"
proof -
  note p = prepare_maintenance[OF prep]
  have rs: "apply_each ts i now batch (execution_db db) = Inr (mr_Transitions r, execution_db db')"
    and rows: "\<exists>new. maintenance_items db' = maintenance_items db @ new \<and> map mt_transition new = map transition_id (mr_Transitions r) \<and>
      list_all (\<lambda>t. mt_tick_request_id t = mi_RequestID i) new"
    using fresh_maintenance[OF run prep fresh(1)] batch
    by (simp_all add: lockExpiredRepositoryExtractionWorkMaintenanceCandidates_def)
  have s: "execution_steps ts (execution_db db) (execution_db db')" using apply_each_steps[OF rs] by simp
  have inv: "execution_inv ts (execution_db db')" using execution_steps_kept[OF s assms(1,2)] by (simp add: execution_kept_def)
  note e = apply_each_effect[OF rs assms(1,2) fresh(2,3)]
  have "map transition_id (mr_Transitions r) = map (request_of i) batch"
    using e by (auto simp: transition_of_def list_all2_conv_all_nth intro!: nth_equalityI)
  with rows have "\<exists>rows. maintenance_items db' = maintenance_items db @ rows \<and>
      list_all (\<lambda>t. mt_tick_request_id t = mi_RequestID i) rows \<and> map mt_transition rows = map (request_of i) batch" by auto
  then show ?thesis using s inv p(3,4) e by simp
qed

section \<open>A batch with a blocked claim\<close>

text \<open>The running work of a blocked stream cannot be released.\<close>

lemma blocked_locked_refused:
  assumes inv: "work_inv ts db" and bl: "blocked db b a w"
    and work: "readRepositoryExtractionWorkByID db (wi_work_item_id b) = Inr work"
  shows "\<exists>e. recoverExpiredRepositoryExtractionWorkLocked ts work c x now db = Inl e"
proof (rule ccontr)
  assume "\<not> ?thesis"
  then obtain r db' where lk: "recoverExpiredRepositoryExtractionWorkLocked ts work c x now db = Inr (r, db')"
    by (cases "recoverExpiredRepositoryExtractionWorkLocked ts work c x now db") auto
  note k = work_inv_keys[OF inv]
  obtain y where y: "scanned db y work" "wi_work_item_id y = wi_work_item_id b" using read_by_id[OF work] .
  have "b \<in> set (items db)" using bl by (simp add: blocked_def running_pair_def)
  then have "y = b" using same_item[OF k _ scanned_fields(1)[OF y(1)]] y(2) by metis
  obtain status heir where "released db y status heir" by (rule recover_locked_cases[OF lk k y(1)])
  then show False using blocked_not_released[OF inv bl] \<open>y = b\<close> by blast
qed

lemma recover_blocked:
  assumes inv: "work_inv ts db" and bl: "blocked db b a w" and id: "trim_space (ri_WorkItemID input) = wi_work_item_id b"
    and run: "recoverExpiredRepositoryExtractionWork ts input now db = Inr (r, db')"
  shows "\<exists>q\<in>set (recovery_requests db). rq_request_id q = trim_space (ri_RequestID input)"
proof (rule ccontr)
  assume "\<not> ?thesis"
  then have none: "row (\<lambda>q. rq_request_id q = trim_space (ri_RequestID input)) (recovery_requests db) = None"
    by (simp add: row_None)
  from run obtain i where i: "validateRepositoryExtractionWorkRecoveryInput input = Inr i"
    unfolding recoverExpiredRepositoryExtractionWork_def by (auto simp: returns)
  then have "ri_RequestID i = trim_space (ri_RequestID input)" "ri_WorkItemID i = wi_work_item_id b"
    using id by (auto simp: validateRepositoryExtractionWorkRecoveryInput_def Let_def split: if_splits)
  with run i none obtain work p where "readRepositoryExtractionWorkByID db (wi_work_item_id b) = Inr work"
    "recoverExpiredRepositoryExtractionWorkLocked ts work (ri_ClaimID i) [] now db = Inr p"
    unfolding recoverExpiredRepositoryExtractionWork_def readRepositoryExtractionWorkRecoveryRequest_def Let_def
    by (auto simp: returns split: if_splits)
  then show False using blocked_locked_refused[OF inv bl, of work "ri_ClaimID i" "[]" now] by auto
qed

lemma repair_blocked:
  assumes inv: "work_inv ts (work_db db)" and bl: "blocked (work_db db) b a w"
    and id: "trim_space (ai_WorkItemID input) = wi_work_item_id b"
    and run: "repairExpiredRepositoryExtractionWorkExecution ts input now db = Inr (r, db')"
  shows "\<exists>q\<in>set (repairs db). xr_request_id q = trim_space (ai_RequestID input)"
proof (rule ccontr)
  assume "\<not> ?thesis"
  then have none: "row (\<lambda>q. xr_request_id q = trim_space (ai_RequestID input)) (repairs db) = None"
    by (simp add: row_None)
  from run obtain i where i: "validateRepositoryExtractionWorkExecutionRepairInput input = Inr i"
    unfolding repairExpiredRepositoryExtractionWorkExecution_def by (auto simp: returns)
  then have "ai_RequestID i = trim_space (ai_RequestID input)" "ai_WorkItemID i = wi_work_item_id b"
    using id by (auto simp: validateRepositoryExtractionWorkExecutionRepairInput_def Let_def split: if_splits)
  with run i none obtain work p where "readRepositoryExtractionWorkByID (work_db db) (wi_work_item_id b) = Inr work"
    "recoverExpiredRepositoryExtractionWorkLocked ts work (ai_ClaimID i) (ai_WorkerID i) now (work_db db) = Inr p"
    unfolding repairExpiredRepositoryExtractionWorkExecution_def readRepositoryExtractionWorkExecutionRepair_def
      replayRepositoryExtractionWorkExecutionRepairIfPresent_def Let_def
    by (auto simp: returns split: if_splits option.splits)
  then show False using blocked_locked_refused[OF inv bl, of work "ai_ClaimID i" "ai_WorkerID i" now] by auto
qed

lemma apply_blocked:
  assumes run: "applyRepositoryExtractionWorkExpiredMaintenanceCandidate ts i c now db = Inr (t, db')"
    and inv: "execution_inv ts db" and ts: "timestamp_column ts" and bl: "blocked (work_db db) b a w"
    and T: "ca_leaseExpiresAt a \<le> now"
  shows "blocked (work_db db') b a w"
proof (cases "mc_executionRequestID c = []")
  case True
  with run obtain r u where u: "recoverExpiredRepositoryExtractionWork ts (recovery_input i c) now (work_db db) = Inr (r, u)"
    and db': "db' = db\<lparr>work_db := u\<rparr>"
    by (auto simp: applyRepositoryExtractionWorkExpiredMaintenanceCandidate_def returns)
  have "upkeep ts now (work_db db) u" by (rule upkeep.recover[OF u]) simp
  then show ?thesis using upkeep_blocked[OF _ _ ts bl T] inv by (simp add: db' execution_inv_def)
next
  case False
  with run obtain r where r: "repairExpiredRepositoryExtractionWorkExecution ts (repair_input i c) now db = Inr (r, db')"
    by (auto simp: applyRepositoryExtractionWorkExpiredMaintenanceCandidate_def returns)
  have wi: "work_inv ts (work_db db)" using inv by (simp add: execution_inv_def)
  note k = work_inv_keys[OF wi]
  show ?thesis
  proof (cases rule: repair_cases[OF r k])
    case (2 j x y e status heir q)
    have b: "b \<in> set (items (work_db db))" "a \<in> set (attempts (work_db db))" "w \<in> set (items (work_db db))"
      "wi_status w = repositoryExtractionWorkPending" using bl by (simp_all add: blocked_def running_pair_def)
    have "x \<noteq> b" using blocked_not_released[OF wi bl] 2(4) by auto
    moreover have "w \<noteq> x" using 2(2) b(4) by (auto simp: running_pair_def)
    moreover have "a \<noteq> y" using 2(2) bl \<open>x \<noteq> b\<close> same_item[OF k, of x b] by (auto simp: running_pair_def blocked_def)
    ultimately show ?thesis using 2(17) b by (intro still_blocked[OF bl]) (auto simp: in_replace)
  qed (use bl in simp)
qed

lemma apply_each_blocked:
  assumes "execution_inv ts db" "timestamp_column ts" "blocked (work_db db) b a w" "ca_leaseExpiresAt a \<le> now"
    and "c \<in> set cs" "trim_space (rw_WorkItemID (mc_work c)) = wi_work_item_id b"
    and "\<forall>d\<in>set cs. d \<noteq> c \<longrightarrow> request_of i d \<noteq> request_of i c" and "\<not> stored_request db (request_of i c)"
  shows "\<exists>e. apply_each ts i now cs db = Inl e"
  using assms
proof (induction cs arbitrary: db)
  case (Cons d cs)
  show ?case
  proof (cases "applyRepositoryExtractionWorkExpiredMaintenanceCandidate ts i d now db")
    case (Inl e)
    then show ?thesis by simp
  next
    case (Inr p)
    then obtain t x where run: "applyRepositoryExtractionWorkExpiredMaintenanceCandidate ts i d now db = Inr (t, x)"
      by (cases p) auto
    have "d \<noteq> c"
    proof
      assume d: "d = c"
      have wi: "work_inv ts (work_db db)" using Cons.prems(1) by (simp add: execution_inv_def)
      have id: "trim_space (ri_WorkItemID (recovery_input i c)) = wi_work_item_id b"
        "trim_space (ai_WorkItemID (repair_input i c)) = wi_work_item_id b"
        using Cons.prems(6) by (simp_all add: recovery_input_def repair_input_def)
      have "stored_request db (request_of i c)"
        using run recover_blocked[OF wi Cons.prems(3) id(1)] repair_blocked[OF wi Cons.prems(3) id(2)]
        by (auto simp: applyRepositoryExtractionWorkExpiredMaintenanceCandidate_def d request_of_def returns split: if_splits)
      then show False using Cons.prems(8) by simp
    qed
    then have "c \<in> set cs" "request_of i d \<noteq> request_of i c" using Cons.prems(5,7) by auto
    moreover have "execution_inv ts x"
      using execution_step_kept[OF apply_step[OF run] Cons.prems(1,2)] by (simp add: execution_kept_def)
    moreover have "blocked (work_db x) b a w" by (rule apply_blocked[OF run Cons.prems(1,2,3,4)])
    moreover have "\<not> stored_request x (request_of i c)"
      using apply_requests[OF run Cons.prems(1)] Cons.prems(8) calculation(2) by metis
    moreover have "\<forall>d\<in>set cs. d \<noteq> c \<longrightarrow> request_of i d \<noteq> request_of i c" using Cons.prems(7) by simp
    ultimately have "\<exists>e. apply_each ts i now cs x = Inl e" using Cons.IH[of x] Cons.prems(2,4,6) by blast
    with run show ?thesis by auto
  qed
qed simp

text \<open>One blocked stream stops the maintenance of all streams: a tick whose batch holds the expired claim
  of a blocked stream fails as a whole and is rolled back, whatever else is in the batch, unless
  its request of that claim is stored already or shared by another candidate.  The batch is ordered by
  the end of the lease, so from some instant on every batch starts with such a claim.\<close>

theorem maintenance_tick_aborts:
  assumes "execution_inv ts (execution_db db)" and "timestamp_column ts"
    and "prepareRepositoryExtractionWorkExpiredMaintenanceTick input = Inr (i, h)" and "now \<noteq> 0"
    and fresh: "\<forall>q\<in>set (maintenance_requests db). mq_request_id q \<noteq> mi_RequestID i"
    and bl: "blocked (work_db (execution_db db)) b a w" "ca_leaseExpiresAt a \<le> now"
    and c: "c \<in> set (lockExpiredRepositoryExtractionWorkMaintenanceCandidates ts arrange (mi_Limit i) now (execution_db db))"
      "trim_space (rw_WorkItemID (mc_work c)) = wi_work_item_id b"
    and new: "\<not> stored_request (execution_db db) (request_of i c)"
      "\<forall>d\<in>set (lockExpiredRepositoryExtractionWorkMaintenanceCandidates ts arrange (mi_Limit i) now (execution_db db)).
        d \<noteq> c \<longrightarrow> request_of i d \<noteq> request_of i c"
  shows "\<exists>e. runExpiredRepositoryExtractionWorkMaintenanceTick ts arrange input now db = Inl e"
proof -
  have "row (\<lambda>q. mq_request_id q = mi_RequestID i) (maintenance_requests db) = None" using fresh by (simp add: row_None)
  moreover obtain e where "apply_each ts i now (lockExpiredRepositoryExtractionWorkMaintenanceCandidates ts arrange
    (mi_Limit i) now (execution_db db)) (execution_db db) = Inl e"
    using apply_each_blocked[OF assms(1,2) bl c new(2,1)] ..
  ultimately show ?thesis using assms(3,4)
    by (auto simp: runExpiredRepositoryExtractionWorkMaintenanceTick_def is_zero_time_def)
qed

section \<open>Owners, repairs and replays\<close>

text \<open>C18. In every reachable state a claim is owned by at most one execution, which names the work, the worker
  and the lease of a stored attempt; an execution is repaired at most once, and the repair names an
  attempt of that execution that expired at the instant of the repair, not before its lease ended.\<close>

theorem executions_own_claims:
  assumes "execution_steps ts empty_executions db" and "timestamp_column ts"
  shows "(\<forall>e\<in>set (executions db). \<forall>f\<in>set (executions db). xe_claim_id e = xe_claim_id f \<longrightarrow> e = f) \<and>
    (\<forall>e\<in>set (executions db). \<exists>a\<in>set (attempts (work_db db)). owns e a \<and>
      xe_lease_milliseconds e = ca_leaseDurationMilliseconds a) \<and>
    (\<forall>p\<in>set (repairs db). \<forall>q\<in>set (repairs db).
      xr_execution_request_id p = xr_execution_request_id q \<longrightarrow> p = q) \<and>
    (\<forall>q\<in>set (repairs db). (\<exists>e\<in>set (executions db). repaired_execution q e) \<and>
      (\<exists>a\<in>set (attempts (work_db db)). repaired_attempt q a))"
proof -
  have inv: "execution_inv ts db"
    using execution_steps_kept[OF assms(1) execution_inv_empty assms(2)] by (simp add: execution_kept_def)
  then have "distinct (map xe_claim_id (executions db))" "distinct (map xr_execution_request_id (repairs db))"
    by (simp_all add: execution_inv_def)
  then show ?thesis using inv keyed[of xe_claim_id "executions db"] keyed[of xr_execution_request_id "repairs db"]
    by (auto simp: execution_inv_def list_all_iff execution_ok_def)
qed

text \<open>C20. A repair can be replayed for ever: whatever happens after it, the same request returns the stored
  repair, marked as replayed, and changes nothing; only its instant has the precision of the column.\<close>

theorem repair_replays:
  assumes run: "repairExpiredRepositoryExtractionWorkExecution ts input now db = Inr (r, db')" and "\<not> ao_Replayed r"
    and inv: "execution_inv ts db" and t: "timestamp_column ts" and later: "execution_steps ts db' db''" and "now' \<noteq> 0"
  shows "\<exists>r'. repairExpiredRepositoryExtractionWorkExecution ts input now' db'' = Inr (r', db'') \<and> ao_Replayed r' \<and>
    ao_RequestID r' = ao_RequestID r \<and> ao_ExecutionRequestID r' = ao_ExecutionRequestID r \<and>
    rw_WorkItemID (ao_Work r') = rw_WorkItemID (ao_Work r) \<and> ao_ClaimID r' = ao_ClaimID r \<and>
    ao_AttemptNumber r' = ao_AttemptNumber r \<and> ao_WorkerID r' = ao_WorkerID r \<and>
    ao_RepairActorID r' = ao_RepairActorID r \<and> ao_LeaseExpiresAt r' = ao_LeaseExpiresAt r \<and>
    ao_RepairedAt r' = ts (ao_RepairedAt r) \<and> ao_Disposition r' = ao_Disposition r \<and>
    ao_SupersededByWorkItemID r' = ao_SupersededByWorkItemID r"
proof -
  obtain i a where i: "validateRepositoryExtractionWorkExecutionRepairInput input = Inr i" "ao_RequestID r = ai_RequestID i"
    and a: "a \<in> set (attempts (work_db db'))" "ca_claimID a = ao_ClaimID r" "ao_AttemptNumber r = ca_attemptNumber a"
    "ca_status a = repositoryExtractionWorkExpired" "ao_LeaseExpiresAt r = ca_leaseExpiresAt a"
    and q': "repair_row ts r (repositoryExtractionWorkExecutionRepairPayloadHash i) \<in> set (repairs db')"
    by (rule repair_stored[OF run assms(2) inv])
  let ?q = "repair_row ts r (repositoryExtractionWorkExecutionRepairPayloadHash i)"
  have inv': "execution_inv ts db'" using repair_kept[OF run inv t] by (simp add: execution_kept_def)
  have k: "execution_kept ts db' db''" by (rule execution_steps_kept[OF later inv' t])
  then have inv'': "execution_inv ts db''" and q: "?q \<in> set (repairs db'')" using q' by (auto simp: execution_kept_def)
  have core: "core_inv ts (work_db db'')" using inv'' by (simp add: execution_inv_def work_inv_def)
  have "\<exists>b\<in>set (attempts (work_db db'')). later a b" using k a(1) by (simp add: execution_kept_def attempts_grow_def)
  then have a'': "a \<in> set (attempts (work_db db''))" using a(4) by (auto simp: later_def)
  obtain b e where b: "b \<in> set (attempts (work_db db''))" "repaired_attempt ?q b"
    and e: "e \<in> set (executions db'')" "repaired_execution ?q e" using inv'' q by (auto simp: execution_inv_def)
  have keys: "keys_ok (work_db db'')" using inv'' work_inv_keys by (auto simp: execution_inv_def)
  have "b = a" using same_attempt[OF keys b(1) a''] b(2) a(2) by (simp add: repaired_attempt_def repair_row_def)
  have "ca_workItemID a \<in> set (map wi_work_item_id (items (work_db db'')))"
    using core a'' by (auto simp: core_inv_def attempts_inv_def list_all_iff)
  then obtain w where w: "w \<in> set (items (work_db db''))" "wi_work_item_id w = ca_workItemID a" by auto
  obtain work where work: "scanned (work_db db'') w work"
    "readRepositoryExtractionWorkByID (work_db db'') (ca_workItemID a) = Inr work"
    using lock_work[OF core w(1)] w(2) by metis
  have rows: "row (\<lambda>p. xr_request_id p = ai_RequestID i) (repairs db'') = Some ?q"
    "row (\<lambda>x. xe_request_id x = ao_ExecutionRequestID r) (executions db'') = Some e"
    using row_key[of xr_request_id "repairs db''" "ai_RequestID i" ?q]
      row_key[of xe_request_id "executions db''" "ao_ExecutionRequestID r" e] inv'' q e i(2)
    by (simp_all add: execution_inv_def repaired_execution_def repair_row_def)
  have wid: "rw_WorkItemID (wr_work work) = ca_workItemID a" using scanned_fields(10)[OF work(1)] w(2) by simp
  have at: "readRepositoryExtractionWorkClaimAttempt (work_db db'') (ao_ClaimID r) = Inr a"
    using read_attempt_of[OF core a''] a(2) by simp
  show ?thesis using i rows work(2) wid at b(2) e(2) a assms(6) \<open>b = a\<close>
    by (simp add: repairExpiredRepositoryExtractionWorkExecution_def Let_def readRepositoryExtractionWorkExecutionRepair_def
      replayRepositoryExtractionWorkExecutionRepairIfPresent_def readRepositoryExtractionWorkExecutionRequest_def
      repaired_attempt_def repaired_execution_def repair_row_def is_zero_time_def)
qed

section \<open>The texts of a failure audit\<close>

lemma strip_words_blank:
  assumes "[] \<notin> set ws" "strip_words ws s = []"
  shows "\<exists>vs. set vs \<subseteq> set ws \<and> s = concat vs"
  using assms
proof (induction ws s rule: strip_words.induct)
  case (1 ws)
  then show ?case by (intro exI[of _ "[]"]) simp
next
  case (2 ws c cs)
  then obtain w where w: "find (has_prefix (c # cs)) ws = Some w" by (cases "find (has_prefix (c # cs)) ws") auto
  then have ws: "w \<in> set ws" "has_prefix (c # cs) w" by (auto simp: find_Some_iff)
  have "w \<noteq> []" using ws(1) 2(2) by auto
  then have cs: "c # cs = w @ drop (length w - 1) cs" using ws(2)
    by (cases w) (auto simp: has_prefix_def, metis append_take_drop_id)
  obtain vs where "set vs \<subseteq> set ws" "drop (length w - 1) cs = concat vs" using 2(1)[OF w 2(2)] 2(3) w by auto
  then show ?case using ws(1) cs by (intro exI[of _ "w # vs"]) simp
qed

lemma spaces_nonempty: "[] \<notin> set spaces"
  using spaces_not_solid by blast

lemma trim_space_nonempty:
  assumes s: "stripped spaces s" "s \<noteq> []"
  shows "trim_space s \<noteq> []"
proof
  assume "trim_space s = []"
  then have "strip_words (map rev spaces) (rev s) = []"
    using s(1) by (simp add: trim_space_def trim_left_def trim_right_def strip_words_id)
  moreover have "[] \<notin> set (map rev spaces)" using spaces_nonempty by auto
  ultimately obtain vs where vs: "set vs \<subseteq> set (map rev spaces)" "rev s = concat vs" using strip_words_blank by blast
  have "rev (concat vs) = concat (rev (map rev vs))" by (simp add: rev_concat rev_map)
  then have "s = concat (rev (map rev vs))" using vs(2) by (metis rev_rev_ident)
  moreover have "set (rev (map rev vs)) \<subseteq> set spaces" using vs(1) by auto
  ultimately obtain us where us: "s = concat us" "set us \<subseteq> set spaces" by blast
  then obtain u us' where "us = u # us'" using s(2) by (cases us) auto
  then have "u \<in> set spaces" "has_prefix s u" using us by auto
  then show False using s by (auto simp: stripped_def)
qed

lemma trim_space_length: "length (trim_space s) \<le> length s"
proof -
  have "length (strip_words ws v) \<le> length v" for ws v
    using strip_words_suffix[of v ws] by (metis length_append le_add2)
  then have "length (trim_right v) \<le> length v" "length (trim_left v) \<le> length v" for v
    by (simp_all add: trim_right_def trim_left_def) (metis length_rev)
  then show ?thesis unfolding trim_space_def using le_trans by blast
qed

lemma drop_runes_prefix:
  "\<exists>n. drop_runes limit v = take n v \<and> length (drop_runes limit v) \<le> limit \<and>
    (length v \<le> limit \<or> limit < length (drop_runes limit v) + 4)"
proof (induction limit v rule: drop_runes.induct)
  case (1 limit v)
  let ?u = "take (length v - last_rune_size v) v"
  show ?case
  proof (cases "length v \<le> limit")
    case True
    then show ?thesis by (intro exI[of _ "length v"]) (simp add: drop_runes.simps)
  next
    case False
    then obtain n where n: "drop_runes limit ?u = take n ?u" "length (drop_runes limit ?u) \<le> limit"
      "length ?u \<le> limit \<or> limit < length (drop_runes limit ?u) + 4" using 1 by blast
    have "drop_runes limit ?u = ?u" if "length ?u \<le> limit" using that by (simp add: drop_runes.simps)
    then have "limit < length (drop_runes limit ?u) + 4" using n(3) False last_rune_size_pos[of v] by auto
    then show ?thesis using False n(1,2)
      by (intro exI[of _ "min n (length v - last_rune_size v)"]) (simp add: drop_runes.simps[of limit v] take_take)
  qed
qed

lemma bounded_text:
  assumes "fallback \<noteq> []" "trim_space fallback = fallback" "4 \<le> limit"
  shows "1 \<le> length (boundedRepositoryExtractionWorkExecutionFailureText v limit fallback)"
    "length (boundedRepositoryExtractionWorkExecutionFailureText v limit fallback) \<le> limit"
    "trim_space (boundedRepositoryExtractionWorkExecutionFailureText v limit fallback) =
      boundedRepositoryExtractionWorkExecutionFailureText v limit fallback"
proof -
  let ?t = "trim_space (to_valid_utf8 False v)"
  let ?v = "if ?t = [] then fallback else ?t"
  have r: "boundedRepositoryExtractionWorkExecutionFailureText v limit fallback = trim_space (drop_runes limit ?v)"
    by (simp add: boundedRepositoryExtractionWorkExecutionFailureText_def Let_def)
  have v: "stripped spaces ?v" "?v \<noteq> []" using assms(1,2) trim_space_id_iff[of ?t] trim_space_id_iff[of fallback] by auto
  obtain n where n: "drop_runes limit ?v = take n ?v" "length (drop_runes limit ?v) \<le> limit"
    "length ?v \<le> limit \<or> limit < length (drop_runes limit ?v) + 4" using drop_runes_prefix by blast
  have "stripped spaces (take n ?v)" using stripped_prefix[of spaces "take n ?v" "drop n ?v"] v(1) by simp
  moreover have "drop_runes limit ?v = ?v" if "length ?v \<le> limit" using that by (simp add: drop_runes.simps)
  then have "drop_runes limit ?v \<noteq> []" using n(3) assms(3) v(2) by auto
  ultimately have "trim_space (drop_runes limit ?v) \<noteq> []" using n(1) trim_space_nonempty by metis
  then show "1 \<le> length (boundedRepositoryExtractionWorkExecutionFailureText v limit fallback)"
    unfolding r by (simp add: Suc_le_eq)
  show "length (boundedRepositoryExtractionWorkExecutionFailureText v limit fallback) \<le> limit"
    unfolding r using trim_space_length n(2) le_trans by blast
  show "trim_space (boundedRepositoryExtractionWorkExecutionFailureText v limit fallback) =
      boundedRepositoryExtractionWorkExecutionFailureText v limit fallback" unfolding r by simp
qed

text \<open>Whatever error an execution ends with, its audit fits its columns: the class has one to 100 bytes and
  the message one to 2000, so the check of the table never rejects a failure audit.\<close>

theorem failure_audit_fits:
  "(let (k, m) = repositoryExtractionWorkExecutionFailureMaterial c
    in 1 \<le> length k \<and> length k \<le> 100 \<and> 1 \<le> length m \<and> length m \<le> 2000) \<and>
   persistRepositoryExtractionWorkExecutionFailure ts request c failedAt db \<noteq> Inl Violation"
proof -
  obtain k m where km: "repositoryExtractionWorkExecutionFailureMaterial c = (k, m)" by fastforce
  have d: "trim_space ErrorRepositoryWorkExecutionFailed = ErrorRepositoryWorkExecutionFailed"
    by (simp add: trim_space_solid solid_def)
  have k: "k = boundedRepositoryExtractionWorkExecutionFailureText (fst (cause_texts c)) 100 ErrorRepositoryWorkExecutionFailed"
    and m: "m = boundedRepositoryExtractionWorkExecutionFailureText (snd (cause_texts c)) 2000 k"
    using km by (auto simp: repositoryExtractionWorkExecutionFailureMaterial_def Let_def)
  have kb: "1 \<le> length k" "length k \<le> 100" "trim_space k = k" unfolding k using bounded_text[OF _ d] by simp_all
  have "k \<noteq> []" using kb(1) by auto
  then have mb: "1 \<le> length m" "length m \<le> 2000" unfolding m using bounded_text[OF _ kb(3)] by simp_all
  have "readRepositoryExtractionWorkExecutionRequest db x \<noteq> Inl Violation" for x
    by (auto simp: readRepositoryExtractionWorkExecutionRequest_def readRepositoryExtractionWorkByID_def
      split: option.splits)
  then have "persistRepositoryExtractionWorkExecutionFailure ts request c failedAt db \<noteq> Inl Violation"
    using kb mb by (cases "readRepositoryExtractionWorkExecutionRequest db (ei_RequestID (er_input request))")
      (auto simp: persistRepositoryExtractionWorkExecutionFailure_def km Let_def failure_audit_ok_def split: option.splits)
  then show ?thesis using km kb mb by simp
qed

section \<open>An execution and its repair\<close>

text \<open>The running claim of the example is reserved at 4 ms and its lease ends at 13 ms.\<close>

definition execute_in :: RepositoryExtractionWorkExecutionInput where
  "execute_in = \<lparr>ei_RequestID = ''e1'', ei_WorkItemID = work_a, ei_ClaimID = claim_a, ei_WorkerID = ''worker'',
    ei_WorkspaceRoot = ''/w''\<rparr>"

definition prepared :: repositoryExtractionWorkExecutionRequest where
  "prepared = \<lparr>er_input = execute_in,
    er_repositorySnapshotRequestID = repositoryExtractionWorkExecutionChildRequestID
      ''work-exec-snapshot:'' ''repository_extraction_work_execution_snapshot'' ''e1'',
    er_extractorRequestID = repositoryExtractionWorkExecutionChildRequestID
      ''work-exec-extractor:'' ''repository_extraction_work_execution_extractor'' ''e1'',
    er_finishRequestID = repositoryExtractionWorkExecutionChildRequestID
      ''work-exec-finish:'' ''repository_extraction_work_execution_finish'' ''e1'',
    er_requestPayloadHash = repositoryExtractionWorkExecutionPayloadHash execute_in, er_work = no_work,
    er_workRecord = no_record, er_heartbeatLeaseMilliseconds = 0, er_heartbeatCount = 0, er_leaseExpiresAt = 0,
    er_requiresHeartbeat = False, er_failureClass = [], er_failureMessage = [], er_failedAt = None\<rparr>"

definition only_work :: "workDB \<Rightarrow> executionDB" where
  "only_work w = \<lparr>work_db = w, executions = [], repairs = []\<rparr>"

definition executing :: executionDB where
  "executing = (only_work claimed)\<lparr>executions := [execution_row (prepared\<lparr>er_heartbeatLeaseMilliseconds := 10\<rparr>)]\<rparr>"

definition repair_in :: RepositoryExtractionWorkExecutionRepairInput where
  "repair_in = \<lparr>ai_RequestID = ''x1'', ai_ExecutionRequestID = ''e1'', ai_WorkItemID = work_a, ai_ClaimID = claim_a,
    ai_WorkerID = ''worker'', ai_RepairActorID = ''actor''\<rparr>"

definition maintenance_in :: RepositoryExtractionWorkExpiredMaintenanceTickInput where
  "maintenance_in = \<lparr>mi_RequestID = ''m1'', mi_Limit = 10, mi_MaintenanceActorID = ''actor''\<rparr>"

definition maintaining :: "executionDB \<Rightarrow> maintenanceDB" where
  "maintaining db = \<lparr>execution_db = db, maintenance_requests = [], maintenance_items = []\<rparr>"

lemmas execution_defs = only_work_def executing_def execution_row_def prepared_def execute_in_def

lemmas release_defs = recoverExpiredRepositoryExtractionWorkLocked_def release_status_def
  expireRepositoryExtractionWorkClaimAttempt_def running_attempt_row_def release_item_def

lemmas repair_defs = repairExpiredRepositoryExtractionWorkExecution_def
  validateRepositoryExtractionWorkExecutionRepairInput_def replayRepositoryExtractionWorkExecutionRepairIfPresent_def
  readRepositoryExtractionWorkExecutionRepair_def readRepositoryExtractionWorkExecutionRequest_def
  persistRepositoryExtractionWorkExecutionRepair_def repair_row_def

lemma prepare_1: "prepareRepositoryExtractionWorkExecution (\<lambda>_. Inr ''/w'') execute_in = Inr prepared"
  by (simp add: prepareRepositoryExtractionWorkExecution_def Let_def actor_ok_def trim_space_solid solid_def
    prepared_def execute_in_def)

lemma reserve_1: "\<exists>r. reserveRepositoryExtractionWorkExecution prepared (4 * Millisecond) (only_work claimed) = Inr (r, False, executing)"
  by (simp add: reserveRepositoryExtractionWorkExecution_def reserve_fresh_def readRepositoryExtractionWorkExecutionRequest_def
    running_work_def running_attempt_def readRepositoryExtractionWorkExecutionOwner_def
    persistRepositoryExtractionWorkExecutionRequest_def read_defs state_defs execution_defs)

lemma repair_1: "\<exists>r db. repairExpiredRepositoryExtractionWorkExecution microseconds repair_in (20 * Millisecond) executing =
    Inr (r, db) \<and> \<not> ao_Replayed r"
  by (simp add: repair_defs repair_in_def release_defs read_defs state_defs execution_defs)

lemma lift_steps: "work_steps ts x y \<Longrightarrow> execution_steps ts (only_work x) (only_work y)"
proof (induction rule: work_steps.induct)
  case (more x y z)
  have "execution_step ts (only_work y) ((only_work y)\<lparr>work_db := z\<rparr>)"
    by (rule execution_step.work) (use more.hyps(2) in \<open>simp add: only_work_def\<close>)
  then show ?case using more.IH by (simp add: only_work_def)
qed simp

lemma reach_executing: "execution_steps microseconds empty_executions executing"
proof -
  have "execution_steps microseconds empty_executions (only_work claimed)"
    using lift_steps reach_claimed by (simp add: work_reachable_def empty_executions_def only_work_def)
  moreover have "execution_step microseconds (only_work claimed) executing"
    using reserve_1 execution_step.reserve[OF prepare_1] by blast
  ultimately show ?thesis by simp
qed

lemma executing_inv: "execution_inv microseconds executing"
  using execution_steps_kept[OF reach_executing execution_inv_empty timestamp_microseconds] by (simp add: execution_kept_def)

theorem executions_own_claims_witness:
  "\<exists>a\<in>set (attempts claimed). owns (hd (executions executing)) a \<and> ca_leaseDurationMilliseconds a = 10"
proof -
  have "hd (executions executing) \<in> set (executions executing)" "xe_lease_milliseconds (hd (executions executing)) = 10"
    "work_db executing = claimed" by (simp_all add: execution_defs)
  then show ?thesis using executions_own_claims[OF reach_executing timestamp_microseconds] by metis
qed

theorem repair_replays_witness:
  "\<exists>r db r'. repairExpiredRepositoryExtractionWorkExecution microseconds repair_in (20 * Millisecond) executing = Inr (r, db) \<and>
    repairExpiredRepositoryExtractionWorkExecution microseconds repair_in (30 * Millisecond) db = Inr (r', db) \<and> ao_Replayed r'"
proof -
  obtain r db where r: "repairExpiredRepositoryExtractionWorkExecution microseconds repair_in (20 * Millisecond) executing = Inr (r, db)"
    "\<not> ao_Replayed r" using repair_1 by blast
  have "30 * Millisecond \<noteq> 0" by simp
  from repair_replays[OF r executing_inv timestamp_microseconds rtranclp.rtrancl_refl this] r(1) show ?thesis by blast
qed

abbreviation "by_lease \<equiv> sort_key mc_leaseExpiresAt"

lemma candidates_executing: "candidate_rows executing (20 * Millisecond) =
  [\<lparr>mc_executionRequestID = ''e1'', mc_work = work_of (hd (items claimed)) (window_a 2), mc_claimID = claim_a,
    mc_workerID = ''worker'', mc_leaseExpiresAt = 13 * Millisecond\<rparr>]"
  by (simp add: candidate_rows_def owner_ids_def owns_def expired_row_def expired_claim_row_def same_text_def Let_def
    execution_defs state_defs)

lemma repair_id [simp]:
  "trim_space (repositoryExtractionWorkExpiredMaintenanceExecutionRepairRequestID k x) =
    repositoryExtractionWorkExpiredMaintenanceExecutionRepairRequestID k x"
  "repositoryExtractionWorkExpiredMaintenanceExecutionRepairRequestID k x \<noteq> []"
  unfolding repositoryExtractionWorkExpiredMaintenanceExecutionRepairRequestID_def stableID_def
  by (simp_all add: trim_hashed solid_def del: append.simps)

lemma maintain_1: "\<exists>r db. runExpiredRepositoryExtractionWorkMaintenanceTick microseconds by_lease maintenance_in (20 * Millisecond)
  (maintaining executing) = Inr (r, db)"
proof -
  have m: "microseconds (20 * Millisecond) = 20 * Millisecond" by (simp add: microseconds_def)
  have batch: "lockExpiredRepositoryExtractionWorkMaintenanceCandidates microseconds by_lease 10 (20 * Millisecond) executing =
    candidate_rows executing (20 * Millisecond)"
    unfolding lockExpiredRepositoryExtractionWorkMaintenanceCandidates_def m candidates_executing by simp
  let ?c = "hd (candidate_rows executing (20 * Millisecond))"
  have "\<exists>r db. repairExpiredRepositoryExtractionWorkExecution microseconds (repair_input maintenance_in ?c) (20 * Millisecond) executing =
    Inr (r, db)"
    unfolding candidates_executing
    by (simp add: repair_defs repair_input_def maintenance_in_def work_of_def release_defs read_defs state_defs execution_defs)
  then obtain r db where "repairExpiredRepositoryExtractionWorkExecution microseconds (repair_input maintenance_in ?c)
    (20 * Millisecond) executing = Inr (r, db)" by blast
  then have "\<exists>t db. apply_each microseconds maintenance_in (20 * Millisecond) (candidate_rows executing (20 * Millisecond)) executing =
    Inr ([t], db)"
    unfolding candidates_executing by (simp add: applyRepositoryExtractionWorkExpiredMaintenanceCandidate_def)
  then show ?thesis using batch
    by (auto simp: runExpiredRepositoryExtractionWorkMaintenanceTick_def maintaining_def maintenance_in_def
      prepareRepositoryExtractionWorkExpiredMaintenanceTick_def trim_space_solid solid_def actor_ok_def Let_def row_def
      is_zero_time_def persistRepositoryExtractionWorkExpiredMaintenanceTick_def insert_row_def)
qed

theorem maintenance_tick_refines_steps_witness:
  "\<exists>r db t q. runExpiredRepositoryExtractionWorkMaintenanceTick microseconds by_lease maintenance_in (20 * Millisecond)
      (maintaining executing) = Inr (r, db) \<and> mr_Transitions r = [t] \<and>
    transition_id t = RepairID (repositoryExtractionWorkExpiredMaintenanceExecutionRepairRequestID ''m1'' ''e1'') \<and>
    repairs (execution_db db) = [q] \<and> xr_claim_id q = claim_a \<and>
    released_items repositoryExtractionWorkRunning {work_a} claimed (work_db (execution_db db)) \<and>
    expired_attempts microseconds (20 * Millisecond) {claim_a} claimed (work_db (execution_db db))"
proof -
  obtain r db where run: "runExpiredRepositoryExtractionWorkMaintenanceTick microseconds by_lease maintenance_in (20 * Millisecond)
    (maintaining executing) = Inr (r, db)" using maintain_1 by blast
  have m: "microseconds (20 * Millisecond) = 20 * Millisecond" by (simp add: microseconds_def)
  have inv: "execution_inv microseconds (execution_db (maintaining executing))" using executing_inv by (simp add: maintaining_def)
  obtain h where prep: "prepareRepositoryExtractionWorkExpiredMaintenanceTick maintenance_in = Inr (maintenance_in, h)"
    by (simp add: prepareRepositoryExtractionWorkExpiredMaintenanceTick_def maintenance_in_def trim_space_solid solid_def
      actor_ok_def Let_def)
  let ?c = "\<lparr>mc_executionRequestID = ''e1'', mc_work = work_of (hd (items claimed)) (window_a 2), mc_claimID = claim_a,
    mc_workerID = ''worker'', mc_leaseExpiresAt = 13 * Millisecond\<rparr>"
  have batch: "[?c] = take (nat (mi_Limit maintenance_in))
      (by_lease (candidate_rows (execution_db (maintaining executing)) (microseconds (20 * Millisecond))))"
  proof -
    have "execution_db (maintaining executing) = executing" "mi_Limit maintenance_in = 10"
      by (simp_all add: maintaining_def maintenance_in_def)
    then show ?thesis unfolding m using candidates_executing by simp
  qed
  have trims: "trim_space work_a = work_a" "trim_space claim_a = claim_a" by (simp_all add: trim_space_solid solid_def)
  have work: "rw_WorkItemID (mc_work ?c) = work_a" by (simp add: work_of_def state_defs)
  have req: "request_of maintenance_in ?c = RepairID (repositoryExtractionWorkExpiredMaintenanceExecutionRepairRequestID ''m1'' ''e1'')"
    by (simp add: request_of_def repair_input_def maintenance_in_def)
  have none: "repairs executing = []" "work_db executing = claimed" by (simp_all add: execution_defs)
  have new: "\<forall>q\<in>set (maintenance_requests (maintaining executing)). mq_request_id q \<noteq> mi_RequestID maintenance_in"
    by (simp add: maintaining_def)
  have fresh: "\<forall>c\<in>set [?c]. \<not> stored_request (execution_db (maintaining executing)) (request_of maintenance_in c)"
    using req none by (simp add: maintaining_def)
  note C = maintenance_tick_refines_steps[OF inv timestamp_microseconds prep run batch new _ fresh]
  obtain t where t: "mr_Transitions r = [t]" "transition_of maintenance_in (20 * Millisecond) ?c t"
    using C by (auto simp: list_all2_Cons1)
  obtain q where q: "repairs (execution_db db) = [q]" "repair_row_of microseconds maintenance_in (20 * Millisecond) ?c q"
    using C none by (auto simp: list_all2_Cons1 maintaining_def)
  have "released_items repositoryExtractionWorkRunning {work_a} claimed (work_db (execution_db db))"
    "expired_attempts microseconds (20 * Millisecond) {claim_a} claimed (work_db (execution_db db))"
    using C none work trims by (simp_all add: maintaining_def)
  moreover have "transition_id t = RepairID (repositoryExtractionWorkExpiredMaintenanceExecutionRepairRequestID ''m1'' ''e1'')"
    using t(2) req by (simp add: transition_of_def)
  moreover have "xr_claim_id q = claim_a" using q(2) trims by (simp add: repair_row_of_def)
  ultimately show ?thesis using run t(1) q(1) by blast
qed

text \<open>The blocked stream: its lease has ended at 30 ms and nobody owns the claim.\<close>

lemma candidates_blocked: "candidate_rows (only_work blocked_db) (40 * Millisecond) =
  [\<lparr>mc_executionRequestID = [], mc_work = work_of new_item_row ((window_a 1)\<lparr>gw_id := ''obs2'', gw_number := 2\<rparr>),
    mc_claimID = ''work-claim:2'', mc_workerID = ''worker'', mc_leaseExpiresAt = 30 * Millisecond\<rparr>]"
  by (simp add: candidate_rows_def owner_ids_def owns_def expired_row_def expired_claim_row_def same_text_def Let_def
    only_work_def blocked_db_def two_defs microseconds_def)

theorem maintenance_tick_aborts_witness:
  "\<exists>e. runExpiredRepositoryExtractionWorkMaintenanceTick microseconds by_lease maintenance_in (40 * Millisecond)
    (maintaining (only_work blocked_db)) = Inl e"
proof -
  have m: "microseconds (40 * Millisecond) = 40 * Millisecond" by (simp add: microseconds_def)
  have batch: "lockExpiredRepositoryExtractionWorkMaintenanceCandidates microseconds by_lease 10 (40 * Millisecond)
    (only_work blocked_db) = candidate_rows (only_work blocked_db) (40 * Millisecond)"
    unfolding lockExpiredRepositoryExtractionWorkMaintenanceCandidates_def m candidates_blocked by simp
  obtain h where p: "prepareRepositoryExtractionWorkExpiredMaintenanceTick maintenance_in = Inr (maintenance_in, h)"
    by (simp add: prepareRepositoryExtractionWorkExpiredMaintenanceTick_def maintenance_in_def trim_space_solid solid_def
      actor_ok_def Let_def)
  have inv: "execution_inv microseconds (only_work blocked_db)"
    using blocked_db_inv by (simp add: execution_inv_def only_work_def)
  let ?c = "hd (candidate_rows (only_work blocked_db) (40 * Millisecond))"
  have c: "candidate_rows (only_work blocked_db) (40 * Millisecond) = [?c]"
    "mc_executionRequestID ?c = []" "rw_WorkItemID (mc_work ?c) = ''repo-work:2''"
    unfolding candidates_blocked by (simp_all add: work_of_def new_item_row_def work_row_def claimed_item_def)
  have b: "lockExpiredRepositoryExtractionWorkMaintenanceCandidates microseconds by_lease (mi_Limit maintenance_in)
    (40 * Millisecond) (execution_db (maintaining (only_work blocked_db))) = [?c]"
    using batch c(1) by (simp add: maintaining_def maintenance_in_def)
  show ?thesis
  proof (rule maintenance_tick_aborts[where c = ?c, OF _ timestamp_microseconds p])
    show "blocked (work_db (execution_db (maintaining (only_work blocked_db)))) new_item_row new_attempt_row
      (work_row ''repo-work:1'' ''obs1'')" using blocked_db_blocked by (simp add: maintaining_def only_work_def)
    show "execution_inv microseconds (execution_db (maintaining (only_work blocked_db)))"
      using inv by (simp add: maintaining_def)
    show "ca_leaseExpiresAt new_attempt_row \<le> 40 * Millisecond"
      by (simp add: new_attempt_row_def attempt_row_def attempt_a_def)
    show "trim_space (rw_WorkItemID (mc_work ?c)) = wi_work_item_id new_item_row"
      unfolding c(3) by (simp add: trim_space_solid solid_def new_item_row_def work_row_def claimed_item_def)
    show "\<not> stored_request (execution_db (maintaining (only_work blocked_db))) (request_of maintenance_in ?c)"
      unfolding request_of_def c(2) by (simp add: maintaining_def only_work_def blocked_db_def two_items_def empty_db_def)
    show "?c \<in> set (lockExpiredRepositoryExtractionWorkMaintenanceCandidates microseconds by_lease (mi_Limit maintenance_in)
      (40 * Millisecond) (execution_db (maintaining (only_work blocked_db))))" unfolding b by simp
    show "\<forall>d\<in>set (lockExpiredRepositoryExtractionWorkMaintenanceCandidates microseconds by_lease (mi_Limit maintenance_in)
        (40 * Millisecond) (execution_db (maintaining (only_work blocked_db)))).
      d \<noteq> ?c \<longrightarrow> request_of maintenance_in d \<noteq> request_of maintenance_in ?c" unfolding b by simp
  qed (simp_all add: maintaining_def)
qed

end
