(* ===== verification/SourceSpans.thy ===== *)
theory SourceSpans
  imports IngestionBase GoScan GoMap
begin

text \<open>
  Sources and their spans: \<open>src/internal/evidenceingestion/spans.go\<close> and the types of \<open>types.go\<close> it
  uses.  A source is fixed as a snapshot of raw bytes; its rendered view is the same bytes; the span
  catalog cuts the view into its nonempty lines.  \<open>buildLineSpanCatalog_lines\<close> proves that the loop
  of the catalog, which works on byte offsets, produces the lines that splitting at the line feeds gives.
\<close>

section \<open>Types\<close>

record ManualReviewProfileInput =
  vp_ContractVersion :: string
  vp_Title :: string
  vp_Location :: string
  vp_Coverage :: string
  vp_Limitations :: "string slice"

record ManualTextInput =
  mt_ManualReviewProfile :: "ManualReviewProfileInput option"
  mt_SourceSystem :: string
  mt_SourceID :: string
  mt_SourceVersion :: string
  mt_Raw :: string
  mt_OriginMetadata :: "(string, string) gomap"
  mt_RequestID :: string
  mt_AttemptNumber :: int

record SourceSnapshot =
  ss_ID :: string
  ss_SourceSystem :: string
  ss_SourceID :: string
  ss_SourceVersion :: string
  ss_RawContentHash :: string
  ss_OriginMetadata :: "(string, string) gomap"

record ExtractionView =
  ev_ID :: string
  ev_SourceSnapshotID :: string
  ev_RendererName :: string
  ev_RendererVersion :: string
  ev_Rendered :: string
  ev_RenderedContentHash :: string

record SpanEntry =
  se_ExtractionViewID :: string
  se_SpanID :: string
  se_SpanCatalogVersion :: string
  se_StartByte :: int
  se_EndByte :: int
  se_DisplayLine :: int
  se_QuotedTextHash :: string
  se_QuotedText :: string

section \<open>Rendering contracts\<close>

abbreviation "SourceSystemManualText \<equiv> ''manual_text''"
abbreviation "SourceSystemCodeFile \<equiv> ''code_file''"
abbreviation "SourceSystemConnectorText \<equiv> ''connector_text''"
abbreviation "SourceSystemMCPReadDocument \<equiv> ''mcp_read_document''"
abbreviation "SourceSystemExternalDocument \<equiv> ''external_document''"

record sourceRenderingContract =
  rc_SourceSystem :: string
  rc_RendererName :: string
  rc_RendererVersion :: string
  rc_SpanCatalogVersion :: string

definition renderingContract :: "string \<Rightarrow> sourceRenderingContract ingestion" where
  "renderingContract sourceSystem =
    (if sourceSystem = [] \<or> sourceSystem = SourceSystemManualText then
       Inr \<lparr>rc_SourceSystem = SourceSystemManualText, rc_RendererName = ''manual-text-identity'',
         rc_RendererVersion = ''v1'', rc_SpanCatalogVersion = ''manual-line-v1''\<rparr>
     else if sourceSystem = SourceSystemCodeFile then
       Inr \<lparr>rc_SourceSystem = SourceSystemCodeFile, rc_RendererName = ''code-identity'',
         rc_RendererVersion = ''v1'', rc_SpanCatalogVersion = ''code-line-v1''\<rparr>
     else if sourceSystem = SourceSystemConnectorText then
       Inr \<lparr>rc_SourceSystem = SourceSystemConnectorText, rc_RendererName = ''connector-text-identity'',
         rc_RendererVersion = ''v1'', rc_SpanCatalogVersion = ''connector-text-line-v1''\<rparr>
     else if sourceSystem = SourceSystemMCPReadDocument then
       Inr \<lparr>rc_SourceSystem = SourceSystemMCPReadDocument, rc_RendererName = ''mcp-read-document-identity'',
         rc_RendererVersion = ''v1'', rc_SpanCatalogVersion = ''mcp-read-document-line-v1''\<rparr>
     else if sourceSystem = SourceSystemExternalDocument then
       Inr \<lparr>rc_SourceSystem = SourceSystemExternalDocument, rc_RendererName = ''external-document-identity'',
         rc_RendererVersion = ''v1'', rc_SpanCatalogVersion = ''external-document-line-v1''\<rparr>
     else Inl (Domain ErrorInvalidInput))"

text \<open>An external document is identified by its version, any other source also by its bytes.\<close>

definition sourceSnapshotID :: "string \<Rightarrow> string \<Rightarrow> string \<Rightarrow> string \<Rightarrow> string" where
  "sourceSnapshotID sourceSystem sourceID sourceVersion rawHash =
    (if sourceSystem = SourceSystemExternalDocument then
       stableID ''srcsnap:'' ''external_source_snapshot''
         (JObj [(''source_system'', JStr sourceSystem), (''source_id'', JStr sourceID),
           (''source_version'', JStr sourceVersion)])
     else stableID ''srcsnap:'' ''source_snapshot''
         (JObj [(''source_system'', JStr sourceSystem), (''source_id'', JStr sourceID),
           (''source_version'', JStr sourceVersion), (''raw_content_hash'', JStr rawHash)]))"

section \<open>The catalog of lines\<close>

text \<open>\<open>bytes.IndexByte\<close>, whose \<open>-1\<close> is \<open>None\<close>, and the slice \<open>b[i:j]\<close> for \<open>i \<le> j \<le> len(b)\<close>.\<close>

fun index_byte :: "char \<Rightarrow> string \<Rightarrow> nat option" where
  "index_byte c [] = None"
| "index_byte c (x # s) = (if x = c then Some 0 else map_option Suc (index_byte c s))"

definition slice_of :: "string \<Rightarrow> nat \<Rightarrow> nat \<Rightarrow> string" where
  "slice_of b i j = take (j - i) (drop i b)"

abbreviation "newline_byte \<equiv> CHR 0x0A"
abbreviation "return_byte \<equiv> CHR 0x0D"

definition line_end :: "string \<Rightarrow> nat \<Rightarrow> nat" where
  "line_end b lineStart = (case index_byte newline_byte (drop lineStart b) of
     None \<Rightarrow> length b | Some newline \<Rightarrow> lineStart + newline)"

definition content_end :: "string \<Rightarrow> nat \<Rightarrow> nat" where
  "content_end b lineStart =
    (let contentEnd = line_end b lineStart
     in if lineStart < contentEnd \<and> b ! (contentEnd - 1) = return_byte then contentEnd - 1 else contentEnd)"

definition line_span :: "ExtractionView \<Rightarrow> string \<Rightarrow> nat \<Rightarrow> nat \<Rightarrow> nat \<Rightarrow> nat \<Rightarrow> SpanEntry" where
  "line_span view spanCatalogVersion lineStart contentEnd displayLine spanNumber =
    (let quoted = slice_of (ev_Rendered view) lineStart contentEnd
     in \<lparr>se_ExtractionViewID = ev_ID view, se_SpanID = ''span:S'' @ nat_str spanNumber,
         se_SpanCatalogVersion = spanCatalogVersion, se_StartByte = int lineStart, se_EndByte = int contentEnd,
         se_DisplayLine = int displayLine, se_QuotedTextHash = contentHash quoted, se_QuotedText = quoted\<rparr>)"

lemma index_byte_less: "index_byte c s = Some n \<Longrightarrow> n < length s"
  by (induction s arbitrary: n) (auto split: if_splits)

lemma line_end_less: "index_byte newline_byte (drop i b) \<noteq> None \<Longrightarrow> line_end b i < length b \<and> i \<le> line_end b i"
  using index_byte_less by (fastforce simp: line_end_def)

text \<open>The loop: \<open>lineStart\<close>, \<open>displayLine\<close> and \<open>spanNumber\<close> are its variables.\<close>

function line_spans :: "ExtractionView \<Rightarrow> string \<Rightarrow> nat \<Rightarrow> nat \<Rightarrow> nat \<Rightarrow> SpanEntry list" where
  "line_spans view spanCatalogVersion lineStart displayLine spanNumber =
    (if length (ev_Rendered view) < lineStart then []
     else
       (let contentEnd = content_end (ev_Rendered view) lineStart;
            spans = (if lineStart < contentEnd
              then [line_span view spanCatalogVersion lineStart contentEnd displayLine spanNumber] else []);
            spanNumber = spanNumber + length spans
        in if index_byte newline_byte (drop lineStart (ev_Rendered view)) = None then spans
           else spans @ line_spans view spanCatalogVersion (line_end (ev_Rendered view) lineStart + 1)
             (displayLine + 1) spanNumber))"
  by auto

termination
proof (relation "measure (\<lambda>(view, _, lineStart, _, _). Suc (length (ev_Rendered view)) - lineStart)", goal_cases)
  case (2 view v lineStart)
  then show ?case using line_end_less[of lineStart "ev_Rendered view"] by (auto simp: not_less)
qed simp

declare line_spans.simps [simp del]

definition buildLineSpanCatalog :: "ExtractionView \<Rightarrow> string \<Rightarrow> SpanEntry list ingestion" where
  "buildLineSpanCatalog view spanCatalogVersion =
    (if \<not> utf8_valid (ev_Rendered view) then Inl (Domain ErrorInvalidUTF8)
     else Inr (line_spans view spanCatalogVersion 0 1 1))"

definition validateSpanBounds :: "ExtractionView \<Rightarrow> SpanEntry \<Rightarrow> unit ingestion" where
  "validateSpanBounds view span =
    (if se_ExtractionViewID span \<noteq> ev_ID view then Inl (Domain ErrorUnknownSpan)
     else if se_StartByte span < 0 \<or> se_EndByte span < se_StartByte span \<or>
       int (length (ev_Rendered view)) < se_EndByte span then Inl (Domain ErrorSpanOutOfBounds)
     else
       (let quoted = slice_of (ev_Rendered view) (nat (se_StartByte span)) (nat (se_EndByte span)) in
        if contentHash quoted \<noteq> se_QuotedTextHash span then Inl (Domain ErrorQuotedHashMismatch)
        else if quoted \<noteq> se_QuotedText span then Inl (Domain ErrorQuotedHashMismatch)
        else Inr ()))"

definition buildManualSource ::
  "ManualTextInput \<Rightarrow> (SourceSnapshot \<times> ExtractionView \<times> SpanEntry list) ingestion" where
  "buildManualSource input =
    (if mt_SourceID input = [] then Inl (Domain ErrorInvalidInput)
     else if mt_SourceVersion input = [] then Inl (Domain ErrorInvalidInput)
     else and_then (renderingContract (mt_SourceSystem input)) (\<lambda>contract.
       if \<not> utf8_valid (mt_Raw input) then Inl (Domain ErrorInvalidUTF8)
       else
         (let rawHash = contentHash (mt_Raw input);
              snapshot = \<lparr>ss_ID = sourceSnapshotID (rc_SourceSystem contract) (mt_SourceID input)
                  (mt_SourceVersion input) rawHash,
                ss_SourceSystem = rc_SourceSystem contract, ss_SourceID = mt_SourceID input,
                ss_SourceVersion = mt_SourceVersion input, ss_RawContentHash = rawHash,
                ss_OriginMetadata = mt_OriginMetadata input\<rparr>;
              rendered = mt_Raw input;
              renderedHash = contentHash rendered;
              viewID = stableID ''view:'' ''extraction_view''
                (JObj [(''source_snapshot_id'', JStr (ss_ID snapshot)), (''renderer_name'', JStr (rc_RendererName contract)),
                  (''renderer_version'', JStr (rc_RendererVersion contract)),
                  (''rendered_content_hash'', JStr renderedHash)]);
              view = \<lparr>ev_ID = viewID, ev_SourceSnapshotID = ss_ID snapshot, ev_RendererName = rc_RendererName contract,
                ev_RendererVersion = rc_RendererVersion contract, ev_Rendered = rendered,
                ev_RenderedContentHash = renderedHash\<rparr>
          in and_then (buildLineSpanCatalog view (rc_SpanCatalogVersion contract)) (\<lambda>spans.
            Inr (snapshot, view, spans)))))"

section \<open>The catalog is the list of nonempty lines\<close>

text \<open>The reference: split at line feeds, drop one carriage return from the end of each line, number the lines.\<close>

definition nonempty_lines :: "string \<Rightarrow> (int \<times> string) list" where
  "nonempty_lines b =
    (let ls = map drop_cr (split_lines [] b) in filter (\<lambda>(n, l). l \<noteq> []) (zip [1..int (length ls)] ls))"

lemma split_lines_app: "split_lines (a @ cur) s = (a @ hd (split_lines cur s)) # tl (split_lines cur s)"
proof (induction s arbitrary: cur)
  case (Cons c s)
  show ?case using Cons.IH[of "cur @ [c]"] by simp
qed simp

lemmas split_lines_acc = split_lines_app[of _ "[]", simplified]

lemma split_lines_index:
  "split_lines [] s = (case index_byte newline_byte s of None \<Rightarrow> [s]
    | Some n \<Rightarrow> take n s # split_lines [] (drop (n + 1) s))"
proof (induction s)
  case (Cons c s)
  then show ?case
    using split_lines_acc[of "[c]" s] by (auto split: option.splits)
qed simp

text \<open>What the two end points of a line enclose.\<close>

lemma line_at: "i \<le> length b \<Longrightarrow> slice_of b i (line_end b i) = hd (split_lines [] (drop i b))"
  by (subst split_lines_index) (auto simp: slice_of_def line_end_def split: option.splits)

lemma line_end_bounds: "i \<le> length b \<Longrightarrow> i \<le> line_end b i \<and> line_end b i \<le> length b"
  using line_end_less[of i b] by (auto simp: line_end_def split: option.splits dest!: index_byte_less)

lemma content_end_bounds: "i \<le> length b \<Longrightarrow> i \<le> content_end b i \<and> content_end b i \<le> line_end b i"
  using line_end_bounds[of i b] by (auto simp: content_end_def Let_def)

lemma last_slice: "i < j \<Longrightarrow> j \<le> length b \<Longrightarrow> slice_of b i j \<noteq> [] \<and> last (slice_of b i j) = b ! (j - 1)"
  by (auto simp: slice_of_def last_conv_nth)

lemma butlast_slice: "i < j \<Longrightarrow> j \<le> length b \<Longrightarrow> butlast (slice_of b i j) = slice_of b i (j - 1)"
  by (simp add: slice_of_def butlast_take)

lemma slice_empty: "j \<le> length b \<Longrightarrow> slice_of b i j = [] \<longleftrightarrow> j \<le> i"
  by (auto simp: slice_of_def)

lemma content_at:
  assumes "i \<le> length b"
  shows "slice_of b i (content_end b i) = drop_cr (hd (split_lines [] (drop i b)))"
proof -
  let ?e = "line_end b i"
  have e: "i \<le> ?e" "?e \<le> length b" using line_end_bounds[OF assms] by auto
  have "slice_of b i (content_end b i) = drop_cr (slice_of b i ?e)"
  proof (cases "i < ?e")
    case True
    then show ?thesis using last_slice[OF True e(2)] butlast_slice[OF True e(2)]
      by (auto simp: drop_cr_def content_end_def Let_def)
  next
    case False
    then have "slice_of b i ?e = []" using e by (simp add: slice_empty)
    with False show ?thesis by (simp add: drop_cr_def content_end_def Let_def)
  qed
  then show ?thesis using line_at[OF assms] by simp
qed

text \<open>What the catalog says of a span, apart from its hash and its place.\<close>

definition span_line :: "SpanEntry \<Rightarrow> int \<times> string" where
  "span_line s = (se_DisplayLine s, se_QuotedText s)"

definition lines_from :: "nat \<Rightarrow> string list \<Rightarrow> (int \<times> string) list" where
  "lines_from d ls = filter (\<lambda>(n, l). l \<noteq> []) (zip [int d..int d + int (length ls) - 1] (map drop_cr ls))"

lemma lines_from_Nil [simp]: "lines_from d [] = []"
  by (simp add: lines_from_def)

lemma lines_from_Cons: "lines_from d (l # ls) =
  (if drop_cr l = [] then [] else [(int d, drop_cr l)]) @ lines_from (d + 1) ls"
proof -
  have "[int d..int d + int (length (l # ls)) - 1] = int d # [int (d + 1)..int (d + 1) + int (length ls) - 1]"
    by (subst upto_rec1) (simp_all add: algebra_simps)
  then show ?thesis by (simp add: lines_from_def)
qed

lemma line_spans_lines:
  assumes "i \<le> length (ev_Rendered view)"
  shows "map span_line (line_spans view v i d n) = lines_from d (split_lines [] (drop i (ev_Rendered view)))"
  using assms
proof (induction view v i d n rule: line_spans.induct)
  case (1 view v i d n)
  let ?b = "ev_Rendered view"
  let ?l = "hd (split_lines [] (drop i ?b))"
  define sp where "sp = (if i < content_end ?b i then [line_span view v i (content_end ?b i) d n] else [])"
  have c: "content_end ?b i \<le> length ?b"
    using content_end_bounds[OF "1.prems"] line_end_bounds[OF "1.prems"] by simp
  have sp: "map span_line sp = (if drop_cr ?l = [] then [] else [(int d, drop_cr ?l)])"
    using content_at[OF "1.prems"] slice_empty[OF c, of i]
    by (auto simp: sp_def span_line_def line_span_def Let_def)
  show ?case
  proof (cases "index_byte newline_byte (drop i ?b)")
    case None
    then have "split_lines [] (drop i ?b) = [?l]" using split_lines_index[of "drop i ?b"] by simp
    moreover have "line_spans view v i d n = sp"
      using None "1.prems" by (subst line_spans.simps) (simp add: sp_def Let_def)
    ultimately show ?thesis using sp lines_from_Cons[of d ?l "[]"] by simp
  next
    case (Some k)
    have le: "line_end ?b i = i + k" using Some by (simp add: line_end_def)
    have step: "line_spans view v i d n = sp @ line_spans view v (i + k + 1) (d + 1) (n + length sp)"
      using Some "1.prems" le by (subst line_spans.simps) (simp add: sp_def Let_def)
    have k: "i + k + 1 \<le> length ?b" using index_byte_less[OF Some] by simp
    have IH: "line_end ?b i + 1 \<le> length ?b \<Longrightarrow>
      map span_line (line_spans view v (line_end ?b i + 1) (d + 1) (n + length sp)) =
      lines_from (d + 1) (split_lines [] (drop (line_end ?b i + 1) ?b))"
      unfolding sp_def by (rule "1.IH"[OF _ refl refl refl]) (use "1.prems" Some in simp_all)
    have "split_lines [] (drop i ?b) = ?l # split_lines [] (drop (k + 1) (drop i ?b))"
      using Some split_lines_index[of "drop i ?b"] by simp
    then have split: "split_lines [] (drop i ?b) = ?l # split_lines [] (drop (i + k + 1) ?b)"
      by (simp add: add.commute add.left_commute)
    have "map span_line (line_spans view v (i + k + 1) (d + 1) (n + length sp)) =
      lines_from (d + 1) (split_lines [] (drop (i + k + 1) ?b))"
      using IH le k by simp
    moreover have "lines_from d (split_lines [] (drop i ?b)) = (if drop_cr ?l = [] then [] else [(int d, drop_cr ?l)]) @
      lines_from (d + 1) (split_lines [] (drop (i + k + 1) ?b))"
      by (subst split) (rule lines_from_Cons)
    ultimately show ?thesis unfolding step using sp by simp
  qed
qed

text \<open>Every span passes the check of bounds and text, is numbered in order, and follows the one before.\<close>

definition span_of :: "ExtractionView \<Rightarrow> string \<Rightarrow> SpanEntry \<Rightarrow> bool" where
  "span_of view v s \<longleftrightarrow>
    (\<exists>i j d n. i < j \<and> j \<le> length (ev_Rendered view) \<and> s = line_span view v i j d n)"

lemma validate_span_of: "span_of view v s \<Longrightarrow> validateSpanBounds view s = Inr ()"
  by (auto simp: span_of_def validateSpanBounds_def line_span_def Let_def)

lemma line_spans_numbered:
  assumes "i \<le> length (ev_Rendered view)"
  shows "map se_SpanID (line_spans view v i d n) =
      map (\<lambda>k. ''span:S'' @ nat_str k) [n..<n + length (line_spans view v i d n)] \<and>
    (\<forall>s\<in>set (line_spans view v i d n). span_of view v s \<and> int i \<le> se_StartByte s) \<and>
    sorted_wrt (\<lambda>s t. se_EndByte s < se_StartByte t) (line_spans view v i d n)"
  using assms
proof (induction view v i d n rule: line_spans.induct)
  case (1 view v i d n)
  let ?b = "ev_Rendered view"
  define sp where "sp = (if i < content_end ?b i then [line_span view v i (content_end ?b i) d n] else [])"
  have e: "content_end ?b i \<le> line_end ?b i" "line_end ?b i \<le> length ?b"
    using content_end_bounds[OF "1.prems"] line_end_bounds[OF "1.prems"] by simp_all
  have s1: "map se_SpanID sp = map (\<lambda>k. ''span:S'' @ nat_str k) [n..<n + length sp]"
    by (simp add: sp_def line_span_def Let_def)
  have s2: "\<forall>s\<in>set sp. span_of view v s \<and> int i \<le> se_StartByte s \<and> se_EndByte s \<le> int (line_end ?b i)"
    using e by (auto simp: sp_def span_of_def line_span_def Let_def)
  have s3: "sorted_wrt (\<lambda>s t. se_EndByte s < se_StartByte t) sp" by (simp add: sp_def)
  show ?case
  proof (cases "index_byte newline_byte (drop i ?b)")
    case None
    then have "line_spans view v i d n = sp"
      using "1.prems" by (subst line_spans.simps) (simp add: sp_def Let_def)
    then show ?thesis using s1 s2 s3 by simp
  next
    case (Some k)
    let ?r = "line_spans view v (line_end ?b i + 1) (d + 1) (n + length sp)"
    have step: "line_spans view v i d n = sp @ ?r"
      using Some "1.prems" by (subst line_spans.simps) (simp add: sp_def Let_def)
    have k: "line_end ?b i + 1 \<le> length ?b" using Some line_end_less[of i ?b] by simp
    have IH: "map se_SpanID ?r = map (\<lambda>k. ''span:S'' @ nat_str k) [n + length sp..<n + length sp + length ?r] \<and>
      (\<forall>s\<in>set ?r. span_of view v s \<and> int (line_end ?b i + 1) \<le> se_StartByte s) \<and>
      sorted_wrt (\<lambda>s t. se_EndByte s < se_StartByte t) ?r"
      using "1.IH"[OF _ refl refl refl] "1.prems" Some k by (simp add: sp_def)
    have ids: "[n..<n + (length sp + length ?r)] = [n..<n + length sp] @ [n + length sp..<n + length sp + length ?r]"
      by (metis add.assoc upt_add_eq_append le_add1)
    have far: "\<forall>s\<in>set sp. \<forall>t\<in>set ?r. se_EndByte s < se_StartByte t" using s2 IH by fastforce
    have near: "\<forall>s\<in>set ?r. int i \<le> se_StartByte s" using IH content_end_bounds[OF "1.prems"] e by fastforce
    show ?thesis unfolding step
      using s1 s2 s3 IH ids far near by (auto simp: sorted_wrt_append)
  qed
qed

lemma lines_from_1: "lines_from 1 (split_lines [] b) = nonempty_lines b"
  by (simp add: lines_from_def nonempty_lines_def Let_def)

lemmas catalog = line_spans_lines[of 0 _ _ 1 1, simplified, folded One_nat_def, unfolded lines_from_1]
  line_spans_numbered[of 0 _ _ 1 1, simplified, folded One_nat_def]

end
