(* ===== verification/SourceAttempt.thy ===== *)
theory SourceAttempt
  imports SourceSpans
begin

text \<open>
  The context of one extraction attempt: \<open>manual_review_profile_contract.go\<close>, the pure part of
  \<open>manual_review_profile.go\<close>, \<open>extractor_input.go\<close> and the contexts of \<open>materialize.go\<close>, all in
  \<open>src/internal/evidenceingestion\<close>.  A source context fixes the bytes, the view and the spans of one
  source; an attempt context adds the identities of the extractor, the run, the attempt and its batch.
  The struct that the code embeds is the parent record.
\<close>

section \<open>Review profiles of manual sources\<close>

abbreviation "ErrorReviewContractConflict \<equiv> ''review_contract_conflict''"
abbreviation "ManualSourceReviewProfileV1 \<equiv> ''manual-source-review-profile/v1''"
abbreviation "ManualReviewCoverageSubmittedText \<equiv> ''submitted_text''"
abbreviation "ManualReviewCoverageExactExcerpt \<equiv> ''exact_excerpt''"
abbreviation "ManualReviewProfileMaxBytes \<equiv> 24 * 1024 :: nat"
abbreviation "ManualReviewTitleMaxBytes \<equiv> 1000 :: nat"
abbreviation "ManualReviewLocationMaxBytes \<equiv> 2000 :: nat"
abbreviation "ManualReviewLimitationMaxBytes \<equiv> 1000 :: nat"
abbreviation "ManualReviewLimitationsMaxCount \<equiv> 16 :: nat"

record ManualReviewProfileBinding =
  vb_SourceSnapshotID :: string
  vb_IntakeRequestID :: string
  vb_ContractVersion :: string
  vb_Profile :: ManualReviewProfileInput
  vb_ProfileHash :: string

definition profile_json :: "ManualReviewProfileInput \<Rightarrow> json" where
  "profile_json p = JObj [(''contract_version'', JStr (vp_ContractVersion p)), (''title'', JStr (vp_Title p)),
    (''location'', JStr (vp_Location p)), (''coverage'', JStr (vp_Coverage p)),
    (''limitations'', JSlice (map_option (map JStr) (vp_Limitations p)))]"

definition validateManualReviewText :: "string \<Rightarrow> nat \<Rightarrow> unit ingestion" where
  "validateManualReviewText value limit =
    (if value = [] \<or> limit < length value \<or> \<not> utf8_valid value \<or> CHR 0x00 \<in> set value \<or> trim_space value \<noteq> value
     then Inl (Domain ErrorInvalidInput) else Inr ())"

definition ValidateManualReviewProfileInput :: "ManualReviewProfileInput \<Rightarrow> unit ingestion" where
  "ValidateManualReviewProfileInput input =
    (if vp_ContractVersion input \<noteq> ManualSourceReviewProfileV1 then Inl (Domain ErrorInvalidInput)
     else and_then (each (\<lambda>(value, limit). validateManualReviewText value limit)
         [(vp_Title input, ManualReviewTitleMaxBytes), (vp_Location input, ManualReviewLocationMaxBytes)]) (\<lambda>_.
       if vp_Limitations input = None \<or> ManualReviewLimitationsMaxCount < length (elems (vp_Limitations input))
       then Inl (Domain ErrorInvalidInput)
       else and_then (each (\<lambda>limitation. validateManualReviewText limitation ManualReviewLimitationMaxBytes)
           (elems (vp_Limitations input))) (\<lambda>_.
         and_then
           (if vp_Coverage input = ManualReviewCoverageSubmittedText then Inr ()
            else if vp_Coverage input = ManualReviewCoverageExactExcerpt then
              (if elems (vp_Limitations input) = [] then Inl (Domain ErrorInvalidInput) else Inr ())
            else Inl (Domain ErrorInvalidInput)) (\<lambda>_.
         if ManualReviewProfileMaxBytes < length (marshal (profile_json input))
         then Inl (Domain ErrorInvalidInput) else Inr ()))))"

definition hasStableIDPrefix :: "string \<Rightarrow> string \<Rightarrow> bool" where
  "hasStableIDPrefix value prefix \<longleftrightarrow> length prefix < length value \<and> has_prefix value prefix"

definition ValidateManualReviewProfileBinding :: "ManualReviewProfileBinding \<Rightarrow> unit ingestion" where
  "ValidateManualReviewProfileBinding binding =
    (if \<not> hasStableIDPrefix (vb_SourceSnapshotID binding) ''srcsnap:'' \<or>
       vb_ContractVersion binding \<noteq> ManualSourceReviewProfileV1 then Inl (Domain ErrorReviewContractConflict)
     else and_then (validateManualReviewText (vb_SourceSnapshotID binding) 200) (\<lambda>_.
       and_then (validateManualReviewText (vb_IntakeRequestID binding) 1000) (\<lambda>_.
       and_then (ValidateManualReviewProfileInput (vb_Profile binding)) (\<lambda>_.
       if contentHash (marshal (profile_json (vb_Profile binding))) \<noteq> vb_ProfileHash binding
       then Inl (Domain ErrorReviewContractConflict) else Inr ()))))"

definition buildManualReviewProfile ::
  "ManualTextInput \<Rightarrow> SourceSnapshot \<Rightarrow> ManualReviewProfileBinding option ingestion" where
  "buildManualReviewProfile input snapshot =
    (case mt_ManualReviewProfile input of
       None \<Rightarrow> Inr None
     | Some profile \<Rightarrow>
         if ss_SourceSystem snapshot \<noteq> SourceSystemManualText then Inl (Domain ErrorInvalidInput)
         else and_then (ValidateManualReviewProfileInput profile) (\<lambda>_.
           (let binding = \<lparr>vb_SourceSnapshotID = ss_ID snapshot, vb_IntakeRequestID = mt_RequestID input,
              vb_ContractVersion = ManualSourceReviewProfileV1, vb_Profile = profile,
              vb_ProfileHash = contentHash (marshal (profile_json profile))\<rparr>
            in and_then (ValidateManualReviewProfileBinding binding) (\<lambda>_. Inr (Some binding)))))"

text \<open>A snapshot that was captured with a profile, or without one, is replayed only the same way.\<close>

definition validateManualReviewProfileReplay ::
  "ManualReviewProfileBinding option \<Rightarrow> ManualReviewProfileBinding option \<Rightarrow> unit ingestion" where
  "validateManualReviewProfileReplay actual expected =
    (case (actual, expected) of
       (None, None) \<Rightarrow> Inr ()
     | (_, None) \<Rightarrow> Inl (Domain ErrorOccurrenceConflict)
     | (None, _) \<Rightarrow> Inl (Domain ErrorOccurrenceConflict)
     | (Some a, Some e) \<Rightarrow>
         if vb_ProfileHash a \<noteq> vb_ProfileHash e then Inl (Domain ErrorOccurrenceConflict) else Inr ())"

section \<open>The source context\<close>

record manualSourceContext =
  sx_ManualReviewProfile :: "ManualReviewProfileBinding option"
  sx_RequestID :: string
  sx_RequestPayloadHash :: string
  sx_Raw :: string
  sx_SourceSnapshot :: SourceSnapshot
  sx_ExtractionView :: ExtractionView
  sx_SpanCatalogVersion :: string
  sx_Spans :: "SpanEntry list"

text \<open>The JSON of a \<open>map[string]string\<close>: its keys in order.\<close>

definition JMap :: "(string, string) gomap \<Rightarrow> json" where
  "JMap m = JObj (map (\<lambda>(k, v). (k, JStr v)) (sort_key fst m))"

definition sourceIntakePayloadHash ::
  "ManualTextInput \<Rightarrow> SourceSnapshot \<Rightarrow> ExtractionView \<Rightarrow> string ingestion" where
  "sourceIntakePayloadHash input snapshot view =
    and_then (renderingContract (ss_SourceSystem snapshot)) (\<lambda>contract.
      Inr (contentHash (marshal (JObj ([(''source_system'', JStr (ss_SourceSystem snapshot)),
        (''source_id'', JStr (mt_SourceID input)), (''source_version'', JStr (mt_SourceVersion input)),
        (''raw_content_hash'', JStr (ss_RawContentHash snapshot)), (''origin_metadata'', JMap (mt_OriginMetadata input)),
        (''renderer_name'', JStr (ev_RendererName view)), (''renderer_version'', JStr (ev_RendererVersion view)),
        (''rendered_content_hash'', JStr (ev_RenderedContentHash view)),
        (''span_catalog_version'', JStr (rc_SpanCatalogVersion contract))] @
        (case mt_ManualReviewProfile input of None \<Rightarrow> [] | Some p \<Rightarrow> [(''manual_review_profile'', profile_json p)]))))))"

definition buildManualSourceContext :: "ManualTextInput \<Rightarrow> manualSourceContext ingestion" where
  "buildManualSourceContext input =
    and_then (buildManualSource input) (\<lambda>(snapshot, view, spans).
    and_then (renderingContract (ss_SourceSystem snapshot)) (\<lambda>contract.
    and_then (buildManualReviewProfile input snapshot) (\<lambda>profile.
    and_then (sourceIntakePayloadHash input snapshot view) (\<lambda>payloadHash.
      Inr \<lparr>sx_ManualReviewProfile = profile, sx_RequestID = mt_RequestID input, sx_RequestPayloadHash = payloadHash,
        sx_Raw = mt_Raw input, sx_SourceSnapshot = snapshot, sx_ExtractionView = view,
        sx_SpanCatalogVersion = rc_SpanCatalogVersion contract, sx_Spans = spans\<rparr>))))"

record RendererRef =
  rr_Name :: string
  rr_Version :: string

record ExtractorInputSpan =
  is_SpanID :: string
  is_Text :: string
  is_StartByte :: int
  is_EndByte :: int
  is_DisplayLine :: int
  is_QuotedTextHash :: string

record ExtractorInput =
  ei_SourceSnapshotID :: string
  ei_ExtractionViewID :: string
  ei_SourceSystem :: string
  ei_SourceID :: string
  ei_SourceVersion :: string
  ei_RawContentHash :: string
  ei_Renderer :: RendererRef
  ei_RenderedContentHash :: string
  ei_RenderedText :: string
  ei_SpanCatalogVersion :: string
  ei_Spans :: "ExtractorInputSpan list"

definition extractorInput :: "'a manualSourceContext_scheme \<Rightarrow> ExtractorInput" where
  "extractorInput ctx = \<lparr>ei_SourceSnapshotID = ss_ID (sx_SourceSnapshot ctx),
    ei_ExtractionViewID = ev_ID (sx_ExtractionView ctx), ei_SourceSystem = ss_SourceSystem (sx_SourceSnapshot ctx),
    ei_SourceID = ss_SourceID (sx_SourceSnapshot ctx), ei_SourceVersion = ss_SourceVersion (sx_SourceSnapshot ctx),
    ei_RawContentHash = ss_RawContentHash (sx_SourceSnapshot ctx),
    ei_Renderer = \<lparr>rr_Name = ev_RendererName (sx_ExtractionView ctx), rr_Version = ev_RendererVersion (sx_ExtractionView ctx)\<rparr>,
    ei_RenderedContentHash = ev_RenderedContentHash (sx_ExtractionView ctx),
    ei_RenderedText = ev_Rendered (sx_ExtractionView ctx), ei_SpanCatalogVersion = sx_SpanCatalogVersion ctx,
    ei_Spans = map (\<lambda>span. \<lparr>is_SpanID = se_SpanID span, is_Text = se_QuotedText span, is_StartByte = se_StartByte span,
      is_EndByte = se_EndByte span, is_DisplayLine = se_DisplayLine span,
      is_QuotedTextHash = se_QuotedTextHash span\<rparr>) (sx_Spans ctx)\<rparr>"

section \<open>The attempt context\<close>

record ExtractorDefinitionInput =
  di_Name :: string
  di_Version :: string
  di_Config :: "(string, string) gomap"

record ExtractorDefinition =
  ed_ID :: string
  ed_Name :: string
  ed_Version :: string
  ed_ConfigHash :: string
  ed_Config :: "(string, string) gomap"

record ExtractionRun =
  er_ID :: string
  er_RequestID :: string
  er_ExtractorDefinitionID :: string
  er_ProducerSessionRef :: string
  er_SourceSnapshotID :: string
  er_ExtractionViewID :: string
  er_RepositorySnapshotID :: string

record ExtractionAttempt =
  ea_ID :: string
  ea_RunID :: string
  ea_Number :: int
  ea_Status :: string
  ea_OutputHash :: string

record ProposalBatch =
  pb_ID :: string
  pb_ExtractionAttemptID :: string
  pb_Status :: string

record attemptContext = manualSourceContext +
  ax_ExtractorDefinition :: ExtractorDefinition
  ax_ExtractionRun :: ExtractionRun
  ax_ExtractionAttempt :: ExtractionAttempt
  ax_ProposalBatch :: ProposalBatch

abbreviation "ExtractorDefinitionNameMaxBytes \<equiv> 200 :: nat"
abbreviation "ExtractorDefinitionVersionMaxBytes \<equiv> 200 :: nat"
abbreviation "ExtractorDefinitionConfigMaxEntries \<equiv> 64 :: nat"
abbreviation "ExtractorDefinitionConfigKeyMaxBytes \<equiv> 200 :: nat"
abbreviation "ExtractorDefinitionConfigValueMaxBytes \<equiv> 4096 :: nat"
abbreviation "ExtractorDefinitionConfigMaxBytes \<equiv> 61440 :: nat"
abbreviation "attemptStatusStarted \<equiv> ''started''"
abbreviation "batchStatusCompleted \<equiv> ''completed''"

definition defaultFrozenExtractorDefinitionInput :: ExtractorDefinitionInput where
  "defaultFrozenExtractorDefinitionInput = \<lparr>di_Name = ''frozen-manual-fixture'', di_Version = ''v1'',
    di_Config = [(''fixture_schema'', ''manual-text-proposal-output''), (''schema_version'', ''v1'')]\<rparr>"

definition bounded_utf8 :: "string \<Rightarrow> nat \<Rightarrow> bool" where
  "bounded_utf8 s n \<longleftrightarrow> utf8_valid s \<and> length s \<le> n"

text \<open>The range over the configuration fails with the same kind at any entry, so its order does not show.\<close>

definition buildExtractorDefinition :: "ExtractorDefinitionInput \<Rightarrow> ExtractorDefinition ingestion" where
  "buildExtractorDefinition input0 =
    (let input = (if di_Name input0 = [] \<and> di_Version input0 = [] \<and> di_Config input0 = []
           then defaultFrozenExtractorDefinitionInput else input0);
         name = trim_space (di_Name input); version = trim_space (di_Version input); config = di_Config input in
     if name = [] then Inl (Domain ErrorInvalidInput)
     else if version = [] then Inl (Domain ErrorInvalidInput)
     else if \<not> bounded_utf8 name ExtractorDefinitionNameMaxBytes then Inl (Domain ErrorInvalidInput)
     else if \<not> bounded_utf8 version ExtractorDefinitionVersionMaxBytes then Inl (Domain ErrorInvalidInput)
     else if ExtractorDefinitionConfigMaxEntries < length config then Inl (Domain ErrorInvalidInput)
     else and_then (each (\<lambda>(k, v).
         if \<not> bounded_utf8 k ExtractorDefinitionConfigKeyMaxBytes then Inl (Domain ErrorInvalidInput)
         else if \<not> bounded_utf8 v ExtractorDefinitionConfigValueMaxBytes then Inl (Domain ErrorInvalidInput)
         else Inr ()) config) (\<lambda>_.
       (let configData = marshal (JMap config); configHash = contentHash configData in
        if ExtractorDefinitionConfigMaxBytes < length configData then Inl (Domain ErrorInvalidInput)
        else Inr \<lparr>ed_ID = stableID ''extractor:'' ''extractor_definition''
              (JObj [(''name'', JStr name), (''version'', JStr version), (''config_hash'', JStr configHash)]),
            ed_Name = name, ed_Version = version, ed_ConfigHash = configHash, ed_Config = config\<rparr>)))"

definition buildAttemptContextFromSourceWithDefinitionAndSession ::
  "manualSourceContext \<Rightarrow> string \<Rightarrow> int \<Rightarrow> ExtractorDefinitionInput \<Rightarrow> string \<Rightarrow> attemptContext ingestion" where
  "buildAttemptContextFromSourceWithDefinitionAndSession sourceCtx requestID attemptNumber0 definitionInput producerSessionRef =
    and_then (buildExtractorDefinition definitionInput) (\<lambda>def.
      if requestID = [] then Inl (Domain ErrorInvalidInput)
      else
        (let attemptNumber = (if attemptNumber0 = 0 then 1 else attemptNumber0) in
         if attemptNumber < 0 then Inl (Domain ErrorInvalidInput)
         else
           (let snapshotID = ss_ID (sx_SourceSnapshot sourceCtx); viewID = ev_ID (sx_ExtractionView sourceCtx);
                runID = stableID ''run:'' ''extraction_run''
                  (JObj [(''request_id'', JStr requestID), (''extractor_definition_id'', JStr (ed_ID def)),
                    (''source_snapshot_id'', JStr snapshotID), (''extraction_view_id'', JStr viewID)]);
                run = \<lparr>er_ID = runID, er_RequestID = requestID, er_ExtractorDefinitionID = ed_ID def,
                  er_ProducerSessionRef = producerSessionRef, er_SourceSnapshotID = snapshotID,
                  er_ExtractionViewID = viewID, er_RepositorySnapshotID = []\<rparr>;
                attemptID = stableID ''attempt:'' ''extraction_attempt''
                  (JObj [(''extraction_run_id'', JStr runID), (''attempt_number'', JInt attemptNumber)]);
                attempt = \<lparr>ea_ID = attemptID, ea_RunID = runID, ea_Number = attemptNumber,
                  ea_Status = attemptStatusStarted, ea_OutputHash = []\<rparr>;
                batchID = stableID ''batch:'' ''proposal_batch''
                  (JObj [(''extraction_attempt_id'', JStr attemptID), (''batch_index'', JInt 1)])
            in Inr (manualSourceContext.extend sourceCtx
                 (attemptContext.fields def run attempt
                   \<lparr>pb_ID = batchID, pb_ExtractionAttemptID = attemptID, pb_Status = batchStatusCompleted\<rparr>)))))"

definition buildAttemptContextFromSourceWithDefinition ::
  "manualSourceContext \<Rightarrow> string \<Rightarrow> int \<Rightarrow> ExtractorDefinitionInput \<Rightarrow> attemptContext ingestion" where
  "buildAttemptContextFromSourceWithDefinition sourceCtx requestID attemptNumber definitionInput =
    buildAttemptContextFromSourceWithDefinitionAndSession sourceCtx requestID attemptNumber definitionInput []"

definition buildAttemptContextFromSource :: "manualSourceContext \<Rightarrow> string \<Rightarrow> int \<Rightarrow> attemptContext ingestion" where
  "buildAttemptContextFromSource sourceCtx requestID attemptNumber =
    buildAttemptContextFromSourceWithDefinition sourceCtx requestID attemptNumber
      \<lparr>di_Name = [], di_Version = [], di_Config = []\<rparr>"

definition buildAttemptContext :: "ManualTextInput \<Rightarrow> attemptContext ingestion" where
  "buildAttemptContext input =
    and_then (buildManualSourceContext input) (\<lambda>sourceCtx.
      (let requestID = (if mt_RequestID input = [] then ss_ID (sx_SourceSnapshot sourceCtx) else mt_RequestID input)
       in buildAttemptContextFromSource sourceCtx requestID (mt_AttemptNumber input)))"

section \<open>What a successful construction fixes\<close>

text \<open>A source context that was built from its input.\<close>

definition source_built :: "'a manualSourceContext_scheme \<Rightarrow> bool" where
  "source_built ctx \<longleftrightarrow>
    (let view = sx_ExtractionView ctx; snapshot = sx_SourceSnapshot ctx in
     utf8_valid (sx_Raw ctx) \<and> ev_Rendered view = sx_Raw ctx \<and> ss_RawContentHash snapshot = contentHash (sx_Raw ctx) \<and>
     ev_RenderedContentHash view = contentHash (sx_Raw ctx) \<and> ev_SourceSnapshotID view = ss_ID snapshot \<and>
     renderingContract (ss_SourceSystem snapshot) = Inr \<lparr>rc_SourceSystem = ss_SourceSystem snapshot,
       rc_RendererName = ev_RendererName view, rc_RendererVersion = ev_RendererVersion view,
       rc_SpanCatalogVersion = sx_SpanCatalogVersion ctx\<rparr> \<and>
     sx_Spans ctx = line_spans view (sx_SpanCatalogVersion ctx) 0 1 1)"

lemma renderingContract_again:
  "renderingContract s = Inr c \<Longrightarrow> renderingContract (rc_SourceSystem c) = Inr c"
  by (simp only: renderingContract_def split: if_splits; clarsimp)

lemma buildManualSource_built:
  assumes "buildManualSource input = Inr (snapshot, view, spans)"
  obtains c where "renderingContract (mt_SourceSystem input) = Inr c" "utf8_valid (mt_Raw input)"
    "mt_SourceID input \<noteq> []" "mt_SourceVersion input \<noteq> []"
    "ss_SourceSystem snapshot = rc_SourceSystem c" "ss_RawContentHash snapshot = contentHash (mt_Raw input)"
    "ss_OriginMetadata snapshot = mt_OriginMetadata input"
    "ss_SourceID snapshot = mt_SourceID input" "ss_SourceVersion snapshot = mt_SourceVersion input"
    "ev_Rendered view = mt_Raw input" "ev_RenderedContentHash view = contentHash (mt_Raw input)"
    "ev_SourceSnapshotID view = ss_ID snapshot" "ev_RendererName view = rc_RendererName c"
    "ev_RendererVersion view = rc_RendererVersion c" "spans = line_spans view (rc_SpanCatalogVersion c) 0 1 1"
  using assms by (auto simp: buildManualSource_def buildLineSpanCatalog_def returns Let_def)

lemma buildManualSourceContext_built:
  assumes "buildManualSourceContext input = Inr ctx"
  shows "source_built ctx \<and> sx_Raw ctx = mt_Raw input \<and> sx_RequestID ctx = mt_RequestID input \<and>
    ss_OriginMetadata (sx_SourceSnapshot ctx) = mt_OriginMetadata input"
proof -
  from assms obtain snapshot view spans c' where b: "buildManualSource input = Inr (snapshot, view, spans)"
    and c': "renderingContract (ss_SourceSystem snapshot) = Inr c'"
    and ctx: "sx_Raw ctx = mt_Raw input" "sx_SourceSnapshot ctx = snapshot" "sx_ExtractionView ctx = view"
      "sx_SpanCatalogVersion ctx = rc_SpanCatalogVersion c'" "sx_Spans ctx = spans" "sx_RequestID ctx = mt_RequestID input"
    by (auto simp: buildManualSourceContext_def returns)
  show ?thesis
  proof (rule buildManualSource_built[OF b], goal_cases)
    case (1 c)
    have "c' = c" using renderingContract_again[OF 1(1)] 1(5) c' by simp
    then show ?case using 1 ctx c' by (simp add: source_built_def Let_def)
  qed
qed

lemma buildManualSourceContext_snapshot:
  assumes "buildManualSourceContext input = Inr ctx" and "mt_SourceSystem input \<noteq> []"
  shows "ss_SourceVersion (sx_SourceSnapshot ctx) = mt_SourceVersion input \<and>
    ss_SourceSystem (sx_SourceSnapshot ctx) = mt_SourceSystem input"
proof -
  from assms obtain snapshot view spans where b: "buildManualSource input = Inr (snapshot, view, spans)"
    and ctx: "sx_SourceSnapshot ctx = snapshot" by (auto simp: buildManualSourceContext_def returns)
  show ?thesis
  proof (rule buildManualSource_built[OF b], goal_cases)
    case (1 c)
    have "rc_SourceSystem c = mt_SourceSystem input"
      using 1(1) assms(2) by (simp only: renderingContract_def split: if_splits; clarsimp)
    then show ?case using 1 ctx by simp
  qed
qed

lemma attempt_keeps_source:
  assumes "buildAttemptContextFromSourceWithDefinitionAndSession s r n d p = Inr ctx"
  shows "manualSourceContext.truncate ctx = s"
  using assms by (auto simp: buildAttemptContextFromSourceWithDefinitionAndSession_def returns Let_def
    manualSourceContext.defs attemptContext.defs split: if_splits)

lemma source_built_truncate: "source_built (manualSourceContext.truncate ctx) = source_built ctx"
  by (simp add: source_built_def manualSourceContext.defs Let_def)

lemma buildAttemptContext_built:
  assumes "buildAttemptContext input = Inr ctx"
  shows "source_built ctx \<and> sx_Raw ctx = mt_Raw input"
proof -
  obtain s r where s: "buildManualSourceContext input = Inr s"
    and "buildAttemptContextFromSource s r (mt_AttemptNumber input) = Inr ctx"
    using assms by (auto simp: buildAttemptContext_def returns Let_def)
  then have "manualSourceContext.truncate ctx = s"
    using attempt_keeps_source by (simp add: buildAttemptContextFromSource_def buildAttemptContextFromSourceWithDefinition_def)
  moreover have "sx_Raw (manualSourceContext.truncate ctx) = sx_Raw ctx" by (simp add: manualSourceContext.defs)
  ultimately show ?thesis using buildManualSourceContext_built[OF s] source_built_truncate[of ctx] by simp
qed

section \<open>The default definition is accepted\<close>

lemma length_escape: "length (escape s) \<le> 6 * length s"
proof (induction s rule: escape.induct)
  case (2 c cs)
  have b: "length (esc_byte c) \<le> 6" by (simp add: esc_byte_def esc_u_def)
  let ?n = "rune_len (map of_char (c # cs))"
  have n: "?n \<le> Suc (length cs)" using rune_len_le[of "map of_char (c # cs)"] by simp
  consider "?n = 0" | "?n = 1" | "1 < ?n" by linarith
  then show ?case
  proof cases
    case 3
    then have "length (escape (drop (?n - 1) cs)) \<le> 6 * length (drop (?n - 1) cs)" using 2 by simp
    with 3 n show ?thesis by (subst escape.simps) (auto simp: Let_def esc_u_def)
  qed (use 2 b in \<open>subst escape.simps, simp add: Let_def esc_u_def\<close>)+
qed simp

lemma default_config: "length (marshal (JMap (di_Config defaultFrozenExtractorDefinitionInput))) \<le> ExtractorDefinitionConfigMaxBytes"
  using length_escape[of "''fixture_schema''"] length_escape[of "''manual-text-proposal-output''"]
    length_escape[of "''schema_version''"] length_escape[of "''v1''"]
  by (simp add: defaultFrozenExtractorDefinitionInput_def JMap_def quoted_def)

lemma default_definition: "\<exists>d. buildExtractorDefinition \<lparr>di_Name = [], di_Version = [], di_Config = []\<rparr> = Inr d"
proof -
  have b: "bounded_utf8 s n" if "list_all (\<lambda>c. byte c < 128) s" "length s \<le> n" for s n
    using that by (simp add: bounded_utf8_def utf8_valid_ascii)
  have "trim_space ''frozen-manual-fixture'' = ''frozen-manual-fixture''" "trim_space ''v1'' = ''v1''"
    by (simp_all add: trim_space_solid solid_def)
  then show ?thesis using default_config
    by (simp add: buildExtractorDefinition_def defaultFrozenExtractorDefinitionInput_def Let_def b)
qed

end
