(* ===== verification/CodeFact.thy ===== *)
theory CodeFact
  imports SourceAttempt
begin

text \<open>
  Code facts: \<open>src/internal/evidenceingestion/code_fact.go\<close> without its index of a parsed file, which
  \<open>GoParserExtractor\<close> holds, and the types of \<open>types.go\<close> for the output of an extractor.  A code fact
  is a claim that a declaration stands at certain bytes of a certain commit; it is accepted only when
  every field agrees with the immutable source.  \<open>codeSymbolRef_inj\<close>: the name of a symbol determines
  the repository, the commit, the path and the qualified name.
\<close>

section \<open>Types\<close>

record CodeFactOutput =
  cf_SchemaVersion :: string
  cf_FactKind :: string
  cf_RepoID :: string
  cf_CommitSHA :: string
  cf_Path :: string
  cf_FileContentHash :: string
  cf_SymbolRef :: string
  cf_SymbolKind :: string
  cf_QualifiedName :: string
  cf_StartByte :: int
  cf_EndByte :: int
  cf_QuotedTextHash :: string

record ResolvedCodeFact =
  rf_SchemaVersion :: string
  rf_FactKind :: string
  rf_RepoID :: string
  rf_CommitSHA :: string
  rf_Path :: string
  rf_FileContentHash :: string
  rf_SymbolRef :: string
  rf_SymbolKind :: string
  rf_QualifiedName :: string
  rf_StartByte :: int
  rf_EndByte :: int
  rf_StartLine :: int
  rf_EndLine :: int
  rf_QuotedTextHash :: string
  rf_QuotedText :: string

text \<open>A relation is rejected by every operation here, so it is kept as the JSON value it marshals to.\<close>

record ExtractorProposalOutput =
  po_ProposalLocalID :: string
  po_StatementText :: string
  po_EvidenceRefs :: "string slice"
  po_CodeFact :: "CodeFactOutput option"
  po_CodeRelation :: "json option"

record ResolvedSourceRef =
  sr_TargetKind :: string
  sr_ExtractionViewID :: string
  sr_RepositorySnapshotID :: string
  sr_FileSnapshotID :: string
  sr_RepoID :: string
  sr_CommitSHA :: string
  sr_Path :: string
  sr_SpanID :: string
  sr_StartByte :: int
  sr_EndByte :: int
  sr_QuotedTextHash :: string
  sr_QuotedText :: string

abbreviation "CodeFactSchemaV1 \<equiv> ''code-fact-v1''"
abbreviation "CodeFactSchemaV2 \<equiv> ''code-fact-v2''"
abbreviation "CodeFactKindDeclaration \<equiv> ''declaration''"
abbreviation "CodeFactKindPackage \<equiv> ''package''"

section \<open>The contract of a fact\<close>

definition supportedCodeSymbolKinds :: "string list" where
  "supportedCodeSymbolKinds = [''const'', ''function'', ''method'', ''type'', ''var'']"

definition validateCodeFactContract :: "CodeFactOutput \<Rightarrow> unit ingestion" where
  "validateCodeFactContract cfact =
    (if cf_SchemaVersion cfact = CodeFactSchemaV1 then
       if cf_FactKind cfact \<noteq> CodeFactKindDeclaration then Inl (Domain ErrorInvalidExtractorOutput)
       else if cf_SymbolKind cfact \<notin> set supportedCodeSymbolKinds then Inl (Domain ErrorInvalidExtractorOutput)
       else Inr ()
     else if cf_SchemaVersion cfact = CodeFactSchemaV2 then
       if cf_FactKind cfact \<noteq> CodeFactKindPackage \<or> cf_SymbolKind cfact \<noteq> CodeFactKindPackage
       then Inl (Domain ErrorInvalidExtractorOutput) else Inr ()
     else Inl (Domain ErrorInvalidExtractorOutput))"

definition line_range :: "int \<Rightarrow> int \<Rightarrow> string" where
  "line_range startLine endLine =
    (if startLine \<noteq> endLine then int_str startLine @ ''-'' @ int_str endLine else int_str startLine)"

definition codeDeclarationStatement :: "string \<Rightarrow> string \<Rightarrow> string \<Rightarrow> int \<Rightarrow> int \<Rightarrow> string" where
  "codeDeclarationStatement symbolKind qualifiedName path startLine endLine =
    ''Go '' @ symbolKind @ '' '' @ qualifiedName @ '' is declared in '' @ path @ '':'' @ line_range startLine endLine @ ''.''"

definition codePackageStatement :: "string \<Rightarrow> string \<Rightarrow> int \<Rightarrow> int \<Rightarrow> string" where
  "codePackageStatement packageName path startLine endLine =
    ''Go package '' @ packageName @ '' is declared in '' @ path @ '':'' @ line_range startLine endLine @ ''.''"

definition codeFactStatement :: "CodeFactOutput \<Rightarrow> int \<Rightarrow> int \<Rightarrow> string" where
  "codeFactStatement cfact startLine endLine =
    (if cf_FactKind cfact = CodeFactKindPackage
     then codePackageStatement (cf_QualifiedName cfact) (cf_Path cfact) startLine endLine
     else codeDeclarationStatement (cf_SymbolKind cfact) (cf_QualifiedName cfact) (cf_Path cfact) startLine endLine)"

definition normalizeCodeFactOutput :: "CodeFactOutput \<Rightarrow> CodeFactOutput" where
  "normalizeCodeFactOutput cfact = cfact\<lparr>cf_SchemaVersion := trim_space (cf_SchemaVersion cfact),
    cf_FactKind := trim_space (cf_FactKind cfact), cf_RepoID := trim_space (cf_RepoID cfact),
    cf_CommitSHA := trim_space (cf_CommitSHA cfact), cf_Path := trim_space (cf_Path cfact),
    cf_FileContentHash := trim_space (cf_FileContentHash cfact), cf_SymbolRef := trim_space (cf_SymbolRef cfact),
    cf_SymbolKind := trim_space (cf_SymbolKind cfact), cf_QualifiedName := trim_space (cf_QualifiedName cfact),
    cf_QuotedTextHash := trim_space (cf_QuotedTextHash cfact)\<rparr>"

text \<open>Reading a missing key of a \<open>map[string]string\<close> gives the empty string.\<close>

definition text_at :: "(string, string) gomap \<Rightarrow> string \<Rightarrow> string" where
  "text_at m k = (case map_of m k of None \<Rightarrow> [] | Some v \<Rightarrow> v)"

text \<open>The range over the three keys fails with the same kind at any of them.\<close>

definition verifyCodeOrigin :: "SourceSnapshot \<Rightarrow> CodeFactOutput \<Rightarrow> unit ingestion" where
  "verifyCodeOrigin snapshot cfact =
    (if cf_RepoID cfact = [] \<or> cf_CommitSHA cfact = [] \<or> cf_Path cfact = [] \<or> cf_QualifiedName cfact = []
     then Inl (Domain ErrorInvalidExtractorOutput)
     else if ss_SourceVersion snapshot \<noteq> cf_CommitSHA cfact then Inl (Domain ErrorInvalidExtractorOutput)
     else each (\<lambda>(key, got).
         (let want = trim_space (text_at (ss_OriginMetadata snapshot) key) in
          if want = [] then Inl (Domain ErrorInvalidExtractorOutput)
          else if got \<noteq> want then Inl (Domain ErrorInvalidExtractorOutput)
          else Inr ()))
       [(''repo_id'', cf_RepoID cfact), (''commit_sha'', cf_CommitSHA cfact), (''path'', cf_Path cfact)])"

definition codeFactCoveredBySourceRef :: "CodeFactOutput \<Rightarrow> ResolvedSourceRef list \<Rightarrow> bool" where
  "codeFactCoveredBySourceRef cfact refs =
    list_ex (\<lambda>ref. sr_StartByte ref \<le> cf_StartByte cfact \<and> cf_EndByte cfact \<le> sr_EndByte ref) refs"

definition codeLineForOffset :: "string \<Rightarrow> nat \<Rightarrow> int" where
  "codeLineForOffset source offset = int (length (filter (\<lambda>c. c = newline_byte) (take offset source))) + 1"

text \<open>\<open>strings.NewReplacer("%", "%25", ":", "%3A")\<close>\<close>

definition codeSymbolRefPart :: "string \<Rightarrow> string" where
  "codeSymbolRefPart value =
    concat (map (\<lambda>c. if c = CHR ''%'' then ''%25'' else if c = CHR '':'' then ''%3A'' else [c]) value)"

definition codeSymbolRef :: "string \<Rightarrow> string \<Rightarrow> string \<Rightarrow> string \<Rightarrow> string" where
  "codeSymbolRef repoID commitSHA path qualifiedName =
    ''symbol'' @ '':'' @ codeSymbolRefPart repoID @ '':'' @ codeSymbolRefPart commitSHA @ '':'' @
      codeSymbolRefPart path @ '':'' @ codeSymbolRefPart qualifiedName"

definition resolveCodeFact ::
  "attemptContext \<Rightarrow> ExtractorProposalOutput \<Rightarrow> ResolvedSourceRef list \<Rightarrow> ResolvedCodeFact option ingestion" where
  "resolveCodeFact ctx proposal sourceRefs =
    (case po_CodeFact proposal of
       None \<Rightarrow> Inr None
     | Some output \<Rightarrow>
       (let cfact = normalizeCodeFactOutput output; snapshot = sx_SourceSnapshot ctx; view = sx_ExtractionView ctx in
        and_then (validateCodeFactContract cfact) (\<lambda>_.
        if ss_SourceSystem snapshot \<noteq> SourceSystemCodeFile then Inl (Domain ErrorInvalidExtractorOutput)
        else and_then (verifyCodeOrigin snapshot cfact) (\<lambda>_.
        if cf_FileContentHash cfact \<noteq> ss_RawContentHash snapshot \<or> cf_FileContentHash cfact \<noteq> ev_RenderedContentHash view
        then Inl (Domain ErrorQuotedHashMismatch)
        else if cf_StartByte cfact < 0 \<or> cf_EndByte cfact \<le> cf_StartByte cfact \<or>
          int (length (ev_Rendered view)) < cf_EndByte cfact then Inl (Domain ErrorSpanOutOfBounds)
        else
          (let quoted = slice_of (ev_Rendered view) (nat (cf_StartByte cfact)) (nat (cf_EndByte cfact)) in
           if contentHash quoted \<noteq> cf_QuotedTextHash cfact then Inl (Domain ErrorQuotedHashMismatch)
           else if \<not> codeFactCoveredBySourceRef cfact sourceRefs then Inl (Domain ErrorUnknownSpan)
           else if cf_SymbolRef cfact \<noteq> codeSymbolRef (cf_RepoID cfact) (cf_CommitSHA cfact) (cf_Path cfact) (cf_QualifiedName cfact)
           then Inl (Domain ErrorInvalidExtractorOutput)
           else
             (let startLine = codeLineForOffset (ev_Rendered view) (nat (cf_StartByte cfact));
                  endLine = codeLineForOffset (ev_Rendered view) (nat (cf_EndByte cfact - 1)) in
              if po_StatementText proposal \<noteq> codeFactStatement cfact startLine endLine
              then Inl (Domain ErrorInvalidExtractorOutput)
              else Inr (Some \<lparr>rf_SchemaVersion = cf_SchemaVersion cfact, rf_FactKind = cf_FactKind cfact,
                rf_RepoID = cf_RepoID cfact, rf_CommitSHA = cf_CommitSHA cfact, rf_Path = cf_Path cfact,
                rf_FileContentHash = cf_FileContentHash cfact, rf_SymbolRef = cf_SymbolRef cfact,
                rf_SymbolKind = cf_SymbolKind cfact, rf_QualifiedName = cf_QualifiedName cfact,
                rf_StartByte = cf_StartByte cfact, rf_EndByte = cf_EndByte cfact, rf_StartLine = startLine,
                rf_EndLine = endLine, rf_QuotedTextHash = cf_QuotedTextHash cfact, rf_QuotedText = quoted\<rparr>)))))))"

section \<open>A symbol reference determines its parts\<close>

lemma codeSymbolRefPart_simps [simp]:
  "codeSymbolRefPart [] = []"
  "codeSymbolRefPart (c # s) =
    (if c = CHR ''%'' then ''%25'' else if c = CHR '':'' then ''%3A'' else [c]) @ codeSymbolRefPart s"
  by (simp_all add: codeSymbolRefPart_def)

lemma codeSymbolRefPart_plain: "CHR '':'' \<notin> set (codeSymbolRefPart s)"
  by (induction s) auto

lemma codeSymbolRefPart_inj: "codeSymbolRefPart s = codeSymbolRefPart t \<longleftrightarrow> s = t"
proof (induction s arbitrary: t)
  case Nil
  then show ?case by (cases t) auto
next
  case (Cons c s)
  show ?case
  proof (cases t)
    case (Cons d t')
    then show ?thesis using Cons.IH[of t'] by auto
  qed auto
qed

lemma separator: "x \<notin> set a \<Longrightarrow> x \<notin> set a' \<Longrightarrow> a @ x # b = a' @ x # b' \<longleftrightarrow> a = a' \<and> b = b'"
proof (induction a arbitrary: a')
  case Nil
  then show ?case by (cases a') auto
next
  case (Cons c a)
  then show ?case by (cases a') auto
qed

text \<open>C40. The reference of a symbol (repository, commit, path and qualified name, joined by colons after escaping) determines all four parts: two declarations share a reference exactly when they agree in every part, whatever bytes the parts contain.\<close>

theorem codeSymbolRef_inj:
  "codeSymbolRef r c p q = codeSymbolRef r' c' p' q' \<longleftrightarrow> r = r' \<and> c = c' \<and> p = p' \<and> q = q'"
  using separator[OF codeSymbolRefPart_plain codeSymbolRefPart_plain] codeSymbolRefPart_inj
  by (simp add: codeSymbolRef_def)

end
