(* ===== verification/GoParserExtractor.thy ===== *)
theory GoParserExtractor
  imports CodeFact "HOL-Library.Product_Lexorder"
begin

text \<open>
  The declarations of one Go file as code facts: \<open>src/internal/evidenceingestion/go_parser_extractor.go\<close>
  and the index of \<open>code_fact.go\<close>.  The parser of \<open>go/parser\<close> is the parameter \<open>parse\<close>; of its syntax
  tree the model keeps what the extractor reads, with every position already resolved by
  \<open>token.FileSet.Position\<close> (which also applies line directives).  The tables of \<open>unicode.IsLetter\<close> and
  \<open>unicode.IsDigit\<close> are the parameter \<open>letter\<close>, on the encoding of a rune.
\<close>

section \<open>Output of an extractor\<close>

record DocumentSectionCoverageItem =
  dc_SectionID :: string
  dc_CandidateLocalID :: string
  dc_Heading :: string
  dc_StartByte :: int
  dc_EndByte :: int
  dc_ContentHash :: string
  dc_ResponseHash :: string
  dc_ProposalLocalIDs :: "string slice"
  dc_Abstained :: bool

record DocumentSectionCoverage =
  ds_SchemaVersion :: string
  ds_SegmentationContract :: string
  ds_OffsetBasis :: string
  ds_CoverageComplete :: bool
  ds_NegativeInferenceAllowed :: bool
  ds_SelectedSourceCount :: int
  ds_SectionCount :: int
  ds_ModelCallCount :: int
  ds_MaxSections :: int
  ds_MaxProposalsPerSection :: int
  ds_Sections :: "DocumentSectionCoverageItem slice"

text \<open>The coverage of a language server is rejected by every operation here: only its JSON is kept.\<close>

record FrozenExtractorOutput =
  fo_Proposals :: "ExtractorProposalOutput slice"
  fo_RepositoryGoplsCoverage :: "json option"
  fo_DocumentSectionCoverage :: "DocumentSectionCoverage option"

definition code_fact_json :: "CodeFactOutput \<Rightarrow> json" where
  "code_fact_json f = JObj [(''schema_version'', JStr (cf_SchemaVersion f)), (''fact_kind'', JStr (cf_FactKind f)),
    (''repo_id'', JStr (cf_RepoID f)), (''commit_sha'', JStr (cf_CommitSHA f)), (''path'', JStr (cf_Path f)),
    (''file_content_hash'', JStr (cf_FileContentHash f)), (''symbol_ref'', JStr (cf_SymbolRef f)),
    (''symbol_kind'', JStr (cf_SymbolKind f)), (''qualified_name'', JStr (cf_QualifiedName f)),
    (''start_byte'', JInt (cf_StartByte f)), (''end_byte'', JInt (cf_EndByte f)),
    (''quoted_text_hash'', JStr (cf_QuotedTextHash f))]"

definition strings_json :: "string slice \<Rightarrow> json" where
  "strings_json s = JSlice (map_option (map JStr) s)"

definition omit_nil :: "string \<Rightarrow> json option \<Rightarrow> (string \<times> json) list" where
  "omit_nil key v = (case v of None \<Rightarrow> [] | Some j \<Rightarrow> [(key, j)])"

definition proposal_json :: "ExtractorProposalOutput \<Rightarrow> json" where
  "proposal_json p = JObj ([(''proposal_local_id'', JStr (po_ProposalLocalID p)),
    (''statement_text'', JStr (po_StatementText p)), (''evidence_refs'', strings_json (po_EvidenceRefs p))] @
    omit_nil ''code_fact'' (map_option code_fact_json (po_CodeFact p)) @
    omit_nil ''code_relation'' (po_CodeRelation p))"

definition section_json :: "DocumentSectionCoverageItem \<Rightarrow> json" where
  "section_json s = JObj ([(''section_id'', JStr (dc_SectionID s)), (''candidate_local_id'', JStr (dc_CandidateLocalID s))] @
    omitempty ''heading'' (dc_Heading s) @
    [(''start_byte'', JInt (dc_StartByte s)), (''end_byte'', JInt (dc_EndByte s)),
     (''content_hash'', JStr (dc_ContentHash s)), (''response_hash'', JStr (dc_ResponseHash s)),
     (''proposal_local_ids'', strings_json (dc_ProposalLocalIDs s)), (''abstained'', JBool (dc_Abstained s))])"

definition coverage_json :: "DocumentSectionCoverage \<Rightarrow> json" where
  "coverage_json c = JObj [(''schema_version'', JStr (ds_SchemaVersion c)),
    (''segmentation_contract'', JStr (ds_SegmentationContract c)), (''offset_basis'', JStr (ds_OffsetBasis c)),
    (''coverage_complete'', JBool (ds_CoverageComplete c)),
    (''negative_inference_allowed'', JBool (ds_NegativeInferenceAllowed c)),
    (''selected_source_count'', JInt (ds_SelectedSourceCount c)), (''section_count'', JInt (ds_SectionCount c)),
    (''model_call_count'', JInt (ds_ModelCallCount c)), (''max_sections'', JInt (ds_MaxSections c)),
    (''max_proposals_per_section'', JInt (ds_MaxProposalsPerSection c)),
    (''sections'', JSlice (map_option (map section_json) (ds_Sections c)))]"

definition output_json :: "FrozenExtractorOutput \<Rightarrow> json" where
  "output_json o' = JObj ([(''proposals'', JSlice (map_option (map proposal_json) (fo_Proposals o')))] @
    omit_nil ''repository_gopls_coverage'' (fo_RepositoryGoplsCoverage o') @
    omit_nil ''document_section_coverage'' (map_option coverage_json (fo_DocumentSectionCoverage o')))"

section \<open>The syntax tree\<close>

record Position =
  pos_Line :: int
  pos_Offset :: int

record Ident =
  id_Name :: string
  id_Pos :: Position
  id_End :: Position

datatype Expr = IdentExpr Ident | StarExpr Expr | IndexExpr Expr | IndexListExpr Expr | OtherExpr

datatype Spec = TypeSpec Ident | ValueSpec "Ident list" | OtherSpec

datatype Token = TypeTok | ConstTok | VarTok | OtherTok

text \<open>The receiver list of a function holds the types of its receivers; nil is \<open>None\<close>.\<close>

datatype Decl = GenDecl Token "Spec list" | FuncDecl "Expr list option" Ident | OtherDecl

record File =
  gf_Name :: "Ident option"
  gf_Decls :: "Decl list"

section \<open>The lines of the file\<close>

record goParserLineSpan =
  gl_SpanID :: string
  gl_DisplayLine :: int

function goParserManualLineSpans_loop :: "string \<Rightarrow> nat \<Rightarrow> nat \<Rightarrow> nat \<Rightarrow> (int, goParserLineSpan) gomap" where
  "goParserManualLineSpans_loop source lineStart displayLine spanNumber =
    (if length source < lineStart then []
     else
       (let contentEnd = content_end source lineStart;
            line = (if lineStart < contentEnd
              then [(int displayLine, \<lparr>gl_SpanID = ''span:S'' @ nat_str spanNumber, gl_DisplayLine = int displayLine\<rparr>)]
              else []);
            spanNumber = spanNumber + length line
        in if index_byte newline_byte (drop lineStart source) = None then line
           else line @ goParserManualLineSpans_loop source (line_end source lineStart + 1) (displayLine + 1) spanNumber))"
  by auto

termination
proof (relation "measure (\<lambda>(source, lineStart, _, _). Suc (length source) - lineStart)", goal_cases)
  case (2 source lineStart)
  then show ?case using line_end_less[of lineStart source] by (auto simp: not_less)
qed simp

declare goParserManualLineSpans_loop.simps [simp del]

definition goParserManualLineSpans :: "string \<Rightarrow> (int, goParserLineSpan) gomap" where
  "goParserManualLineSpans source = goParserManualLineSpans_loop source 0 1 1"

definition goParserLineSpans :: "string \<Rightarrow> ExtractorInputSpan list \<Rightarrow> (int, goParserLineSpan) gomap" where
  "goParserLineSpans source spans =
    (let byLine = fold (\<lambda>span m.
           if is_DisplayLine span \<le> 0 \<or> is_SpanID span = [] then m
           else AList.update (is_DisplayLine span)
             \<lparr>gl_SpanID = is_SpanID span, gl_DisplayLine = is_DisplayLine span\<rparr> m) spans []
     in if byLine \<noteq> [] then byLine else goParserManualLineSpans source)"

text \<open>The set of references already seen is the set of those collected.\<close>

definition goParserEvidenceRefs :: "(int, goParserLineSpan) gomap \<Rightarrow> int \<Rightarrow> int \<Rightarrow> string list" where
  "goParserEvidenceRefs lineSpans startLine endLine =
    fold (\<lambda>line refs. case map_of lineSpans line of
        None \<Rightarrow> refs
      | Some span \<Rightarrow> if gl_SpanID span \<in> set refs then refs else refs @ [gl_SpanID span]) [startLine..endLine] []"

section \<open>Names\<close>

definition replacement_rune :: string where
  "replacement_rune = bytes [239, 191, 189]"

text \<open>The runes that \<open>range\<close> over a string yields, each as its encoding.\<close>

fun runes :: "string \<Rightarrow> string list" where
  "runes [] = []"
| "runes (c # cs) =
    (let n = rune_len (map of_char (c # cs)) in
     if n = 0 then replacement_rune # runes cs else take n (c # cs) # runes (drop (n - 1) cs))"

declare runes.simps(2) [simp del]

fun slug_runes :: "(string \<Rightarrow> bool) \<Rightarrow> bool \<Rightarrow> string list \<Rightarrow> string" where
  "slug_runes letter lastDash [] = []"
| "slug_runes letter lastDash (r # rs) =
    (if letter r \<or> r = ''_'' \<or> r = ''-'' \<or> r = ''.'' then r @ slug_runes letter False rs
     else if \<not> lastDash then ''-'' @ slug_runes letter True rs
     else slug_runes letter True rs)"

definition trim_dashes :: "string \<Rightarrow> string" where
  "trim_dashes s = rev (dropWhile (\<lambda>c. c = CHR ''-'') (rev (dropWhile (\<lambda>c. c = CHR ''-'') s)))"

definition goParserSlug :: "(string \<Rightarrow> bool) \<Rightarrow> string \<Rightarrow> string" where
  "goParserSlug letter value = trim_dashes (slug_runes letter False (runes value))"

definition goParserProposalLocalID :: "(string \<Rightarrow> bool) \<Rightarrow> string \<Rightarrow> string \<Rightarrow> int \<Rightarrow> string" where
  "goParserProposalLocalID letter symbolKind qualifiedName startLine =
    ''go-decl-'' @ goParserSlug letter (symbolKind @ ''-'' @ qualifiedName) @ ''-L'' @ int_str startLine"

fun goParserReceiverName :: "Expr \<Rightarrow> string" where
  "goParserReceiverName (IdentExpr t) = id_Name t"
| "goParserReceiverName (StarExpr t) = goParserReceiverName t"
| "goParserReceiverName (IndexExpr t) = goParserReceiverName t"
| "goParserReceiverName (IndexListExpr t) = goParserReceiverName t"
| "goParserReceiverName OtherExpr = ''receiver''"

fun goParserGenDeclKind :: "Token \<Rightarrow> string" where
  "goParserGenDeclKind TypeTok = ''type''"
| "goParserGenDeclKind ConstTok = ''const''"
| "goParserGenDeclKind VarTok = ''var''"
| "goParserGenDeclKind OtherTok = []"

fun goParserSpecIdentifiers :: "Spec \<Rightarrow> Ident list" where
  "goParserSpecIdentifiers (TypeSpec name) = [name]"
| "goParserSpecIdentifiers (ValueSpec names) = names"
| "goParserSpecIdentifiers OtherSpec = []"

section \<open>Declarations\<close>

record GoParserPackageClause =
  gp_ProposalLocalID :: string
  gp_Name :: string
  gp_Path :: string
  gp_StartLine :: int
  gp_EndLine :: int
  gp_StartByte :: int
  gp_EndByte :: int
  gp_EvidenceRefs :: "string list"
  gp_StatementText :: string
  gp_CodeFact :: CodeFactOutput

record GoParserDeclaration =
  gd_ProposalLocalID :: string
  gd_SymbolRef :: string
  gd_Kind :: string
  gd_Name :: string
  gd_Package :: string
  gd_Path :: string
  gd_StartLine :: int
  gd_EndLine :: int
  gd_StartByte :: int
  gd_EndByte :: int
  gd_EvidenceRefs :: "string list"
  gd_StatementText :: string
  gd_CodeFact :: CodeFactOutput

text \<open>The arguments that every declaration of a file shares.\<close>

record fileIdentity =
  fi_RepoID :: string
  fi_CommitSHA :: string
  fi_Path :: string
  fi_Source :: string

definition fact_at :: "fileIdentity \<Rightarrow> string \<Rightarrow> string \<Rightarrow> string \<Rightarrow> string \<Rightarrow> Ident \<Rightarrow> CodeFactOutput" where
  "fact_at f schema factKind symbolKind qualifiedName ident =
    (let startByte = pos_Offset (id_Pos ident); endByte = pos_Offset (id_End ident) in
     \<lparr>cf_SchemaVersion = schema, cf_FactKind = factKind, cf_RepoID = fi_RepoID f, cf_CommitSHA = fi_CommitSHA f,
      cf_Path = fi_Path f, cf_FileContentHash = contentHash (fi_Source f),
      cf_SymbolRef = codeSymbolRef (fi_RepoID f) (fi_CommitSHA f) (fi_Path f) qualifiedName,
      cf_SymbolKind = symbolKind, cf_QualifiedName = qualifiedName, cf_StartByte = startByte, cf_EndByte = endByte,
      cf_QuotedTextHash = contentHash (slice_of (fi_Source f) (nat startByte) (nat endByte))\<rparr>)"

definition ident_in :: "string \<Rightarrow> Ident \<Rightarrow> bool" where
  "ident_in source ident \<longleftrightarrow> 0 \<le> pos_Offset (id_Pos ident) \<and> pos_Offset (id_Pos ident) < pos_Offset (id_End ident) \<and>
    pos_Offset (id_End ident) \<le> int (length source)"

definition buildGoParserPackageClause ::
  "(string \<Rightarrow> bool) \<Rightarrow> fileIdentity \<Rightarrow> (int, goParserLineSpan) gomap \<Rightarrow> Ident option \<Rightarrow> GoParserPackageClause ingestion" where
  "buildGoParserPackageClause letter f lineSpans name =
    (case name of
       None \<Rightarrow> Inl (Domain ErrorInvalidInput)
     | Some ident \<Rightarrow>
         if id_Name ident = [] then Inl (Domain ErrorInvalidInput)
         else if \<not> ident_in (fi_Source f) ident then Inl (Domain ErrorSpanOutOfBounds)
         else
           (let startLine = pos_Line (id_Pos ident); endLine = pos_Line (id_End ident) in
            Inr \<lparr>gp_ProposalLocalID = ''go-package-'' @ goParserSlug letter (id_Name ident) @ ''-L'' @ int_str startLine,
              gp_Name = id_Name ident, gp_Path = fi_Path f, gp_StartLine = startLine, gp_EndLine = endLine,
              gp_StartByte = pos_Offset (id_Pos ident), gp_EndByte = pos_Offset (id_End ident),
              gp_EvidenceRefs = goParserEvidenceRefs lineSpans startLine endLine,
              gp_StatementText = codePackageStatement (id_Name ident) (fi_Path f) startLine endLine,
              gp_CodeFact = fact_at f CodeFactSchemaV2 CodeFactKindPackage CodeFactKindPackage (id_Name ident) ident\<rparr>))"

definition buildGoParserDeclaration ::
  "(string \<Rightarrow> bool) \<Rightarrow> fileIdentity \<Rightarrow> (int, goParserLineSpan) gomap \<Rightarrow> string \<Rightarrow> string \<times> string \<times> Ident \<Rightarrow>
    GoParserDeclaration ingestion" where
  "buildGoParserDeclaration letter f lineSpans pkg = (\<lambda>(symbolKind, name, ident).
    (if \<not> ident_in (fi_Source f) ident then Inl (Domain ErrorSpanOutOfBounds)
     else
       (let startLine = pos_Line (id_Pos ident); endLine = pos_Line (id_End ident);
            evidenceRefs = goParserEvidenceRefs lineSpans startLine endLine in
        if evidenceRefs = [] then Inl (Domain ErrorUnknownSpan)
        else
          (let qualifiedName = pkg @ ''.'' @ name in
           Inr \<lparr>gd_ProposalLocalID = goParserProposalLocalID letter symbolKind qualifiedName startLine,
             gd_SymbolRef = codeSymbolRef (fi_RepoID f) (fi_CommitSHA f) (fi_Path f) qualifiedName, gd_Kind = symbolKind,
             gd_Name = name, gd_Package = pkg, gd_Path = fi_Path f, gd_StartLine = startLine, gd_EndLine = endLine,
             gd_StartByte = pos_Offset (id_Pos ident), gd_EndByte = pos_Offset (id_End ident),
             gd_EvidenceRefs = evidenceRefs,
             gd_StatementText = codeDeclarationStatement symbolKind qualifiedName (fi_Path f) startLine endLine,
             gd_CodeFact = fact_at f CodeFactSchemaV1 CodeFactKindDeclaration symbolKind qualifiedName ident\<rparr>))))"

text \<open>The identifiers that a declaration declares, each with its kind and its name.\<close>

fun declared :: "Decl \<Rightarrow> (string \<times> string \<times> Ident) list" where
  "declared (GenDecl tok specs) =
    (if goParserGenDeclKind tok = [] then []
     else map (\<lambda>ident. (goParserGenDeclKind tok, id_Name ident, ident)) (concat (map goParserSpecIdentifiers specs)))"
| "declared (FuncDecl recv name) =
    (case recv of
       Some (t # _) \<Rightarrow> [(''method'', goParserReceiverName t @ ''.'' @ id_Name name, name)]
     | _ \<Rightarrow> [(''function'', id_Name name, name)])"
| "declared OtherDecl = []"

fun traverse :: "('a \<Rightarrow> 'e + 'b) \<Rightarrow> 'a list \<Rightarrow> 'e + 'b list" where
  "traverse f [] = Inr []"
| "traverse f (x # xs) = and_then (f x) (\<lambda>y. and_then (traverse f xs) (\<lambda>ys. Inr (y # ys)))"

text \<open>
  The declarations in the order of line and name.  The sort of the source is not stable: where line and
  name agree (blank names of one line) the order here is one of those that it may give.
\<close>

definition collectGoParserDeclarations ::
  "(string \<Rightarrow> bool) \<Rightarrow> fileIdentity \<Rightarrow> (int, goParserLineSpan) gomap \<Rightarrow> string \<Rightarrow> Decl list \<Rightarrow>
    GoParserDeclaration list ingestion" where
  "collectGoParserDeclarations letter f lineSpans pkg decls =
    and_then (traverse (buildGoParserDeclaration letter f lineSpans pkg) (concat (map declared decls))) (\<lambda>declarations.
      Inr (sort_key (\<lambda>d. (gd_StartLine d, gd_Name d)) declarations))"

section \<open>The extractor\<close>

record GoParserFileInput =
  gq_RepoID :: string
  gq_CommitSHA :: string
  gq_Path :: string
  gq_Source :: string
  gq_Spans :: "ExtractorInputSpan list"

record GoParserFileExtraction =
  gx_ExtractorDefinition :: ExtractorDefinitionInput
  gx_Output :: FrozenExtractorOutput
  gx_PackageClause :: GoParserPackageClause
  gx_Declarations :: "GoParserDeclaration list"

definition goParserExtractorDefinition :: ExtractorDefinitionInput where
  "goParserExtractorDefinition = \<lparr>di_Name = ''go-parser-code-fact'', di_Version = ''v1'',
    di_Config = [(''backend'', ''go/parser''), (''output_schema'', CodeFactSchemaV1), (''proposal_kind'', ''statement''),
      (''source_kind'', ''go_file''), (''span_contract'', ''code-line-v1''),
      (''symbol_schema'', ''repo-commit-path-package-symbol-v1''), (''topology_scope'', ''declarations_only'')]\<rparr>"

definition declaration_proposal :: "GoParserDeclaration \<Rightarrow> ExtractorProposalOutput" where
  "declaration_proposal d = \<lparr>po_ProposalLocalID = gd_ProposalLocalID d, po_StatementText = gd_StatementText d,
    po_EvidenceRefs = nil_append (gd_EvidenceRefs d), po_CodeFact = Some (gd_CodeFact d), po_CodeRelation = None\<rparr>"

definition ExtractGoParserFile ::
  "(string \<Rightarrow> bool) \<Rightarrow> (string \<Rightarrow> string \<Rightarrow> File option) \<Rightarrow> GoParserFileInput \<Rightarrow> GoParserFileExtraction ingestion" where
  "ExtractGoParserFile letter parse input =
    (let repoID = trim_space (gq_RepoID input); commitSHA = trim_space (gq_CommitSHA input);
         path = trim_space (gq_Path input); source = gq_Source input in
     if repoID = [] then Inl (Domain ErrorInvalidInput)
     else if commitSHA = [] then Inl (Domain ErrorInvalidInput)
     else if path = [] then Inl (Domain ErrorInvalidInput)
     else if \<not> utf8_valid source then Inl (Domain ErrorInvalidUTF8)
     else case parse path source of
       None \<Rightarrow> Inl (Domain ErrorInvalidInput)
     | Some file \<Rightarrow>
         (let lineSpans = goParserLineSpans source (gq_Spans input);
              f = \<lparr>fi_RepoID = repoID, fi_CommitSHA = commitSHA, fi_Path = path, fi_Source = source\<rparr> in
          and_then (buildGoParserPackageClause letter f lineSpans (gf_Name file)) (\<lambda>packageClause.
          and_then (collectGoParserDeclarations letter f lineSpans (gp_Name packageClause) (gf_Decls file)) (\<lambda>declarations.
            Inr \<lparr>gx_ExtractorDefinition = goParserExtractorDefinition,
              gx_Output = \<lparr>fo_Proposals = Some (map declaration_proposal declarations),
                fo_RepositoryGoplsCoverage = None, fo_DocumentSectionCoverage = None\<rparr>,
              gx_PackageClause = packageClause, gx_Declarations = declarations\<rparr>))))"

record GoParserExtractorRunner =
  gr_repoID :: string
  gr_commitSHA :: string
  gr_path :: string

definition NewGoParserExtractorRunner :: "string \<Rightarrow> string \<Rightarrow> string \<Rightarrow> GoParserExtractorRunner ingestion" where
  "NewGoParserExtractorRunner repo commit file_path =
    (let repoID = trim_space repo; commitSHA = trim_space commit; path = trim_space file_path in
     if repoID = [] then Inl (Domain ErrorInvalidInput)
     else if commitSHA = [] then Inl (Domain ErrorInvalidInput)
     else if path = [] then Inl (Domain ErrorInvalidInput)
     else Inr \<lparr>gr_repoID = repoID, gr_commitSHA = commitSHA, gr_path = path\<rparr>)"

text \<open>A run under a context that is not cancelled, with the extraction whose output it marshals.\<close>

definition GoParserExtractorRunner_Run ::
  "(string \<Rightarrow> bool) \<Rightarrow> (string \<Rightarrow> string \<Rightarrow> File option) \<Rightarrow> GoParserExtractorRunner \<Rightarrow> ExtractorInput \<Rightarrow>
    GoParserFileExtraction ingestion" where
  "GoParserExtractorRunner_Run letter parse r input =
    (if ei_SourceSystem input \<noteq> SourceSystemCodeFile then Inl (Domain ErrorInvalidInput)
     else if ei_SpanCatalogVersion input \<noteq> ''code-line-v1'' then Inl (Domain ErrorInvalidInput)
     else if contentHash (ei_RenderedText input) \<noteq> ei_RawContentHash input \<or>
       contentHash (ei_RenderedText input) \<noteq> ei_RenderedContentHash input then Inl (Domain ErrorQuotedHashMismatch)
     else ExtractGoParserFile letter parse \<lparr>gq_RepoID = gr_repoID r, gq_CommitSHA = gr_commitSHA r,
       gq_Path = gr_path r, gq_Source = ei_RenderedText input, gq_Spans = ei_Spans input\<rparr>)"

section \<open>The index that verifies facts\<close>

definition goCodeFactIndex ::
  "(string \<Rightarrow> bool) \<Rightarrow> (string \<Rightarrow> string \<Rightarrow> File option) \<Rightarrow> attemptContext \<Rightarrow>
    (int \<times> int, CodeFactOutput) gomap ingestion" where
  "goCodeFactIndex letter parse ctx =
    (let origin = text_at (ss_OriginMetadata (sx_SourceSnapshot ctx)) in
     case ExtractGoParserFile letter parse \<lparr>gq_RepoID = origin ''repo_id'', gq_CommitSHA = origin ''commit_sha'',
         gq_Path = origin ''path'', gq_Source = ev_Rendered (sx_ExtractionView ctx), gq_Spans = []\<rparr> of
       Inl e \<Rightarrow> Inl (Domain ErrorInvalidExtractorOutput)
     | Inr extraction \<Rightarrow>
         (let facts = gp_CodeFact (gx_PackageClause extraction) # map gd_CodeFact (gx_Declarations extraction)
          in Inr (fold (\<lambda>f. AList.update (cf_StartByte f, cf_EndByte f) f) facts [])))"

definition verifyGoCodeFact :: "(int \<times> int, CodeFactOutput) gomap \<Rightarrow> ResolvedCodeFact \<Rightarrow> unit ingestion" where
  "verifyGoCodeFact index f =
    (case map_of index (rf_StartByte f, rf_EndByte f) of
       None \<Rightarrow> Inl (Domain ErrorInvalidExtractorOutput)
     | Some want \<Rightarrow>
         (let got = \<lparr>cf_SchemaVersion = rf_SchemaVersion f, cf_FactKind = rf_FactKind f, cf_RepoID = rf_RepoID f,
            cf_CommitSHA = rf_CommitSHA f, cf_Path = rf_Path f, cf_FileContentHash = rf_FileContentHash f,
            cf_SymbolRef = rf_SymbolRef f, cf_SymbolKind = rf_SymbolKind f, cf_QualifiedName = rf_QualifiedName f,
            cf_StartByte = rf_StartByte f, cf_EndByte = rf_EndByte f, cf_QuotedTextHash = rf_QuotedTextHash f\<rparr>
          in if got \<noteq> want then Inl (Domain ErrorInvalidExtractorOutput) else Inr ()))"

end
