(* ===== verification/SourceMaterialize.thy ===== *)
theory SourceMaterialize
  imports GoParserExtractor GitObservation
begin

text \<open>
  From the output of an extractor to proposals: \<open>materializeBatch\<close> of
  \<open>src/internal/evidenceingestion/materialize.go\<close> and the check of section coverage in
  \<open>document_section_coverage.go\<close>.  A proposal refers to spans by name only; the batch resolves every
  name to the bytes of the view, and refuses the whole output when one proposal is not grounded.
\<close>

section \<open>Coverage of document sections\<close>

abbreviation "DocumentSectionCoverageSchemaV1 \<equiv> ''ahe-document-section-coverage-v1''"
abbreviation "DocumentSectionCoverageOffsetAdapterSelectedUTF8 \<equiv> ''adapter_selected_text_utf8_bytes''"

text \<open>The variables of the loop over the sections: three sets, and the end of the last section of each candidate.\<close>

record coverageLoop =
  cl_covered :: "string list"
  cl_sections :: "string list"
  cl_lastEnd :: "(string, int) gomap"
  cl_candidates :: "string list"

definition section_proposal :: "string list \<Rightarrow> string list \<Rightarrow> string \<Rightarrow> string list ingestion" where
  "section_proposal proposals covered localID =
    (if localID \<notin> set proposals then Inl (Domain ErrorInvalidExtractorOutput)
     else if localID \<in> set covered then Inl (Domain ErrorInvalidExtractorOutput)
     else Inr (localID # covered))"

definition section_step ::
  "DocumentSectionCoverage \<Rightarrow> string list \<Rightarrow> coverageLoop \<Rightarrow> DocumentSectionCoverageItem \<Rightarrow> coverageLoop ingestion" where
  "section_step coverage proposals s item =
    (if dc_SectionID item = [] \<or> dc_CandidateLocalID item = [] then Inl (Domain ErrorInvalidExtractorOutput)
     else if dc_SectionID item \<in> set (cl_sections s) then Inl (Domain ErrorInvalidExtractorOutput)
     else if dc_StartByte item < get (cl_lastEnd s) (dc_CandidateLocalID item) \<or> dc_EndByte item \<le> dc_StartByte item
     then Inl (Domain ErrorInvalidExtractorOutput)
     else if \<not> isSHA256ContentHash (dc_ContentHash item) \<or> \<not> isSHA256ContentHash (dc_ResponseHash item)
     then Inl (Domain ErrorInvalidExtractorOutput)
     else if dc_Abstained item \<noteq> (elems (dc_ProposalLocalIDs item) = []) \<or>
       ds_MaxProposalsPerSection coverage < int (length (elems (dc_ProposalLocalIDs item)))
     then Inl (Domain ErrorInvalidExtractorOutput)
     else and_then (fold_res (section_proposal proposals) (cl_covered s) (elems (dc_ProposalLocalIDs item))) (\<lambda>covered.
       Inr \<lparr>cl_covered = covered, cl_sections = dc_SectionID item # cl_sections s,
         cl_lastEnd = AList.update (dc_CandidateLocalID item) (dc_EndByte item) (cl_lastEnd s),
         cl_candidates = List.insert (dc_CandidateLocalID item) (cl_candidates s)\<rparr>))"

definition validateDocumentSectionCoverage :: "attemptContext \<Rightarrow> FrozenExtractorOutput \<Rightarrow> unit ingestion" where
  "validateDocumentSectionCoverage ctx fixture =
    (case fo_DocumentSectionCoverage fixture of
       None \<Rightarrow> Inr ()
     | Some coverage \<Rightarrow>
       (let config = text_at (ed_Config (ax_ExtractorDefinition ctx)) in
        if fo_RepositoryGoplsCoverage fixture \<noteq> None then Inl (Domain ErrorInvalidExtractorOutput)
        else if ss_SourceSystem (sx_SourceSnapshot ctx) \<noteq> SourceSystemMCPReadDocument
        then Inl (Domain ErrorInvalidExtractorOutput)
        else if ds_SchemaVersion coverage \<noteq> DocumentSectionCoverageSchemaV1 \<or>
          ds_OffsetBasis coverage \<noteq> DocumentSectionCoverageOffsetAdapterSelectedUTF8
        then Inl (Domain ErrorInvalidExtractorOutput)
        else if \<not> ds_CoverageComplete coverage \<or> ds_NegativeInferenceAllowed coverage
        then Inl (Domain ErrorInvalidExtractorOutput)
        else if ds_SegmentationContract coverage = [] then Inl (Domain ErrorInvalidExtractorOutput)
        else if config ''section_mode'' \<noteq> ds_SegmentationContract coverage \<or>
          config ''document_section_coverage_schema'' \<noteq> ds_SchemaVersion coverage
        then Inl (Domain ErrorInvalidExtractorOutput)
        else if atoi (config ''max_sections'') \<noteq> Some (ds_MaxSections coverage) \<or> ds_MaxSections coverage < 1
        then Inl (Domain ErrorInvalidExtractorOutput)
        else if atoi (config ''max_proposals_per_section'') \<noteq> Some (ds_MaxProposalsPerSection coverage) \<or>
          ds_MaxProposalsPerSection coverage < 1 then Inl (Domain ErrorInvalidExtractorOutput)
        else if ds_SelectedSourceCount coverage < 1 \<or>
          ds_SectionCount coverage \<noteq> int (length (elems (ds_Sections coverage))) \<or>
          ds_SectionCount coverage < ds_SelectedSourceCount coverage \<or>
          ds_MaxSections coverage < ds_SectionCount coverage \<or>
          ds_ModelCallCount coverage \<noteq> ds_SectionCount coverage then Inl (Domain ErrorInvalidExtractorOutput)
        else
          (let proposals = remdups (map po_ProposalLocalID (elems (fo_Proposals fixture))) in
           and_then (fold_res (section_step coverage proposals)
               \<lparr>cl_covered = [], cl_sections = [], cl_lastEnd = [], cl_candidates = []\<rparr> (elems (ds_Sections coverage))) (\<lambda>s.
             if int (length (cl_candidates s)) \<noteq> ds_SelectedSourceCount coverage \<or>
               length (cl_covered s) \<noteq> length proposals then Inl (Domain ErrorInvalidExtractorOutput)
             else Inr ()))))"

section \<open>Proposals\<close>

record ProposalOccurrence =
  oc_ID :: string
  oc_BatchID :: string
  oc_ExtractionAttemptID :: string
  oc_ProposalLocalID :: string
  oc_ProposalKind :: string
  oc_StatementText :: string
  oc_ProposalFingerprint :: string
  oc_ProposalFingerprintVersion :: string
  oc_AdmissionOutcome :: string
  oc_CanonicalRef :: string
  oc_SourceRefs :: "ResolvedSourceRef list"
  oc_CodeFact :: "ResolvedCodeFact option"
  oc_CodeRelation :: "json option"
  oc_ProposedPayload :: "(string, json) gomap"

record MaterializedBatch =
  mb_ManualReviewProfile :: "ManualReviewProfileBinding option"
  mb_SourceSnapshot :: SourceSnapshot
  mb_ExtractionView :: ExtractionView
  mb_Spans :: "SpanEntry list"
  mb_ExtractorDefinition :: ExtractorDefinition
  mb_ExtractionRun :: ExtractionRun
  mb_ExtractionAttempt :: ExtractionAttempt
  mb_ProposalBatch :: ProposalBatch
  mb_Occurrences :: "ProposalOccurrence list"
  mb_RepositoryGoplsCoverage :: "json option"
  mb_FixtureOutputHash :: string

abbreviation "ProposalKindStatement \<equiv> ''statement''"
abbreviation "ProposalFingerprintStatementV1 \<equiv> ''statement-v1''"
abbreviation "ProposalFingerprintCodeFactV1 \<equiv> ''code-fact-v1''"
abbreviation "admissionOutcomePending \<equiv> ''pending''"

text \<open>\<open>%010d\<close>\<close>

definition padded :: "int \<Rightarrow> string" where
  "padded n = (if n < 0 then CHR ''-'' # replicate (9 - length (nat_str (nat (- n)))) CHR ''0'' @ nat_str (nat (- n))
     else replicate (10 - length (nat_str (nat n))) CHR ''0'' @ nat_str (nat n))"

definition ref_key :: "ResolvedSourceRef \<Rightarrow> string" where
  "ref_key r = sr_ExtractionViewID r @ CHR 0x00 # padded (sr_StartByte r) @ CHR 0x00 # padded (sr_EndByte r) @
    CHR 0x00 # sr_QuotedTextHash r"

definition sortSourceRefs :: "ResolvedSourceRef list \<Rightarrow> ResolvedSourceRef list" where
  "sortSourceRefs refs = sort_key ref_key refs"

definition fingerprint_refs :: "ResolvedSourceRef list \<Rightarrow> json" where
  "fingerprint_refs refs = JArr (map (\<lambda>r. JObj [(''extraction_view_id'', JStr (sr_ExtractionViewID r)),
    (''start_byte'', JInt (sr_StartByte r)), (''end_byte'', JInt (sr_EndByte r)),
    (''quoted_text_hash'', JStr (sr_QuotedTextHash r))]) refs)"

definition proposalFingerprint :: "string \<Rightarrow> ResolvedSourceRef list \<Rightarrow> string" where
  "proposalFingerprint statementText sourceRefs = stableID ''fp:'' ''proposal_fingerprint''
    (JObj [(''fingerprint_version'', JStr ProposalFingerprintStatementV1), (''proposal_kind'', JStr ProposalKindStatement),
      (''statement_text'', JStr statementText), (''source_refs'', fingerprint_refs sourceRefs)])"

definition resolved_fact_json :: "ResolvedCodeFact \<Rightarrow> json" where
  "resolved_fact_json f = JObj [(''schema_version'', JStr (rf_SchemaVersion f)), (''fact_kind'', JStr (rf_FactKind f)),
    (''repo_id'', JStr (rf_RepoID f)), (''commit_sha'', JStr (rf_CommitSHA f)), (''path'', JStr (rf_Path f)),
    (''file_content_hash'', JStr (rf_FileContentHash f)), (''symbol_ref'', JStr (rf_SymbolRef f)),
    (''symbol_kind'', JStr (rf_SymbolKind f)), (''qualified_name'', JStr (rf_QualifiedName f)),
    (''start_byte'', JInt (rf_StartByte f)), (''end_byte'', JInt (rf_EndByte f)), (''start_line'', JInt (rf_StartLine f)),
    (''end_line'', JInt (rf_EndLine f)), (''quoted_text_hash'', JStr (rf_QuotedTextHash f)),
    (''quoted_text'', JStr (rf_QuotedText f))]"

definition codeFactProposalFingerprint :: "string \<Rightarrow> ResolvedSourceRef list \<Rightarrow> ResolvedCodeFact \<Rightarrow> string" where
  "codeFactProposalFingerprint statementText sourceRefs codeFact = stableID ''fp:'' ''proposal_fingerprint''
    (JObj [(''fingerprint_version'', JStr ProposalFingerprintCodeFactV1), (''proposal_kind'', JStr ProposalKindStatement),
      (''statement_text'', JStr statementText), (''source_refs'', fingerprint_refs sourceRefs),
      (''code_fact'', resolved_fact_json codeFact)])"

definition extractorOutputHash :: "FrozenExtractorOutput \<Rightarrow> string" where
  "extractorOutputHash fixture = contentHash (marshal (output_json fixture))"

definition source_ref :: "SpanEntry \<Rightarrow> ResolvedSourceRef" where
  "source_ref span = \<lparr>sr_TargetKind = [], sr_ExtractionViewID = se_ExtractionViewID span, sr_RepositorySnapshotID = [],
    sr_FileSnapshotID = [], sr_RepoID = [], sr_CommitSHA = [], sr_Path = [], sr_SpanID = se_SpanID span,
    sr_StartByte = se_StartByte span, sr_EndByte = se_EndByte span, sr_QuotedTextHash = se_QuotedTextHash span,
    sr_QuotedText = se_QuotedText span\<rparr>"

definition resolve_ref :: "(string, SpanEntry) gomap \<Rightarrow> string \<Rightarrow> ResolvedSourceRef ingestion" where
  "resolve_ref spansByID spanID =
    (case map_of spansByID spanID of
       None \<Rightarrow> Inl (Domain ErrorUnknownSpan)
     | Some span \<Rightarrow> Inr (source_ref span))"

text \<open>
  The index of the parsed file is computed at the first fact and kept; it does not change in between, so
  the model asks for it where it is used.
\<close>

definition verified_fact ::
  "(string \<Rightarrow> bool) \<Rightarrow> (string \<Rightarrow> string \<Rightarrow> File option) \<Rightarrow> attemptContext \<Rightarrow> ExtractorProposalOutput \<Rightarrow>
    ResolvedSourceRef list \<Rightarrow> ResolvedCodeFact option ingestion" where
  "verified_fact letter parse ctx proposal sourceRefs =
    and_then (resolveCodeFact ctx proposal sourceRefs) (\<lambda>codeFact.
      case codeFact of
        None \<Rightarrow> Inr None
      | Some f \<Rightarrow> and_then (goCodeFactIndex letter parse ctx) (\<lambda>codeFacts.
          and_then (verifyGoCodeFact codeFacts f) (\<lambda>_. Inr codeFact)))"

definition occurrence ::
  "attemptContext \<Rightarrow> ExtractorProposalOutput \<Rightarrow> ResolvedSourceRef list \<Rightarrow> ResolvedCodeFact option \<Rightarrow> ProposalOccurrence" where
  "occurrence ctx proposal sourceRefs codeFact =
    (let attemptID = ea_ID (ax_ExtractionAttempt ctx); batchID = pb_ID (ax_ProposalBatch ctx) in
     \<lparr>oc_ID = stableID ''occ:'' ''proposal_occurrence''
        (JObj [(''extraction_attempt_id'', JStr attemptID), (''proposal_batch_id'', JStr batchID),
          (''proposal_local_id'', JStr (po_ProposalLocalID proposal))]),
      oc_BatchID = batchID, oc_ExtractionAttemptID = attemptID, oc_ProposalLocalID = po_ProposalLocalID proposal,
      oc_ProposalKind = ProposalKindStatement, oc_StatementText = po_StatementText proposal,
      oc_ProposalFingerprint = (case codeFact of
        None \<Rightarrow> proposalFingerprint (po_StatementText proposal) sourceRefs
      | Some f \<Rightarrow> codeFactProposalFingerprint (po_StatementText proposal) sourceRefs f),
      oc_ProposalFingerprintVersion =
        (if codeFact = None then ProposalFingerprintStatementV1 else ProposalFingerprintCodeFactV1),
      oc_AdmissionOutcome = admissionOutcomePending, oc_CanonicalRef = [], oc_SourceRefs = sourceRefs,
      oc_CodeFact = codeFact, oc_CodeRelation = None,
      oc_ProposedPayload = [(''proposal_local_id'', JStr (po_ProposalLocalID proposal)),
        (''statement_text'', JStr (po_StatementText proposal)),
        (''evidence_refs'', strings_json (nil_append (elems (po_EvidenceRefs proposal))))] @
        omit_nil ''code_fact'' (map_option resolved_fact_json codeFact)\<rparr>)"

text \<open>The body of the loop over the proposals; the set of local names seen is that of the occurrences so far.\<close>

definition materialize_proposal ::
  "(string \<Rightarrow> bool) \<Rightarrow> (string \<Rightarrow> string \<Rightarrow> File option) \<Rightarrow> attemptContext \<Rightarrow> (string, SpanEntry) gomap \<Rightarrow>
    ProposalOccurrence list \<Rightarrow> ExtractorProposalOutput \<Rightarrow> ProposalOccurrence list ingestion" where
  "materialize_proposal letter parse ctx spansByID occurrences proposal =
    (if po_ProposalLocalID proposal = [] then Inl (Domain ErrorInvalidInput)
     else if po_ProposalLocalID proposal \<in> oc_ProposalLocalID ` set occurrences
     then Inl (Domain ErrorDuplicateProposalLocalID)
     else if po_StatementText proposal = [] then Inl (Domain ErrorInvalidInput)
     else if po_CodeRelation proposal \<noteq> None then Inl (Domain ErrorInvalidExtractorOutput)
     else if elems (po_EvidenceRefs proposal) = [] then Inl (Domain ErrorUnknownSpan)
     else and_then (traverse (resolve_ref spansByID) (elems (po_EvidenceRefs proposal))) (\<lambda>refs.
       (let sourceRefs = sortSourceRefs refs in
        and_then (verified_fact letter parse ctx proposal sourceRefs) (\<lambda>codeFact.
          Inr (occurrences @ [occurrence ctx proposal sourceRefs codeFact])))))"

definition span_by_id :: "ExtractionView \<Rightarrow> (string, SpanEntry) gomap \<Rightarrow> SpanEntry \<Rightarrow> (string, SpanEntry) gomap ingestion" where
  "span_by_id view spansByID span =
    and_then (validateSpanBounds view span) (\<lambda>_. Inr (AList.update (se_SpanID span) span spansByID))"

definition materializeBatch ::
  "(string \<Rightarrow> bool) \<Rightarrow> (string \<Rightarrow> string \<Rightarrow> File option) \<Rightarrow> attemptContext \<Rightarrow> FrozenExtractorOutput \<Rightarrow>
    MaterializedBatch ingestion" where
  "materializeBatch letter parse ctx fixture =
    (if fo_RepositoryGoplsCoverage fixture \<noteq> None then Inl (Domain ErrorInvalidExtractorOutput)
     else and_then (validateDocumentSectionCoverage ctx fixture) (\<lambda>_.
       and_then (fold_res (span_by_id (sx_ExtractionView ctx)) [] (sx_Spans ctx)) (\<lambda>spansByID.
       and_then (fold_res (materialize_proposal letter parse ctx spansByID) [] (elems (fo_Proposals fixture))) (\<lambda>occurrences.
         Inr \<lparr>mb_ManualReviewProfile = sx_ManualReviewProfile ctx, mb_SourceSnapshot = sx_SourceSnapshot ctx,
           mb_ExtractionView = sx_ExtractionView ctx, mb_Spans = sx_Spans ctx,
           mb_ExtractorDefinition = ax_ExtractorDefinition ctx, mb_ExtractionRun = ax_ExtractionRun ctx,
           mb_ExtractionAttempt = ax_ExtractionAttempt ctx, mb_ProposalBatch = ax_ProposalBatch ctx,
           mb_Occurrences = occurrences, mb_RepositoryGoplsCoverage = None,
           mb_FixtureOutputHash = extractorOutputHash fixture\<rparr>))))"

end
