(* ===== verification/ExactQuote.thy ===== *)
theory ExactQuote
  imports GoParserExtractor
begin

text \<open>
  The checks of quoted output: \<open>exact_quote_extractor.go\<close> and \<open>exact_quote_extractor_selection.go\<close> in
  \<open>src/internal/evidenceingestion\<close>.  A model may only copy: every statement must be a substring of a
  span it refers to, or, for a selection, a whole span.  The strict JSON decoder of
  \<open>trusted_extractor.go\<close> is the parameter \<open>decode\<close>; nothing is assumed of what it returns.
\<close>

text \<open>\<open>strings.Contains\<close>\<close>

fun contains :: "string \<Rightarrow> string \<Rightarrow> bool" where
  "contains [] sub = (sub = [])"
| "contains (c # s) sub = (has_prefix (c # s) sub \<or> contains s sub)"

lemma contains_iff: "contains s sub \<longleftrightarrow> (\<exists>a b. s = a @ sub @ b)"
proof (induction s)
  case (Cons c s)
  have "(\<exists>a b. c # s = a @ sub @ b) \<longleftrightarrow> (\<exists>b. c # s = sub @ b) \<or> (\<exists>a b. s = a @ sub @ b)"
  proof
    assume "\<exists>a b. c # s = a @ sub @ b"
    then obtain a b where "c # s = a @ sub @ b" by blast
    then show "(\<exists>b. c # s = sub @ b) \<or> (\<exists>a b. s = a @ sub @ b)" by (cases a) auto
  next
    assume "(\<exists>b. c # s = sub @ b) \<or> (\<exists>a b. s = a @ sub @ b)"
    then show "\<exists>a b. c # s = a @ sub @ b" by (metis append_Cons append_Nil)
  qed
  then show ?case using Cons.IH by (simp add: has_prefix_iff)
qed auto

abbreviation "maxExactQuoteStatementBytes \<equiv> 65536 :: nat"

section \<open>Exact quotes\<close>

definition span_texts :: "ExtractorInput \<Rightarrow> (string, string) gomap ingestion" where
  "span_texts input = fold_res (\<lambda>spans span.
     if is_SpanID span = [] then Inl (Domain ErrorInvalidInput)
     else if map_of spans (is_SpanID span) \<noteq> None then Inl (Domain ErrorInvalidInput)
     else Inr (AList.update (is_SpanID span) (is_Text span) spans)) [] (ei_Spans input)"

text \<open>The loop over the references of a proposal: the references seen, and whether one quotes the statement.\<close>

definition quote_ref ::
  "(string, string) gomap \<Rightarrow> string \<Rightarrow> string list \<times> bool \<Rightarrow> string \<Rightarrow> (string list \<times> bool) ingestion" where
  "quote_ref spans statement = (\<lambda>(seenRefs, matched) spanID.
    if spanID \<in> set seenRefs then Inl (Domain ErrorInvalidExtractorOutput)
    else case map_of spans spanID of
      None \<Rightarrow> Inl (Domain ErrorUnknownSpan)
    | Some text \<Rightarrow> Inr (spanID # seenRefs, matched \<or> statement \<noteq> [] \<and> contains text statement))"

definition quote_ok :: "(string, string) gomap \<Rightarrow> ExtractorProposalOutput \<Rightarrow> unit ingestion" where
  "quote_ok spans proposal =
    (if po_CodeFact proposal \<noteq> None \<or> po_CodeRelation proposal \<noteq> None then Inl (Domain ErrorInvalidExtractorOutput)
     else if maxExactQuoteStatementBytes < length (po_StatementText proposal) then Inl (Domain ErrorInvalidExtractorOutput)
     else and_then (fold_res (quote_ref spans (po_StatementText proposal)) ([], False)
         (elems (po_EvidenceRefs proposal))) (\<lambda>(seenRefs, matched).
       if \<not> matched then Inl (Domain ErrorInvalidExtractorOutput) else Inr ()))"

definition DecodeBoundedExactQuoteExtractorOutput ::
  "(string \<Rightarrow> FrozenExtractorOutput ingestion) \<Rightarrow> string \<Rightarrow> ExtractorInput \<Rightarrow> int \<Rightarrow> FrozenExtractorOutput ingestion" where
  "DecodeBoundedExactQuoteExtractorOutput decode data input maxProposals =
    (if maxProposals < 1 then Inl (Domain ErrorInvalidInput)
     else and_then (decode data) (\<lambda>output.
       if fo_RepositoryGoplsCoverage output \<noteq> None then Inl (Domain ErrorInvalidExtractorOutput)
       else if fo_DocumentSectionCoverage output \<noteq> None then Inl (Domain ErrorInvalidExtractorOutput)
       else if maxProposals < int (length (elems (fo_Proposals output))) then Inl (Domain ErrorInvalidExtractorOutput)
       else and_then (span_texts input) (\<lambda>spans.
         and_then (each (quote_ok spans) (elems (fo_Proposals output))) (\<lambda>_. Inr output))))"

section \<open>Selection of whole spans\<close>

record exactQuoteSelectionUnit =
  eu_StatementText :: string
  eu_EvidenceRefs :: "string list"

definition wholeSpanExactQuoteUnits :: "ExtractorInput \<Rightarrow> exactQuoteSelectionUnit list ingestion" where
  "wholeSpanExactQuoteUnits input =
    and_then (fold_res (\<lambda>(units, seen) span.
        if is_SpanID span = [] \<or> is_SpanID span \<in> set seen then Inl (Domain ErrorInvalidInput)
        else if trim_space (is_Text span) = [] then Inl (Domain ErrorInvalidInput)
        else if maxExactQuoteStatementBytes < length (is_Text span) then Inl (Domain ErrorInvalidInput)
        else Inr (units @ [\<lparr>eu_StatementText = is_Text span, eu_EvidenceRefs = [is_SpanID span]\<rparr>], is_SpanID span # seen))
      ([], []) (ei_Spans input)) (\<lambda>(units, _). Inr units)"

text \<open>The loop over the selected proposals: the spans selected and the local names used.\<close>

definition select_unit ::
  "(string, string) gomap \<Rightarrow> string list \<times> string list \<Rightarrow> ExtractorProposalOutput \<Rightarrow> (string list \<times> string list) ingestion" where
  "select_unit allowed = (\<lambda>(selected, localIDs) proposal.
    (let refs = elems (po_EvidenceRefs proposal) in
     if trim_space (po_ProposalLocalID proposal) = [] \<or> po_ProposalLocalID proposal \<in> set localIDs
     then Inl (Domain ErrorInvalidExtractorOutput)
     else if length refs \<noteq> 1 \<or> text_at allowed (hd refs) \<noteq> po_StatementText proposal
     then Inl (Domain ErrorInvalidExtractorOutput)
     else if hd refs \<in> set selected then Inl (Domain ErrorInvalidExtractorOutput)
     else Inr (hd refs # selected, po_ProposalLocalID proposal # localIDs)))"

definition DecodeWholeSpanExactQuoteSelectionOutput ::
  "(string \<Rightarrow> FrozenExtractorOutput ingestion) \<Rightarrow> string \<Rightarrow> ExtractorInput \<Rightarrow> int \<Rightarrow> FrozenExtractorOutput ingestion" where
  "DecodeWholeSpanExactQuoteSelectionOutput decode data input maxProposals =
    and_then (wholeSpanExactQuoteUnits input) (\<lambda>units.
    and_then (DecodeBoundedExactQuoteExtractorOutput decode data input maxProposals) (\<lambda>output.
      if fo_Proposals output = None then Inl (Domain ErrorInvalidExtractorOutput)
      else
        (let allowed = fold (\<lambda>unit. AList.update (hd (eu_EvidenceRefs unit)) (eu_StatementText unit)) units [] in
         and_then (fold_res (select_unit allowed) ([], []) (elems (fo_Proposals output))) (\<lambda>_. Inr output))))"

section \<open>What an accepted output is\<close>

lemma span_texts_Inr:
  assumes "span_texts input = Inr spans"
  shows "(\<forall>k v. map_of spans k = Some v \<longrightarrow> (\<exists>s\<in>set (ei_Spans input). is_SpanID s = k \<and> is_Text s = v)) \<and>
    distinct (map is_SpanID (ei_Spans input))"
proof -
  let ?f = "\<lambda>spans span. if is_SpanID span = [] then Inl (Domain ErrorInvalidInput)
     else if map_of spans (is_SpanID span) \<noteq> None then Inl (Domain ErrorInvalidInput)
     else Inr (AList.update (is_SpanID span) (is_Text span) spans)"
  have "(\<forall>k v. map_of m' k = Some v \<longrightarrow> map_of m k = Some v \<or> (\<exists>s\<in>set xs. is_SpanID s = k \<and> is_Text s = v)) \<and>
      distinct (map is_SpanID xs) \<and> (\<forall>s\<in>set xs. map_of m (is_SpanID s) = None)"
    if "fold_res ?f m xs = Inr m'" for m m' xs
    using that
  proof (induction xs arbitrary: m)
    case (Cons x xs)
    then have n: "map_of m (is_SpanID x) = None" and r: "fold_res ?f (AList.update (is_SpanID x) (is_Text x) m) xs = Inr m'"
      by (auto simp: returns split: if_splits)
    note IH = Cons.IH[OF r]
    have away: "\<forall>s\<in>set xs. is_SpanID s \<noteq> is_SpanID x \<and> map_of m (is_SpanID s) = None"
      using IH by (auto simp: map_of_update split: if_splits)
    show ?case
    proof (intro conjI allI impI)
      fix k v assume "map_of m' k = Some v"
      then have "map_of (AList.update (is_SpanID x) (is_Text x) m) k = Some v \<or>
        (\<exists>s\<in>set xs. is_SpanID s = k \<and> is_Text s = v)" using IH by blast
      then show "map_of m k = Some v \<or> (\<exists>s\<in>set (x # xs). is_SpanID s = k \<and> is_Text s = v)"
        by (auto simp: map_of_update split: if_splits)
    qed (use IH away n in auto)
  qed simp
  from this[of "[]" "ei_Spans input" spans] assms show ?thesis by (simp add: span_texts_def)
qed

definition quoted_by :: "ExtractorInput \<Rightarrow> ExtractorProposalOutput \<Rightarrow> bool" where
  "quoted_by input p \<longleftrightarrow> distinct (elems (po_EvidenceRefs p)) \<and>
    set (elems (po_EvidenceRefs p)) \<subseteq> is_SpanID ` set (ei_Spans input) \<and>
    (\<exists>s\<in>set (ei_Spans input). is_SpanID s \<in> set (elems (po_EvidenceRefs p)) \<and> contains (is_Text s) (po_StatementText p))"

lemma quote_refs:
  assumes "fold_res (quote_ref spans st) (seen, m) refs = Inr (seen', m')"
  shows "distinct refs \<and> set refs \<inter> set seen = {} \<and> (\<forall>r\<in>set refs. map_of spans r \<noteq> None) \<and>
    (m' \<longrightarrow> m \<or> (\<exists>r\<in>set refs. \<exists>t. map_of spans r = Some t \<and> st \<noteq> [] \<and> contains t st))"
  using assms
proof (induction refs arbitrary: seen m)
  case (Cons r refs)
  then obtain t where r: "r \<notin> set seen" "map_of spans r = Some t"
    and f: "fold_res (quote_ref spans st) (r # seen, m \<or> st \<noteq> [] \<and> contains t st) refs = Inr (seen', m')"
    by (auto simp: quote_ref_def returns split: if_splits option.splits)
  from Cons.IH[OF f] r show ?case by auto
qed simp

lemma quote_ok_quoted:
  assumes "quote_ok spans p = Inr ()" and "span_texts input = Inr spans"
  shows "quoted_by input p \<and> po_CodeFact p = None \<and> po_CodeRelation p = None \<and> po_StatementText p \<noteq> [] \<and>
    length (po_StatementText p) \<le> maxExactQuoteStatementBytes"
proof -
  from assms(1) obtain seen where "fold_res (quote_ref spans (po_StatementText p)) ([], False)
      (elems (po_EvidenceRefs p)) = Inr (seen, True)"
    and p: "po_CodeFact p = None" "po_CodeRelation p = None" "length (po_StatementText p) \<le> maxExactQuoteStatementBytes"
    by (auto simp: quote_ok_def returns split: if_splits)
  from quote_refs[OF this(1)] obtain r t where "distinct (elems (po_EvidenceRefs p))" "r \<in> set (elems (po_EvidenceRefs p))"
    "map_of spans r = Some t" "po_StatementText p \<noteq> []" "contains t (po_StatementText p)"
    and known: "\<forall>r\<in>set (elems (po_EvidenceRefs p)). \<exists>t. map_of spans r = Some t" by auto
  moreover have "set (elems (po_EvidenceRefs p)) \<subseteq> is_SpanID ` set (ei_Spans input)"
    using known span_texts_Inr[OF assms(2)] by (metis image_eqI subsetI)
  ultimately show ?thesis using p span_texts_Inr[OF assms(2)] unfolding quoted_by_def by blast
qed

lemma decoded_quotes:
  assumes "DecodeBoundedExactQuoteExtractorOutput decode data input n = Inr output"
  shows "decode data = Inr output \<and> int (length (elems (fo_Proposals output))) \<le> n \<and>
    fo_RepositoryGoplsCoverage output = None \<and> fo_DocumentSectionCoverage output = None \<and>
    (\<forall>p\<in>set (elems (fo_Proposals output)). quoted_by input p \<and> po_CodeFact p = None \<and> po_CodeRelation p = None \<and>
      po_StatementText p \<noteq> [] \<and> length (po_StatementText p) \<le> maxExactQuoteStatementBytes)"
  using assms quote_ok_quoted
  by (auto simp: DecodeBoundedExactQuoteExtractorOutput_def returns)

section \<open>What a selection is\<close>

definition whole_span :: "ExtractorInput \<Rightarrow> ExtractorProposalOutput \<Rightarrow> bool" where
  "whole_span input p \<longleftrightarrow>
    (\<exists>s\<in>set (ei_Spans input). elems (po_EvidenceRefs p) = [is_SpanID s] \<and> po_StatementText p = is_Text s)"

lemma whole_units:
  assumes "wholeSpanExactQuoteUnits input = Inr units"
  shows "units = map (\<lambda>s. \<lparr>eu_StatementText = is_Text s, eu_EvidenceRefs = [is_SpanID s]\<rparr>) (ei_Spans input)"
proof -
  let ?f = "\<lambda>(units, seen) span.
        if is_SpanID span = [] \<or> is_SpanID span \<in> set seen then Inl (Domain ErrorInvalidInput)
        else if trim_space (is_Text span) = [] then Inl (Domain ErrorInvalidInput)
        else if maxExactQuoteStatementBytes < length (is_Text span) then Inl (Domain ErrorInvalidInput)
        else Inr (units @ [\<lparr>eu_StatementText = is_Text span, eu_EvidenceRefs = [is_SpanID span]\<rparr>], is_SpanID span # seen)"
  have "us' = us @ map (\<lambda>s. \<lparr>eu_StatementText = is_Text s, eu_EvidenceRefs = [is_SpanID s]\<rparr>) xs"
    if "fold_res ?f (us, seen) xs = Inr (us', seen')" for us us' seen seen' xs
    using that
  proof (induction xs arbitrary: us seen)
    case (Cons x xs)
    then have "fold_res ?f (us @ [\<lparr>eu_StatementText = is_Text x, eu_EvidenceRefs = [is_SpanID x]\<rparr>], is_SpanID x # seen) xs
      = Inr (us', seen')" by (auto simp: returns split: if_splits)
    from Cons.IH[OF this] show ?case by simp
  qed simp
  from this[of "[]" "[]" "ei_Spans input"] assms show ?thesis by (auto simp: wholeSpanExactQuoteUnits_def returns)
qed

lemma allowed_units:
  "map_of (fold (\<lambda>unit. AList.update (hd (eu_EvidenceRefs unit)) (eu_StatementText unit))
     (map (\<lambda>s. \<lparr>eu_StatementText = is_Text s, eu_EvidenceRefs = [is_SpanID s]\<rparr>) xs) m) k = Some v \<Longrightarrow>
   map_of m k = Some v \<or> (\<exists>s\<in>set xs. is_SpanID s = k \<and> is_Text s = v)"
proof (induction xs arbitrary: m)
  case (Cons x xs)
  then show ?case by (fastforce simp: map_of_update split: if_splits)
qed simp

lemma selected_units:
  assumes "fold_res (select_unit allowed) (selected, names) ps = Inr s"
  shows "(\<forall>p\<in>set ps. po_ProposalLocalID p \<noteq> [] \<and> (\<exists>r. elems (po_EvidenceRefs p) = [r] \<and> text_at allowed r = po_StatementText p)) \<and>
    distinct (map po_ProposalLocalID ps) \<and> distinct (map (\<lambda>p. hd (elems (po_EvidenceRefs p))) ps) \<and>
    (\<forall>p\<in>set ps. po_ProposalLocalID p \<notin> set names \<and> hd (elems (po_EvidenceRefs p)) \<notin> set selected)"
  using assms
proof (induction ps arbitrary: selected names)
  case (Cons p ps)
  then have p: "po_ProposalLocalID p \<noteq> []" "po_ProposalLocalID p \<notin> set names" "length (elems (po_EvidenceRefs p)) = 1"
      "text_at allowed (hd (elems (po_EvidenceRefs p))) = po_StatementText p" "hd (elems (po_EvidenceRefs p)) \<notin> set selected"
    and r: "fold_res (select_unit allowed) (hd (elems (po_EvidenceRefs p)) # selected, po_ProposalLocalID p # names) ps = Inr s"
    by (auto simp: select_unit_def returns Let_def)
  have "\<exists>r. elems (po_EvidenceRefs p) = [r] \<and> text_at allowed r = po_StatementText p"
    using p(3,4) by (cases "elems (po_EvidenceRefs p)") auto
  then show ?case using Cons.IH[OF r] p(1,2,5) by auto
qed simp

lemma decoded_selection:
  assumes "DecodeWholeSpanExactQuoteSelectionOutput decode data input n = Inr output"
  shows "DecodeBoundedExactQuoteExtractorOutput decode data input n = Inr output \<and>
    (\<forall>p\<in>set (elems (fo_Proposals output)). po_ProposalLocalID p \<noteq> [] \<and> whole_span input p) \<and>
    distinct (map po_ProposalLocalID (elems (fo_Proposals output))) \<and>
    distinct (map (\<lambda>p. hd (elems (po_EvidenceRefs p))) (elems (fo_Proposals output)))"
proof -
  from assms obtain units s where u: "wholeSpanExactQuoteUnits input = Inr units"
    and d: "DecodeBoundedExactQuoteExtractorOutput decode data input n = Inr output"
    and f: "fold_res (select_unit (fold (\<lambda>unit. AList.update (hd (eu_EvidenceRefs unit)) (eu_StatementText unit)) units []))
      ([], []) (elems (fo_Proposals output)) = Inr s"
    by (auto simp: DecodeWholeSpanExactQuoteSelectionOutput_def returns Let_def)
  note sel = selected_units[OF f]
  have "whole_span input p" if p: "p \<in> set (elems (fo_Proposals output))" for p
  proof -
    obtain r where r: "elems (po_EvidenceRefs p) = [r]" "text_at (fold (\<lambda>unit. AList.update (hd (eu_EvidenceRefs unit))
      (eu_StatementText unit)) units []) r = po_StatementText p" using sel p by blast
    have "po_StatementText p \<noteq> []" using decoded_quotes[OF d] p by blast
    then have "map_of (fold (\<lambda>unit. AList.update (hd (eu_EvidenceRefs unit)) (eu_StatementText unit)) units []) r =
      Some (po_StatementText p)" using r(2) by (auto simp: text_at_def split: option.splits)
    from allowed_units[OF this[unfolded whole_units[OF u]]] r(1) show ?thesis by (auto simp: whole_span_def)
  qed
  then show ?thesis using sel d by blast
qed

end
