(* ===== verification/SourceGrounding.thy ===== *)
theory SourceGrounding
  imports SourceMaterialize ExactQuote
begin

text \<open>
  What a batch that was materialised looks like, and when an output can be: the lemmas under the
  properties of \<open>SourceProperties\<close>.  \<open>materialized\<close> reads a successful batch backwards, \<open>materializes\<close>
  builds one from outputs whose proposals are each acceptable.
\<close>

section \<open>Loops that collect\<close>

lemma traverse_Inr: "traverse f xs = Inr ys \<longleftrightarrow> list_all2 (\<lambda>x y. f x = Inr y) xs ys"
proof (induction xs arbitrary: ys)
  case (Cons x xs)
  then show ?case by (cases ys) (auto simp: returns)
qed auto

lemma list_all2_map_eq: "list_all2 (\<lambda>x y. P x y \<and> f y = g x) xs ys \<Longrightarrow> map f ys = map g xs"
  by (induction xs ys rule: list_all2_induct) auto

lemma list_all2_in2: "list_all2 P xs ys \<Longrightarrow> y \<in> set ys \<Longrightarrow> \<exists>x\<in>set xs. P x y"
  by (metis in_set_conv_nth list_all2_conv_all_nth)

lemma list_all2_choose: "(\<And>x. x \<in> set xs \<Longrightarrow> \<exists>y. P x y) \<Longrightarrow> \<exists>ys. list_all2 P xs ys"
proof (induction xs)
  case (Cons x xs)
  then obtain y ys where "P x y" "list_all2 P xs ys" by (meson list.set_intros)
  then have "list_all2 P (x # xs) (y # ys)" by simp
  then show ?case ..
qed (use list_all2_Nil in blast)

lemma distinct_map_Cons: "distinct (map f (x # xs)) \<longleftrightarrow> (\<forall>y\<in>set xs. f y \<noteq> f x) \<and> distinct (map f xs)"
  by (simp add: image_iff) metis

section \<open>Spans\<close>

definition span_valid :: "ExtractionView \<Rightarrow> SpanEntry \<Rightarrow> bool" where
  "span_valid view s \<longleftrightarrow> se_ExtractionViewID s = ev_ID view \<and> 0 \<le> se_StartByte s \<and> se_StartByte s \<le> se_EndByte s \<and>
    se_EndByte s \<le> int (length (ev_Rendered view)) \<and>
    se_QuotedText s = slice_of (ev_Rendered view) (nat (se_StartByte s)) (nat (se_EndByte s)) \<and>
    se_QuotedTextHash s = contentHash (se_QuotedText s)"

lemma validateSpanBounds_iff: "validateSpanBounds view s = Inr () \<longleftrightarrow> span_valid view s"
  by (auto simp: validateSpanBounds_def span_valid_def Let_def)

lemma span_by_id_Inr [returns]:
  "span_by_id view m s = Inr m' \<longleftrightarrow> span_valid view s \<and> m' = AList.update (se_SpanID s) s m"
  by (auto simp: span_by_id_def returns validateSpanBounds_iff)

lemma spans_by_id:
  assumes "fold_res (span_by_id view) m spans = Inr m'"
  shows "(\<forall>s\<in>set spans. span_valid view s) \<and>
    (\<forall>k s. map_of m' k = Some s \<longrightarrow> map_of m k = Some s \<or> s \<in> set spans \<and> se_SpanID s = k)"
  using assms
proof (induction spans arbitrary: m)
  case (Cons x spans)
  then have "fold_res (span_by_id view) (AList.update (se_SpanID x) x m) spans = Inr m'" and v: "span_valid view x"
    by (auto simp: returns)
  from Cons.IH[OF this(1)] v show ?case by (auto simp: map_of_update split: if_splits)
qed simp

lemma spans_by_id_total:
  assumes "\<forall>s\<in>set spans. span_valid view s" and "distinct (map se_SpanID spans)"
    and "\<forall>s\<in>set spans. map_of m (se_SpanID s) = None"
  shows "\<exists>m'. fold_res (span_by_id view) m spans = Inr m' \<and> (\<forall>s\<in>set spans. map_of m' (se_SpanID s) = Some s) \<and>
    (\<forall>k. k \<notin> se_SpanID ` set spans \<longrightarrow> map_of m' k = map_of m k)"
  using assms
proof (induction spans arbitrary: m)
  case (Cons x spans)
  let ?m = "AList.update (se_SpanID x) x m"
  have "\<forall>s\<in>set spans. se_SpanID s \<noteq> se_SpanID x" using Cons.prems(2) unfolding distinct_map_Cons by simp
  then have "\<forall>s\<in>set spans. map_of ?m (se_SpanID s) = None" using Cons.prems(3) by (simp add: map_of_update)
  then obtain m' where m': "fold_res (span_by_id view) ?m spans = Inr m'" "\<forall>s\<in>set spans. map_of m' (se_SpanID s) = Some s"
    "\<forall>k. k \<notin> se_SpanID ` set spans \<longrightarrow> map_of m' k = map_of ?m k" using Cons.IH[of ?m] Cons.prems by auto
  have "span_by_id view m x = Inr ?m" using Cons.prems by (simp add: span_by_id_Inr)
  then have "fold_res (span_by_id view) m (x # spans) = Inr m'" using m'(1) by simp
  moreover have "map_of m' (se_SpanID x) = Some x" using m'(3) Cons.prems(2) by (auto simp: map_of_update)
  ultimately show ?case using m' by (auto simp: map_of_update)
qed simp

section \<open>Batches\<close>

text \<open>The checks of one proposal, apart from the comparison with the local names before it.\<close>

definition acceptable ::
  "(string \<Rightarrow> bool) \<Rightarrow> (string \<Rightarrow> string \<Rightarrow> File option) \<Rightarrow> attemptContext \<Rightarrow> (string, SpanEntry) gomap \<Rightarrow>
    ExtractorProposalOutput \<Rightarrow> ProposalOccurrence \<Rightarrow> bool" where
  "acceptable letter parse ctx spansByID p o' \<longleftrightarrow>
    po_ProposalLocalID p \<noteq> [] \<and> po_StatementText p \<noteq> [] \<and> po_CodeRelation p = None \<and> elems (po_EvidenceRefs p) \<noteq> [] \<and>
    (\<exists>spans codeFact. list_all2 (\<lambda>k s. map_of spansByID k = Some s) (elems (po_EvidenceRefs p)) spans \<and>
      verified_fact letter parse ctx p (sortSourceRefs (map source_ref spans)) = Inr codeFact \<and>
      o' = occurrence ctx p (sortSourceRefs (map source_ref spans)) codeFact)"

lemma resolve_refs:
  "traverse (resolve_ref m) ks = Inr refs \<longleftrightarrow> (\<exists>spans. list_all2 (\<lambda>k s. map_of m k = Some s) ks spans \<and> refs = map source_ref spans)"
proof (induction ks arbitrary: refs)
  case (Cons k ks)
  then show ?case by (auto simp: returns resolve_ref_def list_all2_Cons1 split: option.splits)
qed auto

lemma materialize_proposal_Inr:
  "materialize_proposal letter parse ctx m occs p = Inr occs' \<longleftrightarrow>
    (\<exists>o'. acceptable letter parse ctx m p o' \<and> po_ProposalLocalID p \<notin> oc_ProposalLocalID ` set occs \<and> occs' = occs @ [o'])"
  unfolding materialize_proposal_def acceptable_def Let_def if_Inl_eq_Inr and_then_Inr resolve_refs by fastforce

lemma acceptable_id: "acceptable letter parse ctx m p o' \<Longrightarrow> oc_ProposalLocalID o' = po_ProposalLocalID p"
  by (auto simp: acceptable_def occurrence_def Let_def)

lemma materialize_proposals:
  "fold_res (materialize_proposal letter parse ctx m) occs ps = Inr occs' \<longleftrightarrow>
    (\<exists>os. occs' = occs @ os \<and> list_all2 (acceptable letter parse ctx m) ps os \<and> distinct (map po_ProposalLocalID ps) \<and>
      (\<forall>p\<in>set ps. po_ProposalLocalID p \<notin> oc_ProposalLocalID ` set occs))"
proof (induction ps arbitrary: occs)
  case (Cons p ps)
  have "fold_res (materialize_proposal letter parse ctx m) occs (p # ps) = Inr occs' \<longleftrightarrow>
    (\<exists>o'. acceptable letter parse ctx m p o' \<and> po_ProposalLocalID p \<notin> oc_ProposalLocalID ` set occs \<and>
      fold_res (materialize_proposal letter parse ctx m) (occs @ [o']) ps = Inr occs')"
    by (auto simp: returns materialize_proposal_Inr)
  also have "\<dots> \<longleftrightarrow> (\<exists>o' os. acceptable letter parse ctx m p o' \<and> po_ProposalLocalID p \<notin> oc_ProposalLocalID ` set occs \<and>
      occs' = occs @ o' # os \<and> list_all2 (acceptable letter parse ctx m) ps os \<and> distinct (map po_ProposalLocalID ps) \<and>
      (\<forall>q\<in>set ps. po_ProposalLocalID q \<noteq> po_ProposalLocalID p \<and> po_ProposalLocalID q \<notin> oc_ProposalLocalID ` set occs))"
    unfolding Cons.IH by (auto simp: acceptable_id)
  also have "\<dots> \<longleftrightarrow> (\<exists>os. occs' = occs @ os \<and> list_all2 (acceptable letter parse ctx m) (p # ps) os \<and>
      ((\<forall>q\<in>set ps. po_ProposalLocalID q \<noteq> po_ProposalLocalID p) \<and> distinct (map po_ProposalLocalID ps)) \<and>
      (\<forall>q\<in>set (p # ps). po_ProposalLocalID q \<notin> oc_ProposalLocalID ` set occs))"
    by (simp only: list_all2_Cons1 list.set ball_simps) blast
  finally show ?case by (simp only: distinct_map_Cons)
qed auto

lemma materialized:
  assumes "materializeBatch letter parse ctx out = Inr b"
  obtains m where "fold_res (span_by_id (sx_ExtractionView ctx)) [] (sx_Spans ctx) = Inr m"
    "list_all2 (acceptable letter parse ctx m) (elems (fo_Proposals out)) (mb_Occurrences b)"
    "distinct (map po_ProposalLocalID (elems (fo_Proposals out)))" "fo_RepositoryGoplsCoverage out = None"
    "validateDocumentSectionCoverage ctx out = Inr ()" "mb_SourceSnapshot b = sx_SourceSnapshot ctx"
    "mb_ExtractionView b = sx_ExtractionView ctx" "mb_Spans b = sx_Spans ctx"
  using assms by (auto simp: materializeBatch_def returns materialize_proposals)

lemma materializes:
  assumes "fo_RepositoryGoplsCoverage out = None" and "fo_DocumentSectionCoverage out = None"
    and "fold_res (span_by_id (sx_ExtractionView ctx)) [] (sx_Spans ctx) = Inr m"
    and "list_all2 (acceptable letter parse ctx m) (elems (fo_Proposals out)) os"
    and "distinct (map po_ProposalLocalID (elems (fo_Proposals out)))"
  shows "\<exists>b. materializeBatch letter parse ctx out = Inr b \<and> mb_Occurrences b = os"
proof -
  have "fold_res (materialize_proposal letter parse ctx m) [] (elems (fo_Proposals out)) = Inr os"
    using assms(4,5) by (simp add: materialize_proposals)
  then show ?thesis using assms(1-3) by (simp add: materializeBatch_def validateDocumentSectionCoverage_def)
qed

text \<open>Every reference of an occurrence is the reference of a valid span of the source.\<close>

lemma occurrence_simps [simp]:
  "oc_SourceRefs (occurrence ctx p rs cf) = rs" "oc_CodeFact (occurrence ctx p rs cf) = cf"
  "oc_StatementText (occurrence ctx p rs cf) = po_StatementText p"
  "oc_ProposalLocalID (occurrence ctx p rs cf) = po_ProposalLocalID p"
  by (simp_all add: occurrence_def Let_def)

lemma set_sortSourceRefs [simp]: "set (sortSourceRefs rs) = set rs"
  by (simp add: sortSourceRefs_def)

lemma acceptable_refs:
  assumes "acceptable letter parse ctx m p o'" and "fold_res (span_by_id view) [] (sx_Spans ctx) = Inr m"
  shows "(\<forall>r\<in>set (oc_SourceRefs o'). \<exists>s\<in>set (sx_Spans ctx). span_valid view s \<and> r = source_ref s) \<and>
    sr_SpanID ` set (oc_SourceRefs o') = set (elems (po_EvidenceRefs p)) \<and> sorted (map ref_key (oc_SourceRefs o')) \<and>
    oc_SourceRefs o' \<noteq> []"
proof -
  obtain spans cf where sp: "list_all2 (\<lambda>k s. map_of m k = Some s) (elems (po_EvidenceRefs p)) spans"
    and o': "oc_SourceRefs o' = sortSourceRefs (map source_ref spans)" and ne: "elems (po_EvidenceRefs p) \<noteq> []"
    using assms(1) by (auto simp: acceptable_def)
  have from_map: "s \<in> set (sx_Spans ctx) \<and> se_SpanID s = k" if "map_of m k = Some s" for k s
    using spans_by_id[OF assms(2)] that by auto
  have "map se_SpanID spans = elems (po_EvidenceRefs p)"
    by (rule list_all2_map_eq[where g = "\<lambda>k. k" and P = "\<lambda>k s. True", simplified])
      (use sp from_map in \<open>auto elim: list_all2_mono\<close>)
  then have ids: "se_SpanID ` set spans = set (elems (po_EvidenceRefs p))" by (metis list.set_map)
  have "\<forall>s\<in>set spans. s \<in> set (sx_Spans ctx)" using list_all2_in2[OF sp] from_map by blast
  moreover have "\<forall>s\<in>set (sx_Spans ctx). span_valid view s" using spans_by_id[OF assms(2)] by simp
  moreover have "sr_SpanID ` source_ref ` set spans = se_SpanID ` set spans" by (auto simp: source_ref_def image_iff)
  moreover have "spans \<noteq> []" using sp ne by auto
  ultimately show ?thesis using ids
    by (auto simp: o' sortSourceRefs_def) (metis length_0_conv length_map length_sort)
qed

section \<open>The order of references\<close>

lemma lex_append_same: "(v @ x \<le> v @ y) = (x \<le> y)" for x y :: string
  by (induction v) simp_all

lemma lex_front: "length a = length b \<Longrightarrow> a @ x \<le> b @ y \<Longrightarrow> a \<le> b" for a b :: string
proof (induction a b rule: list_induct2)
  case (Cons c a d b)
  then show ?case by auto
qed simp

lemma digits_val_Cons: "digits_val (c # s) = (byte c - 48) * 10 ^ length s + digits_val s"
proof (induction s rule: rev_induct)
  case (snoc d s)
  have "digits_val (c # s @ [d]) = digits_val (c # s) * 10 + (byte d - 48)"
    using digits_val_snoc[of "c # s" d] by simp
  then show ?case using snoc by (simp add: digits_val_snoc algebra_simps)
qed (simp add: digits_val_def)

lemma digits_val_less: "list_all is_digit s \<Longrightarrow> digits_val s < 10 ^ length s"
proof (induction s)
  case (Cons c s)
  then have "byte c - 48 \<le> 9" "digits_val s < 10 ^ length s" by (auto simp: is_digit_def)
  then have "(byte c - 48) * 10 ^ length s + digits_val s < 9 * 10 ^ length s + 10 ^ length s"
    using mult_le_mono1[of "byte c - 48" 9 "10 ^ length s"] by linarith
  then show ?case by (simp add: digits_val_Cons)
qed (simp add: digits_val_def)

lemma digits_order:
  assumes "length s = length t" "list_all is_digit s" "list_all is_digit t" "s \<le> t"
  shows "digits_val s \<le> digits_val t"
  using assms
proof (induction s t rule: list_induct2)
  case (Cons c s d t)
  show ?case
  proof (cases "c = d")
    case True
    then show ?thesis using Cons by (auto simp: digits_val_Cons)
  next
    case False
    then have "byte c < byte d" "48 \<le> byte c" using Cons.prems by (auto simp: less_char_def is_digit_def)
    then have "Suc (byte c - 48) \<le> byte d - 48" by simp
    then have "Suc (byte c - 48) * 10 ^ length s \<le> (byte d - 48) * 10 ^ length t"
      using Cons.hyps by (simp only: mult_le_mono1)
    moreover have "digits_val s < 10 ^ length s" using Cons.prems by (intro digits_val_less) simp
    ultimately show ?thesis by (simp add: digits_val_Cons)
  qed
qed simp

lemma length_nat_str: "0 < k \<Longrightarrow> n < 10 ^ k \<Longrightarrow> length (nat_str n) \<le> k"
proof (induction k arbitrary: n)
  case (Suc k)
  show ?case
  proof (cases "n < 10")
    case False
    then have "0 < k" using Suc.prems by (cases k) auto
    moreover have "n div 10 < 10 ^ k" using Suc.prems by (simp add: less_mult_imp_div_less mult.commute)
    ultimately show ?thesis using Suc.IH[of "n div 10"] False by (subst nat_str.simps) simp
  qed (subst nat_str.simps, simp)
qed simp

lemma padded_digits:
  assumes "0 \<le> n" "n < 10 ^ 10"
  shows "length (padded n) = 10 \<and> list_all is_digit (padded n) \<and> digits_val (padded n) = nat n"
proof -
  have "nat n < 10 ^ 10" using assms by simp
  then have "length (nat_str (nat n)) \<le> 10" by (rule length_nat_str[rotated]) simp
  moreover have "digits_val (replicate k CHR ''0'' @ s) = digits_val s" for k s
    by (induction k) (simp_all add: digits_val_Cons)
  moreover have "list_all is_digit (replicate k CHR ''0'')" for k by (simp add: list_all_iff is_digit_def)
  ultimately show ?thesis using assms by (simp add: padded_def digits_val_nat_str)
qed

lemma ref_key_order:
  assumes "ref_key r \<le> ref_key q" and "sr_ExtractionViewID r = sr_ExtractionViewID q"
    and "0 \<le> sr_StartByte r" "sr_StartByte r < 10 ^ 10" "0 \<le> sr_StartByte q" "sr_StartByte q < 10 ^ 10"
  shows "sr_StartByte r \<le> sr_StartByte q"
proof -
  note pr = padded_digits[OF assms(3,4)] and pq = padded_digits[OF assms(5,6)]
  have "padded (sr_StartByte r) @ CHR 0x00 # padded (sr_EndByte r) @ CHR 0x00 # sr_QuotedTextHash r \<le>
    padded (sr_StartByte q) @ CHR 0x00 # padded (sr_EndByte q) @ CHR 0x00 # sr_QuotedTextHash q"
    using assms(1,2) by (simp add: ref_key_def lex_append_same)
  then have "padded (sr_StartByte r) \<le> padded (sr_StartByte q)" by (rule lex_front[rotated]) (use pr pq in simp)
  then have "digits_val (padded (sr_StartByte r)) \<le> digits_val (padded (sr_StartByte q))"
    using pr pq by (intro digits_order) simp_all
  then show ?thesis using pr pq assms(3,5) by simp
qed

section \<open>Built sources\<close>

lemma span_ids_inj: "inj_on (\<lambda>k. ''span:S'' @ nat_str k) A"
  by (rule inj_onI) (metis append_same_eq digits_val_nat_str same_append_eq)

lemma built_spans:
  assumes "source_built ctx"
  shows "(\<forall>s\<in>set (sx_Spans ctx). span_of (sx_ExtractionView ctx) (sx_SpanCatalogVersion ctx) s \<and>
      span_valid (sx_ExtractionView ctx) s) \<and> distinct (map se_SpanID (sx_Spans ctx)) \<and>
    map span_line (sx_Spans ctx) = nonempty_lines (sx_Raw ctx)"
proof -
  let ?v = "sx_ExtractionView ctx" and ?c = "sx_SpanCatalogVersion ctx"
  have s: "sx_Spans ctx = line_spans ?v ?c 0 1 1" and r: "ev_Rendered ?v = sx_Raw ctx"
    using assms by (simp_all add: source_built_def Let_def)
  have n: "map se_SpanID (sx_Spans ctx) = map (\<lambda>k. ''span:S'' @ nat_str k) [1..<1 + length (sx_Spans ctx)]"
    "\<forall>s\<in>set (sx_Spans ctx). span_of ?v ?c s" unfolding s using line_spans_numbered[of 0 ?v ?c 1 1] by auto
  have "distinct (map se_SpanID (sx_Spans ctx))" unfolding n(1)
    using span_ids_inj by (simp add: distinct_map)
  moreover have "\<forall>s\<in>set (sx_Spans ctx). span_valid ?v s"
    using n(2) validate_span_of validateSpanBounds_iff by blast
  moreover have "map span_line (sx_Spans ctx) = nonempty_lines (sx_Raw ctx)"
    unfolding s r[symmetric] using line_spans_lines[of 0 ?v ?c 1 1] lines_from_1 by simp
  ultimately show ?thesis using n(2) by simp
qed

lemma built_by_id:
  assumes "source_built ctx"
  obtains m where "fold_res (span_by_id (sx_ExtractionView ctx)) [] (sx_Spans ctx) = Inr m"
    "\<forall>s\<in>set (sx_Spans ctx). map_of m (se_SpanID s) = Some s"
  using spans_by_id_total[of "sx_Spans ctx" "sx_ExtractionView ctx" "[]"] built_spans[OF assms] by auto

lemma nonempty_lines_plain: "(n, l) \<in> set (nonempty_lines b) \<Longrightarrow> newline_byte \<notin> set l \<and> l \<noteq> []"
proof -
  have plain: "newline_byte \<notin> set cur \<Longrightarrow> \<forall>l\<in>set (split_lines cur s). newline_byte \<notin> set l" for cur s
    by (induction cur s rule: split_lines.induct) auto
  assume "(n, l) \<in> set (nonempty_lines b)"
  then have l: "l \<in> set (map drop_cr (split_lines [] b))" "l \<noteq> []"
    by (auto simp: nonempty_lines_def Let_def dest: set_zip_rightD)
  then obtain k where "k \<in> set (split_lines [] b)" "l = drop_cr k" by auto
  then show ?thesis using plain[of "[]" b] l(2) by (auto simp: drop_cr_def split: if_splits dest: in_set_butlastD)
qed

end
