(* ===== verification/SourceCoverage.thy ===== *)
theory SourceCoverage
  imports SourceMaterialize
begin

text \<open>
  What accepted section coverage means.  The code checks a diagnostic of document extraction in one pass
  with three sets and a table of ends; \<open>section_coverage_partition\<close> states the same condition without a
  loop: the sections cut each document into disjoint consecutive ranges, and their proposals
  partition the proposals of the output.
\<close>

definition section_proposals :: "DocumentSectionCoverageItem list \<Rightarrow> string list" where
  "section_proposals sections = concat (map (\<lambda>i. elems (dc_ProposalLocalIDs i)) sections)"

definition section_wellformed :: "DocumentSectionCoverage \<Rightarrow> DocumentSectionCoverageItem \<Rightarrow> bool" where
  "section_wellformed c i \<longleftrightarrow> dc_SectionID i \<noteq> [] \<and> dc_CandidateLocalID i \<noteq> [] \<and> dc_StartByte i < dc_EndByte i \<and>
    isSHA256ContentHash (dc_ContentHash i) \<and> isSHA256ContentHash (dc_ResponseHash i) \<and>
    dc_Abstained i = (elems (dc_ProposalLocalIDs i) = []) \<and>
    int (length (elems (dc_ProposalLocalIDs i))) \<le> ds_MaxProposalsPerSection c"

definition sections_of :: "string \<Rightarrow> DocumentSectionCoverageItem list \<Rightarrow> DocumentSectionCoverageItem list" where
  "sections_of k sections = filter (\<lambda>i. dc_CandidateLocalID i = k) sections"

text \<open>The sections of one document are consecutive, and start at or after \<open>n\<close>.\<close>

definition consecutive :: "int \<Rightarrow> DocumentSectionCoverageItem list \<Rightarrow> bool" where
  "consecutive n is \<longleftrightarrow> sorted_wrt (\<lambda>i j. dc_EndByte i \<le> dc_StartByte j) is \<and> list_all (\<lambda>i. n \<le> dc_StartByte i) is"

definition disjoint_sections :: "DocumentSectionCoverageItem list \<Rightarrow> bool" where
  "disjoint_sections sections \<longleftrightarrow> (\<forall>k. consecutive 0 (sections_of k sections))"

text \<open>The fields that are compared with constants, with the extractor's configuration and with each other.\<close>

definition coverage_contract :: "attemptContext \<Rightarrow> FrozenExtractorOutput \<Rightarrow> DocumentSectionCoverage \<Rightarrow> bool" where
  "coverage_contract ctx out c \<longleftrightarrow>
    fo_RepositoryGoplsCoverage out = None \<and> ss_SourceSystem (sx_SourceSnapshot ctx) = SourceSystemMCPReadDocument \<and>
    ds_SchemaVersion c = DocumentSectionCoverageSchemaV1 \<and>
    ds_OffsetBasis c = DocumentSectionCoverageOffsetAdapterSelectedUTF8 \<and>
    ds_CoverageComplete c \<and> \<not> ds_NegativeInferenceAllowed c \<and> ds_SegmentationContract c \<noteq> [] \<and>
    text_at (ed_Config (ax_ExtractorDefinition ctx)) ''section_mode'' = ds_SegmentationContract c \<and>
    text_at (ed_Config (ax_ExtractorDefinition ctx)) ''document_section_coverage_schema'' = ds_SchemaVersion c \<and>
    atoi (text_at (ed_Config (ax_ExtractorDefinition ctx)) ''max_sections'') = Some (ds_MaxSections c) \<and>
    1 \<le> ds_MaxSections c \<and>
    atoi (text_at (ed_Config (ax_ExtractorDefinition ctx)) ''max_proposals_per_section'') =
      Some (ds_MaxProposalsPerSection c) \<and> 1 \<le> ds_MaxProposalsPerSection c \<and>
    1 \<le> ds_SelectedSourceCount c \<and> ds_SectionCount c = int (length (elems (ds_Sections c))) \<and>
    ds_SelectedSourceCount c \<le> ds_SectionCount c \<and> ds_SectionCount c \<le> ds_MaxSections c \<and>
    ds_ModelCallCount c = ds_SectionCount c"

section \<open>The pass over the sections\<close>

lemma section_proposals_loop:
  "fold_res (section_proposal proposals) covered ids = Inr covered' \<longleftrightarrow>
    covered' = rev ids @ covered \<and> distinct ids \<and> set ids \<subseteq> set proposals \<and> set ids \<inter> set covered = {}"
proof (induction ids arbitrary: covered)
  case (Cons x ids)
  then show ?case by (auto simp: section_proposal_def returns)
qed auto

lemma consecutive_Cons:
  "dc_StartByte i < dc_EndByte i \<Longrightarrow> consecutive n (i # is) \<longleftrightarrow> n \<le> dc_StartByte i \<and> consecutive (dc_EndByte i) is"
  by (fastforce simp: consecutive_def list_all_iff)

definition after_section :: "coverageLoop \<Rightarrow> DocumentSectionCoverageItem \<Rightarrow> coverageLoop" where
  "after_section s i = \<lparr>cl_covered = rev (elems (dc_ProposalLocalIDs i)) @ cl_covered s,
    cl_sections = dc_SectionID i # cl_sections s,
    cl_lastEnd = AList.update (dc_CandidateLocalID i) (dc_EndByte i) (cl_lastEnd s),
    cl_candidates = List.insert (dc_CandidateLocalID i) (cl_candidates s)\<rparr>"

lemma section_step_Inr:
  "section_step c proposals s i = Inr s' \<longleftrightarrow> s' = after_section s i \<and> section_wellformed c i \<and>
    dc_SectionID i \<notin> set (cl_sections s) \<and> get (cl_lastEnd s) (dc_CandidateLocalID i) \<le> dc_StartByte i \<and>
    distinct (elems (dc_ProposalLocalIDs i)) \<and> set (elems (dc_ProposalLocalIDs i)) \<subseteq> set proposals \<and>
    set (elems (dc_ProposalLocalIDs i)) \<inter> set (cl_covered s) = {}"
  unfolding section_step_def section_wellformed_def after_section_def
  by (simp only: if_Inl_eq_Inr and_then_Inr section_proposals_loop) auto

lemma sections_of_simps [simp]:
  "sections_of k [] = []"
  "sections_of k (i # is) = (if dc_CandidateLocalID i = k then i # sections_of k is else sections_of k is)"
  by (simp_all add: sections_of_def)

lemma section_proposals_simps [simp]:
  "section_proposals [] = []" "section_proposals (i # is) = elems (dc_ProposalLocalIDs i) @ section_proposals is"
  by (simp_all add: section_proposals_def)

lemma consecutive_all:
  assumes "dc_StartByte i < dc_EndByte i"
  shows "(\<forall>k. consecutive (get m k) (sections_of k (i # is))) \<longleftrightarrow>
    get m (dc_CandidateLocalID i) \<le> dc_StartByte i \<and>
    (\<forall>k. consecutive (get (AList.update (dc_CandidateLocalID i) (dc_EndByte i) m) k) (sections_of k is))"
proof -
  have "(\<forall>k. consecutive (get m k) (sections_of k (i # is))) \<longleftrightarrow>
    consecutive (get m (dc_CandidateLocalID i)) (i # sections_of (dc_CandidateLocalID i) is) \<and>
    (\<forall>k. k \<noteq> dc_CandidateLocalID i \<longrightarrow> consecutive (get m k) (sections_of k is))" by (auto split: if_splits)
  also have "\<dots> \<longleftrightarrow> get m (dc_CandidateLocalID i) \<le> dc_StartByte i \<and>
    (\<forall>k. consecutive (get (AList.update (dc_CandidateLocalID i) (dc_EndByte i) m) k) (sections_of k is))"
    unfolding consecutive_Cons[OF assms] by auto
  finally show ?thesis .
qed

lemma sections_loop:
  "fold_res (section_step c proposals) s is = Inr s' \<longleftrightarrow>
    s' = fold (\<lambda>i s. after_section s i) is s \<and> list_all (section_wellformed c) is \<and>
    distinct (map dc_SectionID is) \<and> dc_SectionID ` set is \<inter> set (cl_sections s) = {} \<and>
    (\<forall>k. consecutive (get (cl_lastEnd s) k) (sections_of k is)) \<and>
    distinct (section_proposals is) \<and> set (section_proposals is) \<subseteq> set proposals \<and>
    set (section_proposals is) \<inter> set (cl_covered s) = {}"
proof (induction "is" arbitrary: s)
  case Nil
  then show ?case by (auto simp: consecutive_def)
next
  case (Cons i "is")
  show ?case
  proof (cases "section_wellformed c i")
    case True
    then have "dc_StartByte i < dc_EndByte i" by (simp add: section_wellformed_def)
    note order = consecutive_all[OF this, of "cl_lastEnd s" "is"]
    have "fold_res (section_step c proposals) s (i # is) = Inr s' \<longleftrightarrow>
      section_step c proposals s i = Inr (after_section s i) \<and>
      fold_res (section_step c proposals) (after_section s i) is = Inr s'"
      by (auto simp: returns section_step_Inr)
    then show ?thesis unfolding Cons.IH order section_step_Inr using True
      by (auto simp: after_section_def)
  qed (simp add: returns section_step_Inr)
qed

lemma after_sections:
  "cl_covered (fold (\<lambda>i s. after_section s i) is s) = rev (section_proposals is) @ cl_covered s \<and>
   set (cl_candidates (fold (\<lambda>i s. after_section s i) is s)) = dc_CandidateLocalID ` set is \<union> set (cl_candidates s) \<and>
   (distinct (cl_candidates s) \<longrightarrow> distinct (cl_candidates (fold (\<lambda>i s. after_section s i) is s)))"
proof (induction "is" arbitrary: s)
  case (Cons i "is")
  from Cons.IH[of "after_section s i"] show ?case by (auto simp: after_section_def)
qed simp

lemma covers_all: "distinct xs \<Longrightarrow> set xs \<subseteq> set ys \<Longrightarrow> length xs = length (remdups ys) \<longleftrightarrow> set xs = set ys"
  by (metis card_subset_eq distinct_card finite_set length_remdups_card_conv)

section \<open>The property\<close>

text \<open>C14. The section coverage of an extractor's output is accepted exactly when it is absent or does what its name says: the contract fields agree with the extractor's configuration, each section is well formed and has its own identity, the sections of one source document are disjoint and in order, the number of documents is the declared one, and the proposals listed by the sections are a partition of the proposals of the output: every proposal of the output is listed by exactly one section and no other name is listed.\<close>

theorem section_coverage_partition:
  "validateDocumentSectionCoverage ctx out = Inr () \<longleftrightarrow>
    (case fo_DocumentSectionCoverage out of
       None \<Rightarrow> True
     | Some c \<Rightarrow> coverage_contract ctx out c \<and> list_all (section_wellformed c) (elems (ds_Sections c)) \<and>
         distinct (map dc_SectionID (elems (ds_Sections c))) \<and> disjoint_sections (elems (ds_Sections c)) \<and>
         int (card (dc_CandidateLocalID ` set (elems (ds_Sections c)))) = ds_SelectedSourceCount c \<and>
         distinct (section_proposals (elems (ds_Sections c))) \<and>
         set (section_proposals (elems (ds_Sections c))) = po_ProposalLocalID ` set (elems (fo_Proposals out)))"
proof (cases "fo_DocumentSectionCoverage out")
  case None
  then show ?thesis by (simp add: validateDocumentSectionCoverage_def)
next
  case (Some c)
  let ?is = "elems (ds_Sections c)" and ?ps = "map po_ProposalLocalID (elems (fo_Proposals out))"
  let ?start = "\<lparr>cl_covered = [], cl_sections = [], cl_lastEnd = [], cl_candidates = []\<rparr>"
  let ?s = "fold (\<lambda>i s. after_section s i) ?is ?start"
  have cand: "int (length (cl_candidates ?s)) = ds_SelectedSourceCount c \<longleftrightarrow>
    int (card (dc_CandidateLocalID ` set ?is)) = ds_SelectedSourceCount c"
    using after_sections[of ?is ?start] by (simp add: distinct_card[symmetric])
  have cov: "length (cl_covered ?s) = length (section_proposals ?is)" using after_sections[of ?is ?start] by simp
  have loop: "fold_res (section_step c (remdups ?ps)) ?start ?is = Inr s' \<longleftrightarrow>
    s' = ?s \<and> list_all (section_wellformed c) ?is \<and> distinct (map dc_SectionID ?is) \<and> disjoint_sections ?is \<and>
    distinct (section_proposals ?is) \<and> set (section_proposals ?is) \<subseteq> set ?ps" for s'
    by (auto simp: sections_loop disjoint_sections_def get_def)
  have "validateDocumentSectionCoverage ctx out = Inr () \<longleftrightarrow> coverage_contract ctx out c \<and>
    (\<exists>s'. fold_res (section_step c (remdups ?ps)) ?start ?is = Inr s' \<and>
      int (length (cl_candidates s')) = ds_SelectedSourceCount c \<and> length (cl_covered s') = length (remdups ?ps))"
    unfolding validateDocumentSectionCoverage_def Some coverage_contract_def Let_def option.case
    by (simp only: if_Inl_eq_Inr and_then_Inr) auto
  also have "\<dots> \<longleftrightarrow> coverage_contract ctx out c \<and> list_all (section_wellformed c) ?is \<and> distinct (map dc_SectionID ?is) \<and>
    disjoint_sections ?is \<and> distinct (section_proposals ?is) \<and> set (section_proposals ?is) \<subseteq> set ?ps \<and>
    int (card (dc_CandidateLocalID ` set ?is)) = ds_SelectedSourceCount c \<and>
    length (section_proposals ?is) = length (remdups ?ps)"
    unfolding loop cand[symmetric] cov[symmetric] by auto
  finally show ?thesis using covers_all[of "section_proposals ?is" ?ps] Some by auto
qed

end
