(* ===== verification/SourceProperties.thy ===== *)
theory SourceProperties
  imports SourceGrounding SourceCoverage
begin

text \<open>
  The properties of source grounding: the catalog of a view is its list of nonempty lines, every
  reference of a materialised proposal quotes the bytes of the view, and a statement that passed the
  checks of quoted output stands in the raw source.
\<close>

section \<open>The catalog\<close>

text \<open>C15. The catalog of a view is the list of its nonempty lines: splitting the text at line feeds and dropping one carriage return from the end of each line gives exactly the display lines and quoted texts of the catalog, in order; the spans are named span:S1, span:S2 and so on; each is nonempty, passes the check of bounds, hash and text, and ends before the next one starts.\<close>

theorem catalog_is_lines:
  assumes "buildLineSpanCatalog view v = Inr spans"
  shows "map (\<lambda>s. (se_DisplayLine s, se_QuotedText s)) spans = nonempty_lines (ev_Rendered view) \<and>
    map se_SpanID spans = map (\<lambda>k. ''span:S'' @ nat_str k) [1..<length spans + 1] \<and>
    (\<forall>s\<in>set spans. validateSpanBounds view s = Inr () \<and> se_StartByte s < se_EndByte s) \<and>
    sorted_wrt (\<lambda>s t. se_EndByte s < se_StartByte t) spans"
proof -
  have s: "spans = line_spans view v 0 1 1" using assms by (simp add: buildLineSpanCatalog_def split: if_splits)
  have "map span_line spans = nonempty_lines (ev_Rendered view)"
    unfolding s using line_spans_lines[of 0 view v 1 1] lines_from_1 by simp
  moreover have "map se_SpanID spans = map (\<lambda>k. ''span:S'' @ nat_str k) [1..<1 + length spans]"
    "\<forall>s\<in>set spans. span_of view v s" "sorted_wrt (\<lambda>s t. se_EndByte s < se_StartByte t) spans"
    unfolding s using line_spans_numbered[of 0 view v 1 1] by auto
  moreover have "validateSpanBounds view s = Inr () \<and> se_StartByte s < se_EndByte s" if "span_of view v s" for s
    using that validate_span_of[OF that] by (auto simp: span_of_def line_span_def Let_def)
  moreover have "map span_line spans = map (\<lambda>s. (se_DisplayLine s, se_QuotedText s)) spans"
    by (simp add: span_line_def)
  ultimately show ?thesis by simp
qed

section \<open>Grounding\<close>

text \<open>C6. A materialised batch has one occurrence for each proposal, in order and with distinct local names, and each occurrence has at least one source reference; every reference names the view, lies inside its bytes, and carries the exact bytes of its range and their hash.  In a view of less than 10^10 bytes the references of an occurrence are in the order of their positions.\<close>

theorem occurrences_grounded:
  assumes "materializeBatch letter parse ctx out = Inr b"
    and "view = sx_ExtractionView ctx" and "length (ev_Rendered view) < 10 ^ 10"
  shows "map oc_ProposalLocalID (mb_Occurrences b) = map po_ProposalLocalID (elems (fo_Proposals out)) \<and>
    distinct (map oc_ProposalLocalID (mb_Occurrences b)) \<and>
    (\<forall>oc\<in>set (mb_Occurrences b). oc_SourceRefs oc \<noteq> [] \<and> sorted (map sr_StartByte (oc_SourceRefs oc)) \<and>
      (\<forall>r\<in>set (oc_SourceRefs oc). sr_ExtractionViewID r = ev_ID view \<and>
        0 \<le> sr_StartByte r \<and> sr_StartByte r \<le> sr_EndByte r \<and> sr_EndByte r \<le> int (length (ev_Rendered view)) \<and>
        sr_QuotedText r = slice_of (ev_Rendered view) (nat (sr_StartByte r)) (nat (sr_EndByte r)) \<and>
        sr_QuotedTextHash r = contentHash (sr_QuotedText r)))"
proof -
  obtain m where m: "fold_res (span_by_id view) [] (sx_Spans ctx) = Inr m"
    and acc: "list_all2 (acceptable letter parse ctx m) (elems (fo_Proposals out)) (mb_Occurrences b)"
    and d: "distinct (map po_ProposalLocalID (elems (fo_Proposals out)))"
    using materialized[OF assms(1)] assms(2) by metis
  have ids: "map oc_ProposalLocalID (mb_Occurrences b) = map po_ProposalLocalID (elems (fo_Proposals out))"
    by (rule list_all2_map_eq[where P = "\<lambda>p o'. True", simplified]) (use acc acceptable_id in \<open>auto elim: list_all2_mono\<close>)
  have refs: "oc_SourceRefs oc \<noteq> [] \<and> sorted (map ref_key (oc_SourceRefs oc)) \<and>
      (\<forall>r\<in>set (oc_SourceRefs oc). \<exists>s. span_valid view s \<and> r = source_ref s)" if "oc \<in> set (mb_Occurrences b)" for oc
    using list_all2_in2[OF acc that] acceptable_refs[OF _ m] by blast
  have valid: "sr_ExtractionViewID r = ev_ID view \<and> 0 \<le> sr_StartByte r \<and> sr_StartByte r \<le> sr_EndByte r \<and>
      sr_EndByte r \<le> int (length (ev_Rendered view)) \<and>
      sr_QuotedText r = slice_of (ev_Rendered view) (nat (sr_StartByte r)) (nat (sr_EndByte r)) \<and>
      sr_QuotedTextHash r = contentHash (sr_QuotedText r)"
    if "oc \<in> set (mb_Occurrences b)" "r \<in> set (oc_SourceRefs oc)" for oc r
    using refs[OF that(1)] that(2) by (auto simp: span_valid_def source_ref_def)
  have "sorted (map sr_StartByte (oc_SourceRefs oc))" if oc: "oc \<in> set (mb_Occurrences b)" for oc
  proof -
    have "sorted_wrt (\<lambda>r q. ref_key r \<le> ref_key q) (oc_SourceRefs oc)" using refs[OF oc] by (simp add: sorted_map)
    then have "sorted_wrt (\<lambda>r q. sr_StartByte r \<le> sr_StartByte q) (oc_SourceRefs oc)"
    proof (rule sorted_wrt_mono_rel[rotated])
      fix r q assume rq: "r \<in> set (oc_SourceRefs oc)" "q \<in> set (oc_SourceRefs oc)" "ref_key r \<le> ref_key q"
      have "int (length (ev_Rendered view)) < 10 ^ 10" using assms(3) by simp
      moreover have "sr_StartByte r \<le> int (length (ev_Rendered view))" "sr_StartByte q \<le> int (length (ev_Rendered view))"
        using valid[OF oc rq(1)] valid[OF oc rq(2)] by auto
      ultimately have "sr_StartByte r < 10 ^ 10" "sr_StartByte q < 10 ^ 10" by linarith+
      then show "sr_StartByte r \<le> sr_StartByte q"
        using ref_key_order[OF rq(3)] valid[OF oc rq(1)] valid[OF oc rq(2)] by simp
    qed
    then show ?thesis by (simp add: sorted_map)
  qed
  then show ?thesis using ids d refs valid by auto
qed

lemma input_span:
  "k \<in> set (ei_Spans (extractorInput ctx)) \<longleftrightarrow> (\<exists>s\<in>set (sx_Spans ctx). k = \<lparr>is_SpanID = se_SpanID s, is_Text = se_QuotedText s,
     is_StartByte = se_StartByte s, is_EndByte = se_EndByte s, is_DisplayLine = se_DisplayLine s,
     is_QuotedTextHash = se_QuotedTextHash s\<rparr>)"
  by (auto simp: extractorInput_def)

text \<open>A substring of a span is at some offset of the source.\<close>

lemma span_substring:
  assumes "span_valid view s" and "contains (se_QuotedText s) t"
  shows "\<exists>k. se_StartByte s \<le> int k \<and> int (k + length t) \<le> se_EndByte s \<and> slice_of (ev_Rendered view) k (k + length t) = t"
proof -
  obtain a c where q: "se_QuotedText s = a @ t @ c" using assms(2) by (auto simp: contains_iff)
  let ?i = "nat (se_StartByte s)" and ?j = "nat (se_EndByte s)"
  have ij: "?i \<le> ?j" "?j \<le> length (ev_Rendered view)" "slice_of (ev_Rendered view) ?i ?j = a @ t @ c"
    "int ?i = se_StartByte s" "int ?j = se_EndByte s" using assms(1) q by (auto simp: span_valid_def)
  then have len: "?j - ?i = length a + length t + length c" by (metis (no_types, lifting) add.assoc length_append length_take
    length_drop slice_of_def min.absorb2 diff_le_mono)
  have "take (length a + length t) (drop ?i (ev_Rendered view)) = a @ t"
  proof -
    have "take (length a + length t) (take (?j - ?i) (drop ?i (ev_Rendered view))) = a @ t"
      using ij(3) by (simp add: slice_of_def)
    then show ?thesis using len by (simp add: min_def)
  qed
  then have "slice_of (ev_Rendered view) (?i + length a) (?i + length a + length t) = t"
    by (simp add: slice_of_def drop_take[symmetric] add.commute drop_drop[symmetric] del: drop_drop)
      (metis add_diff_cancel_left' append_eq_conv_conj drop_drop drop_take)
  moreover have "se_StartByte s \<le> int (?i + length a)" "int (?i + length a + length t) \<le> se_EndByte s"
    using ij len by linarith+
  ultimately show ?thesis by blast
qed

text \<open>C2. A statement that an exact-quote extractor returned and that was materialised stands verbatim in the raw source that was submitted: some source reference of its occurrence encloses a position of the raw bytes at which the statement is found, and it contains no line feed.  The output of the extractor is arbitrary: nothing is assumed of the decoder or of the model behind it.\<close>

theorem quotes_are_in_source:
  assumes "buildAttemptContext input = Inr ctx"
    and "DecodeBoundedExactQuoteExtractorOutput decode data (extractorInput ctx) n = Inr out"
    and "materializeBatch letter parse ctx out = Inr b" and "oc \<in> set (mb_Occurrences b)"
  shows "oc_StatementText oc \<noteq> [] \<and> newline_byte \<notin> set (oc_StatementText oc) \<and>
    (\<exists>r\<in>set (oc_SourceRefs oc). \<exists>k. sr_StartByte r \<le> int k \<and> int (k + length (oc_StatementText oc)) \<le> sr_EndByte r \<and>
      slice_of (mt_Raw input) k (k + length (oc_StatementText oc)) = oc_StatementText oc)"
proof -
  have built: "source_built ctx" "sx_Raw ctx = mt_Raw input" using buildAttemptContext_built[OF assms(1)] by simp_all
  then have raw: "ev_Rendered (sx_ExtractionView ctx) = mt_Raw input" by (simp add: source_built_def Let_def)
  obtain m where m: "fold_res (span_by_id (sx_ExtractionView ctx)) [] (sx_Spans ctx) = Inr m"
    and acc: "list_all2 (acceptable letter parse ctx m) (elems (fo_Proposals out)) (mb_Occurrences b)"
    using materialized[OF assms(3)] by metis
  obtain p where p: "p \<in> set (elems (fo_Proposals out))" "acceptable letter parse ctx m p oc"
    using list_all2_in2[OF acc assms(4)] by blast
  then have st: "oc_StatementText oc = po_StatementText p" by (auto simp: acceptable_def)
  have quoted: "quoted_by (extractorInput ctx) p" "po_StatementText p \<noteq> []" using decoded_quotes[OF assms(2)] p(1) by blast+
  then obtain s where s: "s \<in> set (sx_Spans ctx)" "se_SpanID s \<in> set (elems (po_EvidenceRefs p))"
    "contains (se_QuotedText s) (po_StatementText p)" by (auto simp: quoted_by_def input_span)
  note bs = built_spans[OF built(1)]
  have sv: "span_valid (sx_ExtractionView ctx) s" using bs s(1) by blast
  have "(se_DisplayLine s, se_QuotedText s) \<in> set (nonempty_lines (sx_Raw ctx))"
    using bs s(1) by (metis imageI list.set_map span_line_def)
  then have "newline_byte \<notin> set (se_QuotedText s)" using nonempty_lines_plain by blast
  then have plain: "newline_byte \<notin> set (po_StatementText p)" using s(3) by (auto simp: contains_iff)
  note refs = acceptable_refs[OF p(2) m]
  obtain r where r: "r \<in> set (oc_SourceRefs oc)" "sr_SpanID r = se_SpanID s"
    using refs s(2) by (metis (no_types, lifting) imageE)
  then obtain s' where "s' \<in> set (sx_Spans ctx)" "r = source_ref s'" using refs by blast
  moreover from this have "s' = s" using keyed[of se_SpanID "sx_Spans ctx"] bs s(1) r(2) by (simp add: source_ref_def)
  ultimately have "sr_StartByte r = se_StartByte s" "sr_EndByte r = se_EndByte s" by (simp_all add: source_ref_def)
  then show ?thesis using span_substring[OF sv s(3)] r(1) plain quoted(2) unfolding st raw by metis
qed

lemma quoted_acceptable:
  assumes "source_built ctx" and "quoted_by (extractorInput ctx) p" and "po_CodeFact p = None" "po_CodeRelation p = None"
    and "po_StatementText p \<noteq> []" "po_ProposalLocalID p \<noteq> []" and "\<forall>s\<in>set (sx_Spans ctx). map_of m (se_SpanID s) = Some s"
  shows "\<exists>o'. acceptable letter parse ctx m p o'"
proof -
  have known: "\<forall>k\<in>set (elems (po_EvidenceRefs p)). map_of m k \<noteq> None"
    using assms(2,7) by (fastforce simp: quoted_by_def input_span)
  have "list_all2 (\<lambda>k s. map_of m k = Some s) (elems (po_EvidenceRefs p)) (map (\<lambda>k. the (map_of m k)) (elems (po_EvidenceRefs p)))"
    using known by (auto simp: list_all2_conv_all_nth)
  moreover have "elems (po_EvidenceRefs p) \<noteq> []" using assms(2) by (auto simp: quoted_by_def)
  moreover have "verified_fact letter parse ctx p refs = Inr None" for refs
    using assms(3) by (simp add: verified_fact_def resolveCodeFact_def)
  ultimately show ?thesis using assms(4-6) unfolding acceptable_def by blast
qed

text \<open>C21. Whether an exact-quote output is materialised depends on its local names only: on a context built from its source, the batch succeeds exactly when the local names are nonempty and distinct; a quoted output never fails for its spans, texts or hashes.\<close>

theorem exact_quotes_materialize:
  assumes "buildAttemptContext input = Inr ctx"
    and "DecodeBoundedExactQuoteExtractorOutput decode data (extractorInput ctx) n = Inr out"
  shows "(\<exists>b. materializeBatch letter parse ctx out = Inr b) \<longleftrightarrow>
    distinct (map po_ProposalLocalID (elems (fo_Proposals out))) \<and> [] \<notin> po_ProposalLocalID ` set (elems (fo_Proposals out))"
proof
  assume "\<exists>b. materializeBatch letter parse ctx out = Inr b"
  then obtain b where b: "materializeBatch letter parse ctx out = Inr b" ..
  obtain m where "list_all2 (acceptable letter parse ctx m) (elems (fo_Proposals out)) (mb_Occurrences b)"
    "distinct (map po_ProposalLocalID (elems (fo_Proposals out)))" using materialized[OF b] by metis
  moreover from this(1) have "\<forall>p\<in>set (elems (fo_Proposals out)). po_ProposalLocalID p \<noteq> []"
    by (metis (no_types, lifting) acceptable_def in_set_conv_nth list_all2_conv_all_nth)
  ultimately show "distinct (map po_ProposalLocalID (elems (fo_Proposals out))) \<and>
    [] \<notin> po_ProposalLocalID ` set (elems (fo_Proposals out))" by auto
next
  assume ids: "distinct (map po_ProposalLocalID (elems (fo_Proposals out))) \<and>
    [] \<notin> po_ProposalLocalID ` set (elems (fo_Proposals out))"
  have built: "source_built ctx" using buildAttemptContext_built[OF assms(1)] by simp
  obtain m where m: "fold_res (span_by_id (sx_ExtractionView ctx)) [] (sx_Spans ctx) = Inr m"
    "\<forall>s\<in>set (sx_Spans ctx). map_of m (se_SpanID s) = Some s" using built_by_id[OF built] .
  note dec = decoded_quotes[OF assms(2)]
  have "\<exists>o'. acceptable letter parse ctx m p o'" if "p \<in> set (elems (fo_Proposals out))" for p
  proof (rule quoted_acceptable[OF built _ _ _ _ _ m(2)])
    show "po_ProposalLocalID p \<noteq> []" using ids that by (metis imageI)
  qed (use dec that in auto)
  then obtain os where "list_all2 (acceptable letter parse ctx m) (elems (fo_Proposals out)) os"
    using list_all2_choose by metis
  then show "\<exists>b. materializeBatch letter parse ctx out = Inr b" using materializes[OF _ _ m(1)] dec ids by blast
qed

text \<open>C16. An accepted selection is always materialised: on a context built from its source the batch succeeds, each statement is the whole text of the one span it refers to, and no two proposals select the same span.\<close>

theorem selection_materializes:
  assumes "buildAttemptContext input = Inr ctx"
    and "DecodeWholeSpanExactQuoteSelectionOutput decode data (extractorInput ctx) n = Inr out"
  shows "\<exists>b. materializeBatch letter parse ctx out = Inr b \<and>
    (\<forall>oc\<in>set (mb_Occurrences b). \<exists>r. oc_SourceRefs oc = [r] \<and> oc_StatementText oc = sr_QuotedText r) \<and>
    distinct (map (\<lambda>oc. sr_SpanID (hd (oc_SourceRefs oc))) (mb_Occurrences b))"
proof -
  have built: "source_built ctx" using buildAttemptContext_built[OF assms(1)] by simp
  obtain m where m: "fold_res (span_by_id (sx_ExtractionView ctx)) [] (sx_Spans ctx) = Inr m"
    "\<forall>s\<in>set (sx_Spans ctx). map_of m (se_SpanID s) = Some s" using built_by_id[OF built] .
  note sel = decoded_selection[OF assms(2)]
  then have "DecodeBoundedExactQuoteExtractorOutput decode data (extractorInput ctx) n = Inr out" by simp
  note dec = decoded_quotes[OF this]
  let ?ps = "elems (fo_Proposals out)"
  have one: "\<exists>o'. acceptable letter parse ctx m p o' \<and> (\<exists>r. oc_SourceRefs o' = [r] \<and>
    oc_StatementText o' = sr_QuotedText r \<and> sr_SpanID r = hd (elems (po_EvidenceRefs p)))" if p: "p \<in> set ?ps" for p
  proof -
    obtain o' where o': "acceptable letter parse ctx m p o'"
      using quoted_acceptable[OF built _ _ _ _ _ m(2)] dec sel p by blast
    obtain s where s: "s \<in> set (sx_Spans ctx)" "elems (po_EvidenceRefs p) = [se_SpanID s]" "po_StatementText p = se_QuotedText s"
      using sel p by (force simp: whole_span_def input_span)
    have "oc_SourceRefs o' = [source_ref s]" "oc_StatementText o' = po_StatementText p"
      using o' m(2) s(1,2) by (auto simp: acceptable_def list_all2_Cons1 sortSourceRefs_def)
    then show ?thesis using o' s by (auto simp: source_ref_def)
  qed
  let ?P = "\<lambda>p o'. acceptable letter parse ctx m p o' \<and> (\<exists>r. oc_SourceRefs o' = [r] \<and>
    oc_StatementText o' = sr_QuotedText r \<and> sr_SpanID r = hd (elems (po_EvidenceRefs p)))"
  have "\<exists>os. list_all2 ?P ?ps os" by (rule list_all2_choose) (rule one)
  then obtain os where os: "list_all2 ?P ?ps os" ..
  then have "list_all2 (acceptable letter parse ctx m) ?ps os" by (auto elim: list_all2_mono)
  then obtain b where b: "materializeBatch letter parse ctx out = Inr b" "mb_Occurrences b = os"
    using materializes[OF _ _ m(1)] dec sel by blast
  have "map (\<lambda>oc. sr_SpanID (hd (oc_SourceRefs oc))) os = map (\<lambda>p. hd (elems (po_EvidenceRefs p))) ?ps"
    by (rule list_all2_map_eq[where P = "\<lambda>p o'. True", simplified]) (use os in \<open>auto elim: list_all2_mono\<close>)
  moreover have "\<exists>r. oc_SourceRefs oc = [r] \<and> oc_StatementText oc = sr_QuotedText r" if "oc \<in> set os" for oc
    using list_all2_in2[OF os that] by blast
  ultimately show ?thesis using b sel by auto
qed

section \<open>Witnesses\<close>

text \<open>A source of three lines, the middle one empty, and an output that selects the first.\<close>

definition sample_input :: ManualTextInput where
  "sample_input = \<lparr>mt_ManualReviewProfile = None, mt_SourceSystem = ''manual_text'', mt_SourceID = ''note'', mt_SourceVersion = ''v1'',
    mt_Raw = ''ab'' @ [return_byte, newline_byte, newline_byte] @ ''c'', mt_OriginMetadata = [], mt_RequestID = ''r1'', mt_AttemptNumber = 0\<rparr>"

lemma raw_ascii: "utf8_valid (''ab'' @ [return_byte, newline_byte, newline_byte] @ ''c'')"
  by (rule utf8_valid_ascii) simp

lemma raw_lines: "nonempty_lines (''ab'' @ [return_byte, newline_byte, newline_byte] @ ''c'') = [(1, ''ab''), (3, ''c'')]"
proof -
  have "[1..3] = [1, 2, 3 :: int]" by code_simp
  then show ?thesis by (simp add: nonempty_lines_def drop_cr_def Let_def)
qed

lemma sample_context: "\<exists>ctx. buildAttemptContext sample_input = Inr ctx"
proof -
  obtain d where "buildExtractorDefinition \<lparr>di_Name = [], di_Version = [], di_Config = []\<rparr> = Inr d"
    using default_definition by blast
  then show ?thesis
    by (simp add: buildAttemptContext_def buildAttemptContextFromSource_def buildAttemptContextFromSourceWithDefinition_def
      buildAttemptContextFromSourceWithDefinitionAndSession_def buildManualSourceContext_def buildManualSource_def
      renderingContract_def buildLineSpanCatalog_def buildManualReviewProfile_def sourceIntakePayloadHash_def
      sample_input_def raw_ascii[simplified] Let_def)
qed

text \<open>The two lines of the sample, as the extractor sees them.\<close>

lemma sample_spans:
  assumes "buildAttemptContext sample_input = Inr ctx"
  shows "map (\<lambda>s. (is_SpanID s, is_Text s)) (ei_Spans (extractorInput ctx)) =
    [(''span:S'' @ nat_str 1, ''ab''), (''span:S'' @ nat_str 2, ''c'')]"
proof -
  note b = buildAttemptContext_built[OF assms]
  then have s: "sx_Spans ctx = line_spans (sx_ExtractionView ctx) (sx_SpanCatalogVersion ctx) 0 1 1"
    by (simp add: source_built_def Let_def)
  have l: "map span_line (sx_Spans ctx) = [(1, ''ab''), (3, ''c'')]"
    using built_spans[of ctx] b raw_lines by (simp add: sample_input_def)
  then have n: "length (sx_Spans ctx) = 2" by (metis length_map length_Cons list.size(3) numeral_2_eq_2)
  have ids: "map se_SpanID (sx_Spans ctx) = map (\<lambda>k. ''span:S'' @ nat_str k) [1..<1 + length (sx_Spans ctx)]"
    unfolding s using line_spans_numbered[of 0 "sx_ExtractionView ctx" "sx_SpanCatalogVersion ctx" 1 1] by simp
  obtain x y where xy: "sx_Spans ctx = [x, y]" using n by (auto simp: numeral_2_eq_2 length_Suc_conv)
  show ?thesis using l ids unfolding xy by (simp add: extractorInput_def xy span_line_def upt_rec numeral_2_eq_2)
qed

definition sample_output :: FrozenExtractorOutput where
  "sample_output = \<lparr>fo_Proposals = Some [\<lparr>po_ProposalLocalID = ''p1'', po_StatementText = ''ab'',
     po_EvidenceRefs = Some [''span:S'' @ nat_str 1], po_CodeFact = None, po_CodeRelation = None\<rparr>],
   fo_RepositoryGoplsCoverage = None, fo_DocumentSectionCoverage = None\<rparr>"

lemma sample_selected:
  assumes "buildAttemptContext sample_input = Inr ctx"
  shows "DecodeWholeSpanExactQuoteSelectionOutput (\<lambda>_. Inr sample_output) data (extractorInput ctx) 1 = Inr sample_output"
proof -
  obtain x y where xy: "ei_Spans (extractorInput ctx) = [x, y]" "is_SpanID x = ''span:S'' @ nat_str 1" "is_Text x = ''ab''"
    "is_SpanID y = ''span:S'' @ nat_str 2" "is_Text y = ''c''" using sample_spans[OF assms] by (auto simp: map_eq_Cons_conv)
  have "nat_str 2 \<noteq> nat_str 1" by (metis digits_val_nat_str numeral_eq_one_iff semiring_norm(85))
  moreover have "trim_space ''ab'' = ''ab''" "trim_space ''c'' = ''c''" "trim_space ''p1'' = ''p1''"
    by (simp_all add: trim_space_solid solid_def)
  ultimately show ?thesis
    by (simp add: DecodeWholeSpanExactQuoteSelectionOutput_def DecodeBoundedExactQuoteExtractorOutput_def
      wholeSpanExactQuoteUnits_def span_texts_def quote_ok_def quote_ref_def select_unit_def xy sample_output_def
      map_of_update text_at_def has_prefix_def Let_def)
qed

theorem catalog_is_lines_witness:
  "\<exists>spans. buildLineSpanCatalog \<lparr>ev_ID = ''v'', ev_SourceSnapshotID = [], ev_RendererName = [], ev_RendererVersion = [],
      ev_Rendered = ''ab'' @ [return_byte, newline_byte, newline_byte] @ ''c'', ev_RenderedContentHash = []\<rparr> ''c1'' = Inr spans \<and>
    map (\<lambda>s. (se_DisplayLine s, se_QuotedText s)) spans = [(1, ''ab''), (3, ''c'')]"
  (is "\<exists>spans. buildLineSpanCatalog ?v ''c1'' = _ \<and> _")
proof -
  obtain spans where s: "buildLineSpanCatalog ?v ''c1'' = Inr spans"
    using raw_ascii by (simp add: buildLineSpanCatalog_def)
  with catalog_is_lines[OF s] raw_lines show ?thesis by simp
qed

theorem selection_materializes_witness:
  "\<exists>ctx b. buildAttemptContext sample_input = Inr ctx \<and>
    materializeBatch (\<lambda>_. True) (\<lambda>_ _. None) ctx sample_output = Inr b \<and> length (mb_Occurrences b) = 1"
proof -
  obtain ctx where ctx: "buildAttemptContext sample_input = Inr ctx" using sample_context by blast
  obtain b where b: "materializeBatch (\<lambda>_. True) (\<lambda>_ _. None) ctx sample_output = Inr b"
    using selection_materializes[OF ctx sample_selected[OF ctx]] by blast
  obtain m where "list_all2 (acceptable (\<lambda>_. True) (\<lambda>_ _. None) ctx m) (elems (fo_Proposals sample_output)) (mb_Occurrences b)"
    using materialized[OF b] by metis
  then have "length (mb_Occurrences b) = 1" by (auto simp: sample_output_def dest: list_all2_lengthD)
  with ctx b show ?thesis by blast
qed

lemma sample_quoted:
  assumes "buildAttemptContext sample_input = Inr ctx"
  shows "DecodeBoundedExactQuoteExtractorOutput (\<lambda>_. Inr sample_output) [] (extractorInput ctx) 1 = Inr sample_output"
  using decoded_selection[OF sample_selected[OF assms]] by simp

theorem exact_quotes_materialize_witness:
  "\<exists>ctx b. buildAttemptContext sample_input = Inr ctx \<and>
    materializeBatch (\<lambda>_. True) (\<lambda>_ _. None) ctx sample_output = Inr b"
proof -
  obtain ctx where ctx: "buildAttemptContext sample_input = Inr ctx" using sample_context by blast
  have "(\<exists>b. materializeBatch (\<lambda>_. True) (\<lambda>_ _. None) ctx sample_output = Inr b)"
    unfolding exact_quotes_materialize[OF ctx sample_quoted[OF ctx]] by (simp add: sample_output_def)
  with ctx show ?thesis by blast
qed

lemma sample_batch:
  obtains ctx b oc where "buildAttemptContext sample_input = Inr ctx"
    "materializeBatch (\<lambda>_. True) (\<lambda>_ _. None) ctx sample_output = Inr b" "oc \<in> set (mb_Occurrences b)"
    "oc_StatementText oc = ''ab''"
proof -
  obtain ctx where ctx: "buildAttemptContext sample_input = Inr ctx" using sample_context by blast
  have built: "source_built ctx" using buildAttemptContext_built[OF ctx] by simp
  obtain m where m: "fold_res (span_by_id (sx_ExtractionView ctx)) [] (sx_Spans ctx) = Inr m"
    "\<forall>s\<in>set (sx_Spans ctx). map_of m (se_SpanID s) = Some s" using built_by_id[OF built] .
  note dec = decoded_quotes[OF sample_quoted[OF ctx]]
  obtain p where p: "elems (fo_Proposals sample_output) = [p]" "po_ProposalLocalID p = ''p1''" "po_StatementText p = ''ab''"
    by (simp add: sample_output_def)
  then obtain o' where o': "acceptable (\<lambda>_. True) (\<lambda>_ _. None) ctx m p o'"
    using quoted_acceptable[OF built _ _ _ _ _ m(2), of p] dec by auto
  then obtain b where b: "materializeBatch (\<lambda>_. True) (\<lambda>_ _. None) ctx sample_output = Inr b" "mb_Occurrences b = [o']"
    using materializes[OF _ _ m(1), of sample_output "\<lambda>_. True" "\<lambda>_ _. None" "[o']"] p dec by auto
  moreover have "oc_StatementText o' = ''ab''" using o' p(3) by (auto simp: acceptable_def)
  ultimately show thesis using that[OF ctx b(1)] by simp
qed

theorem quotes_are_in_source_witness:
  "\<exists>k. slice_of (''ab'' @ [return_byte, newline_byte, newline_byte] @ ''c'') k (k + 2) = ''ab''"
proof -
  obtain ctx b oc where ctx: "buildAttemptContext sample_input = Inr ctx"
    and b: "materializeBatch (\<lambda>_. True) (\<lambda>_ _. None) ctx sample_output = Inr b" "oc \<in> set (mb_Occurrences b)"
    and st: "oc_StatementText oc = ''ab''" by (rule sample_batch)
  have raw: "mt_Raw sample_input = ''ab'' @ [return_byte, newline_byte, newline_byte] @ ''c''" by (simp add: sample_input_def)
  from quotes_are_in_source[OF ctx sample_quoted[OF ctx] b] show ?thesis
    unfolding st raw by (auto simp: numeral_2_eq_2)
qed

theorem occurrences_grounded_witness:
  "\<exists>ctx b r. buildAttemptContext sample_input = Inr ctx \<and>
    materializeBatch (\<lambda>_. True) (\<lambda>_ _. None) ctx sample_output = Inr b \<and>
    (\<exists>oc. oc \<in> set (mb_Occurrences b) \<and> r \<in> set (oc_SourceRefs oc)) \<and>
    sr_QuotedText r = slice_of (mt_Raw sample_input) (nat (sr_StartByte r)) (nat (sr_EndByte r))"
proof -
  obtain ctx b oc where ctx: "buildAttemptContext sample_input = Inr ctx"
    and b: "materializeBatch (\<lambda>_. True) (\<lambda>_ _. None) ctx sample_output = Inr b" "oc \<in> set (mb_Occurrences b)"
    by (rule sample_batch)
  have raw: "ev_Rendered (sx_ExtractionView ctx) = mt_Raw sample_input"
    using buildAttemptContext_built[OF ctx] by (simp add: source_built_def Let_def)
  then have "length (ev_Rendered (sx_ExtractionView ctx)) < 10 ^ 10" by (simp add: sample_input_def)
  note g = occurrences_grounded[OF b(1) refl this]
  then have "oc_SourceRefs oc \<noteq> []" using b(2) by blast
  then obtain r where "r \<in> set (oc_SourceRefs oc)" using last_in_set by blast
  moreover from this have "sr_QuotedText r = slice_of (mt_Raw sample_input) (nat (sr_StartByte r)) (nat (sr_EndByte r))"
    using g b(2) unfolding raw by blast
  ultimately show ?thesis using ctx b by blast
qed

end
