(* ===== verification/GoParserLines.thy ===== *)
theory GoParserLines
  imports SourceGrounding
begin

text \<open>
  Lines of a Go file: the table of lines that the extractor computes for a source without spans is the
  one it derives from the spans of the catalog, and every piece of text without a line break lies inside
  the span of its line.
\<close>

section \<open>The two tables of lines\<close>

definition line_entry :: "SpanEntry \<Rightarrow> int \<times> goParserLineSpan" where
  "line_entry s = (se_DisplayLine s, \<lparr>gl_SpanID = se_SpanID s, gl_DisplayLine = se_DisplayLine s\<rparr>)"

lemma manual_lines_loop:
  "ev_Rendered view = source \<Longrightarrow>
    goParserManualLineSpans_loop source i d n = map line_entry (line_spans view v i d n)"
proof (induction source i d n rule: goParserManualLineSpans_loop.induct)
  case (1 source i d n)
  show ?case
  proof (cases "length source < i")
    case True
    then show ?thesis using "1.prems"
      by (subst goParserManualLineSpans_loop.simps, subst line_spans.simps) simp
  next
    case False
    let ?c = "content_end source i"
    define l where "l = (if i < ?c then [(int d, \<lparr>gl_SpanID = ''span:S'' @ nat_str n, gl_DisplayLine = int d\<rparr>)] else [])"
    define s where "s = (if i < ?c then [line_span view v i ?c d n] else [])"
    have ls: "l = map line_entry s" "length s = length l" by (simp_all add: l_def s_def line_entry_def line_span_def Let_def)
    have L: "goParserManualLineSpans_loop source i d n = (if index_byte newline_byte (drop i source) = None then l
      else l @ goParserManualLineSpans_loop source (line_end source i + 1) (d + 1) (n + length l))"
      using False by (subst goParserManualLineSpans_loop.simps) (simp add: l_def Let_def)
    have S: "line_spans view v i d n = (if index_byte newline_byte (drop i source) = None then s
      else s @ line_spans view v (line_end source i + 1) (d + 1) (n + length s))"
      using False "1.prems" by (subst line_spans.simps) (simp add: s_def Let_def)
    have IH: "goParserManualLineSpans_loop source (line_end source i + 1) (d + 1) (n + length l) =
      map line_entry (line_spans view v (line_end source i + 1) (d + 1) (n + length l))"
      if "index_byte newline_byte (drop i source) \<noteq> None"
      unfolding l_def by (rule "1.IH"[OF _ refl refl refl]) (use False that "1.prems" in simp_all)
    show ?thesis
    proof (cases "index_byte newline_byte (drop i source) = None")
      case True
      then show ?thesis unfolding L S using ls by simp
    next
      case nl: False
      show ?thesis unfolding L S IH[OF nl] if_not_P[OF nl] using ls by simp
    qed
  qed
qed

text \<open>The display lines of a catalog increase.\<close>

lemma lines_from_bounds: "(k, l) \<in> set (lines_from d ls) \<Longrightarrow> int d \<le> k"
  by (auto simp: lines_from_def dest: set_zip_leftD)

lemma lines_from_distinct: "distinct (map fst (lines_from d ls))"
proof (induction ls arbitrary: d)
  case (Cons l ls)
  have "int d \<notin> fst ` set (lines_from (d + 1) ls)" using lines_from_bounds[of _ _ "d + 1" ls] by fastforce
  then show ?case using Cons.IH by (simp add: lines_from_Cons)
qed simp

lemma catalog_lines:
  assumes "source_built ctx"
  shows "distinct (map se_DisplayLine (sx_Spans ctx)) \<and> (\<forall>s\<in>set (sx_Spans ctx). 0 < se_DisplayLine s \<and> se_SpanID s \<noteq> [])"
proof -
  have l: "map span_line (sx_Spans ctx) = lines_from 1 (split_lines [] (sx_Raw ctx))"
    using built_spans[OF assms] lines_from_1 by simp
  have "map se_DisplayLine (sx_Spans ctx) = map fst (map span_line (sx_Spans ctx))" by (simp add: span_line_def)
  then have "distinct (map se_DisplayLine (sx_Spans ctx))" unfolding l by (simp only: lines_from_distinct)
  moreover have "0 < se_DisplayLine s" if "s \<in> set (sx_Spans ctx)" for s
  proof -
    have "span_line s \<in> set (lines_from 1 (split_lines [] (sx_Raw ctx)))" using that l by (metis imageI list.set_map)
    then show ?thesis using lines_from_bounds by (fastforce simp: span_line_def)
  qed
  moreover have "\<forall>s\<in>set (sx_Spans ctx). se_SpanID s \<noteq> []"
    using built_spans[OF assms] by (auto simp: span_of_def line_span_def Let_def)
  ultimately show ?thesis by simp
qed

lemma line_spans_collect:
  assumes "distinct (map se_DisplayLine spans)" "\<forall>s\<in>set spans. 0 < se_DisplayLine s \<and> se_SpanID s \<noteq> []"
    and "fst ` set m \<inter> se_DisplayLine ` set spans = {}"
  shows "fold (\<lambda>span m. if is_DisplayLine span \<le> 0 \<or> is_SpanID span = [] then m
           else AList.update (is_DisplayLine span)
             \<lparr>gl_SpanID = is_SpanID span, gl_DisplayLine = is_DisplayLine span\<rparr> m)
      (map (\<lambda>s. \<lparr>is_SpanID = se_SpanID s, is_Text = se_QuotedText s, is_StartByte = se_StartByte s,
        is_EndByte = se_EndByte s, is_DisplayLine = se_DisplayLine s, is_QuotedTextHash = se_QuotedTextHash s\<rparr>) spans) m =
    m @ map line_entry spans"
  using assms
proof (induction spans arbitrary: m)
  case (Cons s spans)
  have "se_DisplayLine s \<notin> fst ` set m" using Cons.prems(3) by auto
  note u = update_fresh[OF this]
  have "fst ` set (m @ [line_entry s]) \<inter> se_DisplayLine ` set spans = {}"
    using Cons.prems(1,3) by (auto simp: line_entry_def)
  from Cons.IH[OF _ _ this] Cons.prems(1,2) show ?case by (simp add: u line_entry_def not_le)
qed simp

lemma built_lines:
  assumes "source_built ctx"
  shows "goParserLineSpans (sx_Raw ctx) (ei_Spans (extractorInput ctx)) = map line_entry (sx_Spans ctx) \<and>
    goParserLineSpans (sx_Raw ctx) [] = map line_entry (sx_Spans ctx)"
proof -
  have s: "sx_Spans ctx = line_spans (sx_ExtractionView ctx) (sx_SpanCatalogVersion ctx) 0 1 1"
    and raw: "ev_Rendered (sx_ExtractionView ctx) = sx_Raw ctx" using assms by (simp_all add: source_built_def Let_def)
  have manual: "goParserManualLineSpans (sx_Raw ctx) = map line_entry (sx_Spans ctx)"
    unfolding s goParserManualLineSpans_def by (rule manual_lines_loop[OF raw])
  have "goParserLineSpans (sx_Raw ctx) (ei_Spans (extractorInput ctx)) = map line_entry (sx_Spans ctx)"
    unfolding goParserLineSpans_def extractorInput_def
    using line_spans_collect[of "sx_Spans ctx" "[]"] catalog_lines[OF assms] manual by (simp add: Let_def)
  moreover have "goParserLineSpans (sx_Raw ctx) [] = map line_entry (sx_Spans ctx)"
    using manual by (simp add: goParserLineSpans_def)
  ultimately show ?thesis by simp
qed

section \<open>Identifiers and their lines\<close>

text \<open>
  What the parser promises of an identifier of a file without line directives: its positions are those of
  its offsets, and its text has no line break.  A name is nonempty and has no surrounding white space.
\<close>

definition plain_ident :: "string \<Rightarrow> Ident \<Rightarrow> bool" where
  "plain_ident source i \<longleftrightarrow> ident_in source i \<and>
    pos_Line (id_Pos i) = codeLineForOffset source (nat (pos_Offset (id_Pos i))) \<and>
    pos_Line (id_End i) = codeLineForOffset source (nat (pos_Offset (id_End i))) \<and>
    newline_byte \<notin> set (slice_of source (nat (pos_Offset (id_Pos i))) (nat (pos_Offset (id_End i)))) \<and>
    return_byte \<notin> set (slice_of source (nat (pos_Offset (id_Pos i))) (nat (pos_Offset (id_End i))))"

definition plain_name :: "string \<Rightarrow> bool" where
  "plain_name s \<longleftrightarrow> s \<noteq> [] \<and> trim_space s = s"

definition file_idents :: "File \<Rightarrow> (string \<times> string \<times> Ident) list" where
  "file_idents file = concat (map declared (gf_Decls file))"

definition ident_range :: "Ident \<Rightarrow> int \<times> int" where
  "ident_range i = (pos_Offset (id_Pos i), pos_Offset (id_End i))"

definition plain_file :: "string \<Rightarrow> File \<Rightarrow> bool" where
  "plain_file source file \<longleftrightarrow> (case gf_Name file of None \<Rightarrow> False | Some pkg \<Rightarrow>
    plain_ident source pkg \<and> plain_name (id_Name pkg) \<and>
    list_all (\<lambda>(k, n, i). plain_ident source i \<and> plain_name n) (file_idents file) \<and>
    distinct (ident_range pkg # map (\<lambda>(k, n, i). ident_range i) (file_idents file)))"

lemma slice_nth: "a \<le> k \<Longrightarrow> k < e \<Longrightarrow> e \<le> length b \<Longrightarrow> b ! k \<in> set (slice_of b a e)"
proof -
  assume a: "a \<le> k" "k < e" "e \<le> length b"
  then have "slice_of b a e ! (k - a) = b ! k" "k - a < length (slice_of b a e)" by (simp_all add: slice_of_def)
  then show ?thesis by (metis nth_mem)
qed

lemma slice_split: "i \<le> k \<Longrightarrow> k \<le> j \<Longrightarrow> slice_of b i j = slice_of b i k @ slice_of b k j"
proof -
  assume "i \<le> k" "k \<le> j"
  then have "j - i = (k - i) + (j - k)" "drop (k - i) (drop i b) = drop k b" by simp_all
  then show ?thesis unfolding slice_of_def by (metis take_add)
qed

definition newlines :: "string \<Rightarrow> int" where
  "newlines s = int (length (filter (\<lambda>c. c = newline_byte) s))"

lemma newlines_append [simp]: "newlines (s @ t) = newlines s + newlines t"
  by (simp add: newlines_def)

lemma line_difference: "i \<le> j \<Longrightarrow> codeLineForOffset b j = codeLineForOffset b i + newlines (slice_of b i j)"
  using slice_split[of 0 i j b] by (simp add: codeLineForOffset_def slice_of_def newlines_def)

lemma no_newlines: "newline_byte \<notin> set s \<Longrightarrow> newlines s = 0"
  by (induction s) (auto simp: newlines_def)

text \<open>A piece of text without line breaks lies inside the span of its line.\<close>

lemma content_end_at: "content_end b i = line_end b i - 1 \<or> content_end b i = line_end b i"
  by (auto simp: content_end_def Let_def)

lemma content_end_covers:
  assumes "i \<le> a" "a < e" "e \<le> line_end b i" "line_end b i \<le> length b" "return_byte \<notin> set (slice_of b a e)"
  shows "e \<le> content_end b i"
proof (rule ccontr)
  assume "\<not> e \<le> content_end b i"
  then have e: "e = line_end b i" "content_end b i \<noteq> line_end b i" using assms(3) content_end_at[of b i] by linarith+
  then have "b ! (line_end b i - 1) = return_byte" by (auto simp: content_end_def Let_def split: if_splits)
  moreover have "b ! (e - 1) \<in> set (slice_of b a e)" using assms by (intro slice_nth) auto
  ultimately show False using e(1) assms(5) by simp
qed

lemma before_line_end:
  assumes "i \<le> a" "a < e" "e \<le> length b" "newline_byte \<notin> set (slice_of b a e)"
    and "index_byte newline_byte (drop i b) = Some k"
  shows "e \<le> i + k \<or> i + k < a"
proof (rule ccontr)
  assume "\<not> (e \<le> i + k \<or> i + k < a)"
  then have "b ! (i + k) \<in> set (slice_of b a e)" using assms by (intro slice_nth) auto
  moreover have "drop i b ! k = newline_byte"
  proof -
    have "index_byte c s = Some n \<Longrightarrow> s ! n = c" for c s n
      by (induction s arbitrary: n) (auto split: if_splits)
    then show ?thesis using assms(5) by blast
  qed
  moreover have "i \<le> length b" using assms by linarith
  ultimately show False using assms(4) by (simp add: add.commute)
qed

lemma line_prefix: "index_byte newline_byte s = Some k \<Longrightarrow> newline_byte \<notin> set (take k s) \<and> s ! k = newline_byte \<and> k < length s"
  by (induction s arbitrary: k) (auto split: if_splits)

lemma no_line_prefix: "index_byte newline_byte s = None \<Longrightarrow> newline_byte \<notin> set s"
  by (induction s) (auto split: if_splits)

lemma line_spans_cover:
  assumes "i \<le> a" "a < e" "e \<le> length (ev_Rendered view)"
    and "newline_byte \<notin> set (slice_of (ev_Rendered view) a e)" "return_byte \<notin> set (slice_of (ev_Rendered view) a e)"
  shows "\<exists>s\<in>set (line_spans view v i d n). se_StartByte s \<le> int a \<and> int e \<le> se_EndByte s \<and>
    se_DisplayLine s = int d + newlines (slice_of (ev_Rendered view) i a)"
  using assms
proof (induction view v i d n rule: line_spans.induct)
  case (1 view v i d n)
  let ?b = "ev_Rendered view"
  define sp where "sp = (if i < content_end ?b i then [line_span view v i (content_end ?b i) d n] else [])"
  have i: "i \<le> length ?b" using "1.prems" by linarith
  have here: ?case if e: "e \<le> line_end ?b i" and nl: "newline_byte \<notin> set (slice_of ?b i a)"
    and sub: "set sp \<subseteq> set (line_spans view v i d n)"
  proof -
    have "e \<le> content_end ?b i"
      using content_end_covers[OF "1.prems"(1,2) e _ "1.prems"(5)] line_end_bounds[OF i] by simp
    then have "line_span view v i (content_end ?b i) d n \<in> set sp" using "1.prems" by (simp add: sp_def)
    then have "line_span view v i (content_end ?b i) d n \<in> set (line_spans view v i d n)" using sub by blast
    then show ?thesis using \<open>e \<le> content_end ?b i\<close> "1.prems"(1) no_newlines[OF nl]
      by (intro bexI[of _ "line_span view v i (content_end ?b i) d n"]) (simp_all add: line_span_def Let_def)
  qed
  show ?case
  proof (cases "index_byte newline_byte (drop i ?b)")
    case None
    then have "line_spans view v i d n = sp" using i by (subst line_spans.simps) (simp add: sp_def Let_def)
    moreover have "newline_byte \<notin> set (slice_of ?b i a)"
      using no_line_prefix[OF None] by (auto simp: slice_of_def dest: in_set_takeD)
    ultimately show ?thesis using here None "1.prems"(3) by (simp add: line_end_def)
  next
    case (Some k)
    have le: "line_end ?b i = i + k" using Some by (simp add: line_end_def)
    let ?r = "line_spans view v (line_end ?b i + 1) (d + 1) (n + length sp)"
    have step: "line_spans view v i d n = sp @ ?r"
      using Some i by (subst line_spans.simps) (simp add: sp_def Let_def)
    note p = line_prefix[OF Some]
    from before_line_end[OF "1.prems"(1-4) Some] show ?thesis
    proof
      assume e: "e \<le> i + k"
      then have "slice_of ?b i a = take (a - i) (take k (drop i ?b))" using "1.prems"(2) by (simp add: slice_of_def min_def)
      then have "newline_byte \<notin> set (slice_of ?b i a)" using p by (metis in_set_takeD)
      then show ?thesis using here e le step by simp
    next
      assume a: "i + k < a"
      have IH: "\<exists>s\<in>set ?r. se_StartByte s \<le> int a \<and> int e \<le> se_EndByte s \<and>
        se_DisplayLine s = int (d + 1) + newlines (slice_of ?b (line_end ?b i + 1) a)"
        unfolding sp_def by (rule "1.IH"[OF _ refl refl refl]) (use i Some a le "1.prems" in simp_all)
      have "slice_of ?b i (i + k + 1) = take k (drop i ?b) @ [newline_byte]"
        using p by (simp add: slice_of_def take_Suc_conv_app_nth)
      then have "newlines (slice_of ?b i (i + k + 1)) = 1" using no_newlines p by (simp add: newlines_def)
      then have "newlines (slice_of ?b i a) = 1 + newlines (slice_of ?b (line_end ?b i + 1) a)"
        using slice_split[of i "i + k + 1" a ?b] a le by simp
      then show ?thesis using IH step by auto
    qed
  qed
qed

end
