(* ===== verification/GoParserFiles.thy ===== *)
theory GoParserFiles
  imports GoParserLines
begin

text \<open>
  Files of the Go parser extractor: for a file whose identifiers are where the parser says, the extraction
  succeeds (\<open>extraction\<close>), and every proposal that it makes passes the checks of the controller
  (\<open>declaration_acceptable\<close>), which parses the file again and compares every field of the fact.
\<close>

section \<open>Names survive trimming\<close>

lemma spaces_chars: "w \<in> set spaces \<Longrightarrow> c \<in> set w \<Longrightarrow> \<not> solid c"
  unfolding spaces_def by (auto simp: bytes_def solid_def)

lemma prefix_before:
  assumes "has_prefix (a @ x # b) w" and "x \<notin> set w"
  shows "has_prefix a w"
proof -
  from assms obtain r where "a @ x # b = w @ r" by (auto simp: has_prefix_iff)
  then obtain us where "a = w @ us \<or> a @ us = w \<and> x # b = us @ r" by (auto simp: append_eq_append_conv2)
  then show ?thesis using assms(2) by (cases us) (auto simp: has_prefix_iff)
qed

lemma stripped_join:
  assumes "stripped ws a" "a \<noteq> []" "\<forall>w\<in>set ws. x \<notin> set w"
  shows "stripped ws (a @ x # b)"
  using assms prefix_before by (fastforce simp: stripped_def)

lemma trim_join:
  assumes "trim_space a = a" "a \<noteq> []" "trim_space b = b" "b \<noteq> []" "solid x"
  shows "trim_space (a @ x # b) = a @ x # b"
proof -
  have x: "\<forall>w\<in>set spaces. x \<notin> set w" "\<forall>w\<in>set (map rev spaces). x \<notin> set w" using spaces_chars assms(5) by auto
  have "stripped spaces (a @ x # b)" using assms x(1) by (intro stripped_join) (simp_all add: trim_space_id_iff)
  moreover have "stripped (map rev spaces) (rev b @ x # rev a)"
    using assms x(2) by (intro stripped_join) (simp_all add: trim_space_id_iff)
  ultimately show ?thesis by (simp add: trim_space_id_iff)
qed

text \<open>Escaping changes no byte of a space.\<close>

lemma part_app: "codeSymbolRefPart (s @ t) = codeSymbolRefPart s @ codeSymbolRefPart t"
  by (simp add: codeSymbolRefPart_def)

lemma part_suffix:
  assumes "has_prefix (rev (codeSymbolRefPart s)) w" and "\<forall>c\<in>set w. \<not> solid c"
  shows "has_prefix (rev s) w"
  using assms
proof (induction s arbitrary: w rule: rev_induct)
  case Nil
  then show ?case by simp
next
  case (snoc c s)
  show ?case
  proof (cases w)
    case Nil
    then show ?thesis by (simp add: has_prefix_def)
  next
    case (Cons x w')
    have e: "solid (CHR ''5'')" "solid (CHR ''A'')" by (simp_all add: solid_def)
    have "x = c" "has_prefix (rev (codeSymbolRefPart s)) w'"
      using snoc.prems e unfolding Cons by (auto simp: part_app has_prefix_def split: if_splits)
    then show ?thesis using snoc.IH[of w'] snoc.prems(2) Cons by (simp add: has_prefix_def)
  qed
qed

lemma part_trimmed: "plain_name q \<Longrightarrow> stripped (map rev spaces) (rev (codeSymbolRefPart q)) \<and> codeSymbolRefPart q \<noteq> []"
proof -
  assume q: "plain_name q"
  then have "stripped (map rev spaces) (rev q)" "q \<noteq> []" by (simp_all add: plain_name_def trim_space_id_iff)
  then have n: "\<forall>w\<in>set (map rev spaces). \<not> has_prefix (rev q) w" by (simp add: stripped_def)
  have "\<not> has_prefix (rev (codeSymbolRefPart q)) w" if w: "w \<in> set (map rev spaces)" for w
    using part_suffix[of q w] n w spaces_chars by fastforce
  moreover have "codeSymbolRefPart q \<noteq> []" using \<open>q \<noteq> []\<close> by (cases q) auto
  ultimately show ?thesis by (simp add: stripped_def)
qed

lemma symbol_ref_trimmed: "plain_name q \<Longrightarrow> trim_space (codeSymbolRef r c p q) = codeSymbolRef r c p q"
proof -
  assume q: "plain_name q"
  let ?a = "''symbol'' @ '':'' @ codeSymbolRefPart r @ '':'' @ codeSymbolRefPart c @ '':'' @ codeSymbolRefPart p"
  have eq: "codeSymbolRef r c p q = ?a @ CHR '':'' # codeSymbolRefPart q" by (simp add: codeSymbolRef_def)
  have colon: "solid (CHR '':'')" "solid (CHR ''s'')" by (simp_all add: solid_def)
  have hd: "codeSymbolRef r c p q \<noteq> []" "hd (codeSymbolRef r c p q) = CHR ''s''" by (simp_all add: codeSymbolRef_def)
  have "\<not> has_prefix (codeSymbolRef r c p q) w" if "w \<in> set spaces" for w
    using spaces_not_solid[OF that] hd colon(2) by (auto simp: has_prefix_iff)
  then have "stripped spaces (codeSymbolRef r c p q)" by (simp add: stripped_def)
  moreover have "stripped (map rev spaces) (rev (codeSymbolRef r c p q))" unfolding eq
    using part_trimmed[OF q] stripped_join[of "map rev spaces" "rev (codeSymbolRefPart q)" "CHR '':''" "rev ?a"]
      spaces_chars colon(1) by auto
  ultimately show ?thesis by (simp add: trim_space_id_iff)
qed

lemma hash_trimmed [simp]: "trim_space (contentHash s) = contentHash s"
proof (rule trim_space_solid)
  show "contentHash s \<noteq> []" "solid (hd (contentHash s))" by (simp_all add: contentHash_def solid_def)
  have "sha256_hex s \<noteq> []" by (metis length_sha256_hex list.size(3) zero_neq_numeral)
  moreover from this have "solid (last (sha256_hex s))" using solid_sha256_hex last_in_set by blast
  ultimately
  show "solid (last (contentHash s))" by (simp add: contentHash_def last_append)
qed

section \<open>Facts of declarations\<close>

text \<open>The source context agrees with the identity that the extractor was given.\<close>

definition code_source :: "'a manualSourceContext_scheme \<Rightarrow> fileIdentity \<Rightarrow> bool" where
  "code_source ctx f \<longleftrightarrow> source_built ctx \<and> fi_Source f = sx_Raw ctx \<and>
    ss_SourceSystem (sx_SourceSnapshot ctx) = SourceSystemCodeFile \<and> ss_SourceVersion (sx_SourceSnapshot ctx) = fi_CommitSHA f \<and>
    plain_name (fi_RepoID f) \<and> plain_name (fi_CommitSHA f) \<and> plain_name (fi_Path f) \<and>
    trim_space (text_at (ss_OriginMetadata (sx_SourceSnapshot ctx)) ''repo_id'') = fi_RepoID f \<and>
    trim_space (text_at (ss_OriginMetadata (sx_SourceSnapshot ctx)) ''commit_sha'') = fi_CommitSHA f \<and>
    trim_space (text_at (ss_OriginMetadata (sx_SourceSnapshot ctx)) ''path'') = fi_Path f"

abbreviation "solid_words \<equiv> [CodeFactSchemaV1, CodeFactSchemaV2, CodeFactKindDeclaration, CodeFactKindPackage,
  ''const'', ''function'', ''method'', ''type'', ''var'']"

lemma trim_words: "w \<in> set solid_words \<Longrightarrow> trim_space w = w"
  by (rule trim_space_solid) (auto simp: solid_def)

lemma normalize_fact_at:
  assumes "code_source ctx f" "plain_name q" "k \<in> set supportedCodeSymbolKinds"
  shows "normalizeCodeFactOutput (fact_at f CodeFactSchemaV1 CodeFactKindDeclaration k q i) =
    fact_at f CodeFactSchemaV1 CodeFactKindDeclaration k q i"
proof -
  have "trim_space k = k" "trim_space CodeFactSchemaV1 = CodeFactSchemaV1" "trim_space CodeFactKindDeclaration = CodeFactKindDeclaration"
    using assms(3) by (auto intro!: trim_words simp: supportedCodeSymbolKinds_def)
  moreover have "trim_space (fi_RepoID f) = fi_RepoID f" "trim_space (fi_CommitSHA f) = fi_CommitSHA f"
    "trim_space (fi_Path f) = fi_Path f" "trim_space q = q"
    using assms(1,2) by (simp_all add: code_source_def plain_name_def)
  ultimately show ?thesis
    by (simp add: normalizeCodeFactOutput_def fact_at_def Let_def symbol_ref_trimmed[OF assms(2)])
qed

lemma single_line_refs:
  "goParserEvidenceRefs m l l = (case map_of m l of None \<Rightarrow> [] | Some span \<Rightarrow> [gl_SpanID span])"
  by (simp add: goParserEvidenceRefs_def split: option.splits)

text \<open>The one reference of an identifier, and the span that it names.\<close>

lemma ident_span:
  assumes "code_source ctx f" "plain_ident (fi_Source f) i"
  shows "\<exists>s\<in>set (sx_Spans ctx). goParserEvidenceRefs (map line_entry (sx_Spans ctx)) (pos_Line (id_Pos i)) (pos_Line (id_End i)) = [se_SpanID s] \<and>
    se_StartByte s \<le> pos_Offset (id_Pos i) \<and> pos_Offset (id_End i) \<le> se_EndByte s \<and> pos_Line (id_End i) = pos_Line (id_Pos i) \<and>
    codeLineForOffset (fi_Source f) (nat (pos_Offset (id_End i) - 1)) = pos_Line (id_Pos i)"
proof -
  let ?b = "fi_Source f" and ?a = "nat (pos_Offset (id_Pos i))" and ?e = "nat (pos_Offset (id_End i))"
  have built: "source_built ctx" and raw: "?b = sx_Raw ctx" using assms(1) by (simp_all add: code_source_def)
  then have view: "ev_Rendered (sx_ExtractionView ctx) = ?b"
    and spans: "sx_Spans ctx = line_spans (sx_ExtractionView ctx) (sx_SpanCatalogVersion ctx) 0 1 1"
    by (simp_all add: source_built_def Let_def)
  have p: "0 \<le> pos_Offset (id_Pos i)" "?a < ?e" "?e \<le> length ?b" "pos_Line (id_Pos i) = codeLineForOffset ?b ?a"
    "pos_Line (id_End i) = codeLineForOffset ?b ?e" "newline_byte \<notin> set (slice_of ?b ?a ?e)" "return_byte \<notin> set (slice_of ?b ?a ?e)"
    "int ?a = pos_Offset (id_Pos i)" "int ?e = pos_Offset (id_End i)"
    using assms(2) by (auto simp: plain_ident_def ident_in_def)
  obtain s where s: "s \<in> set (sx_Spans ctx)" "se_StartByte s \<le> int ?a" "int ?e \<le> se_EndByte s"
    "se_DisplayLine s = 1 + newlines (slice_of ?b 0 ?a)"
    using line_spans_cover[of 0 ?a ?e "sx_ExtractionView ctx" "sx_SpanCatalogVersion ctx" 1 1] p unfolding view spans by auto
  have line: "se_DisplayLine s = pos_Line (id_Pos i)" using s(4) p(4) by (simp add: codeLineForOffset_def slice_of_def newlines_def)
  have same: "pos_Line (id_End i) = pos_Line (id_Pos i)"
    using line_difference[of ?a ?e ?b] no_newlines[OF p(6)] p by simp
  have "slice_of ?b ?a (?e - 1) = butlast (slice_of ?b ?a ?e)" using butlast_slice p by simp
  then have nl: "newline_byte \<notin> set (slice_of ?b ?a (?e - 1))" using p(6) by (auto dest: in_set_butlastD)
  have "?a \<le> ?e - 1" using p(2) by linarith
  from line_difference[OF this, of ?b] have "codeLineForOffset ?b (?e - 1) = pos_Line (id_Pos i)"
    unfolding no_newlines[OF nl] p(4) by simp
  moreover have "nat (pos_Offset (id_End i) - 1) = ?e - 1" by (simp add: nat_diff_distrib')
  ultimately have last: "codeLineForOffset ?b (nat (pos_Offset (id_End i) - 1)) = pos_Line (id_Pos i)" by simp
  have "distinct (map fst (map line_entry (sx_Spans ctx)))"
    using catalog_lines[OF built] by (simp add: line_entry_def comp_def)
  then have "map_of (map line_entry (sx_Spans ctx)) (se_DisplayLine s) = Some \<lparr>gl_SpanID = se_SpanID s, gl_DisplayLine = se_DisplayLine s\<rparr>"
    using s(1) by (subst map_of_eq_Some_iff) (auto simp: line_entry_def)
  then have "goParserEvidenceRefs (map line_entry (sx_Spans ctx)) (pos_Line (id_Pos i)) (pos_Line (id_End i)) = [se_SpanID s]"
    unfolding same single_line_refs using line by simp
  then show ?thesis using s p same last by auto
qed

definition described ::
  "(string \<Rightarrow> bool) \<Rightarrow> fileIdentity \<Rightarrow> string \<Rightarrow> SpanEntry list \<Rightarrow> string \<times> string \<times> Ident \<Rightarrow> GoParserDeclaration \<Rightarrow> bool" where
  "described letter f pkg spans = (\<lambda>(k, n, i) d. \<exists>s\<in>set spans.
    gd_EvidenceRefs d = [se_SpanID s] \<and> se_StartByte s \<le> pos_Offset (id_Pos i) \<and> pos_Offset (id_End i) \<le> se_EndByte s \<and>
    gd_CodeFact d = fact_at f CodeFactSchemaV1 CodeFactKindDeclaration k (pkg @ ''.'' @ n) i \<and>
    gd_StatementText d = codeDeclarationStatement k (pkg @ ''.'' @ n) (fi_Path f) (pos_Line (id_Pos i)) (pos_Line (id_Pos i)) \<and>
    gd_ProposalLocalID d = goParserProposalLocalID letter k (pkg @ ''.'' @ n) (pos_Line (id_Pos i)) \<and>
    gd_Kind d = k \<and> gd_Name d = n \<and> gd_Package d = pkg \<and> gd_StartLine d = pos_Line (id_Pos i))"

lemma build_declaration:
  assumes "code_source ctx f" "plain_ident (fi_Source f) i"
  shows "\<exists>d. buildGoParserDeclaration letter f (map line_entry (sx_Spans ctx)) pkg (k, n, i) = Inr d \<and>
    described letter f pkg (sx_Spans ctx) (k, n, i) d"
proof -
  obtain s where s: "s \<in> set (sx_Spans ctx)"
    "goParserEvidenceRefs (map line_entry (sx_Spans ctx)) (pos_Line (id_Pos i)) (pos_Line (id_End i)) = [se_SpanID s]"
    "se_StartByte s \<le> pos_Offset (id_Pos i)" "pos_Offset (id_End i) \<le> se_EndByte s" "pos_Line (id_End i) = pos_Line (id_Pos i)"
    using ident_span[OF assms] by blast
  have "ident_in (fi_Source f) i" using assms(2) by (simp add: plain_ident_def)
  then show ?thesis using s by (auto simp: buildGoParserDeclaration_def described_def Let_def)
qed

lemma declared_kind: "(k, n, i) \<in> set (file_idents file) \<Longrightarrow> k \<in> set supportedCodeSymbolKinds"
proof -
  have "k \<in> set supportedCodeSymbolKinds" if "(k, n, i) \<in> set (declared d)" for d
    using that
  proof (cases d)
    case (GenDecl tok specs)
    then show ?thesis using that by (cases tok) (auto simp: supportedCodeSymbolKinds_def)
  qed (auto simp: supportedCodeSymbolKinds_def split: option.splits list.splits)
  then show "(k, n, i) \<in> set (file_idents file) \<Longrightarrow> k \<in> set supportedCodeSymbolKinds"
    by (auto simp: file_idents_def)
qed

definition resolved_fact :: "fileIdentity \<Rightarrow> CodeFactOutput \<Rightarrow> int \<Rightarrow> ResolvedCodeFact" where
  "resolved_fact f c l = \<lparr>rf_SchemaVersion = cf_SchemaVersion c, rf_FactKind = cf_FactKind c,
    rf_RepoID = cf_RepoID c, rf_CommitSHA = cf_CommitSHA c, rf_Path = cf_Path c,
    rf_FileContentHash = cf_FileContentHash c, rf_SymbolRef = cf_SymbolRef c,
    rf_SymbolKind = cf_SymbolKind c, rf_QualifiedName = cf_QualifiedName c,
    rf_StartByte = cf_StartByte c, rf_EndByte = cf_EndByte c, rf_StartLine = l, rf_EndLine = l,
    rf_QuotedTextHash = cf_QuotedTextHash c,
    rf_QuotedText = slice_of (fi_Source f) (nat (cf_StartByte c)) (nat (cf_EndByte c))\<rparr>"

lemma resolve_declaration:
  assumes "code_source ctx f" "plain_ident (fi_Source f) i" "plain_name q" "k \<in> set supportedCodeSymbolKinds"
    and s: "se_StartByte s \<le> pos_Offset (id_Pos i)" "pos_Offset (id_End i) \<le> se_EndByte s"
    and p: "po_CodeFact p = Some (fact_at f CodeFactSchemaV1 CodeFactKindDeclaration k q i)"
      "po_StatementText p = codeDeclarationStatement k q (fi_Path f) (pos_Line (id_Pos i)) (pos_Line (id_Pos i))"
  shows "resolveCodeFact ctx p [source_ref s] =
    Inr (Some (resolved_fact f (fact_at f CodeFactSchemaV1 CodeFactKindDeclaration k q i) (pos_Line (id_Pos i))))"
proof -
  let ?c = "fact_at f CodeFactSchemaV1 CodeFactKindDeclaration k q i"
  have c: "cf_SchemaVersion ?c = CodeFactSchemaV1" "cf_FactKind ?c = CodeFactKindDeclaration" "cf_SymbolKind ?c = k"
    "cf_RepoID ?c = fi_RepoID f" "cf_CommitSHA ?c = fi_CommitSHA f" "cf_Path ?c = fi_Path f" "cf_QualifiedName ?c = q"
    "cf_FileContentHash ?c = contentHash (fi_Source f)" "cf_StartByte ?c = pos_Offset (id_Pos i)" "cf_EndByte ?c = pos_Offset (id_End i)"
    "cf_SymbolRef ?c = codeSymbolRef (fi_RepoID f) (fi_CommitSHA f) (fi_Path f) q"
    "cf_QuotedTextHash ?c = contentHash (slice_of (fi_Source f) (nat (pos_Offset (id_Pos i))) (nat (pos_Offset (id_End i))))"
    by (simp_all add: fact_at_def Let_def)
  have contract: "validateCodeFactContract ?c = Inr ()" using assms(4) by (simp add: validateCodeFactContract_def c)
  have origin: "verifyCodeOrigin (sx_SourceSnapshot ctx) ?c = Inr ()"
    using assms(1,3) by (simp add: verifyCodeOrigin_def c code_source_def plain_name_def Let_def)
  have src: "ev_Rendered (sx_ExtractionView ctx) = fi_Source f" "ss_RawContentHash (sx_SourceSnapshot ctx) = contentHash (fi_Source f)"
    "ev_RenderedContentHash (sx_ExtractionView ctx) = contentHash (fi_Source f)"
    "ss_SourceSystem (sx_SourceSnapshot ctx) = SourceSystemCodeFile"
    using assms(1) by (simp_all add: code_source_def source_built_def Let_def)
  have bounds: "\<not> (pos_Offset (id_Pos i) < 0 \<or> pos_Offset (id_End i) \<le> pos_Offset (id_Pos i) \<or>
    int (length (fi_Source f)) < pos_Offset (id_End i))" using assms(2) by (auto simp: plain_ident_def ident_in_def)
  have covered: "codeFactCoveredBySourceRef ?c [source_ref s]"
    using s by (simp add: codeFactCoveredBySourceRef_def source_ref_def c)
  have lines: "codeLineForOffset (fi_Source f) (nat (pos_Offset (id_Pos i))) = pos_Line (id_Pos i)"
    "codeLineForOffset (fi_Source f) (nat (pos_Offset (id_End i) - 1)) = pos_Line (id_Pos i)"
    using assms(2) ident_span[OF assms(1,2)] by (auto simp: plain_ident_def)
  have statement: "codeFactStatement ?c (pos_Line (id_Pos i)) (pos_Line (id_Pos i)) = po_StatementText p"
    by (simp add: codeFactStatement_def c p(2))
  show ?thesis unfolding resolveCodeFact_def p(1) option.case Let_def normalize_fact_at[OF assms(1,3,4)]
    using contract origin bounds covered by (simp add: src c lines statement[symmetric] resolved_fact_def)
qed

section \<open>Files\<close>

lemma extract_cong:
  assumes "trim_space (gq_RepoID a) = trim_space (gq_RepoID b)" "trim_space (gq_CommitSHA a) = trim_space (gq_CommitSHA b)"
    and "trim_space (gq_Path a) = trim_space (gq_Path b)" "gq_Source a = gq_Source b"
    and "goParserLineSpans (gq_Source a) (gq_Spans a) = goParserLineSpans (gq_Source b) (gq_Spans b)"
  shows "ExtractGoParserFile letter parse a = ExtractGoParserFile letter parse b"
  using assms(5) unfolding ExtractGoParserFile_def Let_def assms(1-4) by (simp only:)

definition package_fact :: "fileIdentity \<Rightarrow> Ident \<Rightarrow> CodeFactOutput" where
  "package_fact f i = fact_at f CodeFactSchemaV2 CodeFactKindPackage CodeFactKindPackage (id_Name i) i"

definition extracted ::
  "(string \<Rightarrow> bool) \<Rightarrow> fileIdentity \<Rightarrow> File \<Rightarrow> SpanEntry list \<Rightarrow> GoParserFileExtraction \<Rightarrow> bool" where
  "extracted letter f file spans x \<longleftrightarrow> (\<exists>pkg ds. gf_Name file = Some pkg \<and>
    list_all2 (described letter f (id_Name pkg) spans) (file_idents file) ds \<and>
    gx_Declarations x = sort_key (\<lambda>d. (gd_StartLine d, gd_Name d)) ds \<and>
    gp_CodeFact (gx_PackageClause x) = package_fact f pkg \<and>
    gx_Output x = \<lparr>fo_Proposals = Some (map declaration_proposal (gx_Declarations x)),
      fo_RepositoryGoplsCoverage = None, fo_DocumentSectionCoverage = None\<rparr>)"

lemma extraction:
  assumes c: "code_source ctx f" and tree: "parse (fi_Path f) (fi_Source f) = Some file" "plain_file (fi_Source f) file"
    and inp: "trim_space (gq_RepoID inp) = fi_RepoID f" "trim_space (gq_CommitSHA inp) = fi_CommitSHA f"
      "trim_space (gq_Path inp) = fi_Path f" "gq_Source inp = fi_Source f"
      "goParserLineSpans (fi_Source f) (gq_Spans inp) = map line_entry (sx_Spans ctx)"
  shows "\<exists>x. ExtractGoParserFile letter parse inp = Inr x \<and> extracted letter f file (sx_Spans ctx) x"
proof -
  obtain pkg where pkg: "gf_Name file = Some pkg" "plain_ident (fi_Source f) pkg" "plain_name (id_Name pkg)"
    using tree(2) by (auto simp: plain_file_def split: option.splits)
  have ids: "plain_ident (fi_Source f) i" if "(k, n, i) \<in> set (file_idents file)" for k n i
    using tree(2) that by (auto simp: plain_file_def list_all_iff split: option.splits)
  let ?L = "map line_entry (sx_Spans ctx)"
  let ?P = "\<lambda>x d. buildGoParserDeclaration letter f ?L (id_Name pkg) x = Inr d \<and> described letter f (id_Name pkg) (sx_Spans ctx) x d"
  have "\<exists>ds. list_all2 ?P (file_idents file) ds"
  proof (rule list_all2_choose)
    fix x assume "x \<in> set (file_idents file)"
    moreover obtain k n i where x: "x = (k, n, i)" by (rule prod_cases3)
    ultimately show "\<exists>d. ?P x d" unfolding x by (intro build_declaration[OF c ids])
  qed
  then obtain ds where ds: "list_all2 ?P (file_idents file) ds" ..
  then have "traverse (buildGoParserDeclaration letter f ?L (id_Name pkg)) (file_idents file) = Inr ds"
    unfolding traverse_Inr by (auto elim: list_all2_mono)
  then have col: "collectGoParserDeclarations letter f ?L (id_Name pkg) (gf_Decls file) =
    Inr (sort_key (\<lambda>d. (gd_StartLine d, gd_Name d)) ds)"
    unfolding collectGoParserDeclarations_def by (simp add: file_idents_def)
  obtain pc where pc: "buildGoParserPackageClause letter f ?L (gf_Name file) = Inr pc" "gp_Name pc = id_Name pkg"
    "gp_CodeFact pc = package_fact f pkg"
    using pkg by (simp add: buildGoParserPackageClause_def plain_ident_def plain_name_def package_fact_def Let_def)
  have ok: "fi_RepoID f \<noteq> []" "fi_CommitSHA f \<noteq> []" "fi_Path f \<noteq> []" "utf8_valid (fi_Source f)"
    using c by (auto simp: code_source_def plain_name_def source_built_def Let_def)
  have f: "\<lparr>fi_RepoID = fi_RepoID f, fi_CommitSHA = fi_CommitSHA f, fi_Path = fi_Path f, fi_Source = fi_Source f\<rparr> = f"
    by (cases f) simp
  have "list_all2 (described letter f (id_Name pkg) (sx_Spans ctx)) (file_idents file) ds"
    using ds by (auto elim: list_all2_mono)
  then show ?thesis unfolding ExtractGoParserFile_def inp Let_def f
    using ok tree(1) pc col pkg(1) by (auto simp: extracted_def)
qed

lemma fold_update_key:
  assumes "distinct (map key xs)" "x \<in> set xs"
  shows "map_of (fold (\<lambda>f. AList.update (key f) f) xs m) (key x) = Some x"
proof -
  have keep: "map_of (fold (\<lambda>f. AList.update (key f) f) ys m) k = map_of m k" if "k \<notin> key ` set ys" for ys m k
    using that by (induction ys arbitrary: m) (auto simp: map_of_update)
  show ?thesis using assms
  proof (induction xs arbitrary: m)
    case (Cons y xs)
    show ?case
    proof (cases "x = y")
      case True
      then show ?thesis using Cons.prems keep[of "key y" xs "AList.update (key y) y m"] by (simp add: map_of_update)
    qed (use Cons in auto)
  qed simp
qed

lemma verify_resolved:
  "map_of index (cf_StartByte c, cf_EndByte c) = Some c \<Longrightarrow> verifyGoCodeFact index (resolved_fact f c l) = Inr ()"
  by (cases c) (simp add: verifyGoCodeFact_def resolved_fact_def)

abbreviation "fact_range c \<equiv> (cf_StartByte c, cf_EndByte c)"

lemma fact_range_at [simp]: "fact_range (fact_at f s k y q i) = ident_range i"
  by (simp add: fact_at_def ident_range_def Let_def)

lemma extracted_ranges:
  assumes "extracted letter f file spans x" "plain_file source file"
  shows "distinct (map fact_range (gp_CodeFact (gx_PackageClause x) # map gd_CodeFact (gx_Declarations x)))"
proof -
  obtain pkg ds where x: "gf_Name file = Some pkg" "list_all2 (described letter f (id_Name pkg) spans) (file_idents file) ds"
    "gx_Declarations x = sort_key (\<lambda>d. (gd_StartLine d, gd_Name d)) ds" "gp_CodeFact (gx_PackageClause x) = package_fact f pkg"
    using assms(1) by (auto simp: extracted_def)
  have "map (\<lambda>d. fact_range (gd_CodeFact d)) ds = map (\<lambda>(k, n, i). ident_range i) (file_idents file)"
    by (rule list_all2_map_eq[where P = "\<lambda>x d. True", simplified])
      (use x(2) in \<open>auto simp: described_def elim!: list_all2_mono\<close>)
  then have d: "distinct (ident_range pkg # map (\<lambda>d. fact_range (gd_CodeFact d)) ds)"
    using assms(2) x(1) by (simp add: plain_file_def)
  then have "distinct (map (\<lambda>d. fact_range (gd_CodeFact d)) (gx_Declarations x))"
    unfolding x(3) distinct_sort_key_map by simp
  then show ?thesis using d x(3,4) by (simp add: comp_def package_fact_def)
qed

lemma declaration_acceptable:
  assumes c: "code_source ctx f" and tree: "plain_file (fi_Source f) file" and x: "extracted letter f file (sx_Spans ctx) x"
    and index: "goCodeFactIndex letter parse ctx =
      Inr (fold (\<lambda>f. AList.update (fact_range f) f) (gp_CodeFact (gx_PackageClause x) # map gd_CodeFact (gx_Declarations x)) [])"
    and m: "\<forall>s\<in>set (sx_Spans ctx). map_of m (se_SpanID s) = Some s" and d: "d \<in> set (gx_Declarations x)"
  shows "\<exists>o'. acceptable letter parse ctx m (declaration_proposal d) o'"
proof -
  obtain pkg ds where e: "gf_Name file = Some pkg" "list_all2 (described letter f (id_Name pkg) (sx_Spans ctx)) (file_idents file) ds"
    "d \<in> set ds" using x d by (auto simp: extracted_def)
  obtain k n i where kni: "(k, n, i) \<in> set (file_idents file)" "described letter f (id_Name pkg) (sx_Spans ctx) (k, n, i) d"
    using list_all2_in2[OF e(2,3)] by auto
  then obtain s where s: "s \<in> set (sx_Spans ctx)" "gd_EvidenceRefs d = [se_SpanID s]" "se_StartByte s \<le> pos_Offset (id_Pos i)"
    "pos_Offset (id_End i) \<le> se_EndByte s"
    and dd: "gd_CodeFact d = fact_at f CodeFactSchemaV1 CodeFactKindDeclaration k (id_Name pkg @ ''.'' @ n) i"
    "gd_StatementText d = codeDeclarationStatement k (id_Name pkg @ ''.'' @ n) (fi_Path f) (pos_Line (id_Pos i)) (pos_Line (id_Pos i))"
    "gd_ProposalLocalID d = goParserProposalLocalID letter k (id_Name pkg @ ''.'' @ n) (pos_Line (id_Pos i))"
    by (auto simp: described_def)
  have names: "plain_ident (fi_Source f) i" "plain_name n" "plain_name (id_Name pkg)"
    using tree e(1) kni(1) by (auto simp: plain_file_def list_all_iff)
  have q: "plain_name (id_Name pkg @ ''.'' @ n)"
    using trim_join[of "id_Name pkg" n "CHR ''.''"] names(2,3) by (simp add: plain_name_def solid_def)
  let ?p = "declaration_proposal d"
  have p: "po_CodeFact ?p = Some (fact_at f CodeFactSchemaV1 CodeFactKindDeclaration k (id_Name pkg @ ''.'' @ n) i)"
    "po_StatementText ?p = codeDeclarationStatement k (id_Name pkg @ ''.'' @ n) (fi_Path f) (pos_Line (id_Pos i)) (pos_Line (id_Pos i))"
    "elems (po_EvidenceRefs ?p) = [se_SpanID s]" "po_CodeRelation ?p = None" "po_ProposalLocalID ?p = gd_ProposalLocalID d"
    using dd s(2) by (simp_all add: declaration_proposal_def)
  note r = resolve_declaration[OF c names(1) q declared_kind[OF kni(1)] s(3,4) p(1,2)]
  let ?facts = "gp_CodeFact (gx_PackageClause x) # map gd_CodeFact (gx_Declarations x)"
  have "map_of (fold (\<lambda>f. AList.update (fact_range f) f) ?facts []) (fact_range (gd_CodeFact d)) = Some (gd_CodeFact d)"
    using fold_update_key[OF extracted_ranges[OF x tree], of "gd_CodeFact d" "[]"] d by simp
  then have "verifyGoCodeFact (fold (\<lambda>f. AList.update (fact_range f) f) ?facts []) (resolved_fact f (gd_CodeFact d) l) = Inr ()" for l
    by (rule verify_resolved)
  then have v: "verified_fact letter parse ctx ?p [source_ref s] = Inr (Some (resolved_fact f (gd_CodeFact d) (pos_Line (id_Pos i))))"
    using r index unfolding verified_fact_def dd(1) by simp
  have "po_StatementText ?p \<noteq> []" "po_ProposalLocalID ?p \<noteq> []"
    using p(2,5) dd(3) by (simp_all add: codeDeclarationStatement_def goParserProposalLocalID_def)
  moreover have "list_all2 (\<lambda>k s. map_of m k = Some s) (elems (po_EvidenceRefs ?p)) [s]" using p(3) m s(1) by simp
  moreover have "sortSourceRefs (map source_ref [s]) = [source_ref s]" by (simp add: sortSourceRefs_def)
  ultimately show ?thesis using p(3,4) v unfolding acceptable_def by (metis list.distinct(1))
qed

end
