(* ===== verification/GoParserProperties.thy ===== *)
theory GoParserProperties
  imports GoParserFiles
begin

text \<open>
  The properties of the Go parser extractor: its own table of lines is that of the catalog; the controller
  verifies every fact that the extractor makes, so that a file is materialised exactly when the local
  names of its declarations are distinct; and a valid file that repeats a blank name on one line is not.
\<close>

text \<open>C39. The Go parser extractor has a table of lines of its own for a source without spans; on a context built from its source it equals the table it derives from the spans it is given, so the references of a declaration do not depend on which of the two is used.\<close>

theorem parser_lines_agree:
  assumes "buildManualSourceContext input = Inr ctx"
  shows "goParserLineSpans (mt_Raw input) (ei_Spans (extractorInput ctx)) = goParserLineSpans (mt_Raw input) [] \<and>
    goParserLineSpans (mt_Raw input) [] =
      map (\<lambda>s. (se_DisplayLine s, \<lparr>gl_SpanID = se_SpanID s, gl_DisplayLine = se_DisplayLine s\<rparr>)) (sx_Spans ctx)"
  using built_lines[of ctx] buildManualSourceContext_built[OF assms] by (simp add: line_entry_def)

section \<open>The controller verifies what the extractor makes\<close>

lemma runner_parts:
  assumes "NewGoParserExtractorRunner repo commit path = Inr r"
  shows "plain_name (gr_repoID r) \<and> plain_name (gr_commitSHA r) \<and> plain_name (gr_path r)"
  using assms by (auto simp: NewGoParserExtractorRunner_def plain_name_def Let_def split: if_splits)

text \<open>The run of the extractor on a source that agrees with its runner, and the same file read by the controller.\<close>

lemma run_file:
  assumes src: "buildManualSourceContext input = Inr src"
    and r: "NewGoParserExtractorRunner repo commit path = Inr r"
    and input: "mt_SourceSystem input = SourceSystemCodeFile" "mt_SourceVersion input = gr_commitSHA r"
      "trim_space (text_at (mt_OriginMetadata input) ''repo_id'') = gr_repoID r"
      "trim_space (text_at (mt_OriginMetadata input) ''commit_sha'') = gr_commitSHA r"
      "trim_space (text_at (mt_OriginMetadata input) ''path'') = gr_path r"
    and tree: "parse (gr_path r) (mt_Raw input) = Some file" "plain_file (mt_Raw input) file"
    and ctx: "buildAttemptContextFromSourceWithDefinition src request n d = Inr ctx"
    and f: "f = \<lparr>fi_RepoID = gr_repoID r, fi_CommitSHA = gr_commitSHA r, fi_Path = gr_path r, fi_Source = mt_Raw input\<rparr>"
  shows "\<exists>x. GoParserExtractorRunner_Run letter parse r (extractorInput src) = Inr x \<and> code_source ctx f \<and>
    extracted letter f file (sx_Spans ctx) x \<and> goCodeFactIndex letter parse ctx =
      Inr (fold (\<lambda>f. AList.update (fact_range f) f) (gp_CodeFact (gx_PackageClause x) # map gd_CodeFact (gx_Declarations x)) [])"
proof -
  note b = buildManualSourceContext_built[OF src]
  have sn: "ss_SourceVersion (sx_SourceSnapshot src) = mt_SourceVersion input" "ss_SourceSystem (sx_SourceSnapshot src) = SourceSystemCodeFile"
    using buildManualSourceContext_snapshot[OF src] input(1) by simp_all
  have "manualSourceContext.truncate ctx = src"
    using attempt_keeps_source ctx by (simp add: buildAttemptContextFromSourceWithDefinition_def)
  then have same: "sx_Raw ctx = sx_Raw src" "sx_Spans ctx = sx_Spans src" "sx_SourceSnapshot ctx = sx_SourceSnapshot src"
    "sx_ExtractionView ctx = sx_ExtractionView src" "source_built ctx"
    using b source_built_truncate[of ctx] by (auto simp: manualSourceContext.defs)
  have f_simps: "fi_RepoID f = gr_repoID r" "fi_CommitSHA f = gr_commitSHA r" "fi_Path f = gr_path r" "fi_Source f = mt_Raw input"
    by (simp_all add: f)
  have c: "code_source ctx f" using b sn input runner_parts[OF r] same by (simp add: code_source_def f)
  have catalog: "ei_SpanCatalogVersion (extractorInput src) = ''code-line-v1''" "ei_SourceSystem (extractorInput src) = SourceSystemCodeFile"
    using b sn(2) by (auto simp: source_built_def Let_def renderingContract_def extractorInput_def)
  have shown: "ei_RenderedText (extractorInput src) = mt_Raw input" "ei_RawContentHash (extractorInput src) = contentHash (mt_Raw input)"
    "ei_RenderedContentHash (extractorInput src) = contentHash (mt_Raw input)"
    using b by (auto simp: source_built_def Let_def extractorInput_def)
  let ?run = "\<lparr>gq_RepoID = gr_repoID r, gq_CommitSHA = gr_commitSHA r, gq_Path = gr_path r, gq_Source = mt_Raw input,
    gq_Spans = ei_Spans (extractorInput src)\<rparr>"
  have "extractorInput ctx = extractorInput src \<or> ei_Spans (extractorInput ctx) = ei_Spans (extractorInput src)"
    using same(2) by (simp add: extractorInput_def)
  then have spans: "ei_Spans (extractorInput ctx) = ei_Spans (extractorInput src)" by auto
  have L: "goParserLineSpans (mt_Raw input) (ei_Spans (extractorInput src)) = map line_entry (sx_Spans ctx)"
    "goParserLineSpans (mt_Raw input) [] = map line_entry (sx_Spans ctx)"
    using built_lines[OF same(5)] same(1) b spans by simp_all
  have trims: "trim_space (gr_repoID r) = gr_repoID r" "trim_space (gr_commitSHA r) = gr_commitSHA r"
    "trim_space (gr_path r) = gr_path r" using runner_parts[OF r] by (simp_all add: plain_name_def)
  obtain x where x: "ExtractGoParserFile letter parse ?run = Inr x" "extracted letter f file (sx_Spans ctx) x"
    using extraction[OF c, of parse "file" ?run letter] tree L(1) trims unfolding f_simps by auto
  have run: "GoParserExtractorRunner_Run letter parse r (extractorInput src) = Inr x"
    using x(1) catalog shown by (simp add: GoParserExtractorRunner_Run_def)
  let ?again = "\<lparr>gq_RepoID = text_at (mt_OriginMetadata input) ''repo_id'', gq_CommitSHA = text_at (mt_OriginMetadata input) ''commit_sha'',
    gq_Path = text_at (mt_OriginMetadata input) ''path'', gq_Source = mt_Raw input, gq_Spans = []\<rparr>"
  have "ExtractGoParserFile letter parse ?again = Inr x"
    using extract_cong[of ?again ?run letter parse] x(1) input(3-5) trims L by simp
  moreover have "ss_OriginMetadata (sx_SourceSnapshot ctx) = mt_OriginMetadata input" "ev_Rendered (sx_ExtractionView ctx) = mt_Raw input"
    using b same by (auto simp: source_built_def Let_def)
  ultimately have "goCodeFactIndex letter parse ctx =
    Inr (fold (\<lambda>f. AList.update (fact_range f) f) (gp_CodeFact (gx_PackageClause x) # map gd_CodeFact (gx_Declarations x)) [])"
    by (simp add: goCodeFactIndex_def)
  then show ?thesis using run c x(2) by blast
qed

text \<open>C4. The controller accepts exactly what the extractor makes of a code file, up to repeated names: for a source whose recorded origin is that of the runner and a parse whose identifiers have plain positions (those of their offsets, without line breaks), the run succeeds with one declaration for each declared identifier, and its output is materialised, every fact re-parsed and verified, if and only if the local names of the declarations are distinct.\<close>

theorem parsed_file_materializes:
  assumes "buildManualSourceContext input = Inr src" and "NewGoParserExtractorRunner repo commit path = Inr r"
    and "mt_SourceSystem input = SourceSystemCodeFile" and "mt_SourceVersion input = gr_commitSHA r"
    and "trim_space (text_at (mt_OriginMetadata input) ''repo_id'') = gr_repoID r"
    and "trim_space (text_at (mt_OriginMetadata input) ''commit_sha'') = gr_commitSHA r"
    and "trim_space (text_at (mt_OriginMetadata input) ''path'') = gr_path r"
    and "parse (gr_path r) (mt_Raw input) = Some file" and "plain_file (mt_Raw input) file"
    and "buildAttemptContextFromSourceWithDefinition src request n d = Inr ctx"
  shows "\<exists>x. GoParserExtractorRunner_Run letter parse r (extractorInput src) = Inr x \<and>
    length (gx_Declarations x) = length (concat (map declared (gf_Decls file))) \<and>
    ((\<exists>b. materializeBatch letter parse ctx (gx_Output x) = Inr b) \<longleftrightarrow> distinct (map gd_ProposalLocalID (gx_Declarations x)))"
proof -
  let ?f = "\<lparr>fi_RepoID = gr_repoID r, fi_CommitSHA = gr_commitSHA r, fi_Path = gr_path r, fi_Source = mt_Raw input\<rparr>"
  obtain x where run: "GoParserExtractorRunner_Run letter parse r (extractorInput src) = Inr x" and c: "code_source ctx ?f"
    and x: "extracted letter ?f file (sx_Spans ctx) x"
    and index: "goCodeFactIndex letter parse ctx =
      Inr (fold (\<lambda>f. AList.update (fact_range f) f) (gp_CodeFact (gx_PackageClause x) # map gd_CodeFact (gx_Declarations x)) [])"
    using run_file[where parse = parse and letter = letter and f = ?f, OF assms refl] by blast
  obtain pkg :: Ident and ds where ds: "list_all2 (described letter ?f (id_Name pkg) (sx_Spans ctx)) (file_idents file) ds"
    "gx_Declarations x = sort_key (\<lambda>d. (gd_StartLine d, gd_Name d)) ds"
    using x unfolding extracted_def by blast
  have out: "gx_Output x = \<lparr>fo_Proposals = Some (map declaration_proposal (gx_Declarations x)),
      fo_RepositoryGoplsCoverage = None, fo_DocumentSectionCoverage = None\<rparr>" using x unfolding extracted_def by blast
  have ids: "map po_ProposalLocalID (elems (fo_Proposals (gx_Output x))) = map gd_ProposalLocalID (gx_Declarations x)"
    by (simp add: out declaration_proposal_def)
  have "source_built ctx" using c by (simp add: code_source_def)
  then obtain m where m: "fold_res (span_by_id (sx_ExtractionView ctx)) [] (sx_Spans ctx) = Inr m"
    "\<forall>s\<in>set (sx_Spans ctx). map_of m (se_SpanID s) = Some s" by (rule built_by_id)
  have tree: "plain_file (fi_Source ?f) file" using assms(9) by simp
  have "\<exists>os. list_all2 (acceptable letter parse ctx m) (map declaration_proposal (gx_Declarations x)) os"
    by (rule list_all2_choose) (use declaration_acceptable[OF c tree x index m(2)] in auto)
  then obtain os where os: "list_all2 (acceptable letter parse ctx m) (elems (fo_Proposals (gx_Output x))) os"
    by (auto simp: out)
  have "(\<exists>b. materializeBatch letter parse ctx (gx_Output x) = Inr b) \<longleftrightarrow> distinct (map gd_ProposalLocalID (gx_Declarations x))"
  proof
    assume "\<exists>b. materializeBatch letter parse ctx (gx_Output x) = Inr b"
    then show "distinct (map gd_ProposalLocalID (gx_Declarations x))" using materialized ids by metis
  next
    assume "distinct (map gd_ProposalLocalID (gx_Declarations x))"
    then have "distinct (map po_ProposalLocalID (elems (fo_Proposals (gx_Output x))))" unfolding ids .
    from materializes[OF _ _ m(1) os this] show "\<exists>b. materializeBatch letter parse ctx (gx_Output x) = Inr b"
      by (auto simp: out)
  qed
  moreover have "length (gx_Declarations x) = length (file_idents file)"
    using list_all2_lengthD[OF ds(1)] by (simp add: ds(2))
  ultimately show ?thesis using run by (auto simp: file_idents_def)
qed

section \<open>Repeated blank names\<close>

lemma extracted_ids:
  assumes "ExtractGoParserFile letter parse inp = Inr x" "d \<in> set (gx_Declarations x)"
  shows "gd_ProposalLocalID d = goParserProposalLocalID letter (gd_Kind d) (gd_Package d @ ''.'' @ gd_Name d) (gd_StartLine d)"
proof -
  obtain f L pkg decls where "collectGoParserDeclarations letter f L pkg decls = Inr (gx_Declarations x)"
    using assms(1) by (auto simp: ExtractGoParserFile_def Let_def returns split: option.splits if_splits)
  then obtain ds where ds: "traverse (buildGoParserDeclaration letter f L pkg) (concat (map declared decls)) = Inr ds"
    "gx_Declarations x = sort_key (\<lambda>d. (gd_StartLine d, gd_Name d)) ds"
    by (auto simp: collectGoParserDeclarations_def returns)
  then have "d \<in> set ds" using assms(2) by simp
  then obtain y where "buildGoParserDeclaration letter f L pkg y = Inr d"
    using list_all2_in2[OF ds(1)[unfolded traverse_Inr]] by blast
  then show ?thesis by (cases y) (auto simp: buildGoParserDeclaration_def Let_def split: if_splits)
qed

lemma extracted_output:
  assumes "GoParserExtractorRunner_Run letter parse r input = Inr x"
  shows "elems (fo_Proposals (gx_Output x)) = map declaration_proposal (gx_Declarations x) \<and>
    (\<exists>inp. ExtractGoParserFile letter parse inp = Inr x)"
proof -
  obtain inp where x: "ExtractGoParserFile letter parse inp = Inr x"
    using assms by (auto simp: GoParserExtractorRunner_Run_def split: if_splits)
  then have "fo_Proposals (gx_Output x) = Some (map declaration_proposal (gx_Declarations x))"
    by (auto simp: ExtractGoParserFile_def Let_def returns split: option.splits if_splits)
  with x show ?thesis by auto
qed

text \<open>C22. A file that declares the same kind of name twice on one line cannot be ingested: when two declarations of a run agree in kind, package, name and start line, as in the valid Go declaration of two blank variables on one line, the controller refuses the whole output of the run, on any attempt context.  The local name of a proposal is made of just these parts.\<close>

theorem repeated_declaration_blocks_file:
  assumes "GoParserExtractorRunner_Run letter parse r input = Inr x"
    and "i < j" and "j < length (gx_Declarations x)"
    and "gd_Kind (gx_Declarations x ! i) = gd_Kind (gx_Declarations x ! j)"
    and "gd_Package (gx_Declarations x ! i) = gd_Package (gx_Declarations x ! j)"
    and "gd_Name (gx_Declarations x ! i) = gd_Name (gx_Declarations x ! j)"
    and "gd_StartLine (gx_Declarations x ! i) = gd_StartLine (gx_Declarations x ! j)"
  shows "\<exists>e. materializeBatch letter parse ctx (gx_Output x) = Inl e"
proof (cases "materializeBatch letter parse ctx (gx_Output x)")
  case (Inr b)
  obtain inp where out: "elems (fo_Proposals (gx_Output x)) = map declaration_proposal (gx_Declarations x)"
    and inp: "ExtractGoParserFile letter parse inp = Inr x" using extracted_output[OF assms(1)] by blast
  have "distinct (map po_ProposalLocalID (elems (fo_Proposals (gx_Output x))))" using materialized[OF Inr] by metis
  then have "distinct (map gd_ProposalLocalID (gx_Declarations x))"
    by (simp add: out declaration_proposal_def comp_def)
  then have "gd_ProposalLocalID (gx_Declarations x ! i) \<noteq> gd_ProposalLocalID (gx_Declarations x ! j)"
    using assms(2,3) by (auto simp: distinct_conv_nth dest!: spec[of _ i])
  moreover have "gx_Declarations x ! i \<in> set (gx_Declarations x)" "gx_Declarations x ! j \<in> set (gx_Declarations x)"
    using assms(2,3) by simp_all
  ultimately have False using extracted_ids[OF inp] assms(4-7) by metis
  then show ?thesis ..
qed blast

section \<open>Witnesses\<close>

text \<open>Two files of one declaration each: one variable, and two blank variables.\<close>

definition code_input :: "string \<Rightarrow> ManualTextInput" where
  "code_input source = \<lparr>mt_ManualReviewProfile = None, mt_SourceSystem = SourceSystemCodeFile, mt_SourceID = ''p.go'',
    mt_SourceVersion = ''c1'', mt_Raw = source,
    mt_OriginMetadata = [(''repo_id'', ''r''), (''commit_sha'', ''c1''), (''path'', ''p.go'')], mt_RequestID = ''q'', mt_AttemptNumber = 0\<rparr>"

definition code_runner :: GoParserExtractorRunner where
  "code_runner = \<lparr>gr_repoID = ''r'', gr_commitSHA = ''c1'', gr_path = ''p.go''\<rparr>"

definition ident_at :: "string \<Rightarrow> int \<Rightarrow> int \<Rightarrow> int \<Rightarrow> Ident" where
  "ident_at name l i j = \<lparr>id_Name = name, id_Pos = \<lparr>pos_Line = l, pos_Offset = i\<rparr>, id_End = \<lparr>pos_Line = l, pos_Offset = j\<rparr>\<rparr>"

definition one_source :: string where
  "one_source = ''package p'' @ [newline_byte] @ ''var a = 1''"

definition one_file :: File where
  "one_file = \<lparr>gf_Name = Some (ident_at ''p'' 1 8 9), gf_Decls = [GenDecl VarTok [ValueSpec [ident_at ''a'' 2 14 15]]]\<rparr>"

definition two_source :: string where
  "two_source = ''package p'' @ [newline_byte] @ ''var _, _ = 1, 2''"

definition two_file :: File where
  "two_file = \<lparr>gf_Name = Some (ident_at ''p'' 1 8 9),
    gf_Decls = [GenDecl VarTok [ValueSpec [ident_at ''_'' 2 14 15, ident_at ''_'' 2 17 18]]]\<rparr>"

lemma code_names: "plain_name ''p''" "plain_name ''a''" "plain_name ''_''"
  by (simp_all add: plain_name_def trim_space_solid solid_def)

lemma one_plain: "plain_file one_source one_file"
  using code_names by (simp add: plain_file_def one_file_def one_source_def file_idents_def plain_ident_def ident_in_def ident_at_def
    codeLineForOffset_def slice_of_def ident_range_def)

lemma two_plain: "plain_file two_source two_file"
  using code_names by (simp add: plain_file_def two_file_def two_source_def file_idents_def plain_ident_def ident_in_def ident_at_def
    codeLineForOffset_def slice_of_def ident_range_def)

lemma code_runner_new: "NewGoParserExtractorRunner ''r'' ''c1'' ''p.go'' = Inr code_runner"
  by (simp add: NewGoParserExtractorRunner_def code_runner_def trim_space_solid solid_def)

lemma code_source_context:
  assumes "utf8_valid source"
  obtains src ctx where "buildManualSourceContext (code_input source) = Inr src"
    "buildAttemptContextFromSourceWithDefinition src ''q'' 1 \<lparr>di_Name = [], di_Version = [], di_Config = []\<rparr> = Inr ctx"
proof -
  obtain src where src: "buildManualSourceContext (code_input source) = Inr src"
    using assms by (auto simp: buildManualSourceContext_def buildManualSource_def renderingContract_def buildLineSpanCatalog_def
      buildManualReviewProfile_def sourceIntakePayloadHash_def code_input_def Let_def)
  obtain d where "buildExtractorDefinition \<lparr>di_Name = [], di_Version = [], di_Config = []\<rparr> = Inr d"
    using default_definition by blast
  then obtain ctx where "buildAttemptContextFromSourceWithDefinition src ''q'' 1 \<lparr>di_Name = [], di_Version = [], di_Config = []\<rparr> = Inr ctx"
    by (simp add: buildAttemptContextFromSourceWithDefinition_def buildAttemptContextFromSourceWithDefinitionAndSession_def Let_def)
  with src show thesis by (rule that)
qed

lemma code_origin:
  "mt_SourceSystem (code_input s) = SourceSystemCodeFile" "mt_SourceVersion (code_input s) = gr_commitSHA code_runner"
  "trim_space (text_at (mt_OriginMetadata (code_input s)) ''repo_id'') = gr_repoID code_runner"
  "trim_space (text_at (mt_OriginMetadata (code_input s)) ''commit_sha'') = gr_commitSHA code_runner"
  "trim_space (text_at (mt_OriginMetadata (code_input s)) ''path'') = gr_path code_runner"
  "mt_Raw (code_input s) = s"
  by (simp_all add: code_input_def code_runner_def text_at_def trim_space_solid solid_def)

lemma one_valid: "utf8_valid one_source" "utf8_valid two_source"
  by (rule utf8_valid_ascii, simp add: one_source_def two_source_def)+

theorem parser_lines_agree_witness:
  "\<exists>src. buildManualSourceContext (code_input one_source) = Inr src \<and>
    goParserLineSpans one_source (ei_Spans (extractorInput src)) = goParserLineSpans one_source []"
proof -
  obtain src where src: "buildManualSourceContext (code_input one_source) = Inr src"
    by (rule code_source_context[OF one_valid(1)])
  from parser_lines_agree[OF src] src show ?thesis by (simp add: code_origin)
qed

theorem parsed_file_materializes_witness:
  "\<exists>src ctx x b. buildManualSourceContext (code_input one_source) = Inr src \<and>
    GoParserExtractorRunner_Run (\<lambda>_. True) (\<lambda>_ _. Some one_file) code_runner (extractorInput src) = Inr x \<and>
    length (gx_Declarations x) = 1 \<and>
    materializeBatch (\<lambda>_. True) (\<lambda>_ _. Some one_file) ctx (gx_Output x) = Inr b"
proof -
  obtain src ctx where src: "buildManualSourceContext (code_input one_source) = Inr src"
    and ctx: "buildAttemptContextFromSourceWithDefinition src ''q'' 1 \<lparr>di_Name = [], di_Version = [], di_Config = []\<rparr> = Inr ctx"
    by (rule code_source_context[OF one_valid(1)])
  obtain x where x: "GoParserExtractorRunner_Run (\<lambda>_. True) (\<lambda>_ _. Some one_file) code_runner (extractorInput src) = Inr x"
    "length (gx_Declarations x) = length (concat (map declared (gf_Decls one_file)))"
    "(\<exists>b. materializeBatch (\<lambda>_. True) (\<lambda>_ _. Some one_file) ctx (gx_Output x) = Inr b) \<longleftrightarrow>
      distinct (map gd_ProposalLocalID (gx_Declarations x))"
    using parsed_file_materializes[OF src code_runner_new code_origin(1-5), of "\<lambda>_ _. Some one_file" one_file, OF refl _ ctx,
      where letter = "\<lambda>_. True"] one_plain unfolding code_origin(6) by blast
  have "length (gx_Declarations x) = 1" using x(2) by (simp add: one_file_def)
  then have "distinct (map gd_ProposalLocalID (gx_Declarations x))" by (cases "gx_Declarations x") auto
  then show ?thesis using src x \<open>length (gx_Declarations x) = 1\<close> by blast
qed

theorem repeated_declaration_blocks_file_witness:
  "plain_file two_source two_file \<and>
   (\<exists>src x. buildManualSourceContext (code_input two_source) = Inr src \<and>
      GoParserExtractorRunner_Run (\<lambda>_. True) (\<lambda>_ _. Some two_file) code_runner (extractorInput src) = Inr x \<and>
      (\<forall>ctx. \<exists>e. materializeBatch (\<lambda>_. True) (\<lambda>_ _. Some two_file) ctx (gx_Output x) = Inl e))"
proof -
  obtain src ctx where src: "buildManualSourceContext (code_input two_source) = Inr src"
    and ctx: "buildAttemptContextFromSourceWithDefinition src ''q'' 1 \<lparr>di_Name = [], di_Version = [], di_Config = []\<rparr> = Inr ctx"
    by (rule code_source_context[OF one_valid(2)])
  let ?f = "\<lparr>fi_RepoID = gr_repoID code_runner, fi_CommitSHA = gr_commitSHA code_runner, fi_Path = gr_path code_runner,
    fi_Source = mt_Raw (code_input two_source)\<rparr>"
  obtain x where x: "GoParserExtractorRunner_Run (\<lambda>_. True) (\<lambda>_ _. Some two_file) code_runner (extractorInput src) = Inr x"
    and e: "extracted (\<lambda>_. True) ?f two_file (sx_Spans ctx) x"
    using run_file[OF src code_runner_new code_origin(1-5), of "\<lambda>_ _. Some two_file" two_file, OF refl _ ctx refl,
      where letter = "\<lambda>_. True"] two_plain unfolding code_origin(6) by blast
  obtain ds where ds: "list_all2 (described (\<lambda>_. True) ?f ''p'' (sx_Spans ctx)) (file_idents two_file) ds"
    "gx_Declarations x = sort_key (\<lambda>d. (gd_StartLine d, gd_Name d)) ds"
    using e by (auto simp: extracted_def two_file_def ident_at_def)
  obtain d d' where dd: "ds = [d, d']" "gd_Kind d = ''var''" "gd_Kind d' = ''var''" "gd_Name d = ''_''" "gd_Name d' = ''_''"
    "gd_Package d = ''p''" "gd_Package d' = ''p''" "gd_StartLine d = 2" "gd_StartLine d' = 2"
    using ds(1) by (auto simp: two_file_def file_idents_def list_all2_Cons1 described_def ident_at_def)
  have decls: "gx_Declarations x = [d, d']" using ds(2) dd by simp
  have "\<exists>e. materializeBatch (\<lambda>_. True) (\<lambda>_ _. Some two_file) c (gx_Output x) = Inl e" for c
    using repeated_declaration_blocks_file[OF x, of 0 1] by (simp add: decls dd)
  then show ?thesis using two_plain src x by blast
qed

end
