(* ===== verification/Spec2Isabelle.thy ===== *)
theory Spec2Isabelle
  imports GoTime EvidenceGraph JointCurrentness CurrentUse ConflictCore WorkProperties WorkTickProperties
    WorkMaintenanceProperties SourceProperties GoParserProperties
begin

text \<open>
  Verification of the evidence core of ahe-mcp.

  The program.  A reviewed store of evidence: claims are the nodes of a canonical graph; a reviewed
  replacement supersedes earlier claims, through an append-only chain of admission events; an initial
  registration enrols a claim that no event mentions; a projection recomputes from the chain which
  claims are current and refuses stored rows that differ from the replay; a use gate decides which claims
  an action may rest on; a solver, which is not trusted, decides whether declared conditions contradict
  each other.  Before that, extractors turn raw sources into proposals, and a queue of work decides what is
  extracted: a proposal refers to lines of a source by name, and the controller resolves every name to
  bytes and verifies what is said of them.  Every identity is the SHA-256 of a JSON text.

  Theories and sources (paths under \<open>src/\<close>).
  \<^item> \<open>Prelude\<close>: errors with their sentinels as values, early returns, loops that stop at the first
    error, \<open>int64\<close>, slices whose nil-ness is observable.
  \<^item> \<open>GoStrings\<close>, \<open>GoScan\<close>, \<open>GoJson\<close>, \<open>GoTime\<close>, \<open>GoMap\<close>, \<open>Sha256\<close>: the parts of Go's standard library
    that the code uses (\<open>strings\<close>, \<open>unicode/utf8\<close>, \<open>encoding/hex\<close>, \<open>bufio\<close>, \<open>strconv\<close>, \<open>encoding/json\<close>,
    \<open>time\<close>, \<open>crypto/sha256\<close> and maps).  \<open>marshal_inj\<close>: a JSON text determines the value.
  \<^item> \<open>EvidenceGraph\<close>: \<open>internal/evidencegraph/canonical.go\<close>, the artifact and its validation.
  \<^item> \<open>Supersession\<close>: \<open>internal/evidencesupersession/supersession.go\<close>, requests, decisions, events and
    their identities.  The locale of hash commitments is interpreted for each kind of payload.
  \<^item> \<open>Kahn\<close>, \<open>Closure\<close>: \<open>closure.go\<close>, \<open>closure_hash.go\<close>, \<open>closure_validation.go\<close>, the projection of one
    lineage.  \<open>Lineage\<close> is the abstract machine of supersessions; \<open>ClosureHistory\<close>, \<open>ClosureReplay\<close> and
    \<open>ClosureProjection\<close> prove that a history is one chain, that the replay simulates the machine, and
    that the projection is the frontier of the machine's final state.
  \<^item> \<open>Registration\<close>, \<open>JointClosure\<close>: \<open>registration.go\<close>, \<open>joint_closure.go\<close>, \<open>joint_replay.go\<close>; the proofs
    in \<open>JointReplay\<close>, \<open>JointProjection\<close>, \<open>JointCurrentness\<close> follow the same plan and reuse the machine.
  \<^item> \<open>EvidenceUse\<close>: \<open>internal/evidenceuse/state.go\<close>, \<open>policy.go\<close>, \<open>verification.go\<close>.  \<open>UseSpec\<close> defines
    what usable and excluded mean without a search; \<open>UseAssessment\<close> and \<open>UseProperties\<close> prove that the
    depth-first assessment decides them; \<open>CurrentUse\<close> holds the properties.
  \<^item> \<open>LogicCNF\<close>: \<open>logicresolver/cnf.go\<close>, \<open>limits.go\<close>, \<open>result.go\<close>; \<open>Cadical\<close>: \<open>logicresolver/cadical\<close> and
    the query directory of \<open>logicresolver/internal/toolrun/workspace.go\<close>.
  \<^item> \<open>Consistency\<close>: \<open>internal/evidenceingestion/consistency_check.go\<close>, \<open>consistency_localization.go\<close>, and of
    \<open>consistency_scope.go\<close> and \<open>consistency_policy.go\<close> the scope and the selection.  \<open>ConsistencyCompile\<close> proves
    that compilation keeps the meaning of the conditions, \<open>ConsistencyCheck\<close> that a conclusive outcome is
    right, \<open>ConflictCore\<close> that a localised conflict is irreducible.  These rest on \<open>Solve_answer\<close> of
    \<open>Cadical\<close>, not on the solver.

  \<^item> \<open>IngestionBase\<close>: the error kinds and identities of \<open>internal/evidenceingestion\<close> (\<open>errors.go\<close>, \<open>ids.go\<close>)
    and the tables under it; \<open>GitObservation\<close>: \<open>git_repository_change_observation.go\<close>.
  \<^item> \<open>WorkState\<close>, \<open>WorkClaim\<close>, \<open>WorkLease\<close>, \<open>WorkRetry\<close>: the queue of extraction work, in the files
    \<open>repository_extraction_work*.go\<close> that schedule, claim, renew, finish, recover, classify and retry.
    \<open>WorkSteps\<close> lists what a successful operation did, \<open>WorkInvariant\<close> states the invariant of the
    tables, \<open>WorkPreserve\<close> proves it for every reachable state, \<open>WorkExample\<close> runs the operations from
    empty tables, and \<open>WorkProperties\<close> holds the properties.  \<open>WorkBlocked\<close>: a stream that a retry of
    older work has blocked.
  \<^item> \<open>WorkTick\<close>: the listings of expired claims and due decisions and the retry controller
    (\<open>repository_extraction_work_expired_claim.go\<close>, \<open>_due_retry_decision.go\<close>, \<open>_retry_controller_tick.go\<close>);
    \<open>WorkBatch\<close>: what a batch of releases does to the rows; \<open>WorkTickProperties\<close>: a tick refines the queue
    and consumes exactly its batch, and the batch that fails while its stream has no newer pending work.
  \<^item> \<open>WorkExecution\<close>: \<open>repository_extraction_work_execution.go\<close>, \<open>_execution_heartbeat.go\<close> and
    \<open>_execution_repair.go\<close>, one execution for each claim, its heartbeats and the repair of an expired one;
    \<open>WorkMaintenance\<close>: \<open>_expired_execution.go\<close> and \<open>_expired_maintenance_tick.go\<close>, the listing of expired
    executions and the tick that repairs a batch of them.  \<open>WorkExecutionInvariant\<close>: the operations keep
    the invariant of executions, heartbeats and repairs; \<open>WorkMaintenanceProperties\<close>: a tick makes
    exactly one transition for each claim of its batch, who owns an execution, replay of a repair, and the blocked stream that also stops maintenance.

  \<^item> \<open>SourceSpans\<close>: \<open>internal/evidenceingestion/spans.go\<close>, the snapshot, the view and its catalog of lines;
    \<open>SourceAttempt\<close>: the contexts of \<open>materialize.go\<close>, \<open>extractor_input.go\<close> and the review profile of
    \<open>manual_review_profile.go\<close> and \<open>_contract.go\<close>.
  \<^item> \<open>CodeFact\<close>: \<open>code_fact.go\<close>; \<open>GoParserExtractor\<close>: \<open>go_parser_extractor.go\<close>, from the syntax tree of
    a file to its declarations; \<open>SourceMaterialize\<close>: \<open>materializeBatch\<close> and \<open>document_section_coverage.go\<close>;
    \<open>ExactQuote\<close>: \<open>exact_quote_extractor.go\<close> and \<open>exact_quote_extractor_selection.go\<close>.
  \<^item> \<open>SourceGrounding\<close> holds the lemmas on an accepted batch; \<open>SourceProperties\<close>: the catalog is the list of
    lines, references carry the bytes of the view, a quoted statement stands in the source, and which
    outputs are materialised; \<open>SourceCoverage\<close>: what an accepted coverage of sections is.  \<open>GoParserLines\<close>,
    \<open>GoParserFiles\<close> and \<open>GoParserProperties\<close>: the line tables of the parser extractor agree with the
    catalog, and the controller accepts what that extractor makes, up to repeated names.

  Conventions.  A record of the model is a struct of the code, field by field, with a prefix of two
  letters; an operation keeps its name, with the receiver's type before it where two types share it; a
  loop of the code is a definition of its own.  An error is \<open>Inl\<close> of its sentinel and of the literal part
  of its text.  A Go map is a function, or an association list with distinct keys where its size or a
  range over it matters; the order of such a range never shows in a successful result.  Sorting by a key
  that repeats is never relied on.

  Termination.  All definitions are total.  The search of \<open>Assess\<close> terminates by the number of nodes that are not
  on its stack, the cycle check by the number of nodes and edges left, a loop over the lines of a source by
  the bytes that remain; no fuel is used.

  The work queue.  An operation is a function from the tables and an instant to an error or to a
  result and new tables; a failed one is rolled back.  A \<open>work_step\<close> is a successful operation at any
  instant: no property assumes that clocks agree.  Operations are modelled one at a time, because each takes
  the lock of its stream before it reads or writes a row of it.  A time column is a function \<open>ts\<close> that
  rounds down, keeps the order and commutes with whole milliseconds (\<open>timestamp_column\<close>; \<open>microseconds\<close>
  is the instance).  Source generations are recorded by other operations: a step adds any.
  A heartbeat is two transactions, so it returns its tables beside its outcome.  The canonical directory of
  an execution is the parameter \<open>canonicalDirectory\<close>, because it reads the file system.
  The order of a listing after its leading instant is the collation of the database, a parameter
  \<open>arrange\<close>; \<open>SKIP LOCKED\<close> skips nothing when operations run one at a time.

  Parameters.  SHA-256 is computed by the model; where a property needs that hashes do not collide it
  says so in its conclusion (equal, or a collision between two given texts).  The context, the file
  system, the solver, the proof checker and the callbacks of the caller are arguments; so are \<open>go/parser\<close>
  (\<open>parse\<close>, from a path and its bytes to a syntax tree with positions), the letters and digits of Unicode
  (\<open>letter\<close>) and the reflective decoder of \<open>encoding/json\<close> (\<open>decode\<close>), of which nothing is assumed.  Only
  \<open>parsed_file_materializes\<close> asks that an identifier of the tree lies on one line at its offset.  \<open>drat_sound\<close> is the
  only hypothesis on a tool: what \<open>drat-trim\<close> verifies is refuted.

  Not modelled.  The SQL of the PostgreSQL stores and its migrations, the MCP servers and their transport,
  the extractors that call language servers and models, and the process control of the tools are I/O
  around these parts; \<open>PROJECT.json\<close> lists them.
\<close>

end
